(* ===== verification/Prelude.thy ===== *)
theory Prelude
  imports Main "HOL-Library.List_Lexorder" "HOL-Library.Char_ord"
begin

text \<open>
  Shared vocabulary of the development: results of fallible Rust code as sums, the checked and
  saturating arithmetic of \<^verbatim>\<open>u64\<close> and \<^verbatim>\<open>usize\<close>, three-way comparisons (\<^verbatim>\<open>std::cmp::Ordering\<close>)
  with the interface a total order has to satisfy, and generic facts on lists.
\<close>

named_theorems result_simps \<open>inversion of successful and failed results\<close>
named_theorems limit_simps \<open>the numeric limits of the program\<close>

section \<open>Results\<close>

text \<open>A Rust \<^verbatim>\<open>Result<A, E>\<close> is \<open>'e + 'a\<close> with \<open>Inl\<close> for the error; \<open>and_then\<close> is the \<^verbatim>\<open>?\<close> operator.\<close>

definition and_then :: "'e + 'a \<Rightarrow> ('a \<Rightarrow> 'e + 'b) \<Rightarrow> 'e + 'b" where
  "and_then r f = (case r of Inl e \<Rightarrow> Inl e | Inr x \<Rightarrow> f x)"

definition map_err :: "('e \<Rightarrow> 'd) \<Rightarrow> 'e + 'a \<Rightarrow> 'd + 'a" where
  "map_err g r = (case r of Inl e \<Rightarrow> Inl (g e) | Inr x \<Rightarrow> Inr x)"

definition ok_or :: "'a option \<Rightarrow> 'e \<Rightarrow> 'e + 'a" where
  "ok_or r e = (case r of None \<Rightarrow> Inl e | Some x \<Rightarrow> Inr x)"

definition ensure :: "bool \<Rightarrow> 'e \<Rightarrow> 'e + unit" where
  "ensure b e = (if b then Inr () else Inl e)"

definition is_ok :: "'e + 'a \<Rightarrow> bool" where
  "is_ok r = (case r of Inl _ \<Rightarrow> False | Inr _ \<Rightarrow> True)"

lemma and_then_simps [simp]:
  "and_then (Inl e) f = Inl e" "and_then (Inr x) f = f x"
  by (simp_all add: and_then_def)

lemma and_then_Inr [result_simps]:
  "and_then r f = Inr y \<longleftrightarrow> (\<exists>x. r = Inr x \<and> f x = Inr y)"
  by (auto simp: and_then_def split: sum.splits)

lemma and_then_Inl [result_simps]:
  "and_then r f = Inl e \<longleftrightarrow> r = Inl e \<or> (\<exists>x. r = Inr x \<and> f x = Inl e)"
  by (auto simp: and_then_def split: sum.splits)

lemma and_then_cong [fundef_cong]:
  "r = s \<Longrightarrow> (\<And>x. s = Inr x \<Longrightarrow> f x = g x) \<Longrightarrow> and_then r f = and_then s g"
  by (auto simp: and_then_def split: sum.splits)

lemma map_err_simps [simp]:
  "map_err g (Inl e) = Inl (g e)" "map_err g (Inr x) = Inr x"
  "map_err g r = Inr x \<longleftrightarrow> r = Inr x"
  by (auto simp: map_err_def split: sum.splits)

lemma ok_or_simps [simp]:
  "ok_or None e = Inl e" "ok_or (Some x) e = Inr x"
  "ok_or r e = Inr y \<longleftrightarrow> r = Some y"
  by (auto simp: ok_or_def split: option.splits)

lemma ensure_simps [simp]:
  "ensure True e = Inr ()" "ensure False e = Inl e"
  "ensure b e = Inr u \<longleftrightarrow> b" "ensure b e = Inl d \<longleftrightarrow> \<not> b \<and> d = e"
  by (auto simp: ensure_def)

lemma is_ok_simps [simp]: "is_ok (Inl e) = False" "is_ok (Inr x) = True"
  by (simp_all add: is_ok_def)

lemma is_ok_iff: "is_ok r \<longleftrightarrow> (\<exists>x. r = Inr x)"
  by (cases r) auto

lemma not_is_ok_iff: "\<not> is_ok r \<longleftrightarrow> (\<exists>e. r = Inl e)"
  by (cases r) auto

lemma map_sum_Some [simp]:
  "map_sum id Some r \<noteq> Inr None" "map_sum id Some r = Inr (Some x) \<longleftrightarrow> r = Inr x"
  "map_sum id f r = Inl e \<longleftrightarrow> r = Inl e"
  by (cases r; simp)+

text \<open>A \<^verbatim>\<open>for\<close> loop whose body only validates and leaves at the first error.\<close>

fun each_ok :: "('a \<Rightarrow> 'e + unit) \<Rightarrow> 'a list \<Rightarrow> 'e + unit" where
  "each_ok f [] = Inr ()"
| "each_ok f (x # xs) = and_then (f x) (\<lambda>_. each_ok f xs)"

lemma each_ok_Inr [simp]: "each_ok f xs = Inr u \<longleftrightarrow> (\<forall>x\<in>set xs. f x = Inr ())"
  by (induction xs) (auto simp: result_simps)

lemma each_ok_cong [fundef_cong]:
  "xs = ys \<Longrightarrow> (\<And>x. x \<in> set ys \<Longrightarrow> f x = g x) \<Longrightarrow> each_ok f xs = each_ok g ys"
  by (induction xs arbitrary: ys) auto

section \<open>Machine integers\<close>

text \<open>
  \<^verbatim>\<open>u64\<close> and \<^verbatim>\<open>usize\<close> (64-bit targets) are naturals; each operation of the source that can meet the
  bound is written with it: \<^verbatim>\<open>checked_add\<close>, \<^verbatim>\<open>saturating_add\<close>, \<^verbatim>\<open>wrapping_add\<close>.
\<close>

definition u64_max :: nat where "u64_max = 2 ^ 64 - 1"

definition checked_add :: "nat \<Rightarrow> nat \<Rightarrow> nat option" where
  "checked_add a b = (if a + b \<le> u64_max then Some (a + b) else None)"

definition saturating_add :: "nat \<Rightarrow> nat \<Rightarrow> nat" where
  "saturating_add a b = min u64_max (a + b)"

definition wrapping_add :: "nat \<Rightarrow> nat \<Rightarrow> nat" where
  "wrapping_add a b = (a + b) mod 2 ^ 64"

lemma u64_max_eq [limit_simps]: "u64_max = 18446744073709551615"
  by (simp add: u64_max_def)

lemma checked_add_Some [simp]: "checked_add a b = Some c \<longleftrightarrow> c = a + b \<and> a + b \<le> u64_max"
  by (auto simp: checked_add_def)

lemma checked_add_None [simp]: "checked_add a b = None \<longleftrightarrow> u64_max < a + b"
  by (auto simp: checked_add_def)

lemma saturating_add_le: "n < u64_max \<Longrightarrow> saturating_add a b \<le> n \<longleftrightarrow> a + b \<le> n"
  by (auto simp: saturating_add_def)

lemma wrapping_add_less: "wrapping_add a b \<le> u64_max"
  by (simp add: wrapping_add_def u64_max_def mod_Suc_le_divisor less_Suc_eq_le[symmetric])

section \<open>Three-way comparison\<close>

datatype ordering = Less | Equal | Greater

fun reverse_ord :: "ordering \<Rightarrow> ordering" where
  "reverse_ord Less = Greater"
| "reverse_ord Equal = Equal"
| "reverse_ord Greater = Less"

fun then_with :: "ordering \<Rightarrow> ordering \<Rightarrow> ordering" where
  "then_with Equal o2 = o2"
| "then_with o1 o2 = o1"

definition lin_cmp :: "'a::linorder \<Rightarrow> 'a \<Rightarrow> ordering" where
  "lin_cmp a b = (if a < b then Less else if a = b then Equal else Greater)"

text \<open>Lexicographic comparison of slices and iterators.\<close>

fun list_cmp :: "('a \<Rightarrow> 'a \<Rightarrow> ordering) \<Rightarrow> 'a list \<Rightarrow> 'a list \<Rightarrow> ordering" where
  "list_cmp c [] [] = Equal"
| "list_cmp c [] (y # ys) = Less"
| "list_cmp c (x # xs) [] = Greater"
| "list_cmp c (x # xs) (y # ys) = then_with (c x y) (list_cmp c xs ys)"

lemma list_cmp_cong [fundef_cong]:
  "xs = xs' \<Longrightarrow> ys = ys' \<Longrightarrow> (\<And>x y. x \<in> set xs' \<Longrightarrow> y \<in> set ys' \<Longrightarrow> c x y = d x y) \<Longrightarrow>
   list_cmp c xs ys = list_cmp d xs' ys'"
proof (induction c xs ys arbitrary: xs' ys' rule: list_cmp.induct)
  case (4 c x xs y ys)
  then show ?case by (cases "c x y") auto
qed auto

text \<open>
  What \<^verbatim>\<open>Ord\<close> demands of an implementation: reflexivity, antisymmetry up to the reported equality, and
  transitivity. Clients of an ordered container rely on exactly these laws.
\<close>

locale total_cmp =
  fixes cmp :: "'a \<Rightarrow> 'a \<Rightarrow> ordering" and dom :: "'a \<Rightarrow> bool"
  assumes cmp_refl: "dom a \<Longrightarrow> cmp a a = Equal"
    and cmp_flip: "dom a \<Longrightarrow> dom b \<Longrightarrow> cmp b a = reverse_ord (cmp a b)"
    and cmp_trans: "dom a \<Longrightarrow> dom b \<Longrightarrow> dom c \<Longrightarrow>
      cmp a b \<noteq> Greater \<Longrightarrow> cmp b c \<noteq> Greater \<Longrightarrow> cmp a c \<noteq> Greater"
begin

lemma less_trans: "dom a \<Longrightarrow> dom b \<Longrightarrow> dom c \<Longrightarrow> cmp a b = Less \<Longrightarrow> cmp b c \<noteq> Greater \<Longrightarrow> cmp a c = Less"
  by (metis cmp_flip cmp_trans ordering.distinct ordering.exhaust reverse_ord.simps)

lemma less_trans2: "dom a \<Longrightarrow> dom b \<Longrightarrow> dom c \<Longrightarrow> cmp a b \<noteq> Greater \<Longrightarrow> cmp b c = Less \<Longrightarrow> cmp a c = Less"
  by (metis cmp_flip cmp_trans ordering.distinct ordering.exhaust reverse_ord.simps)

lemma equal_sym: "dom a \<Longrightarrow> dom b \<Longrightarrow> cmp a b = Equal \<Longrightarrow> cmp b a = Equal"
  by (simp add: cmp_flip [of a b])

lemma equal_trans: "dom a \<Longrightarrow> dom b \<Longrightarrow> dom c \<Longrightarrow> cmp a b = Equal \<Longrightarrow> cmp b c = Equal \<Longrightarrow> cmp a c = Equal"
  by (metis cmp_flip cmp_trans ordering.distinct ordering.exhaust reverse_ord.simps)

lemma equal_cong: "dom a \<Longrightarrow> dom b \<Longrightarrow> dom c \<Longrightarrow> cmp a b = Equal \<Longrightarrow> cmp a c = cmp b c"
  by (metis cmp_flip equal_trans less_trans less_trans2 ordering.distinct ordering.exhaust reverse_ord.simps)

lemma greater_iff: "dom a \<Longrightarrow> dom b \<Longrightarrow> cmp a b = Greater \<longleftrightarrow> cmp b a = Less"
  by (cases "cmp a b") (simp_all add: cmp_flip [of a b])

end

lemma reverse_ord_then_with [simp]: "reverse_ord (then_with a b) = then_with (reverse_ord a) (reverse_ord b)"
  by (cases a) auto

lemma reverse_ord_idem [simp]: "reverse_ord (reverse_ord a) = a"
  by (cases a) auto

interpretation lin: total_cmp "lin_cmp :: 'a::linorder \<Rightarrow> 'a \<Rightarrow> ordering" "\<lambda>_. True"
  by unfold_locales (auto simp: lin_cmp_def split: if_splits)

lemma lin_cmp_simps [simp]:
  "lin_cmp a b = Less \<longleftrightarrow> a < b" "lin_cmp a b = Equal \<longleftrightarrow> a = b" "lin_cmp a b = Greater \<longleftrightarrow> b < a"
  by (auto simp: lin_cmp_def)

lemma list_cmp_refl:
  assumes "\<forall>x\<in>set xs. c x x = Equal" shows "list_cmp c xs xs = Equal"
  using assms by (induction xs) auto

lemma list_cmp_flip:
  assumes "\<forall>x\<in>set xs. \<forall>y\<in>set ys. c y x = reverse_ord (c x y)"
  shows "list_cmp c ys xs = reverse_ord (list_cmp c xs ys)"
  using assms by (induction c xs ys rule: list_cmp.induct) auto

lemma then_with_not_Greater:
  "then_with a b \<noteq> Greater \<longleftrightarrow> a = Less \<or> a = Equal \<and> b \<noteq> Greater"
  by (cases a) auto

text \<open>Transitivity of the lexicographic order from the laws of the element order on the elements at hand.\<close>

lemma list_cmp_trans:
  assumes "\<And>x y z. x \<in> set xs \<Longrightarrow> y \<in> set ys \<Longrightarrow> z \<in> set zs \<Longrightarrow>
      (c x y = Less \<longrightarrow> c y z \<noteq> Greater \<longrightarrow> c x z = Less) \<and>
      (c x y = Equal \<longrightarrow> c y z = Less \<longrightarrow> c x z = Less) \<and>
      (c x y = Equal \<longrightarrow> c y z = Equal \<longrightarrow> c x z = Equal)"
    and "list_cmp c xs ys \<noteq> Greater" and "list_cmp c ys zs \<noteq> Greater"
  shows "list_cmp c xs zs \<noteq> Greater"
  using assms
proof (induction xs arbitrary: ys zs)
  case Nil
  then show ?case by (cases zs) auto
next
  case (Cons x xs)
  then obtain y ys' where ys: "ys = y # ys'" by (cases ys) auto
  with Cons.prems obtain z zs' where zs: "zs = z # zs'" by (cases zs) auto
  have el: "(c x y = Less \<longrightarrow> c y z \<noteq> Greater \<longrightarrow> c x z = Less) \<and>
      (c x y = Equal \<longrightarrow> c y z = Less \<longrightarrow> c x z = Less) \<and>
      (c x y = Equal \<longrightarrow> c y z = Equal \<longrightarrow> c x z = Equal)"
    by (rule Cons.prems(1)) (simp_all add: ys zs)
  have IH: "list_cmp c xs ys' \<noteq> Greater \<Longrightarrow> list_cmp c ys' zs' \<noteq> Greater \<Longrightarrow> list_cmp c xs zs' \<noteq> Greater"
    by (rule Cons.IH, rule Cons.prems(1)) (auto simp: ys zs)
  show ?case
    using Cons.prems(2,3) el IH
    by (simp add: ys zs then_with_not_Greater) (cases "c y z"; auto)
qed

lemma list_cmp_Equal:
  "list_cmp c xs ys = Equal \<longleftrightarrow> list_all2 (\<lambda>x y. c x y = Equal) xs ys"
proof (induction c xs ys rule: list_cmp.induct)
  case (4 c x xs y ys)
  then show ?case by (cases "c x y") auto
qed auto

section \<open>Lists\<close>

definition list_get :: "'a list \<Rightarrow> nat \<Rightarrow> 'a option" where
  "list_get xs i = (if i < length xs then Some (xs ! i) else None)"

fun position :: "('a \<Rightarrow> bool) \<Rightarrow> 'a list \<Rightarrow> nat option" where
  "position p [] = None"
| "position p (x # xs) = (if p x then Some 0 else map_option Suc (position p xs))"

fun find_map :: "('a \<Rightarrow> 'b option) \<Rightarrow> 'a list \<Rightarrow> 'b option" where
  "find_map f [] = None"
| "find_map f (x # xs) = (case f x of Some y \<Rightarrow> Some y | None \<Rightarrow> find_map f xs)"

fun collect_options :: "'a option list \<Rightarrow> 'a list option" where
  "collect_options [] = Some []"
| "collect_options (None # xs) = None"
| "collect_options (Some x # xs) = map_option ((#) x) (collect_options xs)"

lemma find_map_cong [fundef_cong]:
  "xs = ys \<Longrightarrow> (\<And>x. x \<in> set ys \<Longrightarrow> f x = g x) \<Longrightarrow> find_map f xs = find_map g ys"
  by (induction xs arbitrary: ys) (auto split: option.splits)

lemma position_Some: "position p xs = Some i \<Longrightarrow> i < length xs \<and> p (xs ! i) \<and> (\<forall>j<i. \<not> p (xs ! j))"
proof (induction xs arbitrary: i)
  case (Cons x xs)
  then show ?case by (cases i) (auto split: if_splits simp: less_Suc_eq_0_disj)
qed simp

lemma position_None [simp]: "position p xs = None \<longleftrightarrow> (\<forall>x\<in>set xs. \<not> p x)"
  by (induction xs) auto

lemma find_Some_mem: "find p xs = Some x \<Longrightarrow> x \<in> set xs \<and> p x"
  by (induction xs) (auto split: if_splits)

lemma sum_list_filter_le: "sum_list (map (f :: 'a \<Rightarrow> nat) (filter p xs)) \<le> sum_list (map f xs)"
  by (induction xs) auto

end
