(* ===== verification/Storage_String.thy ===== *)
theory Storage_String
  imports Prelude "HOL-Library.Word"
begin

text \<open>
  \<^verbatim>\<open>src/storage/string.rs\<close>: Web Storage strings are sequences of UTF-16 code units, isolated surrogates
  included, and are charged the bytes of their UTF-8 form. The file also fixes how such a string is
  written to disk: as text when it is well-formed UTF-16, as raw code units otherwise.
  The decoder and encoder of the standard library (\<^verbatim>\<open>char::decode_utf16\<close>, \<^verbatim>\<open>str::encode_utf16\<close>,
  \<^verbatim>\<open>String::from_utf16\<close>) are modelled over code points as naturals.
\<close>

type_synonym u16 = "16 word"

text \<open>\<^verbatim>\<open>StorageString\<close>: the cached \<^verbatim>\<open>quota_bytes\<close> field is a function of the units (see \<^verbatim>\<open>from_units\<close>), so
  the derived equality and order of the struct are those of the units.\<close>

type_synonym storage_string = "u16 list"

fun quota_bytes_loop :: "u16 list \<Rightarrow> nat \<Rightarrow> bool \<Rightarrow> nat" where
  "quota_bytes_loop [] bytes preceding_high = bytes"
| "quota_bytes_loop (unit # units) bytes preceding_high =
     (if unit \<le> 0x7f then quota_bytes_loop units (bytes + 1) False
      else if unit \<le> 0x7ff then quota_bytes_loop units (bytes + 2) False
      else quota_bytes_loop units
             (bytes + (if preceding_high \<and> 0xdc00 \<le> unit \<and> unit \<le> 0xdfff then 1 else 3))
             (0xd800 \<le> unit \<and> unit \<le> 0xdbff))"

definition quota_bytes :: "u16 list \<Rightarrow> nat" where
  "quota_bytes units = quota_bytes_loop units 0 False"

definition byte_len :: "storage_string \<Rightarrow> nat" where
  "byte_len s = quota_bytes s"

section \<open>UTF-16 in the standard library\<close>

fun utf16_pair :: "u16 \<Rightarrow> u16 \<Rightarrow> nat" where
  "utf16_pair hi lo = (unat hi - 0xd800) * 0x400 + (unat lo - 0xdc00) + 0x10000"

definition is_high :: "u16 \<Rightarrow> bool" where "is_high u \<longleftrightarrow> 0xd800 \<le> u \<and> u \<le> 0xdbff"
definition is_low :: "u16 \<Rightarrow> bool" where "is_low u \<longleftrightarrow> 0xdc00 \<le> u \<and> u \<le> 0xdfff"

text \<open>\<^verbatim>\<open>char::decode_utf16\<close>: a scalar value, or the unpaired surrogate as an error.\<close>

fun decode_utf16 :: "u16 list \<Rightarrow> (u16 + nat) list" where
  "decode_utf16 [] = []"
| "decode_utf16 [u] = [if is_high u \<or> is_low u then Inl u else Inr (unat u)]"
| "decode_utf16 (u # v # us) =
     (if is_high u \<and> is_low v then Inr (utf16_pair u v) # decode_utf16 us
      else (if is_high u \<or> is_low u then Inl u else Inr (unat u)) # decode_utf16 (v # us))"

definition len_utf8 :: "nat \<Rightarrow> nat" where
  "len_utf8 c = (if c < 0x80 then 1 else if c < 0x800 then 2 else if c < 0x10000 then 3 else 4)"

definition encode_utf16_char :: "nat \<Rightarrow> u16 list" where
  "encode_utf16_char c =
     (if c < 0x10000 then [of_nat c]
      else [of_nat (0xd800 + (c - 0x10000) div 0x400), of_nat (0xdc00 + (c - 0x10000) mod 0x400)])"

definition encode_utf16 :: "nat list \<Rightarrow> u16 list" where
  "encode_utf16 cs = concat (map encode_utf16_char cs)"

fun from_utf16 :: "(u16 + nat) list \<Rightarrow> nat list option" where
  "from_utf16 [] = Some []"
| "from_utf16 (Inl e # xs) = None"
| "from_utf16 (Inr c # xs) = map_option ((#) c) (from_utf16 xs)"

section \<open>The persisted representation\<close>

text \<open>The two forms of the untagged \<^verbatim>\<open>StoredString\<close> enum; text is a sequence of scalar values.\<close>

datatype stored_string = Text "nat list" | Units "u16 list"

definition serialize_string :: "storage_string \<Rightarrow> stored_string" where
  "serialize_string s =
     (case from_utf16 (decode_utf16 s) of Some value \<Rightarrow> Text value | None \<Rightarrow> Units s)"

definition deserialize_string :: "stored_string \<Rightarrow> storage_string" where
  "deserialize_string d = (case d of Text text \<Rightarrow> encode_utf16 text | Units units \<Rightarrow> units)"

section \<open>Quota accounting agrees with scalar decoding\<close>

definition scalar_bytes :: "(u16 + nat) list \<Rightarrow> nat" where
  "scalar_bytes ds = sum_list (map (\<lambda>d. case d of Inl _ \<Rightarrow> 3 | Inr c \<Rightarrow> len_utf8 c) ds)"

lemma quota_bytes_loop_acc: "quota_bytes_loop us (a + b) h = a + quota_bytes_loop us b h"
proof (induction us arbitrary: b h)
  case (Cons u us)
  show ?case
    using Cons [of "b + 1"] Cons [of "b + 2"] Cons [of "b + 3"] by (simp only: quota_bytes_loop.simps add.assoc split: if_split) simp
qed simp

lemma quota_bytes_loop_shift: "quota_bytes_loop us b h = b + quota_bytes_loop us 0 h"
  using quota_bytes_loop_acc [of us b 0 h] by simp

lemma high_low_bounds:
  "is_high u \<Longrightarrow> \<not> u \<le> 0x7ff \<and> \<not> u \<le> 0x7f \<and> \<not> is_low u"
  "is_low u \<Longrightarrow> \<not> u \<le> 0x7ff \<and> \<not> u \<le> 0x7f \<and> \<not> is_high u"
  by (auto simp: is_high_def is_low_def word_le_nat_alt)

lemma len_utf8_pair: "is_high u \<Longrightarrow> is_low v \<Longrightarrow> len_utf8 (utf16_pair u v) = 4"
  by (simp add: len_utf8_def)

lemma len_utf8_unit:
  "u \<le> 0x7f \<Longrightarrow> len_utf8 (unat (u :: u16)) = 1"
  "\<not> u \<le> 0x7f \<Longrightarrow> u \<le> 0x7ff \<Longrightarrow> len_utf8 (unat (u :: u16)) = 2"
  "\<not> u \<le> 0x7ff \<Longrightarrow> len_utf8 (unat (u :: u16)) = 3"
  using unsigned_less [of u] by (auto simp: len_utf8_def word_le_nat_alt)

text \<open>A unit that follows no high surrogate, or is not a low one, is charged like its own decoding.\<close>

lemma quota_step:
  "\<not> (h \<and> is_low u) \<Longrightarrow>
   quota_bytes_loop (u # us) 0 h =
     (if is_high u \<or> is_low u then 3 else len_utf8 (unat u)) + quota_bytes_loop us 0 (is_high u)"
  by (subst quota_bytes_loop.simps, subst (1 2 3) quota_bytes_loop_shift)
    (auto simp: len_utf8_unit high_low_bounds is_high_def [symmetric] is_low_def [symmetric])

lemma quota_pair:
  "is_high u \<Longrightarrow> is_low v \<Longrightarrow> quota_bytes_loop (u # v # us) 0 h = 4 + quota_bytes_loop us 0 False"
  using high_low_bounds(1) [of u] high_low_bounds(2) [of v] quota_bytes_loop_shift [of us 4]
  by (auto simp: is_high_def [symmetric] is_low_def [symmetric] quota_bytes_loop_shift [of us "Suc (Suc (Suc (Suc 0)))"])

lemma scalar_bytes_simps [simp]:
  "scalar_bytes [] = 0"
  "scalar_bytes (Inl e # ds) = 3 + scalar_bytes ds"
  "scalar_bytes (Inr c # ds) = len_utf8 c + scalar_bytes ds"
  by (simp_all add: scalar_bytes_def)

lemma quota_bytes_decode:
  "\<not> (h \<and> us \<noteq> [] \<and> is_low (hd us)) \<Longrightarrow> quota_bytes_loop us 0 h = scalar_bytes (decode_utf16 us)"
proof (induction us arbitrary: h rule: decode_utf16.induct)
  case 1
  then show ?case by simp
next
  case (2 u)
  then show ?case by (simp add: quota_step del: quota_bytes_loop.simps(2))
next
  case (3 u v us)
  show ?case
  proof (cases "is_high u \<and> is_low v")
    case True
    with 3 show ?thesis by (simp add: quota_pair len_utf8_pair del: quota_bytes_loop.simps(2) utf16_pair.simps)
  next
    case False
    then have "quota_bytes_loop (v # us) 0 (is_high u) = scalar_bytes (decode_utf16 (v # us))"
      by (intro "3.IH"(2)) auto
    moreover have "quota_bytes_loop (u # v # us) 0 h =
        (if is_high u \<or> is_low u then 3 else len_utf8 (unat u)) + quota_bytes_loop (v # us) 0 (is_high u)"
      using "3.prems" by (intro quota_step) auto
    ultimately show ?thesis
      using False by (auto simp del: quota_bytes_loop.simps utf16_pair.simps)
  qed
qed

lemma quota_bytes_scalar: "quota_bytes us = scalar_bytes (decode_utf16 us)"
  by (simp add: quota_bytes_def quota_bytes_decode)

section \<open>Round trip through the persisted form\<close>

lemma encode_unit: "\<not> is_high u \<Longrightarrow> \<not> is_low u \<Longrightarrow> encode_utf16_char (unat u) = [u]"
  using unsigned_less [of u] by (simp add: encode_utf16_char_def)

lemma encode_pair: assumes "is_high u" "is_low v"
  shows "encode_utf16_char (utf16_pair u v) = [u, v]"
proof -
  from assms have b: "0xd800 \<le> unat u" "unat u \<le> 0xdbff" "0xdc00 \<le> unat v" "unat v \<le> 0xdfff"
    by (simp_all add: is_high_def is_low_def word_le_nat_alt)
  define a where "a = unat u - 0xd800"
  define c where "c = unat v - 0xdc00"
  have u: "unat u = 0xd800 + a" and v: "unat v = 0xdc00 + c" and c: "c < 0x400"
    using b by (auto simp: a_def c_def)
  have "of_nat (0xd800 + a) = u" "of_nat (0xdc00 + c) = v"
    by (simp_all only: u [symmetric] v [symmetric]) simp_all
  then show ?thesis
    using c by (simp add: encode_utf16_char_def u v)
qed

lemma encode_utf16_Cons [simp]: "encode_utf16 (c # cs) = encode_utf16_char c @ encode_utf16 cs"
  by (simp add: encode_utf16_def)

lemma encode_decode: "from_utf16 (decode_utf16 us) = Some cs \<Longrightarrow> encode_utf16 cs = us"
  by (induction us arbitrary: cs rule: decode_utf16.induct)
    (auto simp: encode_utf16_def encode_unit encode_pair simp del: utf16_pair.simps split: if_splits)

section \<open>Properties\<close>

text \<open>The quota charged for a storage string is the number of UTF-8 bytes of its scalar values, with three
  bytes for each unpaired surrogate (the one-pass loop agrees with decoding first).\<close>

theorem quota_is_utf8_size: "quota_bytes us = scalar_bytes (decode_utf16 us)"
  by (rule quota_bytes_scalar)

text \<open>Every sequence of code units, isolated surrogates included, survives being written to disk and read back.\<close>

theorem stored_string_round_trip: "deserialize_string (serialize_string s) = s"
  by (auto simp: deserialize_string_def serialize_string_def encode_decode split: option.splits)

end
