(* ===== verification/Ordered_Map.thy ===== *)
theory Ordered_Map
  imports Prelude
begin

text \<open>
  \<^verbatim>\<open>BTreeMap\<close> as its in-order sequence of entries: an association list with strictly increasing keys.
  Iteration order, \<^verbatim>\<open>len\<close>, \<^verbatim>\<open>keys().nth(i)\<close> and the serialised form of a map are then those of the
  list. A \<^verbatim>\<open>HashMap\<close> whose iteration order the program never observes uses the same canonical form.
  The locale \<open>keyed_map\<close> states what the clients rely on; \<open>weighted_map\<close> adds the accounting law behind
  the byte quotas.
\<close>

type_synonym ('k, 'v) omap = "('k \<times> 'v) list"

definition om_wf :: "('k::linorder, 'v) omap \<Rightarrow> bool" where
  "om_wf m \<longleftrightarrow> sorted_wrt (<) (map fst m)"

definition om_get :: "('k, 'v) omap \<Rightarrow> 'k \<Rightarrow> 'v option" where
  "om_get m k = map_of m k"

fun om_insert :: "'k::linorder \<Rightarrow> 'v \<Rightarrow> ('k, 'v) omap \<Rightarrow> ('k, 'v) omap" where
  "om_insert k v [] = [(k, v)]"
| "om_insert k v ((a, b) # m) =
     (if k < a then (k, v) # (a, b) # m
      else if k = a then (k, v) # m
      else (a, b) # om_insert k v m)"

definition om_remove :: "'k \<Rightarrow> ('k, 'v) omap \<Rightarrow> ('k, 'v) omap" where
  "om_remove k m = filter (\<lambda>e. fst e \<noteq> k) m"

definition om_contains :: "('k, 'v) omap \<Rightarrow> 'k \<Rightarrow> bool" where
  "om_contains m k \<longleftrightarrow> om_get m k \<noteq> None"

text \<open>\<^verbatim>\<open>collect()\<close> into a map: later entries replace earlier ones.\<close>

definition om_collect :: "('k::linorder \<times> 'v) list \<Rightarrow> ('k, 'v) omap" where
  "om_collect es = fold (\<lambda>e m. om_insert (fst e) (snd e) m) es []"

definition om_weight :: "('k \<Rightarrow> 'v \<Rightarrow> nat) \<Rightarrow> ('k, 'v) omap \<Rightarrow> nat" where
  "om_weight w m = sum_list (map (\<lambda>e. w (fst e) (snd e)) m)"

section \<open>Facts on strictly sorted association lists\<close>

lemma om_wf_Nil [simp]: "om_wf []"
  by (simp add: om_wf_def)

lemma om_wf_Cons: "om_wf ((a, b) # m) \<longleftrightarrow> (\<forall>k\<in>fst ` set m. a < k) \<and> om_wf m"
  by (simp add: om_wf_def)

lemma om_wf_distinct: "om_wf m \<Longrightarrow> distinct (map fst m)"
  by (simp add: om_wf_def strict_sorted_iff)

lemma om_get_Nil [simp]: "om_get [] k = None"
  by (simp add: om_get_def)

lemma om_get_Cons [simp]: "om_get ((a, b) # m) k = (if k = a then Some b else om_get m k)"
  by (simp add: om_get_def)

lemma om_get_mem: "om_wf m \<Longrightarrow> om_get m k = Some v \<longleftrightarrow> (k, v) \<in> set m"
  by (simp add: om_get_def om_wf_distinct)

lemma om_get_below: "\<forall>e\<in>set m. a < fst e \<Longrightarrow> k \<le> a \<Longrightarrow> om_get m (k :: 'k::linorder) = None"
  by (induction m) (fastforce simp: om_get_def)+

lemma om_get_insert [simp]: "om_get (om_insert k v m) k' = (if k' = k then Some v else om_get m k')"
  by (induction k v m rule: om_insert.induct) auto

lemma om_get_remove [simp]: "om_get (om_remove k m) k' = (if k' = k then None else om_get m k')"
  by (induction m) (auto simp: om_remove_def om_get_def)

lemma set_om_insert_sub: "set (om_insert k v m) \<subseteq> insert (k, v) (set m)"
  by (induction k v m rule: om_insert.induct) auto

lemma fst_set_om_insert: "fst ` set (om_insert k v m) = insert k (fst ` set m)"
  by (induction k v m rule: om_insert.induct) auto

lemma om_wf_insert [simp]: "om_wf m \<Longrightarrow> om_wf (om_insert k v m)"
  by (induction k v m rule: om_insert.induct) (auto simp: om_wf_Cons fst_set_om_insert)

lemma om_wf_remove [simp]: "om_wf m \<Longrightarrow> om_wf (om_remove k m)"
  by (simp add: om_wf_def om_remove_def sorted_wrt_map sorted_wrt_filter)

lemma om_ext:
  assumes "om_wf m" "om_wf n" "\<And>k. om_get m k = om_get n k"
  shows "m = n"
proof -
  have "set m = set n"
    using assms by (auto simp: om_get_mem [symmetric])
  moreover from assms(1,2) have "sorted (map fst m)" "sorted (map fst n)"
    by (auto simp: om_wf_def strict_sorted_iff)
  ultimately show ?thesis
    using map_sorted_distinct_set_unique [of fst m n] om_wf_distinct assms(1,2)
    by (metis distinct_map inj_on_Un_image_eq_iff map_sorted_distinct_set_unique sup.idem)
qed

lemma om_remove_absent: "om_get m k = None \<Longrightarrow> om_remove k m = m"
  by (induction m) (auto simp: om_remove_def om_get_def split: if_splits)

lemma om_remove_neq: "om_get m k \<noteq> None \<Longrightarrow> om_remove k m \<noteq> m"
  by (metis om_get_remove)

lemma om_weight_insert:
  "om_wf m \<Longrightarrow> om_weight w (om_insert k v m) + (case om_get m k of None \<Rightarrow> 0 | Some u \<Rightarrow> w k u) =
     om_weight w m + w k v"
  by (induction k v m rule: om_insert.induct)
    (auto simp: om_weight_def om_wf_Cons om_get_below split: option.splits)

lemma om_weight_remove:
  "om_wf m \<Longrightarrow> om_weight w (om_remove k m) + (case om_get m k of None \<Rightarrow> 0 | Some u \<Rightarrow> w k u) = om_weight w m"
proof (induction m)
  case (Cons e m)
  then show ?case
    by (cases e) (auto simp: om_weight_def om_wf_Cons om_remove_def om_get_below filter_id_conv
        split: option.splits)
qed (simp add: om_weight_def om_remove_def)

lemma om_weight_get: "om_get m k = Some v \<Longrightarrow> w k v \<le> om_weight w m"
  by (induction m) (auto simp: om_weight_def om_get_def split: if_splits)

lemma om_weight_mem: "e \<in> set m \<Longrightarrow> w (fst e) (snd e) \<le> om_weight w m"
  by (induction m) (auto simp: om_weight_def)

lemma length_om_insert:
  "om_wf m \<Longrightarrow> length (om_insert k v m) = (if om_get m k = None then Suc (length m) else length m)"
  by (induction k v m rule: om_insert.induct) (auto simp: om_wf_Cons om_get_below)

lemma length_om_remove:
  "om_wf m \<Longrightarrow> length (om_remove k m) = (if om_get m k = None then length m else length m - 1)"
proof (induction m)
  case (Cons e m)
  then show ?case
    by (cases e; cases m) (auto simp: om_wf_Cons om_remove_def om_get_below filter_id_conv)
qed (simp add: om_remove_def)

section \<open>The interface\<close>

locale keyed_map =
  fixes empty :: 'm
    and get :: "'m \<Rightarrow> 'k \<Rightarrow> 'v option"
    and ins :: "'k \<Rightarrow> 'v \<Rightarrow> 'm \<Rightarrow> 'm"
    and del :: "'k \<Rightarrow> 'm \<Rightarrow> 'm"
    and size_of :: "'m \<Rightarrow> nat"
    and wf :: "'m \<Rightarrow> bool"
  assumes get_empty: "get empty k = None"
    and get_ins: "wf m \<Longrightarrow> get (ins k v m) j = (if j = k then Some v else get m j)"
    and get_del: "wf m \<Longrightarrow> get (del k m) j = (if j = k then None else get m j)"
    and wf_empty: "wf empty"
    and wf_ins: "wf m \<Longrightarrow> wf (ins k v m)"
    and wf_del: "wf m \<Longrightarrow> wf (del k m)"
    and size_ins: "wf m \<Longrightarrow> size_of (ins k v m) = (if get m k = None then Suc (size_of m) else size_of m)"
    and ext: "wf m \<Longrightarrow> wf n \<Longrightarrow> (\<And>k. get m k = get n k) \<Longrightarrow> m = n"
begin

lemma ins_same: "wf m \<Longrightarrow> get m k = Some v \<Longrightarrow> ins k v m = m"
  by (rule ext) (auto simp: get_ins wf_ins)

lemma ins_ins: "wf m \<Longrightarrow> ins k v (ins k u m) = ins k v m"
  by (rule ext) (auto simp: get_ins wf_ins)

lemma ins_commute: "wf m \<Longrightarrow> j \<noteq> k \<Longrightarrow> ins j u (ins k v m) = ins k v (ins j u m)"
  by (rule ext) (auto simp: get_ins wf_ins)

lemma del_absent: "wf m \<Longrightarrow> get m k = None \<Longrightarrow> del k m = m"
  by (rule ext) (auto simp: get_del wf_del)

lemma ins_del_restore: "wf m \<Longrightarrow> get m k = Some v \<Longrightarrow> ins k v (del k m) = m"
  by (rule ext) (auto simp: get_ins get_del wf_ins wf_del)

lemma del_ins_restore: "wf m \<Longrightarrow> get m k = None \<Longrightarrow> del k (ins k v m) = m"
  by (rule ext) (auto simp: get_ins get_del wf_ins wf_del)

lemma ins_restore: "wf m \<Longrightarrow> get m k = Some v \<Longrightarrow> ins k v (ins k u m) = m"
  by (rule ext) (auto simp: get_ins wf_ins)

end

locale weighted_map = keyed_map +
  fixes total :: "('k \<Rightarrow> 'v \<Rightarrow> nat) \<Rightarrow> 'm \<Rightarrow> nat"
  assumes total_ins: "wf m \<Longrightarrow>
      total w (ins k v m) + (case get m k of None \<Rightarrow> 0 | Some u \<Rightarrow> w k u) = total w m + w k v"
    and total_del: "wf m \<Longrightarrow>
      total w (del k m) + (case get m k of None \<Rightarrow> 0 | Some u \<Rightarrow> w k u) = total w m"
    and total_get: "get m k = Some v \<Longrightarrow> w k v \<le> total w m"
begin

lemma total_replace: "wf m \<Longrightarrow>
    total w (ins k v m) = total w m - (case get m k of None \<Rightarrow> 0 | Some u \<Rightarrow> w k u) + w k v"
  using total_ins [of m w k v] total_get [of m k _ w] by (auto split: option.splits)

lemma total_del_le: "wf m \<Longrightarrow> total w (del k m) \<le> total w m"
  using total_del [of m w k] by (auto split: option.splits)

end

interpretation bt: weighted_map
  "[] :: ('k::linorder, 'v) omap" om_get om_insert om_remove length om_wf om_weight
proof unfold_locales
  fix m n :: "('k, 'v) omap"
  assume "om_wf m" "om_wf n" "\<And>k. om_get m k = om_get n k"
  then show "m = n" by (rule om_ext)
qed (auto simp: om_weight_insert om_weight_remove om_weight_get length_om_insert)

section \<open>Collecting a sequence of entries\<close>

lemma om_collect_aux:
  "om_wf m \<Longrightarrow> om_wf (fold (\<lambda>e m. om_insert (fst e) (snd e) m) es m)"
  by (induction es arbitrary: m) auto

lemma om_wf_collect [simp]: "om_wf (om_collect es)"
  by (simp add: om_collect_def om_collect_aux)

lemma om_collect_snoc: "om_collect (es @ [e]) = om_insert (fst e) (snd e) (om_collect es)"
  by (simp add: om_collect_def)

lemma fst_set_om_collect: "fst ` set (om_collect es) = fst ` set es"
  by (induction es rule: rev_induct) (auto simp: om_collect_snoc fst_set_om_insert om_collect_def)

lemma length_om_collect: "length (om_collect es) = card (fst ` set es)"
  by (metis distinct_card fst_set_om_collect length_map list.set_map om_wf_collect om_wf_distinct)

lemma length_om_collect_distinct: "length (om_collect es) = length es \<longleftrightarrow> distinct (map fst es)"
  by (metis card_distinct distinct_card length_map length_om_collect list.set_map)

lemma om_get_collect: "distinct (map fst es) \<Longrightarrow> om_get (om_collect es) k = map_of es k"
proof (induction es rule: rev_induct)
  case (snoc e es)
  then show ?case
    by (cases e) (auto simp: om_collect_snoc map_add_def map_of_eq_None_iff image_iff
        split: option.splits)
qed (simp add: om_collect_def)

lemma om_collect_sorted: "om_wf m \<Longrightarrow> om_collect m = m"
  by (rule om_ext) (simp_all add: om_get_collect om_wf_distinct flip: om_get_def)

lemma om_weight_collect:
  "distinct (map fst es) \<Longrightarrow> om_weight w (om_collect es) = sum_list (map (\<lambda>e. w (fst e) (snd e)) es)"
proof (induction es rule: rev_induct)
  case (snoc e es)
  then have "om_get (om_collect es) (fst e) = None"
    by (simp add: om_get_collect map_of_eq_None_iff)
  then show ?case
    using snoc om_weight_insert [of "om_collect es" w "fst e" "snd e"]
    by (simp add: om_collect_snoc)
qed (simp add: om_collect_def om_weight_def)

end
