(* ===== verification/Rust_Str.thy ===== *)
theory Rust_Str
  imports Prelude
begin

text \<open>
  The string functions of the standard library the modelled code calls. A Rust \<^verbatim>\<open>str\<close> is its UTF-8 byte
  sequence, a \<^typ>\<open>string\<close> with one \<^typ>\<open>char\<close> per byte; \<^verbatim>\<open>len\<close> is then \<^const>\<open>length\<close> and the derived order of
  \<^verbatim>\<open>String\<close> is the lexicographic order of the bytes.
\<close>

section \<open>Bytes and ASCII\<close>

definition byte :: "char \<Rightarrow> nat" where
  "byte c = of_char c"

definition ascii_lower :: "char \<Rightarrow> char" where
  "ascii_lower c = (if 65 \<le> byte c \<and> byte c \<le> 90 then char_of (byte c + 32) else c)"

definition ascii_upper :: "char \<Rightarrow> char" where
  "ascii_upper c = (if 97 \<le> byte c \<and> byte c \<le> 122 then char_of (byte c - 32) else c)"

definition to_ascii_lowercase :: "string \<Rightarrow> string" where
  "to_ascii_lowercase s = map ascii_lower s"

definition to_ascii_uppercase :: "string \<Rightarrow> string" where
  "to_ascii_uppercase s = map ascii_upper s"

definition eq_ignore_ascii_case :: "string \<Rightarrow> string \<Rightarrow> bool" where
  "eq_ignore_ascii_case s t \<longleftrightarrow> to_ascii_lowercase s = to_ascii_lowercase t"

definition is_ascii_digit :: "char \<Rightarrow> bool" where
  "is_ascii_digit c \<longleftrightarrow> 48 \<le> byte c \<and> byte c \<le> 57"

definition is_ascii_alphanumeric :: "char \<Rightarrow> bool" where
  "is_ascii_alphanumeric c \<longleftrightarrow> is_ascii_digit c \<or>
     65 \<le> byte c \<and> byte c \<le> 90 \<or> 97 \<le> byte c \<and> byte c \<le> 122"

definition is_ascii :: "string \<Rightarrow> bool" where
  "is_ascii s \<longleftrightarrow> (\<forall>c\<in>set s. byte c < 128)"

section \<open>Prefixes, suffixes and splitting\<close>

definition starts_with :: "string \<Rightarrow> string \<Rightarrow> bool" where
  "starts_with s p \<longleftrightarrow> take (length p) s = p"

definition ends_with :: "string \<Rightarrow> string \<Rightarrow> bool" where
  "ends_with s p \<longleftrightarrow> length p \<le> length s \<and> drop (length s - length p) s = p"

definition strip_prefix :: "string \<Rightarrow> string \<Rightarrow> string option" where
  "strip_prefix s p = (if starts_with s p then Some (drop (length p) s) else None)"

definition strip_suffix :: "string \<Rightarrow> string \<Rightarrow> string option" where
  "strip_suffix s p = (if ends_with s p then Some (take (length s - length p) s) else None)"

fun split_by :: "(char \<Rightarrow> bool) \<Rightarrow> string \<Rightarrow> string list" where
  "split_by p [] = [[]]"
| "split_by p (c # s) =
     (if p c then [] # split_by p s
      else case split_by p s of [] \<Rightarrow> [[c]] | w # ws \<Rightarrow> (c # w) # ws)"

definition split_on :: "char \<Rightarrow> string \<Rightarrow> string list" where
  "split_on d s = split_by (\<lambda>c. c = d) s"

fun split_once :: "char \<Rightarrow> string \<Rightarrow> (string \<times> string) option" where
  "split_once d [] = None"
| "split_once d (c # s) =
     (if c = d then Some ([], s) else map_option (\<lambda>(a, b). (c # a, b)) (split_once d s))"

definition rsplit_once :: "char \<Rightarrow> string \<Rightarrow> (string \<times> string) option" where
  "rsplit_once d s = map_option (\<lambda>(a, b). (rev b, rev a)) (split_once d (rev s))"

definition trim_matches :: "(char \<Rightarrow> bool) \<Rightarrow> string \<Rightarrow> string" where
  "trim_matches p s = rev (dropWhile p (rev (dropWhile p s)))"

definition join_with :: "string \<Rightarrow> string list \<Rightarrow> string" where
  "join_with sep ws = (case ws of [] \<Rightarrow> [] | w # ws \<Rightarrow> w @ concat (map (\<lambda>v. sep @ v) ws))"

section \<open>\<^verbatim>\<open>str::trim\<close>\<close>

text \<open>The \<^verbatim>\<open>White_Space\<close> characters by the length of their UTF-8 form.\<close>

definition ws1 :: "char \<Rightarrow> bool" where
  "ws1 a \<longleftrightarrow> 9 \<le> byte a \<and> byte a \<le> 13 \<or> byte a = 32"

definition ws2 :: "char \<Rightarrow> char \<Rightarrow> bool" where
  "ws2 a b \<longleftrightarrow> byte a = 0xc2 \<and> (byte b = 0x85 \<or> byte b = 0xa0)"

definition ws3 :: "char \<Rightarrow> char \<Rightarrow> char \<Rightarrow> bool" where
  "ws3 a b c \<longleftrightarrow>
     byte a = 0xe1 \<and> byte b = 0x9a \<and> byte c = 0x80 \<or>
     byte a = 0xe2 \<and> byte b = 0x80 \<and>
       (0x80 \<le> byte c \<and> byte c \<le> 0x8a \<or> byte c = 0xa8 \<or> byte c = 0xa9 \<or> byte c = 0xaf) \<or>
     byte a = 0xe2 \<and> byte b = 0x81 \<and> byte c = 0x9f \<or>
     byte a = 0xe3 \<and> byte b = 0x80 \<and> byte c = 0x80"

fun trim_start_with :: "(char \<Rightarrow> char \<Rightarrow> bool) \<Rightarrow> (char \<Rightarrow> char \<Rightarrow> char \<Rightarrow> bool) \<Rightarrow> string \<Rightarrow> string" where
  "trim_start_with p2 p3 [] = []"
| "trim_start_with p2 p3 [a] = (if ws1 a then [] else [a])"
| "trim_start_with p2 p3 [a, b] =
     (if ws1 a then trim_start_with p2 p3 [b] else if p2 a b then [] else [a, b])"
| "trim_start_with p2 p3 (a # b # c # s) =
     (if ws1 a then trim_start_with p2 p3 (b # c # s)
      else if p2 a b then trim_start_with p2 p3 (c # s)
      else if p3 a b c then trim_start_with p2 p3 s
      else a # b # c # s)"

definition trim_start :: "string \<Rightarrow> string" where
  "trim_start s = trim_start_with ws2 ws3 s"

definition trim_end :: "string \<Rightarrow> string" where
  "trim_end s = rev (trim_start_with (\<lambda>b a. ws2 a b) (\<lambda>c b a. ws3 a b c) (rev s))"

definition trim :: "string \<Rightarrow> string" where
  "trim s = trim_end (trim_start s)"

section \<open>Numbers\<close>

definition digit_value :: "char \<Rightarrow> nat option" where
  "digit_value c = (if is_ascii_digit c then Some (byte c - 48) else None)"

fun parse_digits :: "nat \<Rightarrow> nat \<Rightarrow> string \<Rightarrow> nat option" where
  "parse_digits limit acc [] = Some acc"
| "parse_digits limit acc (c # s) =
     (case digit_value c of
        None \<Rightarrow> None
      | Some d \<Rightarrow> if acc * 10 + d \<le> limit then parse_digits limit (acc * 10 + d) s else None)"

text \<open>\<^verbatim>\<open>str::parse\<close> for an unsigned type with the given maximum: one leading \<^verbatim>\<open>+\<close> is accepted.\<close>

definition parse_unsigned :: "nat \<Rightarrow> string \<Rightarrow> nat option" where
  "parse_unsigned limit s =
     (let digits = (case s of CHR ''+'' # t \<Rightarrow> t | _ \<Rightarrow> s)
      in if digits = [] then None else parse_digits limit 0 digits)"

fun show_nat :: "nat \<Rightarrow> string" where
  "show_nat n = (if n < 10 then [char_of (48 + n)] else show_nat (n div 10) @ [char_of (48 + n mod 10)])"

declare show_nat.simps [simp del]

section \<open>Facts\<close>

lemma byte_less [simp]: "byte c < 256"
  by (simp add: byte_def)

lemma byte_char_of: "n < 256 \<Longrightarrow> byte (char_of n) = n"
  by (simp add: byte_def)

lemma byte_eq_iff: "byte c = byte d \<longleftrightarrow> c = d"
  by (simp add: byte_def)

lemma ascii_lower_idem [simp]: "ascii_lower (ascii_lower c) = ascii_lower c"
  by (auto simp: ascii_lower_def byte_char_of)

lemma to_ascii_lowercase_idem [simp]: "to_ascii_lowercase (to_ascii_lowercase s) = to_ascii_lowercase s"
  by (simp add: to_ascii_lowercase_def)

lemma length_to_ascii_lowercase [simp]: "length (to_ascii_lowercase s) = length s"
  by (simp add: to_ascii_lowercase_def)

lemma eq_ignore_ascii_case_refl [simp]: "eq_ignore_ascii_case s s"
  by (simp add: eq_ignore_ascii_case_def)

lemma eq_ignore_lower [simp]:
  "eq_ignore_ascii_case (to_ascii_lowercase s) t = eq_ignore_ascii_case s t"
  "eq_ignore_ascii_case s (to_ascii_lowercase t) = eq_ignore_ascii_case s t"
  by (simp_all add: eq_ignore_ascii_case_def)

lemma split_by_not_Nil [simp]: "split_by p s \<noteq> []"
  by (induction s) (auto split: list.splits)

lemma split_by_parts: "w \<in> set (split_by p s) \<Longrightarrow> c \<in> set w \<Longrightarrow> c \<in> set s \<and> \<not> p c"
proof (induction s arbitrary: w)
  case (Cons d s)
  then show ?case
    by (cases "split_by p s") (auto split: if_splits, metis+)
qed simp

lemma split_once_Some: "split_once d s = Some (a, b) \<Longrightarrow> s = a @ d # b \<and> d \<notin> set a"
  by (induction s arbitrary: a) (auto split: if_splits)

lemma split_once_None [simp]: "split_once d s = None \<longleftrightarrow> d \<notin> set s"
  by (induction s) auto

lemma set_trim_matches: "set (trim_matches p s) \<subseteq> set s"
  by (auto simp: trim_matches_def dest!: set_dropWhileD)

lemma trim_matches_ends:
  "trim_matches p s \<noteq> [] \<Longrightarrow> \<not> p (hd (trim_matches p s)) \<and> \<not> p (last (trim_matches p s))"
proof -
  assume ne: "trim_matches p s \<noteq> []"
  let ?r = "dropWhile p (rev (dropWhile p s))"
  have last: "\<not> p (last (trim_matches p s))"
    using ne by (simp add: trim_matches_def last_rev hd_dropWhile)
  obtain pre where "rev (dropWhile p s) = pre @ ?r"
    by (metis takeWhile_dropWhile_id)
  then have eq: "dropWhile p s = trim_matches p s @ rev pre"
    by (metis rev_append rev_rev_ident trim_matches_def)
  then have "hd (trim_matches p s) = hd (dropWhile p s)"
    using ne by simp
  moreover have "dropWhile p s \<noteq> []" using ne eq by auto
  ultimately have "\<not> p (hd (trim_matches p s))"
    by (simp add: hd_dropWhile)
  with last show ?thesis by simp
qed

lemma parse_digits_le: "parse_digits limit acc s = Some n \<Longrightarrow> acc \<le> limit \<Longrightarrow> n \<le> limit"
  by (induction limit acc s rule: parse_digits.induct) (auto split: option.splits if_splits)

lemma parse_unsigned_le: "parse_unsigned limit s = Some n \<Longrightarrow> n \<le> limit"
  by (auto simp: parse_unsigned_def Let_def dest: parse_digits_le split: if_splits)

lemma starts_with_append [simp]: "starts_with (p @ s) p"
  by (simp add: starts_with_def)

lemma starts_with_iff: "starts_with s p \<longleftrightarrow> (\<exists>t. s = p @ t)"
  by (metis append_take_drop_id append_eq_conv_conj starts_with_def)

lemma ends_with_iff: "ends_with s p \<longleftrightarrow> (\<exists>t. s = t @ p)"
proof
  assume "ends_with s p"
  then have "s = take (length s - length p) s @ p"
    by (metis append_take_drop_id ends_with_def)
  then show "\<exists>t. s = t @ p" ..
qed (auto simp: ends_with_def)

section \<open>Evaluation\<close>

text \<open>Bitwise forms of the byte tests, with which concrete strings are evaluated quickly.\<close>

definition letter_bits :: "bool \<Rightarrow> bool \<Rightarrow> bool \<Rightarrow> bool \<Rightarrow> bool \<Rightarrow> bool" where
  "letter_bits b0 b1 b2 b3 b4 \<longleftrightarrow> (b0 \<or> b1 \<or> b2 \<or> b3 \<or> b4) \<and> \<not> (b4 \<and> b3 \<and> (b2 \<or> b1 \<and> b0))"

lemma ascii_lower_bits [code]:
  "ascii_lower (Char b0 b1 b2 b3 b4 b5 b6 b7) =
     (if b6 \<and> \<not> b5 \<and> \<not> b7 \<and> letter_bits b0 b1 b2 b3 b4 then Char b0 b1 b2 b3 b4 True b6 b7
      else Char b0 b1 b2 b3 b4 b5 b6 b7)"
  by (cases b0; cases b1; cases b2; cases b3; cases b4; cases b5; cases b6; cases b7;
      simp add: ascii_lower_def byte_def letter_bits_def char_of_def bit_0)

lemma ascii_upper_bits [code]:
  "ascii_upper (Char b0 b1 b2 b3 b4 b5 b6 b7) =
     (if b6 \<and> b5 \<and> \<not> b7 \<and> letter_bits b0 b1 b2 b3 b4 then Char b0 b1 b2 b3 b4 False b6 b7
      else Char b0 b1 b2 b3 b4 b5 b6 b7)"
  by (cases b0; cases b1; cases b2; cases b3; cases b4; cases b5; cases b6; cases b7;
      simp add: ascii_upper_def byte_def letter_bits_def char_of_def bit_0)

lemma is_ascii_digit_bits [code]:
  "is_ascii_digit (Char b0 b1 b2 b3 b4 b5 b6 b7) \<longleftrightarrow> b4 \<and> b5 \<and> \<not> b6 \<and> \<not> b7 \<and> \<not> (b3 \<and> (b1 \<or> b2))"
  by (cases b0; cases b1; cases b2; cases b3; cases b4; cases b5; cases b6; cases b7;
      simp add: is_ascii_digit_def byte_def)

lemma is_ascii_alphanumeric_bits [code]:
  "is_ascii_alphanumeric (Char b0 b1 b2 b3 b4 b5 b6 b7) \<longleftrightarrow>
     b6 \<and> \<not> b7 \<and> letter_bits b0 b1 b2 b3 b4 \<or> is_ascii_digit (Char b0 b1 b2 b3 b4 b5 b6 b7)"
  by (cases b0; cases b1; cases b2; cases b3; cases b4; cases b5; cases b6; cases b7;
      simp add: is_ascii_alphanumeric_def is_ascii_digit_def byte_def letter_bits_def)

lemma ws1_bits [code]:
  "ws1 (Char b0 b1 b2 b3 b4 b5 b6 b7) \<longleftrightarrow>
     \<not> b4 \<and> \<not> b6 \<and> \<not> b7 \<and> (if b5 then \<not> b0 \<and> \<not> b1 \<and> \<not> b2 \<and> \<not> b3 else b3 \<and> (if b2 then \<not> b1 else b0 \<or> b1))"
  by (cases b0; cases b1; cases b2; cases b3; cases b4; cases b5; cases b6; cases b7;
      simp add: ws1_def byte_def)

lemma byte_is:
  "byte c = 0xc2 \<longleftrightarrow> c = CHR 0xc2" "byte c = 0x85 \<longleftrightarrow> c = CHR 0x85" "byte c = 0xa0 \<longleftrightarrow> c = CHR 0xa0"
  "byte c = 0xe1 \<longleftrightarrow> c = CHR 0xe1" "byte c = 0xe2 \<longleftrightarrow> c = CHR 0xe2" "byte c = 0xe3 \<longleftrightarrow> c = CHR 0xe3"
  "byte c = 0x80 \<longleftrightarrow> c = CHR 0x80" "byte c = 0x81 \<longleftrightarrow> c = CHR 0x81" "byte c = 0x9a \<longleftrightarrow> c = CHR 0x9a"
  "byte c = 0x9f \<longleftrightarrow> c = CHR 0x9f"
  using byte_eq_iff [of c "CHR 0xc2"] byte_eq_iff [of c "CHR 0x85"] byte_eq_iff [of c "CHR 0xa0"]
    byte_eq_iff [of c "CHR 0xe1"] byte_eq_iff [of c "CHR 0xe2"] byte_eq_iff [of c "CHR 0xe3"]
    byte_eq_iff [of c "CHR 0x80"] byte_eq_iff [of c "CHR 0x81"] byte_eq_iff [of c "CHR 0x9a"]
    byte_eq_iff [of c "CHR 0x9f"]
  by (simp_all add: byte_def)

lemma ws2_chars [code]: "ws2 a b \<longleftrightarrow> a = CHR 0xc2 \<and> (b = CHR 0x85 \<or> b = CHR 0xa0)"
  by (simp only: ws2_def byte_is)

lemma ws3_chars [code]:
  "ws3 a b c \<longleftrightarrow>
     a = CHR 0xe1 \<and> b = CHR 0x9a \<and> c = CHR 0x80 \<or>
     a = CHR 0xe2 \<and> b = CHR 0x80 \<and> (0x80 \<le> byte c \<and> byte c \<le> 0x8a \<or> byte c = 0xa8 \<or> byte c = 0xa9 \<or> byte c = 0xaf) \<or>
     a = CHR 0xe2 \<and> b = CHR 0x81 \<and> c = CHR 0x9f \<or>
     a = CHR 0xe3 \<and> b = CHR 0x80 \<and> c = CHR 0x80"
  by (simp only: ws3_def byte_is)

lemma is_ascii_bits [code]: "is_ascii s \<longleftrightarrow> list_all (\<lambda>c. \<not> digit7 c) s"
proof -
  have "byte c < 128 \<longleftrightarrow> \<not> digit7 c" for c
    by (cases c; cases "digit0 c"; cases "digit1 c"; cases "digit2 c"; cases "digit3 c"; cases "digit4 c";
        cases "digit5 c"; cases "digit6 c"; cases "digit7 c"; simp add: byte_def)
  then show ?thesis by (simp add: is_ascii_def list_all_iff)
qed

end
