(* ===== verification/Ip_Addr.thy ===== *)
theory Ip_Addr
  imports Rust_Str
begin

text \<open>
  \<^verbatim>\<open>std::net::IpAddr::from_str\<close> and \<^verbatim>\<open>is_loopback\<close>: the recursive-descent parser of the standard
  library. Every reader returns the value and the rest of the input, or nothing with the input
  untouched.
\<close>

datatype ip_addr = V4 "nat list" | V6 "nat list"

definition hex_value :: "nat \<Rightarrow> char \<Rightarrow> nat option" where
  "hex_value radix c =
     (let n = byte c;
          d = (if 48 \<le> n \<and> n \<le> 57 then Some (n - 48)
               else if 97 \<le> n \<and> n \<le> 122 then Some (n - 87)
               else if 65 \<le> n \<and> n \<le> 90 then Some (n - 55)
               else None)
      in case d of None \<Rightarrow> None | Some v \<Rightarrow> if v < radix then Some v else None)"

fun read_digits :: "nat \<Rightarrow> nat \<Rightarrow> nat \<Rightarrow> nat \<Rightarrow> nat \<Rightarrow> string \<Rightarrow> (nat \<times> nat \<times> string) option" where
  "read_digits radix maxv maxd acc n [] = Some (acc, n, [])"
| "read_digits radix maxv maxd acc n (c # s) =
     (case hex_value radix c of
        None \<Rightarrow> Some (acc, n, c # s)
      | Some d \<Rightarrow>
          if acc * radix + d > maxv then None
          else if Suc n > maxd then None
          else read_digits radix maxv maxd (acc * radix + d) (Suc n) s)"

definition read_number :: "nat \<Rightarrow> nat \<Rightarrow> nat \<Rightarrow> bool \<Rightarrow> string \<Rightarrow> (nat \<times> string) option" where
  "read_number radix maxv maxd allow_zero_prefix s =
     (case read_digits radix maxv maxd 0 0 s of
        None \<Rightarrow> None
      | Some (v, n, rest) \<Rightarrow>
          if n = 0 then None
          else if \<not> allow_zero_prefix \<and> starts_with s ''0'' \<and> 1 < n then None
          else Some (v, rest))"

definition read_separator :: "char \<Rightarrow> nat \<Rightarrow> (string \<Rightarrow> ('a \<times> string) option) \<Rightarrow> string \<Rightarrow> ('a \<times> string) option" where
  "read_separator sep i inner s =
     (if i = 0 then inner s
      else case s of [] \<Rightarrow> None | c # t \<Rightarrow> if c = sep then inner t else None)"

fun read_octets :: "nat \<Rightarrow> nat \<Rightarrow> string \<Rightarrow> (nat list \<times> string) option" where
  "read_octets i k s =
     (if k = 0 then Some ([], s)
      else case read_separator CHR ''.'' i (read_number 10 255 3 False) s of
        None \<Rightarrow> None
      | Some (v, t) \<Rightarrow> map_option (\<lambda>(vs, r). (v # vs, r)) (read_octets (i + 1) (k - 1) t))"

definition read_ipv4 :: "string \<Rightarrow> (nat list \<times> string) option" where
  "read_ipv4 s = read_octets 0 4 s"

text \<open>\<open>read_groups i k\<close>: the next group has index \<open>i\<close>, \<open>k\<close> slots are left; the flag reports a trailing
  embedded IPv4 address.\<close>

fun read_groups :: "nat \<Rightarrow> nat \<Rightarrow> string \<Rightarrow> nat list \<times> bool \<times> string" where
  "read_groups i k s =
     (if k = 0 then ([], False, s)
      else case (if 1 < k then read_separator CHR '':'' i read_ipv4 s else None) of
        Some (os, t) \<Rightarrow> ([os ! 0 * 256 + os ! 1, os ! 2 * 256 + os ! 3], True, t)
      | None \<Rightarrow>
          (case read_separator CHR '':'' i (read_number 16 65535 4 True) s of
             None \<Rightarrow> ([], False, s)
           | Some (g, t) \<Rightarrow>
               (case read_groups (i + 1) (k - 1) t of (gs, v4, r) \<Rightarrow> (g # gs, v4, r))))"

definition read_ipv6 :: "string \<Rightarrow> (nat list \<times> string) option" where
  "read_ipv6 s =
     (case read_groups 0 8 s of (front, front_v4, t) \<Rightarrow>
        if length front = 8 then Some (front, t)
        else if front_v4 then None
        else if \<not> starts_with t ''::'' then None
        else (case read_groups 0 (8 - (length front + 1)) (drop 2 t) of (tail, _, r) \<Rightarrow>
                Some (front @ replicate (8 - length front - length tail) 0 @ tail, r)))"

definition parse_ip :: "string \<Rightarrow> ip_addr option" where
  "parse_ip s =
     (case read_ipv4 s of
        Some (os, r) \<Rightarrow> if r = [] then Some (V4 os) else None
      | None \<Rightarrow>
          (case read_ipv6 s of
             Some (gs, r) \<Rightarrow> if r = [] then Some (V6 gs) else None
           | None \<Rightarrow> None))"

definition is_loopback :: "ip_addr \<Rightarrow> bool" where
  "is_loopback a =
     (case a of V4 os \<Rightarrow> os ! 0 = 127 | V6 gs \<Rightarrow> gs = [0, 0, 0, 0, 0, 0, 0, 1])"

lemmas ip_eval = parse_ip_def read_ipv4_def read_ipv6_def read_number_def hex_value_def byte_def
  starts_with_def read_separator_def is_loopback_def

lemma parse_ip_examples:
  "parse_ip ''127.0.0.1'' = Some (V4 [127, 0, 0, 1])"
  "parse_ip ''::1'' = Some (V6 [0, 0, 0, 0, 0, 0, 0, 1])"
  "parse_ip ''1.2.3.04'' = None"
  "parse_ip ''a.example'' = None"
  by (simp_all add: ip_eval) (simp add: eval_nat_numeral)

declare read_octets.simps [simp del] read_groups.simps [simp del]

end
