(* ===== verification/Web_Url.thy ===== *)
theory Web_Url
  imports Ip_Addr
begin

text \<open>
  \<^verbatim>\<open>src/navigation.rs\<close> (\<^verbatim>\<open>ParsedUrl\<close>) and \<^verbatim>\<open>src/fetch/url.rs\<close> (\<^verbatim>\<open>FetchUrl\<close>, \<^verbatim>\<open>Origin\<close>), with
  \<^verbatim>\<open>storage_origin\<close> of \<^verbatim>\<open>src/storage.rs\<close>, the key under which every store partitions its state.
  The \<^verbatim>\<open>url\<close> crate is a parameter: a record with its parser and serialiser over the components the
  code reads.
\<close>

section \<open>The interface of the url crate\<close>

datatype url_host = Domain string | Ipv4 string | Ipv6 string

record url =
  u_scheme :: string
  u_username :: string
  u_password :: "string option"
  u_host :: "url_host option"
  u_port :: "nat option" \<comment> \<open>\<^verbatim>\<open>port_or_known_default\<close>\<close>
  u_explicit_port :: "nat option" \<comment> \<open>\<^verbatim>\<open>port\<close>: absent when it is the default of the scheme\<close>
  u_origin :: "(string \<times> url_host \<times> nat) option" \<comment> \<open>\<^verbatim>\<open>origin\<close>: a tuple, or absent for a fresh opaque origin\<close>
  u_path :: string
  u_query :: "string option"
  u_fragment :: "string option"
  u_cannot_be_a_base :: bool

record url_crate =
  url_parse :: "string \<Rightarrow> string + url"
  url_to_string :: "url \<Rightarrow> string"

definition set_fragment_none :: "url \<Rightarrow> url" where
  "set_fragment_none u = u\<lparr>u_fragment := None\<rparr>"

definition set_query_none :: "url \<Rightarrow> url" where
  "set_query_none u = u\<lparr>u_query := None\<rparr>"

section \<open>\<^verbatim>\<open>ParsedUrl\<close>\<close>

definition MAX_URL_BYTES :: nat where [limit_simps]: "MAX_URL_BYTES = 16 * 1024"

record parsed_url =
  scheme :: string
  host :: string
  port :: nat
  path_and_query :: string

definition parsed_origin :: "parsed_url \<Rightarrow> string" where
  "parsed_origin p =
     (let default_port = (scheme p = ''https'' \<and> port p = 443 \<or> scheme p = ''http'' \<and> port p = 80);
          h = (if CHR '':'' \<in> set (host p) then ''['' @ host p @ '']'' else host p)
      in if default_port then scheme p @ ''://'' @ h
         else scheme p @ ''://'' @ h @ '':'' @ show_nat (port p))"

definition canonical :: "parsed_url \<Rightarrow> string" where
  "canonical p = parsed_origin p @ path_and_query p"

definition host_text :: "url_host \<Rightarrow> string" where
  "host_text h = (case h of Domain s \<Rightarrow> s | Ipv4 s \<Rightarrow> s | Ipv6 s \<Rightarrow> s)"

definition parsed_url_parse :: "'u url_crate_scheme \<Rightarrow> string \<Rightarrow> string + parsed_url" where
  "parsed_url_parse U input0 =
     (if length input0 > MAX_URL_BYTES then Inl ''URL exceeds the 16384-byte limit''
      else
        let input = trim input0
        in and_then (url_parse U input) (\<lambda>parsed.
          let sch = to_ascii_lowercase (u_scheme parsed)
          in if sch \<noteq> ''http'' \<and> sch \<noteq> ''https'' then Inl (''unsupported URL scheme: '' @ sch)
             else if u_username parsed \<noteq> [] \<or> u_password parsed \<noteq> None
             then Inl ''URL credentials are not accepted in browser addresses''
             else and_then (ok_or (u_host parsed) ''URL host is missing'') (\<lambda>h.
               and_then (ok_or (u_port parsed) ''URL port is missing'') (\<lambda>p.
                 let result = \<lparr>scheme = sch, host = host_text h, port = p,
                       path_and_query = u_path parsed @
                         (case u_query parsed of None \<Rightarrow> [] | Some q \<Rightarrow> ''?'' @ q)\<rparr>
                 in if length (canonical result) > MAX_URL_BYTES
                    then Inl ''canonical URL exceeds the 16384-byte limit''
                    else Inr result))))"

section \<open>\<^verbatim>\<open>FetchUrl\<close> and \<^verbatim>\<open>Origin\<close>\<close>

datatype fetch_error_kind = InvalidRequest | Network | Aborted | Cors | Redirect | BodyTooLarge

record fetch_error =
  fe_kind :: fetch_error_kind
  fe_message :: string

definition invalid_request :: "string \<Rightarrow> fetch_error" where
  "invalid_request m = \<lparr>fe_kind = InvalidRequest, fe_message = m\<rparr>"

datatype origin = Tuple string string nat | Opaque nat

datatype fetch_url_kind = NetworkUrl parsed_url | DataUrl

record fetch_url =
  fu_serialized :: string
  fu_kind :: fetch_url_kind
  fu_origin :: origin

definition tuple_origin :: "parsed_url \<Rightarrow> origin" where
  "tuple_origin p = Tuple (scheme p) (to_ascii_lowercase (host p)) (port p)"

text \<open>
  \<^verbatim>\<open>Origin::opaque\<close> draws from the process-wide counter \<^verbatim>\<open>NEXT_OPAQUE_ORIGIN\<close>: its value is passed in and
  the next value returned (\<^verbatim>\<open>fetch_add\<close> wraps).
\<close>

definition origin_opaque :: "nat \<Rightarrow> origin \<times> nat" where
  "origin_opaque next_id = (Opaque next_id, wrapping_add next_id 1)"

definition fetch_url_parse :: "'u url_crate_scheme \<Rightarrow> nat \<Rightarrow> string \<Rightarrow> fetch_error + fetch_url \<times> nat" where
  "fetch_url_parse U next_id input0 =
     (if length input0 > MAX_URL_BYTES then Inl (invalid_request ''URL exceeds the 16384-byte limit'')
      else
        let input = trim input0
        in and_then (map_err invalid_request (url_parse U input)) (\<lambda>parsed.
          if u_scheme parsed = ''http'' \<or> u_scheme parsed = ''https''
          then and_then (map_err invalid_request (parsed_url_parse U input)) (\<lambda>p.
                 Inr (\<lparr>fu_serialized = canonical p, fu_kind = NetworkUrl p, fu_origin = tuple_origin p\<rparr>, next_id))
          else if u_scheme parsed = ''data''
          then let text = url_to_string U (set_fragment_none parsed)
               in if length text > MAX_URL_BYTES
                  then Inl (invalid_request ''canonical URL exceeds the 16384-byte limit'')
                  else (case origin_opaque next_id of (o', n') \<Rightarrow>
                          Inr (\<lparr>fu_serialized = text, fu_kind = DataUrl, fu_origin = o'\<rparr>, n'))
          else Inl (invalid_request (''unsupported Fetch URL scheme: '' @ u_scheme parsed))))"

definition fetch_url_parsed :: "fetch_url \<Rightarrow> parsed_url option" where
  "fetch_url_parsed u = (case fu_kind u of NetworkUrl p \<Rightarrow> Some p | DataUrl \<Rightarrow> None)"

definition origin_parse :: "'u url_crate_scheme \<Rightarrow> nat \<Rightarrow> string \<Rightarrow> fetch_error + origin \<times> nat" where
  "origin_parse U next_id u =
     and_then (fetch_url_parse U next_id u) (\<lambda>(fu, n'). Inr (fu_origin fu, n'))"

definition origin_serialize :: "origin \<Rightarrow> string" where
  "origin_serialize o' =
     (case o' of
        Tuple s h p \<Rightarrow> parsed_origin \<lparr>scheme = s, host = h, port = p, path_and_query = ''/''\<rparr>
      | Opaque _ \<Rightarrow> ''null'')"

definition is_same_origin :: "origin \<Rightarrow> origin \<Rightarrow> bool" where
  "is_same_origin a b \<longleftrightarrow> a = b"

definition is_potentially_trustworthy :: "origin \<Rightarrow> bool" where
  "is_potentially_trustworthy o' =
     (case o' of
        Opaque _ \<Rightarrow> False
      | Tuple s h p \<Rightarrow>
          if s \<in> {''https'', ''wss'', ''file''} then True
          else if s \<in> {''http'', ''ws''} then
            (let ip_host = (case strip_prefix h ''['' of
                              None \<Rightarrow> h
                            | Some inner \<Rightarrow> (case strip_suffix inner '']'' of None \<Rightarrow> h | Some i \<Rightarrow> i))
             in eq_ignore_ascii_case h ''localhost'' \<or>
                ends_with (to_ascii_lowercase h) ''.localhost'' \<or>
                (case parse_ip ip_host of None \<Rightarrow> False | Some a \<Rightarrow> is_loopback a))
          else False)"

section \<open>Facts\<close>

lemma fetch_url_parse_origin:
  "fetch_url_parse U n u = Inr (fu, n') \<Longrightarrow>
   (\<exists>p. fu_kind fu = NetworkUrl p \<and> fu_origin fu = tuple_origin p \<and> fu_serialized fu = canonical p) \<or>
   (fu_kind fu = DataUrl \<and> fu_origin fu = Opaque n)"
  by (auto simp: fetch_url_parse_def Let_def result_simps origin_opaque_def split: if_splits)

lemma parsed_url_scheme:
  "parsed_url_parse U u = Inr p \<Longrightarrow> scheme p \<in> {''http'', ''https''} \<and> length (canonical p) \<le> MAX_URL_BYTES"
  by (auto simp: parsed_url_parse_def Let_def result_simps not_less split: if_splits)

text \<open>Data URLs get a fresh opaque identity, so two parses never share an origin.\<close>

lemma data_origins_differ:
  assumes "fetch_url_parse U n u = Inr (fu, n')" "fu_kind fu = DataUrl"
    and "fetch_url_parse U n' v = Inr (fv, n'')" "n < u64_max"
  shows "\<not> is_same_origin (fu_origin fu) (fu_origin fv)"
proof -
  have u: "fu_origin fu = Opaque n" "n' = wrapping_add n 1"
    using assms(1,2) by (auto simp: fetch_url_parse_def Let_def result_simps origin_opaque_def split: if_splits)
  have "n' = n + 1"
    using assms(4) by (simp add: u wrapping_add_def u64_max_def)
  with u fetch_url_parse_origin [OF assms(3)] show ?thesis
    by (auto simp: is_same_origin_def tuple_origin_def)
qed

end
