(* ===== verification/Sample_Urls.thy ===== *)
theory Sample_Urls
  imports Web_Url
begin

text \<open>
  A finite instance of the \<^verbatim>\<open>url\<close> crate's interface: it recognises the addresses listed below, in the form the
  crate returns them, and reports every other input as relative. The examples that exercise the theorems
  on concrete inputs run on it.
\<close>

definition http_url :: "string \<Rightarrow> string \<Rightarrow> nat \<Rightarrow> string \<Rightarrow> string option \<Rightarrow> url" where
  "http_url sch domain prt path query =
     \<lparr>u_scheme = sch, u_username = [], u_password = None, u_host = Some (Domain domain), u_port = Some prt,
      u_explicit_port = None, u_origin = Some (sch, Domain domain, prt),
      u_path = path, u_query = query, u_fragment = None, u_cannot_be_a_base = False\<rparr>"

definition sample_table :: "(string \<times> url) list" where
  "sample_table =
     [(''https://a.example/'', http_url ''https'' ''a.example'' 443 ''/'' None),
      (''https://b.example/'', http_url ''https'' ''b.example'' 443 ''/'' None),
      (''http://a.example/'', http_url ''http'' ''a.example'' 80 ''/'' None)]"

definition sample_crate :: url_crate where
  "sample_crate =
     \<lparr>url_parse = (\<lambda>s. case map_of sample_table s of
                        None \<Rightarrow> Inl ''relative URL without a base'' | Some u \<Rightarrow> Inr u),
      url_to_string = (\<lambda>u. u_scheme u @ '':'' @ u_path u)\<rparr>"

lemma sample_texts [simp]:
  "trim ''https://a.example/'' = ''https://a.example/''" "trim ''https://b.example/'' = ''https://b.example/''"
  "trim ''http://a.example/'' = ''http://a.example/''"
  "to_ascii_lowercase ''https'' = ''https''" "to_ascii_lowercase ''http'' = ''http''"
  "to_ascii_lowercase ''a.example'' = ''a.example''" "to_ascii_lowercase ''b.example'' = ''b.example''"
  by code_simp+

lemmas sample_url_eval = sample_crate_def sample_table_def http_url_def limit_simps Let_def host_text_def
  canonical_def parsed_origin_def parsed_url_parse_def fetch_url_parse_def tuple_origin_def origin_parse_def
  origin_serialize_def

lemma fetch_samples [simp]:
  "fetch_url_parse sample_crate n ''https://a.example/'' =
     Inr (\<lparr>fu_serialized = ''https://a.example/'',
           fu_kind = NetworkUrl \<lparr>scheme = ''https'', host = ''a.example'', port = 443, path_and_query = ''/''\<rparr>,
           fu_origin = Tuple ''https'' ''a.example'' 443\<rparr>, n)"
  "fetch_url_parse sample_crate n ''https://b.example/'' =
     Inr (\<lparr>fu_serialized = ''https://b.example/'',
           fu_kind = NetworkUrl \<lparr>scheme = ''https'', host = ''b.example'', port = 443, path_and_query = ''/''\<rparr>,
           fu_origin = Tuple ''https'' ''b.example'' 443\<rparr>, n)"
  by (simp_all add: sample_url_eval)

end
