(* ===== verification/Storage_Area.thy ===== *)
theory Storage_Area
  imports Storage_String Ordered_Map Sample_Urls
begin

text \<open>
  \<^verbatim>\<open>src/storage.rs\<close> (types, validation, \<^verbatim>\<open>storage_origin\<close>), \<^verbatim>\<open>src/storage/area.rs\<close> (the versioned map of
  one origin), \<^verbatim>\<open>src/storage/synchronization.rs\<close> (writes, updates and change records) and
  \<^verbatim>\<open>StorageChange::before\<close> of \<^verbatim>\<open>src/storage/changes.rs\<close>.
\<close>

section \<open>Limits\<close>

definition MAX_STORAGE_ORIGINS :: nat where [limit_simps]: "MAX_STORAGE_ORIGINS = 256"
definition MAX_STORAGE_ENTRIES_PER_ORIGIN :: nat where
  [limit_simps]: "MAX_STORAGE_ENTRIES_PER_ORIGIN = 1024"
definition MAX_STORAGE_BYTES_PER_ORIGIN :: nat where
  [limit_simps]: "MAX_STORAGE_BYTES_PER_ORIGIN = 5 * 1024 * 1024"
definition MAX_PENDING_STORAGE_BYTES :: nat where
  [limit_simps]: "MAX_PENDING_STORAGE_BYTES = 32 * 1024 * 1024"
definition MAX_QUEUED_BROWSER_WRITES :: nat where
  [limit_simps]: "MAX_QUEUED_BROWSER_WRITES = 4096"

section \<open>Data\<close>

datatype storage_area_kind = Local | Session

record storage_entry =
  se_key :: storage_string
  se_value :: storage_string

record storage_area_snapshot =
  sn_version :: nat
  sn_entries :: "storage_entry list"

datatype storage_operation =
    Set storage_string storage_string
  | Remove storage_string
  | Clear

record storage_mutation =
  mu_area :: storage_area_kind
  mu_expected_version :: nat
  mu_operation :: storage_operation

datatype storage_error =
    Invalid string
  | QuotaExceeded
  | Stale storage_area_snapshot
  | Persistence string

definition storage_error_text :: "storage_error \<Rightarrow> string" where
  "storage_error_text e =
     (case e of
        Invalid field \<Rightarrow> ''invalid '' @ field
      | QuotaExceeded \<Rightarrow> ''Web Storage quota exceeded''
      | Stale _ \<Rightarrow> ''Web Storage snapshot is stale''
      | Persistence detail \<Rightarrow> ''persist Web Storage: '' @ detail)"

definition validate_bytes :: "nat \<Rightarrow> storage_error + unit" where
  "validate_bytes bytes = (if bytes > MAX_STORAGE_BYTES_PER_ORIGIN then Inl QuotaExceeded else Inr ())"

definition entry_validate :: "storage_entry \<Rightarrow> storage_error + unit" where
  "entry_validate e = validate_bytes (saturating_add (byte_len (se_key e)) (byte_len (se_value e)))"

definition snapshot_empty :: storage_area_snapshot where
  "snapshot_empty = \<lparr>sn_version = 1, sn_entries = []\<rparr>"

fun snapshot_total :: "nat \<Rightarrow> storage_entry list \<Rightarrow> storage_error + nat" where
  "snapshot_total acc [] = Inr acc"
| "snapshot_total acc (e # es) =
     and_then (entry_validate e) (\<lambda>_.
       and_then (ok_or (Option.bind (checked_add acc (byte_len (se_key e)))
                          (\<lambda>value. checked_add value (byte_len (se_value e)))) QuotaExceeded) (\<lambda>acc'.
         snapshot_total acc' es))"

definition snapshot_validate :: "storage_area_snapshot \<Rightarrow> storage_error + unit" where
  "snapshot_validate s =
     (if sn_version s = 0 \<or> length (sn_entries s) > MAX_STORAGE_ENTRIES_PER_ORIGIN
      then Inl (Invalid ''storage snapshot metadata'')
      else and_then (snapshot_total 0 (sn_entries s)) (\<lambda>acc.
             if acc > MAX_STORAGE_BYTES_PER_ORIGIN then Inl QuotaExceeded else Inr ()))"

definition mutation_byte_len :: "storage_mutation \<Rightarrow> nat" where
  "mutation_byte_len m =
     (case mu_operation m of
        Set k v \<Rightarrow> byte_len k + byte_len v
      | Remove k \<Rightarrow> byte_len k
      | Clear \<Rightarrow> 0)"

definition mutation_validate :: "storage_mutation \<Rightarrow> storage_error + unit" where
  "mutation_validate m =
     (if mu_expected_version m = 0 then Inl (Invalid ''storage mutation version'')
      else case mu_operation m of
        Set k v \<Rightarrow> validate_bytes (saturating_add (byte_len k) (byte_len v))
      | Remove k \<Rightarrow> validate_bytes (byte_len k)
      | Clear \<Rightarrow> Inr ())"

definition storage_origin :: "'u url_crate_scheme \<Rightarrow> string \<Rightarrow> storage_error + string" where
  "storage_origin U u =
     (case origin_parse U 1 u of
        Inl _ \<Rightarrow> Inl (Invalid ''storage origin'')
      | Inr (o', _) \<Rightarrow>
          let serialized = origin_serialize o'
          in if serialized = ''null'' then Inl (Invalid ''opaque storage origin'') else Inr serialized)"

section \<open>The versioned area\<close>

type_synonym entry_map = "(storage_string, storage_string) omap"

record storage_area =
  ar_version :: nat
  ar_entries :: entry_map

definition area_default :: storage_area where
  "area_default = \<lparr>ar_version = 1, ar_entries = []\<rparr>"

definition area_from_snapshot :: "storage_area_snapshot \<Rightarrow> storage_error + storage_area" where
  "area_from_snapshot s =
     and_then (snapshot_validate s) (\<lambda>_.
       let entries = om_collect (map (\<lambda>e. (se_key e, se_value e)) (sn_entries s))
       in if length entries \<noteq> length (sn_entries s) then Inl (Invalid ''duplicate storage keys'')
          else Inr \<lparr>ar_version = sn_version s, ar_entries = entries\<rparr>)"

definition area_snapshot :: "storage_area \<Rightarrow> storage_area_snapshot" where
  "area_snapshot a =
     \<lparr>sn_version = ar_version a,
      sn_entries = map (\<lambda>(k, v). \<lparr>se_key = k, se_value = v\<rparr>) (ar_entries a)\<rparr>"

definition area_key :: "storage_area \<Rightarrow> nat \<Rightarrow> storage_string option" where
  "area_key a i = list_get (map fst (ar_entries a)) i"

definition area_get :: "storage_area \<Rightarrow> storage_string \<Rightarrow> storage_string option" where
  "area_get a k = om_get (ar_entries a) k"

definition entry_bytes :: "storage_string \<Rightarrow> storage_string \<Rightarrow> nat" where
  "entry_bytes k v = byte_len k + byte_len v"

definition area_byte_len :: "storage_area \<Rightarrow> nat" where
  "area_byte_len a = sum_list (map (\<lambda>(k, v). saturating_add (byte_len k) (byte_len v)) (ar_entries a))"

definition operation_changes :: "storage_area \<Rightarrow> storage_operation \<Rightarrow> bool" where
  "operation_changes a operation =
     (case operation of
        Set k v \<Rightarrow> om_get (ar_entries a) k \<noteq> Some v
      | Remove k \<Rightarrow> om_contains (ar_entries a) k
      | Clear \<Rightarrow> ar_entries a \<noteq> [])"

text \<open>
  \<^verbatim>\<open>StorageAreaState::apply\<close>. An \<open>Inl\<close> leaves the area as it was. The last \<^verbatim>\<open>checked_add\<close> cannot fail: the
  guard on the exhausted version has already returned for every operation that changes the map.
\<close>

definition area_apply :: "storage_area \<Rightarrow> storage_mutation \<Rightarrow> storage_error + bool \<times> storage_area" where
  "area_apply a m =
     and_then (mutation_validate m) (\<lambda>_.
       if mu_expected_version m \<noteq> ar_version a then Inl (Stale (area_snapshot a))
       else if ar_version a = u64_max \<and> operation_changes a (mu_operation m)
       then Inl (Invalid ''storage version exhausted'')
       else and_then
         (case mu_operation m of
            Set k v \<Rightarrow>
              if om_get (ar_entries a) k = Some v then Inr (False, ar_entries a)
              else if \<not> om_contains (ar_entries a) k \<and>
                      length (ar_entries a) \<ge> MAX_STORAGE_ENTRIES_PER_ORIGIN
              then Inl QuotaExceeded
              else
                let old_bytes = (case om_get (ar_entries a) k of
                                   None \<Rightarrow> 0 | Some old \<Rightarrow> byte_len k + byte_len old)
                in and_then (validate_bytes (area_byte_len a - old_bytes + byte_len k + byte_len v)) (\<lambda>_.
                     Inr (True, om_insert k v (ar_entries a)))
          | Remove k \<Rightarrow> Inr (om_contains (ar_entries a) k, om_remove k (ar_entries a))
          | Clear \<Rightarrow> Inr (ar_entries a \<noteq> [], []))
         (\<lambda>(changed, entries).
            if changed
            then and_then (ok_or (checked_add (ar_version a) 1) (Invalid ''storage version exhausted'')) (\<lambda>v.
                   Inr (True, \<lparr>ar_version = v, ar_entries = entries\<rparr>))
            else Inr (False, a\<lparr>ar_entries := entries\<rparr>)))"

section \<open>Writes, changes and updates\<close>

record storage_write =
  wr_sequence :: nat
  wr_source_url :: string
  wr_mutation :: storage_mutation

record storage_change =
  ch_version :: nat
  ch_key :: "storage_string option"
  ch_old_value :: "storage_string option"
  ch_new_value :: "storage_string option"

record storage_update =
  up_area :: storage_area_kind
  up_version :: nat
  up_acknowledgement :: nat
  up_change :: "storage_change option"
  up_source_url :: string

definition write_validate :: "storage_write \<Rightarrow> storage_error + unit" where
  "write_validate w =
     (if wr_sequence w = 0 \<or> length (wr_source_url w) > MAX_URL_BYTES
      then Inl (Invalid ''storage write identity'')
      else mutation_validate (wr_mutation w))"

definition change_before :: "storage_area option \<Rightarrow> storage_operation \<Rightarrow> storage_change" where
  "change_before area operation =
     (case (case operation of
              Set k v \<Rightarrow> (Some k, Some v)
            | Remove k \<Rightarrow> (Some k, None)
            | Clear \<Rightarrow> (None, None)) of
        (k, new) \<Rightarrow>
          \<lparr>ch_version = 0, ch_key = k,
           ch_old_value = Option.bind k (\<lambda>k'. Option.bind area (\<lambda>a. area_get a k')),
           ch_new_value = new\<rparr>)"

definition opt_bytes :: "storage_string option \<Rightarrow> nat" where
  "opt_bytes s = (case s of None \<Rightarrow> 0 | Some v \<Rightarrow> byte_len v)"

definition change_byte_len :: "storage_change \<Rightarrow> nat" where
  "change_byte_len c = sum_list (map opt_bytes [ch_key c, ch_old_value c, ch_new_value c])"

definition change_validate :: "storage_change \<Rightarrow> storage_error + unit" where
  "change_validate c =
     (if ch_version c = 0 \<or> (ch_key c = None \<and> (ch_old_value c \<noteq> None \<or> ch_new_value c \<noteq> None))
      then Inl (Invalid ''storage change payload'')
      else each_ok (\<lambda>value. validate_bytes (opt_bytes (ch_key c) + opt_bytes value))
             [ch_old_value c, ch_new_value c])"

definition change_operation :: "storage_change \<Rightarrow> storage_operation" where
  "change_operation c =
     (case (ch_key c, ch_new_value c) of
        (Some k, Some v) \<Rightarrow> Set k v
      | (Some k, None) \<Rightarrow> Remove k
      | (None, _) \<Rightarrow> Clear)"

definition update_byte_len :: "storage_update \<Rightarrow> nat" where
  "update_byte_len u =
     length (up_source_url u) + (case up_change u of None \<Rightarrow> 0 | Some c \<Rightarrow> change_byte_len c)"

definition update_validate :: "storage_update \<Rightarrow> storage_error + unit" where
  "update_validate u =
     (if up_version u = 0 \<or> length (up_source_url u) > MAX_URL_BYTES \<or>
         (up_acknowledgement u = 0 \<and> up_change u = None)
      then Inl (Invalid ''storage update metadata'')
      else case up_change u of
        None \<Rightarrow> Inr ()
      | Some c \<Rightarrow>
          if ch_version c \<noteq> up_version u then Inl (Invalid ''storage change version'')
          else change_validate c)"

section \<open>What an operation means\<close>

text \<open>The effect of an operation on the map alone; quota and version play no part.\<close>

fun overlay :: "storage_operation \<Rightarrow> entry_map \<Rightarrow> entry_map" where
  "overlay (Set k v) m = om_insert k v m"
| "overlay (Remove k) m = om_remove k m"
| "overlay Clear m = []"

definition within_quota :: "entry_map \<Rightarrow> bool" where
  "within_quota m \<longleftrightarrow> length m \<le> MAX_STORAGE_ENTRIES_PER_ORIGIN \<and>
     om_weight entry_bytes m \<le> MAX_STORAGE_BYTES_PER_ORIGIN"

definition area_inv :: "storage_area \<Rightarrow> bool" where
  "area_inv a \<longleftrightarrow> om_wf (ar_entries a) \<and> within_quota (ar_entries a) \<and>
     1 \<le> ar_version a \<and> ar_version a \<le> u64_max"

lemma overlay_wf [simp]: "om_wf m \<Longrightarrow> om_wf (overlay operation m)"
  by (cases operation) auto

lemma overlay_get:
  "om_get (overlay operation m) k =
     (case operation of
        Set j v \<Rightarrow> if k = j then Some v else om_get m k
      | Remove j \<Rightarrow> if k = j then None else om_get m k
      | Clear \<Rightarrow> None)"
  by (cases operation) auto

lemma overlay_unchanged: "om_wf (ar_entries a) \<Longrightarrow> \<not> operation_changes a operation \<Longrightarrow>
    overlay operation (ar_entries a) = ar_entries a"
  by (cases operation) (auto simp: operation_changes_def om_contains_def bt.ins_same om_remove_absent)

lemma overlay_changed: "operation_changes a operation \<Longrightarrow> overlay operation (ar_entries a) \<noteq> ar_entries a"
proof
  assume "operation_changes a operation" and eq: "overlay operation (ar_entries a) = ar_entries a"
  then show False
    by (cases operation)
      (auto simp: operation_changes_def om_contains_def, metis om_get_insert, metis om_get_remove option.distinct(1))
qed

lemma entry_bytes_sat: "entry_bytes k v \<le> MAX_STORAGE_BYTES_PER_ORIGIN \<Longrightarrow>
    saturating_add (byte_len k) (byte_len v) = entry_bytes k v"
  by (simp add: saturating_add_def entry_bytes_def limit_simps)

lemma area_byte_len_eq:
  assumes "om_weight entry_bytes (ar_entries a) \<le> MAX_STORAGE_BYTES_PER_ORIGIN"
  shows "area_byte_len a = om_weight entry_bytes (ar_entries a)"
proof -
  have "\<forall>e\<in>set (ar_entries a). entry_bytes (fst e) (snd e) \<le> MAX_STORAGE_BYTES_PER_ORIGIN"
    using assms om_weight_mem order_trans by blast
  then show ?thesis
    unfolding area_byte_len_def om_weight_def
    by (intro arg_cong [of _ _ sum_list] map_cong) (auto simp: entry_bytes_sat)
qed

lemma validate_bytes_Inr [simp]: "validate_bytes n = Inr u \<longleftrightarrow> n \<le> MAX_STORAGE_BYTES_PER_ORIGIN"
  by (auto simp: validate_bytes_def)

lemma validate_bytes_Inl [simp]: "validate_bytes n = Inl e \<longleftrightarrow> MAX_STORAGE_BYTES_PER_ORIGIN < n \<and> e = QuotaExceeded"
  by (auto simp: validate_bytes_def)

lemma within_quota_overlay_shrink:
  "om_wf m \<Longrightarrow> within_quota m \<Longrightarrow> within_quota (om_remove k m)"
  using bt.total_del_le [of m entry_bytes k]
  by (auto simp: within_quota_def length_om_remove)

lemma within_quota_Nil [simp]: "within_quota []"
  by (simp add: within_quota_def om_weight_def)

text \<open>The preflight of \<open>Set\<close> computes the exact size of the resulting map.\<close>

lemma set_preflight:
  assumes "om_wf (ar_entries a)" "om_weight entry_bytes (ar_entries a) \<le> MAX_STORAGE_BYTES_PER_ORIGIN"
  shows "area_byte_len a - (case om_get (ar_entries a) k of None \<Rightarrow> 0 | Some old \<Rightarrow> byte_len k + byte_len old)
           + byte_len k + byte_len v = om_weight entry_bytes (om_insert k v (ar_entries a))"
  using bt.total_replace [OF assms(1), of entry_bytes k v] area_byte_len_eq [OF assms(2)]
  by (simp add: entry_bytes_def split: option.splits)

section \<open>One mutation\<close>

lemmas area_apply_unfold = area_apply_def result_simps

text \<open>A successful mutation, without any assumption on the area.\<close>

lemma area_apply_Inr:
  assumes "area_apply a m = Inr (changed, a')" and wf: "om_wf (ar_entries a)"
  shows "mutation_validate m = Inr ()" "mu_expected_version m = ar_version a"
    and "changed = operation_changes a (mu_operation m)"
    and "ar_entries a' = overlay (mu_operation m) (ar_entries a)"
    and "ar_version a' = (if changed then ar_version a + 1 else ar_version a)"
    and "changed \<Longrightarrow> ar_version a < u64_max"
proof -
  note A = assms(1) [unfolded area_apply_def, simplified result_simps]
  show "mutation_validate m = Inr ()" "mu_expected_version m = ar_version a"
    using A by (auto split: if_splits)
  show ch: "changed = operation_changes a (mu_operation m)"
    using A by (auto simp: operation_changes_def result_simps Let_def om_contains_def
        split: if_splits storage_operation.splits)
  show "ar_entries a' = overlay (mu_operation m) (ar_entries a)"
    using A wf by (auto simp: result_simps Let_def bt.ins_same
        split: if_splits storage_operation.splits)
  show "ar_version a' = (if changed then ar_version a + 1 else ar_version a)"
    using A by (auto simp: result_simps Let_def split: if_splits storage_operation.splits)
  show "changed \<Longrightarrow> ar_version a < u64_max"
    using A by (auto simp: result_simps Let_def split: if_splits storage_operation.splits)
qed

lemma area_apply_quota:
  assumes "area_apply a m = Inr (changed, a')" "area_inv a"
  shows "within_quota (ar_entries a')"
proof -
  from assms(2) have wf: "om_wf (ar_entries a)" and q: "within_quota (ar_entries a)"
    by (auto simp: area_inv_def)
  note A = assms(1) [unfolded area_apply_def, simplified result_simps]
  show ?thesis
  proof (cases "mu_operation m")
    case (Set k v)
    have "om_weight entry_bytes (ar_entries a) \<le> MAX_STORAGE_BYTES_PER_ORIGIN"
      using q by (simp add: within_quota_def)
    note pre = set_preflight [OF wf this, of k v]
    show ?thesis
      using A q Set pre
      by (auto simp: result_simps Let_def within_quota_def length_om_insert [OF wf] om_contains_def
          split: if_splits)
  next
    case (Remove k)
    then show ?thesis
      using A q wf by (auto simp: result_simps within_quota_overlay_shrink split: if_splits)
  next
    case Clear
    then show ?thesis
      using A by (auto simp: result_simps split: if_splits)
  qed
qed

lemma area_apply_area_inv:
  assumes "area_apply a m = Inr (changed, a')" "area_inv a"
  shows "area_inv a'"
proof -
  have wf: "om_wf (ar_entries a)" using assms(2) by (simp add: area_inv_def)
  show ?thesis
    using assms(2) area_apply_quota [OF assms] area_apply_Inr [OF assms(1) wf] wf
    by (auto simp: area_inv_def)
qed

text \<open>A change never costs more than the whole quota, so validation of a fitting map cannot fail.\<close>

lemma within_quota_entry: "within_quota m \<Longrightarrow> om_get m k = Some v \<Longrightarrow> entry_bytes k v \<le> MAX_STORAGE_BYTES_PER_ORIGIN"
  using bt.total_get [of m k v entry_bytes] by (simp add: within_quota_def)

lemma area_apply_accepts:
  assumes inv: "area_inv a" and v: "mutation_validate m = Inr ()"
    and ver: "mu_expected_version m = ar_version a"
    and room: "operation_changes a (mu_operation m) \<longrightarrow> ar_version a < u64_max"
    and fits: "within_quota (overlay (mu_operation m) (ar_entries a))"
  shows "\<exists>r. area_apply a m = Inr r"
proof -
  from inv have wf: "om_wf (ar_entries a)" and q: "om_weight entry_bytes (ar_entries a) \<le> MAX_STORAGE_BYTES_PER_ORIGIN"
    by (auto simp: area_inv_def within_quota_def)
  show ?thesis
  proof (cases "mu_operation m")
    case (Set k v)
    then show ?thesis
      using fits room set_preflight [OF wf q, of k v] length_om_insert [OF wf, of k v]
      by (auto simp: area_apply_def v ver Let_def within_quota_def om_contains_def operation_changes_def
          validate_bytes_def ok_or_def checked_add_def)
  qed (use room in \<open>auto simp: area_apply_def v ver operation_changes_def ok_or_def checked_add_def\<close>)
qed

lemma area_apply_rejects:
  assumes inv: "area_inv a" and v: "mutation_validate m = Inr ()"
    and ver: "mu_expected_version m = ar_version a"
    and room: "operation_changes a (mu_operation m) \<longrightarrow> ar_version a < u64_max"
    and over: "\<not> within_quota (overlay (mu_operation m) (ar_entries a))"
  shows "area_apply a m = Inl QuotaExceeded"
proof -
  from inv have wf: "om_wf (ar_entries a)" and q: "within_quota (ar_entries a)"
    and qb: "om_weight entry_bytes (ar_entries a) \<le> MAX_STORAGE_BYTES_PER_ORIGIN"
    by (auto simp: area_inv_def within_quota_def)
  obtain k w where S: "mu_operation m = Set k w"
    using over q wf by (cases "mu_operation m") (auto simp: within_quota_overlay_shrink)
  have "om_get (ar_entries a) k \<noteq> Some w"
    using over q wf by (auto simp: S bt.ins_same)
  then show ?thesis
    using over q room set_preflight [OF wf qb, of k w] length_om_insert [OF wf, of k w]
    by (auto simp: area_apply_def v ver S Let_def within_quota_def om_contains_def operation_changes_def
        validate_bytes_def split: if_splits option.splits)
qed

section \<open>Snapshots\<close>

lemma snapshot_total_Inr:
  "snapshot_total acc es = Inr t \<Longrightarrow>
     t = acc + sum_list (map (\<lambda>e. entry_bytes (se_key e) (se_value e)) es)"
  by (induction acc es arbitrary: t rule: snapshot_total.induct)
    (auto simp: result_simps entry_bytes_def bind_eq_Some_conv)

lemma snapshot_total_fits:
  "acc + sum_list (map (\<lambda>e. entry_bytes (se_key e) (se_value e)) es) \<le> MAX_STORAGE_BYTES_PER_ORIGIN \<Longrightarrow>
     snapshot_total acc es = Inr (acc + sum_list (map (\<lambda>e. entry_bytes (se_key e) (se_value e)) es))"
proof (induction acc es rule: snapshot_total.induct)
  case (2 acc e es)
  let ?b = "entry_bytes (se_key e) (se_value e)"
  have "?b \<le> MAX_STORAGE_BYTES_PER_ORIGIN" using "2.prems" by simp
  then have val: "entry_validate e = Inr ()"
    by (simp add: entry_validate_def entry_bytes_sat)
  have "acc + ?b \<le> u64_max" using "2.prems" by (simp add: limit_simps)
  then have "Option.bind (checked_add acc (byte_len (se_key e)))
      (\<lambda>value. checked_add value (byte_len (se_value e))) = Some (acc + ?b)"
    by (simp add: checked_add_def entry_bytes_def)
  then have eq: "snapshot_total acc (e # es) = snapshot_total (acc + ?b) es"
    by (simp add: val)
  have "snapshot_total (acc + ?b) es =
      Inr (acc + ?b + sum_list (map (\<lambda>e. entry_bytes (se_key e) (se_value e)) es))"
    using "2.IH"(1) [of "()" "acc + ?b"] "2.prems" val \<open>Option.bind _ _ = _\<close> by (simp add: add.assoc)
  then show ?case using eq by (simp add: add.assoc)
qed simp

lemma area_snapshot_bytes:
  "sum_list (map (\<lambda>e. entry_bytes (se_key e) (se_value e)) (sn_entries (area_snapshot a))) =
     om_weight entry_bytes (ar_entries a)"
  by (simp add: area_snapshot_def om_weight_def comp_def case_prod_beta)

lemma snapshot_pairs:
  "map (\<lambda>e. (se_key e, se_value e)) (sn_entries (area_snapshot a)) = ar_entries a"
  by (simp add: area_snapshot_def comp_def case_prod_beta)

lemma area_snapshot_valid: "area_inv a \<Longrightarrow> snapshot_validate (area_snapshot a) = Inr ()"
  using snapshot_total_fits [of 0 "sn_entries (area_snapshot a)"] area_snapshot_bytes [of a]
  by (auto simp: snapshot_validate_def area_inv_def within_quota_def) (auto simp: area_snapshot_def)

lemma area_from_snapshot_area_snapshot:
  assumes "area_inv a" shows "area_from_snapshot (area_snapshot a) = Inr a"
  unfolding area_from_snapshot_def snapshot_pairs
  using area_snapshot_valid [OF assms] assms
  by (simp add: Let_def area_inv_def om_collect_sorted) (simp add: area_snapshot_def)

lemma area_from_snapshot_inv:
  assumes "area_from_snapshot s = Inr a" "sn_version s \<le> u64_max"
  shows "area_inv a" "ar_version a = sn_version s"
    and "\<And>k. om_get (ar_entries a) k = map_of (map (\<lambda>e. (se_key e, se_value e)) (sn_entries s)) k"
proof -
  let ?ps = "map (\<lambda>e. (se_key e, se_value e)) (sn_entries s)"
  from assms(1) have val: "snapshot_validate s = Inr ()" and len: "length (om_collect ?ps) = length (sn_entries s)"
    and a: "a = \<lparr>ar_version = sn_version s, ar_entries = om_collect ?ps\<rparr>"
    by (auto simp: area_from_snapshot_def result_simps Let_def split: if_splits)
  have d: "distinct (map fst ?ps)"
    using len length_om_collect_distinct [of ?ps] by simp
  from val have "sn_version s \<noteq> 0" "length (sn_entries s) \<le> MAX_STORAGE_ENTRIES_PER_ORIGIN"
    and "sum_list (map (\<lambda>e. entry_bytes (se_key e) (se_value e)) (sn_entries s)) \<le> MAX_STORAGE_BYTES_PER_ORIGIN"
    by (auto simp: snapshot_validate_def result_simps not_less dest!: snapshot_total_Inr split: if_splits)
  then show "area_inv a"
    using assms(2) len om_weight_collect [OF d, of entry_bytes]
    by (simp add: a area_inv_def within_quota_def comp_def)
  show "ar_version a = sn_version s" by (simp add: a)
  show "om_get (ar_entries a) k = map_of ?ps k" for k
    by (simp add: a om_get_collect [OF d])
qed

section \<open>Change records\<close>

lemma change_operation_before [simp]: "change_operation (change_before a operation) = operation"
  by (cases operation) (simp_all add: change_operation_def change_before_def)

lemma change_operation_version [simp]: "change_operation (c\<lparr>ch_version := v\<rparr>) = change_operation c"
  by (simp add: change_operation_def)

lemma change_before_old:
  "ch_key (change_before (Some a) operation) = Some k \<Longrightarrow>
     ch_old_value (change_before (Some a) operation) = area_get a k"
  by (cases operation) (auto simp: change_before_def)

lemma area_default_inv [simp]: "area_inv area_default"
  by (simp add: area_inv_def area_default_def u64_max_def)

section \<open>Chains of changes\<close>

text \<open>
  A change record follows an area when its version is the next one, its old value is the current one
  and its operation really changes the map. \<open>follow\<close> applies a sequence of records under exactly these
  checks: it is what a recipient of broadcast changes relies on.
\<close>

definition change_follows :: "storage_area \<Rightarrow> storage_change \<Rightarrow> bool" where
  "change_follows a c \<longleftrightarrow> ch_version c = ar_version a + 1 \<and>
     (\<forall>k. ch_key c = Some k \<longrightarrow> ch_old_value c = area_get a k) \<and>
     operation_changes a (change_operation c)"

definition after_change :: "storage_area \<Rightarrow> storage_change \<Rightarrow> storage_area" where
  "after_change a c =
     \<lparr>ar_version = ar_version a + 1, ar_entries = overlay (change_operation c) (ar_entries a)\<rparr>"

fun follow :: "storage_area \<Rightarrow> storage_change list \<Rightarrow> storage_area option" where
  "follow a [] = Some a"
| "follow a (c # cs) = (if change_follows a c then follow (after_change a c) cs else None)"

lemma follow_append: "follow a (cs @ ds) = Option.bind (follow a cs) (\<lambda>b. follow b ds)"
  by (induction cs arbitrary: a) auto

lemma follow_entries:
  "follow a cs = Some b \<Longrightarrow>
     ar_version b = ar_version a + length cs \<and>
     ar_entries b = fold (\<lambda>c. overlay (change_operation c)) cs (ar_entries a)"
  by (induction cs arbitrary: a) (auto simp: after_change_def split: if_splits)

lemma follow_versions:
  "follow a cs = Some b \<Longrightarrow> map ch_version cs = map (\<lambda>i. ar_version a + 1 + i) [0..<length cs]"
proof (induction cs arbitrary: a)
  case (Cons c cs)
  then have "map ch_version cs = map (\<lambda>i. ar_version (after_change a c) + 1 + i) [0..<length cs]"
    by (auto split: if_splits)
  moreover have "ch_version c = ar_version a + 1"
    using Cons.prems by (auto simp: change_follows_def split: if_splits)
  ultimately show ?case
    by (simp add: after_change_def upt_conv_Cons del: upt_Suc) (simp add: map_Suc_upt [symmetric] comp_def del: upt_Suc)
qed simp

text \<open>Applying a sequence of mutations, collecting one record per actual change.\<close>

fun area_run :: "storage_mutation list \<Rightarrow> storage_area \<Rightarrow> storage_error + storage_change list \<times> storage_area" where
  "area_run [] a = Inr ([], a)"
| "area_run (m # ms) a =
     and_then (area_apply a m) (\<lambda>(changed, a').
       and_then (area_run ms a') (\<lambda>(cs, b).
         Inr ((if changed then [(change_before (Some a) (mu_operation m))\<lparr>ch_version := ar_version a'\<rparr>] else []) @ cs, b)))"

lemma area_apply_unchanged:
  assumes "area_apply a m = Inr (False, a')" "om_wf (ar_entries a)" shows "a' = a"
  using area_apply_Inr [OF assms] overlay_unchanged [OF assms(2), of "mu_operation m"]
  by (cases a; cases a') auto

lemma area_apply_change:
  assumes "area_apply a m = Inr (True, a')" "om_wf (ar_entries a)"
  defines "c \<equiv> (change_before (Some a) (mu_operation m))\<lparr>ch_version := ar_version a'\<rparr>"
  shows "change_follows a c" "after_change a c = a'"
  using area_apply_Inr [OF assms(1,2)] change_before_old [of a "mu_operation m"]
  by (cases a'; simp add: c_def change_follows_def after_change_def)+

lemma area_run_follow:
  "area_run ms a = Inr (cs, b) \<Longrightarrow> om_wf (ar_entries a) \<Longrightarrow> follow a cs = Some b"
proof (induction ms arbitrary: a cs)
  case (Cons m ms)
  then obtain changed a' cs' where ap: "area_apply a m = Inr (changed, a')"
    and run: "area_run ms a' = Inr (cs', b)"
    and cs: "cs = (if changed then [(change_before (Some a) (mu_operation m))\<lparr>ch_version := ar_version a'\<rparr>] else []) @ cs'"
    by (auto simp: result_simps)
  have "om_wf (ar_entries a')"
    using area_apply_Inr(4) [OF ap Cons.prems(2)] Cons.prems(2) by simp
  with Cons.IH [OF run] have "follow a' cs' = Some b" .
  then show ?case
    using area_apply_change [OF _ Cons.prems(2), of m a'] area_apply_unchanged [OF _ Cons.prems(2), of m a'] ap
    by (cases changed) (auto simp: cs)
qed simp

lemma area_run_inv:
  "area_run ms a = Inr (cs, b) \<Longrightarrow> area_inv a \<Longrightarrow> area_inv b"
  by (induction ms arbitrary: a cs) (auto simp: result_simps dest: area_apply_area_inv)

lemma area_run_entries:
  "area_run ms a = Inr (cs, b) \<Longrightarrow> om_wf (ar_entries a) \<Longrightarrow>
     ar_entries b = fold (\<lambda>m. overlay (mu_operation m)) ms (ar_entries a)"
proof (induction ms arbitrary: a cs)
  case (Cons m ms)
  then show ?case
    by (auto simp: result_simps dest: area_apply_Inr(4) [OF _ Cons.prems(2)])
qed simp

lemma area_run_append:
  "area_run (ms @ ns) a =
     and_then (area_run ms a) (\<lambda>(cs, b). and_then (area_run ns b) (\<lambda>(ds, d). Inr (cs @ ds, d)))"
proof (induction ms arbitrary: a)
  case (Cons m ms)
  show ?case
    by (cases "area_apply a m"; cases "area_run ms (snd (projr (area_apply a m)))")
      (auto simp: Cons and_then_def split: sum.splits)
qed (auto simp: and_then_def split: sum.splits)

lemma change_before_default: "change_before (Some area_default) = change_before None"
  by (rule ext) (simp add: change_before_def area_default_def area_get_def
      split: storage_operation.splits)

section \<open>Properties\<close>

text \<open>An accepted mutation leaves an area within its entry and byte quotas, sorted, at a version that is
  the next one exactly when the map changed, and with the effect of its operation.\<close>

theorem area_apply_correct:
  assumes "area_inv a" "area_apply a m = Inr (changed, a')"
  shows "area_inv a' \<and> ar_entries a' = overlay (mu_operation m) (ar_entries a) \<and>
    (changed \<longleftrightarrow> ar_entries a' \<noteq> ar_entries a) \<and>
    ar_version a' = (if changed then ar_version a + 1 else ar_version a)"
proof -
  have wf: "om_wf (ar_entries a)" using assms(1) by (simp add: area_inv_def)
  note A = area_apply_Inr [OF assms(2) wf]
  show ?thesis
    using A area_apply_area_inv [OF assms(2,1)] overlay_changed [of a "mu_operation m"] overlay_unchanged [OF wf]
    by auto
qed

definition sample_area :: storage_area where
  "sample_area = \<lparr>ar_version = 7, ar_entries = [([97], [49])]\<rparr>"

definition sample_set :: storage_mutation where
  "sample_set = \<lparr>mu_area = Local, mu_expected_version = 7, mu_operation = Set [98] [50, 50]\<rparr>"

lemmas area_eval = area_apply_def sample_area_def sample_set_def mutation_validate_def validate_bytes_def byte_len_def
  quota_bytes_def saturating_add_def limit_simps operation_changes_def om_contains_def area_byte_len_def Let_def
  ok_or_def checked_add_def

lemma sample_area_inv: "area_inv sample_area"
  by (simp add: area_inv_def within_quota_def om_weight_def entry_bytes_def area_eval om_wf_def)

lemma sample_area_set: "area_apply sample_area sample_set =
    Inr (True, \<lparr>ar_version = 8, ar_entries = [([97], [49]), ([98], [50, 50])]\<rparr>)"
  by (simp add: area_eval)

theorem area_apply_correct_witness:
  "area_inv \<lparr>ar_version = 8, ar_entries = [([97], [49]), ([98], [50, 50])]\<rparr> \<and>
   overlay (Set [98] [50, 50]) [([97], [49])] = [([97], [49]), ([98], [50, 50 :: u16])]"
  using area_apply_correct [OF sample_area_inv sample_area_set]
  by (simp add: sample_area_def sample_set_def)

text \<open>A well-formed, up-to-date mutation is accepted exactly when the map it produces is within both quotas;
  otherwise the answer is the quota error and nothing else.\<close>

theorem area_apply_exact_quota:
  assumes "area_inv a" "mutation_validate m = Inr ()" "mu_expected_version m = ar_version a" "ar_version a < u64_max"
  shows "if within_quota (overlay (mu_operation m) (ar_entries a))
         then \<exists>r. area_apply a m = Inr r else area_apply a m = Inl QuotaExceeded"
  using area_apply_accepts [OF assms(1-3)] area_apply_rejects [OF assms(1-3)] assms(4) by simp

theorem area_apply_exact_quota_witness:
  "if within_quota (overlay (mu_operation sample_set) (ar_entries sample_area))
   then \<exists>r. area_apply sample_area sample_set = Inr r else area_apply sample_area sample_set = Inl QuotaExceeded"
  by (rule area_apply_exact_quota [OF sample_area_inv]) (simp_all add: area_eval u64_max_def)

text \<open>The snapshot of an area that satisfies its invariant is accepted and rebuilds the same area.\<close>

theorem snapshot_round_trip:
  assumes "area_inv a" shows "area_from_snapshot (area_snapshot a) = Inr a"
  using assms by (rule area_from_snapshot_area_snapshot)

theorem snapshot_round_trip_witness: "area_from_snapshot (area_snapshot sample_area) = Inr sample_area"
  by (rule snapshot_round_trip [OF sample_area_inv])

end
