(* ===== verification/Recoverable_File.thy ===== *)
theory Recoverable_File
  imports Prelude "HOL-Library.Word"
begin

text \<open>
  The write-to-temporary, keep-a-backup, rename protocol that the four profile stores share
  (\<^verbatim>\<open>write_recoverable\<close> and \<^verbatim>\<open>load\<close> of \<^verbatim>\<open>src/storage/persistence.rs\<close>, \<^verbatim>\<open>src/indexed_db/persistence.rs\<close>,
  \<^verbatim>\<open>src/cache_storage/persistence.rs\<close> and \<^verbatim>\<open>src/winhttp/cookies/persistence.rs\<close>). The file system is the
  state of three paths; every system call either takes effect or reports an error, and \<^verbatim>\<open>rename\<close>
  replaces its target in one step. A run records each state of the disk it passes through, so that a
  crash is any prefix of it.
\<close>

type_synonym bytes = "8 word list"

datatype file_state = Missing | Unreadable string | Content bytes

record files =
  f_primary :: file_state
  f_backup :: file_state
  f_temporary :: file_state

datatype syscall =
    ParentDir | CreateDirAll | CreateTemporary | WriteAll | SyncAll
  | RemoveBackup | RenameToBackup | RenameToPrimary | RestoreBackup

text \<open>Which calls fail, with the error text, and how much of a failed write reached the disk.\<close>

record io_env =
  io_fail :: "syscall \<Rightarrow> string option"
  io_written :: nat

definition io_ok :: io_env where
  "io_ok = \<lparr>io_fail = (\<lambda>_. None), io_written = 0\<rparr>"

text \<open>
  The last part of a write: move the old file away and publish the new one. In \<^verbatim>\<open>storage\<close> and \<^verbatim>\<open>cookies\<close> the
  result of removing the old backup is ignored; \<^verbatim>\<open>indexed_db\<close> and \<^verbatim>\<open>cache_storage\<close> (\<open>strict\<close>) return the
  error unless the file was not found.
\<close>

definition publish :: "io_env \<Rightarrow> files list \<Rightarrow> (string + unit) \<times> files list" where
  "publish io tr =
     (let fs = last tr
      in case io_fail io RenameToPrimary of
           None \<Rightarrow> (Inr (), tr @ [fs\<lparr>f_primary := f_temporary fs, f_temporary := Missing\<rparr>])
         | Some e \<Rightarrow>
             (Inl e,
              if f_backup fs \<noteq> Missing \<and> io_fail io RestoreBackup = None
              then tr @ [fs\<lparr>f_primary := f_backup fs, f_backup := Missing\<rparr>] else tr))"

definition set_aside :: "bool \<Rightarrow> io_env \<Rightarrow> files list \<Rightarrow> (string + unit) \<times> files list" where
  "set_aside strict io tr =
     (let fs = last tr;
          removed = (case io_fail io RemoveBackup of
                       None \<Rightarrow> Inr (fs\<lparr>f_backup := Missing\<rparr>)
                     | Some e \<Rightarrow> if strict \<and> f_backup fs \<noteq> Missing then Inl e else Inr fs)
      in case removed of
           Inl e \<Rightarrow> (Inl e, tr)
         | Inr fs1 \<Rightarrow>
             (case io_fail io RenameToBackup of
                Some e \<Rightarrow> (Inl e, tr @ [fs1])
              | None \<Rightarrow> publish io (tr @ [fs1, fs1\<lparr>f_backup := f_primary fs1, f_primary := Missing\<rparr>])))"

definition write_run :: "bool \<Rightarrow> io_env \<Rightarrow> files \<Rightarrow> bytes \<Rightarrow> (string + unit) \<times> files list" where
  "write_run strict io fs bytes =
     (case io_fail io ParentDir of
        Some e \<Rightarrow> (Inl e, [fs])
      | None \<Rightarrow> (case io_fail io CreateDirAll of
          Some e \<Rightarrow> (Inl e, [fs])
        | None \<Rightarrow> (case io_fail io CreateTemporary of
            Some e \<Rightarrow> (Inl e, [fs])
          | None \<Rightarrow>
              let opened = fs\<lparr>f_temporary := Content []\<rparr>
              in case io_fail io WriteAll of
                Some e \<Rightarrow> (Inl e, [fs, opened, fs\<lparr>f_temporary := Content (take (io_written io) bytes)\<rparr>])
              | None \<Rightarrow>
                  let written = fs\<lparr>f_temporary := Content bytes\<rparr>;
                      tr = [fs, opened, written]
                  in case io_fail io SyncAll of
                    Some e \<Rightarrow> (Inl e, tr)
                  | None \<Rightarrow>
                      if f_primary written \<noteq> Missing then set_aside strict io tr else publish io tr)))"

definition write_recoverable :: "bool \<Rightarrow> io_env \<Rightarrow> files \<Rightarrow> bytes \<Rightarrow> (string + unit) \<times> files" where
  "write_recoverable strict io fs bytes =
     (case write_run strict io fs bytes of (r, tr) \<Rightarrow> (r, last tr))"

definition load_recoverable :: "(file_state \<Rightarrow> 'e + 's option) \<Rightarrow> 's \<Rightarrow> files \<Rightarrow> 'e + 's" where
  "load_recoverable rd dflt fs =
     (case rd (f_primary fs) of
        Inr (Some s) \<Rightarrow> Inr s
      | Inr None \<Rightarrow> map_sum id (\<lambda>o'. case o' of None \<Rightarrow> dflt | Some s \<Rightarrow> s) (rd (f_backup fs))
      | Inl primary \<Rightarrow> and_then (rd (f_backup fs)) (\<lambda>o'. ok_or o' primary))"

section \<open>The states a write passes through\<close>

definition published_state :: "files \<Rightarrow> bytes \<Rightarrow> files \<Rightarrow> bool" where
  "published_state fs b fs' \<longleftrightarrow>
     f_primary fs' = Content b \<or>
     f_primary fs' = f_primary fs \<and> (f_primary fs \<noteq> Missing \<or> f_backup fs' = f_backup fs) \<or>
     f_primary fs \<noteq> Missing \<and> f_primary fs' = Missing \<and> f_backup fs' = f_primary fs \<or>
     f_primary fs = Missing \<and> f_primary fs' = f_backup fs \<and> f_backup fs \<noteq> Missing"

lemma published_state_temporary [simp]:
  "published_state fs b fs" "published_state fs b (fs\<lparr>f_temporary := t\<rparr>)"
  "f_primary fs \<noteq> Missing \<Longrightarrow> published_state fs b (fs\<lparr>f_backup := x, f_temporary := t\<rparr>)"
  by (auto simp: published_state_def)

lemma publish_states:
  assumes "publish io tr = (r, tr')" "f_temporary (last tr) = Content b"
    and "f_primary (last tr) = Missing"
    and "f_primary fs \<noteq> Missing \<and> f_backup (last tr) = f_primary fs \<or>
         f_primary fs = Missing \<and> f_backup (last tr) = f_backup fs"
    and "\<forall>x\<in>set tr. published_state fs b x" "tr \<noteq> []"
  shows "\<forall>x\<in>set tr'. published_state fs b x" "tr' \<noteq> []"
    and "r = Inr u \<Longrightarrow> f_primary (last tr') = Content b"
  using assms
  by (auto simp: publish_def Let_def published_state_def split: option.splits if_splits)

lemma set_aside_states:
  assumes "set_aside strict io tr = (r, tr')" "last tr = fs\<lparr>f_temporary := Content b\<rparr>"
    and "f_primary fs \<noteq> Missing" "\<forall>x\<in>set tr. published_state fs b x" "tr \<noteq> []"
  shows "\<forall>x\<in>set tr'. published_state fs b x" "tr' \<noteq> []"
    and "r = Inr u \<Longrightarrow> f_primary (last tr') = Content b"
proof -
  have "\<exists>fs1. f_primary fs1 = f_primary fs \<and> f_temporary fs1 = Content b \<and>
      (is_ok r = False \<and> (tr' = tr \<or> tr' = tr @ [fs1]) \<or>
       publish io (tr @ [fs1, fs1\<lparr>f_backup := f_primary fs1, f_primary := Missing\<rparr>]) = (r, tr'))"
    using assms(1,2)
    by (cases "io_fail io RemoveBackup"; cases "io_fail io RenameToBackup";
        cases "strict \<and> f_backup fs \<noteq> Missing")
      (auto simp: set_aside_def Let_def intro: exI [of _ "fs\<lparr>f_temporary := Content b\<rparr>"]
        exI [of _ "fs\<lparr>f_temporary := Content b, f_backup := Missing\<rparr>"])
  then obtain fs1 where fs1: "f_primary fs1 = f_primary fs" "f_temporary fs1 = Content b"
    and "is_ok r = False \<and> (tr' = tr \<or> tr' = tr @ [fs1]) \<or>
      publish io (tr @ [fs1, fs1\<lparr>f_backup := f_primary fs1, f_primary := Missing\<rparr>]) = (r, tr')"
    by blast
  from this(3) have "(\<forall>x\<in>set tr'. published_state fs b x) \<and> tr' \<noteq> [] \<and>
      (r = Inr u \<longrightarrow> f_primary (last tr') = Content b)"
  proof
    assume "publish io (tr @ [fs1, fs1\<lparr>f_backup := f_primary fs1, f_primary := Missing\<rparr>]) = (r, tr')"
    from publish_states [OF this, of b fs] show ?thesis
      using assms(3,4) fs1 by (auto simp: published_state_def)
  qed (use assms(3,4,5) fs1 in \<open>auto simp: published_state_def\<close>)
  then show "\<forall>x\<in>set tr'. published_state fs b x" "tr' \<noteq> []"
    and "r = Inr u \<Longrightarrow> f_primary (last tr') = Content b" by blast+
qed

lemma write_run_states:
  assumes "write_run strict io fs b = (r, tr)"
  shows "\<forall>x\<in>set tr. published_state fs b x" "tr \<noteq> []"
    and "r = Inr u \<Longrightarrow> f_primary (last tr) = Content b"
proof -
  let ?tr = "[fs, fs\<lparr>f_temporary := Content []\<rparr>, fs\<lparr>f_temporary := Content b\<rparr>]"
  have "(is_ok r = False \<and> tr \<noteq> [] \<and> (\<forall>x\<in>set tr. published_state fs b x)) \<or>
      (f_primary fs \<noteq> Missing \<and> set_aside strict io ?tr = (r, tr)) \<or>
      (f_primary fs = Missing \<and> publish io ?tr = (r, tr))"
    using assms by (auto simp: write_run_def Let_def split: option.splits if_splits)
  then consider "is_ok r = False" "tr \<noteq> []" "\<forall>x\<in>set tr. published_state fs b x"
    | "f_primary fs \<noteq> Missing" "set_aside strict io ?tr = (r, tr)"
    | "f_primary fs = Missing" "publish io ?tr = (r, tr)"
    by blast
  then have "(\<forall>x\<in>set tr. published_state fs b x) \<and> tr \<noteq> [] \<and>
      (r = Inr u \<longrightarrow> f_primary (last tr) = Content b)"
  proof cases
    case 2
    from set_aside_states [OF 2(2) _ 2(1)] show ?thesis by simp
  next
    case 3
    from publish_states [OF 3(2), of b fs] 3(1) show ?thesis by simp
  qed auto
  then show "\<forall>x\<in>set tr. published_state fs b x" "tr \<noteq> []"
    and "r = Inr u \<Longrightarrow> f_primary (last tr) = Content b" by blast+
qed

text \<open>
  What a store promises about the reader of one file: a missing file reads as nothing, and only a
  missing file does.
\<close>

locale recoverable_file =
  fixes rd :: "file_state \<Rightarrow> 'e + 's option" and dflt :: 's and strict :: bool
  assumes rd_missing: "rd Missing = Inr None"
    and rd_present: "rd f = Inr None \<Longrightarrow> f = Missing"
begin

lemma load_primary: "rd (f_primary fs) = Inr (Some s) \<Longrightarrow> load_recoverable rd dflt fs = Inr s"
  by (simp add: load_recoverable_def)

lemma load_backup: "f_primary fs = Missing \<Longrightarrow> rd (f_backup fs) = Inr (Some s) \<Longrightarrow>
    load_recoverable rd dflt fs = Inr s"
  by (simp add: load_recoverable_def rd_missing)

lemma load_published:
  assumes st: "published_state fs b fs'" and new: "rd (Content b) = Inr (Some new)"
    and old: "load_recoverable rd dflt fs = Inr old" and sound: "rd (f_primary fs) = Inr o'"
  shows "load_recoverable rd dflt fs' = Inr old \<or> load_recoverable rd dflt fs' = Inr new"
proof (cases "f_primary fs' = Content b")
  case True
  then show ?thesis using new by (simp add: load_primary)
next
  case False
  show ?thesis
  proof (cases "f_primary fs = Missing")
    case True
    then have b: "map_sum id (\<lambda>o'. case o' of None \<Rightarrow> dflt | Some s \<Rightarrow> s) (rd (f_backup fs)) = Inr old"
      using old by (simp add: load_recoverable_def rd_missing)
    have "f_backup fs \<noteq> Missing \<Longrightarrow> rd (f_backup fs) = Inr (Some old)"
      using b rd_present by (cases "rd (f_backup fs)") (auto split: option.splits)
    with b True False st show ?thesis
      by (auto simp: published_state_def load_recoverable_def rd_missing)
  next
    case present: False
    then have "rd (f_primary fs) = Inr (Some old)"
      using old sound rd_present by (cases o') (auto simp: load_recoverable_def)
    with st False present show ?thesis
      by (auto simp: published_state_def load_recoverable_def rd_missing)
  qed
qed

lemma crash_safe:
  assumes "rd (Content b) = Inr (Some new)" "load_recoverable rd dflt fs = Inr old"
    and "rd (f_primary fs) = Inr o'" "write_run strict io fs b = (r, tr)" "fs' \<in> set tr"
  shows "load_recoverable rd dflt fs' = Inr old \<or> load_recoverable rd dflt fs' = Inr new"
  using write_run_states(1) [OF assms(4)] assms load_published by blast

lemma durable:
  assumes "rd (Content b) = Inr (Some new)" "write_recoverable strict io fs b = (Inr u, fs')"
  shows "load_recoverable rd dflt fs' = Inr new" "f_primary fs' = Content b"
proof -
  obtain tr where "write_run strict io fs b = (Inr u, tr)" "fs' = last tr"
    using assms(2) by (auto simp: write_recoverable_def split: prod.splits)
  then show "f_primary fs' = Content b" using write_run_states(3) by blast
  then show "load_recoverable rd dflt fs' = Inr new" using assms(1) by (simp add: load_primary)
qed

lemma failed_write_keeps:
  assumes "rd (Content b) = Inr (Some new)" "load_recoverable rd dflt fs = Inr old"
    and "rd (f_primary fs) = Inr o'" "write_recoverable strict io fs b = (r, fs')"
  shows "load_recoverable rd dflt fs' = Inr old \<or> load_recoverable rd dflt fs' = Inr new"
proof -
  obtain tr where tr: "write_run strict io fs b = (r, tr)" "fs' = last tr"
    using assms(4) by (auto simp: write_recoverable_def split: prod.splits)
  with write_run_states(2) [OF tr(1)] have "fs' \<in> set tr" by simp
  with crash_safe [OF assms(1-3) tr(1)] show ?thesis by blast
qed

end

end
