(* ===== verification/Storage_Local.thy ===== *)
theory Storage_Local
  imports Storage_Area Recoverable_File
begin

text \<open>
  \<^verbatim>\<open>SessionStorage\<close> and \<^verbatim>\<open>LocalStorage\<close> of \<^verbatim>\<open>src/storage.rs\<close>, the transaction of \<^verbatim>\<open>src/storage/changes.rs\<close>
  with its rollback, and the disk format of \<^verbatim>\<open>src/storage/persistence.rs\<close>. The \<^verbatim>\<open>Mutex\<close> around the state is
  held for a whole call, so each call is one step; a poisoned lock needs a panicking writer and is not
  modelled. \<^verbatim>\<open>serde_json\<close> is a parameter: a writer and a reader of the document in serde's data model.
\<close>

type_synonym origins = "(string, storage_area) omap"

record session_storage =
  ss_origins :: origins

record local_storage =
  ls_origins :: origins
  ls_files :: "files option" \<comment> \<open>\<^verbatim>\<open>path\<close>: \<open>None\<close> for the in-memory store\<close>

definition apply_to_origin :: "origins \<Rightarrow> string \<Rightarrow> storage_mutation \<Rightarrow> storage_error + bool \<times> origins" where
  "apply_to_origin os org m =
     (case om_get os org of
        Some area \<Rightarrow> and_then (area_apply area m) (\<lambda>(changed, area'). Inr (changed, om_insert org area' os))
      | None \<Rightarrow>
          if length os \<ge> MAX_STORAGE_ORIGINS then Inl QuotaExceeded
          else and_then (area_apply area_default m) (\<lambda>(changed, area').
                 Inr (changed, if changed then om_insert org area' os else os)))"

definition origin_snapshot :: "origins \<Rightarrow> string \<Rightarrow> storage_area_snapshot" where
  "origin_snapshot os org =
     (case om_get os org of Some a \<Rightarrow> area_snapshot a | None \<Rightarrow> snapshot_empty)"

section \<open>Session storage\<close>

definition session_snapshot :: "'u url_crate_scheme \<Rightarrow> session_storage \<Rightarrow> string \<Rightarrow> storage_error + storage_area_snapshot" where
  "session_snapshot U s u = and_then (storage_origin U u) (\<lambda>org. Inr (origin_snapshot (ss_origins s) org))"

definition session_apply :: "'u url_crate_scheme \<Rightarrow> session_storage \<Rightarrow> string \<Rightarrow> storage_mutation \<Rightarrow>
    storage_error + bool \<times> session_storage" where
  "session_apply U s u m =
     (if mu_area m \<noteq> Session then Inl (Invalid ''session storage mutation area'')
      else and_then (storage_origin U u) (\<lambda>org.
             and_then (apply_to_origin (ss_origins s) org m) (\<lambda>(changed, os).
               Inr (changed, s\<lparr>ss_origins := os\<rparr>))))"

section \<open>The persisted document\<close>

record 'k persisted_origin =
  po_origin :: string
  po_version :: nat
  po_entries :: "('k \<times> 'k) list"

record 'k persisted_storage =
  ps_format_version :: nat
  ps_origins :: "'k persisted_origin list"

record storage_json =
  sj_write :: "stored_string persisted_storage \<Rightarrow> string + bytes"
  sj_read :: "bytes \<Rightarrow> string + stored_string persisted_storage"

definition FORMAT_VERSION :: nat where [limit_simps]: "FORMAT_VERSION = 2"
definition MAX_PERSISTED_STORAGE_BYTES :: nat where
  [limit_simps]: "MAX_PERSISTED_STORAGE_BYTES = 64 * 1024 * 1024"

definition map_persisted :: "('k \<Rightarrow> 'l) \<Rightarrow> 'k persisted_storage \<Rightarrow> 'l persisted_storage" where
  "map_persisted f d =
     \<lparr>ps_format_version = ps_format_version d,
      ps_origins = map (\<lambda>p. \<lparr>po_origin = po_origin p, po_version = po_version p,
                            po_entries = map (map_prod f f) (po_entries p)\<rparr>) (ps_origins d)\<rparr>"

definition from_state :: "origins \<Rightarrow> storage_string persisted_storage" where
  "from_state os =
     \<lparr>ps_format_version = FORMAT_VERSION,
      ps_origins = map (\<lambda>(org, area). \<lparr>po_origin = org, po_version = ar_version area,
                                       po_entries = ar_entries area\<rparr>) os\<rparr>"

fun into_state_loop :: "'u url_crate_scheme \<Rightarrow> storage_string persisted_origin list \<Rightarrow> origins \<Rightarrow>
    storage_error + origins" where
  "into_state_loop U [] os = Inr os"
| "into_state_loop U (p # ps) os =
     and_then (storage_origin U (po_origin p @ ''/'')) (\<lambda>parsed.
       if parsed \<noteq> po_origin p \<or> po_version p = 0 then Inl (Invalid ''persisted storage origin'')
       else and_then (area_from_snapshot
              \<lparr>sn_version = po_version p,
               sn_entries = map (\<lambda>(k, v). \<lparr>se_key = k, se_value = v\<rparr>) (po_entries p)\<rparr>) (\<lambda>area.
         if om_contains os (po_origin p) then Inl (Invalid ''duplicate storage origin'')
         else into_state_loop U ps (om_insert (po_origin p) area os)))"

definition into_state :: "'u url_crate_scheme \<Rightarrow> storage_string persisted_storage \<Rightarrow> storage_error + origins" where
  "into_state U d =
     (if \<not> (ps_format_version d = 1 \<or> ps_format_version d = FORMAT_VERSION) \<or>
         length (ps_origins d) > MAX_STORAGE_ORIGINS
      then Inl (Invalid ''storage file metadata'')
      else into_state_loop U (ps_origins d) [])"

definition storage_encode :: "storage_json \<Rightarrow> origins \<Rightarrow> storage_error + bytes" where
  "storage_encode J os =
     (case sj_write J (map_persisted serialize_string (from_state os)) of
        Inl error \<Rightarrow> Inl (Persistence error)
      | Inr bytes \<Rightarrow>
          if length bytes > MAX_PERSISTED_STORAGE_BYTES then Inl QuotaExceeded else Inr bytes)"

definition storage_load_file :: "'u url_crate_scheme \<Rightarrow> storage_json \<Rightarrow> file_state \<Rightarrow> storage_error + origins option" where
  "storage_load_file U J f =
     (case f of
        Missing \<Rightarrow> Inr None
      | Unreadable error \<Rightarrow> Inl (Persistence error)
      | Content bytes \<Rightarrow>
          if length bytes > MAX_PERSISTED_STORAGE_BYTES then Inl QuotaExceeded
          else case sj_read J bytes of
            Inl error \<Rightarrow> Inl (Persistence error)
          | Inr disk \<Rightarrow> map_sum id Some (into_state U (map_persisted deserialize_string disk)))"

definition storage_load :: "'u url_crate_scheme \<Rightarrow> storage_json \<Rightarrow> files \<Rightarrow> storage_error + origins" where
  "storage_load U J fs = load_recoverable (storage_load_file U J) [] fs"

definition storage_write_file :: "io_env \<Rightarrow> files \<Rightarrow> bytes \<Rightarrow> (storage_error + unit) \<times> files" where
  "storage_write_file io fs bytes =
     (case write_recoverable False io fs bytes of (r, fs') \<Rightarrow> (map_err Persistence r, fs'))"

section \<open>Local storage\<close>

definition local_in_memory :: local_storage where
  "local_in_memory = \<lparr>ls_origins = [], ls_files = None\<rparr>"

definition local_open :: "'u url_crate_scheme \<Rightarrow> storage_json \<Rightarrow> files \<Rightarrow> storage_error + local_storage" where
  "local_open U J fs =
     and_then (storage_load U J fs) (\<lambda>os. Inr \<lparr>ls_origins = os, ls_files = Some fs\<rparr>)"

definition local_snapshot :: "'u url_crate_scheme \<Rightarrow> local_storage \<Rightarrow> string \<Rightarrow> storage_error + storage_area_snapshot" where
  "local_snapshot U ls u = and_then (storage_origin U u) (\<lambda>org. Inr (origin_snapshot (ls_origins ls) org))"

definition local_usage :: "'u url_crate_scheme \<Rightarrow> local_storage \<Rightarrow> string \<Rightarrow> storage_error + nat" where
  "local_usage U ls u =
     and_then (storage_origin U u) (\<lambda>org.
       Inr (case om_get (ls_origins ls) org of
              None \<Rightarrow> 0
            | Some area \<Rightarrow> sum_list (map (\<lambda>(k, v). byte_len k + byte_len v) (ar_entries area))))"

text \<open>The mutation loop inside the lock; \<open>want\<close> says whether the caller asked for change records.\<close>

fun transact_loop :: "string \<Rightarrow> bool \<Rightarrow> storage_mutation list \<Rightarrow> origins \<Rightarrow> bool \<Rightarrow> storage_change list \<Rightarrow>
    (storage_error + bool) \<times> origins \<times> storage_change list" where
  "transact_loop org want [] os changed records = (Inr changed, os, records)"
| "transact_loop org want (m # ms) os changed records =
     (let record = change_before (om_get os org) (mu_operation m)
      in case apply_to_origin os org m of
           Inl e \<Rightarrow> (Inl e, os, records)
         | Inr (c, os') \<Rightarrow>
             if c then
               transact_loop org want ms os' True
                 (if want
                  then records @ [record\<lparr>ch_version :=
                         (case om_get os' org of Some a \<Rightarrow> ar_version a | None \<Rightarrow> 0)\<rparr>]
                  else records)
             else transact_loop org want ms os' changed records)"

text \<open>Writing the changed state out, still inside the lock.\<close>

definition persist_change :: "storage_json \<Rightarrow> io_env \<Rightarrow> bool \<Rightarrow> origins \<Rightarrow> files option \<Rightarrow>
    (storage_error + bool) \<times> files option" where
  "persist_change J io changed os path =
     (if \<not> changed then (Inr changed, path)
      else case path of
        None \<Rightarrow> (Inr changed, path)
      | Some fs \<Rightarrow>
          (case storage_encode J os of
             Inl e \<Rightarrow> (Inl e, path)
           | Inr bytes \<Rightarrow>
               (case storage_write_file io fs bytes of
                  (Inl e, fs') \<Rightarrow> (Inl e, Some fs')
                | (Inr _, fs') \<Rightarrow> (Inr changed, Some fs'))))"

definition transact :: "'u url_crate_scheme \<Rightarrow> storage_json \<Rightarrow> io_env \<Rightarrow> local_storage \<Rightarrow> string \<Rightarrow>
    storage_mutation list \<Rightarrow> bool \<Rightarrow> (storage_error + bool) \<times> storage_change list \<times> local_storage" where
  "transact U J io ls u ms want =
     (if \<exists>m\<in>set ms. mu_area m \<noteq> Local then (Inl (Invalid ''local storage mutation area''), [], ls)
      else case storage_origin U u of
        Inl e \<Rightarrow> (Inl e, [], ls)
      | Inr org \<Rightarrow>
          let previous = om_get (ls_origins ls) org
          in case transact_loop org want ms (ls_origins ls) False [] of (r, os, records) \<Rightarrow>
             (case (case r of Inl e \<Rightarrow> (Inl e, ls_files ls)
                            | Inr changed \<Rightarrow> persist_change J io changed os (ls_files ls)) of
                (Inr changed, path) \<Rightarrow> (Inr changed, records, ls\<lparr>ls_origins := os, ls_files := path\<rparr>)
              | (Inl error, path) \<Rightarrow>
                  let restored = (case previous of
                                    Some area \<Rightarrow> om_insert org area os
                                  | None \<Rightarrow> om_remove org os)
                  in (Inl (case error of Stale _ \<Rightarrow> Stale (origin_snapshot restored org) | _ \<Rightarrow> error),
                      [], ls\<lparr>ls_origins := restored, ls_files := path\<rparr>)))"

definition apply_batch :: "'u url_crate_scheme \<Rightarrow> storage_json \<Rightarrow> io_env \<Rightarrow> local_storage \<Rightarrow> string \<Rightarrow>
    storage_mutation list \<Rightarrow> (storage_error + bool) \<times> local_storage" where
  "apply_batch U J io ls u ms = (case transact U J io ls u ms False of (r, _, ls') \<Rightarrow> (r, ls'))"

definition local_apply :: "'u url_crate_scheme \<Rightarrow> storage_json \<Rightarrow> io_env \<Rightarrow> local_storage \<Rightarrow> string \<Rightarrow>
    storage_mutation \<Rightarrow> (storage_error + bool) \<times> local_storage" where
  "local_apply U J io ls u m = apply_batch U J io ls u [m]"

definition apply_batch_with_changes :: "'u url_crate_scheme \<Rightarrow> storage_json \<Rightarrow> io_env \<Rightarrow> local_storage \<Rightarrow>
    string \<Rightarrow> storage_mutation list \<Rightarrow> (storage_error + storage_change list) \<times> local_storage" where
  "apply_batch_with_changes U J io ls u ms =
     (case transact U J io ls u ms True of (r, records, ls') \<Rightarrow> (and_then r (\<lambda>_. Inr records), ls'))"

section \<open>One origin inside the map of origins\<close>

definition area_of :: "origins \<Rightarrow> string \<Rightarrow> storage_area" where
  "area_of os org = (case om_get os org of Some a \<Rightarrow> a | None \<Rightarrow> area_default)"

definition origins_inv :: "origins \<Rightarrow> bool" where
  "origins_inv os \<longleftrightarrow> om_wf os \<and> length os \<le> MAX_STORAGE_ORIGINS \<and> (\<forall>(org, a)\<in>set os. area_inv a)"

lemma origins_inv_area: "origins_inv os \<Longrightarrow> area_inv (area_of os org)"
  by (auto simp: origins_inv_def area_of_def om_get_mem split: option.splits)

lemma area_inv_wf: "area_inv a \<Longrightarrow> om_wf (ar_entries a)"
  by (simp add: area_inv_def)

lemma apply_to_origin_Inr:
  assumes "apply_to_origin os org m = Inr (changed, os')" "om_wf os" "om_wf (ar_entries (area_of os org))"
  shows "area_apply (area_of os org) m = Inr (changed, area_of os' org)"
    and "om_wf os'" "p \<noteq> org \<Longrightarrow> om_get os' p = om_get os p"
    and "changed \<Longrightarrow> om_get os' org = Some (area_of os' org)"
proof -
  have "area_apply (area_of os org) m = Inr (changed, area_of os' org) \<and> om_wf os' \<and>
      (\<forall>p. p \<noteq> org \<longrightarrow> om_get os' p = om_get os p) \<and> (changed \<longrightarrow> om_get os' org = Some (area_of os' org))"
  proof (cases "om_get os org")
    case None
    with assms obtain a' where "area_apply area_default m = Inr (changed, a')"
      "os' = (if changed then om_insert org a' os else os)"
      by (auto simp: apply_to_origin_def result_simps split: if_splits)
    with None assms(2) area_apply_unchanged [of area_default m a'] show ?thesis
      by (cases changed) (auto simp: area_of_def area_default_def)
  next
    case (Some a)
    with assms show ?thesis
      by (auto simp: apply_to_origin_def area_of_def result_simps)
  qed
  then show "area_apply (area_of os org) m = Inr (changed, area_of os' org)"
    and "om_wf os'" "p \<noteq> org \<Longrightarrow> om_get os' p = om_get os p"
    and "changed \<Longrightarrow> om_get os' org = Some (area_of os' org)" by blast+
qed

lemma apply_to_origin_inv:
  assumes "apply_to_origin os org m = Inr (changed, os')" "origins_inv os"
  shows "origins_inv os'"
proof -
  have wf: "om_wf os" using assms(2) by (simp add: origins_inv_def)
  note ar = origins_inv_area [OF assms(2), of org]
  note sp = apply_to_origin_Inr [OF assms(1) wf area_inv_wf [OF ar]]
  have "area_inv (area_of os' org)" using area_apply_area_inv [OF sp(1) ar] .
  then have "\<forall>p a. om_get os' p = Some a \<longrightarrow> area_inv a"
    using sp(3) assms(2) by (metis area_of_def case_prodD om_get_mem option.simps(5) origins_inv_def)
  moreover have "length os' \<le> MAX_STORAGE_ORIGINS"
    using assms wf by (auto simp: apply_to_origin_def result_simps length_om_insert origins_inv_def
        split: option.splits if_splits)
  ultimately show ?thesis
    using sp(2) by (auto simp: origins_inv_def om_get_mem)
qed

lemma transact_loop_frame:
  assumes "transact_loop org want ms os c rs = (r, os', rs')" "origins_inv os"
  shows "origins_inv os' \<and> (\<forall>p. p \<noteq> org \<longrightarrow> om_get os' p = om_get os p)"
  using assms
proof (induction ms arbitrary: os c rs)
  case (Cons m ms)
  show ?case
  proof (cases "apply_to_origin os org m")
    case (Inl e)
    with Cons.prems show ?thesis by (simp add: Let_def)
  next
    case (Inr x)
    obtain ch os1 where x: "x = (ch, os1)" by (cases x)
    have inv1: "origins_inv os1"
      using apply_to_origin_inv Inr x Cons.prems(2) by blast
    have fr: "p \<noteq> org \<Longrightarrow> om_get os1 p = om_get os p" for p
      using apply_to_origin_Inr(3) [OF Inr [unfolded x]] Cons.prems(2) origins_inv_area area_inv_wf
      by (simp add: origins_inv_def)
    obtain c1 rs1 where "transact_loop org want ms os1 c1 rs1 = (r, os', rs')"
      using Cons.prems(1) by (auto simp: Inr x Let_def split: if_splits)
    from Cons.IH [OF this inv1]
    have "origins_inv os' \<and> (\<forall>p. p \<noteq> org \<longrightarrow> om_get os' p = om_get os1 p)" .
    with fr show ?thesis by simp
  qed
qed simp

lemma transact_loop_run:
  assumes "transact_loop org want ms os c rs = (Inr c', os', rs')" "origins_inv os"
  shows "\<exists>cs. area_run ms (area_of os org) = Inr (cs, area_of os' org) \<and>
      c' = (c \<or> cs \<noteq> []) \<and> rs' = rs @ (if want then cs else [])"
  using assms
proof (induction ms arbitrary: os c rs)
  case (Cons m ms)
  then obtain ch os1 where ap: "apply_to_origin os org m = Inr (ch, os1)"
    by (cases "apply_to_origin os org m") (auto simp: Let_def)
  have wf: "om_wf os" "om_wf (ar_entries (area_of os org))"
    using Cons.prems(2) origins_inv_area area_inv_wf by (auto simp: origins_inv_def)
  note sp = apply_to_origin_Inr [OF ap wf]
  have inv1: "origins_inv os1" using apply_to_origin_inv [OF ap Cons.prems(2)] .
  have rec: "(change_before (om_get os org) (mu_operation m)) = change_before (Some (area_of os org)) (mu_operation m)"
    by (simp add: area_of_def change_before_default split: option.splits)
  show ?case
  proof (cases ch)
    case True
    let ?rec = "(change_before (Some (area_of os org)) (mu_operation m))\<lparr>ch_version := ar_version (area_of os1 org)\<rparr>"
    have "transact_loop org want ms os1 True (if want then rs @ [?rec] else rs) = (Inr c', os', rs')"
      using Cons.prems(1) ap True sp(4) rec by (auto simp: Let_def split: if_splits)
    from Cons.IH [OF this inv1] show ?thesis
      using sp(1) True by (auto simp: result_simps)
  next
    case False
    then have "transact_loop org want ms os1 c rs = (Inr c', os', rs')"
      using Cons.prems(1) ap by (simp add: Let_def)
    from Cons.IH [OF this inv1] show ?thesis
      using sp(1) False by (auto simp: result_simps)
  qed
qed simp

lemma restore_previous:
  assumes "om_wf os" "om_wf os'" "\<forall>p. p \<noteq> org \<longrightarrow> om_get os' p = om_get os p"
  shows "(case om_get os org of Some area \<Rightarrow> om_insert org area os' | None \<Rightarrow> om_remove org os') = os"
  using assms by (auto intro!: om_ext split: option.splits)

lemmas transact_unfold = transact_def Let_def

lemma transact_Inl:
  assumes "transact U J io ls u ms want = (Inl e, rs, ls')" "origins_inv (ls_origins ls)"
  shows "ls_origins ls' = ls_origins ls \<and> rs = []"
proof (cases "\<exists>m\<in>set ms. mu_area m \<noteq> Local")
  case True
  with assms(1) show ?thesis by (simp add: transact_def)
next
  case loc: False
  show ?thesis
  proof (cases "storage_origin U u")
    case (Inl e')
    with assms(1) loc show ?thesis by (simp add: transact_def)
  next
    case (Inr org)
    obtain r os records where lp: "transact_loop org want ms (ls_origins ls) False [] = (r, os, records)"
      by (metis prod_cases3)
    have fr: "origins_inv os" "\<forall>p. p \<noteq> org \<longrightarrow> om_get os p = om_get (ls_origins ls) p"
      using transact_loop_frame [OF lp assms(2)] by auto
    have "(case om_get (ls_origins ls) org of Some area \<Rightarrow> om_insert org area os | None \<Rightarrow> om_remove org os)
        = ls_origins ls"
      using fr assms(2) by (intro restore_previous) (auto simp: origins_inv_def)
    with assms(1) loc Inr lp show ?thesis
      by (auto simp: transact_def Let_def split: sum.splits prod.splits)
  qed
qed

lemma transact_Inr:
  assumes "transact U J io ls u ms want = (Inr c, rs, ls')" "origins_inv (ls_origins ls)"
  obtains org cs where "storage_origin U u = Inr org" "\<forall>m\<in>set ms. mu_area m = Local"
    and "area_run ms (area_of (ls_origins ls) org) = Inr (cs, area_of (ls_origins ls') org)"
    and "c = (cs \<noteq> [])" "rs = (if want then cs else [])"
    and "origins_inv (ls_origins ls')"
    and "\<forall>p. p \<noteq> org \<longrightarrow> om_get (ls_origins ls') p = om_get (ls_origins ls) p"
    and "persist_change J io c (ls_origins ls') (ls_files ls) = (Inr c, ls_files ls')"
proof -
  from assms(1) have loc: "\<forall>m\<in>set ms. mu_area m = Local"
    by (auto simp: transact_def split: if_splits)
  with assms(1) obtain org where org: "storage_origin U u = Inr org"
    by (cases "storage_origin U u") (auto simp: transact_def)
  obtain r os records where lp: "transact_loop org want ms (ls_origins ls) False [] = (r, os, records)"
    by (metis prod_cases3)
  from assms(1) loc org lp obtain c0 where r: "r = Inr c0"
    by (cases r) (auto simp: transact_def Let_def split: prod.splits)
  have pc: "persist_change J io c0 os (ls_files ls) = (Inr c, ls_files ls')" "rs = records" "ls_origins ls' = os"
    using assms(1) loc org lp r by (auto simp: transact_def Let_def split: sum.splits prod.splits)
  then have "c0 = c"
    by (auto simp: persist_change_def split: if_splits option.splits sum.splits prod.splits)
  with transact_loop_run [OF lp [unfolded r] assms(2)] transact_loop_frame [OF lp assms(2)] pc org loc
  show ?thesis by (auto intro: that)
qed

text \<open>A batch that reports no change made none.\<close>

lemma apply_to_origin_unchanged:
  assumes "apply_to_origin os org m = Inr (False, os')" "origins_inv os"
  shows "os' = os"
proof -
  have wf: "om_wf os" "om_wf (ar_entries (area_of os org))"
    using assms(2) origins_inv_area area_inv_wf by (auto simp: origins_inv_def)
  note sp = apply_to_origin_Inr [OF assms(1) wf]
  have a: "area_of os' org = area_of os org" using area_apply_unchanged [OF sp(1) wf(2)] .
  have "om_get os' org = om_get os org"
  proof (cases "om_get os org")
    case None
    with assms(1) show ?thesis by (auto simp: apply_to_origin_def result_simps split: if_splits)
  next
    case (Some x)
    with assms(1) a show ?thesis by (auto simp: apply_to_origin_def area_of_def result_simps wf split: if_splits option.splits)
  qed
  then have "om_get os' p = om_get os p" for p using sp(3) [of p] by (cases "p = org") auto
  then show ?thesis using sp(2) wf(1) by (auto intro: om_ext)
qed

lemma transact_loop_unchanged:
  assumes "transact_loop org want ms os c rs = (Inr False, os', rs')" "origins_inv os"
  shows "os' = os \<and> \<not> c"
  using assms
proof (induction ms arbitrary: os c rs)
  case (Cons m ms)
  then obtain ch os1 where ap: "apply_to_origin os org m = Inr (ch, os1)"
    by (cases "apply_to_origin os org m") (auto simp: Let_def)
  note IH = Cons.IH [OF _ apply_to_origin_inv [OF ap Cons.prems(2)]]
  show ?case
  proof (cases ch)
    case True
    then have "\<exists>rs2. transact_loop org want ms os1 True rs2 = (Inr False, os', rs')"
      using Cons.prems(1) ap by (auto simp: Let_def)
    then show ?thesis using IH by blast
  next
    case False
    then have "transact_loop org want ms os1 c rs = (Inr False, os', rs')" using Cons.prems(1) ap by (simp add: Let_def)
    from IH [OF this] show ?thesis using apply_to_origin_unchanged [of os org m os1] ap False Cons.prems(2) by simp
  qed
qed simp

lemma transact_unchanged:
  assumes "transact U J io ls u ms want = (Inr False, rs, ls')" "origins_inv (ls_origins ls)"
  shows "ls' = ls"
proof -
  obtain org where org: "storage_origin U u = Inr org"
    using assms(1) by (cases "storage_origin U u") (auto simp: transact_def split: if_splits)
  obtain r os records where lp: "transact_loop org want ms (ls_origins ls) False [] = (r, os, records)"
    by (metis prod_cases3)
  then have "r = Inr False \<and> ls_origins ls' = os \<and> ls_files ls' = ls_files ls"
    using assms(1) org
    by (auto simp: transact_def Let_def persist_change_def split: if_splits sum.splits prod.splits option.splits)
  then show ?thesis using transact_loop_unchanged [of org want ms "ls_origins ls" False "[]" os records] lp assms(2) by simp
qed

section \<open>Reading back what was written\<close>

lemma deserialize_serialize: "deserialize_string (serialize_string s) = s"
  by (auto simp: deserialize_string_def serialize_string_def encode_decode split: option.splits)

lemma map_persisted_inverse:
  assumes "\<And>x. g (f x) = x" shows "map_persisted g (map_persisted f d) = d"
proof -
  have "map_prod g g (map_prod f f e) = e" for e
    using assms by (cases e) simp
  then show ?thesis
    by (cases d) (auto simp: map_persisted_def comp_def intro!: map_idI persisted_origin.equality)
qed

text \<open>Documented behaviour of the parameters: \<^verbatim>\<open>serde_json\<close> reads back what it wrote, and the serialised
  origin of a stored area parses to itself.\<close>

definition json_reads_back :: "storage_json \<Rightarrow> bool" where
  "json_reads_back J \<longleftrightarrow> (\<forall>d b. sj_write J d = Inr b \<longrightarrow> sj_read J b = Inr d)"

definition origins_stable :: "'u url_crate_scheme \<Rightarrow> origins \<Rightarrow> bool" where
  "origins_stable U os \<longleftrightarrow> (\<forall>(org, a)\<in>set os. storage_origin U (org @ ''/'') = Inr org)"

lemma into_state_loop_pairs:
  assumes "\<forall>(org, a)\<in>set xs. area_inv a" "origins_stable U xs" "distinct (map fst xs)"
    and "\<forall>e\<in>set xs. om_get os (fst e) = None"
  shows "into_state_loop U (map (\<lambda>(org, area). \<lparr>po_origin = org, po_version = ar_version area,
             po_entries = ar_entries area\<rparr>) xs) os = Inr (fold (\<lambda>e m. om_insert (fst e) (snd e) m) xs os)"
  using assms
proof (induction xs arbitrary: os)
  case (Cons x xs)
  obtain org a where x: "x = (org, a)" by (cases x)
  have a: "area_inv a" "storage_origin U (org @ ''/'') = Inr org"
    using Cons.prems by (auto simp: x origins_stable_def)
  have snap: "\<lparr>sn_version = ar_version a,
      sn_entries = map (\<lambda>(k, v). \<lparr>se_key = k, se_value = v\<rparr>) (ar_entries a)\<rparr> = area_snapshot a"
    by (simp add: area_snapshot_def)
  have nz: "ar_version a \<noteq> 0" using a(1) by (simp add: area_inv_def)
  have absent: "\<not> om_contains os org"
    using Cons.prems(4) by (simp add: x om_contains_def)
  have "\<forall>e\<in>set xs. om_get (om_insert org a os) (fst e) = None"
    using Cons.prems(3,4) by (auto simp: x rev_image_eqI)
  then show ?case
    using Cons by (simp add: x a(2) nz absent snap area_from_snapshot_area_snapshot [OF a(1)] origins_stable_def)
qed simp

lemma into_state_from_state:
  assumes "origins_inv os" "origins_stable U os"
  shows "into_state U (from_state os) = Inr os"
proof -
  have wf: "om_wf os" and len: "length os \<le> MAX_STORAGE_ORIGINS"
    using assms(1) by (simp_all add: origins_inv_def)
  have "into_state_loop U (ps_origins (from_state os)) [] = Inr (om_collect os)"
    unfolding om_collect_def from_state_def
    using into_state_loop_pairs [OF _ assms(2) om_wf_distinct [OF wf]] assms(1)
    by (simp add: origins_inv_def)
  then show ?thesis
    using len by (simp add: into_state_def from_state_def om_collect_sorted [OF wf])
qed

lemma storage_load_file_encode:
  assumes "storage_encode J os = Inr b" "json_reads_back J" "origins_inv os" "origins_stable U os"
  shows "storage_load_file U J (Content b) = Inr (Some os)"
proof -
  have w: "sj_write J (map_persisted serialize_string (from_state os)) = Inr b"
    and "length b \<le> MAX_PERSISTED_STORAGE_BYTES"
    using assms(1) by (auto simp: storage_encode_def split: sum.splits if_splits)
  moreover have "sj_read J b = Inr (map_persisted serialize_string (from_state os))"
    using w assms(2) by (simp add: json_reads_back_def)
  ultimately show ?thesis
    by (simp add: storage_load_file_def map_persisted_inverse [of deserialize_string serialize_string, OF deserialize_serialize]
        into_state_from_state [OF assms(3,4)])
qed

interpretation storage_file: recoverable_file "storage_load_file U J" "[] :: origins" False for U J
  by unfold_locales (auto simp: storage_load_file_def split: file_state.splits sum.splits if_splits)

section \<open>Properties\<close>

text \<open>C12: a batch of local storage mutations is atomic. When any mutation is refused, or the new state cannot be
  encoded or written, the in-memory map of all origins is exactly what it was before the call.\<close>

theorem failed_batch_changes_nothing:
  assumes "origins_inv (ls_origins ls)" "apply_batch U J io ls u ms = (Inl e, ls')"
  shows "ls_origins ls' = ls_origins ls"
proof -
  obtain rs where "transact U J io ls u ms False = (Inl e, rs, ls')"
    using assms(2) by (auto simp: apply_batch_def split: prod.splits)
  from transact_Inl [OF this assms(1)] show ?thesis by simp
qed

definition sample_json :: storage_json where
  "sample_json =
     \<lparr>sj_write = (\<lambda>d. case ps_origins d of
                      [p] \<Rightarrow> if d = \<lparr>ps_format_version = 2, ps_origins = [\<lparr>po_origin = ''https://a.example'',
                                      po_version = 2, po_entries = [(Text [98], Text [50, 50])]\<rparr>]\<rparr>
                            then Inr [1] else Inl ''unsupported''
                    | _ \<Rightarrow> Inl ''unsupported''),
      sj_read = (\<lambda>b. if b = [1] then Inr \<lparr>ps_format_version = 2, ps_origins = [\<lparr>po_origin = ''https://a.example'',
                                      po_version = 2, po_entries = [(Text [98], Text [50, 50])]\<rparr>]\<rparr>
                     else Inl ''expected value'')\<rparr>"

definition sample_files :: files where
  "sample_files = \<lparr>f_primary = Missing, f_backup = Missing, f_temporary = Missing\<rparr>"

definition sample_first :: storage_mutation where
  "sample_first = \<lparr>mu_area = Local, mu_expected_version = 1, mu_operation = Set [98] [50, 50]\<rparr>"

definition sample_origins :: origins where
  "sample_origins = [(''https://a.example'', \<lparr>ar_version = 2, ar_entries = [([98], [50, 50])]\<rparr>)]"

lemma sample_origin [simp]:
  "storage_origin sample_crate ''https://a.example/'' = Inr ''https://a.example''"
  by (simp add: storage_origin_def origin_parse_def origin_serialize_def parsed_origin_def)

lemma sample_local_inv: "origins_inv []"
  by (simp add: origins_inv_def)

lemma sample_first_applies: "area_apply area_default sample_first = Inr (True, \<lparr>ar_version = 2, ar_entries = [([98], [50, 50])]\<rparr>)"
  by (simp add: area_eval sample_first_def area_default_def)

lemma sample_encode: "storage_encode sample_json sample_origins = Inr [1]"
  by (simp add: storage_encode_def sample_json_def sample_origins_def from_state_def map_persisted_def
      serialize_string_def is_high_def is_low_def limit_simps)

lemma sample_write: "storage_write_file io_ok sample_files [1] =
    (Inr (), \<lparr>f_primary = Content [1], f_backup = Missing, f_temporary = Missing\<rparr>)"
  by (simp add: storage_write_file_def write_recoverable_def write_run_def io_ok_def sample_files_def publish_def Let_def
      map_err_def)

lemma sample_first_inserts: "apply_to_origin [] ''https://a.example'' sample_first = Inr (True, sample_origins)"
  by (simp add: apply_to_origin_def sample_first_applies limit_simps sample_origins_def)

lemma sample_transact:
  "transact sample_crate sample_json io_ok \<lparr>ls_origins = [], ls_files = Some sample_files\<rparr> ''https://a.example/'' [sample_first] want
     = (Inr True, if want then [(change_before None (Set [98] [50, 50]))\<lparr>ch_version := 2\<rparr>] else [],
        \<lparr>ls_origins = sample_origins,
         ls_files = Some \<lparr>f_primary = Content [1], f_backup = Missing, f_temporary = Missing\<rparr>\<rparr>)"
  using sample_first_inserts sample_encode sample_write
  by (simp add: transact_def persist_change_def Let_def) (simp add: sample_first_def sample_origins_def)

lemma sample_failing_batch:
  "apply_batch sample_crate sample_json io_ok \<lparr>ls_origins = [], ls_files = Some sample_files\<rparr> ''https://a.example/''
     [sample_first, sample_first] =
   (Inl (Stale snapshot_empty), \<lparr>ls_origins = [], ls_files = Some sample_files\<rparr>)"
proof -
  have "apply_to_origin sample_origins ''https://a.example'' sample_first =
      Inl (Stale (area_snapshot \<lparr>ar_version = 2, ar_entries = [([98], [50, 50])]\<rparr>))"
    by (simp add: apply_to_origin_def sample_origins_def sample_first_def area_eval)
  moreover have "mu_area sample_first = Local" by (simp add: sample_first_def)
  ultimately show ?thesis
    using sample_first_inserts
    by (simp add: apply_batch_def transact_def Let_def origin_snapshot_def sample_origins_def om_remove_def)
qed

theorem failed_batch_changes_nothing_witness:
  "ls_origins (snd (apply_batch sample_crate sample_json io_ok \<lparr>ls_origins = [], ls_files = Some sample_files\<rparr>
     ''https://a.example/'' [sample_first, sample_first])) = []"
  using failed_batch_changes_nothing [OF _ sample_failing_batch] sample_local_inv sample_failing_batch by simp

text \<open>The change records an accepted batch reports lead, one version at a time and with the right old values,
  from the area before to the area after; other origins are untouched and the store stays within its limits.\<close>

theorem reported_changes_form_a_chain:
  assumes "origins_inv (ls_origins ls)" "apply_batch_with_changes U J io ls u ms = (Inr cs, ls')"
  shows "\<exists>org. storage_origin U u = Inr org \<and>
     follow (area_of (ls_origins ls) org) cs = Some (area_of (ls_origins ls') org) \<and>
     ar_version (area_of (ls_origins ls') org) = ar_version (area_of (ls_origins ls) org) + length cs \<and>
     (\<forall>p. p \<noteq> org \<longrightarrow> om_get (ls_origins ls') p = om_get (ls_origins ls) p) \<and> origins_inv (ls_origins ls')"
proof -
  obtain c where "transact U J io ls u ms True = (Inr c, cs, ls')"
    using assms(2) by (cases "transact U J io ls u ms True")
      (auto simp: apply_batch_with_changes_def result_simps split: prod.splits)
  from this assms(1) show ?thesis
  proof (rule transact_Inr)
    fix org cs'
    assume org: "storage_origin U u = Inr org" and cs: "cs = (if True then cs' else [])"
      and run: "area_run ms (area_of (ls_origins ls) org) = Inr (cs', area_of (ls_origins ls') org)"
      and rest: "origins_inv (ls_origins ls')" "\<forall>p. p \<noteq> org \<longrightarrow> om_get (ls_origins ls') p = om_get (ls_origins ls) p"
    have "follow (area_of (ls_origins ls) org) cs = Some (area_of (ls_origins ls') org)"
      using area_run_follow [OF run area_inv_wf [OF origins_inv_area [OF assms(1)]]] cs by simp
    with follow_entries [OF this] org rest show ?thesis by auto
  qed
qed

theorem reported_changes_form_a_chain_witness:
  "\<exists>org. storage_origin sample_crate ''https://a.example/'' = Inr org \<and>
     follow (area_of [] org) [(change_before None (Set [98] [50, 50]))\<lparr>ch_version := 2\<rparr>] = Some (area_of sample_origins org)"
proof -
  have "apply_batch_with_changes sample_crate sample_json io_ok \<lparr>ls_origins = [], ls_files = Some sample_files\<rparr>
      ''https://a.example/'' [sample_first] =
    (Inr [(change_before None (Set [98] [50, 50]))\<lparr>ch_version := 2\<rparr>],
     \<lparr>ls_origins = sample_origins, ls_files = Some \<lparr>f_primary = Content [1], f_backup = Missing, f_temporary = Missing\<rparr>\<rparr>)"
    by (simp add: apply_batch_with_changes_def sample_transact)
  from reported_changes_form_a_chain [OF _ this] show ?thesis using sample_local_inv by auto
qed

text \<open>C14: a batch that reports success holds. It names an origin, whose area afterwards is what the mutations, one
  after the other, make of it, and it reports a change exactly if one of them changed something. When it reports a
  change, the change is durable: reopening the profile from the files it left gives the same store. When it reports
  none, the store in memory and the files are what they were. The reader must invert the JSON writer and the stored
  origins must parse to themselves.\<close>

theorem committed_batch_is_durable:
  assumes "origins_inv (ls_origins ls)" "ls_files ls = Some fs" "json_reads_back J"
    and "apply_batch U J io ls u ms = (Inr changed, ls')" "origins_stable U (ls_origins ls')"
  shows "(\<exists>org cs. storage_origin U u = Inr org \<and>
      area_run ms (area_of (ls_origins ls) org) = Inr (cs, area_of (ls_origins ls') org) \<and> changed = (cs \<noteq> [])) \<and>
    (if changed then \<exists>fs'. ls_files ls' = Some fs' \<and> local_open U J fs' = Inr ls' else ls' = ls)"
proof -
  obtain rs where run: "transact U J io ls u ms False = (Inr changed, rs, ls')"
    using assms(4) by (auto simp: apply_batch_def split: prod.splits)
  from this assms(1) show ?thesis
  proof (rule transact_Inr)
    fix org cs
    assume step: "storage_origin U u = Inr org" "area_run ms (area_of (ls_origins ls) org) = Inr (cs, area_of (ls_origins ls') org)"
        "changed = (cs \<noteq> [])"
      and inv: "origins_inv (ls_origins ls')"
      and pc: "persist_change J io changed (ls_origins ls') (ls_files ls) = (Inr changed, ls_files ls')"
    have "\<exists>fs'. ls_files ls' = Some fs' \<and> local_open U J fs' = Inr ls'" if changed
    proof -
      from pc that obtain b fs' where b: "storage_encode J (ls_origins ls') = Inr b"
        and w: "write_recoverable False io fs b = (Inr (), fs')" and fs': "ls_files ls' = Some fs'"
        using assms(2)
        by (auto simp: persist_change_def storage_write_file_def map_err_def split: sum.splits prod.splits)
      have "storage_load U J fs' = Inr (ls_origins ls')"
        unfolding storage_load_def
        using storage_file.durable(1) [OF storage_load_file_encode [OF b assms(3) inv assms(5)] w] .
      then show ?thesis using fs' by (cases ls') (simp add: local_open_def)
    qed
    moreover have "ls' = ls" if "\<not> changed" using transact_unchanged [of U J io ls u ms False rs ls'] run that assms(1) by simp
    ultimately show ?thesis using step by auto
  qed
qed

lemma sample_json_reads_back: "json_reads_back sample_json"
  by (auto simp: json_reads_back_def sample_json_def split: list.splits if_splits)

lemma sample_origins_stable: "origins_stable sample_crate sample_origins"
  by (simp add: origins_stable_def sample_origins_def)

theorem committed_batch_is_durable_witness:
  "\<exists>fs'. local_open sample_crate sample_json fs' = Inr \<lparr>ls_origins = sample_origins, ls_files = Some fs'\<rparr>"
proof -
  have "apply_batch sample_crate sample_json io_ok \<lparr>ls_origins = [], ls_files = Some sample_files\<rparr>
      ''https://a.example/'' [sample_first] =
    (Inr True, \<lparr>ls_origins = sample_origins,
       ls_files = Some \<lparr>f_primary = Content [1], f_backup = Missing, f_temporary = Missing\<rparr>\<rparr>)"
    by (simp add: apply_batch_def sample_transact)
  from committed_batch_is_durable [OF _ _ sample_json_reads_back this] show ?thesis
    using sample_local_inv sample_origins_stable by auto
qed

text \<open>C13: a crash at any point of writing the profile file, or any failing system call, leaves files from which the
  store loads either as it was before or as it was being written, provided the primary file was readable.\<close>

theorem storage_write_is_crash_safe:
  assumes "storage_load U J fs = Inr old" "storage_load_file U J (f_primary fs) = Inr primary"
    and "storage_encode J new = Inr b" "json_reads_back J" "origins_inv new" "origins_stable U new"
    and "write_run False io fs b = (r, states)" "fs' \<in> set states"
  shows "storage_load U J fs' = Inr old \<or> storage_load U J fs' = Inr new"
  using storage_file.crash_safe [OF storage_load_file_encode [OF assms(3-6)] assms(1) [unfolded storage_load_def]
      assms(2,7,8)]
  by (simp add: storage_load_def)

lemma sample_origins_inv: "origins_inv sample_origins"
  using transact_Inr [OF sample_transact [of False]] sample_local_inv by auto

theorem storage_write_is_crash_safe_witness:
  "storage_load sample_crate sample_json \<lparr>f_primary = Missing, f_backup = Missing, f_temporary = Content [1]\<rparr> = Inr [] \<or>
   storage_load sample_crate sample_json \<lparr>f_primary = Missing, f_backup = Missing, f_temporary = Content [1]\<rparr> = Inr sample_origins"
  by (rule storage_write_is_crash_safe [OF _ _ sample_encode sample_json_reads_back sample_origins_inv
        sample_origins_stable, where io = io_ok and fs = sample_files and primary = None])
    (auto simp: storage_load_def load_recoverable_def storage_load_file_def sample_files_def write_run_def io_ok_def
      publish_def Let_def)

text \<open>When the primary file is damaged and the store was recovered from the backup, the next write first replaces
  that backup by the damaged file: a crash before the new file is published leaves nothing that loads.\<close>

theorem write_over_damaged_primary_loses_backup:
  assumes "storage_load_file U J (f_primary fs) = Inl e" "storage_load_file U J (f_backup fs) = Inr (Some old)"
  shows "storage_load U J fs = Inr old \<and>
    (\<exists>fs'\<in>set (snd (write_run False io_ok fs b)). storage_load U J fs' = Inl e)"
proof -
  let ?fs' = "fs\<lparr>f_temporary := Content b, f_backup := f_primary fs, f_primary := Missing\<rparr>"
  have "f_primary fs \<noteq> Missing"
    using assms(1) by (auto simp: storage_load_file_def)
  then have "?fs' \<in> set (snd (write_run False io_ok fs b))"
    by (simp add: write_run_def io_ok_def set_aside_def publish_def Let_def)
  moreover have "storage_load U J ?fs' = Inl e"
    using assms(1) by (simp add: storage_load_def load_recoverable_def storage_file.rd_missing)
  moreover have "storage_load U J fs = Inr old"
    using assms by (simp add: storage_load_def load_recoverable_def ok_or_def)
  ultimately show ?thesis by blast
qed

theorem write_over_damaged_primary_loses_backup_witness:
  "\<exists>fs'\<in>set (snd (write_run False io_ok \<lparr>f_primary = Content [0], f_backup = Content [1], f_temporary = Missing\<rparr> [1])).
     storage_load sample_crate sample_json fs' = Inl (Persistence ''expected value'')"
proof -
  let ?fs = "\<lparr>f_primary = Content [0], f_backup = Content [1], f_temporary = Missing\<rparr>"
  have "storage_load_file sample_crate sample_json (f_primary ?fs) = Inl (Persistence ''expected value'')"
    by (simp add: storage_load_file_def sample_json_def limit_simps)
  moreover have "storage_load_file sample_crate sample_json (f_backup ?fs) = Inr (Some sample_origins)"
    using storage_load_file_encode [OF sample_encode sample_json_reads_back sample_origins_inv sample_origins_stable] by simp
  ultimately show ?thesis using write_over_damaged_primary_loses_backup by blast
qed

end
