(* ===== verification/Storage_Projection.thy ===== *)
theory Storage_Projection
  imports Storage_Area
begin

text \<open>
  \<^verbatim>\<open>src/storage/projection.rs\<close>: the renderer's copy of one storage area. \<open>pj_base\<close> is the last authoritative
  state received, \<open>pj_pending\<close> the local writes not yet acknowledged, \<open>pj_visible\<close> what scripts see.
\<close>

record storage_projection =
  pj_base :: storage_area
  pj_visible :: storage_area
  pj_pending :: "storage_write list"
  pj_last_sequence :: nat
  pj_acknowledged :: nat
  pj_pending_bytes :: nat

definition projection_of :: "storage_area \<Rightarrow> storage_projection" where
  "projection_of base = \<lparr>pj_base = base, pj_visible = base, pj_pending = [], pj_last_sequence = 0,
     pj_acknowledged = 0, pj_pending_bytes = 0\<rparr>"

definition projection_from_snapshot :: "storage_area_snapshot \<Rightarrow> storage_error + storage_projection" where
  "projection_from_snapshot s = and_then (area_from_snapshot s) (\<lambda>base. Inr (projection_of base))"

definition write_cost :: "storage_write \<Rightarrow> nat" where
  "write_cost w = mutation_byte_len (wr_mutation w) + length (wr_source_url w)"

definition projection_write :: "storage_projection \<Rightarrow> storage_area_kind \<Rightarrow> string \<Rightarrow> storage_operation \<Rightarrow>
    storage_error + storage_write option \<times> storage_projection" where
  "projection_write p area source_url operation =
     (if \<not> operation_changes (pj_visible p) operation then Inr (None, p)
      else
        let mutation = \<lparr>mu_area = area, mu_expected_version = ar_version (pj_visible p),
                        mu_operation = operation\<rparr>
        in if (case operation of Set _ _ \<Rightarrow> True | _ \<Rightarrow> False) \<and>
              (saturating_add (pj_pending_bytes p) (mutation_byte_len mutation + length source_url)
                 > MAX_PENDING_STORAGE_BYTES \<or>
               length (pj_pending p) \<ge> MAX_QUEUED_BROWSER_WRITES)
           then Inl QuotaExceeded
           else and_then (ok_or (checked_add (pj_last_sequence p) 1)
                  (Invalid ''storage write sequence exhausted'')) (\<lambda>sequence.
             let write = \<lparr>wr_sequence = sequence, wr_source_url = source_url, wr_mutation = mutation\<rparr>
             in and_then (write_validate write) (\<lambda>_.
                  and_then (area_apply (pj_visible p) mutation) (\<lambda>(_, visible).
                    Inr (Some write,
                         p\<lparr>pj_visible := visible, pj_last_sequence := sequence,
                           pj_pending_bytes := pj_pending_bytes p + write_cost write,
                           pj_pending := pj_pending p @ [write]\<rparr>)))))"

text \<open>The authoritative half of an update: the new base, or the reason to refuse it.\<close>

definition projection_base :: "storage_projection \<Rightarrow> storage_update \<Rightarrow> storage_error + storage_area" where
  "projection_base p u =
     (case up_change u of
        Some change \<Rightarrow>
          and_then (ok_or (checked_add (ar_version (pj_base p)) 1) (Invalid ''storage version exhausted'')) (\<lambda>nxt.
            if ch_version change \<noteq> nxt then Inl (Invalid ''storage update order'')
            else if (case ch_key change of
                       Some k \<Rightarrow> area_get (pj_base p) k \<noteq> ch_old_value change
                     | None \<Rightarrow> False)
            then Inl (Invalid ''storage change old value'')
            else and_then (area_apply (pj_base p)
                   \<lparr>mu_area = up_area u, mu_expected_version = ar_version (pj_base p),
                    mu_operation = change_operation change\<rparr>) (\<lambda>(changed, base).
              if \<not> changed then Inl (Invalid ''redundant storage change'') else Inr base))
      | None \<Rightarrow>
          if up_version u \<noteq> ar_version (pj_base p) then Inl (Invalid ''storage acknowledgement version'')
          else Inr (pj_base p))"

definition preserves_projection :: "storage_projection \<Rightarrow> storage_update \<Rightarrow> bool" where
  "preserves_projection p u \<longleftrightarrow>
     up_acknowledgement u \<noteq> 0 \<and>
     (case pj_pending p of
        [] \<Rightarrow> False
      | write # _ \<Rightarrow>
          (case up_change u of
             None \<Rightarrow> \<not> operation_changes (pj_base p) (mu_operation (wr_mutation write))
           | Some change \<Rightarrow> change_operation change = mu_operation (wr_mutation write)))"

text \<open>Laying the remaining intents over the base, without quota checks.\<close>

definition replay :: "storage_write list \<Rightarrow> entry_map \<Rightarrow> entry_map" where
  "replay ws m = fold (\<lambda>w. overlay (mu_operation (wr_mutation w))) ws m"

definition projection_apply :: "storage_projection \<Rightarrow> storage_update \<Rightarrow> storage_error + storage_projection" where
  "projection_apply p u =
     and_then (update_validate u) (\<lambda>_.
       if up_acknowledgement u \<noteq> 0 \<and>
          (up_acknowledgement u \<noteq> pj_acknowledged p + 1 \<or>
           (case pj_pending p of [] \<Rightarrow> True | w # _ \<Rightarrow> wr_sequence w \<noteq> up_acknowledgement u))
       then Inl (Invalid ''storage acknowledgement order'')
       else
         let preserves = preserves_projection p u
         in and_then (projection_base p u) (\<lambda>base.
              let p1 = p\<lparr>pj_base := base\<rparr>;
                  p2 = (if up_acknowledgement u \<noteq> 0
                        then p1\<lparr>pj_pending := tl (pj_pending p1),
                                pj_pending_bytes := pj_pending_bytes p1 - write_cost (hd (pj_pending p1)),
                                pj_acknowledged := up_acknowledgement u\<rparr>
                        else p1)
              in if preserves
                 then Inr (p2\<lparr>pj_visible := (pj_visible p2)\<lparr>ar_version := ar_version base\<rparr>\<rparr>)
                 else Inr (p2\<lparr>pj_visible := \<lparr>ar_version = ar_version base,
                                            ar_entries = replay (pj_pending p2) (ar_entries base)\<rparr>\<rparr>)))"

text \<open>The reference without the shortcut: every receipt rebuilds the view from the base.\<close>

definition projection_apply_replay :: "storage_projection \<Rightarrow> storage_update \<Rightarrow> storage_error + storage_projection" where
  "projection_apply_replay p u =
     and_then (projection_apply p u) (\<lambda>p'.
       Inr (p'\<lparr>pj_visible := \<lparr>ar_version = ar_version (pj_base p'),
                             ar_entries = replay (pj_pending p') (ar_entries (pj_base p'))\<rparr>\<rparr>))"

section \<open>Invariant\<close>

definition proj_inv :: "storage_projection \<Rightarrow> bool" where
  "proj_inv p \<longleftrightarrow>
     area_inv (pj_base p) \<and>
     ar_entries (pj_visible p) = replay (pj_pending p) (ar_entries (pj_base p)) \<and>
     pj_last_sequence p = pj_acknowledged p + length (pj_pending p) \<and>
     map wr_sequence (pj_pending p) = [pj_acknowledged p + 1..<pj_last_sequence p + 1] \<and>
     pj_pending_bytes p = sum_list (map write_cost (pj_pending p))"

lemma replay_simps [simp]:
  "replay [] m = m"
  "replay (w # ws) m = replay ws (overlay (mu_operation (wr_mutation w)) m)"
  by (simp_all add: replay_def)

lemma replay_snoc: "replay (ws @ [w]) m = overlay (mu_operation (wr_mutation w)) (replay ws m)"
  by (simp add: replay_def)

lemma replay_wf [simp]: "om_wf m \<Longrightarrow> om_wf (replay ws m)"
  by (induction ws arbitrary: m) auto

lemma proj_inv_wf: "proj_inv p \<Longrightarrow> om_wf (ar_entries (pj_base p)) \<and> om_wf (ar_entries (pj_visible p))"
  by (simp add: proj_inv_def area_inv_def)

lemma projection_of_inv: "area_inv a \<Longrightarrow> proj_inv (projection_of a)"
  by (simp add: proj_inv_def projection_of_def)

lemma projection_write_inv:
  assumes "projection_write p area u operation = Inr (w, p')" "proj_inv p"
  shows "proj_inv p'"
proof (cases "operation_changes (pj_visible p) operation")
  case False
  with assms show ?thesis by (simp add: projection_write_def)
next
  case True
  let ?m = "\<lparr>mu_area = area, mu_expected_version = ar_version (pj_visible p), mu_operation = operation\<rparr>"
  let ?w = "\<lparr>wr_sequence = pj_last_sequence p + 1, wr_source_url = u, wr_mutation = ?m\<rparr>"
  obtain ch v where ap: "area_apply (pj_visible p) ?m = Inr (ch, v)"
    and p': "p' = p\<lparr>pj_visible := v, pj_last_sequence := pj_last_sequence p + 1,
         pj_pending_bytes := pj_pending_bytes p + write_cost ?w, pj_pending := pj_pending p @ [?w]\<rparr>"
    using assms(1) True by (auto simp: projection_write_def Let_def result_simps split: if_splits)
  have "ar_entries v = overlay operation (ar_entries (pj_visible p))"
    using area_apply_Inr(4) [OF ap] proj_inv_wf [OF assms(2)] by simp
  then show ?thesis
    using assms(2) by (simp add: p' proj_inv_def replay_snoc)
qed

lemma projection_base_Inr:
  assumes "projection_base p u = Inr base" "area_inv (pj_base p)"
  shows "area_inv base"
    and "up_change u = None \<Longrightarrow> base = pj_base p \<and> up_version u = ar_version base"
    and "up_change u = Some c \<Longrightarrow> change_follows (pj_base p) c \<and> base = after_change (pj_base p) c"
proof -
  have wf: "om_wf (ar_entries (pj_base p))" using assms(2) by (simp add: area_inv_def)
  show "area_inv base"
    using assms area_apply_area_inv
    by (auto simp: projection_base_def result_simps split: option.splits if_splits)
  show "up_change u = None \<Longrightarrow> base = pj_base p \<and> up_version u = ar_version base"
    using assms(1) by (auto simp: projection_base_def split: if_splits)
  assume c: "up_change u = Some c"
  let ?m = "\<lparr>mu_area = up_area u, mu_expected_version = ar_version (pj_base p), mu_operation = change_operation c\<rparr>"
  have ap: "area_apply (pj_base p) ?m = Inr (True, base)" and v: "ch_version c = ar_version (pj_base p) + 1"
    and k: "\<forall>k. ch_key c = Some k \<longrightarrow> ch_old_value c = area_get (pj_base p) k"
    using assms(1) c by (auto simp: projection_base_def result_simps split: if_splits option.splits)
  show "change_follows (pj_base p) c \<and> base = after_change (pj_base p) c"
    using area_apply_Inr [OF ap wf] v k
    by (cases base) (auto simp: change_follows_def after_change_def)
qed

text \<open>Moving the oldest intent into the base leaves the replayed view alone.\<close>

lemma preserves_replay:
  assumes "preserves_projection p u" "projection_base p u = Inr base" "area_inv (pj_base p)"
  shows "replay (tl (pj_pending p)) (ar_entries base) = replay (pj_pending p) (ar_entries (pj_base p))"
proof -
  obtain w ws where ws: "pj_pending p = w # ws"
    using assms(1) by (auto simp: preserves_projection_def split: list.splits)
  have "ar_entries base = overlay (mu_operation (wr_mutation w)) (ar_entries (pj_base p))"
  proof (cases "up_change u")
    case None
    then show ?thesis
      using assms(1) projection_base_Inr(2) [OF assms(2,3) None] overlay_unchanged [of "pj_base p"] assms(3)
      by (simp add: preserves_projection_def ws area_inv_def)
  next
    case (Some c)
    then show ?thesis
      using assms(1) projection_base_Inr(3) [OF assms(2,3) Some]
      by (simp add: preserves_projection_def ws after_change_def)
  qed
  then show ?thesis by (simp add: ws)
qed

lemma projection_apply_Inr:
  assumes "projection_apply p u = Inr p'"
  shows "projection_base p u = Inr (pj_base p')" and "update_validate u = Inr ()"
    and "up_acknowledgement u = 0 \<Longrightarrow> pj_pending p' = pj_pending p \<and> pj_acknowledged p' = pj_acknowledged p \<and>
           pj_pending_bytes p' = pj_pending_bytes p"
    and "up_acknowledgement u \<noteq> 0 \<Longrightarrow> \<exists>w. pj_pending p = w # pj_pending p' \<and>
           pj_acknowledged p' = pj_acknowledged p + 1 \<and> up_acknowledgement u = pj_acknowledged p + 1 \<and>
           wr_sequence w = up_acknowledgement u \<and>
           pj_pending_bytes p' = pj_pending_bytes p - write_cost w"
    and "pj_last_sequence p' = pj_last_sequence p"
    and "ar_version (pj_visible p') = ar_version (pj_base p')"
    and "ar_entries (pj_visible p') =
           (if preserves_projection p u then ar_entries (pj_visible p)
            else replay (pj_pending p') (ar_entries (pj_base p')))"
  using assms
  by (cases "preserves_projection p u"; auto simp: projection_apply_def result_simps Let_def
      split: if_splits list.splits)+

lemma projection_apply_inv:
  assumes "projection_apply p u = Inr p'" "proj_inv p"
  shows "proj_inv p'"
proof -
  note A = projection_apply_Inr [OF assms(1)]
  have inv: "area_inv (pj_base p)" using assms(2) by (simp add: proj_inv_def)
  have base: "area_inv (pj_base p')" using projection_base_Inr(1) [OF A(1) inv] .
  show ?thesis
  proof (cases "up_acknowledgement u = 0")
    case True
    then have "\<not> preserves_projection p u" by (simp add: preserves_projection_def)
    then show ?thesis using A(3,5,7) True base assms(2) by (simp add: proj_inv_def)
  next
    case False
    obtain w where w: "pj_pending p = w # pj_pending p'" "pj_acknowledged p' = pj_acknowledged p + 1"
        "pj_pending_bytes p' = pj_pending_bytes p - write_cost w"
      using A(4) [OF False] by auto
    have v: "ar_entries (pj_visible p') = replay (pj_pending p') (ar_entries (pj_base p'))"
      using A(7) preserves_replay [OF _ A(1) inv] assms(2) w(1)
      by (auto simp: proj_inv_def)
    have last: "pj_last_sequence p = Suc (pj_acknowledged p + length (pj_pending p'))"
      using assms(2) w(1) by (simp add: proj_inv_def)
    have "wr_sequence w # map wr_sequence (pj_pending p') = [pj_acknowledged p + 1..<pj_last_sequence p + 1]"
      using assms(2) w(1) by (simp add: proj_inv_def del: upt_Suc)
    also have "\<dots> = (pj_acknowledged p + 1) # [pj_acknowledged p + 2..<pj_last_sequence p + 1]"
      using last by (subst upt_conv_Cons) (auto simp del: upt_Suc)
    finally have "map wr_sequence (pj_pending p') = [pj_acknowledged p + 2..<pj_last_sequence p + 1]"
      by (simp del: upt_Suc)
    then show ?thesis
      using w v base A(5) assms(2) last
      by (simp add: proj_inv_def del: upt_Suc)
  qed
qed

lemma projection_apply_equiv:
  assumes "proj_inv p" shows "projection_apply p u = projection_apply_replay p u"
proof (cases "projection_apply p u")
  case (Inl e)
  then show ?thesis by (simp add: projection_apply_replay_def)
next
  case (Inr p')
  have "ar_entries (pj_visible p') = replay (pj_pending p') (ar_entries (pj_base p'))"
    using projection_apply_inv [OF Inr assms] by (simp add: proj_inv_def)
  moreover have "ar_version (pj_visible p') = ar_version (pj_base p')"
    using projection_apply_Inr(6) [OF Inr] .
  ultimately have "pj_visible p' = \<lparr>ar_version = ar_version (pj_base p'),
      ar_entries = replay (pj_pending p') (ar_entries (pj_base p'))\<rparr>"
    by (cases "pj_visible p'") simp
  then show ?thesis
    by (cases p') (simp add: projection_apply_replay_def Inr)
qed

section \<open>Properties\<close>

text \<open>C29: receiving an update through the shortcut of the projection (the acknowledged intent already produced the
  visible map) gives the same projection as rebuilding the visible map from the new base and the remaining intents.\<close>

theorem fast_path_equals_replay:
  assumes "proj_inv p" shows "projection_apply p u = projection_apply_replay p u"
  using assms by (rule projection_apply_equiv)

definition sample_projection :: storage_projection where
  "sample_projection = projection_of area_default"

definition sample_broadcast :: storage_update where
  "sample_broadcast = \<lparr>up_area = Local, up_version = 2, up_acknowledgement = 0,
     up_change = Some \<lparr>ch_version = 2, ch_key = Some [97], ch_old_value = None, ch_new_value = Some [49]\<rparr>,
     up_source_url = ''https://a.example/''\<rparr>"

theorem fast_path_equals_replay_witness:
  "projection_apply sample_projection sample_broadcast = projection_apply_replay sample_projection sample_broadcast"
  by (rule fast_path_equals_replay) (simp add: sample_projection_def projection_of_inv)

text \<open>A projection always shows its base with the pending intents laid over it in order, the pending intents are
  exactly the unacknowledged sequence numbers, and the byte count charged for them is their total cost; local writes
  and received updates both keep this.\<close>

theorem projection_invariant:
  assumes "proj_inv p"
  shows "(projection_write p area u operation = Inr (w, p') \<longrightarrow> proj_inv p') \<and>
         (projection_apply p upd = Inr p' \<longrightarrow> proj_inv p')"
  using projection_write_inv projection_apply_inv assms by blast

theorem projection_invariant_witness:
  "\<exists>p'. projection_write sample_projection Local ''https://a.example/'' (Set [98] [50]) =
      Inr (Some \<lparr>wr_sequence = 1, wr_source_url = ''https://a.example/'',
             wr_mutation = \<lparr>mu_area = Local, mu_expected_version = 1, mu_operation = Set [98] [50]\<rparr>\<rparr>, p') \<and> proj_inv p'"
proof -
  let ?p = "projection_write sample_projection Local ''https://a.example/'' (Set [98] [50])"
  have "\<exists>p'. ?p = Inr (Some \<lparr>wr_sequence = 1, wr_source_url = ''https://a.example/'',
      wr_mutation = \<lparr>mu_area = Local, mu_expected_version = 1, mu_operation = Set [98] [50]\<rparr>\<rparr>, p')"
    by (simp add: projection_write_def sample_projection_def projection_of_def area_default_def area_eval write_validate_def
        mutation_byte_len_def)
  then show ?thesis
    using projection_invariant [of sample_projection] projection_of_inv [OF area_default_inv]
    by (auto simp: sample_projection_def)
qed

end
