(* ===== verification/Storage_Coordinator.thy ===== *)
theory Storage_Coordinator
  imports Storage_Local Storage_Projection
begin

text \<open>
  \<^verbatim>\<open>src/storage/coordinator.rs\<close>: the storage authority of one browser instance. Endpoints live in a heap
  \<open>co_heap\<close> keyed by identity; an identity with no entry is an endpoint whose last strong reference is
  gone. The coordinator holds weak references, \<open>co_endpoints\<close>. Its mutex is held for a whole \<^verbatim>\<open>subscribe\<close>
  or \<^verbatim>\<open>apply\<close>, so each is one step; a \<^verbatim>\<open>take_if\<close> between the reservation and the delivery of an \<^verbatim>\<open>apply\<close>
  only frees room and commutes with it. A wake callback is recorded by the identity it belongs to.
\<close>

record endpoint =
  ep_origin :: string
  ep_queue :: "storage_update list"
  ep_bytes :: nat
  ep_local_sequence :: nat
  ep_session_sequence :: nat
  ep_wake :: bool
  ep_error :: "string option"

type_synonym endpoint_heap = "(nat, endpoint) omap"

record coordinator =
  co_local :: local_storage
  co_endpoints :: "nat list"
  co_heap :: endpoint_heap
  co_next :: nat

definition coordinator_new :: "local_storage \<Rightarrow> coordinator" where
  "coordinator_new ls = \<lparr>co_local = ls, co_endpoints = [], co_heap = [], co_next = 0\<rparr>"

section \<open>Subscriptions\<close>

definition take_error :: "endpoint \<Rightarrow> string option \<times> endpoint" where
  "take_error e = (ep_error e, e\<lparr>ep_error := None\<rparr>)"

definition has_pending :: "endpoint \<Rightarrow> bool" where
  "has_pending e \<longleftrightarrow> ep_queue e \<noteq> []"

definition set_notifier :: "endpoint \<Rightarrow> endpoint" where
  "set_notifier e = e\<lparr>ep_wake := True\<rparr>"

definition take_if :: "(storage_update \<Rightarrow> bool) \<Rightarrow> endpoint \<Rightarrow> storage_update option \<times> endpoint" where
  "take_if accepts e =
     (case ep_queue e of
        [] \<Rightarrow> (None, e)
      | u # us \<Rightarrow>
          if accepts u then (Some u, e\<lparr>ep_queue := us, ep_bytes := ep_bytes e - update_byte_len u\<rparr>)
          else (None, e))"

definition retain_live :: "coordinator \<Rightarrow> coordinator" where
  "retain_live c = c\<lparr>co_endpoints := filter (om_contains (co_heap c)) (co_endpoints c)\<rparr>"

definition subscribe :: "'u url_crate_scheme \<Rightarrow> coordinator \<Rightarrow> string \<Rightarrow>
    (storage_error + storage_area_snapshot \<times> nat) \<times> coordinator" where
  "subscribe U c u =
     (case storage_origin U u of
        Inl e \<Rightarrow> (Inl e, c)
      | Inr org \<Rightarrow>
          let c1 = retain_live c
          in case local_snapshot U (co_local c1) u of
               Inl e \<Rightarrow> (Inl e, c1)
             | Inr snapshot \<Rightarrow>
                 let i = co_next c1;
                     e = \<lparr>ep_origin = org, ep_queue = [], ep_bytes = 0, ep_local_sequence = 0,
                          ep_session_sequence = 0, ep_wake = False, ep_error = None\<rparr>
                 in (Inr (snapshot, i),
                     c1\<lparr>co_endpoints := co_endpoints c1 @ [i], co_heap := om_insert i e (co_heap c1),
                        co_next := i + 1\<rparr>))"

text \<open>Dropping the last strong reference retires the document with its queue.\<close>

definition drop_subscription :: "nat \<Rightarrow> coordinator \<Rightarrow> coordinator" where
  "drop_subscription i c = c\<lparr>co_heap := om_remove i (co_heap c)\<rparr>"

section \<open>Applying a batch of writes\<close>

definition ep_sequence :: "storage_area_kind \<Rightarrow> endpoint \<Rightarrow> nat" where
  "ep_sequence area e = (if area = Session then ep_session_sequence e else ep_local_sequence e)"

definition set_ep_sequence :: "storage_area_kind \<Rightarrow> nat \<Rightarrow> endpoint \<Rightarrow> endpoint" where
  "set_ep_sequence area n e =
     (if area = Session then e\<lparr>ep_session_sequence := n\<rparr> else e\<lparr>ep_local_sequence := n\<rparr>)"

fun check_writes :: "'u url_crate_scheme \<Rightarrow> storage_area_kind \<Rightarrow> string \<Rightarrow> nat \<Rightarrow> storage_write list \<Rightarrow>
    storage_error + nat" where
  "check_writes U area org sequence [] = Inr sequence"
| "check_writes U area org sequence (w # ws) =
     and_then (write_validate w) (\<lambda>_.
       and_then (ok_or (checked_add sequence 1) (Invalid ''storage sequence exhausted'')) (\<lambda>next.
         if wr_sequence w \<noteq> next \<or> mu_area (wr_mutation w) \<noteq> area
         then Inl (Invalid ''storage source identity or sequence'')
         else and_then (storage_origin U (wr_source_url w)) (\<lambda>parsed.
           if parsed \<noteq> org then Inl (Invalid ''storage source identity or sequence'')
           else check_writes U area org next ws)))"

text \<open>The dry run on a private copy: the rebased mutations, one optional change record for each write
  reached, the resulting area and the text of the error that stopped it.\<close>

fun preflight :: "storage_write list \<Rightarrow> storage_area \<Rightarrow>
    storage_mutation list \<times> storage_change option list \<times> storage_area \<times> string option" where
  "preflight [] st = ([], [], st, None)"
| "preflight (w # ws) st =
     (let mutation = (wr_mutation w)\<lparr>mu_expected_version := ar_version st\<rparr>;
          change = change_before (Some st) (mu_operation mutation)
      in case area_apply st mutation of
           Inl e \<Rightarrow> ([], [], st, Some (storage_error_text e))
         | Inr (changed, st') \<Rightarrow>
             (case preflight ws st' of (ms, cs, b, r) \<Rightarrow>
                (mutation # ms, (if changed then Some (change\<lparr>ch_version := ar_version st'\<rparr>) else None) # cs, b, r)))"

fun make_updates :: "storage_area_kind \<Rightarrow> bool \<Rightarrow> nat \<Rightarrow> (storage_write \<times> storage_change option) list \<Rightarrow>
    storage_update list" where
  "make_updates area is_source version [] = []"
| "make_updates area is_source version ((w, change) # rest) =
     (let version' = (case change of Some c \<Rightarrow> ch_version c | None \<Rightarrow> version);
          updates = make_updates area is_source version' rest
      in if is_source \<or> change \<noteq> None
         then \<lparr>up_area = area, up_version = version',
               up_acknowledgement = (if is_source then wr_sequence w else 0),
               up_change = change, up_source_url = wr_source_url w\<rparr> # updates
         else updates)"

definition queue_bytes :: "storage_update list \<Rightarrow> nat" where
  "queue_bytes us = sum_list (map update_byte_len us)"

definition delivery_targets :: "endpoint_heap \<Rightarrow> nat \<Rightarrow> storage_area_kind \<Rightarrow> string \<Rightarrow> nat list \<Rightarrow> nat list" where
  "delivery_targets heap source area org ids =
     filter (\<lambda>i. case om_get heap i of
                   None \<Rightarrow> False
                 | Some e \<Rightarrow> i = source \<or> (area = Local \<and> ep_origin e = org)) ids"

text \<open>\<open>Inr False\<close> asks the caller to retry once a recipient has drained.\<close>

fun reserve :: "endpoint_heap \<Rightarrow> (nat \<Rightarrow> storage_update list) \<Rightarrow> nat list \<Rightarrow> storage_error + bool" where
  "reserve heap updates_for [] = Inr True"
| "reserve heap updates_for (i # is) =
     (let updates = updates_for i; bytes = queue_bytes updates
      in if length updates > MAX_QUEUED_BROWSER_WRITES \<or> bytes > MAX_PENDING_STORAGE_BYTES
         then Inl (Invalid ''storage transaction exceeds delivery capacity'')
         else case om_get heap i of
           None \<Rightarrow> reserve heap updates_for is
         | Some e \<Rightarrow>
             if length (ep_queue e) + length updates > MAX_QUEUED_BROWSER_WRITES \<or>
                ep_bytes e + bytes > MAX_PENDING_STORAGE_BYTES
             then Inr False
             else reserve heap updates_for is)"

definition deliver_endpoint :: "bool \<Rightarrow> storage_area_kind \<Rightarrow> nat \<Rightarrow> string option \<Rightarrow> storage_update list \<Rightarrow>
    endpoint \<Rightarrow> endpoint" where
  "deliver_endpoint is_source area sequence rejection updates e =
     (let e1 = (if is_source then (set_ep_sequence area sequence e)\<lparr>ep_error := rejection\<rparr> else e)
      in if updates = [] then e1
         else e1\<lparr>ep_bytes := ep_bytes e1 + queue_bytes updates, ep_queue := ep_queue e1 @ updates\<rparr>)"

fun deliver :: "nat \<Rightarrow> storage_area_kind \<Rightarrow> nat \<Rightarrow> string option \<Rightarrow> (nat \<Rightarrow> storage_update list) \<Rightarrow> nat list \<Rightarrow>
    endpoint_heap \<Rightarrow> endpoint_heap \<times> nat list" where
  "deliver source area sequence rejection updates_for [] heap = (heap, [])"
| "deliver source area sequence rejection updates_for (i # is) heap =
     (case om_get heap i of
        None \<Rightarrow> deliver source area sequence rejection updates_for is heap
      | Some e \<Rightarrow>
          (let updates = updates_for i;
               e' = deliver_endpoint (i = source) area sequence rejection updates e
           in case deliver source area sequence rejection updates_for is (om_insert i e' heap) of
                (heap', wakes) \<Rightarrow> (heap', if updates \<noteq> [] \<and> ep_wake e then i # wakes else wakes)))"

text \<open>The checks before anything is computed: membership, each write's identity and sequence, and a private
  copy of the area. The result is the origin, the new sequence number and the copy.\<close>

definition admit :: "'u url_crate_scheme \<Rightarrow> nat \<Rightarrow> storage_write \<Rightarrow> storage_write list \<Rightarrow> session_storage \<Rightarrow>
    coordinator \<Rightarrow> storage_error + string \<times> nat \<times> storage_area" where
  "admit U source first writes session c =
     (case (if source \<in> set (co_endpoints c) then om_get (co_heap c) source else None) of
        None \<Rightarrow> Inl (Invalid ''retired storage source'')
      | Some src \<Rightarrow>
          (let area = mu_area (wr_mutation first)
           in and_then (check_writes U area (ep_origin src) (ep_sequence area src) writes) (\<lambda>sequence.
                and_then (case area of
                            Local \<Rightarrow> local_snapshot U (co_local c) (wr_source_url first)
                          | Session \<Rightarrow> session_snapshot U session (wr_source_url first)) (\<lambda>snapshot.
                  and_then (area_from_snapshot snapshot) (\<lambda>state.
                    Inr (ep_origin src, sequence, state))))))"

text \<open>The commit between reservation and delivery: the rejection reported to the source, the change records
  that were really made, and the two stores.\<close>

definition commit :: "'u url_crate_scheme \<Rightarrow> storage_json \<Rightarrow> io_env \<Rightarrow> storage_area_kind \<Rightarrow> string \<Rightarrow> string \<Rightarrow>
    storage_mutation list \<Rightarrow> storage_area \<Rightarrow> storage_change option list \<Rightarrow> string option \<Rightarrow>
    local_storage \<Rightarrow> session_storage \<Rightarrow>
    string option \<times> storage_change option list \<times> local_storage \<times> session_storage" where
  "commit U J io area u org ms state changes rejection ls session =
     (if rejection \<noteq> None then (rejection, changes, ls, session)
      else case area of
        Local \<Rightarrow>
          (case apply_batch U J io ls u ms of
             (Inr _, ls') \<Rightarrow> (None, changes, ls', session)
           | (Inl error, ls') \<Rightarrow>
               (Some (storage_error_text error), replicate (length changes) None, ls', session))
      | Session \<Rightarrow>
          (None, changes, ls, session\<lparr>ss_origins := om_insert org state (ss_origins session)\<rparr>))"

definition coord_apply :: "'u url_crate_scheme \<Rightarrow> storage_json \<Rightarrow> io_env \<Rightarrow> nat \<Rightarrow> storage_write list \<Rightarrow>
    session_storage \<Rightarrow> coordinator \<Rightarrow>
    (storage_error + bool) \<times> coordinator \<times> session_storage \<times> nat list" where
  "coord_apply U J io source writes session c =
     (case writes of
        [] \<Rightarrow> (Inr True, c, session, [])
      | first # _ \<Rightarrow>
          (let c1 = retain_live c; area = mu_area (wr_mutation first)
           in case admit U source first writes session c1 of
                Inl e \<Rightarrow> (Inl e, c1, session, [])
              | Inr (org, sequence, start) \<Rightarrow>
                  (case preflight writes start of (mutations, changes0, state, rejection0) \<Rightarrow>
                     (let changes = (if rejection0 \<noteq> None then replicate (length writes) None else changes0);
                          targets = delivery_targets (co_heap c1) source area org (co_endpoints c1);
                          updates_for = (\<lambda>cs i. make_updates area (i = source) (ar_version start) (zip writes cs))
                      in case reserve (co_heap c1) (updates_for changes) targets of
                           Inl e \<Rightarrow> (Inl e, c1, session, [])
                         | Inr False \<Rightarrow> (Inr False, c1, session, [])
                         | Inr True \<Rightarrow>
                             (case commit U J io area (wr_source_url first) org mutations state changes rejection0
                                     (co_local c1) session of (rejection, final, ls, ss) \<Rightarrow>
                                (case deliver source area sequence rejection (updates_for final) targets (co_heap c1) of
                                   (heap, wakes) \<Rightarrow>
                                     (Inr True, c1\<lparr>co_local := ls, co_heap := heap\<rparr>, ss, wakes)))))))"

section \<open>Updates as a chain from one area to the next\<close>

text \<open>What a recipient's checks amount to: an update is well formed and either acknowledges at the current
  version or carries the next change.\<close>

definition update_step :: "storage_area \<Rightarrow> storage_update \<Rightarrow> storage_area option" where
  "update_step a u =
     (if update_validate u \<noteq> Inr () then None
      else case up_change u of
        None \<Rightarrow> if up_version u = ar_version a then Some a else None
      | Some c \<Rightarrow> if change_follows a c \<and> area_inv (after_change a c) then Some (after_change a c) else None)"

fun update_chain :: "storage_area \<Rightarrow> storage_update list \<Rightarrow> storage_area option" where
  "update_chain a [] = Some a"
| "update_chain a (u # us) = Option.bind (update_step a u) (\<lambda>b. update_chain b us)"

lemma update_chain_append:
  "update_chain a (us @ vs) = Option.bind (update_chain a us) (\<lambda>b. update_chain b vs)"
  by (induction us arbitrary: a) (auto simp: Option.bind_assoc)

lemma update_step_inv: "update_step a u = Some b \<Longrightarrow> area_inv a \<Longrightarrow> area_inv b"
  by (auto simp: update_step_def split: if_splits option.splits)

lemma write_validate_Inr:
  "write_validate w = Inr () \<longleftrightarrow> wr_sequence w \<noteq> 0 \<and> length (wr_source_url w) \<le> MAX_URL_BYTES \<and>
     mutation_validate (wr_mutation w) = Inr ()"
  by (auto simp: write_validate_def)

lemma mutation_validate_Inr:
  "mutation_validate m = Inr () \<longleftrightarrow> mu_expected_version m \<noteq> 0 \<and>
     (case mu_operation m of
        Set k v \<Rightarrow> entry_bytes k v \<le> MAX_STORAGE_BYTES_PER_ORIGIN
      | Remove k \<Rightarrow> byte_len k \<le> MAX_STORAGE_BYTES_PER_ORIGIN
      | Clear \<Rightarrow> True)"
  by (auto simp: mutation_validate_def entry_bytes_def saturating_add_def limit_simps split: storage_operation.splits)

text \<open>A record taken from an area within its quota passes the recipient's size check.\<close>

lemma change_validate_before:
  assumes "area_inv a" "mutation_validate m = Inr ()" "v \<noteq> 0"
  shows "change_validate ((change_before (Some a) (mu_operation m))\<lparr>ch_version := v\<rparr>) = Inr ()"
proof -
  have q: "within_quota (ar_entries a)" using assms(1) by (simp add: area_inv_def)
  have old: "byte_len k + byte_len v \<le> MAX_STORAGE_BYTES_PER_ORIGIN" if "area_get a k = Some v" for k v
    using within_quota_entry [OF q] that by (simp add: area_get_def entry_bytes_def)
  show ?thesis
    using assms(2,3) old
    by (cases "mu_operation m"; cases "area_get a (case mu_operation m of Set k _ \<Rightarrow> k | Remove k \<Rightarrow> k)")
      (auto simp: change_validate_def change_before_def mutation_validate_Inr entry_bytes_def opt_bytes_def
        result_simps intro: le_trans [OF le_add1])
qed

section \<open>The dry run\<close>

definition record_list :: "storage_change option list \<Rightarrow> storage_change list" where
  "record_list cs = concat (map (\<lambda>c. case c of None \<Rightarrow> [] | Some r \<Rightarrow> [r]) cs)"

lemma record_list_simps [simp]:
  "record_list [] = []" "record_list (None # cs) = record_list cs" "record_list (Some r # cs) = r # record_list cs"
  by (simp_all add: record_list_def)

lemma preflight_length: "preflight ws a = (ms, cs, b, None) \<Longrightarrow> length cs = length ws"
  by (induction ws arbitrary: a ms cs) (auto simp: Let_def split: sum.splits prod.splits)

lemma preflight_run:
  "preflight ws a = (ms, cs, b, None) \<Longrightarrow> area_run ms a = Inr (record_list cs, b)"
  by (induction ws arbitrary: a ms cs) (auto simp: Let_def split: sum.splits prod.splits)

lemma preflight_area:
  "preflight ws a = (ms, cs, b, None) \<Longrightarrow> map mu_area ms = map (\<lambda>w. mu_area (wr_mutation w)) ws"
  by (induction ws arbitrary: a ms cs) (auto simp: Let_def split: sum.splits prod.splits)

lemma preflight_operations:
  "preflight ws a = (ms, cs, b, None) \<Longrightarrow> map mu_operation ms = map (\<lambda>w. mu_operation (wr_mutation w)) ws"
  by (induction ws arbitrary: a ms cs) (auto simp: Let_def split: sum.splits prod.splits)

lemma preflight_inv: "preflight ws a = (ms, cs, b, r) \<Longrightarrow> area_inv a \<Longrightarrow> area_inv b"
  by (induction ws arbitrary: a ms cs)
    (auto simp: Let_def split: sum.splits prod.splits dest: area_apply_area_inv)

text \<open>The mutation a write stands for, rebased on the current version.\<close>

lemma rebase_valid:
  "write_validate w = Inr () \<Longrightarrow> area_inv a \<Longrightarrow>
     mutation_validate ((wr_mutation w)\<lparr>mu_expected_version := ar_version a\<rparr>) = Inr ()"
  by (simp add: write_validate_Inr mutation_validate_Inr area_inv_def)

lemma update_step_change:
  assumes "area_inv a" "write_validate w = Inr ()"
    and "area_apply a ((wr_mutation w)\<lparr>mu_expected_version := ar_version a\<rparr>) = Inr (True, a')"
  defines "c \<equiv> (change_before (Some a) (mu_operation (wr_mutation w)))\<lparr>ch_version := ar_version a'\<rparr>"
  shows "update_step a \<lparr>up_area = area, up_version = ar_version a', up_acknowledgement = n,
           up_change = Some c, up_source_url = wr_source_url w\<rparr> = Some a'"
proof -
  let ?m = "(wr_mutation w)\<lparr>mu_expected_version := ar_version a\<rparr>"
  have wf: "om_wf (ar_entries a)" using assms(1) by (simp add: area_inv_def)
  have inv': "area_inv a'" using area_apply_area_inv [OF assms(3,1)] .
  then have nz: "ar_version a' \<noteq> 0" by (simp add: area_inv_def)
  have "change_validate c = Inr ()"
    using change_validate_before [OF assms(1) rebase_valid [OF assms(2,1)] nz] by (simp add: c_def)
  moreover have "change_follows a c" "after_change a c = a'"
    using area_apply_change [OF assms(3) wf] by (simp_all add: c_def)
  moreover have "ch_version c = ar_version a'" by (simp add: c_def)
  ultimately show ?thesis
    using assms(2) inv' nz by (simp add: update_step_def update_validate_def write_validate_Inr)
qed

lemma update_step_ack:
  assumes "area_inv a" "write_validate w = Inr ()"
  shows "update_step a \<lparr>up_area = area, up_version = ar_version a, up_acknowledgement = wr_sequence w,
           up_change = None, up_source_url = wr_source_url w\<rparr> = Some a"
  using assms by (simp add: update_step_def update_validate_def write_validate_Inr area_inv_def)

lemma make_updates_chain:
  assumes "preflight ws a = (ms, cs, b, None)" "area_inv a" "\<forall>w\<in>set ws. write_validate w = Inr ()"
  shows "update_chain a (make_updates area is_source (ar_version a) (zip ws cs)) = Some b"
  using assms
proof (induction ws arbitrary: a ms cs)
  case (Cons w ws)
  let ?m = "(wr_mutation w)\<lparr>mu_expected_version := ar_version a\<rparr>"
  obtain changed a' where ap: "area_apply a ?m = Inr (changed, a')"
    using Cons.prems(1) by (cases "area_apply a ?m") (auto simp: Let_def)
  obtain ms' cs' where pre: "preflight ws a' = (ms', cs', b, None)"
    and cs: "cs = (if changed then Some ((change_before (Some a) (mu_operation (wr_mutation w)))\<lparr>ch_version := ar_version a'\<rparr>)
                   else None) # cs'"
    using Cons.prems(1) ap by (auto simp: Let_def split: prod.splits)
  have inv': "area_inv a'" using area_apply_area_inv [OF ap Cons.prems(2)] .
  have w: "write_validate w = Inr ()" using Cons.prems(3) by simp
  have IH: "update_chain a' (make_updates area is_source (ar_version a') (zip ws cs')) = Some b"
    using Cons.IH [OF pre inv'] Cons.prems(3) by simp
  show ?case
  proof (cases changed)
    case True
    then show ?thesis
      using update_step_change [OF Cons.prems(2) w, of a'] ap IH by (simp add: cs Let_def)
  next
    case False
    then have "a' = a" using area_apply_unchanged ap Cons.prems(2) by (auto simp: area_inv_def)
    with False show ?thesis
      using update_step_ack [OF Cons.prems(2) w] IH by (cases is_source) (simp_all add: cs Let_def)
  qed
qed simp

lemma make_updates_rejected_chain:
  "area_inv a \<Longrightarrow> \<forall>w\<in>set ws. write_validate w = Inr () \<Longrightarrow>
     update_chain a (make_updates area is_source (ar_version a) (zip ws (replicate n None))) = Some a"
proof (induction ws arbitrary: n)
  case (Cons w ws)
  then show ?case
    using update_step_ack [of a w] by (cases n) (auto simp: Let_def)
qed simp

lemma make_updates_acks:
  "length cs = length ws \<Longrightarrow>
     map up_acknowledgement (make_updates area is_source v (zip ws cs)) =
       (if is_source then map wr_sequence ws else replicate (length (record_list cs)) 0)"
  by (induction ws cs arbitrary: v rule: list_induct2') (auto simp: Let_def split: option.splits)

lemma make_updates_area: "u \<in> set (make_updates area is_source v wcs) \<Longrightarrow> up_area u = area"
  by (induction area is_source v wcs rule: make_updates.induct) (auto simp: Let_def split: if_splits)

text \<open>Dropping the records from the updates never needs more room than was reserved.\<close>

lemma make_updates_rejected_le:
  assumes "length cs = length ws"
  shows "length (make_updates area is_source v (zip ws (replicate (length ws) None)))
           \<le> length (make_updates area is_source v' (zip ws cs))"
    and "queue_bytes (make_updates area is_source v (zip ws (replicate (length ws) None)))
           \<le> queue_bytes (make_updates area is_source v' (zip ws cs))"
  using assms
  by (induction ws cs arbitrary: v v' rule: list_induct2')
    (auto simp: Let_def queue_bytes_def update_byte_len_def split: option.splits
      intro: le_trans [OF _ le_add2] add_mono le_SucI)

lemma check_writes_Inr:
  "check_writes U area org sequence ws = Inr n \<Longrightarrow>
     n = sequence + length ws \<and> map wr_sequence ws = [sequence + 1..<n + 1] \<and>
     (\<forall>w\<in>set ws. write_validate w = Inr () \<and> mu_area (wr_mutation w) = area \<and> storage_origin U (wr_source_url w) = Inr org)"
proof (induction ws arbitrary: sequence)
  case (Cons w ws)
  from Cons.prems have val: "write_validate w = Inr ()" "wr_sequence w = sequence + 1"
      "mu_area (wr_mutation w) = area" "storage_origin U (wr_source_url w) = Inr org"
    and rest: "check_writes U area org (sequence + 1) ws = Inr n"
    by (auto simp: result_simps split: if_splits)
  from Cons.IH [OF rest] val show ?case
    by (auto simp: upt_conv_Cons simp del: upt_Suc)
qed simp

section \<open>Room and delivery\<close>

lemma reserve_Inr:
  "reserve heap f is = Inr True \<Longrightarrow> i \<in> set is \<Longrightarrow> om_get heap i = Some e \<Longrightarrow>
     length (ep_queue e) + length (f i) \<le> MAX_QUEUED_BROWSER_WRITES \<and>
     ep_bytes e + queue_bytes (f i) \<le> MAX_PENDING_STORAGE_BYTES"
  by (induction "is") (auto simp: Let_def split: if_splits option.splits)

lemma deliver_get:
  "deliver source area n r f is heap = (heap', wakes) \<Longrightarrow> distinct is \<Longrightarrow> om_wf heap \<Longrightarrow>
     om_wf heap' \<and>
     om_get heap' i = (if i \<in> set is then map_option (deliver_endpoint (i = source) area n r (f i)) (om_get heap i)
                       else om_get heap i)"
proof (induction "is" arbitrary: heap heap' wakes)
  case (Cons j js)
  show ?case
  proof (cases "om_get heap j")
    case None
    then show ?thesis using Cons by auto
  next
    case (Some e)
    obtain h w where d: "deliver source area n r f js
        (om_insert j (deliver_endpoint (j = source) area n r (f j) e) heap) = (h, w)"
      by (cases "deliver source area n r f js (om_insert j (deliver_endpoint (j = source) area n r (f j) e) heap)")
    have "heap' = h" using Cons.prems(1) Some d by (simp add: Let_def)
    then show ?thesis
      using Cons.IH [OF d] Cons.prems(2,3) Some by auto
  qed
qed simp

lemma deliver_endpoint_queue:
  "ep_queue (deliver_endpoint src area n r us e) = ep_queue e @ us"
  "ep_bytes (deliver_endpoint src area n r us e) = ep_bytes e + queue_bytes us"
  "ep_origin (deliver_endpoint src area n r us e) = ep_origin e"
  "ep_sequence k (deliver_endpoint src area n r us e) = (if src \<and> k = area then n else ep_sequence k e)"
  by (cases k; cases area; simp add: deliver_endpoint_def set_ep_sequence_def ep_sequence_def queue_bytes_def Let_def)+

section \<open>One accepted batch\<close>

definition coord_wf :: "coordinator \<Rightarrow> bool" where
  "coord_wf c \<longleftrightarrow> om_wf (co_heap c) \<and> distinct (co_endpoints c) \<and>
     (\<forall>i. om_get (co_heap c) i \<noteq> None \<longrightarrow> i \<in> set (co_endpoints c)) \<and>
     (\<forall>i\<in>set (co_endpoints c). i < co_next c) \<and> origins_inv (ls_origins (co_local c))"

definition areas_inv :: "origins \<Rightarrow> bool" where
  "areas_inv os \<longleftrightarrow> om_wf os \<and> (\<forall>(org, a)\<in>set os. area_inv a)"

definition area_origins :: "storage_area_kind \<Rightarrow> coordinator \<Rightarrow> session_storage \<Rightarrow> origins" where
  "area_origins area c session = (case area of Local \<Rightarrow> ls_origins (co_local c) | Session \<Rightarrow> ss_origins session)"

lemma areas_inv_area: "areas_inv os \<Longrightarrow> area_inv (area_of os org)"
  by (auto simp: areas_inv_def area_of_def om_get_mem split: option.splits)

lemma origins_areas_inv: "origins_inv os \<Longrightarrow> areas_inv os"
  by (simp add: origins_inv_def areas_inv_def)

lemma retain_live_simps [simp]:
  "co_heap (retain_live c) = co_heap c" "co_local (retain_live c) = co_local c" "co_next (retain_live c) = co_next c"
  by (simp_all add: retain_live_def)

lemma retain_live_wf: "coord_wf c \<Longrightarrow> coord_wf (retain_live c)"
  by (auto simp: coord_wf_def retain_live_def om_contains_def)

lemma area_from_origin_snapshot:
  assumes "areas_inv os" shows "area_from_snapshot (origin_snapshot os org) = Inr (area_of os org)"
proof -
  have "origin_snapshot os org = area_snapshot (area_of os org)"
    by (auto simp: origin_snapshot_def area_of_def snapshot_empty_def area_snapshot_def area_default_def
        split: option.splits)
  then show ?thesis
    using area_from_snapshot_area_snapshot [OF areas_inv_area [OF assms]] by simp
qed

lemma admit_Inr:
  assumes "admit U source first (first # rest) session c = Inr (org, n, start)"
    and "areas_inv (area_origins area c session)" "area = mu_area (wr_mutation first)"
  obtains src where "om_get (co_heap c) source = Some src" "source \<in> set (co_endpoints c)" "ep_origin src = org"
    and "check_writes U area org (ep_sequence area src) (first # rest) = Inr n"
    and "start = area_of (area_origins area c session) org"
    and "storage_origin U (wr_source_url first) = Inr org"
proof -
  from assms(1) obtain src where src: "om_get (co_heap c) source = Some src" "source \<in> set (co_endpoints c)"
    by (auto simp: admit_def split: option.splits if_splits)
  from assms(1) src have cw: "check_writes U area (ep_origin src) (ep_sequence area src) (first # rest) = Inr n"
    and org: "ep_origin src = org"
    and snap: "\<exists>s. area_from_snapshot s = Inr start \<and>
       (case area of Local \<Rightarrow> local_snapshot U (co_local c) (wr_source_url first)
                   | Session \<Rightarrow> session_snapshot U session (wr_source_url first)) = Inr s"
    by (auto simp: admit_def Let_def result_simps assms(3) simp del: check_writes.simps)
  have so: "storage_origin U (wr_source_url first) = Inr org"
    using check_writes_Inr [OF cw] org by simp
  then have "area_from_snapshot (origin_snapshot (area_origins area c session) org) = Inr start"
    using snap by (cases area) (auto simp: local_snapshot_def session_snapshot_def area_origins_def)
  then have "start = area_of (area_origins area c session) org"
    using area_from_origin_snapshot [OF assms(2)] by simp
  with src cw org so show thesis by (auto intro: that)
qed

text \<open>Commit agrees with the dry run: either the area becomes the one computed in advance and its records
  stand, or nothing changed and every record is withdrawn.\<close>

lemma commit_outcome:
  assumes "commit U J io area u org ms b (if r0 \<noteq> None then replicate (length ws) None else cs) r0 (co_local c) session
             = (r, final, ls, ss)"
    and "preflight ws (area_of (area_origins area c session) org) = (ms, cs, b, r0)"
    and "storage_origin U u = Inr org" "origins_inv (ls_origins (co_local c))" "areas_inv (area_origins area c session)"
  defines "os' \<equiv> (case area of Local \<Rightarrow> ls_origins ls | Session \<Rightarrow> ss_origins ss)"
  shows "(final = replicate (length ws) None \<and> os' = area_origins area c session \<and> r \<noteq> None) \<or>
         (final = cs \<and> r0 = None \<and> r = None \<and> area_of os' org = b)"
    and "p \<noteq> org \<Longrightarrow> om_get os' p = om_get (area_origins area c session) p"
    and "origins_inv (ls_origins ls)" "areas_inv os'" "area = Session \<Longrightarrow> ls = co_local c"
    and "area = Local \<Longrightarrow> ss = session"
proof -
  let ?os = "area_origins area c session"
  have "((final = replicate (length ws) None \<and> os' = ?os \<and> r \<noteq> None) \<or>
         (final = cs \<and> r0 = None \<and> r = None \<and> area_of os' org = b)) \<and>
        (\<forall>p. p \<noteq> org \<longrightarrow> om_get os' p = om_get ?os p) \<and> origins_inv (ls_origins ls) \<and> areas_inv os' \<and>
        (area = Session \<longrightarrow> ls = co_local c) \<and> (area = Local \<longrightarrow> ss = session)"
  proof (cases "r0 = None \<and> area = Local")
    case True
    obtain q ls1 where ab: "apply_batch U J io (co_local c) u ms = (q, ls1)" by force
    then obtain rs where tr: "transact U J io (co_local c) u ms False = (q, rs, ls1)"
      by (auto simp: apply_batch_def split: prod.splits)
    show ?thesis
    proof (cases q)
      case (Inl e)
      then show ?thesis
        using transact_Inl [OF tr [unfolded Inl] assms(4)] assms True ab preflight_length [of ws _ ms cs b]
        by (auto simp: commit_def os'_def area_origins_def)
    next
      case (Inr x)
      from tr [unfolded Inr] assms(4) show ?thesis
      proof (rule transact_Inr)
        fix org' cs'
        assume "storage_origin U u = Inr org'"
          and run: "area_run ms (area_of (ls_origins (co_local c)) org') = Inr (cs', area_of (ls_origins ls1) org')"
          and "origins_inv (ls_origins ls1)"
          and "\<forall>p. p \<noteq> org' \<longrightarrow> om_get (ls_origins ls1) p = om_get (ls_origins (co_local c)) p"
        moreover have "area_run ms (area_of (ls_origins (co_local c)) org) = Inr (record_list cs, b)"
          using preflight_run assms(2) True by (simp add: area_origins_def)
        ultimately show ?thesis
          using assms True ab Inr origins_areas_inv
          by (auto simp: commit_def os'_def area_origins_def)
      qed
    qed
  next
    case False
    have b: "area_inv b" using preflight_inv [OF assms(2) areas_inv_area [OF assms(5)]] .
    have "areas_inv (om_insert org b (ss_origins session))" if "area = Session"
      using that assms(5) b set_om_insert_sub [of org b "ss_origins session"]
      unfolding areas_inv_def area_origins_def by auto
    then show ?thesis
      using False assms(1,4,5) unfolding os'_def commit_def area_origins_def area_of_def
      by (cases r0; cases area) auto
  qed
  then show "(final = replicate (length ws) None \<and> os' = ?os \<and> r \<noteq> None) \<or>
         (final = cs \<and> r0 = None \<and> r = None \<and> area_of os' org = b)"
    and "p \<noteq> org \<Longrightarrow> om_get os' p = om_get ?os p"
    and "origins_inv (ls_origins ls)" "areas_inv os'" "area = Session \<Longrightarrow> ls = co_local c"
    and "area = Local \<Longrightarrow> ss = session" by blast+
qed

definition receives :: "nat \<Rightarrow> storage_area_kind \<Rightarrow> string \<Rightarrow> nat \<Rightarrow> endpoint \<Rightarrow> bool" where
  "receives source area org i e \<longleftrightarrow> i = source \<or> (area = Local \<and> ep_origin e = org)"

lemma delivery_targets_mem:
  "i \<in> set (delivery_targets heap source area org is) \<longleftrightarrow>
     i \<in> set is \<and> (\<exists>e. om_get heap i = Some e \<and> receives source area org i e)"
  by (auto simp: delivery_targets_def receives_def split: option.splits)

lemma delivery_targets_distinct: "distinct is \<Longrightarrow> distinct (delivery_targets heap source area org is)"
  by (simp add: delivery_targets_def)

lemma rejected_room:
  assumes "length cs = length ws \<or> cs = replicate (length ws) None" "final = cs \<or> final = replicate (length ws) None"
    and "length q + length (make_updates area src v (zip ws cs)) \<le> m"
    and "k + queue_bytes (make_updates area src v (zip ws cs)) \<le> l"
  shows "length q + length (make_updates area src v (zip ws final)) \<le> m \<and>
         k + queue_bytes (make_updates area src v (zip ws final)) \<le> l"
  using assms make_updates_rejected_le [of cs ws area src v v] by fastforce

text \<open>The stages an accepted batch went through.\<close>

lemma coord_apply_stages:
  assumes ap: "coord_apply U J io source (first # rest) session c = (Inr True, c', session', wakes)"
  defines "area \<equiv> mu_area (wr_mutation first)" and "ws \<equiv> first # rest"
  obtains org n start ms cs b r0 r final ls heap where
      "admit U source first ws session (retain_live c) = Inr (org, n, start)"
    and "preflight ws start = (ms, cs, b, r0)"
    and "reserve (co_heap c) (\<lambda>i. make_updates area (i = source) (ar_version start)
           (zip ws (if r0 \<noteq> None then replicate (length ws) None else cs)))
           (delivery_targets (co_heap c) source area org (co_endpoints (retain_live c))) = Inr True"
    and "commit U J io area (wr_source_url first) org ms b
           (if r0 \<noteq> None then replicate (length ws) None else cs) r0 (co_local c) session = (r, final, ls, session')"
    and "deliver source area n r (\<lambda>i. make_updates area (i = source) (ar_version start) (zip ws final))
           (delivery_targets (co_heap c) source area org (co_endpoints (retain_live c))) (co_heap c) = (heap, wakes)"
    and "c' = (retain_live c)\<lparr>co_local := ls, co_heap := heap\<rparr>"
proof -
  obtain org n start where ad: "admit U source first (first # rest) session (retain_live c) = Inr (org, n, start)"
    using ap by (auto simp: coord_apply_def Let_def split: sum.splits)
  obtain ms cs b r0 where pre: "preflight (first # rest) start = (ms, cs, b, r0)" by (metis prod_cases4)
  show thesis
    using ap [unfolded coord_apply_def] ad pre that [unfolded ws_def area_def]
    by (auto simp: Let_def simp del: preflight.simps split: sum.splits bool.splits prod.splits)
qed

text \<open>What an accepted batch of \<open>ws\<close> did, with the records \<open>final\<close> delivered and \<open>start\<close> the area before.\<close>

definition batch_effect :: "storage_area_kind \<Rightarrow> nat \<Rightarrow> storage_write list \<Rightarrow> coordinator \<Rightarrow> session_storage \<Rightarrow>
    coordinator \<Rightarrow> session_storage \<Rightarrow> endpoint \<Rightarrow> nat \<Rightarrow> storage_change option list \<Rightarrow> string option \<Rightarrow> bool" where
  "batch_effect area source ws c session c' session' src n final r \<longleftrightarrow>
     (let org = ep_origin src; os = area_origins area c session; os' = area_origins area c' session';
          start = area_of os org;
          updates = (\<lambda>i. make_updates area (i = source) (ar_version start) (zip ws final))
      in length final = length ws \<and>
         (if r = None then \<exists>ms. preflight ws start = (ms, final, area_of os' org, None)
          else final = replicate (length ws) None \<and> os' = os) \<and>
         (\<forall>p. p \<noteq> org \<longrightarrow> om_get os' p = om_get os p) \<and>
         (\<forall>i. om_get (co_heap c') i = map_option (\<lambda>e.
              if receives source area org i e then deliver_endpoint (i = source) area n r (updates i) e else e)
              (om_get (co_heap c) i)) \<and>
         (\<forall>i e. om_get (co_heap c) i = Some e \<longrightarrow> receives source area org i e \<longrightarrow>
              length (ep_queue e) + length (updates i) \<le> MAX_QUEUED_BROWSER_WRITES \<and>
              ep_bytes e + queue_bytes (updates i) \<le> MAX_PENDING_STORAGE_BYTES) \<and>
         (area = Session \<longrightarrow> co_local c' = co_local c) \<and> (area = Local \<longrightarrow> session' = session))"

lemma coord_apply_True:
  assumes ap: "coord_apply U J io source (first # rest) session c = (Inr True, c', session', wakes)"
    and wf: "coord_wf c" and ss: "areas_inv (ss_origins session)"
  defines "area \<equiv> mu_area (wr_mutation first)" and "ws \<equiv> first # rest"
  obtains src n final r where "om_get (co_heap c) source = Some src"
    and "check_writes U area (ep_origin src) (ep_sequence area src) ws = Inr n"
    and "batch_effect area source ws c session c' session' src n final r"
    and "coord_wf c'" "areas_inv (ss_origins session')"
proof -
  let ?c1 = "retain_live c"
  have wf1: "coord_wf ?c1" using retain_live_wf [OF wf] .
  have hwf: "om_wf (co_heap c)" and oi: "origins_inv (ls_origins (co_local c))"
    using wf by (simp_all add: coord_wf_def)
  have same: "area_origins area ?c1 session = area_origins area c session"
    by (cases area) (simp_all add: area_origins_def)
  have os_inv: "areas_inv (area_origins area c session)"
    using oi ss origins_areas_inv by (cases area) (auto simp: area_origins_def)
  from ap obtain org n start ms cs b r0 r final ls heap where
      ad: "admit U source first ws session ?c1 = Inr (org, n, start)"
    and pre: "preflight ws start = (ms, cs, b, r0)"
    and rv: "reserve (co_heap c) (\<lambda>i. make_updates area (i = source) (ar_version start)
           (zip ws (if r0 \<noteq> None then replicate (length ws) None else cs)))
           (delivery_targets (co_heap c) source area org (co_endpoints ?c1)) = Inr True"
    and cm: "commit U J io area (wr_source_url first) org ms b
           (if r0 \<noteq> None then replicate (length ws) None else cs) r0 (co_local c) session = (r, final, ls, session')"
    and dl: "deliver source area n r (\<lambda>i. make_updates area (i = source) (ar_version start) (zip ws final))
           (delivery_targets (co_heap c) source area org (co_endpoints ?c1)) (co_heap c) = (heap, wakes)"
    and c': "c' = ?c1\<lparr>co_local := ls, co_heap := heap\<rparr>"
    unfolding area_def ws_def by (rule coord_apply_stages)
  from admit_Inr [OF ad [unfolded ws_def] os_inv [folded same] area_def [THEN meta_eq_to_obj_eq]] obtain src
    where src: "om_get (co_heap c) source = Some src" "ep_origin src = org"
    and cw: "check_writes U area org (ep_sequence area src) ws = Inr n"
    and start: "start = area_of (area_origins area c session) org"
    and so: "storage_origin U (wr_source_url first) = Inr org"
    by (auto simp: ws_def same)
  note co = commit_outcome [OF cm pre [unfolded start] so oi os_inv]
  have os': "area_origins area c' session' = (case area of Local \<Rightarrow> ls_origins ls | Session \<Rightarrow> ss_origins session')"
    by (cases area) (simp_all add: area_origins_def c')
  let ?ch = "if r0 \<noteq> None then replicate (length ws) None else cs"
  have len: "length ?ch = length ws" using preflight_length pre by auto
  have fin: "final = ?ch \<or> final = replicate (length ws) None" using co(1) by auto
  have d: "distinct (delivery_targets (co_heap c) source area org (co_endpoints ?c1))"
    using wf1 by (intro delivery_targets_distinct) (simp add: coord_wf_def)
  note dg = deliver_get [OF dl d hwf]
  have listed: "om_get (co_heap c) i = Some e \<Longrightarrow> i \<in> set (co_endpoints ?c1)" for i e
    using wf1 by (auto simp: coord_wf_def)
  have hp: "co_heap c' = heap" "co_local c' = ls" by (simp_all add: c')
  have "length final = length ws" using fin len by (elim disjE) simp_all
  moreover have "\<forall>i. om_get (co_heap c') i = map_option (\<lambda>e. if receives source area org i e
      then deliver_endpoint (i = source) area n r (make_updates area (i = source) (ar_version start) (zip ws final)) e
      else e) (om_get (co_heap c) i)"
    (is "\<forall>i. ?P i")
  proof
    show "?P i" for i
      using dg [of i] listed [of i] by (cases "om_get (co_heap c) i") (auto simp: delivery_targets_mem hp)
  qed
  moreover have "length (ep_queue e) + length (make_updates area (i = source) (ar_version start) (zip ws final))
        \<le> MAX_QUEUED_BROWSER_WRITES \<and>
      ep_bytes e + queue_bytes (make_updates area (i = source) (ar_version start) (zip ws final))
        \<le> MAX_PENDING_STORAGE_BYTES"
    if "om_get (co_heap c) i = Some e" "receives source area org i e" for i e
  proof -
    have "i \<in> set (delivery_targets (co_heap c) source area org (co_endpoints ?c1))"
      using that listed by (simp add: delivery_targets_mem)
    from reserve_Inr [OF rv this that(1)] show ?thesis
      by (intro rejected_room [OF disjI1 [OF len] fin]) auto
  qed
  moreover have "if r = None then \<exists>ms. preflight ws start = (ms, final, area_of (area_origins area c' session') org, None)
      else final = replicate (length ws) None \<and> area_origins area c' session' = area_origins area c session"
    using co(1) pre unfolding os' by auto
  ultimately have "batch_effect area source ws c session c' session' src n final r"
    unfolding batch_effect_def Let_def src(2) start [symmetric]
    using co(2,5,6) by (intro conjI allI impI) (simp_all add: os' hp)
  moreover have "coord_wf c'"
    using wf1 dg co(3) by (auto simp: coord_wf_def c' split: if_splits)
  moreover have "areas_inv (ss_origins session')"
    using co(4,6) ss by (cases area) auto
  ultimately show thesis using that src cw by blast
qed

end
