(* ===== verification/Storage_Convergence.thy ===== *)
theory Storage_Convergence
  imports Storage_Coordinator
begin

text \<open>
  The storage authority and its documents as one system. A document holds the projection of
  \<^verbatim>\<open>src/storage/projection.rs\<close> and an outbox of writes still on their way; the authority is the coordinator of
  \<^verbatim>\<open>src/storage/coordinator.rs\<close>. Steps interleave freely: a document opens, writes, submits any prefix of its
  outbox, receives the front of its queue, or closes.
\<close>

record document =
  dc_projection :: storage_projection
  dc_outbox :: "storage_write list"

record system =
  sy_coordinator :: coordinator
  sy_documents :: "nat \<rightharpoonup> document"
  sy_sessions :: "nat \<Rightarrow> session_storage"

definition system_start :: "local_storage \<Rightarrow> system" where
  "system_start ls = \<lparr>sy_coordinator = coordinator_new ls, sy_documents = Map.empty,
     sy_sessions = (\<lambda>_. \<lparr>ss_origins = []\<rparr>)\<rparr>"

inductive step :: "'u url_crate_scheme \<Rightarrow> storage_json \<Rightarrow> system \<Rightarrow> system \<Rightarrow> bool" for U J where
  opened: "subscribe U (sy_coordinator s) u = (Inr (snapshot, i), c) \<Longrightarrow>
    projection_from_snapshot snapshot = Inr p \<Longrightarrow>
    step U J s (s\<lparr>sy_coordinator := c,
      sy_documents := (sy_documents s)(i \<mapsto> \<lparr>dc_projection = p, dc_outbox = []\<rparr>)\<rparr>)"
| written: "sy_documents s i = Some d \<Longrightarrow>
    projection_write (dc_projection d) Local u operation = Inr (w, p) \<Longrightarrow>
    step U J s (s\<lparr>sy_documents := (sy_documents s)(i \<mapsto>
      \<lparr>dc_projection = p, dc_outbox = dc_outbox d @ (case w of None \<Rightarrow> [] | Some w' \<Rightarrow> [w'])\<rparr>)\<rparr>)"
| submitted: "sy_documents s i = Some d \<Longrightarrow> dc_outbox d = first # rest @ later \<Longrightarrow>
    mu_area (wr_mutation first) = Local \<Longrightarrow>
    coord_apply U J io i (first # rest) (sy_sessions s t) (sy_coordinator s) = (Inr True, c, session, wakes) \<Longrightarrow>
    step U J s (s\<lparr>sy_coordinator := c, sy_sessions := (sy_sessions s)(t := session),
      sy_documents := (sy_documents s)(i \<mapsto> d\<lparr>dc_outbox := later\<rparr>)\<rparr>)"
| session_submitted: "sy_documents s i = Some d \<Longrightarrow> mu_area (wr_mutation first) = Session \<Longrightarrow>
    coord_apply U J io i (first # rest) (sy_sessions s t) (sy_coordinator s) = (Inr True, c, session, wakes) \<Longrightarrow>
    step U J s (s\<lparr>sy_coordinator := c, sy_sessions := (sy_sessions s)(t := session)\<rparr>)"
| refused: "coord_apply U J io i ws (sy_sessions s t) (sy_coordinator s) = (r, c, session, wakes) \<Longrightarrow> r \<noteq> Inr True \<Longrightarrow>
    step U J s (s\<lparr>sy_coordinator := c, sy_sessions := (sy_sessions s)(t := session)\<rparr>)"
| received: "sy_documents s i = Some d \<Longrightarrow> om_get (co_heap (sy_coordinator s)) i = Some e \<Longrightarrow>
    take_if accepts e = (Some u, e') \<Longrightarrow>
    (if up_area u = Local then projection_apply (dc_projection d) u = Inr p else p = dc_projection d) \<Longrightarrow>
    step U J s (s\<lparr>sy_coordinator := (sy_coordinator s)\<lparr>co_heap := om_insert i e' (co_heap (sy_coordinator s))\<rparr>,
      sy_documents := (sy_documents s)(i \<mapsto> d\<lparr>dc_projection := p\<rparr>)\<rparr>)"
| closed: "step U J s (s\<lparr>sy_coordinator := drop_subscription i (sy_coordinator s),
      sy_documents := (sy_documents s)(i := None)\<rparr>)"

inductive reachable :: "'u url_crate_scheme \<Rightarrow> storage_json \<Rightarrow> local_storage \<Rightarrow> system \<Rightarrow> bool" for U J ls where
  start: "reachable U J ls (system_start ls)"
| step: "reachable U J ls s \<Longrightarrow> step U J s s' \<Longrightarrow> reachable U J ls s'"

section \<open>Invariant\<close>

definition local_queue :: "endpoint \<Rightarrow> storage_update list" where
  "local_queue e = filter (\<lambda>u. up_area u = Local) (ep_queue e)"

definition queue_acks :: "storage_update list \<Rightarrow> nat list" where
  "queue_acks us = filter (\<lambda>n. n \<noteq> 0) (map up_acknowledgement us)"

definition doc_ok :: "storage_area \<Rightarrow> endpoint \<Rightarrow> document \<Rightarrow> bool" where
  "doc_ok authority e d \<longleftrightarrow>
     (let p = dc_projection d
      in proj_inv p \<and> update_chain (pj_base p) (local_queue e) = Some authority \<and>
         pj_acknowledged p \<le> ep_local_sequence e \<and> ep_local_sequence e \<le> pj_last_sequence p \<and>
         queue_acks (local_queue e) = [pj_acknowledged p + 1..<ep_local_sequence e + 1] \<and>
         map wr_sequence (dc_outbox d) = [ep_local_sequence e + 1..<pj_last_sequence p + 1] \<and>
         (pj_pending p = [] \<longrightarrow> pj_visible p = pj_base p))"

definition queue_ok :: "endpoint \<Rightarrow> bool" where
  "queue_ok e \<longleftrightarrow> length (ep_queue e) \<le> MAX_QUEUED_BROWSER_WRITES \<and>
     ep_bytes e = queue_bytes (ep_queue e) \<and> ep_bytes e \<le> MAX_PENDING_STORAGE_BYTES"

definition sys_inv :: "system \<Rightarrow> bool" where
  "sys_inv s \<longleftrightarrow>
     (let c = sy_coordinator s
      in coord_wf c \<and> (\<forall>t. areas_inv (ss_origins (sy_sessions s t))) \<and>
         (\<forall>i e. om_get (co_heap c) i = Some e \<longrightarrow> queue_ok e) \<and>
         (\<forall>i d. sy_documents s i = Some d \<longrightarrow>
            (\<exists>e. om_get (co_heap c) i = Some e \<and> doc_ok (area_of (ls_origins (co_local c)) (ep_origin e)) e d)))"

section \<open>A recipient never refuses the front of its queue\<close>

lemma change_mutation_valid:
  assumes "change_follows a c" "area_inv a" "area_inv (after_change a c)"
  shows "mutation_validate \<lparr>mu_area = area, mu_expected_version = ar_version a, mu_operation = change_operation c\<rparr> = Inr ()"
proof (cases "change_operation c")
  case (Set k v)
  have "om_get (ar_entries (after_change a c)) k = Some v"
    by (simp add: after_change_def Set)
  then have "entry_bytes k v \<le> MAX_STORAGE_BYTES_PER_ORIGIN"
    using within_quota_entry assms(3) unfolding area_inv_def by blast
  then show ?thesis using assms(2) by (simp add: mutation_validate_Inr Set area_inv_def)
next
  case (Remove k)
  then obtain v where "om_get (ar_entries a) k = Some v"
    using assms(1) by (auto simp: change_follows_def operation_changes_def om_contains_def)
  then have "entry_bytes k v \<le> MAX_STORAGE_BYTES_PER_ORIGIN"
    using within_quota_entry assms(2) unfolding area_inv_def by blast
  then show ?thesis using assms(2) by (simp add: mutation_validate_Inr Remove area_inv_def entry_bytes_def)
next
  case Clear
  then show ?thesis using assms(2) by (simp add: mutation_validate_Inr area_inv_def)
qed

lemma change_applies:
  assumes "change_follows a c" "area_inv a" "area_inv (after_change a c)"
  shows "area_apply a \<lparr>mu_area = area, mu_expected_version = ar_version a, mu_operation = change_operation c\<rparr>
           = Inr (True, after_change a c)"
proof -
  let ?m = "\<lparr>mu_area = area, mu_expected_version = ar_version a, mu_operation = change_operation c\<rparr>"
  have wf: "om_wf (ar_entries a)" using assms(2) by (simp add: area_inv_def)
  have "ar_version a < u64_max" "within_quota (overlay (change_operation c) (ar_entries a))"
    using assms(3) by (auto simp: area_inv_def after_change_def)
  then obtain ch b where ap: "area_apply a ?m = Inr (ch, b)"
    using area_apply_accepts [OF assms(2) change_mutation_valid [OF assms]] by fastforce
  have ch using area_apply_Inr(3) [OF ap wf] assms(1) by (simp add: change_follows_def)
  then show ?thesis
    using ap area_apply_Inr(4,5) [OF ap wf] by (cases b) (simp add: after_change_def)
qed

lemma projection_base_step:
  assumes "update_step (pj_base p) u = Some b" "area_inv (pj_base p)"
  shows "projection_base p u = Inr b"
proof (cases "up_change u")
  case None
  with assms show ?thesis by (auto simp: update_step_def projection_base_def split: if_splits)
next
  case (Some c)
  with assms(1) have f: "change_follows (pj_base p) c" "area_inv (after_change (pj_base p) c)"
      "b = after_change (pj_base p) c"
    by (auto simp: update_step_def split: if_splits)
  have "ar_version (pj_base p) + 1 \<le> u64_max" using f(2) by (simp add: area_inv_def after_change_def)
  then show ?thesis
    using f Some change_applies [OF f(1) assms(2) f(2), of "up_area u"]
    by (auto simp: projection_base_def change_follows_def checked_add_def ok_or_def split: option.splits)
qed

lemma projection_apply_step:
  assumes "update_step (pj_base p) u = Some b" "proj_inv p"
    and "up_acknowledgement u \<noteq> 0 \<Longrightarrow> up_acknowledgement u = pj_acknowledged p + 1 \<and>
           up_acknowledgement u \<le> pj_last_sequence p"
  shows "\<exists>p'. projection_apply p u = Inr p'"
proof -
  have base: "projection_base p u = Inr b"
    using projection_base_step [OF assms(1)] assms(2) by (simp add: proj_inv_def)
  have val: "update_validate u = Inr ()"
    using assms(1) by (auto simp: update_step_def split: if_splits)
  have "up_acknowledgement u \<noteq> 0 \<Longrightarrow> \<exists>w ws. pj_pending p = w # ws \<and> wr_sequence w = pj_acknowledged p + 1"
    using assms(2,3)
    by (cases "pj_pending p") (auto simp: proj_inv_def upt_conv_Cons simp del: upt_Suc)
  then show ?thesis
    using assms(3) by (cases "up_acknowledgement u = 0") (auto simp: projection_apply_def val base Let_def)
qed

lemma projection_apply_visible:
  assumes "projection_apply p u = Inr p'" "proj_inv p" "pj_pending p' = []"
  shows "pj_visible p' = pj_base p'"
  using projection_apply_Inr(6) [OF assms(1)] projection_apply_inv [OF assms(1,2)] assms(3)
  by (cases "pj_visible p'"; cases "pj_base p'") (simp add: proj_inv_def)

section \<open>Every step keeps the invariant\<close>

lemma queue_acks_append [simp]: "queue_acks (us @ vs) = queue_acks us @ queue_acks vs"
  by (simp add: queue_acks_def)

lemma queue_acks_updates:
  assumes "length final = length ws" "\<forall>w\<in>set ws. wr_sequence w \<noteq> 0"
  shows "queue_acks (make_updates area is_source v (zip ws final)) = (if is_source then map wr_sequence ws else [])"
  using assms by (auto simp: queue_acks_def make_updates_acks filter_id_conv)

lemma local_queue_deliver:
  assumes "\<forall>u\<in>set us. up_area u = area"
  shows "local_queue (deliver_endpoint src area n r us e) = local_queue e @ (if area = Local then us else [])"
  using assms by (auto simp: local_queue_def deliver_endpoint_queue filter_id_conv filter_empty_conv)

lemma upt_split: "m \<le> n \<Longrightarrow> n \<le> k \<Longrightarrow> [m..<n] @ [n..<k] = [m..<k]"
  by (metis le_iff_add upt_add_eq_append)

lemma opened_ok:
  assumes "subscribe U c u = (Inr (snapshot, i), c')" "projection_from_snapshot snapshot = Inr p" "coord_wf c"
  shows "coord_wf c'" "om_get (co_heap c) i = None" "co_local c' = co_local c"
    and "\<exists>e. om_get (co_heap c') i = Some e \<and> queue_ok e \<and>
           doc_ok (area_of (ls_origins (co_local c')) (ep_origin e)) e \<lparr>dc_projection = p, dc_outbox = []\<rparr>"
    and "j \<noteq> i \<Longrightarrow> om_get (co_heap c') j = om_get (co_heap c) j"
proof -
  from assms(1) obtain org where org: "storage_origin U u = Inr org"
    by (auto simp: subscribe_def split: sum.splits)
  let ?e = "\<lparr>ep_origin = org, ep_queue = [], ep_bytes = 0, ep_local_sequence = 0,
              ep_session_sequence = 0, ep_wake = False, ep_error = None\<rparr>"
  have c': "c' = (retain_live c)\<lparr>co_endpoints := co_endpoints (retain_live c) @ [i],
        co_heap := om_insert i ?e (co_heap c), co_next := i + 1\<rparr>"
    and i: "i = co_next c" and snap: "snapshot = origin_snapshot (ls_origins (co_local c)) org"
    using assms(1) org by (auto simp: subscribe_def local_snapshot_def Let_def)
  have oi: "origins_inv (ls_origins (co_local c))" using assms(3) by (simp add: coord_wf_def)
  have p: "p = projection_of (area_of (ls_origins (co_local c)) org)"
    using assms(2) area_from_origin_snapshot [OF origins_areas_inv [OF oi]]
    by (simp add: projection_from_snapshot_def snap)
  show "coord_wf c'"
    using retain_live_wf [OF assms(3)] by (auto simp: coord_wf_def c' i less_Suc_eq)
  show "om_get (co_heap c) i = None"
    using assms(3) by (auto simp: coord_wf_def i)
  show "co_local c' = co_local c" by (simp add: c')
  have "doc_ok (area_of (ls_origins (co_local c)) org) ?e \<lparr>dc_projection = p, dc_outbox = []\<rparr>"
    using projection_of_inv [OF origins_inv_area [OF oi]]
    by (simp add: doc_ok_def p local_queue_def queue_acks_def projection_of_def)
  then show "\<exists>e. om_get (co_heap c') i = Some e \<and> queue_ok e \<and>
      doc_ok (area_of (ls_origins (co_local c')) (ep_origin e)) e \<lparr>dc_projection = p, dc_outbox = []\<rparr>"
    by (simp add: c' queue_ok_def queue_bytes_def)
  show "j \<noteq> i \<Longrightarrow> om_get (co_heap c') j = om_get (co_heap c) j" by (simp add: c')
qed

lemma written_ok:
  assumes "projection_write (dc_projection d) Local u operation = Inr (w, p)" "doc_ok authority e d"
  shows "doc_ok authority e \<lparr>dc_projection = p, dc_outbox = dc_outbox d @ (case w of None \<Rightarrow> [] | Some w' \<Rightarrow> [w'])\<rparr>"
proof -
  have inv: "proj_inv p"
    using projection_write_inv [OF assms(1)] assms(2) by (simp add: doc_ok_def Let_def)
  have keep: "pj_base p = pj_base (dc_projection d)" "pj_acknowledged p = pj_acknowledged (dc_projection d)"
    and cs: "w = None \<and> p = dc_projection d \<or>
      (\<exists>w'. w = Some w' \<and> wr_sequence w' = pj_last_sequence p \<and>
         pj_last_sequence p = pj_last_sequence (dc_projection d) + 1 \<and> pj_pending p \<noteq> [])"
    using assms(1) by (auto simp: projection_write_def Let_def result_simps split: if_splits)
  show ?thesis
    using cs inv keep assms(2) by (auto simp: doc_ok_def Let_def)
qed

lemma received_ok:
  assumes "doc_ok authority e d" "take_if accepts e = (Some u, e')" "queue_ok e"
  shows "queue_ok e'" "ep_origin e' = ep_origin e"
    and "up_area u = Local \<Longrightarrow> \<exists>p. projection_apply (dc_projection d) u = Inr p"
    and "(if up_area u = Local then projection_apply (dc_projection d) u = Inr p else p = dc_projection d) \<Longrightarrow>
           doc_ok authority e' (d\<lparr>dc_projection := p\<rparr>)"
proof -
  let ?p = "dc_projection d"
  from assms(2) obtain us where q: "ep_queue e = u # us"
    and e': "e' = e\<lparr>ep_queue := us, ep_bytes := ep_bytes e - update_byte_len u\<rparr>"
    by (auto simp: take_if_def split: list.splits if_splits)
  show "queue_ok e'" "ep_origin e' = ep_origin e"
    using assms(3) by (auto simp: queue_ok_def queue_bytes_def q e')
  have seq: "ep_local_sequence e' = ep_local_sequence e" by (simp add: e')
  have D: "proj_inv ?p" "update_chain (pj_base ?p) (local_queue e) = Some authority"
      "queue_acks (local_queue e) = [pj_acknowledged ?p + 1..<ep_local_sequence e + 1]"
      "pj_acknowledged ?p \<le> ep_local_sequence e" "ep_local_sequence e \<le> pj_last_sequence ?p"
    using assms(1) by (simp_all add: doc_ok_def Let_def)
  {
    assume loc: "up_area u = Local"
    then have lq: "local_queue e = u # local_queue e'" by (simp add: local_queue_def q e')
    then obtain b where st: "update_step (pj_base ?p) u = Some b" and ch: "update_chain b (local_queue e') = Some authority"
      using D(2) by (auto simp: bind_eq_Some_conv)
    have ack: "up_acknowledgement u = pj_acknowledged ?p + 1 \<and> pj_acknowledged ?p < ep_local_sequence e \<and>
        queue_acks (local_queue e') = [pj_acknowledged ?p + 2..<ep_local_sequence e + 1]"
      if "up_acknowledgement u \<noteq> 0"
    proof -
      have "up_acknowledgement u # queue_acks (local_queue e') = [pj_acknowledged ?p + 1..<ep_local_sequence e + 1]"
        using D(3) that lq by (simp add: queue_acks_def del: upt_Suc)
      then show ?thesis
        by (cases "pj_acknowledged ?p < ep_local_sequence e") (auto simp: upt_conv_Cons simp del: upt_Suc)
    qed
    show "\<exists>p. projection_apply ?p u = Inr p"
      using projection_apply_step [OF st D(1)] ack D(5) by fastforce
    fix p assume ap: "projection_apply ?p u = Inr p"
    note A = projection_apply_Inr [OF ap]
    have "pj_base p = b"
      using A(1) projection_base_step [OF st] D(1) by (simp add: proj_inv_def)
    moreover have "queue_acks (local_queue e') = [pj_acknowledged p + 1..<ep_local_sequence e + 1] \<and>
        pj_acknowledged p \<le> ep_local_sequence e"
      using A(3,4) ack D(3,4) lq
      by (cases "up_acknowledgement u = 0") (auto simp: queue_acks_def simp del: upt_Suc)
    ultimately have "doc_ok authority e' (d\<lparr>dc_projection := p\<rparr>)"
      using assms(1) ch projection_apply_inv [OF ap D(1)] projection_apply_visible [OF ap D(1)] A(5)
      by (auto simp: doc_ok_def Let_def seq simp del: upt_Suc)
  } note loc = this
  assume "if up_area u = Local then projection_apply ?p u = Inr p else p = ?p"
  then show "doc_ok authority e' (d\<lparr>dc_projection := p\<rparr>)"
    using loc assms(1) by (cases "up_area u = Local") (auto simp: doc_ok_def Let_def local_queue_def q e' simp del: upt_Suc)
qed

lemma batch_chain:
  assumes "batch_effect area source ws c session c' session' src n final r"
    and "areas_inv (area_origins area c session)" "\<forall>w\<in>set ws. write_validate w = Inr ()"
  shows "update_chain (area_of (area_origins area c session) (ep_origin src))
           (make_updates area is_source (ar_version (area_of (area_origins area c session) (ep_origin src))) (zip ws final))
         = Some (area_of (area_origins area c' session') (ep_origin src))"
  using assms(1) make_updates_chain [OF _ areas_inv_area [OF assms(2)] assms(3)]
    make_updates_rejected_chain [OF areas_inv_area [OF assms(2)] assms(3)]
  by (cases r) (auto simp: batch_effect_def Let_def)

lemma batch_queue_ok:
  assumes "batch_effect area source ws c session c' session' src n final r"
    and "\<forall>i e. om_get (co_heap c) i = Some e \<longrightarrow> queue_ok e" "om_get (co_heap c') i = Some e'"
  shows "queue_ok e'"
proof -
  define us where "us = make_updates area (i = source)
    (ar_version (area_of (area_origins area c session) (ep_origin src))) (zip ws final)"
  obtain e where e: "om_get (co_heap c) i = Some e"
    and e': "e' = (if receives source area (ep_origin src) i e then deliver_endpoint (i = source) area n r us e else e)"
    using assms(1,3) unfolding batch_effect_def Let_def us_def by auto
  have ok: "queue_ok e" using assms(2) e by blast
  have "receives source area (ep_origin src) i e \<Longrightarrow>
      length (ep_queue e) + length us \<le> MAX_QUEUED_BROWSER_WRITES \<and> ep_bytes e + queue_bytes us \<le> MAX_PENDING_STORAGE_BYTES"
    using assms(1) e unfolding batch_effect_def Let_def us_def by blast
  then show ?thesis
    using ok by (auto simp: e' queue_ok_def deliver_endpoint_queue queue_bytes_def)
qed

text \<open>Appending to a document's queue the updates \<open>us\<close>, which acknowledge the writes \<open>ws\<close> at the front of its outbox.\<close>

lemma extend_doc_ok:
  assumes d: "doc_ok authority e d" and q: "local_queue e' = local_queue e @ us"
    and ch: "update_chain authority us = Some authority'" and acks: "queue_acks us = map wr_sequence ws"
    and ws: "map wr_sequence ws = [ep_local_sequence e + 1..<ep_local_sequence e' + 1]"
      "ep_local_sequence e' = ep_local_sequence e + length ws"
    and out: "dc_outbox d = ws @ later"
  shows "doc_ok authority' e' (d\<lparr>dc_outbox := later\<rparr>)"
proof -
  let ?s = "ep_local_sequence e" and ?n = "ep_local_sequence e'" and ?p = "dc_projection d"
  have D: "map wr_sequence ws @ map wr_sequence later = [?s + 1..<pj_last_sequence ?p + 1]"
      "?s \<le> pj_last_sequence ?p" "pj_acknowledged ?p \<le> ?s"
      "queue_acks (local_queue e) = [pj_acknowledged ?p + 1..<?s + 1]"
      "update_chain (pj_base ?p) (local_queue e) = Some authority"
    using d out by (simp_all add: doc_ok_def Let_def del: upt_Suc)
  have "length ws + length later = pj_last_sequence ?p - ?s"
    using arg_cong [OF D(1), of length] by (simp del: upt_Suc)
  then have le: "?n \<le> pj_last_sequence ?p" using ws(2) D(2) by simp
  have "map wr_sequence later = [?n + 1..<pj_last_sequence ?p + 1]"
    using D(1) upt_split [of "?s + 1" "?n + 1" "pj_last_sequence ?p + 1"] ws le
    by (metis add_le_mono1 le_add1 same_append_eq)
  moreover have "queue_acks (local_queue e') = [pj_acknowledged ?p + 1..<?n + 1]"
    using upt_split [of "pj_acknowledged ?p + 1" "?s + 1" "?n + 1"] acks ws D(3,4)
    by (simp add: q del: upt_Suc)
  moreover have "update_chain (pj_base ?p) (local_queue e') = Some authority'"
    using D(5) ch by (simp add: q update_chain_append)
  ultimately show ?thesis using d le ws(2) D(3) by (simp add: doc_ok_def Let_def del: upt_Suc)
qed

lemma batch_doc_ok:
  assumes B: "batch_effect area source ws c session c' session' src n final r"
    and cw: "check_writes U area (ep_origin src) (ep_sequence area src) ws = Inr n"
    and src: "om_get (co_heap c) source = Some src" and inv: "areas_inv (area_origins area c session)"
    and e: "om_get (co_heap c) i = Some e" and d: "doc_ok (area_of (ls_origins (co_local c)) (ep_origin e)) e d"
    and out: "if i = source \<and> area = Local then dc_outbox d = ws @ later else later = dc_outbox d"
  shows "\<exists>e'. om_get (co_heap c') i = Some e' \<and>
           doc_ok (area_of (ls_origins (co_local c')) (ep_origin e')) e' (d\<lparr>dc_outbox := later\<rparr>)"
proof -
  let ?org = "ep_origin src"
  define us where "us = make_updates area (i = source) (ar_version (area_of (area_origins area c session) ?org)) (zip ws final)"
  let ?e' = "deliver_endpoint (i = source) area n r us e"
  have len: "length final = length ws" using B by (simp add: batch_effect_def Let_def)
  note CW = check_writes_Inr [OF cw]
  have valid: "\<forall>w\<in>set ws. write_validate w = Inr ()" using CW by blast
  have nz: "\<forall>w\<in>set ws. wr_sequence w \<noteq> 0" using valid by (simp add: write_validate_Inr)
  have upd: "\<forall>u\<in>set us. up_area u = area" using make_updates_area us_def by blast
  have heap: "om_get (co_heap c') i = Some (if receives source area ?org i e then ?e' else e)"
    using B e by (simp add: batch_effect_def Let_def us_def)
  have lq: "local_queue ?e' = local_queue e @ (if area = Local then us else [])"
    using local_queue_deliver [OF upd] .
  have seq: "ep_local_sequence ?e' = (if i = source \<and> area = Local then n else ep_local_sequence e)"
    using deliver_endpoint_queue(4) [of Local "i = source" area n r us e] by (auto simp: ep_sequence_def)
  have acks: "queue_acks us = (if i = source then map wr_sequence ws else [])"
    unfolding us_def using queue_acks_updates [OF len nz] .
  show ?thesis
  proof (cases "area = Local")
    case True
    then have os: "area_origins area c session = ls_origins (co_local c)"
        "area_origins area c' session' = ls_origins (co_local c')" by (simp_all add: area_origins_def)
    show ?thesis
    proof (cases "ep_origin e = ?org")
      case same: True
      have ch: "update_chain (area_of (ls_origins (co_local c)) (ep_origin e)) us
          = Some (area_of (ls_origins (co_local c')) ?org)"
        using batch_chain [OF B inv valid, of "i = source"] unfolding us_def by (simp add: os same)
      have "doc_ok (area_of (ls_origins (co_local c')) ?org) ?e' (d\<lparr>dc_outbox := later\<rparr>)"
      proof (rule extend_doc_ok [OF d _ ch, where ws = "if i = source then ws else []"])
        show "local_queue ?e' = local_queue e @ us" using lq True by simp
      qed (use acks seq True out CW e src in \<open>auto simp: ep_sequence_def simp del: upt_Suc\<close>)
      then show ?thesis using heap same True by (simp add: receives_def deliver_endpoint_queue(3))
    next
      case False
      then have ns: "i \<noteq> source" using e src by auto
      have "area_of (ls_origins (co_local c')) (ep_origin e) = area_of (ls_origins (co_local c)) (ep_origin e)"
        using B False os by (simp add: batch_effect_def Let_def area_of_def)
      then show ?thesis using heap False ns d out by (simp add: receives_def)
    qed
  next
    case False
    then have "co_local c' = co_local c"
      using B by (cases area) (simp_all add: batch_effect_def Let_def)
    moreover have "doc_ok (area_of (ls_origins (co_local c)) (ep_origin e)) ?e' d"
      using d lq seq False by (simp add: doc_ok_def Let_def del: upt_Suc)
    ultimately show ?thesis
      using heap d out False by (auto simp: deliver_endpoint_queue(3))
  qed
qed

lemma coord_apply_refused:
  assumes "coord_apply U J io source ws session c = (r, c', session', wakes)" "r \<noteq> Inr True"
  shows "c' = retain_live c \<and> session' = session \<and> wakes = []"
  using assms
  by (auto simp: coord_apply_def Let_def split: list.splits sum.splits bool.splits prod.splits)

lemma sys_invI:
  assumes "coord_wf (sy_coordinator s)" "\<And>t. areas_inv (ss_origins (sy_sessions s t))"
    and "\<And>i e. om_get (co_heap (sy_coordinator s)) i = Some e \<Longrightarrow> queue_ok e"
    and "\<And>i d. sy_documents s i = Some d \<Longrightarrow> \<exists>e. om_get (co_heap (sy_coordinator s)) i = Some e \<and>
          doc_ok (area_of (ls_origins (co_local (sy_coordinator s))) (ep_origin e)) e d"
  shows "sys_inv s"
  using assms by (simp add: sys_inv_def Let_def)

lemma sys_invD:
  assumes "sys_inv s"
  shows "coord_wf (sy_coordinator s)" "areas_inv (ss_origins (sy_sessions s t))"
    and "om_get (co_heap (sy_coordinator s)) i = Some e \<Longrightarrow> queue_ok e"
    and "sy_documents s i = Some d \<Longrightarrow> \<exists>e. om_get (co_heap (sy_coordinator s)) i = Some e \<and>
          doc_ok (area_of (ls_origins (co_local (sy_coordinator s))) (ep_origin e)) e d"
  using assms by (simp_all add: sys_inv_def Let_def)

text \<open>An accepted batch, for every document at once; \<open>later i d\<close> is what stays in an outbox.\<close>

lemma submitted_inv:
  assumes inv: "sys_inv s"
    and ap: "coord_apply U J io source (first # rest) (sy_sessions s t) (sy_coordinator s) = (Inr True, c, session, wakes)"
    and area: "area = mu_area (wr_mutation first)"
    and later: "\<And>i d. sy_documents s i = Some d \<Longrightarrow>
          if i = source \<and> area = Local then dc_outbox d = (first # rest) @ later i d else later i d = dc_outbox d"
  shows "sys_inv (s\<lparr>sy_coordinator := c, sy_sessions := (sy_sessions s)(t := session),
           sy_documents := (\<lambda>i. map_option (\<lambda>d. d\<lparr>dc_outbox := later i d\<rparr>) (sy_documents s i))\<rparr>)"
proof -
  note I = sys_invD [OF inv]
  have os: "areas_inv (area_origins area (sy_coordinator s) (sy_sessions s t))"
    using I(1,2) origins_areas_inv by (cases area) (auto simp: area_origins_def coord_wf_def)
  from ap I(1,2) show ?thesis
  proof (rule coord_apply_True)
    fix src n final r
    assume src: "om_get (co_heap (sy_coordinator s)) source = Some src"
      and cw: "check_writes U (mu_area (wr_mutation first)) (ep_origin src)
        (ep_sequence (mu_area (wr_mutation first)) src) (first # rest) = Inr n"
      and B: "batch_effect (mu_area (wr_mutation first)) source (first # rest) (sy_coordinator s) (sy_sessions s t)
        c session src n final r"
      and wf: "coord_wf c" "areas_inv (ss_origins session)"
    have "\<forall>i e. om_get (co_heap (sy_coordinator s)) i = Some e \<longrightarrow> queue_ok e" using I(3) by blast
    note queues = batch_queue_ok [OF B this]
    have docs: "\<exists>e'. om_get (co_heap c) i = Some e' \<and>
        doc_ok (area_of (ls_origins (co_local c)) (ep_origin e')) e' (d\<lparr>dc_outbox := later i d\<rparr>)"
      if "sy_documents s i = Some d" for i d
      using I(4) [OF that] batch_doc_ok [OF B cw src os [unfolded area]] later [OF that, unfolded area] by blast
    show ?thesis
      using queues docs wf I(2) by (intro sys_invI) (auto split: if_splits)
  qed
qed

lemma step_inv: "step U J s s' \<Longrightarrow> sys_inv s \<Longrightarrow> sys_inv s'"
proof (induction rule: step.induct)
  case (opened s u snapshot i c p)
  note I = sys_invD [OF opened.prems] and O = opened_ok [OF opened.hyps sys_invD(1) [OF opened.prems]]
  have "om_get (co_heap c) j = Some e \<Longrightarrow> queue_ok e" for j e
    using O(4) O(5) [of j] I(3) [of j e] by (cases "j = i") auto
  moreover have "\<exists>e. om_get (co_heap c) j = Some e \<and> doc_ok (area_of (ls_origins (co_local c)) (ep_origin e)) e d"
    if "sy_documents s j = Some d" for j d
    using I(4) [OF that] O(2,3) O(5) [of j] by (cases "j = i") auto
  ultimately show ?case
    using O(1,4) I(2) by (intro sys_invI) (auto split: if_splits)
next
  case (written s i d u operation w p)
  note I = sys_invD [OF written.prems]
  show ?case
    using I written_ok [OF written.hyps(2)] I(4) [OF written.hyps(1)]
    by (intro sys_invI) (auto split: if_splits)
next
  case (submitted s i d first rest later io t c session wakes)
  let ?later = "\<lambda>j d. if j = i then later else dc_outbox d"
  have "(\<lambda>j. map_option (\<lambda>d. d\<lparr>dc_outbox := ?later j d\<rparr>) (sy_documents s j)) = (sy_documents s)(i \<mapsto> d\<lparr>dc_outbox := later\<rparr>)"
    using submitted.hyps(1) by (auto simp: map_option_case split: option.splits)
  moreover have "sys_inv (s\<lparr>sy_coordinator := c, sy_sessions := (sy_sessions s)(t := session),
      sy_documents := (\<lambda>j. map_option (\<lambda>d. d\<lparr>dc_outbox := ?later j d\<rparr>) (sy_documents s j))\<rparr>)"
    by (rule submitted_inv [OF submitted.prems submitted.hyps(4) submitted.hyps(3) [symmetric]])
      (use submitted.hyps(1,2) in auto)
  ultimately show ?case by simp
next
  case (session_submitted s i d first io rest t c session wakes)
  have "(\<lambda>j. map_option (\<lambda>d. d\<lparr>dc_outbox := dc_outbox d\<rparr>) (sy_documents s j)) = sy_documents s"
    by (auto simp: map_option_case split: option.splits)
  then show ?case
    using submitted_inv [OF session_submitted.prems session_submitted.hyps(3) session_submitted.hyps(2) [symmetric],
      of "\<lambda>_. dc_outbox"] by simp
next
  case (refused io i ws s t r c session wakes)
  then have c: "c = retain_live (sy_coordinator s)" "session = sy_sessions s t"
    using coord_apply_refused [OF refused.hyps] by simp_all
  show ?case
    using sys_invD [OF refused.prems] retain_live_wf by (intro sys_invI) (auto simp: c)
next
  case (received s i d e accepts u e' p)
  note I = sys_invD [OF received.prems]
  have ok: "doc_ok (area_of (ls_origins (co_local (sy_coordinator s))) (ep_origin e)) e d"
    using I(4) [OF received.hyps(1)] received.hyps(2) by auto
  note R = received_ok [OF ok received.hyps(3) I(3) [OF received.hyps(2)]]
  have "coord_wf ((sy_coordinator s)\<lparr>co_heap := om_insert i e' (co_heap (sy_coordinator s))\<rparr>)"
    using I(1) received.hyps(2) by (auto simp: coord_wf_def)
  then show ?case
    using I R(1,2) R(4) [OF received.hyps(4)] by (intro sys_invI) (auto split: if_splits)
next
  case (closed s i)
  note I = sys_invD [OF closed.prems]
  have "coord_wf (drop_subscription i (sy_coordinator s))"
    using I(1) by (auto simp: coord_wf_def drop_subscription_def)
  then show ?case
    using I by (intro sys_invI) (auto simp: drop_subscription_def coord_wf_def split: if_splits)
qed

lemma reachable_inv:
  assumes "reachable U J ls s" "origins_inv (ls_origins ls)" shows "sys_inv s"
  using assms
proof (induction rule: reachable.induct)
  case start
  then show ?case
    by (intro sys_invI) (auto simp: system_start_def coordinator_new_def coord_wf_def areas_inv_def)
next
  case (step s s')
  then show ?case using step_inv by blast
qed

text \<open>A document whose queue and outbox are empty sees exactly the authority's area.\<close>

lemma quiescent_doc:
  assumes "doc_ok authority e d" "local_queue e = []" "dc_outbox d = []"
  shows "pj_visible (dc_projection d) = authority" "pj_pending (dc_projection d) = []"
proof -
  let ?p = "dc_projection d"
  have D: "proj_inv ?p" "pj_base ?p = authority" "pj_pending ?p = [] \<longrightarrow> pj_visible ?p = pj_base ?p"
      "queue_acks [] = [pj_acknowledged ?p + 1..<ep_local_sequence e + 1]" "ep_local_sequence e \<le> pj_last_sequence ?p"
      "[] = [ep_local_sequence e + 1..<pj_last_sequence ?p + 1]"
    using assms by (simp_all add: doc_ok_def Let_def del: upt_Suc)
  have "pj_last_sequence ?p \<le> pj_acknowledged ?p"
    using D(4,6) [THEN arg_cong, of length] by (simp add: queue_acks_def del: upt_Suc)
  then show "pj_pending ?p = []" using D(1) by (simp add: proj_inv_def)
  then show "pj_visible ?p = authority" using D(2,3) by simp
qed

section \<open>Properties\<close>

text \<open>C1: in every state the storage system can reach, a document whose queue holds no local update and whose
  outbox is empty has no pending write and sees exactly the authority's area for its origin: same version,
  same entries. Documents of one origin therefore agree whenever the system is quiet.\<close>

theorem storage_converges:
  assumes "reachable U J ls s" "origins_inv (ls_origins ls)" "sy_documents s i = Some d"
    and "om_get (co_heap (sy_coordinator s)) i = Some e" "local_queue e = []" "dc_outbox d = []"
  shows "pj_visible (dc_projection d) = area_of (ls_origins (co_local (sy_coordinator s))) (ep_origin e) \<and>
         pj_pending (dc_projection d) = []"
proof -
  have "doc_ok (area_of (ls_origins (co_local (sy_coordinator s))) (ep_origin e)) e d"
    using sys_invD(4) [OF reachable_inv [OF assms(1,2)] assms(3)] assms(4) by auto
  from quiescent_doc [OF this assms(5,6)] show ?thesis by simp
qed

text \<open>C10: in every reachable state the update at the front of a document's queue is accepted by its projection:
  no acknowledgement or broadcast ever arrives out of order, with a wrong old value, or over quota.\<close>

theorem recipient_accepts_front_update:
  assumes "reachable U J ls s" "origins_inv (ls_origins ls)" "sy_documents s i = Some d"
    and "om_get (co_heap (sy_coordinator s)) i = Some e" "take_if accepts e = (Some u, e')" "up_area u = Local"
  shows "\<exists>p. projection_apply (dc_projection d) u = Inr p"
proof -
  note inv = reachable_inv [OF assms(1,2)]
  have "doc_ok (area_of (ls_origins (co_local (sy_coordinator s))) (ep_origin e)) e d"
    using sys_invD(4) [OF inv assms(3)] assms(4) by auto
  from received_ok(3) [OF this assms(5) sys_invD(3) [OF inv assms(4)] assms(6)] show ?thesis .
qed

text \<open>C11: the queue of every live subscription holds at most 4096 updates and 32 MiB, and its byte counter is the
  exact size of what it holds.\<close>

theorem delivery_queues_are_bounded:
  assumes "reachable U J ls s" "origins_inv (ls_origins ls)" "om_get (co_heap (sy_coordinator s)) i = Some e"
  shows "length (ep_queue e) \<le> 4096 \<and> ep_bytes e = queue_bytes (ep_queue e) \<and> ep_bytes e \<le> 32 * 1024 * 1024"
  using sys_invD(3) [OF reachable_inv [OF assms(1,2)] assms(3)] by (simp add: queue_ok_def limit_simps)

section \<open>A run\<close>

definition run_write :: storage_write where
  "run_write = \<lparr>wr_sequence = 1, wr_source_url = ''https://a.example/'',
     wr_mutation = \<lparr>mu_area = Local, mu_expected_version = 1, mu_operation = Set [98] [50, 50]\<rparr>\<rparr>"

definition run_endpoint :: endpoint where
  "run_endpoint = \<lparr>ep_origin = ''https://a.example'', ep_queue = [], ep_bytes = 0, ep_local_sequence = 0,
     ep_session_sequence = 0, ep_wake = False, ep_error = None\<rparr>"

definition run_coordinator :: coordinator where
  "run_coordinator = \<lparr>co_local = local_in_memory, co_endpoints = [0], co_heap = [(0, run_endpoint)], co_next = 1\<rparr>"

definition run_area :: storage_area where
  "run_area = \<lparr>ar_version = 2, ar_entries = [([98], [50, 50])]\<rparr>"

definition run_update :: storage_update where
  "run_update = \<lparr>up_area = Local, up_version = 2, up_acknowledgement = 1,
     up_change = Some \<lparr>ch_version = 2, ch_key = Some [98], ch_old_value = None, ch_new_value = Some [50, 50]\<rparr>,
     up_source_url = ''https://a.example/''\<rparr>"

lemma run_subscribe: "subscribe sample_crate (coordinator_new local_in_memory) ''https://a.example/'' =
    (Inr (snapshot_empty, 0), run_coordinator)"
  by (simp add: subscribe_def coordinator_new_def local_in_memory_def retain_live_def local_snapshot_def
      origin_snapshot_def run_coordinator_def run_endpoint_def)

lemma run_snapshot: "projection_from_snapshot snapshot_empty = Inr (projection_of area_default)"
  by (simp add: projection_from_snapshot_def snapshot_empty_def area_from_snapshot_def snapshot_validate_def
      area_default_def om_collect_def)

lemma run_applies: "area_apply area_default (wr_mutation run_write) = Inr (True, run_area)"
  by (simp add: run_write_def area_default_def area_eval run_area_def)

lemma run_write_applies: "\<exists>p. projection_write (projection_of area_default) Local ''https://a.example/'' (Set [98] [50, 50])
    = Inr (Some run_write, p)"
  by (simp add: projection_write_def projection_of_def run_write_def area_default_def area_eval write_validate_def
      mutation_byte_len_def)

lemma run_admit: "admit sample_crate 0 run_write [run_write] session run_coordinator =
    Inr (''https://a.example'', 1, area_default)"
  by (simp add: admit_def run_coordinator_def run_endpoint_def ep_sequence_def write_validate_def run_write_def
      area_eval local_snapshot_def local_in_memory_def origin_snapshot_def snapshot_empty_def area_from_snapshot_def
      snapshot_validate_def area_default_def om_collect_def)

lemma run_preflight: "preflight [run_write] area_default =
    ([wr_mutation run_write], [up_change run_update], run_area, None)"
proof -
  have "(wr_mutation run_write)\<lparr>mu_expected_version := ar_version area_default\<rparr> = wr_mutation run_write"
    by (simp add: run_write_def area_default_def)
  then show ?thesis
    using run_applies
    by (simp add: Let_def run_update_def)
      (simp add: run_write_def run_area_def change_before_def area_default_def area_get_def)
qed

lemma run_batch: "apply_batch sample_crate sample_json io local_in_memory ''https://a.example/'' [wr_mutation run_write] =
    (Inr True, \<lparr>ls_origins = [(''https://a.example'', run_area)], ls_files = None\<rparr>)"
proof -
  have "mu_area (wr_mutation run_write) = Local" by (simp add: run_write_def)
  moreover have "apply_to_origin [] ''https://a.example'' (wr_mutation run_write) =
      Inr (True, [(''https://a.example'', run_area)])"
    using run_applies by (simp add: apply_to_origin_def limit_simps)
  ultimately show ?thesis
    by (simp add: apply_batch_def transact_def local_in_memory_def persist_change_def Let_def)
qed

definition run_endpoint1 :: endpoint where
  "run_endpoint1 = run_endpoint\<lparr>ep_queue := [run_update], ep_bytes := update_byte_len run_update,
     ep_local_sequence := 1\<rparr>"

definition run_coordinator1 :: coordinator where
  "run_coordinator1 = run_coordinator\<lparr>co_local := \<lparr>ls_origins = [(''https://a.example'', run_area)], ls_files = None\<rparr>,
     co_heap := [(0, run_endpoint1)]\<rparr>"

lemma run_updates: "make_updates Local True (Suc 0) [(run_write, up_change run_update)] = [run_update]"
  by (simp add: run_update_def run_write_def)

lemma run_submit: "coord_apply sample_crate sample_json io 0 [run_write] session run_coordinator =
    (Inr True, run_coordinator1, session, [])"
proof -
  have live: "retain_live run_coordinator = run_coordinator"
    by (simp add: retain_live_def run_coordinator_def om_contains_def)
  have targets: "delivery_targets (co_heap run_coordinator) 0 Local ''https://a.example'' (co_endpoints run_coordinator) = [0]"
    by (simp add: delivery_targets_def run_coordinator_def)
  have size: "queue_bytes [run_update] = update_byte_len run_update" "update_byte_len run_update = 21"
    by (simp_all add: queue_bytes_def run_update_def update_byte_len_def change_byte_len_def opt_bytes_def byte_len_def
        quota_bytes_def)
  have room: "reserve (co_heap run_coordinator) (\<lambda>i. make_updates Local (i = 0) (ar_version area_default)
      (zip [run_write] [up_change run_update])) [0] = Inr True"
    by (simp add: run_coordinator_def run_endpoint_def size run_updates area_default_def limit_simps del: make_updates.simps)
  have area: "mu_area (wr_mutation run_write) = Local" "wr_source_url run_write = ''https://a.example/''"
    by (simp_all add: run_write_def)
  have store: "co_local run_coordinator = local_in_memory" by (simp add: run_coordinator_def)
  show ?thesis
    using run_admit [of session] run_preflight room run_batch [of io]
    by (simp add: coord_apply_def live targets area Let_def commit_def store run_updates size
        del: preflight.simps reserve.simps make_updates.simps)
      (simp add: run_coordinator_def run_coordinator1_def run_endpoint1_def run_endpoint_def deliver_endpoint_def
        set_ep_sequence_def run_updates size Let_def area_default_def del: make_updates.simps)
qed

text \<open>One document opens, writes, submits and receives its own acknowledgement.\<close>

definition run_projection :: storage_projection where
  "run_projection = snd (projr (projection_write (projection_of area_default) Local ''https://a.example/'' (Set [98] [50, 50])))"

lemma run_pending: "reachable sample_crate sample_json local_in_memory
    \<lparr>sy_coordinator = run_coordinator1,
     sy_documents = [0 \<mapsto> \<lparr>dc_projection = run_projection, dc_outbox = []\<rparr>], sy_sessions = (\<lambda>_. \<lparr>ss_origins = []\<rparr>)\<rparr>"
proof -
  let ?U = sample_crate and ?J = sample_json and ?S = "\<lambda>_::nat. \<lparr>ss_origins = []\<rparr> :: session_storage"
  let ?s1 = "\<lparr>sy_coordinator = run_coordinator,
     sy_documents = [0 \<mapsto> \<lparr>dc_projection = projection_of area_default, dc_outbox = []\<rparr>], sy_sessions = ?S\<rparr>"
  let ?s2 = "\<lparr>sy_coordinator = run_coordinator,
     sy_documents = [0 \<mapsto> \<lparr>dc_projection = run_projection, dc_outbox = [run_write]\<rparr>], sy_sessions = ?S\<rparr>"
  have "step ?U ?J (system_start local_in_memory) ?s1"
    using step.opened [of ?U "system_start local_in_memory" "''https://a.example/''" snapshot_empty 0 run_coordinator]
      run_subscribe run_snapshot by (simp add: system_start_def)
  then have r1: "reachable ?U ?J local_in_memory ?s1"
    using reachable.start reachable.step by blast
  have w: "projection_write (projection_of area_default) Local ''https://a.example/'' (Set [98] [50, 50]) =
      Inr (Some run_write, run_projection)"
    using run_write_applies by (auto simp: run_projection_def)
  have "step ?U ?J ?s1 ?s2"
    using step.written [of ?s1 0 "\<lparr>dc_projection = projection_of area_default, dc_outbox = []\<rparr>"
        "''https://a.example/''" "Set [98] [50, 50]" "Some run_write" run_projection ?U ?J] w by simp
  then have r2: "reachable ?U ?J local_in_memory ?s2"
    using r1 reachable.step by blast
  have "step ?U ?J ?s2 \<lparr>sy_coordinator = run_coordinator1,
     sy_documents = [0 \<mapsto> \<lparr>dc_projection = run_projection, dc_outbox = []\<rparr>], sy_sessions = ?S\<rparr>"
    using step.submitted [of ?s2 0 "\<lparr>dc_projection = run_projection, dc_outbox = [run_write]\<rparr>" run_write "[]" "[]"
        ?U ?J io_ok 0 run_coordinator1 "\<lparr>ss_origins = []\<rparr>" "[]"] run_submit
    by (simp add: run_write_def fun_upd_idem)
  then show ?thesis using r2 reachable.step by blast
qed

theorem recipient_accepts_front_update_witness: "\<exists>p. projection_apply run_projection run_update = Inr p"
proof -
  have "up_area run_update = Local" by (simp add: run_update_def)
  then show ?thesis
    using recipient_accepts_front_update [OF run_pending, of 0 _ run_endpoint1 "\<lambda>_. True" run_update]
    by (force simp: local_in_memory_def origins_inv_def run_coordinator1_def take_if_def run_endpoint1_def)
qed

theorem delivery_queues_are_bounded_witness:
  "length (ep_queue run_endpoint1) \<le> 4096 \<and> ep_bytes run_endpoint1 = queue_bytes (ep_queue run_endpoint1)"
  using delivery_queues_are_bounded [OF run_pending, of 0 run_endpoint1]
  by (simp add: local_in_memory_def origins_inv_def run_coordinator1_def)

theorem storage_converges_witness:
  "\<exists>s d. reachable sample_crate sample_json local_in_memory s \<and> sy_documents s 0 = Some d \<and>
     pj_visible (dc_projection d) = run_area"
proof -
  let ?s = "\<lparr>sy_coordinator = run_coordinator1,
     sy_documents = [0 \<mapsto> \<lparr>dc_projection = run_projection, dc_outbox = []\<rparr>], sy_sessions = (\<lambda>_. \<lparr>ss_origins = []\<rparr>)\<rparr>"
  let ?e' = "run_endpoint1\<lparr>ep_queue := [], ep_bytes := 0\<rparr>"
  have inv: "origins_inv (ls_origins local_in_memory)" by (simp add: local_in_memory_def origins_inv_def)
  have take: "take_if (\<lambda>_. True) run_endpoint1 = (Some run_update, ?e')"
    by (simp add: take_if_def run_endpoint1_def)
  have at: "om_get (co_heap (sy_coordinator ?s)) 0 = Some run_endpoint1"
    by (simp add: run_coordinator1_def)
  have loc: "up_area run_update = Local" by (simp add: run_update_def)
  have "doc_ok (area_of (ls_origins (co_local run_coordinator1)) (ep_origin run_endpoint1)) run_endpoint1
      \<lparr>dc_projection = run_projection, dc_outbox = []\<rparr>"
    using sys_invD(4) [OF reachable_inv [OF run_pending inv], of 0] at by simp
  from received_ok(3) [OF this take] obtain p where p: "projection_apply run_projection run_update = Inr p"
    using sys_invD(3) [OF reachable_inv [OF run_pending inv] at] loc by auto
  let ?s' = "?s\<lparr>sy_coordinator := run_coordinator1\<lparr>co_heap := [(0, ?e')]\<rparr>,
    sy_documents := [0 \<mapsto> \<lparr>dc_projection = p, dc_outbox = []\<rparr>]\<rparr>"
  have "step sample_crate sample_json ?s ?s'"
    using step.received [of ?s 0 "\<lparr>dc_projection = run_projection, dc_outbox = []\<rparr>" run_endpoint1 "\<lambda>_. True" run_update ?e' p]
      take at loc p by (simp add: run_coordinator1_def)
  then have r: "reachable sample_crate sample_json local_in_memory ?s'"
    using run_pending reachable.step by blast
  have "pj_visible p = run_area"
    using storage_converges [OF r inv, of 0 "\<lparr>dc_projection = p, dc_outbox = []\<rparr>" ?e']
    by (simp add: run_coordinator1_def run_endpoint1_def run_endpoint_def local_queue_def area_of_def)
  with r show ?thesis by (intro exI [of _ ?s'] exI [of _ "\<lparr>dc_projection = p, dc_outbox = []\<rparr>"]) simp
qed

text \<open>An accepted batch of local writes is all or nothing and the source is told which: with no error reported the
  authority's area is the one the dry run computed for the whole batch; with an error reported the authority's
  origins are unchanged. Either way every write of the batch is acknowledged once, in order.\<close>

theorem accepted_batch_is_atomic:
  assumes "coord_apply U J io source (first # rest) session c = (Inr True, c', session', wakes)"
    and "coord_wf c" "areas_inv (ss_origins session)" "mu_area (wr_mutation first) = Local"
  shows "\<exists>src src' us. om_get (co_heap c) source = Some src \<and> om_get (co_heap c') source = Some src' \<and>
     ep_queue src' = ep_queue src @ us \<and> map up_acknowledgement us = map wr_sequence (first # rest) \<and>
     (if ep_error src' = None
      then \<exists>ms cs. preflight (first # rest) (area_of (ls_origins (co_local c)) (ep_origin src)) =
             (ms, cs, area_of (ls_origins (co_local c')) (ep_origin src), None)
      else ls_origins (co_local c') = ls_origins (co_local c))"
  using assms(1-3)
proof (rule coord_apply_True)
  fix src n final r
  assume src: "om_get (co_heap c) source = Some src"
    and B: "batch_effect (mu_area (wr_mutation first)) source (first # rest) c session c' session' src n final r"
  let ?us = "make_updates Local True (ar_version (area_of (ls_origins (co_local c)) (ep_origin src))) (zip (first # rest) final)"
  let ?e = "deliver_endpoint True Local n r ?us src"
  have "om_get (co_heap c') source = Some ?e" "length final = length (first # rest)"
    and "if r = None then \<exists>ms cs. preflight (first # rest) (area_of (ls_origins (co_local c)) (ep_origin src)) =
             (ms, cs, area_of (ls_origins (co_local c')) (ep_origin src), None)
         else ls_origins (co_local c') = ls_origins (co_local c)"
    using B src assms(4) by (auto simp: batch_effect_def Let_def receives_def area_origins_def
        simp del: preflight.simps make_updates.simps split: if_splits)
  moreover have "ep_error ?e = r" by (simp add: deliver_endpoint_def Let_def)
  ultimately show ?thesis
    using src make_updates_acks [of final "first # rest" Local True]
    by (intro exI [of _ src] exI [of _ ?e] exI [of _ ?us]) (simp add: deliver_endpoint_queue(1) del: preflight.simps)
qed

theorem accepted_batch_is_atomic_witness:
  "\<exists>src' us. om_get (co_heap run_coordinator1) 0 = Some src' \<and> ep_queue src' = us \<and>
     map up_acknowledgement us = [1]"
proof -
  have "coord_wf run_coordinator"
    by (simp add: coord_wf_def run_coordinator_def om_wf_def local_in_memory_def origins_inv_def)
  moreover have "areas_inv (ss_origins \<lparr>ss_origins = []\<rparr>)" "mu_area (wr_mutation run_write) = Local"
    by (simp_all add: areas_inv_def run_write_def)
  ultimately obtain src src' us where "om_get (co_heap run_coordinator) 0 = Some src"
      "om_get (co_heap run_coordinator1) 0 = Some src'"
      "ep_queue src' = ep_queue src @ us" "map up_acknowledgement us = map wr_sequence [run_write]"
    using accepted_batch_is_atomic [OF run_submit [of io_ok "\<lparr>ss_origins = []\<rparr>"]] by blast
  then show ?thesis by (auto simp: run_coordinator_def run_endpoint_def run_write_def)
qed

text \<open>A batch that is refused, or asked to wait for a full recipient, leaves both stores, every queue and every
  sequence number as they were and wakes nobody; only dead weak references may have been dropped.\<close>

theorem refused_batch_changes_nothing:
  assumes "coord_apply U J io source ws session c = (r, c', session', wakes)" "r \<noteq> Inr True"
  shows "co_local c' = co_local c \<and> co_heap c' = co_heap c \<and> session' = session \<and> wakes = [] \<and>
    set (co_endpoints c') = {i \<in> set (co_endpoints c). om_get (co_heap c) i \<noteq> None}"
  using coord_apply_refused [OF assms] by (auto simp: retain_live_def om_contains_def)

theorem refused_batch_changes_nothing_witness:
  "co_heap (fst (snd (coord_apply sample_crate sample_json io_ok 5 [run_write] \<lparr>ss_origins = []\<rparr> run_coordinator))) =
     co_heap run_coordinator"
proof -
  have "coord_apply sample_crate sample_json io_ok 5 [run_write] \<lparr>ss_origins = []\<rparr> run_coordinator =
      (Inl (Invalid ''retired storage source''), run_coordinator, \<lparr>ss_origins = []\<rparr>, [])"
    by (simp add: coord_apply_def admit_def run_coordinator_def retain_live_def om_contains_def)
  from refused_batch_changes_nothing [OF this] this show ?thesis by simp
qed

end
