(* ===== verification/Float64.thy ===== *)
theory Float64
  imports Prelude "HOL-Library.Word"
begin

unbundle bit_operations_syntax

text \<open>
  The operations on \<^verbatim>\<open>f64\<close> the stores use, on the IEEE 754 bit pattern: finiteness, \<^verbatim>\<open>==\<close> and \<^verbatim>\<open>>=\<close>,
  \<^verbatim>\<open>f64::total_cmp\<close>, the conversion \<^verbatim>\<open>u64 as f64\<close> (round to nearest, ties to even) and \<^verbatim>\<open>floor() as u64\<close>.
\<close>

type_synonym f64 = "64 word"

definition f64_negative :: "f64 \<Rightarrow> bool" where "f64_negative w \<longleftrightarrow> bit w 63"
definition f64_exponent :: "f64 \<Rightarrow> nat" where "f64_exponent w = unat (take_bit 11 (drop_bit 52 w))"
definition f64_fraction :: "f64 \<Rightarrow> nat" where "f64_fraction w = unat (take_bit 52 w)"

definition is_finite :: "f64 \<Rightarrow> bool" where "is_finite w \<longleftrightarrow> f64_exponent w \<noteq> 2047"
definition is_nan :: "f64 \<Rightarrow> bool" where "is_nan w \<longleftrightarrow> f64_exponent w = 2047 \<and> f64_fraction w \<noteq> 0"

text \<open>Both zeros: every bit but the sign is clear.\<close>

definition is_zero :: "f64 \<Rightarrow> bool" where "is_zero w \<longleftrightarrow> w = 0 \<or> w = 0x8000000000000000"

text \<open>\<^verbatim>\<open>total_cmp\<close> compares the patterns as signed integers after flipping the other bits of a negative one.\<close>

definition total_key :: "f64 \<Rightarrow> int" where
  "total_key w = sint (if f64_negative w then w XOR 0x7fffffffffffffff else w)"

definition f64_total_cmp :: "f64 \<Rightarrow> f64 \<Rightarrow> ordering" where
  "f64_total_cmp a b = lin_cmp (total_key a) (total_key b)"

definition f64_eq :: "f64 \<Rightarrow> f64 \<Rightarrow> bool" where
  "f64_eq a b \<longleftrightarrow> \<not> is_nan a \<and> \<not> is_nan b \<and> (a = b \<or> is_zero a \<and> is_zero b)"

definition f64_ge :: "f64 \<Rightarrow> f64 \<Rightarrow> bool" where
  "f64_ge a b \<longleftrightarrow> \<not> is_nan a \<and> \<not> is_nan b \<and> (is_zero a \<and> is_zero b \<or> f64_total_cmp a b \<noteq> Less)"

definition f64_lt :: "f64 \<Rightarrow> f64 \<Rightarrow> bool" where
  "f64_lt a b \<longleftrightarrow> \<not> is_nan a \<and> \<not> is_nan b \<and> \<not> (is_zero a \<and> is_zero b) \<and> f64_total_cmp a b = Less"

definition f64_make :: "nat \<Rightarrow> nat \<Rightarrow> f64" where
  "f64_make e f = of_nat (e * 2 ^ 52 + f)"

fun bit_length :: "nat \<Rightarrow> nat" where
  "bit_length n = (if n = 0 then 0 else Suc (bit_length (n div 2)))"

definition f64_of_u64 :: "nat \<Rightarrow> f64" where
  "f64_of_u64 n =
     (if n = 0 then 0
      else let k = bit_length n - 1
           in if k \<le> 52 then f64_make (k + 1023) (n * 2 ^ (52 - k) - 2 ^ 52)
              else let s = k - 52; q = n div 2 ^ s; r = n mod 2 ^ s; half = 2 ^ (s - 1);
                       q' = (if r > half \<or> r = half \<and> odd q then q + 1 else q)
                   in if q' = 2 ^ 53 then f64_make (k + 1 + 1023) 0 else f64_make (k + 1023) (q' - 2 ^ 52))"

text \<open>\<^verbatim>\<open>x.floor() as u64\<close>: the cast saturates, so negative values and NaN give 0.\<close>

definition f64_floor_u64 :: "f64 \<Rightarrow> nat" where
  "f64_floor_u64 w =
     (let e = f64_exponent w; m = 2 ^ 52 + f64_fraction w
      in if is_nan w \<or> f64_negative w \<or> e < 1023 then 0
         else if e \<ge> 1023 + 64 then u64_max
         else if e \<ge> 1075 then m * 2 ^ (e - 1075) else m div 2 ^ (1075 - e))"

definition two_pow_53 :: f64 where "two_pow_53 = 0x4340000000000000"

section \<open>Facts\<close>

declare bit_length.simps [simp del]

lemma bit_length_bounds: "n \<noteq> 0 \<Longrightarrow> 2 ^ (bit_length n - 1) \<le> n \<and> n < 2 ^ bit_length n \<and> bit_length n \<noteq> 0"
proof (induction n rule: bit_length.induct)
  case (1 n)
  show ?case
  proof (cases "n div 2 = 0")
    case True
    then have "n = 1" using "1.prems" by linarith
    then show ?thesis by (simp add: bit_length.simps [of "Suc 0"] bit_length.simps [of 0])
  next
    case False
    have IH: "2 ^ (bit_length (n div 2) - 1) \<le> n div 2" "n div 2 < 2 ^ bit_length (n div 2)" "bit_length (n div 2) \<noteq> 0"
      using "1.IH" "1.prems" False by auto
    obtain k where k: "bit_length (n div 2) = Suc k" using IH(3) not0_implies_Suc by blast
    have "bit_length n = Suc (Suc k)" using "1.prems" k by (simp add: bit_length.simps [of n])
    moreover have "2 ^ Suc k \<le> n" using IH(1) k by simp
    moreover have "n < 2 ^ Suc (Suc k)" using IH(2) k by simp
    ultimately show ?thesis by simp
  qed
qed

lemma f64_make_fields:
  assumes "e < 2048" "f < 2 ^ 52"
  shows "f64_exponent (f64_make e f) = e" "f64_fraction (f64_make e f) = f"
    and "f64_negative (f64_make e f) = False" "total_key (f64_make e f) = int (e * 2 ^ 52 + f)"
proof -
  let ?n = "e * 2 ^ 52 + f"
  have lt: "?n < 2 ^ 63" using assms by simp
  then have t: "take_bit 64 ?n = ?n" by (simp add: take_bit_nat_eq_self)
  have u: "unat (f64_make e f) = ?n"
    unfolding f64_make_def unat_of_nat using lt by (simp del: of_nat_add of_nat_mult)
  have "unat (take_bit 11 (drop_bit 52 (f64_make e f))) = take_bit 11 (drop_bit 52 ?n)"
    by (simp add: unsigned_take_bit_eq unsigned_drop_bit_eq u t [simplified])
  also have "\<dots> = e"
    using assms by (simp add: drop_bit_eq_div take_bit_eq_mod)
  finally show "f64_exponent (f64_make e f) = e" by (simp add: f64_exponent_def)
  have "unat (take_bit 52 (f64_make e f)) = take_bit 52 ?n"
    by (simp add: unsigned_take_bit_eq u)
  also have "\<dots> = f" using assms by (simp add: take_bit_eq_mod)
  finally show "f64_fraction (f64_make e f) = f" by (simp add: f64_fraction_def)
  have "\<not> bit ?n 63" using lt by (simp add: bit_iff_odd)
  then show n: "f64_negative (f64_make e f) = False"
    unfolding f64_negative_def u [symmetric] by (simp add: bit_unsigned_iff)
  have "uint (f64_make e f) = int ?n" using u by (simp add: uint_nat)
  then have "sint (f64_make e f) = int ?n"
    using lt by (simp add: sint_uint signed_take_bit_int_eq_self)
  then show "total_key (f64_make e f) = int ?n" by (simp add: total_key_def n)
qed

lemma f64_make_fields_inverse:
  assumes "\<not> f64_negative w" shows "w = f64_make (f64_exponent w) (f64_fraction w)"
    and "f64_exponent w < 2048" "f64_fraction w < 2 ^ 52"
proof -
  have "\<not> bit (unat w) 63" using assms by (simp add: f64_negative_def bit_unsigned_iff)
  moreover have "unat w < 2 ^ 64" by (rule order_less_le_trans [OF unsigned_less]) simp
  then have "unat w div 2 ^ 63 < 2" by (simp add: less_mult_imp_div_less)
  ultimately have "unat w div 2 ^ 63 = 0" by (auto simp: bit_iff_odd less_2_cases_iff)
  then have lt: "unat w < 2 ^ 63" by (simp add: div_eq_0_iff)
  have e: "f64_exponent w = unat w div 2 ^ 52"
  proof -
    have "take_bit 64 (unat w) = unat w" using lt by (simp add: take_bit_nat_eq_self)
    then have "f64_exponent w = take_bit 11 (drop_bit 52 (unat w))"
      unfolding f64_exponent_def by (simp only: unsigned_take_bit_eq) (simp add: unsigned_drop_bit_eq)
    also have "\<dots> = unat w div 2 ^ 52"
      using lt by (simp add: drop_bit_eq_div take_bit_nat_eq_self less_mult_imp_div_less)
    finally show ?thesis .
  qed
  have f: "f64_fraction w = unat w mod 2 ^ 52"
    unfolding f64_fraction_def by (simp only: unsigned_take_bit_eq) (simp add: take_bit_eq_mod)
  show "w = f64_make (f64_exponent w) (f64_fraction w)"
    unfolding f64_make_def e f div_mult_mod_eq by simp
  show "f64_exponent w < 2048" using lt by (simp add: e less_mult_imp_div_less)
  show "f64_fraction w < 2 ^ 52" by (simp add: f)
qed

lemma f64_of_u64_exact:
  assumes "0 < n" "n \<le> 2 ^ 53"
  obtains k f where "f64_of_u64 n = f64_make (k + 1023) f" "k \<le> 53" "f < 2 ^ 52"
    and "2 ^ k \<le> n" "n < 2 ^ (k + 1)" "(2 ^ 52 + f) * 2 ^ k = n * 2 ^ 52"
proof (cases "n = 2 ^ 53")
  case True
  have b: "bit_length n = 54"
  proof -
    have "2 ^ (bit_length n - 1) \<le> n" "n < 2 ^ bit_length n" "bit_length n \<noteq> 0"
      using bit_length_bounds [of n] assms(1) by auto
    then have "bit_length n - 1 \<le> 53" "53 < bit_length n"
      unfolding True by (metis one_less_numeral_iff power_le_imp_le_exp semiring_norm(76),
          metis one_less_numeral_iff power_less_imp_less_exp semiring_norm(76))
    then show ?thesis by simp
  qed
  have "bit_length 9007199254740992 = 54" using b by (simp add: True)
  then have "f64_of_u64 9007199254740992 = f64_make (53 + 1023) 0"
    by (simp add: f64_of_u64_def Let_def)
  then have "f64_of_u64 n = f64_make (53 + 1023) 0" by (simp add: True)
  then show thesis using True by (intro that [of 53 0]) simp_all
next
  case False
  define k where "k = bit_length n - 1"
  have B: "2 ^ k \<le> n" "n < 2 ^ (k + 1)"
    using bit_length_bounds [of n] assms(1) by (auto simp: k_def)
  have "2 ^ k < (2 :: nat) ^ 53" using B(1) assms(2) False by linarith
  then have k: "k \<le> 52" using power_less_imp_less_exp [of "2 :: nat" k 53] by simp
  have p: "(2 :: nat) ^ 52 = 2 ^ k * 2 ^ (52 - k)" using k by (simp flip: power_add)
  have lo: "2 ^ 52 \<le> n * 2 ^ (52 - k)" unfolding p using B(1) by simp
  have "n * 2 ^ (52 - k) < 2 ^ (k + 1) * 2 ^ (52 - k)" using B(2) by simp
  also have "\<dots> = 2 ^ 53" using p by simp
  finally have hi: "n * 2 ^ (52 - k) < 2 ^ 53" .
  have eq: "f64_of_u64 n = f64_make (k + 1023) (n * 2 ^ (52 - k) - 2 ^ 52)"
    using assms(1) k by (simp add: f64_of_u64_def Let_def k_def)
  have "(2 ^ 52 + (n * 2 ^ (52 - k) - 2 ^ 52)) * 2 ^ k = n * 2 ^ 52"
    using lo p by (simp add: mult.assoc mult.commute)
  then show thesis
    using eq k B lo hi by (intro that [of k "n * 2 ^ (52 - k) - 2 ^ 52"]) simp_all
qed

text \<open>Up to \<^verbatim>\<open>2^53\<close> the conversion is exact: taking the floor gives the integer back.\<close>

lemma f64_floor_of_u64:
  assumes "0 < n" "n \<le> 2 ^ 53" shows "f64_floor_u64 (f64_of_u64 n) = n"
  using assms
proof (rule f64_of_u64_exact)
  fix k f assume A: "f64_of_u64 n = f64_make (k + 1023) f" "k \<le> 53" "f < 2 ^ 52" "(2 ^ 52 + f) * 2 ^ k = n * 2 ^ 52"
  have F: "f64_exponent (f64_of_u64 n) = k + 1023" "f64_fraction (f64_of_u64 n) = f" "\<not> f64_negative (f64_of_u64 n)"
    using f64_make_fields [of "k + 1023" f] A by simp_all
  have nan: "\<not> is_nan (f64_of_u64 n)" using A(2) F(1) by (simp add: is_nan_def)
  show ?thesis
  proof (cases "k \<ge> 52")
    case True
    then have "(2 :: nat) ^ k = 2 ^ (k - 52) * 2 ^ 52" by (metis le_add_diff_inverse2 power_add)
    then have "(2 ^ 52 + f) * 2 ^ (k - 52) * 2 ^ 52 = n * 2 ^ 52"
      using A(4) by (simp only: mult.assoc)
    then have "(2 ^ 52 + f) * 2 ^ (k - 52) = n" by simp
    then show ?thesis using True A(2) F nan by (simp add: f64_floor_u64_def Let_def)
  next
    case False
    then have "(2 :: nat) ^ 52 = 2 ^ (52 - k) * 2 ^ k" by (metis le_add_diff_inverse2 nat_le_linear power_add)
    then have "(2 ^ 52 + f) * 2 ^ k = (n * 2 ^ (52 - k)) * 2 ^ k"
      using A(4) by (simp only: mult.assoc)
    then have "2 ^ 52 + f = n * 2 ^ (52 - k)" by simp
    then have "(2 ^ 52 + f) div 2 ^ (52 - k) = n" by simp
    moreover have "1075 - (k + 1023) = 52 - k" by simp
    ultimately show ?thesis using False F nan by (simp add: f64_floor_u64_def Let_def)
  qed
qed

text \<open>The order of the patterns agrees with the floor: a nonnegative number is below the next integer.\<close>

lemma total_key_below_next:
  assumes "\<not> f64_negative w" "1023 \<le> f64_exponent w" "f64_lt w two_pow_53"
  shows "total_key w < total_key (f64_of_u64 (f64_floor_u64 w + 1))" "f64_floor_u64 w < 2 ^ 53"
proof -
  let ?e = "f64_exponent w" and ?f = "f64_fraction w"
  note W = f64_make_fields_inverse [OF assms(1)]
  have kw: "total_key w = int (?e * 2 ^ 52 + ?f)"
    using W f64_make_fields(4) by metis
  have "two_pow_53 = f64_make 1076 0" by (simp add: two_pow_53_def f64_make_def)
  then have "?e * 2 ^ 52 + ?f < 1076 * 2 ^ 52"
    using assms(3) kw f64_make_fields(4) [of 1076 0] by (auto simp: f64_lt_def f64_total_cmp_def)
  then have e: "?e \<le> 1075" by simp
  define k where "k = ?e - 1023"
  have k: "?e = k + 1023" "k \<le> 52" using assms(2) e by (simp_all add: k_def)
  define m where "m = 2 ^ 52 + ?f"
  have m: "2 ^ 52 \<le> m" "m < 2 ^ 53" using W(3) by (simp_all add: m_def)
  have p: "(2 :: nat) ^ 52 = 2 ^ k * 2 ^ (52 - k)" using k(2) by (simp flip: power_add)
  have v: "f64_floor_u64 w = m div 2 ^ (52 - k)"
  proof -
    have "1075 - ?e = 52 - k" using k by simp
    then show ?thesis
      using assms(1,2) e by (auto simp: f64_floor_u64_def Let_def is_nan_def m_def k(1))
  qed
  let ?v = "f64_floor_u64 w"
  have lo: "2 ^ k \<le> ?v" using m(1) unfolding p v by (simp add: less_eq_div_iff_mult_less_eq)
  have "m < 2 ^ (k + 1) * 2 ^ (52 - k)" using m(2) p by simp
  then have hi: "?v < 2 ^ (k + 1)" unfolding v by (simp add: less_mult_imp_div_less)
  have "(2 :: nat) ^ (k + 1) \<le> 2 ^ 53" using k(2) by (intro power_increasing) simp_all
  then show v53: "?v < 2 ^ 53" by (rule less_le_trans [OF hi])
  have mv: "m < (?v + 1) * 2 ^ (52 - k)"
    unfolding v using dividend_less_div_times [of "2 ^ (52 - k)" m] by simp
  show "total_key w < total_key (f64_of_u64 (?v + 1))"
  proof (rule f64_of_u64_exact [of "?v + 1"])
    show "0 < ?v + 1" "?v + 1 \<le> 2 ^ 53" using v53 by simp_all
    fix k' f' assume A: "f64_of_u64 (?v + 1) = f64_make (k' + 1023) f'" "k' \<le> 53" "f' < 2 ^ 52"
      "2 ^ k' \<le> ?v + 1" "?v + 1 < 2 ^ (k' + 1)" "(2 ^ 52 + f') * 2 ^ k' = (?v + 1) * 2 ^ 52"
    have key: "total_key (f64_of_u64 (?v + 1)) = int ((k' + 1023) * 2 ^ 52 + f')"
      using f64_make_fields(4) [of "k' + 1023" f'] A by simp
    have "(2 :: nat) ^ k < 2 ^ (k' + 1)" using lo A(5) by linarith
    then have kk: "k \<le> k'" using power_less_imp_less_exp [of "2 :: nat" k "k' + 1"] by simp
    show ?thesis
    proof (cases "k' = k")
      case True
      have "(2 ^ 52 + f') * 2 ^ k = ((?v + 1) * 2 ^ (52 - k)) * 2 ^ k"
        using A(6) unfolding True p by (simp only: ac_simps)
      then have "2 ^ 52 + f' = (?v + 1) * 2 ^ (52 - k)" by simp
      then have "?f < f'" using mv by (simp add: m_def)
      then show ?thesis unfolding key kw True k(1) by simp
    next
      case False
      then have "k + 1 \<le> k'" using kk by simp
      then show ?thesis using W(3) unfolding key kw k(1) by simp
    qed
  qed
qed

lemma total_key_sign: "total_key w < 0 \<longleftrightarrow> f64_negative w"
  by (simp add: total_key_def f64_negative_def bit_xor_iff bit_simps flip: bit_last_iff)

lemma total_key_inj: "total_key a = total_key b \<longleftrightarrow> a = b"
proof
  assume eq: "total_key a = total_key b"
  then have s: "f64_negative a = f64_negative b" using total_key_sign by metis
  show "a = b"
  proof (cases "f64_negative a")
    case True
    then have "a XOR 0x7fffffffffffffff = b XOR 0x7fffffffffffffff"
      using eq s by (simp add: total_key_def signed_word_eqI)
    then have "(a XOR 0x7fffffffffffffff) XOR 0x7fffffffffffffff = (b XOR 0x7fffffffffffffff) XOR 0x7fffffffffffffff"
      by simp
    then show ?thesis by (simp add: xor.assoc)
  next
    case False
    then show ?thesis using eq s by (simp add: total_key_def signed_word_eqI)
  qed
qed simp

lemma is_zero_key: "is_zero w \<longleftrightarrow> total_key w = 0 \<or> total_key w = -1"
proof -
  have "total_key 0 = 0" by (simp add: total_key_def f64_negative_def)
  moreover have "total_key 0x8000000000000000 = -1"
    by (simp add: total_key_def f64_negative_def)
  ultimately show ?thesis
    unfolding is_zero_def using total_key_inj by metis
qed

lemma f64_of_u64_key:
  assumes "0 < n" "n \<le> 2 ^ 53"
  shows "int (1023 * 2 ^ 52) \<le> total_key (f64_of_u64 n)" "\<not> is_nan (f64_of_u64 n)" "is_finite (f64_of_u64 n)"
    and "\<not> is_zero (f64_of_u64 n)" "\<not> f64_negative (f64_of_u64 n)" "1023 \<le> f64_exponent (f64_of_u64 n)"
    and "n < 2 ^ 53 \<Longrightarrow> total_key (f64_of_u64 n) < int (1076 * 2 ^ 52)"
proof -
  obtain k f where A: "f64_of_u64 n = f64_make (k + 1023) f" "k \<le> 53" "f < 2 ^ 52" "2 ^ k \<le> n"
    using f64_of_u64_exact [OF assms] by metis
  note F = f64_make_fields [of "k + 1023" f]
  have e: "f64_exponent (f64_of_u64 n) = k + 1023" "total_key (f64_of_u64 n) = int ((k + 1023) * 2 ^ 52 + f)"
    using F A by simp_all
  show lo: "int (1023 * 2 ^ 52) \<le> total_key (f64_of_u64 n)" by (simp add: e(2))
  show "\<not> is_nan (f64_of_u64 n)" "is_finite (f64_of_u64 n)" "1023 \<le> f64_exponent (f64_of_u64 n)"
    using e(1) A(2) by (simp_all add: is_nan_def is_finite_def)
  show "\<not> is_zero (f64_of_u64 n)" using lo by (simp add: is_zero_key)
  show "\<not> f64_negative (f64_of_u64 n)" using lo total_key_sign [of "f64_of_u64 n"] by simp
  assume "n < 2 ^ 53"
  then have "(2 :: nat) ^ k < 2 ^ 53" using A(4) by (rule le_less_trans [rotated])
  then have "k \<le> 52" using power_less_imp_less_exp [of "2 :: nat" k 53] by simp
  then show "total_key (f64_of_u64 n) < int (1076 * 2 ^ 52)" using A(3) unfolding e(2) by simp
qed

lemma f64_lt_two_pow_53: "f64_lt w two_pow_53 \<longleftrightarrow> \<not> is_nan w \<and> total_key w < int (1076 * 2 ^ 52)"
proof -
  have "two_pow_53 = f64_make 1076 0" by (simp add: two_pow_53_def f64_make_def)
  then have "total_key two_pow_53 = int (1076 * 2 ^ 52)" "f64_exponent two_pow_53 = 1076"
    using f64_make_fields [of 1076 0] by simp_all
  then show ?thesis by (auto simp: f64_lt_def is_nan_def is_zero_key f64_total_cmp_def)
qed

lemma f64_of_u64_strict:
  assumes "0 < n" "n < 2 ^ 53" shows "total_key (f64_of_u64 n) < total_key (f64_of_u64 (n + 1))"
proof -
  have n: "n \<le> 2 ^ 53" using assms(2) by simp
  note K = f64_of_u64_key [OF assms(1) n]
  have "f64_lt (f64_of_u64 n) two_pow_53" using K(2,7) assms(2) by (simp add: f64_lt_two_pow_53)
  from total_key_below_next(1) [OF K(5,6) this] show ?thesis
    by (simp add: f64_floor_of_u64 [OF assms(1) n])
qed

lemma f64_of_u64_mono:
  assumes "0 < n" "n \<le> m" "m \<le> 2 ^ 53" shows "total_key (f64_of_u64 n) \<le> total_key (f64_of_u64 m)"
  using assms(2,3)
proof (induction m rule: dec_induct)
  case (step m)
  have "total_key (f64_of_u64 m) < total_key (f64_of_u64 (m + 1))"
    using f64_of_u64_strict [of m] step assms(1) by simp
  then show ?case using step by simp
qed simp

lemma f64_ge_exponent:
  assumes "f64_ge x (f64_of_u64 n)" "0 < n" "n \<le> 2 ^ 53"
  shows "\<not> f64_negative x" "1023 \<le> f64_exponent x" "\<not> is_nan x"
proof -
  note K = f64_of_u64_key [OF assms(2,3)]
  have k: "int (1023 * 2 ^ 52) \<le> total_key x" and "\<not> is_nan x"
    using assms(1) K(1,4) by (auto simp: f64_ge_def f64_total_cmp_def)
  then show n: "\<not> f64_negative x" "\<not> is_nan x" using total_key_sign [of x] by simp_all
  note W = f64_make_fields_inverse [OF n(1)]
  have "total_key x = int (f64_exponent x * 2 ^ 52 + f64_fraction x)"
    using W f64_make_fields(4) by metis
  then have "1023 * 2 ^ 52 \<le> f64_exponent x * 2 ^ 52 + f64_fraction x" using k by linarith
  then show "1023 \<le> f64_exponent x" using W(3) by simp
qed

end
