(* ===== verification/Idb_Key.thy ===== *)
theory Idb_Key
  imports Float64 Rust_Str Storage_String
begin

text \<open>
  \<^verbatim>\<open>src/indexed_db/model/keys.rs\<close> with the error type of \<^verbatim>\<open>src/indexed_db/model/types.rs\<close>: IndexedDB keys, their
  cross-type order, validation and key ranges. A \<^verbatim>\<open>String\<close> is its UTF-8 bytes; \<^verbatim>\<open>encode_utf16\<close> decodes them first.
\<close>

section \<open>UTF-8\<close>

fun utf8_decode :: "string \<Rightarrow> nat list" where
  "utf8_decode [] = []"
| "utf8_decode (a # s) =
     (if byte a < 0x80 then byte a # utf8_decode s
      else if byte a < 0xe0 then
        (case s of
           b # t \<Rightarrow> ((byte a - 0xc0) * 64 + (byte b - 0x80)) # utf8_decode t
         | _ \<Rightarrow> [])
      else if byte a < 0xf0 then
        (case s of
           b # c # t \<Rightarrow> ((byte a - 0xe0) * 4096 + (byte b - 0x80) * 64 + (byte c - 0x80)) # utf8_decode t
         | _ \<Rightarrow> [])
      else
        (case s of
           b # c # d # t \<Rightarrow>
             ((byte a - 0xf0) * 262144 + (byte b - 0x80) * 4096 + (byte c - 0x80) * 64 + (byte d - 0x80)) # utf8_decode t
         | _ \<Rightarrow> []))"

definition str_utf16 :: "string \<Rightarrow> u16 list" where
  "str_utf16 s = encode_utf16 (utf8_decode s)"

section \<open>Errors and limits\<close>

datatype db_error =
    Data string
  | InvalidState string
  | Constraint string
  | ReadOnlyError
  | VersionError
  | Quota
  | DbPersistence string

definition db_error_name :: "db_error \<Rightarrow> string" where
  "db_error_name e =
     (case e of
        Data _ \<Rightarrow> ''DataError'' | InvalidState _ \<Rightarrow> ''InvalidStateError'' | Constraint _ \<Rightarrow> ''ConstraintError''
      | ReadOnlyError \<Rightarrow> ''ReadOnlyError'' | VersionError \<Rightarrow> ''VersionError'' | Quota \<Rightarrow> ''QuotaExceededError''
      | DbPersistence _ \<Rightarrow> ''UnknownError'')"

definition db_error_text :: "db_error \<Rightarrow> string" where
  "db_error_text e =
     (case e of
        Data m \<Rightarrow> m | InvalidState m \<Rightarrow> m | Constraint m \<Rightarrow> m
      | ReadOnlyError \<Rightarrow> ''transaction is read-only''
      | VersionError \<Rightarrow> ''database version changed''
      | Quota \<Rightarrow> ''IndexedDB origin quota exceeded''
      | DbPersistence m \<Rightarrow> m)"

definition MAX_ORIGIN_BYTES :: nat where [limit_simps]: "MAX_ORIGIN_BYTES = 16 * 1024 * 1024"
definition MAX_DATABASE_BYTES :: nat where [limit_simps]: "MAX_DATABASE_BYTES = 64 * 1024 * 1024"
definition MAX_NAME_BYTES :: nat where [limit_simps]: "MAX_NAME_BYTES = 1024"
definition MAX_OPERATIONS :: nat where [limit_simps]: "MAX_OPERATIONS = 256"

section \<open>Keys\<close>

datatype key =
    Number f64
  | Date f64
  | String string
  | Binary "8 word list"
  | Array "key list"

fun key_rank :: "key \<Rightarrow> nat" where
  "key_rank (Number _) = 0"
| "key_rank (Date _) = 1"
| "key_rank (String _) = 2"
| "key_rank (Binary _) = 3"
| "key_rank (Array _) = 4"

definition f64_key_cmp :: "f64 \<Rightarrow> f64 \<Rightarrow> ordering" where
  "f64_key_cmp left right = (if is_zero left \<and> is_zero right then Equal else f64_total_cmp left right)"

function key_cmp :: "key \<Rightarrow> key \<Rightarrow> ordering" where
  "key_cmp a b =
     (case lin_cmp (key_rank a) (key_rank b) of
        Equal \<Rightarrow>
          (case (a, b) of
             (Number x, Number y) \<Rightarrow> f64_key_cmp x y
           | (Date x, Date y) \<Rightarrow> f64_key_cmp x y
           | (String x, String y) \<Rightarrow> list_cmp lin_cmp (str_utf16 x) (str_utf16 y)
           | (Binary x, Binary y) \<Rightarrow> list_cmp lin_cmp x y
           | (Array x, Array y) \<Rightarrow> list_cmp key_cmp x y
           | _ \<Rightarrow> Equal)
      | order \<Rightarrow> order)"
  by pat_completeness auto
termination
  by (relation "measure (\<lambda>(a, b). size a)") (auto dest: size_list_estimation' intro!: le_imp_less_Suc size_list_estimation')

text \<open>The derived \<^verbatim>\<open>PartialEq\<close>.\<close>

fun key_eq :: "key \<Rightarrow> key \<Rightarrow> bool" where
  "key_eq (Number x) (Number y) = f64_eq x y"
| "key_eq (Date x) (Date y) = f64_eq x y"
| "key_eq (String x) (String y) = (x = y)"
| "key_eq (Binary x) (Binary y) = (x = y)"
| "key_eq (Array x) (Array y) = list_all2 key_eq x y"
| "key_eq _ _ = False"

fun key_validate :: "nat \<Rightarrow> key \<Rightarrow> db_error + unit" where
  "key_validate depth k =
     (if depth > 32 then Inl (Data ''key nesting exceeds the supported limit'')
      else case k of
        Number v \<Rightarrow> if is_finite v then Inr () else Inl (Data ''a key must be finite'')
      | Date v \<Rightarrow> if is_finite v then Inr () else Inl (Data ''a key must be finite'')
      | String s \<Rightarrow> if length s > MAX_ORIGIN_BYTES then Inl Quota else Inr ()
      | Binary b \<Rightarrow> if length b > MAX_ORIGIN_BYTES then Inl Quota else Inr ()
      | Array ks \<Rightarrow>
          if length ks > MAX_OPERATIONS then Inl Quota
          else each_ok (key_validate (depth + 1)) ks)"

declare key_validate.simps [simp del]

section \<open>Ranges\<close>

record key_range =
  kr_lower :: "key option"
  kr_upper :: "key option"
  kr_lower_open :: bool
  kr_upper_open :: bool

definition range_validate :: "key_range \<Rightarrow> db_error + unit" where
  "range_validate r =
     and_then (case kr_lower r of None \<Rightarrow> Inr () | Some l \<Rightarrow> key_validate 0 l) (\<lambda>_.
       and_then (case kr_upper r of None \<Rightarrow> Inr () | Some u \<Rightarrow> key_validate 0 u) (\<lambda>_.
         case (kr_lower r, kr_upper r) of
           (Some l, Some u) \<Rightarrow>
             if key_cmp l u = Greater \<or> key_eq l u \<and> (kr_lower_open r \<or> kr_upper_open r)
             then Inl (Data ''empty or inverted key range'') else Inr ()
         | _ \<Rightarrow> Inr ()))"

definition range_contains :: "key_range \<Rightarrow> key \<Rightarrow> bool" where
  "range_contains r k \<longleftrightarrow>
     (case kr_lower r of
        None \<Rightarrow> True
      | Some l \<Rightarrow> if kr_lower_open r then key_cmp k l = Greater else key_cmp k l \<noteq> Less) \<and>
     (case kr_upper r of
        None \<Rightarrow> True
      | Some u \<Rightarrow> if kr_upper_open r then key_cmp k u = Less else key_cmp k u \<noteq> Greater)"

section \<open>The order is total\<close>

declare key_cmp.simps [simp del]

lemma key_cmp_simps [simp]:
  "key_cmp (Number x) (Number y) = f64_key_cmp x y" "key_cmp (Date x) (Date y) = f64_key_cmp x y"
  "key_cmp (String s) (String t) = list_cmp lin_cmp (str_utf16 s) (str_utf16 t)"
  "key_cmp (Binary u) (Binary v) = list_cmp lin_cmp u v" "key_cmp (Array xs) (Array ys) = list_cmp key_cmp xs ys"
  by (simp_all add: key_cmp.simps [of "Number x"] key_cmp.simps [of "Date x"] key_cmp.simps [of "String s"]
      key_cmp.simps [of "Binary u"] key_cmp.simps [of "Array xs"] lin_cmp_def)

lemma key_cmp_rank: "key_rank a \<noteq> key_rank b \<Longrightarrow> key_cmp a b = lin_cmp (key_rank a) (key_rank b)"
  by (auto simp: key_cmp.simps lin_cmp_def)

text \<open>\<^verbatim>\<open>-0\<close> and \<^verbatim>\<open>+0\<close> are neighbours in the total order of bit patterns; the key order identifies them.\<close>

definition f64_rank :: "f64 \<Rightarrow> int" where
  "f64_rank w = (if total_key w < 0 then total_key w + 1 else total_key w)"

lemma f64_key_cmp_rank: "f64_key_cmp a b = lin_cmp (f64_rank a) (f64_rank b)"
  unfolding f64_key_cmp_def is_zero_key f64_total_cmp_def f64_rank_def lin_cmp_def by auto

text \<open>What composes through lexicographic comparison.\<close>

definition cmp_laws :: "('a \<Rightarrow> 'a \<Rightarrow> ordering) \<Rightarrow> 'a \<Rightarrow> 'a \<Rightarrow> 'a \<Rightarrow> bool" where
  "cmp_laws c x y z \<longleftrightarrow>
     c x x = Equal \<and> c y x = reverse_ord (c x y) \<and>
     (c x y = Less \<longrightarrow> c y z \<noteq> Greater \<longrightarrow> c x z = Less) \<and>
     (c x y = Equal \<longrightarrow> c y z = Less \<longrightarrow> c x z = Less) \<and>
     (c x y = Equal \<longrightarrow> c y z = Equal \<longrightarrow> c x z = Equal)"

lemma cmp_laws_lin [simp]: "cmp_laws lin_cmp x y z" "cmp_laws (\<lambda>a b. lin_cmp (f a) (f b)) x y z"
  by (auto simp: cmp_laws_def lin_cmp_def split: if_splits)

lemma cmp_laws_Nil: "cmp_laws (list_cmp c) [] ys zs"
proof -
  have "list_cmp c [] us = (if us = [] then Equal else Less)" "list_cmp c us [] = (if us = [] then Equal else Greater)" for us
    by (cases us; simp)+
  then show ?thesis by (cases "ys = []"; cases "zs = []") (auto simp: cmp_laws_def)
qed

lemma cmp_laws_Cons:
  assumes "\<And>y z. cmp_laws c x y z" "\<And>us vs. cmp_laws (list_cmp c) xs us vs"
  shows "cmp_laws (list_cmp c) (x # xs) ys zs"
proof -
  have xx: "c x x = Equal" "list_cmp c xs xs = Equal"
    using assms(1) [of x x] assms(2) [of xs xs] by (simp_all add: cmp_laws_def)
  show ?thesis
  proof (cases ys)
    case Nil
    then show ?thesis using xx by (cases zs) (auto simp: cmp_laws_def)
  next
    case ys: (Cons y ys')
    note el = assms(1) [of y, unfolded cmp_laws_def]
    note tl = assms(2) [of ys', unfolded cmp_laws_def]
    show ?thesis
    proof (cases zs)
      case Nil
      then show ?thesis using el [of y] tl [of ys'] by (auto simp: cmp_laws_def ys)
    next
      case zs: (Cons z zs')
      show ?thesis
        using el [of z] tl [of zs'] by (cases "c x y"; cases "c y z") (auto simp: cmp_laws_def ys zs)
    qed
  qed
qed

lemma cmp_laws_list: "\<forall>x\<in>set xs. \<forall>y z. cmp_laws c x y z \<Longrightarrow> cmp_laws (list_cmp c) xs ys zs"
  by (induction xs arbitrary: ys zs) (auto intro: cmp_laws_Nil cmp_laws_Cons)

lemma cmp_laws_ranked:
  fixes rank :: "'a \<Rightarrow> nat"
  assumes r: "\<And>a b. rank a \<noteq> rank b \<Longrightarrow> c a b = lin_cmp (rank a) (rank b)"
    and s: "\<And>b d. rank b = rank a \<Longrightarrow> rank d = rank a \<Longrightarrow> cmp_laws c a b d"
  shows "cmp_laws c a b d"
proof -
  have aa: "c a a = Equal" using s [of a a] by (simp add: cmp_laws_def)
  consider "rank b = rank a" "rank d = rank a" | "rank b = rank a" "rank d \<noteq> rank a" | "rank b \<noteq> rank a"
    by blast
  then show ?thesis
  proof cases
    case 1
    then show ?thesis by (rule s)
  next
    case 2
    then have "c a d = lin_cmp (rank a) (rank d)" "c b d = lin_cmp (rank a) (rank d)" using r [of a d] r [of b d] by auto
    then show ?thesis using s [OF 2(1) 2(1)] 2(2) by (auto simp: cmp_laws_def lin_cmp_def split: if_splits)
  next
    case 3
    have ab: "c a b = lin_cmp (rank a) (rank b)" "c b a = lin_cmp (rank b) (rank a)" using r [of a b] r [of b a] 3 by auto
    have bd: "c b d = lin_cmp (rank b) (rank d)" if "rank b \<noteq> rank d" using r that by simp
    have ad: "c a d = lin_cmp (rank a) (rank d)" if "rank a \<noteq> rank d" using r that by simp
    show ?thesis
    proof (cases "rank a < rank b")
      case True
      have "c a d = Less" if g: "c b d \<noteq> Greater"
      proof -
        have "rank b \<le> rank d"
          using bd g by (cases "rank b = rank d") (auto simp: lin_cmp_def split: if_splits)
        then show ?thesis using True ad by (simp add: lin_cmp_def)
      qed
      then show ?thesis using True aa ab by (simp add: cmp_laws_def lin_cmp_def)
    next
      case False
      then show ?thesis using 3 aa ab by (simp add: cmp_laws_def lin_cmp_def)
    qed
  qed
qed

lemma cmp_laws_inner:
  assumes "\<And>b. key_rank b = r \<Longrightarrow> \<exists>y. b = f y" "\<And>y z. key_cmp (f y) (f z) = g y z"
    and "\<And>y z. cmp_laws g x y z" "key_rank b = r" "key_rank d = r"
  shows "cmp_laws key_cmp (f x) b d"
proof -
  obtain y z where "b = f y" "d = f z" using assms(1,4,5) by metis
  then show ?thesis using assms(3) [of y z] by (simp add: cmp_laws_def assms(2))
qed

lemma key_rank_ex:
  "key_rank b = 0 \<Longrightarrow> \<exists>y. b = Number y" "key_rank b = Suc 0 \<Longrightarrow> \<exists>y. b = Date y" "key_rank b = 2 \<Longrightarrow> \<exists>y. b = String y"
  "key_rank b = 3 \<Longrightarrow> \<exists>y. b = Binary y" "key_rank b = 4 \<Longrightarrow> \<exists>y. b = Array y"
  by (cases b; simp)+

lemma key_cmp_laws: "cmp_laws key_cmp a b c"
proof (induction a arbitrary: b c)
  case (Array xs)
  have "cmp_laws (list_cmp key_cmp) xs ys zs" for ys zs using cmp_laws_list Array by metis
  then have "key_rank b = 4 \<Longrightarrow> key_rank c = 4 \<Longrightarrow> cmp_laws key_cmp (Array xs) b c" for b c
    by (rule cmp_laws_inner [where r = 4 and f = Array, rotated 2]) (simp_all add: key_rank_ex)
  then show ?case by (rule cmp_laws_ranked [of key_rank, OF key_cmp_rank, rotated]) simp_all
next
  case (Number v)
  have "cmp_laws f64_key_cmp v y z" for y z by (simp add: f64_key_cmp_rank [abs_def])
  then have "key_rank b = 0 \<Longrightarrow> key_rank c = 0 \<Longrightarrow> cmp_laws key_cmp (Number v) b c" for b c
    by (rule cmp_laws_inner [where r = 0 and f = Number, rotated 2]) (simp_all add: key_rank_ex)
  then show ?case by (rule cmp_laws_ranked [of key_rank, OF key_cmp_rank, rotated]) simp_all
next
  case (Date v)
  have "cmp_laws f64_key_cmp v y z" for y z by (simp add: f64_key_cmp_rank [abs_def])
  then have "key_rank b = 1 \<Longrightarrow> key_rank c = 1 \<Longrightarrow> cmp_laws key_cmp (Date v) b c" for b c
    by (rule cmp_laws_inner [where r = 1 and f = Date, rotated 2]) (simp_all add: key_rank_ex)
  then show ?case by (rule cmp_laws_ranked [of key_rank, OF key_cmp_rank, rotated]) simp_all
next
  case (String v)
  have "cmp_laws (\<lambda>s t. list_cmp lin_cmp (str_utf16 s) (str_utf16 t)) v y z" for y z
    using cmp_laws_list [of "str_utf16 v" lin_cmp "str_utf16 y" "str_utf16 z"] by (simp add: cmp_laws_def)
  then have "key_rank b = 2 \<Longrightarrow> key_rank c = 2 \<Longrightarrow> cmp_laws key_cmp (String v) b c" for b c
    by (rule cmp_laws_inner [where r = 2 and f = String, rotated 2]) (simp_all add: key_rank_ex)
  then show ?case by (rule cmp_laws_ranked [of key_rank, OF key_cmp_rank, rotated]) simp_all
next
  case (Binary v)
  have "cmp_laws (list_cmp lin_cmp) v ys zs" for ys zs by (rule cmp_laws_list) simp
  then have "key_rank b = 3 \<Longrightarrow> key_rank c = 3 \<Longrightarrow> cmp_laws key_cmp (Binary v) b c" for b c
    by (rule cmp_laws_inner [where r = 3 and f = Binary, rotated 2]) (simp_all add: key_rank_ex)
  then show ?case by (rule cmp_laws_ranked [of key_rank, OF key_cmp_rank, rotated]) simp_all
qed

interpretation key: total_cmp key_cmp "\<lambda>_. True"
proof
  show "key_cmp a a = Equal" for a using key_cmp_laws [of a a a] by (simp add: cmp_laws_def)
  show "key_cmp b a = reverse_ord (key_cmp a b)" for a b using key_cmp_laws [of a b b] by (simp add: cmp_laws_def)
  show "key_cmp a b \<noteq> Greater \<Longrightarrow> key_cmp b c \<noteq> Greater \<Longrightarrow> key_cmp a c \<noteq> Greater" for a b c
    using key_cmp_laws [of a b c] by (cases "key_cmp a b"; cases "key_cmp b c") (auto simp: cmp_laws_def)
qed

lemma f64_eq_cmp: "f64_eq x y \<Longrightarrow> f64_key_cmp x y = Equal"
  by (auto simp: f64_eq_def f64_key_cmp_def f64_total_cmp_def)

text \<open>Equality of keys implies that they compare equal.\<close>

lemma key_eq_cmp: "key_eq a b \<Longrightarrow> key_cmp a b = Equal"
proof (induction a b rule: key_eq.induct)
  case (5 xs ys)
  then have "list_all2 (\<lambda>x y. key_cmp x y = Equal) xs ys"
    by (auto simp: list_all2_conv_all_nth)
  then show ?case by (simp add: list_cmp_Equal)
qed (auto simp: f64_eq_cmp list_cmp_refl)

end
