(* ===== verification/Json.thy ===== *)
theory Json
  imports Float64 Rust_Str Idb_Key
begin

text \<open>
  \<^verbatim>\<open>serde_json::Value\<close> and the accessors the IndexedDB code calls. The crate's parser and printer are a
  parameter. An object is the sorted map of the crate (feature \<^verbatim>\<open>preserve_order\<close> is off), as an association list.
\<close>

datatype json_number = PosInt nat | NegInt int | JFloat f64

datatype json =
    Null
  | Bool bool
  | JNumber json_number
  | JString string
  | JArray "json list"
  | JObject "(string \<times> json) list"

record serde =
  json_from_str :: "string \<Rightarrow> json option"
  json_to_string :: "json \<Rightarrow> string option"

definition json_get :: "json \<Rightarrow> string \<Rightarrow> json option" where
  "json_get v k = (case v of JObject entries \<Rightarrow> map_of entries k | _ \<Rightarrow> None)"

definition as_str :: "json \<Rightarrow> string option" where
  "as_str v = (case v of JString s \<Rightarrow> Some s | _ \<Rightarrow> None)"

definition as_array :: "json \<Rightarrow> json list option" where
  "as_array v = (case v of JArray xs \<Rightarrow> Some xs | _ \<Rightarrow> None)"

definition as_u64 :: "json \<Rightarrow> nat option" where
  "as_u64 v = (case v of JNumber (PosInt n) \<Rightarrow> Some n | _ \<Rightarrow> None)"

definition f64_neg :: "f64 \<Rightarrow> f64" where
  "f64_neg w = w XOR 0x8000000000000000"

definition as_f64 :: "json \<Rightarrow> f64 option" where
  "as_f64 v =
     (case v of
        JNumber (PosInt n) \<Rightarrow> Some (f64_of_u64 n)
      | JNumber (NegInt i) \<Rightarrow> Some (f64_neg (f64_of_u64 (nat (- i))))
      | JNumber (JFloat w) \<Rightarrow> Some w
      | _ \<Rightarrow> None)"

definition value_from_f64 :: "f64 \<Rightarrow> json" where
  "value_from_f64 w = (if is_finite w then JNumber (JFloat w) else Null)"

text \<open>A member of a structured clone's entry list: the second half of the first pair whose name is \<open>part\<close>.\<close>

definition pair_value :: "string \<Rightarrow> json \<Rightarrow> json option" where
  "pair_value part member =
     (case member of
        JArray (name # rest) \<Rightarrow> if as_str name = Some part then (case rest of [] \<Rightarrow> None | v # _ \<Rightarrow> Some v) else None
      | _ \<Rightarrow> None)"

definition member_value :: "json list \<Rightarrow> string \<Rightarrow> json option" where
  "member_value members part = find_map (pair_value part) members"

section \<open>Sizes, for recursion into a value\<close>

lemma json_get_size: "json_get v k = Some w \<Longrightarrow> size w < size v"
proof -
  assume "json_get v k = Some w"
  then obtain entries where v: "v = JObject entries" and "map_of entries k = Some w"
    by (auto simp: json_get_def split: json.splits)
  then have "(k, w) \<in> set entries" by (simp add: map_of_SomeD)
  then show ?thesis
    unfolding v by (induction entries) auto
qed

lemma pair_value_size: "pair_value part m = Some w \<Longrightarrow> size w < size m"
  by (auto simp: pair_value_def split: json.splits list.splits if_splits)

lemma member_value_size: "member_value ms part = Some w \<Longrightarrow> size w < size (JArray ms)"
  unfolding member_value_def
  by (induction ms) (auto split: option.splits dest!: pair_value_size)

end
