(* ===== verification/Idb_Index.thy ===== *)
theory Idb_Index
  imports Json
begin

text \<open>
  \<^verbatim>\<open>src/indexed_db/model/index.rs\<close> and \<^verbatim>\<open>src/indexed_db/model/inline_key.rs\<close>: the keys an index derives from a
  stored structured clone, and the injection of a generated key into one.
\<close>

section \<open>Definitions of stores and indexes\<close>

datatype index_key_path = Single string | Compound "string list"

record index_definition =
  ix_name :: string
  ix_key_path :: index_key_path
  ix_unique :: bool
  ix_multi_entry :: bool

record store_definition =
  sd_name :: string
  sd_key_path :: "string option"
  sd_auto_increment :: bool
  sd_indexes :: "index_definition list"

definition validate_name :: "string \<Rightarrow> db_error + unit" where
  "validate_name name = (if length name > MAX_NAME_BYTES then Inl Quota else Inr ())"

definition validate_path :: "string \<Rightarrow> db_error + unit" where
  "validate_path path =
     (if length path > MAX_NAME_BYTES \<or> (\<exists>part\<in>set (split_on CHR ''.'' path). part = []) \<and> path \<noteq> []
      then Inl (Data ''invalid index key path'') else Inr ())"

definition index_validate :: "index_definition \<Rightarrow> db_error + unit" where
  "index_validate ix =
     (if length (ix_name ix) > MAX_NAME_BYTES then Inl Quota
      else case ix_key_path ix of
        Single path \<Rightarrow> validate_path path
      | Compound paths \<Rightarrow>
          if paths = [] \<or> ix_multi_entry ix then Inl (Data ''invalid compound index key path'')
          else each_ok validate_path paths)"

text \<open>The loops over the indexes, with the set of names seen so far.\<close>

fun validate_index_list :: "string \<Rightarrow> string list \<Rightarrow> index_definition list \<Rightarrow> db_error + unit" where
  "validate_index_list duplicate seen [] = Inr ()"
| "validate_index_list duplicate seen (ix # ixs) =
     and_then (index_validate ix) (\<lambda>_.
       if ix_name ix \<in> set seen then Inl (Constraint duplicate)
       else validate_index_list duplicate (ix_name ix # seen) ixs)"

definition store_definition_validate :: "store_definition \<Rightarrow> db_error + unit" where
  "store_definition_validate d =
     and_then (validate_name (sd_name d)) (\<lambda>_.
       if (case sd_key_path d of
             Some path \<Rightarrow> length path > MAX_NAME_BYTES \<or> (\<exists>part\<in>set (split_on CHR ''.'' path). part = [])
           | None \<Rightarrow> False)
       then Inl (Data ''invalid key path'')
       else validate_index_list ''index already exists'' [] (sd_indexes d))"

section \<open>Keys of a structured clone\<close>

fun base64_digit :: "char \<Rightarrow> nat option" where
  "base64_digit c =
     (let b = byte c
      in if 65 \<le> b \<and> b \<le> 90 then Some (b - 65)
         else if 97 \<le> b \<and> b \<le> 122 then Some (b - 97 + 26)
         else if 48 \<le> b \<and> b \<le> 57 then Some (b - 48 + 52)
         else if b = 43 then Some 62
         else if b = 47 then Some 63
         else None)"

definition padded_digit :: "char \<Rightarrow> nat option" where
  "padded_digit c = (if c = CHR ''='' then Some 0 else base64_digit c)"

fun decode_base64_chunks :: "string \<Rightarrow> 8 word list option" where
  "decode_base64_chunks (c0 # c1 # c2 # c3 # rest) =
     (case (base64_digit c0, base64_digit c1, padded_digit c2, padded_digit c3) of
        (Some a, Some b, Some c, Some d) \<Rightarrow>
          (let bits = a * 2 ^ 18 + b * 2 ^ 12 + c * 2 ^ 6 + d
           in map_option (\<lambda>bytes.
                of_nat (bits div 2 ^ 16) #
                (if c2 \<noteq> CHR ''='' then [of_nat (bits div 2 ^ 8)] else []) @
                (if c3 \<noteq> CHR ''='' then [of_nat bits] else []) @ bytes) (decode_base64_chunks rest))
      | _ \<Rightarrow> None)"
| "decode_base64_chunks _ = Some []"

definition decode_base64 :: "string \<Rightarrow> 8 word list option" where
  "decode_base64 text = (if length text mod 4 \<noteq> 0 then None else decode_base64_chunks text)"

definition json_tag :: "json \<Rightarrow> string option" where
  "json_tag v = Option.bind (json_get v ''t'') as_str"

function clone_key :: "json \<Rightarrow> key option" where
  "clone_key v =
     (case as_f64 v of
        Some number \<Rightarrow> if is_finite number then Some (Number number) else None
      | None \<Rightarrow>
     (case as_str v of
        Some text \<Rightarrow> Some (String text)
      | None \<Rightarrow>
     (case json_tag v of
        None \<Rightarrow> None
      | Some t \<Rightarrow>
          if t = ''date'' then map_option Date (Option.bind (json_get v ''v'') as_f64)
          else if t = ''number'' then
            (if Option.bind (json_get v ''v'') as_str = Some ''-0'' then Some (Number 0) else None)
          else if t = ''buffer'' then
            map_option Binary (Option.bind (Option.bind (json_get v ''v'') as_str) decode_base64)
          else if t = ''array'' then
            (case Option.bind (json_get v ''l'') as_u64 of
               None \<Rightarrow> None
             | Some n \<Rightarrow>
                 if n > MAX_OPERATIONS then None
                 else case json_get v ''v'' of
                   Some (JArray members) \<Rightarrow>
                     map_option Array (collect_options (map (\<lambda>i.
                       case member_value members (show_nat i) of None \<Rightarrow> None | Some m \<Rightarrow> clone_key m) [0..<n]))
                 | _ \<Rightarrow> None)
          else None)))"
  by pat_completeness auto
termination
proof (relation "measure size")
  fix v t n :: "_" and n' members i m
  show "json_get v ''v'' = Some n' \<Longrightarrow> n' = JArray members \<Longrightarrow> member_value members (show_nat i) = Some m \<Longrightarrow>
    (m, v) \<in> measure size"
    using json_get_size member_value_size by fastforce
qed auto

declare clone_key.simps [simp del]

fun project_parts :: "json \<Rightarrow> string list \<Rightarrow> json option" where
  "project_parts current [] = Some current"
| "project_parts current (part # parts) =
     (case (if part = ''length''
            then if json_tag current = Some ''array''
                 then map_option f64_of_u64 (Option.bind (json_get current ''l'') as_u64)
                 else map_option (\<lambda>value. f64_of_u64 (length (str_utf16 value))) (as_str current)
            else None) of
        Some n \<Rightarrow> if parts = [] then Some (value_from_f64 n) else None
      | None \<Rightarrow>
          (case Option.bind (json_get current ''v'') as_array of
             None \<Rightarrow> None
           | Some members \<Rightarrow>
               (case member_value members part of
                  None \<Rightarrow> None
                | Some next \<Rightarrow> project_parts next parts)))"

definition project_path :: "json \<Rightarrow> string \<Rightarrow> json option" where
  "project_path value path = (if path = [] then Some value else project_parts value (split_on CHR ''.'' path))"

definition extract_path :: "json \<Rightarrow> string \<Rightarrow> key option" where
  "extract_path value path = Option.bind (project_path value path) clone_key"

text \<open>\<^verbatim>\<open>slice::sort_by\<close>: stable.\<close>

fun sorted_insert :: "('a \<Rightarrow> 'a \<Rightarrow> ordering) \<Rightarrow> 'a \<Rightarrow> 'a list \<Rightarrow> 'a list" where
  "sorted_insert c x [] = [x]"
| "sorted_insert c x (y # ys) = (if c x y \<noteq> Greater then x # y # ys else y # sorted_insert c x ys)"

definition sort_by :: "('a \<Rightarrow> 'a \<Rightarrow> ordering) \<Rightarrow> 'a list \<Rightarrow> 'a list" where
  "sort_by c xs = foldr (sorted_insert c) xs []"

text \<open>
  \<^verbatim>\<open>BTreeSet<Key>\<close>: a list in strictly increasing order. \<open>insert\<close> keeps the key already there when an equal one is
  inserted; \<open>collect\<close> sorts the keys and keeps the last of each run of equal ones.
\<close>

fun kset_insert :: "key \<Rightarrow> key list \<Rightarrow> key list" where
  "kset_insert k [] = [k]"
| "kset_insert k (j # js) =
     (case key_cmp k j of Less \<Rightarrow> k # j # js | Equal \<Rightarrow> j # js | Greater \<Rightarrow> j # kset_insert k js)"

definition kset_contains :: "key list \<Rightarrow> key \<Rightarrow> bool" where
  "kset_contains ks k \<longleftrightarrow> (\<exists>j\<in>set ks. key_cmp k j = Equal)"

fun dedup_sorted :: "key list \<Rightarrow> key list" where
  "dedup_sorted (k # j # ks) = (if key_eq k j then dedup_sorted (j # ks) else k # dedup_sorted (j # ks))"
| "dedup_sorted ks = ks"

definition kset_collect :: "key list \<Rightarrow> key list" where
  "kset_collect ks = dedup_sorted (sort_by key_cmp ks)"

definition multi_entry_keys :: "json list \<Rightarrow> key list" where
  "multi_entry_keys members =
     kset_collect (filter (\<lambda>k. key_validate 0 k = Inr ())
       (concat (map (\<lambda>member. case member of
                  JArray (_ # m # _) \<Rightarrow> (case clone_key m of Some k \<Rightarrow> [k] | None \<Rightarrow> [])
                | _ \<Rightarrow> []) members)))"

definition single_key :: "index_definition \<Rightarrow> json \<Rightarrow> key list" where
  "single_key ix value =
     (case (case ix_key_path ix of
              Single path \<Rightarrow> extract_path value path
            | Compound paths \<Rightarrow> map_option Array (collect_options (map (extract_path value) paths))) of
        None \<Rightarrow> []
      | Some k \<Rightarrow> if key_validate 0 k = Inr () then [k] else [])"

definition keys_for_value :: "serde \<Rightarrow> index_definition \<Rightarrow> string \<Rightarrow> key list" where
  "keys_for_value S ix serialized =
     (case json_from_str S serialized of
        None \<Rightarrow> []
      | Some value \<Rightarrow>
          (case (ix_multi_entry ix, ix_key_path ix) of
             (True, Single path) \<Rightarrow>
               (case project_path value path of
                  None \<Rightarrow> []
                | Some projected \<Rightarrow>
                    if json_tag projected = Some ''array''
                    then (case Option.bind (json_get projected ''v'') as_array of
                            None \<Rightarrow> []
                          | Some members \<Rightarrow> multi_entry_keys members)
                    else single_key ix value)
           | _ \<Rightarrow> single_key ix value))"

section \<open>Injecting a generated key\<close>

function maximum_id :: "json \<Rightarrow> nat" where
  "maximum_id v =
     (let own = (case Option.bind (json_get v ''id'') as_u64 of Some n \<Rightarrow> n | None \<Rightarrow> 0)
      in case v of
           JObject entries \<Rightarrow> foldl max own (map (\<lambda>e. maximum_id (snd e)) entries)
         | JArray items \<Rightarrow> foldl max own (map maximum_id items)
         | _ \<Rightarrow> own)"
  by pat_completeness auto
termination
proof (relation "measure size")
  fix v entries e
  assume "v = JObject entries" "e \<in> set (entries :: (string \<times> json) list)"
  then show "(snd e, v) \<in> measure size"
    by (induction entries arbitrary: v) (auto simp: less_Suc_eq_le intro: le_trans)
next
  fix v items m
  assume "v = JArray items" "m \<in> set (items :: json list)"
  then show "(m, v) \<in> measure size"
    by (induction items arbitrary: v) (auto simp: less_Suc_eq_le intro: le_trans)
qed simp

declare maximum_id.simps [simp del]

text \<open>Writing back into an object's \<^verbatim>\<open>v\<close> member, in place.\<close>

definition json_set :: "json \<Rightarrow> string \<Rightarrow> json \<Rightarrow> json" where
  "json_set v k w =
     (case v of JObject entries \<Rightarrow> JObject (map (\<lambda>(j, u). if j = k then (j, w) else (j, u)) entries) | _ \<Rightarrow> v)"

definition entry_named :: "string \<Rightarrow> json \<Rightarrow> bool" where
  "entry_named name entry = (case entry of JArray (first # _) \<Rightarrow> as_str first = Some name | _ \<Rightarrow> False)"

definition empty_clone :: "nat \<Rightarrow> json" where
  "empty_clone i =
     JObject [(''id'', JNumber (PosInt i)), (''n'', Bool False), (''t'', JString ''object''), (''v'', JArray [])]"

definition replace_second :: "json \<Rightarrow> json \<Rightarrow> json" where
  "replace_second pair v = (case pair of JArray (a # _ # rest) \<Rightarrow> JArray (a # v # rest) | _ \<Rightarrow> pair)"

definition second :: "json \<Rightarrow> json option" where
  "second pair = (case pair of JArray (_ # b # _) \<Rightarrow> Some b | _ \<Rightarrow> None)"

fun inject_parts :: "json \<Rightarrow> string list \<Rightarrow> f64 \<Rightarrow> nat \<Rightarrow> db_error + json \<times> nat" where
  "inject_parts node [] key next_id = Inr (node, next_id)" \<comment> \<open>not reached: \<^verbatim>\<open>split\<close> yields at least one part\<close>
| "inject_parts node (name # parts) key next_id =
     (if \<not> (json_tag node = Some ''object'' \<or> json_tag node = Some ''array'')
      then Inl (Data ''inline key path cannot be injected into this value'')
      else case Option.bind (json_get node ''v'') as_array of
        None \<Rightarrow> Inl (Data ''invalid structured clone object'')
      | Some entries \<Rightarrow>
          (let found = position (entry_named name) entries
           in if parts = []
              then (let pair = JArray [JString name, value_from_f64 key]
                    in Inr (json_set node ''v'' (JArray (case found of
                              Some i \<Rightarrow> entries[i := pair] | None \<Rightarrow> entries @ [pair])), next_id))
              else and_then (case found of
                       Some i \<Rightarrow> Inr (i, entries, next_id)
                     | None \<Rightarrow>
                         and_then (ok_or (checked_add next_id 1) Quota) (\<lambda>n.
                           Inr (length entries, entries @ [JArray [JString name, empty_clone next_id]], n)))
                   (\<lambda>(i, entries', n).
                     case second (entries' ! i) of
                       None \<Rightarrow> Inl (Data ''invalid structured clone property'')
                     | Some child \<Rightarrow>
                         and_then (inject_parts child parts key n) (\<lambda>(child', n').
                           Inr (json_set node ''v'' (JArray (entries'[i := replace_second (entries' ! i) child'])), n')))))"

definition inject :: "serde \<Rightarrow> string \<Rightarrow> string \<Rightarrow> key \<Rightarrow> db_error + string" where
  "inject S value path k =
     (case k of
        Number number \<Rightarrow>
          and_then (ok_or (json_from_str S value) (Data ''record is not a structured clone'')) (\<lambda>clone.
            and_then (ok_or (checked_add (maximum_id clone) 1) Quota) (\<lambda>next_id.
              and_then (inject_parts clone (split_on CHR ''.'' path) number next_id) (\<lambda>(clone', _).
                ok_or (json_to_string S clone') (Data ''record is not serializable''))))
      | _ \<Rightarrow> Inl (Data ''generated inline key is not numeric''))"

end
