(* ===== verification/Binary_Search.thy ===== *)
theory Binary_Search
  imports Prelude
begin

text \<open>
  \<^verbatim>\<open>slice::binary_search_by\<close> of the standard library, as its current implementation has it: \<open>Inr i\<close> is \<^verbatim>\<open>Ok(i)\<close>, an
  element that compares equal, and \<open>Inl i\<close> is \<^verbatim>\<open>Err(i)\<close>, the place where one would be inserted.
\<close>

function search_loop :: "(nat \<Rightarrow> ordering) \<Rightarrow> nat \<Rightarrow> nat \<Rightarrow> nat" where
  "search_loop f extent base =
     (if extent \<le> 1 then base
      else let half = extent div 2; mid = base + half
           in search_loop f (extent - half) (if f mid = Greater then base else mid))"
  by pat_completeness auto
termination by (relation "measure (\<lambda>(_, extent, _). extent)") auto

declare search_loop.simps [simp del]

definition binary_search_by :: "('a \<Rightarrow> ordering) \<Rightarrow> 'a list \<Rightarrow> nat + nat" where
  "binary_search_by f xs =
     (if xs = [] then Inl 0
      else let base = search_loop (\<lambda>i. f (xs ! i)) (length xs) 0
           in case f (xs ! base) of
                Equal \<Rightarrow> Inr base
              | Less \<Rightarrow> Inl (base + 1)
              | Greater \<Rightarrow> Inl base)"

text \<open>The comparison results run from \<open>Less\<close> through \<open>Equal\<close> to \<open>Greater\<close>.\<close>

definition partitioned :: "(nat \<Rightarrow> ordering) \<Rightarrow> nat \<Rightarrow> bool" where
  "partitioned f n \<longleftrightarrow> (\<forall>i j. i < j \<longrightarrow> j < n \<longrightarrow>
     (f j = Less \<longrightarrow> f i = Less) \<and> (f i = Greater \<longrightarrow> f j = Greater))"

lemma partitioned_Less: "partitioned f n \<Longrightarrow> f j = Less \<Longrightarrow> i < j \<Longrightarrow> j < n \<Longrightarrow> f i = Less"
  and partitioned_Greater: "partitioned f n \<Longrightarrow> f i = Greater \<Longrightarrow> i \<le> j \<Longrightarrow> j < n \<Longrightarrow> f j = Greater"
  unfolding partitioned_def using nat_less_le by blast+

lemma search_loop_invariant:
  assumes "base + extent \<le> n" "0 < extent" "base = 0 \<or> f base \<noteq> Greater"
    and "\<forall>j. base + extent \<le> j \<longrightarrow> j < n \<longrightarrow> f j = Greater" "partitioned f n"
  shows "search_loop f extent base < n \<and> (search_loop f extent base = 0 \<or> f (search_loop f extent base) \<noteq> Greater) \<and>
    (\<forall>j. search_loop f extent base < j \<longrightarrow> j < n \<longrightarrow> f j = Greater)"
  using assms
proof (induction f extent base rule: search_loop.induct)
  case (1 f extent base)
  show ?case
  proof (cases "extent \<le> 1")
    case True
    then have "extent = 1" using "1.prems"(2) by simp
    then show ?thesis using "1.prems" by (simp add: search_loop.simps)
  next
    case False
    let ?half = "extent div 2" and ?mid = "base + extent div 2"
    let ?base = "if f ?mid = Greater then base else ?mid"
    have half: "0 < ?half" "?half < extent" using False by auto
    have IH: "search_loop f (extent - ?half) ?base < n \<and>
        (search_loop f (extent - ?half) ?base = 0 \<or> f (search_loop f (extent - ?half) ?base) \<noteq> Greater) \<and>
        (\<forall>j. search_loop f (extent - ?half) ?base < j \<longrightarrow> j < n \<longrightarrow> f j = Greater)"
    proof (rule "1.IH" [OF False refl refl])
      show "?base + (extent - ?half) \<le> n" using "1.prems"(1) half by auto
      show "0 < extent - ?half" using half by simp
      show "?base = 0 \<or> f ?base \<noteq> Greater" using "1.prems"(3) by auto
      show "\<forall>j. ?base + (extent - ?half) \<le> j \<longrightarrow> j < n \<longrightarrow> f j = Greater"
      proof (intro allI impI)
        fix j assume j: "?base + (extent - ?half) \<le> j" "j < n"
        show "f j = Greater"
        proof (cases "f ?mid = Greater")
          case True
          have "?mid \<le> j" using j(1) True half by auto
          from partitioned_Greater [OF "1.prems"(5) True this j(2)] show ?thesis .
        next
          case False
          then show ?thesis using j "1.prems"(4) half by auto
        qed
      qed
      show "partitioned f n" by fact
    qed
    moreover have "search_loop f extent base = search_loop f (extent - ?half) ?base"
      using False by (subst search_loop.simps) (simp add: Let_def)
    ultimately show ?thesis by metis
  qed
qed

lemma binary_search_by_found:
  assumes "binary_search_by f xs = Inr i" "partitioned (\<lambda>i. f (xs ! i)) (length xs)"
  shows "i < length xs \<and> f (xs ! i) = Equal"
  using search_loop_invariant [of 0 "length xs" "length xs" "\<lambda>i. f (xs ! i)"] assms
  by (auto simp: binary_search_by_def Let_def split: if_splits ordering.splits)

lemma binary_search_by_absent:
  assumes "binary_search_by f xs = Inl i" "partitioned (\<lambda>i. f (xs ! i)) (length xs)"
  shows "i \<le> length xs \<and> (\<forall>j<i. f (xs ! j) = Less) \<and> (\<forall>j. i \<le> j \<longrightarrow> j < length xs \<longrightarrow> f (xs ! j) = Greater)"
proof (cases "xs = []")
  case True
  then show ?thesis using assms(1) by (simp add: binary_search_by_def)
next
  case False
  define b where "b = search_loop (\<lambda>i. f (xs ! i)) (length xs) 0"
  have inv: "b < length xs" "b = 0 \<or> f (xs ! b) \<noteq> Greater"
      "\<forall>j. b < j \<longrightarrow> j < length xs \<longrightarrow> f (xs ! j) = Greater"
    using search_loop_invariant [of 0 "length xs" "length xs" "\<lambda>i. f (xs ! i)"] assms(2) False unfolding b_def by auto
  have below: "f (xs ! b) = Less \<Longrightarrow> j < b \<Longrightarrow> f (xs ! j) = Less" for j
    using partitioned_Less [OF assms(2), of b j] inv(1) by simp
  show ?thesis
  proof (cases "f (xs ! b)")
    case Less
    then have i: "i = b + 1" using assms(1) False by (simp add: binary_search_by_def Let_def b_def)
    have "f (xs ! j) = Less" if "j < i" for j using below [OF Less] Less that i by (cases "j = b") auto
    then show ?thesis using inv i by auto
  next
    case Equal
    then show ?thesis using assms(1) False by (simp add: binary_search_by_def Let_def b_def)
  next
    case Greater
    then have "i = b" "b = 0" using assms(1) False inv(2) by (auto simp: binary_search_by_def Let_def b_def)
    then show ?thesis using partitioned_Greater [OF assms(2), of 0] Greater by auto
  qed
qed

end
