(* ===== verification/Idb_Store.thy ===== *)
theory Idb_Store
  imports Idb_Index Binary_Search "HOL-Library.Multiset"
begin

text \<open>
  \<^verbatim>\<open>src/indexed_db/model/records.rs\<close> and the index operations of \<^verbatim>\<open>src/indexed_db/model/index.rs\<close>: one object
  store, a vector of records kept sorted by key, and the operations of a transaction on it.
\<close>

record db_record =
  rc_key :: key
  rc_value :: string

record object_store =
  os_definition :: store_definition
  os_next_key :: nat
  os_records :: "db_record list"

datatype db_operation =
    Put string "key option" string bool
  | Get string key
  | GetAll string "key_range option" "nat option" bool
  | Scan string "key_range option" "key option" bool nat bool bool
      \<comment> \<open>store, rng, after, inclusive, skip, reverse, \<^verbatim>\<open>keys_only\<close>\<close>
  | Delete string key
  | DeleteRange string key_range
  | ClearStore string
  | CountRecords string "key_range option"
  | IndexGet string string key_range bool
  | IndexGetAll string string "key_range option" "nat option" bool
  | IndexCount string string "key_range option"
  | IndexScan string string "key_range option" "key option" "key option" bool nat bool bool bool
      \<comment> \<open>store, index, rng, after, \<^verbatim>\<open>after_primary\<close>, inclusive, skip, reverse, unique, \<^verbatim>\<open>keys_only\<close>\<close>

record cursor_record =
  cu_key :: key
  cu_primary_key :: "key option"
  cu_value :: "string option"

datatype db_result =
    RKey key
  | RValue "string option"
  | RValues "string list"
  | RKeys "key list"
  | RRecord "cursor_record option"
  | RCount nat
  | RUnit

datatype transaction_mode = ReadOnly | ReadWrite

fun operation_store :: "db_operation \<Rightarrow> string \<times> bool" where
  "operation_store (Put s _ _ _) = (s, True)"
| "operation_store (Get s _) = (s, False)"
| "operation_store (GetAll s _ _ _) = (s, False)"
| "operation_store (Scan s _ _ _ _ _ _) = (s, False)"
| "operation_store (Delete s _) = (s, True)"
| "operation_store (DeleteRange s _) = (s, True)"
| "operation_store (ClearStore s) = (s, True)"
| "operation_store (CountRecords s _) = (s, False)"
| "operation_store (IndexGet s _ _ _) = (s, False)"
| "operation_store (IndexGetAll s _ _ _ _) = (s, False)"
| "operation_store (IndexCount s _ _) = (s, False)"
| "operation_store (IndexScan s _ _ _ _ _ _ _ _ _) = (s, False)"

section \<open>Unique indexes\<close>

fun seen_all :: "key list \<Rightarrow> key list \<Rightarrow> key list option" where
  "seen_all seen [] = Some seen"
| "seen_all seen (k # ks) = (if kset_contains seen k then None else seen_all (kset_insert k seen) ks)"

fun unique_ok :: "serde \<Rightarrow> index_definition \<Rightarrow> key list \<Rightarrow> db_record list \<Rightarrow> bool" where
  "unique_ok S ix seen [] = True"
| "unique_ok S ix seen (r # rs) =
     (case seen_all seen (keys_for_value S ix (rc_value r)) of
        None \<Rightarrow> False
      | Some seen' \<Rightarrow> unique_ok S ix seen' rs)"

fun validate_indexes_loop :: "serde \<Rightarrow> db_record list \<Rightarrow> string list \<Rightarrow> index_definition list \<Rightarrow> db_error + unit" where
  "validate_indexes_loop S rs names [] = Inr ()"
| "validate_indexes_loop S rs names (ix # ixs) =
     and_then (index_validate ix) (\<lambda>_.
       if ix_name ix \<in> set names then Inl (Constraint ''index name already exists'')
       else if ix_unique ix \<and> \<not> unique_ok S ix [] rs
       then Inl (Constraint ''unique index key already exists'')
       else validate_indexes_loop S rs (ix_name ix # names) ixs)"

definition store_validate_indexes :: "serde \<Rightarrow> object_store \<Rightarrow> db_error + unit" where
  "store_validate_indexes S st = validate_indexes_loop S (os_records st) [] (sd_indexes (os_definition st))"

definition check_unique_index_values :: "serde \<Rightarrow> object_store \<Rightarrow> key \<Rightarrow> string \<Rightarrow> db_error + unit" where
  "check_unique_index_values S st primary value =
     each_ok (\<lambda>ix.
       let proposed = keys_for_value S ix value
       in each_ok (\<lambda>r.
            if \<exists>k\<in>set proposed. \<exists>j\<in>set (keys_for_value S ix (rc_value r)). key_eq j k
            then Inl (Constraint ''unique index key already exists'') else Inr ())
          (filter (\<lambda>r. \<not> key_eq (rc_key r) primary) (os_records st)))
     (filter ix_unique (sd_indexes (os_definition st)))"

section \<open>Index views\<close>

record index_entry =
  ie_key :: key
  ie_primary :: key
  ie_value :: string

definition entry_cmp :: "index_entry \<Rightarrow> index_entry \<Rightarrow> ordering" where
  "entry_cmp a b = then_with (key_cmp (ie_key a) (ie_key b)) (key_cmp (ie_primary a) (ie_primary b))"

definition index_entries :: "serde \<Rightarrow> object_store \<Rightarrow> string \<Rightarrow> db_error + index_entry list" where
  "index_entries S st name =
     (case find (\<lambda>ix. ix_name ix = name) (sd_indexes (os_definition st)) of
        None \<Rightarrow> Inl (InvalidState ''index does not exist'')
      | Some ix \<Rightarrow>
          Inr (sort_by entry_cmp (concat (map (\<lambda>r.
            map (\<lambda>k. \<lparr>ie_key = k, ie_primary = rc_key r, ie_value = rc_value r\<rparr>) (keys_for_value S ix (rc_value r)))
            (os_records st)))))"

definition in_range :: "key_range option \<Rightarrow> key \<Rightarrow> bool" where
  "in_range rng k = (case rng of None \<Rightarrow> True | Some r \<Rightarrow> range_contains r k)"

definition validate_range :: "key_range option \<Rightarrow> db_error + unit" where
  "validate_range rng = (case rng of None \<Rightarrow> Inr () | Some r \<Rightarrow> range_validate r)"

definition validate_key :: "key option \<Rightarrow> db_error + unit" where
  "validate_key k = (case k of None \<Rightarrow> Inr () | Some k' \<Rightarrow> key_validate 0 k')"

definition take_limit :: "nat option \<Rightarrow> 'a list \<Rightarrow> 'a list" where
  "take_limit limit xs = (case limit of None \<Rightarrow> xs | Some n \<Rightarrow> take n xs)"

definition past_cursor :: "bool \<Rightarrow> bool \<Rightarrow> ordering \<Rightarrow> bool" where
  "past_cursor reverse inclusive order =
     (if reverse then order = Less \<or> inclusive \<and> order = Equal
      else order = Greater \<or> inclusive \<and> order = Equal)"

text \<open>The \<^verbatim>\<open>unique\<close> filter keeps an entry whose key differs from the last one it kept.\<close>

fun keep_unique :: "key option \<Rightarrow> index_entry list \<Rightarrow> index_entry list" where
  "keep_unique previous [] = []"
| "keep_unique previous (e # es) =
     (if (case previous of None \<Rightarrow> False | Some p \<Rightarrow> key_eq p (ie_key e)) then keep_unique previous es
      else e # keep_unique (Some (ie_key e)) es)"

definition apply_index :: "serde \<Rightarrow> object_store \<Rightarrow> db_operation \<Rightarrow> db_error + db_result" where
  "apply_index S st operation =
     (case operation of
        IndexGet _ index rng keys_only \<Rightarrow>
          and_then (range_validate rng) (\<lambda>_.
            and_then (index_entries S st index) (\<lambda>entries.
              (let first = find (\<lambda>e. in_range (Some rng) (ie_key e)) entries
               in Inr (if keys_only then RKeys (case first of Some e \<Rightarrow> [ie_primary e] | None \<Rightarrow> [])
                       else RValue (map_option ie_value first)))))
      | IndexGetAll _ index rng limit keys_only \<Rightarrow>
          and_then (validate_range rng) (\<lambda>_.
            and_then (index_entries S st index) (\<lambda>entries.
              (let matches = take_limit limit (filter (\<lambda>e. in_range rng (ie_key e)) entries)
               in Inr (if keys_only then RKeys (map ie_primary matches) else RValues (map ie_value matches)))))
      | IndexCount _ index rng \<Rightarrow>
          and_then (validate_range rng) (\<lambda>_.
            and_then (index_entries S st index) (\<lambda>entries.
              Inr (RCount (length (filter (\<lambda>e. in_range rng (ie_key e)) entries)))))
      | IndexScan _ index rng after after_primary inclusive skip reverse unique keys_only \<Rightarrow>
          and_then (validate_range rng) (\<lambda>_.
            and_then (index_entries S st index) (\<lambda>entries.
              and_then (validate_key after) (\<lambda>_.
                and_then (validate_key after_primary) (\<lambda>_.
                  (let ordered = (if reverse then rev entries else entries);
                       ranged = filter (\<lambda>e. in_range rng (ie_key e)) ordered;
                       kept = (if unique then keep_unique None ranged else ranged);
                       beyond = filter (\<lambda>e. case after of
                                    None \<Rightarrow> True
                                  | Some a \<Rightarrow>
                                      past_cursor reverse inclusive
                                        (case key_cmp (ie_key e) a of
                                           Equal \<Rightarrow> (case after_primary of None \<Rightarrow> Equal | Some p \<Rightarrow> key_cmp (ie_primary e) p)
                                         | order \<Rightarrow> order)) kept
                   in Inr (RRecord (map_option (\<lambda>e.
                        \<lparr>cu_key = ie_key e, cu_primary_key = Some (ie_primary e),
                         cu_value = (if keys_only then None else Some (ie_value e))\<rparr>) (list_get beyond skip))))))))
      | _ \<Rightarrow> Inr RUnit)" \<comment> \<open>not reached\<close>

section \<open>Records\<close>

definition locate :: "db_record list \<Rightarrow> key \<Rightarrow> nat + nat" where
  "locate rs k = binary_search_by (\<lambda>r. key_cmp (rc_key r) k) rs"

definition list_insert :: "nat \<Rightarrow> 'a \<Rightarrow> 'a list \<Rightarrow> 'a list" where
  "list_insert i x xs = take i xs @ x # drop i xs"

definition list_remove :: "nat \<Rightarrow> 'a list \<Rightarrow> 'a list" where
  "list_remove i xs = take i xs @ drop (Suc i) xs"

text \<open>The key of a put, the store with its generator advanced, and whether the key was generated.\<close>

definition put_key :: "object_store \<Rightarrow> key option \<Rightarrow> db_error + key \<times> bool \<times> object_store" where
  "put_key st k =
     (case k of
        Some k' \<Rightarrow> Inr (k', False, st)
      | None \<Rightarrow>
          if sd_auto_increment (os_definition st)
          then and_then (ok_or (checked_add (os_next_key st) 1) Quota) (\<lambda>n.
                 Inr (Number (f64_of_u64 (os_next_key st)), True, st\<lparr>os_next_key := n\<rparr>))
          else Inl (Data ''record has no key''))"

definition bump_generator :: "key \<Rightarrow> object_store \<Rightarrow> object_store" where
  "bump_generator k st =
     (case k of
        Number number \<Rightarrow>
          if sd_auto_increment (os_definition st) \<and> f64_ge number (f64_of_u64 (os_next_key st)) \<and> f64_lt number two_pow_53
          then st\<lparr>os_next_key := f64_floor_u64 number + 1\<rparr> else st
      | _ \<Rightarrow> st)"

definition put_record :: "object_store \<Rightarrow> key \<Rightarrow> string \<Rightarrow> bool \<Rightarrow> db_error + object_store" where
  "put_record st k value overwrite =
     (case locate (os_records st) k of
        Inr i \<Rightarrow>
          if \<not> overwrite then Inl (Constraint ''record already exists'')
          else Inr (st\<lparr>os_records := (os_records st)[i := (os_records st ! i)\<lparr>rc_value := value\<rparr>]\<rparr>)
      | Inl i \<Rightarrow> Inr (st\<lparr>os_records := list_insert i \<lparr>rc_key = k, rc_value = value\<rparr> (os_records st)\<rparr>))"

definition store_put :: "serde \<Rightarrow> object_store \<Rightarrow> key option \<Rightarrow> string \<Rightarrow> bool \<Rightarrow>
    db_error + db_result \<times> object_store" where
  "store_put S st key0 value overwrite =
     (if length value > MAX_ORIGIN_BYTES then Inl Quota
      else and_then (put_key st key0) (\<lambda>(k, generated, st1).
        and_then (key_validate 0 k) (\<lambda>_.
          and_then (if generated
                    then (case sd_key_path (os_definition st1) of
                            Some path \<Rightarrow> inject S value path k
                          | None \<Rightarrow> Inr value)
                    else Inr value) (\<lambda>stored.
            and_then (check_unique_index_values S st1 k stored) (\<lambda>_.
              and_then (put_record (bump_generator k st1) k stored overwrite) (\<lambda>st2.
                Inr (RKey k, st2)))))))"

definition store_apply :: "serde \<Rightarrow> object_store \<Rightarrow> db_operation \<Rightarrow> db_error + db_result \<times> object_store" where
  "store_apply S st operation =
     (case operation of
        Put _ k value overwrite \<Rightarrow> store_put S st k value overwrite
      | Get _ k \<Rightarrow>
          and_then (key_validate 0 k) (\<lambda>_.
            Inr (RValue (case locate (os_records st) k of
                           Inr i \<Rightarrow> Some (rc_value (os_records st ! i)) | Inl _ \<Rightarrow> None), st))
      | GetAll _ rng limit keys_only \<Rightarrow>
          and_then (validate_range rng) (\<lambda>_.
            (let records = take_limit limit (filter (\<lambda>r. in_range rng (rc_key r)) (os_records st))
             in Inr (if keys_only then RKeys (map rc_key records) else RValues (map rc_value records), st)))
      | Scan _ rng after inclusive skip reverse keys_only \<Rightarrow>
          and_then (validate_range rng) (\<lambda>_.
            and_then (validate_key after) (\<lambda>_.
              (let records = (if reverse then rev (os_records st) else os_records st);
                   beyond = filter (\<lambda>r. in_range rng (rc_key r) \<and>
                     (case after of None \<Rightarrow> True | Some a \<Rightarrow> past_cursor reverse inclusive (key_cmp (rc_key r) a))) records
               in Inr (RRecord (map_option (\<lambda>r.
                    \<lparr>cu_key = rc_key r, cu_primary_key = None,
                     cu_value = (if keys_only then None else Some (rc_value r))\<rparr>) (list_get beyond skip)), st))))
      | Delete _ k \<Rightarrow>
          and_then (key_validate 0 k) (\<lambda>_.
            Inr (RUnit, case locate (os_records st) k of
                          Inr i \<Rightarrow> st\<lparr>os_records := list_remove i (os_records st)\<rparr> | Inl _ \<Rightarrow> st))
      | DeleteRange _ rng \<Rightarrow>
          and_then (range_validate rng) (\<lambda>_.
            Inr (RUnit, st\<lparr>os_records := filter (\<lambda>r. \<not> range_contains rng (rc_key r)) (os_records st)\<rparr>))
      | ClearStore _ \<Rightarrow> Inr (RUnit, st\<lparr>os_records := []\<rparr>)
      | CountRecords _ rng \<Rightarrow>
          and_then (validate_range rng) (\<lambda>_.
            Inr (RCount (length (filter (\<lambda>r. in_range rng (rc_key r)) (os_records st))), st))
      | _ \<Rightarrow> and_then (apply_index S st operation) (\<lambda>r. Inr (r, st)))"

section \<open>The sorted vector as a map\<close>

definition records_sorted :: "db_record list \<Rightarrow> bool" where
  "records_sorted rs \<longleftrightarrow> sorted_wrt (\<lambda>a b. key_cmp (rc_key a) (rc_key b) = Less) rs"

definition lookup :: "db_record list \<Rightarrow> key \<Rightarrow> string option" where
  "lookup rs k = map_option rc_value (find (\<lambda>r. key_cmp (rc_key r) k = Equal) rs)"

lemma records_sorted_Nil [simp]: "records_sorted []"
  by (simp add: records_sorted_def)

lemma records_sorted_nth:
  "records_sorted rs \<Longrightarrow> i < j \<Longrightarrow> j < length rs \<Longrightarrow> key_cmp (rc_key (rs ! i)) (rc_key (rs ! j)) = Less"
  unfolding records_sorted_def by (drule sorted_wrt_nth_less) auto

lemma records_sorted_filter: "records_sorted rs \<Longrightarrow> records_sorted (filter p rs)"
  by (simp add: records_sorted_def sorted_wrt_filter)

lemma records_partitioned:
  assumes "records_sorted rs" shows "partitioned (\<lambda>i. key_cmp (rc_key (rs ! i)) k) (length rs)"
  unfolding partitioned_def
proof (intro allI impI conjI)
  fix i j assume ij: "i < j" "j < length rs"
  note less = records_sorted_nth [OF assms ij]
  show "key_cmp (rc_key (rs ! i)) k = Less" if "key_cmp (rc_key (rs ! j)) k = Less"
    using key.less_trans [OF _ _ _ less] that by simp
  show "key_cmp (rc_key (rs ! j)) k = Greater" if "key_cmp (rc_key (rs ! i)) k = Greater"
    using key.less_trans [OF _ _ _ _ , of k "rc_key (rs ! i)" "rc_key (rs ! j)"] less that
    by (simp add: key.greater_iff)
qed

lemma records_unique:
  assumes "records_sorted rs" "r \<in> set rs" "s \<in> set rs" "key_cmp (rc_key r) k = Equal" "key_cmp (rc_key s) k = Equal"
  shows "r = s"
proof -
  obtain i j where ij: "i < length rs" "r = rs ! i" "j < length rs" "s = rs ! j"
    using assms(2,3) by (auto simp: in_set_conv_nth)
  have eq: "key_cmp (rc_key r) (rc_key s) = Equal" "key_cmp (rc_key s) (rc_key r) = Equal"
    using assms(4,5) key.equal_trans key.equal_sym by blast+
  have "i = j"
    using records_sorted_nth [OF assms(1), of i j] records_sorted_nth [OF assms(1), of j i] ij eq
    by (cases i j rule: linorder_cases) auto
  then show ?thesis using ij by simp
qed

lemma lookup_Some:
  assumes "records_sorted rs"
  shows "lookup rs k = Some v \<longleftrightarrow> (\<exists>r\<in>set rs. key_cmp (rc_key r) k = Equal \<and> rc_value r = v)"
proof
  assume "lookup rs k = Some v"
  then show "\<exists>r\<in>set rs. key_cmp (rc_key r) k = Equal \<and> rc_value r = v"
    by (auto simp: lookup_def dest: find_Some_mem)
next
  assume "\<exists>r\<in>set rs. key_cmp (rc_key r) k = Equal \<and> rc_value r = v"
  then obtain r where r: "r \<in> set rs" "key_cmp (rc_key r) k = Equal" "rc_value r = v" by blast
  then obtain s where s: "find (\<lambda>r. key_cmp (rc_key r) k = Equal) rs = Some s"
    by (cases "find (\<lambda>r. key_cmp (rc_key r) k = Equal) rs") (auto simp: find_None_iff)
  then have "s = r" using records_unique [OF assms _ r(1) _ r(2)] find_Some_mem [OF s] by blast
  then show "lookup rs k = Some v" using s r by (simp add: lookup_def)
qed

lemma lookup_None: "lookup rs k = None \<longleftrightarrow> (\<forall>r\<in>set rs. key_cmp (rc_key r) k \<noteq> Equal)"
  by (auto simp: lookup_def find_None_iff)

lemma locate_found:
  "locate rs k = Inr i \<Longrightarrow> records_sorted rs \<Longrightarrow> i < length rs \<and> key_cmp (rc_key (rs ! i)) k = Equal"
  unfolding locate_def by (rule binary_search_by_found) (auto intro: records_partitioned)

lemma locate_absent:
  "locate rs k = Inl i \<Longrightarrow> records_sorted rs \<Longrightarrow> i \<le> length rs \<and>
     (\<forall>j<i. key_cmp (rc_key (rs ! j)) k = Less) \<and> (\<forall>j. i \<le> j \<longrightarrow> j < length rs \<longrightarrow> key_cmp (rc_key (rs ! j)) k = Greater)"
  unfolding locate_def by (rule binary_search_by_absent) (auto intro: records_partitioned)

lemma locate_absent_sets:
  assumes "locate rs k = Inl i" "records_sorted rs"
  shows "\<forall>r\<in>set (take i rs). key_cmp (rc_key r) k = Less" "\<forall>r\<in>set (drop i rs). key_cmp (rc_key r) k = Greater"
  using locate_absent [OF assms] by (auto simp: in_set_conv_nth)

lemma locate_lookup:
  assumes "records_sorted rs"
  shows "(case locate rs k of Inr i \<Rightarrow> Some (rc_value (rs ! i)) | Inl _ \<Rightarrow> None) = lookup rs k"
proof (cases "locate rs k")
  case (Inl i)
  have "\<forall>r\<in>set rs. key_cmp (rc_key r) k \<noteq> Equal"
    using locate_absent_sets [OF Inl assms] append_take_drop_id [of i rs] by (metis Un_iff ordering.distinct set_append)
  then have "lookup rs k = None" by (simp add: lookup_None)
  then show ?thesis using Inl by simp
next
  case (Inr i)
  then have "lookup rs k = Some (rc_value (rs ! i))"
    using locate_found [OF Inr assms] lookup_Some [OF assms] by auto
  then show ?thesis using Inr by simp
qed

section \<open>Writing one record\<close>

lemma put_record_Inl:
  assumes "put_record st k v overwrite = Inl e" "records_sorted (os_records st)"
  shows "\<not> overwrite \<and> e = Constraint ''record already exists'' \<and> lookup (os_records st) k \<noteq> None"
proof (cases "locate (os_records st) k")
  case (Inr i)
  then have "lookup (os_records st) k = Some (rc_value (os_records st ! i))"
    using locate_lookup [OF assms(2), of k] by simp
  then show ?thesis using assms(1) Inr by (auto simp: put_record_def split: if_splits)
qed (use assms(1) in \<open>simp add: put_record_def\<close>)

lemma set_update_key:
  assumes "records_sorted rs" "i < length rs"
  shows "set (rs[i := (rs ! i)\<lparr>rc_value := v\<rparr>]) =
           {r \<in> set rs. key_cmp (rc_key r) (rc_key (rs ! i)) \<noteq> Equal} \<union> {(rs ! i)\<lparr>rc_value := v\<rparr>}"
proof -
  have "distinct rs"
    unfolding distinct_conv_nth
    using records_sorted_nth [OF assms(1)] key.cmp_refl by (metis linorder_neqE_nat ordering.distinct(1))
  then have "set (rs[i := (rs ! i)\<lparr>rc_value := v\<rparr>]) = insert ((rs ! i)\<lparr>rc_value := v\<rparr>) (set rs - {rs ! i})"
    using assms(2) by (rule set_update_distinct)
  moreover have "set rs - {rs ! i} = {r \<in> set rs. key_cmp (rc_key r) (rc_key (rs ! i)) \<noteq> Equal}"
    using records_unique [OF assms(1) _ nth_mem [OF assms(2)], of _ "rc_key (rs ! i)"] key.cmp_refl by auto
  ultimately show ?thesis by simp
qed

lemma lookup_replaced:
  assumes "records_sorted rs" "records_sorted rs'" "key_cmp (rc_key r) k = Equal"
    and "set rs' = {s \<in> set rs. key_cmp (rc_key s) k \<noteq> Equal} \<union> {r}"
  shows "lookup rs' k' = (if key_cmp k k' = Equal then Some (rc_value r) else lookup rs k')"
proof (cases "key_cmp k k' = Equal")
  case True
  then have "key_cmp (rc_key r) k' = Equal" using assms(3) key.equal_trans by blast
  then have "lookup rs' k' = Some (rc_value r)" using lookup_Some [OF assms(2)] assms(4) by blast
  then show ?thesis using True by simp
next
  case False
  have r: "key_cmp (rc_key r) k' \<noteq> Equal"
    using False assms(3) key.equal_sym key.equal_trans by blast
  have s: "key_cmp (rc_key s) k \<noteq> Equal" if "key_cmp (rc_key s) k' = Equal" for s
    using False that key.equal_sym key.equal_trans by blast
  have "lookup rs' k' = Some v \<longleftrightarrow> lookup rs k' = Some v" for v
    unfolding lookup_Some [OF assms(1)] lookup_Some [OF assms(2)] assms(4) using r s by blast
  then show ?thesis using False by (metis option.exhaust)
qed

lemma put_record_set:
  assumes "put_record st k v overwrite = Inr st'" and sorted: "records_sorted (os_records st)"
  shows "records_sorted (os_records st') \<and> os_definition st' = os_definition st \<and> os_next_key st' = os_next_key st \<and>
    (\<exists>r. key_cmp (rc_key r) k = Equal \<and> rc_value r = v \<and>
       (rc_key r = k \<or> (\<exists>s\<in>set (os_records st). rc_key s = rc_key r)) \<and>
       set (os_records st') = {s \<in> set (os_records st). key_cmp (rc_key s) k \<noteq> Equal} \<union> {r})"
proof (cases "locate (os_records st) k")
  case (Inr i)
  let ?rs = "os_records st"
  have i: "i < length ?rs" "key_cmp (rc_key (?rs ! i)) k = Equal" using locate_found [OF Inr sorted] by simp_all
  have st': "st' = st\<lparr>os_records := ?rs[i := (?rs ! i)\<lparr>rc_value := v\<rparr>]\<rparr>"
    using assms(1) Inr by (simp add: put_record_def split: if_splits)
  have "map rc_key (?rs[i := (?rs ! i)\<lparr>rc_value := v\<rparr>]) = map rc_key ?rs"
    using i(1) by (simp add: map_update list_update_same_conv)
  then have "sorted_wrt (\<lambda>a b. key_cmp a b = Less) (map rc_key (?rs[i := (?rs ! i)\<lparr>rc_value := v\<rparr>]))"
    using sorted by (simp add: records_sorted_def sorted_wrt_map)
  then have "records_sorted (os_records st')"
    by (simp add: st' records_sorted_def sorted_wrt_map)
  moreover have "key_cmp (rc_key s) (rc_key (?rs ! i)) = Equal \<longleftrightarrow> key_cmp (rc_key s) k = Equal" for s :: db_record
    using i(2) key.equal_sym key.equal_trans by blast
  ultimately show ?thesis
    using set_update_key [OF sorted i(1), of v] i(2)
    by (intro conjI exI [of _ "(?rs ! i)\<lparr>rc_value := v\<rparr>"] disjI2 bexI [of _ "?rs ! i"]) (simp_all add: st' i(1))
next
  case (Inl i)
  let ?rs = "os_records st"
  let ?r = "\<lparr>rc_key = k, rc_value = v\<rparr>"
  have st': "st' = st\<lparr>os_records := take i ?rs @ ?r # drop i ?rs\<rparr>"
    using assms(1) Inl by (simp add: put_record_def list_insert_def)
  note S = locate_absent_sets [OF Inl sorted]
  have "records_sorted (take i ?rs @ drop i ?rs)" using sorted by simp
  then have "sorted_wrt (\<lambda>a b. key_cmp (rc_key a) (rc_key b) = Less) (take i ?rs)"
      "sorted_wrt (\<lambda>a b. key_cmp (rc_key a) (rc_key b) = Less) (drop i ?rs)"
      "\<forall>a\<in>set (take i ?rs). \<forall>b\<in>set (drop i ?rs). key_cmp (rc_key a) (rc_key b) = Less"
    unfolding records_sorted_def sorted_wrt_append by blast+
  then have "records_sorted (os_records st')"
    using S key.greater_iff by (auto simp: st' records_sorted_def sorted_wrt_append)
  moreover have "set ?rs = set (take i ?rs) \<union> set (drop i ?rs)"
    by (metis append_take_drop_id set_append)
  then have "{s \<in> set ?rs. key_cmp (rc_key s) k \<noteq> Equal} = set (take i ?rs) \<union> set (drop i ?rs)"
    using S by auto
  ultimately show ?thesis
    by (intro conjI exI [of _ ?r]) (auto simp: st' key.cmp_refl)
qed

lemma put_record_lookup:
  assumes "put_record st k v overwrite = Inr st'" "records_sorted (os_records st)"
  shows "lookup (os_records st') k' = (if key_cmp k k' = Equal then Some v else lookup (os_records st) k')"
  using put_record_set [OF assms] lookup_replaced [OF assms(2)] by blast

lemma put_record_fresh:
  assumes "put_record st k v overwrite = Inr st'" "records_sorted (os_records st)"
  shows "overwrite \<or> lookup (os_records st) k = None"
  using assms(1) locate_lookup [OF assms(2), of k] by (auto simp: put_record_def split: sum.splits if_splits)

section \<open>What every operation keeps\<close>

definition store_inv :: "object_store \<Rightarrow> bool" where
  "store_inv st \<longleftrightarrow> records_sorted (os_records st) \<and> 0 < os_next_key st \<and>
     (\<forall>r\<in>set (os_records st). key_validate 0 (rc_key r) = Inr ())"

lemma put_key_Inr:
  assumes "put_key st k0 = Inr (k, generated, st')"
  shows "os_records st' = os_records st" "os_definition st' = os_definition st"
    and "os_next_key st \<le> os_next_key st'" "generated \<longleftrightarrow> k0 = None"
    and "k0 = None \<Longrightarrow> k = Number (f64_of_u64 (os_next_key st)) \<and> os_next_key st' = os_next_key st + 1"
    and "k0 = Some j \<Longrightarrow> k = j \<and> st' = st"
  using assms by (auto simp: put_key_def result_simps split: option.splits if_splits)

lemma bump_generator_same [simp]:
  "os_records (bump_generator k st) = os_records st" "os_definition (bump_generator k st) = os_definition st"
  by (auto simp: bump_generator_def split: key.splits)

lemma bump_generator_pos: "0 < os_next_key st \<Longrightarrow> 0 < os_next_key (bump_generator k st)"
  by (auto simp: bump_generator_def split: key.splits)

text \<open>The stages of a put. A generated key is written into the value where the store has a key path.\<close>

definition stored_as :: "serde \<Rightarrow> object_store \<Rightarrow> key option \<Rightarrow> key \<Rightarrow> string \<Rightarrow> string \<Rightarrow> bool" where
  "stored_as S st k0 k value stored =
     (case (k0, sd_key_path (os_definition st)) of
        (None, Some path) \<Rightarrow> inject S value path k = Inr stored
      | _ \<Rightarrow> stored = value)"

lemma store_put_Inr:
  assumes "store_put S st k0 value overwrite = Inr (res, st')"
  obtains k generated st1 stored where "put_key st k0 = Inr (k, generated, st1)" "key_validate 0 k = Inr ()"
    and "check_unique_index_values S st1 k stored = Inr ()" "res = RKey k"
    and "put_record (bump_generator k st1) k stored overwrite = Inr st'"
    and "stored_as S st k0 k value stored"
proof -
  from assms obtain k generated st1 where pk: "put_key st k0 = Inr (k, generated, st1)"
    by (auto simp: store_put_def result_simps split: if_splits)
  note A = assms [unfolded store_put_def, simplified pk result_simps, simplified]
  from A obtain stored where
      "(if generated then (case sd_key_path (os_definition st1) of Some path \<Rightarrow> inject S value path k | None \<Rightarrow> Inr value)
        else Inr value) = Inr stored"
    and "key_validate 0 k = Inr ()" "check_unique_index_values S st1 k stored = Inr ()"
    and "put_record (bump_generator k st1) k stored overwrite = Inr st'" "res = RKey k"
    by (auto simp: result_simps split: if_splits)
  with pk put_key_Inr(2,4) [OF pk] show thesis
    by (intro that [of k generated st1 stored]) (auto simp: stored_as_def split: if_splits option.splits)
qed

lemma store_put_inv:
  assumes "store_put S st k0 value overwrite = Inr (res, st')" "store_inv st"
  shows "store_inv st'"
  using assms(1)
proof (rule store_put_Inr)
  fix k generated st1 stored
  assume pk: "put_key st k0 = Inr (k, generated, st1)" and val: "key_validate 0 k = Inr ()"
    and pr: "put_record (bump_generator k st1) k stored overwrite = Inr st'"
  note P = put_key_Inr [OF pk]
  have "records_sorted (os_records (bump_generator k st1))" using P(1) assms(2) by (simp add: store_inv_def)
  note R = put_record_set [OF pr this]
  have "0 < os_next_key st1" using P(3) assms(2) by (simp add: store_inv_def)
  then have "0 < os_next_key st'" using R bump_generator_pos by simp
  moreover obtain r where r: "rc_key r = k \<or> (\<exists>s\<in>set (os_records st). rc_key s = rc_key r)"
      "set (os_records st') = {s \<in> set (os_records st). key_cmp (rc_key s) k \<noteq> Equal} \<union> {r}"
    using R P(1) by auto
  moreover have "key_validate 0 (rc_key r) = Inr ()"
    using r(1) val assms(2) by (auto simp: store_inv_def)
  ultimately show ?thesis
    using R assms(2) by (auto simp: store_inv_def)
qed

lemma list_remove_sorted:
  assumes "records_sorted rs" shows "records_sorted (list_remove i rs)"
proof (cases "drop i rs")
  case Nil
  then show ?thesis using assms by (simp add: list_remove_def)
next
  case (Cons a list)
  then have "drop (Suc i) rs = list" by (metis drop_Suc list.sel(3) tl_drop)
  moreover have "records_sorted (take i rs @ a # list)" using assms Cons by (metis append_take_drop_id)
  ultimately show ?thesis by (simp add: list_remove_def records_sorted_def sorted_wrt_append)
qed

lemma set_list_remove: "set (list_remove i rs) \<subseteq> set rs"
  by (auto simp: list_remove_def dest: in_set_takeD in_set_dropD)

lemma store_apply_inv:
  assumes "store_apply S st operation = Inr (res, st')" "store_inv st"
  shows "store_inv st'"
proof (cases operation)
  case (Put s k v ow)
  then show ?thesis using assms store_put_inv by (simp add: store_apply_def)
next
  case (Delete s k)
  then show ?thesis
    using assms list_remove_sorted set_list_remove
    by (fastforce simp: store_apply_def result_simps store_inv_def split: sum.splits)
next
  case (DeleteRange s rng)
  then show ?thesis
    using assms by (auto simp: store_apply_def result_simps store_inv_def records_sorted_filter)
next
  case (ClearStore s)
  then show ?thesis using assms by (auto simp: store_apply_def store_inv_def)
qed (use assms in \<open>auto simp: store_apply_def result_simps Let_def\<close>)

section \<open>Unique indexes stay unique\<close>

definition keys_disjoint :: "key list \<Rightarrow> key list \<Rightarrow> bool" where
  "keys_disjoint ks js \<longleftrightarrow> (\<forall>k\<in>set ks. \<forall>j\<in>set js. \<not> key_eq k j)"

definition unique_inv :: "serde \<Rightarrow> object_store \<Rightarrow> bool" where
  "unique_inv S st \<longleftrightarrow> (\<forall>ix\<in>set (sd_indexes (os_definition st)). ix_unique ix \<longrightarrow>
     (\<forall>r\<in>set (os_records st). \<forall>s\<in>set (os_records st). key_cmp (rc_key r) (rc_key s) \<noteq> Equal \<longrightarrow>
        keys_disjoint (keys_for_value S ix (rc_value r)) (keys_for_value S ix (rc_value s))))"

lemma key_eq_sym: "key_eq a b = key_eq b a"
proof (induction a b rule: key_eq.induct)
  case (5 xs ys)
  have "list_all2 key_eq xs ys = list_all2 (\<lambda>x y. key_eq y x) xs ys"
    using 5 unfolding list_all2_conv_all_nth by (metis nth_mem)
  also have "\<dots> = list_all2 key_eq ys xs" by (metis conversep.simps list.rel_conversep list_all2_conv_all_nth)
  finally show ?case by simp
qed (auto simp: f64_eq_def)

lemma keys_disjoint_sym: "keys_disjoint a b \<Longrightarrow> keys_disjoint b a"
  using key_eq_sym by (auto simp: keys_disjoint_def)

lemma check_unique_Inr:
  assumes "check_unique_index_values S st primary value = Inr ()" "ix \<in> set (sd_indexes (os_definition st))" "ix_unique ix"
    and "r \<in> set (os_records st)" "key_cmp (rc_key r) primary \<noteq> Equal"
  shows "keys_disjoint (keys_for_value S ix (rc_value r)) (keys_for_value S ix value)"
proof -
  have "\<not> key_eq (rc_key r) primary" using assms(5) key_eq_cmp by blast
  then show ?thesis
    using assms(1-4) by (auto simp: check_unique_index_values_def Let_def keys_disjoint_def split: if_splits)
qed

lemma unique_inv_subset:
  "unique_inv S st \<Longrightarrow> set (os_records st') \<subseteq> set (os_records st) \<Longrightarrow> os_definition st' = os_definition st \<Longrightarrow>
     unique_inv S st'"
  by (auto simp: unique_inv_def)

lemma store_put_unique:
  assumes "store_put S st k0 value overwrite = Inr (res, st')" "store_inv st" "unique_inv S st"
  shows "unique_inv S st'"
  using assms(1)
proof (rule store_put_Inr)
  fix k generated st1 stored
  assume pk: "put_key st k0 = Inr (k, generated, st1)" and cu: "check_unique_index_values S st1 k stored = Inr ()"
    and pr: "put_record (bump_generator k st1) k stored overwrite = Inr st'"
  note P = put_key_Inr(1,2) [OF pk]
  have "records_sorted (os_records (bump_generator k st1))" using P(1) assms(2) by (simp add: store_inv_def)
  from put_record_set [OF pr this] obtain r where r: "key_cmp (rc_key r) k = Equal" "rc_value r = stored"
    and set': "set (os_records st') = {s \<in> set (os_records st). key_cmp (rc_key s) k \<noteq> Equal} \<union> {r}"
    and d: "os_definition st' = os_definition st"
    using P by auto
  show ?thesis
    unfolding unique_inv_def
  proof (intro ballI impI)
    fix ix a b
    assume ix: "ix \<in> set (sd_indexes (os_definition st'))" "ix_unique ix"
      and ab: "a \<in> set (os_records st')" "b \<in> set (os_records st')" "key_cmp (rc_key a) (rc_key b) \<noteq> Equal"
    have new: "keys_disjoint (keys_for_value S ix (rc_value s)) (keys_for_value S ix stored)"
      if "s \<in> set (os_records st)" "key_cmp (rc_key s) k \<noteq> Equal" for s
      using check_unique_Inr [OF cu _ ix(2) _ that(2)] ix(1) that(1) P d by simp
    consider "a \<in> set (os_records st)" "b \<in> set (os_records st)" | "a = r" "b \<in> set (os_records st)" "key_cmp (rc_key b) k \<noteq> Equal"
      | "b = r" "a \<in> set (os_records st)" "key_cmp (rc_key a) k \<noteq> Equal" | "a = r" "b = r"
      using ab(1,2) unfolding set' by blast
    then show "keys_disjoint (keys_for_value S ix (rc_value a)) (keys_for_value S ix (rc_value b))"
    proof cases
      case 1
      then show ?thesis using assms(3) ix ab(3) d by (simp add: unique_inv_def)
    next
      case 2
      then show ?thesis using new keys_disjoint_sym r(2) by blast
    next
      case 3
      then show ?thesis using new r(2) by blast
    next
      case 4
      then show ?thesis using ab(3) key.cmp_refl by simp
    qed
  qed
qed

lemma store_apply_unique:
  assumes "store_apply S st operation = Inr (res, st')" "store_inv st" "unique_inv S st"
  shows "unique_inv S st'"
proof (cases operation)
  case (Put s k v ow)
  then show ?thesis using assms store_put_unique by (simp add: store_apply_def)
next
  case (Delete s k)
  then show ?thesis
    using assms(1) set_list_remove
    by (intro unique_inv_subset [OF assms(3)]) (fastforce simp: store_apply_def result_simps split: sum.splits)+
next
  case (DeleteRange s rng)
  then show ?thesis
    using assms(1) by (intro unique_inv_subset [OF assms(3)]) (auto simp: store_apply_def result_simps)
next
  case (ClearStore s)
  then show ?thesis
    using assms(1) by (intro unique_inv_subset [OF assms(3)]) (auto simp: store_apply_def)
qed (use assms in \<open>auto simp: store_apply_def result_simps Let_def\<close>)

section \<open>Generated keys\<close>


definition below_generator :: "nat \<Rightarrow> key \<Rightarrow> bool" where
  "below_generator n k \<longleftrightarrow> (\<forall>x. k = Number x \<longrightarrow> f64_lt x two_pow_53 \<longrightarrow> total_key x < total_key (f64_of_u64 n))"

text \<open>Every numeric key below \<^verbatim>\<open>2^53\<close> is below the generator.\<close>

definition generator_inv :: "object_store \<Rightarrow> bool" where
  "generator_inv st \<longleftrightarrow> 0 < os_next_key st \<and> os_next_key st \<le> 2 ^ 53 \<and>
     (\<forall>r\<in>set (os_records st). below_generator (os_next_key st) (rc_key r))"

lemma below_generator_mono: "below_generator n k \<Longrightarrow> 0 < n \<Longrightarrow> n \<le> m \<Longrightarrow> m \<le> 2 ^ 53 \<Longrightarrow> below_generator m k"
  unfolding below_generator_def using f64_of_u64_mono less_le_trans by blast

lemma bump_generator_bounds:
  assumes "sd_auto_increment (os_definition st)" "0 < os_next_key st" "os_next_key st \<le> 2 ^ 53"
  shows "os_next_key st \<le> os_next_key (bump_generator k st)" "os_next_key (bump_generator k st) \<le> 2 ^ 53"
    and "key_validate 0 k = Inr () \<Longrightarrow> below_generator (os_next_key (bump_generator k st)) k"
proof -
  let ?n = "os_next_key st"
  have "?n \<le> os_next_key (bump_generator k st) \<and> os_next_key (bump_generator k st) \<le> 2 ^ 53 \<and>
      (key_validate 0 k = Inr () \<longrightarrow> below_generator (os_next_key (bump_generator k st)) k)"
  proof (cases k)
    case (Number x)
    show ?thesis
    proof (cases "f64_ge x (f64_of_u64 ?n) \<and> f64_lt x two_pow_53")
      case True
      note E = f64_ge_exponent [OF conjunct1 [OF True] assms(2,3)]
      note B = total_key_below_next [OF E(1,2) conjunct2 [OF True]]
      have "?n \<le> f64_floor_u64 x + 1"
      proof (rule ccontr)
        assume "\<not> ?n \<le> f64_floor_u64 x + 1"
        then have "total_key (f64_of_u64 (f64_floor_u64 x + 1)) \<le> total_key (f64_of_u64 ?n)"
          using assms(3) by (intro f64_of_u64_mono) auto
        with B(1) True f64_of_u64_key(4) [OF assms(2,3)] show False
          by (auto simp: f64_ge_def f64_total_cmp_def)
      qed
      then show ?thesis
        using Number True B assms(1) by (auto simp: bump_generator_def below_generator_def)
    next
      case False
      have "key_validate 0 k = Inr () \<Longrightarrow> \<not> is_nan x"
        by (simp add: Number key_validate.simps is_nan_def is_finite_def split: if_splits)
      then show ?thesis
        using Number False assms f64_of_u64_key(2,4) [OF assms(2,3)]
        by (auto simp: bump_generator_def below_generator_def f64_ge_def f64_total_cmp_def f64_lt_def)
    qed
  qed (use assms in \<open>simp_all add: bump_generator_def below_generator_def\<close>)
  then show "?n \<le> os_next_key (bump_generator k st)" "os_next_key (bump_generator k st) \<le> 2 ^ 53"
    and "key_validate 0 k = Inr () \<Longrightarrow> below_generator (os_next_key (bump_generator k st)) k" by blast+
qed

lemma store_put_generator:
  assumes "store_put S st k0 value overwrite = Inr (res, st')" "store_inv st" "generator_inv st"
    and "sd_auto_increment (os_definition st)" "os_next_key st < 2 ^ 53"
  shows "generator_inv st'"
    and "k0 = None \<Longrightarrow> res = RKey (Number (f64_of_u64 (os_next_key st))) \<and>
           lookup (os_records st) (Number (f64_of_u64 (os_next_key st))) = None"
proof -
  let ?n = "os_next_key st"
  have n: "0 < ?n" "?n \<le> 2 ^ 53" using assms(3,5) by (simp_all add: generator_inv_def)
  show "generator_inv st'"
    using assms(1)
  proof (rule store_put_Inr)
    fix k generated st1 stored
    assume pk: "put_key st k0 = Inr (k, generated, st1)" and val: "key_validate 0 k = Inr ()"
      and pr: "put_record (bump_generator k st1) k stored overwrite = Inr st'"
    note P = put_key_Inr [OF pk]
    have n1: "0 < os_next_key st1" "os_next_key st1 \<le> 2 ^ 53" "?n \<le> os_next_key st1"
      using P(3,5,6) n assms(5) by (cases k0; auto)+
    have ai: "sd_auto_increment (os_definition st1)" using P(2) assms(4) by simp
    note B = bump_generator_bounds [OF ai n1(1,2), of k]
    have "records_sorted (os_records (bump_generator k st1))" using P(1) assms(2) by (simp add: store_inv_def)
    from put_record_set [OF pr this] obtain r where nk: "os_next_key st' = os_next_key (bump_generator k st1)"
      and r: "rc_key r = k \<or> (\<exists>s\<in>set (os_records st). rc_key s = rc_key r)"
      and set': "set (os_records st') \<subseteq> set (os_records st) \<union> {r}"
      using P(1) by auto
    have old: "below_generator (os_next_key st') (rc_key s)" if "s \<in> set (os_records st)" for s
      using below_generator_mono [OF _ n(1), of "rc_key s" "os_next_key st'"] assms(3) that B(1,2) n1(3) nk
      by (simp add: generator_inv_def)
    have "below_generator (os_next_key st') (rc_key r)"
      using r old B(3) [OF val] unfolding nk by metis
    then show ?thesis
      using old set' B(1,2) n1(1) nk by (auto simp: generator_inv_def)
  qed
  assume none: "k0 = None"
  have "lookup (os_records st) (Number (f64_of_u64 ?n)) = None"
    unfolding lookup_None
  proof
    fix r assume r: "r \<in> set (os_records st)"
    show "key_cmp (rc_key r) (Number (f64_of_u64 ?n)) \<noteq> Equal"
    proof
      assume eq: "key_cmp (rc_key r) (Number (f64_of_u64 ?n)) = Equal"
      then obtain x where x: "rc_key r = Number x"
        by (cases "rc_key r") (auto simp: key_cmp_rank)
      with eq f64_of_u64_key(4) [OF n] have "x = f64_of_u64 ?n"
        by (auto simp: f64_key_cmp_def f64_total_cmp_def total_key_inj split: if_splits)
      moreover have "f64_lt (f64_of_u64 ?n) two_pow_53"
        using f64_of_u64_key(2,7) [OF n] assms(5) by (simp add: f64_lt_two_pow_53)
      ultimately show False using assms(3) r x by (auto simp: generator_inv_def below_generator_def)
    qed
  qed
  moreover have "res = RKey (Number (f64_of_u64 ?n))"
    using assms(1) by (rule store_put_Inr) (auto dest: put_key_Inr(5) simp: none)
  ultimately show "res = RKey (Number (f64_of_u64 ?n)) \<and> lookup (os_records st) (Number (f64_of_u64 ?n)) = None"
    by simp
qed

section \<open>Index views are sorted and complete\<close>

lemma mset_sorted_insert [simp]: "mset (sorted_insert c x ys) = add_mset x (mset ys)"
  by (induction ys) auto

lemma mset_sort_by: "mset (sort_by c xs) = mset xs"
  by (induction xs) (simp_all add: sort_by_def)

lemma set_sort_by: "set (sort_by c xs) = set xs"
  using mset_sort_by set_mset_mset by metis

context total_cmp
begin

lemma sorted_insert_sorted:
  assumes "sorted_wrt (\<lambda>a b. cmp a b \<noteq> Greater) ys" "dom x" "\<forall>y\<in>set ys. dom y"
  shows "sorted_wrt (\<lambda>a b. cmp a b \<noteq> Greater) (sorted_insert cmp x ys)"
  using assms
proof (induction ys)
  case (Cons y ys)
  have set: "set (sorted_insert cmp x ys) = insert x (set ys)"
    using mset_sorted_insert [of cmp x ys] by (metis set_mset_add_mset_insert set_mset_mset)
  show ?case
  proof (cases "cmp x y = Greater")
    case True
    then have "cmp y x = Less" using Cons.prems greater_iff by simp
    then show ?thesis using Cons True set by auto
  next
    case False
    have "cmp x z \<noteq> Greater" if "z \<in> set ys" for z
      using cmp_trans [of x y z] Cons.prems that False by simp
    then show ?thesis using Cons False by simp
  qed
qed simp

lemma sort_by_sorted:
  "\<forall>x\<in>set xs. dom x \<Longrightarrow> sorted_wrt (\<lambda>a b. cmp a b \<noteq> Greater) (sort_by cmp xs)"
proof (induction xs)
  case (Cons x xs)
  have "sort_by cmp (x # xs) = sorted_insert cmp x (sort_by cmp xs)" by (simp add: sort_by_def)
  then show ?case using Cons sorted_insert_sorted [of "sort_by cmp xs" x] by (simp add: set_sort_by)
qed (simp add: sort_by_def)

end

interpretation entry: total_cmp entry_cmp "\<lambda>_. True"
proof
  show "entry_cmp a a = Equal" for a by (simp add: entry_cmp_def key.cmp_refl)
  show "entry_cmp b a = reverse_ord (entry_cmp a b)" for a b
    by (simp add: entry_cmp_def key.cmp_flip [of "ie_key a" "ie_key b"] key.cmp_flip [of "ie_primary a" "ie_primary b"])
  show "entry_cmp a c \<noteq> Greater" if "entry_cmp a b \<noteq> Greater" "entry_cmp b c \<noteq> Greater" for a b c
  proof -
    note ab = that(1) [unfolded entry_cmp_def then_with_not_Greater]
    note bc = that(2) [unfolded entry_cmp_def then_with_not_Greater]
    show ?thesis
    proof (cases "key_cmp (ie_key a) (ie_key b) = Less \<or> key_cmp (ie_key b) (ie_key c) = Less")
      case True
      then have "key_cmp (ie_key a) (ie_key c) = Less"
        using ab bc key.less_trans [of "ie_key a" "ie_key b" "ie_key c"] key.less_trans2 [of "ie_key a" "ie_key b" "ie_key c"]
        by auto
      then show ?thesis by (simp add: entry_cmp_def)
    next
      case False
      then show ?thesis
        using ab bc key.equal_trans [of "ie_key a" "ie_key b" "ie_key c"]
          key.cmp_trans [of "ie_primary a" "ie_primary b" "ie_primary c"]
        by (simp add: entry_cmp_def then_with_not_Greater)
    qed
  qed
qed

lemma index_entries_Inr:
  assumes "index_entries S st name = Inr es"
  obtains ix where "ix \<in> set (sd_indexes (os_definition st))" "ix_name ix = name"
    and "sorted_wrt (\<lambda>a b. entry_cmp a b \<noteq> Greater) es"
    and "mset es = mset (concat (map (\<lambda>r. map (\<lambda>k. \<lparr>ie_key = k, ie_primary = rc_key r, ie_value = rc_value r\<rparr>)
           (keys_for_value S ix (rc_value r))) (os_records st)))"
  using assms entry.sort_by_sorted
  by (auto simp: index_entries_def mset_sort_by dest!: find_Some_mem split: option.splits)

section \<open>Whole-store validation establishes the unique indexes\<close>

lemma kset_contains_insert: "kset_contains (kset_insert k js) x \<longleftrightarrow> key_cmp x k = Equal \<or> kset_contains js x"
proof (induction js)
  case (Cons j js)
  show ?case
  proof (cases "key_cmp k j")
    case Equal
    then have "key_cmp x k = Equal \<longleftrightarrow> key_cmp x j = Equal"
      using key.equal_trans [of x k j] key.equal_trans [of x j k] key.cmp_flip [of j k] by auto
    then show ?thesis using Equal by (auto simp: kset_contains_def)
  qed (use Cons in \<open>auto simp: kset_contains_def\<close>)
qed (simp add: kset_contains_def)

lemma seen_all_Some:
  "seen_all seen ks = Some seen' \<Longrightarrow>
     (\<forall>k\<in>set ks. \<not> kset_contains seen k) \<and>
     (\<forall>x. kset_contains seen' x \<longleftrightarrow> kset_contains seen x \<or> (\<exists>k\<in>set ks. key_cmp x k = Equal))"
proof (induction ks arbitrary: seen)
  case (Cons k ks)
  then have "\<not> kset_contains seen k" "seen_all (kset_insert k seen) ks = Some seen'" by (auto split: if_splits)
  with Cons.IH [OF this(2)] show ?case by (auto simp: kset_contains_insert)
qed simp

lemma unique_ok_disjoint:
  "unique_ok S ix seen rs \<Longrightarrow>
     (\<forall>r\<in>set rs. \<forall>k\<in>set (keys_for_value S ix (rc_value r)). \<not> kset_contains seen k) \<and>
     sorted_wrt (\<lambda>r s. keys_disjoint (keys_for_value S ix (rc_value r)) (keys_for_value S ix (rc_value s))) rs"
proof (induction rs arbitrary: seen)
  case (Cons r rs)
  then obtain seen' where s: "seen_all seen (keys_for_value S ix (rc_value r)) = Some seen'" "unique_ok S ix seen' rs"
    by (auto split: option.splits)
  note A = seen_all_Some [OF s(1)] and IH = Cons.IH [OF s(2)]
  have "keys_disjoint (keys_for_value S ix (rc_value r)) (keys_for_value S ix (rc_value t))" if "t \<in> set rs" for t
    unfolding keys_disjoint_def using A IH that key_eq_cmp key_eq_sym by blast
  then show ?case using A IH by auto
qed simp

lemma validate_indexes_unique:
  "validate_indexes_loop S rs names ixs = Inr u \<Longrightarrow> ix \<in> set ixs \<Longrightarrow> ix_unique ix \<Longrightarrow> unique_ok S ix [] rs"
  by (induction ixs arbitrary: names) (auto simp: result_simps split: if_splits)

lemma sorted_wrt_two:
  assumes "sorted_wrt P xs" "\<And>a b. P a b \<Longrightarrow> P b a" "a \<in> set xs" "b \<in> set xs" "a \<noteq> b" shows "P a b"
proof -
  obtain i j where ij: "i < length xs" "j < length xs" "xs ! i = a" "xs ! j = b" using assms(3,4) by (metis in_set_conv_nth)
  then consider "i < j" | "j < i" using assms(5) by (metis nat_neq_iff)
  then show ?thesis using ij assms(1,2) by cases (auto simp: sorted_wrt_iff_nth_less)
qed

lemma store_validate_indexes_unique: "store_validate_indexes S st = Inr u \<Longrightarrow> unique_inv S st"
  unfolding unique_inv_def store_validate_indexes_def
proof (intro ballI impI)
  fix ix r s
  assume *: "validate_indexes_loop S (os_records st) [] (sd_indexes (os_definition st)) = Inr u"
    "ix \<in> set (sd_indexes (os_definition st))" "ix_unique ix" "r \<in> set (os_records st)" "s \<in> set (os_records st)"
    "key_cmp (rc_key r) (rc_key s) \<noteq> Equal"
  then have "r \<noteq> s" using key.cmp_refl by auto
  then show "keys_disjoint (keys_for_value S ix (rc_value r)) (keys_for_value S ix (rc_value s))"
    using sorted_wrt_two [OF unique_ok_disjoint [OF validate_indexes_unique [OF *(1-3)], THEN conjunct2]] *(4,5)
      keys_disjoint_sym by blast
qed

section \<open>Walking a store with a cursor\<close>

text \<open>
  A client that walks a store asks for the first record after the last key it saw, at most \<open>n\<close> times. The walk ends
  where the store reports the end, where a step fails, or with the steps used up.
\<close>

datatype walk_end = AtEnd | StepFailed db_error | StepsUsedUp | UnexpectedResult db_result

fun scan_all :: "serde \<Rightarrow> object_store \<Rightarrow> string \<Rightarrow> key_range option \<Rightarrow> nat \<Rightarrow> key option \<Rightarrow> cursor_record list \<times> walk_end" where
  "scan_all S st store rng 0 after = ([], StepsUsedUp)"
| "scan_all S st store rng (Suc n) after =
     (case store_apply S st (Scan store rng after False 0 False False) of
        Inl e \<Rightarrow> ([], StepFailed e)
      | Inr (RRecord (Some c), st') \<Rightarrow>
          (case scan_all S st' store rng n (Some (cu_key c)) of (cs, end_report) \<Rightarrow> (c # cs, end_report))
      | Inr (RRecord None, st') \<Rightarrow> ([], AtEnd)
      | Inr (other, st') \<Rightarrow> ([], UnexpectedResult other))"

definition cursor_of :: "db_record \<Rightarrow> cursor_record" where
  "cursor_of r = \<lparr>cu_key = rc_key r, cu_primary_key = None, cu_value = Some (rc_value r)\<rparr>"

lemma filter_after_nth:
  assumes "records_sorted rs" "i < length rs"
  shows "filter (\<lambda>r. key_cmp (rc_key r) (rc_key (rs ! i)) = Greater) rs = drop (Suc i) rs"
proof -
  have rs: "rs = take i rs @ rs ! i # drop (Suc i) rs" using assms(2) by (rule id_take_nth_drop)
  have "records_sorted (take i rs @ rs ! i # drop (Suc i) rs)" using assms(1) rs by simp
  then have "\<forall>r\<in>set (take i rs). key_cmp (rc_key r) (rc_key (rs ! i)) = Less"
      "\<forall>r\<in>set (drop (Suc i) rs). key_cmp (rc_key r) (rc_key (rs ! i)) = Greater"
    unfolding records_sorted_def sorted_wrt_append using key.greater_iff by auto
  then have "filter (\<lambda>r. key_cmp (rc_key r) (rc_key (rs ! i)) = Greater) (take i rs @ rs ! i # drop (Suc i) rs) =
      drop (Suc i) rs"
    by (auto simp: key.cmp_refl filter_empty_conv filter_id_conv)
  then show ?thesis using rs by simp
qed

lemma scan_step:
  assumes "validate_range rng = Inr ()" "\<forall>a. after = Some a \<longrightarrow> key_validate 0 a = Inr ()"
  shows "store_apply S st (Scan store rng after False 0 False False) =
    Inr (RRecord (map_option cursor_of (list_get (filter (\<lambda>r. case after of None \<Rightarrow> True | Some a \<Rightarrow> key_cmp (rc_key r) a = Greater)
      (filter (\<lambda>r. in_range rng (rc_key r)) (os_records st))) 0)), st)"
  using assms
  by (cases after) (simp_all add: store_apply_def validate_key_def past_cursor_def cursor_of_def [abs_def] conj_commute Let_def)

lemma scan_from:
  assumes "store_inv st" "validate_range rng = Inr ()" "i < length L" "length L < n + Suc i"
    and L: "L = filter (\<lambda>r. in_range rng (rc_key r)) (os_records st)"
  shows "scan_all S st store rng n (Some (rc_key (L ! i))) = (map cursor_of (drop (Suc i) L), AtEnd)"
  using assms(3,4)
proof (induction n arbitrary: i)
  case 0
  then show ?case by simp
next
  case (Suc n)
  have sorted: "records_sorted L" using assms(1) by (simp add: L store_inv_def records_sorted_filter)
  have "L ! i \<in> set (os_records st)" using nth_mem [OF Suc.prems(1)] by (simp add: L)
  then have val: "key_validate 0 (rc_key (L ! i)) = Inr ()" using assms(1) by (simp add: store_inv_def)
  have step: "store_apply S st (Scan store rng (Some (rc_key (L ! i))) False 0 False False) =
      Inr (RRecord (map_option cursor_of (list_get (drop (Suc i) L) 0)), st)"
    using scan_step [OF assms(2), of "Some (rc_key (L ! i))"] val filter_after_nth [OF sorted Suc.prems(1)]
    by (simp add: L)
  show ?case
  proof (cases "Suc i < length L")
    case True
    then have "drop (Suc i) L = L ! Suc i # drop (Suc (Suc i)) L" by (simp add: Cons_nth_drop_Suc)
    then show ?thesis
      using step Suc.IH [OF True] Suc.prems(2) by (simp add: list_get_def cursor_of_def)
  next
    case False
    then show ?thesis using step by (simp add: list_get_def)
  qed
qed

lemma scan_all_records:
  assumes "store_inv st" "validate_range rng = Inr ()" "length (os_records st) < n"
  shows "scan_all S st store rng n None = (map cursor_of (filter (\<lambda>r. in_range rng (rc_key r)) (os_records st)), AtEnd)"
proof -
  let ?L = "filter (\<lambda>r. in_range rng (rc_key r)) (os_records st)"
  obtain m where n: "n = Suc m" using assms(3) by (cases n) auto
  have step: "store_apply S st (Scan store rng None False 0 False False) = Inr (RRecord (map_option cursor_of (list_get ?L 0)), st)"
    using scan_step [OF assms(2), of None] by simp
  show ?thesis
  proof (cases ?L)
    case Nil
    then show ?thesis using step n by (simp add: list_get_def)
  next
    case (Cons r rs)
    have "length ?L \<le> length (os_records st)" by simp
    then have "length ?L < m + Suc 0" using assms(3) n by linarith
    from scan_from [OF assms(1,2) _ this refl] have "scan_all S st store rng m (Some (rc_key r)) = (map cursor_of rs, AtEnd)"
      using Cons by simp
    then show ?thesis using step Cons n by (simp add: list_get_def cursor_of_def)
  qed
qed

section \<open>Properties\<close>

text \<open>C36: every successful operation on an object store keeps its records strictly sorted by key with valid keys, and
  keeps every unique index free of two records that share an index key.\<close>

theorem store_operations_keep_invariants:
  assumes "store_inv st" "unique_inv S st" "store_apply S st operation = Inr (res, st')"
  shows "store_inv st' \<and> unique_inv S st'"
  using store_apply_inv store_apply_unique assms by blast

definition sample_serde :: serde where
  "sample_serde = \<lparr>json_from_str = (\<lambda>s. if s = ''1'' then Some (JNumber (PosInt 1)) else None),
     json_to_string = (\<lambda>v. Some ''1'')\<rparr>"

definition sample_store :: object_store where
  "sample_store = \<lparr>os_definition = \<lparr>sd_name = ''s'', sd_key_path = None, sd_auto_increment = True,
     sd_indexes = [\<lparr>ix_name = ''i'', ix_key_path = Single [], ix_unique = True, ix_multi_entry = False\<rparr>]\<rparr>,
     os_next_key = 1, os_records = [\<lparr>rc_key = Array [], rc_value = ''2''\<rparr>]\<rparr>"

lemma sample_store_inv: "store_inv sample_store" "unique_inv sample_serde sample_store" "generator_inv sample_store"
  by (simp_all add: store_inv_def sample_store_def records_sorted_def key_validate.simps limit_simps unique_inv_def
      key.cmp_refl generator_inv_def below_generator_def del: key_cmp_simps)

definition sample_stored :: object_store where
  "sample_stored = sample_store\<lparr>os_records := [\<lparr>rc_key = Binary [], rc_value = ''1''\<rparr>,
     \<lparr>rc_key = Array [], rc_value = ''2''\<rparr>]\<rparr>"

lemma sample_put: "store_apply sample_serde sample_store (Put ''s'' (Some (Binary [])) ''1'' False) =
    Inr (RKey (Binary []), sample_stored)"
proof -
  have "locate (os_records sample_store) (Binary []) = Inl 0"
    by (simp add: locate_def binary_search_by_def sample_store_def search_loop.simps key_cmp_rank lin_cmp_def)
  then show ?thesis
    by (simp add: store_apply_def store_put_def put_key_def key_validate.simps limit_simps check_unique_index_values_def
        Let_def sample_store_def sample_stored_def sample_serde_def keys_for_value_def single_key_def extract_path_def
        project_path_def bump_generator_def put_record_def list_insert_def)
qed

theorem store_operations_keep_invariants_witness: "store_inv sample_stored \<and> unique_inv sample_serde sample_stored"
  using store_operations_keep_invariants [OF sample_store_inv(1,2) sample_put] .

text \<open>C38: an object store is a map from keys to values. A put answers with the key it wrote under, the one given if one
  was; what it stores is the value given, or, where the store has a key path and the key was generated, that value with
  the key injected at the path. After it a get of any valid key answers what was stored if the keys are equal (-0 and
  +0 are), and what it answered before if not; an existing record is replaced only when overwriting was asked for.\<close>

theorem put_then_get:
  assumes "store_inv st" "store_put S st k0 value overwrite = Inr (res, st')" "key_validate 0 k' = Inr ()"
  shows "\<exists>k stored. res = RKey k \<and> (k0 \<noteq> None \<longrightarrow> k0 = Some k) \<and>
     (case (k0, sd_key_path (os_definition st)) of
        (None, Some path) \<Rightarrow> inject S value path k = Inr stored
      | _ \<Rightarrow> stored = value) \<and>
     (overwrite \<or> lookup (os_records st) k = None) \<and>
     store_apply S st' (Get n k') =
       Inr (RValue (if key_cmp k k' = Equal then Some stored else lookup (os_records st) k'), st')"
  using assms(2)
proof (rule store_put_Inr)
  fix k generated st1 stored
  assume pk: "put_key st k0 = Inr (k, generated, st1)" and res: "res = RKey k"
    and pr: "put_record (bump_generator k st1) k stored overwrite = Inr st'"
    and same: "stored_as S st k0 k value stored"
  note P = put_key_Inr [OF pk]
  have sorted: "records_sorted (os_records (bump_generator k st1))" using P(1) assms(1) by (simp add: store_inv_def)
  have "lookup (os_records st') k' = (if key_cmp k k' = Equal then Some stored else lookup (os_records st) k')"
    using put_record_lookup [OF pr sorted] P(1) by simp
  moreover have "records_sorted (os_records st')" using put_record_set [OF pr sorted] by blast
  moreover have "overwrite \<or> lookup (os_records st) k = None" using put_record_fresh [OF pr sorted] P(1) by simp
  ultimately show ?thesis
    using res same P(4,6) locate_lookup [of "os_records st'" k'] assms(3)
    by (intro exI [of _ k] exI [of _ stored]) (auto simp: store_apply_def stored_as_def split: option.splits)
qed

theorem put_then_get_witness:
  "store_apply sample_serde sample_stored (Get ''s'' (Binary [])) = Inr (RValue (Some ''1''), sample_stored)"
proof -
  have put: "store_put sample_serde sample_store (Some (Binary [])) ''1'' False = Inr (RKey (Binary []), sample_stored)"
    using sample_put by (simp add: store_apply_def)
  have valid: "key_validate 0 (Binary []) = Inr ()" by (simp add: key_validate.simps limit_simps)
  from put_then_get [OF sample_store_inv(1) put valid, of "''s''"] show ?thesis
    by (auto simp: key.cmp_refl simp del: key_cmp_simps)
qed

text \<open>While the key generator is below 2^53, a put without a key is stored under the generator's number, no
  record had that key before, and the generator stays ahead of every numeric key below 2^53.\<close>

theorem generated_key_is_fresh:
  assumes "store_inv st" "generator_inv st" "sd_auto_increment (os_definition st)" "os_next_key st < 2 ^ 53"
    and "store_put S st None value overwrite = Inr (res, st')"
  shows "res = RKey (Number (f64_of_u64 (os_next_key st))) \<and> generator_inv st' \<and>
     lookup (os_records st) (Number (f64_of_u64 (os_next_key st))) = None"
  using store_put_generator [OF assms(5,1,2,3,4)] by simp

theorem generated_key_is_fresh_witness:
  "lookup (os_records sample_store) (Number (f64_of_u64 1)) = None"
proof -
  let ?one = "Number (f64_of_u64 (Suc 0))"
  have "locate (os_records sample_store) ?one = Inl 0"
    by (simp add: locate_def binary_search_by_def sample_store_def search_loop.simps key_cmp_rank lin_cmp_def del: bit_length.simps)
  moreover have "key_validate 0 ?one = Inr ()"
    using f64_of_u64_key(3) [of 1] by (simp add: key_validate.simps)
  ultimately have "\<exists>r. store_put sample_serde sample_store None ''1'' False = Inr r"
    by (simp add: store_put_def put_key_def limit_simps sample_store_def bump_generator_def put_record_def ok_or_def
        checked_add_def check_unique_index_values_def Let_def sample_serde_def keys_for_value_def single_key_def
        extract_path_def project_path_def)
  then obtain res st' where "store_put sample_serde sample_store None ''1'' False = Inr (res, st')" by auto
  from generated_key_is_fresh [OF sample_store_inv(1,3) _ _ this] show ?thesis
    by (simp add: sample_store_def)
qed

text \<open>Once the generator passes 2^53 its numbers are no longer exact as keys: two consecutive generated keys are
  the same key, so the second put meets the record of the first.\<close>

theorem generator_repeats_key_beyond_2_53:
  assumes "sd_auto_increment (os_definition st)" "os_next_key st = 2 ^ 53"
  shows "\<exists>st1 st2. put_key st None = Inr (Number two_pow_53, True, st1) \<and>
     put_key st1 None = Inr (Number two_pow_53, True, st2)"
proof -
  have len: "bit_length (2 ^ 53) = 54" "bit_length (2 ^ 53 + 1) = 54"
    by (simp_all add: bit_length.simps)
  then have "f64_of_u64 (2 ^ 53) = two_pow_53" "f64_of_u64 (2 ^ 53 + 1) = two_pow_53"
    by (simp_all add: f64_of_u64_def Let_def f64_make_def two_pow_53_def del: bit_length.simps)
  then show ?thesis
    using assms by (simp add: put_key_def limit_simps ok_or_def checked_add_def)
qed

theorem generator_repeats_key_beyond_2_53_witness:
  "\<exists>st1 st2. put_key (sample_store\<lparr>os_next_key := 2 ^ 53\<rparr>) None = Inr (Number two_pow_53, True, st1) \<and>
     put_key st1 None = Inr (Number two_pow_53, True, st2)"
  by (rule generator_repeats_key_beyond_2_53) (simp_all add: sample_store_def)

text \<open>C37: walking a store with a cursor, each step asking for the first record after the last key seen, visits every
  record in the range exactly once, in ascending key order, and then reports the end: no step fails, and one step more
  than there are records is enough.\<close>

theorem cursor_walk_is_complete:
  assumes "store_inv st" "validate_range rng = Inr ()" "length (os_records st) < n"
  shows "scan_all S st name rng n None = (map cursor_of (filter (\<lambda>r. in_range rng (rc_key r)) (os_records st)), AtEnd)"
  using assms by (rule scan_all_records)

theorem cursor_walk_is_complete_witness:
  "scan_all sample_serde sample_stored ''s'' None 3 None =
     ([\<lparr>cu_key = Binary [], cu_primary_key = None, cu_value = Some ''1''\<rparr>,
       \<lparr>cu_key = Array [], cu_primary_key = None, cu_value = Some ''2''\<rparr>], AtEnd)"
proof -
  have "store_inv sample_stored" using store_apply_inv [OF sample_put sample_store_inv(1)] .
  from cursor_walk_is_complete [OF this, of None 3 sample_serde "''s''"] show ?thesis
    by (simp add: validate_range_def sample_stored_def in_range_def cursor_of_def)
qed

end
