(* ===== verification/Idb_Model.thy ===== *)
theory Idb_Model
  imports Idb_Store Storage_Local
begin

text \<open>
  \<^verbatim>\<open>src/indexed_db/model.rs\<close>, \<^verbatim>\<open>Database\<close> of \<^verbatim>\<open>src/indexed_db/model/records.rs\<close>, \<^verbatim>\<open>src/indexed_db/model/usage.rs\<close>
  and \<^verbatim>\<open>src/indexed_db/persistence.rs\<close>: databases by origin and name, upgrade, one-shot transactions, staged sessions
  with optimistic commit, and the profile file. The lock is held for a whole call, so each call is one step.
\<close>

record database =
  db_version :: nat
  db_generation :: nat
  db_stores :: "(string, object_store) omap"

type_synonym db_group = "(string, database) omap"
type_synonym idb_state = "(string, db_group) omap"

text \<open>The serialisers of \<^verbatim>\<open>serde_json\<close> the code relies on: clones, results, one origin's group, the disk file.\<close>

record idb_codec =
  ic_clone :: serde
  ic_results :: "db_result list \<Rightarrow> bytes option"
  ic_group :: "db_group \<Rightarrow> string + bytes"
  ic_write :: "nat \<times> idb_state \<Rightarrow> string + bytes"
  ic_read :: "bytes \<Rightarrow> string + nat \<times> idb_state"

record indexed_db =
  id_state :: idb_state
  id_files :: "files option"

record db_session =
  ses_origin :: string
  ses_name :: string
  ses_version :: nat
  ses_generation :: nat
  ses_mode :: transaction_mode
  ses_database :: database

definition MAX_INDEXED_DB_IPC_BYTES :: nat where [limit_simps]: "MAX_INDEXED_DB_IPC_BYTES = 4 * 1024 * 1024"

section \<open>One database\<close>

record database_info =
  di_version :: nat
  di_stores :: "store_definition list"

definition database_info :: "database \<Rightarrow> database_info" where
  "database_info db = \<lparr>di_version = db_version db, di_stores = map (\<lambda>e. os_definition (snd e)) (db_stores db)\<rparr>"

definition database_step :: "serde \<Rightarrow> transaction_mode \<Rightarrow> db_operation \<Rightarrow> database \<Rightarrow> db_error + db_result \<times> database" where
  "database_step S mode operation db =
     (case operation_store operation of (name, writable) \<Rightarrow>
        if writable \<and> mode = ReadOnly then Inl ReadOnlyError
        else case om_get (db_stores db) name of
          None \<Rightarrow> Inl (InvalidState ''object store does not exist'')
        | Some st \<Rightarrow>
            and_then (store_apply S st operation) (\<lambda>(result, st').
              Inr (result, db\<lparr>db_stores := om_insert name st' (db_stores db)\<rparr>)))"

fun database_apply :: "serde \<Rightarrow> transaction_mode \<Rightarrow> db_operation list \<Rightarrow> database \<Rightarrow>
    db_error + db_result list \<times> database" where
  "database_apply S mode [] db = Inr ([], db)"
| "database_apply S mode (operation # operations) db =
     and_then (database_step S mode operation db) (\<lambda>(result, db').
       and_then (database_apply S mode operations db') (\<lambda>(results, db''). Inr (result # results, db'')))"

definition validate_results :: "idb_codec \<Rightarrow> db_result list \<Rightarrow> db_error + unit" where
  "validate_results C results =
     (case ic_results C results of
        None \<Rightarrow> Inl (Data ''invalid IndexedDB result'')
      | Some bytes \<Rightarrow> if length bytes > MAX_INDEXED_DB_IPC_BYTES - 128 then Inl Quota else Inr ())"

definition database_validate_indexes :: "serde \<Rightarrow> database \<Rightarrow> db_error + unit" where
  "database_validate_indexes S db = each_ok (\<lambda>e. store_validate_indexes S (snd e)) (db_stores db)"

section \<open>Validation of the whole state\<close>

definition idb_origin :: "'u url_crate_scheme \<Rightarrow> string \<Rightarrow> db_error + string" where
  "idb_origin U u =
     (case storage_origin U u of
        Inl _ \<Rightarrow> Inl (InvalidState ''IndexedDB requires a non-opaque origin'')
      | Inr org \<Rightarrow> Inr org)"

fun out_of_order :: "db_record list \<Rightarrow> bool" where
  "out_of_order (a # b # rs) \<longleftrightarrow> key_cmp (rc_key a) (rc_key b) \<noteq> Less \<or> out_of_order (b # rs)"
| "out_of_order _ \<longleftrightarrow> False"

definition store_validate :: "serde \<Rightarrow> string \<Rightarrow> object_store \<Rightarrow> db_error + unit" where
  "store_validate S name st =
     and_then (store_definition_validate (os_definition st)) (\<lambda>_.
       if name \<noteq> sd_name (os_definition st) \<or> os_next_key st = 0 then Inl (Data ''invalid persisted object store'')
       else and_then (each_ok (\<lambda>r. key_validate 0 (rc_key r)) (os_records st)) (\<lambda>_.
         if out_of_order (os_records st) then Inl (Data ''unsorted or duplicate persisted keys'')
         else store_validate_indexes S st))"

definition database_validate :: "serde \<Rightarrow> string \<Rightarrow> database \<Rightarrow> db_error + unit" where
  "database_validate S name db =
     and_then (validate_name name) (\<lambda>_.
       if db_version db = 0 then Inl (Data ''invalid persisted database version'')
       else each_ok (\<lambda>(n, st). store_validate S n st) (db_stores db))"

definition state_validate :: "'u url_crate_scheme \<Rightarrow> serde \<Rightarrow> idb_state \<Rightarrow> db_error + unit" where
  "state_validate U S st =
     each_ok (\<lambda>(org, databases).
       and_then (idb_origin U (org @ ''/'')) (\<lambda>parsed.
         if parsed \<noteq> org then Inl (Data ''invalid persisted origin'')
         else each_ok (\<lambda>(name, db). database_validate S name db) databases)) st"

definition IDB_FORMAT_VERSION :: nat where "IDB_FORMAT_VERSION = 1"
definition MAX_FILE_BYTES :: nat where [limit_simps]: "MAX_FILE_BYTES = 64 * 1024 * 1024"

definition idb_encode :: "idb_codec \<Rightarrow> idb_state \<Rightarrow> db_error + bytes" where
  "idb_encode C st = map_err DbPersistence (ic_write C (IDB_FORMAT_VERSION, st))"

definition idb_validate :: "'u url_crate_scheme \<Rightarrow> idb_codec \<Rightarrow> nat \<Rightarrow> nat \<Rightarrow> idb_state \<Rightarrow> db_error + unit" where
  "idb_validate U C per_origin total_limit st =
     and_then (state_validate U (ic_clone C) st) (\<lambda>_.
       and_then (each_ok (\<lambda>e. and_then (map_err DbPersistence (ic_group C (snd e))) (\<lambda>bytes.
                   if length bytes > per_origin then Inl Quota else Inr ())) st) (\<lambda>_.
         and_then (idb_encode C st) (\<lambda>bytes.
           if length bytes > total_limit then Inl Quota else Inr ())))"

section \<open>The profile file\<close>

definition idb_read_file :: "'u url_crate_scheme \<Rightarrow> idb_codec \<Rightarrow> file_state \<Rightarrow> db_error + idb_state option" where
  "idb_read_file U C f =
     (case f of
        Missing \<Rightarrow> Inr None
      | Unreadable error \<Rightarrow> Inl (DbPersistence error)
      | Content bytes \<Rightarrow>
          if length bytes > MAX_FILE_BYTES then Inl Quota
          else and_then (map_err DbPersistence (ic_read C bytes)) (\<lambda>(format, st).
            if format \<noteq> IDB_FORMAT_VERSION then Inl (Data ''unsupported IndexedDB storage format'')
            else and_then (idb_validate U C (16 * 1024 * 1024) MAX_FILE_BYTES st) (\<lambda>_. Inr (Some st))))"

definition idb_load :: "'u url_crate_scheme \<Rightarrow> idb_codec \<Rightarrow> files \<Rightarrow> db_error + idb_state" where
  "idb_load U C fs = load_recoverable (idb_read_file U C) [] fs"

definition idb_write :: "idb_codec \<Rightarrow> io_env \<Rightarrow> files \<Rightarrow> idb_state \<Rightarrow> (db_error + unit) \<times> files" where
  "idb_write C io fs st =
     (case idb_encode C st of
        Inl e \<Rightarrow> (Inl e, fs)
      | Inr bytes \<Rightarrow>
          if length bytes > MAX_FILE_BYTES then (Inl Quota, fs)
          else case write_recoverable True io fs bytes of (r, fs') \<Rightarrow> (map_err DbPersistence r, fs'))"

definition idb_in_memory :: indexed_db where
  "idb_in_memory = \<lparr>id_state = [], id_files = None\<rparr>"

definition idb_open :: "'u url_crate_scheme \<Rightarrow> idb_codec \<Rightarrow> files \<Rightarrow> db_error + indexed_db" where
  "idb_open U C fs = and_then (idb_load U C fs) (\<lambda>st. Inr \<lparr>id_state = st, id_files = Some fs\<rparr>)"

text \<open>\<^verbatim>\<open>update\<close>: run on a copy, validate, write, then publish in memory.\<close>

definition idb_update :: "'u url_crate_scheme \<Rightarrow> idb_codec \<Rightarrow> io_env \<Rightarrow> (idb_state \<Rightarrow> db_error + 'a \<times> idb_state) \<Rightarrow>
    indexed_db \<Rightarrow> (db_error + 'a) \<times> indexed_db" where
  "idb_update U C io action I =
     (case action (id_state I) of
        Inl e \<Rightarrow> (Inl e, I)
      | Inr (result, candidate) \<Rightarrow>
          (case idb_validate U C MAX_ORIGIN_BYTES MAX_DATABASE_BYTES candidate of
             Inl e \<Rightarrow> (Inl e, I)
           | Inr _ \<Rightarrow>
               (case id_files I of
                  None \<Rightarrow> (Inr result, I\<lparr>id_state := candidate\<rparr>)
                | Some fs \<Rightarrow>
                    (case idb_write C io fs candidate of
                       (Inl e, fs') \<Rightarrow> (Inl e, I\<lparr>id_files := Some fs'\<rparr>)
                     | (Inr _, fs') \<Rightarrow> (Inr result, I\<lparr>id_state := candidate, id_files := Some fs'\<rparr>)))))"

section \<open>Reading\<close>

definition find_database :: "idb_state \<Rightarrow> string \<Rightarrow> string \<Rightarrow> database option" where
  "find_database st org name = Option.bind (om_get st org) (\<lambda>databases. om_get databases name)"

definition idb_inspect :: "'u url_crate_scheme \<Rightarrow> indexed_db \<Rightarrow> string \<Rightarrow> string \<Rightarrow> db_error + database_info option" where
  "idb_inspect U I u name =
     and_then (validate_name name) (\<lambda>_.
       and_then (idb_origin U u) (\<lambda>org.
         Inr (map_option database_info (find_database (id_state I) org name))))"

definition idb_list :: "'u url_crate_scheme \<Rightarrow> indexed_db \<Rightarrow> string \<Rightarrow> db_error + (string \<times> nat) list" where
  "idb_list U I u =
     and_then (idb_origin U u) (\<lambda>org.
       Inr (case om_get (id_state I) org of
              None \<Rightarrow> [] | Some databases \<Rightarrow> map (\<lambda>(name, db). (name, db_version db)) databases))"

definition idb_usage :: "'u url_crate_scheme \<Rightarrow> idb_codec \<Rightarrow> indexed_db \<Rightarrow> string \<Rightarrow> db_error + nat" where
  "idb_usage U C I u =
     and_then (idb_origin U u) (\<lambda>org.
       case om_get (id_state I) org of
         None \<Rightarrow> Inr 0
       | Some databases \<Rightarrow>
           if databases = [] then Inr 0
           else and_then (map_err DbPersistence (ic_group C databases)) (\<lambda>bytes. Inr (length bytes)))"

section \<open>Upgrades\<close>

fun remove_stores :: "string list \<Rightarrow> database \<Rightarrow> db_error + database" where
  "remove_stores [] db = Inr db"
| "remove_stores (name # names) db =
     (if \<not> om_contains (db_stores db) name then Inl (InvalidState ''object store does not exist'')
      else remove_stores names (db\<lparr>db_stores := om_remove name (db_stores db)\<rparr>))"

fun create_stores :: "store_definition list \<Rightarrow> database \<Rightarrow> db_error + database" where
  "create_stores [] db = Inr db"
| "create_stores (d # ds) db =
     and_then (store_definition_validate d) (\<lambda>_.
       if om_contains (db_stores db) (sd_name d) then Inl (Constraint ''object store already exists'')
       else create_stores ds (db\<lparr>db_stores := om_insert (sd_name d)
              \<lparr>os_definition = d, os_next_key = 1, os_records = []\<rparr> (db_stores db)\<rparr>))"

fun set_schema :: "store_definition list \<Rightarrow> database \<Rightarrow> db_error + database" where
  "set_schema [] db = Inr db"
| "set_schema (d # ds) db =
     and_then (store_definition_validate d) (\<lambda>_.
       case om_get (db_stores db) (sd_name d) of
         None \<Rightarrow> Inl (Data ''object-store schema names do not match'')
       | Some st \<Rightarrow>
           if sd_key_path (os_definition st) \<noteq> sd_key_path d \<or>
              sd_auto_increment (os_definition st) \<noteq> sd_auto_increment d
           then Inl (Data ''object-store key configuration changed'')
           else set_schema ds (db\<lparr>db_stores := om_insert (sd_name d)
                  (st\<lparr>os_definition := (os_definition st)\<lparr>sd_indexes := sd_indexes d\<rparr>\<rparr>) (db_stores db)\<rparr>))"

definition apply_schema :: "store_definition list \<Rightarrow> database \<Rightarrow> db_error + database" where
  "apply_schema definitions db =
     (if definitions = [] then Inr db
      else if length definitions \<noteq> length (db_stores db) then Inl (Data ''incomplete object-store schema'')
      else set_schema definitions db)"

definition upgrade_action :: "idb_codec \<Rightarrow> string \<Rightarrow> string \<Rightarrow> nat \<Rightarrow> nat \<Rightarrow> store_definition list \<Rightarrow> string list \<Rightarrow>
    db_operation list \<Rightarrow> store_definition list \<Rightarrow> idb_state \<Rightarrow> db_error + db_result list \<times> idb_state" where
  "upgrade_action C org name previous_version version create remove writes definitions st =
     (let databases = (case om_get st org of Some g \<Rightarrow> g | None \<Rightarrow> []);
          db0 = (case om_get databases name of
                   Some db \<Rightarrow> db | None \<Rightarrow> \<lparr>db_version = 0, db_generation = 0, db_stores = []\<rparr>)
      in if db_version db0 \<noteq> previous_version then Inl VersionError
         else and_then (remove_stores remove db0) (\<lambda>db1.
           and_then (create_stores create db1) (\<lambda>db2.
             and_then (apply_schema definitions db2) (\<lambda>db3.
               and_then (database_apply (ic_clone C) ReadWrite writes db3) (\<lambda>(results, db4).
                 and_then (validate_results C results) (\<lambda>_.
                   and_then (database_validate_indexes (ic_clone C) db4) (\<lambda>_.
                     Inr (results, om_insert org (om_insert name
                       (db4\<lparr>db_version := version, db_generation := wrapping_add (db_generation db4) 1\<rparr>) databases) st))))))))"

definition idb_upgrade :: "'u url_crate_scheme \<Rightarrow> idb_codec \<Rightarrow> io_env \<Rightarrow> indexed_db \<Rightarrow> string \<Rightarrow> string \<Rightarrow> nat \<Rightarrow> nat \<Rightarrow>
    store_definition list \<Rightarrow> string list \<Rightarrow> db_operation list \<Rightarrow> store_definition list \<Rightarrow>
    (db_error + db_result list) \<times> indexed_db" where
  "idb_upgrade U C io I u name previous_version version create remove writes definitions =
     (case validate_name name of
        Inl e \<Rightarrow> (Inl e, I)
      | Inr _ \<Rightarrow>
          if version = 0 \<or> version \<le> previous_version \<or> length writes > MAX_OPERATIONS then (Inl VersionError, I)
          else case idb_origin U u of
            Inl e \<Rightarrow> (Inl e, I)
          | Inr org \<Rightarrow>
              idb_update U C io (upgrade_action C org name previous_version version create remove writes definitions) I)"

section \<open>Transactions and sessions\<close>

text \<open>Replacing one database in place, as the mutable borrow does.\<close>

definition with_database :: "string \<Rightarrow> string \<Rightarrow> (database \<Rightarrow> db_error + 'a \<times> database) \<Rightarrow> idb_state \<Rightarrow>
    db_error + 'a \<times> idb_state" where
  "with_database org name f st =
     (case om_get st org of
        None \<Rightarrow> Inl (InvalidState ''database does not exist'')
      | Some databases \<Rightarrow>
          (case om_get databases name of
             None \<Rightarrow> Inl (InvalidState ''database does not exist'')
           | Some db \<Rightarrow>
               and_then (f db) (\<lambda>(result, db'). Inr (result, om_insert org (om_insert name db' databases) st))))"

definition transaction_action :: "idb_codec \<Rightarrow> nat \<Rightarrow> transaction_mode \<Rightarrow> db_operation list \<Rightarrow> database \<Rightarrow>
    db_error + db_result list \<times> database" where
  "transaction_action C expected_version mode operations db =
     (if db_version db \<noteq> expected_version then Inl VersionError
      else and_then (database_apply (ic_clone C) mode operations db) (\<lambda>(results, db').
        and_then (validate_results C results) (\<lambda>_.
          Inr (results, db'\<lparr>db_generation := wrapping_add (db_generation db') 1\<rparr>))))"

definition idb_transaction :: "'u url_crate_scheme \<Rightarrow> idb_codec \<Rightarrow> io_env \<Rightarrow> indexed_db \<Rightarrow> string \<Rightarrow> string \<Rightarrow> nat \<Rightarrow>
    transaction_mode \<Rightarrow> db_operation list \<Rightarrow> (db_error + db_result list) \<times> indexed_db" where
  "idb_transaction U C io I u name expected_version mode operations =
     (if length operations > MAX_OPERATIONS then (Inl Quota, I)
      else case idb_origin U u of
        Inl e \<Rightarrow> (Inl e, I)
      | Inr org \<Rightarrow>
          if mode = ReadOnly then
            (and_then (with_database org name (transaction_action C expected_version mode operations) (id_state I))
               (\<lambda>(results, _). Inr results), I)
          else idb_update U C io (with_database org name (transaction_action C expected_version mode operations)) I)"

definition begin_session :: "'u url_crate_scheme \<Rightarrow> indexed_db \<Rightarrow> string \<Rightarrow> string \<Rightarrow> nat \<Rightarrow> transaction_mode \<Rightarrow>
    db_error + db_session" where
  "begin_session U I u name expected_version mode =
     and_then (idb_origin U u) (\<lambda>org.
       case find_database (id_state I) org name of
         None \<Rightarrow> Inl (InvalidState ''database does not exist'')
       | Some db \<Rightarrow>
           if db_version db \<noteq> expected_version then Inl VersionError
           else Inr \<lparr>ses_origin = org, ses_name = name, ses_version = db_version db, ses_generation = db_generation db,
                     ses_mode = mode, ses_database = db\<rparr>)"

definition session_step :: "idb_codec \<Rightarrow> db_operation list \<Rightarrow> db_session \<Rightarrow> db_error + db_result list \<times> db_session" where
  "session_step C operations s =
     (if length operations > MAX_OPERATIONS then Inl Quota
      else and_then (database_apply (ic_clone C) (ses_mode s) operations (ses_database s)) (\<lambda>(results, candidate).
        and_then (validate_results C results) (\<lambda>_.
          Inr (results, s\<lparr>ses_database := candidate\<rparr>))))"

definition commit_action :: "db_session \<Rightarrow> database \<Rightarrow> db_error + unit \<times> database" where
  "commit_action s db =
     (if db_version db \<noteq> ses_version s \<or> db_generation db \<noteq> ses_generation s then Inl VersionError
      else Inr ((), (ses_database s)\<lparr>db_generation := wrapping_add (db_generation (ses_database s)) 1\<rparr>))"

definition commit_session :: "'u url_crate_scheme \<Rightarrow> idb_codec \<Rightarrow> io_env \<Rightarrow> indexed_db \<Rightarrow> db_session \<Rightarrow>
    (db_error + unit) \<times> indexed_db" where
  "commit_session U C io I s =
     (if ses_mode s = ReadOnly then (Inr (), I)
      else idb_update U C io (with_database (ses_origin s) (ses_name s) (commit_action s)) I)"

definition delete_action :: "string \<Rightarrow> string \<Rightarrow> idb_state \<Rightarrow> db_error + nat \<times> idb_state" where
  "delete_action org name st =
     (case om_get st org of
        None \<Rightarrow> Inr (0, st)
      | Some databases \<Rightarrow>
          (case om_get databases name of
             None \<Rightarrow> Inr (0, st)
           | Some db \<Rightarrow> Inr (db_version db, om_insert org (om_remove name databases) st)))"

definition idb_delete :: "'u url_crate_scheme \<Rightarrow> idb_codec \<Rightarrow> io_env \<Rightarrow> indexed_db \<Rightarrow> string \<Rightarrow> string \<Rightarrow>
    (db_error + nat) \<times> indexed_db" where
  "idb_delete U C io I u name =
     (case validate_name name of
        Inl e \<Rightarrow> (Inl e, I)
      | Inr _ \<Rightarrow>
          (case idb_origin U u of
             Inl e \<Rightarrow> (Inl e, I)
           | Inr org \<Rightarrow> idb_update U C io (delete_action org name) I))"

section \<open>Staged operations keep a database consistent\<close>

definition database_inv :: "serde \<Rightarrow> database \<Rightarrow> bool" where
  "database_inv S db \<longleftrightarrow> om_wf (db_stores db) \<and>
     (\<forall>(name, st)\<in>set (db_stores db). store_inv st \<and> unique_inv S st)"

lemma database_step_inv:
  assumes "database_step S mode operation db = Inr (r, db')" "database_inv S db"
  shows "database_inv S db'" "db_version db' = db_version db" "db_generation db' = db_generation db"
proof -
  obtain name writable st st' where st: "om_get (db_stores db) name = Some st"
      "store_apply S st operation = Inr (r, st')" "db' = db\<lparr>db_stores := om_insert name st' (db_stores db)\<rparr>"
    using assms(1) by (auto simp: database_step_def result_simps split: prod.splits if_splits option.splits)
  have wf: "om_wf (db_stores db)" using assms(2) by (simp add: database_inv_def)
  have "(name, st) \<in> set (db_stores db)" using st(1) om_get_mem [OF wf] by simp
  then have "store_inv st" "unique_inv S st" using assms(2) by (auto simp: database_inv_def)
  then have "store_inv st' \<and> unique_inv S st'"
    using store_apply_inv store_apply_unique st(2) by blast
  then show "database_inv S db'"
    using assms(2) set_om_insert_sub [of name st' "db_stores db"] by (auto simp: database_inv_def st(3))
  show "db_version db' = db_version db" "db_generation db' = db_generation db" by (simp_all add: st(3))
qed

lemma database_apply_inv:
  "database_apply S mode operations db = Inr (rs, db') \<Longrightarrow> database_inv S db \<Longrightarrow>
     database_inv S db' \<and> db_version db' = db_version db \<and> db_generation db' = db_generation db"
proof (induction operations arbitrary: db rs)
  case (Cons operation operations)
  then obtain r db1 rs1 where s: "database_step S mode operation db = Inr (r, db1)"
      "database_apply S mode operations db1 = Inr (rs1, db')"
    by (auto simp: result_simps)
  from Cons.IH [OF s(2)] database_step_inv [OF s(1) Cons.prems(2)] show ?case by simp
qed simp

text \<open>A read operation leaves the store alone.\<close>

lemma store_apply_read:
  "store_apply S st operation = Inr (r, st') \<Longrightarrow> \<not> snd (operation_store operation) \<Longrightarrow> st' = st"
  by (cases operation) (auto simp: store_apply_def result_simps Let_def)

lemma database_apply_readonly:
  "database_apply S ReadOnly operations db = Inr (rs, db') \<Longrightarrow> om_wf (db_stores db) \<Longrightarrow> db' = db"
proof (induction operations arbitrary: db rs)
  case (Cons operation operations)
  then obtain r db1 rs1 where s: "database_step S ReadOnly operation db = Inr (r, db1)"
      "database_apply S ReadOnly operations db1 = Inr (rs1, db')"
    by (auto simp: result_simps)
  then obtain name st st' where "om_get (db_stores db) name = Some st" "store_apply S st operation = Inr (r, st')"
      "\<not> snd (operation_store operation)" "db1 = db\<lparr>db_stores := om_insert name st' (db_stores db)\<rparr>"
    by (auto simp: database_step_def result_simps split: prod.splits if_splits option.splits)
  moreover from this have "st' = st" using store_apply_read by blast
  ultimately have "db1 = db" using bt.ins_same [OF Cons.prems(2)] by (cases db) simp
  then show ?case using Cons.IH [OF s(2)] Cons.prems(2) by simp
qed simp

section \<open>What validation guarantees\<close>

lemma out_of_order_sorted: "\<not> out_of_order rs \<Longrightarrow> records_sorted rs"
proof (induction rs rule: out_of_order.induct)
  case (1 a b rs)
  then have ab: "key_cmp (rc_key a) (rc_key b) = Less" and IH: "records_sorted (b # rs)" by auto
  have "key_cmp (rc_key a) (rc_key r) = Less" if "r \<in> set rs" for r
    using key.less_trans [OF _ _ _ ab, of "rc_key r"] IH that by (auto simp: records_sorted_def)
  then show ?case using ab IH by (auto simp: records_sorted_def)
qed (simp_all add: records_sorted_def)

lemma sorted_in_order: "records_sorted rs \<Longrightarrow> \<not> out_of_order rs"
  by (induction rs rule: out_of_order.induct) (auto simp: records_sorted_def)

lemma store_validate_inv:
  "store_validate S name st = Inr u \<Longrightarrow> store_inv st \<and> unique_inv S st \<and> sd_name (os_definition st) = name"
  using out_of_order_sorted store_validate_indexes_unique by (auto simp: store_validate_def store_inv_def result_simps split: if_splits)

definition state_ok :: "serde \<Rightarrow> idb_state \<Rightarrow> bool" where
  "state_ok S st \<longleftrightarrow> (\<forall>(org, dbs)\<in>set st. \<forall>(name, db)\<in>set dbs. 0 < db_version db \<and> length name \<le> MAX_NAME_BYTES \<and>
     (\<forall>(n, store)\<in>set (db_stores db). store_inv store \<and> unique_inv S store \<and> sd_name (os_definition store) = n))"

lemma state_validate_ok: "state_validate U S st = Inr u \<Longrightarrow> state_ok S st"
  using store_validate_inv
  by (fastforce simp: state_validate_def state_ok_def database_validate_def validate_name_def result_simps
      split: if_splits)

lemma idb_validate_ok: "idb_validate U C a b st = Inr u \<Longrightarrow> state_ok (ic_clone C) st"
  using state_validate_ok by (auto simp: idb_validate_def result_simps)

interpretation idb_file: recoverable_file "idb_read_file U C" "[] :: idb_state" True for U C
  by unfold_locales (auto simp: idb_read_file_def result_simps split: file_state.splits if_splits)

section \<open>Updates\<close>

definition codec_reads_back :: "idb_codec \<Rightarrow> bool" where
  "codec_reads_back C \<longleftrightarrow> (\<forall>d b. ic_write C d = Inr b \<longrightarrow> ic_read C b = Inr d)"

lemma idb_update_Inl: "idb_update U C io action I = (Inl e, I') \<Longrightarrow> id_state I' = id_state I"
  by (auto simp: idb_update_def split: sum.splits option.splits prod.splits)

lemma idb_update_Inr:
  assumes "idb_update U C io action I = (Inr r, I')"
  shows "action (id_state I) = Inr (r, id_state I')"
    and "idb_validate U C MAX_ORIGIN_BYTES MAX_DATABASE_BYTES (id_state I') = Inr ()"
    and "id_files I = None \<Longrightarrow> id_files I' = None"
    and "id_files I = Some fs \<Longrightarrow> \<exists>fs'. id_files I' = Some fs' \<and> idb_write C io fs (id_state I') = (Inr (), fs')"
  using assms by (auto simp: idb_update_def split: sum.splits option.splits prod.splits)

lemma idb_write_loads:
  assumes "idb_write C io fs st = (Inr u, fs')" "codec_reads_back C"
    and "idb_validate U C MAX_ORIGIN_BYTES MAX_DATABASE_BYTES st = Inr ()"
  shows "idb_load U C fs' = Inr st"
proof -
  obtain b where b: "ic_write C (IDB_FORMAT_VERSION, st) = Inr b" "length b \<le> MAX_FILE_BYTES"
    and w: "write_recoverable True io fs b = (Inr (), fs')"
    using assms(1)
    by (auto simp: idb_write_def idb_encode_def map_err_def split: sum.splits if_splits prod.splits)
  have "idb_read_file U C (Content b) = Inr (Some st)"
    using b assms(2,3) by (simp add: idb_read_file_def codec_reads_back_def map_err_def limit_simps)
  from idb_file.durable(1) [OF this w] show ?thesis by (simp add: idb_load_def)
qed

lemma with_database_Inr:
  assumes "with_database org name f st = Inr (r, st')"
  shows "\<exists>db db'. find_database st org name = Some db \<and> f db = Inr (r, db') \<and> find_database st' org name = Some db' \<and>
     (\<forall>o' n'. (o', n') \<noteq> (org, name) \<longrightarrow> find_database st' o' n' = find_database st o' n')"
  using assms by (auto simp: with_database_def find_database_def result_simps split: option.splits)

section \<open>Sessions\<close>

fun session_run :: "idb_codec \<Rightarrow> db_operation list list \<Rightarrow> db_session \<Rightarrow> db_error + db_session" where
  "session_run C [] s = Inr s"
| "session_run C (ops # rest) s = and_then (session_step C ops s) (\<lambda>(_, s'). session_run C rest s')"

lemma commit_Inr:
  assumes "commit_session U C io I s = (Inr u, I')" "ses_mode s = ReadWrite"
  shows "\<exists>db. find_database (id_state I) (ses_origin s) (ses_name s) = Some db \<and> db_version db = ses_version s \<and>
      db_generation db = ses_generation s \<and>
      find_database (id_state I') (ses_origin s) (ses_name s) =
        Some ((ses_database s)\<lparr>db_generation := wrapping_add (db_generation (ses_database s)) 1\<rparr>) \<and>
      (\<forall>o' n'. (o', n') \<noteq> (ses_origin s, ses_name s) \<longrightarrow> find_database (id_state I') o' n' = find_database (id_state I) o' n')"
proof -
  have "idb_update U C io (with_database (ses_origin s) (ses_name s) (commit_action s)) I = (Inr u, I')"
    using assms by (simp add: commit_session_def)
  from with_database_Inr [OF idb_update_Inr(1) [OF this]] show ?thesis
    by (auto simp: commit_action_def split: if_splits)
qed

end
