(* ===== verification/Idb_History.thy ===== *)
theory Idb_History
  imports Idb_Model
begin

text \<open>
  Histories of the calls of \<^verbatim>\<open>src/indexed_db/model.rs\<close>: sequences of upgrades, transactions, commits and deletions, each
  holding the lock for the whole call. The generation counter of a database identifies its contents along a history that
  does not delete it, which is what makes the optimistic commit of a staged session sound.
\<close>

section \<open>What each call does to versions and generations\<close>

lemma database_apply_frame:
  "database_apply S mode operations db = Inr (rs, db') \<Longrightarrow>
     db_version db' = db_version db \<and> db_generation db' = db_generation db"
proof (induction operations arbitrary: db rs)
  case (Cons operation operations)
  then obtain r db1 rs1 where s: "database_step S mode operation db = Inr (r, db1)"
      "database_apply S mode operations db1 = Inr (rs1, db')"
    by (auto simp: result_simps)
  have "db_version db1 = db_version db \<and> db_generation db1 = db_generation db"
    using s(1) by (auto simp: database_step_def result_simps split: prod.splits if_splits option.splits)
  then show ?case using Cons.IH [OF s(2)] by simp
qed simp

lemma remove_stores_frame: "remove_stores names db = Inr db' \<Longrightarrow> db_generation db' = db_generation db"
  by (induction names arbitrary: db) (auto split: if_splits)

lemma create_stores_frame: "create_stores ds db = Inr db' \<Longrightarrow> db_generation db' = db_generation db"
  by (induction ds arbitrary: db) (auto simp: result_simps split: if_splits)

lemma set_schema_frame: "set_schema ds db = Inr db' \<Longrightarrow> db_generation db' = db_generation db"
  by (induction ds arbitrary: db) (auto simp: result_simps split: if_splits option.splits)

definition fresh_database :: database where
  "fresh_database = \<lparr>db_version = 0, db_generation = 0, db_stores = []\<rparr>"

definition current_database :: "idb_state \<Rightarrow> string \<Rightarrow> string \<Rightarrow> database" where
  "current_database st org name = (case find_database st org name of None \<Rightarrow> fresh_database | Some db \<Rightarrow> db)"

lemma upgrade_action_Inr:
  assumes "upgrade_action C org name pv v create remove writes definitions st = Inr (rs, st')"
  shows "\<exists>db'. find_database st' org name = Some db' \<and> db_version db' = v \<and>
      db_generation db' = wrapping_add (db_generation (current_database st org name)) 1 \<and>
      db_version (current_database st org name) = pv \<and>
      (\<forall>(n, store)\<in>set (db_stores db'). unique_inv (ic_clone C) store)"
    and "(o', n') \<noteq> (org, name) \<Longrightarrow> find_database st' o' n' = find_database st o' n'"
proof -
  define databases where "databases = (case om_get st org of Some g \<Rightarrow> g | None \<Rightarrow> [])"
  define db0 where "db0 = (case om_get databases name of
    Some db \<Rightarrow> db | None \<Rightarrow> \<lparr>db_version = 0, db_generation = 0, db_stores = []\<rparr>)"
  obtain db1 db2 db3 db4 where v: "db_version db0 = pv" and steps: "remove_stores remove db0 = Inr db1"
      "create_stores create db1 = Inr db2" "apply_schema definitions db2 = Inr db3"
      "database_apply (ic_clone C) ReadWrite writes db3 = Inr (rs, db4)"
      "database_validate_indexes (ic_clone C) db4 = Inr ()"
    and st': "st' = om_insert org (om_insert name
        (db4\<lparr>db_version := v, db_generation := wrapping_add (db_generation db4) 1\<rparr>) databases) st"
    using assms unfolding upgrade_action_def Let_def databases_def [symmetric] db0_def [symmetric]
    by (auto simp: result_simps split: if_splits)
  have "db_generation db3 = db_generation db2"
    using steps(3) set_schema_frame by (auto simp: apply_schema_def split: if_splits)
  then have gen: "db_generation db4 = db_generation db0"
    using steps(1,2) database_apply_frame [OF steps(4)] remove_stores_frame create_stores_frame by metis
  have db0: "current_database st org name = db0"
    by (auto simp: db0_def databases_def current_database_def find_database_def fresh_database_def split: option.splits)
  have "\<forall>(n, store)\<in>set (db_stores db4). unique_inv (ic_clone C) store"
    using steps(5) store_validate_indexes_unique by (fastforce simp: database_validate_indexes_def result_simps)
  then show "\<exists>db'. find_database st' org name = Some db' \<and> db_version db' = v \<and>
      db_generation db' = wrapping_add (db_generation (current_database st org name)) 1 \<and>
      db_version (current_database st org name) = pv \<and>
      (\<forall>(n, store)\<in>set (db_stores db'). unique_inv (ic_clone C) store)"
    using gen v by (simp add: st' find_database_def db0)
  show "(o', n') \<noteq> (org, name) \<Longrightarrow> find_database st' o' n' = find_database st o' n'"
    by (auto simp: st' find_database_def databases_def split: option.splits)
qed

definition session_wf :: "db_session \<Rightarrow> bool" where
  "session_wf s \<longleftrightarrow> db_version (ses_database s) = ses_version s \<and> db_generation (ses_database s) = ses_generation s"

lemma begin_session_Inr:
  assumes "begin_session U I u name v mode = Inr s"
  shows "idb_origin U u = Inr (ses_origin s)" "ses_name s = name" "ses_version s = v" "ses_mode s = mode"
    and "find_database (id_state I) (ses_origin s) name = Some (ses_database s)" "session_wf s"
  using assms by (auto simp: begin_session_def result_simps session_wf_def split: option.splits if_splits)

lemma session_step_frame:
  assumes "session_step C ops s = Inr (rs, s')"
  shows "ses_origin s' = ses_origin s" "ses_name s' = ses_name s" "ses_version s' = ses_version s"
    and "ses_generation s' = ses_generation s" "ses_mode s' = ses_mode s" "session_wf s \<Longrightarrow> session_wf s'"
  using assms by (auto simp: session_step_def session_wf_def result_simps dest!: database_apply_frame split: if_splits)

lemma session_run_wf:
  "session_run C opss s = Inr s' \<Longrightarrow>
     ses_origin s' = ses_origin s \<and> ses_name s' = ses_name s \<and> ses_version s' = ses_version s \<and>
     ses_generation s' = ses_generation s \<and> ses_mode s' = ses_mode s \<and> (session_wf s \<longrightarrow> session_wf s')"
proof (induction opss arbitrary: s)
  case (Cons ops rest)
  then obtain s1 rs where "session_step C ops s = Inr (rs, s1)" "session_run C rest s1 = Inr s'"
    by (auto simp: result_simps)
  then show ?case using Cons.IH [of s1] session_step_frame [of C ops s rs s1] by simp
qed simp

lemma database_apply_append:
  "database_apply S mode (xs @ ys) db =
     and_then (database_apply S mode xs db) (\<lambda>(rs, db1).
       and_then (database_apply S mode ys db1) (\<lambda>(rs', db2). Inr (rs @ rs', db2)))"
  by (induction xs arbitrary: db) (auto simp: and_then_def split: sum.splits)

text \<open>Staging step by step is applying the concatenated operations to the snapshot.\<close>

lemma session_run_apply:
  "session_run C opss s = Inr s' \<Longrightarrow>
     \<exists>rs. database_apply (ic_clone C) (ses_mode s) (concat opss) (ses_database s) = Inr (rs, ses_database s')"
proof (induction opss arbitrary: s)
  case (Cons ops rest)
  then obtain s1 rs where s: "session_step C ops s = Inr (rs, s1)" "session_run C rest s1 = Inr s'"
    by (auto simp: result_simps)
  have "database_apply (ic_clone C) (ses_mode s) ops (ses_database s) = Inr (rs, ses_database s1)"
    using s(1) by (auto simp: session_step_def result_simps split: if_splits)
  then show ?case using Cons.IH [OF s(2)] session_step_frame(5) [OF s(1)]
    by (auto simp: database_apply_append)
qed simp

section \<open>Histories\<close>

inductive idb_step :: "'u url_crate_scheme \<Rightarrow> idb_codec \<Rightarrow> string \<Rightarrow> string \<Rightarrow> indexed_db \<Rightarrow> indexed_db \<Rightarrow> bool"
  for U C org name where
  upgrade: "idb_upgrade U C io I u n pv v create remove writes definitions = (r, I') \<Longrightarrow> idb_step U C org name I I'"
| transaction: "idb_transaction U C io I u n v mode operations = (r, I') \<Longrightarrow> idb_step U C org name I I'"
| commit: "session_wf s \<Longrightarrow> commit_session U C io I s = (r, I') \<Longrightarrow> idb_step U C org name I I'"
| delete: "idb_delete U C io I u n = (r, I') \<Longrightarrow> idb_origin U u \<noteq> Inr org \<or> n \<noteq> name \<Longrightarrow> idb_step U C org name I I'"

inductive idb_history :: "'u url_crate_scheme \<Rightarrow> idb_codec \<Rightarrow> string \<Rightarrow> string \<Rightarrow> nat \<Rightarrow> indexed_db \<Rightarrow> indexed_db \<Rightarrow> bool"
  for U C org name where
  start: "idb_history U C org name 0 I I"
| step: "idb_history U C org name n I I' \<Longrightarrow> idb_step U C org name I' I'' \<Longrightarrow> idb_history U C org name (Suc n) I I''"

definition advanced :: "database \<Rightarrow> database option \<Rightarrow> bool" where
  "advanced db later \<longleftrightarrow> later = Some db \<or>
     (\<exists>db'. later = Some db' \<and> db_generation db' = wrapping_add (db_generation db) 1)"

lemma advanced_same [simp]: "advanced db (Some db)"
  by (simp add: advanced_def)

lemma idb_update_advanced:
  assumes "idb_update U C io action I = (r, I')" "find_database (id_state I) org name = Some db"
    and "\<And>x st'. action (id_state I) = Inr (x, st') \<Longrightarrow> advanced db (find_database st' org name)"
  shows "advanced db (find_database (id_state I') org name)"
proof (cases r)
  case (Inl e)
  then show ?thesis using assms(2) idb_update_Inl [OF assms(1) [unfolded Inl]] by simp
next
  case (Inr x)
  show ?thesis by (rule assms(3) [OF idb_update_Inr(1) [OF assms(1) [unfolded Inr]]])
qed

lemma with_database_advanced:
  assumes "with_database o' n' f st = Inr (x, st')" "find_database st org name = Some db"
    and "\<And>db db' y. f db = Inr (y, db') \<Longrightarrow> db_generation db' = wrapping_add (db_generation db) 1"
  shows "advanced db (find_database st' org name)"
proof -
  obtain d d' where d: "find_database st o' n' = Some d" "f d = Inr (x, d')" "find_database st' o' n' = Some d'"
    "\<forall>o1 n1. (o1, n1) \<noteq> (o', n') \<longrightarrow> find_database st' o1 n1 = find_database st o1 n1"
    using with_database_Inr [OF assms(1)] by blast
  show ?thesis
  proof (cases "(org, name) = (o', n')")
    case True
    then show ?thesis using d assms(2) assms(3) [OF d(2)] by (simp add: advanced_def)
  qed (use d(4) assms(2) in simp)
qed

lemma idb_step_advanced:
  assumes "idb_step U C org name I I'" and db: "find_database (id_state I) org name = Some db"
  shows "advanced db (find_database (id_state I') org name)"
  using assms(1)
proof cases
  case (upgrade io u n pv v create remove writes definitions r)
  show ?thesis
  proof (cases "id_state I' = id_state I")
    case False
    then obtain o' where "idb_update U C io (upgrade_action C o' n pv v create remove writes definitions) I = (r, I')"
      using upgrade by (auto simp: idb_upgrade_def split: sum.splits if_splits)
    then show ?thesis
    proof (rule idb_update_advanced [OF _ db])
      fix x st' assume u: "upgrade_action C o' n pv v create remove writes definitions (id_state I) = Inr (x, st')"
      show "advanced db (find_database st' org name)"
      proof (cases "(org, name) = (o', n)")
        case True
        then show ?thesis using upgrade_action_Inr(1) [OF u] db by (auto simp: advanced_def current_database_def)
      next
        case False
        then show ?thesis using upgrade_action_Inr(2) [OF u False] db by simp
      qed
    qed
  qed (use db in simp)
next
  case (transaction io u n v mode operations r)
  show ?thesis
  proof (cases "id_state I' = id_state I")
    case False
    then obtain o' where "idb_update U C io (with_database o' n (transaction_action C v mode operations)) I = (r, I')"
      using transaction by (auto simp: idb_transaction_def split: sum.splits if_splits)
    then show ?thesis
    proof (rule idb_update_advanced [OF _ db])
      fix x st' assume "with_database o' n (transaction_action C v mode operations) (id_state I) = Inr (x, st')"
      then show "advanced db (find_database st' org name)"
        by (rule with_database_advanced [OF _ db])
          (auto simp: transaction_action_def result_simps dest!: database_apply_frame split: if_splits)
    qed
  qed (use db in simp)
next
  case (commit s io r)
  show ?thesis
  proof (cases "id_state I' = id_state I")
    case False
    then have "idb_update U C io (with_database (ses_origin s) (ses_name s) (commit_action s)) I = (r, I')"
      using commit by (auto simp: commit_session_def split: if_splits)
    then show ?thesis
    proof (rule idb_update_advanced [OF _ db])
      fix x st' assume "with_database (ses_origin s) (ses_name s) (commit_action s) (id_state I) = Inr (x, st')"
      then show "advanced db (find_database st' org name)"
        by (rule with_database_advanced [OF _ db])
          (use commit(1) in \<open>auto simp: commit_action_def session_wf_def split: if_splits\<close>)
    qed
  qed (use db in simp)
next
  case (delete io u n r)
  show ?thesis
  proof (cases "id_state I' = id_state I")
    case False
    then obtain o' where o': "idb_origin U u = Inr o'" "idb_update U C io (delete_action o' n) I = (r, I')"
      using delete(1) by (auto simp: idb_delete_def split: sum.splits)
    then have ne: "(org, name) \<noteq> (o', n)" using delete(2) by auto
    from o'(2) show ?thesis
    proof (rule idb_update_advanced [OF _ db])
      fix x st' assume "delete_action o' n (id_state I) = Inr (x, st')"
      then have "find_database st' org name = find_database (id_state I) org name"
        using ne by (auto simp: delete_action_def find_database_def split: option.splits)
      then show "advanced db (find_database st' org name)" using db by simp
    qed
  qed (use db in simp)
qed

lemma idb_history_generation:
  "idb_history U C org name n I0 I \<Longrightarrow> find_database (id_state I0) org name = Some db0 \<Longrightarrow> db_generation db0 < 2 ^ 64 \<Longrightarrow>
     \<exists>db k. find_database (id_state I) org name = Some db \<and> k \<le> n \<and> db_generation db = (db_generation db0 + k) mod 2 ^ 64 \<and>
       (k = 0 \<longrightarrow> db = db0)"
proof (induction rule: idb_history.induct)
  case (start I)
  then show ?case by (intro exI [of _ db0] exI [of _ 0]) simp
next
  case (step n I0 I I')
  then obtain db k where IH: "find_database (id_state I) org name = Some db" "k \<le> n"
      "db_generation db = (db_generation db0 + k) mod 2 ^ 64" "k = 0 \<longrightarrow> db = db0"
    by blast
  from idb_step_advanced [OF step.hyps(2) IH(1)] consider "find_database (id_state I') org name = Some db"
    | db' where "find_database (id_state I') org name = Some db'" "db_generation db' = wrapping_add (db_generation db) 1"
    by (auto simp: advanced_def)
  then show ?case
  proof cases
    case 1
    then show ?thesis using IH by (intro exI [of _ db] exI [of _ k]) simp
  next
    case 2
    then show ?thesis using IH by (intro exI [of _ db'] exI [of _ "Suc k"]) (simp add: wrapping_add_def mod_simps)
  qed
qed

lemma idb_history_unchanged:
  assumes "idb_history U C org name n I0 I" "find_database (id_state I0) org name = Some db0"
    and "db_generation db0 < 2 ^ 64" "n < 2 ^ 64"
    and "find_database (id_state I) org name = Some db" "db_generation db = db_generation db0"
  shows "db = db0"
proof -
  obtain k where k: "k \<le> n" "db_generation db0 = (db_generation db0 + k) mod 2 ^ 64" "k = 0 \<longrightarrow> db = db0"
    using idb_history_generation [OF assms(1-3)] assms(5,6) by auto
  have "(db_generation db0 + k) mod 2 ^ 64 \<noteq> db_generation db0" if "k \<noteq> 0"
  proof (cases "db_generation db0 + k < 2 ^ 64")
    case False
    then have "(db_generation db0 + k) mod 2 ^ 64 = db_generation db0 + k - 2 ^ 64"
      using assms(3,4) k(1) by (simp add: le_mod_geq)
    then show ?thesis using assms(4) k(1) False by linarith
  qed (use that in simp)
  then show ?thesis using k by metis
qed

section \<open>Properties\<close>

text \<open>A small database and a codec for the examples.\<close>

definition sample_codec :: "idb_state option \<Rightarrow> idb_codec" where
  "sample_codec saved = \<lparr>ic_clone = sample_serde, ic_results = (\<lambda>rs. Some []), ic_group = (\<lambda>g. Inr []),
     ic_write = (\<lambda>d. case saved of
        None \<Rightarrow> Inr [] | Some st \<Rightarrow> if d = (1, st) then Inr [1] else Inl ''unexpected state''),
     ic_read = (\<lambda>b. case saved of None \<Rightarrow> Inl ''unreadable'' | Some st \<Rightarrow> Inr (1, st))\<rparr>"

definition sample_db :: "nat \<Rightarrow> object_store \<Rightarrow> database" where
  "sample_db g st = \<lparr>db_version = 1, db_generation = g, db_stores = [(''s'', st)]\<rparr>"

definition sample_state :: "nat \<Rightarrow> object_store \<Rightarrow> idb_state" where
  "sample_state g st = [(''https://a.example'', [(''d'', sample_db g st)])]"

definition sample_idb :: "nat \<Rightarrow> object_store \<Rightarrow> files option \<Rightarrow> indexed_db" where
  "sample_idb g st fs = \<lparr>id_state = sample_state g st, id_files = fs\<rparr>"

definition sample_session :: db_session where
  "sample_session = \<lparr>ses_origin = ''https://a.example'', ses_name = ''d'', ses_version = 1, ses_generation = 1,
     ses_mode = ReadWrite, ses_database = sample_db 1 sample_store\<rparr>"

lemma sample_codec_reads_back: "codec_reads_back (sample_codec (Some st))"
  by (simp add: codec_reads_back_def sample_codec_def)

lemma sample_idb_origin [simp]: "idb_origin sample_crate ''https://a.example/'' = Inr ''https://a.example''"
  by (simp add: idb_origin_def)

definition sample_emptied :: object_store where
  "sample_emptied = sample_store\<lparr>os_records := []\<rparr>"

definition sample_deleted :: indexed_db where
  "sample_deleted = \<lparr>id_state = [(''https://a.example'', [])], id_files = None\<rparr>"

lemma sample_store_valid:
  "store_validate sample_serde ''s'' sample_store = Inr ()" "store_validate sample_serde ''s'' sample_stored = Inr ()"
  "store_validate sample_serde ''s'' sample_emptied = Inr ()"
  by (simp_all add: limit_simps store_validate_def sample_store_def sample_stored_def sample_emptied_def
      store_definition_validate_def validate_name_def validate_path_def key_validate.simps store_validate_indexes_def
      index_validate_def keys_for_value_def sample_serde_def key_cmp_rank lin_cmp_def single_key_def extract_path_def
      project_path_def Let_def kset_contains_def split: option.split)

lemma sample_idb_valid:
  assumes "store_validate sample_serde ''s'' st = Inr ()" "saved = None \<or> saved = Some (sample_state g st)"
  shows "idb_validate sample_crate (sample_codec saved) MAX_ORIGIN_BYTES MAX_DATABASE_BYTES (sample_state g st) = Inr ()"
  using assms
  by (auto simp: idb_validate_def state_validate_def sample_state_def sample_db_def database_validate_def validate_name_def
      limit_simps sample_codec_def idb_encode_def IDB_FORMAT_VERSION_def)

lemma idb_update_memory:
  assumes "action (id_state I) = Inr (x, st)" "idb_validate U C MAX_ORIGIN_BYTES MAX_DATABASE_BYTES st = Inr ()"
    and "id_files I = None"
  shows "idb_update U C io action I = (Inr x, I\<lparr>id_state := st\<rparr>)"
  using assms by (simp add: idb_update_def)

lemma sample_begin:
  "begin_session sample_crate (sample_idb 1 sample_store None) ''https://a.example/'' ''d'' 1 ReadWrite = Inr sample_session"
  by (simp add: begin_session_def sample_idb_def sample_state_def find_database_def sample_db_def sample_session_def)

lemma sample_commit:
  "commit_session sample_crate (sample_codec None) io_ok (sample_idb 1 sample_store None) sample_session =
     (Inr (), sample_idb 2 sample_store None)"
proof -
  have "with_database ''https://a.example'' ''d'' (commit_action sample_session) (sample_state 1 sample_store) =
      Inr ((), sample_state 2 sample_store)"
    by (simp add: with_database_def sample_state_def commit_action_def sample_session_def sample_db_def wrapping_add_def)
  then show ?thesis using sample_idb_valid [OF sample_store_valid(1), of None 2]
    by (simp add: commit_session_def idb_update_memory sample_session_def sample_idb_def)
qed

text \<open>C4: optimistic commit is serialisable. A readwrite session staged over a snapshot commits only while the database
  is still exactly that snapshot, whatever upgrades, transactions and commits other clients made in between (up to the
  wrap of the 64-bit generation, and as long as the database was not deleted); otherwise it is refused with a version
  error and nothing changes. A successful commit is therefore one transaction of all staged operations.\<close>

theorem committed_session_is_serializable:
  assumes "begin_session U I0 u name v ReadWrite = Inr s0" "session_run C opss s0 = Inr s"
    and "idb_history U C (ses_origin s0) name n I0 I" "n < 2 ^ 64" "db_generation (ses_database s0) < 2 ^ 64"
    and "commit_session U C io I s = (r, I')"
  shows "(find_database (id_state I) (ses_origin s0) name \<noteq> Some (ses_database s0) \<longrightarrow> r = Inl VersionError \<and> I' = I) \<and>
    (r = Inr () \<longrightarrow> (\<exists>rs db. database_apply (ic_clone C) ReadWrite (concat opss) (ses_database s0) = Inr (rs, db) \<and>
       find_database (id_state I') (ses_origin s0) name =
         Some (db\<lparr>db_generation := wrapping_add (db_generation db) 1\<rparr>)))"
proof (rule conjI; rule impI)
  note B = begin_session_Inr [OF assms(1)]
  have S: "ses_origin s = ses_origin s0" "ses_name s = name" "ses_version s = v" "ses_mode s = ReadWrite"
      "ses_generation s = db_generation (ses_database s0)"
    using session_run_wf [OF assms(2)] B by (auto simp: session_wf_def)
  obtain db where db: "find_database (id_state I) (ses_origin s0) name = Some db"
    using idb_history_generation [OF assms(3) B(5) assms(5)] by blast
  have commit: "idb_update U C io (with_database (ses_origin s0) name (commit_action s)) I = (r, I')"
    using assms(6) S by (simp add: commit_session_def)
  {
    assume changed: "find_database (id_state I) (ses_origin s0) name \<noteq> Some (ses_database s0)"
    have "db_generation db \<noteq> ses_generation s"
      using idb_history_unchanged [OF assms(3) B(5) assms(5,4) db] changed db S by auto
    then have "commit_action s db = Inl VersionError" by (simp add: commit_action_def)
    then have "with_database (ses_origin s0) name (commit_action s) (id_state I) = Inl VersionError"
      using db by (auto simp: with_database_def find_database_def Option.bind_eq_Some_conv)
    then show "r = Inl VersionError \<and> I' = I" using commit by (simp add: idb_update_def)
  }
  assume "r = Inr ()"
  then show "\<exists>rs db. database_apply (ic_clone C) ReadWrite (concat opss) (ses_database s0) = Inr (rs, db) \<and>
       find_database (id_state I') (ses_origin s0) name = Some (db\<lparr>db_generation := wrapping_add (db_generation db) 1\<rparr>)"
    using commit_Inr [of U C io I s "()" I'] assms(6) S session_run_apply [OF assms(2)] B(4) by auto
qed

theorem committed_session_is_serializable_witness:
  "commit_session sample_crate (sample_codec None) io_ok (sample_idb 2 sample_store None) sample_session =
     (Inl VersionError, sample_idb 2 sample_store None)"
proof -
  let ?C = "sample_codec None" and ?I = "sample_idb 2 sample_store None"
  have "session_wf sample_session" by (simp add: session_wf_def sample_session_def sample_db_def)
  then have "idb_history sample_crate ?C (ses_origin sample_session) ''d'' (Suc 0) (sample_idb 1 sample_store None) ?I"
    using idb_step.commit [OF _ sample_commit] idb_history.start idb_history.step by metis
  from committed_session_is_serializable [OF sample_begin _ this, of "[]" sample_session io_ok "fst (commit_session sample_crate ?C io_ok ?I sample_session)"
      "snd (commit_session sample_crate ?C io_ok ?I sample_session)"]
  show ?thesis
    by (simp add: sample_session_def sample_db_def sample_idb_def sample_state_def find_database_def prod_eq_iff)
qed

text \<open>C5: a readwrite transaction is atomic and durable: refused, it leaves the state in memory as it was; accepted, its
  operations all ran on the named database at the expected version, nothing else changed, the new state satisfies every
  stored invariant, and reading the profile back yields it.\<close>

theorem transaction_is_atomic_and_durable:
  assumes "idb_transaction U C io I u name v ReadWrite operations = (r, I')" "codec_reads_back C"
  shows "case r of
      Inl e \<Rightarrow> id_state I' = id_state I
    | Inr rs \<Rightarrow> state_ok (ic_clone C) (id_state I') \<and>
        (\<exists>org db db'. idb_origin U u = Inr org \<and> find_database (id_state I) org name = Some db \<and> db_version db = v \<and>
           database_apply (ic_clone C) ReadWrite operations db = Inr (rs, db') \<and>
           find_database (id_state I') org name = Some (db'\<lparr>db_generation := wrapping_add (db_generation db') 1\<rparr>) \<and>
           (\<forall>o' n'. (o', n') \<noteq> (org, name) \<longrightarrow> find_database (id_state I') o' n' = find_database (id_state I) o' n')) \<and>
        (\<forall>fs. id_files I = Some fs \<longrightarrow> (\<exists>fs'. id_files I' = Some fs' \<and> idb_open U C fs' = Inr I'))"
proof (cases r)
  case (Inl e)
  then show ?thesis using assms(1) idb_update_Inl
    by (fastforce simp: idb_transaction_def split: sum.splits if_splits)
next
  case (Inr rs)
  then obtain org where org: "idb_origin U u = Inr org"
      "idb_update U C io (with_database org name (transaction_action C v ReadWrite operations)) I = (Inr rs, I')"
    using assms(1) by (auto simp: idb_transaction_def split: sum.splits if_splits)
  note U = idb_update_Inr [OF org(2)]
  obtain d d' where d: "find_database (id_state I) org name = Some d" "find_database (id_state I') org name = Some d'"
      "transaction_action C v ReadWrite operations d = Inr (rs, d')"
      "\<forall>o' n'. (o', n') \<noteq> (org, name) \<longrightarrow> find_database (id_state I') o' n' = find_database (id_state I) o' n'"
    using with_database_Inr [OF U(1)] by blast
  have "state_ok (ic_clone C) (id_state I')" by (rule idb_validate_ok [OF U(2)])
  moreover have "\<exists>fs'. id_files I' = Some fs' \<and> idb_open U C fs' = Inr I'" if "id_files I = Some fs" for fs
    using U(4) [OF that] idb_write_loads [OF _ assms(2) U(2)] by (auto simp: idb_open_def)
  ultimately show ?thesis
    using Inr org(1) d by (auto simp: transaction_action_def result_simps split: if_splits)
qed

theorem transaction_is_atomic_and_durable_witness:
  "\<exists>I' fs'. id_files I' = Some fs' \<and> id_state I' = sample_state 2 sample_stored \<and>
     idb_open sample_crate (sample_codec (Some (sample_state 2 sample_stored))) fs' = Inr I'"
proof -
  let ?C = "sample_codec (Some (sample_state 2 sample_stored))" and ?op = "Put ''s'' (Some (Binary [])) ''1'' False"
  let ?fs = "\<lparr>f_primary = Content [1], f_backup = Missing, f_temporary = Missing\<rparr>"
  have "database_apply (ic_clone ?C) ReadWrite [?op] (sample_db 1 sample_store) = Inr ([RKey (Binary [])], sample_db 1 sample_stored)"
    by (simp add: database_step_def sample_codec_def sample_db_def sample_put)
  then have "with_database ''https://a.example'' ''d'' (transaction_action ?C 1 ReadWrite [?op]) (sample_state 1 sample_store) =
      Inr ([RKey (Binary [])], sample_state 2 sample_stored)"
    by (simp add: with_database_def sample_state_def transaction_action_def validate_results_def wrapping_add_def
        sample_codec_def limit_simps sample_db_def)
  moreover have "idb_write ?C io_ok sample_files (sample_state 2 sample_stored) = (Inr (), ?fs)"
    by (simp add: idb_write_def idb_encode_def IDB_FORMAT_VERSION_def sample_codec_def limit_simps write_recoverable_def
        write_run_def io_ok_def sample_files_def publish_def Let_def)
  ultimately have "idb_transaction sample_crate ?C io_ok (sample_idb 1 sample_store (Some sample_files)) ''https://a.example/'' ''d'' 1
      ReadWrite [?op] = (Inr [RKey (Binary [])], sample_idb 2 sample_stored (Some ?fs))"
    using sample_idb_valid [OF sample_store_valid(2), of "Some (sample_state 2 sample_stored)" 2]
    by (simp add: idb_transaction_def limit_simps idb_update_def sample_idb_def)
  from transaction_is_atomic_and_durable [OF this sample_codec_reads_back]
  show ?thesis by (intro exI [of _ "sample_idb 2 sample_stored (Some ?fs)"] exI [of _ ?fs]) (simp add: sample_idb_def)
qed

text \<open>A readonly transaction changes nothing, neither in memory nor on disk, and is refused as soon as it contains a
  writing operation.\<close>

theorem readonly_transaction_changes_nothing:
  assumes "idb_transaction U C io I u name v ReadOnly operations = (r, I')"
  shows "I' = I \<and> ((\<exists>operation\<in>set operations. snd (operation_store operation)) \<longrightarrow> (\<exists>e. r = Inl e))"
proof -
  have *: "database_apply S ReadOnly operations db \<noteq> Inr y" if "\<exists>operation\<in>set operations. snd (operation_store operation)" for S db y
    using that
  proof (induction operations arbitrary: db y)
    case (Cons operation operations)
    show ?case
    proof (cases "database_step S ReadOnly operation db")
      case (Inr x)
      then have "\<not> snd (operation_store operation)" by (auto simp: database_step_def split: prod.splits)
      then have "database_apply S ReadOnly operations (snd x) \<noteq> Inr z" for z using Cons by simp
      then show ?thesis using Inr by (cases x) (auto simp: result_simps)
    qed simp
  qed simp
  have "\<exists>e. r = Inl e" if w: "\<exists>operation\<in>set operations. snd (operation_store operation)"
  proof (cases r)
    case (Inr rs)
    then obtain org x where "with_database org name (transaction_action C v ReadOnly operations) (id_state I) = Inr (rs, x)"
      using assms by (auto simp: idb_transaction_def result_simps split: sum.splits if_splits)
    with with_database_Inr [OF this] * [OF w, of "ic_clone C"] show ?thesis
      by (auto simp: transaction_action_def result_simps split: if_splits)
  qed simp
  then show ?thesis using assms by (auto simp: idb_transaction_def split: sum.splits if_splits)
qed

theorem readonly_transaction_changes_nothing_witness:
  "\<exists>e. idb_transaction sample_crate (sample_codec None) io_ok (sample_idb 1 sample_store None) ''https://a.example/'' ''d'' 1
     ReadOnly [ClearStore ''s''] = (Inl e, sample_idb 1 sample_store None)"
proof -
  obtain r I' where rI: "idb_transaction sample_crate (sample_codec None) io_ok (sample_idb 1 sample_store None) ''https://a.example/''
      ''d'' 1 ReadOnly [ClearStore ''s''] = (r, I')" by fastforce
  from readonly_transaction_changes_nothing [OF this] show ?thesis unfolding rI by auto
qed

text \<open>An upgrade is all or nothing. Accepted, it moves exactly the named database from the expected version to a
  strictly greater one, advances its generation, and every unique index of the new schema holds over the stored records;
  refused, the state in memory is unchanged.\<close>

theorem upgrade_moves_version_forward:
  assumes "idb_upgrade U C io I u name pv v create remove writes definitions = (r, I')"
  shows "case r of
      Inl e \<Rightarrow> id_state I' = id_state I
    | Inr rs \<Rightarrow> \<exists>org db. idb_origin U u = Inr org \<and> pv < v \<and>
        db_version (current_database (id_state I) org name) = pv \<and>
        find_database (id_state I') org name = Some db \<and> db_version db = v \<and>
        db_generation db = wrapping_add (db_generation (current_database (id_state I) org name)) 1 \<and>
        (\<forall>(n, store)\<in>set (db_stores db). unique_inv (ic_clone C) store) \<and>
        (\<forall>o' n'. (o', n') \<noteq> (org, name) \<longrightarrow> find_database (id_state I') o' n' = find_database (id_state I) o' n')"
proof (cases r)
  case (Inl e)
  then show ?thesis using assms idb_update_Inl
    by (fastforce simp: idb_upgrade_def split: sum.splits if_splits)
next
  case (Inr rs)
  then obtain org where org: "idb_origin U u = Inr org" "pv < v"
      "idb_update U C io (upgrade_action C org name pv v create remove writes definitions) I = (Inr rs, I')"
    using assms by (auto simp: idb_upgrade_def split: sum.splits if_splits)
  note A = idb_update_Inr(1) [OF org(3)]
  show ?thesis using Inr org(1,2) upgrade_action_Inr(1) [OF A] upgrade_action_Inr(2) [OF A] by auto
qed

lemma sample_upgrade:
  "idb_upgrade sample_crate (sample_codec None) io_ok (sample_deleted) ''https://a.example/'' ''d'' 0 1
     [os_definition sample_store] [] [] [] = (Inr [], sample_idb 1 sample_emptied None)"
proof -
  let ?C = "sample_codec None"
  have "upgrade_action ?C ''https://a.example'' ''d'' 0 1 [os_definition sample_store] [] [] [] (id_state sample_deleted) =
      Inr ([], sample_state 1 sample_emptied)"
    by (simp add: upgrade_action_def sample_deleted_def sample_emptied_def sample_state_def sample_db_def Let_def
        sample_store_def store_definition_validate_def validate_name_def validate_path_def index_validate_def limit_simps
        om_contains_def apply_schema_def validate_results_def sample_codec_def database_validate_indexes_def
        store_validate_indexes_def wrapping_add_def)
  then show ?thesis using sample_idb_valid [OF sample_store_valid(3), of None 1]
    by (simp add: idb_upgrade_def validate_name_def limit_simps idb_update_memory sample_idb_def sample_deleted_def)
qed

theorem upgrade_moves_version_forward_witness:
  "\<exists>db. find_database (sample_state 1 sample_emptied) ''https://a.example'' ''d'' = Some db \<and> db_version db = 1 \<and> db_generation db = 1"
  using upgrade_moves_version_forward [OF sample_upgrade]
  by (auto simp: sample_idb_def sample_deleted_def current_database_def find_database_def fresh_database_def wrapping_add_def)

text \<open>The generation restarts when a database is deleted, so it does not identify contents across a deletion: a
  session staged over a newly created database still commits after that database was deleted and created again at the
  same version, and replaces the contents of the new one.\<close>

theorem stale_session_overwrites_recreated_database:
  assumes "begin_session U I0 u name v ReadWrite = Inr s0" "db_generation (ses_database s0) = 1"
    and "session_run C opss s0 = Inr s"
    and "idb_delete U C io I0 u name = (Inr deleted, I1)"
    and "idb_upgrade U C io I1 u name 0 v create remove writes definitions = (Inr rs, I2)"
  shows "\<exists>st db2. find_database (id_state I2) (ses_origin s0) name = Some db2 \<and>
     with_database (ses_origin s0) name (commit_action s) (id_state I2) = Inr ((), st) \<and>
     find_database st (ses_origin s0) name = Some ((ses_database s)\<lparr>db_generation := 2\<rparr>)"
proof -
  note B = begin_session_Inr [OF assms(1)]
  have S: "ses_version s = v" "ses_generation s = 1" "db_generation (ses_database s) = 1"
    using session_run_wf [OF assms(3)] B assms(2) by (auto simp: session_wf_def)
  have "delete_action (ses_origin s0) name (id_state I0) = Inr (deleted, id_state I1)"
    using assms(4) B(1) idb_update_Inr(1) by (auto simp: idb_delete_def split: sum.splits)
  then have gone: "find_database (id_state I1) (ses_origin s0) name = None"
    by (auto simp: delete_action_def find_database_def dest!: sym [of _ "id_state I1"] split: option.splits)
  have "upgrade_action C (ses_origin s0) name 0 v create remove writes definitions (id_state I1) = Inr (rs, id_state I2)"
    using assms(5) B(1) idb_update_Inr(1) by (auto simp: idb_upgrade_def split: sum.splits if_splits)
  from upgrade_action_Inr(1) [OF this] obtain db2 where
    db2: "find_database (id_state I2) (ses_origin s0) name = Some db2" "db_version db2 = v" "db_generation db2 = 1"
    using gone by (auto simp: current_database_def fresh_database_def wrapping_add_def)
  then have "commit_action s db2 = Inr ((), (ses_database s)\<lparr>db_generation := 2\<rparr>)"
    using S by (simp add: commit_action_def wrapping_add_def)
  then show ?thesis using db2(1) by (auto simp: with_database_def find_database_def Option.bind_eq_Some_conv)
qed

theorem stale_session_overwrites_recreated_database_witness:
  "\<exists>st. with_database ''https://a.example'' ''d'' (commit_action sample_session) (sample_state 1 sample_emptied) = Inr ((), st) \<and>
     find_database st ''https://a.example'' ''d'' = Some (sample_db 2 sample_store)"
proof -
  let ?C = "sample_codec None"
  have "delete_action ''https://a.example'' ''d'' (sample_state 1 sample_store) = Inr (1, id_state sample_deleted)"
    by (simp add: delete_action_def sample_state_def sample_deleted_def sample_db_def om_remove_def)
  moreover have "idb_validate sample_crate ?C MAX_ORIGIN_BYTES MAX_DATABASE_BYTES (id_state sample_deleted) = Inr ()"
    by (simp add: idb_validate_def state_validate_def sample_codec_def idb_encode_def sample_deleted_def)
  ultimately have deleted: "idb_delete sample_crate ?C io_ok (sample_idb 1 sample_store None) ''https://a.example/'' ''d'' =
      (Inr 1, sample_deleted)"
    by (simp add: idb_delete_def validate_name_def limit_simps idb_update_memory sample_idb_def sample_deleted_def)
  have "(ses_database sample_session)\<lparr>db_generation := 2\<rparr> = sample_db 2 sample_store"
      "find_database (sample_state 1 sample_emptied) ''https://a.example'' ''d'' \<noteq> None"
    by (simp_all add: sample_session_def sample_db_def find_database_def sample_state_def)
  then show ?thesis
    using stale_session_overwrites_recreated_database [OF sample_begin _ _ deleted sample_upgrade, of "[]" sample_session]
    by (auto simp: sample_session_def sample_db_def sample_idb_def)
qed

end
