(* ===== verification/Cache_Storage.thy ===== *)
theory Cache_Storage
  imports Recoverable_File Storage_Local
begin

text \<open>
  \<^verbatim>\<open>src/cache_storage/model.rs\<close>, \<^verbatim>\<open>model/matching.rs\<close>, \<^verbatim>\<open>model/usage.rs\<close> and \<^verbatim>\<open>src/cache_storage/persistence.rs\<close>: the Cache API
  store. Each origin has an ordered list of named caches, each an ordered list of request/response pairs; a query
  selects the pairs whose URL and \<^verbatim>\<open>Vary\<close> headers agree with it.
\<close>

section \<open>Data\<close>

record url_origin_crate = url_crate +
  url_ascii_origin :: "url \<Rightarrow> string"

datatype cache_error =
    InvalidCacheRequest | InvalidCacheResponse | VaryStar | CacheQuota | DuplicateRequest | CachePersistence string

fun cache_error_name :: "cache_error \<Rightarrow> string" where
  "cache_error_name InvalidCacheRequest = ''TypeError''"
| "cache_error_name InvalidCacheResponse = ''TypeError''"
| "cache_error_name VaryStar = ''TypeError''"
| "cache_error_name CacheQuota = ''QuotaExceededError''"
| "cache_error_name DuplicateRequest = ''InvalidStateError''"
| "cache_error_name (CachePersistence _) = ''UnknownError''"

type_synonym header_list = "(string \<times> string) list"

record cache_request =
  cq_url :: string
  cq_method :: string
  cq_headers :: header_list

record cache_response =
  cp_status :: nat
  cp_status_text :: string
  cp_response_type :: string
  cp_url :: string
  cp_redirected :: bool
  cp_headers :: header_list
  cp_body_base64 :: "string option"

record cache_entry =
  ce_request :: cache_request
  ce_response :: cache_response

record cache_query_options =
  ignore_search :: bool
  ignore_method :: bool
  ignore_vary :: bool

definition default_options :: cache_query_options where
  "default_options = \<lparr>ignore_search = False, ignore_method = False, ignore_vary = False\<rparr>"

datatype cache_command =
    COpen string
  | CHas string
  | CNames
  | CDeleteCache string
  | CMatch "string option" cache_request cache_query_options
  | CMatchAll string "cache_request option" cache_query_options
  | CKeys string "cache_request option" cache_query_options
  | CPut string "cache_entry list"
  | CDeleteEntry string cache_request cache_query_options

record named_cache =
  nc_name :: string
  nc_entries :: "cache_entry list"

type_synonym cache_state = "(string, named_cache list) omap"

text \<open>The reply of a command, before \<^verbatim>\<open>json!\<close> renders it.\<close>

datatype cache_value =
    VNull
  | VBool bool
  | VNames "string list"
  | VResponse "cache_response option"
  | VResponses "cache_response list"
  | VRequests "cache_request list"

record cache_codec =
  cc_caches :: "named_cache list \<Rightarrow> string + bytes"
  cc_write :: "nat \<times> cache_state \<Rightarrow> string + bytes"
  cc_read :: "bytes \<Rightarrow> string + nat \<times> cache_state"
  cc_base64 :: "string \<Rightarrow> bytes option"

record cache_storage =
  cs_files :: "files option"
  cs_state :: "cache_state option"

definition CACHE_MAX_ORIGIN_BYTES :: nat where [limit_simps]: "CACHE_MAX_ORIGIN_BYTES = 16 * 1024 * 1024"
definition CACHE_MAX_TOTAL_BYTES :: nat where [limit_simps]: "CACHE_MAX_TOTAL_BYTES = 64 * 1024 * 1024"
definition MAX_BODY_BYTES :: nat where [limit_simps]: "MAX_BODY_BYTES = 2 * 1024 * 1024"
definition CACHE_MAX_NAME_BYTES :: nat where [limit_simps]: "CACHE_MAX_NAME_BYTES = 1024"

section \<open>Matching\<close>

definition vary_fields :: "header_list \<Rightarrow> string list" where
  "vary_fields headers =
     filter (\<lambda>field. field \<noteq> [])
       (map (\<lambda>field. to_ascii_lowercase (trim field))
         (concat (map (\<lambda>(_, value). split_on CHR '','' value)
           (filter (\<lambda>(name, _). eq_ignore_ascii_case name ''vary'') headers))))"

definition combined_header :: "header_list \<Rightarrow> string \<Rightarrow> string" where
  "combined_header headers name =
     join_with '', '' (map snd (filter (\<lambda>(field, _). eq_ignore_ascii_case field name) headers))"

text \<open>Two \<^verbatim>\<open>Url\<close> values are equal when their serialisations are.\<close>

definition url_eq :: "'u url_crate_scheme \<Rightarrow> url \<Rightarrow> url \<Rightarrow> bool" where
  "url_eq U a b \<longleftrightarrow> url_to_string U a = url_to_string U b"

definition comparable_url :: "cache_query_options \<Rightarrow> url \<Rightarrow> url" where
  "comparable_url options u =
     (let u1 = set_fragment_none u in if ignore_search options then set_query_none u1 else u1)"

definition matches_entry :: "'u url_crate_scheme \<Rightarrow> cache_request \<Rightarrow> cache_entry \<Rightarrow> cache_query_options \<Rightarrow> bool" where
  "matches_entry U query entry options =
     (if \<not> ignore_method options \<and> cq_method query \<noteq> ''GET'' then False
      else case url_parse U (cq_url query) of
        Inl _ \<Rightarrow> False
      | Inr query_url \<Rightarrow>
          (case url_parse U (cq_url (ce_request entry)) of
             Inl _ \<Rightarrow> False
           | Inr cached_url \<Rightarrow>
               if \<not> url_eq U (comparable_url options query_url) (comparable_url options cached_url) then False
               else if ignore_vary options then True
               else list_all (\<lambda>field. field \<noteq> ''*'' \<and>
                      combined_header (cq_headers (ce_request entry)) field = combined_header (cq_headers query) field)
                    (vary_fields (cp_headers (ce_response entry)))))"

section \<open>Commands on the caches of one origin\<close>

definition cache_validate_name :: "string \<Rightarrow> cache_error + unit" where
  "cache_validate_name name = (if length name > CACHE_MAX_NAME_BYTES then Inl CacheQuota else Inr ())"

definition validate_body :: "cache_codec \<Rightarrow> string option \<Rightarrow> cache_error + unit" where
  "validate_body C body =
     (case body of
        None \<Rightarrow> Inr ()
      | Some b \<Rightarrow>
          if length b > MAX_BODY_BYTES * 4 div 3 + 4 then Inl CacheQuota
          else and_then (ok_or (cc_base64 C b) InvalidCacheResponse) (\<lambda>decoded.
            if length decoded > MAX_BODY_BYTES then Inl CacheQuota else Inr ()))"

definition validate_entry :: "'u url_crate_scheme \<Rightarrow> cache_codec \<Rightarrow> cache_entry \<Rightarrow> cache_error + unit" where
  "validate_entry U C entry =
     and_then (map_err (\<lambda>_. InvalidCacheRequest) (url_parse U (cq_url (ce_request entry)))) (\<lambda>u.
       if \<not> (u_scheme u = ''http'' \<or> u_scheme u = ''https'') \<or> cq_method (ce_request entry) \<noteq> ''GET''
       then Inl InvalidCacheRequest
       else
         let response = ce_response entry
         in if cp_response_type response = ''error'' \<or>
               \<not> (cp_response_type response = ''default'' \<or> cp_response_type response = ''basic'' \<or>
                  cp_response_type response = ''cors'') \<or>
               \<not> (200 \<le> cp_status response \<and> cp_status response \<le> 599) \<or> cp_status response = 206
            then Inl InvalidCacheResponse
            else if ''*'' \<in> set (vary_fields (cp_headers response)) then Inl VaryStar
            else validate_body C (cp_body_base64 response))"

text \<open>\<^verbatim>\<open>for (index, entry) in entries.iter().enumerate()\<close>: no entry may match an earlier one of the batch.\<close>

fun duplicate_in_batch :: "'u url_crate_scheme \<Rightarrow> cache_entry list \<Rightarrow> cache_entry list \<Rightarrow> bool" where
  "duplicate_in_batch U previous [] \<longleftrightarrow> False"
| "duplicate_in_batch U previous (entry # entries) \<longleftrightarrow>
     list_ex (\<lambda>p. matches_entry U (ce_request entry) p default_options) previous \<or>
     duplicate_in_batch U (previous @ [entry]) entries"

definition put_entry :: "'u url_crate_scheme \<Rightarrow> cache_entry \<Rightarrow> cache_entry list \<Rightarrow> cache_entry list" where
  "put_entry U entry stored =
     filter (\<lambda>s. \<not> matches_entry U (ce_request entry) s default_options) stored @ [entry]"

definition find_cache :: "named_cache list \<Rightarrow> string \<Rightarrow> named_cache option" where
  "find_cache caches name = find (\<lambda>c. nc_name c = name) caches"

text \<open>\<^verbatim>\<open>iter_mut().find(..)\<close>: the first cache of that name is updated in place.\<close>

fun update_cache :: "string \<Rightarrow> (cache_entry list \<Rightarrow> cache_entry list) \<Rightarrow> named_cache list \<Rightarrow> named_cache list" where
  "update_cache name f [] = []"
| "update_cache name f (c # cs) =
     (if nc_name c = name then c\<lparr>nc_entries := f (nc_entries c)\<rparr> # cs else c # update_cache name f cs)"

type_synonym cache_action = "named_cache list \<Rightarrow> cache_error + (cache_value \<times> bool) \<times> named_cache list"

definition open_action :: "string \<Rightarrow> cache_action" where
  "open_action name caches =
     and_then (cache_validate_name name) (\<lambda>_.
       if list_ex (\<lambda>c. nc_name c = name) caches then Inr ((VNull, False), caches)
       else Inr ((VNull, True), caches @ [\<lparr>nc_name = name, nc_entries = []\<rparr>]))"

definition delete_cache_action :: "string \<Rightarrow> cache_action" where
  "delete_cache_action name caches =
     (let kept = filter (\<lambda>c. nc_name c \<noteq> name) caches;
          changed = (length caches \<noteq> length kept)
      in Inr ((VBool changed, changed), kept))"

definition put_action :: "'u url_crate_scheme \<Rightarrow> cache_codec \<Rightarrow> string \<Rightarrow> cache_entry list \<Rightarrow> cache_action" where
  "put_action U C name entries caches =
     and_then (cache_validate_name name) (\<lambda>_.
       if entries = [] then Inr ((VNull, False), caches)
       else and_then (each_ok (validate_entry U C) entries) (\<lambda>_.
         if duplicate_in_batch U [] entries then Inl DuplicateRequest
         else case find_cache caches name of
           None \<Rightarrow> Inl InvalidCacheRequest
         | Some _ \<Rightarrow> Inr ((VNull, True), update_cache name (fold (put_entry U) entries) caches)))"

definition delete_entry_action :: "'u url_crate_scheme \<Rightarrow> string \<Rightarrow> cache_request \<Rightarrow> cache_query_options \<Rightarrow> cache_action" where
  "delete_entry_action U name request options caches =
     (case find_cache caches name of
        None \<Rightarrow> Inr ((VBool False, False), caches)
      | Some c \<Rightarrow>
          let keep = filter (\<lambda>entry. \<not> matches_entry U request entry options);
              changed = (length (nc_entries c) \<noteq> length (keep (nc_entries c)))
          in Inr ((VBool changed, changed), update_cache name keep caches))"

definition selected :: "'u url_crate_scheme \<Rightarrow> string \<Rightarrow> cache_request option \<Rightarrow> cache_query_options \<Rightarrow>
    named_cache list \<Rightarrow> cache_entry list" where
  "selected U name request options caches =
     (case find_cache caches name of
        None \<Rightarrow> []
      | Some c \<Rightarrow> filter (\<lambda>entry. case request of None \<Rightarrow> True | Some r \<Rightarrow> matches_entry U r entry options) (nc_entries c))"

definition match_first :: "'u url_crate_scheme \<Rightarrow> string option \<Rightarrow> cache_request \<Rightarrow> cache_query_options \<Rightarrow>
    named_cache list \<Rightarrow> cache_entry option" where
  "match_first U name request options caches =
     find (\<lambda>entry. matches_entry U request entry options)
       (concat (map nc_entries (filter (\<lambda>c. case name of None \<Rightarrow> True | Some n \<Rightarrow> n = nc_name c) caches)))"

section \<open>The profile file\<close>

definition CACHE_FORMAT_VERSION :: nat where "CACHE_FORMAT_VERSION = 1"

definition cache_encode :: "cache_codec \<Rightarrow> cache_state \<Rightarrow> cache_error + bytes" where
  "cache_encode C st = map_err CachePersistence (cc_write C (CACHE_FORMAT_VERSION, st))"

definition cache_validate :: "cache_codec \<Rightarrow> nat \<Rightarrow> nat \<Rightarrow> cache_state \<Rightarrow> cache_error + unit" where
  "cache_validate C per_origin total_limit st =
     and_then (each_ok (\<lambda>e. and_then (map_err CachePersistence (cc_caches C (snd e))) (\<lambda>bytes.
                 if length bytes > per_origin then Inl CacheQuota else Inr ())) st) (\<lambda>_.
       and_then (cache_encode C st) (\<lambda>bytes.
         if length bytes > total_limit then Inl CacheQuota else Inr ()))"

definition cache_read_file :: "cache_codec \<Rightarrow> file_state \<Rightarrow> cache_error + cache_state option" where
  "cache_read_file C f =
     (case f of
        Missing \<Rightarrow> Inr None
      | Unreadable error \<Rightarrow> Inl (CachePersistence error)
      | Content bytes \<Rightarrow>
          if length bytes > CACHE_MAX_TOTAL_BYTES then Inl CacheQuota
          else and_then (map_err CachePersistence (cc_read C bytes)) (\<lambda>(format, st).
            if format \<noteq> CACHE_FORMAT_VERSION then Inl (CachePersistence ''unsupported CacheStorage format'')
            else and_then (cache_validate C CACHE_MAX_ORIGIN_BYTES CACHE_MAX_TOTAL_BYTES st) (\<lambda>_. Inr (Some st))))"

definition cache_load :: "cache_codec \<Rightarrow> files \<Rightarrow> cache_error + cache_state" where
  "cache_load C fs = load_recoverable (cache_read_file C) [] fs"

definition cache_write :: "cache_codec \<Rightarrow> io_env \<Rightarrow> files \<Rightarrow> cache_state \<Rightarrow> (cache_error + unit) \<times> files" where
  "cache_write C io fs st =
     (case cache_encode C st of
        Inl e \<Rightarrow> (Inl e, fs)
      | Inr bytes \<Rightarrow>
          if length bytes > CACHE_MAX_TOTAL_BYTES then (Inl CacheQuota, fs)
          else case write_recoverable True io fs bytes of (r, fs') \<Rightarrow> (map_err CachePersistence r, fs'))"

section \<open>The store\<close>

definition cache_in_memory :: cache_storage where
  "cache_in_memory = \<lparr>cs_files = None, cs_state = Some []\<rparr>"

text \<open>Opening reads nothing; the file is loaded on first use.\<close>

definition cache_open :: "files \<Rightarrow> cache_storage" where
  "cache_open fs = \<lparr>cs_files = Some fs, cs_state = None\<rparr>"

text \<open>\<^verbatim>\<open>expect\<close> of a missing path panics; a store without a path is never unloaded.\<close>

definition ensure_loaded :: "cache_codec \<Rightarrow> cache_storage \<Rightarrow> (cache_error + cache_state) \<times> cache_storage" where
  "ensure_loaded C cs =
     (case cs_state cs of
        Some st \<Rightarrow> (Inr st, cs)
      | None \<Rightarrow>
          (case cs_files cs of
             None \<Rightarrow> (Inl (CachePersistence ''panic: persistent path''), cs)
           | Some fs \<Rightarrow>
               (case cache_load C fs of
                  Inl e \<Rightarrow> (Inl e, cs)
                | Inr st \<Rightarrow> (Inr st, cs\<lparr>cs_state := Some st\<rparr>))))"

definition caches_of :: "cache_state \<Rightarrow> string \<Rightarrow> named_cache list" where
  "caches_of st org = (case om_get st org of None \<Rightarrow> [] | Some caches \<Rightarrow> caches)"

definition cache_read :: "cache_codec \<Rightarrow> string \<Rightarrow> (named_cache list \<Rightarrow> cache_value) \<Rightarrow> cache_storage \<Rightarrow>
    (cache_error + cache_value) \<times> cache_storage" where
  "cache_read C org f cs =
     (case ensure_loaded C cs of
        (Inl e, cs') \<Rightarrow> (Inl e, cs')
      | (Inr st, cs') \<Rightarrow> (Inr (f (caches_of st org)), cs'))"

definition cache_mutate :: "cache_codec \<Rightarrow> io_env \<Rightarrow> string \<Rightarrow> cache_action \<Rightarrow> cache_storage \<Rightarrow>
    (cache_error + cache_value) \<times> cache_storage" where
  "cache_mutate C io org f cs =
     (case ensure_loaded C cs of
        (Inl e, cs') \<Rightarrow> (Inl e, cs')
      | (Inr st, cs') \<Rightarrow>
          (case f (caches_of st org) of
             Inl e \<Rightarrow> (Inl e, cs')
           | Inr ((result, changed), caches) \<Rightarrow>
               if \<not> changed then (Inr result, cs')
               else
                 let candidate = om_insert org caches st
                 in case cache_validate C CACHE_MAX_ORIGIN_BYTES CACHE_MAX_TOTAL_BYTES candidate of
                      Inl e \<Rightarrow> (Inl e, cs')
                    | Inr _ \<Rightarrow>
                        (case cs_files cs' of
                           None \<Rightarrow> (Inr result, cs'\<lparr>cs_state := Some candidate\<rparr>)
                         | Some fs \<Rightarrow>
                             (case cache_write C io fs candidate of
                                (Inl e, fs') \<Rightarrow> (Inl e, cs'\<lparr>cs_files := Some fs'\<rparr>)
                              | (Inr _, fs') \<Rightarrow> (Inr result, cs'\<lparr>cs_state := Some candidate, cs_files := Some fs'\<rparr>)))))"

definition check_origin :: "'u url_origin_crate_scheme \<Rightarrow> string \<Rightarrow> cache_error + unit" where
  "check_origin U org =
     and_then (map_err (\<lambda>_. InvalidCacheRequest) (url_parse U org)) (\<lambda>parsed.
       if \<not> (u_scheme parsed = ''http'' \<or> u_scheme parsed = ''https'') \<or> url_ascii_origin U parsed \<noteq> org
       then Inl InvalidCacheRequest
       else and_then (map_err (\<lambda>_. InvalidCacheRequest) (origin_parse U 0 org)) (\<lambda>(o', _).
         if is_potentially_trustworthy o' then Inr () else Inl InvalidCacheRequest))"

definition run_command :: "'u url_crate_scheme \<Rightarrow> cache_codec \<Rightarrow> io_env \<Rightarrow> string \<Rightarrow> cache_command \<Rightarrow> cache_storage \<Rightarrow>
    (cache_error + cache_value) \<times> cache_storage" where
  "run_command U C io org command =
     (case command of
        COpen name \<Rightarrow> cache_mutate C io org (open_action name)
      | CHas name \<Rightarrow> cache_read C org (\<lambda>caches. VBool (list_ex (\<lambda>c. nc_name c = name) caches))
      | CNames \<Rightarrow> cache_read C org (\<lambda>caches. VNames (map nc_name caches))
      | CDeleteCache name \<Rightarrow> cache_mutate C io org (delete_cache_action name)
      | CMatch name request options \<Rightarrow>
          cache_read C org (\<lambda>caches. VResponse (map_option ce_response (match_first U name request options caches)))
      | CMatchAll name request options \<Rightarrow>
          cache_read C org (\<lambda>caches. VResponses (map ce_response (selected U name request options caches)))
      | CKeys name request options \<Rightarrow>
          cache_read C org (\<lambda>caches. VRequests (map ce_request (selected U name request options caches)))
      | CPut name entries \<Rightarrow> cache_mutate C io org (put_action U C name entries)
      | CDeleteEntry name request options \<Rightarrow> cache_mutate C io org (delete_entry_action U name request options))"

definition cache_execute :: "'u url_origin_crate_scheme \<Rightarrow> cache_codec \<Rightarrow> io_env \<Rightarrow> string \<Rightarrow> cache_command \<Rightarrow> cache_storage \<Rightarrow>
    (cache_error + cache_value) \<times> cache_storage" where
  "cache_execute U C io org command cs =
     (case check_origin U org of
        Inl e \<Rightarrow> (Inl e, cs)
      | Inr _ \<Rightarrow> run_command U C io org command cs)"

definition cache_usage :: "'u url_origin_crate_scheme \<Rightarrow> cache_codec \<Rightarrow> string \<Rightarrow> cache_storage \<Rightarrow>
    (cache_error + nat) \<times> cache_storage" where
  "cache_usage U C org cs =
     (case check_origin U org of
        Inl e \<Rightarrow> (Inl e, cs)
      | Inr _ \<Rightarrow>
          (case ensure_loaded C cs of
             (Inl e, cs') \<Rightarrow> (Inl e, cs')
           | (Inr st, cs') \<Rightarrow>
               (case om_get st org of
                  None \<Rightarrow> (Inr 0, cs')
                | Some caches \<Rightarrow>
                    if caches = [] then (Inr 0, cs')
                    else (and_then (map_err CachePersistence (cc_caches C caches)) (\<lambda>bytes. Inr (length bytes)), cs'))))"

section \<open>Matching and the stored order\<close>

lemma validate_entry_matches: "validate_entry U C e = Inr u \<Longrightarrow> matches_entry U (ce_request e) e default_options"
  by (auto simp: validate_entry_def matches_entry_def default_options_def url_eq_def Let_def result_simps list_all_iff
      split: if_splits)

text \<open>No entry is hidden behind an earlier one that its own request selects.\<close>

definition unshadowed :: "'u url_crate_scheme \<Rightarrow> cache_entry list \<Rightarrow> bool" where
  "unshadowed U es \<longleftrightarrow> sorted_wrt (\<lambda>a b. \<not> matches_entry U (ce_request b) a default_options) es"

definition caches_inv :: "'u url_crate_scheme \<Rightarrow> cache_codec \<Rightarrow> named_cache list \<Rightarrow> bool" where
  "caches_inv U C caches \<longleftrightarrow> distinct (map nc_name caches) \<and>
     (\<forall>c\<in>set caches. length (nc_name c) \<le> CACHE_MAX_NAME_BYTES \<and> unshadowed U (nc_entries c) \<and>
        (\<forall>e\<in>set (nc_entries c). validate_entry U C e = Inr ()))"

lemma unshadowed_filter: "unshadowed U es \<Longrightarrow> unshadowed U (filter p es)"
  by (simp add: unshadowed_def sorted_wrt_filter)

lemma unshadowed_put: "unshadowed U es \<Longrightarrow> unshadowed U (fold (put_entry U) entries es)"
proof (induction entries arbitrary: es)
  case (Cons e entries)
  have "unshadowed U (put_entry U e es)"
    using unshadowed_filter [OF Cons.prems] by (auto simp: put_entry_def unshadowed_def sorted_wrt_append)
  then show ?case using Cons.IH by simp
qed simp

lemma set_fold_put: "set (fold (put_entry U) entries es) \<subseteq> set es \<union> set entries"
proof (induction entries arbitrary: es)
  case (Cons e entries)
  have "set (put_entry U e es) \<subseteq> insert e (set es)" by (auto simp: put_entry_def)
  then show ?case using Cons.IH [of "put_entry U e es"] by auto
qed simp

definition first_match :: "'u url_crate_scheme \<Rightarrow> cache_entry \<Rightarrow> cache_entry list \<Rightarrow> bool" where
  "first_match U e es \<longleftrightarrow> (\<exists>xs ys. es = xs @ e # ys \<and> (\<forall>x\<in>set xs. \<not> matches_entry U (ce_request e) x default_options))"

lemma first_match_put: "first_match U e (put_entry U e es)"
  unfolding first_match_def put_entry_def by (rule exI, rule exI [of _ "[]"]) auto

lemma first_match_kept:
  assumes "first_match U e es" "\<not> matches_entry U (ce_request e') e default_options"
  shows "first_match U e (put_entry U e' es)"
proof -
  let ?f = "filter (\<lambda>s. \<not> matches_entry U (ce_request e') s default_options)"
  obtain xs ys where es: "es = xs @ e # ys" "\<forall>x\<in>set xs. \<not> matches_entry U (ce_request e) x default_options"
    using assms(1) by (auto simp: first_match_def)
  have "put_entry U e' es = ?f xs @ e # (?f ys @ [e'])" using assms(2) by (simp add: put_entry_def es(1))
  then show ?thesis unfolding first_match_def using es(2) by (intro exI [of _ "?f xs"] exI [of _ "?f ys @ [e']"]) simp
qed

lemma duplicate_in_batch_later:
  "\<not> duplicate_in_batch U prev entries \<Longrightarrow> p \<in> set prev \<Longrightarrow> e' \<in> set entries \<Longrightarrow>
     \<not> matches_entry U (ce_request e') p default_options"
proof (induction entries arbitrary: prev)
  case (Cons e entries)
  then show ?case using Cons.IH [of "prev @ [e]"] by (cases "e' = e") (auto simp: list_ex_iff)
qed simp

lemma first_match_fold:
  "first_match U e es \<Longrightarrow> (\<And>e'. e' \<in> set entries \<Longrightarrow> \<not> matches_entry U (ce_request e') e default_options) \<Longrightarrow>
     first_match U e (fold (put_entry U) entries es)"
  by (induction entries arbitrary: es) (simp_all add: first_match_kept)

lemma put_first_match:
  "\<not> duplicate_in_batch U prev entries \<Longrightarrow> e \<in> set entries \<Longrightarrow> first_match U e (fold (put_entry U) entries es)"
proof (induction entries arbitrary: prev es)
  case (Cons a entries)
  show ?case
  proof (cases "e = a")
    case True
    have "\<not> matches_entry U (ce_request e') e default_options" if "e' \<in> set entries" for e'
      using duplicate_in_batch_later [of U "prev @ [a]" entries e e'] Cons.prems(1) that True by simp
    from first_match_fold [OF first_match_put this] show ?thesis using True by simp
  next
    case False
    then show ?thesis using Cons.IH [of "prev @ [a]" "put_entry U a es"] Cons.prems by simp
  qed
qed simp

lemma find_first: "\<forall>x\<in>set xs. \<not> P x \<Longrightarrow> P y \<Longrightarrow> find P (xs @ y # zs) = Some y"
  by (induction xs) auto

lemma first_match_find:
  "first_match U e es \<Longrightarrow> matches_entry U (ce_request e) e default_options \<Longrightarrow>
     find (\<lambda>s. matches_entry U (ce_request e) s default_options) (es @ rest) = Some e"
  unfolding first_match_def using find_first [where P = "\<lambda>s. matches_entry U (ce_request e) s default_options"] by auto

lemma find_cache_update:
  "find_cache caches name = Some c \<Longrightarrow>
     find_cache (update_cache name f caches) name = Some (c\<lparr>nc_entries := f (nc_entries c)\<rparr>) \<and>
     (\<exists>rest. concat (map nc_entries (filter (\<lambda>c. nc_name c = name) (update_cache name f caches))) = f (nc_entries c) @ rest)"
  by (induction caches) (auto simp: find_cache_def)

lemma update_cache_names [simp]: "map nc_name (update_cache name f caches) = map nc_name caches"
  by (induction caches) auto

lemma update_cache_mem: "c \<in> set (update_cache name f caches) \<Longrightarrow> c \<in> set caches \<or> (\<exists>d\<in>set caches. c = d\<lparr>nc_entries := f (nc_entries d)\<rparr>)"
  by (induction caches) (auto split: if_splits)

lemma caches_inv_Nil [simp]: "caches_inv U C []"
  by (simp add: caches_inv_def)

lemma caches_inv_update:
  assumes "caches_inv U C caches" "\<And>es. unshadowed U es \<Longrightarrow> unshadowed U (f es)"
    and "\<And>es e. \<forall>e\<in>set es. validate_entry U C e = Inr () \<Longrightarrow> e \<in> set (f es) \<Longrightarrow> validate_entry U C e = Inr ()"
  shows "caches_inv U C (update_cache name f caches)"
  unfolding caches_inv_def
proof (intro conjI ballI)
  show "distinct (map nc_name (update_cache name f caches))" using assms(1) by (simp add: caches_inv_def)
  fix c assume "c \<in> set (update_cache name f caches)"
  then obtain d where "d \<in> set caches" "c = d \<or> c = d\<lparr>nc_entries := f (nc_entries d)\<rparr>"
    using update_cache_mem by blast
  moreover from this(1) have "length (nc_name d) \<le> CACHE_MAX_NAME_BYTES" "unshadowed U (nc_entries d)"
      "\<forall>e\<in>set (nc_entries d). validate_entry U C e = Inr ()"
    using assms(1) by (simp_all add: caches_inv_def)
  ultimately show "length (nc_name c) \<le> CACHE_MAX_NAME_BYTES" "unshadowed U (nc_entries c)"
      "\<And>e. e \<in> set (nc_entries c) \<Longrightarrow> validate_entry U C e = Inr ()"
    using assms(2,3) by auto
qed

definition keeps_inv :: "'u url_crate_scheme \<Rightarrow> cache_codec \<Rightarrow> cache_action \<Rightarrow> bool" where
  "keeps_inv U C f \<longleftrightarrow> (\<forall>caches v caches'. caches_inv U C caches \<longrightarrow> f caches = Inr (v, caches') \<longrightarrow> caches_inv U C caches')"

lemma action_inv:
  "keeps_inv U C (open_action name)" "keeps_inv U C (delete_cache_action name)" "keeps_inv U C (put_action U C name entries)"
  "keeps_inv U C (delete_entry_action U name request options)"
proof -
  show "keeps_inv U C (open_action name)"
    by (auto simp: keeps_inv_def open_action_def cache_validate_name_def caches_inv_def result_simps list_ex_iff unshadowed_def
        split: if_splits)
  show "keeps_inv U C (delete_cache_action name)"
    by (auto simp: keeps_inv_def delete_cache_action_def caches_inv_def Let_def distinct_map_filter)
  have "caches_inv U C (update_cache name (fold (put_entry U) entries) caches)"
    if "caches_inv U C caches" "\<forall>e\<in>set entries. validate_entry U C e = Inr ()" for caches
    by (rule caches_inv_update [OF that(1) unshadowed_put]) (use that(2) set_fold_put in blast)+
  then show "keeps_inv U C (put_action U C name entries)"
    by (auto simp: keeps_inv_def put_action_def result_simps split: if_splits option.splits)
  have "caches_inv U C (update_cache name (filter p) caches)" if "caches_inv U C caches" for caches p
    by (rule caches_inv_update [OF that unshadowed_filter]) auto
  then show "keeps_inv U C (delete_entry_action U name request options)"
    by (auto simp: keeps_inv_def delete_entry_action_def Let_def split: option.splits)
qed

section \<open>Reading and mutating the store\<close>

interpretation cache_file: recoverable_file "cache_read_file C" "[] :: cache_state" True for C
  by unfold_locales (auto simp: cache_read_file_def result_simps split: file_state.splits if_splits)

text \<open>The caches of an origin as the next command sees them.\<close>

definition caches_seen :: "cache_codec \<Rightarrow> cache_storage \<Rightarrow> string \<Rightarrow> named_cache list" where
  "caches_seen C cs org = (case fst (ensure_loaded C cs) of Inl e \<Rightarrow> [] | Inr st \<Rightarrow> caches_of st org)"

lemma ensure_loaded_Inr:
  "ensure_loaded C cs = (Inr st, cs') \<Longrightarrow> cs_state cs' = Some st \<and> cs_files cs' = cs_files cs \<and>
     ensure_loaded C cs' = (Inr st, cs') \<and> caches_seen C cs' = caches_seen C cs \<and> caches_seen C cs = caches_of st"
  by (auto simp: ensure_loaded_def caches_seen_def split: option.splits sum.splits)

lemma ensure_loaded_Inl: "ensure_loaded C cs = (Inl e, cs') \<Longrightarrow> cs' = cs"
  by (auto simp: ensure_loaded_def split: option.splits sum.splits)

lemma caches_seen_loaded [simp]: "cs_state cs = Some st \<Longrightarrow> caches_seen C cs org = caches_of st org"
  by (simp add: caches_seen_def ensure_loaded_def)

lemma cache_read_Inr:
  "cache_read C org f cs = (Inr v, cs') \<Longrightarrow> v = f (caches_seen C cs org) \<and> caches_seen C cs' = caches_seen C cs"
  using ensure_loaded_Inr by (fastforce simp: cache_read_def split: prod.splits sum.splits)

lemma cache_read_seen: "cache_read C org f cs = (r, cs') \<Longrightarrow> caches_seen C cs' = caches_seen C cs"
  using ensure_loaded_Inr ensure_loaded_Inl by (fastforce simp: cache_read_def split: prod.splits sum.splits)

lemma caches_of_insert [simp]: "caches_of (om_insert org caches st) org' = (if org' = org then caches else caches_of st org')"
  by (simp add: caches_of_def)

lemma cache_mutate_cases:
  assumes "cache_mutate C io org f cs = (r, cs')"
  shows "(caches_seen C cs' = caches_seen C cs \<and> (cs_state cs' = cs_state cs \<or> fst (ensure_loaded C cs) = Inr (the (cs_state cs'))) \<and>
        (\<forall>v. r = Inr v \<longrightarrow> cs_files cs' = cs_files cs \<and> (\<exists>caches. f (caches_seen C cs org) = Inr ((v, False), caches)))) \<or>
     (\<exists>v caches st. r = Inr v \<and> f (caches_seen C cs org) = Inr ((v, True), caches) \<and> cs_state cs' = Some st \<and>
        caches_seen C cs' = (caches_seen C cs)(org := caches) \<and>
        cache_validate C CACHE_MAX_ORIGIN_BYTES CACHE_MAX_TOTAL_BYTES st = Inr () \<and>
        (\<forall>fs. cs_files cs = Some fs \<longrightarrow> (\<exists>fs'. cs_files cs' = Some fs' \<and> cache_write C io fs st = (Inr (), fs'))))"
proof (cases "ensure_loaded C cs")
  case (Pair l cs1)
  show ?thesis
  proof (cases l)
    case (Inl e)
    then show ?thesis using assms Pair ensure_loaded_Inl [of C cs e cs1] by (auto simp: cache_mutate_def)
  next
    case (Inr st)
    note L = ensure_loaded_Inr [OF Pair [unfolded Inr]]
    then have seen: "caches_seen C cs = caches_of st" "cs_state cs1 = Some st" "cs_files cs1 = cs_files cs" by simp_all
    show ?thesis
      using assms seen
      by (auto simp: cache_mutate_def Pair Inr Let_def fun_eq_iff split: sum.splits if_splits option.splits prod.splits)
  qed
qed

lemma run_command_shape:
  obtains f where "run_command U C io org command = cache_read C org f"
  | f where "run_command U C io org command = cache_mutate C io org f" "keeps_inv U C f"
  by (cases command) (simp_all add: run_command_def, (metis action_inv)+)

lemma run_command_cases:
  assumes "run_command U C io org command cs = (r, cs')"
  shows "caches_seen C cs' = caches_seen C cs \<or>
     (\<exists>f v caches. r = Inr v \<and> keeps_inv U C f \<and> f (caches_seen C cs org) = Inr ((v, True), caches) \<and>
        caches_seen C cs' = (caches_seen C cs)(org := caches))"
proof (cases rule: run_command_shape [of U C io org command])
  case (1 f)
  then show ?thesis using assms cache_read_seen by metis
next
  case (2 f)
  with assms cache_mutate_cases [of C io org f cs r cs'] show ?thesis by auto
qed


section \<open>Properties\<close>

text \<open>A small store for the examples.\<close>

definition sample_web :: url_origin_crate where
  "sample_web =
     \<lparr>url_parse = (\<lambda>s. if s = ''https://a.example'' \<or> s = ''https://a.example/''
        then Inr (http_url ''https'' ''a.example'' 443 ''/'' None) else Inl ''relative URL without a base''),
      url_to_string = (\<lambda>u. u_scheme u @ '':'' @ u_path u),
      url_ascii_origin = (\<lambda>u. ''https://a.example'')\<rparr>"

lemma trim_sample [simp]: "trim ''https://a.example'' = ''https://a.example''"
  by code_simp

lemma sample_check_origin [simp]: "check_origin sample_web ''https://a.example'' = Inr ()"
  by (simp add: check_origin_def sample_web_def sample_url_eval is_potentially_trustworthy_def)

definition sample_cache_codec :: "cache_state option \<Rightarrow> cache_codec" where
  "sample_cache_codec saved = \<lparr>cc_caches = (\<lambda>c. Inr []),
     cc_write = (\<lambda>d. case saved of
        None \<Rightarrow> Inr [] | Some st \<Rightarrow> if d = (1, st) then Inr [1] else Inl ''unexpected state''),
     cc_read = (\<lambda>b. case saved of None \<Rightarrow> Inl ''unreadable'' | Some st \<Rightarrow> Inr (1, st)), cc_base64 = (\<lambda>s. None)\<rparr>"

definition sample_entry :: cache_entry where
  "sample_entry = \<lparr>ce_request = \<lparr>cq_url = ''https://a.example/'', cq_method = ''GET'', cq_headers = []\<rparr>,
     ce_response = \<lparr>cp_status = 200, cp_status_text = ''OK'', cp_response_type = ''basic'', cp_url = ''https://a.example/'',
       cp_redirected = False, cp_headers = [], cp_body_base64 = None\<rparr>\<rparr>"

definition sample_caches :: "cache_entry list \<Rightarrow> cache_state" where
  "sample_caches es = [(''https://a.example'', [\<lparr>nc_name = ''v'', nc_entries = es\<rparr>])]"

definition sample_cache :: "files option \<Rightarrow> cache_entry list \<Rightarrow> cache_storage" where
  "sample_cache fs es = \<lparr>cs_files = fs, cs_state = Some (sample_caches es)\<rparr>"

lemma sample_entry_valid: "validate_entry sample_web C sample_entry = Inr ()"
  by (simp add: validate_entry_def sample_entry_def sample_web_def http_url_def vary_fields_def validate_body_def)

lemma sample_put_action:
  "put_action sample_web C ''v'' [sample_entry] [\<lparr>nc_name = ''v'', nc_entries = []\<rparr>] =
     Inr ((VNull, True), [\<lparr>nc_name = ''v'', nc_entries = [sample_entry]\<rparr>])"
  by (simp add: put_action_def cache_validate_name_def limit_simps sample_entry_valid find_cache_def put_entry_def)

lemma sample_cache_valid:
  "saved = None \<or> saved = Some st \<Longrightarrow> cache_validate (sample_cache_codec saved) CACHE_MAX_ORIGIN_BYTES CACHE_MAX_TOTAL_BYTES st = Inr ()"
proof -
  have "each_ok (\<lambda>e. Inr () :: cache_error + unit) st = Inr ()" by simp
  note * = this
  show "saved = None \<or> saved = Some st \<Longrightarrow> ?thesis"
    by (auto simp: * cache_validate_def sample_cache_codec_def cache_encode_def CACHE_FORMAT_VERSION_def limit_simps)
qed

lemma sample_cache_put:
  "cache_execute sample_web (sample_cache_codec None) io ''https://a.example'' (CPut ''v'' [sample_entry]) (sample_cache None []) =
     (Inr VNull, sample_cache None [sample_entry])"
  using sample_cache_valid [of None "sample_caches [sample_entry]"]
  by (simp add: cache_execute_def run_command_def cache_mutate_def ensure_loaded_def sample_cache_def caches_of_def
      sample_caches_def sample_put_action)

lemma sample_cache_inv: "\<forall>org. caches_inv sample_web C (caches_seen D (sample_cache fs []) org)"
  by (simp add: caches_seen_def ensure_loaded_def sample_cache_def caches_of_def sample_caches_def caches_inv_def limit_simps
      unshadowed_def)

text \<open>C39: every command keeps, for every origin, distinct cache names, only valid entries, and no entry that is hidden
  behind an earlier one its own request selects.\<close>

theorem cache_commands_keep_invariant:
  assumes "\<forall>org'. caches_inv U C (caches_seen C cs org')" "cache_execute U C io org command cs = (r, cs')"
  shows "caches_inv U C (caches_seen C cs' org')"
proof (cases "check_origin U org")
  case (Inr u)
  then have "run_command U C io org command cs = (r, cs')" using assms(2) by (simp add: cache_execute_def)
  from run_command_cases [OF this] assms(1) show ?thesis unfolding keeps_inv_def by (metis fun_upd_apply)
qed (use assms in \<open>simp add: cache_execute_def\<close>)

theorem cache_commands_keep_invariant_witness:
  "caches_inv sample_web (sample_cache_codec None) (caches_seen (sample_cache_codec None) (sample_cache None [sample_entry]) ''https://a.example'')"
  using cache_commands_keep_invariant [OF sample_cache_inv sample_cache_put [of io_ok]] .

text \<open>A command touches no origin but its own, and a command that fails leaves every origin's caches as they were.\<close>

theorem cache_commands_are_isolated_and_atomic:
  assumes "cache_execute U C io org command cs = (r, cs')" "org' \<noteq> org \<or> r = Inl e"
  shows "caches_seen C cs' org' = caches_seen C cs org'"
proof (cases "check_origin U org")
  case (Inr u)
  then have "run_command U C io org command cs = (r, cs')" using assms(1) by (simp add: cache_execute_def)
  from run_command_cases [OF this] assms(2) show ?thesis by auto
qed (use assms in \<open>simp add: cache_execute_def\<close>)

theorem cache_commands_are_isolated_and_atomic_witness:
  "caches_seen (sample_cache_codec None) (sample_cache None [sample_entry]) ''https://b.example'' = []"
  using cache_commands_are_isolated_and_atomic [OF sample_cache_put [of io_ok], of "''https://b.example''"]
  by (simp add: caches_seen_def ensure_loaded_def sample_cache_def caches_of_def sample_caches_def)

text \<open>After an accepted put, a match on that cache with the request of any entry of the batch answers that entry's
  response: the put replaced what the request selected before and no entry of the batch hides another.\<close>

theorem put_then_match:
  assumes "cache_execute U C io org (CPut name entries) cs = (Inr v, cs')" "e \<in> set entries"
  shows "cache_execute U C io org (CMatch (Some name) (ce_request e) default_options) cs' =
    (Inr (VResponse (Some (ce_response e))), cs')"
proof -
  obtain u where u: "check_origin U org = Inr u" and m: "cache_mutate C io org (put_action U C name entries) cs = (Inr v, cs')"
    using assms(1) by (auto simp: cache_execute_def run_command_def split: sum.splits)
  obtain v' ch caches where a: "put_action U C name entries (caches_seen C cs org) = Inr ((v', ch), caches)"
    and ch: "ch \<longrightarrow> cs_state cs' \<noteq> None \<and> caches_seen C cs' org = caches"
    using cache_mutate_cases [OF m] by fastforce
  have valid: "validate_entry U C e = Inr ()" and dup: "\<not> duplicate_in_batch U [] entries" and ch': "ch"
    and caches: "caches = update_cache name (fold (put_entry U) entries) (caches_seen C cs org)"
    using a assms(2) by (auto simp: put_action_def result_simps split: if_splits option.splits)
  obtain c where c: "find_cache (caches_seen C cs org) name = Some c"
    using a assms(2) by (auto simp: put_action_def result_simps split: if_splits option.splits)
  obtain rest where "concat (map nc_entries (filter (\<lambda>c. nc_name c = name) caches)) =
      fold (put_entry U) entries (nc_entries c) @ rest"
    using find_cache_update [OF c, of "fold (put_entry U) entries"] caches by blast
  then have "match_first U (Some name) (ce_request e) default_options caches = Some e"
    using first_match_find [OF put_first_match [OF dup assms(2)] validate_entry_matches [OF valid]]
    by (simp add: match_first_def eq_commute [of name])
  then show ?thesis
    using u ch ch' by (auto simp: cache_execute_def run_command_def cache_read_def ensure_loaded_def)
qed

theorem put_then_match_witness:
  "fst (cache_execute sample_web (sample_cache_codec None) io_ok ''https://a.example''
     (CMatch (Some ''v'') (ce_request sample_entry) default_options) (sample_cache None [sample_entry])) =
     Inr (VResponse (Some (ce_response sample_entry)))"
  using put_then_match [OF sample_cache_put [of io_ok]] by simp

text \<open>Deleting entries answers whether the request selected any, and afterwards it selects none.\<close>

theorem delete_then_match_all:
  assumes "cache_execute U C io org (CDeleteEntry name request options) cs = (Inr v, cs')"
  shows "v = VBool (selected U name (Some request) options (caches_seen C cs org) \<noteq> []) \<and>
    selected U name (Some request) options (caches_seen C cs' org) = []"
proof -
  let ?f = "delete_entry_action U name request options"
  have m: "cache_mutate C io org ?f cs = (Inr v, cs')"
    using assms by (auto simp: cache_execute_def run_command_def split: sum.splits)
  have len: "length es = length (filter (\<lambda>entry. \<not> P entry) es) \<longleftrightarrow> filter P es = []" for P and es :: "cache_entry list"
    using sum_length_filter_compl [of P es] by (metis add_0 add_diff_cancel_right' diff_self_eq_0 length_0_conv)
  show ?thesis
  proof (cases "find_cache (caches_seen C cs org) name")
    case None
    then show ?thesis using cache_mutate_cases [OF m] by (auto simp: delete_entry_action_def selected_def)
  next
    case (Some c)
    let ?s = "filter (\<lambda>entry. matches_entry U request entry options) (nc_entries c)"
    have f: "?f (caches_seen C cs org) = Inr ((VBool (?s \<noteq> []), ?s \<noteq> []),
        update_cache name (filter (\<lambda>entry. \<not> matches_entry U request entry options)) (caches_seen C cs org))"
      using Some len by (simp add: delete_entry_action_def Let_def)
    have "caches_seen C cs' org = (if ?s = [] then caches_seen C cs org else
        update_cache name (filter (\<lambda>entry. \<not> matches_entry U request entry options)) (caches_seen C cs org)) \<and> v = VBool (?s \<noteq> [])"
      using cache_mutate_cases [OF m] f by auto
    then show ?thesis using Some find_cache_update [OF Some, of "filter (\<lambda>entry. \<not> matches_entry U request entry options)"]
      by (auto simp: selected_def)
  qed
qed

theorem delete_then_match_all_witness:
  "\<exists>cs'. cache_execute sample_web (sample_cache_codec None) io_ok ''https://a.example''
     (CDeleteEntry ''v'' (ce_request sample_entry) default_options) (sample_cache None [sample_entry]) = (Inr (VBool True), cs')"
proof -
  have sel: "selected sample_web ''v'' (Some (ce_request sample_entry)) default_options
      (caches_seen (sample_cache_codec None) (sample_cache None [sample_entry]) ''https://a.example'') = [sample_entry]"
    using validate_entry_matches [OF sample_entry_valid]
    by (simp add: selected_def caches_seen_def ensure_loaded_def sample_cache_def caches_of_def sample_caches_def find_cache_def)
  obtain v cs' where run: "cache_execute sample_web (sample_cache_codec None) io_ok ''https://a.example''
     (CDeleteEntry ''v'' (ce_request sample_entry) default_options) (sample_cache None [sample_entry]) = (Inr v, cs')"
    using sample_cache_valid [of None "sample_caches []"] validate_entry_matches [OF sample_entry_valid]
    by (simp add: cache_execute_def run_command_def cache_mutate_def ensure_loaded_def sample_cache_def caches_of_def
      sample_caches_def delete_entry_action_def find_cache_def)
  from delete_then_match_all [OF this] sel run show ?thesis by auto
qed

definition cache_codec_reads_back :: "cache_codec \<Rightarrow> bool" where
  "cache_codec_reads_back C \<longleftrightarrow> (\<forall>d b. cc_write C d = Inr b \<longrightarrow> cc_read C b = Inr d)"

definition cache_synced :: "cache_codec \<Rightarrow> cache_storage \<Rightarrow> bool" where
  "cache_synced C cs \<longleftrightarrow> (\<forall>fs st. cs_files cs = Some fs \<longrightarrow> cs_state cs = Some st \<longrightarrow> cache_load C fs = Inr st)"

lemma cache_write_loads:
  assumes "cache_write C io fs st = (Inr u, fs')" "cache_codec_reads_back C"
    and "cache_validate C CACHE_MAX_ORIGIN_BYTES CACHE_MAX_TOTAL_BYTES st = Inr ()"
  shows "cache_load C fs' = Inr st"
proof -
  obtain b where b: "cc_write C (CACHE_FORMAT_VERSION, st) = Inr b" "length b \<le> CACHE_MAX_TOTAL_BYTES"
    and w: "write_recoverable True io fs b = (Inr (), fs')"
    using assms(1)
    by (auto simp: cache_write_def cache_encode_def map_err_def split: sum.splits if_splits prod.splits)
  have "cache_read_file C (Content b) = Inr (Some st)"
    using b assms(2,3) by (simp add: cache_read_file_def cache_codec_reads_back_def map_err_def limit_simps)
  from cache_file.durable(1) [OF this w] show ?thesis by (simp add: cache_load_def)
qed

lemma ensure_loaded_synced: "ensure_loaded C cs = (l, cs') \<Longrightarrow> cache_synced C cs \<Longrightarrow> cache_synced C cs'"
  by (auto simp: ensure_loaded_def cache_synced_def split: option.splits sum.splits)

text \<open>C40: a successful command leaves memory and disk in agreement: if the loaded state was what the profile file holds
  before, it is what the file holds after, so closing and reopening the store loses nothing.\<close>

theorem cache_commands_are_durable:
  assumes "cache_synced C cs" "cache_codec_reads_back C" "cache_execute U C io org command cs = (Inr v, cs')"
  shows "cache_synced C cs'"
proof -
  have run: "run_command U C io org command cs = (Inr v, cs')"
    using assms(3) by (auto simp: cache_execute_def split: sum.splits)
  show ?thesis
  proof (cases rule: run_command_shape [of U C io org command])
    case (1 f)
    then show ?thesis using run ensure_loaded_synced [OF _ assms(1)]
      by (fastforce simp: cache_read_def split: prod.splits sum.splits)
  next
    case (2 f)
    obtain st cs1 where L: "ensure_loaded C cs = (Inr st, cs1)"
      using run 2(1) by (auto simp: cache_mutate_def split: prod.splits sum.splits)
    have "cache_synced C cs1" by (rule ensure_loaded_synced [OF L assms(1)])
    with run 2(1) L cache_write_loads [OF _ assms(2)] show ?thesis
      by (auto simp: cache_mutate_def cache_synced_def Let_def split: sum.splits if_splits option.splits prod.splits)
  qed
qed

theorem cache_commands_are_durable_witness:
  "cache_load (sample_cache_codec (Some (sample_caches [sample_entry])))
     \<lparr>f_primary = Content [1], f_backup = Content [1], f_temporary = Missing\<rparr> = Inr (sample_caches [sample_entry])"
proof -
  let ?C = "sample_cache_codec (Some (sample_caches [sample_entry]))"
  let ?fs = "\<lparr>f_primary = Content [1], f_backup = Missing, f_temporary = Missing\<rparr>"
  have "cache_write ?C io_ok ?fs (sample_caches [sample_entry]) = (Inr (), ?fs\<lparr>f_backup := Content [1]\<rparr>)"
    by (simp add: cache_write_def cache_encode_def CACHE_FORMAT_VERSION_def sample_cache_codec_def limit_simps
        write_recoverable_def write_run_def io_ok_def set_aside_def publish_def Let_def)
  then have "cache_execute sample_web ?C io_ok ''https://a.example'' (CPut ''v'' [sample_entry]) (sample_cache (Some ?fs) [sample_entry]) =
      (Inr VNull, sample_cache (Some (?fs\<lparr>f_backup := Content [1]\<rparr>)) [sample_entry])"
    using sample_cache_valid [of "Some (sample_caches [sample_entry])" "sample_caches [sample_entry]"]
      validate_entry_matches [OF sample_entry_valid]
    by (simp add: cache_execute_def run_command_def cache_mutate_def ensure_loaded_def sample_cache_def caches_of_def
      sample_caches_def put_action_def cache_validate_name_def limit_simps sample_entry_valid find_cache_def put_entry_def)
  moreover have "cache_synced ?C (sample_cache (Some ?fs) [sample_entry])"
    using sample_cache_valid [of "Some (sample_caches [sample_entry])" "sample_caches [sample_entry]"]
    by (simp add: cache_synced_def sample_cache_def cache_load_def load_recoverable_def cache_read_file_def limit_simps
        CACHE_FORMAT_VERSION_def sample_cache_codec_def)
  moreover have "cache_codec_reads_back ?C" by (simp add: cache_codec_reads_back_def sample_cache_codec_def)
  ultimately have "cache_synced ?C (sample_cache (Some (?fs\<lparr>f_backup := Content [1]\<rparr>)) [sample_entry])"
    using cache_commands_are_durable by blast
  then show ?thesis by (simp add: cache_synced_def sample_cache_def)
qed

end
