(* ===== verification/Storage_Manager.thy ===== *)
theory Storage_Manager
  imports Idb_History Cache_Storage
begin

text \<open>
  \<^verbatim>\<open>src/storage_manager.rs\<close>: the usage estimate of an origin over its three persistent stores, each reporting in the unit
  of its own quota check.
\<close>

definition DEFAULT_BUCKET_QUOTA :: nat where [limit_simps]: "DEFAULT_BUCKET_QUOTA = 37 * 1024 * 1024"

record storage_estimate =
  se_usage :: nat
  se_quota :: nat

definition cache_error_text :: "cache_error \<Rightarrow> string" where
  "cache_error_text e =
     (case e of
        InvalidCacheRequest \<Rightarrow> ''invalid Cache API request''
      | InvalidCacheResponse \<Rightarrow> ''invalid Cache API response''
      | VaryStar \<Rightarrow> ''a Cache API response has Vary: *''
      | CacheQuota \<Rightarrow> ''the Cache API quota was exceeded''
      | DuplicateRequest \<Rightarrow> ''duplicate requests in one Cache.addAll operation''
      | CachePersistence m \<Rightarrow> ''Cache API storage is unavailable: '' @ m)"

text \<open>Reading the cache's usage may load its file, so the store is returned.\<close>

definition estimate_for_origin :: "'u url_origin_crate_scheme \<Rightarrow> idb_codec \<Rightarrow> cache_codec \<Rightarrow> string \<Rightarrow> local_storage \<Rightarrow>
    indexed_db \<Rightarrow> cache_storage \<Rightarrow> (string + storage_estimate) \<times> cache_storage" where
  "estimate_for_origin U C D org ls I cs =
     (case local_usage U ls org of
        Inl e \<Rightarrow> (Inl (storage_error_text e), cs)
      | Inr loc \<Rightarrow>
          (case idb_usage U C I org of
             Inl e \<Rightarrow> (Inl (db_error_text e), cs)
           | Inr indexed \<Rightarrow>
               (case cache_usage U D org cs of
                  (Inl e, cs') \<Rightarrow> (Inl (cache_error_text e), cs')
                | (Inr cached, cs') \<Rightarrow>
                    (Inr \<lparr>se_usage = saturating_add (saturating_add loc indexed) cached, se_quota = DEFAULT_BUCKET_QUOTA\<rparr>,
                     cs'))))"

section \<open>Usage stays within the quota\<close>

definition cache_within :: "cache_codec \<Rightarrow> cache_storage \<Rightarrow> bool" where
  "cache_within D cs \<longleftrightarrow> (\<forall>st. cs_state cs = Some st \<longrightarrow> cache_validate D CACHE_MAX_ORIGIN_BYTES CACHE_MAX_TOTAL_BYTES st = Inr ())"

lemma local_usage_bound:
  assumes "local_usage U ls org = Inr n" "origins_inv (ls_origins ls)"
  shows "n \<le> MAX_STORAGE_BYTES_PER_ORIGIN"
proof -
  obtain o' where "n = (case om_get (ls_origins ls) o' of None \<Rightarrow> 0
      | Some area \<Rightarrow> sum_list (map (\<lambda>(k, v). byte_len k + byte_len v) (ar_entries area)))"
    using assms(1) by (auto simp: local_usage_def result_simps)
  moreover have "sum_list (map (\<lambda>(k, v). byte_len k + byte_len v) (ar_entries a)) \<le> MAX_STORAGE_BYTES_PER_ORIGIN"
    if "om_get (ls_origins ls) o' = Some a" for a
  proof -
    have "area_inv a" using that assms(2) by (auto simp: origins_inv_def om_get_mem)
    then show ?thesis by (simp add: area_inv_def within_quota_def om_weight_def entry_bytes_def case_prod_unfold)
  qed
  ultimately show ?thesis by (auto split: option.splits)
qed

lemma idb_usage_bound:
  assumes "idb_usage U C I org = Inr n" "idb_validate U C MAX_ORIGIN_BYTES MAX_DATABASE_BYTES (id_state I) = Inr ()"
  shows "n \<le> MAX_ORIGIN_BYTES"
proof -
  obtain o' where "idb_origin U org = Inr o'" using assms(1) by (auto simp: idb_usage_def result_simps)
  then have "n = 0 \<or> (\<exists>g b. om_get (id_state I) o' = Some g \<and> ic_group C g = Inr b \<and> n = length b)"
    using assms(1) by (auto simp: idb_usage_def result_simps map_err_def split: option.splits if_splits sum.splits)
  moreover have "length b \<le> MAX_ORIGIN_BYTES" if "om_get (id_state I) o' = Some g" "ic_group C g = Inr b" for g b
  proof -
    have "(o', g) \<in> set (id_state I)" using that(1) by (simp add: om_get_def map_of_SomeD)
    then show ?thesis using assms(2) that(2) by (fastforce simp: idb_validate_def result_simps split: if_splits)
  qed
  ultimately show ?thesis by auto
qed

lemma cache_usage_bound:
  assumes "cache_usage U D org cs = (Inr n, cs')" "cache_within D cs'"
  shows "n \<le> CACHE_MAX_ORIGIN_BYTES"
proof -
  obtain st where st: "cs_state cs' = Some st"
      "n = 0 \<or> (\<exists>g b. om_get st org = Some g \<and> cc_caches D g = Inr b \<and> n = length b)"
    using assms(1) ensure_loaded_Inr
    by (fastforce simp: cache_usage_def result_simps map_err_def split: sum.splits prod.splits option.splits if_splits)
  moreover have "length b \<le> CACHE_MAX_ORIGIN_BYTES" if "om_get st org = Some g" "cc_caches D g = Inr b" for g b
  proof -
    have "(org, g) \<in> set st" using that(1) by (simp add: om_get_def map_of_SomeD)
    then show ?thesis using assms(2) st(1) that(2)
      by (fastforce simp: cache_within_def cache_validate_def result_simps split: if_splits)
  qed
  ultimately show ?thesis by auto
qed

text \<open>The estimate is exactly the sum of what the three stores report, it never exceeds the advertised quota, and the
  addition never saturates, provided each store holds a state its own quota check accepted.\<close>

theorem estimate_within_quota:
  assumes "estimate_for_origin U C D org ls I cs = (Inr est, cs')"
    and "origins_inv (ls_origins ls)" "idb_validate U C MAX_ORIGIN_BYTES MAX_DATABASE_BYTES (id_state I) = Inr ()"
    and "cache_within D cs'"
  shows "se_usage est \<le> se_quota est \<and>
    (\<exists>l i c. local_usage U ls org = Inr l \<and> idb_usage U C I org = Inr i \<and> fst (cache_usage U D org cs) = Inr c \<and>
       se_usage est = l + i + c)"
proof -
  obtain l i c where p: "local_usage U ls org = Inr l" "idb_usage U C I org = Inr i" "cache_usage U D org cs = (Inr c, cs')"
    and est: "est = \<lparr>se_usage = saturating_add (saturating_add l i) c, se_quota = DEFAULT_BUCKET_QUOTA\<rparr>"
    using assms(1) by (auto simp: estimate_for_origin_def split: sum.splits prod.splits)
  have "l \<le> MAX_STORAGE_BYTES_PER_ORIGIN" "i \<le> MAX_ORIGIN_BYTES" "c \<le> CACHE_MAX_ORIGIN_BYTES"
    using local_usage_bound [OF p(1) assms(2)] idb_usage_bound [OF p(2) assms(3)] cache_usage_bound [OF p(3) assms(4)] by auto
  then show ?thesis using p by (simp add: est saturating_add_def limit_simps)
qed

lemma sample_web_storage_origin [simp]: "storage_origin sample_web ''https://a.example'' = Inr ''https://a.example''"
  by (simp add: storage_origin_def sample_web_def sample_url_eval)

theorem estimate_within_quota_witness:
  "\<exists>est. fst (estimate_for_origin sample_web (sample_codec None) (sample_cache_codec None) ''https://a.example'' local_in_memory
     idb_in_memory (sample_cache None [sample_entry])) = Inr est \<and> se_usage est \<le> 37 * 1024 * 1024"
proof -
  have "estimate_for_origin sample_web (sample_codec None) (sample_cache_codec None) ''https://a.example'' local_in_memory
      idb_in_memory (sample_cache None [sample_entry]) = (Inr \<lparr>se_usage = 0, se_quota = DEFAULT_BUCKET_QUOTA\<rparr>, sample_cache None [sample_entry])"
    by (simp add: estimate_for_origin_def local_usage_def idb_usage_def idb_origin_def local_in_memory_def idb_in_memory_def
        cache_usage_def ensure_loaded_def sample_cache_def sample_caches_def sample_cache_codec_def saturating_add_def)
  moreover have "cache_within (sample_cache_codec None) (sample_cache None [sample_entry])"
    by (simp add: cache_within_def sample_cache_def sample_cache_valid)
  ultimately show ?thesis
    using estimate_within_quota [of sample_web "sample_codec None" "sample_cache_codec None" "''https://a.example''" local_in_memory
        idb_in_memory "sample_cache None [sample_entry]"] sample_local_inv
    by (simp add: local_in_memory_def idb_in_memory_def idb_validate_def state_validate_def sample_codec_def idb_encode_def
        limit_simps)
qed

end
