(* ===== verification/Idb_Worker.thy ===== *)
theory Idb_Worker
  imports Storage_Manager
begin

text \<open>
  \<^verbatim>\<open>src/windows_app/renderer_fetch/database.rs\<close> and \<^verbatim>\<open>database/worker.rs\<close>: the one thread that owns IndexedDB, CacheStorage
  and the table of staged transactions. Jobs and retirement controls arrive on one ordered queue; requests are bounded,
  controls are not. A time is a number of milliseconds.
\<close>

section \<open>Requests and replies\<close>

datatype phase = Step | Commit | Abort

datatype db_request =
    StorageEstimate
  | CacheRequest cache_command
  | OpenRequest string
  | ListRequest
  | UpgradeRequest string nat nat "store_definition list" "string list" "db_operation list" "store_definition list"
  | TransactionRequest nat phase string nat transaction_mode "db_operation list"
  | DeleteRequest string

datatype db_reply =
    ErrorReply string string
  | EstimateReply storage_estimate
  | CacheReply cache_value
  | OpenReply "database_info option"
  | ListReply "(string \<times> nat) list"
  | ResultsReply string "db_result list"
  | DeleteReply nat

text \<open>What the worker relies on: the stores' serialisers, the parser of a payload and the rendering of a reply.\<close>

record worker_codec =
  wc_idb :: idb_codec
  wc_cache :: cache_codec
  wc_parse :: "string \<Rightarrow> db_request option"
  wc_render :: "db_reply \<Rightarrow> string"

record job =
  job_tab :: nat
  job_document :: nat
  job_client :: nat
  job_request :: nat
  job_origin :: string
  job_payload :: string

record session_key =
  sk_tab :: nat
  sk_document :: nat
  sk_client :: nat
  sk_transaction :: nat
  sk_url :: string
  sk_name :: string
  sk_version :: nat

record session_value =
  sv_session :: db_session
  sv_last_activity :: nat

type_synonym sessions = "(session_key \<times> session_value) list"

definition SESSION_CAPACITY :: nat where [limit_simps]: "SESSION_CAPACITY = 64"
definition SESSION_IDLE_LIMIT :: nat where [limit_simps]: "SESSION_IDLE_LIMIT = 120000"
definition WORKER_QUEUE_CAPACITY :: nat where [limit_simps]: "WORKER_QUEUE_CAPACITY = 64"

text \<open>The stores the worker shares with the rest of the browser.\<close>

record stores =
  st_database :: indexed_db
  st_cache :: cache_storage
  st_local :: local_storage

section \<open>One request\<close>

definition set_session :: "session_key \<Rightarrow> session_value \<Rightarrow> sessions \<Rightarrow> sessions" where
  "set_session k v ss = (if om_contains ss k then map (\<lambda>e. if fst e = k then (k, v) else e) ss else (k, v) # ss)"

definition open_session :: "'u url_crate_scheme \<Rightarrow> nat \<Rightarrow> indexed_db \<Rightarrow> job \<Rightarrow> session_key \<Rightarrow> string \<Rightarrow> nat \<Rightarrow>
    transaction_mode \<Rightarrow> sessions \<Rightarrow> db_error + sessions" where
  "open_session U now I j k name version mode ss =
     (if om_contains ss k then Inr ss
      else if length ss \<ge> SESSION_CAPACITY then Inl Quota
      else and_then (begin_session U I (job_origin j) name version mode) (\<lambda>s.
        Inr (set_session k \<lparr>sv_session = s, sv_last_activity = now\<rparr> ss)))"

definition step_session :: "idb_codec \<Rightarrow> nat \<Rightarrow> session_key \<Rightarrow> db_operation list \<Rightarrow> sessions \<Rightarrow>
    (db_error + db_result list) \<times> sessions" where
  "step_session C now k operations ss =
     (case om_get ss k of
        None \<Rightarrow> (Inl (InvalidState ''panic: session''), ss) \<comment> \<open>\<^verbatim>\<open>unwrap\<close> after \<^verbatim>\<open>open_session\<close>: not reached\<close>
      | Some v \<Rightarrow>
          (case session_step C operations (sv_session v) of
             Inl e \<Rightarrow> (Inl e, om_remove k ss)
           | Inr (results, s) \<Rightarrow> (Inr results, set_session k \<lparr>sv_session = s, sv_last_activity = now\<rparr> ss)))"

definition job_key :: "job \<Rightarrow> nat \<Rightarrow> string \<Rightarrow> nat \<Rightarrow> session_key" where
  "job_key j transaction_id name version =
     \<lparr>sk_tab = job_tab j, sk_document = job_document j, sk_client = job_client j, sk_transaction = transaction_id,
      sk_url = job_origin j, sk_name = name, sk_version = version\<rparr>"

definition execute_transaction :: "'u url_crate_scheme \<Rightarrow> idb_codec \<Rightarrow> io_env \<Rightarrow> nat \<Rightarrow> job \<Rightarrow> nat \<Rightarrow> phase \<Rightarrow> string \<Rightarrow>
    nat \<Rightarrow> transaction_mode \<Rightarrow> db_operation list \<Rightarrow> indexed_db \<Rightarrow> sessions \<Rightarrow>
    (db_error + db_result list) \<times> indexed_db \<times> sessions" where
  "execute_transaction U C io now j transaction_id ph name version mode operations I ss =
     (if transaction_id = 0 then (Inl (Data ''invalid transaction identifier''), I, ss)
      else
        let k = job_key j transaction_id name version
        in case ph of
             Step \<Rightarrow>
               (case open_session U now I j k name version mode ss of
                  Inl e \<Rightarrow> (Inl e, I, ss)
                | Inr ss1 \<Rightarrow> (case step_session C now k operations ss1 of (r, ss2) \<Rightarrow> (r, I, ss2)))
           | Commit \<Rightarrow>
               (case om_get ss k of
                  None \<Rightarrow> (Inl (InvalidState ''transaction session expired''), I, ss)
                | Some v \<Rightarrow>
                    (case commit_session U C io I (sv_session v) of
                       (Inl e, I') \<Rightarrow> (Inl e, I', om_remove k ss)
                     | (Inr _, I') \<Rightarrow> (Inr [], I', om_remove k ss)))
           | Abort \<Rightarrow> (Inr [], I, om_remove k ss))"

definition bounded_reply :: "worker_codec \<Rightarrow> string \<Rightarrow> db_reply \<Rightarrow> db_reply" where
  "bounded_reply W message reply =
     (if length (wc_render W reply) \<le> MAX_INDEXED_DB_IPC_BYTES then reply else ErrorReply ''QuotaExceededError'' message)"

definition database_reply :: "worker_codec \<Rightarrow> db_error + db_reply \<Rightarrow> db_reply" where
  "database_reply W r =
     (case r of
        Inr reply \<Rightarrow> bounded_reply W ''IndexedDB result exceeds the IPC limit'' reply
      | Inl e \<Rightarrow> ErrorReply (db_error_name e)
          (case e of DbPersistence _ \<Rightarrow> ''IndexedDB storage is unavailable'' | _ \<Rightarrow> db_error_text e))"

definition cache_reply :: "worker_codec \<Rightarrow> cache_error + cache_value \<Rightarrow> db_reply" where
  "cache_reply W r =
     (case r of
        Inr v \<Rightarrow> bounded_reply W ''CacheStorage result exceeds the IPC limit'' (CacheReply v)
      | Inl e \<Rightarrow> ErrorReply (cache_error_name e)
          (case e of CachePersistence _ \<Rightarrow> ''CacheStorage is unavailable'' | _ \<Rightarrow> cache_error_text e))"

definition execute_request :: "'u url_origin_crate_scheme \<Rightarrow> worker_codec \<Rightarrow> io_env \<Rightarrow> nat \<Rightarrow> job \<Rightarrow> db_request \<Rightarrow>
    stores \<times> sessions \<Rightarrow> db_reply \<times> stores \<times> sessions" where
  "execute_request U W io now j request = (\<lambda>(S, ss).
     let I = st_database S; C = wc_idb W
     in case request of
          StorageEstimate \<Rightarrow>
            (case estimate_for_origin U C (wc_cache W) (job_origin j) (st_local S) I (st_cache S) of
               (Inr est, cs) \<Rightarrow> (EstimateReply est, S\<lparr>st_cache := cs\<rparr>, ss)
             | (Inl _, cs) \<Rightarrow> (ErrorReply ''UnknownError'' ''Storage estimate is unavailable'', S\<lparr>st_cache := cs\<rparr>, ss))
        | CacheRequest command \<Rightarrow>
            (case cache_execute U (wc_cache W) io (job_origin j) command (st_cache S) of
               (r, cs) \<Rightarrow> (cache_reply W r, S\<lparr>st_cache := cs\<rparr>, ss))
        | OpenRequest name \<Rightarrow>
            (database_reply W (and_then (idb_inspect U I (job_origin j) name) (\<lambda>info. Inr (OpenReply info))), S, ss)
        | ListRequest \<Rightarrow>
            (database_reply W (and_then (idb_list U I (job_origin j)) (\<lambda>databases. Inr (ListReply databases))), S, ss)
        | UpgradeRequest name pv v create remove writes definitions \<Rightarrow>
            (case idb_upgrade U C io I (job_origin j) name pv v create remove writes definitions of
               (r, I') \<Rightarrow> (database_reply W (and_then r (\<lambda>rs. Inr (ResultsReply ''upgrade'' rs))), S\<lparr>st_database := I'\<rparr>, ss))
        | TransactionRequest transaction_id ph name version mode operations \<Rightarrow>
            (case execute_transaction U C io now j transaction_id ph name version mode operations I ss of
               (r, I', ss') \<Rightarrow>
                 (database_reply W (and_then r (\<lambda>rs. Inr (ResultsReply ''transaction'' rs))), S\<lparr>st_database := I'\<rparr>, ss'))
        | DeleteRequest name \<Rightarrow>
            (case idb_delete U C io I (job_origin j) name of
               (r, I') \<Rightarrow> (database_reply W (and_then r (\<lambda>v. Inr (DeleteReply v))), S\<lparr>st_database := I'\<rparr>, ss)))"

definition execute :: "'u url_origin_crate_scheme \<Rightarrow> worker_codec \<Rightarrow> io_env \<Rightarrow> nat \<Rightarrow> job \<Rightarrow> stores \<times> sessions \<Rightarrow>
    db_reply \<times> stores \<times> sessions" where
  "execute U W io now j Sss =
     (case wc_parse W (job_payload j) of
        None \<Rightarrow> (ErrorReply ''DataError'' ''Invalid storage request'', Sss)
      | Some request \<Rightarrow> execute_request U W io now j request Sss)"

section \<open>The queue\<close>

datatype work =
    Request job
  | RetireClient nat nat nat
  | RetireDocument nat nat
  | RetireTab nat

record worker =
  wk_stores :: stores
  wk_sessions :: sessions
  wk_retired :: "(nat \<times> nat \<times> nat) set"
  wk_failed :: "(nat \<times> nat) set"
  wk_queue :: "work list"
  wk_pending :: nat

text \<open>An event sent to a renderer: document, request and payload.\<close>

type_synonym event = "nat \<times> nat \<times> db_reply"

definition reject :: "job \<Rightarrow> event" where
  "reject j = (job_document j, job_request j, ErrorReply ''QuotaExceededError'' ''Origin-storage request queue is full'')"

text \<open>
  The admission counter is raised and the job sent in one step here. In the code two atomic operations do it; between
  them the worker can only lower the counter and take earlier entries, and a send fails only once the worker is gone.
\<close>

definition submit :: "job \<Rightarrow> worker \<Rightarrow> event option \<times> worker" where
  "submit j w =
     (if wk_pending w < WORKER_QUEUE_CAPACITY
      then (None, w\<lparr>wk_pending := wk_pending w + 1, wk_queue := wk_queue w @ [Request j]\<rparr>)
      else (Some (reject j), w))"

definition retire_client :: "nat \<Rightarrow> nat \<Rightarrow> nat \<Rightarrow> worker \<Rightarrow> worker" where
  "retire_client tab document client w = w\<lparr>wk_queue := wk_queue w @ [RetireClient tab document client]\<rparr>"

definition retire_document :: "nat \<Rightarrow> nat \<Rightarrow> worker \<Rightarrow> worker" where
  "retire_document tab document w = w\<lparr>wk_queue := wk_queue w @ [RetireDocument tab document]\<rparr>"

definition retire_tab :: "nat \<Rightarrow> worker \<Rightarrow> worker" where
  "retire_tab tab w = w\<lparr>wk_queue := wk_queue w @ [RetireTab tab]\<rparr>"

definition expire :: "nat \<Rightarrow> sessions \<Rightarrow> sessions" where
  "expire now ss = filter (\<lambda>e. now - sv_last_activity (snd e) < SESSION_IDLE_LIMIT) ss"

definition fail_document :: "nat \<Rightarrow> nat \<Rightarrow> worker \<Rightarrow> worker" where
  "fail_document tab document w =
     w\<lparr>wk_failed := insert (tab, document) (wk_failed w),
       wk_sessions := filter (\<lambda>e. sk_tab (fst e) \<noteq> tab \<or> sk_document (fst e) \<noteq> document) (wk_sessions w)\<rparr>"

fun retire :: "work \<Rightarrow> worker \<Rightarrow> worker" where
  "retire (RetireClient tab document client) w =
     w\<lparr>wk_retired := insert (tab, document, client) (wk_retired w),
       wk_sessions := filter (\<lambda>e. \<not> (sk_tab (fst e) = tab \<and> sk_document (fst e) = document \<and> sk_client (fst e) = client))
         (wk_sessions w)\<rparr>"
| "retire (RetireDocument tab document) w =
     w\<lparr>wk_failed := wk_failed w - {(tab, document)},
       wk_retired := {r \<in> wk_retired w. fst r \<noteq> tab \<or> fst (snd r) \<noteq> document},
       wk_sessions := filter (\<lambda>e. \<not> (sk_tab (fst e) = tab \<and> sk_document (fst e) = document)) (wk_sessions w)\<rparr>"
| "retire (RetireTab tab) w =
     w\<lparr>wk_failed := {f \<in> wk_failed w. fst f \<noteq> tab},
       wk_retired := {r \<in> wk_retired w. fst r \<noteq> tab},
       wk_sessions := filter (\<lambda>e. sk_tab (fst e) \<noteq> tab) (wk_sessions w)\<rparr>"
| "retire (Request j) w = w" \<comment> \<open>\<^verbatim>\<open>unreachable!\<close>\<close>

definition answer :: "'u url_origin_crate_scheme \<Rightarrow> worker_codec \<Rightarrow> io_env \<Rightarrow> nat \<Rightarrow> job \<Rightarrow> worker \<Rightarrow> db_reply \<times> worker" where
  "answer U W io now j w =
     (if (job_tab j, job_document j) \<in> wk_failed w
      then (ErrorReply ''AbortError'' ''Origin-storage document is unavailable'', w)
      else if (job_tab j, job_document j, job_client j) \<in> wk_retired w
      then (ErrorReply ''AbortError'' ''Origin-storage client has been retired'', w)
      else case execute U W io now j (wk_stores w, wk_sessions w) of
        (reply, S, ss) \<Rightarrow> (reply, w\<lparr>wk_stores := S, wk_sessions := ss\<rparr>))"

text \<open>One turn of the loop. \<open>accepts\<close> says whether the renderer's event sink took the reply.\<close>

definition worker_turn :: "'u url_origin_crate_scheme \<Rightarrow> worker_codec \<Rightarrow> io_env \<Rightarrow> nat \<Rightarrow> bool \<Rightarrow> worker \<Rightarrow> event option \<times> worker" where
  "worker_turn U W io now accepts w0 =
     (let w = w0\<lparr>wk_sessions := expire now (wk_sessions w0)\<rparr>
      in case wk_queue w of
           [] \<Rightarrow> (None, w)
         | Request j # q \<Rightarrow>
             (case answer U W io now j (w\<lparr>wk_queue := q, wk_pending := wk_pending w - 1\<rparr>) of
                (reply, w') \<Rightarrow>
                  (Some (job_document j, job_request j, reply),
                   if accepts then w' else fail_document (job_tab j) (job_document j) w'))
         | control # q \<Rightarrow> (None, retire control (w\<lparr>wk_queue := q\<rparr>)))"

section \<open>Admission of a command from a renderer\<close>

datatype admission =
    Refused db_reply
  | Retired
  | Ignored
  | Submitted job

definition database_origin :: "origin \<Rightarrow> string option" where
  "database_origin o' = (let s = origin_serialize o' in if s \<noteq> ''null'' then Some s else None)"

definition RETIRE_PAYLOAD :: string where
  \<open>RETIRE_PAYLOAD = ''{"kind":"retireClient"}''\<close>

text \<open>\<open>owner\<close> is the origin of the committed client the command names, when the document owns such a client.\<close>

definition admit_command :: "origin option \<Rightarrow> nat \<Rightarrow> nat \<Rightarrow> nat \<Rightarrow> nat \<Rightarrow> string \<Rightarrow> admission" where
  "admit_command owner tab document client request payload =
     (case owner of
        None \<Rightarrow> Refused (ErrorReply ''SecurityError'' ''Storage client is not owned by this document'')
      | Some o' \<Rightarrow>
          if payload = RETIRE_PAYLOAD then (if bit client 63 \<and> bit request 63 then Retired else Ignored)
          else case database_origin o' of
            None \<Rightarrow> Refused (ErrorReply ''SecurityError'' ''Storage is unavailable for an opaque origin'')
          | Some org \<Rightarrow> Submitted \<lparr>job_tab = tab, job_document = document, job_client = client, job_request = request,
                          job_origin = org, job_payload = payload\<rparr>)"

section \<open>The session table\<close>

definition owner :: "session_key \<Rightarrow> nat \<times> nat \<times> nat" where
  "owner k = (sk_tab k, sk_document k, sk_client k)"

definition job_owner :: "job \<Rightarrow> nat \<times> nat \<times> nat" where
  "job_owner j = (job_tab j, job_document j, job_client j)"

lemma owner_job_key [simp]: "owner (job_key j t n v) = job_owner j"
  by (simp add: owner_def job_key_def job_owner_def)

text \<open>A staged session is over the database, origin and version its key names, and was begun from a stored database.\<close>

definition session_ok :: "'u url_crate_scheme \<Rightarrow> session_key \<Rightarrow> session_value \<Rightarrow> bool" where
  "session_ok U k v \<longleftrightarrow> idb_origin U (sk_url k) = Inr (ses_origin (sv_session v)) \<and>
     ses_name (sv_session v) = sk_name k \<and> ses_version (sv_session v) = sk_version k \<and> session_wf (sv_session v)"

definition sessions_inv :: "'u url_crate_scheme \<Rightarrow> sessions \<Rightarrow> bool" where
  "sessions_inv U ss \<longleftrightarrow> length ss \<le> SESSION_CAPACITY \<and> distinct (map fst ss) \<and> (\<forall>(k, v)\<in>set ss. session_ok U k v)"

text \<open>What a request may do to the table: only entries of its own client come or go, and what comes is stamped now.\<close>

definition own_change :: "nat \<Rightarrow> (nat \<times> nat \<times> nat) \<Rightarrow> sessions \<Rightarrow> sessions \<Rightarrow> bool" where
  "own_change now ow ss ss' \<longleftrightarrow>
     (\<forall>e\<in>set ss'. e \<in> set ss \<or> owner (fst e) = ow \<and> sv_last_activity (snd e) = now) \<and> (\<forall>e\<in>set ss. owner (fst e) \<noteq> ow \<longrightarrow> e \<in> set ss')"

lemma own_change_refl [simp]: "own_change now ow ss ss"
  by (simp add: own_change_def)

lemma own_change_trans: "own_change now ow a b \<Longrightarrow> own_change now ow b c \<Longrightarrow> own_change now ow a c"
  by (auto simp: own_change_def)

lemma own_change_remove: "owner k = ow \<Longrightarrow> own_change now ow ss (om_remove k ss)"
  by (auto simp: own_change_def om_remove_def)

lemma own_change_set: "owner k = ow \<Longrightarrow> sv_last_activity v = now \<Longrightarrow> own_change now ow ss (set_session k v ss)"
  by (auto simp: own_change_def set_session_def)

lemma sessions_inv_filter: "sessions_inv U ss \<Longrightarrow> sessions_inv U (filter p ss)"
  by (auto simp: sessions_inv_def distinct_map_filter intro: le_trans [OF length_filter_le])

lemma sessions_inv_remove: "sessions_inv U ss \<Longrightarrow> sessions_inv U (om_remove k ss)"
  by (simp add: om_remove_def sessions_inv_filter)

lemma om_contains_iff: "om_contains ss k \<longleftrightarrow> k \<in> fst ` set ss"
  by (auto simp: om_contains_def om_get_def map_of_eq_None_iff)

lemma sessions_inv_set:
  assumes "sessions_inv U ss" "session_ok U k v" "om_contains ss k \<or> length ss < SESSION_CAPACITY"
  shows "sessions_inv U (set_session k v ss)"
proof (cases "om_contains ss k")
  case True
  have "map fst (map (\<lambda>e. if fst e = k then (k, v) else e) ss) = map fst ss" by (induction ss) auto
  then show ?thesis using assms(1,2) True unfolding sessions_inv_def set_session_def by (auto simp del: map_map)
next
  case False
  then show ?thesis using assms by (auto simp: sessions_inv_def set_session_def om_contains_iff)
qed

lemma sessions_get: "sessions_inv U ss \<Longrightarrow> om_get ss k = Some v \<Longrightarrow> session_ok U k v \<and> om_contains ss k"
  by (auto simp: sessions_inv_def om_get_def om_contains_def dest: map_of_SomeD)

lemma open_session_keeps:
  assumes "open_session U now I j (job_key j t name version) name version mode ss = Inr ss'" "sessions_inv U ss"
  shows "sessions_inv U ss' \<and> own_change now (job_owner j) ss ss'"
proof (cases "om_contains ss (job_key j t name version)")
  case False
  then obtain s where "begin_session U I (job_origin j) name version mode = Inr s" "length ss < SESSION_CAPACITY"
      "ss' = set_session (job_key j t name version) \<lparr>sv_session = s, sv_last_activity = now\<rparr> ss"
    using assms(1) by (auto simp: open_session_def result_simps split: if_splits)
  with begin_session_Inr [OF this(1)] show ?thesis
    using assms(2) by (auto intro!: sessions_inv_set own_change_set simp: session_ok_def job_key_def owner_def job_owner_def)
qed (use assms in \<open>simp add: open_session_def\<close>)

lemma step_session_keeps:
  assumes "step_session C now k operations ss = (r, ss')" "sessions_inv U ss"
  shows "sessions_inv U ss' \<and> own_change now (owner k) ss ss'"
proof (cases "om_get ss k")
  case (Some v)
  note V = sessions_get [OF assms(2) Some]
  show ?thesis
  proof (cases "session_step C operations (sv_session v)")
    case (Inl e)
    then show ?thesis using assms Some by (auto simp: step_session_def intro: sessions_inv_remove own_change_remove)
  next
    case (Inr x)
    then obtain rs s where x: "session_step C operations (sv_session v) = Inr (rs, s)" by (cases x) auto
    have "session_ok U k \<lparr>sv_session = s, sv_last_activity = now\<rparr>"
      using V session_step_frame [OF x] by (simp add: session_ok_def)
    then show ?thesis using assms Some x V
      by (auto simp: step_session_def intro!: sessions_inv_set own_change_set)
  qed
qed (use assms in \<open>simp add: step_session_def\<close>)

lemma execute_transaction_keeps:
  assumes "execute_transaction U C io now j t ph name version mode operations I ss = (r, I', ss')" "sessions_inv U ss"
  shows "sessions_inv U ss' \<and> own_change now (job_owner j) ss ss'"
proof (cases "t = 0")
  case False
  let ?k = "job_key j t name version"
  show ?thesis
  proof (cases ph)
    case Step
    show ?thesis
    proof (cases "open_session U now I j ?k name version mode ss")
      case (Inr ss1)
      have o': "sessions_inv U ss1 \<and> own_change now (job_owner j) ss ss1" by (rule open_session_keeps [OF Inr assms(2)])
      obtain r2 ss2 where s2: "step_session C now ?k operations ss1 = (r2, ss2)" by fastforce
      have "ss' = ss2" using assms(1) False Step Inr s2 by (simp add: execute_transaction_def Let_def)
      then show ?thesis
        using step_session_keeps [OF s2, of U] o' own_change_trans [of now "job_owner j" ss ss1 ss2] by simp
    qed (use assms False Step in \<open>simp add: execute_transaction_def Let_def\<close>)
  qed (use assms False in \<open>auto simp: execute_transaction_def Let_def sessions_inv_remove own_change_remove
      split: option.splits sum.splits prod.splits\<close>)
qed (use assms in \<open>simp add: execute_transaction_def\<close>)

lemma execute_keeps:
  assumes "execute U W io now j (S, ss) = (reply, S', ss')" "sessions_inv U ss"
  shows "sessions_inv U ss' \<and> own_change now (job_owner j) ss ss'"
proof (cases "\<exists>t ph name version mode operations. wc_parse W (job_payload j) = Some (TransactionRequest t ph name version mode operations)")
  case True
  then show ?thesis
    using assms execute_transaction_keeps [OF _ assms(2)]
    by (auto simp: execute_def execute_request_def Let_def split: prod.splits)
next
  case False
  then have "ss' = ss"
    using assms(1) by (auto simp: execute_def execute_request_def Let_def split: option.splits db_request.splits prod.splits sum.splits)
  then show ?thesis using assms(2) by simp
qed

section \<open>Reachable worker states\<close>

fun is_request :: "work \<Rightarrow> bool" where
  "is_request (Request j) = True"
| "is_request _ = False"

definition worker_inv :: "'u url_crate_scheme \<Rightarrow> worker \<Rightarrow> bool" where
  "worker_inv U w \<longleftrightarrow> sessions_inv U (wk_sessions w) \<and>
     (\<forall>(k, v)\<in>set (wk_sessions w). owner k \<notin> wk_retired w \<and> (sk_tab k, sk_document k) \<notin> wk_failed w) \<and>
     wk_pending w = length (filter is_request (wk_queue w)) \<and> wk_pending w \<le> WORKER_QUEUE_CAPACITY"

definition new_worker :: "stores \<Rightarrow> worker" where
  "new_worker S = \<lparr>wk_stores = S, wk_sessions = [], wk_retired = {}, wk_failed = {}, wk_queue = [], wk_pending = 0\<rparr>"

inductive worker_step :: "'u url_origin_crate_scheme \<Rightarrow> worker_codec \<Rightarrow> worker \<Rightarrow> worker \<Rightarrow> bool" for U W where
  submitted: "submit j w = (e, w') \<Longrightarrow> worker_step U W w w'"
| client: "worker_step U W w (retire_client tab document cl w)"
| document: "worker_step U W w (retire_document tab document w)"
| tab: "worker_step U W w (retire_tab tab w)"
| turn: "worker_turn U W io now accepts w = (e, w') \<Longrightarrow> worker_step U W w w'"

inductive worker_reachable :: "'u url_origin_crate_scheme \<Rightarrow> worker_codec \<Rightarrow> stores \<Rightarrow> worker \<Rightarrow> bool" for U W S where
  start: "worker_reachable U W S (new_worker S)"
| step: "worker_reachable U W S w \<Longrightarrow> worker_step U W w w' \<Longrightarrow> worker_reachable U W S w'"

lemma answer_inv:
  assumes "answer U W io now j w = (reply, w')" "worker_inv U w"
  shows "worker_inv U w'" "wk_retired w' = wk_retired w" "wk_failed w' = wk_failed w" "wk_queue w' = wk_queue w"
    and "own_change now (job_owner j) (wk_sessions w) (wk_sessions w')"
proof -
  consider "w' = w" | S ss where "job_owner j \<notin> wk_retired w" "(job_tab j, job_document j) \<notin> wk_failed w"
      "execute U W io now j (wk_stores w, wk_sessions w) = (reply, S, ss)" "w' = w\<lparr>wk_stores := S, wk_sessions := ss\<rparr>"
    using assms(1) by (auto simp: answer_def job_owner_def split: if_splits prod.splits)
  then have "worker_inv U w' \<and> wk_retired w' = wk_retired w \<and> wk_failed w' = wk_failed w \<and> wk_queue w' = wk_queue w \<and>
      own_change now (job_owner j) (wk_sessions w) (wk_sessions w')"
  proof cases
    case 2
    have E: "sessions_inv U ss \<and> own_change now (job_owner j) (wk_sessions w) ss"
      using execute_keeps [OF 2(3)] assms(2) by (simp add: worker_inv_def)
    have "owner k \<notin> wk_retired w \<and> (sk_tab k, sk_document k) \<notin> wk_failed w" if "(k, v) \<in> set ss" for k v
      using E that assms(2) 2(1,2) by (fastforce simp: own_change_def worker_inv_def owner_def job_owner_def)
    then show ?thesis using E 2(4) assms(2) by (auto simp: worker_inv_def)
  qed (use assms(2) in simp)
  then show "worker_inv U w'" "wk_retired w' = wk_retired w" "wk_failed w' = wk_failed w" "wk_queue w' = wk_queue w"
    and "own_change now (job_owner j) (wk_sessions w) (wk_sessions w')" by blast+
qed

lemma fail_document_inv: "worker_inv U w \<Longrightarrow> worker_inv U (fail_document tab document w)"
  by (auto simp: worker_inv_def fail_document_def sessions_inv_filter)

lemma retire_inv: "worker_inv U w \<Longrightarrow> worker_inv U (retire work w)"
  by (cases work) (auto simp: worker_inv_def sessions_inv_filter owner_def)

lemma worker_inv_expire: "worker_inv U w \<Longrightarrow> worker_inv U (w\<lparr>wk_sessions := expire now (wk_sessions w)\<rparr>)"
  by (auto simp: worker_inv_def expire_def sessions_inv_filter)

lemma worker_inv_dequeue:
  assumes "worker_inv U w" "wk_queue w = Request j # q"
  shows "worker_inv U (w\<lparr>wk_sessions := expire now (wk_sessions w), wk_queue := q, wk_pending := wk_pending w - 1\<rparr>)"
  using worker_inv_expire [OF assms(1), of now] assms(2) by (auto simp: worker_inv_def)

lemma worker_turn_inv:
  assumes "worker_turn U W io now accepts w0 = (e, w')" "worker_inv U w0"
  shows "worker_inv U w'"
proof -
  let ?w = "w0\<lparr>wk_sessions := expire now (wk_sessions w0)\<rparr>"
  have inv: "worker_inv U ?w" by (rule worker_inv_expire [OF assms(2)])
  show ?thesis
  proof (cases "wk_queue w0")
    case Nil
    then show ?thesis using assms(1) inv by (simp add: worker_turn_def Let_def)
  next
    case (Cons work q)
    show ?thesis
    proof (cases work)
      case (Request j)
      let ?w1 = "w0\<lparr>wk_sessions := expire now (wk_sessions w0), wk_queue := q, wk_pending := wk_pending w0 - 1\<rparr>"
      have inv1: "worker_inv U ?w1" using worker_inv_dequeue assms(2) Cons Request by simp
      obtain reply w2 where a: "answer U W io now j ?w1 = (reply, w2)" by fastforce
      then have "w' = (if accepts then w2 else fail_document (job_tab j) (job_document j) w2)"
        using assms(1) Cons Request by (simp add: worker_turn_def Let_def)
      then show ?thesis using answer_inv(1) [OF a inv1] fail_document_inv by auto
    qed (use assms(1) Cons inv in \<open>auto simp: worker_turn_def Let_def worker_inv_def sessions_inv_filter owner_def\<close>)
  qed
qed

lemma worker_reachable_inv: "worker_reachable U W S w \<Longrightarrow> worker_inv U w"
proof (induction rule: worker_reachable.induct)
  case start
  show ?case by (simp add: worker_inv_def new_worker_def sessions_inv_def limit_simps)
next
  case (step w w')
  from step(2,3) show ?case
  proof cases
    case (submitted j e)
    then show ?thesis using step.IH by (auto simp: submit_def worker_inv_def split: if_splits)
  next
    case (turn io now accepts e)
    then show ?thesis using worker_turn_inv step.IH by blast
  qed (auto simp: worker_inv_def retire_client_def retire_document_def retire_tab_def)
qed


section \<open>Properties\<close>

text \<open>A worker for the examples: every payload parses as a step of transaction 1.\<close>

definition sample_worker_codec :: worker_codec where
  "sample_worker_codec = \<lparr>wc_idb = sample_codec None, wc_cache = sample_cache_codec None,
     wc_parse = (\<lambda>s. Some (TransactionRequest 1 Step ''d'' 1 ReadWrite [])), wc_render = (\<lambda>r. [])\<rparr>"

definition sample_job :: job where
  "sample_job = \<lparr>job_tab = 1, job_document = 7, job_client = 3, job_request = 9, job_origin = ''https://a.example'', job_payload = []\<rparr>"

definition sample_stores :: stores where
  "sample_stores = \<lparr>st_database = sample_idb 1 sample_store None, st_cache = cache_in_memory, st_local = local_in_memory\<rparr>"

definition sample_key :: session_key where
  "sample_key = job_key sample_job 1 ''d'' 1"

lemma sample_web_origin [simp]: "idb_origin sample_web ''https://a.example'' = Inr ''https://a.example''"
  by (simp add: idb_origin_def)

lemma sample_execute:
  "execute sample_web sample_worker_codec io_ok now sample_job (sample_stores, []) =
     (ResultsReply ''transaction'' [], sample_stores,
      [(sample_key, \<lparr>sv_session = sample_session, sv_last_activity = now\<rparr>)])"
proof -
  have "begin_session sample_web (sample_idb 1 sample_store None) ''https://a.example'' ''d'' 1 ReadWrite = Inr sample_session"
    by (simp add: begin_session_def sample_idb_def sample_state_def find_database_def sample_db_def sample_session_def)
  then have "open_session sample_web now (sample_idb 1 sample_store None) sample_job sample_key ''d'' 1 ReadWrite [] =
      Inr [(sample_key, \<lparr>sv_session = sample_session, sv_last_activity = now\<rparr>)]"
    by (simp add: open_session_def om_contains_def sample_job_def set_session_def limit_simps)
  moreover have "session_step (sample_codec None) [] sample_session = Inr ([], sample_session)"
    by (simp add: session_step_def limit_simps validate_results_def sample_codec_def)
  then have "step_session (sample_codec None) now sample_key [] [(sample_key, \<lparr>sv_session = sample_session, sv_last_activity = now\<rparr>)] =
      (Inr [], [(sample_key, \<lparr>sv_session = sample_session, sv_last_activity = now\<rparr>)])"
    by (simp add: step_session_def set_session_def om_contains_def)
  ultimately show ?thesis
    by (simp add: execute_def sample_worker_codec_def execute_request_def Let_def execute_transaction_def sample_key_def [symmetric]
        sample_stores_def database_reply_def bounded_reply_def del: One_nat_def)
qed

definition sample_staged :: worker where
  "sample_staged = (new_worker sample_stores)\<lparr>wk_sessions := [(sample_key, \<lparr>sv_session = sample_session, sv_last_activity = 5\<rparr>)]\<rparr>"

lemma sample_turn:
  "worker_turn sample_web sample_worker_codec io_ok 5 True ((new_worker sample_stores)\<lparr>wk_queue := [Request sample_job], wk_pending := 1\<rparr>) =
     (Some (7, 9, ResultsReply ''transaction'' []), sample_staged)"
  by (simp add: worker_turn_def Let_def new_worker_def expire_def answer_def sample_execute sample_staged_def)
    (simp add: sample_job_def)

lemma sample_queued:
  "worker_reachable sample_web sample_worker_codec sample_stores
     ((new_worker sample_stores)\<lparr>wk_queue := [Request sample_job], wk_pending := 1\<rparr>)"
proof -
  have "submit sample_job (new_worker sample_stores) =
      (None, (new_worker sample_stores)\<lparr>wk_queue := [Request sample_job], wk_pending := 1\<rparr>)"
    by (simp add: submit_def new_worker_def limit_simps)
  from worker_reachable.step [OF worker_reachable.start worker_step.submitted [OF this]] show ?thesis .
qed

lemma sample_reachable: "worker_reachable sample_web sample_worker_codec sample_stores sample_staged"
  by (rule worker_reachable.step [OF sample_queued worker_step.turn [OF sample_turn]])

text \<open>C7: in every reachable state of the storage worker at most 64 transactions are staged, each under its own key and over
  the database, origin and version that key names; no transaction of a retired client or failed document is left; and at
  most 64 requests are waiting, which is what the admission counter says.\<close>

theorem worker_invariant:
  assumes "worker_reachable U W S w"
  shows "length (wk_sessions w) \<le> 64 \<and> distinct (map fst (wk_sessions w)) \<and>
     (\<forall>(k, v)\<in>set (wk_sessions w). session_ok U k v \<and> owner k \<notin> wk_retired w \<and> (sk_tab k, sk_document k) \<notin> wk_failed w) \<and>
     wk_pending w = length (filter is_request (wk_queue w)) \<and> wk_pending w \<le> 64"
  using worker_reachable_inv [OF assms] by (auto simp: worker_inv_def sessions_inv_def limit_simps)

theorem worker_invariant_witness:
  "session_ok sample_web sample_key \<lparr>sv_session = sample_session, sv_last_activity = 5\<rparr>"
  using worker_invariant [OF sample_reachable] by (simp add: sample_staged_def)

lemma mem_om_get: "distinct (map fst ss) \<Longrightarrow> (k, v) \<in> set ss \<longleftrightarrow> om_get ss k = Some v"
  by (simp add: om_get_def)

text \<open>C8: serving a request changes only transactions staged by its own client. In the turn of the worker's loop that takes
  the request from the queue, any other client's staged transaction survives unchanged, unless it has been idle for two
  minutes, or the renderer's sink refuses the answer and the transaction is of the very tab and document that is failed
  for it: then it is dropped. Nothing appears under another client's key.\<close>

theorem clients_are_isolated:
  assumes "worker_reachable U W S w" "wk_queue w = Request j # q" "worker_turn U W io now accepts w = (e, w')"
    and "owner k \<noteq> job_owner j"
  shows "om_get (wk_sessions w') k =
    (case om_get (wk_sessions w) k of
       None \<Rightarrow> None
     | Some v \<Rightarrow>
         if now - sv_last_activity v \<ge> 120000 \<or> \<not> accepts \<and> sk_tab k = job_tab j \<and> sk_document k = job_document j
         then None else Some v)"
proof -
  let ?w1 = "w\<lparr>wk_sessions := expire now (wk_sessions w), wk_queue := q, wk_pending := wk_pending w - 1\<rparr>"
  obtain reply w2 where a: "answer U W io now j ?w1 = (reply, w2)" by fastforce
  note inv = worker_inv_dequeue [OF worker_reachable_inv [OF assms(1)] assms(2), of now]
  have w': "w' = (if accepts then w2 else fail_document (job_tab j) (job_document j) w2)"
    using assms(2,3) a by (auto simp: worker_turn_def Let_def)
  have "(k, v) \<in> set (wk_sessions w2) \<longleftrightarrow> (k, v) \<in> set (expire now (wk_sessions w))" for v
    using answer_inv(5) [OF a inv] assms(4) by (auto simp: own_change_def)
  then have iff: "(k, v) \<in> set (wk_sessions w') \<longleftrightarrow> (k, v) \<in> set (wk_sessions w) \<and> now - sv_last_activity v < 120000 \<and>
      (accepts \<or> sk_tab k \<noteq> job_tab j \<or> sk_document k \<noteq> job_document j)" for v
    by (auto simp: w' fail_document_def expire_def limit_simps)
  have "sessions_inv U (wk_sessions w2)" using answer_inv(1) [OF a inv] by (simp add: worker_inv_def)
  then have "distinct (map fst (wk_sessions w'))" "distinct (map fst (wk_sessions w))"
    using worker_reachable_inv [OF assms(1)] by (auto simp: w' fail_document_def worker_inv_def sessions_inv_def distinct_map_filter)
  from iff mem_om_get [OF this(1)] mem_om_get [OF this(2)]
  have G: "om_get (wk_sessions w') k = Some v \<longleftrightarrow> om_get (wk_sessions w) k = Some v \<and> now - sv_last_activity v < 120000 \<and>
      (accepts \<or> sk_tab k \<noteq> job_tab j \<or> sk_document k \<noteq> job_document j)" for v by blast
  show ?thesis
  proof (cases "om_get (wk_sessions w) k")
    case None
    then show ?thesis using G by (cases "om_get (wk_sessions w') k") auto
  next
    case (Some v)
    show ?thesis
    proof (cases "om_get (wk_sessions w') k")
      case None
      then show ?thesis using Some G [of v] by auto
    next
      case (Some x)
      then show ?thesis using \<open>om_get (wk_sessions w) k = Some v\<close> G [of x] by auto
    qed
  qed
qed

definition sample_shared :: worker where
  "sample_shared = sample_staged\<lparr>wk_queue := [Request (sample_job\<lparr>job_client := 4\<rparr>)], wk_pending := 1\<rparr>"

lemma sample_shared_reachable: "worker_reachable sample_web sample_worker_codec sample_stores sample_shared"
proof -
  have "submit (sample_job\<lparr>job_client := 4\<rparr>) sample_staged = (None, sample_shared)"
    by (simp add: submit_def sample_shared_def sample_staged_def new_worker_def limit_simps)
  from worker_reachable.step [OF sample_reachable worker_step.submitted [OF this]] show ?thesis .
qed

theorem clients_are_isolated_witness:
  "om_get (wk_sessions (snd (worker_turn sample_web sample_worker_codec io_ok 6 True sample_shared))) sample_key =
     Some \<lparr>sv_session = sample_session, sv_last_activity = 5\<rparr> \<and>
   om_get (wk_sessions (snd (worker_turn sample_web sample_worker_codec io_ok 6 False sample_shared))) sample_key = None"
proof -
  have owner: "owner sample_key \<noteq> job_owner (sample_job\<lparr>job_client := 4\<rparr>)"
    by (simp add: sample_key_def job_owner_def sample_job_def)
  have queue: "wk_queue sample_shared = Request (sample_job\<lparr>job_client := 4\<rparr>) # []" by (simp add: sample_shared_def)
  have key: "sk_tab sample_key = 1" "sk_document sample_key = 7"
    "om_get (wk_sessions sample_shared) sample_key = Some \<lparr>sv_session = sample_session, sv_last_activity = 5\<rparr>"
    by (simp_all add: sample_key_def job_key_def sample_job_def sample_shared_def sample_staged_def)
  have job: "job_tab (sample_job\<lparr>job_client := 4\<rparr>) = 1" "job_document (sample_job\<lparr>job_client := 4\<rparr>) = 7"
    by (simp_all add: sample_job_def)
  note served = clients_are_isolated [OF sample_shared_reachable queue prod.collapse [symmetric] owner, of io_ok 6]
  show ?thesis using served [of True] served [of False] by (simp add: key job)
qed

text \<open>Once a client is retired, or its document failed, its requests are answered with an abort and change nothing: no
  store and no staged transaction.\<close>

theorem retired_clients_are_silenced:
  assumes "job_owner j \<in> wk_retired w \<or> (job_tab j, job_document j) \<in> wk_failed w"
  shows "\<exists>message. answer U W io now j w = (ErrorReply ''AbortError'' message, w)"
  using assms by (auto simp: answer_def job_owner_def)

theorem retired_clients_are_silenced_witness:
  "\<exists>message. answer sample_web sample_worker_codec io_ok 6 sample_job (retire (RetireClient 1 7 3) sample_staged) =
     (ErrorReply ''AbortError'' message, retire (RetireClient 1 7 3) sample_staged)"
  by (rule retired_clients_are_silenced) (simp add: job_owner_def sample_job_def)

text \<open>Staging is invisible. A step or an abort of a transaction leaves all stores as they were; only the commit publishes,
  and it consumes the staged transaction whether it succeeds or not.\<close>

theorem staging_is_invisible:
  assumes "wc_parse W (job_payload j) = Some (TransactionRequest t ph name version mode operations)"
    and "execute U W io now j (S, ss) = (reply, S', ss')"
  shows "(ph \<noteq> Commit \<longrightarrow> S' = S) \<and> (ph \<noteq> Step \<and> t \<noteq> 0 \<longrightarrow> \<not> om_contains ss' (job_key j t name version))"
proof -
  have I: "I' = I" if "execute_transaction U C io now j t ph name version mode operations I ss = (r, I', ss')" "ph \<noteq> Commit" for C I r I'
    using that by (auto simp: execute_transaction_def Let_def split: if_splits phase.splits sum.splits prod.splits)
  have k: "\<not> om_contains ss' (job_key j t name version)"
    if "execute_transaction U C io now j t ph name version mode operations I ss = (r, I', ss')" "ph \<noteq> Step" "t \<noteq> 0" for C I r I'
    using that by (auto simp: execute_transaction_def Let_def om_contains_def split: phase.splits sum.splits prod.splits option.splits)
  show ?thesis using assms I k by (auto simp: execute_def execute_request_def Let_def split: prod.splits)
qed

theorem staging_is_invisible_witness:
  "fst (snd (execute sample_web sample_worker_codec io_ok 5 sample_job (sample_stores, []))) = sample_stores"
proof -
  have "wc_parse sample_worker_codec (job_payload sample_job) = Some (TransactionRequest 1 Step ''d'' 1 ReadWrite [])"
    by (simp add: sample_worker_codec_def)
  from staging_is_invisible [OF this sample_execute [of 5]] show ?thesis by (simp add: sample_execute)
qed

text \<open>A transaction idle for two minutes is gone before the next turn does any work, so its locks on the table and its
  snapshot cannot be used again.\<close>

theorem idle_transactions_expire:
  assumes "worker_reachable U W S w" "worker_turn U W io now accepts w = (e, w')" "(k, v) \<in> set (wk_sessions w')"
  shows "now - sv_last_activity v < 120000"
proof (cases "\<exists>j q. wk_queue w = Request j # q")
  case False
  then show ?thesis
    using assms(2,3) by (auto simp: worker_turn_def Let_def expire_def limit_simps split: list.splits work.splits)
next
  case True
  then obtain j q where q: "wk_queue w = Request j # q" by blast
  let ?w1 = "w\<lparr>wk_sessions := expire now (wk_sessions w), wk_queue := q, wk_pending := wk_pending w - 1\<rparr>"
  obtain reply w2 where a: "answer U W io now j ?w1 = (reply, w2)" by fastforce
  then have mem: "(k, v) \<in> set (wk_sessions w2)"
    using assms(2,3) q by (auto simp: worker_turn_def Let_def fail_document_def split: if_splits)
  have "own_change now (job_owner j) (wk_sessions ?w1) (wk_sessions w2)"
    by (rule answer_inv(5) [OF a worker_inv_dequeue [OF worker_reachable_inv [OF assms(1)] q]])
  then show ?thesis using mem by (fastforce simp: own_change_def expire_def limit_simps)
qed

theorem idle_transactions_expire_witness:
  "wk_sessions (snd (worker_turn sample_web sample_worker_codec io_ok 120005 True sample_staged)) = []"
proof -
  obtain e w' where t: "worker_turn sample_web sample_worker_codec io_ok 120005 True sample_staged = (e, w')" by fastforce
  have "wk_sessions w' = filter (\<lambda>x. 120005 - sv_last_activity (snd x) < SESSION_IDLE_LIMIT)
      [(sample_key, \<lparr>sv_session = sample_session, sv_last_activity = 5\<rparr>)]"
    using t by (auto simp: worker_turn_def Let_def sample_staged_def new_worker_def expire_def)
  then have "x = (sample_key, \<lparr>sv_session = sample_session, sv_last_activity = 5\<rparr>)" if "x \<in> set (wk_sessions w')" for x
    using that by (auto split: if_splits)
  moreover have "(sample_key, \<lparr>sv_session = sample_session, sv_last_activity = 5\<rparr>) \<notin> set (wk_sessions w')"
    using idle_transactions_expire [OF sample_reachable t, of sample_key "\<lparr>sv_session = sample_session, sv_last_activity = 5\<rparr>"] by auto
  ultimately have "wk_sessions w' = []" by (metis last_in_set)
  then show ?thesis by (simp add: t)
qed

fun worker_turns :: "'u url_origin_crate_scheme \<Rightarrow> worker_codec \<Rightarrow> (io_env \<times> nat \<times> bool) list \<Rightarrow> worker \<Rightarrow> event list \<times> worker" where
  "worker_turns U W [] w = ([], w)"
| "worker_turns U W ((io, now, accepts) # turns) w =
     (case worker_turn U W io now accepts w of
        (e, w') \<Rightarrow> (case worker_turns U W turns w' of
          (es, w'') \<Rightarrow> ((case e of None \<Rightarrow> [] | Some ev \<Rightarrow> [ev]) @ es, w'')))"

fun requests_of :: "work list \<Rightarrow> (nat \<times> nat) list" where
  "requests_of [] = []"
| "requests_of (Request j # q) = (job_document j, job_request j) # requests_of q"
| "requests_of (w # q) = requests_of q"

lemma worker_turn_queue:
  assumes "worker_turn U W io now accepts w = (e, w')" "wk_queue w = work # q"
  shows "wk_queue w' = q" "(case e of None \<Rightarrow> [] | Some (d, r, reply) \<Rightarrow> [(d, r)]) = requests_of [work]"
proof -
  have "wk_queue w' = q \<and> (case e of None \<Rightarrow> [] | Some (d, r, reply) \<Rightarrow> [(d, r)]) = requests_of [work]"
  proof (cases work)
    case (Request j)
    let ?w1 = "w\<lparr>wk_sessions := expire now (wk_sessions w), wk_queue := q, wk_pending := wk_pending w - 1\<rparr>"
    obtain reply w2 where a: "answer U W io now j ?w1 = (reply, w2)" by fastforce
    then have "wk_queue w2 = q" by (auto simp: answer_def split: if_splits prod.splits)
    then show ?thesis using assms a Request by (auto simp: worker_turn_def Let_def fail_document_def)
  qed (use assms in \<open>auto simp: worker_turn_def Let_def\<close>)
  then show "wk_queue w' = q" "(case e of None \<Rightarrow> [] | Some (d, r, reply) \<Rightarrow> [(d, r)]) = requests_of [work]" by blast+
qed

text \<open>C9: the worker drains its queue: whatever the renderers' sinks do and however the requests fare, as many turns as there
  are entries empty it, and each admitted request has been answered exactly once, in order.\<close>

theorem worker_drains_its_queue:
  assumes "length turns = length (wk_queue w)" "worker_turns U W turns w = (es, w')"
  shows "wk_queue w' = [] \<and> map (\<lambda>(d, r, reply). (d, r)) es = requests_of (wk_queue w)"
  using assms
proof (induction turns arbitrary: w es)
  case (Cons t turns)
  obtain io now accepts where t: "t = (io, now, accepts)" by (cases t)
  obtain work q where q: "wk_queue w = work # q" using Cons.prems(1) by (cases "wk_queue w") auto
  obtain e w1 where e: "worker_turn U W io now accepts w = (e, w1)" by fastforce
  obtain es1 where es: "worker_turns U W turns w1 = (es1, w')" using Cons.prems(2) by (auto simp: t e split: prod.splits)
  note Q = worker_turn_queue [OF e q]
  have "requests_of (work # q) = requests_of [work] @ requests_of q" by (cases work) auto
  then show ?case using Cons.IH [OF _ es] Cons.prems Q q
    by (auto simp: t e es split: option.splits)
qed simp

theorem worker_drains_its_queue_witness:
  "\<exists>es w'. worker_turns sample_web sample_worker_codec [(io_ok, 5, True), (io_ok, 6, False)]
      ((new_worker sample_stores)\<lparr>wk_queue := [Request sample_job, RetireTab 1], wk_pending := 1\<rparr>) = (es, w') \<and>
     wk_queue w' = [] \<and> map (\<lambda>(d, r, reply). (d, r)) es = [(7, 9)]"
proof -
  let ?w = "(new_worker sample_stores)\<lparr>wk_queue := [Request sample_job, RetireTab 1], wk_pending := 1\<rparr>"
  obtain es w' where "worker_turns sample_web sample_worker_codec [(io_ok, 5, True), (io_ok, 6, False)] ?w = (es, w')" by fastforce
  from worker_drains_its_queue [OF _ this] this show ?thesis by (simp add: sample_job_def)
qed

end
