(* ===== verification/Fetch_Headers.thy ===== *)
theory Fetch_Headers
  imports Web_Url
begin

text \<open>
  \<^verbatim>\<open>src/fetch/headers.rs\<close>: the ordered header list every request and response carries, its
  normalisation, the guards between page script and the browser's own headers, and the CORS
  safelists. A \<^verbatim>\<open>HeaderList\<close> is the list of its entries; \<^verbatim>\<open>&mut self\<close> operations return the new list.
\<close>

section \<open>Header bytes\<close>

definition token_byte :: "char \<Rightarrow> bool" where
  "token_byte c \<longleftrightarrow> is_ascii_alphanumeric c \<or> c \<in> set ''!#$%&'*+-.^_`|~''"

definition is_cors_unsafe_byte :: "char \<Rightarrow> bool" where
  "is_cors_unsafe_byte c \<longleftrightarrow>
     byte c < 32 \<and> byte c \<noteq> 9 \<or> c \<in> set [CHR 0x22, CHR ''('', CHR '')'', CHR '':'', CHR ''<'', CHR ''>'',
       CHR ''?'', CHR ''@'', CHR ''['', CHR 0x5c, CHR '']'', CHR ''{'', CHR ''}''] \<or> byte c = 127"

definition is_http_space :: "char \<Rightarrow> bool" where
  "is_http_space c \<longleftrightarrow> c = CHR '' '' \<or> c = CHR 0x09"

definition is_line_space :: "char \<Rightarrow> bool" where
  "is_line_space c \<longleftrightarrow> is_http_space c \<or> c = CHR 0x0D \<or> c = CHR 0x0A"

definition breaks_header :: "char \<Rightarrow> bool" where
  "breaks_header c \<longleftrightarrow> c = CHR 0x00 \<or> c = CHR 0x0D \<or> c = CHR 0x0A"

definition normalize_name :: "string \<Rightarrow> fetch_error + string" where
  "normalize_name name =
     (if name = [] \<or> \<not> list_all token_byte name
      then Inl (invalid_request (''invalid HTTP header name: '' @ name))
      else Inr (to_ascii_lowercase name))"

definition normalize_value :: "string \<Rightarrow> fetch_error + string" where
  "normalize_value value0 =
     (let v = trim_matches is_line_space value0
      in if list_ex breaks_header v
         then Inl (invalid_request ''HTTP header values cannot contain NUL, CR, or LF'')
         else Inr (trim_matches is_http_space v))"

section \<open>Forbidden and safelisted names\<close>

definition forbidden_request_names :: "string list" where
  "forbidden_request_names =
     [''accept-charset'', ''accept-encoding'', ''access-control-request-headers'',
      ''access-control-request-method'', ''connection'', ''content-length'', ''cookie'', ''cookie2'', ''date'',
      ''dnt'', ''expect'', ''host'', ''keep-alive'', ''origin'', ''permissions-policy'', ''proxy-authenticate'',
      ''proxy-authorization'', ''referer'', ''set-cookie'', ''te'', ''trailer'', ''transfer-encoding'', ''upgrade'',
      ''via'']"

definition forbidden_method :: "string \<Rightarrow> bool" where
  "forbidden_method m \<longleftrightarrow> to_ascii_uppercase m \<in> set [''CONNECT'', ''TRACE'', ''TRACK'']"

definition is_forbidden_request_header :: "string \<Rightarrow> string \<Rightarrow> bool" where
  "is_forbidden_request_header name value0 \<longleftrightarrow>
     name \<in> set forbidden_request_names
     \<or> starts_with name ''proxy-'' \<or> starts_with name ''sec-''
     \<or> name \<in> set [''x-http-method'', ''x-http-method-override'', ''x-method-override'']
        \<and> list_ex (\<lambda>m. forbidden_method (trim m)) (split_on (CHR '','') value0)"

definition is_forbidden_response_header :: "string \<Rightarrow> bool" where
  "is_forbidden_response_header name \<longleftrightarrow>
     eq_ignore_ascii_case name ''set-cookie'' \<or> eq_ignore_ascii_case name ''set-cookie2''"

definition is_cors_safelisted_response_header :: "string \<Rightarrow> bool" where
  "is_cors_safelisted_response_header name \<longleftrightarrow>
     to_ascii_lowercase name \<in> set [''cache-control'', ''content-language'', ''content-length'', ''content-type'',
       ''expires'', ''last-modified'', ''pragma'']"

definition is_simple_range_header :: "string \<Rightarrow> bool" where
  "is_simple_range_header value0 =
     (case strip_prefix value0 ''bytes='' of
        None \<Rightarrow> False
      | Some bounds \<Rightarrow>
          (case split_once (CHR ''-'') bounds of
             None \<Rightarrow> False
           | Some (start, end') \<Rightarrow>
               (case parse_unsigned u64_max start of
                  None \<Rightarrow> False
                | Some s \<Rightarrow> end' = [] \<or>
                    (case parse_unsigned u64_max end' of None \<Rightarrow> False | Some e \<Rightarrow> s \<le> e))))"

section \<open>The header list\<close>

record header =
  h_name :: string
  h_value :: string

type_synonym header_list = "header list"

definition is_cors_safelisted_request_header :: "header \<Rightarrow> bool" where
  "is_cors_safelisted_request_header h =
     (let name = h_name h; v = h_value h
      in if length v > 128 then False
         else if name = ''accept'' then \<not> list_ex is_cors_unsafe_byte v
         else if name = ''accept-language'' \<or> name = ''content-language''
         then list_all (\<lambda>c. is_ascii_alphanumeric c \<or> c \<in> set '' *,-.;='') v
         else if name = ''content-type'' then
           (let essence = to_ascii_lowercase (trim (hd (split_on (CHR '';'') v)))
            in essence \<in> set [''application/x-www-form-urlencoded'', ''multipart/form-data'', ''text/plain'']
               \<and> \<not> list_ex is_cors_unsafe_byte v)
         else if name = ''range'' then is_simple_range_header v
         else False)"

definition header_named :: "string \<Rightarrow> header \<Rightarrow> bool" where
  "header_named name h \<longleftrightarrow> eq_ignore_ascii_case (h_name h) name"

definition headers_get :: "header_list \<Rightarrow> string \<Rightarrow> string option" where
  "headers_get hs name = map_option h_value (find (header_named name) hs)"

definition headers_values :: "header_list \<Rightarrow> string \<Rightarrow> string list" where
  "headers_values hs name = map h_value (filter (header_named name) hs)"

definition headers_contains :: "header_list \<Rightarrow> string \<Rightarrow> bool" where
  "headers_contains hs name \<longleftrightarrow> headers_get hs name \<noteq> None"

definition headers_remove :: "string \<Rightarrow> header_list \<Rightarrow> header_list" where
  "headers_remove name hs = filter (\<lambda>h. \<not> header_named name h) hs"

definition headers_append :: "string \<Rightarrow> string \<Rightarrow> header_list \<Rightarrow> fetch_error + header_list" where
  "headers_append name value0 hs =
     and_then (normalize_name name) (\<lambda>n.
     and_then (normalize_value value0) (\<lambda>v. Inr (hs @ [\<lparr>h_name = n, h_value = v\<rparr>])))"

text \<open>\<^verbatim>\<open>set\<close> removes before it appends: with a value that is refused the removal stays.\<close>

definition headers_set :: "string \<Rightarrow> string \<Rightarrow> header_list \<Rightarrow> (fetch_error + unit) \<times> header_list" where
  "headers_set name value0 hs =
     (case normalize_name name of
        Inl e \<Rightarrow> (Inl e, hs)
      | Inr n \<Rightarrow>
          (case headers_append n value0 (headers_remove n hs) of
             Inl e \<Rightarrow> (Inl e, headers_remove n hs)
           | Inr hs' \<Rightarrow> (Inr (), hs')))"

text \<open>The list a caller goes on with after \<^verbatim>\<open>set(...)?\<close>.\<close>

definition headers_set_ok :: "string \<Rightarrow> string \<Rightarrow> header_list \<Rightarrow> fetch_error + header_list" where
  "headers_set_ok name value0 hs =
     (case headers_set name value0 hs of (Inl e, _) \<Rightarrow> Inl e | (Inr _, hs') \<Rightarrow> Inr hs')"

definition forbidden_by_script :: "string \<Rightarrow> fetch_error" where
  "forbidden_by_script name = invalid_request (''script cannot set forbidden request header `'' @ name @ ''`'')"

definition headers_append_script :: "string \<Rightarrow> string \<Rightarrow> header_list \<Rightarrow> fetch_error + header_list" where
  "headers_append_script name value0 hs =
     and_then (normalize_name name) (\<lambda>n.
     and_then (normalize_value value0) (\<lambda>v.
       if is_forbidden_request_header n v then Inl (forbidden_by_script n)
       else headers_append n v hs))"

definition headers_set_script :: "string \<Rightarrow> string \<Rightarrow> header_list \<Rightarrow> fetch_error + header_list" where
  "headers_set_script name value0 hs =
     and_then (normalize_name name) (\<lambda>n.
     and_then (normalize_value value0) (\<lambda>v.
       if is_forbidden_request_header n v then Inl (forbidden_by_script n)
       else headers_append n v (headers_remove n hs)))"

definition to_wire_string :: "header_list \<Rightarrow> string" where
  "to_wire_string hs = concat (map (\<lambda>h. h_name h @ '': '' @ h_value h @ [CHR 0x0D, CHR 0x0A]) hs)"

definition validate_script_request :: "header_list \<Rightarrow> fetch_error + unit" where
  "validate_script_request hs =
     (case find (\<lambda>h. is_forbidden_request_header (h_name h) (h_value h)) hs of
        None \<Rightarrow> Inr ()
      | Some h \<Rightarrow> Inl (forbidden_by_script (h_name h)))"

section \<open>Well-formed lists\<close>

definition name_ok :: "string \<Rightarrow> bool" where
  "name_ok n \<longleftrightarrow> n \<noteq> [] \<and> list_all token_byte n \<and> to_ascii_lowercase n = n"

definition value_ok :: "string \<Rightarrow> bool" where
  "value_ok v \<longleftrightarrow> \<not> list_ex breaks_header v \<and> trim_matches is_http_space v = v"

definition header_ok :: "header \<Rightarrow> bool" where
  "header_ok h \<longleftrightarrow> name_ok (h_name h) \<and> value_ok (h_value h)"

lemma token_byte_lower: "token_byte c \<Longrightarrow> token_byte (ascii_lower c)"
proof -
  assume c: "token_byte c"
  show ?thesis
  proof (cases "65 \<le> byte c \<and> byte c \<le> 90")
    case True
    then show ?thesis
      by (auto simp: token_byte_def is_ascii_alphanumeric_def ascii_lower_def byte_char_of)
  qed (use c in \<open>auto simp: ascii_lower_def\<close>)
qed

lemma normalize_name_Inr: "normalize_name n = Inr m \<Longrightarrow> name_ok m \<and> m = to_ascii_lowercase n"
  by (auto simp: normalize_name_def name_ok_def list_all_iff to_ascii_lowercase_def token_byte_lower
      split: if_splits)

lemma normalize_name_idem: "name_ok n \<Longrightarrow> normalize_name n = Inr n"
  by (simp add: normalize_name_def name_ok_def)

text \<open>Trimming: the result has no end to trim, is a part of the input, and trimming it again changes nothing.\<close>

lemma dropWhile_idle: "s = [] \<or> \<not> p (hd s) \<Longrightarrow> dropWhile p s = s"
  by (cases s) auto

lemma trim_matches_id: "s = [] \<or> \<not> p (hd s) \<and> \<not> p (last s) \<Longrightarrow> trim_matches p s = s"
  by (auto simp: trim_matches_def dropWhile_idle hd_rev)

lemma trim_matches_idem [simp]: "trim_matches p (trim_matches p s) = trim_matches p s"
  using trim_matches_ends [of p s] by (intro trim_matches_id) auto

lemma trim_matches_weaken:
  assumes "\<And>c. q c \<Longrightarrow> p c" shows "trim_matches q (trim_matches p s) = trim_matches p s"
  using trim_matches_ends [of p s] assms by (intro trim_matches_id) auto

lemma normalize_value_Inr: "normalize_value v = Inr w \<Longrightarrow> value_ok w"
  using set_trim_matches [of is_http_space "trim_matches is_line_space v"]
  by (auto simp: normalize_value_def value_ok_def Let_def list_ex_iff split: if_splits)

lemma normalize_value_trim: "normalize_value v = Inr w \<Longrightarrow> w = trim_matches is_line_space v"
  by (auto simp: normalize_value_def Let_def trim_matches_weaken is_line_space_def split: if_splits)

lemma value_ok_ends:
  assumes "value_ok v" shows "trim_matches is_line_space v = v"
proof (cases "v = []")
  case False
  with assms have "\<not> is_http_space (hd v) \<and> \<not> is_http_space (last v)"
    using trim_matches_ends [of is_http_space v] by (simp add: value_ok_def)
  moreover from assms False have "\<not> breaks_header (hd v)" "\<not> breaks_header (last v)"
    by (auto simp: value_ok_def list_ex_iff)
  ultimately show ?thesis by (intro trim_matches_id) (auto simp: is_line_space_def breaks_header_def)
qed (simp add: trim_matches_def)

lemma normalize_value_idem: "value_ok v \<Longrightarrow> normalize_value v = Inr v"
  by (simp add: normalize_value_def value_ok_ends) (simp add: value_ok_def)

lemma headers_append_Inr:
  "headers_append n v hs = Inr hs' \<Longrightarrow> \<exists>h. hs' = hs @ [h] \<and> header_ok h \<and> h_name h = to_ascii_lowercase n"
  by (auto simp: headers_append_def result_simps header_ok_def dest!: normalize_name_Inr normalize_value_Inr)

lemma headers_append_ok: "headers_append n v hs = Inr hs' \<Longrightarrow> list_all header_ok hs \<Longrightarrow> list_all header_ok hs'"
  by (auto dest!: headers_append_Inr)

lemma headers_append_normal: "name_ok n \<Longrightarrow> value_ok v \<Longrightarrow> headers_append n v hs = Inr (hs @ [\<lparr>h_name = n, h_value = v\<rparr>])"
  by (simp add: headers_append_def normalize_name_idem normalize_value_idem)

lemma headers_set_ok_all:
  "headers_set n v hs = (r, hs') \<Longrightarrow> list_all header_ok hs \<Longrightarrow> list_all header_ok hs'"
  by (auto simp: headers_set_def headers_remove_def list_all_iff split: sum.splits dest: headers_append_ok)

lemma headers_append_script_Inr:
  assumes "headers_append_script n v hs = Inr hs'"
  obtains m w where "hs' = hs @ [\<lparr>h_name = m, h_value = w\<rparr>]" "name_ok m" "value_ok w"
    "\<not> is_forbidden_request_header m w"
proof -
  from assms obtain m w where "normalize_name n = Inr m" "normalize_value v = Inr w"
    "\<not> is_forbidden_request_header m w" "headers_append m w hs = Inr hs'"
    by (auto simp: headers_append_script_def result_simps split: if_splits)
  with normalize_name_Inr normalize_value_Inr headers_append_normal that show thesis by fastforce
qed

lemma headers_set_script_Inr:
  assumes "headers_set_script n v hs = Inr hs'"
  obtains m w where "hs' = headers_remove m hs @ [\<lparr>h_name = m, h_value = w\<rparr>]" "name_ok m" "value_ok w"
    "\<not> is_forbidden_request_header m w"
proof -
  from assms obtain m w where "normalize_name n = Inr m" "normalize_value v = Inr w"
    "\<not> is_forbidden_request_header m w" "headers_append m w (headers_remove m hs) = Inr hs'"
    by (auto simp: headers_set_script_def result_simps split: if_splits)
  with normalize_name_Inr normalize_value_Inr headers_append_normal that show thesis by fastforce
qed

section \<open>Programs over a header list\<close>

datatype header_op =
    Append string string
  | AppendScript string string
  | Set string string
  | SetScript string string
  | Remove string

definition else_same :: "header_list \<Rightarrow> 'e + header_list \<Rightarrow> header_list" where
  "else_same hs r = (case r of Inl _ \<Rightarrow> hs | Inr hs' \<Rightarrow> hs')"

definition header_step :: "header_list \<Rightarrow> header_op \<Rightarrow> header_list" where
  "header_step hs o' =
     (case o' of
        Append n v \<Rightarrow> else_same hs (headers_append n v hs)
      | AppendScript n v \<Rightarrow> else_same hs (headers_append_script n v hs)
      | Set n v \<Rightarrow> snd (headers_set n v hs)
      | SetScript n v \<Rightarrow> else_same hs (headers_set_script n v hs)
      | Remove n \<Rightarrow> headers_remove n hs)"

definition script_op :: "header_op \<Rightarrow> bool" where
  "script_op o' = (case o' of AppendScript _ _ \<Rightarrow> True | SetScript _ _ \<Rightarrow> True | Remove _ \<Rightarrow> True | _ \<Rightarrow> False)"

lemma else_same_all:
  "(\<And>hs'. r = Inr hs' \<Longrightarrow> list_all p hs') \<Longrightarrow> list_all p hs \<Longrightarrow> list_all p (else_same hs r)"
  by (auto simp: else_same_def split: sum.splits)

lemma headers_remove_all: "list_all p hs \<Longrightarrow> list_all p (headers_remove n hs)"
  by (auto simp: headers_remove_def list_all_iff)

text \<open>The two script operations add one header, well formed and not forbidden, and change no other.\<close>

lemma script_ops_all:
  assumes "headers_append_script n v hs = Inr hs' \<or> headers_set_script n v hs = Inr hs'" "list_all p hs"
    and new: "\<And>m w. name_ok m \<Longrightarrow> value_ok w \<Longrightarrow> \<not> is_forbidden_request_header m w \<Longrightarrow> p \<lparr>h_name = m, h_value = w\<rparr>"
  shows "list_all p hs'"
  using assms(1)
proof
  assume "headers_append_script n v hs = Inr hs'"
  then show ?thesis by (rule headers_append_script_Inr) (simp add: assms(2) new)
next
  assume "headers_set_script n v hs = Inr hs'"
  then show ?thesis by (rule headers_set_script_Inr) (simp add: headers_remove_all assms(2) new)
qed

lemma header_step_ok:
  assumes "list_all header_ok hs" shows "list_all header_ok (header_step hs o')"
proof (cases o')
  case (Append n v)
  with assms show ?thesis by (auto simp: header_step_def intro!: else_same_all dest: headers_append_ok)
next
  case (Set n v)
  with assms headers_set_ok_all [of n v hs] show ?thesis
    by (cases "headers_set n v hs") (auto simp: header_step_def)
next
  case (Remove n)
  with assms show ?thesis by (simp add: header_step_def headers_remove_all)
qed (auto simp: header_step_def header_ok_def intro!: else_same_all assms intro: script_ops_all [OF _ assms])

lemma header_steps_ok: "list_all header_ok hs \<Longrightarrow> list_all header_ok (foldl header_step hs ops)"
  by (induction ops arbitrary: hs) (auto intro: header_step_ok)

section \<open>Reading the wire form\<close>

text \<open>
  A reader of HTTP field lines at its most lenient: a line ends at CR LF or at a bare LF, the name ends at
  the first colon, and the value loses the optional white space around it.
\<close>

fun take_line :: "string \<Rightarrow> (string \<times> string) option" where
  "take_line [] = None"
| "take_line (c # s) =
     (if c = CHR 0x0A then Some ([], s)
      else if c = CHR 0x0D then (case s of d # t \<Rightarrow> if d = CHR 0x0A then Some ([], t) else None | [] \<Rightarrow> None)
      else map_option (\<lambda>(l, t). (c # l, t)) (take_line s))"

lemma take_line_shorter: "take_line s = Some (l, t) \<Longrightarrow> length t < length s"
  by (induction s arbitrary: l) (auto split: if_splits list.splits)

function read_fields :: "string \<Rightarrow> header_list option" where
  "read_fields s =
     (if s = [] then Some []
      else case take_line s of
        None \<Rightarrow> None
      | Some (l, t) \<Rightarrow>
          (case split_once (CHR '':'') l of
             None \<Rightarrow> None
           | Some (n, v) \<Rightarrow>
               map_option ((#) \<lparr>h_name = n, h_value = trim_matches is_http_space v\<rparr>) (read_fields t)))"
  by pat_completeness auto
termination by (relation "measure length") (auto dest: take_line_shorter)

declare read_fields.simps [simp del]

lemma take_line_field:
  assumes "\<And>c. c \<in> set l \<Longrightarrow> c \<noteq> CHR 0x0A \<and> c \<noteq> CHR 0x0D"
  shows "take_line (l @ CHR 0x0D # CHR 0x0A # t) = Some (l, t)"
  using assms by (induction l) (auto simp: byte_def)

lemma split_once_append: "d \<notin> set a \<Longrightarrow> split_once d (a @ d # b) = Some (a, b)"
  by (induction a) auto

lemma token_byte_plain: "token_byte c \<Longrightarrow> c \<noteq> CHR '':'' \<and> c \<noteq> CHR 0x0A \<and> c \<noteq> CHR 0x0D \<and> c \<noteq> CHR 0x00"
  by (auto simp: token_byte_def is_ascii_alphanumeric_def is_ascii_digit_def byte_def)

lemma trim_leading_space: "trim_matches is_http_space v = v \<Longrightarrow> trim_matches is_http_space (CHR '' '' # v) = v"
  by (simp add: trim_matches_def is_http_space_def byte_def)

lemma read_fields_header:
  assumes "header_ok h"
  shows "read_fields (h_name h @ '': '' @ h_value h @ [CHR 0x0D, CHR 0x0A] @ t) = map_option ((#) h) (read_fields t)"
proof -
  let ?l = "h_name h @ CHR '':'' # CHR '' '' # h_value h"
  have plain: "c \<noteq> CHR 0x0A \<and> c \<noteq> CHR 0x0D" if "c \<in> set ?l" for c
    using that assms token_byte_plain
    by (auto simp: header_ok_def name_ok_def value_ok_def list_all_iff list_ex_iff breaks_header_def byte_def)
  have "h_name h @ '': '' @ h_value h @ [CHR 0x0D, CHR 0x0A] @ t = ?l @ CHR 0x0D # CHR 0x0A # t"
    by simp
  moreover have "split_once (CHR '':'') ?l = Some (h_name h, CHR '' '' # h_value h)"
    using assms token_byte_plain
    by (intro split_once_append) (auto simp: header_ok_def name_ok_def list_all_iff)
  moreover have "trim_matches is_http_space (CHR '' '' # h_value h) = h_value h"
    using assms by (simp add: trim_leading_space header_ok_def value_ok_def)
  ultimately show ?thesis
    using take_line_field [of ?l t] plain by (subst read_fields.simps) (cases h, simp del: take_line.simps)
qed

lemma read_fields_wire: "list_all header_ok hs \<Longrightarrow> read_fields (to_wire_string hs) = Some hs"
proof (induction hs)
  case Nil
  show ?case by (simp add: to_wire_string_def read_fields.simps)
next
  case (Cons h hs)
  then have "read_fields (to_wire_string hs) = Some hs" by simp
  with Cons.prems read_fields_header [of h "to_wire_string hs"] show ?case
    by (simp add: to_wire_string_def)
qed

section \<open>Properties\<close>

text \<open>C17: Header lists keep their type and cannot be split on the wire. Whatever sequence of appends, sets,
  removals and script operations builds a header list, with whatever arguments, refused ones included, every
  name in it is a non-empty lower-case token and every value free of NUL, CR and LF and of white space at its
  ends; and even a lenient HTTP reader recovers from the wire string exactly the headers of the list.\<close>

theorem header_lists_are_well_formed:
  "list_all header_ok (foldl header_step [] ops) \<and>
   read_fields (to_wire_string (foldl header_step [] ops)) = Some (foldl header_step [] ops)"
  using read_fields_wire [OF header_steps_ok [of "[]" ops]] header_steps_ok [of "[]" ops] by simp

lemma script_steps_allowed:
  assumes "\<forall>o'\<in>set ops. script_op o'" "list_all (\<lambda>h. \<not> is_forbidden_request_header (h_name h) (h_value h)) hs"
  shows "list_all (\<lambda>h. \<not> is_forbidden_request_header (h_name h) (h_value h)) (foldl header_step hs ops)"
  using assms
proof (induction ops arbitrary: hs)
  case (Cons o' ops)
  have "list_all (\<lambda>h. \<not> is_forbidden_request_header (h_name h) (h_value h)) (header_step hs o')"
    using Cons.prems
    by (cases o') (auto simp: header_step_def script_op_def headers_remove_all
        intro!: else_same_all intro: script_ops_all)
  with Cons show ?case by simp
qed simp

text \<open>Page script cannot set a header the browser reserves. A list built by script operations alone
  passes the check every script request makes before it is sent: no forbidden name, no name with the prefix
  proxy- or sec-, and no method override to CONNECT, TRACE or TRACK.\<close>

theorem script_headers_pass_validation:
  assumes "\<forall>o'\<in>set ops. script_op o'"
  shows "validate_script_request (foldl header_step [] ops) = Inr ()"
proof -
  have "find (\<lambda>h. is_forbidden_request_header (h_name h) (h_value h)) (foldl header_step [] ops) = None"
    using script_steps_allowed [OF assms, of "[]"] by (auto simp: find_None_iff list_all_iff)
  then show ?thesis by (simp add: validate_script_request_def)
qed

theorem script_headers_pass_validation_witness:
  "validate_script_request (foldl header_step []
     [SetScript ''X-Token'' ''1'', AppendScript ''Cookie'' ''sid=1'', AppendScript ''X-HTTP-Method'' ''GET, trace'']) = Inr ()
   \<and> foldl header_step []
     [SetScript ''X-Token'' ''1'', AppendScript ''Cookie'' ''sid=1'', AppendScript ''X-HTTP-Method'' ''GET, trace'']
     = [\<lparr>h_name = ''x-token'', h_value = ''1''\<rparr>]"
proof
  show "validate_script_request (foldl header_step []
     [SetScript ''X-Token'' ''1'', AppendScript ''Cookie'' ''sid=1'', AppendScript ''X-HTTP-Method'' ''GET, trace'']) = Inr ()"
    by (rule script_headers_pass_validation) (simp add: script_op_def)
  show "foldl header_step []
     [SetScript ''X-Token'' ''1'', AppendScript ''Cookie'' ''sid=1'', AppendScript ''X-HTTP-Method'' ''GET, trace'']
     = [\<lparr>h_name = ''x-token'', h_value = ''1''\<rparr>]"
    by code_simp
qed

text \<open>\<^verbatim>\<open>u64::from_str\<close> accepts a sign, so a range the Fetch standard does not parse needs no preflight.\<close>

lemma signed_range_is_safelisted:
  "is_cors_safelisted_request_header \<lparr>h_name = ''range'', h_value = ''bytes=+1-''\<rparr>"
proof -
  have "strip_prefix ''bytes=+1-'' ''bytes='' = Some ''+1-''" "split_once (CHR ''-'') ''+1-'' = Some (''+1'', [])"
    by code_simp+
  moreover have "parse_unsigned u64_max ''+1'' = Some 1"
    by (simp add: parse_unsigned_def digit_value_def is_ascii_digit_def byte_def u64_max_eq)
  ultimately show ?thesis
    by (simp add: is_cors_safelisted_request_header_def is_simple_range_header_def)
qed

end
