(* ===== verification/Fetch_Types.thy ===== *)
theory Fetch_Types
  imports Fetch_Headers Recoverable_File
begin

text \<open>
  The small types of the fetch layer: the enums of \<^verbatim>\<open>src/fetch/request.rs\<close>, \<^verbatim>\<open>client.rs\<close>, \<^verbatim>\<open>body.rs\<close>
  (budgeted bodies and their incremental reads), \<^verbatim>\<open>cancellation.rs\<close> and \<^verbatim>\<open>response.rs\<close>.
\<close>

section \<open>Enums\<close>

datatype request_context = NavigationContext | SubresourceContext | PrefetchContext | ScriptContext | WorkerScriptContext

datatype request_destination =
    DocumentDest | ObjectDest | StyleDest | ImageDest | ScriptDest | WorkerDest | FontDest | FetchDest
  | VideoDest | AudioDest

datatype request_mode = NavigateMode | SameOriginMode | NoCorsMode | CorsMode

datatype credentials_mode = OmitCredentials | SameOriginCredentials | IncludeCredentials

datatype redirect_mode = FollowRedirect | ErrorRedirect | ManualRedirect

datatype request_cache = DefaultCache | NoStore | Reload | NoCache | ForceCache | OnlyIfCached

datatype referrer_policy =
    NoReferrerPolicy | NoReferrerWhenDowngrade | SameOriginReferrer | OriginReferrer | StrictOrigin
  | OriginWhenCrossOrigin | StrictOriginWhenCrossOrigin | UnsafeUrl

datatype response_type = Basic | CorsResponse | OpaqueResponse | OpaqueRedirect

text \<open>A reference to a document of the renderer; zero is the top-level document.\<close>

record request_client =
  rc_id :: nat
  rc_opaque :: bool

definition default_client :: request_client where
  "default_client = \<lparr>rc_id = 0, rc_opaque = False\<rparr>"

section \<open>Bodies\<close>

record body =
  b_bytes :: bytes
  b_cursor :: nat
  b_limit :: nat

definition body_empty :: "nat \<Rightarrow> body" where
  "body_empty limit = \<lparr>b_bytes = [], b_cursor = 0, b_limit = limit\<rparr>"

definition body_from_bytes :: "bytes \<Rightarrow> body" where
  "body_from_bytes bs = \<lparr>b_bytes = bs, b_cursor = 0, b_limit = length bs\<rparr>"

definition body_too_large :: "nat \<Rightarrow> fetch_error" where
  "body_too_large limit =
     \<lparr>fe_kind = BodyTooLarge, fe_message = ''response body exceeds its '' @ show_nat limit @ ''-byte budget''\<rparr>"

definition body_push :: "bytes \<Rightarrow> body \<Rightarrow> fetch_error + body" where
  "body_push chunk b =
     (if saturating_add (length (b_bytes b)) (length chunk) > b_limit b then Inl (body_too_large (b_limit b))
      else Inr (b\<lparr>b_bytes := b_bytes b @ chunk\<rparr>))"

definition body_rewind :: "body \<Rightarrow> body" where
  "body_rewind b = b\<lparr>b_cursor := 0\<rparr>"

text \<open>\<^verbatim>\<open>Read::read\<close> into a buffer of the given length: the bytes copied, and the body after it.\<close>

definition body_read :: "nat \<Rightarrow> body \<Rightarrow> bytes \<times> body" where
  "body_read buffer b =
     (let remaining = drop (b_cursor b) (b_bytes b);
          count = min (length remaining) buffer
      in (take count remaining, b\<lparr>b_cursor := b_cursor b + count\<rparr>))"

function body_chunks :: "nat \<Rightarrow> bytes \<Rightarrow> bytes list" where
  "body_chunks n bs =
     (if bs = [] then [] else take (max 1 n) bs # body_chunks n (drop (max 1 n) bs))"
  by pat_completeness auto
termination by (relation "measure (\<lambda>(_, bs). length bs)") auto

declare body_chunks.simps [simp del]

section \<open>Cancellation\<close>

text \<open>
  A controller is a shared flag, named by a number; the flags raised so far are a set. A signal watches the
  flags of one or more controllers.
\<close>

type_synonym fetch_signal = "nat list"

definition controller_signal :: "nat \<Rightarrow> fetch_signal" where
  "controller_signal c = [c]"

definition controller_abort :: "nat \<Rightarrow> nat set \<Rightarrow> nat set" where
  "controller_abort c raised = insert c raised"

definition signal_is_aborted :: "nat set \<Rightarrow> fetch_signal \<Rightarrow> bool" where
  "signal_is_aborted raised s \<longleftrightarrow> list_ex (\<lambda>c. c \<in> raised) s"

definition signal_any :: "fetch_signal \<Rightarrow> fetch_signal \<Rightarrow> fetch_signal" where
  "signal_any s t = s @ t"

definition aborted_error :: fetch_error where
  "aborted_error = \<lparr>fe_kind = Aborted, fe_message = ''request was aborted''\<rparr>"

definition signal_check :: "nat set \<Rightarrow> fetch_signal \<Rightarrow> fetch_error + unit" where
  "signal_check raised s = (if signal_is_aborted raised s then Inl aborted_error else Inr ())"

section \<open>Facts\<close>

lemma signal_any_aborted:
  "signal_is_aborted raised (signal_any s t) \<longleftrightarrow> signal_is_aborted raised s \<or> signal_is_aborted raised t"
  by (simp add: signal_is_aborted_def signal_any_def)

text \<open>Pushes stay within the budget (budgets below the largest \<^verbatim>\<open>usize\<close>).\<close>

lemma body_push_Inr:
  "body_push c b = Inr b' \<Longrightarrow> b_limit b < u64_max \<Longrightarrow>
   b_bytes b' = b_bytes b @ c \<and> b_limit b' = b_limit b \<and> b_cursor b' = b_cursor b \<and> length (b_bytes b') \<le> b_limit b'"
  by (auto simp: body_push_def not_less saturating_add_le split: if_splits)

fun body_push_all :: "bytes list \<Rightarrow> body \<Rightarrow> fetch_error + body" where
  "body_push_all [] b = Inr b"
| "body_push_all (c # cs) b = and_then (body_push c b) (body_push_all cs)"

lemma body_push_all_Inr:
  "body_push_all cs b = Inr b' \<Longrightarrow> b_limit b < u64_max \<Longrightarrow>
   b_bytes b' = b_bytes b @ concat cs \<and> b_limit b' = b_limit b \<and>
   (length (b_bytes b) \<le> b_limit b \<longrightarrow> length (b_bytes b') \<le> b_limit b)"
proof (induction cs arbitrary: b)
  case (Cons c cs)
  then obtain m where m: "body_push c b = Inr m" "body_push_all cs m = Inr b'"
    by (auto simp: result_simps)
  have "b_bytes m = b_bytes b @ c" "b_limit m = b_limit b" "length (b_bytes m) \<le> b_limit m"
    using body_push_Inr [OF m(1) Cons.prems(2)] by auto
  with Cons.IH [OF m(2)] Cons.prems(2) show ?case by auto
qed simp

lemma body_push_all_fits:
  "length (b_bytes b) + length (concat cs) \<le> b_limit b \<Longrightarrow> b_limit b < u64_max \<Longrightarrow>
   \<exists>b'. body_push_all cs b = Inr b'"
proof (induction cs arbitrary: b)
  case (Cons c cs)
  then have "body_push c b = Inr (b\<lparr>b_bytes := b_bytes b @ c\<rparr>)"
    by (simp add: body_push_def not_less saturating_add_le)
  with Cons.IH [of "b\<lparr>b_bytes := b_bytes b @ c\<rparr>"] Cons.prems show ?case by simp
qed simp

lemma body_chunks_concat: "concat (body_chunks n bs) = bs"
  by (induction n bs rule: body_chunks.induct) (subst body_chunks.simps, auto)

lemma body_chunks_length: "c \<in> set (body_chunks n bs) \<Longrightarrow> c \<noteq> [] \<and> length c \<le> max 1 n"
  by (induction n bs rule: body_chunks.induct) (subst (asm) body_chunks.simps, auto split: if_splits)

text \<open>Successive reads deliver the bytes in order and end only at the end of the body.\<close>

fun body_reads :: "nat list \<Rightarrow> body \<Rightarrow> bytes \<times> body" where
  "body_reads [] b = ([], b)"
| "body_reads (n # ns) b =
     (case body_read n b of (out, b') \<Rightarrow> (case body_reads ns b' of (rest, b'') \<Rightarrow> (out @ rest, b'')))"

lemma body_reads_prefix:
  "body_reads ns b = (out, b') \<Longrightarrow> b_cursor b \<le> length (b_bytes b) \<Longrightarrow>
   out = take (sum_list ns) (drop (b_cursor b) (b_bytes b)) \<and> b_bytes b' = b_bytes b \<and>
   b_cursor b' = b_cursor b + length out \<and> b_cursor b' \<le> length (b_bytes b)"
proof (induction ns arbitrary: b out b')
  case (Cons n ns)
  obtain o1 b1 where r: "body_read n b = (o1, b1)" by force
  obtain o2 b2 where rs: "body_reads ns b1 = (o2, b2)" by force
  from r have b1: "o1 = take n (drop (b_cursor b) (b_bytes b))" "b_bytes b1 = b_bytes b"
    "b_cursor b1 = b_cursor b + length o1" "b_cursor b1 \<le> length (b_bytes b)"
    using Cons.prems(2) by (auto simp: body_read_def Let_def min_def)
  from Cons.IH [OF rs] b1 have o2: "o2 = take (sum_list ns) (drop (b_cursor b1) (b_bytes b))"
    "b_bytes b2 = b_bytes b" "b_cursor b2 = b_cursor b1 + length o2" "b_cursor b2 \<le> length (b_bytes b)"
    by auto
  have out: "out = o1 @ o2" "b' = b2" using Cons.prems(1) r rs by auto
  let ?d = "drop (b_cursor b) (b_bytes b)"
  have len: "length o1 = min n (length ?d)"
    by (simp add: b1(1) min.commute)
  have "drop (b_cursor b1) (b_bytes b) = drop n ?d"
    using len by (cases "n \<le> length ?d") (simp_all add: b1(3) add.commute)
  then have eq: "take (n + sum_list ns) ?d = o1 @ o2"
    by (simp add: take_add b1(1) o2(1))
  have "b_cursor b2 = b_cursor b + length (o1 @ o2)"
    by (simp add: o2(3) b1(3))
  with out eq o2(2,4) show ?case by simp
qed simp

end
