(* ===== verification/Csp_Sources.thy ===== *)
theory Csp_Sources
  imports Fetch_Types
begin

text \<open>
  \<^verbatim>\<open>src/fetch/csp/sources.rs\<close>: which source expressions of a Content Security Policy are recognised, and
  which URLs and inline sources they match. The digest and base64 crates are parameters.
\<close>

section \<open>The digest and base64 crates\<close>

record digest_crates =
  dc_sha256 :: "bytes \<Rightarrow> bytes"
  dc_sha384 :: "bytes \<Rightarrow> bytes"
  dc_sha512 :: "bytes \<Rightarrow> bytes"
  dc_encode :: "bytes \<Rightarrow> string" \<comment> \<open>\<^verbatim>\<open>STANDARD.encode\<close>\<close>
  dc_decode :: "bytes \<Rightarrow> bytes option" \<comment> \<open>\<^verbatim>\<open>STANDARD.decode\<close>\<close>
  dc_decode_no_pad :: "bytes \<Rightarrow> bytes option" \<comment> \<open>\<^verbatim>\<open>STANDARD_NO_PAD.decode\<close>\<close>

definition as_bytes :: "string \<Rightarrow> bytes" where
  "as_bytes s = map (\<lambda>c. word_of_nat (byte c)) s"

definition url_safe_to_standard :: "string \<Rightarrow> string" where
  "url_safe_to_standard s =
     map (\<lambda>c. if c = CHR ''_'' then CHR ''/'' else c) (map (\<lambda>c. if c = CHR ''-'' then CHR ''+'' else c) s)"

section \<open>String helpers of the standard library\<close>

fun split_once_str :: "string \<Rightarrow> string \<Rightarrow> (string \<times> string) option" where
  "split_once_str p [] = (if p = [] then Some ([], []) else None)"
| "split_once_str p (c # s) =
     (if starts_with (c # s) p then Some ([], drop (length p) (c # s))
      else map_option (\<lambda>(a, b). (c # a, b)) (split_once_str p s))"

definition is_ascii_whitespace :: "char \<Rightarrow> bool" where
  "is_ascii_whitespace c \<longleftrightarrow> c \<in> set [CHR '' '', CHR 0x09, CHR 0x0A, CHR 0x0C, CHR 0x0D]"

definition split_ascii_whitespace :: "string \<Rightarrow> string list" where
  "split_ascii_whitespace s = filter (\<lambda>w. w \<noteq> []) (split_by is_ascii_whitespace s)"

definition is_ascii_alphabetic :: "char \<Rightarrow> bool" where
  "is_ascii_alphabetic c \<longleftrightarrow> 65 \<le> byte c \<and> byte c \<le> 90 \<or> 97 \<le> byte c \<and> byte c \<le> 122"

definition hex_digit :: "char \<Rightarrow> nat option" where
  "hex_digit c =
     (if is_ascii_digit c then Some (byte c - 48)
      else if 97 \<le> byte c \<and> byte c \<le> 102 then Some (byte c - 87)
      else if 65 \<le> byte c \<and> byte c \<le> 70 then Some (byte c - 55)
      else None)"

fun percent_decode :: "string \<Rightarrow> string" where
  "percent_decode (c # a # b # s) =
     (if c = CHR ''%'' then
        (case (hex_digit a, hex_digit b) of
           (Some x, Some y) \<Rightarrow> char_of (x * 16 + y) # percent_decode s
         | _ \<Rightarrow> c # percent_decode (a # b # s))
      else c # percent_decode (a # b # s))"
| "percent_decode s = s"

section \<open>Recognised expressions\<close>

definition valid_base64_value :: "string \<Rightarrow> bool" where
  "valid_base64_value v =
     (let unpadded = rev (dropWhile (\<lambda>c. c = CHR ''='') (rev v))
      in unpadded \<noteq> [] \<and> length v \<le> 256 \<and> length v - length unpadded \<le> 2 \<and>
         list_all (\<lambda>c. is_ascii_alphanumeric c \<or> c \<in> set ''+/-_'') unpadded)"

definition nonce_value :: "string \<Rightarrow> string option" where
  "nonce_value source =
     (case strip_prefix source (CHR 0x27 # ''nonce-'') of
        None \<Rightarrow> None
      | Some rest \<Rightarrow>
          (case strip_suffix rest [CHR 0x27] of
             None \<Rightarrow> None
           | Some v \<Rightarrow> if valid_base64_value v then Some v else None))"

definition hash_parts :: "string \<Rightarrow> (string \<times> string) option" where
  "hash_parts source =
     (case strip_prefix source [CHR 0x27] of
        None \<Rightarrow> None
      | Some rest \<Rightarrow>
          (case strip_suffix rest [CHR 0x27] of
             None \<Rightarrow> None
           | Some inner \<Rightarrow>
               (case split_once (CHR ''-'') inner of
                  None \<Rightarrow> None
                | Some (algorithm, v) \<Rightarrow>
                    if list_ex (eq_ignore_ascii_case algorithm) [''sha256'', ''sha384'', ''sha512'']
                       \<and> valid_base64_value v
                    then Some (algorithm, v) else None)))"

definition hash_source :: "string \<Rightarrow> bool" where
  "hash_source source \<longleftrightarrow> hash_parts source \<noteq> None"

definition hash_matches :: "digest_crates \<Rightarrow> string \<Rightarrow> string \<Rightarrow> bool" where
  "hash_matches D expression source =
     (case hash_parts expression of
        None \<Rightarrow> False
      | Some (algorithm, expected) \<Rightarrow>
          let digest = (if eq_ignore_ascii_case algorithm ''sha256'' then dc_sha256 D (as_bytes source)
                        else if eq_ignore_ascii_case algorithm ''sha384'' then dc_sha384 D (as_bytes source)
                        else dc_sha512 D (as_bytes source))
          in dc_encode D digest = url_safe_to_standard expected)"

definition valid_scheme :: "string \<Rightarrow> bool" where
  "valid_scheme s \<longleftrightarrow>
     (case s of [] \<Rightarrow> False | c # _ \<Rightarrow> is_ascii_alphabetic c) \<and>
     list_all (\<lambda>c. is_ascii_alphanumeric c \<or> c \<in> set ''+-.'') s"

definition u16_parse :: "string \<Rightarrow> nat option" where
  "u16_parse s = parse_unsigned 65535 s"

definition host_parts :: "string \<Rightarrow> string \<Rightarrow> (string \<times> string \<times> string option \<times> string) option" where
  "host_parts source default_scheme =
     (case (case split_once_str ''://'' source of None \<Rightarrow> (default_scheme, source) | Some p \<Rightarrow> p) of
        (sch, rest) \<Rightarrow>
          if \<not> valid_scheme sch then None
          else
            (case (case split_once (CHR ''/'') rest of None \<Rightarrow> (rest, []) | Some (a, b) \<Rightarrow> (a, CHR ''/'' # b)) of
               (authority, path) \<Rightarrow>
                 (case (case split_once (CHR '':'') authority of
                          None \<Rightarrow> (authority, None) | Some (h, p) \<Rightarrow> (h, Some p)) of
                    (h, p) \<Rightarrow>
                      if h = [] \<or> \<not> list_all (\<lambda>c. is_ascii_alphanumeric c \<or> c \<in> set ''-.*'') h then None
                      else if CHR ''*'' \<in> set h \<and> h \<noteq> ''*''
                              \<and> (\<not> starts_with h ''*.'' \<or> CHR ''*'' \<in> set (drop 2 h)) then None
                      else if (case p of None \<Rightarrow> False | Some prt \<Rightarrow> prt \<noteq> ''*'' \<and> u16_parse prt = None) then None
                      else Some (sch, h, p, path))))"

definition source_keywords :: "string list" where
  "source_keywords =
     map (\<lambda>k. CHR 0x27 # k @ [CHR 0x27])
       [''none'', ''self'', ''unsafe-inline'', ''unsafe-eval'', ''strict-dynamic'', ''report-sample'']"

definition supported :: "string \<Rightarrow> bool" where
  "supported source =
     (let lower = to_ascii_lowercase source
      in if lower \<in> set source_keywords \<or> lower = ''*'' then True
         else if nonce_value source \<noteq> None \<or> hash_source source then True
         else if list_ex (\<lambda>c. c \<in> set [CHR 0x27, CHR 0x22, CHR ''@'', CHR ''?'', CHR ''#'', CHR 0x5c]) source
                 \<or> \<not> is_ascii source then False
         else case strip_suffix source '':'' of
           Some sch \<Rightarrow> valid_scheme sch
         | None \<Rightarrow> host_parts source ''https'' \<noteq> None)"

section \<open>Matching a URL\<close>

definition host_str :: "url \<Rightarrow> string option" where
  "host_str u =
     (case u_host u of
        None \<Rightarrow> None
      | Some (Domain d) \<Rightarrow> Some d
      | Some (Ipv4 a) \<Rightarrow> Some a
      | Some (Ipv6 a) \<Rightarrow> Some (''['' @ a @ '']''))"

definition same_url_origin :: "url \<Rightarrow> url \<Rightarrow> bool" where
  "same_url_origin u v =
     (case (u_origin u, u_origin v) of (Some a, Some b) \<Rightarrow> a = b | _ \<Rightarrow> False)"

definition scheme_matches :: "string \<Rightarrow> string \<Rightarrow> bool" where
  "scheme_matches source target \<longleftrightarrow>
     eq_ignore_ascii_case source target
     \<or> to_ascii_lowercase source = ''http'' \<and> target = ''https''
     \<or> to_ascii_lowercase source = ''ws'' \<and> target \<in> {''wss'', ''http'', ''https''}"

definition host_matches :: "string \<Rightarrow> string \<Rightarrow> bool" where
  "host_matches h actual =
     (if h = ''*'' then True
      else case strip_prefix h ''*.'' of
        Some suffix \<Rightarrow> length actual > length suffix + 1 \<and>
          ends_with (to_ascii_lowercase actual) (CHR ''.'' # to_ascii_lowercase suffix)
      | None \<Rightarrow> eq_ignore_ascii_case actual h)"

definition port_matches :: "string option \<Rightarrow> url \<Rightarrow> bool" where
  "port_matches prt u =
     (if prt = Some ''*'' then True
      else case Option.bind prt u16_parse of
        Some expected \<Rightarrow>
          u_port u = Some expected \<or> expected = 80 \<and> u_scheme u = ''https'' \<and> u_explicit_port u = None
      | None \<Rightarrow> u_explicit_port u = None)"

definition path_matches :: "string \<Rightarrow> string \<Rightarrow> bool" where
  "path_matches path target =
     (let wanted = split_on (CHR ''/'') path;
          actual = split_on (CHR ''/'') target;
          prefix = ends_with path ''/'';
          n = length wanted - (if prefix then 1 else 0)
      in if length actual < n \<or> \<not> prefix \<and> length actual \<noteq> n then False
         else list_all (\<lambda>(a, b). percent_decode a = percent_decode b) (zip (take n wanted) actual))"

definition self_keyword :: string where
  "self_keyword = CHR 0x27 # ''self'' @ [CHR 0x27]"

definition source_matches :: "string \<Rightarrow> url \<Rightarrow> url \<Rightarrow> nat \<Rightarrow> bool" where
  "source_matches source u org redirects =
     (if eq_ignore_ascii_case source self_keyword then
        (if u_scheme u = ''blob'' then False
         else same_url_origin u org
              \<or> host_str org = host_str u \<and> u_explicit_port org = u_explicit_port u
                \<and> (u_scheme u \<in> {''https'', ''wss''} \<or> u_scheme org = ''http'' \<and> u_scheme u \<in> {''http'', ''ws''}))
      else if source = ''*'' then
        u_scheme u \<in> {''http'', ''https'', ''ws'', ''wss'', ''ftp''} \<or> u_scheme u = u_scheme org
      else if starts_with source [CHR 0x27] then False
      else case strip_suffix source '':'' of
        Some sch \<Rightarrow> scheme_matches sch (u_scheme u)
      | None \<Rightarrow>
          (case host_parts source (u_scheme org) of
             None \<Rightarrow> False
           | Some (sch, h, prt, path) \<Rightarrow>
               if \<not> scheme_matches sch (u_scheme u) then False
               else case host_str u of
                 None \<Rightarrow> False
               | Some actual \<Rightarrow>
                   if \<not> host_matches h actual then False
                   else if \<not> port_matches prt u then False
                   else if redirects > 0 \<or> path = [] then True
                   else path_matches path (u_path u)))"

end
