(* ===== verification/Csp.thy ===== *)
theory Csp
  imports Csp_Sources Sample_Urls
begin

text \<open>
  \<^verbatim>\<open>src/fetch/csp.rs\<close> and \<^verbatim>\<open>src/fetch/csp/inline.rs\<close>: policies as parsed from headers and meta elements, the
  container a document carries, and the admission of requests, scripts, styles and inline code.
\<close>

section \<open>Policies\<close>

record csp_policy =
  p_origin :: url
  p_serialized :: string
  p_directives :: "string \<rightharpoonup> string list"
  p_mixed_content :: bool

type_synonym policy_container = "csp_policy list"

record script_source =
  ss_nonce :: "string option"
  ss_parser_inserted :: bool

definition default_script_source :: script_source where
  "default_script_source = \<lparr>ss_nonce = None, ss_parser_inserted = True\<rparr>"

definition network_error :: "string \<Rightarrow> fetch_error" where
  "network_error m = \<lparr>fe_kind = Network, fe_message = m\<rparr>"

definition unsupported :: "string \<Rightarrow> fetch_error" where
  "unsupported feature =
     network_error (''Content Security Policy requires unsupported '' @ feature @ ''; child document refused'')"

definition source_list_directives :: "string list" where
  "source_list_directives =
     [''default-src'', ''script-src'', ''script-src-elem'', ''script-src-attr'', ''style-src'', ''style-src-elem'',
      ''style-src-attr'', ''connect-src'', ''img-src'', ''font-src'', ''media-src'', ''manifest-src'', ''object-src'',
      ''child-src'', ''frame-src'', ''worker-src'', ''base-uri'', ''form-action'', ''frame-ancestors'']"

definition refused_directives :: "string list" where
  "refused_directives =
     [''sandbox'', ''upgrade-insecure-requests'', ''require-trusted-types-for'', ''trusted-types'', ''navigate-to'',
      ''webrtc'']"

definition insert_directive :: "string \<Rightarrow> string list \<Rightarrow> csp_policy \<Rightarrow> csp_policy" where
  "insert_directive name vs p = p\<lparr>p_directives := (p_directives p)(name \<mapsto> vs)\<rparr>"

text \<open>One round of the loop of \<^verbatim>\<open>parse_policy\<close> over the directives of the text.\<close>

definition parse_directive :: "bool \<Rightarrow> string \<Rightarrow> csp_policy \<Rightarrow> fetch_error + csp_policy" where
  "parse_directive from_meta directive p =
     (case split_ascii_whitespace directive of
        [] \<Rightarrow> Inr p
      | name0 # vs \<Rightarrow>
          let name = to_ascii_lowercase name0
          in if p_directives p name \<noteq> None then Inr p
             else if from_meta \<and> name \<in> {''report-uri'', ''frame-ancestors'', ''sandbox''} then Inr p
             else if name = ''block-all-mixed-content''
             then Inr (insert_directive name vs (p\<lparr>p_mixed_content := True\<rparr>))
             else if name = ''report-uri'' \<or> name = ''report-to'' then Inr p
             else if name \<notin> set source_list_directives
             then (if name \<in> set refused_directives then Inl (unsupported name) else Inr p)
             else Inr (insert_directive name (filter supported vs) p))"

fun parse_directives :: "bool \<Rightarrow> string list \<Rightarrow> csp_policy \<Rightarrow> fetch_error + csp_policy" where
  "parse_directives from_meta [] p = Inr p"
| "parse_directives from_meta (d # ds) p = and_then (parse_directive from_meta d p) (parse_directives from_meta ds)"

definition parse_policy ::
  "'u url_crate_scheme \<Rightarrow> string \<Rightarrow> string \<Rightarrow> bool \<Rightarrow> fetch_error + csp_policy" where
  "parse_policy U address serialized from_meta =
     and_then (map_err (\<lambda>_. unsupported ''origin URL'') (url_parse U address)) (\<lambda>org.
       parse_directives from_meta (split_on (CHR '';'') serialized)
         \<lparr>p_origin = org, p_serialized = trim serialized, p_directives = Map.empty, p_mixed_content = False\<rparr>)"

definition MAX_POLICIES :: nat where [limit_simps]: "MAX_POLICIES = 32"

fun parse_all :: "'u url_crate_scheme \<Rightarrow> string \<Rightarrow> string list \<Rightarrow> fetch_error + policy_container" where
  "parse_all U address [] = Inr []"
| "parse_all U address (s # ss) =
     and_then (parse_policy U address s False) (\<lambda>p. and_then (parse_all U address ss) (\<lambda>ps. Inr (p # ps)))"

definition from_serialized_policies ::
  "'u url_crate_scheme \<Rightarrow> string \<Rightarrow> string list \<Rightarrow> fetch_error + policy_container" where
  "from_serialized_policies U address texts =
     (if length texts > MAX_POLICIES then Inl (unsupported ''policy count'') else parse_all U address texts)"

fun push_policies ::
  "'u url_crate_scheme \<Rightarrow> string \<Rightarrow> string list \<Rightarrow> policy_container \<Rightarrow> fetch_error + policy_container" where
  "push_policies U address [] ps = Inr ps"
| "push_policies U address (s # ss) ps =
     (if length ps \<ge> MAX_POLICIES then Inl (unsupported ''policy count'')
      else and_then (parse_policy U address s False) (\<lambda>p. push_policies U address ss (ps @ [p])))"

definition from_headers :: "'u url_crate_scheme \<Rightarrow> string \<Rightarrow> header_list \<Rightarrow> fetch_error + policy_container" where
  "from_headers U address hs =
     push_policies U address
       (concat (map (split_on (CHR '','')) (headers_values hs ''content-security-policy''))) []"

definition append_meta ::
  "'u url_crate_scheme \<Rightarrow> string \<Rightarrow> string \<Rightarrow> policy_container \<Rightarrow> fetch_error + policy_container" where
  "append_meta U address serialized ps =
     (if length ps \<ge> MAX_POLICIES then Inl (unsupported ''policy count'')
      else and_then (parse_policy U address serialized True) (\<lambda>p. Inr (ps @ [p])))"

section \<open>Source lists\<close>

definition fallback_names :: "string \<Rightarrow> string list" where
  "fallback_names name =
     (if name = ''script-src-elem'' then [''script-src-elem'', ''script-src'', ''default-src'']
      else if name = ''script-src-attr'' then [''script-src-attr'', ''script-src'', ''default-src'']
      else if name = ''style-src-elem'' then [''style-src-elem'', ''style-src'', ''default-src'']
      else if name = ''style-src-attr'' then [''style-src-attr'', ''style-src'', ''default-src'']
      else if name = ''frame-src'' then [''frame-src'', ''child-src'', ''default-src'']
      else if name = ''worker-src'' then [''worker-src'', ''child-src'', ''script-src'', ''default-src'']
      else if name \<in> {''base-uri'', ''form-action'', ''frame-ancestors''} then [name]
      else [name, ''default-src''])"

definition policy_list :: "csp_policy \<Rightarrow> string \<Rightarrow> string list option" where
  "policy_list p name = find_map (p_directives p) (fallback_names name)"

definition is_none_or :: "'a option \<Rightarrow> ('a \<Rightarrow> bool) \<Rightarrow> bool" where
  "is_none_or x f = (case x of None \<Rightarrow> True | Some y \<Rightarrow> f y)"

definition has_keyword :: "string list \<Rightarrow> string \<Rightarrow> bool" where
  "has_keyword vs keyword \<longleftrightarrow> list_ex (\<lambda>s. eq_ignore_ascii_case s (CHR 0x27 # keyword @ [CHR 0x27])) vs"

definition nonce_matches :: "string list \<Rightarrow> string option \<Rightarrow> bool" where
  "nonce_matches vs nonce =
     (case nonce of None \<Rightarrow> False | Some n \<Rightarrow> n \<noteq> [] \<and> list_ex (\<lambda>s. nonce_value s = Some n) vs)"

section \<open>URLs\<close>

definition blocks_mixed :: "csp_policy \<Rightarrow> url \<Rightarrow> bool" where
  "blocks_mixed p u \<longleftrightarrow> p_mixed_content p \<and> u_scheme (p_origin p) = ''https'' \<and> u_scheme u = ''http''"

definition matches_any :: "csp_policy \<Rightarrow> url \<Rightarrow> nat \<Rightarrow> string list \<Rightarrow> bool" where
  "matches_any p u redirects vs \<longleftrightarrow> list_ex (\<lambda>s. source_matches s u (p_origin p) redirects) vs"

definition policy_allows_script_url :: "csp_policy \<Rightarrow> string \<Rightarrow> url \<Rightarrow> nat \<Rightarrow> script_source \<Rightarrow> bool" where
  "policy_allows_script_url p directive u redirects script =
     (if blocks_mixed p u then False
      else is_none_or (policy_list p directive) (\<lambda>vs.
        if nonce_matches vs (ss_nonce script) then True
        else if has_keyword vs ''strict-dynamic'' then \<not> ss_parser_inserted script
        else matches_any p u redirects vs))"

definition allows_script_url ::
  "'u url_crate_scheme \<Rightarrow> policy_container \<Rightarrow> string \<Rightarrow> string \<Rightarrow> nat \<Rightarrow> script_source \<Rightarrow> bool" where
  "allows_script_url U ps directive address redirects script =
     (case url_parse U address of
        Inl _ \<Rightarrow> False
      | Inr u \<Rightarrow> list_all (\<lambda>p. policy_allows_script_url p directive u redirects script) ps)"

definition script_url_violations ::
  "'u url_crate_scheme \<Rightarrow> policy_container \<Rightarrow> string \<Rightarrow> string \<Rightarrow> nat \<Rightarrow> script_source \<Rightarrow> string list" where
  "script_url_violations U ps directive address redirects script =
     (case url_parse U address of
        Inl _ \<Rightarrow> []
      | Inr u \<Rightarrow> map p_serialized
          (filter (\<lambda>p. \<not> policy_allows_script_url p directive u redirects script) ps))"

definition policy_allows_url :: "csp_policy \<Rightarrow> string \<Rightarrow> url \<Rightarrow> nat \<Rightarrow> bool" where
  "policy_allows_url p directive u redirects \<longleftrightarrow>
     \<not> blocks_mixed p u \<and> is_none_or (policy_list p directive) (matches_any p u redirects)"

definition allows_url ::
  "'u url_crate_scheme \<Rightarrow> policy_container \<Rightarrow> string \<Rightarrow> string \<Rightarrow> nat \<Rightarrow> bool" where
  "allows_url U ps directive address redirects =
     (if directive = ''script-src'' \<or> directive = ''script-src-elem''
      then allows_script_url U ps directive address redirects default_script_source
      else case url_parse U address of
        Inl _ \<Rightarrow> False
      | Inr u \<Rightarrow> list_all (\<lambda>p. policy_allows_url p directive u redirects) ps)"

definition fetch_directives :: "string list" where
  "fetch_directives =
     [''child-src'', ''connect-src'', ''font-src'', ''frame-src'', ''img-src'', ''manifest-src'', ''media-src'',
      ''object-src'', ''script-src'', ''script-src-elem'', ''style-src'', ''style-src-elem'', ''worker-src'']"

definition policy_allows_hint :: "csp_policy \<Rightarrow> url \<Rightarrow> bool" where
  "policy_allows_hint p u =
     (if blocks_mixed p u then False
      else if p_directives p ''default-src'' = None then True
      else list_ex (\<lambda>name. case p_directives p name of None \<Rightarrow> False | Some vs \<Rightarrow> matches_any p u 0 vs)
             fetch_directives)"

definition allows_resource_hint :: "'u url_crate_scheme \<Rightarrow> policy_container \<Rightarrow> string \<Rightarrow> bool" where
  "allows_resource_hint U ps address =
     (case url_parse U address of Inl _ \<Rightarrow> False | Inr u \<Rightarrow> list_all (\<lambda>p. policy_allows_hint p u) ps)"

definition destination_directive :: "request_destination \<Rightarrow> string" where
  "destination_directive d =
     (case d of
        DocumentDest \<Rightarrow> ''frame-src''
      | ObjectDest \<Rightarrow> ''object-src''
      | ScriptDest \<Rightarrow> ''script-src-elem''
      | WorkerDest \<Rightarrow> ''worker-src''
      | FetchDest \<Rightarrow> ''connect-src''
      | StyleDest \<Rightarrow> ''style-src-elem''
      | ImageDest \<Rightarrow> ''img-src''
      | FontDest \<Rightarrow> ''font-src''
      | VideoDest \<Rightarrow> ''media-src''
      | AudioDest \<Rightarrow> ''media-src'')"

definition check_request_with_script ::
  "'u url_crate_scheme \<Rightarrow> policy_container \<Rightarrow> request_destination \<Rightarrow> string \<Rightarrow> nat \<Rightarrow> script_source option \<Rightarrow>
   fetch_error + unit" where
  "check_request_with_script U ps destination address redirects script =
     (let directive = destination_directive destination;
          allowed =
            (if destination = ScriptDest
             then allows_script_url U ps directive address redirects
                    (case script of None \<Rightarrow> default_script_source | Some s \<Rightarrow> s)
             else allows_url U ps directive address redirects)
      in if allowed then Inr ()
         else Inl (network_error (''Content Security Policy blocked '' @ directive @ '' request'')))"

definition check_request ::
  "'u url_crate_scheme \<Rightarrow> policy_container \<Rightarrow> request_destination \<Rightarrow> string \<Rightarrow> nat \<Rightarrow> fetch_error + unit" where
  "check_request U ps destination address redirects =
     check_request_with_script U ps destination address redirects None"

section \<open>Keywords and inline code\<close>

definition allows_keyword :: "policy_container \<Rightarrow> string \<Rightarrow> string \<Rightarrow> bool" where
  "allows_keyword ps directive keyword \<longleftrightarrow>
     list_all (\<lambda>p. is_none_or (policy_list p directive) (\<lambda>vs. has_keyword vs keyword)) ps"

definition allows_eval :: "policy_container \<Rightarrow> bool" where
  "allows_eval ps = allows_keyword ps ''script-src'' ''unsafe-eval''"

definition nonce_or_hash :: "string list \<Rightarrow> bool" where
  "nonce_or_hash vs \<longleftrightarrow> list_ex (\<lambda>s. nonce_value s \<noteq> None \<or> hash_source s) vs"

definition allows_style_inline :: "policy_container \<Rightarrow> bool" where
  "allows_style_inline ps \<longleftrightarrow>
     list_all (\<lambda>p. is_none_or (policy_list p ''style-src-elem'')
       (\<lambda>vs. \<not> nonce_or_hash vs \<and> has_keyword vs ''unsafe-inline'')) ps"

definition checks_ancestors :: "policy_container \<Rightarrow> bool" where
  "checks_ancestors ps \<longleftrightarrow> list_ex (\<lambda>p. p_directives p ''frame-ancestors'' \<noteq> None) ps"

datatype inline_type = ScriptElement bool | ScriptAttribute

fun inline_directive :: "inline_type \<Rightarrow> string" where
  "inline_directive (ScriptElement _) = ''script-src-elem''"
| "inline_directive ScriptAttribute = ''script-src-attr''"

fun is_element :: "inline_type \<Rightarrow> bool" where
  "is_element (ScriptElement _) = True"
| "is_element ScriptAttribute = False"

definition matches_inline ::
  "digest_crates \<Rightarrow> string list \<Rightarrow> inline_type \<Rightarrow> string option \<Rightarrow> string option \<Rightarrow> bool" where
  "matches_inline D vs kind nonce source =
     (let strict_dynamic = has_keyword vs ''strict-dynamic''
      in if \<not> strict_dynamic \<and> \<not> nonce_or_hash vs \<and> has_keyword vs ''unsafe-inline'' then True
         else if is_element kind \<and> nonce_matches vs nonce then True
         else if kind = ScriptElement False \<and> strict_dynamic then True
         else is_element kind \<and>
              (case source of None \<Rightarrow> False | Some s \<Rightarrow> list_ex (\<lambda>e. hash_matches D e s) vs))"

definition allows_inline_source ::
  "digest_crates \<Rightarrow> policy_container \<Rightarrow> inline_type \<Rightarrow> string option \<Rightarrow> string option \<Rightarrow> bool" where
  "allows_inline_source D ps kind nonce source \<longleftrightarrow>
     list_all (\<lambda>p. is_none_or (policy_list p (inline_directive kind))
       (\<lambda>vs. matches_inline D vs kind nonce source)) ps"

definition allows_inline_with_nonce :: "digest_crates \<Rightarrow> policy_container \<Rightarrow> bool \<Rightarrow> string option \<Rightarrow> bool" where
  "allows_inline_with_nonce D ps attribute nonce =
     allows_inline_source D ps (if attribute then ScriptAttribute else ScriptElement True) nonce None"

definition allows_inline :: "digest_crates \<Rightarrow> policy_container \<Rightarrow> bool \<Rightarrow> bool" where
  "allows_inline D ps attribute = allows_inline_with_nonce D ps attribute None"

definition allows_inline_script ::
  "digest_crates \<Rightarrow> policy_container \<Rightarrow> string option \<Rightarrow> string \<Rightarrow> bool \<Rightarrow> bool" where
  "allows_inline_script D ps nonce source parser_inserted =
     allows_inline_source D ps (ScriptElement parser_inserted) nonce (Some source)"

record inline_violation =
  iv_original_policy :: string
  iv_report_sample :: bool

definition inline_script_violations_for_source ::
  "digest_crates \<Rightarrow> policy_container \<Rightarrow> string option \<Rightarrow> string option \<Rightarrow> bool \<Rightarrow> inline_violation list" where
  "inline_script_violations_for_source D ps nonce source parser_inserted =
     List.map_filter (\<lambda>p.
       case policy_list p ''script-src-elem'' of
         None \<Rightarrow> None
       | Some vs \<Rightarrow>
           if matches_inline D vs (ScriptElement parser_inserted) nonce source then None
           else Some \<lparr>iv_original_policy = p_serialized p, iv_report_sample = has_keyword vs ''report-sample''\<rparr>) ps"

definition inline_script_violations :: "digest_crates \<Rightarrow> policy_container \<Rightarrow> string option \<Rightarrow> inline_violation list" where
  "inline_script_violations D ps nonce = inline_script_violations_for_source D ps nonce None True"

section \<open>Facts\<close>

text \<open>Every question is a conjunction over the policies of a container.\<close>

lemmas csp_questions = allows_script_url_def allows_url_def allows_resource_hint_def allows_keyword_def
  allows_eval_def allows_style_inline_def allows_inline_source_def

lemma check_request_Inr:
  "check_request_with_script U ps d address r script = Inr () \<longleftrightarrow>
   (if d = ScriptDest
    then allows_script_url U ps (destination_directive d) address r
           (case script of None \<Rightarrow> default_script_source | Some s \<Rightarrow> s)
    else allows_url U ps (destination_directive d) address r)"
  by (simp add: check_request_with_script_def Let_def)

lemma append_meta_Inr:
  "append_meta U address s ps = Inr ps' \<Longrightarrow> \<exists>p. ps' = ps @ [p] \<and> parse_policy U address s True = Inr p"
  by (auto simp: append_meta_def result_simps split: if_splits)

lemma questions_append:
  "allows_script_url U (ps @ qs) dir a r s \<longleftrightarrow> allows_script_url U ps dir a r s \<and> allows_script_url U qs dir a r s"
  "allows_url U (ps @ qs) dir a r \<longleftrightarrow> allows_url U ps dir a r \<and> allows_url U qs dir a r"
  "allows_resource_hint U (ps @ qs) a \<longleftrightarrow> allows_resource_hint U ps a \<and> allows_resource_hint U qs a"
  "allows_inline_source D (ps @ qs) k n src \<longleftrightarrow> allows_inline_source D ps k n src \<and> allows_inline_source D qs k n src"
  "allows_eval (ps @ qs) \<longleftrightarrow> allows_eval ps \<and> allows_eval qs"
  "allows_style_inline (ps @ qs) \<longleftrightarrow> allows_style_inline ps \<and> allows_style_inline qs"
  by (auto simp: csp_questions split: sum.splits)

lemma check_request_append:
  "check_request_with_script U (ps @ qs) d a r s = Inr () \<longleftrightarrow>
   check_request_with_script U ps d a r s = Inr () \<and> check_request_with_script U qs d a r s = Inr ()"
  by (simp add: check_request_Inr questions_append)

lemma map_filter_Nil: "List.map_filter f xs = [] \<longleftrightarrow> (\<forall>x\<in>set xs. f x = None)"
  by (induction xs) (auto simp: List.map_filter_simps split: option.splits)

text \<open>The directives of a policy text, as pairs of a lower-case name and its expressions.\<close>

definition directive_pairs :: "string \<Rightarrow> (string \<times> string list) list" where
  "directive_pairs serialized =
     List.map_filter (\<lambda>d. case split_ascii_whitespace d of [] \<Rightarrow> None | n # vs \<Rightarrow> Some (to_ascii_lowercase n, vs))
       (split_on (CHR '';'') serialized)"

lemma source_lists_disjoint:
  "name \<in> set source_list_directives \<Longrightarrow>
   name \<notin> set refused_directives \<and> name \<noteq> ''block-all-mixed-content'' \<and> name \<noteq> ''report-uri'' \<and> name \<noteq> ''report-to'' \<and>
   name \<noteq> ''sandbox''"
  by (auto simp: source_list_directives_def refused_directives_def)

lemma parse_directive_lists:
  assumes "parse_directive m d p = Inr p'" "name \<in> set source_list_directives" "\<not> (m \<and> name = ''frame-ancestors'')"
  shows "p_directives p' name =
    (case p_directives p name of
       Some vs \<Rightarrow> Some vs
     | None \<Rightarrow> (case split_ascii_whitespace d of
         [] \<Rightarrow> None
       | n # vs \<Rightarrow> if to_ascii_lowercase n = name then Some (filter supported vs) else None))"
  using assms(1,3) source_lists_disjoint [OF assms(2)] assms(2)
  by (auto simp: parse_directive_def insert_directive_def Let_def split: list.splits if_splits option.splits)

lemma parse_directives_lists:
  assumes "parse_directives m ds p = Inr p'" "name \<in> set source_list_directives" "\<not> (m \<and> name = ''frame-ancestors'')"
  shows "p_directives p' name =
    (case p_directives p name of
       Some vs \<Rightarrow> Some vs
     | None \<Rightarrow> map_option (filter supported) (map_of (List.map_filter
         (\<lambda>d. case split_ascii_whitespace d of [] \<Rightarrow> None | n # vs \<Rightarrow> Some (to_ascii_lowercase n, vs)) ds) name))"
  using assms(1)
proof (induction ds arbitrary: p)
  case Nil
  then show ?case by (simp add: List.map_filter_simps split: option.splits)
next
  case (Cons d ds)
  then obtain q where q: "parse_directive m d p = Inr q" "parse_directives m ds q = Inr p'"
    by (auto simp: result_simps)
  from parse_directive_lists [OF q(1) assms(2,3)] Cons.IH [OF q(2)] show ?case
    by (auto simp: List.map_filter_simps split: option.splits list.splits)
qed

section \<open>Properties\<close>

text \<open>Of a policy text the first directive with a name counts, and only its recognised source
  expressions. For every source-list directive that parsing honours (a meta element cannot set
  frame-ancestors), the list kept is the one after the first occurrence of the name in the text, in any letter
  case, without the expressions the browser does not support; later duplicates, unknown directives and
  reporting directives change nothing.\<close>

theorem parsed_policy_keeps_first_directives:
  assumes "parse_policy U address serialized from_meta = Inr p" "name \<in> set source_list_directives"
    and "\<not> (from_meta \<and> name = ''frame-ancestors'')"
  shows "p_directives p name = map_option (filter supported) (map_of (directive_pairs serialized) name)"
proof -
  from assms(1) obtain org where
    "parse_directives from_meta (split_on (CHR '';'') serialized)
       \<lparr>p_origin = org, p_serialized = trim serialized, p_directives = Map.empty, p_mixed_content = False\<rparr> = Inr p"
    by (auto simp: parse_policy_def result_simps)
  from parse_directives_lists [OF this assms(2,3)] show ?thesis by (simp add: directive_pairs_def)
qed

definition sample_policy_text :: string where
  "sample_policy_text = ''IMG-src https://a.example/pics/ a@b; img-src *; future-directive x''"

lemma sample_policy_parses:
  "case parse_policy sample_crate ''https://a.example/'' sample_policy_text False of
     Inl _ \<Rightarrow> False | Inr p \<Rightarrow> p_directives p ''img-src'' = Some [''https://a.example/pics/'']"
  by code_simp

theorem parsed_policy_keeps_first_directives_witness:
  "case parse_policy sample_crate ''https://a.example/'' sample_policy_text False of
     Inl _ \<Rightarrow> False
   | Inr p \<Rightarrow> p_directives p ''img-src'' = Some [''https://a.example/pics/''] \<and>
       p_directives p ''img-src'' = map_option (filter supported) (map_of (directive_pairs sample_policy_text) ''img-src'')"
proof (cases "parse_policy sample_crate ''https://a.example/'' sample_policy_text False")
  case (Inl e)
  then show ?thesis using sample_policy_parses by simp
next
  case (Inr p)
  from parsed_policy_keeps_first_directives [OF Inr, of "''img-src''"] sample_policy_parses Inr
  show ?thesis by (simp add: source_list_directives_def)
qed

text \<open>A meta element's policy can only restrict. When it is appended to a document's policies, every
  request, resource hint, inline script, evaluation and inline style that is admitted afterwards was admitted
  before, and an ancestor check that was required stays required.\<close>

theorem meta_policies_only_restrict:
  assumes "append_meta U base serialized ps = Inr ps'"
  shows "(check_request_with_script U ps' d address r script = Inr () \<longrightarrow>
          check_request_with_script U ps d address r script = Inr ()) \<and>
    (allows_resource_hint U ps' address \<longrightarrow> allows_resource_hint U ps address) \<and>
    (allows_inline_source D ps' kind nonce source \<longrightarrow> allows_inline_source D ps kind nonce source) \<and>
    (allows_eval ps' \<longrightarrow> allows_eval ps) \<and> (allows_style_inline ps' \<longrightarrow> allows_style_inline ps) \<and>
    (checks_ancestors ps \<longrightarrow> checks_ancestors ps')"
  using append_meta_Inr [OF assms]
  by (auto simp: questions_append check_request_append) (simp add: checks_ancestors_def)

theorem meta_policies_only_restrict_witness:
  "case append_meta sample_crate ''https://a.example/'' ''default-src https:'' [] of
     Inl _ \<Rightarrow> False
   | Inr ps \<Rightarrow> check_request sample_crate ps ImageDest ''https://b.example/'' 0 = Inr ()
       \<and> check_request sample_crate ps ImageDest ''http://a.example/'' 0 \<noteq> Inr ()
       \<and> (check_request_with_script sample_crate ps ImageDest ''https://b.example/'' 0 None = Inr () \<longrightarrow>
          check_request_with_script sample_crate [] ImageDest ''https://b.example/'' 0 None = Inr ())"
proof (cases "append_meta sample_crate ''https://a.example/'' ''default-src https:'' []")
  case (Inl e)
  moreover have "is_ok (append_meta sample_crate ''https://a.example/'' ''default-src https:'' [])" by code_simp
  ultimately show ?thesis by simp
next
  case (Inr ps)
  have "case append_meta sample_crate ''https://a.example/'' ''default-src https:'' [] of
     Inl _ \<Rightarrow> False
   | Inr ps \<Rightarrow> check_request sample_crate ps ImageDest ''https://b.example/'' 0 = Inr ()
       \<and> check_request sample_crate ps ImageDest ''http://a.example/'' 0 \<noteq> Inr ()"
    by code_simp
  with meta_policies_only_restrict [OF Inr] Inr show ?thesis by auto
qed

text \<open>A violation is reported exactly when something is refused. An inline script element is admitted iff
  no policy reports a violation for it, a script URL that parses is admitted iff no policy reports one, and
  the reports name the refusing policies in container order.\<close>

theorem violations_explain_refusals:
  "(allows_inline_script D ps nonce source parser_inserted \<longleftrightarrow>
    inline_script_violations_for_source D ps nonce (Some source) parser_inserted = []) \<and>
   (allows_script_url U ps directive address r script \<longleftrightarrow>
    is_ok (url_parse U address) \<and> script_url_violations U ps directive address r script = [])"
proof (intro conjI)
  show "allows_inline_script D ps nonce source parser_inserted \<longleftrightarrow>
    inline_script_violations_for_source D ps nonce (Some source) parser_inserted = []"
    by (auto simp: allows_inline_script_def allows_inline_source_def inline_script_violations_for_source_def
        map_filter_Nil list_all_iff is_none_or_def split: option.splits)
  show "allows_script_url U ps directive address r script \<longleftrightarrow>
    is_ok (url_parse U address) \<and> script_url_violations U ps directive address r script = []"
    by (auto simp: allows_script_url_def script_url_violations_def filter_empty_conv list_all_iff
        split: sum.splits)
qed

text \<open>
  A source expression whose path ends in a slash names a directory. The comparison drops the empty last
  segment before it counts the segments, so the expression also admits the path without the slash, which the
  matching rule of CSP3 (6.7.2.12, step 6) refuses.
\<close>

theorem directory_source_admits_file:
  "path_matches ''/admin/'' ''/admin'' \<and> path_matches ''/admin/'' ''/admin/page'' \<and> \<not> path_matches ''/admin/'' ''/adminx''"
  by code_simp

end
