(* ===== verification/Url_Resolution.thy ===== *)
theory Url_Resolution
  imports Sample_Urls
begin

text \<open>
  Resolution of references: \<^verbatim>\<open>src/navigation/web_url.rs\<close>, \<^verbatim>\<open>src/navigation/resolved_urls.rs\<close> (the memo
  table in front of the parser) and the resolving functions of \<^verbatim>\<open>src/navigation.rs\<close>, with
  \<^verbatim>\<open>FetchUrl::resolve\<close> and the scheme safelist of \<^verbatim>\<open>src/protocol_handlers.rs\<close> they consult. The memo
  table is thread-local state of the program: it is passed in and returned.
\<close>

section \<open>The url crate's resolving operations\<close>

record url_resolver = url_crate +
  url_parse_base :: "url option \<Rightarrow> string \<Rightarrow> string + url" \<comment> \<open>\<^verbatim>\<open>Url::options().base_url(b).parse(r)\<close>\<close>
  url_set_path :: "url \<Rightarrow> string \<Rightarrow> url"
  url_append_pair :: "string \<Rightarrow> string \<Rightarrow> string" \<comment> \<open>\<^verbatim>\<open>form_urlencoded\<close>: one name and value\<close>

definition url_join :: "'r url_resolver_scheme \<Rightarrow> url \<Rightarrow> string \<Rightarrow> string + url" where
  "url_join U base reference = url_parse_base U (Some base) reference"

definition ok :: "'e + 'a \<Rightarrow> 'a option" where
  "ok r = (case r of Inl _ \<Rightarrow> None | Inr x \<Rightarrow> Some x)"

definition bounded_url :: "string \<Rightarrow> string option" where
  "bounded_url s = (if length s \<le> MAX_URL_BYTES then Some s else None)"

section \<open>\<^verbatim>\<open>web_url.rs\<close>\<close>

definition normalize_opaque_path :: "'r url_resolver_scheme \<Rightarrow> url \<Rightarrow> url" where
  "normalize_opaque_path U parsed =
     (if u_cannot_be_a_base parsed \<and> (u_query parsed \<noteq> None \<or> u_fragment parsed \<noteq> None)
      then (case strip_suffix (u_path parsed) '' '' of
              None \<Rightarrow> parsed
            | Some path \<Rightarrow> url_set_path U parsed (path @ ''%20''))
      else parsed)"

definition parse_web_url :: "'r url_resolver_scheme \<Rightarrow> string \<Rightarrow> string option \<Rightarrow> string option" where
  "parse_web_url U reference base =
     (if length reference > MAX_URL_BYTES \<or> (case base of None \<Rightarrow> False | Some b \<Rightarrow> length b > MAX_URL_BYTES)
      then None
      else
        Option.bind
          (case base of
             None \<Rightarrow> Some None
           | Some b \<Rightarrow> map_option (\<lambda>u. Some (normalize_opaque_path U u)) (ok (url_parse U b)))
          (\<lambda>b. Option.bind (ok (url_parse_base U b reference)) (\<lambda>parsed.
             bounded_url (url_to_string U (normalize_opaque_path U parsed)))))"

definition resolve_web_url :: "'r url_resolver_scheme \<Rightarrow> string \<Rightarrow> string \<Rightarrow> string option" where
  "resolve_web_url U base reference = parse_web_url U reference (Some base)"

definition can_rewrite_history_url :: "'u url_crate_scheme \<Rightarrow> string \<Rightarrow> string \<Rightarrow> bool" where
  "can_rewrite_history_url U document target =
     (case (url_parse U document, url_parse U target) of
        (Inr d, Inr t) \<Rightarrow>
          if u_scheme d \<noteq> u_scheme t \<or> u_username d \<noteq> u_username t \<or> u_password d \<noteq> u_password t
             \<or> u_host d \<noteq> u_host t \<or> u_explicit_port d \<noteq> u_explicit_port t
          then False
          else if u_scheme t = ''http'' \<or> u_scheme t = ''https'' then True
          else if u_scheme t = ''file'' then u_path d = u_path t
          else u_path d = u_path t \<and> u_query d = u_query t
      | _ \<Rightarrow> False)"

definition fetch_url_resolve ::
  "'r url_resolver_scheme \<Rightarrow> nat \<Rightarrow> fetch_url \<Rightarrow> string \<Rightarrow> fetch_error + fetch_url \<times> nat" where
  "fetch_url_resolve U next_id u reference =
     and_then (ok_or (resolve_web_url U (fu_serialized u) reference)
                (invalid_request (''could not resolve URL reference: '' @ reference)))
       (fetch_url_parse U next_id)"

section \<open>The memo table of resolved references\<close>

definition MAX_RESOLVED_ENTRIES :: nat where [limit_simps]: "MAX_RESOLVED_ENTRIES = 4096"
definition MAX_REFERENCE_BYTES :: nat where [limit_simps]: "MAX_REFERENCE_BYTES = 2048"

text \<open>The answers are a hash map; they are kept as an association list without repeated references.\<close>

record resolved_urls =
  ru_base :: string
  ru_answers :: "(string \<times> string option) list"

definition resolved_empty :: resolved_urls where
  "resolved_empty = \<lparr>ru_base = [], ru_answers = []\<rparr>"

definition get_or_resolve ::
  "string \<Rightarrow> string \<Rightarrow> (unit \<Rightarrow> string option) \<Rightarrow> resolved_urls \<Rightarrow> string option \<times> resolved_urls" where
  "get_or_resolve base reference resolve memo0 =
     (if length reference > MAX_REFERENCE_BYTES then (resolve (), memo0)
      else
        let memo = (if ru_base memo0 \<noteq> base then \<lparr>ru_base = base, ru_answers = []\<rparr> else memo0)
        in case map_of (ru_answers memo) reference of
             Some answer \<Rightarrow> (answer, memo)
           | None \<Rightarrow>
               let answer = resolve ();
                   kept = (if length (ru_answers memo) = MAX_RESOLVED_ENTRIES then [] else ru_answers memo)
               in (answer, memo\<lparr>ru_answers := (reference, answer) # kept\<rparr>))"

section \<open>\<^verbatim>\<open>navigation.rs\<close>\<close>

definition resolve_answer :: "'r url_resolver_scheme \<Rightarrow> string \<Rightarrow> string \<Rightarrow> string option" where
  "resolve_answer U base reference =
     Option.bind (ok (url_parse U base)) (\<lambda>b.
     Option.bind (ok (url_join U b reference)) (\<lambda>resolved.
       if u_scheme resolved \<notin> {''http'', ''https''} \<or> u_username resolved \<noteq> [] \<or> u_password resolved \<noteq> None
       then None
       else bounded_url (url_to_string U resolved)))"

definition resolve_url ::
  "'r url_resolver_scheme \<Rightarrow> string \<Rightarrow> string \<Rightarrow> resolved_urls \<Rightarrow> string option \<times> resolved_urls" where
  "resolve_url U base reference0 memo =
     (if length base > MAX_URL_BYTES \<or> length reference0 > MAX_URL_BYTES then (None, memo)
      else
        let reference = trim reference0;
            lowered = to_ascii_lowercase reference
        in if reference = [] then (Some base, memo)
           else if starts_with lowered ''javascript:'' \<or> starts_with lowered ''mailto:''
                   \<or> starts_with lowered ''tel:'' \<or> starts_with lowered ''data:''
           then (None, memo)
           else get_or_resolve base reference (\<lambda>_. resolve_answer U base reference) memo)"

definition MAX_HANDLER_SCHEME_BYTES :: nat where [limit_simps]: "MAX_HANDLER_SCHEME_BYTES = 32"

definition is_ascii_lowercase :: "char \<Rightarrow> bool" where
  "is_ascii_lowercase c \<longleftrightarrow> 97 \<le> byte c \<and> byte c \<le> 122"

definition scheme_safelist :: "string list" where
  "scheme_safelist =
     [''bitcoin'', ''ftp'', ''ftps'', ''geo'', ''im'', ''irc'', ''ircs'', ''magnet'', ''mailto'', ''matrix'', ''mms'',
      ''news'', ''nntp'', ''openpgp4fpr'', ''sftp'', ''sip'', ''sms'', ''smsto'', ''ssh'', ''tel'', ''urn'', ''webcal'',
      ''wtai'', ''xmpp'']"

definition allowed_scheme :: "string \<Rightarrow> bool" where
  "allowed_scheme s =
     (if length s > MAX_HANDLER_SCHEME_BYTES then False
      else s \<in> set scheme_safelist
           \<or> (case strip_prefix s ''web+'' of
                None \<Rightarrow> False
              | Some suffix \<Rightarrow> suffix \<noteq> [] \<and> list_all is_ascii_lowercase suffix))"

definition resolve_hyperlink_url ::
  "'r url_resolver_scheme \<Rightarrow> string \<Rightarrow> string \<Rightarrow> resolved_urls \<Rightarrow> string option \<times> resolved_urls" where
  "resolve_hyperlink_url U base reference memo =
     (case resolve_web_url U base reference of
        None \<Rightarrow> (None, memo)
      | Some resolved \<Rightarrow>
          (case url_parse U resolved of
             Inl _ \<Rightarrow> (None, memo)
           | Inr u \<Rightarrow>
               if u_scheme u = ''http'' \<or> u_scheme u = ''https'' then resolve_url U base reference memo
               else (if allowed_scheme (u_scheme u) then Some resolved else None, memo)))"

definition MAX_EMBEDDED_RESOURCE_URL_BYTES :: nat where
  [limit_simps]: "MAX_EMBEDDED_RESOURCE_URL_BYTES = 8 * 1024 * 1024"

text \<open>
  \<^verbatim>\<open>reference.get(..5)\<close> is absent when byte 5 is not a character boundary; the prefix compared is ASCII,
  so the five bytes being equal to it implies that it is one.
\<close>

definition resolve_resource_url ::
  "'r url_resolver_scheme \<Rightarrow> string \<Rightarrow> string \<Rightarrow> resolved_urls \<Rightarrow> string option \<times> resolved_urls" where
  "resolve_resource_url U base reference0 memo =
     (if length base > MAX_URL_BYTES \<or> length reference0 > MAX_EMBEDDED_RESOURCE_URL_BYTES then (None, memo)
      else
        let reference = trim reference0
        in if 5 \<le> length reference \<and> eq_ignore_ascii_case (take 5 reference) ''data:''
           then (Some reference, memo)
           else resolve_url U base reference memo)"

fun has_whitespace :: "string \<Rightarrow> bool" where
  "has_whitespace [] = False"
| "has_whitespace (a # s) =
     (ws1 a \<or> (case s of b # t \<Rightarrow> ws2 a b \<or> (case t of c # _ \<Rightarrow> ws3 a b c | [] \<Rightarrow> False) | [] \<Rightarrow> False)
      \<or> has_whitespace s)"

definition encode_www_form_component :: "'r url_resolver_scheme \<Rightarrow> string \<Rightarrow> string" where
  "encode_www_form_component U input = dropWhile (\<lambda>c. c = CHR ''='') (url_append_pair U [] input)"

text \<open>What \<^verbatim>\<open>normalize_user_input\<close> does with an address that is not one of a custom scheme.\<close>

definition typed_address :: "'r url_resolver_scheme \<Rightarrow> string \<Rightarrow> string + string" where
  "typed_address U input =
     (if starts_with input ''http://'' \<or> starts_with input ''https://''
      then map_sum id canonical (parsed_url_parse U input)
      else if has_whitespace input
              \<or> CHR ''.'' \<notin> set input \<and> \<not> starts_with input ''localhost'' \<and> CHR '':'' \<notin> set input
      then
        let search = ''https://duckduckgo.com/?q='' @ encode_www_form_component U input @ ''&ia=web''
        in if length search > MAX_URL_BYTES then Inl ''search URL exceeds the 16384-byte limit'' else Inr search
      else map_sum id canonical (parsed_url_parse U (''https://'' @ input)))"

definition normalize_user_input :: "'r url_resolver_scheme \<Rightarrow> string \<Rightarrow> string + string" where
  "normalize_user_input U input0 =
     (if length input0 > MAX_URL_BYTES then Inl ''address exceeds the 16384-byte limit''
      else
        let input = trim input0
        in if input = [] then Inl ''enter an address or search''
           else case url_parse U input of
             Inl _ \<Rightarrow> typed_address U input
           | Inr custom \<Rightarrow>
               if allowed_scheme (u_scheme custom) then Inr (url_to_string U custom) else typed_address U input)"

section \<open>Facts\<close>

lemma ok_simps [simp]: "ok (Inl e) = None" "ok (Inr x) = Some x" "ok r = Some x \<longleftrightarrow> r = Inr x"
  by (auto simp: ok_def split: sum.splits)

lemma bounded_url_Some [simp]: "bounded_url s = Some t \<longleftrightarrow> t = s \<and> length s \<le> MAX_URL_BYTES"
  by (auto simp: bounded_url_def)

text \<open>
  What makes the table sound: it holds answers of the current base only, no reference twice, and no more
  than its bounds in count and in the length of a reference.
\<close>

definition memo_inv :: "'r url_resolver_scheme \<Rightarrow> resolved_urls \<Rightarrow> bool" where
  "memo_inv U m \<longleftrightarrow> distinct (map fst (ru_answers m)) \<and> length (ru_answers m) \<le> MAX_RESOLVED_ENTRIES \<and>
     (\<forall>(r, a)\<in>set (ru_answers m). a = resolve_answer U (ru_base m) r \<and> length r \<le> MAX_REFERENCE_BYTES)"

lemma memo_inv_empty: "memo_inv U resolved_empty"
  by (simp add: memo_inv_def resolved_empty_def)

lemma memo_inv_get:
  assumes "memo_inv U m" "get_or_resolve base r (\<lambda>_. resolve_answer U base r) m = (a, m')"
  shows "a = resolve_answer U base r \<and> memo_inv U m'"
proof -
  define n where "n = (if ru_base m \<noteq> base then \<lparr>ru_base = base, ru_answers = []\<rparr> else m)"
  have n: "memo_inv U n" "ru_base n = base"
    using assms(1) by (auto simp: n_def memo_inv_def)
  show ?thesis
  proof (cases "length r > MAX_REFERENCE_BYTES")
    case True
    with assms show ?thesis by (auto simp: get_or_resolve_def)
  next
    case short: False
    show ?thesis
    proof (cases "map_of (ru_answers n) r")
      case None
      then have "a = resolve_answer U base r"
        "m' = n\<lparr>ru_answers := (r, a) # ru_answers n\<rparr> \<and> length (ru_answers n) \<noteq> MAX_RESOLVED_ENTRIES
         \<or> m' = n\<lparr>ru_answers := [(r, a)]\<rparr>"
        using assms(2) short by (auto simp: get_or_resolve_def Let_def simp flip: n_def)
      with n short None show ?thesis
        by (auto simp: memo_inv_def map_of_eq_None_iff limit_simps)
    next
      case (Some b)
      then have "(a, m') = (b, n)"
        using assms(2) short by (simp add: get_or_resolve_def Let_def flip: n_def)
      with n map_of_SomeD [OF Some] show ?thesis by (auto simp: memo_inv_def)
    qed
  qed
qed

text \<open>Resolution without the table.\<close>

definition resolve_direct :: "'r url_resolver_scheme \<Rightarrow> string \<Rightarrow> string \<Rightarrow> string option" where
  "resolve_direct U base reference0 =
     (let reference = trim reference0; lowered = to_ascii_lowercase reference
      in if length base > MAX_URL_BYTES \<or> length reference0 > MAX_URL_BYTES then None
         else if reference = [] then Some base
         else if list_ex (starts_with lowered) [''javascript:'', ''mailto:'', ''tel:'', ''data:''] then None
         else resolve_answer U base reference)"

lemma resolve_url_direct:
  assumes "memo_inv U m" "resolve_url U base r m = (a, m')"
  shows "a = resolve_direct U base r \<and> memo_inv U m'"
  using assms memo_inv_get [OF assms(1), of base "trim r"]
  by (auto simp: resolve_url_def resolve_direct_def Let_def simp del: One_nat_def split: if_splits)

fun resolve_all :: "'r url_resolver_scheme \<Rightarrow> (string \<times> string) list \<Rightarrow> resolved_urls \<Rightarrow>
    string option list \<times> resolved_urls" where
  "resolve_all U [] m = ([], m)"
| "resolve_all U ((b, r) # qs) m =
     (case resolve_url U b r m of (a, m') \<Rightarrow> (case resolve_all U qs m' of (rest, n) \<Rightarrow> (a # rest, n)))"

lemma resolve_all_direct:
  "memo_inv U m \<Longrightarrow> resolve_all U qs m = (answers, m') \<Longrightarrow>
   answers = map (\<lambda>(b, r). resolve_direct U b r) qs \<and> memo_inv U m'"
proof (induction qs arbitrary: m answers)
  case (Cons q qs)
  obtain b r where q: "q = (b, r)" by force
  obtain a n where a: "resolve_url U b r m = (a, n)" by force
  obtain rest k where rest: "resolve_all U qs n = (rest, k)" by force
  from Cons.prems q a rest have eq: "answers = a # rest" "m' = k" by auto
  have "a = resolve_direct U b r \<and> memo_inv U n"
    using resolve_url_direct Cons.prems(1) a by blast
  with Cons.IH [of n rest] rest eq q show ?case by auto
qed simp

lemma resolve_direct_bounded:
  "resolve_direct U base r = Some u \<Longrightarrow> length u \<le> MAX_URL_BYTES"
  by (auto simp: resolve_direct_def resolve_answer_def Let_def split: if_splits bind_splits)

section \<open>Properties\<close>

text \<open>The memo table of resolved references is transparent. Whatever sequence of bases and references
  a thread asks for, starting from the empty table, every answer is the one the url crate gives without the
  table, the answers recorded are never those of another base, and the table stays within 4096 entries of at
  most 2048 bytes each.\<close>

theorem resolved_urls_are_transparent:
  assumes "resolve_all U queries resolved_empty = (answers, memo)"
  shows "answers = map (\<lambda>(base, reference). resolve_direct U base reference) queries \<and> memo_inv U memo"
  using resolve_all_direct [OF memo_inv_empty assms] .

definition sample_resolver :: url_resolver where
  "sample_resolver = url_crate.extend sample_crate
     \<lparr>url_parse_base = (\<lambda>b r. if r = ''/x'' then Inr (http_url ''https'' ''a.example'' 443 ''/x'' None) else Inl ''no''),
      url_set_path = (\<lambda>u p. u\<lparr>u_path := p\<rparr>), url_append_pair = (\<lambda>n v. n @ ''='' @ v)\<rparr>"

theorem resolved_urls_are_transparent_witness:
  "case resolve_all sample_resolver
      [(''https://a.example/'', ''/x''), (''https://a.example/'', ''/x''), (''b'', ''/x'')] resolved_empty of
    (answers, memo) \<Rightarrow> answers = [Some ''https:/x'', Some ''https:/x'', None] \<and> memo_inv sample_resolver memo"
proof -
  obtain answers memo where run: "resolve_all sample_resolver
      [(''https://a.example/'', ''/x''), (''https://a.example/'', ''/x''), (''b'', ''/x'')] resolved_empty = (answers, memo)"
    by force
  have "resolve_direct sample_resolver ''https://a.example/'' ''/x'' = Some ''https:/x''"
    "resolve_direct sample_resolver ''b'' ''/x'' = None"
    by code_simp+
  with resolved_urls_are_transparent [OF run] run show ?thesis by simp
qed

end
