(* ===== verification/Fetch_Request.thy ===== *)
theory Fetch_Request
  imports Csp Url_Resolution
begin

text \<open>
  \<^verbatim>\<open>src/fetch/request.rs\<close>: the request record with its constructors for navigations, subresources, prefetches
  and page script, its setters, and the validation every request passes before anything is sent.
  The process-wide counter of opaque origins is passed in and returned; the flag of a fresh
  \<^verbatim>\<open>FetchSignal\<close> is an argument.
\<close>

section \<open>Requests\<close>

definition MAX_RESPONSE_BODY_BYTES :: nat where [limit_simps]: "MAX_RESPONSE_BODY_BYTES = 16 * 1024 * 1024"
definition MAX_KEEPALIVE_BODY_BYTES :: nat where [limit_simps]: "MAX_KEEPALIVE_BODY_BYTES = 64 * 1024"

datatype referrer = NoReferrer | ReferrerUrl fetch_url

record fetch_request =
  fr_policy :: policy_container
  fr_client :: request_client
  fr_resulting_client :: request_client
  fr_embedding_client :: request_client
  fr_url :: fetch_url
  fr_method :: string
  fr_headers :: header_list
  fr_body :: "body option"
  fr_keepalive :: bool
  fr_context :: request_context
  fr_destination :: request_destination
  fr_script_source :: "script_source option"
  fr_mode :: request_mode
  fr_user_activation :: bool
  fr_credentials :: credentials_mode
  fr_cache :: request_cache
  fr_redirect :: redirect_mode
  fr_origin :: "origin option"
  fr_referrer :: referrer
  fr_referrer_policy :: referrer_policy
  fr_signal :: fetch_signal
  fr_response_body_limit :: nat

definition request_navigation ::
  "'u url_crate_scheme \<Rightarrow> nat \<Rightarrow> fetch_signal \<Rightarrow> string \<Rightarrow> fetch_error + fetch_request \<times> nat" where
  "request_navigation U next_id signal address =
     and_then (fetch_url_parse U next_id address) (\<lambda>(u, next_id').
       Inr (\<lparr>fr_policy = [], fr_client = default_client, fr_resulting_client = default_client,
             fr_embedding_client = default_client, fr_url = u, fr_method = ''GET'', fr_headers = [],
             fr_body = None, fr_keepalive = False, fr_context = NavigationContext,
             fr_destination = DocumentDest, fr_script_source = None, fr_mode = NavigateMode,
             fr_user_activation = False, fr_credentials = IncludeCredentials, fr_cache = DefaultCache,
             fr_redirect = FollowRedirect, fr_origin = None, fr_referrer = NoReferrer,
             fr_referrer_policy = StrictOriginWhenCrossOrigin, fr_signal = signal,
             fr_response_body_limit = MAX_RESPONSE_BODY_BYTES\<rparr>, next_id'))"

definition request_subresource ::
  "'u url_crate_scheme \<Rightarrow> nat \<Rightarrow> fetch_signal \<Rightarrow> string \<Rightarrow> string \<Rightarrow> request_destination \<Rightarrow>
   fetch_error + fetch_request \<times> nat" where
  "request_subresource U next_id signal address document_url destination =
     and_then (fetch_url_parse U next_id document_url) (\<lambda>(document, next_id').
     and_then (fetch_url_parse U next_id' address) (\<lambda>(u, next_id'').
       Inr (\<lparr>fr_policy = [], fr_client = default_client, fr_resulting_client = default_client,
             fr_embedding_client = default_client, fr_url = u, fr_method = ''GET'', fr_headers = [],
             fr_body = None, fr_keepalive = False, fr_context = SubresourceContext,
             fr_destination = destination, fr_script_source = None,
             fr_mode = (if destination = FontDest then CorsMode else NoCorsMode),
             fr_user_activation = False, fr_credentials = SameOriginCredentials, fr_cache = DefaultCache,
             fr_redirect = FollowRedirect, fr_origin = Some (fu_origin document),
             fr_referrer = ReferrerUrl document,
             fr_referrer_policy = StrictOriginWhenCrossOrigin, fr_signal = signal,
             fr_response_body_limit = MAX_RESPONSE_BODY_BYTES\<rparr>, next_id'')))"

definition request_prefetch ::
  "'u url_crate_scheme \<Rightarrow> nat \<Rightarrow> fetch_signal \<Rightarrow> string \<Rightarrow> string \<Rightarrow> fetch_error + fetch_request \<times> nat" where
  "request_prefetch U next_id signal address document_url =
     and_then (request_subresource U next_id signal address document_url FetchDest) (\<lambda>(r, next_id').
       Inr (r\<lparr>fr_context := PrefetchContext, fr_credentials := IncludeCredentials,
              fr_response_body_limit := 2 * 1024 * 1024\<rparr>, next_id'))"

definition request_script ::
  "'u url_crate_scheme \<Rightarrow> nat \<Rightarrow> fetch_signal \<Rightarrow> string \<Rightarrow> string \<Rightarrow> fetch_error + fetch_request \<times> nat" where
  "request_script U next_id signal address document_url =
     and_then (fetch_url_parse U next_id document_url) (\<lambda>(document, next_id').
     and_then (fetch_url_parse U next_id' address) (\<lambda>(u, next_id'').
       Inr (\<lparr>fr_policy = [], fr_client = default_client, fr_resulting_client = default_client,
             fr_embedding_client = default_client, fr_url = u, fr_method = ''GET'', fr_headers = [],
             fr_body = None, fr_keepalive = False, fr_context = ScriptContext,
             fr_destination = FetchDest, fr_script_source = None, fr_mode = CorsMode,
             fr_user_activation = False, fr_credentials = SameOriginCredentials, fr_cache = DefaultCache,
             fr_redirect = FollowRedirect, fr_origin = Some (fu_origin document),
             fr_referrer = ReferrerUrl document,
             fr_referrer_policy = StrictOriginWhenCrossOrigin, fr_signal = signal,
             fr_response_body_limit = MAX_RESPONSE_BODY_BYTES\<rparr>, next_id'')))"

section \<open>Methods and headers\<close>

definition is_method_byte :: "char \<Rightarrow> bool" where
  "is_method_byte c \<longleftrightarrow> is_ascii_alphanumeric c \<or> c \<in> set ''!#$%&'*+-.^_`|~''"

definition normalized_methods :: "string list" where
  "normalized_methods = [''DELETE'', ''GET'', ''HEAD'', ''OPTIONS'', ''POST'', ''PUT'']"

definition set_method :: "string \<Rightarrow> fetch_request \<Rightarrow> fetch_error + fetch_request" where
  "set_method m r =
     (if m = [] \<or> \<not> list_all is_method_byte m then Inl (invalid_request (''invalid HTTP method: '' @ m))
      else if forbidden_method m then Inl (invalid_request (''forbidden HTTP method: '' @ m))
      else
        let normalized = to_ascii_uppercase m
        in Inr (r\<lparr>fr_method := if normalized \<in> set normalized_methods then normalized else m\<rparr>))"

definition set_script_header :: "string \<Rightarrow> string \<Rightarrow> fetch_request \<Rightarrow> fetch_error + fetch_request" where
  "set_script_header name v r =
     (if fr_context r \<noteq> ScriptContext
      then Inl (invalid_request ''script header guard requires a script-initiated request'')
      else and_then (headers_set_script name v (fr_headers r)) (\<lambda>hs. Inr (r\<lparr>fr_headers := hs\<rparr>)))"

definition with_signal :: "fetch_signal \<Rightarrow> fetch_request \<Rightarrow> fetch_request" where
  "with_signal s r = r\<lparr>fr_signal := s\<rparr>"

definition with_response_body_limit :: "nat \<Rightarrow> fetch_request \<Rightarrow> fetch_request" where
  "with_response_body_limit n r = r\<lparr>fr_response_body_limit := n\<rparr>"

section \<open>Validation\<close>

definition body_length :: "body option \<Rightarrow> nat" where
  "body_length b = (case b of None \<Rightarrow> 0 | Some b' \<Rightarrow> length (b_bytes b'))"

definition script_initiated :: "request_context \<Rightarrow> bool" where
  "script_initiated c \<longleftrightarrow> c = ScriptContext \<or> c = WorkerScriptContext"

definition validate_script :: "string \<Rightarrow> fetch_request \<Rightarrow> fetch_error + unit" where
  "validate_script method r =
     (if fr_mode r = NavigateMode
      then Inl (invalid_request ''script-initiated requests cannot use navigate mode'')
      else and_then (validate_script_request (fr_headers r)) (\<lambda>_.
        if fr_mode r = NoCorsMode \<and> method \<notin> set [''GET'', ''HEAD'', ''POST'']
        then Inl (invalid_request ''no-cors requests require a CORS-safelisted method'')
        else if fr_cache r = OnlyIfCached \<and> fr_mode r \<noteq> SameOriginMode
        then Inl (invalid_request ''only-if-cached requires same-origin mode'')
        else Inr ()))"

definition validate_request :: "fetch_request \<Rightarrow> fetch_error + fetch_request" where
  "validate_request r0 =
     (if fr_method r0 = [] \<or> \<not> list_all is_method_byte (fr_method r0)
      then Inl (invalid_request (''invalid HTTP method: '' @ fr_method r0))
      else
        let normalized = to_ascii_uppercase (fr_method r0);
            r = (if normalized \<in> set normalized_methods then r0\<lparr>fr_method := normalized\<rparr> else r0)
        in if normalized \<in> set [''CONNECT'', ''TRACE'', ''TRACK'']
           then Inl (invalid_request (''forbidden HTTP method: '' @ fr_method r))
           else if normalized \<in> set [''GET'', ''HEAD''] \<and> fr_body r \<noteq> None
           then Inl (invalid_request (fr_method r @ '' requests cannot have a body''))
           else if fr_keepalive r \<and>
                   (body_length (fr_body r) > MAX_KEEPALIVE_BODY_BYTES \<or> \<not> script_initiated (fr_context r))
           then Inl (invalid_request ''invalid keepalive request or body exceeds 64 KiB'')
           else if script_initiated (fr_context r)
           then and_then (validate_script normalized r) (\<lambda>_. Inr r)
           else Inr r)"

section \<open>Facts\<close>

lemma to_ascii_uppercase_idem [simp]: "to_ascii_uppercase (to_ascii_uppercase s) = to_ascii_uppercase s"
  by (auto simp: to_ascii_uppercase_def ascii_upper_def byte_char_of)

lemma validate_script_request_Inr:
  "validate_script_request hs = Inr () \<longleftrightarrow> list_all (\<lambda>h. \<not> is_forbidden_request_header (h_name h) (h_value h)) hs"
  by (auto simp: validate_script_request_def list_all_iff find_None_iff split: option.splits dest!: find_Some_mem)

text \<open>What a request that passed validation guarantees.\<close>

definition valid_request :: "fetch_request \<Rightarrow> bool" where
  "valid_request r \<longleftrightarrow>
     fr_method r \<noteq> [] \<and> list_all is_method_byte (fr_method r) \<and> \<not> forbidden_method (fr_method r) \<and>
     (to_ascii_uppercase (fr_method r) \<in> set normalized_methods \<longrightarrow> fr_method r \<in> set normalized_methods) \<and>
     (fr_method r \<in> {''GET'', ''HEAD''} \<longrightarrow> fr_body r = None) \<and>
     (fr_keepalive r \<longrightarrow> body_length (fr_body r) \<le> 65536 \<and> script_initiated (fr_context r)) \<and>
     (script_initiated (fr_context r) \<longrightarrow>
        fr_mode r \<noteq> NavigateMode \<and>
        (\<forall>h\<in>set (fr_headers r). \<not> is_forbidden_request_header (h_name h) (h_value h)) \<and>
        (fr_mode r = NoCorsMode \<longrightarrow> fr_method r \<in> {''GET'', ''HEAD'', ''POST''}) \<and>
        (fr_cache r = OnlyIfCached \<longrightarrow> fr_mode r = SameOriginMode))"

lemma is_method_byte_upper: "is_method_byte c \<Longrightarrow> is_method_byte (ascii_upper c)"
proof -
  assume c: "is_method_byte c"
  show ?thesis
  proof (cases "97 \<le> byte c \<and> byte c \<le> 122")
    case True
    then show ?thesis by (auto simp: is_method_byte_def is_ascii_alphanumeric_def ascii_upper_def byte_char_of)
  qed (use c in \<open>auto simp: ascii_upper_def\<close>)
qed

lemma upper_method: "list_all is_method_byte m \<Longrightarrow> list_all is_method_byte (to_ascii_uppercase m)"
  by (simp add: list_all_iff to_ascii_uppercase_def is_method_byte_upper)

lemma to_ascii_uppercase_Nil [simp]: "to_ascii_uppercase s = [] \<longleftrightarrow> s = []"
  by (simp add: to_ascii_uppercase_def)

lemma normalized_methods_upper:
  "m \<in> set normalized_methods \<Longrightarrow> to_ascii_uppercase m = m"
  by (auto simp: normalized_methods_def to_ascii_uppercase_def ascii_upper_def byte_def)

text \<open>The method a request leaves validation with.\<close>

definition normal_method :: "string \<Rightarrow> string" where
  "normal_method m = (if to_ascii_uppercase m \<in> set normalized_methods then to_ascii_uppercase m else m)"

lemma normal_method_idem: "normal_method (normal_method m) = normal_method m"
  by (simp add: normal_method_def)

lemma normal_method_upper [simp]: "to_ascii_uppercase (normal_method m) = to_ascii_uppercase m"
  by (simp add: normal_method_def)

lemma normal_method_safelisted:
  "ms \<subseteq> set normalized_methods \<Longrightarrow> normal_method m \<in> ms \<longleftrightarrow> to_ascii_uppercase m \<in> ms"
  using normalized_methods_upper by (auto simp: normal_method_def)

lemma validate_request_Inr:
  "validate_request r = Inr r' \<longleftrightarrow>
   r' = r\<lparr>fr_method := normal_method (fr_method r)\<rparr> \<and>
   fr_method r \<noteq> [] \<and> list_all is_method_byte (fr_method r) \<and> \<not> forbidden_method (fr_method r) \<and>
   (to_ascii_uppercase (fr_method r) \<in> {''GET'', ''HEAD''} \<longrightarrow> fr_body r = None) \<and>
   (fr_keepalive r \<longrightarrow> body_length (fr_body r) \<le> MAX_KEEPALIVE_BODY_BYTES \<and> script_initiated (fr_context r)) \<and>
   (script_initiated (fr_context r) \<longrightarrow> validate_script (to_ascii_uppercase (fr_method r)) r = Inr ())"
proof -
  have "validate_script m (r\<lparr>fr_method := n\<rparr>) = validate_script m r" for m n
    by (simp add: validate_script_def)
  then show ?thesis
    by (auto simp: validate_request_def normal_method_def forbidden_method_def Let_def result_simps not_less)
qed

lemma validate_script_Inr:
  "validate_script m r = Inr u \<longleftrightarrow>
   fr_mode r \<noteq> NavigateMode \<and> list_all (\<lambda>h. \<not> is_forbidden_request_header (h_name h) (h_value h)) (fr_headers r) \<and>
   (fr_mode r = NoCorsMode \<longrightarrow> m \<in> {''GET'', ''HEAD'', ''POST''}) \<and>
   (fr_cache r = OnlyIfCached \<longrightarrow> fr_mode r = SameOriginMode)"
  by (auto simp: validate_script_def validate_script_request_Inr result_simps)

section \<open>Properties\<close>

text \<open>What validation lets through. A request that passes has a token method in its normal form that is
  not CONNECT, TRACE or TRACK, no body with GET or HEAD, and at most 64 KiB of body when it may outlive its
  page; one that page script started does not navigate, carries no header reserved for the browser, uses a
  CORS-safelisted method without CORS, and asks for the cache alone only in same-origin mode. Only the method
  is rewritten, and validating again changes nothing more.\<close>

theorem validated_requests_are_valid:
  assumes "validate_request r = Inr r'"
  shows "valid_request r' \<and> r' = r\<lparr>fr_method := normal_method (fr_method r)\<rparr> \<and> validate_request r' = Inr r'"
proof (intro conjI)
  note facts = assms [unfolded validate_request_Inr validate_script_Inr]
  then show r': "r' = r\<lparr>fr_method := normal_method (fr_method r)\<rparr>" by blast
  have forbidden: "forbidden_method (normal_method m) = forbidden_method m" for m
    by (simp add: forbidden_method_def)
  have bytes: "list_all is_method_byte (normal_method (fr_method r))" "normal_method (fr_method r) \<noteq> []"
    using facts upper_method by (auto simp: normal_method_def)
  have gh: "normal_method m = g \<longleftrightarrow> to_ascii_uppercase m = g" if "g \<in> {''GET'', ''HEAD'', ''POST''}" for m g
    using normal_method_safelisted [of "{g}" m] that by (auto simp: normalized_methods_def)
  show "valid_request r'"
    using facts forbidden bytes unfolding valid_request_def r'
    by (simp add: gh list_all_iff limit_simps) (auto simp: normal_method_def)
  have "validate_script (to_ascii_uppercase (fr_method r)) r' = validate_script (to_ascii_uppercase (fr_method r)) r"
    by (simp add: r' validate_script_def)
  then show "validate_request r' = Inr r'"
    using facts forbidden bytes unfolding validate_request_Inr r'
    by (simp add: normal_method_idem validate_script_Inr)
qed

definition sample_request :: "string \<Rightarrow> fetch_request" where
  "sample_request method =
     \<lparr>fr_policy = [], fr_client = default_client, fr_resulting_client = default_client,
      fr_embedding_client = default_client,
      fr_url = \<lparr>fu_serialized = ''https://b.example/'',
           fu_kind = NetworkUrl \<lparr>scheme = ''https'', host = ''b.example'', port = 443, path_and_query = ''/''\<rparr>,
           fu_origin = Tuple ''https'' ''b.example'' 443\<rparr>,
      fr_method = method, fr_headers = [], fr_body = None, fr_keepalive = False, fr_context = ScriptContext,
      fr_destination = FetchDest, fr_script_source = None, fr_mode = CorsMode, fr_user_activation = False,
      fr_credentials = SameOriginCredentials, fr_cache = DefaultCache, fr_redirect = FollowRedirect,
      fr_origin = Some (Tuple ''https'' ''a.example'' 443), fr_referrer = NoReferrer,
      fr_referrer_policy = StrictOriginWhenCrossOrigin, fr_signal = [0],
      fr_response_body_limit = 4096\<rparr>"

lemma sample_method_upper [simp]:
  "to_ascii_uppercase ''delete'' = ''DELETE''" "to_ascii_uppercase ''GET'' = ''GET''"
  "is_method_byte (CHR ''d'')" "is_method_byte (CHR ''e'')" "is_method_byte (CHR ''l'')" "is_method_byte (CHR ''t'')" "is_method_byte (CHR ''G'')" "is_method_byte (CHR ''E'')" "is_method_byte (CHR ''T'')"
  by code_simp+

lemma sample_request_validates: "validate_request (sample_request ''delete'') = Inr (sample_request ''DELETE'')"
  by (simp add: validate_request_Inr validate_script_Inr sample_request_def normal_method_def normalized_methods_def
      forbidden_method_def)

theorem validated_requests_are_valid_witness:
  "validate_request (sample_request ''delete'') = Inr (sample_request ''DELETE'') \<and>
   valid_request (sample_request ''DELETE'')"
  using validated_requests_are_valid [OF sample_request_validates] sample_request_validates by blast

end
