(* ===== verification/Fetch_Cors.thy ===== *)
theory Fetch_Cors
  imports Fetch_Request
begin

text \<open>
  \<^verbatim>\<open>src/fetch/cors.rs\<close>: when a request is subject to CORS, when it needs a preflight, the checks of
  responses and preflight responses, and the headers page script may read.
\<close>

section \<open>The checks\<close>

definition cors_error :: "string \<Rightarrow> fetch_error" where
  "cors_error m = \<lparr>fe_kind = Cors, fe_message = m\<rparr>"

definition needs_cors_check :: "fetch_request \<Rightarrow> bool" where
  "needs_cors_check r =
     (case fr_origin r of None \<Rightarrow> False | Some o' \<Rightarrow> \<not> is_same_origin o' (fu_origin (fr_url r)))"

definition simple_method :: "string \<Rightarrow> bool" where
  "simple_method m \<longleftrightarrow> m \<in> set [''GET'', ''HEAD'', ''POST'']"

definition unsafe_headers :: "header_list \<Rightarrow> header_list" where
  "unsafe_headers hs = filter (\<lambda>h. \<not> is_cors_safelisted_request_header h) hs"

definition needs_preflight :: "fetch_request \<Rightarrow> bool" where
  "needs_preflight r \<longleftrightarrow>
     needs_cors_check r \<and> fr_mode r = CorsMode \<and>
     (\<not> simple_method (fr_method r) \<or> list_ex (\<lambda>h. \<not> is_cors_safelisted_request_header h) (fr_headers r))"

definition token_list :: "header_list \<Rightarrow> string \<Rightarrow> string list" where
  "token_list hs name =
     map to_ascii_lowercase
       (filter (\<lambda>v. v \<noteq> []) (map trim (concat (map (split_on (CHR '','')) (headers_values hs name)))))"

text \<open>
  \<^verbatim>\<open>validate_allow_origin\<close> panics for a request without an origin; its callers only reach it when there is
  one. The panic is an error value of its own.
\<close>

definition panicked :: fetch_error where
  "panicked = \<lparr>fe_kind = Network, fe_message = ''panic: cross-origin requests have a client origin''\<rparr>"

definition validate_allow_origin :: "fetch_request \<Rightarrow> header_list \<Rightarrow> fetch_error + unit" where
  "validate_allow_origin r hs =
     and_then (map_sum id origin_serialize (ok_or (fr_origin r) panicked)) (\<lambda>org.
       case headers_values hs ''access-control-allow-origin'' of
         [allowed] \<Rightarrow>
           let wildcard_allowed = (allowed = ''*'' \<and> fr_credentials r \<noteq> IncludeCredentials)
           in if \<not> wildcard_allowed \<and> allowed \<noteq> org
              then Inl (cors_error (''CORS response allowed `'' @ allowed @ ''` instead of `'' @ org @ ''`''))
              else if fr_credentials r = IncludeCredentials
                      \<and> headers_values hs ''access-control-allow-credentials'' \<noteq> [''true'']
              then Inl (cors_error
                ''credentialed CORS response requires one Access-Control-Allow-Credentials: true'')
              else Inr ()
       | _ \<Rightarrow> Inl (cors_error
           ''CORS response must contain exactly one Access-Control-Allow-Origin value''))"

definition validate_cors_response :: "fetch_request \<Rightarrow> header_list \<Rightarrow> fetch_error + unit" where
  "validate_cors_response r hs =
     (if \<not> needs_cors_check r then Inr ()
      else case fr_mode r of
        SameOriginMode \<Rightarrow> Inl (cors_error ''cross-origin request blocked by same-origin mode'')
      | CorsMode \<Rightarrow> validate_allow_origin r hs
      | NavigateMode \<Rightarrow> Inr ()
      | NoCorsMode \<Rightarrow> Inr ())"

definition preflight_allows_method :: "fetch_request \<Rightarrow> header_list \<Rightarrow> fetch_error + unit" where
  "preflight_allows_method r hs =
     (if simple_method (fr_method r) then Inr ()
      else
        let allowed_methods = token_list hs ''access-control-allow-methods''
        in if list_ex (\<lambda>m. eq_ignore_ascii_case m (fr_method r)) allowed_methods
              \<or> fr_credentials r \<noteq> IncludeCredentials \<and> ''*'' \<in> set allowed_methods
           then Inr ()
           else Inl (cors_error (''CORS preflight did not allow method '' @ fr_method r)))"

definition preflight_allows_header :: "fetch_request \<Rightarrow> header_list \<Rightarrow> header \<Rightarrow> fetch_error + unit" where
  "preflight_allows_header r hs h =
     (let allowed_headers = token_list hs ''access-control-allow-headers'';
          wildcard = (''*'' \<in> set allowed_headers \<and> fr_credentials r \<noteq> IncludeCredentials)
      in if \<not> wildcard \<and> \<not> list_ex (\<lambda>a. eq_ignore_ascii_case a (h_name h)) allowed_headers
         then Inl (cors_error (''CORS preflight did not allow header '' @ h_name h))
         else Inr ())"

definition validate_preflight_response :: "fetch_request \<Rightarrow> header_list \<Rightarrow> fetch_error + unit" where
  "validate_preflight_response r hs =
     and_then (validate_allow_origin r hs) (\<lambda>_.
     and_then (preflight_allows_method r hs) (\<lambda>_.
       each_ok (preflight_allows_header r hs) (unsafe_headers (fr_headers r))))"

definition exposed_header_names :: "header_list \<Rightarrow> credentials_mode \<Rightarrow> string set" where
  "exposed_header_names hs credentials =
     (let names = set (token_list hs ''access-control-expose-headers'')
      in if credentials = IncludeCredentials then names - {''*''} else names)"

definition cors_filtered_headers :: "header_list \<Rightarrow> fetch_request \<Rightarrow> header_list" where
  "cors_filtered_headers hs r =
     (let cors = (needs_cors_check r \<and> fr_mode r = CorsMode);
          exposed = (if cors then exposed_header_names hs (fr_credentials r) else {})
      in filter (\<lambda>h. \<not> is_forbidden_response_header (h_name h) \<and>
           (\<not> cors \<or> ''*'' \<in> exposed \<or> is_cors_safelisted_response_header (h_name h) \<or> h_name h \<in> exposed)) hs)"

section \<open>Facts\<close>

lemma validate_allow_origin_Inr:
  "validate_allow_origin r hs = Inr u \<longleftrightarrow>
   (\<exists>o' a. fr_origin r = Some o' \<and> headers_values hs ''access-control-allow-origin'' = [a] \<and>
      (a = origin_serialize o' \<or> a = ''*'' \<and> fr_credentials r \<noteq> IncludeCredentials) \<and>
      (fr_credentials r = IncludeCredentials \<longrightarrow> headers_values hs ''access-control-allow-credentials'' = [''true'']))"
proof (cases "fr_origin r")
  case None
  then show ?thesis by (simp add: validate_allow_origin_def)
next
  case (Some o')
  define vs where "vs = headers_values hs ''access-control-allow-origin''"
  consider "vs = []" | a where "vs = [a]" | a b bs where "vs = a # b # bs"
    by (metis neq_Nil_conv)
  then show ?thesis
    by cases (use Some in \<open>auto simp: validate_allow_origin_def Let_def simp flip: vs_def\<close>)
qed

lemma validate_allow_origin_no_panic: "fr_origin r \<noteq> None \<Longrightarrow> validate_allow_origin r hs \<noteq> Inl panicked"
proof -
  assume "fr_origin r \<noteq> None"
  then obtain o' where o': "fr_origin r = Some o'" by blast
  define vs where "vs = headers_values hs ''access-control-allow-origin''"
  consider "vs = []" | a where "vs = [a]" | a b bs where "vs = a # b # bs"
    by (metis neq_Nil_conv)
  then show ?thesis
    by cases (simp_all add: validate_allow_origin_def panicked_def cors_error_def Let_def o' flip: vs_def)
qed

lemma needs_cors_check_origin: "needs_cors_check r \<Longrightarrow> \<exists>o'. fr_origin r = Some o' \<and> o' \<noteq> fu_origin (fr_url r)"
  by (auto simp: needs_cors_check_def is_same_origin_def split: option.splits)

lemma set_unsafe_headers [simp]:
  "set (unsafe_headers hs) = {h \<in> set hs. \<not> is_cors_safelisted_request_header h}"
  by (simp add: unsafe_headers_def)

lemma not_needs_preflight:
  "\<not> needs_preflight r \<Longrightarrow> needs_cors_check r \<Longrightarrow> fr_mode r = CorsMode \<Longrightarrow>
   simple_method (fr_method r) \<and> unsafe_headers (fr_headers r) = []"
  by (auto simp: needs_preflight_def list_ex_iff unsafe_headers_def filter_empty_conv)

text \<open>The authority a response gives an origin to read it (Fetch, 4.9).\<close>

definition grants_origin :: "header_list \<Rightarrow> string \<Rightarrow> bool \<Rightarrow> bool" where
  "grants_origin hs org credentialed \<longleftrightarrow>
     headers_values hs ''access-control-allow-origin'' = [org] \<and>
       (credentialed \<longrightarrow> headers_values hs ''access-control-allow-credentials'' = [''true'']) \<or>
     headers_values hs ''access-control-allow-origin'' = [''*''] \<and> \<not> credentialed"

lemma validate_allow_origin_grants:
  "fr_origin r = Some o' \<Longrightarrow>
   validate_allow_origin r hs = Inr u \<longleftrightarrow>
   grants_origin hs (origin_serialize o') (fr_credentials r = IncludeCredentials)"
  by (auto simp: validate_allow_origin_Inr grants_origin_def)

text \<open>What a preflight response has to contain to let a request through (Fetch, 4.8).\<close>

definition preflight_grants :: "header_list \<Rightarrow> fetch_request \<Rightarrow> string \<Rightarrow> bool" where
  "preflight_grants hs r org \<longleftrightarrow>
     grants_origin hs org (fr_credentials r = IncludeCredentials) \<and>
     (simple_method (fr_method r) \<or>
      (\<exists>m\<in>set (token_list hs ''access-control-allow-methods'').
         eq_ignore_ascii_case m (fr_method r) \<or> m = ''*'' \<and> fr_credentials r \<noteq> IncludeCredentials)) \<and>
     (\<forall>h\<in>set (unsafe_headers (fr_headers r)).
        \<exists>a\<in>set (token_list hs ''access-control-allow-headers'').
          eq_ignore_ascii_case a (h_name h) \<or> a = ''*'' \<and> fr_credentials r \<noteq> IncludeCredentials)"

lemma validate_preflight_grants:
  assumes "fr_origin r = Some o'"
  shows "validate_preflight_response r hs = Inr () \<longleftrightarrow> preflight_grants hs r (origin_serialize o')"
proof -
  have by_method: "preflight_allows_method r hs = Inr () \<longleftrightarrow> simple_method (fr_method r) \<or>
      (\<exists>m\<in>set (token_list hs ''access-control-allow-methods'').
         eq_ignore_ascii_case m (fr_method r) \<or> m = ''*'' \<and> fr_credentials r \<noteq> IncludeCredentials)"
    by (auto simp: preflight_allows_method_def list_ex_iff Let_def)
  have by_header: "preflight_allows_header r hs h = Inr () \<longleftrightarrow>
      (\<exists>a\<in>set (token_list hs ''access-control-allow-headers'').
         eq_ignore_ascii_case a (h_name h) \<or> a = ''*'' \<and> fr_credentials r \<noteq> IncludeCredentials)" for h
    by (auto simp: preflight_allows_header_def list_ex_iff Let_def)
  show ?thesis
    by (auto simp: validate_preflight_response_def result_simps preflight_grants_def by_method by_header
        validate_allow_origin_grants [OF assms])
qed

lemma cors_filtered_subset: "set (cors_filtered_headers hs r) \<subseteq> set hs"
  by (auto simp: cors_filtered_headers_def Let_def)

lemma token_list_lower: "t \<in> set (token_list hs name) \<Longrightarrow> to_ascii_lowercase t = t"
  by (auto simp: token_list_def)

lemma exposed_iff:
  assumes "name_ok n"
  shows "n \<in> exposed_header_names hs c \<or> ''*'' \<in> exposed_header_names hs c \<longleftrightarrow>
    (\<exists>e\<in>set (token_list hs ''access-control-expose-headers'').
       if e = ''*'' then c \<noteq> IncludeCredentials else eq_ignore_ascii_case e n)"
proof -
  have "e = n \<longleftrightarrow> eq_ignore_ascii_case e n" if "e \<in> set (token_list hs ''access-control-expose-headers'')" for e
    using token_list_lower [OF that] assms by (simp add: eq_ignore_ascii_case_def name_ok_def)
  then show ?thesis by (auto simp: exposed_header_names_def Let_def)
qed

section \<open>Properties\<close>

text \<open>What page script can read of a response. The filtered list keeps the order of the response and
  drops every Set-Cookie header; of a cross-origin CORS response it keeps exactly the headers that are
  safelisted or that an Access-Control-Expose-Headers entry names, in any letter case, where the entry *
  exposes everything to requests without credentials and nothing to requests with them.\<close>

theorem script_reads_exposed_headers_only:
  assumes "list_all header_ok hs"
  shows "cors_filtered_headers hs r =
    filter (\<lambda>h. \<not> is_forbidden_response_header (h_name h) \<and>
      (needs_cors_check r \<and> fr_mode r = CorsMode \<longrightarrow>
         is_cors_safelisted_response_header (h_name h) \<or>
         (\<exists>e\<in>set (token_list hs ''access-control-expose-headers'').
            if e = ''*'' then fr_credentials r \<noteq> IncludeCredentials else eq_ignore_ascii_case e (h_name h)))) hs"
proof -
  have "name_ok (h_name h)" if "h \<in> set hs" for h
    using assms that by (simp add: list_all_iff header_ok_def)
  then show ?thesis
    unfolding cors_filtered_headers_def Let_def
    by (intro filter_cong) (auto simp flip: exposed_iff)
qed

definition sample_response_headers :: header_list where
  "sample_response_headers =
     [\<lparr>h_name = ''content-type'', h_value = ''text/plain''\<rparr>, \<lparr>h_name = ''x-a'', h_value = ''1''\<rparr>,
      \<lparr>h_name = ''x-b'', h_value = ''2''\<rparr>, \<lparr>h_name = ''set-cookie'', h_value = ''s=1''\<rparr>,
      \<lparr>h_name = ''access-control-expose-headers'', h_value = ''X-A, set-cookie''\<rparr>]"

lemma sample_headers_ok: "list_all header_ok sample_response_headers"
  by code_simp

theorem script_reads_exposed_headers_only_witness:
  "map h_name (cors_filtered_headers sample_response_headers (sample_request ''GET'')) = [''content-type'', ''x-a''] \<and>
   map h_name (filter (\<lambda>h. \<not> is_forbidden_response_header (h_name h) \<and>
      (needs_cors_check (sample_request ''GET'') \<and> fr_mode (sample_request ''GET'') = CorsMode \<longrightarrow>
         is_cors_safelisted_response_header (h_name h) \<or>
         (\<exists>e\<in>set (token_list sample_response_headers ''access-control-expose-headers'').
            if e = ''*'' then fr_credentials (sample_request ''GET'') \<noteq> IncludeCredentials
            else eq_ignore_ascii_case e (h_name h)))) sample_response_headers) = [''content-type'', ''x-a'']"
proof -
  have "map h_name (cors_filtered_headers sample_response_headers (sample_request ''GET'')) = [''content-type'', ''x-a'']"
    by code_simp
  with script_reads_exposed_headers_only [OF sample_headers_ok, of "sample_request ''GET''"]
  show ?thesis by simp
qed

text \<open>
  The entry * of Access-Control-Allow-Headers also admits \<^verbatim>\<open>authorization\<close>, which the Fetch standard (4.8,
  step 7.8) excepts from the wildcard.
\<close>

theorem preflight_wildcard_covers_authorization:
  "preflight_allows_header (sample_request ''GET'')
     [\<lparr>h_name = ''access-control-allow-headers'', h_value = ''*''\<rparr>]
     \<lparr>h_name = ''authorization'', h_value = ''Bearer t''\<rparr> = Inr ()"
  by code_simp

end
