(* ===== verification/Cookie_Parse.thy ===== *)
theory Cookie_Parse
  imports Fetch_Cors
begin

text \<open>
  \<^verbatim>\<open>src/winhttp/cookies/parse.rs\<close>, \<^verbatim>\<open>date.rs\<close>, the scope predicates of \<^verbatim>\<open>cookies.rs\<close> and \<^verbatim>\<open>site.rs\<close>: the
  permissive Set-Cookie consumer, cookie dates, and which URLs a cookie belongs to. The public suffix list
  and the calendar (crates \<^verbatim>\<open>psl2\<close> and \<^verbatim>\<open>time\<close>) are parameters.
\<close>

section \<open>The public suffix list and the calendar\<close>

record psl_result =
  psl_known :: bool
  psl_public_suffix :: bool
  psl_registrable :: "string option"

record site_crates =
  psl_lookup :: "string \<Rightarrow> psl_result option"
  utc_timestamp :: "nat \<Rightarrow> nat \<Rightarrow> nat \<Rightarrow> nat \<Rightarrow> nat \<Rightarrow> nat \<Rightarrow> int option"
    \<comment> \<open>year, month, day, hour, minute, second to seconds since the epoch; absent when there is no such day\<close>

text \<open>
  A \<^verbatim>\<open>SystemTime\<close> is a count of 100 ns intervals since the Unix epoch (the resolution of the Windows clock);
  it is kept by the platform as a signed 64-bit count since 1601, which bounds \<^verbatim>\<open>checked_add\<close>.
\<close>

type_synonym time = int

definition ticks_per_second :: int where "ticks_per_second = 10000000"
definition MAX_TIME :: time where "MAX_TIME = 9223372036854775807 - 116444736000000000"

definition time_add :: "time \<Rightarrow> int \<Rightarrow> time option" where
  "time_add t d = (if t + d \<le> MAX_TIME then Some (t + d) else None)"

definition seconds :: "nat \<Rightarrow> int" where
  "seconds s = int s * ticks_per_second"

definition MAX_PERSISTENT_AGE :: int where
  "MAX_PERSISTENT_AGE = 400 * 24 * 60 * 60 * ticks_per_second"

definition time_add_or_same :: "time \<Rightarrow> int \<Rightarrow> time" where
  "time_add_or_same t d = (case time_add t d of None \<Rightarrow> t | Some t' \<Rightarrow> t')"

section \<open>\<^verbatim>\<open>date.rs\<close>\<close>

definition is_date_delimiter :: "char \<Rightarrow> bool" where
  "is_date_delimiter c \<longleftrightarrow>
     byte c = 0x09 \<or> 0x20 \<le> byte c \<and> byte c \<le> 0x2f \<or> 0x3b \<le> byte c \<and> byte c \<le> 0x40
     \<or> 0x5b \<le> byte c \<and> byte c \<le> 0x60 \<or> 0x7b \<le> byte c \<and> byte c \<le> 0x7e"

definition parse_one_or_two_digits :: "string \<Rightarrow> nat option" where
  "parse_one_or_two_digits v =
     (if v \<noteq> [] \<and> length v \<le> 2 \<and> list_all is_ascii_digit v then parse_unsigned 255 v else None)"

definition parse_time :: "string \<Rightarrow> (nat \<times> nat \<times> nat) option" where
  "parse_time token =
     (case split_on (CHR '':'') token of
        [h, m, s] \<Rightarrow>
          (case (parse_one_or_two_digits h, parse_one_or_two_digits m, parse_one_or_two_digits s) of
             (Some h', Some m', Some s') \<Rightarrow> Some (h', m', s')
           | _ \<Rightarrow> None)
      | _ \<Rightarrow> None)"

definition month_names :: "string list" where
  "month_names = [''jan'', ''feb'', ''mar'', ''apr'', ''may'', ''jun'', ''jul'', ''aug'', ''sep'', ''oct'', ''nov'', ''dec'']"

definition parse_month :: "string \<Rightarrow> nat option" where
  "parse_month token =
     (if length token < 3 then None
      else map_option Suc (position (\<lambda>m. m = to_ascii_lowercase (take 3 token)) month_names))"

record date_fields =
  d_time :: "(nat \<times> nat \<times> nat) option"
  d_day :: "nat option"
  d_month :: "nat option"
  d_year :: "nat option"

definition date_token :: "date_fields \<Rightarrow> string \<Rightarrow> date_fields" where
  "date_token d token =
     (if d_time d = None \<and> parse_time token \<noteq> None then d\<lparr>d_time := parse_time token\<rparr>
      else if d_day d = None \<and> length token \<le> 2 \<and> parse_unsigned 255 token \<noteq> None
      then d\<lparr>d_day := parse_unsigned 255 token\<rparr>
      else if d_month d = None \<and> parse_month token \<noteq> None then d\<lparr>d_month := parse_month token\<rparr>
      else if d_year d = None \<and> 2 \<le> length token \<and> length token \<le> 4 \<and> list_all is_ascii_digit token
      then d\<lparr>d_year := parse_unsigned 2147483647 token\<rparr>
      else d)"

definition full_year :: "nat \<Rightarrow> nat" where
  "full_year y = (if 70 \<le> y \<and> y \<le> 99 then y + 1900 else if y \<le> 69 then y + 2000 else y)"

definition parse_cookie_date :: "site_crates \<Rightarrow> string \<Rightarrow> time option" where
  "parse_cookie_date S input =
     (let d = foldl date_token \<lparr>d_time = None, d_day = None, d_month = None, d_year = None\<rparr>
                (filter (\<lambda>t. t \<noteq> []) (split_by is_date_delimiter input))
      in case (d_year d, d_time d, d_month d, d_day d) of
           (Some y0, Some (h, m, s), Some mon, Some day) \<Rightarrow>
             let y = full_year y0
             in if y < 1601 \<or> h > 23 \<or> m > 59 \<or> s > 59 then None
                else Option.bind (utc_timestamp S y mon day h m s) (\<lambda>t.
                  if 0 \<le> t then time_add 0 (t * ticks_per_second) else Some (t * ticks_per_second))
         | _ \<Rightarrow> None)"

section \<open>Scope\<close>

datatype same_site = SiteDefault | SiteStrict | SiteLax | SiteNone

record cookie =
  c_name :: string
  c_value :: string
  c_domain :: string
  c_path :: string
  c_secure :: bool
  c_host_only :: bool
  c_http_only :: bool
  c_same_site :: same_site
  c_expires :: "time option"
  c_creation :: nat

definition is_expired :: "time \<Rightarrow> cookie \<Rightarrow> bool" where
  "is_expired now c = (case c_expires c of None \<Rightarrow> False | Some e \<Rightarrow> e \<le> now)"

definition public_suffix :: "site_crates \<Rightarrow> string \<Rightarrow> bool" where
  "public_suffix S domain =
     (case psl_lookup S domain of None \<Rightarrow> False | Some r \<Rightarrow> psl_known r \<and> psl_public_suffix r)"

definition site_host :: "site_crates \<Rightarrow> string \<Rightarrow> string" where
  "site_host S h =
     (case Option.bind (psl_lookup S h) psl_registrable of None \<Rightarrow> h | Some d \<Rightarrow> d)"

definition same_site_urls :: "site_crates \<Rightarrow> parsed_url \<Rightarrow> parsed_url \<Rightarrow> bool" where
  "same_site_urls S source target \<longleftrightarrow>
     scheme source = scheme target \<and> site_host S (host source) = site_host S (host target)"

definition is_secure_url :: "parsed_url \<Rightarrow> bool" where
  "is_secure_url p \<longleftrightarrow>
     scheme p = ''https'' \<or> scheme p = ''http'' \<and> host p \<in> {''localhost'', ''127.0.0.1'', ''::1''}"

definition domain_matches :: "string \<Rightarrow> string \<Rightarrow> bool" where
  "domain_matches h domain \<longleftrightarrow>
     h = domain
     \<or> parse_ip h = None \<and> length h > length domain \<and> ends_with h domain
       \<and> h ! (length h - length domain - 1) = CHR ''.''"

definition cookie_path_matches :: "string \<Rightarrow> string \<Rightarrow> bool" where
  "cookie_path_matches request_path cookie_path \<longleftrightarrow>
     request_path = cookie_path
     \<or> starts_with request_path cookie_path
       \<and> (ends_with cookie_path ''/'' \<or> list_get request_path (length cookie_path) = Some (CHR ''/''))"

definition url_path :: "parsed_url \<Rightarrow> string" where
  "url_path p = hd (split_on (CHR ''?'') (path_and_query p))"

definition cookie_matches :: "site_crates \<Rightarrow> cookie \<Rightarrow> parsed_url \<Rightarrow> bool" where
  "cookie_matches S c p =
     (if c_secure c \<and> \<not> is_secure_url p then False
      else
        let h = to_ascii_lowercase (host p)
        in if c_host_only c \<and> h \<noteq> c_domain c
              \<or> \<not> c_host_only c \<and> (public_suffix S (c_domain c) \<or> \<not> domain_matches h (c_domain c))
           then False
           else cookie_path_matches (url_path p) (c_path c))"

section \<open>\<^verbatim>\<open>parse.rs\<close>\<close>

definition MAX_COOKIE_PAIR_BYTES :: nat where [limit_simps]: "MAX_COOKIE_PAIR_BYTES = 4096"
definition MAX_ATTRIBUTE_VALUE_BYTES :: nat where [limit_simps]: "MAX_ATTRIBUTE_VALUE_BYTES = 1024"

definition is_excluded_control :: "char \<Rightarrow> bool" where
  "is_excluded_control c \<longleftrightarrow> byte c \<le> 8 \<or> 0x0a \<le> byte c \<and> byte c \<le> 0x1f \<or> byte c = 0x7f"

definition trim_whitespace :: "string \<Rightarrow> string" where
  "trim_whitespace s = trim_matches is_http_space s"

text \<open>The bytes compared are ASCII, so \<^verbatim>\<open>get(..n)\<close> exists when they are equal.\<close>

definition starts_with_ascii_case_insensitive :: "string \<Rightarrow> string \<Rightarrow> bool" where
  "starts_with_ascii_case_insensitive v prefix \<longleftrightarrow>
     length prefix \<le> length v \<and> eq_ignore_ascii_case (take (length prefix) v) prefix"

datatype max_age = AgeExpired | AgeSeconds nat

definition parse_max_age :: "string \<Rightarrow> max_age option" where
  "parse_max_age v =
     (case strip_prefix v ''-'' of
        Some digits \<Rightarrow> if digits \<noteq> [] \<and> list_all is_ascii_digit digits then Some AgeExpired else None
      | None \<Rightarrow>
          if v = [] \<or> \<not> list_all is_ascii_digit v then None
          else Some (AgeSeconds (case parse_unsigned u64_max v of None \<Rightarrow> u64_max | Some n \<Rightarrow> n)))"

definition clamp_expiry :: "time \<Rightarrow> time \<Rightarrow> time" where
  "clamp_expiry expiry now = min expiry (time_add_or_same now MAX_PERSISTENT_AGE)"

definition default_cookie_path :: "string \<Rightarrow> string" where
  "default_cookie_path path_query =
     (let path = hd (split_on (CHR ''?'') path_query)
      in if \<not> starts_with path ''/'' \<or> path = ''/'' then ''/''
         else case rsplit_once (CHR ''/'') path of
           None \<Rightarrow> ''/''
         | Some (directory, _) \<Rightarrow> if directory = [] then ''/'' else directory)"

record cookie_attributes =
  a_domain :: "string option"
  a_path :: "string option"
  a_secure :: bool
  a_http_only :: bool
  a_same_site :: same_site
  a_max_age :: "max_age option"
  a_expires :: "time option"

definition no_attributes :: cookie_attributes where
  "no_attributes =
     \<lparr>a_domain = None, a_path = None, a_secure = False, a_http_only = False, a_same_site = SiteDefault,
      a_max_age = None, a_expires = None\<rparr>"

definition same_site_value :: "string \<Rightarrow> same_site" where
  "same_site_value v =
     (if eq_ignore_ascii_case v ''strict'' then SiteStrict
      else if eq_ignore_ascii_case v ''lax'' then SiteLax
      else if eq_ignore_ascii_case v ''none'' then SiteNone
      else SiteDefault)"

text \<open>One round of the attribute loop; \<open>None\<close> is its \<^verbatim>\<open>return None\<close>.\<close>

definition cookie_attribute ::
  "site_crates \<Rightarrow> time \<Rightarrow> string \<Rightarrow> cookie_attributes \<Rightarrow> string \<Rightarrow> cookie_attributes option" where
  "cookie_attribute S now default_path a attribute =
     (case (case split_once (CHR ''='') attribute of None \<Rightarrow> (attribute, []) | Some p \<Rightarrow> p) of
        (n0, v0) \<Rightarrow>
          let n = trim_whitespace n0; v = trim_whitespace v0
          in if length v > MAX_ATTRIBUTE_VALUE_BYTES then Some a
             else if eq_ignore_ascii_case n ''domain'' then
               (if \<not> list_all (\<lambda>c. 1 \<le> byte c \<and> byte c \<le> 0x7f) v then None
                else Some (a\<lparr>a_domain := Some (to_ascii_lowercase
                       (case strip_prefix v ''.'' of None \<Rightarrow> v | Some w \<Rightarrow> w))\<rparr>))
             else if eq_ignore_ascii_case n ''path'' then
               Some (a\<lparr>a_path := Some (if starts_with v ''/'' then v else default_path)\<rparr>)
             else if eq_ignore_ascii_case n ''secure'' then Some (a\<lparr>a_secure := True\<rparr>)
             else if eq_ignore_ascii_case n ''httponly'' then Some (a\<lparr>a_http_only := True\<rparr>)
             else if eq_ignore_ascii_case n ''max-age'' then
               Some (case parse_max_age v of None \<Rightarrow> a | Some m \<Rightarrow> a\<lparr>a_max_age := Some m\<rparr>)
             else if eq_ignore_ascii_case n ''expires'' then
               Some (case parse_cookie_date S v of
                       None \<Rightarrow> a | Some t \<Rightarrow> a\<lparr>a_expires := Some (clamp_expiry t now)\<rparr>)
             else if eq_ignore_ascii_case n ''samesite'' then Some (a\<lparr>a_same_site := same_site_value v\<rparr>)
             else Some a)"

fun cookie_attribute_loop ::
  "site_crates \<Rightarrow> time \<Rightarrow> string \<Rightarrow> cookie_attributes \<Rightarrow> string list \<Rightarrow> cookie_attributes option" where
  "cookie_attribute_loop S now path a [] = Some a"
| "cookie_attribute_loop S now path a (x # xs) =
     (case cookie_attribute S now path a x of
        None \<Rightarrow> None | Some b \<Rightarrow> cookie_attribute_loop S now path b xs)"

definition apply_domain_attribute :: "site_crates \<Rightarrow> string \<Rightarrow> string option \<Rightarrow> (string \<times> bool) option" where
  "apply_domain_attribute S h domain_attribute =
     (case domain_attribute of
        None \<Rightarrow> Some (h, True)
      | Some domain0 \<Rightarrow>
          if public_suffix S domain0 \<and> domain0 \<noteq> h then None
          else
            let domain = (if public_suffix S domain0 then [] else domain0)
            in if domain = [] then Some (h, True)
               else if domain_matches h domain then Some (domain, False)
               else None)"

definition prefix_rules_violated :: "string \<Rightarrow> string \<Rightarrow> bool \<Rightarrow> bool \<Rightarrow> bool \<Rightarrow> string \<Rightarrow> bool" where
  "prefix_rules_violated name v secure host_only path_present path \<longleftrightarrow>
     starts_with_ascii_case_insensitive name ''__Secure-'' \<and> \<not> secure
     \<or> starts_with_ascii_case_insensitive name ''__Host-''
       \<and> (\<not> secure \<or> \<not> host_only \<or> \<not> path_present \<or> path \<noteq> ''/'')
     \<or> name = [] \<and> (starts_with_ascii_case_insensitive v ''__Secure-''
                     \<or> starts_with_ascii_case_insensitive v ''__Host-'')"

definition expiry_of :: "cookie_attributes \<Rightarrow> time \<Rightarrow> time option" where
  "expiry_of a now =
     (case a_max_age a of
        None \<Rightarrow> a_expires a
      | Some AgeExpired \<Rightarrow> Some 0
      | Some (AgeSeconds s) \<Rightarrow> Some (time_add_or_same now (min (seconds s) MAX_PERSISTENT_AGE)))"

definition parse_cookie_internal ::
  "site_crates \<Rightarrow> parsed_url \<Rightarrow> string \<Rightarrow> bool \<Rightarrow> time \<Rightarrow> (cookie \<times> bool) option" where
  "parse_cookie_internal S parsed assignment from_http now =
     (if list_ex is_excluded_control assignment then None
      else
        case (case split_once (CHR '';'') assignment of None \<Rightarrow> (assignment, []) | Some p \<Rightarrow> p) of
          (pair, attributes) \<Rightarrow>
        case (case split_once (CHR ''='') pair of None \<Rightarrow> ([], pair) | Some p \<Rightarrow> p) of
          (name0, v0) \<Rightarrow>
        let name = trim_whitespace name0; v = trim_whitespace v0
        in if name = [] \<and> v = [] \<or> saturating_add (length name) (length v) > MAX_COOKIE_PAIR_BYTES then None
           else
             let h = to_ascii_lowercase (host parsed);
                 default_path = default_cookie_path (path_and_query parsed)
             in case cookie_attribute_loop S now default_path no_attributes (split_on (CHR '';'') attributes) of
                  None \<Rightarrow> None
                | Some a \<Rightarrow>
                    (case apply_domain_attribute S h (a_domain a) of
                       None \<Rightarrow> None
                     | Some (domain, host_only) \<Rightarrow>
                         let path = (case a_path a of None \<Rightarrow> default_path | Some p \<Rightarrow> p)
                         in if a_secure a \<and> \<not> is_secure_url parsed \<or> a_http_only a \<and> \<not> from_http
                               \<or> a_same_site a = SiteNone \<and> \<not> a_secure a then None
                            else if prefix_rules_violated name v (a_secure a) host_only (a_path a \<noteq> None) path
                            then None
                            else
                              let expires = expiry_of a now;
                                  expired = (case expires of None \<Rightarrow> False | Some e \<Rightarrow> e \<le> now)
                              in Some (\<lparr>c_name = name, c_value = v, c_domain = domain, c_path = path,
                                        c_secure = a_secure a, c_host_only = host_only,
                                        c_http_only = a_http_only a, c_same_site = a_same_site a,
                                        c_expires = expires, c_creation = 0\<rparr>, expired)))"

end
