(* ===== verification/Http_Cache.thy ===== *)
theory Http_Cache
  imports Fetch_Cors Cookie_Parse
begin

text \<open>
  \<^verbatim>\<open>src/winhttp/pipeline/cache.rs\<close> and \<^verbatim>\<open>cache/prefetch.rs\<close>: the private HTTP cache. Monotonic instants and
  durations are nanoseconds; \<^verbatim>\<open>Duration\<close> saturates at its largest value. The RFC 2822 date parser of the
  \<^verbatim>\<open>time\<close> crate is a parameter.
\<close>

definition MAX_CACHE_ENTRIES :: nat where [limit_simps]: "MAX_CACHE_ENTRIES = 64"
definition MAX_ENTRY_BYTES :: nat where [limit_simps]: "MAX_ENTRY_BYTES = 2 * 1024 * 1024"
definition MAX_TOTAL_BYTES :: nat where [limit_simps]: "MAX_TOTAL_BYTES = 24 * 1024 * 1024"

section \<open>Durations and dates\<close>

type_synonym duration = nat
type_synonym instant = nat

definition DURATION_MAX :: duration where "DURATION_MAX = u64_max * 1000000000 + 999999999"

definition duration_add :: "duration \<Rightarrow> duration \<Rightarrow> duration" where
  "duration_add a b = min DURATION_MAX (a + b)"

definition duration_secs :: "nat \<Rightarrow> duration" where
  "duration_secs s = s * 1000000000"

definition elapsed :: "instant \<Rightarrow> instant \<Rightarrow> duration" where
  "elapsed since now = now - since"

text \<open>\<^verbatim>\<open>later.duration_since(earlier).unwrap_or_default()\<close> on wall-clock times of 100 ns.\<close>

definition wall_since :: "time \<Rightarrow> time \<Rightarrow> duration" where
  "wall_since later earlier = nat (later - earlier) * 100"

record http_dates =
  rfc2822_timestamp :: "string \<Rightarrow> int option"

definition parse_http_date :: "http_dates \<Rightarrow> string \<Rightarrow> time option" where
  "parse_http_date H v =
     Option.bind (rfc2822_timestamp H v) (\<lambda>t.
       if 0 \<le> t then time_add 0 (t * ticks_per_second) else Some (t * ticks_per_second))"

section \<open>Cache-Control\<close>

definition control_parts :: "header_list \<Rightarrow> string list" where
  "control_parts hs = concat (map (split_on (CHR '','')) (headers_values hs ''cache-control''))"

definition has_directive :: "header_list \<Rightarrow> string \<Rightarrow> bool" where
  "has_directive hs name =
     list_ex (\<lambda>part. eq_ignore_ascii_case (trim (hd (split_on (CHR ''='') (trim part)))) name) (control_parts hs)"

fun directive_seconds_loop :: "string \<Rightarrow> string list \<Rightarrow> nat option" where
  "directive_seconds_loop name [] = None"
| "directive_seconds_loop name (part # parts) =
     (case split_once (CHR ''='') (trim part) of
        None \<Rightarrow> directive_seconds_loop name parts
      | Some (token, v) \<Rightarrow>
          if eq_ignore_ascii_case (trim token) name
          then parse_unsigned u64_max (trim_matches (\<lambda>c. c = CHR 0x22) (trim v))
          else directive_seconds_loop name parts)"

definition directive_seconds :: "header_list \<Rightarrow> string \<Rightarrow> nat option" where
  "directive_seconds hs name = directive_seconds_loop name (control_parts hs)"

record cache_policy =
  cp_freshness_lifetime :: duration
  cp_initial_age :: duration
  cp_no_cache :: bool
  cp_must_revalidate :: bool

definition policy_for_response :: "http_dates \<Rightarrow> header_list \<Rightarrow> time \<Rightarrow> cache_policy option" where
  "policy_for_response H hs received_at =
     (if has_directive hs ''no-store'' then None
      else
        let date = Option.bind (headers_get hs ''date'') (parse_http_date H);
            lifetime =
              (case directive_seconds hs ''max-age'' of
                 Some s \<Rightarrow> duration_secs s
               | None \<Rightarrow>
                   (case Option.bind (headers_get hs ''expires'') (parse_http_date H) of
                      None \<Rightarrow> 0
                    | Some expires \<Rightarrow>
                        wall_since expires (case date of None \<Rightarrow> received_at | Some d \<Rightarrow> d)))
        in if lifetime = 0 \<and> \<not> headers_contains hs ''etag'' \<and> \<not> headers_contains hs ''last-modified'' then None
           else
             let apparent_age = (case date of None \<Rightarrow> 0 | Some d \<Rightarrow> wall_since received_at d);
                 age = (case Option.bind (headers_get hs ''age'') (parse_unsigned u64_max) of
                          None \<Rightarrow> 0 | Some s \<Rightarrow> duration_secs s)
             in Some \<lparr>cp_freshness_lifetime = lifetime, cp_initial_age = max apparent_age age,
                  cp_no_cache = has_directive hs ''no-cache'',
                  cp_must_revalidate = has_directive hs ''must-revalidate''\<rparr>)"

fun vary_loop :: "string list \<Rightarrow> string list \<Rightarrow> string list option" where
  "vary_loop acc [] = Some acc"
| "vary_loop acc (f0 # fs) =
     (let f = trim f0
      in if f = ''*'' then None
         else if f = [] \<or> \<not> list_all (\<lambda>c. is_ascii_alphanumeric c \<or> c = CHR ''-'') f then None
         else
           let field = to_ascii_lowercase f
           in vary_loop (if field \<in> set acc then acc else acc @ [field]) fs)"

definition vary_fields :: "header_list \<Rightarrow> string list option" where
  "vary_fields hs = vary_loop [] (concat (map (split_on (CHR '','')) (headers_values hs ''vary'')))"

section \<open>Entries\<close>

record partition =
  pt_url :: string
  pt_origin :: "string option"
  pt_context :: request_context
  pt_destination :: request_destination
  pt_mode :: request_mode
  pt_credentials :: credentials_mode
  pt_cookie :: "string option"
  pt_prefetch_referrer :: "string option"

definition partition_new :: "fetch_request \<Rightarrow> header_list \<Rightarrow> partition" where
  "partition_new r outbound =
     \<lparr>pt_url = fu_serialized (fr_url r), pt_origin = map_option origin_serialize (fr_origin r),
      pt_context = fr_context r, pt_destination = fr_destination r, pt_mode = fr_mode r,
      pt_credentials = fr_credentials r, pt_cookie = headers_get outbound ''cookie'',
      pt_prefetch_referrer =
        (if fr_context r = PrefetchContext
         then Some (case headers_get outbound ''referer'' of None \<Rightarrow> [] | Some v \<Rightarrow> v) else None)\<rparr>"

record cached_response =
  cr_partition :: partition
  cr_vary :: "string list"
  cr_request_headers :: header_list
  cr_status :: nat
  cr_headers :: header_list
  cr_body :: bytes
  cr_stored_at :: instant
  cr_initial_age :: duration
  cr_freshness_lifetime :: duration
  cr_no_cache :: bool
  cr_must_revalidate :: bool

definition vary_matches :: "cached_response \<Rightarrow> header_list \<Rightarrow> bool" where
  "vary_matches e outbound \<longleftrightarrow>
     list_all (\<lambda>n. headers_values (cr_request_headers e) n = headers_values outbound n) (cr_vary e)"

definition entry_matches :: "cached_response \<Rightarrow> partition \<Rightarrow> header_list \<Rightarrow> bool" where
  "entry_matches e p outbound \<longleftrightarrow> cr_partition e = p \<and> vary_matches e outbound"

definition current_age :: "cached_response \<Rightarrow> instant \<Rightarrow> duration" where
  "current_age e now = duration_add (cr_initial_age e) (elapsed (cr_stored_at e) now)"

definition fresh :: "cached_response \<Rightarrow> instant \<Rightarrow> bool" where
  "fresh e now \<longleftrightarrow> \<not> cr_no_cache e \<and> current_age e now < cr_freshness_lifetime e"

definition can_serve_stale :: "cached_response \<Rightarrow> bool" where
  "can_serve_stale e \<longleftrightarrow> \<not> cr_no_cache e \<and> \<not> cr_must_revalidate e"

definition response_headers :: "cached_response \<Rightarrow> instant \<Rightarrow> header_list" where
  "response_headers e now =
     snd (headers_set ''age'' (show_nat (current_age e now div 1000000000)) (cr_headers e))"

definition add_validator :: "cached_response \<Rightarrow> header_list \<Rightarrow> header_list" where
  "add_validator e hs =
     (if headers_contains hs ''if-none-match'' \<or> headers_contains hs ''if-modified-since'' then hs
      else case headers_get (cr_headers e) ''etag'' of
        Some etag \<Rightarrow> snd (headers_set ''if-none-match'' etag hs)
      | None \<Rightarrow>
          (case headers_get (cr_headers e) ''last-modified'' of
             Some modified \<Rightarrow> snd (headers_set ''if-modified-since'' modified hs)
           | None \<Rightarrow> hs))"

definition has_validator :: "cached_response \<Rightarrow> bool" where
  "has_validator e \<longleftrightarrow> headers_contains (cr_headers e) ''etag'' \<or> headers_contains (cr_headers e) ''last-modified''"

fun update_fields :: "header_list \<Rightarrow> header_list \<Rightarrow> header_list option" where
  "update_fields [] hs = Some hs"
| "update_fields (f # fs) hs =
     (if h_name f \<in> set [''content-length'', ''transfer-encoding'', ''set-cookie''] then update_fields fs hs
      else case headers_set_ok (h_name f) (h_value f) hs of
        Inl _ \<Rightarrow> None
      | Inr hs' \<Rightarrow> update_fields fs hs')"

definition revalidated ::
  "http_dates \<Rightarrow> time \<Rightarrow> instant \<Rightarrow> header_list \<Rightarrow> cached_response \<Rightarrow> cached_response option" where
  "revalidated H wall now hs e =
     Option.bind (update_fields hs (cr_headers e)) (\<lambda>merged.
     Option.bind (policy_for_response H merged wall) (\<lambda>policy.
       Some (e\<lparr>cr_headers := merged, cr_stored_at := now, cr_initial_age := cp_initial_age policy,
               cr_freshness_lifetime := cp_freshness_lifetime policy, cr_no_cache := cp_no_cache policy,
               cr_must_revalidate := cp_must_revalidate policy\<rparr>)))"

section \<open>Replaying a prefetch\<close>

definition request_is_same_origin :: "fetch_request \<Rightarrow> bool" where
  "request_is_same_origin r =
     (case fr_origin r of None \<Rightarrow> False | Some o' \<Rightarrow> is_same_origin o' (fu_origin (fr_url r)))"

definition matches_prefetch_consumer :: "cached_response \<Rightarrow> fetch_request \<Rightarrow> header_list \<Rightarrow> bool" where
  "matches_prefetch_consumer e r outbound =
     (let prior = cr_partition e;
          same_origin = request_is_same_origin r;
          credentials_match =
            (pt_credentials prior = fr_credentials r
             \<or> same_origin \<and> pt_credentials prior = IncludeCredentials
               \<and> fr_credentials r = SameOriginCredentials)
      in if pt_context prior \<noteq> PrefetchContext
            \<or> pt_url prior \<noteq> fu_serialized (fr_url r)
            \<or> pt_origin prior \<noteq> map_option origin_serialize (fr_origin r)
            \<or> \<not> credentials_match
            \<or> pt_cookie prior \<noteq> headers_get outbound ''cookie''
            \<or> headers_get (cr_request_headers e) ''referer'' \<noteq> headers_get outbound ''referer''
            \<or> headers_get (cr_request_headers e) ''origin'' \<noteq> headers_get outbound ''origin''
            \<or> \<not> vary_matches e outbound
         then False
         else case fr_context r of
           NavigationContext \<Rightarrow> pt_mode prior = NoCorsMode \<and> fr_mode r = NavigateMode \<and> same_origin
         | SubresourceContext \<Rightarrow> pt_mode prior = fr_mode r
         | _ \<Rightarrow> False)"

section \<open>The cache\<close>

record response_cache =
  rc_entries :: "cached_response list"
  rc_bytes :: nat

definition response_cache_default :: response_cache where
  "response_cache_default = \<lparr>rc_entries = [], rc_bytes = 0\<rparr>"

definition cache_lookup :: "response_cache \<Rightarrow> fetch_request \<Rightarrow> header_list \<Rightarrow> cached_response option" where
  "cache_lookup rc r outbound =
     (case find (\<lambda>e. entry_matches e (partition_new r outbound) outbound) (rev (rc_entries rc)) of
        Some e \<Rightarrow> Some e
      | None \<Rightarrow> find (\<lambda>e. matches_prefetch_consumer e r outbound) (rev (rc_entries rc)))"

definition superseded :: "cached_response \<Rightarrow> cached_response \<Rightarrow> bool" where
  "superseded new e \<longleftrightarrow>
     cr_partition e = cr_partition new \<and>
     (cr_vary e \<noteq> cr_vary new \<or> entry_matches e (cr_partition new) (cr_request_headers new))"

text \<open>The indexed removal loop keeps the other entries in order and subtracts each body removed.\<close>

fun drop_superseded :: "cached_response \<Rightarrow> cached_response list \<Rightarrow> nat \<Rightarrow> cached_response list \<times> nat" where
  "drop_superseded new [] n = ([], n)"
| "drop_superseded new (e # es) n =
     (if superseded new e then drop_superseded new es (n - length (cr_body e))
      else case drop_superseded new es n of (kept, m) \<Rightarrow> (e # kept, m))"

text \<open>
  The eviction loop: with no entry left and too many bytes counted it would spin for ever, so that not
  returning is the value \<open>None\<close>.
\<close>

partial_function (option) shrink :: "cached_response list \<Rightarrow> nat \<Rightarrow> (cached_response list \<times> nat) option" where
  [code]: "shrink es n =
     (if length es > MAX_CACHE_ENTRIES \<or> n > MAX_TOTAL_BYTES then
        (case es of [] \<Rightarrow> shrink [] n | oldest # rest \<Rightarrow> shrink rest (n - length (cr_body oldest)))
      else Some (es, n))"

definition cache_insert :: "cached_response \<Rightarrow> response_cache \<Rightarrow> response_cache option" where
  "cache_insert new rc =
     (if length (cr_body new) > MAX_ENTRY_BYTES then Some rc
      else case drop_superseded new (rc_entries rc) (rc_bytes rc) of
        (kept, n) \<Rightarrow>
          map_option (\<lambda>(es, m). \<lparr>rc_entries = es, rc_bytes = m\<rparr>)
            (shrink (kept @ [new]) (n + length (cr_body new))))"

definition cacheable_request :: "fetch_request \<Rightarrow> header_list \<Rightarrow> bool" where
  "cacheable_request r outbound \<longleftrightarrow>
     fr_method r = ''GET'' \<and> fr_body r = None \<and> fr_cache r \<noteq> NoStore
     \<and> \<not> headers_contains outbound ''authorization'' \<and> \<not> headers_contains outbound ''range''
     \<and> \<not> headers_contains (fr_headers r) ''if-none-match'' \<and> \<not> headers_contains (fr_headers r) ''if-modified-since''
     \<and> \<not> has_directive (fr_headers r) ''no-store''"

definition request_forces_validation :: "fetch_request \<Rightarrow> bool" where
  "request_forces_validation r \<longleftrightarrow>
     has_directive (fr_headers r) ''no-cache''
     \<or> directive_seconds (fr_headers r) ''max-age'' = Some 0
     \<or> (case headers_get (fr_headers r) ''pragma'' of
          None \<Rightarrow> False
        | Some v \<Rightarrow> list_ex (\<lambda>t. eq_ignore_ascii_case (trim t) ''no-cache'') (split_on (CHR '','') v))"

section \<open>Candidates\<close>

record cache_candidate =
  ca_response :: cached_response
  ca_permitted :: bool

text \<open>\<open>requested_at\<close> is the instant the request went out, \<open>now\<close> the instant of the call.\<close>

definition candidate_new ::
  "http_dates \<Rightarrow> time \<Rightarrow> instant \<Rightarrow> fetch_request \<Rightarrow> header_list \<Rightarrow> nat \<Rightarrow> header_list \<Rightarrow> instant \<Rightarrow>
   cache_candidate option" where
  "candidate_new H wall now r outbound status hs requested_at =
     (if fr_cache r = NoStore \<or> status \<noteq> 200 \<or> headers_contains hs ''set-cookie''
         \<or> headers_contains hs ''content-range'' \<or> \<not> cacheable_request r outbound
      then None
      else
        Option.bind (vary_fields hs) (\<lambda>vary.
        Option.bind (policy_for_response H hs wall) (\<lambda>policy.
          Some \<lparr>ca_response =
              \<lparr>cr_partition = partition_new r outbound, cr_vary = vary, cr_request_headers = outbound,
               cr_status = status, cr_headers = hs, cr_body = [], cr_stored_at = now,
               cr_initial_age = duration_add (cp_initial_age policy) (elapsed requested_at now),
               cr_freshness_lifetime = cp_freshness_lifetime policy, cr_no_cache = cp_no_cache policy,
               cr_must_revalidate = cp_must_revalidate policy\<rparr>,
            ca_permitted = True\<rparr>)))"

definition candidate_push :: "bytes \<Rightarrow> cache_candidate \<Rightarrow> cache_candidate" where
  "candidate_push chunk ca =
     (if \<not> ca_permitted ca then ca
      else if length chunk > MAX_ENTRY_BYTES - length (cr_body (ca_response ca))
      then ca\<lparr>ca_permitted := False, ca_response := (ca_response ca)\<lparr>cr_body := []\<rparr>\<rparr>
      else ca\<lparr>ca_response := (ca_response ca)\<lparr>cr_body := cr_body (ca_response ca) @ chunk\<rparr>\<rparr>)"

definition candidate_finish :: "cache_candidate \<Rightarrow> response_cache \<Rightarrow> response_cache option" where
  "candidate_finish ca rc = (if ca_permitted ca then cache_insert (ca_response ca) rc else Some rc)"

section \<open>The invariant\<close>

definition cached_bytes :: "cached_response list \<Rightarrow> nat" where
  "cached_bytes es = sum_list (map (\<lambda>e. length (cr_body e)) es)"

definition cache_fits :: "cached_response list \<Rightarrow> bool" where
  "cache_fits es \<longleftrightarrow> length es \<le> MAX_CACHE_ENTRIES \<and> cached_bytes es \<le> MAX_TOTAL_BYTES"

text \<open>
  The counter is the bytes stored, the budgets hold, and no entry is one that a later entry's insertion
  would have removed.
\<close>

definition cache_inv :: "response_cache \<Rightarrow> bool" where
  "cache_inv rc \<longleftrightarrow>
     rc_bytes rc = cached_bytes (rc_entries rc) \<and> cache_fits (rc_entries rc)
     \<and> (\<forall>e\<in>set (rc_entries rc). length (cr_body e) \<le> MAX_ENTRY_BYTES)
     \<and> sorted_wrt (\<lambda>old new. \<not> superseded new old) (rc_entries rc)"

lemma cached_bytes_simps [simp]:
  "cached_bytes [] = 0" "cached_bytes (e # es) = length (cr_body e) + cached_bytes es"
  "cached_bytes (es @ fs) = cached_bytes es + cached_bytes fs"
  by (simp_all add: cached_bytes_def)

lemma cached_bytes_filter: "cached_bytes (filter p es) + cached_bytes (filter (\<lambda>e. \<not> p e) es) = cached_bytes es"
  by (induction es) auto

lemma drop_superseded_eq:
  "drop_superseded new es n = (filter (\<lambda>e. \<not> superseded new e) es, n - cached_bytes (filter (superseded new) es))"
  by (induction es arbitrary: n) (auto simp: case_prod_unfold)

text \<open>
  With the counter equal to the bytes stored, the eviction loop ends, and drops the fewest of the oldest
  entries that bring the cache within its budgets.
\<close>

lemma shrink_result:
  "\<exists>k\<le>length es. shrink es (cached_bytes es) = Some (drop k es, cached_bytes (drop k es)) \<and>
     cache_fits (drop k es) \<and> (\<forall>j<k. \<not> cache_fits (drop j es))"
proof (induction es)
  case Nil
  have "shrink [] 0 = Some ([], 0)" by (subst shrink.simps) simp
  then show ?case by (auto simp: cache_fits_def)
next
  case (Cons e es)
  show ?case
  proof (cases "cache_fits (e # es)")
    case True
    then have "shrink (e # es) (cached_bytes (e # es)) = Some (e # es, cached_bytes (e # es))"
      by (subst shrink.simps) (auto simp: cache_fits_def)
    with True show ?thesis by (intro exI [of _ 0]) simp
  next
    case False
    then have "shrink (e # es) (cached_bytes (e # es)) = shrink es (cached_bytes es)"
      by (subst shrink.simps) (auto simp: cache_fits_def)
    with Cons.IH obtain k where "k \<le> length es" "cache_fits (drop k es)" "\<forall>j<k. \<not> cache_fits (drop j es)"
      "shrink (e # es) (cached_bytes (e # es)) = Some (drop k es, cached_bytes (drop k es))" by auto
    with False show ?thesis by (intro exI [of _ "Suc k"]) (auto simp: less_Suc_eq_0_disj)
  qed
qed

lemma superseded_self: "superseded e e"
  by (simp add: superseded_def entry_matches_def vary_matches_def list_all_iff)

lemma sorted_wrt_drop: "sorted_wrt p xs \<Longrightarrow> sorted_wrt p (drop k xs)"
  using sorted_wrt_append [of p "take k xs" "drop k xs"] by simp

lemma cache_inv_default: "cache_inv response_cache_default"
  by (simp add: cache_inv_def response_cache_default_def cache_fits_def)

text \<open>What an insertion does, in terms of the entries alone.\<close>

lemma cache_insert_shape:
  assumes "cache_inv rc" "length (cr_body new) \<le> MAX_ENTRY_BYTES"
  obtains k rc' where "cache_insert new rc = Some rc'"
    "rc_entries rc' = drop k (filter (\<lambda>e. \<not> superseded new e) (rc_entries rc) @ [new])"
    "k \<le> length (filter (\<lambda>e. \<not> superseded new e) (rc_entries rc))"
    "cache_fits (rc_entries rc')" "rc_bytes rc' = cached_bytes (rc_entries rc')"
    "\<forall>j<k. \<not> cache_fits (drop j (filter (\<lambda>e. \<not> superseded new e) (rc_entries rc) @ [new]))"
proof -
  let ?kept = "filter (\<lambda>e. \<not> superseded new e) (rc_entries rc)"
  have "rc_bytes rc - cached_bytes (filter (superseded new) (rc_entries rc)) = cached_bytes ?kept"
    using cached_bytes_filter [of "superseded new" "rc_entries rc"] assms(1) by (simp add: cache_inv_def)
  then have ins: "cache_insert new rc =
      map_option (\<lambda>(es, m). \<lparr>rc_entries = es, rc_bytes = m\<rparr>) (shrink (?kept @ [new]) (cached_bytes (?kept @ [new])))"
    using assms(2) by (simp add: cache_insert_def drop_superseded_eq)
  obtain k where k: "k \<le> length (?kept @ [new])" "cache_fits (drop k (?kept @ [new]))"
    "\<forall>j<k. \<not> cache_fits (drop j (?kept @ [new]))"
    "shrink (?kept @ [new]) (cached_bytes (?kept @ [new])) =
       Some (drop k (?kept @ [new]), cached_bytes (drop k (?kept @ [new])))"
    using shrink_result [of "?kept @ [new]"] by blast
  have "cache_fits (drop (length ?kept) (?kept @ [new]))"
    using assms(2) by (simp add: cache_fits_def limit_simps)
  with k(3) have "k \<le> length ?kept" by (meson not_le_imp_less)
  with k ins show thesis
    by (intro that [of "\<lparr>rc_entries = drop k (?kept @ [new]), rc_bytes = cached_bytes (drop k (?kept @ [new]))\<rparr>" k])
      simp_all
qed

lemma cache_insert_inv:
  assumes "cache_inv rc" "cache_insert new rc = Some rc'" shows "cache_inv rc'"
proof (cases "length (cr_body new) \<le> MAX_ENTRY_BYTES")
  case True
  obtain k where rc': "rc_entries rc' = drop k (filter (\<lambda>e. \<not> superseded new e) (rc_entries rc) @ [new])"
    "cache_fits (rc_entries rc')" "rc_bytes rc' = cached_bytes (rc_entries rc')"
    using cache_insert_shape [OF assms(1) True] assms(2) by (metis option.inject)
  have "sorted_wrt (\<lambda>old new. \<not> superseded new old) (filter (\<lambda>e. \<not> superseded new e) (rc_entries rc) @ [new])"
    using assms(1) by (simp add: cache_inv_def sorted_wrt_append sorted_wrt_filter)
  then have "sorted_wrt (\<lambda>old new. \<not> superseded new old) (rc_entries rc')"
    unfolding rc'(1) by (rule sorted_wrt_drop)
  moreover have "set (rc_entries rc') \<subseteq> insert new (set (rc_entries rc))"
    unfolding rc'(1) by (auto dest: in_set_dropD)
  then have "\<forall>e\<in>set (rc_entries rc'). length (cr_body e) \<le> MAX_ENTRY_BYTES"
    using assms(1) True by (auto simp: cache_inv_def)
  ultimately show ?thesis
    using rc'(2,3) by (simp add: cache_inv_def)
qed (use assms in \<open>simp add: cache_insert_def\<close>)

lemma cache_insert_some: "cache_inv rc \<Longrightarrow> \<exists>rc'. cache_insert new rc = Some rc'"
  by (cases "length (cr_body new) \<le> MAX_ENTRY_BYTES") (auto elim: cache_insert_shape simp: cache_insert_def)

lemma cache_insert_entries:
  assumes "cache_inv rc" "cache_insert new rc = Some rc'"
  shows "set (rc_entries rc') \<subseteq> insert new (set (rc_entries rc))"
proof (cases "length (cr_body new) \<le> MAX_ENTRY_BYTES")
  case True
  obtain k where rc': "rc_entries rc' = drop k (filter (\<lambda>e. \<not> superseded new e) (rc_entries rc) @ [new])"
    using cache_insert_shape [OF assms(1) True] assms(2) by (metis option.inject)
  show ?thesis unfolding rc' by (auto dest: in_set_dropD)
qed (use assms in \<open>auto simp: cache_insert_def\<close>)

text \<open>At most one stored response answers a request exactly.\<close>

lemma entry_matches_superseded:
  assumes "entry_matches a p outbound" "entry_matches b p outbound"
  shows "superseded b a"
proof -
  from assms have "cr_partition a = cr_partition b" by (simp add: entry_matches_def)
  moreover have "vary_matches a (cr_request_headers b)" if "cr_vary a = cr_vary b"
    using assms that by (auto simp: entry_matches_def vary_matches_def list_all_iff)
  ultimately show ?thesis by (auto simp: superseded_def entry_matches_def)
qed

lemma one_entry_matches:
  assumes "cache_inv rc" "i < length (rc_entries rc)" "j < length (rc_entries rc)"
    and "entry_matches (rc_entries rc ! i) p outbound" "entry_matches (rc_entries rc ! j) p outbound"
  shows "i = j"
proof (rule ccontr)
  assume "i \<noteq> j"
  then have "min i j < max i j" by auto
  moreover have "entry_matches (rc_entries rc ! min i j) p outbound" "entry_matches (rc_entries rc ! max i j) p outbound"
    using assms(4,5) by (auto simp: min_def max_def)
  moreover have "max i j < length (rc_entries rc)" using assms(2,3) by simp
  ultimately show False
    using assms(1) entry_matches_superseded unfolding cache_inv_def sorted_wrt_iff_nth_less by blast
qed

lemma cache_lookup_cases:
  assumes "cache_lookup rc r outbound = Some e"
  shows "e \<in> set (rc_entries rc) \<and>
    (entry_matches e (partition_new r outbound) outbound \<or> matches_prefetch_consumer e r outbound)"
  using assms by (auto simp: cache_lookup_def split: option.splits dest!: find_Some_mem)


section \<open>What is stored\<close>

lemma headers_set_ok_Inr:
  assumes "headers_set_ok n v hs = Inr hs'"
  obtains h where "hs' = headers_remove (to_ascii_lowercase n) hs @ [h]" "h_name h = to_ascii_lowercase n" "header_ok h"
proof -
  from assms obtain m where m: "normalize_name n = Inr m" "headers_append m v (headers_remove m hs) = Inr hs'"
    by (auto simp: headers_set_ok_def headers_set_def split: sum.splits)
  from headers_append_Inr [OF m(2)] normalize_name_Inr [OF m(1)] that show thesis by auto
qed

lemma header_named_lower [simp]: "header_named (to_ascii_lowercase n) h = header_named n h"
  by (simp add: header_named_def eq_ignore_ascii_case_def)

lemma headers_contains_iff: "headers_contains hs n \<longleftrightarrow> (\<exists>h\<in>set hs. header_named n h)"
  by (auto simp: headers_contains_def headers_get_def find_None_iff)

lemma update_fields_absent:
  assumes "update_fields fs hs = Some hs'" "\<not> headers_contains hs ''set-cookie''" "list_all header_ok fs"
  shows "\<not> headers_contains hs' ''set-cookie''"
  using assms
proof (induction fs arbitrary: hs)
  case (Cons f fs)
  have name: "to_ascii_lowercase (h_name f) = h_name f"
    using Cons.prems(3) by (simp add: header_ok_def name_ok_def)
  show ?case
  proof (cases "h_name f \<in> set [''content-length'', ''transfer-encoding'', ''set-cookie'']")
    case True
    with Cons show ?thesis by auto
  next
    case False
    with Cons.prems(1) obtain m where m: "headers_set_ok (h_name f) (h_value f) hs = Inr m" "update_fields fs m = Some hs'"
      by (auto split: sum.splits if_splits)
    obtain h where h: "m = headers_remove (h_name f) hs @ [h]" "h_name h = h_name f"
      using headers_set_ok_Inr [OF m(1)] by (auto simp: name headers_remove_def)
    have "\<not> header_named ''set-cookie'' h"
      using False name h(2) by (simp add: header_named_def eq_ignore_ascii_case_def) (simp add: to_ascii_lowercase_def ascii_lower_def byte_def)
    then have "\<not> headers_contains m ''set-cookie''"
      using Cons.prems(2) by (auto simp: headers_contains_iff h(1) headers_remove_def)
    with Cons.IH [OF m(2)] Cons.prems(3) show ?thesis by simp
  qed
qed simp

text \<open>
  A stored response: a complete 200 response that sets no cookie and may be stored, of a request that
  carried neither credentials of its own nor a range.
\<close>

definition storable :: "cached_response \<Rightarrow> bool" where
  "storable e \<longleftrightarrow>
     cr_status e = 200 \<and> length (cr_body e) \<le> MAX_ENTRY_BYTES
     \<and> \<not> has_directive (cr_headers e) ''no-store'' \<and> \<not> headers_contains (cr_headers e) ''set-cookie''
     \<and> (cr_freshness_lifetime e \<noteq> 0 \<or> has_validator e)
     \<and> \<not> headers_contains (cr_request_headers e) ''authorization'' \<and> \<not> headers_contains (cr_request_headers e) ''range''
     \<and> pt_cookie (cr_partition e) = headers_get (cr_request_headers e) ''cookie''"

lemma policy_for_response_Some:
  "policy_for_response H hs t = Some p \<Longrightarrow>
   \<not> has_directive hs ''no-store'' \<and>
   (cp_freshness_lifetime p \<noteq> 0 \<or> headers_contains hs ''etag'' \<or> headers_contains hs ''last-modified'')"
  by (auto simp: policy_for_response_def Let_def split: if_splits)

lemma candidate_new_storable:
  "candidate_new H wall now r outbound status hs at = Some ca \<Longrightarrow> storable (ca_response ca)"
  by (auto simp: candidate_new_def storable_def bind_eq_Some_conv cacheable_request_def partition_new_def has_validator_def
      split: if_splits dest: policy_for_response_Some)

lemma candidate_push_storable: "storable (ca_response ca) \<Longrightarrow> storable (ca_response (candidate_push c ca))"
  by (auto simp: candidate_push_def storable_def has_validator_def)

lemma candidate_pushes_storable: "storable (ca_response ca) \<Longrightarrow> storable (ca_response (fold candidate_push cs ca))"
  by (induction cs arbitrary: ca) (auto intro: candidate_push_storable)

lemma revalidated_storable:
  assumes "revalidated H wall now hs e = Some e'" "storable e" "list_all header_ok hs"
  shows "storable e' \<and> cr_body e' = cr_body e \<and> cr_partition e' = cr_partition e"
  using assms update_fields_absent [OF _ _ assms(3)]
  by (auto simp: revalidated_def storable_def bind_eq_Some_conv has_validator_def dest: policy_for_response_Some)

text \<open>The caches a client can come to hold.\<close>

inductive cache_history :: "http_dates \<Rightarrow> response_cache \<Rightarrow> bool" for H where
  empty: "cache_history H response_cache_default"
| stored: "\<lbrakk>cache_history H rc; candidate_new H wall now r outbound status hs at = Some ca;
    candidate_finish (fold candidate_push chunks ca) rc = Some rc'\<rbrakk> \<Longrightarrow> cache_history H rc'"
| refreshed: "\<lbrakk>cache_history H rc; cache_history H earlier; cache_lookup earlier r outbound = Some e;
    list_all header_ok hs; revalidated H wall now hs e = Some e'; cache_insert e' rc = Some rc'\<rbrakk> \<Longrightarrow>
    cache_history H rc'"

lemma candidate_finish_cases:
  "candidate_finish ca rc = Some rc' \<Longrightarrow> rc' = rc \<or> cache_insert (ca_response ca) rc = Some rc'"
  by (auto simp: candidate_finish_def split: if_splits)

lemma cache_history_inv: "cache_history H rc \<Longrightarrow> cache_inv rc \<and> (\<forall>e\<in>set (rc_entries rc). storable e)"
proof (induction rule: cache_history.induct)
  case empty
  show ?case by (simp add: cache_inv_default) (simp add: response_cache_default_def)
next
  case (stored rc wall now r outbound status hs at ca chunks rc')
  have "storable (ca_response (fold candidate_push chunks ca))"
    using stored.hyps(2) candidate_new_storable candidate_pushes_storable by blast
  with stored candidate_finish_cases [OF stored.hyps(3)] cache_insert_inv cache_insert_entries show ?case by blast
next
  case (refreshed rc earlier r outbound e hs wall now e' rc')
  have "storable e" using refreshed.IH(2) cache_lookup_cases [OF refreshed.hyps(3)] by blast
  then have "storable e'" using revalidated_storable refreshed.hyps(4,5) by blast
  with refreshed cache_insert_inv cache_insert_entries show ?case by blast
qed


lemma cache_insert_lookup:
  assumes "cache_inv rc" "length (cr_body new) \<le> MAX_ENTRY_BYTES" "cache_insert new rc = Some rc'"
    and "entry_matches new (partition_new r outbound) outbound"
  shows "cache_lookup rc' r outbound = Some new"
proof -
  obtain k where "rc_entries rc' = drop k (filter (\<lambda>e. \<not> superseded new e) (rc_entries rc) @ [new])"
    "k \<le> length (filter (\<lambda>e. \<not> superseded new e) (rc_entries rc))"
    using cache_insert_shape [OF assms(1,2)] assms(3) by (metis option.inject)
  then obtain es where "rc_entries rc' = es @ [new]" by simp
  with assms(4) show ?thesis by (simp add: cache_lookup_def)
qed

section \<open>Properties\<close>

text \<open>C34: Storing a response in the HTTP cache. The eviction loop always ends, at most 64 responses and
  24 MiB stay stored with the byte counter exact, only responses that the new one replaces and then the
  fewest of the oldest ones are dropped, no two stored responses answer the same request, and every request
  the new response matches is answered by it from then on.\<close>

theorem cache_insert_correct:
  assumes "cache_inv rc" "length (cr_body new) \<le> MAX_ENTRY_BYTES"
  shows "\<exists>rc' k. cache_insert new rc = Some rc' \<and> cache_inv rc' \<and>
    rc_entries rc' = drop k (filter (\<lambda>e. \<not> superseded new e) (rc_entries rc) @ [new]) \<and>
    (\<forall>j<k. \<not> cache_fits (drop j (filter (\<lambda>e. \<not> superseded new e) (rc_entries rc) @ [new]))) \<and>
    (\<forall>r outbound. entry_matches new (partition_new r outbound) outbound \<longrightarrow> cache_lookup rc' r outbound = Some new) \<and>
    (\<forall>i j p outbound. i < length (rc_entries rc') \<and> j < length (rc_entries rc') \<and>
       entry_matches (rc_entries rc' ! i) p outbound \<and> entry_matches (rc_entries rc' ! j) p outbound \<longrightarrow> i = j)"
proof -
  obtain k rc' where rc': "cache_insert new rc = Some rc'"
    "rc_entries rc' = drop k (filter (\<lambda>e. \<not> superseded new e) (rc_entries rc) @ [new])"
    "\<forall>j<k. \<not> cache_fits (drop j (filter (\<lambda>e. \<not> superseded new e) (rc_entries rc) @ [new]))"
    by (rule cache_insert_shape [OF assms])
  show ?thesis
    using rc' cache_insert_inv [OF assms(1) rc'(1)] cache_insert_lookup [OF assms rc'(1)] one_entry_matches
    by (intro exI [of _ rc'] exI [of _ k]) blast
qed

definition sample_response :: "fetch_request \<Rightarrow> cached_response" where
  "sample_response r =
     \<lparr>cr_partition = partition_new r (fr_headers r), cr_vary = [], cr_request_headers = fr_headers r, cr_status = 200,
      cr_headers = [\<lparr>h_name = ''etag'', h_value = ''v1''\<rparr>], cr_body = [], cr_stored_at = 5, cr_initial_age = 0,
      cr_freshness_lifetime = 0, cr_no_cache = False, cr_must_revalidate = False\<rparr>"

theorem cache_insert_correct_witness:
  "\<exists>rc'. cache_insert (sample_response (sample_request ''GET'')) response_cache_default = Some rc' \<and>
     cache_lookup rc' (sample_request ''GET'') (fr_headers (sample_request ''GET'')) =
       Some (sample_response (sample_request ''GET''))"
proof -
  have "entry_matches (sample_response (sample_request ''GET''))
      (partition_new (sample_request ''GET'') (fr_headers (sample_request ''GET''))) (fr_headers (sample_request ''GET''))"
    by (simp add: entry_matches_def sample_response_def vary_matches_def)
  with cache_insert_correct [OF cache_inv_default, of "sample_response (sample_request ''GET'')"]
  show ?thesis by (auto simp: sample_response_def)
qed

text \<open>C33: Responses the HTTP cache replays stay within the authority they were fetched under. Whatever
  responses were streamed in, stored and revalidated before, a lookup only answers with a complete 200
  response that is not marked no-store, sets no cookie and whose request carried no Authorization or Range
  header; it was stored for the same URL, initiating origin and cookie header, with equal values of every
  header the server named in Vary and the same effective credentials mode; and it was stored either for the
  same kind of request or by a prefetch with the same referrer, which a navigation may only use within its
  own origin and a subresource only in its own mode.\<close>

theorem cached_responses_stay_private:
  assumes "cache_history H rc" "cache_lookup rc r outbound = Some e"
  shows "storable e \<and> pt_url (cr_partition e) = fu_serialized (fr_url r) \<and>
    pt_origin (cr_partition e) = map_option origin_serialize (fr_origin r) \<and>
    headers_get (cr_request_headers e) ''cookie'' = headers_get outbound ''cookie'' \<and>
    (\<forall>n\<in>set (cr_vary e). headers_values (cr_request_headers e) n = headers_values outbound n) \<and>
    (pt_credentials (cr_partition e) = fr_credentials r \<or>
     request_is_same_origin r \<and> pt_credentials (cr_partition e) = IncludeCredentials \<and>
       fr_credentials r = SameOriginCredentials) \<and>
    (pt_context (cr_partition e) = fr_context r \<and> pt_mode (cr_partition e) = fr_mode r \<and>
       pt_destination (cr_partition e) = fr_destination r \<or>
     pt_context (cr_partition e) = PrefetchContext \<and>
       headers_get (cr_request_headers e) ''referer'' = headers_get outbound ''referer'' \<and>
       (fr_context r = NavigationContext \<and> request_is_same_origin r \<or>
        fr_context r = SubresourceContext \<and> pt_mode (cr_partition e) = fr_mode r))"
proof -
  from cache_history_inv [OF assms(1)] cache_lookup_cases [OF assms(2)] have st: "storable e"
    and "entry_matches e (partition_new r outbound) outbound \<or> matches_prefetch_consumer e r outbound" by blast+
  then show ?thesis
  proof (elim disjE)
    assume "entry_matches e (partition_new r outbound) outbound"
    with st show ?thesis
      by (auto simp: entry_matches_def partition_new_def vary_matches_def list_all_iff storable_def)
  next
    assume "matches_prefetch_consumer e r outbound"
    with st show ?thesis
      unfolding matches_prefetch_consumer_def Let_def
      by (auto simp: vary_matches_def list_all_iff storable_def split: if_splits request_context.splits)
  qed
qed


definition sample_dates :: http_dates where
  "sample_dates = \<lparr>rfc2822_timestamp = \<lambda>_. None\<rparr>"

lemma sample_policy:
  "policy_for_response sample_dates [\<lparr>h_name = ''etag'', h_value = ''v1''\<rparr>] 0 =
     Some \<lparr>cp_freshness_lifetime = 0, cp_initial_age = 0, cp_no_cache = False, cp_must_revalidate = False\<rparr>"
  by code_simp

lemma sample_candidate:
  "candidate_new sample_dates 0 5 (sample_request ''GET'') [] 200 [\<lparr>h_name = ''etag'', h_value = ''v1''\<rparr>] 5 =
     Some \<lparr>ca_response = sample_response (sample_request ''GET''), ca_permitted = True\<rparr>"
proof -
  have "vary_fields [\<lparr>h_name = ''etag'', h_value = ''v1''\<rparr>] = Some []"
    "\<not> headers_contains [\<lparr>h_name = ''etag'', h_value = ''v1''\<rparr>] ''set-cookie''"
    "\<not> headers_contains [\<lparr>h_name = ''etag'', h_value = ''v1''\<rparr>] ''content-range''"
    "cacheable_request (sample_request ''GET'') []" by code_simp+
  then show ?thesis
    by (simp add: candidate_new_def sample_policy sample_response_def duration_add_def elapsed_def sample_request_def)
qed

theorem cached_responses_stay_private_witness:
  "\<exists>rc e. cache_history sample_dates rc \<and> cache_lookup rc (sample_request ''GET'') [] = Some e \<and> storable e \<and>
     pt_url (cr_partition e) = ''https://b.example/''"
proof -
  have m: "entry_matches (sample_response (sample_request ''GET'')) (partition_new (sample_request ''GET'') []) []"
    by (simp add: entry_matches_def sample_response_def vary_matches_def sample_request_def)
  obtain rc where rc: "cache_insert (sample_response (sample_request ''GET'')) response_cache_default = Some rc"
    using cache_insert_some [OF cache_inv_default] by blast
  have "candidate_finish (fold candidate_push [] \<lparr>ca_response = sample_response (sample_request ''GET''), ca_permitted = True\<rparr>)
      response_cache_default = Some rc"
    by (simp add: candidate_finish_def rc)
  then have h: "cache_history sample_dates rc"
    by (rule cache_history.stored [OF cache_history.empty sample_candidate])
  have l: "cache_lookup rc (sample_request ''GET'') [] = Some (sample_response (sample_request ''GET''))"
    using cache_insert_lookup [OF cache_inv_default _ rc m] by (simp add: sample_response_def)
  from cached_responses_stay_private [OF h l] h l show ?thesis
    by (intro exI [of _ rc] exI conjI) (auto simp: sample_request_def)
qed

text \<open>
  A 304 response is merged one header line at a time with \<^verbatim>\<open>HeaderList::set\<close>, so that of several lines of one
  field only the last stays: with Cache-Control split over two lines the no-store of the first is lost, while
  the same header lines on a 200 response keep it out of the cache.
\<close>

theorem revalidation_keeps_last_line:
  "let hs = [\<lparr>h_name = ''cache-control'', h_value = ''no-store''\<rparr>, \<lparr>h_name = ''cache-control'', h_value = ''must-revalidate''\<rparr>,
             \<lparr>h_name = ''etag'', h_value = ''v2''\<rparr>]
   in revalidated sample_dates 0 9 hs (sample_response (sample_request ''GET'')) \<noteq> None \<and>
      candidate_new sample_dates 0 9 (sample_request ''GET'') [] 200 hs 9 = None"
  by code_simp

end
