(* ===== verification/Fetch_Stream.thy ===== *)
theory Fetch_Stream
  imports Http_Cache
begin

text \<open>
  Incremental response bodies: \<^verbatim>\<open>TransportBodyStream\<close> of \<^verbatim>\<open>src/winhttp/client.rs\<close> and
  \<^verbatim>\<open>StreamingFetchResponse\<close> of \<^verbatim>\<open>src/winhttp/pipeline/stream.rs\<close>. What the connection answers to the n-th
  read is a parameter: a function of n, of which nothing is assumed.
\<close>

definition MAX_FETCH_STREAM_CHUNK_BYTES :: nat where [limit_simps]: "MAX_FETCH_STREAM_CHUNK_BYTES = 64 * 1024"

section \<open>The transport's body\<close>

text \<open>
  One read: the controllers aborted before and after it, the answers of \<^verbatim>\<open>WinHttpQueryDataAvailable\<close> and
  \<^verbatim>\<open>WinHttpReadData\<close>; the latter fills at most the buffer it is given.
\<close>

record read_event =
  re_aborted_before :: "nat set"
  re_available :: "string + nat"
  re_data :: "string + bytes"
  re_aborted_after :: "nat set"

record body_stream =
  bs_reads :: "nat \<Rightarrow> read_event"
  bs_index :: nat
  bs_signal :: fetch_signal
  bs_limit :: nat
  bs_received :: nat
  bs_finished :: bool

definition read_chunk :: "fetch_signal \<Rightarrow> read_event \<Rightarrow> fetch_error + bytes" where
  "read_chunk s e =
     and_then (signal_check (re_aborted_before e) s) (\<lambda>_.
     and_then (map_err network_error (re_available e)) (\<lambda>available.
     and_then (map_err network_error (re_data e)) (\<lambda>bs.
     and_then (signal_check (re_aborted_after e) s) (\<lambda>_.
       Inr (take (min (max 1 available) MAX_FETCH_STREAM_CHUNK_BYTES) bs)))))"

definition transport_next_chunk :: "body_stream \<Rightarrow> (fetch_error + bytes option) \<times> body_stream" where
  "transport_next_chunk b0 =
     (if bs_finished b0 then (Inr None, b0)
      else
        let b = b0\<lparr>bs_index := Suc (bs_index b0)\<rparr>
        in case read_chunk (bs_signal b0) (bs_reads b0 (bs_index b0)) of
             Inl e \<Rightarrow> (Inl e, b)
           | Inr chunk \<Rightarrow>
               if chunk = [] then (Inr None, b\<lparr>bs_finished := True\<rparr>)
               else case checked_add (bs_received b) (length chunk) of
                      None \<Rightarrow> (Inl (body_too_large (bs_limit b)), b)
                    | Some received \<Rightarrow>
                        if received > bs_limit b
                        then (Inl (body_too_large (bs_limit b)), b\<lparr>bs_received := received\<rparr>)
                        else (Inr (Some chunk), b\<lparr>bs_received := received\<rparr>))"

section \<open>Streaming responses\<close>

datatype streaming_body =
    NetworkBody body_stream "cache_candidate option"
  | MemoryBody bytes nat
  | EmptyBody

record streaming_response =
  sr_type :: response_type
  sr_url_list :: "fetch_url list"
  sr_status :: nat
  sr_headers :: header_list
  sr_body :: streaming_body
  sr_body_limit :: nat

record fetch_response =
  rs_type :: response_type
  rs_url_list :: "fetch_url list"
  rs_status :: nat
  rs_headers :: header_list
  rs_body :: body

text \<open>The next chunk, the body after it, and the cache candidate that is complete with it, if one is.\<close>

definition body_next :: "streaming_body \<Rightarrow> (fetch_error + bytes option) \<times> streaming_body \<times> cache_candidate option" where
  "body_next sb =
     (case sb of
        NetworkBody b candidate \<Rightarrow>
          (case transport_next_chunk b of
             (Inr (Some chunk), b') \<Rightarrow>
               (Inr (Some chunk), NetworkBody b' (map_option (candidate_push chunk) candidate), None)
           | (Inr None, b') \<Rightarrow> (Inr None, NetworkBody b' None, candidate)
           | (Inl e, b') \<Rightarrow> (Inl e, NetworkBody b' None, None))
      | MemoryBody bs cursor \<Rightarrow>
          if cursor = length bs then (Inr None, sb, None)
          else
            let end' = min (saturating_add cursor MAX_FETCH_STREAM_CHUNK_BYTES) (length bs)
            in (Inr (Some (take (end' - cursor) (drop cursor bs))), MemoryBody bs end', None)
      | EmptyBody \<Rightarrow> (Inr None, sb, None))"

text \<open>\<open>None\<close> stands for a cache insertion that does not return.\<close>

definition next_chunk ::
  "streaming_response \<Rightarrow> response_cache \<Rightarrow>
   ((fetch_error + bytes option) \<times> streaming_response \<times> response_cache) option" where
  "next_chunk sr rc =
     (case body_next (sr_body sr) of
        (r, sb, complete) \<Rightarrow>
          map_option (\<lambda>rc'. (r, sr\<lparr>sr_body := sb\<rparr>, rc'))
            (case complete of None \<Rightarrow> Some rc | Some candidate \<Rightarrow> candidate_finish candidate rc))"

text \<open>What can still be delivered: every chunk makes it smaller.\<close>

definition body_left :: "streaming_body \<Rightarrow> nat" where
  "body_left sb =
     (case sb of
        NetworkBody b _ \<Rightarrow> bs_limit b - bs_received b
      | MemoryBody bs cursor \<Rightarrow> length bs - cursor
      | EmptyBody \<Rightarrow> 0)"

text \<open>A memory body's cursor stays within it, and slices are shorter than the address space.\<close>

definition body_wf :: "streaming_body \<Rightarrow> bool" where
  "body_wf sb =
     (case sb of MemoryBody bs cursor \<Rightarrow> cursor \<le> length bs \<and> length bs \<le> u64_max | _ \<Rightarrow> True)"

lemma transport_next_chunk_Some:
  "transport_next_chunk b = (Inr (Some chunk), b') \<Longrightarrow>
   0 < length chunk \<and> length chunk \<le> MAX_FETCH_STREAM_CHUNK_BYTES \<and> bs_received b' = bs_received b + length chunk \<and>
   bs_received b' \<le> bs_limit b \<and> bs_limit b' = bs_limit b"
  by (auto simp: transport_next_chunk_def Let_def read_chunk_def result_simps split: if_splits sum.splits option.splits)

lemma transport_next_chunk_left:
  "transport_next_chunk b = (Inr (Some chunk), b') \<Longrightarrow> bs_limit b' - bs_received b' < bs_limit b - bs_received b"
  by (drule transport_next_chunk_Some) linarith

lemma body_next_Some:
  assumes "body_next sb = (Inr (Some chunk), sb', complete)"
  shows "body_left sb' < body_left sb \<or> \<not> body_wf sb" "complete = None" "body_wf sb \<Longrightarrow> body_wf sb'"
    "length chunk \<le> MAX_FETCH_STREAM_CHUNK_BYTES \<or> \<not> body_wf sb"
proof -
  show "body_left sb' < body_left sb \<or> \<not> body_wf sb"
    using assms
    by (auto simp: body_next_def body_left_def body_wf_def Let_def saturating_add_def limit_simps
        split: streaming_body.splits prod.splits sum.splits option.splits if_splits dest: transport_next_chunk_left)
  show "complete = None" "body_wf sb \<Longrightarrow> body_wf sb'"
    "length chunk \<le> MAX_FETCH_STREAM_CHUNK_BYTES \<or> \<not> body_wf sb"
    using assms
    by (auto simp: body_next_def body_left_def body_wf_def Let_def saturating_add_def limit_simps
        split: streaming_body.splits prod.splits sum.splits option.splits if_splits dest!: transport_next_chunk_Some)
qed

section \<open>Buffering\<close>

partial_function (option) buffer_loop ::
  "streaming_response \<Rightarrow> body \<Rightarrow> response_cache \<Rightarrow> ((fetch_error + body) \<times> response_cache) option" where
  [code]: "buffer_loop sr acc rc =
     Option.bind (next_chunk sr rc) (\<lambda>(r, sr', rc').
       case r of
         Inl e \<Rightarrow> Some (Inl e, rc')
       | Inr None \<Rightarrow> Some (Inr acc, rc')
       | Inr (Some chunk) \<Rightarrow>
           (case body_push chunk acc of
              Inl e \<Rightarrow> Some (Inl e, rc')
            | Inr acc' \<Rightarrow> buffer_loop sr' acc' rc'))"

definition into_buffered ::
  "streaming_response \<Rightarrow> response_cache \<Rightarrow> ((fetch_error + fetch_response) \<times> response_cache) option" where
  "into_buffered sr rc =
     map_option (\<lambda>(r, rc'). (and_then r (\<lambda>b. Inr \<lparr>rs_type = sr_type sr, rs_url_list = sr_url_list sr,
         rs_status = sr_status sr, rs_headers = sr_headers sr, rs_body = b\<rparr>), rc'))
       (buffer_loop sr (body_empty (sr_body_limit sr)) rc)"

definition from_buffered :: "fetch_response \<Rightarrow> nat \<Rightarrow> streaming_response" where
  "from_buffered rs body_limit =
     \<lparr>sr_type = rs_type rs, sr_url_list = rs_url_list rs, sr_status = rs_status rs, sr_headers = rs_headers rs,
      sr_body = MemoryBody (b_bytes (rs_body rs)) 0, sr_body_limit = body_limit\<rparr>"

section \<open>What buffering delivers and what it caches\<close>

text \<open>The candidate of a body that is still being read.\<close>

definition candidate_of :: "streaming_body \<Rightarrow> cache_candidate option" where
  "candidate_of sb = (case sb of NetworkBody _ candidate \<Rightarrow> candidate | _ \<Rightarrow> None)"

text \<open>
  A candidate that has followed the bytes delivered so far: it holds them all, or was given up because they
  are more than an entry may hold.
\<close>

definition follows :: "cached_response \<Rightarrow> bytes \<Rightarrow> cache_candidate \<Rightarrow> bool" where
  "follows e bs ca \<longleftrightarrow>
     ca = (if length bs \<le> MAX_ENTRY_BYTES then \<lparr>ca_response = e\<lparr>cr_body := bs\<rparr>, ca_permitted = True\<rparr>
           else \<lparr>ca_response = e\<lparr>cr_body := []\<rparr>, ca_permitted = False\<rparr>)"

lemma candidate_push_follows: "follows e bs ca \<Longrightarrow> follows e (bs @ chunk) (candidate_push chunk ca)"
  by (auto simp: follows_def candidate_push_def)

text \<open>The whole run of a buffering loop, by induction on what is left of the body.\<close>

lemma body_next_complete:
  assumes "body_next sb = (r, sb', complete)"
  shows "r = Inr (Some chunk) \<Longrightarrow> candidate_of sb' = map_option (candidate_push chunk) (candidate_of sb)"
    and "r = Inr None \<Longrightarrow> complete = candidate_of sb" and "r = Inl x \<Longrightarrow> complete = None"
  using assms
  by (auto simp: body_next_def candidate_of_def Let_def
      split: streaming_body.splits prod.splits sum.splits option.splits if_splits)

text \<open>
  With the cache's invariant the loop returns. The bytes it adds stay within the budget; when it succeeds, the
  cache only changes by the insertion of the candidate with exactly the body delivered, and when it fails the
  cache is unchanged.
\<close>

definition buffer_outcome ::
  "cached_response \<Rightarrow> bool \<Rightarrow> body \<Rightarrow> response_cache \<Rightarrow> fetch_error + body \<Rightarrow> response_cache \<Rightarrow> bool" where
  "buffer_outcome e candidate acc rc r rc' =
     (case r of
        Inl _ \<Rightarrow> rc' = rc
      | Inr b \<Rightarrow> b_limit b = b_limit acc \<and> (length (b_bytes acc) \<le> b_limit acc \<longrightarrow> length (b_bytes b) \<le> b_limit acc) \<and>
          (if candidate \<and> length (b_bytes b) \<le> MAX_ENTRY_BYTES
           then cache_insert (e\<lparr>cr_body := b_bytes b\<rparr>) rc = Some rc' else rc' = rc))"

lemma buffer_loop_result:
  assumes "cache_inv rc" "body_wf (sr_body sr)" "b_limit acc < u64_max"
    and "\<And>ca. candidate_of (sr_body sr) = Some ca \<Longrightarrow> follows e (b_bytes acc) ca"
  shows "\<exists>r rc'. buffer_loop sr acc rc = Some (r, rc') \<and> cache_inv rc' \<and>
    buffer_outcome e (candidate_of (sr_body sr) \<noteq> None) acc rc r rc'"
  using assms
proof (induction "body_left (sr_body sr)" arbitrary: sr acc rule: less_induct)
  case less
  obtain r sb complete where next': "body_next (sr_body sr) = (r, sb, complete)"
    by (metis prod.exhaust)
  note loop = buffer_loop.simps [of sr acc rc]
  consider (error) x where "r = Inl x" | (done') "r = Inr None" | (chunk) c where "r = Inr (Some c)"
    by (metis old.sum.exhaust option.exhaust)
  then show ?case
  proof cases
    case error
    then have "next_chunk sr rc = Some (Inl x, sr\<lparr>sr_body := sb\<rparr>, rc)"
      using next' body_next_complete(3) [OF next'] by (simp add: next_chunk_def)
    with less.prems(1) show ?thesis by (simp add: loop buffer_outcome_def)
  next
    case done'
    have complete: "complete = candidate_of (sr_body sr)" by (rule body_next_complete(2) [OF next' done'])
    show ?thesis
    proof (cases "complete \<noteq> None \<and> length (b_bytes acc) \<le> MAX_ENTRY_BYTES")
      case True
      then obtain rc' where rc': "cache_insert (e\<lparr>cr_body := b_bytes acc\<rparr>) rc = Some rc'"
        using cache_insert_some [OF less.prems(1)] by blast
      have "next_chunk sr rc = Some (Inr None, sr\<lparr>sr_body := sb\<rparr>, rc')"
        using True less.prems(4) rc' next' done' complete
        by (auto simp: next_chunk_def follows_def candidate_finish_def)
      with True rc' complete cache_insert_inv [OF less.prems(1) rc'] show ?thesis by (simp add: loop buffer_outcome_def)
    next
      case False
      have "next_chunk sr rc = Some (Inr None, sr\<lparr>sr_body := sb\<rparr>, rc)"
        using False less.prems(4) next' done' complete
        by (cases "candidate_of (sr_body sr)") (auto simp: next_chunk_def follows_def candidate_finish_def)
      with False complete less.prems(1) show ?thesis by (auto simp: loop buffer_outcome_def)
    qed
  next
    case (chunk c)
    note step = body_next_Some [OF next' [unfolded chunk]] body_next_complete(1) [OF next' chunk]
    show ?thesis
    proof (cases "body_push c acc")
      case (Inl x)
      have "next_chunk sr rc = Some (Inr (Some c), sr\<lparr>sr_body := sb\<rparr>, rc)"
        using next' chunk step(2) by (simp add: next_chunk_def)
      with Inl less.prems(1) show ?thesis by (simp add: loop buffer_outcome_def)
    next
      case (Inr acc')
      have acc': "b_bytes acc' = b_bytes acc @ c" "b_limit acc' = b_limit acc" "length (b_bytes acc') \<le> b_limit acc"
        using body_push_Inr [OF Inr less.prems(3)] by auto
      have eq: "buffer_loop sr acc rc = buffer_loop (sr\<lparr>sr_body := sb\<rparr>) acc' rc"
        using next' chunk step(2) Inr by (simp add: loop next_chunk_def)
      have "body_left (sr_body (sr\<lparr>sr_body := sb\<rparr>)) < body_left (sr_body sr)"
        using step(1) less.prems(2) by simp
      moreover have "body_wf (sr_body (sr\<lparr>sr_body := sb\<rparr>))" using step(3) less.prems(2) by simp
      moreover have "b_limit acc' < u64_max" using acc'(2) less.prems(3) by simp
      moreover have "follows e (b_bytes acc') ca" if ca: "candidate_of (sr_body (sr\<lparr>sr_body := sb\<rparr>)) = Some ca" for ca
      proof -
        from ca step(5) obtain ca0 where "candidate_of (sr_body sr) = Some ca0" "ca = candidate_push c ca0" by auto
        with less.prems(4) candidate_push_follows acc'(1) show ?thesis by simp
      qed
      ultimately obtain r' rc' where run: "buffer_loop (sr\<lparr>sr_body := sb\<rparr>) acc' rc = Some (r', rc')" "cache_inv rc'"
        "buffer_outcome e (candidate_of (sr_body (sr\<lparr>sr_body := sb\<rparr>)) \<noteq> None) acc' rc r' rc'"
        using less.hyps [OF _ less.prems(1), of "sr\<lparr>sr_body := sb\<rparr>" acc'] by blast
      then have "buffer_outcome e (candidate_of (sr_body sr) \<noteq> None) acc rc r' rc'"
        using acc' step(5) by (simp add: buffer_outcome_def split: sum.splits)
      with run(1,2) eq show ?thesis by auto
    qed
  qed
qed


section \<open>Properties\<close>

text \<open>C35: Only complete bodies are cached, exactly as delivered. Buffering a response that is streamed from the
  network always returns, whatever the connection answers to each read; a body it delivers is within the
  request's budget. When it fails, the HTTP cache is unchanged; when it succeeds, the cache changes by the
  insertion of the response with exactly the delivered body, or not at all if that is more than 2 MiB.\<close>

theorem only_complete_bodies_are_cached:
  assumes "cache_inv rc" "sr_body_limit sr < u64_max"
    and "sr_body sr = NetworkBody b (Some \<lparr>ca_response = e, ca_permitted = True\<rparr>)" "cr_body e = []"
  shows "\<exists>r rc'. into_buffered sr rc = Some (r, rc') \<and> cache_inv rc' \<and>
    (case r of
       Inl _ \<Rightarrow> rc' = rc
     | Inr rs \<Rightarrow> length (b_bytes (rs_body rs)) \<le> sr_body_limit sr \<and>
         (if length (b_bytes (rs_body rs)) \<le> MAX_ENTRY_BYTES
          then cache_insert (e\<lparr>cr_body := b_bytes (rs_body rs)\<rparr>) rc = Some rc' else rc' = rc))"
proof -
  have "follows e (b_bytes (body_empty (sr_body_limit sr))) ca" if "candidate_of (sr_body sr) = Some ca" for ca
    using that assms(3,4) by (auto simp: candidate_of_def follows_def body_empty_def)
  then obtain r rc' where "buffer_loop sr (body_empty (sr_body_limit sr)) rc = Some (r, rc')" "cache_inv rc'"
    "buffer_outcome e (candidate_of (sr_body sr) \<noteq> None) (body_empty (sr_body_limit sr)) rc r rc'"
    using buffer_loop_result [OF assms(1), of sr "body_empty (sr_body_limit sr)" e] assms(2,3)
    by (auto simp: body_wf_def body_empty_def)
  then show ?thesis
    using assms(3)
    by (auto simp: into_buffered_def buffer_outcome_def candidate_of_def body_empty_def split: sum.splits)
qed

text \<open>A connection that answers every read with the same byte until the third, which is the end of the body.\<close>

definition sample_stream :: body_stream where
  "sample_stream =
     \<lparr>bs_reads = (\<lambda>n. \<lparr>re_aborted_before = {}, re_available = Inr 1, re_data = Inr (if n < 2 then [7] else []),
        re_aborted_after = {}\<rparr>),
      bs_index = 0, bs_signal = [0], bs_limit = 16, bs_received = 0, bs_finished = False\<rparr>"

definition sample_streaming :: streaming_response where
  "sample_streaming =
     \<lparr>sr_type = Basic, sr_url_list = [], sr_status = 200, sr_headers = [],
      sr_body = NetworkBody sample_stream
        (Some \<lparr>ca_response = sample_response (sample_request ''GET''), ca_permitted = True\<rparr>), sr_body_limit = 16\<rparr>"

lemma sample_run:
  "\<exists>rc'. buffer_loop sample_streaming (body_empty 16) response_cache_default =
     Some (Inr \<lparr>b_bytes = [7, 7], b_cursor = 0, b_limit = 16\<rparr>, rc')"
proof -
  obtain rc' where rc': "cache_insert ((sample_response (sample_request ''GET''))\<lparr>cr_body := [7, 7]\<rparr>) response_cache_default = Some rc'"
    using cache_insert_some [OF cache_inv_default] by blast
  have "cr_body (sample_response (sample_request ''GET'')) = []" by (simp add: sample_response_def)
  note eval = next_chunk_def body_next_def transport_next_chunk_def read_chunk_def signal_check_def signal_is_aborted_def
    sample_stream_def sample_streaming_def body_empty_def body_push_def saturating_add_def checked_add_def limit_simps Let_def
    candidate_push_def candidate_finish_def rc' this
  show ?thesis
    apply (subst buffer_loop.simps, simp add: eval)
    apply (subst buffer_loop.simps, simp add: eval)
    apply (subst buffer_loop.simps, simp add: eval)
    done
qed

theorem only_complete_bodies_are_cached_witness:
  "\<exists>rs rc'. into_buffered sample_streaming response_cache_default = Some (Inr rs, rc') \<and> b_bytes (rs_body rs) = [7, 7] \<and>
     cache_inv rc' \<and>
     cache_insert ((sample_response (sample_request ''GET''))\<lparr>cr_body := [7, 7]\<rparr>) response_cache_default = Some rc'"
proof -
  obtain rc' where "buffer_loop sample_streaming (body_empty 16) response_cache_default =
     Some (Inr \<lparr>b_bytes = [7, 7], b_cursor = 0, b_limit = 16\<rparr>, rc')"
    using sample_run by blast
  then have run: "into_buffered sample_streaming response_cache_default =
    Some (Inr \<lparr>rs_type = Basic, rs_url_list = [], rs_status = 200, rs_headers = [],
      rs_body = \<lparr>b_bytes = [7, 7], b_cursor = 0, b_limit = 16\<rparr>\<rparr>, rc')"
    by (simp add: into_buffered_def) (simp add: sample_streaming_def)
  with only_complete_bodies_are_cached [OF cache_inv_default, of sample_streaming sample_stream
      "sample_response (sample_request ''GET'')"]
  show ?thesis by (simp add: sample_streaming_def sample_response_def limit_simps)
qed

end
