(* ===== verification/Fetch_Metadata.thy ===== *)
theory Fetch_Metadata
  imports Fetch_Cors Cookie_Parse
begin

text \<open>
  \<^verbatim>\<open>src/winhttp/pipeline/metadata.rs\<close> and the request rules of \<^verbatim>\<open>src/winhttp/pipeline.rs\<close>: the Fetch
  Metadata headers, when an Origin or a Referer header goes out and which, when credentials may, and how a
  redirect rewrites the request.
\<close>

section \<open>Fetch Metadata\<close>

definition is_loopback_host :: "string \<Rightarrow> bool" where
  "is_loopback_host h \<longleftrightarrow>
     h = ''localhost'' \<or> ends_with h ''.localhost'' \<or>
     (case parse_ip h of None \<Rightarrow> False | Some a \<Rightarrow> is_loopback a)"

definition destination_name :: "fetch_request \<Rightarrow> string" where
  "destination_name r =
     (case fr_destination r of
        DocumentDest \<Rightarrow> if rc_id (fr_resulting_client r) \<noteq> 0 then ''iframe'' else ''document''
      | ObjectDest \<Rightarrow> ''object''
      | StyleDest \<Rightarrow> ''style''
      | ImageDest \<Rightarrow> ''image''
      | ScriptDest \<Rightarrow> ''script''
      | WorkerDest \<Rightarrow> ''worker''
      | FontDest \<Rightarrow> ''font''
      | FetchDest \<Rightarrow> ''empty''
      | VideoDest \<Rightarrow> ''video''
      | AudioDest \<Rightarrow> ''audio'')"

fun mode_name :: "request_mode \<Rightarrow> string" where
  "mode_name NavigateMode = ''navigate''"
| "mode_name SameOriginMode = ''same-origin''"
| "mode_name NoCorsMode = ''no-cors''"
| "mode_name CorsMode = ''cors''"

fun site_loop :: "site_crates \<Rightarrow> origin \<Rightarrow> parsed_url \<Rightarrow> string \<Rightarrow> fetch_url list \<Rightarrow> string" where
  "site_loop S org source relation [] = relation"
| "site_loop S org source relation (u # us) =
     (case fetch_url_parsed u of
        None \<Rightarrow> ''cross-site''
      | Some target \<Rightarrow>
          if is_same_origin org (fu_origin u) then site_loop S org source relation us
          else if \<not> same_site_urls S source target then ''cross-site''
          else site_loop S org source ''same-site'' us)"

definition request_site :: "'u url_crate_scheme \<Rightarrow> site_crates \<Rightarrow> fetch_request \<Rightarrow> fetch_url list \<Rightarrow> string" where
  "request_site U S r url_list =
     (case fr_origin r of
        None \<Rightarrow> if fr_mode r = NavigateMode then ''none'' else ''cross-site''
      | Some org \<Rightarrow>
          (case parsed_url_parse U (origin_serialize org @ ''/'') of
             Inl _ \<Rightarrow> ''cross-site''
           | Inr source \<Rightarrow> site_loop S org source ''same-origin'' url_list))"

definition append_fetch_metadata ::
  "'u url_crate_scheme \<Rightarrow> site_crates \<Rightarrow> fetch_request \<Rightarrow> fetch_url list \<Rightarrow> header_list \<Rightarrow> fetch_error + header_list" where
  "append_fetch_metadata U S r url_list hs0 =
     and_then (if fr_context r = PrefetchContext then headers_set_ok ''sec-purpose'' ''prefetch'' hs0 else Inr hs0) (\<lambda>hs1.
       case fetch_url_parsed (fr_url r) of
         None \<Rightarrow> Inr hs1
       | Some target \<Rightarrow>
           if scheme target \<noteq> ''https'' \<and> \<not> is_loopback_host (host target) then Inr hs1
           else
             and_then (headers_set_ok ''sec-fetch-dest'' (destination_name r) hs1) (\<lambda>hs2.
             and_then (headers_set_ok ''sec-fetch-mode'' (mode_name (fr_mode r)) hs2) (\<lambda>hs3.
             and_then (headers_set_ok ''sec-fetch-site'' (request_site U S r url_list) hs3) (\<lambda>hs4.
               if fr_mode r = NavigateMode \<and> fr_user_activation r
               then headers_set_ok ''sec-fetch-user'' ''?1'' hs4 else Inr hs4))))"

section \<open>Credentials, origin and referrer\<close>

definition cross_origin :: "fetch_request \<Rightarrow> origin \<Rightarrow> bool" where
  "cross_origin r org \<longleftrightarrow> \<not> is_same_origin org (fu_origin (fr_url r))"

definition is_secure_origin :: "origin \<Rightarrow> bool" where
  "is_secure_origin o' = (case o' of Tuple s _ _ \<Rightarrow> s = ''https'' | Opaque _ \<Rightarrow> False)"

definition is_secure_fetch_url :: "fetch_url \<Rightarrow> bool" where
  "is_secure_fetch_url u = (case fetch_url_parsed u of None \<Rightarrow> False | Some p \<Rightarrow> scheme p = ''https'')"

definition credentials_permitted :: "fetch_request \<Rightarrow> bool" where
  "credentials_permitted r =
     (case fr_credentials r of
        OmitCredentials \<Rightarrow> False
      | IncludeCredentials \<Rightarrow> True
      | SameOriginCredentials \<Rightarrow>
          (case fr_origin r of None \<Rightarrow> False | Some org \<Rightarrow> is_same_origin org (fu_origin (fr_url r))))"

definition should_send_origin :: "fetch_request \<Rightarrow> bool" where
  "should_send_origin r =
     (if needs_cors_check r \<and> fr_mode r = CorsMode then True
      else if fr_method r \<in> set [''GET'', ''HEAD''] then False
      else case fr_origin r of
        None \<Rightarrow> False
      | Some org \<Rightarrow>
          let downgrade = (is_secure_origin org \<and> \<not> is_secure_fetch_url (fr_url r))
          in (case fr_referrer_policy r of
                NoReferrerPolicy \<Rightarrow> False
              | NoReferrerWhenDowngrade \<Rightarrow> \<not> downgrade
              | StrictOrigin \<Rightarrow> \<not> downgrade
              | StrictOriginWhenCrossOrigin \<Rightarrow> \<not> downgrade
              | SameOriginReferrer \<Rightarrow> \<not> cross_origin r org
              | _ \<Rightarrow> True))"

definition referrer_header :: "fetch_request \<Rightarrow> string option" where
  "referrer_header r =
     (case fr_referrer r of
        NoReferrer \<Rightarrow> None
      | ReferrerUrl source \<Rightarrow>
          let same_origin = is_same_origin (fu_origin source) (fu_origin (fr_url r));
              downgrade = (is_secure_fetch_url source \<and> \<not> is_secure_fetch_url (fr_url r));
              full = fu_serialized source;
              org = origin_serialize (fu_origin source) @ ''/''
          in (case fr_referrer_policy r of
                NoReferrerPolicy \<Rightarrow> None
              | NoReferrerWhenDowngrade \<Rightarrow> if \<not> downgrade then Some full else None
              | SameOriginReferrer \<Rightarrow> if same_origin then Some full else None
              | OriginReferrer \<Rightarrow> Some org
              | StrictOrigin \<Rightarrow> if \<not> downgrade then Some org else None
              | OriginWhenCrossOrigin \<Rightarrow> Some (if same_origin then full else org)
              | StrictOriginWhenCrossOrigin \<Rightarrow>
                  if same_origin then Some full else if downgrade then None else Some org
              | UnsafeUrl \<Rightarrow> Some full))"

section \<open>Redirects\<close>

definition is_redirect_status :: "nat \<Rightarrow> bool" where
  "is_redirect_status s \<longleftrightarrow> s \<in> set [301, 302, 303, 307, 308]"

definition rewrite_redirect_method :: "nat \<Rightarrow> fetch_request \<Rightarrow> fetch_request" where
  "rewrite_redirect_method s r =
     (if s = 303 \<and> fr_method r \<noteq> ''GET'' \<and> fr_method r \<noteq> ''HEAD''
         \<or> (s = 301 \<or> s = 302) \<and> fr_method r = ''POST''
      then r\<lparr>fr_method := ''GET'', fr_body := None,
             fr_headers := headers_remove ''content-type'' (headers_remove ''content-location''
               (headers_remove ''content-language'' (headers_remove ''content-encoding'' (fr_headers r))))\<rparr>
      else r)"

end
