(* ===== verification/Cookie_Store.thy ===== *)
theory Cookie_Store
  imports Cookie_Parse "HOL-Library.Sublist"
begin

text \<open>
  \<^verbatim>\<open>src/winhttp/cookies/store.rs\<close>, the request policy of \<^verbatim>\<open>cookies.rs\<close> and \<^verbatim>\<open>persistence.rs\<close>: the jar, its
  bounds and versions, what is sent with a request and shown to a document, and the jar on disk. The JSON
  crate is a parameter (a writer and a reader of the persisted record); the wall clock is read once to parse,
  once to purge and once to save, and those readings are arguments.
\<close>

definition MAX_COOKIES :: nat where [limit_simps]: "MAX_COOKIES = 3000"
definition MAX_COOKIES_PER_DOMAIN :: nat where [limit_simps]: "MAX_COOKIES_PER_DOMAIN = 180"
definition MAX_COOKIE_HEADER_BYTES :: nat where [limit_simps]: "MAX_COOKIE_HEADER_BYTES = 64 * 1024"
definition MAX_PERSISTED_COOKIE_BYTES :: nat where [limit_simps]: "MAX_PERSISTED_COOKIE_BYTES = 16 * 1024 * 1024"

section \<open>Same-site policy\<close>

definition request_is_same_site :: "'u url_crate_scheme \<Rightarrow> site_crates \<Rightarrow> fetch_request \<Rightarrow> bool" where
  "request_is_same_site U S r =
     (case fr_origin r of
        None \<Rightarrow> True
      | Some o' \<Rightarrow>
          (case parsed_url_parse U (origin_serialize o' @ ''/'') of
             Inl _ \<Rightarrow> False
           | Inr source \<Rightarrow>
               (case fetch_url_parsed (fr_url r) of
                  None \<Rightarrow> False
                | Some target \<Rightarrow> same_site_urls S source target)))"

definition same_site_allows_request :: "'u url_crate_scheme \<Rightarrow> site_crates \<Rightarrow> cookie \<Rightarrow> fetch_request \<Rightarrow> bool" where
  "same_site_allows_request U S c r =
     (if c_same_site c = SiteNone \<or> fr_origin r = None then True
      else if request_is_same_site U S r then True
      else c_same_site c \<in> {SiteLax, SiteDefault} \<and> fr_context r = NavigationContext
           \<and> fr_method r \<in> set [''GET'', ''HEAD'', ''OPTIONS''])"

definition same_site_allows_setting :: "'u url_crate_scheme \<Rightarrow> site_crates \<Rightarrow> cookie \<Rightarrow> fetch_request \<Rightarrow> bool" where
  "same_site_allows_setting U S c r \<longleftrightarrow>
     c_same_site c = SiteNone \<or> fr_origin r = None \<or> request_is_same_site U S r
     \<or> fr_context r = NavigationContext"

section \<open>The header\<close>

text \<open>The stable sort by path length, longest first, and then creation.\<close>

definition sort_for_header :: "cookie list \<Rightarrow> cookie list" where
  "sort_for_header cs = sort_key (\<lambda>c. - int (length (c_path c))) (sort_key c_creation cs)"

definition cookie_pair :: "cookie \<Rightarrow> string" where
  "cookie_pair c = (if c_name c = [] then c_value c else c_name c @ ''='' @ c_value c)"

fun cookie_pairs_loop :: "string \<Rightarrow> cookie list \<Rightarrow> string" where
  "cookie_pairs_loop header [] = header"
| "cookie_pairs_loop header (c # cs) =
     (let pair = cookie_pair c;
          separator = (if header \<noteq> [] then 2 else 0)
      in if saturating_add (saturating_add (length header) separator) (length pair) > MAX_COOKIE_HEADER_BYTES
         then header
         else cookie_pairs_loop (header @ (if separator \<noteq> 0 then ''; '' else []) @ pair) cs)"

definition cookie_pairs :: "cookie list \<Rightarrow> string" where
  "cookie_pairs cs = cookie_pairs_loop [] cs"

section \<open>The jar\<close>

record cookie_state =
  cs_cookies :: "cookie list"
  cs_next_creation :: nat
  cs_version :: nat

definition cookie_state_default :: cookie_state where
  "cookie_state_default = \<lparr>cs_cookies = [], cs_next_creation = 1, cs_version = 1\<rparr>"

definition next_or_one :: "nat \<Rightarrow> nat" where
  "next_or_one n = (case checked_add n 1 of None \<Rightarrow> 1 | Some m \<Rightarrow> m)"

definition allocate_creation :: "cookie_state \<Rightarrow> nat \<times> cookie_state" where
  "allocate_creation st =
     (cs_next_creation st, st\<lparr>cs_next_creation := next_or_one (cs_next_creation st)\<rparr>)"

definition advance_version :: "cookie_state \<Rightarrow> cookie_state" where
  "advance_version st = st\<lparr>cs_version := next_or_one (cs_version st)\<rparr>"

definition purge_expired :: "time \<Rightarrow> cookie_state \<Rightarrow> bool \<times> cookie_state" where
  "purge_expired now st =
     (let kept = filter (\<lambda>c. \<not> is_expired now c) (cs_cookies st);
          changed = (length kept \<noteq> length (cs_cookies st));
          st' = st\<lparr>cs_cookies := kept\<rparr>
      in (changed, if changed then advance_version st' else st'))"

text \<open>The first cookie with the least creation number among those selected is removed.\<close>

fun oldest_index :: "(cookie \<Rightarrow> bool) \<Rightarrow> nat \<Rightarrow> cookie list \<Rightarrow> (nat \<times> nat) option" where
  "oldest_index p i [] = None"
| "oldest_index p i (c # cs) =
     (let rest = oldest_index p (Suc i) cs
      in if p c then
           (case rest of
              None \<Rightarrow> Some (i, c_creation c)
            | Some (j, n) \<Rightarrow> if n < c_creation c then Some (j, n) else Some (i, c_creation c))
         else rest)"

definition remove_oldest :: "(cookie \<Rightarrow> bool) \<Rightarrow> cookie list \<Rightarrow> cookie list" where
  "remove_oldest p cs =
     (case oldest_index p 0 cs of
        None \<Rightarrow> cs
      | Some (i, _) \<Rightarrow> take i cs @ drop (Suc i) cs)"

definition evict_for_domain_limit :: "string \<Rightarrow> cookie list \<Rightarrow> cookie list" where
  "evict_for_domain_limit domain cs =
     (if length (filter (\<lambda>c. c_domain c = domain) cs) \<ge> MAX_COOKIES_PER_DOMAIN
      then remove_oldest (\<lambda>c. c_domain c = domain) cs else cs)"

definition same_cookie :: "cookie \<Rightarrow> cookie \<Rightarrow> bool" where
  "same_cookie c stored \<longleftrightarrow>
     c_name stored = c_name c \<and> c_domain stored = c_domain c \<and> c_path stored = c_path c
     \<and> c_host_only stored = c_host_only c"

definition rejects_overlay :: "cookie \<Rightarrow> bool \<Rightarrow> cookie list \<Rightarrow> bool" where
  "rejects_overlay c source_secure cs \<longleftrightarrow>
     \<not> c_secure c \<and> \<not> source_secure \<and>
     list_ex (\<lambda>stored. c_secure stored \<and> c_name stored = c_name c \<and>
       (domain_matches (c_domain stored) (c_domain c) \<or> domain_matches (c_domain c) (c_domain stored)) \<and>
       cookie_path_matches (c_path c) (c_path stored)) cs"

text \<open>A cookie is pushed once there is room for it in its domain and in the jar.\<close>

definition push_cookie :: "cookie \<Rightarrow> cookie list \<Rightarrow> cookie list" where
  "push_cookie c others =
     (let room = evict_for_domain_limit (c_domain c) others
      in (if length room \<ge> MAX_COOKIES then remove_oldest (\<lambda>_. True) room else room) @ [c])"

text \<open>\<^verbatim>\<open>store_cookie\<close> on the jar in memory: the new jar and whether it changed.\<close>

definition store_cookie_state ::
  "time \<Rightarrow> cookie \<Rightarrow> bool \<Rightarrow> bool \<Rightarrow> bool \<Rightarrow> cookie_state \<Rightarrow> bool \<times> cookie_state" where
  "store_cookie_state now c0 expired from_http source_secure st0 =
     (case purge_expired now st0 of
        (purged, st1) \<Rightarrow>
          if \<not> from_http \<and> list_ex (\<lambda>s. same_cookie c0 s \<and> c_http_only s) (cs_cookies st1)
             \<or> rejects_overlay c0 source_secure (cs_cookies st1)
          then (purged, st1)
          else
            let existing = find (same_cookie c0) (cs_cookies st1)
            in case (case existing of
                       Some s \<Rightarrow> (c_creation s, st1) | None \<Rightarrow> allocate_creation st1) of
                 (creation, st2) \<Rightarrow>
                   let c = c0\<lparr>c_creation := creation\<rparr>;
                       others = filter (\<lambda>s. \<not> same_cookie c0 s) (cs_cookies st2)
                   in if \<not> expired then
                        (True, advance_version (st2\<lparr>cs_cookies := push_cookie c others\<rparr>))
                      else
                        let changed = (purged \<or> existing \<noteq> None);
                            st3 = st2\<lparr>cs_cookies := others\<rparr>
                        in (changed, if changed then advance_version st3 else st3))"

section \<open>The jar on disk\<close>

record persisted_cookie =
  pc_name :: string
  pc_value :: string
  pc_domain :: string
  pc_path :: string
  pc_secure :: bool
  pc_host_only :: bool
  pc_http_only :: bool
  pc_same_site :: nat
  pc_expires :: nat
  pc_creation :: nat

record persisted_jar =
  pj_format_version :: nat
  pj_version :: nat
  pj_next_creation :: nat
  pj_cookies :: "persisted_cookie list"

record cookie_codec =
  ck_write :: "persisted_jar \<Rightarrow> string + bytes"
  ck_read :: "bytes \<Rightarrow> string + persisted_jar"

definition same_site_tag :: "same_site \<Rightarrow> nat" where
  "same_site_tag s = (case s of SiteDefault \<Rightarrow> 1 | SiteStrict \<Rightarrow> 2 | SiteLax \<Rightarrow> 3 | SiteNone \<Rightarrow> 4)"

definition decode_same_site :: "nat \<Rightarrow> string + same_site" where
  "decode_same_site t =
     (if t = 1 then Inr SiteDefault else if t = 2 then Inr SiteStrict else if t = 3 then Inr SiteLax
      else if t = 4 then Inr SiteNone else Inl ''invalid persistent cookie SameSite value'')"

definition from_cookie :: "time \<Rightarrow> cookie \<Rightarrow> persisted_cookie option" where
  "from_cookie now c =
     (case c_expires c of
        None \<Rightarrow> None
      | Some e \<Rightarrow>
          if e \<le> now then None
          else if e < 0 then None
          else Some \<lparr>pc_name = c_name c, pc_value = c_value c, pc_domain = c_domain c, pc_path = c_path c,
                 pc_secure = c_secure c, pc_host_only = c_host_only c, pc_http_only = c_http_only c,
                 pc_same_site = same_site_tag (c_same_site c), pc_expires = nat (e div ticks_per_second),
                 pc_creation = c_creation c\<rparr>)"

fun contains_dots :: "string \<Rightarrow> bool" where
  "contains_dots (a # b # s) \<longleftrightarrow> a = CHR ''.'' \<and> b = CHR ''.'' \<or> contains_dots (b # s)"
| "contains_dots _ \<longleftrightarrow> False"

definition persisted_prefix_rules_invalid :: "persisted_cookie \<Rightarrow> bool" where
  "persisted_prefix_rules_invalid p \<longleftrightarrow>
     starts_with_ascii_case_insensitive (pc_name p) ''__Secure-'' \<and> \<not> pc_secure p
     \<or> starts_with_ascii_case_insensitive (pc_name p) ''__Host-''
       \<and> (\<not> pc_secure p \<or> \<not> pc_host_only p \<or> pc_path p \<noteq> ''/'')
     \<or> pc_name p = [] \<and> (starts_with_ascii_case_insensitive (pc_value p) ''__Secure-''
                          \<or> starts_with_ascii_case_insensitive (pc_value p) ''__Host-'')"

definition invalid_cookie_byte :: "char \<Rightarrow> bool" where
  "invalid_cookie_byte c \<longleftrightarrow> byte c \<le> 0x1f \<or> byte c = 0x7f \<or> c = CHR '';''"

definition persisted_cookie_invalid :: "site_crates \<Rightarrow> persisted_cookie \<Rightarrow> bool" where
  "persisted_cookie_invalid S p \<longleftrightarrow>
     saturating_add (length (pc_name p)) (length (pc_value p)) > 4096
     \<or> pc_domain p = [] \<or> length (pc_domain p) > 253 \<or> \<not> is_ascii (pc_domain p)
     \<or> pc_domain p \<noteq> to_ascii_lowercase (pc_domain p)
     \<or> starts_with (pc_domain p) ''.'' \<or> ends_with (pc_domain p) ''.'' \<or> contains_dots (pc_domain p)
     \<or> \<not> starts_with (pc_path p) ''/'' \<or> length (pc_path p) > 1024 \<or> pc_creation p = 0
     \<or> \<not> pc_host_only p \<and> public_suffix S (pc_domain p)
     \<or> pc_same_site p = 4 \<and> \<not> pc_secure p
     \<or> persisted_prefix_rules_invalid p
     \<or> list_ex invalid_cookie_byte (pc_name p @ pc_value p)"

definition into_cookie :: "site_crates \<Rightarrow> time \<Rightarrow> persisted_cookie \<Rightarrow> string + cookie option" where
  "into_cookie S now p =
     (if persisted_cookie_invalid S p then Inl ''invalid persistent cookie''
      else
        and_then (ok_or (time_add 0 (seconds (pc_expires p))) ''invalid persistent cookie expiry'') (\<lambda>expires.
          if expires \<le> now then Inr None
          else if expires > time_add_or_same now MAX_PERSISTENT_AGE
          then Inl ''persistent cookie expiry exceeds four hundred days''
          else and_then (decode_same_site (pc_same_site p)) (\<lambda>s.
            Inr (Some \<lparr>c_name = pc_name p, c_value = pc_value p, c_domain = pc_domain p, c_path = pc_path p,
              c_secure = pc_secure p, c_host_only = pc_host_only p, c_http_only = pc_http_only p,
              c_same_site = s, c_expires = Some expires, c_creation = pc_creation p\<rparr>))))"

text \<open>
  The loop of \<^verbatim>\<open>into_state\<close>: the identities and creation numbers met so far are those of the cookies
  accepted so far, and the count of a domain is how many of them have it.
\<close>

fun into_state_loop :: "site_crates \<Rightarrow> time \<Rightarrow> cookie list \<Rightarrow> nat \<Rightarrow> persisted_cookie list \<Rightarrow>
    string + cookie list \<times> nat" where
  "into_state_loop S now done' greatest [] = Inr (done', greatest)"
| "into_state_loop S now done' greatest (p # ps) =
     and_then (into_cookie S now p) (\<lambda>r.
       case r of
         None \<Rightarrow> into_state_loop S now done' greatest ps
       | Some c \<Rightarrow>
           if list_ex (same_cookie c) done' \<or> list_ex (\<lambda>d. c_creation d = c_creation c) done'
              \<or> length (filter (\<lambda>d. c_domain d = c_domain c) done') + 1 > MAX_COOKIES_PER_DOMAIN
           then Inl ''invalid persistent cookie collection''
           else into_state_loop S now (done' @ [c]) (max greatest (c_creation c)) ps)"

definition into_state :: "site_crates \<Rightarrow> time \<Rightarrow> persisted_jar \<Rightarrow> string + cookie_state" where
  "into_state S now j =
     (if pj_format_version j \<noteq> 1 \<or> pj_version j = 0 \<or> pj_next_creation j = 0
         \<or> length (pj_cookies j) > MAX_COOKIES
      then Inl ''invalid persistent cookie metadata''
      else and_then (into_state_loop S now [] 0 (pj_cookies j)) (\<lambda>(cookies, greatest).
        Inr \<lparr>cs_cookies = cookies, cs_next_creation = max (pj_next_creation j) (next_or_one greatest),
             cs_version = pj_version j\<rparr>))"

definition load_cookie_file :: "cookie_codec \<Rightarrow> site_crates \<Rightarrow> time \<Rightarrow> file_state \<Rightarrow> string + cookie_state option" where
  "load_cookie_file K S now f =
     (case f of
        Missing \<Rightarrow> Inr None
      | Unreadable e \<Rightarrow> Inl e
      | Content b \<Rightarrow>
          if length b > MAX_PERSISTED_COOKIE_BYTES
          then Inl ''persistent cookie state exceeded its byte budget''
          else and_then (ck_read K b) (\<lambda>disk. map_sum id Some (into_state S now disk)))"

definition load_cookies :: "cookie_codec \<Rightarrow> site_crates \<Rightarrow> time \<Rightarrow> files \<Rightarrow> string + cookie_state" where
  "load_cookies K S now fs = load_recoverable (load_cookie_file K S now) cookie_state_default fs"

definition persisted_jar_of :: "time \<Rightarrow> cookie_state \<Rightarrow> persisted_jar" where
  "persisted_jar_of now st =
     \<lparr>pj_format_version = 1, pj_version = cs_version st, pj_next_creation = cs_next_creation st,
      pj_cookies = List.map_filter (from_cookie now) (cs_cookies st)\<rparr>"

definition save_cookies :: "cookie_codec \<Rightarrow> io_env \<Rightarrow> time \<Rightarrow> cookie_state \<Rightarrow> files \<Rightarrow> (string + unit) \<times> files" where
  "save_cookies K io now st fs =
     (case ck_write K (persisted_jar_of now st) of
        Inl e \<Rightarrow> (Inl e, fs)
      | Inr b \<Rightarrow>
          if length b > MAX_PERSISTED_COOKIE_BYTES
          then (Inl ''persistent cookie state exceeded its byte budget'', fs)
          else write_recoverable False io fs b)"

section \<open>The store\<close>

record cookie_store =
  ks_state :: cookie_state
  ks_path :: bool \<comment> \<open>whether the jar has a file\<close>
  ks_files :: files

record clock =
  at_parse :: time
  at_purge :: time
  at_save :: time

definition store_in_memory :: "files \<Rightarrow> cookie_store" where
  "store_in_memory fs = \<lparr>ks_state = cookie_state_default, ks_path = False, ks_files = fs\<rparr>"

definition store_open :: "cookie_codec \<Rightarrow> site_crates \<Rightarrow> time \<Rightarrow> files \<Rightarrow> string + cookie_store" where
  "store_open K S now fs =
     and_then (load_cookies K S now fs) (\<lambda>st. Inr \<lparr>ks_state = st, ks_path = True, ks_files = fs\<rparr>)"

definition persist :: "cookie_codec \<Rightarrow> io_env \<Rightarrow> time \<Rightarrow> cookie_store \<Rightarrow> (string + unit) \<times> cookie_store" where
  "persist K io now ks =
     (if \<not> ks_path ks then (Inr (), ks)
      else case save_cookies K io now (ks_state ks) (ks_files ks) of
        (r, fs) \<Rightarrow> (r, ks\<lparr>ks_files := fs\<rparr>))"

definition persist_if :: "bool \<Rightarrow> cookie_codec \<Rightarrow> io_env \<Rightarrow> time \<Rightarrow> cookie_store \<Rightarrow> (string + unit) \<times> cookie_store" where
  "persist_if changed K io now ks = (if changed then persist K io now ks else (Inr (), ks))"

definition store_cookie ::
  "cookie_codec \<Rightarrow> io_env \<Rightarrow> clock \<Rightarrow> cookie \<Rightarrow> bool \<Rightarrow> bool \<Rightarrow> bool \<Rightarrow> cookie_store \<Rightarrow>
   (string + unit) \<times> cookie_store" where
  "store_cookie K io t c expired from_http source_secure ks =
     (case store_cookie_state (at_purge t) c expired from_http source_secure (ks_state ks) of
        (changed, st) \<Rightarrow> persist_if changed K io (at_save t) (ks\<lparr>ks_state := st\<rparr>))"

definition set_document_cookie ::
  "'u url_crate_scheme \<Rightarrow> site_crates \<Rightarrow> cookie_codec \<Rightarrow> io_env \<Rightarrow> clock \<Rightarrow> string \<Rightarrow> string \<Rightarrow> cookie_store \<Rightarrow>
   (string + unit) \<times> cookie_store" where
  "set_document_cookie U S K io t document_url assignment ks =
     (case parsed_url_parse U document_url of
        Inl e \<Rightarrow> (Inl e, ks)
      | Inr parsed \<Rightarrow>
          (case parse_cookie_internal S parsed assignment False (at_parse t) of
             None \<Rightarrow> (Inr (), ks)
           | Some (c, expired) \<Rightarrow> store_cookie K io t c expired False (is_secure_url parsed) ks))"

definition store_response_cookie ::
  "'u url_crate_scheme \<Rightarrow> site_crates \<Rightarrow> cookie_codec \<Rightarrow> io_env \<Rightarrow> clock \<Rightarrow> fetch_request \<Rightarrow> string \<Rightarrow> cookie_store \<Rightarrow>
   (string + unit) \<times> cookie_store" where
  "store_response_cookie U S K io t r set_cookie ks =
     (case fetch_url_parsed (fr_url r) of
        None \<Rightarrow> (Inr (), ks)
      | Some parsed \<Rightarrow>
          (case parse_cookie_internal S parsed set_cookie True (at_parse t) of
             None \<Rightarrow> (Inr (), ks)
           | Some (c, expired) \<Rightarrow>
               if \<not> same_site_allows_setting U S c r then (Inr (), ks)
               else store_cookie K io t c expired True (is_secure_url parsed) ks))"

definition request_header ::
  "'u url_crate_scheme \<Rightarrow> site_crates \<Rightarrow> cookie_codec \<Rightarrow> io_env \<Rightarrow> clock \<Rightarrow> fetch_request \<Rightarrow> cookie_store \<Rightarrow>
   (string + string option) \<times> cookie_store" where
  "request_header U S K io t r ks =
     (case fetch_url_parsed (fr_url r) of
        None \<Rightarrow> (Inr None, ks)
      | Some parsed \<Rightarrow>
          (case purge_expired (at_purge t) (ks_state ks) of
             (changed, st) \<Rightarrow>
               let matching = filter (\<lambda>c. cookie_matches S c parsed \<and> same_site_allows_request U S c r)
                     (cs_cookies st);
                   header = cookie_pairs (sort_for_header matching)
               in case persist_if changed K io (at_save t) (ks\<lparr>ks_state := st\<rparr>) of
                    (Inl e, ks') \<Rightarrow> (Inl e, ks')
                  | (Inr _, ks') \<Rightarrow> (Inr (if header \<noteq> [] then Some header else None), ks')))"

definition document_snapshot ::
  "'u url_crate_scheme \<Rightarrow> site_crates \<Rightarrow> cookie_codec \<Rightarrow> io_env \<Rightarrow> clock \<Rightarrow> string \<Rightarrow> cookie_store \<Rightarrow>
   (string + nat \<times> string) \<times> cookie_store" where
  "document_snapshot U S K io t document_url ks =
     (case parsed_url_parse U document_url of
        Inl e \<Rightarrow> (Inl e, ks)
      | Inr parsed \<Rightarrow>
          (case purge_expired (at_purge t) (ks_state ks) of
             (changed, st) \<Rightarrow>
               let matching = filter (\<lambda>c. \<not> c_http_only c \<and> cookie_matches S c parsed) (cs_cookies st);
                   snapshot = (cs_version st, cookie_pairs (sort_for_header matching))
               in case persist_if changed K io (at_save t) (ks\<lparr>ks_state := st\<rparr>) of
                    (Inl e, ks') \<Rightarrow> (Inl e, ks')
                  | (Inr _, ks') \<Rightarrow> (Inr snapshot, ks')))"

section \<open>Eviction\<close>

lemma oldest_index_Some:
  "oldest_index p i cs = Some (j, n) \<Longrightarrow>
   i \<le> j \<and> j < i + length cs \<and> p (cs ! (j - i)) \<and> n = c_creation (cs ! (j - i)) \<and>
   (\<forall>c\<in>set cs. p c \<longrightarrow> n \<le> c_creation c)"
proof (induction p i cs arbitrary: j n rule: oldest_index.induct)
  case (2 p i c cs)
  show ?case
  proof (cases "oldest_index p (Suc i) cs")
    case None
    then have "\<not> p d" if "d \<in> set cs" for d
      using that
      by (induction p "Suc i" cs arbitrary: i rule: oldest_index.induct) (auto simp: Let_def split: if_splits option.splits)
    with None 2 show ?thesis by (auto simp: Let_def split: if_splits)
  next
    case (Some r)
    obtain k m where r: "r = (k, m)" by force
    from 2(1) [OF Some [unfolded r]] have IH: "Suc i \<le> k" "k < Suc i + length cs" "p (cs ! (k - Suc i))"
      "m = c_creation (cs ! (k - Suc i))" "\<forall>c\<in>set cs. p c \<longrightarrow> m \<le> c_creation c" by auto
    then have "(c # cs) ! (k - i) = cs ! (k - Suc i)" by (simp add: nth_Cons')
    with IH 2(2) Some r show ?thesis
      by (auto simp: Let_def split: if_splits)
  qed
qed simp

lemma oldest_index_None: "oldest_index p i cs = None \<longleftrightarrow> (\<forall>c\<in>set cs. \<not> p c)"
  by (induction p i cs rule: oldest_index.induct) (auto simp: Let_def split: option.splits)

text \<open>One cookie goes, the first of the oldest ones selected, and only if there is one.\<close>

lemma remove_oldest_cases:
  obtains "\<forall>c\<in>set cs. \<not> p c" "remove_oldest p cs = cs"
  | a c b where "cs = a @ c # b" "p c" "remove_oldest p cs = a @ b" "\<forall>d\<in>set cs. p d \<longrightarrow> c_creation c \<le> c_creation d"
proof (cases "oldest_index p 0 cs")
  case None
  with that(1) show thesis by (auto simp: oldest_index_None remove_oldest_def)
next
  case (Some r)
  obtain j n where r: "r = (j, n)" by force
  from oldest_index_Some [OF Some [unfolded r]] have j: "j < length cs" "p (cs ! j)"
    "\<forall>d\<in>set cs. p d \<longrightarrow> c_creation (cs ! j) \<le> c_creation d" by auto
  show thesis
    by (rule that(2) [of "take j cs" "cs ! j" "drop (Suc j) cs"])
      (use j Some r in \<open>auto simp: id_take_nth_drop remove_oldest_def\<close>)
qed

lemma remove_oldest_subset: "set (remove_oldest p cs) \<subseteq> set cs"
  by (rule remove_oldest_cases [where p = p and cs = cs]) auto

lemma remove_oldest_length:
  "length (remove_oldest p cs) = (if \<exists>c\<in>set cs. p c then length cs - 1 else length cs)"
  by (rule remove_oldest_cases [where p = p and cs = cs]) auto

lemma remove_oldest_distinct: "distinct (map f cs) \<Longrightarrow> distinct (map f (remove_oldest p cs))"
  by (rule remove_oldest_cases [where p = p and cs = cs]) auto

lemma remove_oldest_count: "length (filter q (remove_oldest p cs)) \<le> length (filter q cs)"
  by (rule remove_oldest_cases [where p = p and cs = cs]) auto

lemma remove_oldest_selected:
  "length (filter p cs) = Suc n \<Longrightarrow> length (filter p (remove_oldest p cs)) = n"
  by (rule remove_oldest_cases [where p = p and cs = cs]) auto

lemma evict_facts:
  "set (evict_for_domain_limit d cs) \<subseteq> set cs"
  "length (evict_for_domain_limit d cs) \<le> length cs"
  "distinct (map f cs) \<Longrightarrow> distinct (map f (evict_for_domain_limit d cs))"
  "length (filter q (evict_for_domain_limit d cs)) \<le> length (filter q cs)"
  by (simp_all add: evict_for_domain_limit_def remove_oldest_subset remove_oldest_length remove_oldest_distinct
      remove_oldest_count)

lemma evict_room:
  assumes "length (filter (\<lambda>c. c_domain c = d) cs) \<le> MAX_COOKIES_PER_DOMAIN"
  shows "length (filter (\<lambda>c. c_domain c = d) (evict_for_domain_limit d cs)) < MAX_COOKIES_PER_DOMAIN"
proof (cases "length (filter (\<lambda>c. c_domain c = d) cs) < MAX_COOKIES_PER_DOMAIN")
  case False
  with assms have "length (filter (\<lambda>c. c_domain c = d) cs) = Suc 179" by (simp add: limit_simps)
  from remove_oldest_selected [OF this] False show ?thesis by (simp add: evict_for_domain_limit_def limit_simps)
qed (simp add: evict_for_domain_limit_def)

section \<open>The invariant of the jar\<close>

definition identity :: "cookie \<Rightarrow> string \<times> string \<times> string \<times> bool" where
  "identity c = (c_name c, c_domain c, c_path c, c_host_only c)"

lemma same_cookie_identity: "same_cookie c d \<longleftrightarrow> identity c = identity d"
  by (auto simp: same_cookie_def identity_def)

definition cookie_ok :: "site_crates \<Rightarrow> cookie \<Rightarrow> bool" where
  "cookie_ok S c \<longleftrightarrow>
     length (c_name c) + length (c_value c) \<le> 4096 \<and>
     (\<forall>b\<in>set (c_name c @ c_value c). byte b \<noteq> 0 \<and> byte b \<noteq> 13 \<and> byte b \<noteq> 10 \<and> b \<noteq> CHR '';'') \<and>
     starts_with (c_path c) ''/'' \<and>
     (c_same_site c = SiteNone \<longrightarrow> c_secure c) \<and>
     (\<not> c_host_only c \<longrightarrow> \<not> public_suffix S (c_domain c)) \<and>
     (starts_with_ascii_case_insensitive (c_name c) ''__Secure-'' \<longrightarrow> c_secure c) \<and>
     (starts_with_ascii_case_insensitive (c_name c) ''__Host-'' \<longrightarrow> c_secure c \<and> c_host_only c \<and> c_path c = ''/'')"

definition jar_inv :: "site_crates \<Rightarrow> cookie_state \<Rightarrow> bool" where
  "jar_inv S st \<longleftrightarrow>
     length (cs_cookies st) \<le> MAX_COOKIES \<and>
     (\<forall>d. length (filter (\<lambda>c. c_domain c = d) (cs_cookies st)) \<le> MAX_COOKIES_PER_DOMAIN) \<and>
     distinct (map identity (cs_cookies st)) \<and>
     (\<forall>c\<in>set (cs_cookies st). cookie_ok S c)"

lemma jar_inv_default: "jar_inv S cookie_state_default"
  by (simp add: jar_inv_def cookie_state_default_def)

lemma jar_inv_version [simp]: "jar_inv S (advance_version st) = jar_inv S st"
  by (simp add: jar_inv_def advance_version_def)

lemma cs_cookies_advance [simp]: "cs_cookies (advance_version st) = cs_cookies st"
  by (simp add: advance_version_def)

lemma length_filter_conj_le: "length (filter (\<lambda>x. p x \<and> q x) xs) \<le> length (filter q xs)"
  by (induction xs) auto

lemma length_filter_all: "length (filter p xs) = length xs \<Longrightarrow> filter p xs = xs"
proof (induction xs)
  case (Cons x xs)
  then show ?case using length_filter_le [of p xs] by (cases "p x") auto
qed simp

lemma jar_inv_filter: "jar_inv S st \<Longrightarrow> jar_inv S (st\<lparr>cs_cookies := filter p (cs_cookies st)\<rparr>)"
  unfolding jar_inv_def
  by (auto intro: order_trans [OF length_filter_le] order_trans [OF length_filter_conj_le]
      simp: distinct_map inj_on_def)

lemma purge_expired_cookies:
  assumes "purge_expired now st = (ch, st')"
  shows "cs_cookies st' = filter (\<lambda>c. \<not> is_expired now c) (cs_cookies st)"
    and "cs_next_creation st' = cs_next_creation st" and "\<not> ch \<Longrightarrow> st' = st"
proof -
  show "cs_cookies st' = filter (\<lambda>c. \<not> is_expired now c) (cs_cookies st)"
    "cs_next_creation st' = cs_next_creation st"
    using assms by (auto simp: purge_expired_def Let_def advance_version_def split: if_splits)
  show "st' = st" if "\<not> ch"
    using assms that length_filter_all [of "\<lambda>c. \<not> is_expired now c" "cs_cookies st"]
    by (auto simp: purge_expired_def Let_def split: if_splits)
qed

lemma purge_expired_inv: "jar_inv S st \<Longrightarrow> purge_expired now st = (ch, st') \<Longrightarrow> jar_inv S st'"
  by (auto simp: purge_expired_def Let_def intro: jar_inv_filter split: if_splits)

lemma cookie_ok_creation [simp]: "cookie_ok S (c\<lparr>c_creation := n\<rparr>) = cookie_ok S c"
  by (simp add: cookie_ok_def)

lemma identity_creation [simp]: "identity (c\<lparr>c_creation := n\<rparr>) = identity c"
  by (simp add: identity_def)

text \<open>Room is made before a cookie is pushed, so both bounds hold after it.\<close>

lemma jar_inv_push:
  assumes "jar_inv S (st\<lparr>cs_cookies := others\<rparr>)" "cookie_ok S c" "\<forall>d\<in>set others. identity d \<noteq> identity c"
  shows "jar_inv S (st\<lparr>cs_cookies := push_cookie c others\<rparr>)"
proof -
  define room where "room = evict_for_domain_limit (c_domain c) others"
  let ?r = "if length room \<ge> MAX_COOKIES then remove_oldest (\<lambda>_. True) room else room"
  have others: "length others \<le> MAX_COOKIES" "distinct (map identity others)" "\<forall>c\<in>set others. cookie_ok S c"
    "length (filter (\<lambda>c. c_domain c = d) others) \<le> MAX_COOKIES_PER_DOMAIN" for d
    using assms(1) by (auto simp: jar_inv_def)
  have sub: "set ?r \<subseteq> set others"
    using remove_oldest_subset [of "\<lambda>_. True" room] evict_facts(1) [of "c_domain c" others] by (auto simp: room_def)
  have "length room \<le> MAX_COOKIES"
    using others(1) evict_facts(2) [of "c_domain c" others] by (simp add: room_def)
  then have len: "length ?r < MAX_COOKIES"
    by (auto simp: remove_oldest_length limit_simps ex_in_conv)
  have cnt: "length (filter q ?r) \<le> length (filter q room)" for q
    by (simp add: remove_oldest_count)
  have "length (filter (\<lambda>x. c_domain x = d) (?r @ [c])) \<le> MAX_COOKIES_PER_DOMAIN" for d
  proof (cases "d = c_domain c")
    case True
    with cnt [of "\<lambda>x. c_domain x = d"] evict_room [OF others(4), of d] show ?thesis
      by (simp add: room_def)
  next
    case False
    with cnt [of "\<lambda>x. c_domain x = d"] evict_facts(4) [of "\<lambda>x. c_domain x = d" "c_domain c" others] others(4) [of d]
    show ?thesis by (auto simp: room_def intro: order_trans)
  qed
  moreover have "distinct (map identity ?r)"
    using evict_facts(3) [OF others(2), of "c_domain c"] remove_oldest_distinct by (auto simp: room_def)
  moreover have "push_cookie c others = ?r @ [c]" by (simp add: push_cookie_def Let_def room_def)
  moreover have "\<forall>d\<in>set ?r. cookie_ok S d" "identity c \<notin> identity ` set ?r"
    using sub others(3) assms(3) by (blast, fastforce)
  ultimately show ?thesis
    using len assms(2) by (simp add: jar_inv_def)
qed

lemma store_cookie_state_inv:
  assumes "jar_inv S st" "cookie_ok S c" "store_cookie_state now c e h sec st = (ch, st')"
  shows "jar_inv S st'"
proof -
  obtain pch st1 where p: "purge_expired now st = (pch, st1)" by force
  have inv1: "jar_inv S st1" by (rule purge_expired_inv [OF assms(1) p])
  let ?others = "filter (\<lambda>s. \<not> same_cookie c s) (cs_cookies st1)"
  obtain creation st2 where c2: "(case find (same_cookie c) (cs_cookies st1) of
      Some s \<Rightarrow> (c_creation s, st1) | None \<Rightarrow> allocate_creation st1) = (creation, st2)" by force
  then have st2: "cs_cookies st2 = cs_cookies st1"
    by (auto simp: allocate_creation_def split: option.splits)
  then have inv2: "jar_inv S (st2\<lparr>cs_cookies := ?others\<rparr>)"
    using jar_inv_filter [of S st2 "\<lambda>s. \<not> same_cookie c s"] inv1 by (simp add: jar_inv_def)
  have "jar_inv S (st2\<lparr>cs_cookies := push_cookie (c\<lparr>c_creation := creation\<rparr>) ?others\<rparr>)"
    by (rule jar_inv_push [OF inv2]) (use assms(2) in \<open>auto simp: same_cookie_identity\<close>)
  with inv1 inv2 show ?thesis
    using assms(3)
    by (auto simp: store_cookie_state_def p Let_def c2 st2 split: if_splits)
qed

section \<open>What the parser accepts\<close>

lemma default_cookie_path_slash: "starts_with (default_cookie_path pq) ''/''"
proof -
  let ?p = "hd (split_on (CHR ''?'') pq)"
  show ?thesis
  proof (cases "\<not> starts_with ?p ''/'' \<or> ?p = ''/''")
    case False
    then obtain t where p: "?p = CHR ''/'' # t" by (auto simp: starts_with_iff)
    have "starts_with d ''/''" if "rsplit_once (CHR ''/'') ?p = Some (d, e)" "d \<noteq> []" for d e
    proof -
      from that(1) obtain a b where "split_once (CHR ''/'') (rev ?p) = Some (a, b)" "d = rev b" "e = rev a"
        by (auto simp: rsplit_once_def)
      with split_once_Some [of "CHR ''/''" "rev ?p" a b] have "rev ?p = a @ CHR ''/'' # rev d" by simp
      then have "?p = d @ CHR ''/'' # rev a" by (metis rev_append rev.simps(2) rev_rev_ident append.assoc append_Cons append_Nil)
      with p that(2) show ?thesis by (cases d) (auto simp: starts_with_def)
    qed
    with False show ?thesis
      by (auto simp: default_cookie_path_def Let_def starts_with_def split: option.splits)
  qed (simp add: default_cookie_path_def Let_def starts_with_def)
qed

lemma cookie_attribute_path:
  "cookie_attribute S now path a x = Some b \<Longrightarrow> starts_with path ''/'' \<Longrightarrow>
   (\<forall>p. a_path a = Some p \<longrightarrow> starts_with p ''/'') \<Longrightarrow> \<forall>p. a_path b = Some p \<longrightarrow> starts_with p ''/''"
  by (auto simp: cookie_attribute_def Let_def split: prod.splits if_splits option.splits)

lemma cookie_attribute_loop_path:
  "cookie_attribute_loop S now path a xs = Some b \<Longrightarrow> starts_with path ''/'' \<Longrightarrow>
   (\<forall>p. a_path a = Some p \<longrightarrow> starts_with p ''/'') \<Longrightarrow> \<forall>p. a_path b = Some p \<longrightarrow> starts_with p ''/''"
proof (induction xs arbitrary: a)
  case (Cons x xs)
  from Cons.prems(1) obtain m where m: "cookie_attribute S now path a x = Some m"
    "cookie_attribute_loop S now path m xs = Some b"
    by (auto split: option.splits)
  from Cons.IH [OF m(2) Cons.prems(2) cookie_attribute_path [OF m(1) Cons.prems(2,3)]] show ?case .
qed simp

lemma apply_domain_attribute_scope:
  "apply_domain_attribute S h d = Some (domain, host_only) \<Longrightarrow>
   (host_only \<longrightarrow> domain = h) \<and> (\<not> host_only \<longrightarrow> \<not> public_suffix S domain \<and> domain_matches h domain)"
  by (auto simp: apply_domain_attribute_def Let_def split: option.splits if_splits)

text \<open>The parts of a successful parse.\<close>

lemma parse_cookie_parts:
  assumes "parse_cookie_internal S parsed text http now = Some (c, expired)"
  obtains pair name0 v0 a where
    "\<not> list_ex is_excluded_control text"
    "set pair \<subseteq> set text - {CHR '';''}" "set name0 \<union> set v0 \<subseteq> set pair"
    "c_name c = trim_whitespace name0" "c_value c = trim_whitespace v0" "CHR ''='' \<notin> set name0"
    "\<not> (c_name c = [] \<and> c_value c = [])" "length (c_name c) + length (c_value c) \<le> 4096"
    "starts_with (c_path c) ''/''" "c_secure c = a_secure a" "c_http_only c = a_http_only a"
    "c_same_site c = a_same_site a"
    "apply_domain_attribute S (to_ascii_lowercase (host parsed)) (a_domain a) = Some (c_domain c, c_host_only c)"
    "c_secure c \<longrightarrow> is_secure_url parsed" "c_http_only c \<longrightarrow> http" "c_same_site c = SiteNone \<longrightarrow> c_secure c"
    "\<not> prefix_rules_violated (c_name c) (c_value c) (c_secure c) (c_host_only c) (a_path a \<noteq> None) (c_path c)"
    "c_expires c = expiry_of a now" "expired = is_expired now c"
proof -
  define pa where "pa = (case split_once (CHR '';'') text of None \<Rightarrow> (text, []) | Some p \<Rightarrow> p)"
  obtain pair attributes where pa2: "pa = (pair, attributes)" by force
  define nv where "nv = (case split_once (CHR ''='') pair of None \<Rightarrow> ([], pair) | Some p \<Rightarrow> p)"
  obtain name0 v0 where nv2: "nv = (name0, v0)" by force
  let ?path = "default_cookie_path (path_and_query parsed)"
  from assms obtain a where a: "cookie_attribute_loop S now ?path no_attributes (split_on (CHR '';'') attributes) = Some a"
    and ctl: "\<not> list_ex is_excluded_control text"
    and name: "\<not> (trim_whitespace name0 = [] \<and> trim_whitespace v0 = [])"
      "\<not> saturating_add (length (trim_whitespace name0)) (length (trim_whitespace v0)) > MAX_COOKIE_PAIR_BYTES"
    and c: "c_name c = trim_whitespace name0" "c_value c = trim_whitespace v0"
      "c_path c = (case a_path a of None \<Rightarrow> ?path | Some p \<Rightarrow> p)"
      "c_secure c = a_secure a" "c_http_only c = a_http_only a" "c_same_site c = a_same_site a"
      "apply_domain_attribute S (to_ascii_lowercase (host parsed)) (a_domain a) = Some (c_domain c, c_host_only c)"
      "c_secure c \<longrightarrow> is_secure_url parsed" "c_http_only c \<longrightarrow> http" "c_same_site c = SiteNone \<longrightarrow> c_secure c"
      "\<not> prefix_rules_violated (c_name c) (c_value c) (c_secure c) (c_host_only c) (a_path a \<noteq> None) (c_path c)"
      "c_expires c = expiry_of a now" "expired = is_expired now c"
    unfolding parse_cookie_internal_def pa_def [symmetric] pa2 prod.case nv_def [symmetric] nv2 Let_def is_expired_def
    by (auto split: if_splits option.splits prod.splits)
  have pair: "set pair \<subseteq> set text - {CHR '';''}"
    using pa2 split_once_Some [of "CHR '';''" "text" pair attributes]
    by (auto simp: pa_def split: option.splits)
  have nv3: "set name0 \<union> set v0 \<subseteq> set pair" "CHR ''='' \<notin> set name0"
    using nv2 split_once_Some [of "CHR ''=''" pair name0 v0] by (auto simp: nv_def split: option.splits)
  have "starts_with (c_path c) ''/''"
    using cookie_attribute_loop_path [OF a default_cookie_path_slash] default_cookie_path_slash
    by (auto simp: c(3) no_attributes_def split: option.splits)
  moreover have "length (c_name c) + length (c_value c) \<le> 4096"
    using name(2) by (simp add: c(1,2) not_less saturating_add_le limit_simps)
  ultimately show thesis
    using that [OF ctl pair nv3(1) c(1,2) nv3(2)] name(1) c by auto
qed

lemma set_trim_whitespace: "set (trim_whitespace s) \<subseteq> set s"
  by (simp add: trim_whitespace_def set_trim_matches)

lemma parse_cookie_ok:
  assumes "parse_cookie_internal S parsed text http now = Some (c, expired)" shows "cookie_ok S c"
proof (rule parse_cookie_parts [OF assms])
  fix pair name0 v0 a
  assume ctl: "\<not> list_ex is_excluded_control text"
    and sets: "set pair \<subseteq> set text - {CHR '';''}" "set name0 \<union> set v0 \<subseteq> set pair"
    and nv: "c_name c = trim_whitespace name0" "c_value c = trim_whitespace v0"
    and len: "length (c_name c) + length (c_value c) \<le> 4096"
    and path: "starts_with (c_path c) ''/''"
    and dom: "apply_domain_attribute S (to_ascii_lowercase (host parsed)) (a_domain a) = Some (c_domain c, c_host_only c)"
    and none: "c_same_site c = SiteNone \<longrightarrow> c_secure c"
    and pre: "\<not> prefix_rules_violated (c_name c) (c_value c) (c_secure c) (c_host_only c) (a_path a \<noteq> None) (c_path c)"
  have "set (c_name c @ c_value c) \<subseteq> set text - {CHR '';''}"
    using set_trim_whitespace [of name0] set_trim_whitespace [of v0] sets nv by auto
  then have "\<forall>b\<in>set (c_name c @ c_value c). byte b \<noteq> 0 \<and> byte b \<noteq> 13 \<and> byte b \<noteq> 10 \<and> b \<noteq> CHR '';''"
    using ctl by (fastforce simp: list_ex_iff is_excluded_control_def)
  with len path none pre apply_domain_attribute_scope [OF dom] show ?thesis
    by (auto simp: cookie_ok_def prefix_rules_violated_def)
qed

section \<open>What a load accepts\<close>

lemma valid_cookie_byte:
  "\<not> invalid_cookie_byte b \<Longrightarrow> byte b \<noteq> 0 \<and> byte b \<noteq> 13 \<and> byte b \<noteq> 10 \<and> b \<noteq> CHR '';''"
  by (intro conjI notI) (simp_all add: invalid_cookie_byte_def)

lemma into_cookie_ok:
  assumes "into_cookie S now p = Inr (Some c)" shows "cookie_ok S c"
proof -
  from assms have v: "\<not> persisted_cookie_invalid S p"
    and d: "decode_same_site (pc_same_site p) = Inr (c_same_site c)"
    and c: "c_name c = pc_name p" "c_value c = pc_value p" "c_domain c = pc_domain p" "c_path c = pc_path p"
      "c_secure c = pc_secure p" "c_host_only c = pc_host_only p"
    by (auto simp: into_cookie_def result_simps split: if_splits)
  from d have none: "c_same_site c = SiteNone \<Longrightarrow> pc_same_site p = 4"
    by (auto simp: decode_same_site_def split: if_splits)
  have "length (c_name c) + length (c_value c) \<le> 4096"
  proof -
    have "\<not> saturating_add (length (pc_name p)) (length (pc_value p)) > 4096"
      using v unfolding persisted_cookie_invalid_def by blast
    then show ?thesis by (simp add: c not_less saturating_add_le limit_simps)
  qed
  moreover have "\<forall>b\<in>set (c_name c @ c_value c). byte b \<noteq> 0 \<and> byte b \<noteq> 13 \<and> byte b \<noteq> 10 \<and> b \<noteq> CHR '';''"
  proof -
    have "\<not> list_ex invalid_cookie_byte (pc_name p @ pc_value p)"
      using v unfolding persisted_cookie_invalid_def by blast
    then have "\<forall>b\<in>set (c_name c @ c_value c). \<not> invalid_cookie_byte b"
      by (simp add: c list_ex_iff)
    then show ?thesis using valid_cookie_byte by blast
  qed
  moreover have "starts_with (pc_path p) ''/''" "\<not> pc_host_only p \<longrightarrow> \<not> public_suffix S (pc_domain p)"
    "pc_same_site p = 4 \<longrightarrow> pc_secure p" "\<not> persisted_prefix_rules_invalid p"
    using v unfolding persisted_cookie_invalid_def by blast+
  moreover from this(4) have "starts_with_ascii_case_insensitive (pc_name p) ''__Secure-'' \<longrightarrow> pc_secure p"
    "starts_with_ascii_case_insensitive (pc_name p) ''__Host-'' \<longrightarrow> pc_secure p \<and> pc_host_only p \<and> pc_path p = ''/''"
    unfolding persisted_prefix_rules_invalid_def by blast+
  ultimately show ?thesis
    using none unfolding cookie_ok_def c by blast
qed

lemma into_state_loop_inv:
  assumes "into_state_loop S now done' g ps = Inr (cs, g')"
    and "distinct (map identity done')" "\<forall>c\<in>set done'. cookie_ok S c"
    and "\<forall>d. length (filter (\<lambda>c. c_domain c = d) done') \<le> MAX_COOKIES_PER_DOMAIN"
  shows "distinct (map identity cs) \<and> (\<forall>c\<in>set cs. cookie_ok S c) \<and>
    (\<forall>d. length (filter (\<lambda>c. c_domain c = d) cs) \<le> MAX_COOKIES_PER_DOMAIN) \<and>
    length cs \<le> length done' + length ps"
  using assms
proof (induction ps arbitrary: done' g)
  case (Cons p ps)
  from Cons.prems(1) obtain r where r: "into_cookie S now p = Inr r" by (auto simp: result_simps)
  show ?case
  proof (cases r)
    case None
    with Cons.IH [of done' g] Cons.prems r show ?thesis by auto
  next
    case (Some c)
    with Cons.prems(1) r have new: "\<not> list_ex (same_cookie c) done'"
      "length (filter (\<lambda>d. c_domain d = c_domain c) done') + 1 \<le> MAX_COOKIES_PER_DOMAIN"
      and rest: "into_state_loop S now (done' @ [c]) (max g (c_creation c)) ps = Inr (cs, g')"
      by (auto split: if_splits)
    have a: "distinct (map identity (done' @ [c]))"
      using Cons.prems(2) new(1) by (auto simp: list_ex_iff same_cookie_identity)
    have b: "\<forall>d\<in>set (done' @ [c]). cookie_ok S d"
      using Cons.prems(3) into_cookie_ok [of S now p c] r Some by simp
    have e: "\<forall>d. length (filter (\<lambda>c. c_domain c = d) (done' @ [c])) \<le> MAX_COOKIES_PER_DOMAIN"
    proof (rule allI)
      fix d
      show "length (filter (\<lambda>c. c_domain c = d) (done' @ [c])) \<le> MAX_COOKIES_PER_DOMAIN"
        using Cons.prems(4) [THEN spec, of d] new(2) by (cases "c_domain c = d") simp_all
    qed
    show ?thesis using Cons.IH [OF rest a b e] by simp
  qed
qed auto

lemma into_state_inv: "into_state S now j = Inr st \<Longrightarrow> jar_inv S st"
proof -
  assume "into_state S now j = Inr st"
  then obtain r where r: "into_state_loop S now [] 0 (pj_cookies j) = Inr r"
    and st: "cs_cookies st = fst r" "length (pj_cookies j) \<le> MAX_COOKIES"
    unfolding into_state_def by (cases "into_state_loop S now [] 0 (pj_cookies j)") (auto split: if_splits prod.splits)
  obtain cs g where "r = (cs, g)" by force
  with into_state_loop_inv [of S now "[]" 0 "pj_cookies j" cs g] r st show ?thesis by (simp add: jar_inv_def)
qed

lemma load_cookie_file_inv: "load_cookie_file K S now f = Inr (Some st) \<Longrightarrow> jar_inv S st"
  by (auto simp: load_cookie_file_def result_simps into_state_inv split: file_state.splits if_splits)

interpretation cookie_file: recoverable_file "load_cookie_file K S now" cookie_state_default False for K S now
  by unfold_locales (auto simp: load_cookie_file_def result_simps split: file_state.splits if_splits)

lemma load_cookies_inv: "load_cookies K S now fs = Inr st \<Longrightarrow> jar_inv S st"
  by (cases "load_cookie_file K S now (f_primary fs)"; cases "load_cookie_file K S now (f_backup fs)")
    (auto simp: load_cookies_def load_recoverable_def result_simps jar_inv_default load_cookie_file_inv
      split: option.splits)

section \<open>Programs over the store\<close>

datatype cookie_op =
    SetDocument string string
  | StoreResponse fetch_request string
  | RequestHeader fetch_request
  | Snapshot string

definition cookie_step ::
  "'u url_crate_scheme \<Rightarrow> site_crates \<Rightarrow> cookie_codec \<Rightarrow> cookie_store \<Rightarrow> io_env \<times> clock \<times> cookie_op \<Rightarrow> cookie_store" where
  "cookie_step U S K ks x =
     (case x of (io, t, o') \<Rightarrow>
       (case o' of
          SetDocument u a \<Rightarrow> snd (set_document_cookie U S K io t u a ks)
        | StoreResponse r a \<Rightarrow> snd (store_response_cookie U S K io t r a ks)
        | RequestHeader r \<Rightarrow> snd (request_header U S K io t r ks)
        | Snapshot u \<Rightarrow> snd (document_snapshot U S K io t u ks)))"

text \<open>Persisting does not touch the jar in memory.\<close>

lemma persist_if_state: "persist_if b K io now ks = (r, ks') \<Longrightarrow> ks_state ks' = ks_state ks"
  by (auto simp: persist_if_def persist_def split: prod.splits if_splits)

lemma store_cookie_state_of:
  assumes "store_cookie K io t c e h sec ks = (r, ks')"
  shows "ks_state ks' = snd (store_cookie_state (at_purge t) c e h sec (ks_state ks))"
  using assms by (auto simp: store_cookie_def dest: persist_if_state split: prod.splits)

lemma set_document_cookie_state:
  assumes "set_document_cookie U S K io t u a ks = (r, ks')"
  shows "ks_state ks' = ks_state ks \<or>
    (\<exists>p c e. parsed_url_parse U u = Inr p \<and> parse_cookie_internal S p a False (at_parse t) = Some (c, e) \<and>
       ks_state ks' = snd (store_cookie_state (at_purge t) c e False (is_secure_url p) (ks_state ks)))"
  using assms store_cookie_state_of
  by (fastforce simp: set_document_cookie_def split: sum.splits option.splits)

lemma store_response_cookie_state:
  assumes "store_response_cookie U S K io t r a ks = (res, ks')"
  shows "ks_state ks' = ks_state ks \<or>
    (\<exists>p c e. fetch_url_parsed (fr_url r) = Some p \<and> parse_cookie_internal S p a True (at_parse t) = Some (c, e) \<and>
       same_site_allows_setting U S c r \<and>
       ks_state ks' = snd (store_cookie_state (at_purge t) c e True (is_secure_url p) (ks_state ks)))"
  using assms store_cookie_state_of
  by (fastforce simp: store_response_cookie_def split: option.splits if_splits)

lemma request_header_state:
  assumes "request_header U S K io t r ks = (res, ks')"
  shows "ks_state ks' = ks_state ks \<or> ks_state ks' = snd (purge_expired (at_purge t) (ks_state ks))"
  using assms by (auto simp: request_header_def Let_def split: option.splits prod.splits sum.splits dest!: persist_if_state)

lemma document_snapshot_state:
  assumes "document_snapshot U S K io t u ks = (res, ks')"
  shows "ks_state ks' = ks_state ks \<or> ks_state ks' = snd (purge_expired (at_purge t) (ks_state ks))"
  using assms by (auto simp: document_snapshot_def Let_def split: sum.splits prod.splits dest!: persist_if_state)

lemma store_cookie_state_inv': "jar_inv S st \<Longrightarrow> cookie_ok S c \<Longrightarrow> jar_inv S (snd (store_cookie_state now c e h sec st))"
  using store_cookie_state_inv [of S st c now e h sec] by (cases "store_cookie_state now c e h sec st") auto

lemma purge_expired_inv': "jar_inv S st \<Longrightarrow> jar_inv S (snd (purge_expired now st))"
  using purge_expired_inv by (cases "purge_expired now st") auto

lemma cookie_step_inv: "jar_inv S (ks_state ks) \<Longrightarrow> jar_inv S (ks_state (cookie_step U S K ks x))"
proof -
  assume inv: "jar_inv S (ks_state ks)"
  obtain io t o' where x: "x = (io, t, o')" by (cases x)
  show ?thesis
  proof (cases o')
    case (SetDocument u a)
    then show ?thesis
      using inv set_document_cookie_state [of U S K io t u a ks] 
      by (cases "set_document_cookie U S K io t u a ks")
        (auto simp: cookie_step_def x intro!: store_cookie_state_inv' dest: parse_cookie_ok)
  next
    case (StoreResponse r a)
    then show ?thesis
      using inv store_response_cookie_state [of U S K io t r a ks] 
      by (cases "store_response_cookie U S K io t r a ks")
        (auto simp: cookie_step_def x intro!: store_cookie_state_inv' dest: parse_cookie_ok)
  next
    case (RequestHeader r)
    then show ?thesis
      using inv request_header_state [of U S K io t r ks]
      by (cases "request_header U S K io t r ks") (auto simp: cookie_step_def x intro: purge_expired_inv')
  next
    case (Snapshot u)
    then show ?thesis
      using inv document_snapshot_state [of U S K io t u ks]
      by (cases "document_snapshot U S K io t u ks") (auto simp: cookie_step_def x intro: purge_expired_inv')
  qed
qed

lemma cookie_steps_inv: "jar_inv S (ks_state ks) \<Longrightarrow> jar_inv S (ks_state (foldl (cookie_step U S K) ks xs))"
  by (induction xs arbitrary: ks) (auto intro: cookie_step_inv)

section \<open>Scope\<close>

lemma domain_matches_iff:
  "domain_matches h d \<longleftrightarrow> h = d \<or> parse_ip h = None \<and> (\<exists>sub. h = sub @ CHR ''.'' # d)"
proof -
  have "length h > length d \<and> ends_with h d \<and> h ! (length h - length d - 1) = CHR ''.'' \<longleftrightarrow>
      (\<exists>sub. h = sub @ CHR ''.'' # d)"
  proof
    assume a: "length h > length d \<and> ends_with h d \<and> h ! (length h - length d - 1) = CHR ''.''"
    then obtain t where t: "h = t @ d" by (auto simp: ends_with_iff)
    with a have "t \<noteq> []" "last t = CHR ''.''" by (auto simp: nth_append last_conv_nth)
    then have "t = butlast t @ [CHR ''.'']" by (metis append_butlast_last_id)
    with t show "\<exists>sub. h = sub @ CHR ''.'' # d" by (metis append.assoc append_Cons append_Nil)
  qed (auto simp: ends_with_iff nth_append)
  then show ?thesis by (auto simp: domain_matches_def)
qed

lemma list_get_append: "list_get (xs @ ys) (length xs) = (case ys of [] \<Rightarrow> None | y # _ \<Rightarrow> Some y)"
  by (cases ys) (auto simp: list_get_def nth_append)

lemma cookie_path_matches_iff:
  "cookie_path_matches r c \<longleftrightarrow> (\<exists>t. r = c @ t \<and> (t = [] \<or> ends_with c ''/'' \<or> starts_with t ''/''))"
proof -
  have head: "list_get (c @ t) (length c) = Some (CHR ''/'') \<longleftrightarrow> starts_with t ''/''" for t
    by (cases t) (auto simp: list_get_append list_get_def starts_with_def)
  show ?thesis
    unfolding cookie_path_matches_def starts_with_iff [of r]
    using head [of "[]"] by (auto simp: head starts_with_def)
qed

definition in_scope :: "site_crates \<Rightarrow> parsed_url \<Rightarrow> cookie \<Rightarrow> bool" where
  "in_scope S p c \<longleftrightarrow>
     (c_secure c \<longrightarrow> is_secure_url p) \<and>
     (if c_host_only c then to_ascii_lowercase (host p) = c_domain c
      else \<not> public_suffix S (c_domain c) \<and>
        (to_ascii_lowercase (host p) = c_domain c \<or>
         parse_ip (to_ascii_lowercase (host p)) = None \<and>
         (\<exists>sub. to_ascii_lowercase (host p) = sub @ CHR ''.'' # c_domain c))) \<and>
     (\<exists>t. url_path p = c_path c @ t \<and> (t = [] \<or> ends_with (c_path c) ''/'' \<or> starts_with t ''/''))"

lemma cookie_matches_scope: "cookie_matches S c p \<longleftrightarrow> in_scope S p c"
  by (auto simp: cookie_matches_def in_scope_def Let_def domain_matches_iff cookie_path_matches_iff)

section \<open>The header\<close>

lemma set_sort_for_header [simp]: "set (sort_for_header cs) = set cs"
  by (simp add: sort_for_header_def)

lemma cookie_pairs_loop_tail:
  assumes "header \<noteq> []" "length header \<le> MAX_COOKIE_HEADER_BYTES"
  shows "\<exists>k. cookie_pairs_loop header cs = header @ concat (map (\<lambda>c. ''; '' @ cookie_pair c) (take k cs)) \<and>
    length (cookie_pairs_loop header cs) \<le> MAX_COOKIE_HEADER_BYTES"
  using assms
proof (induction cs arbitrary: header)
  case (Cons c cs)
  let ?next = "header @ ''; '' @ cookie_pair c"
  show ?case
  proof (cases "length ?next > MAX_COOKIE_HEADER_BYTES")
    case True
    then have "cookie_pairs_loop header (c # cs) = header"
      using Cons.prems by (simp add: Let_def saturating_add_def limit_simps)
    with Cons.prems show ?thesis by (intro exI [of _ 0]) simp
  next
    case False
    then have eq: "cookie_pairs_loop header (c # cs) = cookie_pairs_loop ?next cs"
      using Cons.prems by (simp add: Let_def saturating_add_def limit_simps)
    from Cons.IH [of ?next] False obtain k where
      "cookie_pairs_loop ?next cs = ?next @ concat (map (\<lambda>c. ''; '' @ cookie_pair c) (take k cs))"
      "length (cookie_pairs_loop ?next cs) \<le> MAX_COOKIE_HEADER_BYTES" by auto
    with eq show ?thesis by (intro exI [of _ "Suc k"]) simp
  qed
qed simp

lemma subseq_subset: "subseq xs ys \<Longrightarrow> set xs \<subseteq> set ys"
  by (auto dest: list_emb_set)

text \<open>The header lists the pairs of some of the cookies, in order, separated by \<^verbatim>\<open>; \<close>, within its bound.\<close>

lemma cookie_pairs_shape:
  "\<exists>ds. cookie_pairs cs = join_with ''; '' (map cookie_pair ds) \<and> subseq ds cs \<and>
    length (cookie_pairs cs) \<le> MAX_COOKIE_HEADER_BYTES"
proof (induction cs)
  case Nil
  show ?case by (intro exI [of _ "[]"]) (simp add: cookie_pairs_def join_with_def)
next
  case (Cons c cs)
  consider "cookie_pair c = []" | "cookie_pair c \<noteq> []" "length (cookie_pair c) > MAX_COOKIE_HEADER_BYTES"
    | "cookie_pair c \<noteq> []" "length (cookie_pair c) \<le> MAX_COOKIE_HEADER_BYTES"
    by linarith
  then show ?case
  proof cases
    case 1
    with Cons show ?thesis
      by (auto simp: cookie_pairs_def Let_def saturating_add_def limit_simps)
  next
    case 2
    then have "cookie_pairs (c # cs) = []"
      by (simp add: cookie_pairs_def Let_def saturating_add_def limit_simps)
    then show ?thesis by (intro exI [of _ "[]"]) (simp add: join_with_def)
  next
    case 3
    then have eq: "cookie_pairs (c # cs) = cookie_pairs_loop (cookie_pair c) cs"
      by (simp add: cookie_pairs_def Let_def saturating_add_def limit_simps)
    obtain k where k: "cookie_pairs_loop (cookie_pair c) cs =
        cookie_pair c @ concat (map (\<lambda>c. ''; '' @ cookie_pair c) (take k cs))"
      "length (cookie_pairs_loop (cookie_pair c) cs) \<le> MAX_COOKIE_HEADER_BYTES"
      using cookie_pairs_loop_tail [OF 3] by blast
    have "cookie_pairs (c # cs) = join_with ''; '' (map cookie_pair (c # take k cs))"
      by (simp add: eq k(1) join_with_def comp_def)
    moreover have "subseq (c # take k cs) (c # cs)"
      by (metis append_take_drop_id prefix_def prefix_imp_subseq subseq_Cons2)
    ultimately show ?thesis using eq k(2) by (intro exI [of _ "c # take k cs"]) simp
  qed
qed

section \<open>What script can do\<close>

lemma push_cookie_subset: "set (push_cookie c others) \<subseteq> insert c (set others)"
  using remove_oldest_subset [of "\<lambda>_. True" "evict_for_domain_limit (c_domain c) others"]
    evict_facts(1) [of "c_domain c" others]
  by (auto simp: push_cookie_def Let_def)

text \<open>A store operation leaves cookies of the jar, unexpired, and at most the new one beside them.\<close>

lemma store_cookie_state_cookies:
  assumes "store_cookie_state now c e http sec st = (ch, st')" "d \<in> set (cs_cookies st')"
  shows "d \<in> set (cs_cookies st) \<and> \<not> is_expired now d \<or>
    identity d = identity c \<and> c_http_only d = c_http_only c \<and> d = c\<lparr>c_creation := c_creation d\<rparr>"
proof -
  obtain pch st1 where p: "purge_expired now st = (pch, st1)" by force
  note purge = purge_expired_cookies(1) [OF p]
  obtain creation st2 where c2: "(case find (same_cookie c) (cs_cookies st1) of
      Some s \<Rightarrow> (c_creation s, st1) | None \<Rightarrow> allocate_creation st1) = (creation, st2)" by force
  then have st2: "cs_cookies st2 = cs_cookies st1"
    by (auto simp: allocate_creation_def split: option.splits)
  have "set (cs_cookies st') \<subseteq> insert (c\<lparr>c_creation := creation\<rparr>) (set (cs_cookies st1))"
    using assms(1) push_cookie_subset [of "c\<lparr>c_creation := creation\<rparr>" "filter (\<lambda>s. \<not> same_cookie c s) (cs_cookies st1)"]
    by (auto simp: store_cookie_state_def p Let_def c2 st2 split: if_splits)
  with assms(2) purge show ?thesis by (auto simp: identity_def)
qed

text \<open>A cookie from a document that meets an HttpOnly cookie of the same identity changes nothing but expiry.\<close>

lemma store_cookie_state_http_only:
  assumes "store_cookie_state now c e False sec st = (ch, st')"
    and "s \<in> set (cs_cookies st)" "\<not> is_expired now s" "c_http_only s" "identity s = identity c"
  shows "set (cs_cookies st') \<subseteq> set (cs_cookies st)"
proof -
  obtain pch st1 where p: "purge_expired now st = (pch, st1)" by force
  have purge: "cs_cookies st1 = filter (\<lambda>d. \<not> is_expired now d) (cs_cookies st)"
    by (rule purge_expired_cookies(1) [OF p])
  then have "list_ex (\<lambda>s. same_cookie c s \<and> c_http_only s) (cs_cookies st1)"
    using assms(2-5) by (auto simp: list_ex_iff same_cookie_identity)
  with assms(1) purge show ?thesis by (auto simp: store_cookie_state_def p)
qed

lemma distinct_identity: "distinct (map identity cs) \<Longrightarrow> c \<in> set cs \<Longrightarrow> d \<in> set cs \<Longrightarrow> identity c = identity d \<Longrightarrow> c = d"
  by (auto simp: distinct_map inj_on_def)

section \<open>Properties\<close>

text \<open>C30: The cookie jar stays bounded and well formed. Starting from an empty jar or from one loaded from
  disk, whatever documents set, responses set, requests and documents read and whenever, and whatever the file
  system answers: at most 3000 cookies, at most 180 of a domain, no two with the same name, domain, path and
  host-only flag, each within 4096 bytes and free of NUL, CR, LF and semicolons, SameSite=None only with
  Secure, the __Secure- and __Host- prefixes honoured, and no cookie shared across a public suffix.\<close>

theorem cookie_jar_invariant:
  assumes "ks = store_in_memory fs \<or> store_open K S now fs = Inr ks"
  shows "jar_inv S (ks_state (foldl (cookie_step U S K) ks ops))"
proof (rule cookie_steps_inv)
  show "jar_inv S (ks_state ks)"
    using assms load_cookies_inv by (auto simp: store_in_memory_def jar_inv_default store_open_def result_simps)
qed

definition sample_sites :: site_crates where
  "sample_sites = \<lparr>psl_lookup = (\<lambda>_. None), utc_timestamp = (\<lambda>y mo d h m s. None)\<rparr>"

definition sample_files :: files where
  "sample_files = \<lparr>f_primary = Missing, f_backup = Missing, f_temporary = Missing\<rparr>"

definition sample_clock :: clock where
  "sample_clock = \<lparr>at_parse = 0, at_purge = 0, at_save = 0\<rparr>"

definition unreadable_codec :: cookie_codec where
  "unreadable_codec = \<lparr>ck_write = (\<lambda>_. Inl ''no''), ck_read = (\<lambda>_. Inl ''no'')\<rparr>"

theorem cookie_jar_invariant_witness:
  "jar_inv sample_sites (ks_state (foldl (cookie_step sample_crate sample_sites unreadable_codec)
     (store_in_memory sample_files) [(io_ok, sample_clock, SetDocument ''https://a.example/'' ''n=v; max-age=60'')]))"
  by (rule cookie_jar_invariant [where fs = sample_files]) simp

text \<open>C31: Only cookies in scope are sent. The Cookie header of a request is the list of pairs of cookies of
  the jar, at most 64 KiB, each of them unexpired, restricted to a secure URL if Secure, set for the very host
  or, if shared, for a parent domain of it that is neither an IP suffix nor a public suffix, for a path that
  is the request's or a directory above it, and admitted by its SameSite attribute.\<close>

theorem sent_cookies_are_in_scope:
  assumes "request_header U S K io t r ks = (Inr (Some header), ks')"
  shows "\<exists>p cs. fetch_url_parsed (fr_url r) = Some p \<and> header = join_with ''; '' (map cookie_pair cs) \<and>
    length header \<le> 65536 \<and>
    (\<forall>c\<in>set cs. c \<in> set (cs_cookies (ks_state ks)) \<and> \<not> is_expired (at_purge t) c \<and> in_scope S p c \<and>
       same_site_allows_request U S c r)"
proof -
  from assms obtain p ch st where p: "fetch_url_parsed (fr_url r) = Some p"
    and st: "purge_expired (at_purge t) (ks_state ks) = (ch, st)"
    and h: "header = cookie_pairs (sort_for_header
      (filter (\<lambda>c. cookie_matches S c p \<and> same_site_allows_request U S c r) (cs_cookies st)))"
    by (auto simp: request_header_def Let_def split: option.splits prod.splits sum.splits if_splits)
  obtain cs where cs: "header = join_with ''; '' (map cookie_pair cs)" "length header \<le> MAX_COOKIE_HEADER_BYTES"
    "subseq cs (sort_for_header
      (filter (\<lambda>c. cookie_matches S c p \<and> same_site_allows_request U S c r) (cs_cookies st)))"
    using cookie_pairs_shape h by blast
  have "set cs \<subseteq> set (filter (\<lambda>c. cookie_matches S c p \<and> same_site_allows_request U S c r) (cs_cookies st))"
    using subseq_subset [OF cs(3)] by simp
  then have "\<forall>c\<in>set cs. c \<in> set (cs_cookies (ks_state ks)) \<and> \<not> is_expired (at_purge t) c \<and> in_scope S p c \<and>
       same_site_allows_request U S c r"
    using purge_expired_cookies(1) [OF st] by (auto simp: cookie_matches_scope)
  with p cs(1,2) show ?thesis by (auto simp: limit_simps)
qed

definition sample_cookie :: "string \<Rightarrow> string \<Rightarrow> bool \<Rightarrow> nat \<Rightarrow> cookie" where
  "sample_cookie name domain http_only creation =
     \<lparr>c_name = name, c_value = ''1'', c_domain = domain, c_path = ''/'', c_secure = True, c_host_only = True,
      c_http_only = http_only, c_same_site = SiteNone, c_expires = None, c_creation = creation\<rparr>"

definition sample_jar :: cookie_store where
  "sample_jar = \<lparr>ks_state = \<lparr>cs_cookies = [sample_cookie ''sid'' ''b.example'' True 1, sample_cookie ''x'' ''a.example'' False 2],
      cs_next_creation = 3, cs_version = 3\<rparr>, ks_path = False, ks_files = sample_files\<rparr>"

lemmas sample_jar_eval = sample_jar_def sample_cookie_def sample_sites_def sample_clock_def sample_request_def
  purge_expired_def is_expired_def persist_if_def persist_def fetch_url_parsed_def cookie_matches_def is_secure_url_def
  same_site_allows_request_def sort_for_header_def cookie_pairs_def cookie_pair_def saturating_add_def limit_simps
  url_path_def split_on_def Let_def cookie_path_matches_def

lemma sample_request_header:
  "request_header sample_crate sample_sites unreadable_codec io_ok sample_clock (sample_request ''GET'') sample_jar =
   (Inr (Some ''sid=1''), sample_jar)"
  by (simp add: request_header_def sample_jar_eval)

theorem sent_cookies_are_in_scope_witness:
  "\<exists>p cs. fetch_url_parsed (fr_url (sample_request ''GET'')) = Some p \<and>
    ''sid=1'' = join_with ''; '' (map cookie_pair cs) \<and> length ''sid=1'' \<le> 65536 \<and>
    (\<forall>c\<in>set cs. c \<in> set (cs_cookies (ks_state sample_jar)) \<and> \<not> is_expired (at_purge sample_clock) c \<and>
       in_scope sample_sites p c \<and> same_site_allows_request sample_crate sample_sites c (sample_request ''GET''))"
  by (rule sent_cookies_are_in_scope [OF sample_request_header])

text \<open>What a document assigns is never HttpOnly, and an unexpired HttpOnly cookie stays as it is.\<close>

lemma document_cookie_keeps_http_only:
  assumes "jar_inv S (ks_state ks)" "set_document_cookie U S K io t u text ks = (r, ks')" "d \<in> set (cs_cookies (ks_state ks'))"
  shows "c_http_only d \<Longrightarrow> d \<in> set (cs_cookies (ks_state ks))"
    and "s \<in> set (cs_cookies (ks_state ks)) \<Longrightarrow> c_http_only s \<Longrightarrow> \<not> is_expired (at_purge t) s \<Longrightarrow>
      identity d = identity s \<Longrightarrow> d = s"
proof -
  have dist: "distinct (map identity (cs_cookies (ks_state ks)))" using assms(1) by (simp add: jar_inv_def)
  consider (kept) "ks_state ks' = ks_state ks"
    | (stored) p c e ch st' where "parse_cookie_internal S p text False (at_parse t) = Some (c, e)"
        "store_cookie_state (at_purge t) c e False (is_secure_url p) (ks_state ks) = (ch, st')" "ks_state ks' = st'"
    using set_document_cookie_state [OF assms(2)] by (metis prod.collapse snd_conv)
  note cases = this
  show "d \<in> set (cs_cookies (ks_state ks))" if "c_http_only d"
  proof (cases rule: cases)
    case (stored p c e ch st')
    have "\<not> c_http_only c" by (rule parse_cookie_parts [OF stored(1)]) simp
    with stored(3) assms(3) store_cookie_state_cookies [OF stored(2)] that show ?thesis by force
  qed (use assms(3) in simp)
  show "d = s" if s: "s \<in> set (cs_cookies (ks_state ks))" "c_http_only s" "\<not> is_expired (at_purge t) s"
    and d: "identity d = identity s"
  proof -
    have "d \<in> set (cs_cookies (ks_state ks))"
    proof (cases rule: cases)
      case (stored p c e ch st')
      with assms(3) have d': "d \<in> set (cs_cookies st')" by simp
      show ?thesis
      proof (cases "identity c = identity s")
        case True
        with store_cookie_state_http_only [OF stored(2) s(1)] s(2,3) d' show ?thesis by auto
      next
        case False
        with store_cookie_state_cookies [OF stored(2) d'] d show ?thesis by auto
      qed
    qed (use assms(3) in simp)
    with distinct_identity [OF dist this s(1) d] show ?thesis by simp
  qed
qed

lemma snapshot_hides_http_only:
  assumes "document_snapshot U S K io t u ks = (Inr (version, header), ks')"
  shows "\<exists>cs. header = join_with ''; '' (map cookie_pair cs) \<and>
    (\<forall>c\<in>set cs. c \<in> set (cs_cookies (ks_state ks)) \<and> \<not> c_http_only c)"
proof -
  from assms obtain p ch st where st: "purge_expired (at_purge t) (ks_state ks) = (ch, st)"
    and h: "header = cookie_pairs (sort_for_header
      (filter (\<lambda>c. \<not> c_http_only c \<and> cookie_matches S c p) (cs_cookies st)))"
    by (auto simp: document_snapshot_def Let_def split: prod.splits sum.splits)
  obtain cs where cs: "header = join_with ''; '' (map cookie_pair cs)"
    "subseq cs (sort_for_header (filter (\<lambda>c. \<not> c_http_only c \<and> cookie_matches S c p) (cs_cookies st)))"
    using cookie_pairs_shape h by blast
  have "set cs \<subseteq> set (filter (\<lambda>c. \<not> c_http_only c \<and> cookie_matches S c p) (cs_cookies st))"
    using subseq_subset [OF cs(2)] by simp
  then have "\<forall>c\<in>set cs. c \<in> set (cs_cookies (ks_state ks)) \<and> \<not> c_http_only c"
    using purge_expired_cookies(1) [OF st] by auto
  with cs(1) show ?thesis by blast
qed

text \<open>C32: HttpOnly cookies are out of the reach of page script. A cookie assigned by a document never is
  HttpOnly, and whatever script assigns, an unexpired HttpOnly cookie of the jar is not replaced: every cookie
  with its name, domain, path and host-only flag afterwards is that cookie unchanged. What a document reads
  back contains no HttpOnly cookie.\<close>

theorem http_only_cookies_are_protected:
  assumes "jar_inv S (ks_state ks)" "set_document_cookie U S K io t u text ks = (r, ks')"
    and "document_snapshot U S K io t u ks = (Inr (version, header), ks'')"
  shows "(\<forall>c\<in>set (cs_cookies (ks_state ks')). c_http_only c \<longrightarrow> c \<in> set (cs_cookies (ks_state ks))) \<and>
    (\<forall>s\<in>set (cs_cookies (ks_state ks)). c_http_only s \<and> \<not> is_expired (at_purge t) s \<longrightarrow>
       (\<forall>c\<in>set (cs_cookies (ks_state ks')). identity c = identity s \<longrightarrow> c = s)) \<and>
    (\<exists>cs. header = join_with ''; '' (map cookie_pair cs) \<and>
       (\<forall>c\<in>set cs. c \<in> set (cs_cookies (ks_state ks)) \<and> \<not> c_http_only c))"
  using document_cookie_keeps_http_only [OF assms(1,2)] snapshot_hides_http_only [OF assms(3)] by blast

lemma sample_jar_inv: "jar_inv sample_sites (ks_state sample_jar)"
  by (simp add: jar_inv_def sample_jar_def sample_cookie_def cookie_ok_def identity_def starts_with_def byte_def
      starts_with_ascii_case_insensitive_def limit_simps)

lemma sample_snapshot:
  "document_snapshot sample_crate sample_sites unreadable_codec io_ok sample_clock ''https://b.example/'' sample_jar =
   (Inr (3, []), sample_jar)"
  by (simp add: document_snapshot_def sample_jar_eval sample_url_eval)

theorem http_only_cookies_are_protected_witness:
  "jar_inv sample_sites (ks_state sample_jar) \<and>
   list_all (\<lambda>s. c_http_only s \<and> \<not> is_expired 0 s \<longrightarrow>
     list_all (\<lambda>c. identity c = identity s \<longrightarrow> c = s)
       (cs_cookies (ks_state (snd (set_document_cookie sample_crate sample_sites unreadable_codec io_ok
         sample_clock ''https://b.example/'' ''sid=2'' sample_jar))))) (cs_cookies (ks_state sample_jar))"
  using http_only_cookies_are_protected [OF sample_jar_inv _ sample_snapshot, of "''sid=2''"] sample_jar_inv
  by (cases "set_document_cookie sample_crate sample_sites unreadable_codec io_ok
         sample_clock ''https://b.example/'' ''sid=2'' sample_jar") (auto simp: sample_clock_def list_all_iff)

section \<open>The jar on disk\<close>

definition whole_seconds :: "time \<Rightarrow> time" where
  "whole_seconds t = t div ticks_per_second * ticks_per_second"

text \<open>What comes back of a cookie saved at one time and loaded at a later one.\<close>

definition reloaded :: "time \<Rightarrow> time \<Rightarrow> cookie \<Rightarrow> cookie option" where
  "reloaded saved loaded c =
     (case c_expires c of
        None \<Rightarrow> None
      | Some e \<Rightarrow>
          if saved < e \<and> 0 \<le> e \<and> loaded < whole_seconds e then Some (c\<lparr>c_expires := Some (whole_seconds e)\<rparr>)
          else None)"

text \<open>The cookies of a jar that a load will accept: this is not part of the jar's invariant.\<close>

definition loadable :: "site_crates \<Rightarrow> time \<Rightarrow> time \<Rightarrow> cookie \<Rightarrow> bool" where
  "loadable S saved loaded c \<longleftrightarrow>
     (\<forall>p. from_cookie saved c = Some p \<longrightarrow> \<not> persisted_cookie_invalid S p) \<and>
     (\<forall>e. c_expires c = Some e \<longrightarrow> e \<le> MAX_TIME \<and> e \<le> time_add_or_same loaded MAX_PERSISTENT_AGE)"

lemma decode_same_site_tag [simp]: "decode_same_site (same_site_tag s) = Inr s"
  by (cases s) (simp_all add: decode_same_site_def same_site_tag_def)

lemma whole_seconds_le: "whole_seconds t \<le> t"
  using div_mult_mod_eq [of t ticks_per_second] pos_mod_sign [of ticks_per_second t]
  by (simp add: whole_seconds_def ticks_per_second_def)

lemma into_cookie_from:
  assumes "from_cookie saved c = Some p" "loadable S saved loaded c"
  shows "into_cookie S loaded p = Inr (reloaded saved loaded c)"
proof -
  from assms(1) obtain e where e: "c_expires c = Some e" "saved < e" "0 \<le> e"
    and p: "p = \<lparr>pc_name = c_name c, pc_value = c_value c, pc_domain = c_domain c, pc_path = c_path c,
      pc_secure = c_secure c, pc_host_only = c_host_only c, pc_http_only = c_http_only c,
      pc_same_site = same_site_tag (c_same_site c), pc_expires = nat (e div ticks_per_second), pc_creation = c_creation c\<rparr>"
    by (auto simp: from_cookie_def split: option.splits if_splits)
  have "0 \<le> e div ticks_per_second" using e(3) by (simp add: ticks_per_second_def pos_imp_zdiv_nonneg_iff)
  then have sec: "seconds (pc_expires p) = whole_seconds e"
    by (simp add: p seconds_def whole_seconds_def)
  have "\<not> persisted_cookie_invalid S p" "whole_seconds e \<le> MAX_TIME"
    "whole_seconds e \<le> time_add_or_same loaded MAX_PERSISTENT_AGE"
    using assms e(1) whole_seconds_le [of e] by (auto simp: loadable_def)
  with sec e show ?thesis
    by (auto simp: into_cookie_def time_add_def reloaded_def result_simps) (simp_all add: p)
qed

lemma from_cookie_None: "from_cookie saved c = None \<Longrightarrow> reloaded saved loaded c = None"
  by (auto simp: from_cookie_def reloaded_def split: option.splits if_splits)

lemma reloaded_same: "reloaded saved loaded c = Some d \<Longrightarrow>
    identity d = identity c \<and> c_creation d = c_creation c \<and> c_domain d = c_domain c"
  by (auto simp: reloaded_def identity_def split: option.splits if_splits)

text \<open>The loop accepts the saved cookies of a jar without repeated identities and creation numbers.\<close>

lemma into_state_loop_saved:
  assumes "\<forall>c\<in>set cs. loadable S saved loaded c"
    and "distinct (map identity done' @ map identity cs)" "distinct (map c_creation done' @ map c_creation cs)"
    and "\<forall>d. length (filter (\<lambda>c. c_domain c = d) (done' @ cs)) \<le> MAX_COOKIES_PER_DOMAIN"
    and "\<forall>c\<in>set cs. c_creation c < n" "g < n"
  shows "\<exists>g'<n. into_state_loop S loaded done' g (List.map_filter (from_cookie saved) cs) =
    Inr (done' @ List.map_filter (reloaded saved loaded) cs, g')"
  using assms
proof (induction cs arbitrary: done' g)
  case Nil
  then show ?case by (auto simp: List.map_filter_simps)
next
  case (Cons c cs)
  have fewer: "\<forall>d. length (filter (\<lambda>c. c_domain c = d) (done' @ cs)) \<le> MAX_COOKIES_PER_DOMAIN"
  proof (rule allI)
    fix d show "length (filter (\<lambda>c. c_domain c = d) (done' @ cs)) \<le> MAX_COOKIES_PER_DOMAIN"
      using Cons.prems(4) [THEN spec, of d] by (simp split: if_splits)
  qed
  have skip: "\<exists>g'<n. into_state_loop S loaded done' g (List.map_filter (from_cookie saved) cs) =
      Inr (done' @ List.map_filter (reloaded saved loaded) cs, g')"
    by (rule Cons.IH) (use Cons.prems fewer in auto)
  show ?case
  proof (cases "from_cookie saved c")
    case None
    with skip from_cookie_None [OF None] show ?thesis by (simp add: List.map_filter_simps)
  next
    case (Some p)
    have into: "into_cookie S loaded p = Inr (reloaded saved loaded c)"
      by (rule into_cookie_from [OF Some]) (use Cons.prems(1) in simp)
    show ?thesis
    proof (cases "reloaded saved loaded c")
      case None
      with skip Some into show ?thesis by (simp add: List.map_filter_simps)
    next
      case (Some d)
      note d = reloaded_same [OF Some]
      have new: "\<not> list_ex (same_cookie d) done'" "\<not> list_ex (\<lambda>x. c_creation x = c_creation d) done'"
      proof -
        have fresh: "identity d \<notin> identity ` set done'" "c_creation d \<notin> c_creation ` set done'"
          using Cons.prems(2,3) d by auto
        then show "\<not> list_ex (same_cookie d) done'"
          by (auto simp: list_ex_iff same_cookie_identity)
        show "\<not> list_ex (\<lambda>x. c_creation x = c_creation d) done'"
          using fresh(2) by (metis (mono_tags, lifting) imageI list_ex_iff)
      qed
      have room: "length (filter (\<lambda>x. c_domain x = c_domain d) done') + 1 \<le> MAX_COOKIES_PER_DOMAIN"
        using Cons.prems(4) [THEN spec, of "c_domain d"] d by simp
      have dom: "length (filter (\<lambda>c. c_domain c = e) ((done' @ [d]) @ cs)) \<le> MAX_COOKIES_PER_DOMAIN" for e
        using Cons.prems(4) [THEN spec, of e] d by (simp split: if_splits)
      have "\<exists>g'<n. into_state_loop S loaded (done' @ [d]) (max g (c_creation d)) (List.map_filter (from_cookie saved) cs) =
          Inr ((done' @ [d]) @ List.map_filter (reloaded saved loaded) cs, g')"
        by (rule Cons.IH) (use Cons.prems dom d in auto)
      with Some \<open>from_cookie saved c = Some p\<close> into new room show ?thesis
        by (simp add: List.map_filter_simps)
    qed
  qed
qed

text \<open>The cookie jar comes back from disk. When a jar that satisfies its invariant, has distinct creation
  numbers below the next one, and holds only cookies a load accepts is saved, the next start loads it again:
  the same persistent cookies in the same order with their expiry cut to whole seconds, without session
  cookies and those expired meanwhile, and with the version and creation counters kept.\<close>

theorem saved_jar_loads:
  assumes "jar_inv S st" "0 < cs_version st" "distinct (map c_creation (cs_cookies st))"
    and "\<forall>c\<in>set (cs_cookies st). 0 < c_creation c \<and> c_creation c < cs_next_creation st"
    and "0 < cs_next_creation st" "cs_next_creation st \<le> u64_max"
    and "\<forall>c\<in>set (cs_cookies st). loadable S saved loaded c"
    and codec: "\<forall>b. ck_write K (persisted_jar_of saved st) = Inr b \<longrightarrow> ck_read K b = Inr (persisted_jar_of saved st)"
    and save: "save_cookies K io saved st fs = (Inr (), fs')"
  shows "load_cookies K S loaded fs' =
    Inr (st\<lparr>cs_cookies := List.map_filter (reloaded saved loaded) (cs_cookies st)\<rparr>)"
proof -
  from save obtain b where b: "ck_write K (persisted_jar_of saved st) = Inr b"
    "length b \<le> MAX_PERSISTED_COOKIE_BYTES" "write_recoverable False io fs b = (Inr (), fs')"
    by (auto simp: save_cookies_def split: sum.splits if_splits)
  let ?cs = "cs_cookies st"
  obtain g where g: "g < cs_next_creation st"
    "into_state_loop S loaded [] 0 (List.map_filter (from_cookie saved) ?cs) =
      Inr (List.map_filter (reloaded saved loaded) ?cs, g)"
    using into_state_loop_saved [of ?cs S saved loaded "[]" "cs_next_creation st" 0] assms(1-7)
    by (auto simp: jar_inv_def)
  have len: "length (List.map_filter (from_cookie saved) ?cs) \<le> MAX_COOKIES"
    using assms(1) by (auto simp: jar_inv_def List.map_filter_def comp_def intro: order_trans [OF length_filter_le])
  have "next_or_one g \<le> cs_next_creation st"
    using g(1) assms(5) by (auto simp: next_or_one_def split: option.splits)
  then have "into_state S loaded (persisted_jar_of saved st) =
      Inr (st\<lparr>cs_cookies := List.map_filter (reloaded saved loaded) ?cs\<rparr>)"
    using g(2) len assms(2,5) by (simp add: into_state_def persisted_jar_of_def max_absorb1)
  then have "load_cookie_file K S loaded (Content b) =
      Inr (Some (st\<lparr>cs_cookies := List.map_filter (reloaded saved loaded) ?cs\<rparr>))"
    using b codec by (simp add: load_cookie_file_def)
  from cookie_file.durable(1) [OF this b(3)] show ?thesis by (simp add: load_cookies_def)
qed

text \<open>A codec that knows one jar.\<close>

definition sample_jar_codec :: "persisted_jar \<Rightarrow> cookie_codec" where
  "sample_jar_codec j =
     \<lparr>ck_write = (\<lambda>x. if x = j then Inr [1] else Inl ''another jar''), ck_read = (\<lambda>_. Inr j)\<rparr>"

definition sample_saved_state :: cookie_state where
  "sample_saved_state =
     \<lparr>cs_cookies = [sample_cookie ''sid'' ''b.example'' True 1,
        (sample_cookie ''x'' ''a.example'' False 2)\<lparr>c_expires := Some 600000005\<rparr>],
      cs_next_creation = 3, cs_version = 3\<rparr>"

lemma sample_written:
  "write_recoverable False io_ok sample_files b = (Inr (), \<lparr>f_primary = Content b, f_backup = Missing, f_temporary = Missing\<rparr>)"
  by (simp add: write_recoverable_def write_run_def publish_def io_ok_def sample_files_def Let_def)

lemma sample_saved_loadable: "\<forall>c\<in>set (cs_cookies sample_saved_state). loadable sample_sites 0 0 c"
proof -
  have "is_ascii ''a.example''" "\<not> list_ex invalid_cookie_byte ''x1''"
    by code_simp+
  then show ?thesis
    by (simp add: sample_saved_state_def sample_cookie_def loadable_def from_cookie_def persisted_cookie_invalid_def
        persisted_prefix_rules_invalid_def starts_with_ascii_case_insensitive_def starts_with_def ends_with_def
        saturating_add_def limit_simps same_site_tag_def time_add_or_same_def time_add_def MAX_TIME_def
        MAX_PERSISTENT_AGE_def ticks_per_second_def)
qed

theorem saved_jar_loads_witness:
  "load_cookies (sample_jar_codec (persisted_jar_of 0 sample_saved_state)) sample_sites 0
     \<lparr>f_primary = Content [1], f_backup = Missing, f_temporary = Missing\<rparr> =
   Inr (sample_saved_state\<lparr>cs_cookies := List.map_filter (reloaded 0 0) (cs_cookies sample_saved_state)\<rparr>) \<and>
   map c_name (List.map_filter (reloaded 0 0) (cs_cookies sample_saved_state)) = [''x'']"
proof
  show "load_cookies (sample_jar_codec (persisted_jar_of 0 sample_saved_state)) sample_sites 0
     \<lparr>f_primary = Content [1], f_backup = Missing, f_temporary = Missing\<rparr> =
   Inr (sample_saved_state\<lparr>cs_cookies := List.map_filter (reloaded 0 0) (cs_cookies sample_saved_state)\<rparr>)"
  proof (rule saved_jar_loads)
    show "jar_inv sample_sites sample_saved_state"
      by (simp add: jar_inv_def sample_saved_state_def sample_cookie_def cookie_ok_def identity_def starts_with_def byte_def
          starts_with_ascii_case_insensitive_def limit_simps)
    show "save_cookies (sample_jar_codec (persisted_jar_of 0 sample_saved_state)) io_ok 0 sample_saved_state sample_files =
      (Inr (), \<lparr>f_primary = Content [1], f_backup = Missing, f_temporary = Missing\<rparr>)"
      by (simp add: save_cookies_def sample_jar_codec_def sample_written limit_simps)
    show "\<forall>c\<in>set (cs_cookies sample_saved_state). loadable sample_sites 0 0 c"
      by (rule sample_saved_loadable)
  qed (simp_all add: sample_saved_state_def sample_cookie_def sample_jar_codec_def limit_simps)
  show "map c_name (List.map_filter (reloaded 0 0) (cs_cookies sample_saved_state)) = [''x'']"
    by (simp add: sample_saved_state_def sample_cookie_def reloaded_def whole_seconds_def ticks_per_second_def
        List.map_filter_simps)
qed

section \<open>A cookie that locks the jar\<close>

text \<open>
  The parser accepts a name or value with a TAB inside; the loader refuses any control byte and then refuses
  the whole file. One assignment by a page therefore makes every later start fail to load the jar, until a
  backup written before it is found.
\<close>

definition tab_assignment :: string where
  "tab_assignment = ''a'' @ CHR 0x09 # ''b=c; max-age=60''"

definition tab_cookie :: cookie where
  "tab_cookie =
     \<lparr>c_name = ''a'' @ CHR 0x09 # ''b'', c_value = ''c'', c_domain = ''a.example'', c_path = ''/'', c_secure = False,
      c_host_only = True, c_http_only = False, c_same_site = SiteDefault, c_expires = Some 600000000,
      c_creation = 0\<rparr>"

lemma tab_pieces:
  "split_once (CHR '';'') tab_assignment = Some (''a'' @ CHR 0x09 # ''b=c'', '' max-age=60'')"
  "split_once (CHR ''='') (''a'' @ CHR 0x09 # ''b=c'') = Some (''a'' @ CHR 0x09 # ''b'', ''c'')"
  "trim_whitespace (''a'' @ CHR 0x09 # ''b'') = ''a'' @ CHR 0x09 # ''b''" "trim_whitespace ''c'' = ''c''"
  "split_on (CHR '';'') '' max-age=60'' = ['' max-age=60'']"
  "split_once (CHR ''='') '' max-age=60'' = Some ('' max-age'', ''60'')"
  "trim_whitespace '' max-age'' = ''max-age''" "trim_whitespace ''60'' = ''60''"
  "default_cookie_path ''/'' = ''/''"
  "\<not> list_ex is_excluded_control tab_assignment"
  by code_simp+

lemma tab_attribute_names:
  "\<not> eq_ignore_ascii_case ''max-age'' ''domain''" "\<not> eq_ignore_ascii_case ''max-age'' ''path''"
  "\<not> eq_ignore_ascii_case ''max-age'' ''secure''" "\<not> eq_ignore_ascii_case ''max-age'' ''httponly''"
  by code_simp+

lemma tab_max_age: "parse_max_age ''60'' = Some (AgeSeconds 60)"
proof -
  have "list_all is_ascii_digit ''60''" "strip_prefix ''60'' ''-'' = None" by code_simp+
  moreover have "parse_unsigned u64_max ''60'' = Some 60"
    by (simp add: parse_unsigned_def digit_value_def is_ascii_digit_def byte_def u64_max_eq)
  ultimately show ?thesis by (simp add: parse_max_age_def is_ascii_digit_def byte_def)
qed

lemma tab_parse:
  "parse_cookie_internal sample_sites \<lparr>scheme = ''https'', host = ''a.example'', port = 443, path_and_query = ''/''\<rparr>
     tab_assignment False 0 = Some (tab_cookie, False)"
  by (simp add: parse_cookie_internal_def tab_pieces cookie_attribute_def tab_attribute_names tab_max_age no_attributes_def
      apply_domain_attribute_def prefix_rules_violated_def starts_with_ascii_case_insensitive_def expiry_of_def
      tab_cookie_def Let_def saturating_add_def limit_simps time_add_or_same_def time_add_def MAX_TIME_def
      MAX_PERSISTENT_AGE_def ticks_per_second_def seconds_def del: append.simps)

lemma tab_stored:
  "store_cookie_state 0 tab_cookie False False True cookie_state_default =
   (True, \<lparr>cs_cookies = [tab_cookie\<lparr>c_creation := 1\<rparr>], cs_next_creation = 2, cs_version = 2\<rparr>)"
  by (simp add: store_cookie_state_def cookie_state_default_def purge_expired_def Let_def rejects_overlay_def
      allocate_creation_def next_or_one_def checked_add_def push_cookie_def evict_for_domain_limit_def advance_version_def
      limit_simps)

theorem tab_cookie_locks_the_jar:
  assumes "\<forall>j b. ck_write K j = Inr b \<longrightarrow> ck_read K b = Inr j"
    and "f_primary fs = Missing" "f_backup fs = Missing"
    and "set_document_cookie sample_crate sample_sites K io sample_clock ''https://a.example/'' tab_assignment
      \<lparr>ks_state = cookie_state_default, ks_path = True, ks_files = fs\<rparr> = (Inr (), ks')"
  shows "f_primary (ks_files ks') \<noteq> Missing \<and>
    (f_backup (ks_files ks') = Missing \<longrightarrow>
      load_cookies K sample_sites 0 (ks_files ks') = Inl ''invalid persistent cookie'')"
proof -
  let ?st = "\<lparr>cs_cookies = [tab_cookie\<lparr>c_creation := 1\<rparr>], cs_next_creation = 2, cs_version = 2\<rparr>"
  have "parsed_url_parse sample_crate ''https://a.example/'' =
      Inr \<lparr>scheme = ''https'', host = ''a.example'', port = 443, path_and_query = ''/''\<rparr>"
    by (simp add: sample_url_eval)
  with assms(4) have save: "save_cookies K io 0 ?st fs = (Inr (), ks_files ks')"
    by (auto simp: set_document_cookie_def tab_parse store_cookie_def sample_clock_def is_secure_url_def tab_stored
        persist_if_def persist_def split: prod.splits)
  then obtain b where b: "ck_write K (persisted_jar_of 0 ?st) = Inr b" "length b \<le> MAX_PERSISTED_COOKIE_BYTES"
    "write_recoverable False io fs b = (Inr (), ks_files ks')"
    by (auto simp: save_cookies_def split: sum.splits if_splits)
  obtain tr where tr: "write_run False io fs b = (Inr (), tr)" "ks_files ks' = last tr"
    using b(3) by (auto simp: write_recoverable_def split: prod.splits)
  have primary: "f_primary (ks_files ks') = Content b"
    using write_run_states(3) [OF tr(1)] tr(2) by simp
  have bad: "list_ex invalid_cookie_byte (''a'' @ CHR 0x09 # ''b'' @ ''c'')"
    by code_simp
  have "into_state sample_sites 0 (persisted_jar_of 0 ?st) = Inl ''invalid persistent cookie''"
    using bad by (simp add: into_state_def persisted_jar_of_def from_cookie_def tab_cookie_def List.map_filter_simps
        into_cookie_def persisted_cookie_invalid_def limit_simps)
  then have "load_cookie_file K sample_sites 0 (f_primary (ks_files ks')) = Inl ''invalid persistent cookie''"
    using primary b assms(1) by (simp add: load_cookie_file_def)
  with primary show ?thesis
    by (simp add: load_cookies_def load_recoverable_def) (simp add: load_cookie_file_def)
qed

end
