(* ===== verification/Fetch_Pipeline.thy ===== *)
theory Fetch_Pipeline
  imports Fetch_Stream Fetch_Metadata Cookie_Store Url_Resolution
begin

text \<open>
  \<^verbatim>\<open>src/winhttp/pipeline.rs\<close> and \<^verbatim>\<open>src/winhttp/pipeline/stream.rs\<close>: what one fetch does. The one-hop
  transport is a parameter, a function of everything dispatched before; so are the third-party crates and
  what the fetch observes of its surroundings (clocks, aborted controllers, the profile's disk).
\<close>

definition MAX_REDIRECTS :: nat where [limit_simps]: "MAX_REDIRECTS = 20"
definition MAX_PREFLIGHT_BODY_BYTES :: nat where [limit_simps]: "MAX_PREFLIGHT_BODY_BYTES = 64 * 1024"

section \<open>The client and its surroundings\<close>

record transport_request =
  tr_url :: fetch_url
  tr_method :: string
  tr_headers :: header_list
  tr_body :: "body option"
  tr_body_limit :: nat
  tr_cache :: request_cache

record transport_response =
  ts_status :: nat
  ts_headers :: header_list
  ts_reads :: "nat \<Rightarrow> read_event"

text \<open>
  A dispatch is logged with the request and the redirect count it serves. The log is not in the source: it is
  what an observer of the network sees, and the history the transport's answers may depend on.
\<close>

record dispatch =
  dp_preflight :: bool
  dp_request :: fetch_request
  dp_redirects :: nat
  dp_sent :: transport_request
  dp_reply :: "fetch_error + transport_response"

text \<open>
  The crates: \<open>data_url\<close> is \<^verbatim>\<open>DataUrl::process\<close> with the displayed media type and the decoded body.
\<close>

record fetch_crates =
  fc_urls :: url_resolver
  fc_sites :: site_crates
  fc_cookies :: cookie_codec
  fc_dates :: http_dates
  fc_data_url :: "string \<Rightarrow> string + string \<times> (string + bytes)"

text \<open>
  What one fetch observes: the transport's answers, and by the number of dispatches so far and the place in
  the code the aborted controllers, the clocks, and how disk writes end.
\<close>

record fetch_env =
  ev_transport :: "dispatch list \<Rightarrow> transport_request \<Rightarrow> fetch_error + transport_response"
  ev_aborted :: "nat \<Rightarrow> nat \<Rightarrow> nat set"
  ev_wall :: "nat \<Rightarrow> time"
  ev_now :: "nat \<Rightarrow> nat \<Rightarrow> instant"
  ev_cookie_clock :: "nat \<Rightarrow> nat \<Rightarrow> clock"
  ev_disk :: "nat \<Rightarrow> nat \<Rightarrow> io_env"
  ev_opaque :: "nat \<Rightarrow> nat" \<comment> \<open>\<^verbatim>\<open>NEXT_OPAQUE_ORIGIN\<close>\<close>

record http_client =
  hc_cache :: response_cache
  hc_cookies :: cookie_store
  hc_log :: "dispatch list"

abbreviation dispatched :: "http_client \<Rightarrow> nat" where
  "dispatched c \<equiv> length (hc_log c)"

text \<open>
  Fallible steps that change the client: \<open>None\<close> stands for a call that does not return, and the client keeps
  its changes when a step fails.
\<close>

type_synonym 'a fetching = "http_client \<Rightarrow> ((fetch_error + 'a) \<times> http_client) option"

definition fetch_bind :: "'a fetching \<Rightarrow> ('a \<Rightarrow> 'b fetching) \<Rightarrow> 'b fetching" where
  "fetch_bind f g = (\<lambda>c. case f c of
     None \<Rightarrow> None
   | Some (Inl e, c') \<Rightarrow> Some (Inl e, c')
   | Some (Inr x, c') \<Rightarrow> g x c')"

definition fetch_result :: "fetch_error + 'a \<Rightarrow> 'a fetching" where
  "fetch_result r = (\<lambda>c. Some (r, c))"

definition asking :: "(http_client \<Rightarrow> 'a) \<Rightarrow> ('a \<Rightarrow> 'b fetching) \<Rightarrow> 'b fetching" where
  "asking q f = (\<lambda>c. f (q c) c)"

section \<open>The transport\<close>

definition check_signal :: "fetch_env \<Rightarrow> nat \<Rightarrow> fetch_request \<Rightarrow> unit fetching" where
  "check_signal E point r = asking dispatched (\<lambda>n. fetch_result (signal_check (ev_aborted E n point) (fr_signal r)))"

text \<open>\<^verbatim>\<open>send_once_stream\<close>: only HTTP(S) URLs are dispatched.\<close>

definition send_once_stream ::
  "fetch_env \<Rightarrow> bool \<Rightarrow> fetch_request \<Rightarrow> nat \<Rightarrow> transport_request \<Rightarrow> transport_response fetching" where
  "send_once_stream E preflight r redirects t =
     fetch_bind (check_signal E 3 r) (\<lambda>_.
       if fetch_url_parsed (tr_url t) = None
       then fetch_result (Inl (invalid_request ''WinHTTP only transports HTTP(S) URLs''))
       else (\<lambda>c.
         let reply = ev_transport E (hc_log c) t;
             entry = \<lparr>dp_preflight = preflight, dp_request = r, dp_redirects = redirects, dp_sent = t, dp_reply = reply\<rparr>
         in Some (reply, c\<lparr>hc_log := hc_log c @ [entry]\<rparr>)))"

text \<open>\<^verbatim>\<open>send_once\<close> reads the body to its end, within the limit, and drops it.\<close>

definition transport_stream :: "fetch_request \<Rightarrow> nat \<Rightarrow> transport_response \<Rightarrow> body_stream" where
  "transport_stream r limit ts =
     \<lparr>bs_reads = ts_reads ts, bs_index = 0, bs_signal = fr_signal r, bs_limit = limit, bs_received = 0,
      bs_finished = False\<rparr>"

partial_function (option) drain :: "body_stream \<Rightarrow> body \<Rightarrow> (fetch_error + unit) option" where
  [code]: "drain b acc =
     (case transport_next_chunk b of
        (Inl e, _) \<Rightarrow> Some (Inl e)
      | (Inr None, _) \<Rightarrow> Some (Inr ())
      | (Inr (Some chunk), b') \<Rightarrow>
          (case body_push chunk acc of Inl e \<Rightarrow> Some (Inl e) | Inr acc' \<Rightarrow> drain b' acc'))"

definition send_once ::
  "fetch_env \<Rightarrow> bool \<Rightarrow> fetch_request \<Rightarrow> nat \<Rightarrow> transport_request \<Rightarrow> transport_response fetching" where
  "send_once E preflight r redirects t =
     fetch_bind (send_once_stream E preflight r redirects t) (\<lambda>ts c.
       map_option (\<lambda>d. (and_then d (\<lambda>_. Inr ts), c))
         (drain (transport_stream r (tr_body_limit t) ts) (body_empty (tr_body_limit t))))"


section \<open>Preflight\<close>

definition preflight_headers :: "fetch_request \<Rightarrow> origin \<Rightarrow> fetch_error + header_list" where
  "preflight_headers r org =
     and_then (headers_append ''origin'' (origin_serialize org) []) (\<lambda>hs1.
     and_then (headers_append ''access-control-request-method'' (fr_method r) hs1) (\<lambda>hs2.
       let unsafe_names = remdups_adj (sort (map h_name (unsafe_headers (fr_headers r))))
       in if unsafe_names = [] then Inr hs2
          else headers_append ''access-control-request-headers'' (join_with '', '' unsafe_names) hs2))"

definition preflight_request :: "fetch_request \<Rightarrow> header_list \<Rightarrow> transport_request" where
  "preflight_request r hs =
     \<lparr>tr_url = fr_url r, tr_method = ''OPTIONS'', tr_headers = hs, tr_body = None,
      tr_body_limit = MAX_PREFLIGHT_BODY_BYTES, tr_cache = NoStore\<rparr>"

definition preflight_verdict :: "fetch_request \<Rightarrow> transport_response \<Rightarrow> fetch_error + unit" where
  "preflight_verdict r ts =
     (if \<not> (200 \<le> ts_status ts \<and> ts_status ts \<le> 299)
      then Inl (cors_error (''CORS preflight returned HTTP '' @ show_nat (ts_status ts)))
      else validate_preflight_response r (ts_headers ts))"

definition run_preflight :: "fetch_env \<Rightarrow> fetch_request \<Rightarrow> nat \<Rightarrow> unit fetching" where
  "run_preflight E r redirects =
     fetch_bind (fetch_result (ok_or (fr_origin r) panicked)) (\<lambda>org.
     fetch_bind (fetch_result (preflight_headers r org)) (\<lambda>hs.
     fetch_bind (send_once E True r redirects (preflight_request r hs)) (\<lambda>ts.
       fetch_result (preflight_verdict r ts))))"

section \<open>The headers that go out\<close>

definition cache_mode_headers :: "fetch_request \<Rightarrow> header_list \<Rightarrow> fetch_error + header_list" where
  "cache_mode_headers r hs =
     (if fr_cache r = NoStore \<or> fr_cache r = Reload
      then and_then (headers_set_ok ''pragma'' ''no-cache'' hs) (headers_set_ok ''cache-control'' ''no-cache'')
      else if fr_cache r = NoCache
           \<and> \<not> headers_contains hs ''if-modified-since'' \<and> \<not> headers_contains hs ''if-none-match''
           \<and> \<not> headers_contains hs ''if-unmodified-since'' \<and> \<not> headers_contains hs ''if-match''
           \<and> \<not> headers_contains hs ''if-range''
      then headers_set_ok ''cache-control'' ''max-age=0'' hs
      else Inr hs)"

definition with_cookies :: "(nat \<Rightarrow> cookie_store \<Rightarrow> (string + 'a) \<times> cookie_store) \<Rightarrow> 'a fetching" where
  "with_cookies f = (\<lambda>c. case f (dispatched c) (hc_cookies c) of
     (answer, cookies) \<Rightarrow> Some (map_err network_error answer, c\<lparr>hc_cookies := cookies\<rparr>))"

definition cookie_for :: "fetch_crates \<Rightarrow> fetch_env \<Rightarrow> fetch_request \<Rightarrow> string option fetching" where
  "cookie_for C E r =
     (if \<not> credentials_permitted r then fetch_result (Inr None)
      else with_cookies (\<lambda>n.
        request_header (fc_urls C) (fc_sites C) (fc_cookies C) (ev_disk E n 0) (ev_cookie_clock E n 0) r))"

definition set_optional :: "string \<Rightarrow> string option \<Rightarrow> header_list \<Rightarrow> fetch_error + header_list" where
  "set_optional name v hs = (case v of None \<Rightarrow> Inr hs | Some x \<Rightarrow> headers_set_ok name x hs)"

definition outbound_headers :: "fetch_crates \<Rightarrow> fetch_env \<Rightarrow> fetch_request \<Rightarrow> fetch_url list \<Rightarrow> header_list fetching" where
  "outbound_headers C E r url_list =
     fetch_bind (fetch_result (and_then (append_fetch_metadata (fc_urls C) (fc_sites C) r url_list (fr_headers r))
       (\<lambda>hs1. and_then (cache_mode_headers r hs1)
       (\<lambda>hs2. if \<not> headers_contains hs2 ''accept-language''
              then headers_append ''accept-language'' ''en-CA,en;q=0.9'' hs2 else Inr hs2)))) (\<lambda>hs3.
     fetch_bind (cookie_for C E r) (\<lambda>cookie.
       fetch_result (and_then (set_optional ''cookie'' cookie hs3) (\<lambda>hs4.
         and_then (set_optional ''referer'' (referrer_header r) hs4) (\<lambda>hs5.
           set_optional ''origin''
             (if should_send_origin r then map_option origin_serialize (fr_origin r) else None) hs5)))))"

fun store_cookie_loop :: "fetch_crates \<Rightarrow> fetch_env \<Rightarrow> fetch_request \<Rightarrow> nat \<Rightarrow> string list \<Rightarrow> unit fetching" where
  "store_cookie_loop C E r i [] = fetch_result (Inr ())"
| "store_cookie_loop C E r i (v # vs) =
     fetch_bind (with_cookies (\<lambda>n.
         store_response_cookie (fc_urls C) (fc_sites C) (fc_cookies C) (ev_disk E n i) (ev_cookie_clock E n i) r v))
       (\<lambda>_. store_cookie_loop C E r (Suc i) vs)"

definition store_response_cookies ::
  "fetch_crates \<Rightarrow> fetch_env \<Rightarrow> fetch_request \<Rightarrow> header_list \<Rightarrow> unit fetching" where
  "store_response_cookies C E r hs =
     (if \<not> credentials_permitted r then fetch_result (Inr ())
      else store_cookie_loop C E r 1 (headers_values hs ''set-cookie''))"

section \<open>Data URLs\<close>

definition fetch_data_url :: "fetch_crates \<Rightarrow> fetch_env \<Rightarrow> fetch_request \<Rightarrow> fetch_response fetching" where
  "fetch_data_url C E r =
     fetch_bind (check_signal E 2 r) (\<lambda>_. fetch_result (
       if fr_method r \<noteq> ''GET''
       then Inl (network_error ''data URLs can only be fetched with GET'')
       else if fr_mode r = SameOriginMode \<and> fr_origin r \<noteq> None
       then Inl (cors_error ''opaque data URL is not same-origin with the requesting document'')
       else
         and_then (map_err (\<lambda>e. network_error (''invalid data URL: '' @ e)) (fc_data_url C (fu_serialized (fr_url r))))
           (\<lambda>(content_type, decoded).
         and_then (map_err (\<lambda>e. network_error (''invalid data URL body: '' @ e)) decoded) (\<lambda>bs.
         and_then (body_push bs (body_empty (fr_response_body_limit r))) (\<lambda>b.
         and_then (headers_append ''content-type'' content_type []) (\<lambda>hs.
           Inr \<lparr>rs_type = Basic, rs_url_list = [fr_url r], rs_status = 200, rs_headers = hs, rs_body = b\<rparr>))))))"

section \<open>Policies and filtered responses\<close>

definition is_data :: "fetch_url \<Rightarrow> bool" where
  "is_data u \<longleftrightarrow> fu_kind u = DataUrl"

definition check_request_policy :: "fetch_crates \<Rightarrow> fetch_request \<Rightarrow> nat \<Rightarrow> fetch_error + unit" where
  "check_request_policy C r redirects =
     (if fr_context r = PrefetchContext then
        (if \<not> is_data (fr_url r)
            \<and> (case fr_origin r of None \<Rightarrow> False | Some org \<Rightarrow> is_potentially_trustworthy org)
            \<and> \<not> is_potentially_trustworthy (fu_origin (fr_url r))
         then Inl (network_error ''Mixed content blocked prefetch'')
         else if is_data (fr_url r) \<or> \<not> allows_resource_hint (fc_urls C) (fr_policy r) (fu_serialized (fr_url r))
         then Inl (network_error ''Content Security Policy blocked prefetch'')
         else Inr ())
      else check_request_with_script (fc_urls C) (fr_policy r) (fr_destination r) (fu_serialized (fr_url r)) redirects
             (fr_script_source r))"

definition opaque_response :: "response_type \<Rightarrow> fetch_request \<Rightarrow> fetch_url list \<Rightarrow> streaming_response" where
  "opaque_response kind r url_list =
     \<lparr>sr_type = kind, sr_url_list = url_list, sr_status = 0, sr_headers = [], sr_body = EmptyBody,
      sr_body_limit = fr_response_body_limit r\<rparr>"

definition manual_redirect :: "fetch_request \<Rightarrow> fetch_url list \<Rightarrow> transport_response \<Rightarrow> streaming_response" where
  "manual_redirect r url_list ts =
     (if fr_context r = ScriptContext then opaque_response OpaqueRedirect r url_list
      else \<lparr>sr_type = Basic, sr_url_list = url_list, sr_status = ts_status ts, sr_headers = ts_headers ts,
            sr_body = NetworkBody (transport_stream r (fr_response_body_limit r) ts) None,
            sr_body_limit = fr_response_body_limit r\<rparr>)"

definition filtered_with :: "fetch_request \<Rightarrow> fetch_url list \<Rightarrow> nat \<Rightarrow> header_list \<Rightarrow> streaming_body \<Rightarrow> streaming_response" where
  "filtered_with r url_list status hs sb =
     (let is_cross_origin = needs_cors_check r
      in if fr_context r = ScriptContext \<and> is_cross_origin \<and> fr_mode r = NoCorsMode
         then opaque_response OpaqueResponse r url_list
         else
           \<lparr>sr_type = (if fr_context r = ScriptContext \<and> is_cross_origin then CorsResponse else Basic),
            sr_url_list = url_list, sr_status = status,
            sr_headers = (if fr_context r = ScriptContext then cors_filtered_headers hs r else hs),
            sr_body = sb, sr_body_limit = fr_response_body_limit r\<rparr>)"

definition filtered ::
  "fetch_request \<Rightarrow> fetch_url list \<Rightarrow> transport_response \<Rightarrow> cache_candidate option \<Rightarrow> streaming_response" where
  "filtered r url_list ts candidate =
     filtered_with r url_list (ts_status ts) (ts_headers ts)
       (NetworkBody (transport_stream r (fr_response_body_limit r) ts) candidate)"

definition filtered_cached :: "fetch_request \<Rightarrow> fetch_url list \<Rightarrow> cached_response \<Rightarrow> instant \<Rightarrow> streaming_response" where
  "filtered_cached r url_list e now =
     filtered_with r url_list (cr_status e) (response_headers e now) (MemoryBody (cr_body e) 0)"

section \<open>One hop\<close>

datatype hop = Respond streaming_response | FollowTo fetch_request "fetch_url list"

definition admit_hop :: "fetch_crates \<Rightarrow> fetch_request \<Rightarrow> nat \<Rightarrow> fetch_error + unit" where
  "admit_hop C r redirects =
     and_then (check_request_policy C r redirects) (\<lambda>_.
       if needs_cors_check r \<and> fr_mode r = SameOriginMode
       then Inl (cors_error ''cross-origin request blocked by same-origin mode'') else Inr ())"

definition reusable :: "fetch_request \<Rightarrow> cached_response \<Rightarrow> instant \<Rightarrow> bool" where
  "reusable r e now =
     (case fr_cache r of
        DefaultCache \<Rightarrow> fresh e now \<and> \<not> request_forces_validation r
      | ForceCache \<Rightarrow> fresh e now \<or> can_serve_stale e
      | OnlyIfCached \<Rightarrow> fresh e now \<or> can_serve_stale e
      | _ \<Rightarrow> False)"

definition redirected :: "fetch_request \<Rightarrow> fetch_url \<Rightarrow> nat \<Rightarrow> fetch_request" where
  "redirected r next' status =
     (rewrite_redirect_method status
        (if \<not> is_same_origin (fu_origin (fr_url r)) (fu_origin next')
         then r\<lparr>fr_headers := headers_remove ''authorization'' (fr_headers r)\<rparr> else r))\<lparr>fr_url := next'\<rparr>"

definition follow_redirect ::
  "fetch_crates \<Rightarrow> fetch_env \<Rightarrow> nat \<Rightarrow> fetch_request \<Rightarrow> nat \<Rightarrow> fetch_url list \<Rightarrow> transport_response \<Rightarrow> string \<Rightarrow>
   fetch_error + hop" where
  "follow_redirect C E n r redirects url_list ts location =
     (case fr_redirect r of
        ErrorRedirect \<Rightarrow> Inl \<lparr>fe_kind = Redirect, fe_message = ''redirect blocked by request redirect mode''\<rparr>
      | ManualRedirect \<Rightarrow> Inr (Respond (manual_redirect r url_list ts))
      | FollowRedirect \<Rightarrow>
          if redirects = MAX_REDIRECTS
          then Inl \<lparr>fe_kind = Redirect, fe_message = ''redirect limit of 20 was exceeded''\<rparr>
          else and_then (fetch_url_resolve (fc_urls C) (ev_opaque E n) (fr_url r) location) (\<lambda>(next', _).
            Inr (FollowTo (redirected r next' (ts_status ts)) (url_list @ [next']))))"

definition after_response ::
  "fetch_crates \<Rightarrow> fetch_env \<Rightarrow> nat \<Rightarrow> fetch_request \<Rightarrow> nat \<Rightarrow> fetch_url list \<Rightarrow> header_list \<Rightarrow> instant \<Rightarrow>
   transport_response \<Rightarrow> fetch_error + hop" where
  "after_response C E n r redirects url_list outbound requested_at ts =
     (case (if is_redirect_status (ts_status ts) then headers_get (ts_headers ts) ''location'' else None) of
        Some location \<Rightarrow> follow_redirect C E n r redirects url_list ts location
      | None \<Rightarrow>
          Inr (Respond (filtered r url_list ts
            (candidate_new (fc_dates C) (ev_wall E n) (ev_now E n 3) r outbound (ts_status ts) (ts_headers ts) requested_at))))"

definition insert_cached :: "cached_response \<Rightarrow> unit fetching" where
  "insert_cached e = (\<lambda>c. map_option (\<lambda>rc. (Inr (), c\<lparr>hc_cache := rc\<rparr>)) (cache_insert e (hc_cache c)))"

definition revalidated_by ::
  "fetch_crates \<Rightarrow> fetch_env \<Rightarrow> nat \<Rightarrow> cached_response option \<Rightarrow> transport_response \<Rightarrow> cached_response option" where
  "revalidated_by C E n cached ts =
     (if ts_status ts \<noteq> 304 then None
      else Option.bind cached (\<lambda>previous.
        if has_validator previous
        then revalidated (fc_dates C) (ev_wall E n) (ev_now E n 4) (ts_headers ts) previous else None))"

definition dispatch_hop ::
  "fetch_crates \<Rightarrow> fetch_env \<Rightarrow> nat \<Rightarrow> fetch_request \<Rightarrow> fetch_url list \<Rightarrow> header_list \<Rightarrow> cached_response option \<Rightarrow>
   hop fetching" where
  "dispatch_hop C E redirects r url_list outbound cached =
     asking (\<lambda>c. ev_now E (dispatched c) 2) (\<lambda>requested_at.
     fetch_bind (send_once_stream E False r redirects
       \<lparr>tr_url = fr_url r, tr_method = fr_method r, tr_headers = outbound, tr_body = fr_body r,
        tr_body_limit = fr_response_body_limit r, tr_cache = fr_cache r\<rparr>) (\<lambda>ts.
     fetch_bind (store_response_cookies C E r (ts_headers ts)) (\<lambda>_.
     asking dispatched (\<lambda>n.
       case revalidated_by C E n cached ts of
         Some e \<Rightarrow>
           fetch_bind (fetch_result (validate_cors_response r (cr_headers e))) (\<lambda>_.
           fetch_bind (insert_cached e) (\<lambda>_.
             fetch_result (Inr (Respond (filtered_cached r url_list e (ev_now E n 5))))))
       | None \<Rightarrow>
           fetch_bind (fetch_result (validate_cors_response r (ts_headers ts))) (\<lambda>_.
             fetch_result (after_response C E n r redirects url_list outbound requested_at ts))))))"

definition answer_hop ::
  "fetch_crates \<Rightarrow> fetch_env \<Rightarrow> nat \<Rightarrow> fetch_request \<Rightarrow> fetch_url list \<Rightarrow> header_list \<Rightarrow> cached_response option \<Rightarrow>
   hop fetching" where
  "answer_hop C E redirects r url_list outbound cached =
     asking dispatched (\<lambda>n.
       case (case cached of None \<Rightarrow> None | Some e \<Rightarrow> if reusable r e (ev_now E n 0) then Some e else None) of
         Some e \<Rightarrow>
           fetch_result (and_then (validate_cors_response r (cr_headers e)) (\<lambda>_.
             Inr (Respond (filtered_cached r url_list e (ev_now E n 1)))))
       | None \<Rightarrow>
           if fr_cache r = OnlyIfCached
           then fetch_result (Inl (network_error ''only-if-cached request has no reusable HTTP cache entry''))
           else dispatch_hop C E redirects r url_list
                  (case cached of None \<Rightarrow> outbound | Some e \<Rightarrow> add_validator e outbound) cached)"

definition hop_after_preflight ::
  "fetch_crates \<Rightarrow> fetch_env \<Rightarrow> nat \<Rightarrow> fetch_request \<Rightarrow> fetch_url list \<Rightarrow> hop fetching" where
  "hop_after_preflight C E redirects r url_list =
     fetch_bind (outbound_headers C E r url_list) (\<lambda>outbound.
     asking hc_cache (\<lambda>rc.
       answer_hop C E redirects r url_list outbound
         (if cacheable_request r outbound \<and> fr_cache r \<noteq> Reload then cache_lookup rc r outbound else None)))"

definition fetch_hop :: "fetch_crates \<Rightarrow> fetch_env \<Rightarrow> nat \<Rightarrow> fetch_request \<Rightarrow> fetch_url list \<Rightarrow> hop fetching" where
  "fetch_hop C E redirects r url_list =
     fetch_bind (check_signal E 1 r) (\<lambda>_.
     fetch_bind (fetch_result (admit_hop C r redirects)) (\<lambda>_.
     fetch_bind (if needs_preflight r then run_preflight E r redirects else fetch_result (Inr ())) (\<lambda>_.
       hop_after_preflight C E redirects r url_list)))"

section \<open>The whole fetch\<close>

text \<open>\<^verbatim>\<open>for redirect_count in 0..=MAX_REDIRECTS\<close>, by the turns left; the code after the loop is unreachable.\<close>

definition unreachable :: fetch_error where
  "unreachable = \<lparr>fe_kind = Network, fe_message = ''panic: the bounded redirect loop always returns''\<rparr>"

fun fetch_loop :: "fetch_crates \<Rightarrow> fetch_env \<Rightarrow> nat \<Rightarrow> fetch_request \<Rightarrow> fetch_url list \<Rightarrow> streaming_response fetching" where
  "fetch_loop C E 0 r url_list = fetch_result (Inl unreachable)"
| "fetch_loop C E (Suc left) r url_list =
     fetch_bind (fetch_hop C E (MAX_REDIRECTS - left) r url_list) (\<lambda>h.
       case h of
         Respond sr \<Rightarrow> fetch_result (Inr sr)
       | FollowTo r' url_list' \<Rightarrow> fetch_loop C E left r' url_list')"

definition fetch_stream :: "fetch_crates \<Rightarrow> fetch_env \<Rightarrow> fetch_request \<Rightarrow> streaming_response fetching" where
  "fetch_stream C E r0 =
     fetch_bind (fetch_result (validate_request r0)) (\<lambda>r.
     fetch_bind (check_signal E 0 r) (\<lambda>_.
     fetch_bind (fetch_result (check_request_policy C r 0)) (\<lambda>_.
       if is_data (fr_url r)
       then fetch_bind (fetch_data_url C E r) (\<lambda>rs. fetch_result (Inr (from_buffered rs (fr_response_body_limit r))))
       else fetch_loop C E (Suc MAX_REDIRECTS) r [fr_url r])))"

definition fetch :: "fetch_crates \<Rightarrow> fetch_env \<Rightarrow> fetch_request \<Rightarrow> fetch_response fetching" where
  "fetch C E r =
     fetch_bind (fetch_stream C E r) (\<lambda>sr c.
       map_option (\<lambda>(rs, rc). (rs, c\<lparr>hc_cache := rc\<rparr>)) (into_buffered sr (hc_cache c)))"

end
