(* ===== verification/Fetch_Hops.thy ===== *)
theory Fetch_Hops
  imports Fetch_Pipeline
begin

text \<open>
  Reasoning about fetches: a weakest-precondition calculus for the steps of the pipeline, and what each step
  may do to the client, to the log of dispatches and to the request.
\<close>

section \<open>Weakest preconditions\<close>

text \<open>The step returns, and its result and the client after it satisfy \<open>Q\<close>.\<close>

definition fetch_wp :: "'a fetching \<Rightarrow> (fetch_error + 'a \<Rightarrow> http_client \<Rightarrow> bool) \<Rightarrow> http_client \<Rightarrow> bool" where
  "fetch_wp f Q c = (case f c of None \<Rightarrow> False | Some (r, c') \<Rightarrow> Q r c')"

lemma fetch_wp_iff: "fetch_wp f Q c \<longleftrightarrow> (\<exists>r c'. f c = Some (r, c') \<and> Q r c')"
  by (auto simp: fetch_wp_def split: option.splits)

named_theorems wp_simps \<open>weakest preconditions of the combinators\<close>

lemma fetch_wp_result [wp_simps]: "fetch_wp (fetch_result r) Q c = Q r c"
  by (simp add: fetch_wp_def fetch_result_def)

lemma fetch_wp_asking [wp_simps]: "fetch_wp (asking q f) Q c = fetch_wp (f (q c)) Q c"
  by (simp add: fetch_wp_def asking_def)

lemma fetch_wp_bind [wp_simps]:
  "fetch_wp (fetch_bind f g) Q c =
   fetch_wp f (\<lambda>r c'. case r of Inl e \<Rightarrow> Q (Inl e) c' | Inr x \<Rightarrow> fetch_wp (g x) Q c') c"
  by (simp add: fetch_wp_def fetch_bind_def split: option.splits prod.splits sum.splits)

lemma fetch_bind_result: "fetch_bind (fetch_result (Inr x)) g = g x"
  by (simp add: fetch_bind_def fetch_result_def)

lemma fetch_wp_mono:
  "fetch_wp f P c \<Longrightarrow> (\<And>r c'. P r c' \<Longrightarrow> Q r c') \<Longrightarrow> fetch_wp f Q c"
  by (auto simp: fetch_wp_iff)

lemma fetch_wpD: "fetch_wp f Q c \<Longrightarrow> f c = Some (r, c') \<Longrightarrow> Q r c'"
  by (auto simp: fetch_wp_iff)

text \<open>A bind whose first step has the postcondition \<open>P\<close>.\<close>

lemma fetch_wp_bindI:
  assumes "fetch_wp f P c" "\<And>e c'. P (Inl e) c' \<Longrightarrow> Q (Inl e) c'" "\<And>x c'. P (Inr x) c' \<Longrightarrow> fetch_wp (g x) Q c'"
  shows "fetch_wp (fetch_bind f g) Q c"
  unfolding fetch_wp_bind by (rule fetch_wp_mono [OF assms(1)]) (auto split: sum.splits intro: assms(2,3))

lemma check_signal_wp: "fetch_wp (check_signal E point r) (\<lambda>_ c'. c' = c) c"
  by (simp add: check_signal_def wp_simps)

section \<open>Headers\<close>

lemma header_named_remove:
  "to_ascii_lowercase n \<noteq> to_ascii_lowercase m \<Longrightarrow> headers_contains (headers_remove n hs) m \<longleftrightarrow> headers_contains hs m"
  by (auto simp: headers_contains_iff headers_remove_def header_named_def eq_ignore_ascii_case_def)

lemma headers_set_ok_contains:
  assumes "headers_set_ok n v hs = Inr hs'" "to_ascii_lowercase n \<noteq> to_ascii_lowercase m"
  shows "headers_contains hs' m \<longleftrightarrow> headers_contains hs m"
proof -
  obtain h where "hs' = headers_remove (to_ascii_lowercase n) hs @ [h]" "h_name h = to_ascii_lowercase n"
    using headers_set_ok_Inr [OF assms(1)] by blast
  with assms(2) header_named_remove [of "to_ascii_lowercase n" m hs] show ?thesis
    by (auto simp: headers_contains_iff header_named_def eq_ignore_ascii_case_def)
qed

lemma headers_append_contains:
  assumes "headers_append n v hs = Inr hs'" "to_ascii_lowercase n \<noteq> to_ascii_lowercase m"
  shows "headers_contains hs' m \<longleftrightarrow> headers_contains hs m"
proof -
  obtain h where "hs' = hs @ [h]" "h_name h = to_ascii_lowercase n"
    using headers_append_Inr [OF assms(1)] by blast
  with assms(2) show ?thesis
    by (auto simp: headers_contains_iff header_named_def eq_ignore_ascii_case_def)
qed

lemma set_optional_contains:
  "set_optional n v hs = Inr hs' \<Longrightarrow> to_ascii_lowercase n \<noteq> to_ascii_lowercase m \<Longrightarrow>
   headers_contains hs' m \<longleftrightarrow> headers_contains hs m"
  by (auto simp: set_optional_def headers_set_ok_contains split: option.splits)

text \<open>The names the pipeline sets, in the form the lemmas above compare them.\<close>

lemma lower_names:
  "to_ascii_lowercase ''cookie'' = ''cookie''" "to_ascii_lowercase ''authorization'' = ''authorization''"
  "to_ascii_lowercase ''sec-purpose'' = ''sec-purpose''" "to_ascii_lowercase ''sec-fetch-dest'' = ''sec-fetch-dest''"
  "to_ascii_lowercase ''sec-fetch-mode'' = ''sec-fetch-mode''" "to_ascii_lowercase ''sec-fetch-site'' = ''sec-fetch-site''"
  "to_ascii_lowercase ''sec-fetch-user'' = ''sec-fetch-user''" "to_ascii_lowercase ''pragma'' = ''pragma''"
  "to_ascii_lowercase ''cache-control'' = ''cache-control''" "to_ascii_lowercase ''accept-language'' = ''accept-language''"
  "to_ascii_lowercase ''referer'' = ''referer''" "to_ascii_lowercase ''origin'' = ''origin''"
  "to_ascii_lowercase ''access-control-request-method'' = ''access-control-request-method''"
  "to_ascii_lowercase ''access-control-request-headers'' = ''access-control-request-headers''"
  "to_ascii_lowercase ''if-none-match'' = ''if-none-match''" "to_ascii_lowercase ''if-modified-since'' = ''if-modified-since''"
  "to_ascii_lowercase ''age'' = ''age''" "to_ascii_lowercase ''content-type'' = ''content-type''"
  by code_simp+

lemmas header_frame = headers_set_ok_contains headers_append_contains set_optional_contains

lemma append_fetch_metadata_contains:
  assumes "append_fetch_metadata U S r us hs = Inr hs'" "m \<in> {''cookie'', ''authorization''}"
  shows "headers_contains hs' m \<longleftrightarrow> headers_contains hs m"
  using assms
  by (auto simp: append_fetch_metadata_def result_simps header_frame lower_names split: if_splits option.splits)

lemma cache_mode_headers_contains:
  assumes "cache_mode_headers r hs = Inr hs'" "m \<in> {''cookie'', ''authorization''}"
  shows "headers_contains hs' m \<longleftrightarrow> headers_contains hs m"
  using assms by (auto simp: cache_mode_headers_def result_simps header_frame lower_names split: if_splits)

lemma add_validator_contains:
  assumes "m \<in> {''cookie'', ''authorization''}"
  shows "headers_contains (add_validator e hs) m \<longleftrightarrow> headers_contains hs m"
proof -
  have "headers_contains (snd (headers_set n v hs)) m \<longleftrightarrow> headers_contains hs m"
    if "n \<in> {''if-none-match'', ''if-modified-since''}" for n v
  proof -
    have "normalize_name n = Inr n" using that by (auto simp: lower_names normalize_name_idem) code_simp+
    moreover have "to_ascii_lowercase n \<noteq> to_ascii_lowercase m" using that assms by (auto simp: lower_names)
    ultimately show ?thesis
      by (auto simp: headers_set_def header_named_remove headers_append_contains split: sum.splits)
  qed
  then show ?thesis by (auto simp: add_validator_def split: option.splits)
qed


section \<open>What may be dispatched\<close>

text \<open>The log ends with a preflight for this very request that the server granted.\<close>

definition preflighted :: "fetch_request \<Rightarrow> dispatch list \<Rightarrow> bool" where
  "preflighted r ds \<longleftrightarrow>
     ds \<noteq> [] \<and> dp_preflight (last ds) \<and> dp_request (last ds) = r \<and>
     (\<exists>ts org. dp_reply (last ds) = Inr ts \<and> 200 \<le> ts_status ts \<and> ts_status ts \<le> 299 \<and> fr_origin r = Some org \<and>
        preflight_grants (ts_headers ts) r (origin_serialize org))"

text \<open>
  A dispatch is in order: it goes to the URL of the request it serves, an HTTP(S) URL the request's policies
  admit; a preflight carries no credentials; another dispatch is the request itself, with cookies only where
  the credentials mode permits them, with no Authorization header the request does not have, and, where the
  request needs a preflight, right after one that was granted.
\<close>

definition dispatch_ok :: "fetch_crates \<Rightarrow> dispatch list \<Rightarrow> dispatch \<Rightarrow> bool" where
  "dispatch_ok C earlier d \<longleftrightarrow>
     tr_url (dp_sent d) = fr_url (dp_request d) \<and> fetch_url_parsed (tr_url (dp_sent d)) \<noteq> None \<and>
     admit_hop C (dp_request d) (dp_redirects d) = Inr () \<and>
     (if dp_preflight d then
        tr_method (dp_sent d) = ''OPTIONS'' \<and> tr_body (dp_sent d) = None \<and>
        \<not> headers_contains (tr_headers (dp_sent d)) ''cookie'' \<and>
        \<not> headers_contains (tr_headers (dp_sent d)) ''authorization''
      else
        tr_method (dp_sent d) = fr_method (dp_request d) \<and> tr_body (dp_sent d) = fr_body (dp_request d) \<and>
        (headers_contains (tr_headers (dp_sent d)) ''cookie'' \<longrightarrow>
           headers_contains (fr_headers (dp_request d)) ''cookie'' \<or> credentials_permitted (dp_request d)) \<and>
        (headers_contains (tr_headers (dp_sent d)) ''authorization'' \<longrightarrow>
           headers_contains (fr_headers (dp_request d)) ''authorization'') \<and>
        (needs_preflight (dp_request d) \<longrightarrow> preflighted (dp_request d) earlier))"

fun dispatches_ok :: "fetch_crates \<Rightarrow> dispatch list \<Rightarrow> dispatch list \<Rightarrow> bool" where
  "dispatches_ok C earlier [] = True"
| "dispatches_ok C earlier (d # ds) = (dispatch_ok C earlier d \<and> dispatches_ok C (earlier @ [d]) ds)"

lemma dispatches_ok_append [simp]:
  "dispatches_ok C earlier (ds @ es) \<longleftrightarrow> dispatches_ok C earlier ds \<and> dispatches_ok C (earlier @ ds) es"
  by (induction ds arbitrary: earlier) auto

lemma dispatches_ok_nth:
  "dispatches_ok C earlier ds \<longleftrightarrow> (\<forall>k<length ds. dispatch_ok C (earlier @ take k ds) (ds ! k))"
proof (induction ds arbitrary: earlier)
  case (Cons d ds)
  show ?case unfolding dispatches_ok.simps Cons.IH by (auto simp: less_Suc_eq_0_disj)
qed simp

text \<open>A run of dispatches in order by themselves is in order after any others.\<close>

lemma preflighted_later: "preflighted r ds \<Longrightarrow> preflighted r (earlier @ ds)"
  by (auto simp: preflighted_def)

lemma dispatch_ok_later: "dispatch_ok C ds d \<Longrightarrow> dispatch_ok C (earlier @ ds) d"
  by (auto simp: dispatch_ok_def preflighted_later)

lemma dispatches_ok_later: "dispatches_ok C ds es \<Longrightarrow> dispatches_ok C (earlier @ ds) es"
proof (induction es arbitrary: ds)
  case (Cons e es)
  with Cons.IH [of "ds @ [e]"] show ?case by (simp add: dispatch_ok_later)
qed simp

section \<open>The steps\<close>

definition logged :: "http_client \<Rightarrow> dispatch \<Rightarrow> http_client" where
  "logged c d = c\<lparr>hc_log := hc_log c @ [d]\<rparr>"

lemma logged_simps [simp]:
  "hc_log (logged c d) = hc_log c @ [d]" "hc_cache (logged c d) = hc_cache c" "hc_cookies (logged c d) = hc_cookies c"
  by (simp_all add: logged_def)

lemma send_once_stream_wp:
  "fetch_wp (send_once_stream E pf r n t) (\<lambda>res c'. c' = c \<and> (\<exists>e. res = Inl e) \<or>
     fetch_url_parsed (tr_url t) \<noteq> None \<and>
     c' = logged c \<lparr>dp_preflight = pf, dp_request = r, dp_redirects = n, dp_sent = t, dp_reply = res\<rparr>) c"
  unfolding send_once_stream_def
  by (rule fetch_wp_bindI [OF check_signal_wp]) (auto simp: fetch_result_def fetch_wp_iff logged_def Let_def)

lemma drain_returns: "\<exists>d. drain b acc = Some d"
proof (induction "bs_limit b - bs_received b" arbitrary: b acc rule: less_induct)
  case less
  obtain res b' where step: "transport_next_chunk b = (res, b')" by force
  show ?case
  proof (cases "\<exists>chunk. res = Inr (Some chunk)")
    case True
    then obtain chunk where "res = Inr (Some chunk)" by blast
    with step transport_next_chunk_left [of b chunk b'] less.hyps show ?thesis
      by (subst drain.simps) (auto split: sum.splits)
  next
    case False
    with step show ?thesis by (subst drain.simps) (auto split: sum.splits option.splits)
  qed
qed

lemma send_once_wp:
  "fetch_wp (send_once E pf r n t) (\<lambda>res c'. c' = c \<and> (\<exists>e. res = Inl e) \<or>
     fetch_url_parsed (tr_url t) \<noteq> None \<and> (\<exists>reply. (\<forall>ts. res = Inr ts \<longrightarrow> reply = Inr ts) \<and>
     c' = logged c \<lparr>dp_preflight = pf, dp_request = r, dp_redirects = n, dp_sent = t, dp_reply = reply\<rparr>)) c"
  unfolding send_once_def
proof (rule fetch_wp_bindI [OF send_once_stream_wp], goal_cases)
  case (2 ts c')
  obtain d where "drain (transport_stream r (tr_body_limit t) ts) (body_empty (tr_body_limit t)) = Some d"
    using drain_returns by blast
  with 2 show ?case by (cases d) (auto simp: fetch_wp_iff)
qed auto

lemma preflight_headers_contains:
  "preflight_headers r org = Inr hs \<Longrightarrow> m \<in> {''cookie'', ''authorization''} \<Longrightarrow> \<not> headers_contains hs m"
  by (auto simp: preflight_headers_def result_simps Let_def header_frame lower_names headers_contains_iff [of "[]"]
      split: if_splits)

lemma preflight_dispatch_ok:
  "admit_hop C r n = Inr () \<Longrightarrow> preflight_headers r org = Inr hs \<Longrightarrow> fetch_url_parsed (fr_url r) \<noteq> None \<Longrightarrow>
   dispatch_ok C earlier \<lparr>dp_preflight = True, dp_request = r, dp_redirects = n, dp_sent = preflight_request r hs, dp_reply = reply\<rparr>"
  using preflight_headers_contains [of r org hs] by (simp add: dispatch_ok_def preflight_request_def)

lemma run_preflight_wp:
  assumes "admit_hop C r n = Inr ()"
  shows "fetch_wp (run_preflight E r n) (\<lambda>res c'. c' = c \<and> (\<exists>e. res = Inl e) \<or>
    (\<exists>d. c' = logged c d \<and> dp_preflight d \<and> dp_request d = r \<and> dispatch_ok C [] d \<and>
       (res = Inr () \<longrightarrow> preflighted r [d]))) c"
proof (cases "fr_origin r")
  case None
  then show ?thesis by (simp add: run_preflight_def wp_simps)
next
  case (Some org)
  have verdict: "preflight_grants (ts_headers ts) r (origin_serialize org) \<and> 200 \<le> ts_status ts \<and> ts_status ts \<le> 299"
    if "preflight_verdict r ts = Inr ()" for ts
    using that by (auto simp: preflight_verdict_def validate_preflight_grants [OF Some] split: if_splits)
  show ?thesis
  proof (cases "preflight_headers r org")
    case (Inl e)
    with Some show ?thesis by (simp add: run_preflight_def wp_simps)
  next
    case (Inr hs)
    have eq: "run_preflight E r n c = fetch_bind (send_once E True r n (preflight_request r hs)) (\<lambda>ts. fetch_result (preflight_verdict r ts)) c"
      using Some Inr by (simp add: run_preflight_def fetch_bind_def fetch_result_def)
    show ?thesis
      unfolding fetch_wp_def eq unfolding fetch_wp_def [symmetric]
    proof (rule fetch_wp_bindI [OF send_once_wp], goal_cases)
      case (1 e c')
      then consider "c' = c" | reply where "fetch_url_parsed (fr_url r) \<noteq> None"
        "c' = logged c \<lparr>dp_preflight = True, dp_request = r, dp_redirects = n, dp_sent = preflight_request r hs, dp_reply = reply\<rparr>"
        by (auto simp: preflight_request_def)
      then show ?case
      proof cases
        case 2
        with preflight_dispatch_ok [OF assms Inr 2(1)] show ?thesis by auto
      qed simp
    next
      case (2 ts c')
      then have d: "fetch_url_parsed (fr_url r) \<noteq> None"
        "c' = logged c \<lparr>dp_preflight = True, dp_request = r, dp_redirects = n, dp_sent = preflight_request r hs, dp_reply = Inr ts\<rparr>"
        by (auto simp: preflight_request_def)
      with preflight_dispatch_ok [OF assms Inr d(1)] verdict [of ts] Some show ?case
        by (auto simp: wp_simps preflighted_def)
    qed
  qed
qed


text \<open>The invariant of the client: its cache's and its cookie jar's.\<close>

definition client_inv :: "fetch_crates \<Rightarrow> http_client \<Rightarrow> bool" where
  "client_inv C c \<longleftrightarrow> cache_inv (hc_cache c) \<and> jar_inv (fc_sites C) (ks_state (hc_cookies c))"

lemma client_inv_logged [simp]: "client_inv C (logged c d) \<longleftrightarrow> client_inv C c"
  by (simp add: client_inv_def)

definition same_net :: "fetch_crates \<Rightarrow> http_client \<Rightarrow> http_client \<Rightarrow> bool" where
  "same_net C c c' \<longleftrightarrow> hc_cache c' = hc_cache c \<and> hc_log c' = hc_log c \<and> (client_inv C c \<longrightarrow> client_inv C c')"

lemma same_net_refl [simp]: "same_net C c c"
  by (simp add: same_net_def)

lemma same_net_trans: "same_net C a b \<Longrightarrow> same_net C b c \<Longrightarrow> same_net C a c"
  by (simp add: same_net_def)

lemma with_cookies_wp:
  assumes "\<And>n ks. jar_inv (fc_sites C) (ks_state ks) \<Longrightarrow> jar_inv (fc_sites C) (ks_state (snd (f n ks)))"
  shows "fetch_wp (with_cookies f) (\<lambda>_ c'. same_net C c c') c"
  using assms [of "hc_cookies c" "dispatched c"]
  by (auto simp: with_cookies_def fetch_wp_def same_net_def client_inv_def split: prod.splits)

lemma cookie_for_wp:
  "fetch_wp (cookie_for C E r) (\<lambda>res c'. same_net C c c' \<and> (\<forall>v. res = Inr (Some v) \<longrightarrow> credentials_permitted r)) c"
proof -
  have "jar_inv (fc_sites C) (ks_state (snd (request_header (fc_urls C) (fc_sites C) (fc_cookies C) io t r ks)))"
    if "jar_inv (fc_sites C) (ks_state ks)" for io t ks
    using cookie_step_inv [OF that, of "fc_urls C" "fc_cookies C" "(io, t, RequestHeader r)"] by (simp add: cookie_step_def)
  then show ?thesis by (auto simp: cookie_for_def wp_simps intro: fetch_wp_mono [OF with_cookies_wp])
qed

lemma store_cookie_loop_wp: "fetch_wp (store_cookie_loop C E r i vs) (\<lambda>_ c'. same_net C c c') c"
proof (induction vs arbitrary: i c)
  case (Cons v vs)
  have "jar_inv (fc_sites C) (ks_state (snd (store_response_cookie (fc_urls C) (fc_sites C) (fc_cookies C) io t r v ks)))"
    if "jar_inv (fc_sites C) (ks_state ks)" for io t ks
    using cookie_step_inv [OF that, of "fc_urls C" "fc_cookies C" "(io, t, StoreResponse r v)"] by (simp add: cookie_step_def)
  then show ?case
    unfolding store_cookie_loop.simps
    by (intro fetch_wp_bindI [OF with_cookies_wp]) (auto intro: fetch_wp_mono [OF Cons.IH] same_net_trans)
qed (simp add: wp_simps)

lemma store_response_cookies_wp: "fetch_wp (store_response_cookies C E r hs) (\<lambda>_ c'. same_net C c c') c"
  by (simp add: store_response_cookies_def wp_simps store_cookie_loop_wp)

definition outbound_ok :: "fetch_request \<Rightarrow> header_list \<Rightarrow> bool" where
  "outbound_ok r hs \<longleftrightarrow>
     (headers_contains hs ''cookie'' \<longrightarrow> headers_contains (fr_headers r) ''cookie'' \<or> credentials_permitted r) \<and>
     (headers_contains hs ''authorization'' \<longrightarrow> headers_contains (fr_headers r) ''authorization'')"

lemma outbound_headers_wp:
  "fetch_wp (outbound_headers C E r us) (\<lambda>res c'. same_net C c c' \<and> (\<forall>hs. res = Inr hs \<longrightarrow> outbound_ok r hs)) c"
proof -
  let ?first = "and_then (append_fetch_metadata (fc_urls C) (fc_sites C) r us (fr_headers r))
       (\<lambda>hs1. and_then (cache_mode_headers r hs1)
       (\<lambda>hs2. if \<not> headers_contains hs2 ''accept-language''
              then headers_append ''accept-language'' ''en-CA,en;q=0.9'' hs2 else Inr hs2))"
  have first: "headers_contains hs3 m \<longleftrightarrow> headers_contains (fr_headers r) m"
    if "?first = Inr hs3" "m \<in> {''cookie'', ''authorization''}" for hs3 m
  proof -
    from that(1) obtain hs1 hs2 where "append_fetch_metadata (fc_urls C) (fc_sites C) r us (fr_headers r) = Inr hs1"
      "cache_mode_headers r hs1 = Inr hs2" "hs3 = hs2 \<or> headers_append ''accept-language'' ''en-CA,en;q=0.9'' hs2 = Inr hs3"
      by (auto simp: result_simps split: if_splits)
    with that(2) show ?thesis
      by (auto simp: append_fetch_metadata_contains cache_mode_headers_contains header_frame lower_names)
  qed
  show ?thesis
  proof (cases ?first)
    case (Inl e)
    then show ?thesis by (simp add: outbound_headers_def wp_simps)
  next
    case (Inr hs3)
    show ?thesis
      unfolding outbound_headers_def fetch_wp_bind [of "fetch_result _"] fetch_wp_result Inr sum.case
    proof (rule fetch_wp_bindI [OF cookie_for_wp], goal_cases)
      case (2 cookie c')
      have "outbound_ok r hs6"
        if "set_optional ''cookie'' cookie hs3 = Inr hs4" "set_optional ''referer'' rf hs4 = Inr hs5"
          "set_optional ''origin'' og hs5 = Inr hs6" for hs4 hs5 hs6 rf og
      proof -
        have "headers_contains hs6 ''authorization'' \<longleftrightarrow> headers_contains (fr_headers r) ''authorization''"
          using that first [OF Inr, of "''authorization''"] by (simp add: header_frame lower_names)
        moreover have "headers_contains hs6 ''cookie'' \<longleftrightarrow> headers_contains hs4 ''cookie''"
          using that by (simp add: header_frame lower_names)
        moreover have "headers_contains hs4 ''cookie'' \<longleftrightarrow> headers_contains (fr_headers r) ''cookie''" if "cookie = None"
          using that \<open>set_optional ''cookie'' cookie hs3 = Inr hs4\<close> first [OF Inr, of "''cookie''"] by (simp add: set_optional_def)
        ultimately show ?thesis using 2 by (cases cookie) (auto simp: outbound_ok_def)
      qed
      with 2 show ?case by (auto simp: wp_simps result_simps)
    qed simp
  qed
qed

section \<open>Responses\<close>

text \<open>
  The headers a response is read from: those of the last dispatch, which asked for \<open>u\<close>, or, where that answered
  304, those of the stored response it revalidated; or the headers of a stored response found for \<open>u\<close>.
\<close>

definition stored_for :: "response_cache \<Rightarrow> fetch_url \<Rightarrow> cached_response \<Rightarrow> bool" where
  "stored_for rc u e \<longleftrightarrow> (\<exists>q outbound. fr_url q = u \<and> cache_lookup rc q outbound = Some e)"

definition answer_source :: "fetch_crates \<Rightarrow> http_client \<Rightarrow> http_client \<Rightarrow> fetch_url \<Rightarrow> header_list \<Rightarrow> bool" where
  "answer_source C c c' u hs \<longleftrightarrow>
     (\<exists>ds d ts. hc_log c' = hc_log c @ ds @ [d] \<and> \<not> dp_preflight d \<and> tr_url (dp_sent d) = u \<and> dp_reply d = Inr ts \<and>
        (hs = ts_headers ts \<or>
         ts_status ts = 304 \<and> (\<exists>e wall now e'. stored_for (hc_cache c) u e \<and>
           revalidated (fc_dates C) wall now (ts_headers ts) e = Some e' \<and> hs = cr_headers e'))) \<or>
     (\<exists>e. stored_for (hc_cache c) u e \<and> hs = cr_headers e)"

lemma answer_source_later:
  assumes "answer_source C c1 c' u hs" "hc_log c1 = hc_log c @ ds" "hc_cache c1 = hc_cache c"
  shows "answer_source C c c' u hs"
proof -
  have "hc_log c' = hc_log c1 @ es @ [d] \<Longrightarrow> hc_log c' = hc_log c @ (ds @ es) @ [d]" for es d using assms(2) by simp
  with assms(1,3) show ?thesis unfolding answer_source_def by metis
qed

lemma answer_source_same: "answer_source C c1 c' u hs \<Longrightarrow> same_net C c c1 \<Longrightarrow> answer_source C c c' u hs"
  by (erule answer_source_later [where ds = "[]"]) (simp_all add: same_net_def)

text \<open>What page script gets: nothing of an opaque response, and of a readable one only what its origin granted.\<close>

definition script_response_ok :: "(header_list \<Rightarrow> bool) \<Rightarrow> fetch_request \<Rightarrow> streaming_response \<Rightarrow> bool" where
  "script_response_ok src r sr \<longleftrightarrow>
     (\<forall>h\<in>set (sr_headers sr). \<not> is_forbidden_response_header (h_name h)) \<and>
     (case sr_type sr of
        Basic \<Rightarrow> \<not> needs_cors_check r
      | CorsResponse \<Rightarrow> fr_mode r = CorsMode \<and> (\<exists>org hs. src hs \<and> fr_origin r = Some org \<and>
          grants_origin hs (origin_serialize org) (fr_credentials r = IncludeCredentials) \<and>
          (\<forall>h\<in>set (sr_headers sr). h_name h = ''age'' \<or> h \<in> set hs))
      | _ \<Rightarrow> sr_status sr = 0 \<and> sr_headers sr = [] \<and> sr_body sr = EmptyBody)"

text \<open>A body that buffering can read to its end (see \<open>buffer_loop_result\<close>).\<close>

definition stream_ok :: "streaming_response \<Rightarrow> bool" where
  "stream_ok sr \<longleftrightarrow> body_wf (sr_body sr) \<and>
     (\<forall>ca. candidate_of (sr_body sr) = Some ca \<longrightarrow> (\<exists>e. cr_body e = [] \<and> ca = \<lparr>ca_response = e, ca_permitted = True\<rparr>))"

definition response_ok :: "(header_list \<Rightarrow> bool) \<Rightarrow> fetch_request \<Rightarrow> fetch_url list \<Rightarrow> streaming_response \<Rightarrow> bool" where
  "response_ok src r us sr \<longleftrightarrow>
     sr_url_list sr = us \<and> sr_body_limit sr = fr_response_body_limit r \<and> stream_ok sr \<and>
     (fr_context r = ScriptContext \<longrightarrow> script_response_ok src r sr)"

lemma response_ok_mono:
  assumes "response_ok p r us sr" "\<And>hs. p hs \<Longrightarrow> q hs" shows "response_ok q r us sr"
  using assms(1) by (auto simp: response_ok_def script_response_ok_def split: response_type.splits intro: assms(2))

lemma filtered_with_ok:
  assumes "fr_context r = ScriptContext \<Longrightarrow> fr_mode r \<noteq> NavigateMode"
    and "src hs0" "validate_cors_response r hs0 = Inr ()" "\<And>h. h \<in> set hs \<Longrightarrow> h_name h = ''age'' \<or> h \<in> set hs0"
    and "body_wf sb" "\<And>ca. candidate_of sb = Some ca \<Longrightarrow> \<exists>e. cr_body e = [] \<and> ca = \<lparr>ca_response = e, ca_permitted = True\<rparr>"
  shows "response_ok src r us (filtered_with r us status hs sb)"
proof -
  have "script_response_ok src r (filtered_with r us status hs sb)" if script: "fr_context r = ScriptContext"
  proof (cases "needs_cors_check r")
    case False
    then show ?thesis
      using script by (auto simp: filtered_with_def script_response_ok_def cors_filtered_headers_def Let_def)
  next
    case True
    then obtain org where org: "fr_origin r = Some org" using needs_cors_check_origin by blast
    show ?thesis
    proof (cases "fr_mode r")
      case CorsMode
      then have "grants_origin hs0 (origin_serialize org) (fr_credentials r = IncludeCredentials)"
        using assms(3) True validate_allow_origin_grants [OF org] by (simp add: validate_cors_response_def)
      with script True CorsMode org assms(2,4) cors_filtered_subset [of hs r] show ?thesis
        by (auto simp: filtered_with_def script_response_ok_def) (auto simp: cors_filtered_headers_def Let_def)
    qed (use assms(1,3) script True in \<open>auto simp: filtered_with_def script_response_ok_def opaque_response_def
          validate_cors_response_def\<close>)
  qed
  with assms(5,6) show ?thesis
    by (auto simp: response_ok_def stream_ok_def filtered_with_def opaque_response_def body_wf_def candidate_of_def Let_def)
qed


lemma response_headers_age:
  assumes "h \<in> set (response_headers e now)" shows "h_name h = ''age'' \<or> h \<in> set (cr_headers e)"
proof (cases "headers_set ''age'' (show_nat (current_age e now div 1000000000)) (cr_headers e)")
  case (Pair res hs)
  have "hs = headers_remove ''age'' (cr_headers e) \<or> hs = cr_headers e \<or>
      headers_append ''age'' (show_nat (current_age e now div 1000000000)) (headers_remove ''age'' (cr_headers e)) = Inr hs"
    using Pair by (auto simp: headers_set_def lower_names dest: normalize_name_Inr split: sum.splits)
  moreover have "h \<in> set hs" using assms Pair by (simp add: response_headers_def)
  ultimately show ?thesis
    using headers_append_Inr [of "''age''" _ "headers_remove ''age'' (cr_headers e)" hs]
    by (fastforce simp: headers_remove_def lower_names)
qed

lemma candidate_new_fresh:
  "candidate_new H wall now r outbound status hs at = Some ca \<Longrightarrow>
   \<exists>e. cr_body e = [] \<and> ca = \<lparr>ca_response = e, ca_permitted = True\<rparr>"
  by (auto simp: candidate_new_def bind_eq_Some_conv split: if_splits)

lemma revalidated_body: "revalidated H wall now hs e = Some e' \<Longrightarrow> cr_body e' = cr_body e"
  by (auto simp: revalidated_def bind_eq_Some_conv)

definition small :: "cached_response option \<Rightarrow> bool" where
  "small cached \<longleftrightarrow> (\<forall>e. cached = Some e \<longrightarrow> length (cr_body e) \<le> MAX_ENTRY_BYTES)"

definition hop_ok ::
  "fetch_crates \<Rightarrow> http_client \<Rightarrow> http_client \<Rightarrow> fetch_request \<Rightarrow> nat \<Rightarrow> fetch_url list \<Rightarrow> hop \<Rightarrow> bool" where
  "hop_ok C c c' r n us h =
     (case h of
        Respond sr \<Rightarrow> response_ok (answer_source C c c' (fr_url r)) r us sr
      | FollowTo r' us' \<Rightarrow>
          n \<noteq> MAX_REDIRECTS \<and> hc_cache c' = hc_cache c \<and> (\<exists>next' status. r' = redirected r next' status \<and> us' = us @ [next']))"

definition script_mode_ok :: "fetch_request \<Rightarrow> bool" where
  "script_mode_ok r \<longleftrightarrow> (fr_context r = ScriptContext \<longrightarrow> fr_mode r \<noteq> NavigateMode)"

lemma filtered_cached_ok:
  assumes "script_mode_ok r" "src (cr_headers e)" "validate_cors_response r (cr_headers e) = Inr ()" "length (cr_body e) \<le> MAX_ENTRY_BYTES"
  shows "response_ok src r us (filtered_cached r us e now)"
  unfolding filtered_cached_def
  by (rule filtered_with_ok [where src = src, OF _ assms(2,3) response_headers_age])
    (use assms(1,4) in \<open>auto simp: script_mode_ok_def body_wf_def candidate_of_def limit_simps\<close>)

lemma after_response_ok:
  assumes "script_mode_ok r" "answer_source C c c' (fr_url r) (ts_headers ts)" "hc_cache c' = hc_cache c"
    and "validate_cors_response r (ts_headers ts) = Inr ()" "after_response C E k r n us outbound at ts = Inr h"
  shows "hop_ok C c c' r n us h"
proof -
  have direct: "response_ok (answer_source C c c' (fr_url r)) r us (filtered r us ts ca)"
    if "\<And>x. ca = Some x \<Longrightarrow> \<exists>e. cr_body e = [] \<and> x = \<lparr>ca_response = e, ca_permitted = True\<rparr>" for ca
    unfolding filtered_def
    by (rule filtered_with_ok [where src = "answer_source C c c' (fr_url r)", OF _ assms(2,4)])
      (use assms(1) that in \<open>auto simp: script_mode_ok_def body_wf_def candidate_of_def\<close>)
  have manual: "response_ok (answer_source C c c' (fr_url r)) r us (manual_redirect r us ts)"
    by (auto simp: manual_redirect_def response_ok_def stream_ok_def opaque_response_def body_wf_def candidate_of_def
        script_response_ok_def)
  show ?thesis
    using assms(3,5) direct candidate_new_fresh manual
    by (auto simp: after_response_def follow_redirect_def hop_ok_def result_simps
        split: option.splits redirect_mode.splits if_splits)
qed

text \<open>What a hop leaves behind: the cache's invariant, and dispatches that are in order and serve the request.\<close>

definition hop_done ::
  "fetch_crates \<Rightarrow> http_client \<Rightarrow> fetch_request \<Rightarrow> dispatch list \<Rightarrow> (dispatch list \<Rightarrow> bool) \<Rightarrow> http_client \<Rightarrow> bool" where
  "hop_done C c r before shape c' \<longleftrightarrow>
     client_inv C c' \<and>
     (\<exists>ds. hc_log c' = hc_log c @ ds \<and> shape ds \<and> dispatches_ok C before ds \<and> (\<forall>d\<in>set ds. dp_request d = r))"

lemma insert_cached_wp:
  assumes "client_inv C c"
  shows "fetch_wp (insert_cached e) (\<lambda>res c'. res = Inr () \<and> client_inv C c' \<and> hc_log c' = hc_log c) c"
proof -
  have inv: "cache_inv (hc_cache c)" using assms by (simp add: client_inv_def)
  obtain rc where rc: "cache_insert e (hc_cache c) = Some rc" using cache_insert_some [OF inv] by blast
  with cache_insert_inv [OF inv rc] assms show ?thesis by (simp add: insert_cached_def fetch_wp_def client_inv_def)
qed

lemma dispatch_hop_wp:
  assumes inv: "client_inv C c" and admit: "admit_hop C r n = Inr ()" and out: "outbound_ok r outbound"
    and pre: "needs_preflight r \<Longrightarrow> preflighted r before" and small: "small cached" and mode: "script_mode_ok r"
    and stored: "\<And>e. cached = Some e \<Longrightarrow> stored_for (hc_cache c) (fr_url r) e"
  shows "fetch_wp (dispatch_hop C E n r us outbound cached)
    (\<lambda>res c'. hop_done C c r before (\<lambda>ds. length ds \<le> 1 \<and> (\<forall>d\<in>set ds. \<not> dp_preflight d)) c' \<and> (\<forall>h. res = Inr h \<longrightarrow> hop_ok C c c' r n us h)) c"
    (is "fetch_wp _ (\<lambda>res c'. ?done c' \<and> _) c")
proof -
  let ?t = "\<lparr>tr_url = fr_url r, tr_method = fr_method r, tr_headers = outbound, tr_body = fr_body r,
        tr_body_limit = fr_response_body_limit r, tr_cache = fr_cache r\<rparr>"
  have none: "?done c" using inv by (auto simp: hop_done_def intro: exI [of _ "[]"])
  have one: "?done c'" if "fetch_url_parsed (fr_url r) \<noteq> None" "client_inv C c'"
    "hc_log c' = hc_log c @ [\<lparr>dp_preflight = False, dp_request = r, dp_redirects = n, dp_sent = ?t, dp_reply = reply\<rparr>]" for c' reply
    using that admit out pre by (auto simp: hop_done_def dispatch_ok_def outbound_ok_def intro!: exI [of _ "[_]"])
  show ?thesis
    unfolding dispatch_hop_def fetch_wp_asking
  proof (rule fetch_wp_bindI [OF send_once_stream_wp], goal_cases)
    case (1 e c')
    with none one inv show ?case by auto
  next
    case (2 ts c1)
    then have c1: "fetch_url_parsed (fr_url r) \<noteq> None" "client_inv C c1"
      "hc_log c1 = hc_log c @ [\<lparr>dp_preflight = False, dp_request = r, dp_redirects = n, dp_sent = ?t, dp_reply = Inr ts\<rparr>]"
      and kept1: "hc_cache c1 = hc_cache c"
      using inv by auto
    note sent = one [OF c1(1) _ c1(3)]
    show ?case
    proof (rule fetch_wp_bindI [OF store_response_cookies_wp], goal_cases)
      case (1 e c2)
      with sent c1 one show ?case by (auto simp: same_net_def)
    next
      case (2 u c2)
      then have c2: "client_inv C c2" "hc_log c2 = hc_log c1" using c1 by (auto simp: same_net_def)
      have done2: "?done c'" if "client_inv C c'" "hc_log c' = hc_log c1" for c'
        using one [OF c1(1) that(1)] that(2) c1(3) by simp
      have log: "hc_log c2 = hc_log c @ [] @ [\<lparr>dp_preflight = False, dp_request = r, dp_redirects = n, dp_sent = ?t, dp_reply = Inr ts\<rparr>]"
        using c1(3) c2(2) by simp
      have fresh: "answer_source C c c2 (fr_url r) (ts_headers ts)"
        using log unfolding answer_source_def by fastforce
      have kept: "hc_cache c2 = hc_cache c" using 2 kept1 by (auto simp: same_net_def)
      show ?case
        unfolding fetch_wp_asking
      proof (cases "revalidated_by C E (dispatched c2) cached ts", goal_cases)
        case 1
        then show ?case
          using after_response_ok [OF mode fresh kept] done2 c2 by (auto simp: wp_simps split: sum.splits)
      next
        case (2 e)
        have "length (cr_body e) \<le> MAX_ENTRY_BYTES"
          using 2 small revalidated_body by (fastforce simp: revalidated_by_def small_def bind_eq_Some_conv split: if_splits)
        moreover have src: "answer_source C c c' (fr_url r) (cr_headers e)" if "hc_log c' = hc_log c2" for c'
          using 2 log that stored unfolding answer_source_def revalidated_by_def
          by (fastforce simp: bind_eq_Some_conv split: if_splits)
        ultimately have ok: "response_ok (answer_source C c c' (fr_url r)) r us (filtered_cached r us e now)"
          if "hc_log c' = hc_log c2" "validate_cors_response r (cr_headers e) = Inr ()" for c' now
          using filtered_cached_ok [OF mode] that by blast
        show ?case
        proof (cases "validate_cors_response r (cr_headers e)")
          case (Inl x)
          with 2 done2 c2 show ?thesis by (simp add: wp_simps)
        next
          case (Inr v)
          have "fetch_wp (fetch_bind (insert_cached e) (\<lambda>_. fetch_result (Inr (Respond (filtered_cached r us e (ev_now E (dispatched c2) 5))))))
              (\<lambda>res c'. ?done c' \<and> (\<forall>h. res = Inr h \<longrightarrow> hop_ok C c c' r n us h)) c2"
            by (rule fetch_wp_bindI [OF insert_cached_wp [OF c2(1)]])
              (use ok Inr done2 c2 in \<open>auto simp: wp_simps hop_ok_def\<close>)
          with 2 Inr show ?thesis by (simp add: wp_simps)
        qed
      qed
    qed
  qed
qed


lemma answer_hop_wp:
  assumes inv: "client_inv C c" and admit: "admit_hop C r n = Inr ()" and out: "outbound_ok r outbound"
    and pre: "needs_preflight r \<Longrightarrow> preflighted r before" and small: "small cached" and mode: "script_mode_ok r"
    and stored: "\<And>e. cached = Some e \<Longrightarrow> stored_for (hc_cache c) (fr_url r) e"
  shows "fetch_wp (answer_hop C E n r us outbound cached)
    (\<lambda>res c'. hop_done C c r before (\<lambda>ds. length ds \<le> 1 \<and> (\<forall>d\<in>set ds. \<not> dp_preflight d)) c' \<and> (\<forall>h. res = Inr h \<longrightarrow> hop_ok C c c' r n us h)) c"
proof -
  have none: "hop_done C c r before (\<lambda>ds. length ds \<le> 1 \<and> (\<forall>d\<in>set ds. \<not> dp_preflight d)) c"
    using inv by (auto simp: hop_done_def intro: exI [of _ "[]"])
  have "outbound_ok r (case cached of None \<Rightarrow> outbound | Some e \<Rightarrow> add_validator e outbound)"
    using out by (simp add: outbound_ok_def add_validator_contains split: option.splits)
  note dispatch = dispatch_hop_wp [OF inv admit this pre small mode stored]
  show ?thesis
  proof (cases "case cached of None \<Rightarrow> None | Some e \<Rightarrow> if reusable r e (ev_now E (dispatched c) 0) then Some e else None")
    case None
    then show ?thesis using dispatch none by (simp add: answer_hop_def wp_simps)
  next
    case (Some e)
    then have "length (cr_body e) \<le> MAX_ENTRY_BYTES" using small by (auto simp: small_def split: option.splits if_splits)
    moreover have "answer_source C c c (fr_url r) (cr_headers e)"
      using Some stored unfolding answer_source_def by (auto split: option.splits if_splits)
    ultimately show ?thesis using Some none filtered_cached_ok [OF mode, of _ e us]
      by (auto simp: answer_hop_def wp_simps result_simps hop_ok_def)
  qed
qed

lemma hop_done_frame:
  assumes "hop_done C c1 r before shape c'" "same_net C c c1" shows "hop_done C c r before shape c'"
  using assms by (simp add: hop_done_def same_net_def)

lemma hop_done_after:
  assumes "hop_done C (logged c d) r [d] shape c'" "dispatch_ok C [] d" "dp_request d = r"
  shows "hop_done C c r [] (\<lambda>ds. \<exists>es. ds = d # es \<and> shape es) c'"
proof -
  from assms(1) obtain ds where "client_inv C c'" "hc_log c' = hc_log c @ d # ds" "shape ds"
    "dispatches_ok C [d] ds" "\<forall>d\<in>set ds. dp_request d = r"
    by (auto simp: hop_done_def)
  moreover from this assms(2,3)
  have "\<exists>es. hc_log c' = hc_log c @ es \<and> (\<exists>fs. es = d # fs \<and> shape fs) \<and> dispatches_ok C [] es \<and>
      (\<forall>d\<in>set es. dp_request d = r)" by (intro exI [of _ "d # ds"]) auto
  ultimately show ?thesis by (simp add: hop_done_def)
qed

lemma lookup_stored: "(if b then cache_lookup rc r outbound else None) = Some e \<Longrightarrow> stored_for rc (fr_url r) e"
  by (auto simp: stored_for_def split: if_splits)

lemma hop_ok_frame: "hop_ok C c1 c' r n us h \<Longrightarrow> hc_cache c1 = hc_cache c \<Longrightarrow> hc_log c1 = hc_log c @ ds \<Longrightarrow> hop_ok C c c' r n us h"
  by (auto simp: hop_ok_def split: hop.splits intro: response_ok_mono answer_source_later)

lemma lookup_small: "client_inv C c \<Longrightarrow> small (if b then cache_lookup (hc_cache c) r outbound else None)"
  using cache_lookup_cases [of "hc_cache c" r outbound] by (auto simp: small_def client_inv_def cache_inv_def split: if_splits)

text \<open>At most a preflight and the request itself.\<close>

definition hop_shape :: "dispatch list \<Rightarrow> bool" where
  "hop_shape ds \<longleftrightarrow> length (filter dp_preflight ds) \<le> 1 \<and> length (filter (\<lambda>d. \<not> dp_preflight d) ds) \<le> 1"

lemma hop_done_mono: "hop_done C c r before p c' \<Longrightarrow> (\<And>ds. p ds \<Longrightarrow> q ds) \<Longrightarrow> hop_done C c r before q c'"
  by (auto simp: hop_done_def)

text \<open>The hop after its preflight, and the whole hop.\<close>

lemma hop_after_preflight_wp:
  assumes admit: "admit_hop C r n = Inr ()" and inv: "client_inv C c"
    and pre: "needs_preflight r \<Longrightarrow> preflighted r before" and mode: "script_mode_ok r"
  shows "fetch_wp (hop_after_preflight C E n r us)
    (\<lambda>res c'. hop_done C c r before (\<lambda>ds. length ds \<le> 1 \<and> (\<forall>d\<in>set ds. \<not> dp_preflight d)) c' \<and> (\<forall>h. res = Inr h \<longrightarrow> hop_ok C c c' r n us h)) c"
  unfolding hop_after_preflight_def
proof (rule fetch_wp_bindI [OF outbound_headers_wp], goal_cases)
  case (1 e c')
  with inv show ?case by (auto simp: hop_done_def same_net_def intro: exI [of _ "[]"])
next
  case (2 outbound c2)
  then have c2: "same_net C c c2" "outbound_ok r outbound" by auto
  with inv have "client_inv C c2" by (auto simp: same_net_def)
  from answer_hop_wp [OF this admit c2(2) pre lookup_small [OF this] mode lookup_stored] show ?case
    unfolding fetch_wp_asking
    by (rule fetch_wp_mono) (use c2(1) in \<open>auto intro: hop_done_frame [OF _ c2(1)] hop_ok_frame [of C c2 _ r n us _ c "[]"] simp: same_net_def\<close>)
qed

lemma fetch_hop_wp:
  assumes inv: "client_inv C c" and mode: "script_mode_ok r"
  shows "fetch_wp (fetch_hop C E n r us) (\<lambda>res c'. hop_done C c r [] hop_shape c' \<and> (\<forall>h. res = Inr h \<longrightarrow> hop_ok C c c' r n us h)) c"
proof -
  have none: "hop_done C c r [] hop_shape c"
    using inv by (auto simp: hop_done_def hop_shape_def intro: exI [of _ "[]"])
  have short: "hop_shape ds" if "length ds \<le> 1 \<and> (\<forall>d\<in>set ds. \<not> dp_preflight d)" for ds
    using that le_trans [OF length_filter_le] by (auto simp: hop_shape_def)
  have behind: "hop_shape (d # ds)" if "dp_preflight d" "length ds \<le> 1 \<and> (\<forall>d\<in>set ds. \<not> dp_preflight d)" for d ds
    using that le_trans [OF length_filter_le] by (auto simp: hop_shape_def)
  have direct: "fetch_wp (fetch_bind (if needs_preflight r then run_preflight E r n else fetch_result (Inr ()))
      (\<lambda>_. hop_after_preflight C E n r us)) (\<lambda>res c'. hop_done C c r [] hop_shape c' \<and> (\<forall>h. res = Inr h \<longrightarrow> hop_ok C c c' r n us h)) c"
    if admit: "admit_hop C r n = Inr ()"
  proof (cases "needs_preflight r")
    case False
    then show ?thesis
      by (simp only: if_False fetch_bind_result)
        (rule fetch_wp_mono [OF hop_after_preflight_wp [OF admit inv _ mode, where before = "[]"]], auto intro: hop_done_mono [OF _ short])
  next
    case True
    have "fetch_wp (fetch_bind (run_preflight E r n) (\<lambda>_. hop_after_preflight C E n r us))
        (\<lambda>res c'. hop_done C c r [] hop_shape c' \<and> (\<forall>h. res = Inr h \<longrightarrow> hop_ok C c c' r n us h)) c"
    proof (rule fetch_wp_bindI [OF run_preflight_wp [OF admit]], goal_cases)
      case (1 e c1)
      then consider "c1 = c" | d where "c1 = logged c d" "dp_preflight d" "dp_request d = r" "dispatch_ok C [] d"
        by auto
      then show ?case
      proof cases
        case 2
        have "hop_done C (logged c d) r [d] (\<lambda>ds. ds = []) c1" using inv 2(1) by (simp add: hop_done_def)
        from hop_done_after [OF this 2(4,3)] 2(2) show ?thesis
          by (auto intro: hop_done_mono simp: hop_shape_def)
      qed (use none in simp)
    next
      case (2 w c1)
      then obtain d where d: "c1 = logged c d" "dp_preflight d" "dp_request d = r" "dispatch_ok C [] d"
        "preflighted r [d]" by auto
      have "client_inv C c1" using inv d(1) by simp
      note after = hop_after_preflight_wp [OF admit this d(5) mode]
      have lift: "hop_done C c r [] hop_shape c'"
        if "hop_done C c1 r [d] (\<lambda>ds. length ds \<le> 1 \<and> (\<forall>d\<in>set ds. \<not> dp_preflight d)) c'" for c'
        by (rule hop_done_mono [OF hop_done_after [OF that [unfolded d(1)] d(4,3)]]) (use behind [OF d(2)] in blast)
      show ?case by (rule fetch_wp_mono [OF after]) (auto intro: lift hop_ok_frame [of C c1 _ r n us _ c "[d]"] simp: d(1))
    qed
    with True show ?thesis by simp
  qed
  show ?thesis
    unfolding fetch_hop_def
  proof (rule fetch_wp_bindI [OF check_signal_wp], goal_cases)
    case (2 u c')
    with none direct show ?case
      by (cases "admit_hop C r n") (simp_all add: fetch_wp_bind [of "fetch_result _"] fetch_wp_result)
  qed (use none in simp)
qed

end
