(* ===== verification/Fetch_Security.thy ===== *)
theory Fetch_Security
  imports Fetch_Hops
begin

text \<open>
  The properties of a whole fetch: it ends, what it dispatches is authorised hop by hop, and page script reads
  only what it was granted.
\<close>

section \<open>Requests along a redirect chain\<close>

text \<open>
  \<open>r\<close> is what the redirect loop made of \<open>r0\<close>: only the URL, the method, the body and the headers may differ;
  headers are only dropped, the body is the original one or, for a GET, none, and an Authorization header is
  left only at the origin it was meant for.
\<close>

definition serves :: "fetch_request \<Rightarrow> fetch_request \<Rightarrow> bool" where
  "serves r0 r \<longleftrightarrow>
     r\<lparr>fr_url := fr_url r0, fr_method := fr_method r0, fr_body := fr_body r0, fr_headers := fr_headers r0\<rparr> = r0 \<and>
     set (fr_headers r) \<subseteq> set (fr_headers r0) \<and>
     (fr_method r = fr_method r0 \<and> fr_body r = fr_body r0 \<or> fr_method r = ''GET'' \<and> fr_body r = None) \<and>
     (headers_contains (fr_headers r) ''authorization'' \<longrightarrow> fu_origin (fr_url r) = fu_origin (fr_url r0))"

lemma serves_refl [simp]: "serves r r"
  by (simp add: serves_def)

lemma headers_contains_subset: "headers_contains hs n \<Longrightarrow> set hs \<subseteq> set ks \<Longrightarrow> headers_contains ks n"
  by (auto simp: headers_contains_iff)

lemma headers_remove_subset: "set (headers_remove n hs) \<subseteq> set hs"
  by (auto simp: headers_remove_def)

lemma headers_remove_absent: "\<not> headers_contains (headers_remove n hs) n"
  by (auto simp: headers_contains_iff headers_remove_def)

lemma rewrite_redirect_method_facts:
  "set (fr_headers (rewrite_redirect_method s r)) \<subseteq> set (fr_headers r)"
  "fr_method (rewrite_redirect_method s r) = fr_method r \<and> fr_body (rewrite_redirect_method s r) = fr_body r \<or>
   fr_method (rewrite_redirect_method s r) = ''GET'' \<and> fr_body (rewrite_redirect_method s r) = None"
  by (auto simp: rewrite_redirect_method_def headers_remove_def)

lemma redirected_fixed:
  "(redirected r next' status)\<lparr>fr_url := u, fr_method := m, fr_body := b, fr_headers := h\<rparr> =
   r\<lparr>fr_url := u, fr_method := m, fr_body := b, fr_headers := h\<rparr>"
  by (simp add: redirected_def rewrite_redirect_method_def)

lemma serves_redirected:
  assumes "serves r0 r" shows "serves r0 (redirected r next' status)"
proof -
  define m where "m = (if \<not> is_same_origin (fu_origin (fr_url r)) (fu_origin next')
         then r\<lparr>fr_headers := headers_remove ''authorization'' (fr_headers r)\<rparr> else r)"
  have m: "set (fr_headers m) \<subseteq> set (fr_headers r)" "fr_method m = fr_method r" "fr_body m = fr_body r"
    using headers_remove_subset by (auto simp: m_def)
  have red: "redirected r next' status = (rewrite_redirect_method status m)\<lparr>fr_url := next'\<rparr>"
    by (simp add: redirected_def m_def)
  have "fu_origin next' = fu_origin (fr_url r0)"
    if "headers_contains (fr_headers (rewrite_redirect_method status m)) ''authorization''"
  proof -
    have auth: "headers_contains (fr_headers m) ''authorization''"
      using headers_contains_subset [OF that rewrite_redirect_method_facts(1)] .
    then have "is_same_origin (fu_origin (fr_url r)) (fu_origin next')"
      using headers_remove_absent by (auto simp: m_def split: if_splits)
    moreover have "fu_origin (fr_url r) = fu_origin (fr_url r0)"
      using assms headers_contains_subset [OF auth m(1)] by (simp add: serves_def)
    ultimately show ?thesis by (simp add: is_same_origin_def)
  qed
  with assms show ?thesis
    using rewrite_redirect_method_facts [of status m] m
    unfolding serves_def redirected_fixed by (auto simp: red)
qed

lemma serves_fields:
  assumes "serves r0 r"
  shows "fr_context r = fr_context r0" "fr_mode r = fr_mode r0" "fr_origin r = fr_origin r0"
    "fr_credentials r = fr_credentials r0" "fr_policy r = fr_policy r0" "fr_response_body_limit r = fr_response_body_limit r0"
proof -
  have eq: "r\<lparr>fr_url := fr_url r0, fr_method := fr_method r0, fr_body := fr_body r0, fr_headers := fr_headers r0\<rparr> = r0"
    using assms by (simp add: serves_def)
  show "fr_context r = fr_context r0" "fr_mode r = fr_mode r0" "fr_origin r = fr_origin r0"
    "fr_credentials r = fr_credentials r0" "fr_policy r = fr_policy r0" "fr_response_body_limit r = fr_response_body_limit r0"
    by (subst eq [symmetric], simp)+
qed

section \<open>The loop\<close>

text \<open>What a fetch of \<open>r0\<close> with at most \<open>k\<close> hops leaves behind, and what it answers with.\<close>

definition fetched ::
  "fetch_crates \<Rightarrow> http_client \<Rightarrow> fetch_request \<Rightarrow> nat \<Rightarrow> http_client \<Rightarrow> bool" where
  "fetched C c r0 k c' \<longleftrightarrow>
     client_inv C c' \<and>
     (\<exists>ds. hc_log c' = hc_log c @ ds \<and> length (filter dp_preflight ds) \<le> k \<and> length (filter (\<lambda>d. \<not> dp_preflight d) ds) \<le> k \<and>
        dispatches_ok C [] ds \<and> (\<forall>d\<in>set ds. serves r0 (dp_request d)))"

definition answered ::
  "fetch_crates \<Rightarrow> http_client \<Rightarrow> http_client \<Rightarrow> fetch_request \<Rightarrow> fetch_url list \<Rightarrow> nat \<Rightarrow> streaming_response \<Rightarrow> bool" where
  "answered C c c' r0 us k sr \<longleftrightarrow>
     (\<exists>r vs. serves r0 r \<and> response_ok (answer_source C c c' (fr_url r)) r (us @ vs) sr \<and> last (us @ vs) = fr_url r \<and> length vs < k)"

lemma hop_done_fetched:
  assumes "hop_done C c r [] hop_shape c'" "serves r0 r" shows "fetched C c r0 1 c'"
  using assms by (auto simp: hop_done_def fetched_def hop_shape_def)

lemma fetched_trans:
  assumes "fetched C a r0 1 b" "fetched C b r0 k c" shows "fetched C a r0 (Suc k) c"
proof -
  from assms obtain ds es where
    "hc_log b = hc_log a @ ds" "length (filter dp_preflight ds) \<le> 1" "length (filter (\<lambda>d. \<not> dp_preflight d) ds) \<le> 1"
    "dispatches_ok C [] ds" "\<forall>d\<in>set ds. serves r0 (dp_request d)"
    "client_inv C c" "hc_log c = hc_log b @ es" "length (filter dp_preflight es) \<le> k" "length (filter (\<lambda>d. \<not> dp_preflight d) es) \<le> k"
    "dispatches_ok C [] es" "\<forall>d\<in>set es. serves r0 (dp_request d)"
    by (auto simp: fetched_def)
  then show ?thesis
    using dispatches_ok_later [of C "[]" es ds] by (auto simp: fetched_def intro!: exI [of _ "ds @ es"])
qed

lemma fetch_loop_wp:
  assumes "client_inv C c" "serves r0 r" "script_mode_ok r0" "us \<noteq> []" "last us = fr_url r" "k \<le> MAX_REDIRECTS"
  shows "fetch_wp (fetch_loop C E (Suc k) r us)
    (\<lambda>res c'. fetched C c r0 (Suc k) c' \<and> (\<forall>sr. res = Inr sr \<longrightarrow> answered C c c' r0 us (Suc k) sr)) c"
  using assms
proof (induction k arbitrary: c r us)
  have mode: "script_mode_ok r" if "serves r0 r" for r
    using serves_fields [OF that] assms(3) by (simp add: script_mode_ok_def)
  {
    case 0
    show ?case
      unfolding fetch_loop.simps(2)
    proof (rule fetch_wp_bindI [OF fetch_hop_wp [OF 0(1) mode [OF 0(2)]]], goal_cases)
      case (1 e c')
      with hop_done_fetched 0 show ?case by (auto simp: numeral_eq_Suc)
    next
      case (2 h c')
      with hop_done_fetched 0 show ?case
        by (cases h) (auto simp: hop_ok_def wp_simps answered_def intro!: exI [of _ r] exI [of _ "[]"])
    qed
  next
    case (Suc k)
    show ?case
      unfolding fetch_loop.simps(2) [of C E "Suc k"]
    proof (rule fetch_wp_bindI [OF fetch_hop_wp [OF Suc.prems(1) mode [OF Suc.prems(2)]]], goal_cases)
      case (1 e c')
      with hop_done_fetched [OF _ Suc.prems(2)] show ?case by (fastforce simp: fetched_def)
    next
      case (2 h c')
      then have first: "fetched C c r0 1 c'" "hop_ok C c c' r (MAX_REDIRECTS - Suc k) us h"
        using hop_done_fetched [OF _ Suc.prems(2)] by auto
      show ?case
      proof (cases h)
        case (Respond sr)
        have "answered C c c' r0 us (Suc (Suc k)) sr"
          using first(2) Respond Suc.prems
          by (auto simp: hop_ok_def answered_def intro!: exI [of _ r] exI [of _ "[]"])
        moreover have "fetched C c r0 (Suc (Suc k)) c'" using first(1) by (fastforce simp: fetched_def)
        ultimately show ?thesis by (simp add: Respond wp_simps)
      next
        case (FollowTo r' us')
        then obtain next' status where r': "r' = redirected r next' status" "us' = us @ [next']"
          using first(2) by (auto simp: hop_ok_def)
        have rest: "fetch_wp (fetch_loop C E (Suc k) r' us')
            (\<lambda>res c''. fetched C c' r0 (Suc k) c'' \<and> (\<forall>sr. res = Inr sr \<longrightarrow> answered C c' c'' r0 us' (Suc k) sr)) c'"
          using Suc.prems first(1) serves_redirected r'
          by (intro Suc.IH) (auto simp: fetched_def redirected_def)
        have kept: "hc_cache c' = hc_cache c" using first(2) FollowTo by (auto simp: hop_ok_def)
        obtain ds where ds: "hc_log c' = hc_log c @ ds" using first(1) by (auto simp: fetched_def)
        have lift: "answered C c c'' r0 us (Suc (Suc k)) sr" if "answered C c' c'' r0 us' (Suc k) sr" for c'' sr
        proof -
          from that obtain q vs where "serves r0 q" "response_ok (answer_source C c' c'' (fr_url q)) q (us @ next' # vs) sr"
            "last (us @ next' # vs) = fr_url q" "length vs < Suc k" by (auto simp: answered_def r'(2))
          moreover from this(2) have "response_ok (answer_source C c c'' (fr_url q)) q (us @ next' # vs) sr"
            by (rule response_ok_mono) (rule answer_source_later [OF _ ds kept])
          ultimately show ?thesis unfolding answered_def by (intro exI [of _ q] exI [of _ "next' # vs"]) auto
        qed
        show ?thesis
          unfolding FollowTo hop.case
          by (rule fetch_wp_mono [OF rest]) (auto intro: fetched_trans [OF first(1)] lift)
      qed
    qed
  }
qed


section \<open>The whole fetch\<close>

lemma validate_request_script:
  assumes "validate_request r0 = Inr r" shows "script_mode_ok r"
    "r\<lparr>fr_method := fr_method r0\<rparr> = r0"
  using assms by (auto simp: validate_request_Inr script_mode_ok_def script_initiated_def validate_script_Inr
      split: if_splits)

text \<open>What a data URL is answered with.\<close>

lemma fetch_data_url_wp:
  assumes "fr_response_body_limit r < u64_max"
  shows "fetch_wp (fetch_data_url C E r) (\<lambda>res c'. c' = c \<and> (\<forall>rs. res = Inr rs \<longrightarrow>
    rs_type rs = Basic \<and> rs_url_list rs = [fr_url r] \<and> length (b_bytes (rs_body rs)) \<le> fr_response_body_limit r \<and>
    (\<forall>h\<in>set (rs_headers rs). h_name h = ''content-type''))) c"
  unfolding fetch_data_url_def
proof (rule fetch_wp_bindI [OF check_signal_wp], goal_cases)
  case (2 u c')
  have "length (b_bytes b) \<le> fr_response_body_limit r" if "body_push bs (body_empty (fr_response_body_limit r)) = Inr b" for bs b
    using body_push_Inr [OF that] assms by (auto simp: body_empty_def)
  moreover have "\<forall>h\<in>set hs. h_name h = ''content-type''" if "headers_append ''content-type'' v [] = Inr hs" for v hs
    using headers_append_Inr [OF that] by (auto simp: lower_names)
  ultimately show ?case using 2 by (auto simp: wp_simps result_simps split: if_splits)
qed simp

text \<open>The answer of a fetch: from the network after at most 21 hops, or decoded from a data URL.\<close>

definition fetch_answer ::
  "fetch_crates \<Rightarrow> http_client \<Rightarrow> http_client \<Rightarrow> fetch_request \<Rightarrow> streaming_response \<Rightarrow> bool" where
  "fetch_answer C c c' r sr \<longleftrightarrow>
     answered C c c' r [fr_url r] (Suc MAX_REDIRECTS) sr \<or>
     is_data (fr_url r) \<and> sr_type sr = Basic \<and> sr_url_list sr = [fr_url r] \<and> stream_ok sr \<and>
     sr_body_limit sr = fr_response_body_limit r \<and> (\<forall>h\<in>set (sr_headers sr). h_name h = ''content-type'')"

lemma fetch_stream_wp:
  assumes inv: "client_inv C c" and limit: "fr_response_body_limit r0 < u64_max"
  shows "fetch_wp (fetch_stream C E r0)
    (\<lambda>res c'. case validate_request r0 of
       Inl e \<Rightarrow> res = Inl e \<and> c' = c
     | Inr r \<Rightarrow> fetched C c r (Suc MAX_REDIRECTS) c' \<and> (\<forall>sr. res = Inr sr \<longrightarrow> fetch_answer C c c' r sr)) c"
proof (cases "validate_request r0")
  case (Inl e)
  then show ?thesis by (simp add: fetch_stream_def wp_simps)
next
  case (Inr r)
  have lim: "fr_response_body_limit r < u64_max"
    using limit arg_cong [OF validate_request_script(2) [OF Inr], of fr_response_body_limit] by simp
  have none: "fetched C c r (Suc MAX_REDIRECTS) c" using inv by (auto simp: fetched_def intro: exI [of _ "[]"])
  have "fetch_wp (fetch_bind (check_signal E 0 r) (\<lambda>_. fetch_bind (fetch_result (check_request_policy C r 0)) (\<lambda>_.
       if is_data (fr_url r)
       then fetch_bind (fetch_data_url C E r) (\<lambda>rs. fetch_result (Inr (from_buffered rs (fr_response_body_limit r))))
       else fetch_loop C E (Suc MAX_REDIRECTS) r [fr_url r])))
     (\<lambda>res c'. fetched C c r (Suc MAX_REDIRECTS) c' \<and> (\<forall>sr. res = Inr sr \<longrightarrow> fetch_answer C c c' r sr)) c"
  proof (rule fetch_wp_bindI [OF check_signal_wp], goal_cases)
    case (2 u c')
    then have [simp]: "c' = c" by simp
    show ?case
    proof (cases "check_request_policy C r 0")
      case (Inl e)
      with none show ?thesis by (simp add: fetch_wp_bind [of "fetch_result _"] fetch_wp_result)
    next
      case (Inr w)
      have "fetch_wp (fetch_bind (fetch_data_url C E r) (\<lambda>rs. fetch_result (Inr (from_buffered rs (fr_response_body_limit r)))))
          (\<lambda>res c'. fetched C c r (Suc MAX_REDIRECTS) c' \<and> (\<forall>sr. res = Inr sr \<longrightarrow> fetch_answer C c c' r sr)) c" if "is_data (fr_url r)"
        by (rule fetch_wp_bindI [OF fetch_data_url_wp [OF lim]])
          (use none that lim in \<open>auto simp: wp_simps fetch_answer_def from_buffered_def stream_ok_def body_wf_def candidate_of_def\<close>)
      moreover have "fetch_wp (fetch_loop C E (Suc MAX_REDIRECTS) r [fr_url r])
          (\<lambda>res c'. fetched C c r (Suc MAX_REDIRECTS) c' \<and> (\<forall>sr. res = Inr sr \<longrightarrow> fetch_answer C c c' r sr)) c"
        by (rule fetch_wp_mono [OF fetch_loop_wp [OF inv serves_refl validate_request_script(1) [OF \<open>validate_request r0 = Inr r\<close>]]])
          (auto simp: fetch_answer_def)
      ultimately show ?thesis using Inr by (simp add: fetch_wp_bind [of "fetch_result _"] fetch_wp_result del: fetch_loop.simps)
    qed
  qed (use none in simp)
  with Inr show ?thesis by (simp add: fetch_stream_def fetch_bind_result)
qed


lemma fetch_answer_stream: "fetch_answer C c c' r sr \<Longrightarrow> stream_ok sr \<and> sr_body_limit sr = fr_response_body_limit r"
  using serves_fields(6) by (auto simp: fetch_answer_def answered_def response_ok_def)

text \<open>Buffering after the fetch: the loop over the chunks ends, and only the cache changes.\<close>

lemma into_buffered_returns:
  assumes "cache_inv rc" "stream_ok sr" "sr_body_limit sr < u64_max"
  shows "\<exists>res rc'. into_buffered sr rc = Some (res, rc') \<and> cache_inv rc' \<and>
    (\<forall>rs. res = Inr rs \<longrightarrow> length (b_bytes (rs_body rs)) \<le> sr_body_limit sr)"
proof -
  obtain e where e: "follows e (b_bytes (body_empty (sr_body_limit sr))) ca" if "candidate_of (sr_body sr) = Some ca" for ca
  proof (cases "candidate_of (sr_body sr)")
    case (Some ca)
    then obtain e where "cr_body e = []" "ca = \<lparr>ca_response = e, ca_permitted = True\<rparr>"
      using assms(2) by (auto simp: stream_ok_def)
    with Some show ?thesis by (intro that [of e]) (auto simp: follows_def body_empty_def)
  qed (use that in simp)
  have "body_wf (sr_body sr)" using assms(2) by (simp add: stream_ok_def)
  from buffer_loop_result [OF assms(1) this, of "body_empty (sr_body_limit sr)" e] e assms(3)
  obtain r rc' where "buffer_loop sr (body_empty (sr_body_limit sr)) rc = Some (r, rc')" "cache_inv rc'"
    "buffer_outcome e (candidate_of (sr_body sr) \<noteq> None) (body_empty (sr_body_limit sr)) rc r rc'"
    by (auto simp: body_empty_def)
  then show ?thesis
    by (cases r) (auto simp: into_buffered_def buffer_outcome_def body_empty_def)
qed

lemma fetch_wp:
  assumes inv: "client_inv C c" and limit: "fr_response_body_limit r0 < u64_max"
  shows "fetch_wp (fetch C E r0)
    (\<lambda>res c'. client_inv C c' \<and>
       (case validate_request r0 of
          Inl e \<Rightarrow> res = Inl e \<and> c' = c
        | Inr r \<Rightarrow> fetched C c r (Suc MAX_REDIRECTS) c' \<and>
            (\<forall>rs. res = Inr rs \<longrightarrow> length (b_bytes (rs_body rs)) \<le> fr_response_body_limit r0))) c"
  unfolding fetch_def
proof (rule fetch_wp_bindI [OF fetch_stream_wp [OF inv limit]], goal_cases)
  case (1 e c')
  with inv show ?case by (auto simp: fetched_def split: sum.splits)
next
  case (2 sr c')
  then obtain r where r: "validate_request r0 = Inr r" "fetched C c r (Suc MAX_REDIRECTS) c'" "fetch_answer C c c' r sr"
    by (auto split: sum.splits)
  have lim: "fr_response_body_limit r = fr_response_body_limit r0"
    using arg_cong [OF validate_request_script(2) [OF r(1)], of fr_response_body_limit] by simp
  have "cache_inv (hc_cache c')" using r(2) by (simp add: fetched_def client_inv_def)
  from into_buffered_returns [OF this, of sr] fetch_answer_stream [OF r(3)] limit lim
  obtain res rc' where buf: "into_buffered sr (hc_cache c') = Some (res, rc')" "cache_inv rc'"
    "\<forall>rs. res = Inr rs \<longrightarrow> length (b_bytes (rs_body rs)) \<le> fr_response_body_limit r0" by auto
  moreover have "fetched C c r (Suc MAX_REDIRECTS) (c'\<lparr>hc_cache := rc'\<rparr>)"
    using r(2) buf(2) by (auto simp: fetched_def client_inv_def)
  moreover from this have "client_inv C (c'\<lparr>hc_cache := rc'\<rparr>)" by (simp add: fetched_def)
  ultimately show ?case using r(1) by (simp add: fetch_wp_iff)
qed

section \<open>Properties\<close>

text \<open>C6: Every fetch ends. Whatever the servers, the connections, the disk and the clocks answer, a fetch
  returns a response or an error after at most 21 requests of its own and at most 21 preflights; a body it returns is within the request's budget; and the invariants of
  the HTTP cache (64 responses, 24 MiB) and of the cookie jar hold again.\<close>

theorem every_fetch_ends:
  assumes "client_inv C c" "fr_response_body_limit r < u64_max"
  shows "\<exists>res c' ds. fetch C E r c = Some (res, c') \<and> client_inv C c' \<and> hc_log c' = hc_log c @ ds \<and>
    length ds \<le> 42 \<and> length (filter dp_preflight ds) \<le> 21 \<and> length (filter (\<lambda>d. \<not> dp_preflight d) ds) \<le> 21 \<and>
    (\<forall>rs. res = Inr rs \<longrightarrow> length (b_bytes (rs_body rs)) \<le> fr_response_body_limit r)"
proof -
  obtain res c' where run: "fetch C E r c = Some (res, c')" "client_inv C c'"
    and post: "case validate_request r of
          Inl e \<Rightarrow> res = Inl e \<and> c' = c
        | Inr v \<Rightarrow> fetched C c v (Suc MAX_REDIRECTS) c' \<and>
            (\<forall>rs. res = Inr rs \<longrightarrow> length (b_bytes (rs_body rs)) \<le> fr_response_body_limit r)"
    using fetch_wp [OF assms, of E] by (auto simp: fetch_wp_iff)
  show ?thesis
  proof (cases "validate_request r")
    case (Inl e)
    with post run show ?thesis by (intro exI [of _ res] exI [of _ c'] exI [of _ "[]"]) simp
  next
    case (Inr v)
    with post obtain ds where "hc_log c' = hc_log c @ ds" "length (filter dp_preflight ds) \<le> 21"
      "length (filter (\<lambda>d. \<not> dp_preflight d) ds) \<le> 21"
      by (auto simp: fetched_def limit_simps)
    with post run Inr sum_length_filter_compl [of dp_preflight ds] show ?thesis
      by (intro exI [of _ res] exI [of _ c'] exI [of _ ds]) simp
  qed
qed

text \<open>C2: Everything a fetch dispatches is authorised. Each request it puts on the network goes to an HTTP(S)
  URL that the policies in force admit for this hop, and in same-origin mode to the client's origin. A
  preflight carries neither cookies nor credentials. A request that needs a preflight goes out directly after
  a preflight for it that answered 2xx and granted the origin, the method and every unsafe header. Cookies
  are added only where the credentials mode permits them at this hop. Along redirects the request keeps its
  origin, mode and policies, headers are only dropped, its body is resent unchanged or, for a GET, not at
  all, and an Authorization header never leaves the origin of the URL the fetch was made for.\<close>

theorem dispatches_are_authorised:
  assumes "client_inv C c" "fr_response_body_limit r < u64_max" "fetch C E r c = Some (res, c')"
  shows "\<exists>ds. hc_log c' = hc_log c @ ds \<and>
    (\<forall>k<length ds. dispatch_ok C (take k ds) (ds ! k) \<and>
       (\<exists>v. validate_request r = Inr v \<and> serves v (dp_request (ds ! k))) \<and>
       (headers_contains (tr_headers (dp_sent (ds ! k))) ''authorization'' \<longrightarrow>
          fu_origin (tr_url (dp_sent (ds ! k))) = fu_origin (fr_url r)))"
proof -
  have post: "case validate_request r of Inl e \<Rightarrow> c' = c | Inr v \<Rightarrow> fetched C c v (Suc MAX_REDIRECTS) c'"
    using fetch_wpD [OF fetch_wp [OF assms(1,2)] assms(3)] by (auto split: sum.splits)
  show ?thesis
  proof (cases "validate_request r")
    case (Inl e)
    with post show ?thesis by (intro exI [of _ "[]"]) simp
  next
    case (Inr v)
    have url: "fr_url v = fr_url r" using arg_cong [OF validate_request_script(2) [OF Inr], of fr_url] by simp
    from post Inr obtain ds where ds: "hc_log c' = hc_log c @ ds" "dispatches_ok C [] ds" "\<forall>d\<in>set ds. serves v (dp_request d)"
      by (auto simp: fetched_def)
    have "fu_origin (tr_url (dp_sent (ds ! k))) = fu_origin (fr_url r)"
      if "k < length ds" "dispatch_ok C (take k ds) (ds ! k)" "headers_contains (tr_headers (dp_sent (ds ! k))) ''authorization''" for k
      using that ds(3) url by (auto simp: dispatch_ok_def serves_def split: if_splits)
    with ds Inr show ?thesis by (intro exI [of _ ds]) (auto simp: dispatches_ok_nth)
  qed
qed


end
