(* ===== verification/Fetch_Chains.thy ===== *)
theory Fetch_Chains
  imports Fetch_Security
begin

text \<open>
  Runs of the pipeline on concrete servers: they show that the properties of \<open>Fetch_Security\<close> speak of fetches
  that do happen, and what a redirect chain through another origin is answered with.
\<close>

section \<open>The surroundings\<close>

definition chain_resolver :: url_resolver where
  "chain_resolver = url_crate.extend (sample_crate\<lparr>url_to_string := (\<lambda>u. u_scheme u @ ''://'' @ (case u_host u of Some h \<Rightarrow> host_text h | None \<Rightarrow> []) @ u_path u)\<rparr>)
     \<lparr>url_parse_base = (\<lambda>_ r. url_parse sample_crate r), url_set_path = (\<lambda>u p. u\<lparr>u_path := p\<rparr>),
      url_append_pair = (\<lambda>n v. n @ ''='' @ v)\<rparr>"

definition chain_crates :: fetch_crates where
  "chain_crates =
     \<lparr>fc_urls = chain_resolver, fc_sites = sample_sites, fc_cookies = unreadable_codec, fc_dates = sample_dates,
      fc_data_url = (\<lambda>_. Inl ''no'')\<rparr>"

definition quiet_reads :: "nat \<Rightarrow> read_event" where
  "quiet_reads n = \<lparr>re_aborted_before = {}, re_available = Inr 0, re_data = Inr [], re_aborted_after = {}\<rparr>"

definition reply :: "nat \<Rightarrow> (string \<times> string) list \<Rightarrow> fetch_error + transport_response" where
  "reply status hs =
     Inr \<lparr>ts_status = status, ts_headers = map (\<lambda>(n, v). \<lparr>h_name = n, h_value = v\<rparr>) hs, ts_reads = quiet_reads\<rparr>"

definition chain_env :: "(nat \<Rightarrow> fetch_error + transport_response) \<Rightarrow> fetch_env" where
  "chain_env answers =
     \<lparr>ev_transport = (\<lambda>log _. answers (length log)), ev_aborted = (\<lambda>_ _. {}), ev_wall = (\<lambda>_. 0), ev_now = (\<lambda>_ _. 0),
      ev_cookie_clock = (\<lambda>_ _. sample_clock), ev_disk = (\<lambda>_ _. io_ok), ev_opaque = (\<lambda>_. 0)\<rparr>"

lemma chain_env_simps:
  "ev_transport (chain_env answers) ds t = answers (length ds)" "ev_aborted (chain_env answers) n p = {}"
  "ev_now (chain_env answers) n p = 0" "ev_wall (chain_env answers) n = 0" "ev_opaque (chain_env answers) n = 0"
  "signal_check {} s = Inr ()"
  by (simp_all add: chain_env_def signal_check_def signal_is_aborted_def list_ex_iff)

definition new_client :: http_client where
  "new_client = \<lparr>hc_cache = response_cache_default, hc_cookies = store_in_memory sample_files, hc_log = []\<rparr>"

lemma new_client_inv: "client_inv chain_crates new_client"
  by (simp add: client_inv_def new_client_def cache_inv_default store_in_memory_def jar_inv_default)

definition site_a :: fetch_url where
  "site_a = \<lparr>fu_serialized = ''https://a.example/'',
     fu_kind = NetworkUrl \<lparr>scheme = ''https'', host = ''a.example'', port = 443, path_and_query = ''/''\<rparr>,
     fu_origin = Tuple ''https'' ''a.example'' 443\<rparr>"

definition site_b :: fetch_url where
  "site_b = \<lparr>fu_serialized = ''https://b.example/'',
     fu_kind = NetworkUrl \<lparr>scheme = ''https'', host = ''b.example'', port = 443, path_and_query = ''/''\<rparr>,
     fu_origin = Tuple ''https'' ''b.example'' 443\<rparr>"

lemma chain_urls:
  "url_parse chain_resolver = url_parse sample_crate"
  by (simp add: chain_resolver_def url_crate.defs)

lemma chain_fetch_urls:
  "fetch_url_parse chain_resolver n ''https://a.example/'' = Inr (site_a, n)"
  "fetch_url_parse chain_resolver n ''https://b.example/'' = Inr (site_b, n)"
  by (simp_all add: site_a_def site_b_def chain_urls sample_url_eval)

lemma chain_resolves:
  "fetch_url_resolve chain_resolver n site_a ''https://b.example/'' = Inr (site_b, n)"
  "fetch_url_resolve chain_resolver n site_b ''https://a.example/'' = Inr (site_a, n)"
proof -
  have "resolve_web_url chain_resolver ''https://a.example/'' ''https://b.example/'' = Some ''https://b.example/''"
    "resolve_web_url chain_resolver ''https://b.example/'' ''https://a.example/'' = Some ''https://a.example/''"
    by (simp_all add: resolve_web_url_def parse_web_url_def chain_urls bounded_url_def normalize_opaque_path_def ok_def)
      (simp_all add: chain_resolver_def url_crate.defs sample_url_eval)
  then show "fetch_url_resolve chain_resolver n site_a ''https://b.example/'' = Inr (site_b, n)"
    "fetch_url_resolve chain_resolver n site_b ''https://a.example/'' = Inr (site_a, n)"
    by (simp_all add: fetch_url_resolve_def chain_fetch_urls) (simp_all add: site_a_def site_b_def chain_fetch_urls [unfolded site_a_def site_b_def])
qed


section \<open>A script of one site fetching\<close>

definition chain_request :: "fetch_url \<Rightarrow> fetch_request" where
  "chain_request u = (sample_request ''GET'')\<lparr>fr_url := u\<rparr>"

definition chain_headers :: "string \<Rightarrow> header_list" where
  "chain_headers relation =
     [\<lparr>h_name = ''sec-fetch-dest'', h_value = ''empty''\<rparr>, \<lparr>h_name = ''sec-fetch-mode'', h_value = ''cors''\<rparr>,
      \<lparr>h_name = ''sec-fetch-site'', h_value = relation\<rparr>, \<lparr>h_name = ''accept-language'', h_value = ''en-CA,en;q=0.9''\<rparr>]"

lemma chain_setters:
  "headers_set_ok ''sec-fetch-dest'' ''empty'' [] = Inr (take (Suc 0) (chain_headers x))"
  "headers_set_ok ''sec-fetch-mode'' ''cors'' (take (Suc 0) (chain_headers x)) = Inr (take 2 (chain_headers x))"
  "headers_append ''accept-language'' ''en-CA,en;q=0.9'' (take 3 (chain_headers x)) = Inr (chain_headers x)"
  "\<not> headers_contains (take 3 (chain_headers x)) ''accept-language''"
  by code_simp+

lemma chain_site_setters:
  "headers_set_ok ''sec-fetch-site'' ''same-origin'' (take 2 (chain_headers ''same-origin'')) = Inr (take 3 (chain_headers ''same-origin''))"
  "headers_set_ok ''sec-fetch-site'' ''cross-site'' (take 2 (chain_headers ''cross-site'')) = Inr (take 3 (chain_headers ''cross-site''))"
  "headers_set_ok ''origin'' ''https://a.example'' (chain_headers ''cross-site'') =
     Inr (chain_headers ''cross-site'' @ [\<lparr>h_name = ''origin'', h_value = ''https://a.example''\<rparr>])"
  by code_simp+

lemma chain_request_sites:
  "request_site chain_resolver sample_sites (chain_request site_a) [site_a] = ''same-origin''"
  "request_site chain_resolver sample_sites (chain_request site_b) [site_a, site_b] = ''cross-site''"
  "request_site chain_resolver sample_sites (chain_request site_a) [site_a, site_b, site_a] = ''cross-site''"
  by (simp_all add: request_site_def chain_request_def sample_request_def chain_urls sample_url_eval site_a_def site_b_def
      fetch_url_parsed_def is_same_origin_def same_site_urls_def site_host_def sample_sites_def)


lemma chain_metadata:
  assumes "u = site_a \<or> u = site_b" "request_site chain_resolver sample_sites (chain_request u) us = relation"
    and "headers_set_ok ''sec-fetch-site'' relation (take 2 (chain_headers relation)) = Inr (take 3 (chain_headers relation))"
  shows "append_fetch_metadata chain_resolver sample_sites (chain_request u) us [] = Inr (take 3 (chain_headers relation))"
proof -
  have "destination_name (chain_request u) = ''empty''" "fr_mode (chain_request u) = CorsMode" "fr_context (chain_request u) = ScriptContext"
    using assms(1) by (auto simp: destination_name_def chain_request_def sample_request_def)
  moreover obtain p where "fetch_url_parsed (fr_url (chain_request u)) = Some p" "scheme p = ''https''"
    using assms(1) by (auto simp: chain_request_def fetch_url_parsed_def site_a_def site_b_def)
  ultimately show ?thesis
    by (simp add: append_fetch_metadata_def chain_setters(1) [of relation] chain_setters(2) [of relation] assms(2,3))
qed

lemma chain_empty_jar:
  "request_header U S K io t (chain_request site_a) (store_in_memory sample_files) = (Inr None, store_in_memory sample_files)"
  by (simp add: request_header_def chain_request_def site_a_def fetch_url_parsed_def store_in_memory_def purge_expired_def
      cookie_state_default_def persist_if_def sort_for_header_def cookie_pairs_def)

lemma chain_outbound_a:
  assumes "request_site chain_resolver sample_sites (chain_request site_a) us = relation"
    and "headers_set_ok ''sec-fetch-site'' relation (take 2 (chain_headers relation)) = Inr (take 3 (chain_headers relation))"
    and "hc_cookies c = store_in_memory sample_files"
  shows "outbound_headers chain_crates E (chain_request site_a) us c = Some (Inr (chain_headers relation), c)"
proof -
  have "fr_headers (chain_request site_a) = []" "cache_mode_headers (chain_request site_a) hs = Inr hs"
    "credentials_permitted (chain_request site_a)" "referrer_header (chain_request site_a) = None"
    "\<not> should_send_origin (chain_request site_a)" for hs
    by (simp_all add: chain_request_def sample_request_def cache_mode_headers_def credentials_permitted_def referrer_header_def
        should_send_origin_def needs_cors_check_def is_same_origin_def site_a_def)
  with assms chain_metadata [OF _ assms(1,2)] show ?thesis
    by (simp add: outbound_headers_def fetch_bind_def fetch_result_def cookie_for_def with_cookies_def chain_empty_jar
        chain_crates_def chain_setters(3,4) set_optional_def)
qed

lemma chain_outbound_b:
  "outbound_headers chain_crates E (chain_request site_b) [site_a, site_b] c =
     Some (Inr (chain_headers ''cross-site'' @ [\<lparr>h_name = ''origin'', h_value = ''https://a.example''\<rparr>]), c)"
proof -
  have "fr_headers (chain_request site_b) = []" "cache_mode_headers (chain_request site_b) hs = Inr hs"
    "\<not> credentials_permitted (chain_request site_b)" "referrer_header (chain_request site_b) = None"
    "should_send_origin (chain_request site_b)" "fr_origin (chain_request site_b) = Some (Tuple ''https'' ''a.example'' 443)"
    "origin_serialize (Tuple ''https'' ''a.example'' 443) = ''https://a.example''" for hs
    by (simp_all add: chain_request_def sample_request_def cache_mode_headers_def credentials_permitted_def referrer_header_def
        should_send_origin_def needs_cors_check_def is_same_origin_def site_b_def origin_serialize_def parsed_origin_def)
  with chain_metadata [OF _ chain_request_sites(2) chain_site_setters(2)] show ?thesis
    by (simp add: outbound_headers_def fetch_bind_def fetch_result_def cookie_for_def
        chain_crates_def chain_setters(3,4) set_optional_def chain_site_setters(3))
qed

text \<open>The hop up to the answer of the server, which the cache cannot give.\<close>

lemma chain_hop:
  assumes "outbound_headers chain_crates (chain_env answers) (chain_request u) us c = Some (Inr outbound, c)"
    and "u = site_a \<or> u = site_b" "hc_cache c = response_cache_default" "answers (dispatched c) = Inr ts" "ts_status ts \<noteq> 304"
    and "headers_values (ts_headers ts) ''set-cookie'' = []" "validate_cors_response (chain_request u) (ts_headers ts) = Inr ()"
  shows "\<exists>d. fetch_hop chain_crates (chain_env answers) n (chain_request u) us c =
    Some (after_response chain_crates (chain_env answers) (Suc (dispatched c)) (chain_request u) n us outbound 0 ts, logged c d) \<and>
    tr_url (dp_sent d) = u \<and> tr_headers (dp_sent d) = outbound"
proof -
  have "admit_hop chain_crates (chain_request u) n = Inr ()"
    using assms(2)
    by (auto simp: admit_hop_def check_request_policy_def chain_request_def sample_request_def check_request_with_script_def
        allows_url_def destination_directive_def chain_crates_def chain_urls sample_url_eval site_a_def site_b_def)
  moreover have "\<not> needs_preflight (chain_request u)"
    by (simp add: needs_preflight_def chain_request_def sample_request_def simple_method_def)
  moreover have "cache_lookup response_cache_default r hs = None" for r hs
    by (simp add: cache_lookup_def response_cache_default_def)
  moreover obtain p where "fetch_url_parsed u = Some p" using assms(2) by (auto simp: fetch_url_parsed_def site_a_def site_b_def)
  moreover have "store_response_cookies chain_crates (chain_env answers) (chain_request u) (ts_headers ts) c' = Some (Inr (), c')" for c'
    using assms(6) by (simp add: store_response_cookies_def fetch_result_def)
  moreover have "fr_url (chain_request u) = u" "fr_cache (chain_request u) = DefaultCache"
    by (simp_all add: chain_request_def sample_request_def)
  ultimately show ?thesis
    using assms
    by (intro exI [of _ "\<lparr>dp_preflight = False, dp_request = chain_request u, dp_redirects = n, dp_sent =
          \<lparr>tr_url = u, tr_method = fr_method (chain_request u), tr_headers = outbound, tr_body = fr_body (chain_request u),
           tr_body_limit = fr_response_body_limit (chain_request u), tr_cache = DefaultCache\<rparr>, dp_reply = Inr ts\<rparr>"])
      (simp add: fetch_hop_def check_signal_def asking_def fetch_bind_def fetch_result_def chain_env_simps
        hop_after_preflight_def answer_hop_def dispatch_hop_def send_once_stream_def Let_def revalidated_by_def logged_def)
qed


section \<open>Redirect chains\<close>

lemma chain_fields [simp]:
  "fr_url (chain_request u) = u" "fr_redirect (chain_request u) = FollowRedirect" "fr_context (chain_request u) = ScriptContext"
  "fr_mode (chain_request u) = CorsMode" "fr_response_body_limit (chain_request u) = 4096"
  by (simp_all add: chain_request_def sample_request_def)

lemma chain_redirected: "redirected (chain_request u) v 302 = chain_request v"
  by (simp add: redirected_def rewrite_redirect_method_def chain_request_def sample_request_def headers_remove_def)

lemma chain_follow:
  assumes "headers_get (ts_headers ts) ''location'' = Some location" "ts_status ts = 302" "n < MAX_REDIRECTS"
    and "fetch_url_resolve chain_resolver 0 u location = Inr (v, 0)"
  shows "after_response chain_crates (chain_env answers) k (chain_request u) n us outbound 0 ts = Inr (FollowTo (chain_request v) (us @ [v]))"
  using assms
  by (simp add: after_response_def is_redirect_status_def follow_redirect_def chain_env_simps chain_redirected)
    (simp add: chain_crates_def)

lemma chain_respond:
  "ts_status ts = 200 \<Longrightarrow> \<exists>ca. after_response chain_crates (chain_env answers) k (chain_request u) n us outbound 0 ts =
     Inr (Respond (filtered (chain_request u) us ts ca))"
  by (rule exI) (simp add: after_response_def is_redirect_status_def)

lemma chain_starts:
  "fetch_stream chain_crates (chain_env answers) (chain_request site_a) c =
   fetch_loop chain_crates (chain_env answers) (Suc MAX_REDIRECTS) (chain_request site_a) [site_a] c"
proof -
  have "validate_request (chain_request site_a) = Inr (chain_request site_a)"
    by (simp add: validate_request_Inr validate_script_Inr chain_request_def sample_request_def normal_method_def
        normalized_methods_def forbidden_method_def)
  moreover have "check_request_policy chain_crates (chain_request site_a) 0 = Inr ()"
    by (simp add: check_request_policy_def chain_request_def sample_request_def check_request_with_script_def
        allows_url_def destination_directive_def chain_crates_def chain_urls sample_url_eval site_a_def)
  moreover have "\<not> is_data site_a" by (simp add: is_data_def site_a_def)
  ultimately show ?thesis
    by (simp add: fetch_stream_def fetch_bind_def fetch_result_def check_signal_def asking_def chain_env_simps del: fetch_loop.simps)
qed

text \<open>Site a redirects to site b, which answers as given.\<close>

definition via_b :: "(fetch_error + transport_response) \<Rightarrow> (fetch_error + transport_response) \<Rightarrow> nat \<Rightarrow> fetch_error + transport_response" where
  "via_b second third n =
     (if n = 0 then reply 302 [(''location'', ''https://b.example/'')] else if n = 1 then second else third)"

lemma chain_reaches_b:
  "\<exists>d. fetch_stream chain_crates (chain_env (via_b second third)) (chain_request site_a) new_client =
     fetch_loop chain_crates (chain_env (via_b second third)) MAX_REDIRECTS (chain_request site_b) [site_a, site_b] (logged new_client d)
     \<and> tr_url (dp_sent d) = site_a"
proof -
  let ?ts = "\<lparr>ts_status = 302, ts_headers = [\<lparr>h_name = ''location'', h_value = ''https://b.example/''\<rparr>], ts_reads = quiet_reads\<rparr>"
  have hdrs: "headers_values (ts_headers ?ts) ''set-cookie'' = []" "headers_get (ts_headers ?ts) ''location'' = Some ''https://b.example/''"
    by code_simp+
  have cors: "validate_cors_response (chain_request site_a) (ts_headers ?ts) = Inr ()"
    by (simp add: validate_cors_response_def needs_cors_check_def chain_request_def sample_request_def is_same_origin_def site_a_def)
  obtain d where "fetch_hop chain_crates (chain_env (via_b second third)) 0 (chain_request site_a) [site_a] new_client =
      Some (after_response chain_crates (chain_env (via_b second third)) 1 (chain_request site_a) 0 [site_a]
        (chain_headers ''same-origin'') 0 ?ts, logged new_client d)" "tr_url (dp_sent d) = site_a"
    using chain_hop [OF chain_outbound_a [OF chain_request_sites(1) chain_site_setters(1)], of new_client "via_b second third" ?ts 0]
      hdrs(1) cors
    by (auto simp: new_client_def via_b_def reply_def)
  with chain_follow [OF hdrs(2), of 0 site_a site_b] chain_resolves(1) show ?thesis
    unfolding chain_starts fetch_loop.simps(2)
    by (intro exI [of _ d]) (simp add: fetch_bind_def limit_simps)
qed


text \<open>Site b answers itself: the script gets a CORS response with the headers its origin was granted.\<close>

definition granted :: "fetch_error + transport_response" where
  "granted = reply 200 [(''access-control-allow-origin'', ''https://a.example''), (''x-private'', ''1'')]"

lemma chain_ends_at_b:
  "\<exists>sr d e. fetch_stream chain_crates (chain_env (via_b granted third)) (chain_request site_a) new_client =
     Some (Inr sr, logged (logged new_client d) e) \<and> tr_url (dp_sent d) = site_a \<and> tr_url (dp_sent e) = site_b \<and>
     sr_type sr = CorsResponse \<and> sr_url_list sr = [site_a, site_b] \<and> sr_status sr = 200 \<and> sr_headers sr = []"
proof -
  let ?ts = "\<lparr>ts_status = 200, ts_headers = [\<lparr>h_name = ''access-control-allow-origin'', h_value = ''https://a.example''\<rparr>,
    \<lparr>h_name = ''x-private'', h_value = ''1''\<rparr>], ts_reads = quiet_reads\<rparr>"
  have hdrs: "headers_values (ts_headers ?ts) ''set-cookie'' = []" by code_simp
  have cors: "validate_cors_response (chain_request site_b) (ts_headers ?ts) = Inr ()" by code_simp
  have readable: "cors_filtered_headers (ts_headers ?ts) (chain_request site_b) = []" by code_simp
  have cross: "needs_cors_check (chain_request site_b)" by code_simp
  obtain d where d: "fetch_stream chain_crates (chain_env (via_b granted third)) (chain_request site_a) new_client =
     fetch_loop chain_crates (chain_env (via_b granted third)) MAX_REDIRECTS (chain_request site_b) [site_a, site_b] (logged new_client d)"
    "tr_url (dp_sent d) = site_a" using chain_reaches_b by blast
  obtain e where e: "fetch_hop chain_crates (chain_env (via_b granted third)) 1 (chain_request site_b) [site_a, site_b] (logged new_client d) =
      Some (after_response chain_crates (chain_env (via_b granted third)) 2 (chain_request site_b) 1 [site_a, site_b]
        (chain_headers ''cross-site'' @ [\<lparr>h_name = ''origin'', h_value = ''https://a.example''\<rparr>]) 0 ?ts, logged (logged new_client d) e)"
    "tr_url (dp_sent e) = site_b"
    using chain_hop [OF chain_outbound_b, of "logged new_client d" "via_b granted third" ?ts 1] hdrs cors
    by (auto simp: new_client_def via_b_def granted_def reply_def numeral_eq_Suc)
  obtain ca where "after_response chain_crates (chain_env (via_b granted third)) 2 (chain_request site_b) 1 [site_a, site_b]
      (chain_headers ''cross-site'' @ [\<lparr>h_name = ''origin'', h_value = ''https://a.example''\<rparr>]) 0 ?ts =
      Inr (Respond (filtered (chain_request site_b) [site_a, site_b] ?ts ca))"
    using chain_respond [of ?ts "via_b granted third" 2 site_b 1 "[site_a, site_b]"
        "chain_headers ''cross-site'' @ [\<lparr>h_name = ''origin'', h_value = ''https://a.example''\<rparr>]"] by (simp, blast)
  with e(1) have "fetch_loop chain_crates (chain_env (via_b granted third)) (Suc 19) (chain_request site_b) [site_a, site_b] (logged new_client d) =
      Some (Inr (filtered (chain_request site_b) [site_a, site_b] ?ts ca), logged (logged new_client d) e)"
    unfolding fetch_loop.simps(2) by (simp add: fetch_bind_def fetch_result_def limit_simps)
  moreover have "MAX_REDIRECTS = Suc 19" by (simp add: limit_simps)
  ultimately show ?thesis
    using d e(2) cross readable by (intro exI) (auto simp: filtered_def filtered_with_def)
qed

text \<open>
  A chain through site b back to site a. Whether a response needs a CORS check is decided from the last URL
  alone, so the way through the other origin leaves no trace: the request carries no Origin header, site a's
  answer needs no Access-Control-Allow-Origin, and the script reads every header of it as a same-origin response.
\<close>

definition back_to_a :: "fetch_error + transport_response" where
  "back_to_a = reply 302 [(''location'', ''https://a.example/''), (''access-control-allow-origin'', ''https://a.example'')]"

definition ungranted :: "fetch_error + transport_response" where
  "ungranted = reply 200 [(''x-private'', ''1'')]"

lemma chain_returns_to_a:
  "\<exists>d e. fetch_stream chain_crates (chain_env (via_b back_to_a third)) (chain_request site_a) new_client =
     fetch_loop chain_crates (chain_env (via_b back_to_a third)) (Suc 18) (chain_request site_a) [site_a, site_b, site_a]
       (logged (logged new_client d) e)"
proof -
  let ?env = "chain_env (via_b back_to_a third)" and ?us = "[site_a, site_b]"
  let ?out = "chain_headers ''cross-site'' @ [\<lparr>h_name = ''origin'', h_value = ''https://a.example''\<rparr>]"
  let ?ts = "\<lparr>ts_status = 302, ts_headers = [\<lparr>h_name = ''location'', h_value = ''https://a.example/''\<rparr>,
    \<lparr>h_name = ''access-control-allow-origin'', h_value = ''https://a.example''\<rparr>], ts_reads = quiet_reads\<rparr>"
  have hdrs: "headers_values (ts_headers ?ts) ''set-cookie'' = []" "headers_get (ts_headers ?ts) ''location'' = Some ''https://a.example/''"
    by code_simp+
  have cors: "validate_cors_response (chain_request site_b) (ts_headers ?ts) = Inr ()" by code_simp
  obtain d where d: "fetch_stream chain_crates ?env (chain_request site_a) new_client =
     fetch_loop chain_crates ?env MAX_REDIRECTS (chain_request site_b) ?us (logged new_client d)"
    using chain_reaches_b by blast
  obtain e where e: "fetch_hop chain_crates ?env 1 (chain_request site_b) ?us (logged new_client d) =
      Some (after_response chain_crates ?env 2 (chain_request site_b) 1 ?us ?out 0 ?ts, logged (logged new_client d) e)"
    using chain_hop [OF chain_outbound_b, of "logged new_client d" "via_b back_to_a third" ?ts 1] hdrs(1) cors
    by (auto simp: new_client_def via_b_def back_to_a_def reply_def numeral_eq_Suc)
  have "after_response chain_crates ?env 2 (chain_request site_b) 1 ?us ?out 0 ?ts = Inr (FollowTo (chain_request site_a) (?us @ [site_a]))"
    using chain_follow [OF hdrs(2), of 1 site_b site_a] chain_resolves(2) by (simp add: limit_simps)
  with e have "fetch_loop chain_crates ?env (Suc 19) (chain_request site_b) ?us (logged new_client d) =
      fetch_loop chain_crates ?env 19 (chain_request site_a) (?us @ [site_a]) (logged (logged new_client d) e)"
    unfolding fetch_loop.simps(2) by (simp add: fetch_bind_def limit_simps del: fetch_loop.simps)
  moreover have "MAX_REDIRECTS = Suc 19" "(19::nat) = Suc 18" by (simp_all add: limit_simps)
  ultimately show ?thesis using d by (metis append_Cons append_Nil)
qed

lemma redirects_launder_the_origin:
  "\<exists>sr c'. fetch_stream chain_crates (chain_env (via_b back_to_a ungranted)) (chain_request site_a) new_client = Some (Inr sr, c') \<and>
     sr_type sr = Basic \<and> sr_url_list sr = [site_a, site_b, site_a] \<and>
     sr_headers sr = [\<lparr>h_name = ''x-private'', h_value = ''1''\<rparr>] \<and>
     \<not> headers_contains (tr_headers (dp_sent (last (hc_log c')))) ''origin''"
proof -
  let ?env = "chain_env (via_b back_to_a ungranted)" and ?us = "[site_a, site_b, site_a]"
  let ?ts = "\<lparr>ts_status = 200, ts_headers = [\<lparr>h_name = ''x-private'', h_value = ''1''\<rparr>], ts_reads = quiet_reads\<rparr>"
  obtain d e where de: "fetch_stream chain_crates ?env (chain_request site_a) new_client =
      fetch_loop chain_crates ?env (Suc 18) (chain_request site_a) ?us (logged (logged new_client d) e)"
    using chain_returns_to_a by blast
  have hdrs: "headers_values (ts_headers ?ts) ''set-cookie'' = []"
    "cors_filtered_headers (ts_headers ?ts) (chain_request site_a) = ts_headers ?ts"
    "\<not> headers_contains (chain_headers ''cross-site'') ''origin''" by code_simp+
  have same: "\<not> needs_cors_check (chain_request site_a)" "validate_cors_response (chain_request site_a) (ts_headers ?ts) = Inr ()"
    by (simp_all add: validate_cors_response_def needs_cors_check_def chain_request_def sample_request_def is_same_origin_def site_a_def)
  obtain f where f: "fetch_hop chain_crates ?env 2 (chain_request site_a) ?us (logged (logged new_client d) e) =
      Some (after_response chain_crates ?env 3 (chain_request site_a) 2 ?us (chain_headers ''cross-site'') 0 ?ts,
        logged (logged (logged new_client d) e) f)" "tr_headers (dp_sent f) = chain_headers ''cross-site''"
    using chain_hop [OF chain_outbound_a [OF chain_request_sites(3) chain_site_setters(2)],
        of "logged (logged new_client d) e" "via_b back_to_a ungranted" ?ts 2] hdrs(1) same(2)
    by (auto simp: new_client_def via_b_def ungranted_def reply_def numeral_eq_Suc)
  obtain ca where "after_response chain_crates ?env 3 (chain_request site_a) 2 ?us (chain_headers ''cross-site'') 0 ?ts =
      Inr (Respond (filtered (chain_request site_a) ?us ?ts ca))"
    using chain_respond [of ?ts "via_b back_to_a ungranted" 3 site_a 2 ?us "chain_headers ''cross-site''"] by (simp, blast)
  with f(1) de have "fetch_stream chain_crates ?env (chain_request site_a) new_client =
      Some (Inr (filtered (chain_request site_a) ?us ?ts ca), logged (logged (logged new_client d) e) f)"
    unfolding fetch_loop.simps(2) by (simp add: fetch_bind_def fetch_result_def limit_simps)
  with hdrs(2,3) same(1) f(2) show ?thesis
    by (auto simp: filtered_def filtered_with_def logged_def)
qed

text \<open>
  The browser checks the method of a no-CORS request but not its headers: whatever header page script's process
  attaches goes to the other origin without a preflight.
\<close>

lemma no_cors_headers_are_unchecked:
  defines "h \<equiv> \<lparr>h_name = ''x-custom'', h_value = ''1''\<rparr>"
  defines "r \<equiv> (chain_request site_b)\<lparr>fr_mode := NoCorsMode, fr_headers := [h]\<rparr>"
  shows "validate_request r = Inr r" "\<not> needs_preflight r" "needs_cors_check r" "\<not> is_cors_safelisted_request_header h"
proof -
  have "\<not> is_forbidden_request_header ''x-custom'' ''1''" by code_simp
  then show "validate_request r = Inr r"
    by (simp add: validate_request_Inr validate_script_Inr r_def h_def chain_request_def sample_request_def normal_method_def
        normalized_methods_def forbidden_method_def site_b_def validate_script_request_def)
  show "\<not> needs_preflight r" by (simp add: needs_preflight_def r_def)
  show "needs_cors_check r"
    by (simp add: needs_cors_check_def r_def chain_request_def sample_request_def is_same_origin_def site_b_def)
  show "\<not> is_cors_safelisted_request_header h" unfolding h_def by code_simp
qed

section \<open>Witnesses\<close>

theorem every_fetch_ends_witness:
  "\<exists>res c' ds. fetch chain_crates (chain_env (via_b granted granted)) (chain_request site_a) new_client = Some (res, c') \<and>
     client_inv chain_crates c' \<and> hc_log c' = hc_log new_client @ ds \<and> length ds \<le> 42"
proof -
  have "fr_response_body_limit (chain_request site_a) < u64_max" by (simp add: limit_simps)
  from every_fetch_ends [OF new_client_inv this, of "chain_env (via_b granted granted)"] show ?thesis by blast
qed


theorem dispatches_are_authorised_witness:
  "\<exists>(c' :: http_client) d e. hc_log c' = [d, e] \<and> dispatch_ok chain_crates [] d \<and> dispatch_ok chain_crates [d] e \<and>
     tr_url (dp_sent d) = site_a \<and> tr_url (dp_sent e) = site_b"
proof -
  obtain sr d e where run: "fetch_stream chain_crates (chain_env (via_b granted granted)) (chain_request site_a) new_client =
      Some (Inr sr, logged (logged new_client d) e)" "tr_url (dp_sent d) = site_a" "tr_url (dp_sent e) = site_b"
    using chain_ends_at_b by blast
  have limit: "fr_response_body_limit (chain_request site_a) < u64_max" by (simp add: limit_simps)
  obtain res c' where c': "fetch chain_crates (chain_env (via_b granted granted)) (chain_request site_a) new_client = Some (res, c')"
    using fetch_wp [OF new_client_inv limit, of "chain_env (via_b granted granted)"] unfolding fetch_wp_iff by blast
  with run(1) have log: "hc_log c' = [d, e]"
    by (auto simp: fetch_def fetch_bind_def new_client_def)
  from dispatches_are_authorised [OF new_client_inv limit c'] log
  have each: "dispatch_ok chain_crates (take i [d, e]) ([d, e] ! i)" if "i < 2" for i
    using that by (auto simp: new_client_def)
  have "dispatch_ok chain_crates [] d" "dispatch_ok chain_crates [d] e"
    using each [of 0] each [of 1] by simp_all
  with log run(2,3) show ?thesis by blast
qed

end
