(* ===== verification/Wire.thy ===== *)
theory Wire
  imports Recoverable_File Storage_String Rust_Str
begin

text \<open>
  \<^verbatim>\<open>src/renderer_protocol/wire.rs\<close>: the primitive fields of messages between the browser and its renderers,
  with a small calculus of formats. A reader is exact for a format when it succeeds precisely on the
  encodings of the format and consumes precisely these bytes; exactness composes along the decoders.
\<close>

named_theorems wire_reads \<open>exactness of readers\<close>
named_theorems wire_forms \<open>the formats of the primitive fields\<close>

datatype protocol_error =
    Io string
  | InvalidMagic
  | IncompatibleVersion nat nat
  | ReservedFlags nat
  | PayloadTooLarge nat
  | WrongSession nat nat
  | WrongSequence nat nat
  | SequenceExhausted
  | UnexpectedMessage nat
  | InvalidPayload string
  | InvalidUtf8

section \<open>Bytes, integers and text\<close>

primrec le_bytes :: "nat \<Rightarrow> nat \<Rightarrow> bytes" where
  "le_bytes 0 n = []"
| "le_bytes (Suc k) n = of_nat n # le_bytes k (n div 256)"

primrec le_value :: "bytes \<Rightarrow> nat" where
  "le_value [] = 0"
| "le_value (b # bs) = unat b + 256 * le_value bs"

text \<open>\<^verbatim>\<open>to_le_bytes\<close> and \<^verbatim>\<open>from_le_bytes\<close> of an unsigned type.\<close>

definition to_le_bytes :: "'a::len word \<Rightarrow> bytes" where
  "to_le_bytes w = le_bytes (LENGTH('a) div 8) (unat w)"

definition from_le_bytes :: "bytes \<Rightarrow> 'a::len word" where
  "from_le_bytes bs = of_nat (le_value bs)"

text \<open>\<^verbatim>\<open>str::as_bytes\<close>, and the acceptance of \<^verbatim>\<open>String::from_utf8\<close>.\<close>

definition str_bytes :: "string \<Rightarrow> bytes" where
  "str_bytes s = map (\<lambda>c. of_nat (byte c)) s"

definition bytes_str :: "bytes \<Rightarrow> string" where
  "bytes_str bs = map (\<lambda>b. char_of (unat b)) bs"

definition is_continuation :: "char \<Rightarrow> bool" where
  "is_continuation c \<longleftrightarrow> 0x80 \<le> byte c \<and> byte c \<le> 0xbf"

fun is_utf8 :: "string \<Rightarrow> bool" where
  "is_utf8 [] = True"
| "is_utf8 (a # s) =
     (if byte a < 0x80 then is_utf8 s
      else if 0xc2 \<le> byte a \<and> byte a \<le> 0xdf then
        (case s of b # t \<Rightarrow> is_continuation b \<and> is_utf8 t | _ \<Rightarrow> False)
      else if 0xe0 \<le> byte a \<and> byte a \<le> 0xef then
        (case s of
           b # c # t \<Rightarrow>
             is_continuation b \<and> (byte a = 0xe0 \<longrightarrow> 0xa0 \<le> byte b) \<and> (byte a = 0xed \<longrightarrow> byte b \<le> 0x9f)
             \<and> is_continuation c \<and> is_utf8 t
         | _ \<Rightarrow> False)
      else if 0xf0 \<le> byte a \<and> byte a \<le> 0xf4 then
        (case s of
           b # c # d # t \<Rightarrow>
             is_continuation b \<and> (byte a = 0xf0 \<longrightarrow> 0x90 \<le> byte b) \<and> (byte a = 0xf4 \<longrightarrow> byte b \<le> 0x8f)
             \<and> is_continuation c \<and> is_continuation d \<and> is_utf8 t
         | _ \<Rightarrow> False)
      else False)"

section \<open>\<^verbatim>\<open>WireWriter\<close>\<close>

record wire_writer =
  ww_bytes :: bytes
  ww_counted :: "nat option"

definition writer_new :: wire_writer where
  "writer_new = \<lparr>ww_bytes = [], ww_counted = None\<rparr>"

definition writer_counting :: wire_writer where
  "writer_counting = \<lparr>ww_bytes = [], ww_counted = Some 0\<rparr>"

definition writer_len :: "wire_writer \<Rightarrow> nat" where
  "writer_len w = (case ww_counted w of Some n \<Rightarrow> n | None \<Rightarrow> length (ww_bytes w))"

definition writer_put :: "bytes \<Rightarrow> wire_writer \<Rightarrow> wire_writer" where
  "writer_put bs w =
     (case ww_counted w of
        Some n \<Rightarrow> w\<lparr>ww_counted := Some (n + length bs)\<rparr>
      | None \<Rightarrow> w\<lparr>ww_bytes := ww_bytes w @ bs\<rparr>)"

text \<open>
  The typed methods append a field each: they are modelled by the bytes they append, and an encoder by the
  concatenation of its fields in the order it writes them.
\<close>

definition put_u8 :: "8 word \<Rightarrow> bytes" where "put_u8 b = [b]"
definition put_bool :: "bool \<Rightarrow> bytes" where "put_bool b = [if b then 1 else 0]"
definition put_u16 :: "16 word \<Rightarrow> bytes" where "put_u16 w = to_le_bytes w"
definition put_u32 :: "32 word \<Rightarrow> bytes" where "put_u32 w = to_le_bytes w"
definition put_u64 :: "64 word \<Rightarrow> bytes" where "put_u64 w = to_le_bytes w"
definition put_u128 :: "128 word \<Rightarrow> bytes" where "put_u128 w = to_le_bytes w"

definition u32_max :: nat where [limit_simps]: "u32_max = 4294967295"

definition put_bytes :: "bytes \<Rightarrow> protocol_error + bytes" where
  "put_bytes bs =
     (if length bs > u32_max then Inl (InvalidPayload ''wire byte length'')
      else Inr (put_u32 (of_nat (length bs)) @ bs))"

definition put_string :: "string \<Rightarrow> protocol_error + bytes" where
  "put_string s =
     (if length s > u32_max then Inl (InvalidPayload ''wire string length'')
      else Inr (put_u32 (of_nat (length s)) @ str_bytes s))"

definition put_storage_string :: "storage_string \<Rightarrow> protocol_error + bytes" where
  "put_storage_string us =
     (if length us * 2 > u32_max then Inl (InvalidPayload ''storage string length'')
      else Inr (put_u32 (of_nat (length us * 2)) @ concat (map put_u16 us)))"

section \<open>\<^verbatim>\<open>WireReader\<close>\<close>

record wire_reader =
  wr_bytes :: bytes
  wr_cursor :: nat

type_synonym 'a reading = "wire_reader \<Rightarrow> protocol_error + ('a \<times> wire_reader)"

definition reader_new :: "bytes \<Rightarrow> wire_reader" where
  "reader_new bs = \<lparr>wr_bytes = bs, wr_cursor = 0\<rparr>"

definition reader_finish :: "wire_reader \<Rightarrow> protocol_error + unit" where
  "reader_finish r = ensure (wr_cursor r = length (wr_bytes r)) (InvalidPayload ''trailing wire bytes'')"

definition read_bind :: "'a reading \<Rightarrow> ('a \<Rightarrow> 'b reading) \<Rightarrow> 'b reading" where
  "read_bind f g = (\<lambda>r. and_then (f r) (\<lambda>(x, r'). g x r'))"

definition read_result :: "protocol_error + 'a \<Rightarrow> 'a reading" where
  "read_result x = (\<lambda>r. and_then x (\<lambda>y. Inr (y, r)))"

abbreviation read_ok :: "'a \<Rightarrow> 'a reading" where "read_ok x \<equiv> read_result (Inr x)"
abbreviation read_fail :: "string \<Rightarrow> 'a reading" where "read_fail e \<equiv> read_result (Inl (InvalidPayload e))"

definition reader_take :: "nat \<Rightarrow> bytes reading" where
  "reader_take n = (\<lambda>r.
     and_then (ok_or (checked_add (wr_cursor r) n) (InvalidPayload ''wire length overflow'')) (\<lambda>end'.
       if end' \<le> length (wr_bytes r)
       then Inr (take (end' - wr_cursor r) (drop (wr_cursor r) (wr_bytes r)), r\<lparr>wr_cursor := end'\<rparr>)
       else Inl (InvalidPayload ''truncated wire value'')))"

definition get_u8 :: "8 word reading" where
  "get_u8 = read_bind (reader_take 1) (\<lambda>bs. read_ok (bs ! 0))"

definition get_bool :: "bool reading" where
  "get_bool = read_bind get_u8 (\<lambda>b.
     if b = 0 then read_ok False else if b = 1 then read_ok True else read_fail ''wire boolean'')"

definition get_u16 :: "16 word reading" where
  "get_u16 = read_bind (reader_take 2) (\<lambda>bs. read_ok (from_le_bytes bs))"

definition get_u32 :: "32 word reading" where
  "get_u32 = read_bind (reader_take 4) (\<lambda>bs. read_ok (from_le_bytes bs))"

definition get_u64 :: "64 word reading" where
  "get_u64 = read_bind (reader_take 8) (\<lambda>bs. read_ok (from_le_bytes bs))"

definition get_u128 :: "128 word reading" where
  "get_u128 = read_bind (reader_take 16) (\<lambda>bs. read_ok (from_le_bytes bs))"

definition get_string :: "nat \<Rightarrow> string reading" where
  "get_string maximum = read_bind get_u32 (\<lambda>n.
     if unat n > maximum then read_fail ''wire string budget''
     else read_bind (reader_take (unat n)) (\<lambda>bs.
       read_result (if is_utf8 (bytes_str bs) then Inr (bytes_str bs) else Inl InvalidUtf8)))"

definition get_bytes :: "nat \<Rightarrow> bytes reading" where
  "get_bytes maximum = read_bind get_u32 (\<lambda>n.
     if unat n > maximum then read_fail ''wire byte budget'' else reader_take (unat n))"

definition saturating_mul :: "nat \<Rightarrow> nat \<Rightarrow> nat" where
  "saturating_mul a b = min u64_max (a * b)"

fun chunk_units :: "bytes \<Rightarrow> u16 list" where
  "chunk_units (a # b # bs) = from_le_bytes [a, b] # chunk_units bs"
| "chunk_units _ = []"

definition get_storage_string :: "nat \<Rightarrow> storage_string reading" where
  "get_storage_string maximum = read_bind get_u32 (\<lambda>n.
     if unat n > saturating_mul maximum 2 \<or> odd (unat n)
     then read_fail ''storage string budget or encoding''
     else read_bind (reader_take (unat n)) (\<lambda>bs. read_ok (chunk_units bs)))"


section \<open>Facts: bytes\<close>

lemma byte_bound: "unat (b :: 8 word) < 256"
  using unsigned_less [of b] by simp

lemma word_bound: "unat (w :: 'a::len word) < 2 ^ LENGTH('a)"
  by (rule unsigned_less)

lemma le_bytes_length [simp]: "length (le_bytes k n) = k"
  by (induction k arbitrary: n) auto

lemma le_value_bytes: "le_value (le_bytes k n) = n mod 256 ^ k"
  by (induction k arbitrary: n) (simp_all add: unat_of_nat take_bit_eq_mod mod_mult2_eq)

lemma le_bytes_value: "length bs = k \<Longrightarrow> le_bytes k (le_value bs) = bs"
proof (induction bs arbitrary: k)
  case (Cons b bs)
  have "(unat b + 256 * le_value bs) div 256 = le_value bs"
    using byte_bound [of b] by simp
  moreover have "(256 :: 8 word) = 0" by (simp add: word_eq_iff_unsigned)
  then have "(of_nat (unat b + 256 * le_value bs) :: 8 word) = b"
    by (simp only: of_nat_add of_nat_mult of_nat_numeral) simp
  ultimately show ?case using Cons by auto
qed simp

lemma le_value_bound: "le_value bs < 256 ^ length bs"
proof (induction bs)
  case (Cons b bs)
  then have "256 * le_value bs + 256 \<le> 256 * 256 ^ length bs" by simp
  with byte_bound [of b] show ?case by simp
qed simp

lemma to_le_bytes_length [simp]: "length (to_le_bytes (w :: 'a::len word)) = LENGTH('a) div 8"
  by (simp add: to_le_bytes_def)

lemma word_as_bytes:
  assumes "LENGTH('a) = 8 * k" "length bs = k"
  shows "from_le_bytes bs = (w :: 'a::len word) \<longleftrightarrow> bs = to_le_bytes w"
proof -
  have p: "(256::nat) ^ k = 2 ^ LENGTH('a)" by (simp add: assms(1) power_mult)
  have "le_value (le_bytes k (unat w)) = unat w"
    using word_bound [of w] by (simp add: le_value_bytes p)
  moreover have "unat (from_le_bytes bs :: 'a word) = le_value bs"
    using le_value_bound [of bs] by (simp add: from_le_bytes_def unat_of_nat take_bit_eq_mod p assms(2))
  ultimately show ?thesis
    using le_bytes_value [OF assms(2)] assms(1) by (auto simp: to_le_bytes_def from_le_bytes_def)
qed

lemma str_bytes_length [simp]: "length (str_bytes s) = length s"
  by (simp add: str_bytes_def)

lemma bytes_str_eq: "bytes_str bs = s \<longleftrightarrow> bs = str_bytes s"
proof -
  have "bytes_str (str_bytes s) = s"
    by (simp add: bytes_str_def str_bytes_def o_def byte_def unat_of_nat take_bit_eq_mod)
  moreover have "str_bytes (bytes_str bs) = bs"
    by (auto simp: bytes_str_def str_bytes_def o_def byte_def byte_bound intro!: map_idI)
  ultimately show ?thesis by auto
qed

text \<open>The counting writer is given exactly what the other one keeps.\<close>

lemma counting_writer_measures:
  "writer_len (fold writer_put ps writer_counting) = writer_len (fold writer_put ps writer_new)"
  "ww_bytes (fold writer_put ps writer_new) = concat ps"
proof -
  have c: "fold writer_put ps w = w\<lparr>ww_counted := Some (n + length (concat ps))\<rparr>" if "ww_counted w = Some n" for w n
    using that by (induction ps arbitrary: w n) (auto simp: writer_put_def)
  have n: "fold writer_put ps w = w\<lparr>ww_bytes := ww_bytes w @ concat ps\<rparr>" if "ww_counted w = None" for w
    using that by (induction ps arbitrary: w) (auto simp: writer_put_def)
  show "writer_len (fold writer_put ps writer_counting) = writer_len (fold writer_put ps writer_new)"
    "ww_bytes (fold writer_put ps writer_new) = concat ps"
    using c [of writer_counting 0] n [of writer_new] by (simp_all add: writer_len_def) (simp_all add: writer_counting_def writer_new_def)
qed

end
