(* ===== verification/Wire_Format.thy ===== *)
theory Wire_Format
  imports Wire
begin

text \<open>
  Formats. \<open>reads f form\<close> says that the reader \<open>f\<close> is exact for the relation \<open>form\<close> between values and
  encodings: started anywhere in a buffer it answers \<open>x\<close> precisely when an encoding of \<open>x\<close> lies there, and
  stops right behind it. The rules compose along the decoders; \<open>wire_format\<close> and \<open>payload_format\<close> are the
  contracts of one field and of one whole payload.
\<close>

section \<open>Exact readers\<close>

definition reader_wf :: "wire_reader \<Rightarrow> bool" where
  "reader_wf r \<longleftrightarrow> wr_cursor r \<le> length (wr_bytes r) \<and> length (wr_bytes r) \<le> u64_max"

definition reader_at :: "wire_reader \<Rightarrow> bytes \<Rightarrow> bool" where
  "reader_at r bs \<longleftrightarrow> (\<exists>rest. drop (wr_cursor r) (wr_bytes r) = bs @ rest)"

definition advance :: "wire_reader \<Rightarrow> nat \<Rightarrow> wire_reader" where
  "advance r n = r\<lparr>wr_cursor := wr_cursor r + n\<rparr>"

definition reads :: "'a reading \<Rightarrow> ('a \<Rightarrow> bytes \<Rightarrow> bool) \<Rightarrow> bool" where
  "reads f form \<longleftrightarrow> (\<forall>r x r'. reader_wf r \<longrightarrow>
     (f r = Inr (x, r') \<longleftrightarrow> (\<exists>bs. form x bs \<and> reader_at r bs \<and> r' = advance r (length bs))))"

lemma unread_advance: "drop (wr_cursor (advance r n)) (wr_bytes (advance r n)) = drop n (drop (wr_cursor r) (wr_bytes r))"
  by (simp add: advance_def add.commute)

lemma reader_at_append:
  "reader_at r (bs @ cs) \<longleftrightarrow> reader_at r bs \<and> reader_at (advance r (length bs)) cs"
  unfolding reader_at_def unread_advance by (auto simp del: drop_drop)

lemma reader_at_room: "reader_at r bs \<Longrightarrow> wr_cursor r \<le> length (wr_bytes r) \<Longrightarrow> wr_cursor r + length bs \<le> length (wr_bytes r)"
  unfolding reader_at_def by (metis Nat.le_diff_conv2 add.commute le_add1 length_append length_drop)

lemma advance_advance [simp]: "advance (advance r m) n = advance r (m + n)"
  by (simp add: advance_def)

lemma advance_zero [simp]: "advance r 0 = r"
  by (simp add: advance_def)

lemma reader_at_Nil [simp]: "reader_at r []"
  by (simp add: reader_at_def)

lemma reader_wf_advance: "reader_wf r \<Longrightarrow> reader_at r bs \<Longrightarrow> reader_wf (advance r (length bs))"
  using reader_at_room [of r bs] by (simp add: reader_wf_def advance_def)

lemma reads_cong: "reads f form \<Longrightarrow> (\<And>x bs. form x bs \<longleftrightarrow> form' x bs) \<Longrightarrow> reads f form'"
  by (simp add: reads_def)

lemma reads_result [wire_reads]: "reads (read_result r) (\<lambda>x bs. r = Inr x \<and> bs = [])"
  by (cases r) (auto simp: reads_def read_result_def)

lemma reads_bind [wire_reads]:
  assumes "reads f V" "\<And>x. reads (g x) (W x)"
  shows "reads (read_bind f g) (\<lambda>z bs. \<exists>x vs ws. V x vs \<and> W x z ws \<and> bs = vs @ ws)"
  unfolding reads_def
proof (intro allI impI)
  fix r z r'
  assume wf: "reader_wf r"
  have f: "f r = Inr (x, s) \<longleftrightarrow> (\<exists>vs. V x vs \<and> reader_at r vs \<and> s = advance r (length vs))" for x s
    using assms(1) wf by (simp add: reads_def)
  have g: "g x (advance r (length vs)) = Inr (z, r') \<longleftrightarrow>
      (\<exists>ws. W x z ws \<and> reader_at (advance r (length vs)) ws \<and> r' = advance r (length vs + length ws))"
    if "reader_at r vs" for x vs
    using assms(2) [of x] reader_wf_advance [OF wf that] by (simp add: reads_def)
  have "read_bind f g r = Inr (z, r') \<longleftrightarrow> (\<exists>x vs. V x vs \<and> reader_at r vs \<and> g x (advance r (length vs)) = Inr (z, r'))"
    unfolding read_bind_def and_then_Inr using f by auto
  also have "\<dots> \<longleftrightarrow> (\<exists>x vs ws. V x vs \<and> reader_at r vs \<and> W x z ws \<and> reader_at (advance r (length vs)) ws \<and>
      r' = advance r (length vs + length ws))"
    using g by blast
  also have "\<dots> \<longleftrightarrow> (\<exists>bs. (\<exists>x vs ws. V x vs \<and> W x z ws \<and> bs = vs @ ws) \<and> reader_at r bs \<and> r' = advance r (length bs))"
    by (metis (no_types, lifting) length_append reader_at_append)
  finally show "read_bind f g r = Inr (z, r') \<longleftrightarrow>
      (\<exists>bs. (\<exists>x vs ws. V x vs \<and> W x z ws \<and> bs = vs @ ws) \<and> reader_at r bs \<and> r' = advance r (length bs))" .
qed

lemma reads_if [wire_reads]:
  assumes "c \<Longrightarrow> reads f V" "\<not> c \<Longrightarrow> reads g W"
  shows "reads (if c then f else g) (\<lambda>x bs. c \<and> V x bs \<or> \<not> c \<and> W x bs)"
  using assms by simp

lemma reads_take [wire_reads]: "reads (reader_take n) (\<lambda>x bs. x = bs \<and> length bs = n)"
  unfolding reads_def
proof (intro allI impI)
  fix r x r'
  assume wf: "reader_wf r"
  let ?B = "wr_bytes r" and ?c = "wr_cursor r"
  have at: "reader_at r x \<and> length x = n \<longleftrightarrow> ?c + n \<le> length ?B \<and> x = take n (drop ?c ?B)"
  proof
    assume "reader_at r x \<and> length x = n"
    then obtain rest where rest: "drop ?c ?B = x @ rest" "length x = n" "reader_at r x" by (auto simp: reader_at_def)
    have "?c + n \<le> length ?B" using reader_at_room [OF rest(3)] rest(2) wf by (simp add: reader_wf_def)
    with rest(1,2) show "?c + n \<le> length ?B \<and> x = take n (drop ?c ?B)" by auto
  next
    assume "?c + n \<le> length ?B \<and> x = take n (drop ?c ?B)"
    then show "reader_at r x \<and> length x = n"
      by (auto simp: reader_at_def intro!: exI [of _ "drop n (drop ?c ?B)"] simp del: drop_drop)
  qed
  have "reader_take n r = Inr (x, r') \<longleftrightarrow> ?c + n \<le> length ?B \<and> x = take n (drop ?c ?B) \<and> r' = advance r n"
    using wf by (auto simp: reader_take_def reader_wf_def advance_def and_then_Inr split: if_splits)
  with at show "reader_take n r = Inr (x, r') \<longleftrightarrow>
      (\<exists>bs. (x = bs \<and> length bs = n) \<and> reader_at r bs \<and> r' = advance r (length bs))"
    by auto
qed

text \<open>A whole payload: the decoder, which must end at the end of the buffer.\<close>

definition run_reader :: "'a reading \<Rightarrow> bytes \<Rightarrow> protocol_error + 'a" where
  "run_reader f bs = and_then (f (reader_new bs)) (\<lambda>(x, r). and_then (reader_finish r) (\<lambda>_. Inr x))"

lemma run_reader_Inr:
  assumes "reads f form" "length bs \<le> u64_max"
  shows "run_reader f bs = Inr x \<longleftrightarrow> form x bs"
proof -
  have wf: "reader_wf (reader_new bs)" using assms(2) by (simp add: reader_wf_def reader_new_def)
  have at: "reader_at (reader_new bs) cs \<and> length cs = length bs \<longleftrightarrow> cs = bs" for cs
    by (auto simp: reader_at_def reader_new_def)
  have step: "f (reader_new bs) = Inr (x, r') \<longleftrightarrow>
      (\<exists>cs. form x cs \<and> reader_at (reader_new bs) cs \<and> r' = advance (reader_new bs) (length cs))" for r'
    using assms(1) wf by (simp add: reads_def)
  have "run_reader f bs = Inr x \<longleftrightarrow> (\<exists>r'. f (reader_new bs) = Inr (x, r') \<and> wr_cursor r' = length (wr_bytes r'))"
  proof (cases "f (reader_new bs)")
    case (Inr p)
    then show ?thesis
      by (cases p) (simp add: run_reader_def reader_finish_def ensure_def)
  qed (simp add: run_reader_def)
  also have "\<dots> \<longleftrightarrow> (\<exists>cs. form x cs \<and> reader_at (reader_new bs) cs \<and> length cs = length bs)"
    unfolding step by (auto simp: advance_def reader_new_def)
  finally show ?thesis unfolding at by simp
qed

section \<open>The contract of one field\<close>

locale wire_format =
  fixes get :: "'a reading" and form :: "'a \<Rightarrow> bytes \<Rightarrow> bool"
  assumes exact: "reads get form"
begin

text \<open>What was written is read back, wherever it lies, and the reader stops behind it.\<close>

lemma read_back:
  assumes "form x bs" "length (pre @ bs @ post) \<le> u64_max"
  shows "get \<lparr>wr_bytes = pre @ bs @ post, wr_cursor = length pre\<rparr> =
    Inr (x, \<lparr>wr_bytes = pre @ bs @ post, wr_cursor = length pre + length bs\<rparr>)"
proof -
  let ?r = "\<lparr>wr_bytes = pre @ bs @ post, wr_cursor = length pre\<rparr>"
  have "reader_wf ?r" "reader_at ?r bs" using assms(2) by (simp_all add: reader_wf_def reader_at_def)
  with exact assms(1) show ?thesis by (auto simp: reads_def advance_def)
qed

text \<open>No encoding of a value is the beginning of an encoding of another.\<close>

lemma prefix_free:
  assumes "form x bs" "form y (bs @ rest)" "length (bs @ rest) \<le> u64_max"
  shows "x = y \<and> rest = []"
  using read_back [of x bs "[]" rest] read_back [of y "bs @ rest" "[]" "[]"] assms by simp

end

section \<open>The contract of a payload\<close>

locale payload_format =
  fixes encode :: "'m \<Rightarrow> protocol_error + bytes" and decode :: "bytes \<Rightarrow> protocol_error + 'm" and fits :: "'m \<Rightarrow> bool"
  assumes decode_iff: "length bs \<le> u64_max \<Longrightarrow> decode bs = Inr m \<longleftrightarrow> fits m \<and> encode m = Inr bs"
begin

lemma round_trip: "encode m = Inr bs \<Longrightarrow> fits m \<Longrightarrow> length bs \<le> u64_max \<Longrightarrow> decode bs = Inr m"
  by (simp add: decode_iff)

lemma canonical: "decode bs = Inr m \<Longrightarrow> length bs \<le> u64_max \<Longrightarrow> encode m = Inr bs"
  by (simp add: decode_iff)

lemma decoded_once: "decode bs = Inr m \<Longrightarrow> decode cs = Inr m \<Longrightarrow> length bs \<le> u64_max \<Longrightarrow> length cs \<le> u64_max \<Longrightarrow> bs = cs"
  by (metis canonical sum.inject(2))

lemma refused_iff: "length bs \<le> u64_max \<Longrightarrow> (\<exists>e. decode bs = Inl e) \<longleftrightarrow> \<not> (\<exists>m. fits m \<and> encode m = Inr bs)"
  by (metis decode_iff obj_sumE sum.distinct(1))

end

section \<open>The primitive fields\<close>

lemma reads_u8 [wire_reads]: "reads get_u8 (\<lambda>x bs. bs = put_u8 x)"
  unfolding get_u8_def
  by (rule reads_cong, (rule wire_reads)+) (auto simp: put_u8_def length_Suc_conv)

lemma reads_bool [wire_reads]: "reads get_bool (\<lambda>x bs. bs = put_bool x)"
  unfolding get_bool_def
  by (rule reads_cong, (rule wire_reads)+) (auto simp: put_bool_def put_u8_def)

lemma reads_word:
  assumes "LENGTH('a::len) = 8 * k"
  shows "reads (read_bind (reader_take k) (\<lambda>bs. read_ok (from_le_bytes bs :: 'a word))) (\<lambda>x bs. bs = to_le_bytes x)"
  by (rule reads_cong, (rule wire_reads)+) (use assms word_as_bytes [OF assms] in auto)

lemma reads_u16 [wire_reads]: "reads get_u16 (\<lambda>x bs. bs = put_u16 x)"
  unfolding get_u16_def put_u16_def by (rule reads_word) simp

lemma reads_u32 [wire_reads]: "reads get_u32 (\<lambda>x bs. bs = put_u32 x)"
  unfolding get_u32_def put_u32_def by (rule reads_word) simp

lemma reads_u64 [wire_reads]: "reads get_u64 (\<lambda>x bs. bs = put_u64 x)"
  unfolding get_u64_def put_u64_def by (rule reads_word) simp

lemma reads_u128 [wire_reads]: "reads get_u128 (\<lambda>x bs. bs = put_u128 x)"
  unfolding get_u128_def put_u128_def by (rule reads_word) simp

lemma u32_length: "unat (of_nat n :: 32 word) = n \<longleftrightarrow> n \<le> u32_max"
proof -
  have "unat (of_nat n :: 32 word) = n mod 2 ^ 32" by (simp add: unat_of_nat take_bit_eq_mod)
  then show ?thesis by (auto simp: u32_max_def mod_eq_self_iff_div_eq_0 div_eq_0_iff)
qed

lemma u32_of_length: "unat (w :: 32 word) = n \<longleftrightarrow> w = of_nat n \<and> n \<le> u32_max"
  using u32_length [of n] u32_length [of "unat w"] by auto

lemma reads_counted:
  assumes "\<And>n. reads (f n) (W n)"
  shows "reads (read_bind get_u32 (\<lambda>w. f (unat w))) (\<lambda>x bs. \<exists>n ws. n \<le> u32_max \<and> W n x ws \<and> bs = put_u32 (of_nat n) @ ws)"
  by (rule reads_cong, rule reads_bind, rule reads_u32, rule assms) (metis u32_of_length)

lemma bytes_str_bytes [simp]: "bytes_str (str_bytes s) = s"
  by (simp add: bytes_str_eq)

lemma if_Inr: "(if c then Inr a else Inl e) = Inr x \<longleftrightarrow> c \<and> a = x"
  by simp

lemma reads_bytes [wire_reads]: "reads (get_bytes maximum) (\<lambda>x bs. length x \<le> maximum \<and> put_bytes x = Inr bs)"
  unfolding get_bytes_def
  by (rule reads_cong, rule reads_counted, (rule wire_reads)+) (auto simp: put_bytes_def not_less)

lemma reads_string [wire_reads]:
  "reads (get_string maximum) (\<lambda>x bs. is_utf8 x \<and> length x \<le> maximum \<and> put_string x = Inr bs)"
  unfolding get_string_def
  by (rule reads_cong, rule reads_counted, (rule wire_reads)+)
    (auto simp: put_string_def not_less if_Inr bytes_str_eq)

lemma put_u16_length [simp]: "length (put_u16 u) = 2"
  by (simp add: put_u16_def)

lemma chunk_units_iff: "length bs = 2 * k \<Longrightarrow> chunk_units bs = us \<longleftrightarrow> bs = concat (map put_u16 us) \<and> length us = k"
proof (induction bs arbitrary: us k rule: chunk_units.induct)
  case (1 a b bs)
  then obtain j where j: "k = Suc j" "length bs = 2 * j" by (cases k) auto
  have "from_le_bytes [a, b] = u \<longleftrightarrow> [a, b] = put_u16 u" for u
    unfolding put_u16_def by (rule word_as_bytes [where k = 2]) simp_all
  moreover have "a # b # bs = put_u16 u @ rest \<longleftrightarrow> [a, b] = put_u16 u \<and> bs = rest" for u rest
    using append_eq_append_conv [of "[a, b]" "put_u16 u" bs rest] by simp
  ultimately show ?case using 1(1) [OF j(2)] j(1) by (cases us) auto
qed (auto simp: length_Suc_conv)

lemma units_length: "length (concat (map put_u16 us)) = 2 * length us"
  by (induction us) auto

lemma reads_storage_string [wire_reads]:
  "reads (get_storage_string maximum) (\<lambda>x bs. length x * 2 \<le> saturating_mul maximum 2 \<and> put_storage_string x = Inr bs)"
  unfolding get_storage_string_def
proof (rule reads_cong, rule reads_counted, (rule wire_reads)+)
  fix us :: storage_string and bs :: bytes
  let ?m = "saturating_mul maximum 2"
  let ?at = "\<lambda>n ws. length ws = n \<and> chunk_units ws = us"
  have "even n \<and> ?at n ws \<longleftrightarrow> ws = concat (map put_u16 us) \<and> n = length us * 2" for n ws
  proof (cases "even n")
    case True
    then obtain k where "n = 2 * k" by (elim evenE)
    with chunk_units_iff [of ws k us] units_length [of us] show ?thesis by auto
  qed auto
  then have "(\<exists>n ws. n \<le> u32_max \<and> \<not> ?m < n \<and> (even n \<and> ?at n ws) \<and> bs = put_u32 (of_nat n) @ ws) \<longleftrightarrow>
      length us * 2 \<le> ?m \<and> put_storage_string us = Inr bs"
    by (auto simp: put_storage_string_def not_less)
  moreover have "(\<exists>n ws. n \<le> u32_max \<and> \<not> ?m < n \<and> (even n \<and> ?at n ws) \<and> bs = put_u32 (of_nat n) @ ws) \<longleftrightarrow>
    (\<exists>n ws. n \<le> u32_max \<and>
       ((?m < n \<or> odd n) \<and> Inl (InvalidPayload ''storage string budget or encoding'') = Inr us \<and> ws = [] \<or>
        \<not> (?m < n \<or> odd n) \<and>
        (\<exists>x vs wsa. (x = vs \<and> length vs = n) \<and> (Inr (chunk_units x) = Inr us \<and> wsa = []) \<and> ws = vs @ wsa)) \<and>
       bs = put_u32 (of_nat n) @ ws)"
    by auto
  ultimately show "(\<exists>n ws. n \<le> u32_max \<and>
       ((?m < n \<or> odd n) \<and> Inl (InvalidPayload ''storage string budget or encoding'') = Inr us \<and> ws = [] \<or>
        \<not> (?m < n \<or> odd n) \<and>
        (\<exists>x vs wsa. (x = vs \<and> length vs = n) \<and> (Inr (chunk_units x) = Inr us \<and> wsa = []) \<and> ws = vs @ wsa)) \<and>
       bs = put_u32 (of_nat n) @ ws) = (length us * 2 \<le> ?m \<and> put_storage_string us = Inr bs)"
    by simp
qed

section \<open>Options and lists\<close>

definition read_map :: "('a \<Rightarrow> 'b) \<Rightarrow> 'a reading \<Rightarrow> 'b reading" where
  "read_map g f = read_bind f (\<lambda>x. read_ok (g x))"

lemma reads_map [wire_reads]: "reads f V \<Longrightarrow> reads (read_map g f) (\<lambda>z bs. \<exists>x. V x bs \<and> z = g x)"
  unfolding read_map_def by (rule reads_cong, rule reads_bind, assumption, rule reads_result) auto

definition put_optional :: "('a \<Rightarrow> protocol_error + bytes) \<Rightarrow> 'a option \<Rightarrow> protocol_error + bytes" where
  "put_optional put v = (case v of None \<Rightarrow> Inr (put_bool False) | Some x \<Rightarrow> and_then (put x) (\<lambda>b. Inr (put_bool True @ b)))"

definition get_optional :: "'a reading \<Rightarrow> 'a option reading" where
  "get_optional f = read_bind get_bool (\<lambda>p. if p then read_map Some f else read_ok None)"

lemma reads_optional:
  assumes "reads f (\<lambda>x bs. ok x \<and> put x = Inr bs)"
  shows "reads (get_optional f) (\<lambda>v bs. pred_option ok v \<and> put_optional put v = Inr bs)"
  unfolding get_optional_def
  by (rule reads_cong, (rule assms wire_reads)+)
    (auto simp: put_optional_def result_simps split: option.splits)

fun read_times :: "nat \<Rightarrow> 'a reading \<Rightarrow> 'a list reading" where
  "read_times 0 f = read_ok []"
| "read_times (Suc n) f = read_bind f (\<lambda>x. read_map ((#) x) (read_times n f))"

fun put_each :: "('a \<Rightarrow> protocol_error + bytes) \<Rightarrow> 'a list \<Rightarrow> protocol_error + bytes" where
  "put_each put [] = Inr []"
| "put_each put (x # xs) = and_then (put x) (\<lambda>b. and_then (put_each put xs) (\<lambda>bs. Inr (b @ bs)))"

lemma reads_times:
  assumes "reads f (\<lambda>x bs. ok x \<and> put x = Inr bs)"
  shows "reads (read_times n f) (\<lambda>xs bs. length xs = n \<and> list_all ok xs \<and> put_each put xs = Inr bs)"
proof (induction n)
  case 0
  show ?case unfolding read_times.simps by (rule reads_cong, rule reads_result) auto
next
  case (Suc n)
  show ?case
    unfolding read_times.simps
    by (rule reads_cong, rule reads_bind, rule assms, rule reads_map, rule Suc)
      (auto simp: result_simps length_Suc_conv)
qed

text \<open>A count, checked against its bounds, and then that many elements.\<close>

lemma reads_list:
  fixes get :: "'w::len word reading"
  assumes count: "reads get (\<lambda>w bs. bs = putw w)" and elements: "reads f (\<lambda>x bs. ok x \<and> put x = Inr bs)"
    and range: "\<And>n. \<not> bad n \<Longrightarrow> n < 2 ^ LENGTH('w)"
  shows "reads (read_bind get (\<lambda>w. if bad (unat w) then read_fail e else read_times (unat w) f))
    (\<lambda>xs bs. (\<not> bad (length xs) \<and> list_all ok xs) \<and>
       and_then (put_each put xs) (\<lambda>b. Inr (putw (of_nat (length xs)) @ b)) = Inr bs)"
  apply (rule reads_cong, (rule count reads_times [OF elements] wire_reads)+)
  subgoal for xs bs
  proof -
    have n: "unat (of_nat n :: 'w word) = n" if "\<not> bad n" for n
      using range [OF that] by (simp add: unat_of_nat take_bit_eq_mod)
    have "(\<exists>w :: 'w word. \<not> bad (unat w) \<and> length xs = unat w \<and> P (unat w) w) \<longleftrightarrow> \<not> bad (length xs) \<and> P (length xs) (of_nat (length xs))" for P
      using n [of "length xs"] by (metis of_nat_unat ucast_id)
    from this [of "\<lambda>n w. list_all ok xs \<and> (\<exists>b. put_each put xs = Inr b \<and> bs = putw w @ b)"]
    show ?thesis by (auto simp: result_simps)
  qed
  done

section \<open>The fields as formats\<close>

interpretation wire_u8: wire_format get_u8 "\<lambda>x bs. bs = put_u8 x" by unfold_locales (rule reads_u8)
interpretation wire_bool: wire_format get_bool "\<lambda>x bs. bs = put_bool x" by unfold_locales (rule reads_bool)
interpretation wire_u16: wire_format get_u16 "\<lambda>x bs. bs = put_u16 x" by unfold_locales (rule reads_u16)
interpretation wire_u32: wire_format get_u32 "\<lambda>x bs. bs = put_u32 x" by unfold_locales (rule reads_u32)
interpretation wire_u64: wire_format get_u64 "\<lambda>x bs. bs = put_u64 x" by unfold_locales (rule reads_u64)
interpretation wire_u128: wire_format get_u128 "\<lambda>x bs. bs = put_u128 x" by unfold_locales (rule reads_u128)
interpretation wire_string: wire_format "get_string n" "\<lambda>x bs. is_utf8 x \<and> length x \<le> n \<and> put_string x = Inr bs" for n
  by unfold_locales (rule reads_string)
interpretation wire_bytes: wire_format "get_bytes n" "\<lambda>x bs. length x \<le> n \<and> put_bytes x = Inr bs" for n
  by unfold_locales (rule reads_bytes)
interpretation wire_storage_string: wire_format "get_storage_string n"
    "\<lambda>x bs. length x * 2 \<le> saturating_mul n 2 \<and> put_storage_string x = Inr bs" for n
  by unfold_locales (rule reads_storage_string)

end
