(* ===== verification/Ipc_Fields.thy ===== *)
theory Ipc_Fields
  imports Wire_Format Fetch_Types Float64 Url_Resolution
begin

text \<open>
  Fields shared by the messages of \<^verbatim>\<open>src/renderer_protocol\<close> (document and request identifiers, the client a
  request is made for, enumerations) and the shape of most payloads: validated, then written field by field;
  read field by field to the end of the payload, then validated.
\<close>

type_synonym u64 = "64 word"
type_synonym u32 = "32 word"

text \<open>\<^verbatim>\<open>DocumentId\<close>: its constructor refuses zero.\<close>

definition document_id_new :: "u64 \<Rightarrow> protocol_error + u64" where
  "document_id_new v = (if v \<noteq> 0 then Inr v else Inl (InvalidPayload ''zero document identifier''))"

definition get_document_id :: "u64 reading" where
  "get_document_id = read_bind get_u64 (\<lambda>v. read_result (document_id_new v))"

definition put_client :: "request_client \<Rightarrow> bytes" where
  "put_client c = put_u64 (of_nat (rc_id c)) @ put_bool (rc_opaque c)"

definition get_client :: "request_client reading" where
  "get_client = read_bind get_u64 (\<lambda>i. read_bind get_bool (\<lambda>b. read_ok \<lparr>rc_id = unat i, rc_opaque = b\<rparr>))"

text \<open>The range of the identifier's type.\<close>

definition client_fits :: "request_client \<Rightarrow> bool" where
  "client_fits c \<longleftrightarrow> rc_id c \<le> u64_max"

section \<open>Payloads with a validator\<close>

definition encode_checked :: "('m \<Rightarrow> protocol_error + unit) \<Rightarrow> ('m \<Rightarrow> protocol_error + bytes) \<Rightarrow> 'm \<Rightarrow> protocol_error + bytes" where
  "encode_checked validate put m = and_then (validate m) (\<lambda>_. put m)"

definition decode_checked :: "('m \<Rightarrow> protocol_error + unit) \<Rightarrow> 'm reading \<Rightarrow> bytes \<Rightarrow> protocol_error + 'm" where
  "decode_checked validate get bs = and_then (run_reader get bs) (\<lambda>m. and_then (validate m) (\<lambda>_. Inr m))"

definition valid_when :: "bool \<Rightarrow> string \<Rightarrow> protocol_error + unit" where
  "valid_when c e = ensure c (InvalidPayload e)"

lemma valid_when_Inr [simp]: "valid_when c e = Inr u \<longleftrightarrow> c"
  by (simp add: valid_when_def)

lemma checked_format:
  assumes "reads get (\<lambda>m bs. fits m \<and> put m = Inr bs)"
  shows "payload_format (encode_checked validate put) (decode_checked validate get) fits"
  by unfold_locales (auto simp: encode_checked_def decode_checked_def result_simps run_reader_Inr [OF assms])

section \<open>Facts\<close>

lemma reads_document_id [wire_reads]: "reads get_document_id (\<lambda>x bs. x \<noteq> 0 \<and> bs = put_u64 x)"
  unfolding get_document_id_def
  by (rule reads_cong, (rule wire_reads)+) (auto simp: document_id_new_def)

lemma u64_of_nat: "unat (w :: u64) = n \<longleftrightarrow> w = of_nat n \<and> n \<le> u64_max"
proof -
  have "unat (of_nat n :: u64) = n mod 2 ^ 64" by (simp add: unat_of_nat take_bit_eq_mod)
  moreover have "unat w \<le> u64_max" using word_bound [of w] by (simp add: limit_simps)
  ultimately show ?thesis by (auto simp: u64_max_def mod_eq_self_iff_div_eq_0 div_eq_0_iff)
qed

lemma reads_client [wire_reads]: "reads get_client (\<lambda>x bs. client_fits x \<and> bs = put_client x)"
  unfolding get_client_def
  apply (rule reads_cong, (rule wire_reads)+)
  subgoal for x bs
    by (cases x) (auto simp: put_client_def client_fits_def eq_commute [of _ "unat _"] u64_of_nat)
  done

end
