(* ===== verification/Ipc_Services.thy ===== *)
theory Ipc_Services
  imports Ipc_Fields
begin

text \<open>
  Requests of documents to browser services and the browser's updates: wake locks, permissions, protocol
  handlers, notifications, media devices, the clipboard and geolocation, with their validation
  (\<^verbatim>\<open>src/renderer_protocol\<close>) and codecs (\<^verbatim>\<open>codec/payload\<close>).
\<close>

section \<open>Wake locks\<close>

datatype wake_lock_action = WakeAcquire | WakeRelease

fun wake_lock_action_tag :: "wake_lock_action \<Rightarrow> 8 word" where
  "wake_lock_action_tag WakeAcquire = 1"
| "wake_lock_action_tag WakeRelease = 2"

definition get_wake_lock_action :: "wake_lock_action reading" where
  "get_wake_lock_action = read_bind get_u8 (\<lambda>t.
     if t = 1 then read_ok WakeAcquire
     else if t = 2 then read_ok WakeRelease
     else read_fail ''wake lock action'')"

datatype wake_lock_disposition = WakeGranted | WakeDenied | WakeReleased

fun wake_lock_disposition_tag :: "wake_lock_disposition \<Rightarrow> 8 word" where
  "wake_lock_disposition_tag WakeGranted = 1"
| "wake_lock_disposition_tag WakeDenied = 2"
| "wake_lock_disposition_tag WakeReleased = 3"

definition get_wake_lock_disposition :: "wake_lock_disposition reading" where
  "get_wake_lock_disposition = read_bind get_u8 (\<lambda>t.
     if t = 1 then read_ok WakeGranted
     else if t = 2 then read_ok WakeDenied
     else if t = 3 then read_ok WakeReleased
     else read_fail ''wake lock disposition'')"

record wake_lock_request =
  wlr_document :: u64
  wlr_request_id :: u64
  wlr_client :: request_client
  wlr_action :: wake_lock_action

definition validate_wake_lock_request :: "wake_lock_request \<Rightarrow> protocol_error + unit" where
  "validate_wake_lock_request m =
     valid_when (wlr_request_id m \<noteq> 0) ''wake lock request id''"

definition put_wake_lock_request :: "wake_lock_request \<Rightarrow> protocol_error + bytes" where
  "put_wake_lock_request m =
     Inr (put_u64 (wlr_document m) @ put_u64 (wlr_request_id m) @ put_client (wlr_client m) @
         put_u8 (wake_lock_action_tag (wlr_action m)))"

definition get_wake_lock_request :: "wake_lock_request reading" where
  "get_wake_lock_request =
     read_bind get_document_id (\<lambda>document. read_bind get_u64 (\<lambda>request_id.
     read_bind get_client (\<lambda>client. read_bind get_wake_lock_action (\<lambda>action.
       read_ok \<lparr>wlr_document = document, wlr_request_id = request_id, wlr_client = client, wlr_action = action\<rparr>))))"

definition wake_lock_request_fits :: "wake_lock_request \<Rightarrow> bool" where
  "wake_lock_request_fits m \<longleftrightarrow> (wlr_document m) \<noteq> 0 \<and> client_fits (wlr_client m)"

definition encode_wake_lock_request :: "wake_lock_request \<Rightarrow> protocol_error + bytes" where
  "encode_wake_lock_request = encode_checked validate_wake_lock_request put_wake_lock_request"

definition decode_wake_lock_request :: "bytes \<Rightarrow> protocol_error + wake_lock_request" where
  "decode_wake_lock_request = decode_checked validate_wake_lock_request get_wake_lock_request"

record wake_lock_update =
  wlu_document :: u64
  wlu_request_id :: u64
  wlu_disposition :: wake_lock_disposition

definition validate_wake_lock_update :: "wake_lock_update \<Rightarrow> protocol_error + unit" where
  "validate_wake_lock_update m =
     valid_when (wlu_request_id m \<noteq> 0) ''wake lock update id''"

definition put_wake_lock_update :: "wake_lock_update \<Rightarrow> protocol_error + bytes" where
  "put_wake_lock_update m =
     Inr (put_u64 (wlu_document m) @ put_u64 (wlu_request_id m) @
         put_u8 (wake_lock_disposition_tag (wlu_disposition m)))"

definition get_wake_lock_update :: "wake_lock_update reading" where
  "get_wake_lock_update =
     read_bind get_document_id (\<lambda>document. read_bind get_u64 (\<lambda>request_id.
     read_bind get_wake_lock_disposition (\<lambda>disposition.
       read_ok \<lparr>wlu_document = document, wlu_request_id = request_id, wlu_disposition = disposition\<rparr>)))"

definition wake_lock_update_fits :: "wake_lock_update \<Rightarrow> bool" where
  "wake_lock_update_fits m \<longleftrightarrow> (wlu_document m) \<noteq> 0"

definition encode_wake_lock_update :: "wake_lock_update \<Rightarrow> protocol_error + bytes" where
  "encode_wake_lock_update = encode_checked validate_wake_lock_update put_wake_lock_update"

definition decode_wake_lock_update :: "bytes \<Rightarrow> protocol_error + wake_lock_update" where
  "decode_wake_lock_update = decode_checked validate_wake_lock_update get_wake_lock_update"

section \<open>Permissions\<close>

datatype permission_name = Notifications | Geolocation | ClipboardRead | ClipboardWrite | PermitAccelerometer | PermitGyroscope | PermitMagnetometer | PermitAmbientLight

fun permission_name_tag :: "permission_name \<Rightarrow> 8 word" where
  "permission_name_tag Notifications = 1"
| "permission_name_tag Geolocation = 2"
| "permission_name_tag ClipboardRead = 8"
| "permission_name_tag ClipboardWrite = 9"
| "permission_name_tag PermitAccelerometer = 4"
| "permission_name_tag PermitGyroscope = 5"
| "permission_name_tag PermitMagnetometer = 6"
| "permission_name_tag PermitAmbientLight = 7"

definition get_permission_name :: "permission_name reading" where
  "get_permission_name = read_bind get_u8 (\<lambda>t.
     if t = 1 then read_ok Notifications
     else if t = 2 then read_ok Geolocation
     else if t = 8 then read_ok ClipboardRead
     else if t = 9 then read_ok ClipboardWrite
     else if t = 4 then read_ok PermitAccelerometer
     else if t = 5 then read_ok PermitGyroscope
     else if t = 6 then read_ok PermitMagnetometer
     else if t = 7 then read_ok PermitAmbientLight
     else read_fail ''permission name'')"

datatype permission_state = Prompt | Granted | Denied

fun permission_state_tag :: "permission_state \<Rightarrow> 8 word" where
  "permission_state_tag Prompt = 1"
| "permission_state_tag Granted = 2"
| "permission_state_tag Denied = 3"

definition get_permission_state :: "permission_state reading" where
  "get_permission_state = read_bind get_u8 (\<lambda>t.
     if t = 1 then read_ok Prompt
     else if t = 2 then read_ok Granted
     else if t = 3 then read_ok Denied
     else read_fail ''permission state'')"

record permission_request =
  pmr_document :: u64
  pmr_request_id :: u64
  pmr_client :: request_client
  pmr_embedded :: bool
  pmr_name :: permission_name

definition validate_permission_request :: "permission_request \<Rightarrow> protocol_error + unit" where
  "validate_permission_request m =
     valid_when (pmr_request_id m \<noteq> 0 \<and> unat (pmr_request_id m) \<le> u32_max) ''permission query''"

definition put_permission_request :: "permission_request \<Rightarrow> protocol_error + bytes" where
  "put_permission_request m =
     Inr (put_u64 (pmr_document m) @ put_u64 (pmr_request_id m) @ put_client (pmr_client m) @
         put_bool (pmr_embedded m) @ put_u8 (permission_name_tag (pmr_name m)))"

definition get_permission_request :: "permission_request reading" where
  "get_permission_request =
     read_bind get_document_id (\<lambda>document. read_bind get_u64 (\<lambda>request_id.
     read_bind get_client (\<lambda>client. read_bind get_bool (\<lambda>embedded.
     read_bind get_permission_name (\<lambda>name.
       read_ok \<lparr>pmr_document = document, pmr_request_id = request_id, pmr_client = client, pmr_embedded = embedded, pmr_name = name\<rparr>)))))"

definition permission_request_fits :: "permission_request \<Rightarrow> bool" where
  "permission_request_fits m \<longleftrightarrow> (pmr_document m) \<noteq> 0 \<and> client_fits (pmr_client m)"

definition encode_permission_request :: "permission_request \<Rightarrow> protocol_error + bytes" where
  "encode_permission_request = encode_checked validate_permission_request put_permission_request"

definition decode_permission_request :: "bytes \<Rightarrow> protocol_error + permission_request" where
  "decode_permission_request = decode_checked validate_permission_request get_permission_request"

record permission_update =
  pmu_document :: u64
  pmu_request_id :: u64
  pmu_name :: permission_name
  pmu_state :: permission_state
  pmu_rejected :: bool

definition validate_permission_update :: "permission_update \<Rightarrow> protocol_error + unit" where
  "validate_permission_update m =
     valid_when (pmu_request_id m \<noteq> 0 \<and> unat (pmu_request_id m) \<le> u32_max) ''permission update''"

definition put_permission_update :: "permission_update \<Rightarrow> protocol_error + bytes" where
  "put_permission_update m =
     Inr (put_u64 (pmu_document m) @ put_u64 (pmu_request_id m) @ put_u8 (permission_name_tag (pmu_name m)) @
         put_u8 (permission_state_tag (pmu_state m)) @ put_bool (pmu_rejected m))"

definition get_permission_update :: "permission_update reading" where
  "get_permission_update =
     read_bind get_document_id (\<lambda>document. read_bind get_u64 (\<lambda>request_id.
     read_bind get_permission_name (\<lambda>name. read_bind get_permission_state (\<lambda>state.
     read_bind get_bool (\<lambda>rejected.
       read_ok \<lparr>pmu_document = document, pmu_request_id = request_id, pmu_name = name, pmu_state = state, pmu_rejected = rejected\<rparr>)))))"

definition permission_update_fits :: "permission_update \<Rightarrow> bool" where
  "permission_update_fits m \<longleftrightarrow> (pmu_document m) \<noteq> 0"

definition encode_permission_update :: "permission_update \<Rightarrow> protocol_error + bytes" where
  "encode_permission_update = encode_checked validate_permission_update put_permission_update"

definition decode_permission_update :: "bytes \<Rightarrow> protocol_error + permission_update" where
  "decode_permission_update = decode_checked validate_permission_update get_permission_update"

section \<open>Protocol handlers\<close>

definition MAX_HANDLER_TEMPLATE_BYTES :: nat where [limit_simps]: "MAX_HANDLER_TEMPLATE_BYTES = 2 * 1024"

datatype protocol_handler_action = RegisterHandler | UnregisterHandler

fun protocol_handler_action_tag :: "protocol_handler_action \<Rightarrow> 8 word" where
  "protocol_handler_action_tag RegisterHandler = 1"
| "protocol_handler_action_tag UnregisterHandler = 2"

definition get_protocol_handler_action :: "protocol_handler_action reading" where
  "get_protocol_handler_action = read_bind get_u8 (\<lambda>t.
     if t = 1 then read_ok RegisterHandler
     else if t = 2 then read_ok UnregisterHandler
     else read_fail ''protocol handler action'')"

record protocol_handler_request =
  phr_document :: u64
  phr_client :: request_client
  phr_action :: protocol_handler_action
  phr_scheme :: string
  phr_template :: string

definition validate_protocol_handler_request :: "protocol_handler_request \<Rightarrow> protocol_error + unit" where
  "validate_protocol_handler_request m =
     valid_when (phr_scheme m \<noteq> [] \<and> length (phr_scheme m) \<le> MAX_HANDLER_SCHEME_BYTES
       \<and> length (phr_template m) \<le> MAX_HANDLER_TEMPLATE_BYTES \<and> phr_template m \<noteq> []) ''protocol handler parameters''"

definition put_protocol_handler_request :: "protocol_handler_request \<Rightarrow> protocol_error + bytes" where
  "put_protocol_handler_request m =
     and_then (put_string (phr_scheme m)) (\<lambda>b_scheme.
     and_then (put_string (phr_template m)) (\<lambda>b_template.
       Inr (put_u64 (phr_document m) @ put_client (phr_client m) @
         put_u8 (protocol_handler_action_tag (phr_action m)) @ b_scheme @ b_template)))"

definition get_protocol_handler_request :: "protocol_handler_request reading" where
  "get_protocol_handler_request =
     read_bind get_document_id (\<lambda>document. read_bind get_client (\<lambda>client.
     read_bind get_protocol_handler_action (\<lambda>action.
     read_bind (get_string MAX_HANDLER_SCHEME_BYTES) (\<lambda>scheme.
     read_bind (get_string MAX_HANDLER_TEMPLATE_BYTES) (\<lambda>template.
       read_ok \<lparr>phr_document = document, phr_client = client, phr_action = action, phr_scheme = scheme, phr_template = template\<rparr>)))))"

definition protocol_handler_request_fits :: "protocol_handler_request \<Rightarrow> bool" where
  "protocol_handler_request_fits m \<longleftrightarrow> (phr_document m) \<noteq> 0 \<and> client_fits (phr_client m) \<and> (is_utf8 (phr_scheme m) \<and> length (phr_scheme m) \<le> MAX_HANDLER_SCHEME_BYTES) \<and> (is_utf8 (phr_template m) \<and> length (phr_template m) \<le> MAX_HANDLER_TEMPLATE_BYTES)"

definition encode_protocol_handler_request :: "protocol_handler_request \<Rightarrow> protocol_error + bytes" where
  "encode_protocol_handler_request = encode_checked validate_protocol_handler_request put_protocol_handler_request"

definition decode_protocol_handler_request :: "bytes \<Rightarrow> protocol_error + protocol_handler_request" where
  "decode_protocol_handler_request = decode_checked validate_protocol_handler_request get_protocol_handler_request"

section \<open>Notifications\<close>

datatype notification_permission = NotifyDefault | NotifyGranted | NotifyDenied

datatype notification_action = AskNotifications | ShowNotification string string string | CloseNotification

datatype notification_event =
  NotifyPermission notification_permission | NotifyShown | NotifyClicked | NotifyClosed | NotifyError

definition MAX_NOTIFICATION_TITLE_BYTES :: nat where [limit_simps]: "MAX_NOTIFICATION_TITLE_BYTES = 512"

definition MAX_NOTIFICATION_BODY_BYTES :: nat where [limit_simps]: "MAX_NOTIFICATION_BODY_BYTES = 2 * 1024"

definition MAX_NOTIFICATION_TAG_BYTES :: nat where [limit_simps]: "MAX_NOTIFICATION_TAG_BYTES = 256"

definition put_notification_action :: "notification_action \<Rightarrow> protocol_error + bytes" where
  "put_notification_action a =
     (case a of
        AskNotifications \<Rightarrow>
          Inr (put_u8 1)
      | ShowNotification title body tag \<Rightarrow>
          and_then (put_string title) (\<lambda>b_title.
          and_then (put_string body) (\<lambda>b_body.
          and_then (put_string tag) (\<lambda>b_tag.
            Inr (put_u8 2 @ b_title @ b_body @ b_tag))))
      | CloseNotification \<Rightarrow>
          Inr (put_u8 3))"

definition get_notification_action :: "notification_action reading" where
  "get_notification_action = read_bind get_u8 (\<lambda>t.
     if t = 1 then read_ok AskNotifications
     else if t = 2 then
       read_bind (get_string MAX_NOTIFICATION_TITLE_BYTES) (\<lambda>title.
       read_bind (get_string MAX_NOTIFICATION_BODY_BYTES) (\<lambda>body.
       read_bind (get_string MAX_NOTIFICATION_TAG_BYTES) (\<lambda>tag.
         read_ok (ShowNotification title body tag))))
     else if t = 3 then read_ok CloseNotification
     else read_fail ''notification action'')"

definition notification_action_fits :: "notification_action \<Rightarrow> bool" where
  "notification_action_fits a = (case a of
     ShowNotification title body tag \<Rightarrow> (is_utf8 title \<and> length title \<le> MAX_NOTIFICATION_TITLE_BYTES) \<and> (is_utf8 body \<and> length body \<le> MAX_NOTIFICATION_BODY_BYTES) \<and> (is_utf8 tag \<and> length tag \<le> MAX_NOTIFICATION_TAG_BYTES)
   | _ \<Rightarrow> True)"

fun notification_event_tag :: "notification_event \<Rightarrow> 8 word" where
  "notification_event_tag (NotifyPermission NotifyDefault) = 1"
| "notification_event_tag (NotifyPermission NotifyGranted) = 2"
| "notification_event_tag (NotifyPermission NotifyDenied) = 3"
| "notification_event_tag NotifyShown = 4"
| "notification_event_tag NotifyClicked = 5"
| "notification_event_tag NotifyClosed = 6"
| "notification_event_tag NotifyError = 7"

definition get_notification_event :: "notification_event reading" where
  "get_notification_event = read_bind get_u8 (\<lambda>t.
     if t = 1 then read_ok (NotifyPermission NotifyDefault)
     else if t = 2 then read_ok (NotifyPermission NotifyGranted)
     else if t = 3 then read_ok (NotifyPermission NotifyDenied)
     else if t = 4 then read_ok NotifyShown
     else if t = 5 then read_ok NotifyClicked
     else if t = 6 then read_ok NotifyClosed
     else if t = 7 then read_ok NotifyError
     else read_fail ''notification event'')"

record notification_request =
  nfr_document :: u64
  nfr_request_id :: u64
  nfr_client :: request_client
  nfr_action :: notification_action

definition validate_notification_request :: "notification_request \<Rightarrow> protocol_error + unit" where
  "validate_notification_request m =
     and_then (valid_when (nfr_request_id m \<noteq> 0) ''notification request identifier'') (\<lambda>_.
       case nfr_action m of
         ShowNotification title body tag \<Rightarrow>
           valid_when (length title \<le> MAX_NOTIFICATION_TITLE_BYTES \<and> length body \<le> MAX_NOTIFICATION_BODY_BYTES
             \<and> length tag \<le> MAX_NOTIFICATION_TAG_BYTES) ''notification text''
       | _ \<Rightarrow> Inr ())"

definition put_notification_request :: "notification_request \<Rightarrow> protocol_error + bytes" where
  "put_notification_request m =
     and_then (put_notification_action (nfr_action m)) (\<lambda>b_action.
       Inr (put_u64 (nfr_document m) @ put_u64 (nfr_request_id m) @ put_client (nfr_client m) @ b_action))"

definition get_notification_request :: "notification_request reading" where
  "get_notification_request =
     read_bind get_document_id (\<lambda>document. read_bind get_u64 (\<lambda>request_id.
     read_bind get_client (\<lambda>client. read_bind get_notification_action (\<lambda>action.
       read_ok \<lparr>nfr_document = document, nfr_request_id = request_id, nfr_client = client, nfr_action = action\<rparr>))))"

definition notification_request_fits :: "notification_request \<Rightarrow> bool" where
  "notification_request_fits m \<longleftrightarrow> (nfr_document m) \<noteq> 0 \<and> client_fits (nfr_client m) \<and> notification_action_fits (nfr_action m)"

definition encode_notification_request :: "notification_request \<Rightarrow> protocol_error + bytes" where
  "encode_notification_request = encode_checked validate_notification_request put_notification_request"

definition decode_notification_request :: "bytes \<Rightarrow> protocol_error + notification_request" where
  "decode_notification_request = decode_checked validate_notification_request get_notification_request"

record notification_update =
  nfu_document :: u64
  nfu_request_id :: u64
  nfu_event :: notification_event

definition validate_notification_update :: "notification_update \<Rightarrow> protocol_error + unit" where
  "validate_notification_update m =
     valid_when (nfu_request_id m \<noteq> 0) ''notification update identifier''"

definition put_notification_update :: "notification_update \<Rightarrow> protocol_error + bytes" where
  "put_notification_update m =
     Inr (put_u64 (nfu_document m) @ put_u64 (nfu_request_id m) @ put_u8 (notification_event_tag (nfu_event m)))"

definition get_notification_update :: "notification_update reading" where
  "get_notification_update =
     read_bind get_document_id (\<lambda>document. read_bind get_u64 (\<lambda>request_id.
     read_bind get_notification_event (\<lambda>event.
       read_ok \<lparr>nfu_document = document, nfu_request_id = request_id, nfu_event = event\<rparr>)))"

definition notification_update_fits :: "notification_update \<Rightarrow> bool" where
  "notification_update_fits m \<longleftrightarrow> (nfu_document m) \<noteq> 0"

definition encode_notification_update :: "notification_update \<Rightarrow> protocol_error + bytes" where
  "encode_notification_update = encode_checked validate_notification_update put_notification_update"

definition decode_notification_update :: "bytes \<Rightarrow> protocol_error + notification_update" where
  "decode_notification_update = decode_checked validate_notification_update get_notification_update"

section \<open>Media devices\<close>

datatype media_device_error = DeviceNotAllowed | DeviceNotReadable

datatype media_device_result = DevicePresence bool bool | DeviceError media_device_error

definition put_media_device_result :: "media_device_result \<Rightarrow> protocol_error + bytes" where
  "put_media_device_result a =
     (case a of
        DevicePresence microphone camera \<Rightarrow>
          Inr (put_u8 1 @ put_bool microphone @ put_bool camera)
      | DeviceError DeviceNotAllowed \<Rightarrow>
          Inr (put_u8 2)
      | DeviceError DeviceNotReadable \<Rightarrow>
          Inr (put_u8 3))"

definition get_media_device_result :: "media_device_result reading" where
  "get_media_device_result = read_bind get_u8 (\<lambda>t.
     if t = 1 then
       read_bind get_bool (\<lambda>microphone. read_bind get_bool (\<lambda>camera.
         read_ok (DevicePresence microphone camera)))
     else if t = 2 then read_ok (DeviceError DeviceNotAllowed)
     else if t = 3 then read_ok (DeviceError DeviceNotReadable)
     else read_fail ''media-device update'')"

definition media_device_result_fits :: "media_device_result \<Rightarrow> bool" where
  "media_device_result_fits a = True"

record media_device_request =
  mdr_document :: u64
  mdr_request_id :: u64
  mdr_client :: request_client

definition validate_media_device_request :: "media_device_request \<Rightarrow> protocol_error + unit" where
  "validate_media_device_request m =
     valid_when (mdr_request_id m \<noteq> 0) ''media-device request identifier''"

definition put_media_device_request :: "media_device_request \<Rightarrow> protocol_error + bytes" where
  "put_media_device_request m =
     Inr (put_u64 (mdr_document m) @ put_u64 (mdr_request_id m) @ put_client (mdr_client m))"

definition get_media_device_request :: "media_device_request reading" where
  "get_media_device_request =
     read_bind get_document_id (\<lambda>document. read_bind get_u64 (\<lambda>request_id.
     read_bind get_client (\<lambda>client.
       read_ok \<lparr>mdr_document = document, mdr_request_id = request_id, mdr_client = client\<rparr>)))"

definition media_device_request_fits :: "media_device_request \<Rightarrow> bool" where
  "media_device_request_fits m \<longleftrightarrow> (mdr_document m) \<noteq> 0 \<and> client_fits (mdr_client m)"

definition encode_media_device_request :: "media_device_request \<Rightarrow> protocol_error + bytes" where
  "encode_media_device_request = encode_checked validate_media_device_request put_media_device_request"

definition decode_media_device_request :: "bytes \<Rightarrow> protocol_error + media_device_request" where
  "decode_media_device_request = decode_checked validate_media_device_request get_media_device_request"

record media_device_update =
  mdu_document :: u64
  mdu_request_id :: u64
  mdu_result :: media_device_result

definition validate_media_device_update :: "media_device_update \<Rightarrow> protocol_error + unit" where
  "validate_media_device_update m =
     valid_when (mdu_request_id m \<noteq> 0) ''media-device update identifier''"

definition put_media_device_update :: "media_device_update \<Rightarrow> protocol_error + bytes" where
  "put_media_device_update m =
     and_then (put_media_device_result (mdu_result m)) (\<lambda>b_result.
       Inr (put_u64 (mdu_document m) @ put_u64 (mdu_request_id m) @ b_result))"

definition get_media_device_update :: "media_device_update reading" where
  "get_media_device_update =
     read_bind get_document_id (\<lambda>document. read_bind get_u64 (\<lambda>request_id.
     read_bind get_media_device_result (\<lambda>result.
       read_ok \<lparr>mdu_document = document, mdu_request_id = request_id, mdu_result = result\<rparr>)))"

definition media_device_update_fits :: "media_device_update \<Rightarrow> bool" where
  "media_device_update_fits m \<longleftrightarrow> (mdu_document m) \<noteq> 0 \<and> media_device_result_fits (mdu_result m)"

definition encode_media_device_update :: "media_device_update \<Rightarrow> protocol_error + bytes" where
  "encode_media_device_update = encode_checked validate_media_device_update put_media_device_update"

definition decode_media_device_update :: "bytes \<Rightarrow> protocol_error + media_device_update" where
  "decode_media_device_update = decode_checked validate_media_device_update get_media_device_update"

section \<open>The clipboard\<close>

definition MAX_CLIPBOARD_TEXT_BYTES :: nat where [limit_simps]: "MAX_CLIPBOARD_TEXT_BYTES = 256 * 1024"

datatype clipboard_action = ReadText | WriteText string

datatype clipboard_value = ClipText string | ClipWritten

datatype clipboard_error = ClipNotAllowed | ClipNotFound | ClipNotReadable

type_synonym clipboard_result = "clipboard_error + clipboard_value"

definition put_clipboard_action :: "clipboard_action \<Rightarrow> protocol_error + bytes" where
  "put_clipboard_action a =
     (case a of
        ReadText \<Rightarrow>
          Inr (put_u8 1)
      | WriteText content \<Rightarrow>
          and_then (put_string content) (\<lambda>b_content.
            Inr (put_u8 2 @ b_content)))"

definition get_clipboard_action :: "clipboard_action reading" where
  "get_clipboard_action = read_bind get_u8 (\<lambda>t.
     if t = 1 then read_ok ReadText
     else if t = 2 then
       read_bind (get_string MAX_CLIPBOARD_TEXT_BYTES) (\<lambda>content.
         read_ok (WriteText content))
     else read_fail ''clipboard action'')"

definition clipboard_action_fits :: "clipboard_action \<Rightarrow> bool" where
  "clipboard_action_fits a = (case a of
     WriteText content \<Rightarrow> is_utf8 content \<and> length content \<le> MAX_CLIPBOARD_TEXT_BYTES
   | _ \<Rightarrow> True)"

definition put_clipboard_result :: "clipboard_result \<Rightarrow> protocol_error + bytes" where
  "put_clipboard_result a =
     (case a of
        Inr (ClipText content) \<Rightarrow>
          and_then (put_string content) (\<lambda>b_content.
            Inr (put_u8 1 @ b_content))
      | Inr ClipWritten \<Rightarrow>
          Inr (put_u8 2)
      | Inl ClipNotAllowed \<Rightarrow>
          Inr (put_u8 3)
      | Inl ClipNotFound \<Rightarrow>
          Inr (put_u8 4)
      | Inl ClipNotReadable \<Rightarrow>
          Inr (put_u8 5))"

definition get_clipboard_result :: "clipboard_result reading" where
  "get_clipboard_result = read_bind get_u8 (\<lambda>t.
     if t = 1 then
       read_bind (get_string MAX_CLIPBOARD_TEXT_BYTES) (\<lambda>content.
         read_ok (Inr (ClipText content)))
     else if t = 2 then read_ok (Inr ClipWritten)
     else if t = 3 then read_ok (Inl ClipNotAllowed)
     else if t = 4 then read_ok (Inl ClipNotFound)
     else if t = 5 then read_ok (Inl ClipNotReadable)
     else read_fail ''clipboard result'')"

definition clipboard_result_fits :: "clipboard_result \<Rightarrow> bool" where
  "clipboard_result_fits a = (case a of
     Inr (ClipText content) \<Rightarrow> is_utf8 content \<and> length content \<le> MAX_CLIPBOARD_TEXT_BYTES
   | _ \<Rightarrow> True)"

record clipboard_request =
  cbr_document :: u64
  cbr_request_id :: u64
  cbr_client :: request_client
  cbr_action :: clipboard_action

definition validate_clipboard_request :: "clipboard_request \<Rightarrow> protocol_error + unit" where
  "validate_clipboard_request m =
     and_then (valid_when (cbr_request_id m \<noteq> 0) ''clipboard request identifier'') (\<lambda>_.
       case cbr_action m of
         WriteText content \<Rightarrow> valid_when (length content \<le> MAX_CLIPBOARD_TEXT_BYTES) ''clipboard write text''
       | _ \<Rightarrow> Inr ())"

definition put_clipboard_request :: "clipboard_request \<Rightarrow> protocol_error + bytes" where
  "put_clipboard_request m =
     and_then (put_clipboard_action (cbr_action m)) (\<lambda>b_action.
       Inr (put_u64 (cbr_document m) @ put_u64 (cbr_request_id m) @ put_client (cbr_client m) @ b_action))"

definition get_clipboard_request :: "clipboard_request reading" where
  "get_clipboard_request =
     read_bind get_document_id (\<lambda>document. read_bind get_u64 (\<lambda>request_id.
     read_bind get_client (\<lambda>client. read_bind get_clipboard_action (\<lambda>action.
       read_ok \<lparr>cbr_document = document, cbr_request_id = request_id, cbr_client = client, cbr_action = action\<rparr>))))"

definition clipboard_request_fits :: "clipboard_request \<Rightarrow> bool" where
  "clipboard_request_fits m \<longleftrightarrow> (cbr_document m) \<noteq> 0 \<and> client_fits (cbr_client m) \<and> clipboard_action_fits (cbr_action m)"

definition encode_clipboard_request :: "clipboard_request \<Rightarrow> protocol_error + bytes" where
  "encode_clipboard_request = encode_checked validate_clipboard_request put_clipboard_request"

definition decode_clipboard_request :: "bytes \<Rightarrow> protocol_error + clipboard_request" where
  "decode_clipboard_request = decode_checked validate_clipboard_request get_clipboard_request"

record clipboard_update =
  cbu_document :: u64
  cbu_request_id :: u64
  cbu_result :: clipboard_result

definition validate_clipboard_update :: "clipboard_update \<Rightarrow> protocol_error + unit" where
  "validate_clipboard_update m =
     and_then (valid_when (cbu_request_id m \<noteq> 0) ''clipboard update identifier'') (\<lambda>_.
       case cbu_result m of
         Inr (ClipText content) \<Rightarrow> valid_when (length content \<le> MAX_CLIPBOARD_TEXT_BYTES) ''clipboard read text''
       | _ \<Rightarrow> Inr ())"

definition put_clipboard_update :: "clipboard_update \<Rightarrow> protocol_error + bytes" where
  "put_clipboard_update m =
     and_then (put_clipboard_result (cbu_result m)) (\<lambda>b_result.
       Inr (put_u64 (cbu_document m) @ put_u64 (cbu_request_id m) @ b_result))"

definition get_clipboard_update :: "clipboard_update reading" where
  "get_clipboard_update =
     read_bind get_document_id (\<lambda>document. read_bind get_u64 (\<lambda>request_id.
     read_bind get_clipboard_result (\<lambda>result.
       read_ok \<lparr>cbu_document = document, cbu_request_id = request_id, cbu_result = result\<rparr>)))"

definition clipboard_update_fits :: "clipboard_update \<Rightarrow> bool" where
  "clipboard_update_fits m \<longleftrightarrow> (cbu_document m) \<noteq> 0 \<and> clipboard_result_fits (cbu_result m)"

definition encode_clipboard_update :: "clipboard_update \<Rightarrow> protocol_error + bytes" where
  "encode_clipboard_update = encode_checked validate_clipboard_update put_clipboard_update"

definition decode_clipboard_update :: "bytes \<Rightarrow> protocol_error + clipboard_update" where
  "decode_clipboard_update = decode_checked validate_clipboard_update get_clipboard_update"

section \<open>Geolocation\<close>

text \<open>Ranges of \<^verbatim>\<open>f64\<close> values, on bit patterns; the bounds are -90, 90, -180, 180 and 360.\<close>

definition f64_between :: "f64 \<Rightarrow> f64 \<Rightarrow> f64 \<Rightarrow> bool" where
  "f64_between lo hi v \<longleftrightarrow> f64_ge v lo \<and> f64_ge hi v"

definition minus_90 :: f64 where "minus_90 = 0xc056800000000000"
definition plus_90 :: f64 where "plus_90 = 0x4056800000000000"
definition minus_180 :: f64 where "minus_180 = 0xc066800000000000"
definition plus_180 :: f64 where "plus_180 = 0x4066800000000000"
definition plus_360 :: f64 where "plus_360 = 0x4076800000000000"

datatype geolocation_error_code = GeoPermissionDenied | GeoUnavailable | GeoTimeout

record geolocation_position =
  gp_latitude :: f64
  gp_longitude :: f64
  gp_accuracy :: f64
  gp_altitude :: "f64 option"
  gp_altitude_accuracy :: "f64 option"
  gp_heading :: "f64 option"
  gp_speed :: "f64 option"
  gp_timestamp :: u64

datatype geolocation_action = GeoStart bool bool u64 u64 | GeoClear
datatype geolocation_event = GeoPosition geolocation_position | GeoError geolocation_error_code string

definition position_valid :: "geolocation_position \<Rightarrow> bool" where
  "position_valid p \<longleftrightarrow>
     is_finite (gp_latitude p) \<and> f64_between minus_90 plus_90 (gp_latitude p)
     \<and> is_finite (gp_longitude p) \<and> f64_between minus_180 plus_180 (gp_longitude p)
     \<and> is_finite (gp_accuracy p) \<and> \<not> f64_lt (gp_accuracy p) 0
     \<and> pred_option is_finite (gp_altitude p)
     \<and> pred_option (\<lambda>v. is_finite v \<and> \<not> f64_lt v 0) (gp_altitude_accuracy p)
     \<and> pred_option (\<lambda>v. is_finite v \<and> f64_ge v 0 \<and> f64_lt v plus_360) (gp_heading p)
     \<and> pred_option (\<lambda>v. is_finite v \<and> \<not> f64_lt v 0) (gp_speed p)"

fun geolocation_error_code_tag :: "geolocation_error_code \<Rightarrow> 8 word" where
  "geolocation_error_code_tag GeoPermissionDenied = 1"
| "geolocation_error_code_tag GeoUnavailable = 2"
| "geolocation_error_code_tag GeoTimeout = 3"

definition get_geolocation_error_code :: "geolocation_error_code reading" where
  "get_geolocation_error_code = read_bind get_u8 (\<lambda>t.
     if t = 1 then read_ok GeoPermissionDenied
     else if t = 2 then read_ok GeoUnavailable
     else if t = 3 then read_ok GeoTimeout
     else read_fail ''geolocation error code'')"

definition put_geolocation_position :: "geolocation_position \<Rightarrow> protocol_error + bytes" where
  "put_geolocation_position m =
     and_then (put_optional (\<lambda>v. Inr (put_u64 v)) (gp_altitude m)) (\<lambda>b_altitude.
     and_then (put_optional (\<lambda>v. Inr (put_u64 v)) (gp_altitude_accuracy m)) (\<lambda>b_altitude_accuracy.
     and_then (put_optional (\<lambda>v. Inr (put_u64 v)) (gp_heading m)) (\<lambda>b_heading.
     and_then (put_optional (\<lambda>v. Inr (put_u64 v)) (gp_speed m)) (\<lambda>b_speed.
       Inr (put_u64 (gp_latitude m) @ put_u64 (gp_longitude m) @ put_u64 (gp_accuracy m) @ b_altitude @
         b_altitude_accuracy @ b_heading @ b_speed @ put_u64 (gp_timestamp m))))))"

definition get_geolocation_position :: "geolocation_position reading" where
  "get_geolocation_position =
     read_bind get_u64 (\<lambda>latitude. read_bind get_u64 (\<lambda>longitude.
     read_bind get_u64 (\<lambda>accuracy. read_bind (get_optional get_u64) (\<lambda>altitude.
     read_bind (get_optional get_u64) (\<lambda>altitude_accuracy.
     read_bind (get_optional get_u64) (\<lambda>heading. read_bind (get_optional get_u64) (\<lambda>speed.
     read_bind get_u64 (\<lambda>timestamp.
       read_ok \<lparr>gp_latitude = latitude, gp_longitude = longitude, gp_accuracy = accuracy, gp_altitude = altitude, gp_altitude_accuracy = altitude_accuracy, gp_heading = heading, gp_speed = speed, gp_timestamp = timestamp\<rparr>))))))))"

definition geolocation_position_fits :: "geolocation_position \<Rightarrow> bool" where
  "geolocation_position_fits m \<longleftrightarrow> True"

definition put_geolocation_action :: "geolocation_action \<Rightarrow> protocol_error + bytes" where
  "put_geolocation_action a =
     (case a of
        GeoStart watch high_accuracy timeout maximum_age \<Rightarrow>
          Inr (put_u8 1 @ put_bool watch @ put_bool high_accuracy @ put_u64 timeout @ put_u64 maximum_age)
      | GeoClear \<Rightarrow>
          Inr (put_u8 2))"

definition get_geolocation_action :: "geolocation_action reading" where
  "get_geolocation_action = read_bind get_u8 (\<lambda>t.
     if t = 1 then
       read_bind get_bool (\<lambda>watch. read_bind get_bool (\<lambda>high_accuracy.
       read_bind get_u64 (\<lambda>timeout. read_bind get_u64 (\<lambda>maximum_age.
         read_ok (GeoStart watch high_accuracy timeout maximum_age)))))
     else if t = 2 then read_ok GeoClear
     else read_fail ''geolocation action'')"

definition geolocation_action_fits :: "geolocation_action \<Rightarrow> bool" where
  "geolocation_action_fits a = True"

definition put_geolocation_event :: "geolocation_event \<Rightarrow> protocol_error + bytes" where
  "put_geolocation_event a =
     (case a of
        GeoPosition pos \<Rightarrow>
          and_then (put_geolocation_position pos) (\<lambda>b_pos.
            Inr (put_u8 1 @ b_pos))
      | GeoError code message \<Rightarrow>
          and_then (put_string message) (\<lambda>b_message.
            Inr (put_u8 2 @ put_u8 (geolocation_error_code_tag code) @ b_message)))"

definition get_geolocation_event :: "geolocation_event reading" where
  "get_geolocation_event = read_bind get_u8 (\<lambda>t.
     if t = 1 then
       read_bind get_geolocation_position (\<lambda>pos.
         read_ok (GeoPosition pos))
     else if t = 2 then
       read_bind get_geolocation_error_code (\<lambda>code. read_bind (get_string (512)) (\<lambda>message.
         read_ok (GeoError code message)))
     else read_fail ''geolocation update'')"

definition geolocation_event_fits :: "geolocation_event \<Rightarrow> bool" where
  "geolocation_event_fits a = (case a of
     GeoPosition pos \<Rightarrow> geolocation_position_fits pos
   | GeoError code message \<Rightarrow> is_utf8 message \<and> length message \<le> 512)"

record geolocation_request =
  glr_document :: u64
  glr_request_id :: u64
  glr_client :: request_client
  glr_action :: geolocation_action

definition validate_geolocation_request :: "geolocation_request \<Rightarrow> protocol_error + unit" where
  "validate_geolocation_request m =
     valid_when (glr_request_id m \<noteq> 0) ''geolocation request identifier''"

definition put_geolocation_request :: "geolocation_request \<Rightarrow> protocol_error + bytes" where
  "put_geolocation_request m =
     and_then (put_geolocation_action (glr_action m)) (\<lambda>b_action.
       Inr (put_u64 (glr_document m) @ put_u64 (glr_request_id m) @ put_client (glr_client m) @ b_action))"

definition get_geolocation_request :: "geolocation_request reading" where
  "get_geolocation_request =
     read_bind get_document_id (\<lambda>document. read_bind get_u64 (\<lambda>request_id.
     read_bind get_client (\<lambda>client. read_bind get_geolocation_action (\<lambda>action.
       read_ok \<lparr>glr_document = document, glr_request_id = request_id, glr_client = client, glr_action = action\<rparr>))))"

definition geolocation_request_fits :: "geolocation_request \<Rightarrow> bool" where
  "geolocation_request_fits m \<longleftrightarrow> (glr_document m) \<noteq> 0 \<and> client_fits (glr_client m) \<and> geolocation_action_fits (glr_action m)"

definition encode_geolocation_request :: "geolocation_request \<Rightarrow> protocol_error + bytes" where
  "encode_geolocation_request = encode_checked validate_geolocation_request put_geolocation_request"

definition decode_geolocation_request :: "bytes \<Rightarrow> protocol_error + geolocation_request" where
  "decode_geolocation_request = decode_checked validate_geolocation_request get_geolocation_request"

record geolocation_update =
  glu_document :: u64
  glu_request_id :: u64
  glu_terminal :: bool
  glu_event :: geolocation_event

definition validate_geolocation_update :: "geolocation_update \<Rightarrow> protocol_error + unit" where
  "validate_geolocation_update m =
     and_then (valid_when (glu_request_id m \<noteq> 0) ''geolocation update identifier'') (\<lambda>_.
       case glu_event m of
         GeoPosition p \<Rightarrow> valid_when (position_valid p) ''geolocation position''
       | GeoError _ message \<Rightarrow> valid_when (length message \<le> 512) ''geolocation error length'')"

definition put_geolocation_update :: "geolocation_update \<Rightarrow> protocol_error + bytes" where
  "put_geolocation_update m =
     and_then (put_geolocation_event (glu_event m)) (\<lambda>b_event.
       Inr (put_u64 (glu_document m) @ put_u64 (glu_request_id m) @ put_bool (glu_terminal m) @ b_event))"

definition get_geolocation_update :: "geolocation_update reading" where
  "get_geolocation_update =
     read_bind get_document_id (\<lambda>document. read_bind get_u64 (\<lambda>request_id.
     read_bind get_bool (\<lambda>terminal. read_bind get_geolocation_event (\<lambda>event.
       read_ok \<lparr>glu_document = document, glu_request_id = request_id, glu_terminal = terminal, glu_event = event\<rparr>))))"

definition geolocation_update_fits :: "geolocation_update \<Rightarrow> bool" where
  "geolocation_update_fits m \<longleftrightarrow> (glu_document m) \<noteq> 0 \<and> geolocation_event_fits (glu_event m)"

definition encode_geolocation_update :: "geolocation_update \<Rightarrow> protocol_error + bytes" where
  "encode_geolocation_update = encode_checked validate_geolocation_update put_geolocation_update"

definition decode_geolocation_update :: "bytes \<Rightarrow> protocol_error + geolocation_update" where
  "decode_geolocation_update = decode_checked validate_geolocation_update get_geolocation_update"

section \<open>Exactness\<close>

lemma reads_optional_u64 [wire_reads]:
  "reads (get_optional get_u64) (\<lambda>v bs. put_optional (\<lambda>w. Inr (put_u64 w)) v = Inr bs)"
proof -
  have "reads get_u64 (\<lambda>x bs. True \<and> Inr (put_u64 x) = (Inr bs :: protocol_error + bytes))"
    by (rule reads_cong, rule reads_u64) auto
  from reads_optional [OF this] show ?thesis by (rule reads_cong) (auto simp: pred_option_def)
qed

lemma reads_wake_lock_action [wire_reads]: "reads get_wake_lock_action (\<lambda>x bs. bs = put_u8 (wake_lock_action_tag x))"
  unfolding get_wake_lock_action_def
  apply (rule reads_cong, (rule wire_reads)+)
  subgoal for x bs by (cases x rule: wake_lock_action_tag.cases) auto
  done

lemma reads_wake_lock_disposition [wire_reads]: "reads get_wake_lock_disposition (\<lambda>x bs. bs = put_u8 (wake_lock_disposition_tag x))"
  unfolding get_wake_lock_disposition_def
  apply (rule reads_cong, (rule wire_reads)+)
  subgoal for x bs by (cases x rule: wake_lock_disposition_tag.cases) auto
  done

lemma reads_wake_lock_request [wire_reads]: "reads get_wake_lock_request (\<lambda>m bs. wake_lock_request_fits m \<and> put_wake_lock_request m = Inr bs)"
  unfolding get_wake_lock_request_def
  apply (rule reads_cong, (rule wire_reads)+)
  subgoal for m bs by (cases m; auto simp: wake_lock_request_fits_def put_wake_lock_request_def result_simps; blast)
  done

interpretation wake_lock_request: payload_format encode_wake_lock_request decode_wake_lock_request wake_lock_request_fits
  unfolding encode_wake_lock_request_def decode_wake_lock_request_def by (rule checked_format) (rule reads_wake_lock_request)

lemma reads_wake_lock_update [wire_reads]: "reads get_wake_lock_update (\<lambda>m bs. wake_lock_update_fits m \<and> put_wake_lock_update m = Inr bs)"
  unfolding get_wake_lock_update_def
  apply (rule reads_cong, (rule wire_reads)+)
  subgoal for m bs by (cases m; auto simp: wake_lock_update_fits_def put_wake_lock_update_def result_simps; blast)
  done

interpretation wake_lock_update: payload_format encode_wake_lock_update decode_wake_lock_update wake_lock_update_fits
  unfolding encode_wake_lock_update_def decode_wake_lock_update_def by (rule checked_format) (rule reads_wake_lock_update)

lemma reads_permission_name [wire_reads]: "reads get_permission_name (\<lambda>x bs. bs = put_u8 (permission_name_tag x))"
  unfolding get_permission_name_def
  apply (rule reads_cong, (rule wire_reads)+)
  subgoal for x bs by (cases x rule: permission_name_tag.cases) auto
  done

lemma reads_permission_state [wire_reads]: "reads get_permission_state (\<lambda>x bs. bs = put_u8 (permission_state_tag x))"
  unfolding get_permission_state_def
  apply (rule reads_cong, (rule wire_reads)+)
  subgoal for x bs by (cases x rule: permission_state_tag.cases) auto
  done

lemma reads_permission_request [wire_reads]: "reads get_permission_request (\<lambda>m bs. permission_request_fits m \<and> put_permission_request m = Inr bs)"
  unfolding get_permission_request_def
  apply (rule reads_cong, (rule wire_reads)+)
  subgoal for m bs by (cases m; auto simp: permission_request_fits_def put_permission_request_def result_simps; blast)
  done

interpretation permission_request: payload_format encode_permission_request decode_permission_request permission_request_fits
  unfolding encode_permission_request_def decode_permission_request_def by (rule checked_format) (rule reads_permission_request)

lemma reads_permission_update [wire_reads]: "reads get_permission_update (\<lambda>m bs. permission_update_fits m \<and> put_permission_update m = Inr bs)"
  unfolding get_permission_update_def
  apply (rule reads_cong, (rule wire_reads)+)
  subgoal for m bs by (cases m; auto simp: permission_update_fits_def put_permission_update_def result_simps; blast)
  done

interpretation permission_update: payload_format encode_permission_update decode_permission_update permission_update_fits
  unfolding encode_permission_update_def decode_permission_update_def by (rule checked_format) (rule reads_permission_update)

lemma reads_protocol_handler_action [wire_reads]: "reads get_protocol_handler_action (\<lambda>x bs. bs = put_u8 (protocol_handler_action_tag x))"
  unfolding get_protocol_handler_action_def
  apply (rule reads_cong, (rule wire_reads)+)
  subgoal for x bs by (cases x rule: protocol_handler_action_tag.cases) auto
  done

lemma reads_protocol_handler_request [wire_reads]: "reads get_protocol_handler_request (\<lambda>m bs. protocol_handler_request_fits m \<and> put_protocol_handler_request m = Inr bs)"
  unfolding get_protocol_handler_request_def
  apply (rule reads_cong, (rule wire_reads)+)
  subgoal for m bs by (cases m; auto simp: protocol_handler_request_fits_def put_protocol_handler_request_def result_simps; blast)
  done

interpretation protocol_handler_request: payload_format encode_protocol_handler_request decode_protocol_handler_request protocol_handler_request_fits
  unfolding encode_protocol_handler_request_def decode_protocol_handler_request_def by (rule checked_format) (rule reads_protocol_handler_request)

lemma reads_notification_action [wire_reads]: "reads get_notification_action (\<lambda>x bs. notification_action_fits x \<and> put_notification_action x = Inr bs)"
  unfolding get_notification_action_def
  apply (rule reads_cong, (rule wire_reads)+)
  subgoal for x bs by (cases x; auto simp: notification_action_fits_def put_notification_action_def result_simps; blast)
  done

lemma reads_notification_event [wire_reads]: "reads get_notification_event (\<lambda>x bs. bs = put_u8 (notification_event_tag x))"
  unfolding get_notification_event_def
  apply (rule reads_cong, (rule wire_reads)+)
  subgoal for x bs by (cases x rule: notification_event_tag.cases) auto
  done

lemma reads_notification_request [wire_reads]: "reads get_notification_request (\<lambda>m bs. notification_request_fits m \<and> put_notification_request m = Inr bs)"
  unfolding get_notification_request_def
  apply (rule reads_cong, (rule wire_reads)+)
  subgoal for m bs by (cases m; auto simp: notification_request_fits_def put_notification_request_def result_simps; blast)
  done

interpretation notification_request: payload_format encode_notification_request decode_notification_request notification_request_fits
  unfolding encode_notification_request_def decode_notification_request_def by (rule checked_format) (rule reads_notification_request)

lemma reads_notification_update [wire_reads]: "reads get_notification_update (\<lambda>m bs. notification_update_fits m \<and> put_notification_update m = Inr bs)"
  unfolding get_notification_update_def
  apply (rule reads_cong, (rule wire_reads)+)
  subgoal for m bs by (cases m; auto simp: notification_update_fits_def put_notification_update_def result_simps; blast)
  done

interpretation notification_update: payload_format encode_notification_update decode_notification_update notification_update_fits
  unfolding encode_notification_update_def decode_notification_update_def by (rule checked_format) (rule reads_notification_update)

lemma reads_media_device_result [wire_reads]: "reads get_media_device_result (\<lambda>x bs. media_device_result_fits x \<and> put_media_device_result x = Inr bs)"
  unfolding get_media_device_result_def
  apply (rule reads_cong, (rule wire_reads)+)
  subgoal for x bs by (cases x; auto simp: media_device_result_fits_def put_media_device_result_def result_simps split: media_device_error.splits; blast)
  done

lemma reads_media_device_request [wire_reads]: "reads get_media_device_request (\<lambda>m bs. media_device_request_fits m \<and> put_media_device_request m = Inr bs)"
  unfolding get_media_device_request_def
  apply (rule reads_cong, (rule wire_reads)+)
  subgoal for m bs by (cases m; auto simp: media_device_request_fits_def put_media_device_request_def result_simps; blast)
  done

interpretation media_device_request: payload_format encode_media_device_request decode_media_device_request media_device_request_fits
  unfolding encode_media_device_request_def decode_media_device_request_def by (rule checked_format) (rule reads_media_device_request)

lemma reads_media_device_update [wire_reads]: "reads get_media_device_update (\<lambda>m bs. media_device_update_fits m \<and> put_media_device_update m = Inr bs)"
  unfolding get_media_device_update_def
  apply (rule reads_cong, (rule wire_reads)+)
  subgoal for m bs by (cases m; auto simp: media_device_update_fits_def put_media_device_update_def result_simps; blast)
  done

interpretation media_device_update: payload_format encode_media_device_update decode_media_device_update media_device_update_fits
  unfolding encode_media_device_update_def decode_media_device_update_def by (rule checked_format) (rule reads_media_device_update)

lemma reads_clipboard_action [wire_reads]: "reads get_clipboard_action (\<lambda>x bs. clipboard_action_fits x \<and> put_clipboard_action x = Inr bs)"
  unfolding get_clipboard_action_def
  apply (rule reads_cong, (rule wire_reads)+)
  subgoal for x bs by (cases x; auto simp: clipboard_action_fits_def put_clipboard_action_def result_simps; blast)
  done

lemma reads_clipboard_result [wire_reads]: "reads get_clipboard_result (\<lambda>x bs. clipboard_result_fits x \<and> put_clipboard_result x = Inr bs)"
  unfolding get_clipboard_result_def
  apply (rule reads_cong, (rule wire_reads)+)
  subgoal for x bs by (cases x; auto simp: clipboard_result_fits_def put_clipboard_result_def result_simps split: clipboard_value.splits clipboard_error.splits; blast)
  done

lemma reads_clipboard_request [wire_reads]: "reads get_clipboard_request (\<lambda>m bs. clipboard_request_fits m \<and> put_clipboard_request m = Inr bs)"
  unfolding get_clipboard_request_def
  apply (rule reads_cong, (rule wire_reads)+)
  subgoal for m bs by (cases m; auto simp: clipboard_request_fits_def put_clipboard_request_def result_simps; blast)
  done

interpretation clipboard_request: payload_format encode_clipboard_request decode_clipboard_request clipboard_request_fits
  unfolding encode_clipboard_request_def decode_clipboard_request_def by (rule checked_format) (rule reads_clipboard_request)

lemma reads_clipboard_update [wire_reads]: "reads get_clipboard_update (\<lambda>m bs. clipboard_update_fits m \<and> put_clipboard_update m = Inr bs)"
  unfolding get_clipboard_update_def
  apply (rule reads_cong, (rule wire_reads)+)
  subgoal for m bs by (cases m; auto simp: clipboard_update_fits_def put_clipboard_update_def result_simps; blast)
  done

interpretation clipboard_update: payload_format encode_clipboard_update decode_clipboard_update clipboard_update_fits
  unfolding encode_clipboard_update_def decode_clipboard_update_def by (rule checked_format) (rule reads_clipboard_update)

lemma reads_geolocation_error_code [wire_reads]: "reads get_geolocation_error_code (\<lambda>x bs. bs = put_u8 (geolocation_error_code_tag x))"
  unfolding get_geolocation_error_code_def
  apply (rule reads_cong, (rule wire_reads)+)
  subgoal for x bs by (cases x rule: geolocation_error_code_tag.cases) auto
  done

lemma reads_geolocation_position [wire_reads]: "reads get_geolocation_position (\<lambda>m bs. geolocation_position_fits m \<and> put_geolocation_position m = Inr bs)"
  unfolding get_geolocation_position_def
  apply (rule reads_cong, (rule wire_reads)+)
  subgoal for m bs by (cases m; auto simp: geolocation_position_fits_def put_geolocation_position_def result_simps; blast)
  done

lemma reads_geolocation_action [wire_reads]: "reads get_geolocation_action (\<lambda>x bs. geolocation_action_fits x \<and> put_geolocation_action x = Inr bs)"
  unfolding get_geolocation_action_def
  apply (rule reads_cong, (rule wire_reads)+)
  subgoal for x bs by (cases x; auto simp: geolocation_action_fits_def put_geolocation_action_def result_simps; blast)
  done

lemma reads_geolocation_event [wire_reads]: "reads get_geolocation_event (\<lambda>x bs. geolocation_event_fits x \<and> put_geolocation_event x = Inr bs)"
  unfolding get_geolocation_event_def
  apply (rule reads_cong, (rule wire_reads)+)
  subgoal for x bs by (cases x; auto simp: geolocation_event_fits_def put_geolocation_event_def result_simps; blast)
  done

lemma reads_geolocation_request [wire_reads]: "reads get_geolocation_request (\<lambda>m bs. geolocation_request_fits m \<and> put_geolocation_request m = Inr bs)"
  unfolding get_geolocation_request_def
  apply (rule reads_cong, (rule wire_reads)+)
  subgoal for m bs by (cases m; auto simp: geolocation_request_fits_def put_geolocation_request_def result_simps; blast)
  done

interpretation geolocation_request: payload_format encode_geolocation_request decode_geolocation_request geolocation_request_fits
  unfolding encode_geolocation_request_def decode_geolocation_request_def by (rule checked_format) (rule reads_geolocation_request)

lemma reads_geolocation_update [wire_reads]: "reads get_geolocation_update (\<lambda>m bs. geolocation_update_fits m \<and> put_geolocation_update m = Inr bs)"
  unfolding get_geolocation_update_def
  apply (rule reads_cong, (rule wire_reads)+)
  subgoal for m bs by (cases m; auto simp: geolocation_update_fits_def put_geolocation_update_def result_simps; blast)
  done

interpretation geolocation_update: payload_format encode_geolocation_update decode_geolocation_update geolocation_update_fits
  unfolding encode_geolocation_update_def decode_geolocation_update_def by (rule checked_format) (rule reads_geolocation_update)

end
