(* ===== verification/Ipc_Channels.thy ===== *)
theory Ipc_Channels
  imports Ipc_Services Idb_Model
begin

text \<open>
  The channels that carry page data through the browser: broadcast channels, the origin-storage channel,
  WebSockets, speech, sensors, media capture and file selections, with their validation and codecs
  (\<^verbatim>\<open>src/renderer_protocol\<close>, \<^verbatim>\<open>codec/payload\<close>).
\<close>

section \<open>Broadcast channels\<close>

definition MAX_BROADCAST_NAME_BYTES :: nat where [limit_simps]: "MAX_BROADCAST_NAME_BYTES = 4 * 1024"

definition MAX_BROADCAST_MESSAGE_BYTES :: nat where [limit_simps]: "MAX_BROADCAST_MESSAGE_BYTES = 128 * 1024"

datatype broadcast_operation = OpenChannel string | PostMessage string | CloseChannel

definition is_ascii_hexdigit :: "char \<Rightarrow> bool" where
  "is_ascii_hexdigit c \<longleftrightarrow> is_ascii_digit c \<or> 0x41 \<le> byte c \<and> byte c \<le> 0x46 \<or> 0x61 \<le> byte c \<and> byte c \<le> 0x66"

definition put_broadcast_operation :: "broadcast_operation \<Rightarrow> protocol_error + bytes" where
  "put_broadcast_operation a =
     (case a of
        OpenChannel name \<Rightarrow>
          and_then (put_string name) (\<lambda>b_name.
            Inr (put_u8 1 @ b_name))
      | PostMessage serialized \<Rightarrow>
          and_then (put_string serialized) (\<lambda>b_serialized.
            Inr (put_u8 2 @ b_serialized))
      | CloseChannel \<Rightarrow>
          Inr (put_u8 3))"

definition get_broadcast_operation :: "broadcast_operation reading" where
  "get_broadcast_operation = read_bind get_u8 (\<lambda>t.
     if t = 1 then
       read_bind (get_string MAX_BROADCAST_NAME_BYTES) (\<lambda>name.
         read_ok (OpenChannel name))
     else if t = 2 then
       read_bind (get_string MAX_BROADCAST_MESSAGE_BYTES) (\<lambda>serialized.
         read_ok (PostMessage serialized))
     else if t = 3 then read_ok CloseChannel
     else read_fail ''broadcast operation'')"

definition broadcast_operation_fits :: "broadcast_operation \<Rightarrow> bool" where
  "broadcast_operation_fits a = (case a of
     OpenChannel name \<Rightarrow> is_utf8 name \<and> length name \<le> MAX_BROADCAST_NAME_BYTES
   | PostMessage serialized \<Rightarrow> is_utf8 serialized \<and> length serialized \<le> MAX_BROADCAST_MESSAGE_BYTES
   | _ \<Rightarrow> True)"

record broadcast_command =
  bcc_document :: u64
  bcc_channel_id :: u64
  bcc_operation :: broadcast_operation

definition validate_broadcast_command :: "broadcast_command \<Rightarrow> protocol_error + unit" where
  "validate_broadcast_command m =
     and_then (valid_when (bcc_channel_id m \<noteq> 0) ''broadcast channel identifier'') (\<lambda>_.
       case bcc_operation m of
         OpenChannel name \<Rightarrow>
           valid_when (length name \<le> MAX_BROADCAST_NAME_BYTES \<and> 4 dvd length name \<and> list_all is_ascii_hexdigit name)
             ''broadcast channel name''
       | PostMessage serialized \<Rightarrow> valid_when (length serialized \<le> MAX_BROADCAST_MESSAGE_BYTES) ''broadcast message size''
       | CloseChannel \<Rightarrow> Inr ())"

definition put_broadcast_command :: "broadcast_command \<Rightarrow> protocol_error + bytes" where
  "put_broadcast_command m =
     and_then (put_broadcast_operation (bcc_operation m)) (\<lambda>b_operation.
       Inr (put_u64 (bcc_document m) @ put_u64 (bcc_channel_id m) @ b_operation))"

definition get_broadcast_command :: "broadcast_command reading" where
  "get_broadcast_command =
     read_bind get_document_id (\<lambda>document. read_bind get_u64 (\<lambda>channel_id.
     read_bind get_broadcast_operation (\<lambda>operation.
       read_ok \<lparr>bcc_document = document, bcc_channel_id = channel_id, bcc_operation = operation\<rparr>)))"

definition broadcast_command_fits :: "broadcast_command \<Rightarrow> bool" where
  "broadcast_command_fits m \<longleftrightarrow> (bcc_document m) \<noteq> 0 \<and> broadcast_operation_fits (bcc_operation m)"

definition encode_broadcast_command :: "broadcast_command \<Rightarrow> protocol_error + bytes" where
  "encode_broadcast_command = encode_checked validate_broadcast_command put_broadcast_command"

definition decode_broadcast_command :: "bytes \<Rightarrow> protocol_error + broadcast_command" where
  "decode_broadcast_command = decode_checked validate_broadcast_command get_broadcast_command"

record broadcast_delivery =
  bcd_document :: u64
  bcd_channel_id :: u64
  bcd_origin :: string
  bcd_serialized :: string

definition validate_broadcast_delivery :: "broadcast_delivery \<Rightarrow> protocol_error + unit" where
  "validate_broadcast_delivery m =
     valid_when (bcd_channel_id m \<noteq> 0 \<and> bcd_origin m \<noteq> [] \<and> length (bcd_origin m) \<le> MAX_URL_BYTES
       \<and> length (bcd_serialized m) \<le> MAX_BROADCAST_MESSAGE_BYTES) ''broadcast delivery''"

definition put_broadcast_delivery :: "broadcast_delivery \<Rightarrow> protocol_error + bytes" where
  "put_broadcast_delivery m =
     and_then (put_string (bcd_origin m)) (\<lambda>b_origin.
     and_then (put_string (bcd_serialized m)) (\<lambda>b_serialized.
       Inr (put_u64 (bcd_document m) @ put_u64 (bcd_channel_id m) @ b_origin @ b_serialized)))"

definition get_broadcast_delivery :: "broadcast_delivery reading" where
  "get_broadcast_delivery =
     read_bind get_document_id (\<lambda>document. read_bind get_u64 (\<lambda>channel_id.
     read_bind (get_string MAX_URL_BYTES) (\<lambda>origin.
     read_bind (get_string MAX_BROADCAST_MESSAGE_BYTES) (\<lambda>serialized.
       read_ok \<lparr>bcd_document = document, bcd_channel_id = channel_id, bcd_origin = origin, bcd_serialized = serialized\<rparr>))))"

definition broadcast_delivery_fits :: "broadcast_delivery \<Rightarrow> bool" where
  "broadcast_delivery_fits m \<longleftrightarrow> (bcd_document m) \<noteq> 0 \<and> (is_utf8 (bcd_origin m) \<and> length (bcd_origin m) \<le> MAX_URL_BYTES) \<and> (is_utf8 (bcd_serialized m) \<and> length (bcd_serialized m) \<le> MAX_BROADCAST_MESSAGE_BYTES)"

definition encode_broadcast_delivery :: "broadcast_delivery \<Rightarrow> protocol_error + bytes" where
  "encode_broadcast_delivery = encode_checked validate_broadcast_delivery put_broadcast_delivery"

definition decode_broadcast_delivery :: "bytes \<Rightarrow> protocol_error + broadcast_delivery" where
  "decode_broadcast_delivery = decode_checked validate_broadcast_delivery get_broadcast_delivery"

section \<open>The origin-storage channel\<close>

record database_command =
  dbc_document :: u64
  dbc_request_id :: u64
  dbc_client :: request_client
  dbc_payload :: string

definition validate_database_command :: "database_command \<Rightarrow> protocol_error + unit" where
  "validate_database_command m =
     valid_when (dbc_request_id m \<noteq> 0 \<and> length (dbc_payload m) \<le> MAX_INDEXED_DB_IPC_BYTES) ''origin-storage request''"

definition put_database_command :: "database_command \<Rightarrow> protocol_error + bytes" where
  "put_database_command m =
     and_then (put_string (dbc_payload m)) (\<lambda>b_payload.
       Inr (put_u64 (dbc_document m) @ put_u64 (dbc_request_id m) @ put_client (dbc_client m) @ b_payload))"

definition get_database_command :: "database_command reading" where
  "get_database_command =
     read_bind get_document_id (\<lambda>document. read_bind get_u64 (\<lambda>request_id.
     read_bind get_client (\<lambda>client.
     read_bind (get_string MAX_INDEXED_DB_IPC_BYTES) (\<lambda>payload.
       read_ok \<lparr>dbc_document = document, dbc_request_id = request_id, dbc_client = client, dbc_payload = payload\<rparr>))))"

definition database_command_fits :: "database_command \<Rightarrow> bool" where
  "database_command_fits m \<longleftrightarrow> (dbc_document m) \<noteq> 0 \<and> client_fits (dbc_client m) \<and> (is_utf8 (dbc_payload m) \<and> length (dbc_payload m) \<le> MAX_INDEXED_DB_IPC_BYTES)"

definition encode_database_command :: "database_command \<Rightarrow> protocol_error + bytes" where
  "encode_database_command = encode_checked validate_database_command put_database_command"

definition decode_database_command :: "bytes \<Rightarrow> protocol_error + database_command" where
  "decode_database_command = decode_checked validate_database_command get_database_command"

record database_event =
  dbe_document :: u64
  dbe_request_id :: u64
  dbe_payload :: string

definition validate_database_event :: "database_event \<Rightarrow> protocol_error + unit" where
  "validate_database_event m =
     valid_when (dbe_request_id m \<noteq> 0 \<and> length (dbe_payload m) \<le> MAX_INDEXED_DB_IPC_BYTES) ''origin-storage result''"

definition put_database_event :: "database_event \<Rightarrow> protocol_error + bytes" where
  "put_database_event m =
     and_then (put_string (dbe_payload m)) (\<lambda>b_payload.
       Inr (put_u64 (dbe_document m) @ put_u64 (dbe_request_id m) @ b_payload))"

definition get_database_event :: "database_event reading" where
  "get_database_event =
     read_bind get_document_id (\<lambda>document. read_bind get_u64 (\<lambda>request_id.
     read_bind (get_string MAX_INDEXED_DB_IPC_BYTES) (\<lambda>payload.
       read_ok \<lparr>dbe_document = document, dbe_request_id = request_id, dbe_payload = payload\<rparr>)))"

definition database_event_fits :: "database_event \<Rightarrow> bool" where
  "database_event_fits m \<longleftrightarrow> (dbe_document m) \<noteq> 0 \<and> (is_utf8 (dbe_payload m) \<and> length (dbe_payload m) \<le> MAX_INDEXED_DB_IPC_BYTES)"

definition encode_database_event :: "database_event \<Rightarrow> protocol_error + bytes" where
  "encode_database_event = encode_checked validate_database_event put_database_event"

definition decode_database_event :: "bytes \<Rightarrow> protocol_error + database_event" where
  "decode_database_event = decode_checked validate_database_event get_database_event"

section \<open>WebSockets\<close>

definition MAX_WEBSOCKET_MESSAGE_BYTES :: nat where [limit_simps]: "MAX_WEBSOCKET_MESSAGE_BYTES = 192 * 1024"

datatype web_socket_operation = SocketOpen string "string list" | SocketSend bool bytes | SocketClose u16 string | SocketCancel

datatype web_socket_event_kind =
  SocketOpened string | SocketMessage bool bytes | SocketSent u32 | SocketError | SocketClosed u16 string bool

definition valid_protocol :: "string \<Rightarrow> bool" where
  "valid_protocol p \<longleftrightarrow> p \<noteq> [] \<and>
     list_all (\<lambda>c. 0x21 \<le> byte c \<and> byte c \<le> 0x7e \<and> c \<notin> set (''()<>@,;:/[]?={}'' @ [CHR 0x5C, CHR 0x22])) p"

text \<open>The count byte and the loop over the subprotocols.\<close>

definition put_protocols :: "string list \<Rightarrow> protocol_error + bytes" where
  "put_protocols ps = and_then (put_each put_string ps) (\<lambda>b. Inr (put_u8 (of_nat (length ps)) @ b))"

definition get_protocols :: "string list reading" where
  "get_protocols = read_bind get_u8 (\<lambda>count.
     if unat count > 32 then read_fail ''WebSocket protocol count''
     else read_times (unat count) (get_string 128))"

definition protocols_fits :: "string list \<Rightarrow> bool" where
  "protocols_fits ps \<longleftrightarrow> length ps \<le> 32 \<and> list_all (\<lambda>p. is_utf8 p \<and> length p \<le> 128) ps"

definition put_web_socket_operation :: "web_socket_operation \<Rightarrow> protocol_error + bytes" where
  "put_web_socket_operation a =
     (case a of
        SocketOpen url protocols \<Rightarrow>
          and_then (put_string url) (\<lambda>b_url.
          and_then (put_protocols protocols) (\<lambda>b_protocols.
            Inr (put_u8 1 @ b_url @ b_protocols)))
      | SocketSend binary content \<Rightarrow>
          and_then (put_bytes content) (\<lambda>b_content.
            Inr (put_u8 2 @ put_bool binary @ b_content))
      | SocketClose code reason \<Rightarrow>
          and_then (put_string reason) (\<lambda>b_reason.
            Inr (put_u8 3 @ put_u16 code @ b_reason))
      | SocketCancel \<Rightarrow>
          Inr (put_u8 4))"

definition get_web_socket_operation :: "web_socket_operation reading" where
  "get_web_socket_operation = read_bind get_u8 (\<lambda>t.
     if t = 1 then
       read_bind (get_string MAX_URL_BYTES) (\<lambda>url. read_bind get_protocols (\<lambda>protocols.
         read_ok (SocketOpen url protocols)))
     else if t = 2 then
       read_bind get_bool (\<lambda>binary.
       read_bind (get_bytes MAX_WEBSOCKET_MESSAGE_BYTES) (\<lambda>content.
         read_ok (SocketSend binary content)))
     else if t = 3 then
       read_bind get_u16 (\<lambda>code. read_bind (get_string (123)) (\<lambda>reason.
         read_ok (SocketClose code reason)))
     else if t = 4 then read_ok SocketCancel
     else read_fail ''WebSocket operation'')"

definition web_socket_operation_fits :: "web_socket_operation \<Rightarrow> bool" where
  "web_socket_operation_fits a = (case a of
     SocketOpen url protocols \<Rightarrow> (is_utf8 url \<and> length url \<le> MAX_URL_BYTES) \<and> protocols_fits protocols
   | SocketSend binary content \<Rightarrow> length content \<le> MAX_WEBSOCKET_MESSAGE_BYTES
   | SocketClose code reason \<Rightarrow> is_utf8 reason \<and> length reason \<le> 123
   | _ \<Rightarrow> True)"

definition put_web_socket_event_kind :: "web_socket_event_kind \<Rightarrow> protocol_error + bytes" where
  "put_web_socket_event_kind a =
     (case a of
        SocketOpened protocol \<Rightarrow>
          and_then (put_string protocol) (\<lambda>b_protocol.
            Inr (put_u8 1 @ b_protocol))
      | SocketMessage binary content \<Rightarrow>
          and_then (put_bytes content) (\<lambda>b_content.
            Inr (put_u8 2 @ put_bool binary @ b_content))
      | SocketError \<Rightarrow>
          Inr (put_u8 3)
      | SocketSent sent \<Rightarrow>
          Inr (put_u8 5 @ put_u32 sent)
      | SocketClosed code reason clean \<Rightarrow>
          and_then (put_string reason) (\<lambda>b_reason.
            Inr (put_u8 4 @ put_u16 code @ b_reason @ put_bool clean)))"

definition get_web_socket_event_kind :: "web_socket_event_kind reading" where
  "get_web_socket_event_kind = read_bind get_u8 (\<lambda>t.
     if t = 1 then
       read_bind (get_string (128)) (\<lambda>protocol.
         read_ok (SocketOpened protocol))
     else if t = 2 then
       read_bind get_bool (\<lambda>binary.
       read_bind (get_bytes MAX_WEBSOCKET_MESSAGE_BYTES) (\<lambda>content.
         read_ok (SocketMessage binary content)))
     else if t = 3 then read_ok SocketError
     else if t = 5 then
       read_bind get_u32 (\<lambda>sent.
         read_ok (SocketSent sent))
     else if t = 4 then
       read_bind get_u16 (\<lambda>code. read_bind (get_string (123)) (\<lambda>reason.
       read_bind get_bool (\<lambda>clean.
         read_ok (SocketClosed code reason clean))))
     else read_fail ''WebSocket event kind'')"

definition web_socket_event_kind_fits :: "web_socket_event_kind \<Rightarrow> bool" where
  "web_socket_event_kind_fits a = (case a of
     SocketOpened protocol \<Rightarrow> is_utf8 protocol \<and> length protocol \<le> 128
   | SocketMessage binary content \<Rightarrow> length content \<le> MAX_WEBSOCKET_MESSAGE_BYTES
   | SocketClosed code reason clean \<Rightarrow> is_utf8 reason \<and> length reason \<le> 123
   | _ \<Rightarrow> True)"

record web_socket_command =
  wsc_document :: u64
  wsc_socket_id :: u64
  wsc_client :: request_client
  wsc_operation :: web_socket_operation

definition validate_web_socket_command :: "web_socket_command \<Rightarrow> protocol_error + unit" where
  "validate_web_socket_command m =
     and_then (valid_when (wsc_socket_id m \<noteq> 0) ''WebSocket identifier'') (\<lambda>_.
       case wsc_operation m of
         SocketOpen url protocols \<Rightarrow>
           valid_when (url \<noteq> [] \<and> length url \<le> MAX_URL_BYTES \<and> length protocols \<le> 32 \<and> list_all valid_protocol protocols)
             ''WebSocket opening parameters''
       | SocketSend _ content \<Rightarrow> valid_when (length content \<le> MAX_WEBSOCKET_MESSAGE_BYTES) ''WebSocket send budget''
       | SocketClose code reason \<Rightarrow>
           valid_when ((code = 1000 \<or> 3000 \<le> code \<and> code \<le> 4999) \<and> length reason \<le> 123) ''WebSocket close parameters''
       | SocketCancel \<Rightarrow> Inr ())"

definition put_web_socket_command :: "web_socket_command \<Rightarrow> protocol_error + bytes" where
  "put_web_socket_command m =
     and_then (put_web_socket_operation (wsc_operation m)) (\<lambda>b_operation.
       Inr (put_u64 (wsc_document m) @ put_u64 (wsc_socket_id m) @ put_client (wsc_client m) @ b_operation))"

definition get_web_socket_command :: "web_socket_command reading" where
  "get_web_socket_command =
     read_bind get_document_id (\<lambda>document. read_bind get_u64 (\<lambda>socket_id.
     read_bind get_client (\<lambda>client. read_bind get_web_socket_operation (\<lambda>operation.
       read_ok \<lparr>wsc_document = document, wsc_socket_id = socket_id, wsc_client = client, wsc_operation = operation\<rparr>))))"

definition web_socket_command_fits :: "web_socket_command \<Rightarrow> bool" where
  "web_socket_command_fits m \<longleftrightarrow> (wsc_document m) \<noteq> 0 \<and> client_fits (wsc_client m) \<and> web_socket_operation_fits (wsc_operation m)"

definition encode_web_socket_command :: "web_socket_command \<Rightarrow> protocol_error + bytes" where
  "encode_web_socket_command = encode_checked validate_web_socket_command put_web_socket_command"

definition decode_web_socket_command :: "bytes \<Rightarrow> protocol_error + web_socket_command" where
  "decode_web_socket_command = decode_checked validate_web_socket_command get_web_socket_command"

record web_socket_event =
  wse_document :: u64
  wse_socket_id :: u64
  wse_kind :: web_socket_event_kind

definition validate_web_socket_event :: "web_socket_event \<Rightarrow> protocol_error + unit" where
  "validate_web_socket_event m =
     and_then (valid_when (wse_socket_id m \<noteq> 0) ''WebSocket event identifier'') (\<lambda>_.
       case wse_kind m of
         SocketOpened protocol \<Rightarrow> valid_when (protocol = [] \<or> valid_protocol protocol) ''WebSocket negotiated protocol''
       | SocketMessage _ content \<Rightarrow> valid_when (length content \<le> MAX_WEBSOCKET_MESSAGE_BYTES) ''WebSocket receive budget''
       | SocketClosed _ reason _ \<Rightarrow> valid_when (length reason \<le> 123) ''WebSocket close reason''
       | _ \<Rightarrow> Inr ())"

definition put_web_socket_event :: "web_socket_event \<Rightarrow> protocol_error + bytes" where
  "put_web_socket_event m =
     and_then (put_web_socket_event_kind (wse_kind m)) (\<lambda>b_kind.
       Inr (put_u64 (wse_document m) @ put_u64 (wse_socket_id m) @ b_kind))"

definition get_web_socket_event :: "web_socket_event reading" where
  "get_web_socket_event =
     read_bind get_document_id (\<lambda>document. read_bind get_u64 (\<lambda>socket_id.
     read_bind get_web_socket_event_kind (\<lambda>kind.
       read_ok \<lparr>wse_document = document, wse_socket_id = socket_id, wse_kind = kind\<rparr>)))"

definition web_socket_event_fits :: "web_socket_event \<Rightarrow> bool" where
  "web_socket_event_fits m \<longleftrightarrow> (wse_document m) \<noteq> 0 \<and> web_socket_event_kind_fits (wse_kind m)"

definition encode_web_socket_event :: "web_socket_event \<Rightarrow> protocol_error + bytes" where
  "encode_web_socket_event = encode_checked validate_web_socket_event put_web_socket_event"

definition decode_web_socket_event :: "bytes \<Rightarrow> protocol_error + web_socket_event" where
  "decode_web_socket_event = decode_checked validate_web_socket_event get_web_socket_event"

section \<open>Speech\<close>

definition MAX_SPEECH_TEXT_BYTES :: nat where [limit_simps]: "MAX_SPEECH_TEXT_BYTES = 16 * 1024"

definition MAX_SPEECH_VOICES :: nat where [limit_simps]: "MAX_SPEECH_VOICES = 64"

definition MAX_VOICE_FIELD_BYTES :: nat where [limit_simps]: "MAX_VOICE_FIELD_BYTES = 256"

definition MAX_SPEECH_ERROR_BYTES :: nat where [limit_simps]: "MAX_SPEECH_ERROR_BYTES = 512"

record speech_voice =
  sv_uri :: string
  sv_name :: string
  sv_lang :: string
  sv_default :: bool

datatype speech_action = Speak string string string u32 u32 u32 | PauseSpeech | ResumeSpeech | CancelSpeech | GetVoices

datatype speech_event =
  Voices "speech_voice list" | SpeechStarted | SpeechEnded | SpeechPaused | SpeechResumed | SpeechCancelled | SpeechFailed string

text \<open>
  An \<^verbatim>\<open>f32\<close> is its bit pattern. Finite patterns are ordered as sign and magnitude; the bounds below are 0.1,
  10, 2 and 1.
\<close>

definition f32_is_finite :: "u32 \<Rightarrow> bool" where
  "f32_is_finite w \<longleftrightarrow> take_bit 8 (drop_bit 23 w) \<noteq> 255"

definition f32_key :: "u32 \<Rightarrow> int" where
  "f32_key w = (if bit w 31 then - int (unat (take_bit 31 w)) else int (unat (take_bit 31 w)))"

definition f32_within :: "u32 \<Rightarrow> u32 \<Rightarrow> u32 \<Rightarrow> bool" where
  "f32_within lo hi v \<longleftrightarrow> f32_is_finite v \<and> f32_key lo \<le> f32_key v \<and> f32_key v \<le> f32_key hi"

definition put_speech_voice :: "speech_voice \<Rightarrow> protocol_error + bytes" where
  "put_speech_voice v =
     and_then (put_string (sv_uri v)) (\<lambda>b1. and_then (put_string (sv_name v)) (\<lambda>b2. and_then (put_string (sv_lang v)) (\<lambda>b3.
       Inr (b1 @ b2 @ b3 @ put_bool (sv_default v)))))"

definition get_speech_voice :: "speech_voice reading" where
  "get_speech_voice =
     read_bind (get_string MAX_VOICE_FIELD_BYTES) (\<lambda>uri. read_bind (get_string MAX_VOICE_FIELD_BYTES) (\<lambda>name.
     read_bind (get_string MAX_VOICE_FIELD_BYTES) (\<lambda>lang. read_bind get_bool (\<lambda>d.
       read_ok \<lparr>sv_uri = uri, sv_name = name, sv_lang = lang, sv_default = d\<rparr>))))"

definition speech_voice_fits :: "speech_voice \<Rightarrow> bool" where
  "speech_voice_fits v \<longleftrightarrow> (is_utf8 (sv_uri v) \<and> length (sv_uri v) \<le> MAX_VOICE_FIELD_BYTES)
     \<and> (is_utf8 (sv_name v) \<and> length (sv_name v) \<le> MAX_VOICE_FIELD_BYTES)
     \<and> is_utf8 (sv_lang v) \<and> length (sv_lang v) \<le> MAX_VOICE_FIELD_BYTES"

definition put_voices :: "speech_voice list \<Rightarrow> protocol_error + bytes" where
  "put_voices vs = and_then (put_each put_speech_voice vs) (\<lambda>b. Inr (put_u16 (of_nat (length vs)) @ b))"

definition get_voices :: "speech_voice list reading" where
  "get_voices = read_bind get_u16 (\<lambda>count.
     if unat count > MAX_SPEECH_VOICES then read_fail ''speech voice count''
     else read_times (unat count) get_speech_voice)"

definition voices_fits :: "speech_voice list \<Rightarrow> bool" where
  "voices_fits vs \<longleftrightarrow> length vs \<le> MAX_SPEECH_VOICES \<and> list_all speech_voice_fits vs"

definition put_speech_action :: "speech_action \<Rightarrow> protocol_error + bytes" where
  "put_speech_action a =
     (case a of
        Speak content voice lang rate pitch volume \<Rightarrow>
          and_then (put_string content) (\<lambda>b_content.
          and_then (put_string voice) (\<lambda>b_voice.
          and_then (put_string lang) (\<lambda>b_lang.
            Inr (put_u8 1 @ b_content @ b_voice @ b_lang @ put_u32 rate @ put_u32 pitch @ put_u32 volume))))
      | PauseSpeech \<Rightarrow>
          Inr (put_u8 2)
      | ResumeSpeech \<Rightarrow>
          Inr (put_u8 3)
      | CancelSpeech \<Rightarrow>
          Inr (put_u8 4)
      | GetVoices \<Rightarrow>
          Inr (put_u8 5))"

definition get_speech_action :: "speech_action reading" where
  "get_speech_action = read_bind get_u8 (\<lambda>t.
     if t = 1 then
       read_bind (get_string MAX_SPEECH_TEXT_BYTES) (\<lambda>content.
       read_bind (get_string MAX_VOICE_FIELD_BYTES) (\<lambda>voice.
       read_bind (get_string MAX_VOICE_FIELD_BYTES) (\<lambda>lang. read_bind get_u32 (\<lambda>rate.
       read_bind get_u32 (\<lambda>pitch. read_bind get_u32 (\<lambda>volume.
         read_ok (Speak content voice lang rate pitch volume)))))))
     else if t = 2 then read_ok PauseSpeech
     else if t = 3 then read_ok ResumeSpeech
     else if t = 4 then read_ok CancelSpeech
     else if t = 5 then read_ok GetVoices
     else read_fail ''speech action tag'')"

definition speech_action_fits :: "speech_action \<Rightarrow> bool" where
  "speech_action_fits a = (case a of
     Speak content voice lang rate pitch volume \<Rightarrow> (is_utf8 content \<and> length content \<le> MAX_SPEECH_TEXT_BYTES) \<and> (is_utf8 voice \<and> length voice \<le> MAX_VOICE_FIELD_BYTES) \<and> (is_utf8 lang \<and> length lang \<le> MAX_VOICE_FIELD_BYTES)
   | _ \<Rightarrow> True)"

definition put_speech_event :: "speech_event \<Rightarrow> protocol_error + bytes" where
  "put_speech_event a =
     (case a of
        Voices voices \<Rightarrow>
          and_then (put_voices voices) (\<lambda>b_voices.
            Inr (put_u8 1 @ b_voices))
      | SpeechStarted \<Rightarrow>
          Inr (put_u8 2)
      | SpeechEnded \<Rightarrow>
          Inr (put_u8 3)
      | SpeechPaused \<Rightarrow>
          Inr (put_u8 4)
      | SpeechResumed \<Rightarrow>
          Inr (put_u8 5)
      | SpeechCancelled \<Rightarrow>
          Inr (put_u8 6)
      | SpeechFailed reason \<Rightarrow>
          and_then (put_string reason) (\<lambda>b_reason.
            Inr (put_u8 7 @ b_reason)))"

definition get_speech_event :: "speech_event reading" where
  "get_speech_event = read_bind get_u8 (\<lambda>t.
     if t = 1 then
       read_bind get_voices (\<lambda>voices.
         read_ok (Voices voices))
     else if t = 2 then read_ok SpeechStarted
     else if t = 3 then read_ok SpeechEnded
     else if t = 4 then read_ok SpeechPaused
     else if t = 5 then read_ok SpeechResumed
     else if t = 6 then read_ok SpeechCancelled
     else if t = 7 then
       read_bind (get_string MAX_SPEECH_ERROR_BYTES) (\<lambda>reason.
         read_ok (SpeechFailed reason))
     else read_fail ''speech event tag'')"

definition speech_event_fits :: "speech_event \<Rightarrow> bool" where
  "speech_event_fits a = (case a of
     Voices voices \<Rightarrow> voices_fits voices
   | SpeechFailed reason \<Rightarrow> is_utf8 reason \<and> length reason \<le> MAX_SPEECH_ERROR_BYTES
   | _ \<Rightarrow> True)"

record speech_request =
  spr_document :: u64
  spr_utterance_id :: u64
  spr_action :: speech_action

definition validate_speech_request :: "speech_request \<Rightarrow> protocol_error + unit" where
  "validate_speech_request m =
     (case spr_action m of
        Speak content voice lang rate pitch volume \<Rightarrow>
          valid_when (spr_utterance_id m \<noteq> 0 \<and> length content \<le> MAX_SPEECH_TEXT_BYTES
            \<and> length voice \<le> MAX_VOICE_FIELD_BYTES \<and> length lang \<le> MAX_VOICE_FIELD_BYTES
            \<and> f32_within 0x3dcccccd 0x41200000 rate \<and> f32_within 0 0x40000000 pitch \<and> f32_within 0 0x3f800000 volume)
            ''speech utterance''
      | GetVoices \<Rightarrow> valid_when (spr_utterance_id m \<noteq> 0) ''speech action identity''
      | _ \<Rightarrow> valid_when (spr_utterance_id m = 0) ''speech action identity'')"

definition put_speech_request :: "speech_request \<Rightarrow> protocol_error + bytes" where
  "put_speech_request m =
     and_then (put_speech_action (spr_action m)) (\<lambda>b_action.
       Inr (put_u64 (spr_document m) @ put_u64 (spr_utterance_id m) @ b_action))"

definition get_speech_request :: "speech_request reading" where
  "get_speech_request =
     read_bind get_document_id (\<lambda>document. read_bind get_u64 (\<lambda>utterance_id.
     read_bind get_speech_action (\<lambda>action.
       read_ok \<lparr>spr_document = document, spr_utterance_id = utterance_id, spr_action = action\<rparr>)))"

definition speech_request_fits :: "speech_request \<Rightarrow> bool" where
  "speech_request_fits m \<longleftrightarrow> (spr_document m) \<noteq> 0 \<and> speech_action_fits (spr_action m)"

definition encode_speech_request :: "speech_request \<Rightarrow> protocol_error + bytes" where
  "encode_speech_request = encode_checked validate_speech_request put_speech_request"

definition decode_speech_request :: "bytes \<Rightarrow> protocol_error + speech_request" where
  "decode_speech_request = decode_checked validate_speech_request get_speech_request"

record speech_update =
  spu_document :: u64
  spu_utterance_id :: u64
  spu_event :: speech_event

definition validate_speech_update :: "speech_update \<Rightarrow> protocol_error + unit" where
  "validate_speech_update m =
     (case spu_event m of
        Voices voices \<Rightarrow>
          valid_when (spu_utterance_id m \<noteq> 0 \<and> length voices \<le> MAX_SPEECH_VOICES
            \<and> list_all (\<lambda>v. length (sv_uri v) \<le> MAX_VOICE_FIELD_BYTES \<and> length (sv_name v) \<le> MAX_VOICE_FIELD_BYTES
                 \<and> length (sv_lang v) \<le> MAX_VOICE_FIELD_BYTES) voices) ''speech voices''
      | SpeechFailed reason \<Rightarrow>
          valid_when (spu_utterance_id m \<noteq> 0 \<and> length reason \<le> MAX_SPEECH_ERROR_BYTES) ''speech error''
      | _ \<Rightarrow> valid_when (spu_utterance_id m \<noteq> 0) ''speech event identity'')"

definition put_speech_update :: "speech_update \<Rightarrow> protocol_error + bytes" where
  "put_speech_update m =
     and_then (put_speech_event (spu_event m)) (\<lambda>b_event.
       Inr (put_u64 (spu_document m) @ put_u64 (spu_utterance_id m) @ b_event))"

definition get_speech_update :: "speech_update reading" where
  "get_speech_update =
     read_bind get_document_id (\<lambda>document. read_bind get_u64 (\<lambda>utterance_id.
     read_bind get_speech_event (\<lambda>event.
       read_ok \<lparr>spu_document = document, spu_utterance_id = utterance_id, spu_event = event\<rparr>)))"

definition speech_update_fits :: "speech_update \<Rightarrow> bool" where
  "speech_update_fits m \<longleftrightarrow> (spu_document m) \<noteq> 0 \<and> speech_event_fits (spu_event m)"

definition encode_speech_update :: "speech_update \<Rightarrow> protocol_error + bytes" where
  "encode_speech_update = encode_checked validate_speech_update put_speech_update"

definition decode_speech_update :: "bytes \<Rightarrow> protocol_error + speech_update" where
  "decode_speech_update = decode_checked validate_speech_update get_speech_update"

section \<open>Exactness\<close>

lemma reads_broadcast_operation [wire_reads]: "reads get_broadcast_operation (\<lambda>x bs. broadcast_operation_fits x \<and> put_broadcast_operation x = Inr bs)"
  unfolding get_broadcast_operation_def
  apply (rule reads_cong, (rule wire_reads)+)
  subgoal for x bs by (cases x; auto simp: broadcast_operation_fits_def put_broadcast_operation_def result_simps; blast)
  done

lemma reads_broadcast_command [wire_reads]: "reads get_broadcast_command (\<lambda>m bs. broadcast_command_fits m \<and> put_broadcast_command m = Inr bs)"
  unfolding get_broadcast_command_def
  apply (rule reads_cong, (rule wire_reads)+)
  subgoal for m bs by (cases m; auto simp: broadcast_command_fits_def put_broadcast_command_def result_simps; blast)
  done

interpretation broadcast_command: payload_format encode_broadcast_command decode_broadcast_command broadcast_command_fits
  unfolding encode_broadcast_command_def decode_broadcast_command_def by (rule checked_format) (rule reads_broadcast_command)

lemma reads_broadcast_delivery [wire_reads]: "reads get_broadcast_delivery (\<lambda>m bs. broadcast_delivery_fits m \<and> put_broadcast_delivery m = Inr bs)"
  unfolding get_broadcast_delivery_def
  apply (rule reads_cong, (rule wire_reads)+)
  subgoal for m bs by (cases m; auto simp: broadcast_delivery_fits_def put_broadcast_delivery_def result_simps; blast)
  done

interpretation broadcast_delivery: payload_format encode_broadcast_delivery decode_broadcast_delivery broadcast_delivery_fits
  unfolding encode_broadcast_delivery_def decode_broadcast_delivery_def by (rule checked_format) (rule reads_broadcast_delivery)

lemma reads_database_command [wire_reads]: "reads get_database_command (\<lambda>m bs. database_command_fits m \<and> put_database_command m = Inr bs)"
  unfolding get_database_command_def
  apply (rule reads_cong, (rule wire_reads)+)
  subgoal for m bs by (cases m; auto simp: database_command_fits_def put_database_command_def result_simps; blast)
  done

interpretation database_command: payload_format encode_database_command decode_database_command database_command_fits
  unfolding encode_database_command_def decode_database_command_def by (rule checked_format) (rule reads_database_command)

lemma reads_database_event [wire_reads]: "reads get_database_event (\<lambda>m bs. database_event_fits m \<and> put_database_event m = Inr bs)"
  unfolding get_database_event_def
  apply (rule reads_cong, (rule wire_reads)+)
  subgoal for m bs by (cases m; auto simp: database_event_fits_def put_database_event_def result_simps; blast)
  done

interpretation database_event: payload_format encode_database_event decode_database_event database_event_fits
  unfolding encode_database_event_def decode_database_event_def by (rule checked_format) (rule reads_database_event)

lemma reads_protocols [wire_reads]: "reads get_protocols (\<lambda>ps bs. protocols_fits ps \<and> put_protocols ps = Inr bs)"
proof -
  have e: "reads (get_string 128) (\<lambda>x bs. (is_utf8 x \<and> length x \<le> 128) \<and> put_string x = Inr bs)"
    by (rule reads_cong, rule reads_string) auto
  show ?thesis
    unfolding get_protocols_def
    by (rule reads_cong, rule reads_list [OF reads_u8 e, of "\<lambda>n. 32 < n"])
      (auto simp: protocols_fits_def put_protocols_def not_less)
qed

lemma reads_web_socket_operation [wire_reads]: "reads get_web_socket_operation (\<lambda>x bs. web_socket_operation_fits x \<and> put_web_socket_operation x = Inr bs)"
  unfolding get_web_socket_operation_def
  apply (rule reads_cong, (rule wire_reads)+)
  subgoal for x bs by (cases x; auto simp: web_socket_operation_fits_def put_web_socket_operation_def result_simps; blast)
  done

lemma reads_web_socket_event_kind [wire_reads]: "reads get_web_socket_event_kind (\<lambda>x bs. web_socket_event_kind_fits x \<and> put_web_socket_event_kind x = Inr bs)"
  unfolding get_web_socket_event_kind_def
  apply (rule reads_cong, (rule wire_reads)+)
  subgoal for x bs by (cases x; auto simp: web_socket_event_kind_fits_def put_web_socket_event_kind_def result_simps; blast)
  done

lemma reads_web_socket_command [wire_reads]: "reads get_web_socket_command (\<lambda>m bs. web_socket_command_fits m \<and> put_web_socket_command m = Inr bs)"
  unfolding get_web_socket_command_def
  apply (rule reads_cong, (rule wire_reads)+)
  subgoal for m bs by (cases m; auto simp: web_socket_command_fits_def put_web_socket_command_def result_simps; blast)
  done

interpretation web_socket_command: payload_format encode_web_socket_command decode_web_socket_command web_socket_command_fits
  unfolding encode_web_socket_command_def decode_web_socket_command_def by (rule checked_format) (rule reads_web_socket_command)

lemma reads_web_socket_event [wire_reads]: "reads get_web_socket_event (\<lambda>m bs. web_socket_event_fits m \<and> put_web_socket_event m = Inr bs)"
  unfolding get_web_socket_event_def
  apply (rule reads_cong, (rule wire_reads)+)
  subgoal for m bs by (cases m; auto simp: web_socket_event_fits_def put_web_socket_event_def result_simps; blast)
  done

interpretation web_socket_event: payload_format encode_web_socket_event decode_web_socket_event web_socket_event_fits
  unfolding encode_web_socket_event_def decode_web_socket_event_def by (rule checked_format) (rule reads_web_socket_event)

lemma reads_speech_voice: "reads get_speech_voice (\<lambda>v bs. speech_voice_fits v \<and> put_speech_voice v = Inr bs)"
  unfolding get_speech_voice_def
  apply (rule reads_cong, (rule wire_reads)+)
  subgoal for v bs by (cases v; auto simp: speech_voice_fits_def put_speech_voice_def result_simps; blast)
  done

lemma reads_voices [wire_reads]: "reads get_voices (\<lambda>vs bs. voices_fits vs \<and> put_voices vs = Inr bs)"
  unfolding get_voices_def
  by (rule reads_cong, rule reads_list [OF reads_u16 reads_speech_voice, of "\<lambda>n. MAX_SPEECH_VOICES < n"])
    (auto simp: voices_fits_def put_voices_def not_less limit_simps)

lemma reads_speech_action [wire_reads]: "reads get_speech_action (\<lambda>x bs. speech_action_fits x \<and> put_speech_action x = Inr bs)"
  unfolding get_speech_action_def
  apply (rule reads_cong, (rule wire_reads)+)
  subgoal for x bs by (cases x; auto simp: speech_action_fits_def put_speech_action_def result_simps; blast)
  done

lemma reads_speech_event [wire_reads]: "reads get_speech_event (\<lambda>x bs. speech_event_fits x \<and> put_speech_event x = Inr bs)"
  unfolding get_speech_event_def
  apply (rule reads_cong, (rule wire_reads)+)
  subgoal for x bs by (cases x; auto simp: speech_event_fits_def put_speech_event_def result_simps; blast)
  done

lemma reads_speech_request [wire_reads]: "reads get_speech_request (\<lambda>m bs. speech_request_fits m \<and> put_speech_request m = Inr bs)"
  unfolding get_speech_request_def
  apply (rule reads_cong, (rule wire_reads)+)
  subgoal for m bs by (cases m; auto simp: speech_request_fits_def put_speech_request_def result_simps; blast)
  done

interpretation speech_request: payload_format encode_speech_request decode_speech_request speech_request_fits
  unfolding encode_speech_request_def decode_speech_request_def by (rule checked_format) (rule reads_speech_request)

lemma reads_speech_update [wire_reads]: "reads get_speech_update (\<lambda>m bs. speech_update_fits m \<and> put_speech_update m = Inr bs)"
  unfolding get_speech_update_def
  apply (rule reads_cong, (rule wire_reads)+)
  subgoal for m bs by (cases m; auto simp: speech_update_fits_def put_speech_update_def result_simps; blast)
  done

interpretation speech_update: payload_format encode_speech_update decode_speech_update speech_update_fits
  unfolding encode_speech_update_def decode_speech_update_def by (rule checked_format) (rule reads_speech_update)

end
