(* ===== verification/Ipc_Media.thy ===== *)
theory Ipc_Media
  imports Ipc_Channels
begin

text \<open>
  Sensors and media capture: \<^verbatim>\<open>sensor.rs\<close>, \<^verbatim>\<open>media_capture.rs\<close> of \<^verbatim>\<open>src/renderer_protocol\<close> and of
  \<^verbatim>\<open>codec/payload\<close>. Readings are \<^verbatim>\<open>f64\<close> bit patterns.
\<close>

section \<open>Sensors\<close>

datatype sensor_kind =
    Orientation | Motion | Accelerometer | Gyroscope | Magnetometer | AbsoluteOrientation | RelativeOrientation
  | AmbientLight | LinearAcceleration | Gravity | OrientationAbsoluteLegacy

datatype sensor_permission = SensorGranted | SensorDenied
datatype sensor_error = SensorNotAllowed | SensorNotReadable | SensorNotSupported

datatype sensor_action = AskSensor sensor_kind bool | StartSensor sensor_kind "f64 option" | StopSensor sensor_kind

type_synonym vector = "f64 \<times> f64 \<times> f64"

datatype sensor_reading =
    OrientationReading "f64 option" "f64 option" "f64 option" bool
  | MotionReading "vector option" "vector option" "vector option" f64
  | ThreeAxisReading f64 f64 f64 f64
  | QuaternionReading f64 f64 f64 f64 f64
  | IlluminanceReading f64 f64

datatype sensor_event =
  SensorPermission sensor_permission | SensorActivated | SensorRead sensor_reading | SensorFailed sensor_error

fun sensor_kind_tag :: "sensor_kind \<Rightarrow> 8 word" where
  "sensor_kind_tag Orientation = 1"
| "sensor_kind_tag Motion = 2"
| "sensor_kind_tag Accelerometer = 3"
| "sensor_kind_tag Gyroscope = 4"
| "sensor_kind_tag Magnetometer = 5"
| "sensor_kind_tag AbsoluteOrientation = 6"
| "sensor_kind_tag RelativeOrientation = 7"
| "sensor_kind_tag AmbientLight = 8"
| "sensor_kind_tag LinearAcceleration = 9"
| "sensor_kind_tag Gravity = 10"
| "sensor_kind_tag OrientationAbsoluteLegacy = 11"

definition get_sensor_kind :: "sensor_kind reading" where
  "get_sensor_kind = read_bind get_u8 (\<lambda>t.
     if t = 1 then read_ok Orientation
     else if t = 2 then read_ok Motion
     else if t = 3 then read_ok Accelerometer
     else if t = 4 then read_ok Gyroscope
     else if t = 5 then read_ok Magnetometer
     else if t = 6 then read_ok AbsoluteOrientation
     else if t = 7 then read_ok RelativeOrientation
     else if t = 8 then read_ok AmbientLight
     else if t = 9 then read_ok LinearAcceleration
     else if t = 10 then read_ok Gravity
     else if t = 11 then read_ok OrientationAbsoluteLegacy
     else read_fail ''sensor kind'')"

fun sensor_error_tag :: "sensor_error \<Rightarrow> 8 word" where
  "sensor_error_tag SensorNotAllowed = 1"
| "sensor_error_tag SensorNotReadable = 2"
| "sensor_error_tag SensorNotSupported = 3"

definition get_sensor_error :: "sensor_error reading" where
  "get_sensor_error = read_bind get_u8 (\<lambda>t.
     if t = 1 then read_ok SensorNotAllowed
     else if t = 2 then read_ok SensorNotReadable
     else if t = 3 then read_ok SensorNotSupported
     else read_fail ''sensor error'')"

definition put_vector :: "vector \<Rightarrow> bytes" where
  "put_vector v = (case v of (x, y, z) \<Rightarrow> put_u64 x @ put_u64 y @ put_u64 z)"

definition get_vector :: "vector reading" where
  "get_vector = read_bind get_u64 (\<lambda>x. read_bind get_u64 (\<lambda>y. read_bind get_u64 (\<lambda>z. read_ok (x, y, z))))"

definition put_optional_f64 :: "f64 option \<Rightarrow> protocol_error + bytes" where
  "put_optional_f64 = put_optional (\<lambda>v. Inr (put_u64 v))"

definition put_optional_vector :: "vector option \<Rightarrow> protocol_error + bytes" where
  "put_optional_vector = put_optional (\<lambda>v. Inr (put_vector v))"

definition get_optional_f64 :: "f64 option reading" where
  "get_optional_f64 = get_optional get_u64"

definition get_optional_vector :: "vector option reading" where
  "get_optional_vector = get_optional get_vector"

definition put_sensor_action :: "sensor_action \<Rightarrow> protocol_error + bytes" where
  "put_sensor_action a =
     (case a of
        AskSensor kind absolute \<Rightarrow>
          Inr (put_u8 1 @ put_u8 (sensor_kind_tag kind) @ put_bool absolute)
      | StartSensor kind frequency \<Rightarrow>
          and_then (put_optional_f64 frequency) (\<lambda>b_frequency.
            Inr (put_u8 2 @ put_u8 (sensor_kind_tag kind) @ b_frequency))
      | StopSensor kind \<Rightarrow>
          Inr (put_u8 3 @ put_u8 (sensor_kind_tag kind)))"

definition get_sensor_action :: "sensor_action reading" where
  "get_sensor_action = read_bind get_u8 (\<lambda>t.
     if t = 1 then
       read_bind get_sensor_kind (\<lambda>kind. read_bind get_bool (\<lambda>absolute.
         read_ok (AskSensor kind absolute)))
     else if t = 2 then
       read_bind get_sensor_kind (\<lambda>kind. read_bind get_optional_f64 (\<lambda>frequency.
         read_ok (StartSensor kind frequency)))
     else if t = 3 then
       read_bind get_sensor_kind (\<lambda>kind.
         read_ok (StopSensor kind))
     else read_fail ''sensor action'')"

definition sensor_action_fits :: "sensor_action \<Rightarrow> bool" where
  "sensor_action_fits a = True"

definition put_sensor_event :: "sensor_event \<Rightarrow> protocol_error + bytes" where
  "put_sensor_event a =
     (case a of
        SensorPermission SensorGranted \<Rightarrow>
          Inr (put_u8 1)
      | SensorPermission SensorDenied \<Rightarrow>
          Inr (put_u8 2)
      | SensorActivated \<Rightarrow>
          Inr (put_u8 3)
      | SensorFailed error \<Rightarrow>
          Inr (put_u8 4 @ put_u8 (sensor_error_tag error))
      | SensorRead (OrientationReading alpha beta gamma absolute) \<Rightarrow>
          and_then (put_optional_f64 alpha) (\<lambda>b_alpha.
          and_then (put_optional_f64 beta) (\<lambda>b_beta.
          and_then (put_optional_f64 gamma) (\<lambda>b_gamma.
            Inr (put_u8 5 @ b_alpha @ b_beta @ b_gamma @ put_bool absolute))))
      | SensorRead (MotionReading acceleration including rotation interval) \<Rightarrow>
          and_then (put_optional_vector acceleration) (\<lambda>b_acceleration.
          and_then (put_optional_vector including) (\<lambda>b_including.
          and_then (put_optional_vector rotation) (\<lambda>b_rotation.
            Inr (put_u8 6 @ b_acceleration @ b_including @ b_rotation @ put_u64 interval))))
      | SensorRead (ThreeAxisReading x y z timestamp) \<Rightarrow>
          Inr (put_u8 7 @ put_u64 x @ put_u64 y @ put_u64 z @ put_u64 timestamp)
      | SensorRead (QuaternionReading x y z w timestamp) \<Rightarrow>
          Inr (put_u8 8 @ put_u64 x @ put_u64 y @ put_u64 z @ put_u64 w @ put_u64 timestamp)
      | SensorRead (IlluminanceReading illuminance timestamp) \<Rightarrow>
          Inr (put_u8 9 @ put_u64 illuminance @ put_u64 timestamp))"

definition get_sensor_event :: "sensor_event reading" where
  "get_sensor_event = read_bind get_u8 (\<lambda>t.
     if t = 1 then read_ok (SensorPermission SensorGranted)
     else if t = 2 then read_ok (SensorPermission SensorDenied)
     else if t = 3 then read_ok SensorActivated
     else if t = 4 then
       read_bind get_sensor_error (\<lambda>error.
         read_ok (SensorFailed error))
     else if t = 5 then
       read_bind get_optional_f64 (\<lambda>alpha. read_bind get_optional_f64 (\<lambda>beta.
       read_bind get_optional_f64 (\<lambda>gamma. read_bind get_bool (\<lambda>absolute.
         read_ok (SensorRead (OrientationReading alpha beta gamma absolute))))))
     else if t = 6 then
       read_bind get_optional_vector (\<lambda>acceleration.
       read_bind get_optional_vector (\<lambda>including. read_bind get_optional_vector (\<lambda>rotation.
       read_bind get_u64 (\<lambda>interval.
         read_ok (SensorRead (MotionReading acceleration including rotation interval))))))
     else if t = 7 then
       read_bind get_u64 (\<lambda>x. read_bind get_u64 (\<lambda>y. read_bind get_u64 (\<lambda>z.
       read_bind get_u64 (\<lambda>timestamp.
         read_ok (SensorRead (ThreeAxisReading x y z timestamp))))))
     else if t = 8 then
       read_bind get_u64 (\<lambda>x. read_bind get_u64 (\<lambda>y. read_bind get_u64 (\<lambda>z.
       read_bind get_u64 (\<lambda>w. read_bind get_u64 (\<lambda>timestamp.
         read_ok (SensorRead (QuaternionReading x y z w timestamp)))))))
     else if t = 9 then
       read_bind get_u64 (\<lambda>illuminance. read_bind get_u64 (\<lambda>timestamp.
         read_ok (SensorRead (IlluminanceReading illuminance timestamp))))
     else read_fail ''sensor event'')"

definition sensor_event_fits :: "sensor_event \<Rightarrow> bool" where
  "sensor_event_fits a = True"

text \<open>
  The rounded sum of the squares of finite values is positive when one square is: the square of
  \<open>m * 2 ^ (e - 1075)\<close> does not round to zero when it exceeds \<open>2 ^ -1075\<close>, half the smallest positive value.
\<close>

definition square_positive :: "f64 \<Rightarrow> bool" where
  "square_positive v \<longleftrightarrow> f64_exponent v > 0 \<and> 2 ^ 1075 < (2 ^ 52 + f64_fraction v) ^ 2 * 4 ^ f64_exponent v"

definition vector_finite :: "vector \<Rightarrow> bool" where
  "vector_finite v = (case v of (x, y, z) \<Rightarrow> is_finite x \<and> is_finite y \<and> is_finite z)"

definition reading_valid :: "sensor_reading \<Rightarrow> bool" where
  "reading_valid e =
     (case e of
        OrientationReading alpha beta gamma _ \<Rightarrow>
          pred_option is_finite alpha \<and> pred_option is_finite beta \<and> pred_option is_finite gamma
      | MotionReading acceleration including rotation interval \<Rightarrow>
          is_finite interval \<and> f64_ge interval 0 \<and> pred_option vector_finite acceleration
          \<and> pred_option vector_finite including \<and> pred_option vector_finite rotation
      | ThreeAxisReading x y z timestamp \<Rightarrow>
          list_all is_finite [x, y, z, timestamp] \<and> f64_ge timestamp 0
      | QuaternionReading x y z w timestamp \<Rightarrow>
          list_all is_finite [x, y, z, w] \<and> is_finite timestamp \<and> f64_ge timestamp 0
          \<and> list_ex square_positive [x, y, z, w]
      | IlluminanceReading illuminance timestamp \<Rightarrow>
          is_finite illuminance \<and> f64_ge illuminance 0 \<and> is_finite timestamp \<and> f64_ge timestamp 0)"

definition f64_sixty :: f64 where "f64_sixty = 0x404e000000000000"

record sensor_request =
  snr_document :: u64
  snr_request_id :: u64
  snr_client :: request_client
  snr_user_activation :: bool
  snr_action :: sensor_action

definition validate_sensor_request :: "sensor_request \<Rightarrow> protocol_error + unit" where
  "validate_sensor_request m =
     and_then (valid_when (snr_request_id m \<noteq> 0) ''sensor request identifier'') (\<lambda>_.
       case snr_action m of
         AskSensor kind absolute \<Rightarrow>
           valid_when ((kind = Orientation \<or> kind = Motion) \<and> (absolute \<longrightarrow> kind = Orientation)) ''sensor permission kind''
       | StartSensor _ frequency \<Rightarrow>
           valid_when (pred_option (\<lambda>v. is_finite v \<and> \<not> f64_ge 0 v \<and> \<not> f64_lt f64_sixty v) frequency) ''sensor frequency''
       | StopSensor _ \<Rightarrow> Inr ())"

definition put_sensor_request :: "sensor_request \<Rightarrow> protocol_error + bytes" where
  "put_sensor_request m =
     and_then (put_sensor_action (snr_action m)) (\<lambda>b_action.
       Inr (put_u64 (snr_document m) @ put_u64 (snr_request_id m) @ put_client (snr_client m) @
         put_bool (snr_user_activation m) @ b_action))"

definition get_sensor_request :: "sensor_request reading" where
  "get_sensor_request =
     read_bind get_document_id (\<lambda>document. read_bind get_u64 (\<lambda>request_id.
     read_bind get_client (\<lambda>client. read_bind get_bool (\<lambda>user_activation.
     read_bind get_sensor_action (\<lambda>action.
       read_ok \<lparr>snr_document = document, snr_request_id = request_id, snr_client = client, snr_user_activation = user_activation, snr_action = action\<rparr>)))))"

definition sensor_request_fits :: "sensor_request \<Rightarrow> bool" where
  "sensor_request_fits m \<longleftrightarrow> (snr_document m) \<noteq> 0 \<and> client_fits (snr_client m) \<and> sensor_action_fits (snr_action m)"

definition encode_sensor_request :: "sensor_request \<Rightarrow> protocol_error + bytes" where
  "encode_sensor_request = encode_checked validate_sensor_request put_sensor_request"

definition decode_sensor_request :: "bytes \<Rightarrow> protocol_error + sensor_request" where
  "decode_sensor_request = decode_checked validate_sensor_request get_sensor_request"

record sensor_update =
  snu_document :: u64
  snu_request_id :: u64
  snu_event :: sensor_event

definition validate_sensor_update :: "sensor_update \<Rightarrow> protocol_error + unit" where
  "validate_sensor_update m =
     and_then (valid_when (snu_request_id m \<noteq> 0) ''sensor update identifier'') (\<lambda>_.
       case snu_event m of
         SensorRead reading \<Rightarrow> valid_when (reading_valid reading) ''sensor reading''
       | _ \<Rightarrow> Inr ())"

definition put_sensor_update :: "sensor_update \<Rightarrow> protocol_error + bytes" where
  "put_sensor_update m =
     and_then (put_sensor_event (snu_event m)) (\<lambda>b_event.
       Inr (put_u64 (snu_document m) @ put_u64 (snu_request_id m) @ b_event))"

definition get_sensor_update :: "sensor_update reading" where
  "get_sensor_update =
     read_bind get_document_id (\<lambda>document. read_bind get_u64 (\<lambda>request_id.
     read_bind get_sensor_event (\<lambda>event.
       read_ok \<lparr>snu_document = document, snu_request_id = request_id, snu_event = event\<rparr>)))"

definition sensor_update_fits :: "sensor_update \<Rightarrow> bool" where
  "sensor_update_fits m \<longleftrightarrow> (snu_document m) \<noteq> 0 \<and> sensor_event_fits (snu_event m)"

definition encode_sensor_update :: "sensor_update \<Rightarrow> protocol_error + bytes" where
  "encode_sensor_update = encode_checked validate_sensor_update put_sensor_update"

definition decode_sensor_update :: "bytes \<Rightarrow> protocol_error + sensor_update" where
  "decode_sensor_update = decode_checked validate_sensor_update get_sensor_update"

section \<open>Media capture\<close>

definition MAX_CAPTURE_FRAME_BYTES :: nat where [limit_simps]: "MAX_CAPTURE_FRAME_BYTES = 2 * 1024 * 1024"

datatype capture_action = StartCapture bool bool | StopCapture "8 word"
datatype capture_error = CaptureNotAllowed | CaptureNotFound | CaptureNotReadable | CaptureAbort
datatype capture_event = CaptureStarted bool bool | TrackEnded "8 word" | CaptureEnded | CaptureFailed capture_error
datatype capture_frame_kind = VideoNv12 | AudioPcm16

definition put_capture_action :: "capture_action \<Rightarrow> protocol_error + bytes" where
  "put_capture_action a =
     (case a of
        StartCapture camera microphone \<Rightarrow>
          Inr (put_u8 1 @ put_bool camera @ put_bool microphone)
      | StopCapture track \<Rightarrow>
          Inr (put_u8 2 @ put_u8 track))"

definition get_capture_action :: "capture_action reading" where
  "get_capture_action = read_bind get_u8 (\<lambda>t.
     if t = 1 then
       read_bind get_bool (\<lambda>camera. read_bind get_bool (\<lambda>microphone.
         read_ok (StartCapture camera microphone)))
     else if t = 2 then
       read_bind get_u8 (\<lambda>track.
         read_ok (StopCapture track))
     else read_fail ''capture action'')"

definition capture_action_fits :: "capture_action \<Rightarrow> bool" where
  "capture_action_fits a = True"

definition put_capture_event :: "capture_event \<Rightarrow> protocol_error + bytes" where
  "put_capture_event a =
     (case a of
        CaptureStarted camera microphone \<Rightarrow>
          Inr (put_u8 1 @ put_bool camera @ put_bool microphone)
      | CaptureEnded \<Rightarrow>
          Inr (put_u8 2)
      | TrackEnded track \<Rightarrow>
          Inr (put_u8 7 @ put_u8 track)
      | CaptureFailed CaptureNotAllowed \<Rightarrow>
          Inr (put_u8 3)
      | CaptureFailed CaptureNotFound \<Rightarrow>
          Inr (put_u8 4)
      | CaptureFailed CaptureNotReadable \<Rightarrow>
          Inr (put_u8 5)
      | CaptureFailed CaptureAbort \<Rightarrow>
          Inr (put_u8 6))"

definition get_capture_event :: "capture_event reading" where
  "get_capture_event = read_bind get_u8 (\<lambda>t.
     if t = 1 then
       read_bind get_bool (\<lambda>camera. read_bind get_bool (\<lambda>microphone.
         read_ok (CaptureStarted camera microphone)))
     else if t = 2 then read_ok CaptureEnded
     else if t = 7 then
       read_bind get_u8 (\<lambda>track.
         read_ok (TrackEnded track))
     else if t = 3 then read_ok (CaptureFailed CaptureNotAllowed)
     else if t = 4 then read_ok (CaptureFailed CaptureNotFound)
     else if t = 5 then read_ok (CaptureFailed CaptureNotReadable)
     else if t = 6 then read_ok (CaptureFailed CaptureAbort)
     else read_fail ''capture update event'')"

definition capture_event_fits :: "capture_event \<Rightarrow> bool" where
  "capture_event_fits a = True"

fun capture_frame_kind_tag :: "capture_frame_kind \<Rightarrow> 8 word" where
  "capture_frame_kind_tag VideoNv12 = 1"
| "capture_frame_kind_tag AudioPcm16 = 2"

definition get_capture_frame_kind :: "capture_frame_kind reading" where
  "get_capture_frame_kind = read_bind get_u8 (\<lambda>t.
     if t = 1 then read_ok VideoNv12
     else if t = 2 then read_ok AudioPcm16
     else read_fail ''capture frame kind'')"

record capture_request =
  cpr_document :: u64
  cpr_request_id :: u64
  cpr_client :: request_client
  cpr_action :: capture_action

definition validate_capture_request :: "capture_request \<Rightarrow> protocol_error + unit" where
  "validate_capture_request m =
     and_then (valid_when (cpr_request_id m \<noteq> 0) ''capture request identifier'') (\<lambda>_.
       case cpr_action m of
         StartCapture camera microphone \<Rightarrow> valid_when (camera \<or> microphone) ''empty capture request''
       | StopCapture track \<Rightarrow> valid_when (track \<le> 2) ''capture stop track'')"

definition put_capture_request :: "capture_request \<Rightarrow> protocol_error + bytes" where
  "put_capture_request m =
     and_then (put_capture_action (cpr_action m)) (\<lambda>b_action.
       Inr (put_u64 (cpr_document m) @ put_u64 (cpr_request_id m) @ put_client (cpr_client m) @ b_action))"

definition get_capture_request :: "capture_request reading" where
  "get_capture_request =
     read_bind get_document_id (\<lambda>document. read_bind get_u64 (\<lambda>request_id.
     read_bind get_client (\<lambda>client. read_bind get_capture_action (\<lambda>action.
       read_ok \<lparr>cpr_document = document, cpr_request_id = request_id, cpr_client = client, cpr_action = action\<rparr>))))"

definition capture_request_fits :: "capture_request \<Rightarrow> bool" where
  "capture_request_fits m \<longleftrightarrow> (cpr_document m) \<noteq> 0 \<and> client_fits (cpr_client m) \<and> capture_action_fits (cpr_action m)"

definition encode_capture_request :: "capture_request \<Rightarrow> protocol_error + bytes" where
  "encode_capture_request = encode_checked validate_capture_request put_capture_request"

definition decode_capture_request :: "bytes \<Rightarrow> protocol_error + capture_request" where
  "decode_capture_request = decode_checked validate_capture_request get_capture_request"

record capture_update =
  cpu_document :: u64
  cpu_request_id :: u64
  cpu_event :: capture_event

definition validate_capture_update :: "capture_update \<Rightarrow> protocol_error + unit" where
  "validate_capture_update m =
     and_then (valid_when (cpu_request_id m \<noteq> 0) ''capture update identifier'') (\<lambda>_.
       case cpu_event m of
         CaptureStarted camera microphone \<Rightarrow> valid_when (camera \<or> microphone) ''empty capture stream''
       | TrackEnded track \<Rightarrow> valid_when (1 \<le> track \<and> track \<le> 2) ''capture ended track''
       | _ \<Rightarrow> Inr ())"

definition put_capture_update :: "capture_update \<Rightarrow> protocol_error + bytes" where
  "put_capture_update m =
     and_then (put_capture_event (cpu_event m)) (\<lambda>b_event.
       Inr (put_u64 (cpu_document m) @ put_u64 (cpu_request_id m) @ b_event))"

definition get_capture_update :: "capture_update reading" where
  "get_capture_update =
     read_bind get_document_id (\<lambda>document. read_bind get_u64 (\<lambda>request_id.
     read_bind get_capture_event (\<lambda>event.
       read_ok \<lparr>cpu_document = document, cpu_request_id = request_id, cpu_event = event\<rparr>)))"

definition capture_update_fits :: "capture_update \<Rightarrow> bool" where
  "capture_update_fits m \<longleftrightarrow> (cpu_document m) \<noteq> 0 \<and> capture_event_fits (cpu_event m)"

definition encode_capture_update :: "capture_update \<Rightarrow> protocol_error + bytes" where
  "encode_capture_update = encode_checked validate_capture_update put_capture_update"

definition decode_capture_update :: "bytes \<Rightarrow> protocol_error + capture_update" where
  "decode_capture_update = decode_checked validate_capture_update get_capture_update"

text \<open>
  A frame: \<open>width\<close>, \<open>height\<close> and \<open>stride\<close> are the rate, the frame count and the channels of audio. The source
  compares the byte count of a picture with itself, so only the storage height it implies is checked.
\<close>

record capture_frame =
  cf_document :: u64
  cf_request_id :: u64
  cf_track_id :: u64
  cf_sequence :: u64
  cf_timestamp :: u64
  cf_kind :: capture_frame_kind
  cf_width :: u32
  cf_height :: u32
  cf_stride :: u32
  cf_bytes :: bytes

definition validate_picture :: "capture_frame \<Rightarrow> protocol_error + unit" where
  "validate_picture m =
     (let width = unat (cf_width m); height = unat (cf_height m); stride = unat (cf_stride m);
          numerator = length (cf_bytes m) * 2; denominator = stride * 3; storage_height = numerator div denominator
      in and_then (valid_when (cf_track_id m = 1 \<and> width \<noteq> 0 \<and> height \<noteq> 0 \<and> width \<le> 1280 \<and> height \<le> 720
            \<and> even width \<and> even height \<and> width \<le> stride \<and> stride \<le> 1280 * 4 \<and> even stride) ''capture NV12 shape'') (\<lambda>_.
         and_then (valid_when (denominator dvd numerator) ''capture NV12 allocation'') (\<lambda>_.
           valid_when (height \<le> storage_height \<and> storage_height \<le> 720 + 64 \<and> even storage_height)
             ''capture NV12 storage height'')))"

definition validate_samples :: "capture_frame \<Rightarrow> protocol_error + unit" where
  "validate_samples m =
     (let rate = unat (cf_width m); count = unat (cf_height m); channels = unat (cf_stride m)
      in and_then (valid_when (cf_track_id m = 2 \<and> 8000 \<le> rate \<and> rate \<le> 48000 \<and> count \<noteq> 0 \<and> count \<le> 960
            \<and> 1 \<le> channels \<and> channels \<le> 2 \<and> count * 1000 \<le> rate * 20) ''capture PCM shape'') (\<lambda>_.
         valid_when (length (cf_bytes m) = count * channels * 2) ''capture frame byte count''))"

definition validate_capture_frame :: "capture_frame \<Rightarrow> protocol_error + unit" where
  "validate_capture_frame m =
     and_then (valid_when (cf_request_id m \<noteq> 0 \<and> cf_sequence m \<noteq> 0) ''capture frame identity'') (\<lambda>_.
     and_then (valid_when (cf_bytes m \<noteq> [] \<and> length (cf_bytes m) \<le> MAX_CAPTURE_FRAME_BYTES) ''capture frame size'') (\<lambda>_.
       case cf_kind m of VideoNv12 \<Rightarrow> validate_picture m | AudioPcm16 \<Rightarrow> validate_samples m))"

definition put_capture_frame :: "capture_frame \<Rightarrow> protocol_error + bytes" where
  "put_capture_frame m =
     and_then (put_bytes (cf_bytes m)) (\<lambda>b_bytes.
       Inr (put_u64 (cf_document m) @ put_u64 (cf_request_id m) @ put_u64 (cf_track_id m) @
         put_u64 (cf_sequence m) @ put_u64 (cf_timestamp m) @ put_u8 (capture_frame_kind_tag (cf_kind m)) @
         put_u32 (cf_width m) @ put_u32 (cf_height m) @ put_u32 (cf_stride m) @ b_bytes))"

definition get_capture_frame :: "capture_frame reading" where
  "get_capture_frame =
     read_bind get_document_id (\<lambda>document. read_bind get_u64 (\<lambda>request_id.
     read_bind get_u64 (\<lambda>track_id. read_bind get_u64 (\<lambda>sequence.
     read_bind get_u64 (\<lambda>timestamp. read_bind get_capture_frame_kind (\<lambda>kind.
     read_bind get_u32 (\<lambda>width. read_bind get_u32 (\<lambda>height.
     read_bind get_u32 (\<lambda>stride. read_bind (get_bytes MAX_CAPTURE_FRAME_BYTES) (\<lambda>bytes.
       read_ok \<lparr>cf_document = document, cf_request_id = request_id, cf_track_id = track_id, cf_sequence = sequence, cf_timestamp = timestamp, cf_kind = kind, cf_width = width, cf_height = height, cf_stride = stride, cf_bytes = bytes\<rparr>))))))))))"

definition capture_frame_fits :: "capture_frame \<Rightarrow> bool" where
  "capture_frame_fits m \<longleftrightarrow> (cf_document m) \<noteq> 0 \<and> length (cf_bytes m) \<le> MAX_CAPTURE_FRAME_BYTES"

definition encode_capture_frame :: "capture_frame \<Rightarrow> protocol_error + bytes" where
  "encode_capture_frame = encode_checked validate_capture_frame put_capture_frame"

definition decode_capture_frame :: "bytes \<Rightarrow> protocol_error + capture_frame" where
  "decode_capture_frame = decode_checked validate_capture_frame get_capture_frame"

section \<open>Exactness\<close>

lemma reads_sensor_kind [wire_reads]: "reads get_sensor_kind (\<lambda>x bs. bs = put_u8 (sensor_kind_tag x))"
  unfolding get_sensor_kind_def
  apply (rule reads_cong, (rule wire_reads)+)
  subgoal for x bs by (cases x rule: sensor_kind_tag.cases) auto
  done

lemma reads_sensor_error [wire_reads]: "reads get_sensor_error (\<lambda>x bs. bs = put_u8 (sensor_error_tag x))"
  unfolding get_sensor_error_def
  apply (rule reads_cong, (rule wire_reads)+)
  subgoal for x bs by (cases x rule: sensor_error_tag.cases) auto
  done

lemma reads_optional_f64 [wire_reads]: "reads get_optional_f64 (\<lambda>v bs. put_optional_f64 v = Inr bs)"
  unfolding get_optional_f64_def put_optional_f64_def by (rule reads_optional_u64)

lemma reads_optional_vector [wire_reads]: "reads get_optional_vector (\<lambda>v bs. put_optional_vector v = Inr bs)"
proof -
  have "reads get_vector (\<lambda>x bs. True \<and> Inr (put_vector x) = (Inr bs :: protocol_error + bytes))"
    unfolding get_vector_def by (rule reads_cong, (rule wire_reads)+) (auto simp: put_vector_def split: prod.splits)
  from reads_optional [OF this] show ?thesis
    unfolding get_optional_vector_def put_optional_vector_def by (rule reads_cong) (auto simp: pred_option_def)
qed

lemma reads_sensor_action [wire_reads]: "reads get_sensor_action (\<lambda>x bs. sensor_action_fits x \<and> put_sensor_action x = Inr bs)"
  unfolding get_sensor_action_def
  apply (rule reads_cong, (rule wire_reads)+)
  subgoal for x bs by (cases x; auto simp: sensor_action_fits_def put_sensor_action_def result_simps; blast)
  done

lemma reads_sensor_event [wire_reads]: "reads get_sensor_event (\<lambda>x bs. sensor_event_fits x \<and> put_sensor_event x = Inr bs)"
  unfolding get_sensor_event_def
  apply (rule reads_cong, (rule wire_reads)+)
  subgoal for x bs by (cases x; auto simp: sensor_event_fits_def put_sensor_event_def result_simps split: sensor_permission.splits sensor_reading.splits; blast)
  done

lemma reads_sensor_request [wire_reads]: "reads get_sensor_request (\<lambda>m bs. sensor_request_fits m \<and> put_sensor_request m = Inr bs)"
  unfolding get_sensor_request_def
  apply (rule reads_cong, (rule wire_reads)+)
  subgoal for m bs by (cases m; auto simp: sensor_request_fits_def put_sensor_request_def result_simps; blast)
  done

interpretation sensor_request: payload_format encode_sensor_request decode_sensor_request sensor_request_fits
  unfolding encode_sensor_request_def decode_sensor_request_def by (rule checked_format) (rule reads_sensor_request)

lemma reads_sensor_update [wire_reads]: "reads get_sensor_update (\<lambda>m bs. sensor_update_fits m \<and> put_sensor_update m = Inr bs)"
  unfolding get_sensor_update_def
  apply (rule reads_cong, (rule wire_reads)+)
  subgoal for m bs by (cases m; auto simp: sensor_update_fits_def put_sensor_update_def result_simps; blast)
  done

interpretation sensor_update: payload_format encode_sensor_update decode_sensor_update sensor_update_fits
  unfolding encode_sensor_update_def decode_sensor_update_def by (rule checked_format) (rule reads_sensor_update)

lemma reads_capture_action [wire_reads]: "reads get_capture_action (\<lambda>x bs. capture_action_fits x \<and> put_capture_action x = Inr bs)"
  unfolding get_capture_action_def
  apply (rule reads_cong, (rule wire_reads)+)
  subgoal for x bs by (cases x; auto simp: capture_action_fits_def put_capture_action_def result_simps; blast)
  done

lemma reads_capture_event [wire_reads]: "reads get_capture_event (\<lambda>x bs. capture_event_fits x \<and> put_capture_event x = Inr bs)"
  unfolding get_capture_event_def
  apply (rule reads_cong, (rule wire_reads)+)
  subgoal for x bs by (cases x; auto simp: capture_event_fits_def put_capture_event_def result_simps split: capture_error.splits; blast)
  done

lemma reads_capture_frame_kind [wire_reads]: "reads get_capture_frame_kind (\<lambda>x bs. bs = put_u8 (capture_frame_kind_tag x))"
  unfolding get_capture_frame_kind_def
  apply (rule reads_cong, (rule wire_reads)+)
  subgoal for x bs by (cases x rule: capture_frame_kind_tag.cases) auto
  done

lemma reads_capture_request [wire_reads]: "reads get_capture_request (\<lambda>m bs. capture_request_fits m \<and> put_capture_request m = Inr bs)"
  unfolding get_capture_request_def
  apply (rule reads_cong, (rule wire_reads)+)
  subgoal for m bs by (cases m; auto simp: capture_request_fits_def put_capture_request_def result_simps; blast)
  done

interpretation capture_request: payload_format encode_capture_request decode_capture_request capture_request_fits
  unfolding encode_capture_request_def decode_capture_request_def by (rule checked_format) (rule reads_capture_request)

lemma reads_capture_update [wire_reads]: "reads get_capture_update (\<lambda>m bs. capture_update_fits m \<and> put_capture_update m = Inr bs)"
  unfolding get_capture_update_def
  apply (rule reads_cong, (rule wire_reads)+)
  subgoal for m bs by (cases m; auto simp: capture_update_fits_def put_capture_update_def result_simps; blast)
  done

interpretation capture_update: payload_format encode_capture_update decode_capture_update capture_update_fits
  unfolding encode_capture_update_def decode_capture_update_def by (rule checked_format) (rule reads_capture_update)

lemma reads_capture_frame [wire_reads]: "reads get_capture_frame (\<lambda>m bs. capture_frame_fits m \<and> put_capture_frame m = Inr bs)"
  unfolding get_capture_frame_def
  apply (rule reads_cong, (rule wire_reads)+)
  subgoal for m bs by (cases m; auto simp: capture_frame_fits_def put_capture_frame_def result_simps; blast)
  done

interpretation capture_frame: payload_format encode_capture_frame decode_capture_frame capture_frame_fits
  unfolding encode_capture_frame_def decode_capture_frame_def by (rule checked_format) (rule reads_capture_frame)

end
