(* ===== verification/Ipc_Frames.thy ===== *)
theory Ipc_Frames
  imports Ipc_Media
begin

text \<open>
  \<^verbatim>\<open>src/renderer_protocol/codec.rs\<close>: the frames a payload travels in. Each carries the session, a sequence
  number, the kind and the length of the payload; the reader accepts a frame only when all of them are the
  expected ones. The stream below is a parameter: \<open>byte_sink\<close> and \<open>byte_source\<close> are the contracts of
  \<^verbatim>\<open>std::io::Write\<close> and \<^verbatim>\<open>std::io::Read\<close> the code relies on, with \<^verbatim>\<open>Vec<u8>\<close> and \<^verbatim>\<open>&[u8]\<close> as instances.
\<close>

section \<open>Streams\<close>

record 'w sink =
  sink_write_all :: "bytes \<Rightarrow> 'w \<Rightarrow> (string + unit) \<times> 'w"
  sink_flush :: "'w \<Rightarrow> (string + unit) \<times> 'w"

record 'r source =
  source_read_exact :: "nat \<Rightarrow> 'r \<Rightarrow> (string + bytes) \<times> 'r"

text \<open>\<^verbatim>\<open>impl Write for Vec<u8>\<close> and \<^verbatim>\<open>impl Read for &[u8]\<close>.\<close>

definition vec_sink :: "bytes sink" where
  "vec_sink = \<lparr>sink_write_all = \<lambda>bs v. (Inr (), v @ bs), sink_flush = \<lambda>v. (Inr (), v)\<rparr>"

definition slice_source :: "bytes source" where
  "slice_source = \<lparr>source_read_exact = \<lambda>n s.
     if n \<le> length s then (Inr (take n s), drop n s) else (Inl ''failed to fill whole buffer'', [])\<rparr>"

section \<open>Limits and directions\<close>

definition MAGIC :: bytes where "MAGIC = str_bytes ''BRZ1''"
definition HEADER_LENGTH :: nat where [limit_simps]: "HEADER_LENGTH = 32"
definition PROTOCOL_MAJOR :: "16 word" where "PROTOCOL_MAJOR = 19"
definition PROTOCOL_MINOR :: "16 word" where "PROTOCOL_MINOR = 0"
definition FLAG_NONE :: "16 word" where "FLAG_NONE = 0"
definition MAX_CONTROL_PAYLOAD :: nat where [limit_simps]: "MAX_CONTROL_PAYLOAD = 256 * 1024"
definition MAX_FRAME_PAYLOAD :: nat where [limit_simps]: "MAX_FRAME_PAYLOAD = 8 * 1024 * 1024"
definition MAX_STORAGE_FRAME_BYTES :: nat where
  [limit_simps]: "MAX_STORAGE_FRAME_BYTES = 2 * MAX_STORAGE_BYTES_PER_ORIGIN + 26"
definition MAX_STORAGE_WRITE_FRAME_BYTES :: nat where
  [limit_simps]: "MAX_STORAGE_WRITE_FRAME_BYTES = MAX_STORAGE_FRAME_BYTES + MAX_URL_BYTES + 12"
definition MAX_STORAGE_SYNC_FRAME_BYTES :: nat where
  [limit_simps]: "MAX_STORAGE_SYNC_FRAME_BYTES = 4 * MAX_STORAGE_BYTES_PER_ORIGIN + MAX_URL_BYTES + 64"

definition payload_limit :: "16 word \<Rightarrow> nat" where
  "payload_limit kind =
     (if kind = 0x0134 then MAX_STORAGE_WRITE_FRAME_BYTES
      else if kind = 0x0135 then MAX_STORAGE_FRAME_BYTES
      else if kind = 0x0138 then MAX_STORAGE_SYNC_FRAME_BYTES
      else if kind \<in> {0x0180, 0x0181} then MAX_INDEXED_DB_IPC_BYTES + 64
      else if kind \<in> {0x01f0, 0x01f1} then MAX_CLIPBOARD_TEXT_BYTES + 128
      else if kind = 0x0233 then MAX_CAPTURE_FRAME_BYTES + 64
      else if kind \<in> {0x0103, 0x0106, 0x0113, 0x0114, 0x0160} then MAX_FRAME_PAYLOAD
      else MAX_CONTROL_PAYLOAD)"

datatype direction = FromBrowser | FromRenderer

fun direction_allows :: "direction \<Rightarrow> 16 word \<Rightarrow> bool" where
  "direction_allows FromBrowser kind \<longleftrightarrow>
     kind \<in> {1, 3, 5, 7, 0x0101, 0x0103, 0x0105, 0x0107, 0x0109, 0x0111, 0x0113, 0x0115, 0x0117, 0x0121, 0x0123,
       0x0125, 0x0131, 0x0133, 0x0135, 0x0137, 0x0138, 0x0141, 0x0143, 0x0145, 0x0147, 0x0149, 0x014b, 0x014d,
       0x014f, 0x0151, 0x0153, 0x0155, 0x0157, 0x0159, 0x0171, 0x0181, 0x0191, 0x01a1, 0x01b1, 0x01c1, 0x0231,
       0x0233, 0x0241, 0x0251, 0x0253, 0x01d1, 0x01f1, 0x0201, 0x0211, 0x0221, 0x8001}"
| "direction_allows FromRenderer kind \<longleftrightarrow>
     kind \<in> {2, 4, 6, 8, 0x0102, 0x0104, 0x0106, 0x0108, 0x010a, 0x010c, 0x0112, 0x0114, 0x0116, 0x0118, 0x011a,
       0x011e, 0x0120, 0x0122, 0x0132, 0x0134, 0x0136, 0x013a, 0x0150, 0x0152, 0x0156, 0x0160, 0x0170, 0x0180,
       0x0190, 0x01a0, 0x01b0, 0x01c0, 0x0230, 0x0240, 0x01d0, 0x01e0, 0x01f0, 0x0200, 0x0210, 0x0220, 0x8002}"

definition u64_succ :: "u64 \<Rightarrow> u64 option" where
  "u64_succ n = (if n = - 1 then None else Some (n + 1))"

section \<open>\<^verbatim>\<open>FrameWriter\<close>\<close>

record 'w frame_writer =
  fw_inner :: 'w
  fw_session :: u64
  fw_next_sequence :: u64

definition frame_writer_new :: "'w \<Rightarrow> u64 \<Rightarrow> 'w frame_writer" where
  "frame_writer_new inner session = \<lparr>fw_inner = inner, fw_session = session, fw_next_sequence = 1\<rparr>"

definition frame_header :: "16 word \<Rightarrow> nat \<Rightarrow> u64 \<Rightarrow> u64 \<Rightarrow> bytes" where
  "frame_header kind n session sequence =
     MAGIC @ put_u16 PROTOCOL_MAJOR @ put_u16 PROTOCOL_MINOR @ put_u16 kind @ put_u16 FLAG_NONE
     @ put_u32 (of_nat n) @ put_u64 session @ put_u64 sequence"

text \<open>The \<^verbatim>\<open>?\<close> operator on calls that change a stream.\<close>

definition io_then :: "('s \<Rightarrow> (string + 'a) \<times> 's) \<Rightarrow> ('a \<Rightarrow> 's \<Rightarrow> (protocol_error + 'b) \<times> 's) \<Rightarrow> 's \<Rightarrow> (protocol_error + 'b) \<times> 's" where
  "io_then f g s = (case f s of (Inl e, s') \<Rightarrow> (Inl (Io e), s') | (Inr x, s') \<Rightarrow> g x s')"

definition write_frame :: "'w sink \<Rightarrow> 16 word \<Rightarrow> bytes \<Rightarrow> 'w frame_writer \<Rightarrow> (protocol_error + unit) \<times> 'w frame_writer" where
  "write_frame io kind payload w =
     (if length payload > payload_limit kind
      then (Inl (PayloadTooLarge (unat (of_nat (length payload) :: u32))), w)
      else case u64_succ (fw_next_sequence w) of
        None \<Rightarrow> (Inl SequenceExhausted, w)
      | Some next \<Rightarrow>
          let header = frame_header kind (length payload) (fw_session w) (fw_next_sequence w);
              (r, inner) =
                io_then (sink_write_all io header) (\<lambda>_.
                io_then (sink_write_all io payload) (\<lambda>_.
                io_then (sink_flush io) (\<lambda>_ i. (Inr (), i)))) (fw_inner w)
          in (r, w\<lparr>fw_inner := inner, fw_next_sequence := next\<rparr>))"

section \<open>\<^verbatim>\<open>FrameReader\<close>\<close>

record 'r frame_reader =
  fr_inner :: 'r
  fr_session :: u64
  fr_next_sequence :: u64
  fr_max_payload :: nat

definition frame_reader_new :: "'r \<Rightarrow> u64 \<Rightarrow> 'r frame_reader" where
  "frame_reader_new inner session =
     \<lparr>fr_inner = inner, fr_session = session, fr_next_sequence = 1,
      fr_max_payload = max MAX_FRAME_PAYLOAD MAX_STORAGE_SYNC_FRAME_BYTES\<rparr>"

definition with_max_payload :: "nat \<Rightarrow> 'r frame_reader \<Rightarrow> 'r frame_reader" where
  "with_max_payload maximum r =
     r\<lparr>fr_max_payload := min maximum (max MAX_FRAME_PAYLOAD MAX_STORAGE_SYNC_FRAME_BYTES)\<rparr>"

definition field_at :: "nat \<Rightarrow> nat \<Rightarrow> bytes \<Rightarrow> bytes" where
  "field_at i n bs = take n (drop i bs)"

text \<open>What the reader checks of a header before it believes the length in it.\<close>

definition check_header :: "direction \<Rightarrow> 'r frame_reader \<Rightarrow> bytes \<Rightarrow> protocol_error + 16 word \<times> nat" where
  "check_header direction r header =
     (let major = from_le_bytes (field_at 4 2 header); minor = from_le_bytes (field_at 6 2 header);
          kind = from_le_bytes (field_at 8 2 header); flags = from_le_bytes (field_at 10 2 header) :: 16 word;
          payload_length = from_le_bytes (field_at 12 4 header) :: u32;
          session = from_le_bytes (field_at 16 8 header); sequence = from_le_bytes (field_at 24 8 header)
      in if field_at 0 4 header \<noteq> MAGIC then Inl InvalidMagic
         else if major \<noteq> PROTOCOL_MAJOR \<or> minor > PROTOCOL_MINOR
         then Inl (IncompatibleVersion (unat major) (unat minor))
         else if \<not> direction_allows direction kind then Inl (UnexpectedMessage (unat kind))
         else if flags \<noteq> FLAG_NONE then Inl (ReservedFlags (unat flags))
         else if unat payload_length > min (fr_max_payload r) (payload_limit kind)
         then Inl (PayloadTooLarge (unat payload_length))
         else if session \<noteq> fr_session r then Inl (WrongSession (unat (fr_session r)) (unat session))
         else if sequence \<noteq> fr_next_sequence r then Inl (WrongSequence (unat (fr_next_sequence r)) (unat sequence))
         else if u64_succ sequence = None then Inl SequenceExhausted
         else Inr (kind, unat payload_length))"

definition read_frame :: "'r source \<Rightarrow> direction \<Rightarrow> 'r frame_reader \<Rightarrow> (protocol_error + 16 word \<times> bytes) \<times> 'r frame_reader" where
  "read_frame io direction r =
     (case source_read_exact io HEADER_LENGTH (fr_inner r) of
        (Inl e, inner) \<Rightarrow> (Inl (Io e), r\<lparr>fr_inner := inner\<rparr>)
      | (Inr header, inner) \<Rightarrow>
          case check_header direction r header of
            Inl e \<Rightarrow> (Inl e, r\<lparr>fr_inner := inner\<rparr>)
          | Inr (kind, n) \<Rightarrow>
              case source_read_exact io n inner of
                (Inl e, inner') \<Rightarrow> (Inl (Io e), r\<lparr>fr_inner := inner', fr_next_sequence := fr_next_sequence r + 1\<rparr>)
              | (Inr payload, inner') \<Rightarrow>
                  (Inr (kind, payload), r\<lparr>fr_inner := inner', fr_next_sequence := fr_next_sequence r + 1\<rparr>))"

section \<open>Facts\<close>

type_synonym frame = "16 word \<times> bytes"

text \<open>The bytes of a frame and of a run of frames with consecutive sequence numbers.\<close>

definition frame_bytes :: "u64 \<Rightarrow> u64 \<Rightarrow> frame \<Rightarrow> bytes" where
  "frame_bytes session sequence f = frame_header (fst f) (length (snd f)) session sequence @ snd f"

fun frames_bytes :: "u64 \<Rightarrow> u64 \<Rightarrow> frame list \<Rightarrow> bytes" where
  "frames_bytes session sequence [] = []"
| "frames_bytes session sequence (f # fs) = frame_bytes session sequence f @ frames_bytes session (sequence + 1) fs"

definition frame_ok :: "direction \<Rightarrow> nat \<Rightarrow> frame \<Rightarrow> bool" where
  "frame_ok d maximum f \<longleftrightarrow> direction_allows d (fst f) \<and> length (snd f) \<le> min maximum (payload_limit (fst f))"

lemma payload_limit_bound: "payload_limit kind \<le> u32_max"
  by (simp add: payload_limit_def limit_simps)

lemma put_length [simp]: "length (put_u32 u) = 4" "length (put_u64 w) = 8"
  by (simp_all add: put_u32_def put_u64_def)

lemma MAGIC_length [simp]: "length MAGIC = 4"
  by (simp add: MAGIC_def)

lemma frame_header_length [simp]: "length (frame_header kind n session sequence) = HEADER_LENGTH"
  by (simp add: frame_header_def HEADER_LENGTH_def)

lemma drop_of_append: "length xs \<le> n \<Longrightarrow> drop n (xs @ ys) = drop (n - length xs) ys"
  by simp

text \<open>A header is the seven fields it is sliced into.\<close>

lemma header_fields:
  assumes "length h = HEADER_LENGTH"
  shows "h = m @ a @ b @ c @ d @ e @ f @ g \<and> length m = 4 \<and> length a = 2 \<and> length b = 2 \<and> length c = 2
      \<and> length d = 2 \<and> length e = 4 \<and> length f = 8 \<and> length g = 8 \<longleftrightarrow>
    m = field_at 0 4 h \<and> a = field_at 4 2 h \<and> b = field_at 6 2 h \<and> c = field_at 8 2 h \<and> d = field_at 10 2 h
      \<and> e = field_at 12 4 h \<and> f = field_at 16 8 h \<and> g = field_at 24 8 h" (is "?L \<longleftrightarrow> ?R")
proof
  assume ?L
  then show ?R by (simp add: field_at_def)
next
  assume R: ?R
  have s: "field_at i n h @ drop k h = drop i h" if "k = i + n" for i n k
    unfolding that field_at_def by (metis add.commute append_take_drop_id drop_drop)
  have "drop 24 h = field_at 24 8 h" using assms by (simp add: field_at_def HEADER_LENGTH_def)
  then have "field_at 0 4 h @ field_at 4 2 h @ field_at 6 2 h @ field_at 8 2 h @ field_at 10 2 h @ field_at 12 4 h
      @ field_at 16 8 h @ field_at 24 8 h = drop 0 h"
    using s [of 4 0 4] s [of 6 4 2] s [of 8 6 2] s [of 10 8 2] s [of 12 10 2] s [of 16 12 4] s [of 24 16 8]
    by simp
  moreover have "length (field_at i n h) = n" if "i + n \<le> 32" for i n
    using that assms by (simp add: field_at_def HEADER_LENGTH_def)
  ultimately show ?L using R by simp
qed

lemma word_field:
  assumes "LENGTH('a) = 8 * length bs"
  shows "from_le_bytes bs = (w :: 'a::len word) \<longleftrightarrow> bs = to_le_bytes w"
  using word_as_bytes [OF assms] by simp

lemma u64_succ_None [simp]: "u64_succ n = None \<longleftrightarrow> n = - 1" "u64_succ n = Some m \<longleftrightarrow> n \<noteq> - 1 \<and> m = n + 1"
  by (auto simp: u64_succ_def)

lemma no_later_minor: "minor > PROTOCOL_MINOR \<longleftrightarrow> minor \<noteq> PROTOCOL_MINOR"
  by (simp add: PROTOCOL_MINOR_def word_neq_0_conv)

lemma check_header_Inr:
  assumes "length h = HEADER_LENGTH"
  shows "check_header d r h = Inr (kind, n) \<longleftrightarrow>
    h = frame_header kind n (fr_session r) (fr_next_sequence r) \<and> direction_allows d kind
      \<and> n \<le> min (fr_max_payload r) (payload_limit kind) \<and> fr_next_sequence r \<noteq> - 1"
proof -
  let ?f = "\<lambda>i n. field_at i n h"
  have len: "length (?f i n) = n" if "i + n \<le> 32" for i n
    using that assms by (simp add: field_at_def HEADER_LENGTH_def)
  have w16: "from_le_bytes (?f i 2) = (w :: 16 word) \<longleftrightarrow> ?f i 2 = put_u16 w" if "i + 2 \<le> 32" for i w
    unfolding put_u16_def by (rule word_field) (use len [OF that] in simp)
  have w32: "from_le_bytes (?f i 4) = (w :: 32 word) \<longleftrightarrow> ?f i 4 = put_u32 w" if "i + 4 \<le> 32" for i w
    unfolding put_u32_def by (rule word_field) (use len [OF that] in simp)
  have w64: "from_le_bytes (?f i 8) = (w :: 64 word) \<longleftrightarrow> ?f i 8 = put_u64 w" if "i + 8 \<le> 32" for i w
    unfolding put_u64_def by (rule word_field) (use len [OF that] in simp)
  have "check_header d r h = Inr (kind, n) \<longleftrightarrow>
    ?f 0 4 = MAGIC \<and> (from_le_bytes (?f 4 2) :: 16 word) = PROTOCOL_MAJOR \<and> from_le_bytes (?f 6 2) = PROTOCOL_MINOR
    \<and> from_le_bytes (?f 8 2) = kind \<and> from_le_bytes (?f 10 2) = FLAG_NONE \<and> unat (from_le_bytes (?f 12 4) :: u32) = n
    \<and> from_le_bytes (?f 16 8) = fr_session r \<and> from_le_bytes (?f 24 8) = fr_next_sequence r
    \<and> direction_allows d kind \<and> n \<le> min (fr_max_payload r) (payload_limit kind) \<and> fr_next_sequence r \<noteq> - 1"
    unfolding check_header_def Let_def no_later_minor by auto
  also have "\<dots> \<longleftrightarrow> (?f 0 4 = MAGIC \<and> ?f 4 2 = put_u16 PROTOCOL_MAJOR \<and> ?f 6 2 = put_u16 PROTOCOL_MINOR
    \<and> ?f 8 2 = put_u16 kind \<and> ?f 10 2 = put_u16 FLAG_NONE \<and> ?f 12 4 = put_u32 (of_nat n)
    \<and> ?f 16 8 = put_u64 (fr_session r) \<and> ?f 24 8 = put_u64 (fr_next_sequence r))
    \<and> direction_allows d kind \<and> n \<le> min (fr_max_payload r) (payload_limit kind) \<and> fr_next_sequence r \<noteq> - 1"
    using payload_limit_bound [of kind] by (auto simp: w16 w32 w64 u32_of_length)
  also have "\<dots> \<longleftrightarrow> h = frame_header kind n (fr_session r) (fr_next_sequence r) \<and> direction_allows d kind
      \<and> n \<le> min (fr_max_payload r) (payload_limit kind) \<and> fr_next_sequence r \<noteq> - 1"
    unfolding frame_header_def
    using header_fields [OF assms, of MAGIC "put_u16 PROTOCOL_MAJOR" "put_u16 PROTOCOL_MINOR" "put_u16 kind"
        "put_u16 FLAG_NONE" "put_u32 (of_nat n)" "put_u64 (fr_session r)" "put_u64 (fr_next_sequence r)"]
    by (auto simp: eq_commute [of _ "field_at _ _ _"])
  finally show ?thesis .
qed

text \<open>A run of calls, left at the first error.\<close>

fun write_frames :: "'w sink \<Rightarrow> frame list \<Rightarrow> 'w frame_writer \<Rightarrow> (protocol_error + unit) \<times> 'w frame_writer" where
  "write_frames io [] w = (Inr (), w)"
| "write_frames io (f # fs) w =
     (case write_frame io (fst f) (snd f) w of
        (Inl e, w') \<Rightarrow> (Inl e, w')
      | (Inr _, w') \<Rightarrow> write_frames io fs w')"

fun read_frames :: "'r source \<Rightarrow> direction \<Rightarrow> nat \<Rightarrow> 'r frame_reader \<Rightarrow> (protocol_error + frame list) \<times> 'r frame_reader" where
  "read_frames io d 0 r = (Inr [], r)"
| "read_frames io d (Suc n) r =
     (case read_frame io d r of
        (Inl e, r') \<Rightarrow> (Inl e, r')
      | (Inr f, r') \<Rightarrow> map_prod (map_sum id ((#) f)) id (read_frames io d n r'))"

lemma map_prod_Inr [simp]: "map_prod (map_sum id g) id p = (Inr y, s) \<longleftrightarrow> (\<exists>x. p = (Inr x, s) \<and> y = g x)"
  by (cases p, cases "fst p") auto

lemma unat_last: "(q :: u64) = - 1 \<longleftrightarrow> unat q = u64_max"
proof -
  have "unat (- 1 :: u64) = u64_max"
    by (simp add: unsigned_minus_1_eq_mask mask_eq_exp_minus_1 u64_max_eq)
  then show ?thesis by (metis word_eq_iff_unsigned)
qed

lemma succ_not_max: "(q :: u64) \<noteq> - 1 \<Longrightarrow> unat (q + 1) = Suc (unat q)"
  using word_bound [of q] by (auto simp: unat_last u64_max_def unat_word_ariths)

section \<open>The contract of the stream below a writer\<close>

locale byte_sink =
  fixes io :: "'w sink" and written :: "'w \<Rightarrow> bytes"
  assumes all_written: "sink_write_all io bs w = (Inr (), w') \<Longrightarrow> written w' = written w @ bs"
    and part_written: "sink_write_all io bs w = (Inl e, w') \<Longrightarrow> \<exists>k. written w' = written w @ take k bs"
    and flushed: "sink_flush io w = (r, w') \<Longrightarrow> written w' = written w"
begin

lemma write_frame_ok:
  assumes "write_frame io kind payload w = (Inr u, w')"
  shows "written (fw_inner w') = written (fw_inner w) @ frame_bytes (fw_session w) (fw_next_sequence w) (kind, payload)
    \<and> fw_session w' = fw_session w \<and> fw_next_sequence w' = fw_next_sequence w + 1
    \<and> fw_next_sequence w \<noteq> - 1 \<and> length payload \<le> payload_limit kind"
  using assms
  by (auto simp: write_frame_def io_then_def frame_bytes_def Let_def not_less
        split: if_splits option.splits prod.splits sum.splits dest!: all_written flushed)

text \<open>A failed write may leave part of the frame behind, and no more than the frame.\<close>

lemma write_frame_failed:
  assumes "write_frame io kind payload w = (Inl e, w')"
  shows "\<exists>k. written (fw_inner w') =
      written (fw_inner w) @ take k (frame_bytes (fw_session w) (fw_next_sequence w) (kind, payload))"
proof -
  let ?h = "frame_header kind (length payload) (fw_session w) (fw_next_sequence w)"
  consider "w' = w" | i where "sink_write_all io ?h (fw_inner w) = (Inl i, fw_inner w')"
    | i v where "sink_write_all io ?h (fw_inner w) = (Inr (), v)" "sink_write_all io payload v = (Inl i, fw_inner w')"
    | v x i where "sink_write_all io ?h (fw_inner w) = (Inr (), v)" "sink_write_all io payload v = (Inr (), x)"
      "sink_flush io x = (Inl i, fw_inner w')"
    using assms
    by (auto simp: write_frame_def io_then_def Let_def split: if_splits option.splits prod.splits sum.splits)
  then show ?thesis
  proof cases
    case 1
    then show ?thesis by (auto intro: exI [of _ 0])
  next
    case 2
    then obtain k where "written (fw_inner w') = written (fw_inner w) @ take k ?h" using part_written by blast
    then show ?thesis by (auto simp: frame_bytes_def min_def intro!: exI [of _ "min k (length ?h)"])
  next
    case 3
    then obtain k where "written (fw_inner w') = written v @ take k payload" using part_written by blast
    then show ?thesis using all_written [OF 3(1)]
      by (auto simp: frame_bytes_def intro!: exI [of _ "length ?h + k"])
  next
    case 4
    then show ?thesis
      using all_written [OF 4(1)] all_written [OF 4(2)] flushed [OF 4(3)]
      by (auto simp: frame_bytes_def intro!: exI [of _ "length ?h + length payload"])
  qed
qed

lemma write_frames_ok:
  assumes "write_frames io fs w = (Inr u, w')"
  shows "written (fw_inner w') = written (fw_inner w) @ frames_bytes (fw_session w) (fw_next_sequence w) fs
    \<and> fw_session w' = fw_session w \<and> list_all (\<lambda>f. length (snd f) \<le> payload_limit (fst f)) fs"
  using assms
proof (induction fs arbitrary: w)
  case (Cons f fs)
  then obtain v w1 where one: "write_frame io (fst f) (snd f) w = (Inr v, w1)" and rest: "write_frames io fs w1 = (Inr u, w')"
    by (auto split: prod.splits sum.splits)
  from write_frame_ok [OF one] Cons.IH [OF rest] show ?case by simp
qed simp

end

locale steady_sink = byte_sink +
  assumes never_fails: "fst (sink_write_all io bs w) = Inr ()" "fst (sink_flush io w) = Inr ()"
begin

lemma write_frame_accepts:
  assumes "length payload \<le> payload_limit kind" "fw_next_sequence w \<noteq> - 1"
  shows "\<exists>w'. write_frame io kind payload w = (Inr (), w')"
proof -
  have "sink_write_all io bs x = (Inr (), snd (sink_write_all io bs x))" "sink_flush io x = (Inr (), snd (sink_flush io x))" for bs x
    by (simp_all add: prod_eq_iff never_fails)
  then have "io_then (sink_write_all io bs) g x = g () (snd (sink_write_all io bs x))"
    "io_then (sink_flush io) g x = g () (snd (sink_flush io x))" for bs x and g :: "unit \<Rightarrow> 'a \<Rightarrow> (protocol_error + unit) \<times> 'a"
    by (metis (no_types, lifting) io_then_def case_prod_conv sum.case(2))+
  with assms show ?thesis
    by (simp add: write_frame_def Let_def not_less split: option.split)
qed

lemma write_frames_accepts:
  assumes "list_all (\<lambda>f. length (snd f) \<le> payload_limit (fst f)) fs"
    and "unat (fw_next_sequence w) + length fs \<le> u64_max"
  shows "\<exists>w'. write_frames io fs w = (Inr (), w')"
  using assms
proof (induction fs arbitrary: w)
  case (Cons f fs)
  have "fw_next_sequence w \<noteq> - 1"
    using Cons.prems by (auto simp: unat_last)
  with Cons.prems obtain w1 where w1: "write_frame io (fst f) (snd f) w = (Inr (), w1)"
    using write_frame_accepts [of "snd f" "fst f" w] by auto
  with write_frame_ok [OF w1] Cons.prems Cons.IH [of w1] show ?case by (simp add: succ_not_max)
qed simp

end

section \<open>The contract of the stream below a reader\<close>

locale byte_source =
  fixes io :: "'r source" and unread :: "'r \<Rightarrow> bytes"
  assumes read_ok: "source_read_exact io n r = (Inr bs, r') \<Longrightarrow> unread r = bs @ unread r' \<and> length bs = n"
begin

lemma read_frame_ok:
  assumes "read_frame io d r = (Inr f, r')"
  shows "unread (fr_inner r) = frame_bytes (fr_session r) (fr_next_sequence r) f @ unread (fr_inner r')
    \<and> frame_ok d (fr_max_payload r) f \<and> fr_next_sequence r \<noteq> - 1
    \<and> fr_session r' = fr_session r \<and> fr_max_payload r' = fr_max_payload r
    \<and> fr_next_sequence r' = fr_next_sequence r + 1"
proof -
  obtain h i kind n payload j where h: "source_read_exact io HEADER_LENGTH (fr_inner r) = (Inr h, i)"
    and c: "check_header d r h = Inr (kind, n)" and p: "source_read_exact io n i = (Inr payload, j)"
    and res: "f = (kind, payload)" "r' = r\<lparr>fr_inner := j, fr_next_sequence := fr_next_sequence r + 1\<rparr>"
    using assms by (auto simp: read_frame_def split: prod.splits sum.splits)
  from read_ok [OF h] read_ok [OF p] c res show ?thesis
    by (auto simp: check_header_Inr frame_bytes_def frame_ok_def)
qed

lemma read_frames_ok:
  assumes "read_frames io d n r = (Inr fs, r')"
  shows "unread (fr_inner r) = frames_bytes (fr_session r) (fr_next_sequence r) fs @ unread (fr_inner r')
    \<and> list_all (frame_ok d (fr_max_payload r)) fs \<and> length fs = n \<and> unat (fr_next_sequence r) + n \<le> u64_max
    \<and> fr_session r' = fr_session r \<and> fr_max_payload r' = fr_max_payload r
    \<and> fr_next_sequence r' = fr_next_sequence r + of_nat n"
  using assms
proof (induction n arbitrary: r fs)
  case 0
  then show ?case using word_bound [of "fr_next_sequence r"] by (auto simp: u64_max_def)
next
  case (Suc n)
  then obtain f gs r1 where one: "read_frame io d r = (Inr f, r1)" and rest: "read_frames io d n r1 = (Inr gs, r')"
    and fs: "fs = f # gs"
    by (auto split: prod.splits sum.splits)
  from read_frame_ok [OF one] Suc.IH [OF rest] show ?case
    by (auto simp: fs succ_not_max add.assoc)
qed

end

locale full_source = byte_source +
  assumes available: "n \<le> length (unread r) \<Longrightarrow> \<exists>bs r'. source_read_exact io n r = (Inr bs, r')"
begin

lemma read_frame_accepts:
  assumes "unread (fr_inner r) = frame_bytes (fr_session r) (fr_next_sequence r) f @ rest"
    and "frame_ok d (fr_max_payload r) f" "fr_next_sequence r \<noteq> - 1"
  shows "\<exists>r'. read_frame io d r = (Inr f, r')"
proof -
  let ?h = "frame_header (fst f) (length (snd f)) (fr_session r) (fr_next_sequence r)"
  obtain h i where h: "source_read_exact io HEADER_LENGTH (fr_inner r) = (Inr h, i)"
    using available [of HEADER_LENGTH "fr_inner r"] assms(1) by (auto simp: frame_bytes_def)
  with read_ok [OF h] assms(1) have i: "h = ?h" "unread i = snd f @ rest"
    by (auto simp: frame_bytes_def append_eq_append_conv)
  then obtain payload j where p: "source_read_exact io (length (snd f)) i = (Inr payload, j)"
    using available [of "length (snd f)" i] by auto
  with read_ok [OF p] i have "payload = snd f" by (auto simp: append_eq_append_conv)
  moreover have "check_header d r h = Inr (fst f, length (snd f))"
    using assms(2,3) i(1) by (simp add: check_header_Inr frame_ok_def)
  ultimately show ?thesis using h p by (cases f) (auto simp: read_frame_def)
qed

lemma read_frames_accepts:
  assumes "unread (fr_inner r) = frames_bytes (fr_session r) (fr_next_sequence r) fs @ rest"
    and "list_all (frame_ok d (fr_max_payload r)) fs" "unat (fr_next_sequence r) + length fs \<le> u64_max"
  shows "\<exists>r'. read_frames io d (length fs) r = (Inr fs, r')"
  using assms
proof (induction fs arbitrary: r)
  case (Cons f fs)
  have "fr_next_sequence r \<noteq> - 1"
    using Cons.prems by (auto simp: unat_last)
  moreover from this obtain r1 where r1: "read_frame io d r = (Inr f, r1)"
    using read_frame_accepts [of r f] Cons.prems by auto
  note ok = read_frame_ok [OF r1]
  ultimately have "\<exists>r'. read_frames io d (length fs) r1 = (Inr fs, r')"
    using Cons.prems by (intro Cons.IH) (auto simp: succ_not_max)
  with r1 show ?case by auto
qed simp

end

interpretation vec: steady_sink vec_sink "\<lambda>v. v"
  by unfold_locales (auto simp: vec_sink_def)

interpretation slice: full_source slice_source "\<lambda>s. s"
  by unfold_locales (auto simp: slice_source_def split: if_splits)

section \<open>What a reader makes of a stream\<close>

lemma frame_header_fields:
  "field_at 0 4 (frame_header kind n s q) = MAGIC" "field_at 4 2 (frame_header kind n s q) = put_u16 PROTOCOL_MAJOR"
  "field_at 6 2 (frame_header kind n s q) = put_u16 PROTOCOL_MINOR" "field_at 8 2 (frame_header kind n s q) = put_u16 kind"
  "field_at 10 2 (frame_header kind n s q) = put_u16 FLAG_NONE" "field_at 12 4 (frame_header kind n s q) = put_u32 (of_nat n)"
  "field_at 16 8 (frame_header kind n s q) = put_u64 s" "field_at 24 8 (frame_header kind n s q) = put_u64 q"
  using header_fields [OF frame_header_length [of kind n s q], of MAGIC "put_u16 PROTOCOL_MAJOR" "put_u16 PROTOCOL_MINOR"
      "put_u16 kind" "put_u16 FLAG_NONE" "put_u32 (of_nat n)" "put_u64 s" "put_u64 q"]
  by (simp_all add: frame_header_def)

lemma from_put [simp]:
  "from_le_bytes (put_u16 a) = a" "from_le_bytes (put_u32 b) = b" "from_le_bytes (put_u64 c) = c"
  unfolding put_u16_def put_u32_def put_u64_def by (simp_all add: word_field)

lemma check_frame_header:
  assumes "n \<le> u32_max"
  shows "check_header d r (frame_header kind n s q) =
     (if \<not> direction_allows d kind then Inl (UnexpectedMessage (unat kind))
      else if n > min (fr_max_payload r) (payload_limit kind) then Inl (PayloadTooLarge n)
      else if s \<noteq> fr_session r then Inl (WrongSession (unat (fr_session r)) (unat s))
      else if q \<noteq> fr_next_sequence r then Inl (WrongSequence (unat (fr_next_sequence r)) (unat q))
      else if q = - 1 then Inl SequenceExhausted else Inr (kind, n))"
proof -
  have "unat (of_nat n :: u32) = n" using assms by (simp add: u32_length)
  then show ?thesis by (simp add: check_header_def frame_header_fields Let_def no_later_minor)
qed

text \<open>C16: Frames written to a stream and read from the other end in the same session arrive complete and in
  order, whatever their kinds and payloads, as long as each is allowed in that direction and keeps to the
  limit of its kind, and the sequence numbers last.\<close>

theorem frames_arrive_in_order:
  assumes "list_all (frame_ok d (max MAX_FRAME_PAYLOAD MAX_STORAGE_SYNC_FRAME_BYTES)) fs" "length fs < u64_max"
  shows "\<exists>w. write_frames vec_sink fs (frame_writer_new [] session) = (Inr (), w)
    \<and> fst (read_frames slice_source d (length fs) (frame_reader_new (fw_inner w) session)) = Inr fs"
proof -
  have "list_all (\<lambda>f. length (snd f) \<le> payload_limit (fst f)) fs"
    using assms(1) by (simp add: list_all_iff frame_ok_def)
  moreover have "unat (1 :: u64) + length fs \<le> u64_max" using assms(2) by simp
  ultimately obtain w where w: "write_frames vec_sink fs (frame_writer_new [] session) = (Inr (), w)"
    using vec.write_frames_accepts [of fs "frame_writer_new [] session"] by (auto simp: frame_writer_new_def)
  from vec.write_frames_ok [OF this] have "fw_inner w = frames_bytes session 1 fs @ []"
    by (simp add: frame_writer_new_def)
  with slice.read_frames_accepts [of "frame_reader_new (fw_inner w) session" fs "[]" d] assms w show ?thesis
    by (auto simp: frame_reader_new_def)
qed

theorem frames_arrive_in_order_witness:
  "\<exists>w. write_frames vec_sink [(3, [1, 2]), (5, [])] (frame_writer_new [] 9) = (Inr (), w)
    \<and> fst (read_frames slice_source FromBrowser (length [(3 :: 16 word, [1 :: 8 word, 2]), (5, [])])
        (frame_reader_new (fw_inner w) 9)) = Inr [(3, [1, 2]), (5, [])]"
  by (rule frames_arrive_in_order) (simp_all add: frame_ok_def payload_limit_def limit_simps)

text \<open>C15: A renderer cannot replay, drop, reorder or mix in frames of another session: a reader accepts a run
  of frames from a buffer of any bytes exactly when the buffer begins with these frames under its own session
  and the sequence numbers 1, 2, 3 and so on, each of a kind its direction allows and within the limits.\<close>

theorem only_the_sessions_frames_are_accepted:
  "fst (read_frames slice_source d n (frame_reader_new b session)) = Inr fs \<longleftrightarrow>
     length fs = n \<and> n < u64_max \<and> list_all (frame_ok d (max MAX_FRAME_PAYLOAD MAX_STORAGE_SYNC_FRAME_BYTES)) fs
     \<and> (\<exists>rest. b = frames_bytes session 1 fs @ rest)" (is "?L \<longleftrightarrow> ?R")
proof
  let ?r = "frame_reader_new b session"
  assume ?L
  then obtain r' where "read_frames slice_source d n ?r = (Inr fs, r')" by (cases "read_frames slice_source d n ?r") auto
  from slice.read_frames_ok [OF this] show ?R by (auto simp: frame_reader_new_def)
next
  assume ?R
  then show ?L
    using slice.read_frames_accepts [of "frame_reader_new b session" fs _ d] by (auto simp: frame_reader_new_def)
qed

text \<open>What becomes of a well-formed frame, in the order of the checks: a kind of the other direction, a
  length beyond the limit of the reader or of its kind, another session, any other sequence number, and the
  last number of all are refused with their errors, before a byte of the payload is read; any other frame is
  returned and the reader waits for the next number.\<close>

theorem frame_verdict:
  assumes "fr_inner r = frame_bytes s q (kind, payload) @ rest" "length payload \<le> u32_max"
  shows "read_frame slice_source d r =
     (let refused = r\<lparr>fr_inner := payload @ rest\<rparr>
      in if \<not> direction_allows d kind then (Inl (UnexpectedMessage (unat kind)), refused)
      else if length payload > min (fr_max_payload r) (payload_limit kind)
      then (Inl (PayloadTooLarge (length payload)), refused)
      else if s \<noteq> fr_session r then (Inl (WrongSession (unat (fr_session r)) (unat s)), refused)
      else if q \<noteq> fr_next_sequence r then (Inl (WrongSequence (unat (fr_next_sequence r)) (unat q)), refused)
      else if q = - 1 then (Inl SequenceExhausted, refused)
      else (Inr (kind, payload), r\<lparr>fr_inner := rest, fr_next_sequence := fr_next_sequence r + 1\<rparr>))"
proof -
  let ?h = "frame_header kind (length payload) s q"
  have "source_read_exact slice_source HEADER_LENGTH (fr_inner r) = (Inr ?h, payload @ rest)"
    using assms(1) by (simp add: frame_bytes_def slice_source_def)
  moreover have "source_read_exact slice_source (length payload) (payload @ rest) = (Inr payload, rest)"
    by (simp add: slice_source_def)
  ultimately show ?thesis
    by (simp add: read_frame_def check_frame_header [OF assms(2)] Let_def)
qed

theorem frame_verdict_witness:
  "fst (read_frame slice_source FromBrowser (frame_reader_new (frame_bytes 9 2 (3, [7])) 9)) = Inl (WrongSequence 1 2)"
  using frame_verdict [of "frame_reader_new (frame_bytes 9 2 (3, [7])) 9" 9 2 3 "[7]" "[]" FromBrowser]
  by (simp add: frame_reader_new_def Let_def payload_limit_def limit_simps)

end
