(* ===== verification/Ipc_Kinds.thy ===== *)
theory Ipc_Kinds
  imports Ipc_Frames
begin

text \<open>A payload with the kind of its message, and a decoded payload as a message.\<close>

definition with_kind :: "16 word \<Rightarrow> protocol_error + bytes \<Rightarrow> protocol_error + frame" where
  "with_kind kind r = map_sum id (Pair kind) r"

lemma with_kind_Inr: "with_kind k r = Inr f \<longleftrightarrow> (\<exists>b. r = Inr b \<and> f = (k, b))"
  by (cases r) (auto simp: with_kind_def)

lemma tagged_Inr: "map_sum id c r = Inr m \<longleftrightarrow> (\<exists>x. r = Inr x \<and> m = c x)"
  by (cases r) auto

end
