(* ===== verification/Ipc_Values.thy ===== *)
theory Ipc_Values
  imports Ipc_Channels Storage_Area
begin

text \<open>
  Further fields of the messages: identifiers that must not be zero, versions and counters the model keeps as
  naturals, node identifiers, and payloads whose values are validated as they are read.
\<close>

type_synonym u128 = "128 word"

text \<open>\<^verbatim>\<open>nonzero\<close>.\<close>

definition get_nonzero :: "string \<Rightarrow> u64 reading" where
  "get_nonzero field = read_bind get_u64 (\<lambda>v. if v \<noteq> 0 then read_ok v else read_fail field)"

text \<open>A \<^verbatim>\<open>u64\<close> that the storage model has as a natural.\<close>

definition put_nat :: "nat \<Rightarrow> bytes" where "put_nat n = put_u64 (of_nat n)"

definition get_nat :: "nat reading" where
  "get_nat = read_bind get_u64 (\<lambda>v. read_ok (unat v))"

definition get_nonzero_nat :: "string \<Rightarrow> nat reading" where
  "get_nonzero_nat field = read_bind get_nat (\<lambda>v. if v \<noteq> 0 then read_ok v else read_fail field)"

text \<open>\<^verbatim>\<open>DocumentNodeId\<close>: both halves are non-zero.\<close>

definition node_id_fits :: "u128 \<Rightarrow> bool" where
  "node_id_fits v \<longleftrightarrow> (ucast (drop_bit 64 v) :: u64) \<noteq> 0 \<and> (ucast v :: u64) \<noteq> 0"

definition node_id_new :: "u128 \<Rightarrow> protocol_error + u128" where
  "node_id_new v = (if node_id_fits v then Inr v else Inl (InvalidPayload ''document node identifier''))"

definition get_node_id :: "u128 reading" where
  "get_node_id = read_bind get_u128 (\<lambda>v. read_result (node_id_new v))"

text \<open>A value that is validated before it is returned.\<close>

definition checked :: "('m \<Rightarrow> protocol_error + unit) \<Rightarrow> 'm \<Rightarrow> protocol_error + 'm" where
  "checked validate m = and_then (validate m) (\<lambda>_. Inr m)"

section \<open>Facts\<close>

lemma checked_Inr [simp]: "checked validate m = Inr x \<longleftrightarrow> validate m = Inr () \<and> x = m"
  by (auto simp: checked_def result_simps)

lemma map_err_unit [simp]: "map_err g r = Inr () \<longleftrightarrow> r = Inr ()"
  by (cases r) auto

lemma whole_format:
  assumes "reads get (\<lambda>m bs. fits m \<and> put m = Inr bs)"
  shows "payload_format put (run_reader get) fits"
  by unfold_locales (simp add: run_reader_Inr [OF assms])

lemma reads_nonzero [wire_reads]: "reads (get_nonzero field) (\<lambda>x bs. x \<noteq> 0 \<and> bs = put_u64 x)"
  unfolding get_nonzero_def by (rule reads_cong, (rule wire_reads)+) auto

lemma reads_nat [wire_reads]: "reads get_nat (\<lambda>x bs. x \<le> u64_max \<and> bs = put_nat x)"
  unfolding get_nat_def
  by (rule reads_cong, (rule wire_reads)+) (auto simp: put_nat_def u64_of_nat)

lemma reads_nonzero_nat [wire_reads]:
  "reads (get_nonzero_nat field) (\<lambda>x bs. (x \<noteq> 0 \<and> x \<le> u64_max) \<and> bs = put_nat x)"
  unfolding get_nonzero_nat_def by (rule reads_cong, (rule wire_reads)+) auto

lemma reads_node_id [wire_reads]: "reads get_node_id (\<lambda>x bs. node_id_fits x \<and> bs = put_u128 x)"
  unfolding get_node_id_def
  by (rule reads_cong, (rule wire_reads)+) (auto simp: node_id_new_def)

end
