(* ===== verification/Ipc_Fetch.thy ===== *)
theory Ipc_Fetch
  imports Ipc_Values Fetch_Pipeline
begin

text \<open>
  Brokered fetches on the wire (\<^verbatim>\<open>renderer_protocol/fetch.rs\<close>, \<^verbatim>\<open>codec/payload/fetch.rs\<close>): the request a renderer
  asks the browser to make, with the validation both ends apply, and the heads of the responses.
\<close>

definition MAX_RENDERER_FETCH_HEADERS :: nat where [limit_simps]: "MAX_RENDERER_FETCH_HEADERS = 256"

definition MAX_FETCH_HEADER_NAME_BYTES :: nat where [limit_simps]: "MAX_FETCH_HEADER_NAME_BYTES = 1024"

definition MAX_FETCH_HEADER_VALUE_BYTES :: nat where [limit_simps]: "MAX_FETCH_HEADER_VALUE_BYTES = 16 * 1024"

section \<open>Enumerations\<close>

datatype fetch_initiator =
    FromSubresource | FromClassicScript | FromModuleScript | FromScriptApi | FromClassicWorker | FromModuleWorker | FromChildNavigation | FromChildResource | FromNetworkHint | FromBeacon

fun fetch_initiator_tag :: "fetch_initiator \<Rightarrow> 8 word" where
  "fetch_initiator_tag FromSubresource = 1"
| "fetch_initiator_tag FromClassicScript = 2"
| "fetch_initiator_tag FromModuleScript = 3"
| "fetch_initiator_tag FromScriptApi = 4"
| "fetch_initiator_tag FromClassicWorker = 5"
| "fetch_initiator_tag FromModuleWorker = 6"
| "fetch_initiator_tag FromChildNavigation = 7"
| "fetch_initiator_tag FromChildResource = 8"
| "fetch_initiator_tag FromNetworkHint = 9"
| "fetch_initiator_tag FromBeacon = 10"

definition get_fetch_initiator :: "fetch_initiator reading" where
  "get_fetch_initiator = read_bind get_u8 (\<lambda>t.
     if t = 1 then read_ok FromSubresource
     else if t = 2 then read_ok FromClassicScript
     else if t = 3 then read_ok FromModuleScript
     else if t = 4 then read_ok FromScriptApi
     else if t = 5 then read_ok FromClassicWorker
     else if t = 6 then read_ok FromModuleWorker
     else if t = 7 then read_ok FromChildNavigation
     else if t = 8 then read_ok FromChildResource
     else if t = 9 then read_ok FromNetworkHint
     else if t = 10 then read_ok FromBeacon
     else read_fail ''Fetch initiator'')"

datatype resource_destination =
    StyleRes | ImageRes | ScriptRes | FontRes | FetchRes | VideoRes | DocumentRes | WorkerRes | AudioRes | ObjectRes

fun resource_destination_tag :: "resource_destination \<Rightarrow> 8 word" where
  "resource_destination_tag StyleRes = 1"
| "resource_destination_tag ImageRes = 2"
| "resource_destination_tag ScriptRes = 3"
| "resource_destination_tag FontRes = 4"
| "resource_destination_tag FetchRes = 5"
| "resource_destination_tag VideoRes = 6"
| "resource_destination_tag DocumentRes = 7"
| "resource_destination_tag WorkerRes = 8"
| "resource_destination_tag AudioRes = 9"
| "resource_destination_tag ObjectRes = 10"

definition get_resource_destination :: "resource_destination reading" where
  "get_resource_destination = read_bind get_u8 (\<lambda>t.
     if t = 1 then read_ok StyleRes
     else if t = 2 then read_ok ImageRes
     else if t = 3 then read_ok ScriptRes
     else if t = 4 then read_ok FontRes
     else if t = 5 then read_ok FetchRes
     else if t = 6 then read_ok VideoRes
     else if t = 7 then read_ok DocumentRes
     else if t = 8 then read_ok WorkerRes
     else if t = 9 then read_ok AudioRes
     else if t = 10 then read_ok ObjectRes
     else read_fail ''Fetch destination'')"

datatype fetch_mode =
    AskSameOrigin | AskNoCors | AskCors

fun fetch_mode_tag :: "fetch_mode \<Rightarrow> 8 word" where
  "fetch_mode_tag AskSameOrigin = 1"
| "fetch_mode_tag AskNoCors = 2"
| "fetch_mode_tag AskCors = 3"

definition get_fetch_mode :: "fetch_mode reading" where
  "get_fetch_mode = read_bind get_u8 (\<lambda>t.
     if t = 1 then read_ok AskSameOrigin
     else if t = 2 then read_ok AskNoCors
     else if t = 3 then read_ok AskCors
     else read_fail ''Fetch mode'')"

datatype fetch_credentials =
    CredOmit | CredSameOrigin | CredInclude

fun fetch_credentials_tag :: "fetch_credentials \<Rightarrow> 8 word" where
  "fetch_credentials_tag CredOmit = 1"
| "fetch_credentials_tag CredSameOrigin = 2"
| "fetch_credentials_tag CredInclude = 3"

definition get_fetch_credentials :: "fetch_credentials reading" where
  "get_fetch_credentials = read_bind get_u8 (\<lambda>t.
     if t = 1 then read_ok CredOmit
     else if t = 2 then read_ok CredSameOrigin
     else if t = 3 then read_ok CredInclude
     else read_fail ''Fetch credentials'')"

datatype fetch_cache =
    CacheDefault | CacheNoStore | CacheReload | CacheNoCache | CacheForce | CacheOnlyIfCached

fun fetch_cache_tag :: "fetch_cache \<Rightarrow> 8 word" where
  "fetch_cache_tag CacheDefault = 1"
| "fetch_cache_tag CacheNoStore = 2"
| "fetch_cache_tag CacheReload = 3"
| "fetch_cache_tag CacheNoCache = 4"
| "fetch_cache_tag CacheForce = 5"
| "fetch_cache_tag CacheOnlyIfCached = 6"

definition get_fetch_cache :: "fetch_cache reading" where
  "get_fetch_cache = read_bind get_u8 (\<lambda>t.
     if t = 1 then read_ok CacheDefault
     else if t = 2 then read_ok CacheNoStore
     else if t = 3 then read_ok CacheReload
     else if t = 4 then read_ok CacheNoCache
     else if t = 5 then read_ok CacheForce
     else if t = 6 then read_ok CacheOnlyIfCached
     else read_fail ''Fetch cache'')"

datatype fetch_redirect =
    RedirectFollow | RedirectError | RedirectManual

fun fetch_redirect_tag :: "fetch_redirect \<Rightarrow> 8 word" where
  "fetch_redirect_tag RedirectFollow = 1"
| "fetch_redirect_tag RedirectError = 2"
| "fetch_redirect_tag RedirectManual = 3"

definition get_fetch_redirect :: "fetch_redirect reading" where
  "get_fetch_redirect = read_bind get_u8 (\<lambda>t.
     if t = 1 then read_ok RedirectFollow
     else if t = 2 then read_ok RedirectError
     else if t = 3 then read_ok RedirectManual
     else read_fail ''Fetch redirect'')"

datatype fetch_referrer_policy =
    RpNoReferrer | RpNoReferrerWhenDowngrade | RpSameOrigin | RpOrigin | RpStrictOrigin | RpOriginWhenCrossOrigin | RpStrictOriginWhenCrossOrigin | RpUnsafeUrl

fun fetch_referrer_policy_tag :: "fetch_referrer_policy \<Rightarrow> 8 word" where
  "fetch_referrer_policy_tag RpNoReferrer = 1"
| "fetch_referrer_policy_tag RpNoReferrerWhenDowngrade = 2"
| "fetch_referrer_policy_tag RpSameOrigin = 3"
| "fetch_referrer_policy_tag RpOrigin = 4"
| "fetch_referrer_policy_tag RpStrictOrigin = 5"
| "fetch_referrer_policy_tag RpOriginWhenCrossOrigin = 6"
| "fetch_referrer_policy_tag RpStrictOriginWhenCrossOrigin = 7"
| "fetch_referrer_policy_tag RpUnsafeUrl = 8"

definition get_fetch_referrer_policy :: "fetch_referrer_policy reading" where
  "get_fetch_referrer_policy = read_bind get_u8 (\<lambda>t.
     if t = 1 then read_ok RpNoReferrer
     else if t = 2 then read_ok RpNoReferrerWhenDowngrade
     else if t = 3 then read_ok RpSameOrigin
     else if t = 4 then read_ok RpOrigin
     else if t = 5 then read_ok RpStrictOrigin
     else if t = 6 then read_ok RpOriginWhenCrossOrigin
     else if t = 7 then read_ok RpStrictOriginWhenCrossOrigin
     else if t = 8 then read_ok RpUnsafeUrl
     else read_fail ''Fetch referrer policy'')"

datatype fetch_response_type =
    RtBasic | RtCors | RtOpaque | RtOpaqueRedirect

fun fetch_response_type_tag :: "fetch_response_type \<Rightarrow> 8 word" where
  "fetch_response_type_tag RtBasic = 1"
| "fetch_response_type_tag RtCors = 2"
| "fetch_response_type_tag RtOpaque = 3"
| "fetch_response_type_tag RtOpaqueRedirect = 4"

definition get_fetch_response_type :: "fetch_response_type reading" where
  "get_fetch_response_type = read_bind get_u8 (\<lambda>t.
     if t = 1 then read_ok RtBasic
     else if t = 2 then read_ok RtCors
     else if t = 3 then read_ok RtOpaque
     else if t = 4 then read_ok RtOpaqueRedirect
     else read_fail ''Fetch response type'')"

datatype fetch_error_kind = FkInvalidRequest | FkNetwork | FkAborted | FkCors | FkRedirect | FkBodyTooLarge

fun fetch_error_kind_tag :: "fetch_error_kind \<Rightarrow> 8 word" where
  "fetch_error_kind_tag FkInvalidRequest = 1"
| "fetch_error_kind_tag FkNetwork = 2"
| "fetch_error_kind_tag FkAborted = 3"
| "fetch_error_kind_tag FkCors = 4"
| "fetch_error_kind_tag FkRedirect = 5"
| "fetch_error_kind_tag FkBodyTooLarge = 6"

definition get_fetch_error_kind :: "fetch_error_kind reading" where
  "get_fetch_error_kind = read_bind get_u8 (\<lambda>t.
     if t = 1 then read_ok FkInvalidRequest
     else if t = 2 then read_ok FkNetwork
     else if t = 3 then read_ok FkAborted
     else if t = 4 then read_ok FkCors
     else if t = 5 then read_ok FkRedirect
     else if t = 6 then read_ok FkBodyTooLarge
     else read_fail ''Fetch error kind'')"

definition streams_response :: "fetch_initiator \<Rightarrow> bool" where
  "streams_response i \<longleftrightarrow> i \<in> {FromScriptApi, FromChildNavigation, FromChildResource}"

section \<open>Parts of a request\<close>

definition get_flag :: "string \<Rightarrow> bool reading" where
  "get_flag field = read_bind get_u8 (\<lambda>b.
     if b = 0 then read_ok False else if b = 1 then read_ok True else read_fail field)"

definition get_fetch_client :: "request_client reading" where
  "get_fetch_client = read_bind get_u64 (\<lambda>i. read_bind (get_flag ''Fetch client origin flag'') (\<lambda>b.
     read_ok \<lparr>rc_id = unat i, rc_opaque = b\<rparr>))"

text \<open>Headers: name and value of each, counted.\<close>

type_synonym header_pair = "string \<times> string"

definition put_header :: "header_pair \<Rightarrow> protocol_error + bytes" where
  "put_header h =
     (if length (fst h) > MAX_FETCH_HEADER_NAME_BYTES \<or> length (snd h) > MAX_FETCH_HEADER_VALUE_BYTES
      then Inl (InvalidPayload ''header length'')
      else and_then (put_string (fst h)) (\<lambda>b_name. and_then (put_string (snd h)) (\<lambda>b_value. Inr (b_name @ b_value))))"

definition get_header :: "header_pair reading" where
  "get_header = read_bind (get_string MAX_FETCH_HEADER_NAME_BYTES) (\<lambda>name.
     read_bind (get_string MAX_FETCH_HEADER_VALUE_BYTES) (\<lambda>value. read_ok (name, value)))"

definition put_headers :: "header_pair list \<Rightarrow> protocol_error + bytes" where
  "put_headers hs =
     (if length hs > MAX_RENDERER_FETCH_HEADERS then Inl (InvalidPayload ''header count'')
      else and_then (put_each put_header hs) (\<lambda>b. Inr (put_u32 (of_nat (length hs)) @ b)))"

definition get_headers :: "header_pair list reading" where
  "get_headers = read_bind get_u32 (\<lambda>count.
     if unat count > MAX_RENDERER_FETCH_HEADERS then read_fail ''header count'' else read_times (unat count) get_header)"

definition headers_fits :: "header_pair list \<Rightarrow> bool" where
  "headers_fits hs \<longleftrightarrow> list_all (\<lambda>h. is_utf8 (fst h) \<and> is_utf8 (snd h)) hs"

text \<open>The script metadata: an empty nonce stands for none.\<close>

definition put_script_source :: "script_source option \<Rightarrow> protocol_error + bytes" where
  "put_script_source v =
     (case v of
        None \<Rightarrow> Inr (put_u8 0)
      | Some s \<Rightarrow> and_then (put_string (case ss_nonce s of None \<Rightarrow> [] | Some n \<Rightarrow> n)) (\<lambda>b.
          Inr (put_u8 1 @ put_bool (ss_parser_inserted s) @ b)))"

definition get_script_source :: "script_source option reading" where
  "get_script_source = read_bind get_u8 (\<lambda>t.
     if t = 0 then read_ok None
     else if t = 1 then
       read_bind (get_flag ''script parser flag'') (\<lambda>parser. read_bind (get_string 256) (\<lambda>nonce.
         read_ok (Some \<lparr>ss_nonce = (if nonce = [] then None else Some nonce), ss_parser_inserted = parser\<rparr>)))
     else read_fail ''script CSP metadata'')"

definition script_source_fits :: "script_source option \<Rightarrow> bool" where
  "script_source_fits v = (case v of
     None \<Rightarrow> True
   | Some s \<Rightarrow> (case ss_nonce s of None \<Rightarrow> True | Some n \<Rightarrow> n \<noteq> [] \<and> is_utf8 n \<and> length n \<le> 256))"

datatype fetch_referrer = ReferrerClient | ReferrerNone | ReferrerAt string

definition put_fetch_referrer :: "fetch_referrer \<Rightarrow> protocol_error + bytes" where
  "put_fetch_referrer a =
     (case a of
        ReferrerClient \<Rightarrow>
          Inr (put_u8 1)
      | ReferrerNone \<Rightarrow>
          Inr (put_u8 2)
      | ReferrerAt url \<Rightarrow>
          and_then (put_string url) (\<lambda>b_url.
            Inr (put_u8 3 @ b_url)))"

definition get_fetch_referrer :: "fetch_referrer reading" where
  "get_fetch_referrer = read_bind get_u8 (\<lambda>t.
     if t = 1 then read_ok ReferrerClient
     else if t = 2 then read_ok ReferrerNone
     else if t = 3 then
       read_bind (get_string MAX_URL_BYTES) (\<lambda>url.
         read_ok (ReferrerAt url))
     else read_fail ''Fetch referrer'')"

definition fetch_referrer_fits :: "fetch_referrer \<Rightarrow> bool" where
  "fetch_referrer_fits a = (case a of
     ReferrerAt url \<Rightarrow> is_utf8 url \<and> length url \<le> MAX_URL_BYTES
   | _ \<Rightarrow> True)"

section \<open>Requests\<close>

record fetch_request_head =
  frh_request_id :: u64
  frh_document :: u64
  frh_client :: request_client
  frh_resulting_client :: request_client
  frh_embedding_client :: request_client
  frh_initiator :: fetch_initiator
  frh_destination :: resource_destination
  frh_script_source :: "script_source option"
  frh_url :: string
  frh_verb :: string
  frh_headers :: "header_pair list"
  frh_mode :: fetch_mode
  frh_credentials :: fetch_credentials
  frh_cache :: fetch_cache
  frh_redirect :: fetch_redirect
  frh_referrer :: fetch_referrer
  frh_referrer_policy :: fetch_referrer_policy
  frh_body_length :: u32
  frh_keepalive :: bool

definition valid_nonce :: "string \<Rightarrow> bool" where
  "valid_nonce n \<longleftrightarrow> length n \<le> 256 \<and> list_all (\<lambda>c. is_ascii_alphanumeric c \<or> c \<in> set ''+/-_='') n"

text \<open>The conditions of \<^verbatim>\<open>FetchRequestHead::validate\<close> in their order.\<close>

definition validate_fetch_request_head :: "fetch_request_head \<Rightarrow> protocol_error + unit" where
  "validate_fetch_request_head m =
     (let body = unat (frh_body_length m)
      in and_then (valid_when (frh_request_id m \<noteq> 0 \<and> frh_url m \<noteq> [] \<and> length (frh_url m) \<le> MAX_URL_BYTES)
            ''renderer Fetch identity'') (\<lambda>_.
         and_then (valid_when (frh_verb m \<noteq> [] \<and> length (frh_verb m) \<le> 64) ''renderer Fetch method'') (\<lambda>_.
         and_then (valid_when (case frh_script_source m of
             None \<Rightarrow> True
           | Some s \<Rightarrow> frh_destination m = ScriptRes
               \<and> frh_initiator m \<in> {FromClassicScript, FromModuleScript, FromSubresource, FromChildResource,
                   FromClassicWorker, FromModuleWorker}
               \<and> pred_option valid_nonce (ss_nonce s)) ''renderer script CSP metadata'') (\<lambda>_.
         and_then (valid_when (length (frh_headers m) \<le> MAX_RENDERER_FETCH_HEADERS
           \<and> list_all (\<lambda>h. length (fst h) \<le> MAX_FETCH_HEADER_NAME_BYTES \<and> length (snd h) \<le> MAX_FETCH_HEADER_VALUE_BYTES)
               (frh_headers m)) ''renderer Fetch headers'') (\<lambda>_.
         and_then (ensure (body \<le> MAX_RESPONSE_BODY_BYTES) (PayloadTooLarge body)) (\<lambda>_.
         and_then (valid_when (frh_keepalive m \<longrightarrow>
             frh_initiator m \<in> {FromScriptApi, FromBeacon} \<and> body \<le> MAX_KEEPALIVE_BODY_BYTES) ''renderer keepalive request'') (\<lambda>_.
           case frh_referrer m of
             ReferrerAt url \<Rightarrow> valid_when (length url \<le> MAX_URL_BYTES) ''renderer Fetch referrer''
           | _ \<Rightarrow> Inr ())))))))"

definition metadata_bytes :: "fetch_request_head \<Rightarrow> nat option" where
  "metadata_bytes m =
     fold (\<lambda>h acc. Option.bind acc (\<lambda>v. Option.bind (checked_add v (length (fst h))) (\<lambda>v'. checked_add v' (length (snd h)))))
       (frh_headers m)
       (Option.bind (checked_add (length (frh_url m)) (length (frh_verb m))) (\<lambda>total1.
        Option.bind (case frh_referrer m of ReferrerAt url \<Rightarrow> checked_add total1 (length url) | _ \<Rightarrow> Some total1) (\<lambda>total2.
          case Option.bind (frh_script_source m) ss_nonce of
            Some nonce \<Rightarrow> checked_add total2 (length nonce)
          | None \<Rightarrow> Some total2)))"

record renderer_fetch_request =
  rfr_head :: fetch_request_head
  rfr_body :: bytes

definition validate_renderer_fetch_request :: "renderer_fetch_request \<Rightarrow> protocol_error + unit" where
  "validate_renderer_fetch_request m =
     and_then (validate_fetch_request_head (rfr_head m)) (\<lambda>_.
       valid_when (length (rfr_body m) = unat (frh_body_length (rfr_head m))) ''renderer Fetch body length'')"

definition put_fetch_request_head :: "fetch_request_head \<Rightarrow> protocol_error + bytes" where
  "put_fetch_request_head m =
     and_then (validate_fetch_request_head m) (\<lambda>_.
     and_then (put_script_source (frh_script_source m)) (\<lambda>b_script_source.
     and_then (put_string (frh_url m)) (\<lambda>b_url.
     and_then (put_string (frh_verb m)) (\<lambda>b_verb.
     and_then (put_headers (frh_headers m)) (\<lambda>b_headers.
     and_then (put_fetch_referrer (frh_referrer m)) (\<lambda>b_referrer.
       Inr (put_u64 (frh_request_id m) @ put_u64 (frh_document m) @ put_client (frh_client m) @
         put_client (frh_resulting_client m) @ put_client (frh_embedding_client m) @
         put_u8 (fetch_initiator_tag (frh_initiator m)) @
         put_u8 (resource_destination_tag (frh_destination m)) @ b_script_source @ b_url @ b_verb @ b_headers @
         put_u8 (fetch_mode_tag (frh_mode m)) @ put_u8 (fetch_credentials_tag (frh_credentials m)) @
         put_u8 (fetch_cache_tag (frh_cache m)) @ put_u8 (fetch_redirect_tag (frh_redirect m)) @ b_referrer @
         put_u8 (fetch_referrer_policy_tag (frh_referrer_policy m)) @ put_u32 (frh_body_length m) @
         put_bool (frh_keepalive m))))))))"

definition get_fetch_request_head :: "fetch_request_head reading" where
  "get_fetch_request_head =
     read_bind (get_nonzero ''Fetch request'') (\<lambda>request_id.
     read_bind get_document_id (\<lambda>document. read_bind get_fetch_client (\<lambda>client.
     read_bind get_fetch_client (\<lambda>resulting_client.
     read_bind get_fetch_client (\<lambda>embedding_client.
     read_bind get_fetch_initiator (\<lambda>initiator.
     read_bind get_resource_destination (\<lambda>destination.
     read_bind get_script_source (\<lambda>script_source.
     read_bind (get_string MAX_URL_BYTES) (\<lambda>url. read_bind (get_string (64)) (\<lambda>verb.
     read_bind get_headers (\<lambda>headers. read_bind get_fetch_mode (\<lambda>mode.
     read_bind get_fetch_credentials (\<lambda>credentials. read_bind get_fetch_cache (\<lambda>cache.
     read_bind get_fetch_redirect (\<lambda>redirect. read_bind get_fetch_referrer (\<lambda>referrer.
     read_bind get_fetch_referrer_policy (\<lambda>referrer_policy. read_bind get_u32 (\<lambda>body_length.
     read_bind (get_flag ''Fetch keepalive flag'') (\<lambda>keepalive.
       read_result (checked validate_fetch_request_head \<lparr>frh_request_id = request_id, frh_document = document, frh_client = client, frh_resulting_client = resulting_client, frh_embedding_client = embedding_client, frh_initiator = initiator, frh_destination = destination, frh_script_source = script_source, frh_url = url, frh_verb = verb, frh_headers = headers, frh_mode = mode, frh_credentials = credentials, frh_cache = cache, frh_redirect = redirect, frh_referrer = referrer, frh_referrer_policy = referrer_policy, frh_body_length = body_length, frh_keepalive = keepalive\<rparr>))))))))))))))))))))"

definition fetch_request_head_fits :: "fetch_request_head \<Rightarrow> bool" where
  "fetch_request_head_fits m \<longleftrightarrow> (frh_request_id m) \<noteq> 0 \<and> (frh_document m) \<noteq> 0 \<and> client_fits (frh_client m) \<and> client_fits (frh_resulting_client m) \<and> client_fits (frh_embedding_client m) \<and> script_source_fits (frh_script_source m) \<and> (is_utf8 (frh_url m) \<and> length (frh_url m) \<le> MAX_URL_BYTES) \<and> (is_utf8 (frh_verb m) \<and> length (frh_verb m) \<le> 64) \<and> headers_fits (frh_headers m) \<and> fetch_referrer_fits (frh_referrer m)"

section \<open>Responses\<close>

record browser_fetch_error =
  bfe_kind :: fetch_error_kind
  bfe_message :: string

definition put_browser_fetch_error :: "browser_fetch_error \<Rightarrow> protocol_error + bytes" where
  "put_browser_fetch_error m =
     and_then (put_string (bfe_message m)) (\<lambda>b_message.
       Inr (put_u8 (fetch_error_kind_tag (bfe_kind m)) @ b_message))"

definition get_browser_fetch_error :: "browser_fetch_error reading" where
  "get_browser_fetch_error =
     read_bind get_fetch_error_kind (\<lambda>kind. read_bind (get_string (64 * 1024)) (\<lambda>message.
       read_ok \<lparr>bfe_kind = kind, bfe_message = message\<rparr>))"

definition browser_fetch_error_fits :: "browser_fetch_error \<Rightarrow> bool" where
  "browser_fetch_error_fits m \<longleftrightarrow> is_utf8 (bfe_message m) \<and> length (bfe_message m) \<le> 64 * 1024"

definition put_response_urls :: "string list \<Rightarrow> protocol_error + bytes" where
  "put_response_urls xs = and_then (put_each (\<lambda>w. put_string w) xs) (\<lambda>b. Inr (put_u32 (of_nat (length xs)) @ b))"

definition get_response_urls :: "string list reading" where
  "get_response_urls = read_bind get_u32 (\<lambda>count.
     if unat count = 0 \<or> unat count > MAX_REDIRECTS + 1 then read_fail ''Fetch response URLs'' else read_times (unat count) (get_string MAX_URL_BYTES))"

definition response_urls_fits :: "string list \<Rightarrow> bool" where
  "response_urls_fits xs \<longleftrightarrow> \<not> (length xs = 0 \<or> length xs > MAX_REDIRECTS + 1) \<and> list_all (\<lambda>w. is_utf8 w \<and> length w \<le> MAX_URL_BYTES) xs"

datatype response_result =
    ResponseSuccess fetch_response_type "string list" u16 "header_pair list"
  | ResponseFailure browser_fetch_error

definition put_response_result :: "response_result \<Rightarrow> protocol_error + bytes" where
  "put_response_result a =
     (case a of
        ResponseSuccess typ urls status headers \<Rightarrow>
          and_then (put_response_urls urls) (\<lambda>b_urls.
          and_then (put_headers headers) (\<lambda>b_headers.
            Inr (put_u8 1 @ put_u8 (fetch_response_type_tag typ) @ b_urls @ put_u16 status @ b_headers)))
      | ResponseFailure error \<Rightarrow>
          and_then (put_browser_fetch_error error) (\<lambda>b_error.
            Inr (put_u8 2 @ b_error)))"

definition get_response_result :: "response_result reading" where
  "get_response_result = read_bind get_u8 (\<lambda>t.
     if t = 1 then
       read_bind get_fetch_response_type (\<lambda>typ. read_bind get_response_urls (\<lambda>urls.
       read_bind get_u16 (\<lambda>status. read_bind get_headers (\<lambda>headers.
         read_ok (ResponseSuccess typ urls status headers)))))
     else if t = 2 then
       read_bind get_browser_fetch_error (\<lambda>error.
         read_ok (ResponseFailure error))
     else read_fail ''Fetch response result'')"

definition response_result_fits :: "response_result \<Rightarrow> bool" where
  "response_result_fits a = (case a of
     ResponseSuccess typ urls status headers \<Rightarrow> response_urls_fits urls \<and> headers_fits headers
   | ResponseFailure error \<Rightarrow> browser_fetch_error_fits error)"

record response_head =
  rsh_request_id :: u64
  rsh_result :: response_result

definition put_response_head :: "response_head \<Rightarrow> protocol_error + bytes" where
  "put_response_head m =
     and_then (put_response_result (rsh_result m)) (\<lambda>b_result.
       Inr (put_u64 (rsh_request_id m) @ b_result))"

definition get_response_head :: "response_head reading" where
  "get_response_head =
     read_bind (get_nonzero ''Fetch response'') (\<lambda>request_id.
     read_bind get_response_result (\<lambda>result.
       read_ok \<lparr>rsh_request_id = request_id, rsh_result = result\<rparr>))"

definition response_head_fits :: "response_head \<Rightarrow> bool" where
  "response_head_fits m \<longleftrightarrow> (rsh_request_id m) \<noteq> 0 \<and> response_result_fits (rsh_result m)"

record response_end =
  rse_request_id :: u64
  rse_total_length :: u32

definition put_response_end :: "response_end \<Rightarrow> protocol_error + bytes" where
  "put_response_end m =
     Inr (put_u64 (rse_request_id m) @ put_u32 (rse_total_length m))"

definition get_response_end :: "response_end reading" where
  "get_response_end =
     read_bind (get_nonzero ''Fetch response'') (\<lambda>request_id.
     read_bind get_u32 (\<lambda>total_length.
       read_ok \<lparr>rse_request_id = request_id, rse_total_length = total_length\<rparr>))"

definition response_end_fits :: "response_end \<Rightarrow> bool" where
  "response_end_fits m \<longleftrightarrow> (rse_request_id m) \<noteq> 0"

record response_abort =
  rsa_request_id :: u64
  rsa_error :: browser_fetch_error

definition put_response_abort :: "response_abort \<Rightarrow> protocol_error + bytes" where
  "put_response_abort m =
     and_then (put_browser_fetch_error (rsa_error m)) (\<lambda>b_error.
       Inr (put_u64 (rsa_request_id m) @ b_error))"

definition get_response_abort :: "response_abort reading" where
  "get_response_abort =
     read_bind (get_nonzero ''Fetch response'') (\<lambda>request_id.
     read_bind get_browser_fetch_error (\<lambda>error.
       read_ok \<lparr>rsa_request_id = request_id, rsa_error = error\<rparr>))"

definition response_abort_fits :: "response_abort \<Rightarrow> bool" where
  "response_abort_fits m \<longleftrightarrow> (rsa_request_id m) \<noteq> 0 \<and> browser_fetch_error_fits (rsa_error m)"

section \<open>Exactness\<close>

lemma reads_fetch_initiator [wire_reads]: "reads get_fetch_initiator (\<lambda>x bs. bs = put_u8 (fetch_initiator_tag x))"
  unfolding get_fetch_initiator_def
  apply (rule reads_cong, (rule wire_reads)+)
  subgoal for x bs by (cases x rule: fetch_initiator_tag.cases) auto
  done

lemma reads_resource_destination [wire_reads]: "reads get_resource_destination (\<lambda>x bs. bs = put_u8 (resource_destination_tag x))"
  unfolding get_resource_destination_def
  apply (rule reads_cong, (rule wire_reads)+)
  subgoal for x bs by (cases x rule: resource_destination_tag.cases) auto
  done

lemma reads_fetch_mode [wire_reads]: "reads get_fetch_mode (\<lambda>x bs. bs = put_u8 (fetch_mode_tag x))"
  unfolding get_fetch_mode_def
  apply (rule reads_cong, (rule wire_reads)+)
  subgoal for x bs by (cases x rule: fetch_mode_tag.cases) auto
  done

lemma reads_fetch_credentials [wire_reads]: "reads get_fetch_credentials (\<lambda>x bs. bs = put_u8 (fetch_credentials_tag x))"
  unfolding get_fetch_credentials_def
  apply (rule reads_cong, (rule wire_reads)+)
  subgoal for x bs by (cases x rule: fetch_credentials_tag.cases) auto
  done

lemma reads_fetch_cache [wire_reads]: "reads get_fetch_cache (\<lambda>x bs. bs = put_u8 (fetch_cache_tag x))"
  unfolding get_fetch_cache_def
  apply (rule reads_cong, (rule wire_reads)+)
  subgoal for x bs by (cases x rule: fetch_cache_tag.cases) auto
  done

lemma reads_fetch_redirect [wire_reads]: "reads get_fetch_redirect (\<lambda>x bs. bs = put_u8 (fetch_redirect_tag x))"
  unfolding get_fetch_redirect_def
  apply (rule reads_cong, (rule wire_reads)+)
  subgoal for x bs by (cases x rule: fetch_redirect_tag.cases) auto
  done

lemma reads_fetch_referrer_policy [wire_reads]: "reads get_fetch_referrer_policy (\<lambda>x bs. bs = put_u8 (fetch_referrer_policy_tag x))"
  unfolding get_fetch_referrer_policy_def
  apply (rule reads_cong, (rule wire_reads)+)
  subgoal for x bs by (cases x rule: fetch_referrer_policy_tag.cases) auto
  done

lemma reads_fetch_response_type [wire_reads]: "reads get_fetch_response_type (\<lambda>x bs. bs = put_u8 (fetch_response_type_tag x))"
  unfolding get_fetch_response_type_def
  apply (rule reads_cong, (rule wire_reads)+)
  subgoal for x bs by (cases x rule: fetch_response_type_tag.cases) auto
  done

lemma reads_fetch_error_kind [wire_reads]: "reads get_fetch_error_kind (\<lambda>x bs. bs = put_u8 (fetch_error_kind_tag x))"
  unfolding get_fetch_error_kind_def
  apply (rule reads_cong, (rule wire_reads)+)
  subgoal for x bs by (cases x rule: fetch_error_kind_tag.cases) auto
  done

lemma reads_fetch_referrer [wire_reads]: "reads get_fetch_referrer (\<lambda>x bs. fetch_referrer_fits x \<and> put_fetch_referrer x = Inr bs)"
  unfolding get_fetch_referrer_def
  apply (rule reads_cong, (rule wire_reads)+)
  subgoal for x bs by (cases x; auto simp: fetch_referrer_fits_def put_fetch_referrer_def result_simps; blast)
  done

lemma reads_flag [wire_reads]: "reads (get_flag field) (\<lambda>x bs. bs = put_bool x)"
  unfolding get_flag_def
  by (rule reads_cong, (rule wire_reads)+) (auto simp: put_bool_def put_u8_def)

lemma reads_fetch_client [wire_reads]: "reads get_fetch_client (\<lambda>x bs. client_fits x \<and> bs = put_client x)"
  unfolding get_fetch_client_def
  apply (rule reads_cong, (rule wire_reads)+)
  subgoal for x bs
    by (cases x) (auto simp: put_client_def client_fits_def eq_commute [of _ "unat _"] u64_of_nat)
  done

lemma reads_header: "reads get_header (\<lambda>h bs. (is_utf8 (fst h) \<and> is_utf8 (snd h)) \<and> put_header h = Inr bs)"
  unfolding get_header_def
  apply (rule reads_cong, (rule wire_reads)+)
  subgoal for h bs by (cases h; auto simp: put_header_def result_simps not_less)
  done

lemma reads_headers [wire_reads]: "reads get_headers (\<lambda>hs bs. headers_fits hs \<and> put_headers hs = Inr bs)"
  unfolding get_headers_def
  by (rule reads_cong, rule reads_list [OF reads_u32 reads_header, of "\<lambda>n. MAX_RENDERER_FETCH_HEADERS < n"])
    (auto simp: headers_fits_def put_headers_def limit_simps)

lemma reads_script_source [wire_reads]:
  "reads get_script_source (\<lambda>v bs. script_source_fits v \<and> put_script_source v = Inr bs)"
  unfolding get_script_source_def
  apply (rule reads_cong, (rule wire_reads)+)
  subgoal for v bs
  proof (cases v)
    case (Some s)
    have e: "is_utf8 []" "length ([] :: string) \<le> 256" by simp_all
    show ?thesis
      by (cases s; cases "ss_nonce s"; use Some e in \<open>auto simp: script_source_fits_def put_script_source_def result_simps\<close>)
  qed (auto simp: script_source_fits_def put_script_source_def)
  done

lemma reads_fetch_request_head_from_15: "reads (
     read_bind get_fetch_referrer (\<lambda>referrer.
     read_bind get_fetch_referrer_policy (\<lambda>referrer_policy. read_bind get_u32 (\<lambda>body_length.
     read_bind (get_flag ''Fetch keepalive flag'') (\<lambda>keepalive.
       read_result (checked validate_fetch_request_head \<lparr>frh_request_id = request_id, frh_document = document, frh_client = client, frh_resulting_client = resulting_client, frh_embedding_client = embedding_client, frh_initiator = initiator, frh_destination = destination, frh_script_source = script_source, frh_url = url, frh_verb = verb, frh_headers = headers, frh_mode = mode, frh_credentials = credentials, frh_cache = cache, frh_redirect = redirect, frh_referrer = referrer, frh_referrer_policy = referrer_policy, frh_body_length = body_length, frh_keepalive = keepalive\<rparr>))))))
    (\<lambda>m bs. frh_request_id m = request_id \<and> frh_document m = document \<and> frh_client m = client \<and> frh_resulting_client m = resulting_client \<and> frh_embedding_client m = embedding_client \<and> frh_initiator m = initiator \<and> frh_destination m = destination \<and> frh_script_source m = script_source \<and> frh_url m = url \<and> frh_verb m = verb \<and> frh_headers m = headers \<and> frh_mode m = mode \<and> frh_credentials m = credentials \<and> frh_cache m = cache \<and> frh_redirect m = redirect \<and> validate_fetch_request_head m = Inr () \<and> (fetch_referrer_fits (frh_referrer m)) \<and>
     and_then (put_fetch_referrer (frh_referrer m)) (\<lambda>b_referrer.
       Inr (b_referrer @ put_u8 (fetch_referrer_policy_tag (frh_referrer_policy m)) @
         put_u32 (frh_body_length m) @ put_bool (frh_keepalive m))) = Inr bs)"
  apply (rule reads_cong, (rule wire_reads)+)
  subgoal for m bs by (cases m; auto simp: result_simps; blast)
  done

lemma reads_fetch_request_head_from_10: "reads (
     read_bind get_headers (\<lambda>headers. read_bind get_fetch_mode (\<lambda>mode.
     read_bind get_fetch_credentials (\<lambda>credentials. read_bind get_fetch_cache (\<lambda>cache.
     read_bind get_fetch_redirect (\<lambda>redirect. read_bind get_fetch_referrer (\<lambda>referrer.
     read_bind get_fetch_referrer_policy (\<lambda>referrer_policy. read_bind get_u32 (\<lambda>body_length.
     read_bind (get_flag ''Fetch keepalive flag'') (\<lambda>keepalive.
       read_result (checked validate_fetch_request_head \<lparr>frh_request_id = request_id, frh_document = document, frh_client = client, frh_resulting_client = resulting_client, frh_embedding_client = embedding_client, frh_initiator = initiator, frh_destination = destination, frh_script_source = script_source, frh_url = url, frh_verb = verb, frh_headers = headers, frh_mode = mode, frh_credentials = credentials, frh_cache = cache, frh_redirect = redirect, frh_referrer = referrer, frh_referrer_policy = referrer_policy, frh_body_length = body_length, frh_keepalive = keepalive\<rparr>)))))))))))
    (\<lambda>m bs. frh_request_id m = request_id \<and> frh_document m = document \<and> frh_client m = client \<and> frh_resulting_client m = resulting_client \<and> frh_embedding_client m = embedding_client \<and> frh_initiator m = initiator \<and> frh_destination m = destination \<and> frh_script_source m = script_source \<and> frh_url m = url \<and> frh_verb m = verb \<and> validate_fetch_request_head m = Inr () \<and> (headers_fits (frh_headers m)) \<and> (fetch_referrer_fits (frh_referrer m)) \<and>
     and_then (put_headers (frh_headers m)) (\<lambda>b_headers.
     and_then (put_fetch_referrer (frh_referrer m)) (\<lambda>b_referrer.
       Inr (b_headers @ put_u8 (fetch_mode_tag (frh_mode m)) @
         put_u8 (fetch_credentials_tag (frh_credentials m)) @ put_u8 (fetch_cache_tag (frh_cache m)) @
         put_u8 (fetch_redirect_tag (frh_redirect m)) @ b_referrer @
         put_u8 (fetch_referrer_policy_tag (frh_referrer_policy m)) @ put_u32 (frh_body_length m) @
         put_bool (frh_keepalive m)))) = Inr bs)"
  apply (rule reads_cong, (rule reads_fetch_request_head_from_15 wire_reads)+)
  subgoal for m bs by (cases m; auto simp: result_simps; blast)
  done

lemma reads_fetch_request_head_from_5: "reads (
     read_bind get_fetch_initiator (\<lambda>initiator.
     read_bind get_resource_destination (\<lambda>destination.
     read_bind get_script_source (\<lambda>script_source.
     read_bind (get_string MAX_URL_BYTES) (\<lambda>url. read_bind (get_string (64)) (\<lambda>verb.
     read_bind get_headers (\<lambda>headers. read_bind get_fetch_mode (\<lambda>mode.
     read_bind get_fetch_credentials (\<lambda>credentials. read_bind get_fetch_cache (\<lambda>cache.
     read_bind get_fetch_redirect (\<lambda>redirect. read_bind get_fetch_referrer (\<lambda>referrer.
     read_bind get_fetch_referrer_policy (\<lambda>referrer_policy. read_bind get_u32 (\<lambda>body_length.
     read_bind (get_flag ''Fetch keepalive flag'') (\<lambda>keepalive.
       read_result (checked validate_fetch_request_head \<lparr>frh_request_id = request_id, frh_document = document, frh_client = client, frh_resulting_client = resulting_client, frh_embedding_client = embedding_client, frh_initiator = initiator, frh_destination = destination, frh_script_source = script_source, frh_url = url, frh_verb = verb, frh_headers = headers, frh_mode = mode, frh_credentials = credentials, frh_cache = cache, frh_redirect = redirect, frh_referrer = referrer, frh_referrer_policy = referrer_policy, frh_body_length = body_length, frh_keepalive = keepalive\<rparr>))))))))))))))))
    (\<lambda>m bs. frh_request_id m = request_id \<and> frh_document m = document \<and> frh_client m = client \<and> frh_resulting_client m = resulting_client \<and> frh_embedding_client m = embedding_client \<and> validate_fetch_request_head m = Inr () \<and> (script_source_fits (frh_script_source m)) \<and> (is_utf8 (frh_url m) \<and> length (frh_url m) \<le> MAX_URL_BYTES) \<and> (is_utf8 (frh_verb m) \<and> length (frh_verb m) \<le> 64) \<and> (headers_fits (frh_headers m)) \<and> (fetch_referrer_fits (frh_referrer m)) \<and>
     and_then (put_script_source (frh_script_source m)) (\<lambda>b_script_source.
     and_then (put_string (frh_url m)) (\<lambda>b_url.
     and_then (put_string (frh_verb m)) (\<lambda>b_verb.
     and_then (put_headers (frh_headers m)) (\<lambda>b_headers.
     and_then (put_fetch_referrer (frh_referrer m)) (\<lambda>b_referrer.
       Inr (put_u8 (fetch_initiator_tag (frh_initiator m)) @
         put_u8 (resource_destination_tag (frh_destination m)) @ b_script_source @ b_url @ b_verb @ b_headers @
         put_u8 (fetch_mode_tag (frh_mode m)) @ put_u8 (fetch_credentials_tag (frh_credentials m)) @
         put_u8 (fetch_cache_tag (frh_cache m)) @ put_u8 (fetch_redirect_tag (frh_redirect m)) @ b_referrer @
         put_u8 (fetch_referrer_policy_tag (frh_referrer_policy m)) @ put_u32 (frh_body_length m) @
         put_bool (frh_keepalive m))))))) = Inr bs)"
  apply (rule reads_cong, (rule reads_fetch_request_head_from_10 wire_reads)+)
  subgoal for m bs by (cases m; auto simp: result_simps; blast)
  done

lemma reads_fetch_request_head [wire_reads]: "reads get_fetch_request_head (\<lambda>m bs. fetch_request_head_fits m \<and> put_fetch_request_head m = Inr bs)"
  unfolding get_fetch_request_head_def
  apply (rule reads_cong, (rule reads_fetch_request_head_from_5 wire_reads)+)
  subgoal for m bs by (cases m; auto simp: fetch_request_head_fits_def put_fetch_request_head_def result_simps; blast)
  done

interpretation fetch_request_head: payload_format put_fetch_request_head "run_reader get_fetch_request_head" fetch_request_head_fits
  by (rule whole_format) (rule reads_fetch_request_head)

lemma reads_browser_fetch_error [wire_reads]: "reads get_browser_fetch_error (\<lambda>m bs. browser_fetch_error_fits m \<and> put_browser_fetch_error m = Inr bs)"
  unfolding get_browser_fetch_error_def
  apply (rule reads_cong, (rule wire_reads)+)
  subgoal for m bs by (cases m; auto simp: browser_fetch_error_fits_def put_browser_fetch_error_def result_simps; blast)
  done

lemma reads_response_urls [wire_reads]: "reads get_response_urls (\<lambda>xs bs. response_urls_fits xs \<and> put_response_urls xs = Inr bs)"
proof -
  have e: "reads (get_string MAX_URL_BYTES) (\<lambda>w bs. (is_utf8 w \<and> length w \<le> MAX_URL_BYTES) \<and> put_string w = (Inr bs :: protocol_error + bytes))"
    by (rule reads_cong, (rule wire_reads)+) auto
  show ?thesis
    unfolding get_response_urls_def
    by (rule reads_cong, rule reads_list [OF reads_u32 e, of "\<lambda>n. n = 0 \<or> n > MAX_REDIRECTS + 1"]) (auto simp: response_urls_fits_def put_response_urls_def limit_simps)
qed

lemma reads_response_result [wire_reads]: "reads get_response_result (\<lambda>x bs. response_result_fits x \<and> put_response_result x = Inr bs)"
  unfolding get_response_result_def
  apply (rule reads_cong, (rule wire_reads)+)
  subgoal for x bs by (cases x; auto simp: response_result_fits_def put_response_result_def result_simps; blast)
  done

lemma reads_response_head [wire_reads]: "reads get_response_head (\<lambda>m bs. response_head_fits m \<and> put_response_head m = Inr bs)"
  unfolding get_response_head_def
  apply (rule reads_cong, (rule wire_reads)+)
  subgoal for m bs by (cases m; auto simp: response_head_fits_def put_response_head_def result_simps; blast)
  done

interpretation response_head: payload_format put_response_head "run_reader get_response_head" response_head_fits
  by (rule whole_format) (rule reads_response_head)

lemma reads_response_end [wire_reads]: "reads get_response_end (\<lambda>m bs. response_end_fits m \<and> put_response_end m = Inr bs)"
  unfolding get_response_end_def
  apply (rule reads_cong, (rule wire_reads)+)
  subgoal for m bs by (cases m; auto simp: response_end_fits_def put_response_end_def result_simps; blast)
  done

interpretation response_end: payload_format put_response_end "run_reader get_response_end" response_end_fits
  by (rule whole_format) (rule reads_response_end)

lemma reads_response_abort [wire_reads]: "reads get_response_abort (\<lambda>m bs. response_abort_fits m \<and> put_response_abort m = Inr bs)"
  unfolding get_response_abort_def
  apply (rule reads_cong, (rule wire_reads)+)
  subgoal for m bs by (cases m; auto simp: response_abort_fits_def put_response_abort_def result_simps; blast)
  done

interpretation response_abort: payload_format put_response_abort "run_reader get_response_abort" response_abort_fits
  by (rule whole_format) (rule reads_response_abort)

end
