(* ===== verification/Ipc_Documents.thy ===== *)
theory Ipc_Documents
  imports Ipc_Fetch Ipc_Frames
begin

text \<open>
  Documents on the wire (\<^verbatim>\<open>renderer_protocol/document.rs\<close>, \<^verbatim>\<open>codec/payload/document.rs\<close>,
  \<^verbatim>\<open>document/fields.rs\<close>): viewports, the start of a document, transfer chunks and the assemblers that put them
  together, and the small messages of documents, fetches and presentations.
\<close>

definition MAX_HISTORY_STATE_BYTES :: nat where [limit_simps]: "MAX_HISTORY_STATE_BYTES = 32 * 1024"

definition MAX_SESSION_HISTORY_ENTRIES :: nat where [limit_simps]: "MAX_SESSION_HISTORY_ENTRIES = 512"

definition MAX_PAGE_DIAGNOSTIC_SELECTORS :: nat where [limit_simps]: "MAX_PAGE_DIAGNOSTIC_SELECTORS = 32"

definition MAX_PAGE_DIAGNOSTIC_SELECTOR_BYTES :: nat where [limit_simps]: "MAX_PAGE_DIAGNOSTIC_SELECTOR_BYTES = 4 * 1024"

section \<open>Viewports\<close>

datatype scroll_restoration = ScrollAuto | ScrollManual

fun scroll_restoration_tag :: "scroll_restoration \<Rightarrow> 8 word" where
  "scroll_restoration_tag ScrollAuto = 0"
| "scroll_restoration_tag ScrollManual = 1"

definition get_scroll_restoration :: "scroll_restoration reading" where
  "get_scroll_restoration = read_bind get_u8 (\<lambda>t.
     if t = 0 then read_ok ScrollAuto
     else if t = 1 then read_ok ScrollManual
     else read_fail ''scroll restoration mode'')"

fun notification_permission_tag :: "notification_permission \<Rightarrow> 8 word" where
  "notification_permission_tag NotifyDefault = 0"
| "notification_permission_tag NotifyGranted = 1"
| "notification_permission_tag NotifyDenied = 2"

definition get_notification_permission :: "notification_permission reading" where
  "get_notification_permission = read_bind get_u8 (\<lambda>t.
     if t = 0 then read_ok NotifyDefault
     else if t = 1 then read_ok NotifyGranted
     else if t = 2 then read_ok NotifyDenied
     else read_fail ''notification permission'')"

record refresh_rate =
  rr_numerator :: u32
  rr_denominator :: u32

definition refresh_rate_new :: "u32 \<Rightarrow> u32 \<Rightarrow> refresh_rate option" where
  "refresh_rate_new n d = (if n = 0 \<or> d = 0 then None else Some \<lparr>rr_numerator = n, rr_denominator = d\<rparr>)"

definition put_refresh_rate :: "refresh_rate \<Rightarrow> bytes" where
  "put_refresh_rate r = put_u32 (rr_numerator r) @ put_u32 (rr_denominator r)"

definition get_refresh_rate :: "refresh_rate reading" where
  "get_refresh_rate = read_bind get_u32 (\<lambda>n. read_bind get_u32 (\<lambda>d.
     read_result (ok_or (refresh_rate_new n d) (InvalidPayload ''display refresh rate''))))"

definition refresh_rate_fits :: "refresh_rate \<Rightarrow> bool" where
  "refresh_rate_fits r \<longleftrightarrow> rr_numerator r \<noteq> 0 \<and> rr_denominator r \<noteq> 0"

record viewport =
  vp_width :: u32
  vp_overflow_width :: u32
  vp_height :: u32
  vp_style_width :: u32
  vp_dpi :: u32
  vp_dark :: bool
  vp_rate :: refresh_rate

text \<open>The bounds of a dimension are the bit patterns of 1 and 32768.\<close>

definition validate_viewport :: "viewport \<Rightarrow> protocol_error + unit" where
  "validate_viewport m = valid_when
     (list_all (f32_within 0x3f800000 0x47000000) [vp_width m, vp_overflow_width m, vp_height m, vp_style_width m]
       \<and> \<not> f32_key (vp_width m) < f32_key (vp_overflow_width m) \<and> 48 \<le> vp_dpi m \<and> vp_dpi m \<le> 768) ''viewport''"

definition put_viewport :: "viewport \<Rightarrow> protocol_error + bytes" where
  "put_viewport m =
     Inr (put_u32 (vp_width m) @ put_u32 (vp_overflow_width m) @ put_u32 (vp_height m) @
         put_u32 (vp_style_width m) @ put_u32 (vp_dpi m) @ put_bool (vp_dark m) @ put_refresh_rate (vp_rate m))"

definition get_viewport :: "viewport reading" where
  "get_viewport =
     read_bind get_u32 (\<lambda>width. read_bind get_u32 (\<lambda>overflow_width.
     read_bind get_u32 (\<lambda>height. read_bind get_u32 (\<lambda>style_width.
     read_bind get_u32 (\<lambda>dpi. read_bind get_bool (\<lambda>dark.
     read_bind get_refresh_rate (\<lambda>rate.
       read_result (checked validate_viewport \<lparr>vp_width = width, vp_overflow_width = overflow_width, vp_height = height, vp_style_width = style_width, vp_dpi = dpi, vp_dark = dark, vp_rate = rate\<rparr>))))))))"

definition viewport_fits :: "viewport \<Rightarrow> bool" where
  "viewport_fits m \<longleftrightarrow> refresh_rate_fits (vp_rate m) \<and> validate_viewport m = Inr ()"

section \<open>The start of a document\<close>

definition put_csp_texts :: "string list \<Rightarrow> protocol_error + bytes" where
  "put_csp_texts xs = and_then (put_each (\<lambda>w. put_string w) xs) (\<lambda>b. Inr (put_u32 (of_nat (length xs)) @ b))"

definition get_csp_texts :: "string list reading" where
  "get_csp_texts = read_bind get_u32 (\<lambda>count.
     if unat count > 32 then read_fail ''document CSP'' else read_times (unat count) (get_string (16 * 1024)))"

definition csp_texts_fits :: "string list \<Rightarrow> bool" where
  "csp_texts_fits xs \<longleftrightarrow> \<not> (length xs > 32) \<and> list_all (\<lambda>w. is_utf8 w \<and> length w \<le> 16 * 1024) xs"

definition put_diagnostic_selectors :: "string list \<Rightarrow> protocol_error + bytes" where
  "put_diagnostic_selectors xs = and_then (put_each (\<lambda>w. put_string w) xs) (\<lambda>b. Inr (put_u32 (of_nat (length xs)) @ b))"

definition get_diagnostic_selectors :: "string list reading" where
  "get_diagnostic_selectors = read_bind get_u32 (\<lambda>count.
     if unat count > MAX_PAGE_DIAGNOSTIC_SELECTORS then read_fail ''document diagnostic selectors'' else read_times (unat count) (get_string MAX_PAGE_DIAGNOSTIC_SELECTOR_BYTES))"

definition diagnostic_selectors_fits :: "string list \<Rightarrow> bool" where
  "diagnostic_selectors_fits xs \<longleftrightarrow> \<not> (length xs > MAX_PAGE_DIAGNOSTIC_SELECTORS) \<and> list_all (\<lambda>w. is_utf8 w \<and> length w \<le> MAX_PAGE_DIAGNOSTIC_SELECTOR_BYTES) xs"

record document_start =
  dcs_document :: u64
  dcs_url :: string
  dcs_status :: "16 word"
  dcs_content_type :: string
  dcs_csp_policies :: "string list"
  dcs_selectors :: "string list"
  dcs_body_size :: u32
  dcs_history_length :: u32
  dcs_history_index :: u32
  dcs_history_state :: "string option"
  dcs_scroll_restoration :: scroll_restoration
  dcs_viewport :: viewport
  dcs_dark :: bool
  dcs_notification :: notification_permission

definition validate_document_start :: "document_start \<Rightarrow> protocol_error + unit" where
  "validate_document_start m =
     and_then (valid_when (dcs_url m \<noteq> [] \<and> length (dcs_url m) \<le> MAX_URL_BYTES) ''document URL'') (\<lambda>_.
     and_then (valid_when (length (dcs_content_type m) \<le> 16 * 1024) ''document metadata'') (\<lambda>_.
     and_then (valid_when (length (dcs_csp_policies m) \<le> 32 \<and> list_all (\<lambda>p. length p \<le> 16 * 1024) (dcs_csp_policies m))
       ''document CSP'') (\<lambda>_.
     and_then (valid_when (length (dcs_selectors m) \<le> MAX_PAGE_DIAGNOSTIC_SELECTORS
         \<and> list_all (\<lambda>s. s \<noteq> [] \<and> length s \<le> MAX_PAGE_DIAGNOSTIC_SELECTOR_BYTES) (dcs_selectors m))
       ''document diagnostic selectors'') (\<lambda>_.
     and_then (ensure (unat (dcs_body_size m) \<le> MAX_RESPONSE_BODY_BYTES) (PayloadTooLarge (unat (dcs_body_size m)))) (\<lambda>_.
     and_then (valid_when (dcs_history_length m \<noteq> 0 \<and> unat (dcs_history_length m) \<le> MAX_SESSION_HISTORY_ENTRIES
         \<and> dcs_history_index m < dcs_history_length m
         \<and> pred_option (\<lambda>s. length s \<le> MAX_HISTORY_STATE_BYTES) (dcs_history_state m)) ''document history context'') (\<lambda>_.
       validate_viewport (dcs_viewport m)))))))"

definition put_document_start :: "document_start \<Rightarrow> protocol_error + bytes" where
  "put_document_start m =
     and_then (validate_document_start m) (\<lambda>_.
     and_then (put_string (dcs_url m)) (\<lambda>b_url.
     and_then (put_string (dcs_content_type m)) (\<lambda>b_content_type.
     and_then (put_csp_texts (dcs_csp_policies m)) (\<lambda>b_csp_policies.
     and_then (put_diagnostic_selectors (dcs_selectors m)) (\<lambda>b_selectors.
     and_then (put_optional (\<lambda>w. put_string w) (dcs_history_state m)) (\<lambda>b_history_state.
     and_then (put_viewport (dcs_viewport m)) (\<lambda>b_viewport.
       Inr (put_u64 (dcs_document m) @ b_url @ put_u16 (dcs_status m) @ b_content_type @ b_csp_policies @
         b_selectors @ put_u32 (dcs_body_size m) @ put_u32 (dcs_history_length m) @
         put_u32 (dcs_history_index m) @ b_history_state @
         put_u8 (scroll_restoration_tag (dcs_scroll_restoration m)) @ b_viewport @ put_bool (dcs_dark m) @
         put_u8 (notification_permission_tag (dcs_notification m))))))))))"

definition get_document_start :: "document_start reading" where
  "get_document_start =
     read_bind get_document_id (\<lambda>document. read_bind (get_string MAX_URL_BYTES) (\<lambda>url.
     read_bind get_u16 (\<lambda>status. read_bind (get_string (16 * 1024)) (\<lambda>content_type.
     read_bind get_csp_texts (\<lambda>csp_policies. read_bind get_diagnostic_selectors (\<lambda>selectors.
     read_bind get_u32 (\<lambda>body_size. read_bind get_u32 (\<lambda>history_length.
     read_bind get_u32 (\<lambda>history_index.
     read_bind (get_optional (get_string MAX_HISTORY_STATE_BYTES)) (\<lambda>history_state.
     read_bind get_scroll_restoration (\<lambda>scroll_restoration.
     read_bind get_viewport (\<lambda>viewport. read_bind get_bool (\<lambda>dark.
     read_bind get_notification_permission (\<lambda>notification.
       read_result (checked validate_document_start \<lparr>dcs_document = document, dcs_url = url, dcs_status = status, dcs_content_type = content_type, dcs_csp_policies = csp_policies, dcs_selectors = selectors, dcs_body_size = body_size, dcs_history_length = history_length, dcs_history_index = history_index, dcs_history_state = history_state, dcs_scroll_restoration = scroll_restoration, dcs_viewport = viewport, dcs_dark = dark, dcs_notification = notification\<rparr>)))))))))))))))"

definition document_start_fits :: "document_start \<Rightarrow> bool" where
  "document_start_fits m \<longleftrightarrow> (dcs_document m) \<noteq> 0 \<and> (is_utf8 (dcs_url m) \<and> length (dcs_url m) \<le> MAX_URL_BYTES) \<and> (is_utf8 (dcs_content_type m) \<and> length (dcs_content_type m) \<le> 16 * 1024) \<and> csp_texts_fits (dcs_csp_policies m) \<and> diagnostic_selectors_fits (dcs_selectors m) \<and> (pred_option (\<lambda>w. is_utf8 w \<and> length w \<le> MAX_HISTORY_STATE_BYTES) (dcs_history_state m)) \<and> viewport_fits (dcs_viewport m)"

text \<open>A document whose body follows without a declared length.\<close>

definition put_streaming_start :: "document_start \<Rightarrow> protocol_error + bytes" where
  "put_streaming_start m = and_then (valid_when (dcs_body_size m = 0) ''streaming document length'') (\<lambda>_. put_document_start m)"

definition get_streaming_start :: "document_start reading" where
  "get_streaming_start = read_bind get_document_start (\<lambda>m.
     if dcs_body_size m \<noteq> 0 then read_fail ''streaming document length'' else read_ok m)"

section \<open>Transfers\<close>

record transfer_chunk =
  tc_transfer_id :: u64
  tc_offset :: u32
  tc_content :: bytes

definition put_transfer_chunk :: "transfer_chunk \<Rightarrow> protocol_error + bytes" where
  "put_transfer_chunk m =
     and_then (valid_when (tc_transfer_id m \<noteq> 0 \<and> length (tc_content m) \<le> MAX_FRAME_PAYLOAD - 16) ''transfer chunk'') (\<lambda>_.
     and_then (put_bytes (tc_content m)) (\<lambda>b. Inr (put_u64 (tc_transfer_id m) @ put_u32 (tc_offset m) @ b)))"

definition get_transfer_chunk :: "transfer_chunk reading" where
  "get_transfer_chunk =
     read_bind (get_nonzero ''transfer'') (\<lambda>transfer_id. read_bind get_u32 (\<lambda>offset.
     read_bind (get_bytes (MAX_FRAME_PAYLOAD - 16)) (\<lambda>content.
       read_ok \<lparr>tc_transfer_id = transfer_id, tc_offset = offset, tc_content = content\<rparr>)))"

record transfer_assembler =
  ta_transfer_id :: u64
  ta_expected :: nat
  ta_bytes :: bytes

definition transfer_new :: "u64 \<Rightarrow> nat \<Rightarrow> nat \<Rightarrow> protocol_error + transfer_assembler" where
  "transfer_new transfer_id expected maximum =
     (if transfer_id = 0 \<or> expected > maximum then Inl (InvalidPayload ''transfer declaration'')
      else Inr \<lparr>ta_transfer_id = transfer_id, ta_expected = expected, ta_bytes = []\<rparr>)"

definition transfer_push :: "transfer_chunk \<Rightarrow> transfer_assembler \<Rightarrow> protocol_error + transfer_assembler" where
  "transfer_push c a =
     (if tc_transfer_id c \<noteq> ta_transfer_id a \<or> unat (tc_offset c) \<noteq> length (ta_bytes a)
      then Inl (InvalidPayload ''transfer offset'')
      else and_then (ok_or (checked_add (length (ta_bytes a)) (length (tc_content c))) (InvalidPayload ''transfer length'')) (\<lambda>next.
        if next > ta_expected a then Inl (InvalidPayload ''transfer overflow'')
        else Inr (a\<lparr>ta_bytes := ta_bytes a @ tc_content c\<rparr>)))"

definition transfer_finish :: "u64 \<Rightarrow> transfer_assembler \<Rightarrow> protocol_error + bytes" where
  "transfer_finish transfer_id a =
     (if transfer_id \<noteq> ta_transfer_id a \<or> length (ta_bytes a) \<noteq> ta_expected a
      then Inl (InvalidPayload ''incomplete transfer'') else Inr (ta_bytes a))"

record stream_assembler =
  sa_transfer_id :: u64
  sa_maximum :: nat
  sa_bytes :: bytes

definition stream_new :: "u64 \<Rightarrow> nat \<Rightarrow> protocol_error + stream_assembler" where
  "stream_new transfer_id maximum =
     (if transfer_id = 0 then Inl (InvalidPayload ''stream transfer declaration'')
      else Inr \<lparr>sa_transfer_id = transfer_id, sa_maximum = maximum, sa_bytes = []\<rparr>)"

definition stream_push :: "transfer_chunk \<Rightarrow> stream_assembler \<Rightarrow> protocol_error + stream_assembler" where
  "stream_push c a =
     (if tc_transfer_id c \<noteq> sa_transfer_id a \<or> unat (tc_offset c) \<noteq> length (sa_bytes a)
      then Inl (InvalidPayload ''stream transfer offset'')
      else and_then (ok_or (checked_add (length (sa_bytes a)) (length (tc_content c))) (InvalidPayload ''stream transfer length'')) (\<lambda>next.
        if next > sa_maximum a then Inl (InvalidPayload ''stream transfer overflow'')
        else Inr (a\<lparr>sa_bytes := sa_bytes a @ tc_content c\<rparr>)))"

definition stream_finish :: "u64 \<Rightarrow> nat \<Rightarrow> stream_assembler \<Rightarrow> protocol_error + bytes" where
  "stream_finish transfer_id total_length a =
     (if transfer_id \<noteq> sa_transfer_id a \<or> total_length \<noteq> length (sa_bytes a) \<or> total_length > sa_maximum a
      then Inl (InvalidPayload ''incomplete stream transfer'') else Inr (sa_bytes a))"

section \<open>Small messages\<close>

text \<open>Messages that are one identifier: \<^verbatim>\<open>EndDocument\<close>, \<^verbatim>\<open>CancelDocument\<close>, \<^verbatim>\<open>FetchRequestEnd\<close>.\<close>

definition put_document :: "u64 \<Rightarrow> protocol_error + bytes" where "put_document d = Inr (put_u64 d)"

definition validate_abort_text :: "string \<Rightarrow> protocol_error + unit" where
  "validate_abort_text s = valid_when (length s \<le> 16 * 1024) ''navigation error length''"

record abort_document =
  abd_document :: u64
  abd_message :: string

definition put_abort_document :: "abort_document \<Rightarrow> protocol_error + bytes" where
  "put_abort_document m =
     and_then (validate_abort_text (abd_message m)) (\<lambda>_.
     and_then (put_string (abd_message m)) (\<lambda>b. Inr (put_u64 (abd_document m) @ b)))"

definition get_abort_document :: "abort_document reading" where
  "get_abort_document =
     read_bind get_document_id (\<lambda>document. read_bind (get_string (16 * 1024)) (\<lambda>message.
       read_ok \<lparr>abd_document = document, abd_message = message\<rparr>))"

definition abort_document_fits :: "abort_document \<Rightarrow> bool" where
  "abort_document_fits m \<longleftrightarrow> abd_document m \<noteq> 0 \<and> is_utf8 (abd_message m)"

record advance_time =
  adv_document :: u64
  adv_elapsed_micros :: u64
  adv_max_callbacks :: u32

definition put_advance_time :: "advance_time \<Rightarrow> protocol_error + bytes" where
  "put_advance_time m =
     Inr (put_u64 (adv_document m) @ put_u64 (adv_elapsed_micros m) @ put_u32 (adv_max_callbacks m))"

definition get_advance_time :: "advance_time reading" where
  "get_advance_time =
     read_bind get_document_id (\<lambda>document. read_bind get_u64 (\<lambda>elapsed_micros.
     read_bind get_u32 (\<lambda>max_callbacks.
       read_ok \<lparr>adv_document = document, adv_elapsed_micros = elapsed_micros, adv_max_callbacks = max_callbacks\<rparr>)))"

definition advance_time_fits :: "advance_time \<Rightarrow> bool" where
  "advance_time_fits m \<longleftrightarrow> (adv_document m) \<noteq> 0"

record viewport_changed =
  vpc_document :: u64
  vpc_viewport :: viewport

definition put_viewport_changed :: "viewport_changed \<Rightarrow> protocol_error + bytes" where
  "put_viewport_changed m =
     and_then (put_viewport (vpc_viewport m)) (\<lambda>b_viewport.
       Inr (put_u64 (vpc_document m) @ b_viewport))"

definition get_viewport_changed :: "viewport_changed reading" where
  "get_viewport_changed =
     read_bind get_document_id (\<lambda>document. read_bind get_viewport (\<lambda>viewport.
       read_ok \<lparr>vpc_document = document, vpc_viewport = viewport\<rparr>))"

definition viewport_changed_fits :: "viewport_changed \<Rightarrow> bool" where
  "viewport_changed_fits m \<longleftrightarrow> (vpc_document m) \<noteq> 0 \<and> viewport_fits (vpc_viewport m)"

section \<open>Small messages of the renderer\<close>

record fetch_batch_start =
  fbs_document :: u64
  fbs_batch_id :: u64
  fbs_request_count :: u32

definition put_fetch_batch_start :: "fetch_batch_start \<Rightarrow> protocol_error + bytes" where
  "put_fetch_batch_start m =
     Inr (put_u64 (fbs_document m) @ put_u64 (fbs_batch_id m) @ put_u32 (fbs_request_count m))"

definition get_fetch_batch_start :: "fetch_batch_start reading" where
  "get_fetch_batch_start =
     read_bind get_document_id (\<lambda>document.
     read_bind (get_nonzero ''Fetch batch'') (\<lambda>batch_id. read_bind get_u32 (\<lambda>request_count.
       read_ok \<lparr>fbs_document = document, fbs_batch_id = batch_id, fbs_request_count = request_count\<rparr>)))"

definition fetch_batch_start_fits :: "fetch_batch_start \<Rightarrow> bool" where
  "fetch_batch_start_fits m \<longleftrightarrow> (fbs_document m) \<noteq> 0 \<and> (fbs_batch_id m) \<noteq> 0"

record fetch_request_start =
  frs_batch_id :: u64
  frs_request :: fetch_request_head

definition put_fetch_request_start :: "fetch_request_start \<Rightarrow> protocol_error + bytes" where
  "put_fetch_request_start m =
     and_then (put_fetch_request_head (frs_request m)) (\<lambda>b_request.
       Inr (put_u64 (frs_batch_id m) @ b_request))"

definition get_fetch_request_start :: "fetch_request_start reading" where
  "get_fetch_request_start =
     read_bind (get_nonzero ''Fetch batch'') (\<lambda>batch_id.
     read_bind get_fetch_request_head (\<lambda>request.
       read_ok \<lparr>frs_batch_id = batch_id, frs_request = request\<rparr>))"

definition fetch_request_start_fits :: "fetch_request_start \<Rightarrow> bool" where
  "fetch_request_start_fits m \<longleftrightarrow> (frs_batch_id m) \<noteq> 0 \<and> fetch_request_head_fits (frs_request m)"

record fetch_request_abort =
  fra_document :: u64
  fra_request_id :: u64

definition put_fetch_request_abort :: "fetch_request_abort \<Rightarrow> protocol_error + bytes" where
  "put_fetch_request_abort m =
     Inr (put_u64 (fra_document m) @ put_u64 (fra_request_id m))"

definition get_fetch_request_abort :: "fetch_request_abort reading" where
  "get_fetch_request_abort =
     read_bind get_document_id (\<lambda>document.
     read_bind (get_nonzero ''Fetch request'') (\<lambda>request_id.
       read_ok \<lparr>fra_document = document, fra_request_id = request_id\<rparr>))"

definition fetch_request_abort_fits :: "fetch_request_abort \<Rightarrow> bool" where
  "fetch_request_abort_fits m \<longleftrightarrow> (fra_document m) \<noteq> 0 \<and> (fra_request_id m) \<noteq> 0"

record response_consumed =
  rcd_document :: u64
  rcd_request_id :: u64
  rcd_byte_total :: u32

definition put_response_consumed :: "response_consumed \<Rightarrow> protocol_error + bytes" where
  "put_response_consumed m =
     Inr (put_u64 (rcd_document m) @ put_u64 (rcd_request_id m) @ put_u32 (rcd_byte_total m))"

definition get_response_consumed :: "response_consumed reading" where
  "get_response_consumed =
     read_bind get_document_id (\<lambda>document.
     read_bind (get_nonzero ''Fetch consumption'') (\<lambda>request_id.
     read_bind get_u32 (\<lambda>byte_total.
       read_ok \<lparr>rcd_document = document, rcd_request_id = request_id, rcd_byte_total = byte_total\<rparr>)))"

definition response_consumed_fits :: "response_consumed \<Rightarrow> bool" where
  "response_consumed_fits m \<longleftrightarrow> (rcd_document m) \<noteq> 0 \<and> (rcd_request_id m) \<noteq> 0"

record presentation_start =
  prs_document :: u64
  prs_revision :: u64
  prs_total_length :: u32
  prs_encode_micros :: u64

definition put_presentation_start :: "presentation_start \<Rightarrow> protocol_error + bytes" where
  "put_presentation_start m =
     Inr (put_u64 (prs_document m) @ put_u64 (prs_revision m) @ put_u32 (prs_total_length m) @
         put_u64 (prs_encode_micros m))"

definition get_presentation_start :: "presentation_start reading" where
  "get_presentation_start =
     read_bind get_document_id (\<lambda>document.
     read_bind (get_nonzero ''presentation revision'') (\<lambda>revision.
     read_bind get_u32 (\<lambda>total_length. read_bind get_u64 (\<lambda>encode_micros.
       read_ok \<lparr>prs_document = document, prs_revision = revision, prs_total_length = total_length, prs_encode_micros = encode_micros\<rparr>))))"

definition presentation_start_fits :: "presentation_start \<Rightarrow> bool" where
  "presentation_start_fits m \<longleftrightarrow> (prs_document m) \<noteq> 0 \<and> (prs_revision m) \<noteq> 0"

record presentation_end =
  pre_document :: u64
  pre_revision :: u64

definition put_presentation_end :: "presentation_end \<Rightarrow> protocol_error + bytes" where
  "put_presentation_end m =
     Inr (put_u64 (pre_document m) @ put_u64 (pre_revision m))"

definition get_presentation_end :: "presentation_end reading" where
  "get_presentation_end =
     read_bind get_document_id (\<lambda>document.
     read_bind (get_nonzero ''presentation revision'') (\<lambda>revision.
       read_ok \<lparr>pre_document = document, pre_revision = revision\<rparr>))"

definition presentation_end_fits :: "presentation_end \<Rightarrow> bool" where
  "presentation_end_fits m \<longleftrightarrow> (pre_document m) \<noteq> 0 \<and> (pre_revision m) \<noteq> 0"

record document_failed =
  dcf_document :: u64
  dcf_detail :: string

definition put_document_failed :: "document_failed \<Rightarrow> protocol_error + bytes" where
  "put_document_failed m =
     and_then (put_string (dcf_detail m)) (\<lambda>b_detail.
       Inr (put_u64 (dcf_document m) @ b_detail))"

definition get_document_failed :: "document_failed reading" where
  "get_document_failed =
     read_bind get_document_id (\<lambda>document.
     read_bind (get_string MAX_CONTROL_PAYLOAD) (\<lambda>detail.
       read_ok \<lparr>dcf_document = document, dcf_detail = detail\<rparr>))"

definition document_failed_fits :: "document_failed \<Rightarrow> bool" where
  "document_failed_fits m \<longleftrightarrow> (dcf_document m) \<noteq> 0 \<and> (is_utf8 (dcf_detail m) \<and> length (dcf_detail m) \<le> MAX_CONTROL_PAYLOAD)"

datatype navigation_disposition = CurrentTab | NewForegroundTab | NewBackgroundTab

fun navigation_disposition_tag :: "navigation_disposition \<Rightarrow> 8 word" where
  "navigation_disposition_tag CurrentTab = 1"
| "navigation_disposition_tag NewForegroundTab = 2"
| "navigation_disposition_tag NewBackgroundTab = 3"

definition get_navigation_disposition :: "navigation_disposition reading" where
  "get_navigation_disposition = read_bind get_u8 (\<lambda>t.
     if t = 1 then read_ok CurrentTab
     else if t = 2 then read_ok NewForegroundTab
     else if t = 3 then read_ok NewBackgroundTab
     else read_fail ''navigation disposition'')"

datatype navigation_cause = UserActivation | NavigationRedirect

fun navigation_cause_tag :: "navigation_cause \<Rightarrow> 8 word" where
  "navigation_cause_tag UserActivation = 1"
| "navigation_cause_tag NavigationRedirect = 2"

definition get_navigation_cause :: "navigation_cause reading" where
  "get_navigation_cause = read_bind get_u8 (\<lambda>t.
     if t = 1 then read_ok UserActivation
     else if t = 2 then read_ok NavigationRedirect
     else read_fail ''navigation cause'')"

record navigation_requested =
  nvr_document :: u64
  nvr_url :: string
  nvr_disposition :: navigation_disposition
  nvr_cause :: navigation_cause

definition put_navigation_requested :: "navigation_requested \<Rightarrow> protocol_error + bytes" where
  "put_navigation_requested m =
     and_then (put_string (nvr_url m)) (\<lambda>b_url.
       Inr (put_u64 (nvr_document m) @ b_url @ put_u8 (navigation_disposition_tag (nvr_disposition m)) @
         put_u8 (navigation_cause_tag (nvr_cause m))))"

definition get_navigation_requested :: "navigation_requested reading" where
  "get_navigation_requested =
     read_bind get_document_id (\<lambda>document. read_bind (get_string MAX_URL_BYTES) (\<lambda>url.
     read_bind get_navigation_disposition (\<lambda>disposition.
     read_bind get_navigation_cause (\<lambda>cause.
       read_ok \<lparr>nvr_document = document, nvr_url = url, nvr_disposition = disposition, nvr_cause = cause\<rparr>))))"

definition navigation_requested_fits :: "navigation_requested \<Rightarrow> bool" where
  "navigation_requested_fits m \<longleftrightarrow> (nvr_document m) \<noteq> 0 \<and> (is_utf8 (nvr_url m) \<and> length (nvr_url m) \<le> MAX_URL_BYTES)"

datatype pointer_cursor = DefaultCursor | PointerHand

fun pointer_cursor_tag :: "pointer_cursor \<Rightarrow> 8 word" where
  "pointer_cursor_tag DefaultCursor = 1"
| "pointer_cursor_tag PointerHand = 2"

definition get_pointer_cursor :: "pointer_cursor reading" where
  "get_pointer_cursor = read_bind get_u8 (\<lambda>t.
     if t = 1 then read_ok DefaultCursor
     else if t = 2 then read_ok PointerHand
     else read_fail ''pointer cursor'')"

record pointer_cursor_result =
  pcr_document :: u64
  pcr_sequence :: u64
  pcr_cursor :: pointer_cursor

definition validate_pointer_cursor_result :: "pointer_cursor_result \<Rightarrow> protocol_error + unit" where
  "validate_pointer_cursor_result m = valid_when (pcr_sequence m \<noteq> 0) ''pointer cursor sequence''"

definition put_pointer_cursor_result :: "pointer_cursor_result \<Rightarrow> protocol_error + bytes" where
  "put_pointer_cursor_result m =
     and_then (validate_pointer_cursor_result m) (\<lambda>_.
     Inr (put_u64 (pcr_document m) @ put_u64 (pcr_sequence m) @ put_u8 (pointer_cursor_tag (pcr_cursor m))))"

definition get_pointer_cursor_result :: "pointer_cursor_result reading" where
  "get_pointer_cursor_result =
     read_bind get_document_id (\<lambda>document. read_bind get_u64 (\<lambda>sequence.
     read_bind get_pointer_cursor (\<lambda>cursor.
       read_result (checked validate_pointer_cursor_result \<lparr>pcr_document = document, pcr_sequence = sequence, pcr_cursor = cursor\<rparr>))))"

definition pointer_cursor_result_fits :: "pointer_cursor_result \<Rightarrow> bool" where
  "pointer_cursor_result_fits m \<longleftrightarrow> (pcr_document m) \<noteq> 0"

record scroll_completed =
  scd_document :: u64
  scd_sequence :: u64

definition validate_scroll_completed :: "scroll_completed \<Rightarrow> protocol_error + unit" where
  "validate_scroll_completed m = valid_when (scd_sequence m \<noteq> 0) ''scroll completion sequence''"

definition put_scroll_completed :: "scroll_completed \<Rightarrow> protocol_error + bytes" where
  "put_scroll_completed m =
     and_then (validate_scroll_completed m) (\<lambda>_.
     Inr (put_u64 (scd_document m) @ put_u64 (scd_sequence m)))"

definition get_scroll_completed :: "scroll_completed reading" where
  "get_scroll_completed =
     read_bind get_document_id (\<lambda>document. read_bind get_u64 (\<lambda>sequence.
       read_result (checked validate_scroll_completed \<lparr>scd_document = document, scd_sequence = sequence\<rparr>)))"

definition scroll_completed_fits :: "scroll_completed \<Rightarrow> bool" where
  "scroll_completed_fits m \<longleftrightarrow> (scd_document m) \<noteq> 0"

section \<open>Exactness\<close>

lemma reads_scroll_restoration [wire_reads]: "reads get_scroll_restoration (\<lambda>x bs. bs = put_u8 (scroll_restoration_tag x))"
  unfolding get_scroll_restoration_def
  apply (rule reads_cong, (rule wire_reads)+)
  subgoal for x bs by (cases x rule: scroll_restoration_tag.cases) auto
  done

lemma reads_notification_permission [wire_reads]: "reads get_notification_permission (\<lambda>x bs. bs = put_u8 (notification_permission_tag x))"
  unfolding get_notification_permission_def
  apply (rule reads_cong, (rule wire_reads)+)
  subgoal for x bs by (cases x rule: notification_permission_tag.cases) auto
  done

lemma reads_refresh_rate [wire_reads]: "reads get_refresh_rate (\<lambda>r bs. refresh_rate_fits r \<and> bs = put_refresh_rate r)"
  unfolding get_refresh_rate_def
  apply (rule reads_cong, (rule wire_reads)+)
  subgoal for r bs by (cases r) (auto simp: refresh_rate_fits_def refresh_rate_new_def put_refresh_rate_def)
  done

lemma reads_viewport [wire_reads]: "reads get_viewport (\<lambda>m bs. viewport_fits m \<and> put_viewport m = Inr bs)"
  unfolding get_viewport_def
  apply (rule reads_cong, (rule wire_reads)+)
  subgoal for m bs by (cases m; auto simp: viewport_fits_def put_viewport_def result_simps; blast)
  done

lemma reads_csp_texts [wire_reads]: "reads get_csp_texts (\<lambda>xs bs. csp_texts_fits xs \<and> put_csp_texts xs = Inr bs)"
proof -
  have e: "reads (get_string (16 * 1024)) (\<lambda>w bs. (is_utf8 w \<and> length w \<le> 16 * 1024) \<and> put_string w = (Inr bs :: protocol_error + bytes))"
    by (rule reads_cong, (rule wire_reads)+) auto
  show ?thesis
    unfolding get_csp_texts_def
    by (rule reads_cong, rule reads_list [OF reads_u32 e, of "\<lambda>n. n > 32"]) (auto simp: csp_texts_fits_def put_csp_texts_def limit_simps)
qed

lemma reads_diagnostic_selectors [wire_reads]: "reads get_diagnostic_selectors (\<lambda>xs bs. diagnostic_selectors_fits xs \<and> put_diagnostic_selectors xs = Inr bs)"
proof -
  have e: "reads (get_string MAX_PAGE_DIAGNOSTIC_SELECTOR_BYTES) (\<lambda>w bs. (is_utf8 w \<and> length w \<le> MAX_PAGE_DIAGNOSTIC_SELECTOR_BYTES) \<and> put_string w = (Inr bs :: protocol_error + bytes))"
    by (rule reads_cong, (rule wire_reads)+) auto
  show ?thesis
    unfolding get_diagnostic_selectors_def
    by (rule reads_cong, rule reads_list [OF reads_u32 e, of "\<lambda>n. n > MAX_PAGE_DIAGNOSTIC_SELECTORS"]) (auto simp: diagnostic_selectors_fits_def put_diagnostic_selectors_def limit_simps)
qed

lemma reads_optional_history_state [wire_reads]:
  "reads (get_optional (get_string MAX_HISTORY_STATE_BYTES)) (\<lambda>v bs. pred_option (\<lambda>w. is_utf8 w \<and> length w \<le> MAX_HISTORY_STATE_BYTES) v \<and> put_optional (\<lambda>w. put_string w) v = Inr bs)"
proof -
  have "reads (get_string MAX_HISTORY_STATE_BYTES) (\<lambda>w bs. (is_utf8 w \<and> length w \<le> MAX_HISTORY_STATE_BYTES) \<and> put_string w = (Inr bs :: protocol_error + bytes))"
    by (rule reads_cong, (rule wire_reads)+) auto
  then show ?thesis by (rule reads_cong [OF reads_optional]) (auto simp: pred_option_def)
qed

lemma reads_document_start_from_10: "reads (
     read_bind get_scroll_restoration (\<lambda>scroll_restoration.
     read_bind get_viewport (\<lambda>viewport. read_bind get_bool (\<lambda>dark.
     read_bind get_notification_permission (\<lambda>notification.
       read_result (checked validate_document_start \<lparr>dcs_document = document, dcs_url = url, dcs_status = status, dcs_content_type = content_type, dcs_csp_policies = csp_policies, dcs_selectors = selectors, dcs_body_size = body_size, dcs_history_length = history_length, dcs_history_index = history_index, dcs_history_state = history_state, dcs_scroll_restoration = scroll_restoration, dcs_viewport = viewport, dcs_dark = dark, dcs_notification = notification\<rparr>))))))
    (\<lambda>m bs. dcs_document m = document \<and> dcs_url m = url \<and> dcs_status m = status \<and> dcs_content_type m = content_type \<and> dcs_csp_policies m = csp_policies \<and> dcs_selectors m = selectors \<and> dcs_body_size m = body_size \<and> dcs_history_length m = history_length \<and> dcs_history_index m = history_index \<and> dcs_history_state m = history_state \<and> validate_document_start m = Inr () \<and> (viewport_fits (dcs_viewport m)) \<and>
     and_then (put_viewport (dcs_viewport m)) (\<lambda>b_viewport.
       Inr (put_u8 (scroll_restoration_tag (dcs_scroll_restoration m)) @ b_viewport @ put_bool (dcs_dark m) @
         put_u8 (notification_permission_tag (dcs_notification m)))) = Inr bs)"
  apply (rule reads_cong, (rule wire_reads)+)
  subgoal for m bs by (cases m; auto simp: result_simps; blast)
  done

lemma reads_document_start_from_5: "reads (
     read_bind get_diagnostic_selectors (\<lambda>selectors. read_bind get_u32 (\<lambda>body_size.
     read_bind get_u32 (\<lambda>history_length. read_bind get_u32 (\<lambda>history_index.
     read_bind (get_optional (get_string MAX_HISTORY_STATE_BYTES)) (\<lambda>history_state.
     read_bind get_scroll_restoration (\<lambda>scroll_restoration.
     read_bind get_viewport (\<lambda>viewport. read_bind get_bool (\<lambda>dark.
     read_bind get_notification_permission (\<lambda>notification.
       read_result (checked validate_document_start \<lparr>dcs_document = document, dcs_url = url, dcs_status = status, dcs_content_type = content_type, dcs_csp_policies = csp_policies, dcs_selectors = selectors, dcs_body_size = body_size, dcs_history_length = history_length, dcs_history_index = history_index, dcs_history_state = history_state, dcs_scroll_restoration = scroll_restoration, dcs_viewport = viewport, dcs_dark = dark, dcs_notification = notification\<rparr>)))))))))))
    (\<lambda>m bs. dcs_document m = document \<and> dcs_url m = url \<and> dcs_status m = status \<and> dcs_content_type m = content_type \<and> dcs_csp_policies m = csp_policies \<and> validate_document_start m = Inr () \<and> (diagnostic_selectors_fits (dcs_selectors m)) \<and> (pred_option (\<lambda>w. is_utf8 w \<and> length w \<le> MAX_HISTORY_STATE_BYTES) (dcs_history_state m)) \<and> (viewport_fits (dcs_viewport m)) \<and>
     and_then (put_diagnostic_selectors (dcs_selectors m)) (\<lambda>b_selectors.
     and_then (put_optional (\<lambda>w. put_string w) (dcs_history_state m)) (\<lambda>b_history_state.
     and_then (put_viewport (dcs_viewport m)) (\<lambda>b_viewport.
       Inr (b_selectors @ put_u32 (dcs_body_size m) @ put_u32 (dcs_history_length m) @
         put_u32 (dcs_history_index m) @ b_history_state @
         put_u8 (scroll_restoration_tag (dcs_scroll_restoration m)) @ b_viewport @ put_bool (dcs_dark m) @
         put_u8 (notification_permission_tag (dcs_notification m)))))) = Inr bs)"
  apply (rule reads_cong, (rule reads_document_start_from_10 wire_reads)+)
  subgoal for m bs by (cases m; auto simp: result_simps; blast)
  done

lemma reads_document_start [wire_reads]: "reads get_document_start (\<lambda>m bs. document_start_fits m \<and> put_document_start m = Inr bs)"
  unfolding get_document_start_def
  apply (rule reads_cong, (rule reads_document_start_from_5 wire_reads)+)
  subgoal for m bs by (cases m; auto simp: document_start_fits_def put_document_start_def result_simps; blast)
  done

interpretation document_start: payload_format put_document_start "run_reader get_document_start" document_start_fits
  by (rule whole_format) (rule reads_document_start)

lemma reads_streaming_start [wire_reads]:
  "reads get_streaming_start (\<lambda>m bs. document_start_fits m \<and> put_streaming_start m = Inr bs)"
  unfolding get_streaming_start_def
  by (rule reads_cong, (rule wire_reads)+) (auto simp: put_streaming_start_def result_simps)

interpretation streaming_start: payload_format put_streaming_start "run_reader get_streaming_start" document_start_fits
  by (rule whole_format) (rule reads_streaming_start)

definition transfer_chunk_fits :: "transfer_chunk \<Rightarrow> bool" where
  "transfer_chunk_fits m \<longleftrightarrow> True"

lemma reads_transfer_chunk [wire_reads]: "reads get_transfer_chunk (\<lambda>m bs. transfer_chunk_fits m \<and> put_transfer_chunk m = Inr bs)"
  unfolding get_transfer_chunk_def
  apply (rule reads_cong, (rule wire_reads)+)
  subgoal for m bs by (cases m; auto simp: transfer_chunk_fits_def put_transfer_chunk_def result_simps)
  done

interpretation transfer_chunk: payload_format put_transfer_chunk "run_reader get_transfer_chunk" transfer_chunk_fits
  by (rule whole_format) (rule reads_transfer_chunk)

interpretation document_only: payload_format put_document "run_reader get_document_id" "\<lambda>d. d \<noteq> 0"
  by (rule whole_format, rule reads_cong, rule reads_document_id) (auto simp: put_document_def)

interpretation request_only: payload_format put_document "run_reader (get_nonzero ''Fetch request'')" "\<lambda>d. d \<noteq> 0"
  by (rule whole_format, rule reads_cong, rule reads_nonzero) (auto simp: put_document_def)

lemma reads_abort_document [wire_reads]:
  "reads get_abort_document (\<lambda>m bs. abort_document_fits m \<and> put_abort_document m = Inr bs)"
  unfolding get_abort_document_def
  apply (rule reads_cong, (rule wire_reads)+)
  subgoal for m bs by (cases m; auto simp: abort_document_fits_def put_abort_document_def validate_abort_text_def result_simps)
  done

interpretation abort_document: payload_format put_abort_document "run_reader get_abort_document" abort_document_fits
  by (rule whole_format) (rule reads_abort_document)

lemma reads_advance_time [wire_reads]: "reads get_advance_time (\<lambda>m bs. advance_time_fits m \<and> put_advance_time m = Inr bs)"
  unfolding get_advance_time_def
  apply (rule reads_cong, (rule wire_reads)+)
  subgoal for m bs by (cases m; auto simp: advance_time_fits_def put_advance_time_def result_simps; blast)
  done

interpretation advance_time: payload_format put_advance_time "run_reader get_advance_time" advance_time_fits
  by (rule whole_format) (rule reads_advance_time)

lemma reads_viewport_changed [wire_reads]: "reads get_viewport_changed (\<lambda>m bs. viewport_changed_fits m \<and> put_viewport_changed m = Inr bs)"
  unfolding get_viewport_changed_def
  apply (rule reads_cong, (rule wire_reads)+)
  subgoal for m bs by (cases m; auto simp: viewport_changed_fits_def put_viewport_changed_def result_simps; blast)
  done

interpretation viewport_changed: payload_format put_viewport_changed "run_reader get_viewport_changed" viewport_changed_fits
  by (rule whole_format) (rule reads_viewport_changed)

lemma reads_fetch_batch_start [wire_reads]: "reads get_fetch_batch_start (\<lambda>m bs. fetch_batch_start_fits m \<and> put_fetch_batch_start m = Inr bs)"
  unfolding get_fetch_batch_start_def
  apply (rule reads_cong, (rule wire_reads)+)
  subgoal for m bs by (cases m; auto simp: fetch_batch_start_fits_def put_fetch_batch_start_def result_simps; blast)
  done

interpretation fetch_batch_start: payload_format put_fetch_batch_start "run_reader get_fetch_batch_start" fetch_batch_start_fits
  by (rule whole_format) (rule reads_fetch_batch_start)

lemma reads_fetch_request_start [wire_reads]: "reads get_fetch_request_start (\<lambda>m bs. fetch_request_start_fits m \<and> put_fetch_request_start m = Inr bs)"
  unfolding get_fetch_request_start_def
  apply (rule reads_cong, (rule wire_reads)+)
  subgoal for m bs by (cases m; auto simp: fetch_request_start_fits_def put_fetch_request_start_def result_simps; blast)
  done

interpretation fetch_request_start: payload_format put_fetch_request_start "run_reader get_fetch_request_start" fetch_request_start_fits
  by (rule whole_format) (rule reads_fetch_request_start)

lemma reads_fetch_request_abort [wire_reads]: "reads get_fetch_request_abort (\<lambda>m bs. fetch_request_abort_fits m \<and> put_fetch_request_abort m = Inr bs)"
  unfolding get_fetch_request_abort_def
  apply (rule reads_cong, (rule wire_reads)+)
  subgoal for m bs by (cases m; auto simp: fetch_request_abort_fits_def put_fetch_request_abort_def result_simps; blast)
  done

interpretation fetch_request_abort: payload_format put_fetch_request_abort "run_reader get_fetch_request_abort" fetch_request_abort_fits
  by (rule whole_format) (rule reads_fetch_request_abort)

lemma reads_response_consumed [wire_reads]: "reads get_response_consumed (\<lambda>m bs. response_consumed_fits m \<and> put_response_consumed m = Inr bs)"
  unfolding get_response_consumed_def
  apply (rule reads_cong, (rule wire_reads)+)
  subgoal for m bs by (cases m; auto simp: response_consumed_fits_def put_response_consumed_def result_simps; blast)
  done

interpretation response_consumed: payload_format put_response_consumed "run_reader get_response_consumed" response_consumed_fits
  by (rule whole_format) (rule reads_response_consumed)

lemma reads_presentation_start [wire_reads]: "reads get_presentation_start (\<lambda>m bs. presentation_start_fits m \<and> put_presentation_start m = Inr bs)"
  unfolding get_presentation_start_def
  apply (rule reads_cong, (rule wire_reads)+)
  subgoal for m bs by (cases m; auto simp: presentation_start_fits_def put_presentation_start_def result_simps; blast)
  done

interpretation presentation_start: payload_format put_presentation_start "run_reader get_presentation_start" presentation_start_fits
  by (rule whole_format) (rule reads_presentation_start)

lemma reads_presentation_end [wire_reads]: "reads get_presentation_end (\<lambda>m bs. presentation_end_fits m \<and> put_presentation_end m = Inr bs)"
  unfolding get_presentation_end_def
  apply (rule reads_cong, (rule wire_reads)+)
  subgoal for m bs by (cases m; auto simp: presentation_end_fits_def put_presentation_end_def result_simps; blast)
  done

interpretation presentation_end: payload_format put_presentation_end "run_reader get_presentation_end" presentation_end_fits
  by (rule whole_format) (rule reads_presentation_end)

lemma reads_document_failed [wire_reads]: "reads get_document_failed (\<lambda>m bs. document_failed_fits m \<and> put_document_failed m = Inr bs)"
  unfolding get_document_failed_def
  apply (rule reads_cong, (rule wire_reads)+)
  subgoal for m bs by (cases m; auto simp: document_failed_fits_def put_document_failed_def result_simps; blast)
  done

interpretation document_failed: payload_format put_document_failed "run_reader get_document_failed" document_failed_fits
  by (rule whole_format) (rule reads_document_failed)

lemma reads_navigation_disposition [wire_reads]: "reads get_navigation_disposition (\<lambda>x bs. bs = put_u8 (navigation_disposition_tag x))"
  unfolding get_navigation_disposition_def
  apply (rule reads_cong, (rule wire_reads)+)
  subgoal for x bs by (cases x rule: navigation_disposition_tag.cases) auto
  done

lemma reads_navigation_cause [wire_reads]: "reads get_navigation_cause (\<lambda>x bs. bs = put_u8 (navigation_cause_tag x))"
  unfolding get_navigation_cause_def
  apply (rule reads_cong, (rule wire_reads)+)
  subgoal for x bs by (cases x rule: navigation_cause_tag.cases) auto
  done

lemma reads_navigation_requested [wire_reads]: "reads get_navigation_requested (\<lambda>m bs. navigation_requested_fits m \<and> put_navigation_requested m = Inr bs)"
  unfolding get_navigation_requested_def
  apply (rule reads_cong, (rule wire_reads)+)
  subgoal for m bs by (cases m; auto simp: navigation_requested_fits_def put_navigation_requested_def result_simps; blast)
  done

interpretation navigation_requested: payload_format put_navigation_requested "run_reader get_navigation_requested" navigation_requested_fits
  by (rule whole_format) (rule reads_navigation_requested)

lemma reads_pointer_cursor [wire_reads]: "reads get_pointer_cursor (\<lambda>x bs. bs = put_u8 (pointer_cursor_tag x))"
  unfolding get_pointer_cursor_def
  apply (rule reads_cong, (rule wire_reads)+)
  subgoal for x bs by (cases x rule: pointer_cursor_tag.cases) auto
  done

lemma reads_pointer_cursor_result [wire_reads]: "reads get_pointer_cursor_result (\<lambda>m bs. pointer_cursor_result_fits m \<and> put_pointer_cursor_result m = Inr bs)"
  unfolding get_pointer_cursor_result_def
  apply (rule reads_cong, (rule wire_reads)+)
  subgoal for m bs by (cases m; auto simp: pointer_cursor_result_fits_def put_pointer_cursor_result_def result_simps; blast)
  done

interpretation pointer_cursor_result: payload_format put_pointer_cursor_result "run_reader get_pointer_cursor_result" pointer_cursor_result_fits
  by (rule whole_format) (rule reads_pointer_cursor_result)

lemma reads_scroll_completed [wire_reads]: "reads get_scroll_completed (\<lambda>m bs. scroll_completed_fits m \<and> put_scroll_completed m = Inr bs)"
  unfolding get_scroll_completed_def
  apply (rule reads_cong, (rule wire_reads)+)
  subgoal for m bs by (cases m; auto simp: scroll_completed_fits_def put_scroll_completed_def result_simps; blast)
  done

interpretation scroll_completed: payload_format put_scroll_completed "run_reader get_scroll_completed" scroll_completed_fits
  by (rule whole_format) (rule reads_scroll_completed)

end
