(* ===== verification/Ipc_Video.thy ===== *)
theory Ipc_Video
  imports Ipc_Documents
begin

text \<open>
  Video frames (\<^verbatim>\<open>renderer_protocol/video.rs\<close>) and the control messages of a session: handshake, heartbeat,
  diagnostics and the report on the sandbox (\<^verbatim>\<open>renderer_protocol/message.rs\<close>, \<^verbatim>\<open>codec/payload.rs\<close>).
\<close>

definition MAX_MEDIA_DIMENSION :: nat where [limit_simps]: "MAX_MEDIA_DIMENSION = 8192"

definition MAX_MEDIA_DECODED_FRAME_BYTES :: nat where [limit_simps]: "MAX_MEDIA_DECODED_FRAME_BYTES = 128 * 1024 * 1024"

definition MAX_RENDERER_DIAGNOSTIC_BYTES :: nat where [limit_simps]: "MAX_RENDERER_DIAGNOSTIC_BYTES = 16 * 1024"

section \<open>Video frames\<close>

record video_identity =
  vid_document :: u64
  vid_revision :: u64
  vid_frame :: u64
  vid_node :: "128 word"
  vid_width :: u32
  vid_height :: u32

definition checked_mul :: "nat \<Rightarrow> nat \<Rightarrow> nat option" where
  "checked_mul a b = (if a * b \<le> u64_max then Some (a * b) else None)"

definition video_byte_length :: "video_identity \<Rightarrow> protocol_error + nat" where
  "video_byte_length m =
     (let size' = (case Option.bind (checked_mul (unat (vid_width m)) (unat (vid_height m))) (\<lambda>pixels. checked_mul pixels 4) of
                     Some n \<Rightarrow> n | None \<Rightarrow> u64_max)
      in if vid_revision m = 0 \<or> vid_frame m = 0 \<or> vid_node m = 0 \<or> vid_width m = 0 \<or> vid_height m = 0
           \<or> unat (vid_width m) > MAX_MEDIA_DIMENSION \<or> unat (vid_height m) > MAX_MEDIA_DIMENSION
           \<or> size' > MAX_MEDIA_DECODED_FRAME_BYTES
         then Inl (InvalidPayload ''video frame identity or dimensions'') else Inr size')"

definition validate_video_identity :: "video_identity \<Rightarrow> protocol_error + unit" where
  "validate_video_identity m = and_then (video_byte_length m) (\<lambda>_. Inr ())"

definition put_video_identity :: "video_identity \<Rightarrow> protocol_error + bytes" where
  "put_video_identity m =
     Inr (put_u64 (vid_document m) @ put_u64 (vid_revision m) @ put_u64 (vid_frame m) @ put_u128 (vid_node m) @
         put_u32 (vid_width m) @ put_u32 (vid_height m))"

definition get_video_identity :: "video_identity reading" where
  "get_video_identity =
     read_bind get_document_id (\<lambda>document. read_bind get_u64 (\<lambda>revision.
     read_bind get_u64 (\<lambda>frame. read_bind get_u128 (\<lambda>node.
     read_bind get_u32 (\<lambda>width. read_bind get_u32 (\<lambda>height.
       read_result (checked validate_video_identity \<lparr>vid_document = document, vid_revision = revision, vid_frame = frame, vid_node = node, vid_width = width, vid_height = height\<rparr>)))))))"

definition video_identity_fits :: "video_identity \<Rightarrow> bool" where
  "video_identity_fits m \<longleftrightarrow> (vid_document m) \<noteq> 0 \<and> validate_video_identity m = Inr ()"

record video_chunk =
  vch_identity :: video_identity
  vch_offset :: u32
  vch_content :: bytes

definition validate_video_chunk :: "video_chunk \<Rightarrow> protocol_error + unit" where
  "validate_video_chunk m =
     and_then (video_byte_length (vch_identity m)) (\<lambda>size'.
       valid_when (vch_content m \<noteq> [] \<and> length (vch_content m) \<le> 1024 * 1024
         \<and> (case checked_add (unat (vch_offset m)) (length (vch_content m)) of None \<Rightarrow> False | Some stop \<Rightarrow> stop \<le> size'))
         ''video frame chunk extent'')"

definition put_video_chunk :: "video_chunk \<Rightarrow> protocol_error + bytes" where
  "put_video_chunk m =
     and_then (put_video_identity (vch_identity m)) (\<lambda>b_identity.
     and_then (put_bytes (vch_content m)) (\<lambda>b_content.
       Inr (b_identity @ put_u32 (vch_offset m) @ b_content)))"

definition get_video_chunk :: "video_chunk reading" where
  "get_video_chunk =
     read_bind get_video_identity (\<lambda>identity. read_bind get_u32 (\<lambda>offset.
     read_bind (get_bytes (1024 * 1024)) (\<lambda>content.
       read_ok \<lparr>vch_identity = identity, vch_offset = offset, vch_content = content\<rparr>)))"

definition video_chunk_fits :: "video_chunk \<Rightarrow> bool" where
  "video_chunk_fits m \<longleftrightarrow> video_identity_fits (vch_identity m) \<and> length (vch_content m) \<le> 1024 * 1024"

definition encode_video_chunk :: "video_chunk \<Rightarrow> protocol_error + bytes" where
  "encode_video_chunk = encode_checked validate_video_chunk put_video_chunk"

definition decode_video_chunk :: "bytes \<Rightarrow> protocol_error + video_chunk" where
  "decode_video_chunk = decode_checked validate_video_chunk get_video_chunk"

record video_update =
  vup_identity :: video_identity
  vup_pixels :: bytes

type_synonym video_assembler = "(video_identity \<times> bytes) option"

definition video_push :: "video_chunk \<Rightarrow> video_assembler \<Rightarrow> (protocol_error + video_update option) \<times> video_assembler" where
  "video_push c pending =
     (case validate_video_chunk c of
        Inl e \<Rightarrow> (Inl e, pending)
      | Inr _ \<Rightarrow>
          let pending' = (if pending = None \<and> vch_offset c = 0 then Some (vch_identity c, []) else pending)
          in case pending' of
               None \<Rightarrow> (Inl (InvalidPayload ''video chunk without start''), pending')
             | Some (frame_id, pixels) \<Rightarrow>
                 if frame_id \<noteq> vch_identity c \<or> length pixels \<noteq> unat (vch_offset c)
                 then (Inl (InvalidPayload ''video chunk identity or offset''), pending')
                 else let pixels' = pixels @ vch_content c
                   in case video_byte_length frame_id of
                        Inl e \<Rightarrow> (Inl e, Some (frame_id, pixels'))
                      | Inr n \<Rightarrow>
                          if length pixels' \<noteq> n then (Inr None, Some (frame_id, pixels'))
                          else (Inr (Some \<lparr>vup_identity = frame_id, vup_pixels = pixels'\<rparr>), None))"

section \<open>Control messages\<close>

text \<open>
  These payloads are sliced at fixed offsets after a check of the length; a field at offset \<open>i\<close> of \<open>n\<close> bytes
  is \<open>field_at i n\<close>. A nonce is 32 bytes.
\<close>

definition NONCE_LENGTH :: nat where [limit_simps]: "NONCE_LENGTH = 32"

definition require_length :: "bytes \<Rightarrow> nat \<Rightarrow> protocol_error + unit" where
  "require_length payload expected = ensure (length payload = expected) (InvalidPayload ''message length'')"

definition session_id_new :: "u64 \<Rightarrow> protocol_error + u64" where
  "session_id_new v = (if v \<noteq> 0 then Inr v else Inl (InvalidPayload ''zero renderer session''))"

definition context_id_new :: "u64 \<Rightarrow> protocol_error + u64" where
  "context_id_new v = (if v \<noteq> 0 then Inr v else Inl (InvalidPayload ''zero browsing context''))"

definition boolean :: "8 word \<Rightarrow> protocol_error + bool" where
  "boolean v = (if v = 0 then Inr False else if v = 1 then Inr True else Inl (InvalidPayload ''boolean''))"

record hello =
  hel_nonce :: bytes
  hel_context :: u64
  hel_max_control :: u32
  hel_max_frame :: u32
  hel_heartbeat :: u32

definition encode_hello :: "hello \<Rightarrow> protocol_error + bytes" where
  "encode_hello m = Inr (hel_nonce m @ put_u64 (hel_context m) @ put_u32 (hel_max_control m) @ put_u32 (hel_max_frame m)
     @ put_u32 (hel_heartbeat m))"

definition limits_valid :: "hello \<Rightarrow> bool" where
  "limits_valid m \<longleftrightarrow> hel_max_control m \<noteq> 0 \<and> unat (hel_max_control m) \<le> MAX_CONTROL_PAYLOAD
     \<and> hel_max_control m \<le> hel_max_frame m \<and> unat (hel_max_frame m) \<le> MAX_FRAME_PAYLOAD \<and> hel_heartbeat m \<noteq> 0"

definition decode_hello :: "bytes \<Rightarrow> protocol_error + hello" where
  "decode_hello p =
     and_then (require_length p (NONCE_LENGTH + 20)) (\<lambda>_.
     and_then (context_id_new (from_le_bytes (field_at 32 8 p))) (\<lambda>context.
       let m = \<lparr>hel_nonce = field_at 0 32 p, hel_context = context, hel_max_control = from_le_bytes (field_at 40 4 p),
                hel_max_frame = from_le_bytes (field_at 44 4 p), hel_heartbeat = from_le_bytes (field_at 48 4 p)\<rparr>
       in and_then (valid_when (limits_valid m) ''renderer limits'') (\<lambda>_. Inr m)))"

definition hello_fits :: "hello \<Rightarrow> bool" where
  "hello_fits m \<longleftrightarrow> length (hel_nonce m) = NONCE_LENGTH \<and> hel_context m \<noteq> 0 \<and> limits_valid m"

record ready =
  rdy_nonce :: bytes
  rdy_context :: u64
  rdy_app_container :: bool
  rdy_no_console :: bool
  rdy_minimal_environment :: bool

definition encode_ready :: "ready \<Rightarrow> protocol_error + bytes" where
  "encode_ready m = Inr (rdy_nonce m @ put_u64 (rdy_context m) @ put_bool (rdy_app_container m)
     @ put_bool (rdy_no_console m) @ put_bool (rdy_minimal_environment m))"

definition decode_ready :: "bytes \<Rightarrow> protocol_error + ready" where
  "decode_ready p =
     and_then (require_length p (NONCE_LENGTH + 11)) (\<lambda>_.
     and_then (context_id_new (from_le_bytes (field_at 32 8 p))) (\<lambda>context.
     and_then (boolean (p ! 40)) (\<lambda>a. and_then (boolean (p ! 41)) (\<lambda>b. and_then (boolean (p ! 42)) (\<lambda>c.
       Inr \<lparr>rdy_nonce = field_at 0 32 p, rdy_context = context, rdy_app_container = a, rdy_no_console = b,
            rdy_minimal_environment = c\<rparr>)))))"

definition ready_fits :: "ready \<Rightarrow> bool" where
  "ready_fits m \<longleftrightarrow> length (rdy_nonce m) = NONCE_LENGTH \<and> rdy_context m \<noteq> 0"

text \<open>\<^verbatim>\<open>Ping\<close> and \<^verbatim>\<open>Pong\<close>; the first eight bytes of the payload, whose length is checked.\<close>

definition encode_token :: "u64 \<Rightarrow> protocol_error + bytes" where "encode_token v = Inr (put_u64 v)"

definition decode_token :: "bytes \<Rightarrow> protocol_error + u64" where
  "decode_token p = and_then (require_length p 8) (\<lambda>_. Inr (from_le_bytes p))"

text \<open>\<^verbatim>\<open>Shutdown\<close> and \<^verbatim>\<open>ShutdownComplete\<close>.\<close>

definition encode_empty :: "unit \<Rightarrow> protocol_error + bytes" where "encode_empty _ = Inr []"

definition decode_empty :: "bytes \<Rightarrow> protocol_error + unit" where "decode_empty p = require_length p 0"

definition encode_text :: "string \<Rightarrow> protocol_error + bytes" where
  "encode_text s =
     (if length s > MAX_CONTROL_PAYLOAD then Inl (PayloadTooLarge (unat (of_nat (length s) :: u32))) else Inr (str_bytes s))"

definition decode_text :: "bytes \<Rightarrow> protocol_error + string" where
  "decode_text p = (if is_utf8 (bytes_str p) then Inr (bytes_str p) else Inl InvalidUtf8)"

record diagnostic =
  dgn_code :: u16
  dgn_message :: string

definition diagnostic_new :: "u16 \<Rightarrow> string \<Rightarrow> protocol_error + diagnostic" where
  "diagnostic_new code s = and_then (valid_when (length s \<le> MAX_RENDERER_DIAGNOSTIC_BYTES) ''diagnostic length'') (\<lambda>_.
     Inr \<lparr>dgn_code = code, dgn_message = s\<rparr>)"

definition encode_diagnostic :: "diagnostic \<Rightarrow> protocol_error + bytes" where
  "encode_diagnostic m = and_then (encode_text (dgn_message m)) (\<lambda>b. Inr (put_u16 (dgn_code m) @ b))"

definition decode_diagnostic :: "bytes \<Rightarrow> protocol_error + diagnostic" where
  "decode_diagnostic p =
     and_then (valid_when (2 \<le> length p) ''diagnostic'') (\<lambda>_.
     and_then (decode_text (drop 2 p)) (\<lambda>s. diagnostic_new (from_le_bytes (take 2 p)) s))"

definition diagnostic_fits :: "diagnostic \<Rightarrow> bool" where
  "diagnostic_fits m \<longleftrightarrow> is_utf8 (dgn_message m) \<and> length (dgn_message m) \<le> MAX_RENDERER_DIAGNOSTIC_BYTES"

text \<open>The errors are \<^verbatim>\<open>i32\<close>, read by \<open>sint\<close>.\<close>

record restrictions =
  rst_child_denied :: bool
  rst_loopback_denied :: bool
  rst_internet_denied :: bool
  rst_child_error :: u32
  rst_loopback_error :: u32
  rst_internet_error :: u32

definition encode_restrictions :: "restrictions \<Rightarrow> protocol_error + bytes" where
  "encode_restrictions m = Inr (put_bool (rst_child_denied m) @ put_bool (rst_loopback_denied m)
     @ put_bool (rst_internet_denied m) @ put_u8 0 @ put_u32 (rst_child_error m) @ put_u32 (rst_loopback_error m)
     @ put_u32 (rst_internet_error m))"

definition decode_restrictions :: "bytes \<Rightarrow> protocol_error + restrictions" where
  "decode_restrictions p =
     and_then (require_length p 16) (\<lambda>_.
     and_then (valid_when (p ! 3 = 0) ''restriction reserved byte'') (\<lambda>_.
     and_then (boolean (p ! 0)) (\<lambda>a. and_then (boolean (p ! 1)) (\<lambda>b. and_then (boolean (p ! 2)) (\<lambda>c.
       Inr \<lparr>rst_child_denied = a, rst_loopback_denied = b, rst_internet_denied = c,
            rst_child_error = from_le_bytes (field_at 4 4 p), rst_loopback_error = from_le_bytes (field_at 8 4 p),
            rst_internet_error = from_le_bytes (field_at 12 4 p)\<rparr>)))))"

section \<open>Exactness\<close>

lemma reads_video_identity [wire_reads]: "reads get_video_identity (\<lambda>m bs. video_identity_fits m \<and> put_video_identity m = Inr bs)"
  unfolding get_video_identity_def
  apply (rule reads_cong, (rule wire_reads)+)
  subgoal for m bs by (cases m; auto simp: video_identity_fits_def put_video_identity_def result_simps; blast)
  done

lemma reads_video_chunk [wire_reads]: "reads get_video_chunk (\<lambda>m bs. video_chunk_fits m \<and> put_video_chunk m = Inr bs)"
  unfolding get_video_chunk_def
  apply (rule reads_cong, (rule wire_reads)+)
  subgoal for m bs by (cases m; auto simp: video_chunk_fits_def put_video_chunk_def result_simps; blast)
  done

interpretation video_chunk: payload_format encode_video_chunk decode_video_chunk video_chunk_fits
  unfolding encode_video_chunk_def decode_video_chunk_def by (rule checked_format) (rule reads_video_chunk)

text \<open>A payload cut at fixed offsets.\<close>

lemma field_split: "i + n \<le> length p \<Longrightarrow> drop i p = field_at i n p @ drop (i + n) p"
  unfolding field_at_def by (metis add.commute append_take_drop_id drop_drop)

lemma field_length [simp]: "i + n \<le> length p \<Longrightarrow> length (field_at i n p) = n"
  by (simp add: field_at_def)

lemma cut_first: "p = a @ rest \<longleftrightarrow> length a \<le> length p \<and> field_at 0 (length a) p = a \<and> drop (length a) p = rest"
  by (auto simp: field_at_def) (metis append_take_drop_id)

lemma cut_next:
  "drop i p = a @ rest \<longleftrightarrow> length a \<le> length p - i \<and> field_at i (length a) p = a \<and> drop (i + length a) p = rest"
  using cut_first [of "drop i p" a rest] by (auto simp: field_at_def add.commute)

lemma put_bool_length [simp]: "length (put_bool b) = 1" "length (put_u8 v) = 1"
  by (simp_all add: put_bool_def put_u8_def)

lemma field_byte: "i < length p \<Longrightarrow> field_at i (Suc 0) p = [p ! i]"
  by (simp add: field_at_def take_Suc_conv_app_nth Cons_nth_drop_Suc [symmetric])

lemma boolean_Inr: "boolean v = Inr b \<longleftrightarrow> [v] = put_bool b"
  by (cases b) (auto simp: boolean_def put_bool_def)

lemma field_word:
  "length f = 8 \<Longrightarrow> f = put_u64 w \<longleftrightarrow> from_le_bytes f = w"
  "length f = 4 \<Longrightarrow> f = put_u32 u \<longleftrightarrow> from_le_bytes f = u"
  "length f = 2 \<Longrightarrow> f = put_u16 v \<longleftrightarrow> from_le_bytes f = v"
  unfolding put_u64_def put_u32_def put_u16_def by (rule word_field [symmetric], simp)+

lemma put_u16_two [simp]: "length (put_u16 v) = 2"
  by (simp add: put_u16_def)

interpretation hello: payload_format encode_hello decode_hello hello_fits
proof
  fix p :: bytes and m :: hello
  show "decode_hello p = Inr m \<longleftrightarrow> hello_fits m \<and> encode_hello m = Inr p"
  proof (cases "length p = 52")
    case True
    obtain n c x y z where m: "m = \<lparr>hel_nonce = n, hel_context = c, hel_max_control = x, hel_max_frame = y, hel_heartbeat = z\<rparr>"
      by (cases m)
    have w: "field_at 32 8 p = put_u64 c \<longleftrightarrow> from_le_bytes (field_at 32 8 p) = c"
      "field_at 40 4 p = put_u32 x \<longleftrightarrow> from_le_bytes (field_at 40 4 p) = x"
      "field_at 44 4 p = put_u32 y \<longleftrightarrow> from_le_bytes (field_at 44 4 p) = y"
      "field_at 48 4 p = put_u32 z \<longleftrightarrow> from_le_bytes (field_at 48 4 p) = z"
      using True by (simp_all add: field_word)
    have "p = n @ put_u64 c @ put_u32 x @ put_u32 y @ put_u32 z \<and> length n = 32 \<longleftrightarrow> field_at 0 32 p = n \<and>
        field_at 32 8 p = put_u64 c \<and> field_at 40 4 p = put_u32 x \<and> field_at 44 4 p = put_u32 y \<and> field_at 48 4 p = put_u32 z"
      using True by (auto simp: cut_first [of p n] cut_next [of 32 p "put_u64 c"] cut_next [of 40 p "put_u32 x"]
          cut_next [of 44 p "put_u32 y"]) (auto simp: field_at_def)
    then show ?thesis
      using True by (auto simp: m decode_hello_def encode_hello_def hello_fits_def require_length_def limit_simps result_simps
          context_id_new_def Let_def w)
  next
    case False
    then show ?thesis by (auto simp: decode_hello_def encode_hello_def hello_fits_def require_length_def limit_simps)
  qed
qed

interpretation ready: payload_format encode_ready decode_ready ready_fits
proof
  fix p :: bytes and m :: ready
  show "decode_ready p = Inr m \<longleftrightarrow> ready_fits m \<and> encode_ready m = Inr p"
  proof (cases "length p = 43")
    case True
    obtain n c x y z where m: "m = \<lparr>rdy_nonce = n, rdy_context = c, rdy_app_container = x, rdy_no_console = y,
        rdy_minimal_environment = z\<rparr>"
      by (cases m)
    have w: "field_at 32 8 p = put_u64 c \<longleftrightarrow> from_le_bytes (field_at 32 8 p) = c"
      "field_at 40 (Suc 0) p = [p ! 40]" "field_at 41 (Suc 0) p = [p ! 41]" "field_at 42 (Suc 0) p = [p ! 42]"
      using True by (simp_all add: field_word field_byte)
    have "p = n @ put_u64 c @ put_bool x @ put_bool y @ put_bool z \<and> length n = 32 \<longleftrightarrow> field_at 0 32 p = n \<and>
        field_at 32 8 p = put_u64 c \<and> field_at 40 (Suc 0) p = put_bool x \<and> field_at 41 (Suc 0) p = put_bool y
        \<and> field_at 42 (Suc 0) p = put_bool z"
      using True by (auto simp: cut_first [of p n] cut_next [of 32 p "put_u64 c"] cut_next [of 40 p "put_bool x"]
          cut_next [of 41 p "put_bool y"]) (auto simp: field_at_def)
    then show ?thesis
      using True by (auto simp: m decode_ready_def encode_ready_def ready_fits_def require_length_def limit_simps result_simps
          context_id_new_def boolean_Inr w)
  next
    case False
    then show ?thesis by (auto simp: decode_ready_def encode_ready_def ready_fits_def require_length_def limit_simps)
  qed
qed

interpretation token: payload_format encode_token decode_token "\<lambda>_. True"
proof
  fix p :: bytes and m :: u64
  show "decode_token p = Inr m \<longleftrightarrow> True \<and> encode_token m = Inr p"
    using field_word(1) [of p m] by (auto simp: encode_token_def decode_token_def require_length_def result_simps)
qed

interpretation empty: payload_format encode_empty decode_empty "\<lambda>_. True"
  by unfold_locales (auto simp: encode_empty_def decode_empty_def require_length_def)

definition text_fits :: "string \<Rightarrow> bool" where
  "text_fits s \<longleftrightarrow> is_utf8 s"

lemma decode_text_Inr: "decode_text p = Inr s \<longleftrightarrow> is_utf8 s \<and> str_bytes s = p"
  by (auto simp: decode_text_def bytes_str_eq)

interpretation diagnostic: payload_format encode_diagnostic decode_diagnostic diagnostic_fits
proof
  fix p :: bytes and m :: diagnostic
  have "put_u16 v @ b = p \<longleftrightarrow> 2 \<le> length p \<and> from_le_bytes (take 2 p) = v \<and> drop 2 p = b" for v b
    using cut_first [of p "put_u16 v" b] field_word(3) [of "take 2 p" v]
    by (auto simp: field_at_def eq_commute [of "put_u16 v @ b" p])
  then show "decode_diagnostic p = Inr m \<longleftrightarrow> diagnostic_fits m \<and> encode_diagnostic m = Inr p"
    by (cases m) (auto simp: decode_diagnostic_def encode_diagnostic_def diagnostic_fits_def diagnostic_new_def
        encode_text_def result_simps decode_text_Inr limit_simps)
qed

interpretation restrictions: payload_format encode_restrictions decode_restrictions "\<lambda>_. True"
proof
  fix p :: bytes and m :: restrictions
  show "decode_restrictions p = Inr m \<longleftrightarrow> True \<and> encode_restrictions m = Inr p"
  proof (cases "length p = 16")
    case True
    obtain a b c x y z where m: "m = \<lparr>rst_child_denied = a, rst_loopback_denied = b, rst_internet_denied = c,
        rst_child_error = x, rst_loopback_error = y, rst_internet_error = z\<rparr>"
      by (cases m)
    have w: "field_at 0 (Suc 0) p = [p ! 0]" "field_at (Suc 0) (Suc 0) p = [p ! Suc 0]" "field_at 2 (Suc 0) p = [p ! 2]" "field_at 3 (Suc 0) p = [p ! 3]"
      "field_at 4 4 p = put_u32 x \<longleftrightarrow> from_le_bytes (field_at 4 4 p) = x"
      "field_at 8 4 p = put_u32 y \<longleftrightarrow> from_le_bytes (field_at 8 4 p) = y"
      "field_at 12 4 p = put_u32 z \<longleftrightarrow> from_le_bytes (field_at 12 4 p) = z"
      using True by (simp_all add: field_word field_byte)
    have "p = put_bool a @ put_bool b @ put_bool c @ put_u8 0 @ put_u32 x @ put_u32 y @ put_u32 z \<longleftrightarrow>
        field_at 0 (Suc 0) p = put_bool a \<and> field_at (Suc 0) (Suc 0) p = put_bool b \<and> field_at 2 (Suc 0) p = put_bool c
        \<and> field_at 3 (Suc 0) p = put_u8 0 \<and> field_at 4 4 p = put_u32 x \<and> field_at 8 4 p = put_u32 y \<and> field_at 12 4 p = put_u32 z"
      using True
      by (auto simp: cut_first [of p "put_bool a"] cut_next [of "Suc 0" p "put_bool b"] cut_next [of 2 p "put_bool c"] cut_next [of 3 p "put_u8 0"]
          cut_next [of 4 p "put_u32 x"] cut_next [of 8 p "put_u32 y"] numeral_2_eq_2 [symmetric]) (auto simp: field_at_def)
    then show ?thesis
      using True by (auto simp: m decode_restrictions_def encode_restrictions_def require_length_def result_simps
          boolean_Inr w put_u8_def)
  next
    case False
    then show ?thesis
      by (auto simp: decode_restrictions_def encode_restrictions_def require_length_def put_bool_def put_u8_def)
  qed
qed

end
