(* ===== verification/Ipc_Input.thy ===== *)
theory Ipc_Input
  imports Ipc_Documents
begin

text \<open>
  Native input on the wire (\<^verbatim>\<open>renderer_protocol/input.rs\<close> and \<^verbatim>\<open>input/\<close>, \<^verbatim>\<open>codec/payload/input.rs\<close>): pointer,
  wheel, keyboard, text, selection, focus, scroll, lifecycle and history events of a document, the
  acknowledgements of presentations, fullscreen and pointer lock.
\<close>

definition MAX_RENDERER_TEXT_INPUT_BYTES :: nat where [limit_simps]: "MAX_RENDERER_TEXT_INPUT_BYTES = 64 * 1024"

definition MAX_KEY_NAME_BYTES :: nat where [limit_simps]: "MAX_KEY_NAME_BYTES = 64"

text \<open>The bit pattern of 16777216, and comparisons with it; \<^verbatim>\<open>abs\<close> clears the sign bit.\<close>

definition MAX_INPUT_COORDINATE :: u32 where "MAX_INPUT_COORDINATE = 0x4b800000"

definition coordinate :: "u32 \<Rightarrow> bool" where
  "coordinate v \<longleftrightarrow> f32_within 0 MAX_INPUT_COORDINATE v"

definition moderate :: "u32 \<Rightarrow> bool" where
  "moderate v \<longleftrightarrow> f32_is_finite v \<and> \<bar>f32_key v\<bar> \<le> f32_key MAX_INPUT_COORDINATE"

text \<open>\<^verbatim>\<open>encode_utf16().count()\<close> of a UTF-8 string: one unit per character, two for those of four bytes.\<close>

definition utf16_count :: "string \<Rightarrow> nat" where
  "utf16_count s = length (filter (\<lambda>c. \<not> is_continuation c) s) + length (filter (\<lambda>c. 0xf0 \<le> byte c) s)"

section \<open>Fields\<close>

datatype pointer_phase = PhaseMove | PhaseLockedMove | PhaseLeave | PhaseDown | PhaseUp | PhaseActivate

fun pointer_phase_tag :: "pointer_phase \<Rightarrow> 8 word" where
  "pointer_phase_tag PhaseMove = 1"
| "pointer_phase_tag PhaseLockedMove = 6"
| "pointer_phase_tag PhaseLeave = 5"
| "pointer_phase_tag PhaseDown = 2"
| "pointer_phase_tag PhaseUp = 3"
| "pointer_phase_tag PhaseActivate = 4"

definition get_pointer_phase :: "pointer_phase reading" where
  "get_pointer_phase = read_bind get_u8 (\<lambda>t.
     if t = 1 then read_ok PhaseMove
     else if t = 6 then read_ok PhaseLockedMove
     else if t = 5 then read_ok PhaseLeave
     else if t = 2 then read_ok PhaseDown
     else if t = 3 then read_ok PhaseUp
     else if t = 4 then read_ok PhaseActivate
     else read_fail ''pointer phase'')"

datatype pointer_button = NoButton | PrimaryButton | MiddleButton | SecondaryButton

fun pointer_button_tag :: "pointer_button \<Rightarrow> 8 word" where
  "pointer_button_tag NoButton = 0"
| "pointer_button_tag PrimaryButton = 1"
| "pointer_button_tag MiddleButton = 2"
| "pointer_button_tag SecondaryButton = 3"

definition get_pointer_button :: "pointer_button reading" where
  "get_pointer_button = read_bind get_u8 (\<lambda>t.
     if t = 0 then read_ok NoButton
     else if t = 1 then read_ok PrimaryButton
     else if t = 2 then read_ok MiddleButton
     else if t = 3 then read_ok SecondaryButton
     else read_fail ''pointer button'')"

datatype key_phase = KeyDown | KeyUp

fun key_phase_tag :: "key_phase \<Rightarrow> 8 word" where
  "key_phase_tag KeyDown = 1"
| "key_phase_tag KeyUp = 2"

definition get_key_phase :: "key_phase reading" where
  "get_key_phase = read_bind get_u8 (\<lambda>t.
     if t = 1 then read_ok KeyDown
     else if t = 2 then read_ok KeyUp
     else read_fail ''keyboard phase'')"

datatype document_lifecycle = LifeActive | LifeHidden | LifeFrozen

fun document_lifecycle_tag :: "document_lifecycle \<Rightarrow> 8 word" where
  "document_lifecycle_tag LifeActive = 1"
| "document_lifecycle_tag LifeHidden = 2"
| "document_lifecycle_tag LifeFrozen = 3"

definition get_document_lifecycle :: "document_lifecycle reading" where
  "get_document_lifecycle = read_bind get_u8 (\<lambda>t.
     if t = 1 then read_ok LifeActive
     else if t = 2 then read_ok LifeHidden
     else if t = 3 then read_ok LifeFrozen
     else read_fail ''document lifecycle'')"

datatype selection_direction = SelectNone | SelectForward | SelectBackward

fun selection_direction_tag :: "selection_direction \<Rightarrow> 8 word" where
  "selection_direction_tag SelectNone = 1"
| "selection_direction_tag SelectForward = 2"
| "selection_direction_tag SelectBackward = 3"

definition get_selection_direction :: "selection_direction reading" where
  "get_selection_direction = read_bind get_u8 (\<lambda>t.
     if t = 1 then read_ok SelectNone
     else if t = 2 then read_ok SelectForward
     else if t = 3 then read_ok SelectBackward
     else read_fail ''text selection direction'')"

datatype text_edit_intent = EditUnspecified | EditInsertText | EditDeleteBackward | EditDeleteForward

fun text_edit_intent_tag :: "text_edit_intent \<Rightarrow> 8 word" where
  "text_edit_intent_tag EditUnspecified = 0"
| "text_edit_intent_tag EditInsertText = 1"
| "text_edit_intent_tag EditDeleteBackward = 2"
| "text_edit_intent_tag EditDeleteForward = 3"

definition get_text_edit_intent :: "text_edit_intent reading" where
  "get_text_edit_intent = read_bind get_u8 (\<lambda>t.
     if t = 0 then read_ok EditUnspecified
     else if t = 1 then read_ok EditInsertText
     else if t = 2 then read_ok EditDeleteBackward
     else if t = 3 then read_ok EditDeleteForward
     else read_fail ''text edit intent'')"

datatype fullscreen_action = FullscreenEnter | FullscreenExit

fun fullscreen_action_tag :: "fullscreen_action \<Rightarrow> 8 word" where
  "fullscreen_action_tag FullscreenEnter = 1"
| "fullscreen_action_tag FullscreenExit = 2"

definition get_fullscreen_action :: "fullscreen_action reading" where
  "get_fullscreen_action = read_bind get_u8 (\<lambda>t.
     if t = 1 then read_ok FullscreenEnter
     else if t = 2 then read_ok FullscreenExit
     else read_fail ''fullscreen action'')"

datatype fullscreen_disposition = FullscreenEntered | FullscreenExited | FullscreenDenied

fun fullscreen_disposition_tag :: "fullscreen_disposition \<Rightarrow> 8 word" where
  "fullscreen_disposition_tag FullscreenEntered = 1"
| "fullscreen_disposition_tag FullscreenExited = 2"
| "fullscreen_disposition_tag FullscreenDenied = 3"

definition get_fullscreen_disposition :: "fullscreen_disposition reading" where
  "get_fullscreen_disposition = read_bind get_u8 (\<lambda>t.
     if t = 1 then read_ok FullscreenEntered
     else if t = 2 then read_ok FullscreenExited
     else if t = 3 then read_ok FullscreenDenied
     else read_fail ''fullscreen disposition'')"

datatype lock_disposition = LockEntered | LockExited | LockDenied

fun lock_disposition_tag :: "lock_disposition \<Rightarrow> 8 word" where
  "lock_disposition_tag LockEntered = 1"
| "lock_disposition_tag LockExited = 2"
| "lock_disposition_tag LockDenied = 3"

definition get_lock_disposition :: "lock_disposition reading" where
  "get_lock_disposition = read_bind get_u8 (\<lambda>t.
     if t = 1 then read_ok LockEntered
     else if t = 2 then read_ok LockExited
     else if t = 3 then read_ok LockDenied
     else read_fail ''pointer lock disposition'')"

definition button_mask :: "pointer_button \<Rightarrow> 8 word" where
  "button_mask b = (case b of NoButton \<Rightarrow> 0 | PrimaryButton \<Rightarrow> 1 | SecondaryButton \<Rightarrow> 2 | MiddleButton \<Rightarrow> 4)"

record input_modifiers =
  imd_alt :: bool
  imd_control :: bool
  imd_shift :: bool
  imd_meta :: bool

definition put_input_modifiers :: "input_modifiers \<Rightarrow> bytes" where
  "put_input_modifiers m = put_bool (imd_alt m) @ put_bool (imd_control m) @ put_bool (imd_shift m) @ put_bool (imd_meta m)"

definition get_input_modifiers :: "input_modifiers reading" where
  "get_input_modifiers =
     read_bind get_bool (\<lambda>alt. read_bind get_bool (\<lambda>control.
     read_bind get_bool (\<lambda>shift. read_bind get_bool (\<lambda>meta.
       read_ok \<lparr>imd_alt = alt, imd_control = control, imd_shift = shift, imd_meta = meta\<rparr>))))"

text \<open>A UTF-16 selection before an edit.\<close>

definition put_span :: "u32 \<times> u32 \<Rightarrow> bytes" where "put_span p = put_u32 (fst p) @ put_u32 (snd p)"

definition get_span :: "(u32 \<times> u32) reading" where
  "get_span = read_bind get_u32 (\<lambda>a. read_bind get_u32 (\<lambda>b. read_ok (a, b)))"

section \<open>Events\<close>

record wheel_input =
  whi_document :: u64
  whi_sequence :: u64
  whi_x :: u32
  whi_y :: u32
  whi_delta_x :: u32
  whi_delta_y :: u32
  whi_viewport_y :: u32
  whi_modifiers :: input_modifiers
  whi_node :: "u128 option"

definition put_wheel_input :: "wheel_input \<Rightarrow> protocol_error + bytes" where
  "put_wheel_input m =
     and_then (put_optional (\<lambda>w. Inr (put_u128 w)) (whi_node m)) (\<lambda>b_node.
       Inr (put_u64 (whi_document m) @ put_u64 (whi_sequence m) @ put_u32 (whi_x m) @ put_u32 (whi_y m) @
         put_u32 (whi_delta_x m) @ put_u32 (whi_delta_y m) @ put_u32 (whi_viewport_y m) @
         put_input_modifiers (whi_modifiers m) @ b_node))"

definition get_wheel_input :: "wheel_input reading" where
  "get_wheel_input =
     read_bind get_document_id (\<lambda>document. read_bind get_u64 (\<lambda>sequence.
     read_bind get_u32 (\<lambda>x. read_bind get_u32 (\<lambda>y. read_bind get_u32 (\<lambda>delta_x.
     read_bind get_u32 (\<lambda>delta_y. read_bind get_u32 (\<lambda>viewport_y.
     read_bind get_input_modifiers (\<lambda>modifiers. read_bind (get_optional get_node_id) (\<lambda>node.
       read_ok \<lparr>whi_document = document, whi_sequence = sequence, whi_x = x, whi_y = y, whi_delta_x = delta_x, whi_delta_y = delta_y, whi_viewport_y = viewport_y, whi_modifiers = modifiers, whi_node = node\<rparr>)))))))))"

definition wheel_input_fits :: "wheel_input \<Rightarrow> bool" where
  "wheel_input_fits m \<longleftrightarrow> (whi_document m) \<noteq> 0 \<and> pred_option (\<lambda>w. node_id_fits w) (whi_node m)"

record pointer_input =
  pti_document :: u64
  pti_sequence :: u64
  pti_phase :: pointer_phase
  pti_button :: pointer_button
  pti_buttons :: "8 word"
  pti_x :: u32
  pti_y :: u32
  pti_modifiers :: input_modifiers
  pti_node :: "u128 option"

definition put_pointer_input :: "pointer_input \<Rightarrow> protocol_error + bytes" where
  "put_pointer_input m =
     and_then (put_optional (\<lambda>w. Inr (put_u128 w)) (pti_node m)) (\<lambda>b_node.
       Inr (put_u64 (pti_document m) @ put_u64 (pti_sequence m) @ put_u8 (pointer_phase_tag (pti_phase m)) @
         put_u8 (pointer_button_tag (pti_button m)) @ put_u8 (pti_buttons m) @ put_u32 (pti_x m) @
         put_u32 (pti_y m) @ put_input_modifiers (pti_modifiers m) @ b_node))"

definition get_pointer_input :: "pointer_input reading" where
  "get_pointer_input =
     read_bind get_document_id (\<lambda>document. read_bind get_u64 (\<lambda>sequence.
     read_bind get_pointer_phase (\<lambda>phase. read_bind get_pointer_button (\<lambda>button.
     read_bind get_u8 (\<lambda>buttons. read_bind get_u32 (\<lambda>x. read_bind get_u32 (\<lambda>y.
     read_bind get_input_modifiers (\<lambda>modifiers. read_bind (get_optional get_node_id) (\<lambda>node.
       read_ok \<lparr>pti_document = document, pti_sequence = sequence, pti_phase = phase, pti_button = button, pti_buttons = buttons, pti_x = x, pti_y = y, pti_modifiers = modifiers, pti_node = node\<rparr>)))))))))"

definition pointer_input_fits :: "pointer_input \<Rightarrow> bool" where
  "pointer_input_fits m \<longleftrightarrow> (pti_document m) \<noteq> 0 \<and> pred_option (\<lambda>w. node_id_fits w) (pti_node m)"

record keyboard_input =
  kbi_document :: u64
  kbi_sequence :: u64
  kbi_phase :: key_phase
  kbi_key :: string
  kbi_code :: string
  kbi_repeat :: bool
  kbi_modifiers :: input_modifiers
  kbi_node :: "u128 option"

definition put_keyboard_input :: "keyboard_input \<Rightarrow> protocol_error + bytes" where
  "put_keyboard_input m =
     and_then (put_string (kbi_key m)) (\<lambda>b_key.
     and_then (put_string (kbi_code m)) (\<lambda>b_code.
     and_then (put_optional (\<lambda>w. Inr (put_u128 w)) (kbi_node m)) (\<lambda>b_node.
       Inr (put_u64 (kbi_document m) @ put_u64 (kbi_sequence m) @ put_u8 (key_phase_tag (kbi_phase m)) @
         b_key @ b_code @ put_bool (kbi_repeat m) @ put_input_modifiers (kbi_modifiers m) @ b_node))))"

definition get_keyboard_input :: "keyboard_input reading" where
  "get_keyboard_input =
     read_bind get_document_id (\<lambda>document. read_bind get_u64 (\<lambda>sequence.
     read_bind get_key_phase (\<lambda>phase. read_bind (get_string (64)) (\<lambda>key.
     read_bind (get_string (64)) (\<lambda>code. read_bind get_bool (\<lambda>repeat.
     read_bind get_input_modifiers (\<lambda>modifiers. read_bind (get_optional get_node_id) (\<lambda>node.
       read_ok \<lparr>kbi_document = document, kbi_sequence = sequence, kbi_phase = phase, kbi_key = key, kbi_code = code, kbi_repeat = repeat, kbi_modifiers = modifiers, kbi_node = node\<rparr>))))))))"

definition keyboard_input_fits :: "keyboard_input \<Rightarrow> bool" where
  "keyboard_input_fits m \<longleftrightarrow> (kbi_document m) \<noteq> 0 \<and> (is_utf8 (kbi_key m) \<and> length (kbi_key m) \<le> 64) \<and> (is_utf8 (kbi_code m) \<and> length (kbi_code m) \<le> 64) \<and> pred_option (\<lambda>w. node_id_fits w) (kbi_node m)"

record text_input =
  txi_document :: u64
  txi_sequence :: u64
  txi_node :: u128
  txi_value :: string
  txi_selection_start :: u32
  txi_selection_end :: u32

definition put_text_input :: "text_input \<Rightarrow> protocol_error + bytes" where
  "put_text_input m =
     and_then (put_string (txi_value m)) (\<lambda>b_value.
       Inr (put_u64 (txi_document m) @ put_u64 (txi_sequence m) @ put_u128 (txi_node m) @ b_value @
         put_u32 (txi_selection_start m) @ put_u32 (txi_selection_end m)))"

definition get_text_input :: "text_input reading" where
  "get_text_input =
     read_bind get_document_id (\<lambda>document. read_bind get_u64 (\<lambda>sequence.
     read_bind get_node_id (\<lambda>node.
     read_bind (get_string MAX_RENDERER_TEXT_INPUT_BYTES) (\<lambda>value.
     read_bind get_u32 (\<lambda>selection_start. read_bind get_u32 (\<lambda>selection_end.
       read_ok \<lparr>txi_document = document, txi_sequence = sequence, txi_node = node, txi_value = value, txi_selection_start = selection_start, txi_selection_end = selection_end\<rparr>))))))"

definition text_input_fits :: "text_input \<Rightarrow> bool" where
  "text_input_fits m \<longleftrightarrow> (txi_document m) \<noteq> 0 \<and> node_id_fits (txi_node m) \<and> (is_utf8 (txi_value m) \<and> length (txi_value m) \<le> MAX_RENDERER_TEXT_INPUT_BYTES)"

record native_text_input =
  nti_edit :: text_input
  nti_generation :: u32
  nti_intent :: text_edit_intent
  nti_pre_selection :: "(u32 \<times> u32) option"

definition put_native_text_input :: "native_text_input \<Rightarrow> protocol_error + bytes" where
  "put_native_text_input m =
     and_then (put_text_input (nti_edit m)) (\<lambda>b_edit.
     and_then (put_optional (\<lambda>w. Inr (put_span w)) (nti_pre_selection m)) (\<lambda>b_pre_selection.
       Inr (b_edit @ put_u32 (nti_generation m) @ put_u8 (text_edit_intent_tag (nti_intent m)) @ b_pre_selection)))"

definition get_native_text_input :: "native_text_input reading" where
  "get_native_text_input =
     read_bind get_text_input (\<lambda>edit. read_bind get_u32 (\<lambda>generation.
     read_bind get_text_edit_intent (\<lambda>intent.
     read_bind (get_optional get_span) (\<lambda>pre_selection.
       read_ok \<lparr>nti_edit = edit, nti_generation = generation, nti_intent = intent, nti_pre_selection = pre_selection\<rparr>))))"

definition native_text_input_fits :: "native_text_input \<Rightarrow> bool" where
  "native_text_input_fits m \<longleftrightarrow> text_input_fits (nti_edit m)"

record selection_input =
  sli_document :: u64
  sli_sequence :: u64
  sli_node :: u128
  sli_selection_start :: u32
  sli_selection_end :: u32
  sli_direction :: selection_direction

definition put_selection_input :: "selection_input \<Rightarrow> protocol_error + bytes" where
  "put_selection_input m =
     Inr (put_u64 (sli_document m) @ put_u64 (sli_sequence m) @ put_u128 (sli_node m) @
         put_u32 (sli_selection_start m) @ put_u32 (sli_selection_end m) @
         put_u8 (selection_direction_tag (sli_direction m)))"

definition get_selection_input :: "selection_input reading" where
  "get_selection_input =
     read_bind get_document_id (\<lambda>document. read_bind get_u64 (\<lambda>sequence.
     read_bind get_node_id (\<lambda>node. read_bind get_u32 (\<lambda>selection_start.
     read_bind get_u32 (\<lambda>selection_end. read_bind get_selection_direction (\<lambda>direction.
       read_ok \<lparr>sli_document = document, sli_sequence = sequence, sli_node = node, sli_selection_start = selection_start, sli_selection_end = selection_end, sli_direction = direction\<rparr>))))))"

definition selection_input_fits :: "selection_input \<Rightarrow> bool" where
  "selection_input_fits m \<longleftrightarrow> (sli_document m) \<noteq> 0 \<and> node_id_fits (sli_node m)"

record focus_input =
  fci_document :: u64
  fci_sequence :: u64
  fci_focused :: bool
  fci_node :: "u128 option"

definition put_focus_input :: "focus_input \<Rightarrow> protocol_error + bytes" where
  "put_focus_input m =
     and_then (put_optional (\<lambda>w. Inr (put_u128 w)) (fci_node m)) (\<lambda>b_node.
       Inr (put_u64 (fci_document m) @ put_u64 (fci_sequence m) @ put_bool (fci_focused m) @ b_node))"

definition get_focus_input :: "focus_input reading" where
  "get_focus_input =
     read_bind get_document_id (\<lambda>document. read_bind get_u64 (\<lambda>sequence.
     read_bind get_bool (\<lambda>focused. read_bind (get_optional get_node_id) (\<lambda>node.
       read_ok \<lparr>fci_document = document, fci_sequence = sequence, fci_focused = focused, fci_node = node\<rparr>))))"

definition focus_input_fits :: "focus_input \<Rightarrow> bool" where
  "focus_input_fits m \<longleftrightarrow> (fci_document m) \<noteq> 0 \<and> pred_option (\<lambda>w. node_id_fits w) (fci_node m)"

record scroll_input =
  sci_document :: u64
  sci_sequence :: u64
  sci_x :: u32
  sci_y :: u32

definition put_scroll_input :: "scroll_input \<Rightarrow> protocol_error + bytes" where
  "put_scroll_input m =
     Inr (put_u64 (sci_document m) @ put_u64 (sci_sequence m) @ put_u32 (sci_x m) @ put_u32 (sci_y m))"

definition get_scroll_input :: "scroll_input reading" where
  "get_scroll_input =
     read_bind get_document_id (\<lambda>document. read_bind get_u64 (\<lambda>sequence.
     read_bind get_u32 (\<lambda>x. read_bind get_u32 (\<lambda>y.
       read_ok \<lparr>sci_document = document, sci_sequence = sequence, sci_x = x, sci_y = y\<rparr>))))"

definition scroll_input_fits :: "scroll_input \<Rightarrow> bool" where
  "scroll_input_fits m \<longleftrightarrow> (sci_document m) \<noteq> 0"

record lifecycle_input =
  lci_document :: u64
  lci_sequence :: u64
  lci_state :: document_lifecycle

definition put_lifecycle_input :: "lifecycle_input \<Rightarrow> protocol_error + bytes" where
  "put_lifecycle_input m =
     Inr (put_u64 (lci_document m) @ put_u64 (lci_sequence m) @ put_u8 (document_lifecycle_tag (lci_state m)))"

definition get_lifecycle_input :: "lifecycle_input reading" where
  "get_lifecycle_input =
     read_bind get_document_id (\<lambda>document. read_bind get_u64 (\<lambda>sequence.
     read_bind get_document_lifecycle (\<lambda>state.
       read_ok \<lparr>lci_document = document, lci_sequence = sequence, lci_state = state\<rparr>)))"

definition lifecycle_input_fits :: "lifecycle_input \<Rightarrow> bool" where
  "lifecycle_input_fits m \<longleftrightarrow> (lci_document m) \<noteq> 0"

record history_input =
  hti_document :: u64
  hti_sequence :: u64
  hti_url :: string
  hti_state :: "string option"
  hti_history_length :: u32
  hti_history_index :: u32
  hti_scroll_restoration :: scroll_restoration
  hti_scroll_y :: "u32 option"

definition put_history_input :: "history_input \<Rightarrow> protocol_error + bytes" where
  "put_history_input m =
     and_then (put_string (hti_url m)) (\<lambda>b_url.
     and_then (put_optional (\<lambda>w. put_string w) (hti_state m)) (\<lambda>b_state.
     and_then (put_optional (\<lambda>w. Inr (put_u32 w)) (hti_scroll_y m)) (\<lambda>b_scroll_y.
       Inr (put_u64 (hti_document m) @ put_u64 (hti_sequence m) @ b_url @ b_state @
         put_u32 (hti_history_length m) @ put_u32 (hti_history_index m) @
         put_u8 (scroll_restoration_tag (hti_scroll_restoration m)) @ b_scroll_y))))"

definition get_history_input :: "history_input reading" where
  "get_history_input =
     read_bind get_document_id (\<lambda>document. read_bind get_u64 (\<lambda>sequence.
     read_bind (get_string MAX_URL_BYTES) (\<lambda>url.
     read_bind (get_optional (get_string MAX_HISTORY_STATE_BYTES)) (\<lambda>state.
     read_bind get_u32 (\<lambda>history_length. read_bind get_u32 (\<lambda>history_index.
     read_bind get_scroll_restoration (\<lambda>scroll_restoration.
     read_bind (get_optional get_u32) (\<lambda>scroll_y.
       read_ok \<lparr>hti_document = document, hti_sequence = sequence, hti_url = url, hti_state = state, hti_history_length = history_length, hti_history_index = history_index, hti_scroll_restoration = scroll_restoration, hti_scroll_y = scroll_y\<rparr>))))))))"

definition history_input_fits :: "history_input \<Rightarrow> bool" where
  "history_input_fits m \<longleftrightarrow> (hti_document m) \<noteq> 0 \<and> (is_utf8 (hti_url m) \<and> length (hti_url m) \<le> MAX_URL_BYTES) \<and> (pred_option (\<lambda>w. is_utf8 w \<and> length w \<le> MAX_HISTORY_STATE_BYTES) (hti_state m))"

datatype document_input =
    WheelEvent wheel_input
  | PointerEvent pointer_input
  | KeyboardEvent keyboard_input
  | TextEvent text_input
  | NativeTextEvent native_text_input
  | SelectionEvent selection_input
  | FocusEvent focus_input
  | ScrollEvent scroll_input
  | LifecycleEvent lifecycle_input
  | HistoryEvent history_input

fun input_document :: "document_input \<Rightarrow> u64" where
  "input_document (WheelEvent i) = whi_document i"
| "input_document (PointerEvent i) = pti_document i"
| "input_document (KeyboardEvent i) = kbi_document i"
| "input_document (TextEvent i) = txi_document i"
| "input_document (NativeTextEvent i) = txi_document (nti_edit i)"
| "input_document (SelectionEvent i) = sli_document i"
| "input_document (FocusEvent i) = fci_document i"
| "input_document (ScrollEvent i) = sci_document i"
| "input_document (LifecycleEvent i) = lci_document i"
| "input_document (HistoryEvent i) = hti_document i"

fun input_sequence :: "document_input \<Rightarrow> u64" where
  "input_sequence (WheelEvent i) = whi_sequence i"
| "input_sequence (PointerEvent i) = pti_sequence i"
| "input_sequence (KeyboardEvent i) = kbi_sequence i"
| "input_sequence (TextEvent i) = txi_sequence i"
| "input_sequence (NativeTextEvent i) = txi_sequence (nti_edit i)"
| "input_sequence (SelectionEvent i) = sli_sequence i"
| "input_sequence (FocusEvent i) = fci_sequence i"
| "input_sequence (ScrollEvent i) = sci_sequence i"
| "input_sequence (LifecycleEvent i) = lci_sequence i"
| "input_sequence (HistoryEvent i) = hti_sequence i"

definition coalescible :: "document_input \<Rightarrow> bool" where
  "coalescible i = (case i of PointerEvent p \<Rightarrow> pti_phase p \<in> {PhaseMove, PhaseLockedMove} | _ \<Rightarrow> False)"

definition validate_selection :: "u32 \<Rightarrow> u32 \<Rightarrow> protocol_error + unit" where
  "validate_selection start stop =
     valid_when (start \<le> stop \<and> unat stop \<le> MAX_RENDERER_TEXT_INPUT_BYTES) ''text selection offsets''"

definition validate_text_input :: "text_input \<Rightarrow> protocol_error + unit" where
  "validate_text_input m = valid_when (length (txi_value m) \<le> MAX_RENDERER_TEXT_INPUT_BYTES
     \<and> txi_selection_start m \<le> txi_selection_end m \<and> unat (txi_selection_end m) \<le> utf16_count (txi_value m)) ''text input''"

definition validate_native_text :: "native_text_input \<Rightarrow> protocol_error + unit" where
  "validate_native_text m =
     and_then (validate_text_input (nti_edit m)) (\<lambda>_.
       valid_when (pred_option (\<lambda>(start, stop). start \<le> stop \<and> unat stop \<le> MAX_RENDERER_TEXT_INPUT_BYTES) (nti_pre_selection m))
         ''native pre-edit selection'')"

definition validate_input :: "document_input \<Rightarrow> protocol_error + unit" where
  "validate_input i =
     and_then (valid_when (input_sequence i \<noteq> 0) ''input sequence'') (\<lambda>_.
       case i of
         WheelEvent w \<Rightarrow>
           and_then (valid_when (coordinate (whi_x w) \<and> coordinate (whi_y w)) ''input coordinates'') (\<lambda>_.
           and_then (valid_when (coordinate 0 \<and> coordinate (whi_viewport_y w)) ''input coordinates'') (\<lambda>_.
             valid_when (moderate (whi_delta_x w) \<and> moderate (whi_delta_y w)) ''wheel delta''))
       | PointerEvent p \<Rightarrow>
           and_then (valid_when (and (pti_buttons p) (not 7) = 0) ''pointer buttons'') (\<lambda>_.
             if pti_phase p = PhaseLockedMove
             then valid_when (pti_node p \<noteq> None \<and> pti_button p = NoButton \<and> moderate (pti_x p) \<and> moderate (pti_y p))
                    ''locked pointer movement''
             else valid_when (coordinate (pti_x p) \<and> coordinate (pti_y p)) ''input coordinates'')
       | KeyboardEvent k \<Rightarrow>
           valid_when (kbi_key k \<noteq> [] \<and> length (kbi_key k) \<le> MAX_KEY_NAME_BYTES \<and> kbi_code k \<noteq> []
             \<and> length (kbi_code k) \<le> MAX_KEY_NAME_BYTES) ''keyboard input''
       | TextEvent x \<Rightarrow> validate_text_input x
       | NativeTextEvent n \<Rightarrow> validate_native_text n
       | SelectionEvent s \<Rightarrow> validate_selection (sli_selection_start s) (sli_selection_end s)
       | FocusEvent _ \<Rightarrow> Inr ()
       | LifecycleEvent _ \<Rightarrow> Inr ()
       | ScrollEvent s \<Rightarrow> valid_when (coordinate (sci_x s) \<and> coordinate (sci_y s)) ''input coordinates''
       | HistoryEvent h \<Rightarrow>
           valid_when (hti_url h \<noteq> [] \<and> length (hti_url h) \<le> MAX_URL_BYTES
             \<and> pred_option (\<lambda>s. length s \<le> MAX_HISTORY_STATE_BYTES) (hti_state h)
             \<and> hti_history_length h \<noteq> 0 \<and> unat (hti_history_length h) \<le> MAX_SESSION_HISTORY_ENTRIES
             \<and> hti_history_index h < hti_history_length h \<and> pred_option coordinate (hti_scroll_y h)) ''history traversal input'')"

text \<open>The match on the input chooses the kind of the frame, and the kind chooses the reader.\<close>

definition input_fields :: "document_input \<Rightarrow> 16 word \<times> (protocol_error + bytes)" where
  "input_fields i =
     (case i of
        WheelEvent x \<Rightarrow> (0x0151, put_wheel_input x)
      | PointerEvent x \<Rightarrow> (0x0141, put_pointer_input x)
      | KeyboardEvent x \<Rightarrow> (0x0143, put_keyboard_input x)
      | TextEvent x \<Rightarrow> (0x0145, put_text_input x)
      | NativeTextEvent x \<Rightarrow> (0x0157, put_native_text_input x)
      | SelectionEvent x \<Rightarrow> (0x0159, put_selection_input x)
      | FocusEvent x \<Rightarrow> (0x0147, put_focus_input x)
      | ScrollEvent x \<Rightarrow> (0x0149, put_scroll_input x)
      | LifecycleEvent x \<Rightarrow> (0x014b, put_lifecycle_input x)
      | HistoryEvent x \<Rightarrow> (0x0155, put_history_input x))"

definition encode_input :: "document_input \<Rightarrow> protocol_error + 16 word \<times> bytes" where
  "encode_input i = and_then (validate_input i) (\<lambda>_. map_sum id (Pair (fst (input_fields i))) (snd (input_fields i)))"

definition get_input :: "16 word \<Rightarrow> document_input reading" where
  "get_input kind =
     (if kind = 0x0151 then read_map WheelEvent get_wheel_input
      else if kind = 0x0141 then read_map PointerEvent get_pointer_input
      else if kind = 0x0143 then read_map KeyboardEvent get_keyboard_input
      else if kind = 0x0145 then read_map TextEvent get_text_input
      else if kind = 0x0157 then read_map NativeTextEvent get_native_text_input
      else if kind = 0x0159 then read_map SelectionEvent get_selection_input
      else if kind = 0x0147 then read_map FocusEvent get_focus_input
      else if kind = 0x0149 then read_map ScrollEvent get_scroll_input
      else if kind = 0x014b then read_map LifecycleEvent get_lifecycle_input
      else if kind = 0x0155 then read_map HistoryEvent get_history_input
      else read_result (Inl (UnexpectedMessage (unat kind))))"

definition decode_input :: "16 word \<Rightarrow> bytes \<Rightarrow> protocol_error + document_input" where
  "decode_input kind = run_reader (read_bind (get_input kind) (\<lambda>i. read_result (checked validate_input i)))"

definition input_fits :: "document_input \<Rightarrow> bool" where
  "input_fits i =
     (case i of
        WheelEvent x \<Rightarrow> wheel_input_fits x
      | PointerEvent x \<Rightarrow> pointer_input_fits x
      | KeyboardEvent x \<Rightarrow> keyboard_input_fits x
      | TextEvent x \<Rightarrow> text_input_fits x
      | NativeTextEvent x \<Rightarrow> native_text_input_fits x
      | SelectionEvent x \<Rightarrow> selection_input_fits x
      | FocusEvent x \<Rightarrow> focus_input_fits x
      | ScrollEvent x \<Rightarrow> scroll_input_fits x
      | LifecycleEvent x \<Rightarrow> lifecycle_input_fits x
      | HistoryEvent x \<Rightarrow> history_input_fits x)"

section \<open>Acknowledgements, fullscreen and pointer lock\<close>

record presentation_ack =
  pak_document :: u64
  pak_revision :: u64
  pak_presented :: bool
  pak_controls_applied :: bool

definition validate_presentation_ack :: "presentation_ack \<Rightarrow> protocol_error + unit" where
  "validate_presentation_ack m = valid_when (pak_revision m \<noteq> 0 \<and> (pak_controls_applied m \<longrightarrow> pak_presented m)) ''presentation acknowledgement''"

definition put_presentation_ack :: "presentation_ack \<Rightarrow> protocol_error + bytes" where
  "put_presentation_ack m =
     and_then (validate_presentation_ack m) (\<lambda>_.
     Inr (put_u64 (pak_document m) @ put_u64 (pak_revision m) @ put_bool (pak_presented m) @
         put_bool (pak_controls_applied m)))"

definition get_presentation_ack :: "presentation_ack reading" where
  "get_presentation_ack =
     read_bind get_document_id (\<lambda>document. read_bind get_u64 (\<lambda>revision.
     read_bind get_bool (\<lambda>presented. read_bind get_bool (\<lambda>controls_applied.
       read_result (checked validate_presentation_ack \<lparr>pak_document = document, pak_revision = revision, pak_presented = presented, pak_controls_applied = controls_applied\<rparr>)))))"

definition presentation_ack_fits :: "presentation_ack \<Rightarrow> bool" where
  "presentation_ack_fits m \<longleftrightarrow> (pak_document m) \<noteq> 0"

record fullscreen_response =
  fsr_document :: u64
  fsr_request_id :: u64
  fsr_disposition :: fullscreen_disposition

definition validate_fullscreen_response :: "fullscreen_response \<Rightarrow> protocol_error + unit" where
  "validate_fullscreen_response m = valid_when (fsr_request_id m = 0 \<longrightarrow> fsr_disposition m = FullscreenExited) ''fullscreen response identifier''"

definition put_fullscreen_response :: "fullscreen_response \<Rightarrow> protocol_error + bytes" where
  "put_fullscreen_response m =
     and_then (validate_fullscreen_response m) (\<lambda>_.
     Inr (put_u64 (fsr_document m) @ put_u64 (fsr_request_id m) @
         put_u8 (fullscreen_disposition_tag (fsr_disposition m))))"

definition get_fullscreen_response :: "fullscreen_response reading" where
  "get_fullscreen_response =
     read_bind get_document_id (\<lambda>document. read_bind get_u64 (\<lambda>request_id.
     read_bind get_fullscreen_disposition (\<lambda>disposition.
       read_result (checked validate_fullscreen_response \<lparr>fsr_document = document, fsr_request_id = request_id, fsr_disposition = disposition\<rparr>))))"

definition fullscreen_response_fits :: "fullscreen_response \<Rightarrow> bool" where
  "fullscreen_response_fits m \<longleftrightarrow> (fsr_document m) \<noteq> 0"

record lock_response =
  lkr_document :: u64
  lkr_request_id :: u64
  lkr_disposition :: lock_disposition

definition validate_lock_response :: "lock_response \<Rightarrow> protocol_error + unit" where
  "validate_lock_response m = valid_when (lkr_request_id m = 0 \<longrightarrow> lkr_disposition m = LockExited) ''pointer lock response identifier''"

definition put_lock_response :: "lock_response \<Rightarrow> protocol_error + bytes" where
  "put_lock_response m =
     and_then (validate_lock_response m) (\<lambda>_.
     Inr (put_u64 (lkr_document m) @ put_u64 (lkr_request_id m) @
         put_u8 (lock_disposition_tag (lkr_disposition m))))"

definition get_lock_response :: "lock_response reading" where
  "get_lock_response =
     read_bind get_document_id (\<lambda>document. read_bind get_u64 (\<lambda>request_id.
     read_bind get_lock_disposition (\<lambda>disposition.
       read_result (checked validate_lock_response \<lparr>lkr_document = document, lkr_request_id = request_id, lkr_disposition = disposition\<rparr>))))"

definition lock_response_fits :: "lock_response \<Rightarrow> bool" where
  "lock_response_fits m \<longleftrightarrow> (lkr_document m) \<noteq> 0"

record fullscreen_request =
  fsq_document :: u64
  fsq_request_id :: u64
  fsq_action :: fullscreen_action

definition validate_fullscreen_request :: "fullscreen_request \<Rightarrow> protocol_error + unit" where
  "validate_fullscreen_request m = valid_when (fsq_request_id m \<noteq> 0) ''fullscreen request identifier''"

definition put_fullscreen_request :: "fullscreen_request \<Rightarrow> protocol_error + bytes" where
  "put_fullscreen_request m =
     and_then (validate_fullscreen_request m) (\<lambda>_.
     Inr (put_u64 (fsq_document m) @ put_u64 (fsq_request_id m) @ put_u8 (fullscreen_action_tag (fsq_action m))))"

definition get_fullscreen_request :: "fullscreen_request reading" where
  "get_fullscreen_request =
     read_bind get_document_id (\<lambda>document. read_bind get_u64 (\<lambda>request_id.
     read_bind get_fullscreen_action (\<lambda>action.
       read_result (checked validate_fullscreen_request \<lparr>fsq_document = document, fsq_request_id = request_id, fsq_action = action\<rparr>))))"

definition fullscreen_request_fits :: "fullscreen_request \<Rightarrow> bool" where
  "fullscreen_request_fits m \<longleftrightarrow> (fsq_document m) \<noteq> 0"

record lock_request =
  lkq_document :: u64
  lkq_request_id :: u64
  lkq_node :: "u128 option"

definition validate_lock_request :: "lock_request \<Rightarrow> protocol_error + unit" where
  "validate_lock_request m = valid_when (lkq_request_id m \<noteq> 0) ''pointer lock request identifier''"

definition put_lock_request :: "lock_request \<Rightarrow> protocol_error + bytes" where
  "put_lock_request m =
     and_then (validate_lock_request m) (\<lambda>_.
     and_then (put_optional (\<lambda>w. Inr (put_u128 w)) (lkq_node m)) (\<lambda>b_node.
       Inr (put_u64 (lkq_document m) @ put_u64 (lkq_request_id m) @ b_node)))"

definition get_lock_request :: "lock_request reading" where
  "get_lock_request =
     read_bind get_document_id (\<lambda>document. read_bind get_u64 (\<lambda>request_id.
     read_bind (get_optional get_node_id) (\<lambda>node.
       read_result (checked validate_lock_request \<lparr>lkq_document = document, lkq_request_id = request_id, lkq_node = node\<rparr>))))"

definition lock_request_fits :: "lock_request \<Rightarrow> bool" where
  "lock_request_fits m \<longleftrightarrow> (lkq_document m) \<noteq> 0 \<and> pred_option (\<lambda>w. node_id_fits w) (lkq_node m)"

record selection_update =
  slu_document :: u64
  slu_node :: u128
  slu_selection_start :: u32
  slu_selection_end :: u32
  slu_direction :: selection_direction
  slu_observed :: u64
  slu_value :: string

definition validate_selection_update :: "selection_update \<Rightarrow> protocol_error + unit" where
  "validate_selection_update m = and_then (validate_selection (slu_selection_start m) (slu_selection_end m)) (\<lambda>_.
     valid_when (length (slu_value m) \<le> MAX_RENDERER_TEXT_INPUT_BYTES
       \<and> unat (slu_selection_end m) \<le> utf16_count (slu_value m)) ''text selection value'')"

definition put_selection_update :: "selection_update \<Rightarrow> protocol_error + bytes" where
  "put_selection_update m =
     and_then (validate_selection_update m) (\<lambda>_.
     and_then (put_string (slu_value m)) (\<lambda>b_value.
       Inr (put_u64 (slu_document m) @ put_u128 (slu_node m) @ put_u32 (slu_selection_start m) @
         put_u32 (slu_selection_end m) @ put_u8 (selection_direction_tag (slu_direction m)) @
         put_u64 (slu_observed m) @ b_value)))"

definition get_selection_update :: "selection_update reading" where
  "get_selection_update =
     read_bind get_document_id (\<lambda>document. read_bind get_node_id (\<lambda>node.
     read_bind get_u32 (\<lambda>selection_start. read_bind get_u32 (\<lambda>selection_end.
     read_bind get_selection_direction (\<lambda>direction. read_bind get_u64 (\<lambda>observed.
     read_bind (get_string MAX_RENDERER_TEXT_INPUT_BYTES) (\<lambda>value.
       read_result (checked validate_selection_update \<lparr>slu_document = document, slu_node = node, slu_selection_start = selection_start, slu_selection_end = selection_end, slu_direction = direction, slu_observed = observed, slu_value = value\<rparr>))))))))"

definition selection_update_fits :: "selection_update \<Rightarrow> bool" where
  "selection_update_fits m \<longleftrightarrow> (slu_document m) \<noteq> 0 \<and> node_id_fits (slu_node m) \<and> (is_utf8 (slu_value m) \<and> length (slu_value m) \<le> MAX_RENDERER_TEXT_INPUT_BYTES)"

section \<open>Exactness\<close>

lemma reads_pointer_phase [wire_reads]: "reads get_pointer_phase (\<lambda>x bs. bs = put_u8 (pointer_phase_tag x))"
  unfolding get_pointer_phase_def
  apply (rule reads_cong, (rule wire_reads)+)
  subgoal for x bs by (cases x rule: pointer_phase_tag.cases) auto
  done

lemma reads_pointer_button [wire_reads]: "reads get_pointer_button (\<lambda>x bs. bs = put_u8 (pointer_button_tag x))"
  unfolding get_pointer_button_def
  apply (rule reads_cong, (rule wire_reads)+)
  subgoal for x bs by (cases x rule: pointer_button_tag.cases) auto
  done

lemma reads_key_phase [wire_reads]: "reads get_key_phase (\<lambda>x bs. bs = put_u8 (key_phase_tag x))"
  unfolding get_key_phase_def
  apply (rule reads_cong, (rule wire_reads)+)
  subgoal for x bs by (cases x rule: key_phase_tag.cases) auto
  done

lemma reads_document_lifecycle [wire_reads]: "reads get_document_lifecycle (\<lambda>x bs. bs = put_u8 (document_lifecycle_tag x))"
  unfolding get_document_lifecycle_def
  apply (rule reads_cong, (rule wire_reads)+)
  subgoal for x bs by (cases x rule: document_lifecycle_tag.cases) auto
  done

lemma reads_selection_direction [wire_reads]: "reads get_selection_direction (\<lambda>x bs. bs = put_u8 (selection_direction_tag x))"
  unfolding get_selection_direction_def
  apply (rule reads_cong, (rule wire_reads)+)
  subgoal for x bs by (cases x rule: selection_direction_tag.cases) auto
  done

lemma reads_text_edit_intent [wire_reads]: "reads get_text_edit_intent (\<lambda>x bs. bs = put_u8 (text_edit_intent_tag x))"
  unfolding get_text_edit_intent_def
  apply (rule reads_cong, (rule wire_reads)+)
  subgoal for x bs by (cases x rule: text_edit_intent_tag.cases) auto
  done

lemma reads_fullscreen_action [wire_reads]: "reads get_fullscreen_action (\<lambda>x bs. bs = put_u8 (fullscreen_action_tag x))"
  unfolding get_fullscreen_action_def
  apply (rule reads_cong, (rule wire_reads)+)
  subgoal for x bs by (cases x rule: fullscreen_action_tag.cases) auto
  done

lemma reads_fullscreen_disposition [wire_reads]: "reads get_fullscreen_disposition (\<lambda>x bs. bs = put_u8 (fullscreen_disposition_tag x))"
  unfolding get_fullscreen_disposition_def
  apply (rule reads_cong, (rule wire_reads)+)
  subgoal for x bs by (cases x rule: fullscreen_disposition_tag.cases) auto
  done

lemma reads_lock_disposition [wire_reads]: "reads get_lock_disposition (\<lambda>x bs. bs = put_u8 (lock_disposition_tag x))"
  unfolding get_lock_disposition_def
  apply (rule reads_cong, (rule wire_reads)+)
  subgoal for x bs by (cases x rule: lock_disposition_tag.cases) auto
  done

lemma reads_input_modifiers [wire_reads]: "reads get_input_modifiers (\<lambda>m bs. bs = put_input_modifiers m)"
  unfolding get_input_modifiers_def
  apply (rule reads_cong, (rule wire_reads)+)
  subgoal for m bs by (cases m; auto simp: put_input_modifiers_def)
  done

lemma reads_optional_node [wire_reads]:
  "reads (get_optional get_node_id) (\<lambda>v bs. pred_option (\<lambda>w. node_id_fits w) v \<and> put_optional (\<lambda>w. Inr (put_u128 w)) v = Inr bs)"
proof -
  have "reads get_node_id (\<lambda>w bs. (node_id_fits w) \<and> Inr (put_u128 w) = (Inr bs :: protocol_error + bytes))"
    by (rule reads_cong, (rule wire_reads)+) auto
  then show ?thesis by (rule reads_cong [OF reads_optional]) (auto simp: pred_option_def)
qed

lemma reads_optional_f32 [wire_reads]:
  "reads (get_optional get_u32) (\<lambda>v bs. put_optional (\<lambda>w. Inr (put_u32 w)) v = Inr bs)"
proof -
  have "reads get_u32 (\<lambda>w bs. (True) \<and> Inr (put_u32 w) = (Inr bs :: protocol_error + bytes))"
    by (rule reads_cong, (rule wire_reads)+) auto
  then show ?thesis by (rule reads_cong [OF reads_optional]) (auto simp: pred_option_def)
qed

lemma reads_span [wire_reads]: "reads get_span (\<lambda>p bs. bs = put_span p)"
  unfolding get_span_def by (rule reads_cong, (rule wire_reads)+) (auto simp: put_span_def)

lemma reads_optional_span [wire_reads]:
  "reads (get_optional get_span) (\<lambda>v bs. put_optional (\<lambda>w. Inr (put_span w)) v = Inr bs)"
proof -
  have "reads get_span (\<lambda>w bs. (True) \<and> Inr (put_span w) = (Inr bs :: protocol_error + bytes))"
    by (rule reads_cong, (rule wire_reads)+) auto
  then show ?thesis by (rule reads_cong [OF reads_optional]) (auto simp: pred_option_def)
qed

lemma reads_wheel_input_from_5: "reads (
     read_bind get_u32 (\<lambda>delta_y. read_bind get_u32 (\<lambda>viewport_y.
     read_bind get_input_modifiers (\<lambda>modifiers. read_bind (get_optional get_node_id) (\<lambda>node.
       read_ok \<lparr>whi_document = document, whi_sequence = sequence, whi_x = x, whi_y = y, whi_delta_x = delta_x, whi_delta_y = delta_y, whi_viewport_y = viewport_y, whi_modifiers = modifiers, whi_node = node\<rparr>)))))
    (\<lambda>m bs. whi_document m = document \<and> whi_sequence m = sequence \<and> whi_x m = x \<and> whi_y m = y \<and> whi_delta_x m = delta_x \<and> (pred_option (\<lambda>w. node_id_fits w) (whi_node m)) \<and>
     and_then (put_optional (\<lambda>w. Inr (put_u128 w)) (whi_node m)) (\<lambda>b_node.
       Inr (put_u32 (whi_delta_y m) @ put_u32 (whi_viewport_y m) @ put_input_modifiers (whi_modifiers m) @
         b_node)) = Inr bs)"
  apply (rule reads_cong, (rule wire_reads)+)
  subgoal for m bs by (cases m; auto simp: result_simps; blast)
  done

lemma reads_wheel_input [wire_reads]: "reads get_wheel_input (\<lambda>m bs. wheel_input_fits m \<and> put_wheel_input m = Inr bs)"
  unfolding get_wheel_input_def
  apply (rule reads_cong, (rule reads_wheel_input_from_5 wire_reads)+)
  subgoal for m bs by (cases m; auto simp: wheel_input_fits_def put_wheel_input_def result_simps; blast)
  done

lemma reads_pointer_input_from_5: "reads (
     read_bind get_u32 (\<lambda>x. read_bind get_u32 (\<lambda>y.
     read_bind get_input_modifiers (\<lambda>modifiers. read_bind (get_optional get_node_id) (\<lambda>node.
       read_ok \<lparr>pti_document = document, pti_sequence = sequence, pti_phase = phase, pti_button = button, pti_buttons = buttons, pti_x = x, pti_y = y, pti_modifiers = modifiers, pti_node = node\<rparr>)))))
    (\<lambda>m bs. pti_document m = document \<and> pti_sequence m = sequence \<and> pti_phase m = phase \<and> pti_button m = button \<and> pti_buttons m = buttons \<and> (pred_option (\<lambda>w. node_id_fits w) (pti_node m)) \<and>
     and_then (put_optional (\<lambda>w. Inr (put_u128 w)) (pti_node m)) (\<lambda>b_node.
       Inr (put_u32 (pti_x m) @ put_u32 (pti_y m) @ put_input_modifiers (pti_modifiers m) @ b_node)) = Inr bs)"
  apply (rule reads_cong, (rule wire_reads)+)
  subgoal for m bs by (cases m; auto simp: result_simps; blast)
  done

lemma reads_pointer_input [wire_reads]: "reads get_pointer_input (\<lambda>m bs. pointer_input_fits m \<and> put_pointer_input m = Inr bs)"
  unfolding get_pointer_input_def
  apply (rule reads_cong, (rule reads_pointer_input_from_5 wire_reads)+)
  subgoal for m bs by (cases m; auto simp: pointer_input_fits_def put_pointer_input_def result_simps; blast)
  done

lemma reads_keyboard_input [wire_reads]: "reads get_keyboard_input (\<lambda>m bs. keyboard_input_fits m \<and> put_keyboard_input m = Inr bs)"
  unfolding get_keyboard_input_def
  apply (rule reads_cong, (rule wire_reads)+)
  subgoal for m bs by (cases m; auto simp: keyboard_input_fits_def put_keyboard_input_def result_simps; blast)
  done

lemma reads_text_input [wire_reads]: "reads get_text_input (\<lambda>m bs. text_input_fits m \<and> put_text_input m = Inr bs)"
  unfolding get_text_input_def
  apply (rule reads_cong, (rule wire_reads)+)
  subgoal for m bs by (cases m; auto simp: text_input_fits_def put_text_input_def result_simps; blast)
  done

lemma reads_native_text_input [wire_reads]: "reads get_native_text_input (\<lambda>m bs. native_text_input_fits m \<and> put_native_text_input m = Inr bs)"
  unfolding get_native_text_input_def
  apply (rule reads_cong, (rule wire_reads)+)
  subgoal for m bs by (cases m; auto simp: native_text_input_fits_def put_native_text_input_def result_simps; blast)
  done

lemma reads_selection_input [wire_reads]: "reads get_selection_input (\<lambda>m bs. selection_input_fits m \<and> put_selection_input m = Inr bs)"
  unfolding get_selection_input_def
  apply (rule reads_cong, (rule wire_reads)+)
  subgoal for m bs by (cases m; auto simp: selection_input_fits_def put_selection_input_def result_simps; blast)
  done

lemma reads_focus_input [wire_reads]: "reads get_focus_input (\<lambda>m bs. focus_input_fits m \<and> put_focus_input m = Inr bs)"
  unfolding get_focus_input_def
  apply (rule reads_cong, (rule wire_reads)+)
  subgoal for m bs by (cases m; auto simp: focus_input_fits_def put_focus_input_def result_simps; blast)
  done

lemma reads_scroll_input [wire_reads]: "reads get_scroll_input (\<lambda>m bs. scroll_input_fits m \<and> put_scroll_input m = Inr bs)"
  unfolding get_scroll_input_def
  apply (rule reads_cong, (rule wire_reads)+)
  subgoal for m bs by (cases m; auto simp: scroll_input_fits_def put_scroll_input_def result_simps; blast)
  done

lemma reads_lifecycle_input [wire_reads]: "reads get_lifecycle_input (\<lambda>m bs. lifecycle_input_fits m \<and> put_lifecycle_input m = Inr bs)"
  unfolding get_lifecycle_input_def
  apply (rule reads_cong, (rule wire_reads)+)
  subgoal for m bs by (cases m; auto simp: lifecycle_input_fits_def put_lifecycle_input_def result_simps; blast)
  done

lemma reads_history_input [wire_reads]: "reads get_history_input (\<lambda>m bs. history_input_fits m \<and> put_history_input m = Inr bs)"
  unfolding get_history_input_def
  apply (rule reads_cong, (rule wire_reads)+)
  subgoal for m bs by (cases m; auto simp: history_input_fits_def put_history_input_def result_simps; blast)
  done

lemma reads_input: "reads (get_input kind) (\<lambda>i bs. input_fits i \<and> input_fields i = (kind, Inr bs))"
  unfolding get_input_def
  apply (rule reads_cong, (rule wire_reads)+)
  subgoal for i bs by (cases i) (auto simp: input_fits_def input_fields_def)
  done

lemma decode_input_iff:
  "length bs \<le> u64_max \<Longrightarrow> decode_input kind bs = Inr i \<longleftrightarrow> input_fits i \<and> encode_input i = Inr (kind, bs)"
proof -
  have "reads (read_bind (get_input kind) (\<lambda>i. read_result (checked validate_input i)))
    (\<lambda>i bs. input_fits i \<and> encode_input i = Inr (kind, bs))"
  proof (rule reads_cong, (rule reads_input wire_reads)+)
    fix i bs
    have "input_fields i = (kind, Inr bs) \<longleftrightarrow> fst (input_fields i) = kind \<and> snd (input_fields i) = Inr bs"
      by (cases "input_fields i") auto
    moreover have "map_sum id (Pair (k :: 16 word)) r = Inr (kind, bs) \<longleftrightarrow> k = kind \<and> r = Inr bs" for k and r :: "protocol_error + bytes"
      by (cases r) auto
    ultimately show "(\<exists>x vs ws. (input_fits x \<and> input_fields x = (kind, Inr vs)) \<and> (checked validate_input x = Inr i \<and> ws = []) \<and> bs = vs @ ws)
        = (input_fits i \<and> encode_input i = Inr (kind, bs))"
      by (auto simp: encode_input_def result_simps)
  qed
  then show "length bs \<le> u64_max \<Longrightarrow> ?thesis" unfolding decode_input_def by (rule run_reader_Inr)
qed

lemma reads_presentation_ack [wire_reads]: "reads get_presentation_ack (\<lambda>m bs. presentation_ack_fits m \<and> put_presentation_ack m = Inr bs)"
  unfolding get_presentation_ack_def
  apply (rule reads_cong, (rule wire_reads)+)
  subgoal for m bs by (cases m; auto simp: presentation_ack_fits_def put_presentation_ack_def result_simps; blast)
  done

interpretation presentation_ack: payload_format put_presentation_ack "run_reader get_presentation_ack" presentation_ack_fits
  by (rule whole_format) (rule reads_presentation_ack)

lemma reads_fullscreen_response [wire_reads]: "reads get_fullscreen_response (\<lambda>m bs. fullscreen_response_fits m \<and> put_fullscreen_response m = Inr bs)"
  unfolding get_fullscreen_response_def
  apply (rule reads_cong, (rule wire_reads)+)
  subgoal for m bs by (cases m; auto simp: fullscreen_response_fits_def put_fullscreen_response_def result_simps; blast)
  done

interpretation fullscreen_response: payload_format put_fullscreen_response "run_reader get_fullscreen_response" fullscreen_response_fits
  by (rule whole_format) (rule reads_fullscreen_response)

lemma reads_lock_response [wire_reads]: "reads get_lock_response (\<lambda>m bs. lock_response_fits m \<and> put_lock_response m = Inr bs)"
  unfolding get_lock_response_def
  apply (rule reads_cong, (rule wire_reads)+)
  subgoal for m bs by (cases m; auto simp: lock_response_fits_def put_lock_response_def result_simps; blast)
  done

interpretation lock_response: payload_format put_lock_response "run_reader get_lock_response" lock_response_fits
  by (rule whole_format) (rule reads_lock_response)

lemma reads_fullscreen_request [wire_reads]: "reads get_fullscreen_request (\<lambda>m bs. fullscreen_request_fits m \<and> put_fullscreen_request m = Inr bs)"
  unfolding get_fullscreen_request_def
  apply (rule reads_cong, (rule wire_reads)+)
  subgoal for m bs by (cases m; auto simp: fullscreen_request_fits_def put_fullscreen_request_def result_simps; blast)
  done

interpretation fullscreen_request: payload_format put_fullscreen_request "run_reader get_fullscreen_request" fullscreen_request_fits
  by (rule whole_format) (rule reads_fullscreen_request)

lemma reads_lock_request [wire_reads]: "reads get_lock_request (\<lambda>m bs. lock_request_fits m \<and> put_lock_request m = Inr bs)"
  unfolding get_lock_request_def
  apply (rule reads_cong, (rule wire_reads)+)
  subgoal for m bs by (cases m; auto simp: lock_request_fits_def put_lock_request_def result_simps; blast)
  done

interpretation lock_request: payload_format put_lock_request "run_reader get_lock_request" lock_request_fits
  by (rule whole_format) (rule reads_lock_request)

lemma reads_selection_update [wire_reads]: "reads get_selection_update (\<lambda>m bs. selection_update_fits m \<and> put_selection_update m = Inr bs)"
  unfolding get_selection_update_def
  apply (rule reads_cong, (rule wire_reads)+)
  subgoal for m bs by (cases m; auto simp: selection_update_fits_def put_selection_update_def result_simps; blast)
  done

interpretation selection_update: payload_format put_selection_update "run_reader get_selection_update" selection_update_fits
  by (rule whole_format) (rule reads_selection_update)

end
