(* ===== verification/Ipc_State.thy ===== *)
theory Ipc_State
  imports Ipc_Values Cookie_Store
begin

text \<open>
  Cookie and Web Storage state on the wire (\<^verbatim>\<open>renderer_protocol/state.rs\<close>, \<^verbatim>\<open>codec/payload/state.rs\<close>,
  \<^verbatim>\<open>storage_sync.rs\<close>), the one-flag policies (\<^verbatim>\<open>policy.rs\<close>) and the test commands (\<^verbatim>\<open>test_command.rs\<close>).
\<close>

definition MAX_STORAGE_KEY_BYTES :: nat where [limit_simps]: "MAX_STORAGE_KEY_BYTES = MAX_STORAGE_BYTES_PER_ORIGIN"

definition MAX_STORAGE_VALUE_BYTES :: nat where [limit_simps]: "MAX_STORAGE_VALUE_BYTES = MAX_STORAGE_BYTES_PER_ORIGIN"

definition MAX_COOKIE_ASSIGNMENT_BYTES :: nat where [limit_simps]: "MAX_COOKIE_ASSIGNMENT_BYTES = 4 * 1024"

section \<open>Cookies and policies\<close>

fun storage_area_kind_tag :: "storage_area_kind \<Rightarrow> 8 word" where
  "storage_area_kind_tag Local = 1"
| "storage_area_kind_tag Session = 2"

definition get_storage_area_kind :: "storage_area_kind reading" where
  "get_storage_area_kind = read_bind get_u8 (\<lambda>t.
     if t = 1 then read_ok Local
     else if t = 2 then read_ok Session
     else read_fail ''storage area'')"

datatype state_snapshot_kind = CookieSnapshots | LocalSnapshots | SessionSnapshots

fun state_snapshot_kind_tag :: "state_snapshot_kind \<Rightarrow> 8 word" where
  "state_snapshot_kind_tag CookieSnapshots = 1"
| "state_snapshot_kind_tag LocalSnapshots = 2"
| "state_snapshot_kind_tag SessionSnapshots = 3"

definition get_state_snapshot_kind :: "state_snapshot_kind reading" where
  "get_state_snapshot_kind = read_bind get_u8 (\<lambda>t.
     if t = 1 then read_ok CookieSnapshots
     else if t = 2 then read_ok LocalSnapshots
     else if t = 3 then read_ok SessionSnapshots
     else read_fail ''state snapshot kind'')"

record cookie_snapshot =
  cks_document :: u64
  cks_version :: u64
  cks_header :: string

definition validate_cookie_snapshot :: "cookie_snapshot \<Rightarrow> protocol_error + unit" where
  "validate_cookie_snapshot m =
     valid_when (cks_version m \<noteq> 0 \<and> length (cks_header m) \<le> MAX_COOKIE_HEADER_BYTES) ''cookie snapshot''"

definition put_cookie_snapshot :: "cookie_snapshot \<Rightarrow> protocol_error + bytes" where
  "put_cookie_snapshot m =
     and_then (validate_cookie_snapshot m) (\<lambda>_.
     and_then (put_string (cks_header m)) (\<lambda>b_header.
       Inr (put_u64 (cks_document m) @ put_u64 (cks_version m) @ b_header)))"

definition get_cookie_snapshot :: "cookie_snapshot reading" where
  "get_cookie_snapshot =
     read_bind get_document_id (\<lambda>document.
     read_bind (get_nonzero ''cookie snapshot'') (\<lambda>version.
     read_bind (get_string MAX_COOKIE_HEADER_BYTES) (\<lambda>header.
       read_result (checked validate_cookie_snapshot \<lparr>cks_document = document, cks_version = version, cks_header = header\<rparr>))))"

definition cookie_snapshot_fits :: "cookie_snapshot \<Rightarrow> bool" where
  "cookie_snapshot_fits m \<longleftrightarrow> (cks_document m) \<noteq> 0 \<and> (cks_version m) \<noteq> 0 \<and> (is_utf8 (cks_header m) \<and> length (cks_header m) \<le> MAX_COOKIE_HEADER_BYTES)"

record cookie_mutation =
  ckm_document :: u64
  ckm_assignment :: string

definition validate_cookie_mutation :: "cookie_mutation \<Rightarrow> protocol_error + unit" where
  "validate_cookie_mutation m =
     valid_when (length (ckm_assignment m) \<le> MAX_COOKIE_ASSIGNMENT_BYTES) ''cookie mutation''"

definition put_cookie_mutation :: "cookie_mutation \<Rightarrow> protocol_error + bytes" where
  "put_cookie_mutation m =
     and_then (validate_cookie_mutation m) (\<lambda>_.
     and_then (put_string (ckm_assignment m)) (\<lambda>b_assignment.
       Inr (put_u64 (ckm_document m) @ b_assignment)))"

definition get_cookie_mutation :: "cookie_mutation reading" where
  "get_cookie_mutation =
     read_bind get_document_id (\<lambda>document.
     read_bind (get_string MAX_COOKIE_ASSIGNMENT_BYTES) (\<lambda>assignment.
       read_result (checked validate_cookie_mutation \<lparr>ckm_document = document, ckm_assignment = assignment\<rparr>)))"

definition cookie_mutation_fits :: "cookie_mutation \<Rightarrow> bool" where
  "cookie_mutation_fits m \<longleftrightarrow> (ckm_document m) \<noteq> 0 \<and> (is_utf8 (ckm_assignment m) \<and> length (ckm_assignment m) \<le> MAX_COOKIE_ASSIGNMENT_BYTES)"

record policy_mutation =
  plm_document :: u64
  plm_client_id :: u64
  plm_serialized :: string

definition validate_policy_mutation :: "policy_mutation \<Rightarrow> protocol_error + unit" where
  "validate_policy_mutation m =
     valid_when (plm_serialized m \<noteq> [] \<and> length (plm_serialized m) \<le> 16 * 1024) ''meta CSP policy''"

definition put_policy_mutation :: "policy_mutation \<Rightarrow> protocol_error + bytes" where
  "put_policy_mutation m =
     and_then (validate_policy_mutation m) (\<lambda>_.
     and_then (put_string (plm_serialized m)) (\<lambda>b_serialized.
       Inr (put_u64 (plm_document m) @ put_u64 (plm_client_id m) @ b_serialized)))"

definition get_policy_mutation :: "policy_mutation reading" where
  "get_policy_mutation =
     read_bind get_document_id (\<lambda>document. read_bind get_u64 (\<lambda>client_id.
     read_bind (get_string (16 * 1024)) (\<lambda>serialized.
       read_result (checked validate_policy_mutation \<lparr>plm_document = document, plm_client_id = client_id, plm_serialized = serialized\<rparr>))))"

definition policy_mutation_fits :: "policy_mutation \<Rightarrow> bool" where
  "policy_mutation_fits m \<longleftrightarrow> (plm_document m) \<noteq> 0 \<and> (is_utf8 (plm_serialized m) \<and> length (plm_serialized m) \<le> 16 * 1024)"

record snapshot_applied =
  sap_document :: u64
  sap_kind :: state_snapshot_kind
  sap_version :: u64

definition validate_snapshot_applied :: "snapshot_applied \<Rightarrow> protocol_error + unit" where
  "validate_snapshot_applied m =
     valid_when (sap_version m \<noteq> 0) ''state snapshot acknowledgement''"

definition put_snapshot_applied :: "snapshot_applied \<Rightarrow> protocol_error + bytes" where
  "put_snapshot_applied m =
     and_then (validate_snapshot_applied m) (\<lambda>_.
     Inr (put_u64 (sap_document m) @ put_u8 (state_snapshot_kind_tag (sap_kind m)) @ put_u64 (sap_version m)))"

definition get_snapshot_applied :: "snapshot_applied reading" where
  "get_snapshot_applied =
     read_bind get_document_id (\<lambda>document. read_bind get_state_snapshot_kind (\<lambda>kind.
     read_bind (get_nonzero ''state snapshot acknowledgement'') (\<lambda>version.
       read_result (checked validate_snapshot_applied \<lparr>sap_document = document, sap_kind = kind, sap_version = version\<rparr>))))"

definition snapshot_applied_fits :: "snapshot_applied \<Rightarrow> bool" where
  "snapshot_applied_fits m \<longleftrightarrow> (sap_document m) \<noteq> 0 \<and> (sap_version m) \<noteq> 0"

section \<open>Storage snapshots\<close>

record snapshot_start =
  sst_document :: u64
  sst_area :: storage_area_kind
  sst_version :: u64
  sst_entry_count :: u32

definition validate_snapshot_start :: "snapshot_start \<Rightarrow> protocol_error + unit" where
  "validate_snapshot_start m =
     valid_when (sst_version m \<noteq> 0 \<and> unat (sst_entry_count m) \<le> MAX_STORAGE_ENTRIES_PER_ORIGIN) ''storage snapshot start''"

definition put_snapshot_start :: "snapshot_start \<Rightarrow> protocol_error + bytes" where
  "put_snapshot_start m =
     and_then (validate_snapshot_start m) (\<lambda>_.
     Inr (put_u64 (sst_document m) @ put_u8 (storage_area_kind_tag (sst_area m)) @ put_u64 (sst_version m) @
         put_u32 (sst_entry_count m)))"

definition get_snapshot_start :: "snapshot_start reading" where
  "get_snapshot_start =
     read_bind get_document_id (\<lambda>document. read_bind get_storage_area_kind (\<lambda>area.
     read_bind (get_nonzero ''storage snapshot'') (\<lambda>version.
     read_bind get_u32 (\<lambda>entry_count.
       read_result (checked validate_snapshot_start \<lparr>sst_document = document, sst_area = area, sst_version = version, sst_entry_count = entry_count\<rparr>)))))"

definition snapshot_start_fits :: "snapshot_start \<Rightarrow> bool" where
  "snapshot_start_fits m \<longleftrightarrow> (sst_document m) \<noteq> 0 \<and> (sst_version m) \<noteq> 0"

definition put_storage_entry :: "storage_entry \<Rightarrow> protocol_error + bytes" where
  "put_storage_entry m =
     and_then (put_storage_string (se_key m)) (\<lambda>b_key.
     and_then (put_storage_string (se_value m)) (\<lambda>b_value.
       Inr (b_key @ b_value)))"

definition get_storage_entry :: "storage_entry reading" where
  "get_storage_entry =
     read_bind (get_storage_string MAX_STORAGE_KEY_BYTES) (\<lambda>key.
     read_bind (get_storage_string MAX_STORAGE_VALUE_BYTES) (\<lambda>value.
       read_ok \<lparr>se_key = key, se_value = value\<rparr>))"

definition storage_entry_fits :: "storage_entry \<Rightarrow> bool" where
  "storage_entry_fits m \<longleftrightarrow> length (se_key m) * 2 \<le> saturating_mul MAX_STORAGE_KEY_BYTES 2 \<and> length (se_value m) * 2 \<le> saturating_mul MAX_STORAGE_VALUE_BYTES 2"

record snapshot_entry =
  sne_document :: u64
  sne_area :: storage_area_kind
  sne_entry :: storage_entry

definition validate_snapshot_entry :: "snapshot_entry \<Rightarrow> protocol_error + unit" where
  "validate_snapshot_entry m =
     map_err (\<lambda>_. InvalidPayload ''storage snapshot entry'') (entry_validate (sne_entry m))"

definition put_snapshot_entry :: "snapshot_entry \<Rightarrow> protocol_error + bytes" where
  "put_snapshot_entry m =
     and_then (validate_snapshot_entry m) (\<lambda>_.
     and_then (put_storage_entry (sne_entry m)) (\<lambda>b_entry.
       Inr (put_u64 (sne_document m) @ put_u8 (storage_area_kind_tag (sne_area m)) @ b_entry)))"

definition get_snapshot_entry :: "snapshot_entry reading" where
  "get_snapshot_entry =
     read_bind get_document_id (\<lambda>document. read_bind get_storage_area_kind (\<lambda>area.
     read_bind get_storage_entry (\<lambda>entry.
       read_result (checked validate_snapshot_entry \<lparr>sne_document = document, sne_area = area, sne_entry = entry\<rparr>))))"

definition snapshot_entry_fits :: "snapshot_entry \<Rightarrow> bool" where
  "snapshot_entry_fits m \<longleftrightarrow> (sne_document m) \<noteq> 0 \<and> storage_entry_fits (sne_entry m)"

record snapshot_end =
  snd_document :: u64
  snd_area :: storage_area_kind
  snd_version :: u64

definition validate_snapshot_end :: "snapshot_end \<Rightarrow> protocol_error + unit" where
  "validate_snapshot_end m =
     valid_when (snd_version m \<noteq> 0) ''storage snapshot end''"

definition put_snapshot_end :: "snapshot_end \<Rightarrow> protocol_error + bytes" where
  "put_snapshot_end m =
     and_then (validate_snapshot_end m) (\<lambda>_.
     Inr (put_u64 (snd_document m) @ put_u8 (storage_area_kind_tag (snd_area m)) @ put_u64 (snd_version m)))"

definition get_snapshot_end :: "snapshot_end reading" where
  "get_snapshot_end =
     read_bind get_document_id (\<lambda>document. read_bind get_storage_area_kind (\<lambda>area.
     read_bind (get_nonzero ''storage snapshot'') (\<lambda>version.
       read_result (checked validate_snapshot_end \<lparr>snd_document = document, snd_area = area, snd_version = version\<rparr>))))"

definition snapshot_end_fits :: "snapshot_end \<Rightarrow> bool" where
  "snapshot_end_fits m \<longleftrightarrow> (snd_document m) \<noteq> 0 \<and> (snd_version m) \<noteq> 0"

text \<open>\<^verbatim>\<open>DocumentState\<close>: what a document starts from.\<close>

record document_state =
  dst_cookie_version :: u64
  dst_cookie_header :: string
  dst_local_storage :: storage_area_snapshot
  dst_session_storage :: storage_area_snapshot

definition validate_document_state :: "document_state \<Rightarrow> protocol_error + unit" where
  "validate_document_state m =
     and_then (valid_when (dst_cookie_version m \<noteq> 0 \<and> length (dst_cookie_header m) \<le> MAX_COOKIE_HEADER_BYTES)
       ''cookie snapshot'') (\<lambda>_.
     and_then (map_err (\<lambda>_. InvalidPayload ''local storage snapshot'') (snapshot_validate (dst_local_storage m))) (\<lambda>_.
       map_err (\<lambda>_. InvalidPayload ''session storage snapshot'') (snapshot_validate (dst_session_storage m))))"

section \<open>Storage writes and updates\<close>

definition put_storage_operation :: "storage_operation \<Rightarrow> protocol_error + bytes" where
  "put_storage_operation a =
     (case a of
        Set key value \<Rightarrow>
          and_then (put_storage_string key) (\<lambda>b_key.
          and_then (put_storage_string value) (\<lambda>b_value.
            Inr (put_u8 1 @ b_key @ b_value)))
      | Remove key \<Rightarrow>
          and_then (put_storage_string key) (\<lambda>b_key.
            Inr (put_u8 2 @ b_key))
      | Clear \<Rightarrow>
          Inr (put_u8 3))"

definition get_storage_operation :: "storage_operation reading" where
  "get_storage_operation = read_bind get_u8 (\<lambda>t.
     if t = 1 then
       read_bind (get_storage_string MAX_STORAGE_KEY_BYTES) (\<lambda>key.
       read_bind (get_storage_string MAX_STORAGE_VALUE_BYTES) (\<lambda>value.
         read_ok (Set key value)))
     else if t = 2 then
       read_bind (get_storage_string MAX_STORAGE_KEY_BYTES) (\<lambda>key.
         read_ok (Remove key))
     else if t = 3 then read_ok Clear
     else read_fail ''storage mutation operation'')"

definition storage_operation_fits :: "storage_operation \<Rightarrow> bool" where
  "storage_operation_fits a = (case a of
     Set key value \<Rightarrow> length key * 2 \<le> saturating_mul MAX_STORAGE_KEY_BYTES 2 \<and> length value * 2 \<le> saturating_mul MAX_STORAGE_VALUE_BYTES 2
   | Remove key \<Rightarrow> length key * 2 \<le> saturating_mul MAX_STORAGE_KEY_BYTES 2
   | _ \<Rightarrow> True)"

record mutation_request =
  mrq_document :: u64
  mrq_sequence :: nat
  mrq_source_url :: string
  mrq_mutation :: storage_mutation

definition validate_mutation_request :: "mutation_request \<Rightarrow> protocol_error + unit" where
  "validate_mutation_request m =
     and_then (valid_when (mrq_sequence m \<noteq> 0 \<and> length (mrq_source_url m) \<le> MAX_URL_BYTES) ''storage write identity'') (\<lambda>_.
       map_err (\<lambda>_. InvalidPayload ''storage mutation'') (mutation_validate (mrq_mutation m)))"

definition put_mutation_request :: "mutation_request \<Rightarrow> protocol_error + bytes" where
  "put_mutation_request m =
     and_then (validate_mutation_request m) (\<lambda>_.
     and_then (put_string (mrq_source_url m)) (\<lambda>b_source.
     and_then (put_storage_operation (mu_operation (mrq_mutation m))) (\<lambda>b_operation.
       Inr (put_u64 (mrq_document m) @ put_u8 (storage_area_kind_tag (mu_area (mrq_mutation m)))
         @ put_nat (mu_expected_version (mrq_mutation m)) @ put_nat (mrq_sequence m) @ b_source @ b_operation))))"

definition get_mutation_request :: "mutation_request reading" where
  "get_mutation_request =
     read_bind get_document_id (\<lambda>document. read_bind get_storage_area_kind (\<lambda>area.
     read_bind (get_nonzero_nat ''storage mutation'') (\<lambda>expected.
     read_bind (get_nonzero_nat ''storage sequence'') (\<lambda>sequence. read_bind (get_string MAX_URL_BYTES) (\<lambda>source_url.
     read_bind get_storage_operation (\<lambda>operation.
       read_result (checked validate_mutation_request
         \<lparr>mrq_document = document, mrq_sequence = sequence, mrq_source_url = source_url,
          mrq_mutation = \<lparr>mu_area = area, mu_expected_version = expected, mu_operation = operation\<rparr>\<rparr>)))))))"

text \<open>The ranges of the types of the source, and what the reader asks beyond the validator.\<close>

definition mutation_request_fits :: "mutation_request \<Rightarrow> bool" where
  "mutation_request_fits m \<longleftrightarrow>
     mrq_document m \<noteq> 0 \<and> (mrq_sequence m \<noteq> 0 \<and> mrq_sequence m \<le> u64_max)
     \<and> (mu_expected_version (mrq_mutation m) \<noteq> 0 \<and> mu_expected_version (mrq_mutation m) \<le> u64_max)
     \<and> (is_utf8 (mrq_source_url m) \<and> length (mrq_source_url m) \<le> MAX_URL_BYTES) \<and> storage_operation_fits (mu_operation (mrq_mutation m))"

record storage_sync =
  syn_document :: u64
  syn_update :: storage_update

definition validate_storage_sync :: "storage_sync \<Rightarrow> protocol_error + unit" where
  "validate_storage_sync m =
     map_err (\<lambda>_. InvalidPayload ''storage synchronization'') (update_validate (syn_update m))"

definition sync_receipt :: "storage_sync \<Rightarrow> snapshot_applied" where
  "sync_receipt m =
     \<lparr>sap_document = syn_document m,
      sap_kind = (case up_area (syn_update m) of Local \<Rightarrow> LocalSnapshots | Session \<Rightarrow> SessionSnapshots),
      sap_version = of_nat (up_version (syn_update m))\<rparr>"

definition put_nullable :: "storage_string option \<Rightarrow> protocol_error + bytes" where
  "put_nullable = put_optional put_storage_string"

definition get_nullable :: "storage_string option reading" where
  "get_nullable = get_optional (get_storage_string MAX_STORAGE_BYTES_PER_ORIGIN)"

definition nullable_fits :: "storage_string option \<Rightarrow> bool" where
  "nullable_fits = pred_option (\<lambda>x. length x * 2 \<le> saturating_mul MAX_STORAGE_BYTES_PER_ORIGIN 2)"

text \<open>The change record of an update; its version is that of the update and is not written.\<close>

definition put_change :: "storage_change \<Rightarrow> protocol_error + bytes" where
  "put_change c =
     and_then (put_nullable (ch_key c)) (\<lambda>b_key.
     and_then (put_nullable (ch_old_value c)) (\<lambda>b_old.
     and_then (put_nullable (ch_new_value c)) (\<lambda>b_new. Inr (b_key @ b_old @ b_new))))"

definition get_change :: "nat \<Rightarrow> storage_change reading" where
  "get_change version =
     read_bind get_nullable (\<lambda>key. read_bind get_nullable (\<lambda>old_value. read_bind get_nullable (\<lambda>new_value.
       read_ok \<lparr>ch_version = version, ch_key = key, ch_old_value = old_value, ch_new_value = new_value\<rparr>)))"

definition change_fits :: "nat \<Rightarrow> storage_change \<Rightarrow> bool" where
  "change_fits version c \<longleftrightarrow> ch_version c = version \<and> nullable_fits (ch_key c) \<and> nullable_fits (ch_old_value c)
     \<and> nullable_fits (ch_new_value c)"

definition put_storage_sync :: "storage_sync \<Rightarrow> protocol_error + bytes" where
  "put_storage_sync m =
     (let u = syn_update m
      in and_then (validate_storage_sync m) (\<lambda>_.
         and_then (put_string (up_source_url u)) (\<lambda>b_source.
         and_then (put_optional put_change (up_change u)) (\<lambda>b_change.
           Inr (put_u64 (syn_document m) @ put_u8 (storage_area_kind_tag (up_area u)) @ put_nat (up_version u)
             @ put_nat (up_acknowledgement u) @ b_source @ b_change)))))"

definition get_sync_fields :: "storage_sync reading" where
  "get_sync_fields =
     read_bind get_document_id (\<lambda>document. read_bind get_storage_area_kind (\<lambda>area. read_bind get_nat (\<lambda>version.
     read_bind get_nat (\<lambda>acknowledgement. read_bind (get_string MAX_URL_BYTES) (\<lambda>source_url.
     read_bind (get_optional (get_change version)) (\<lambda>change.
       read_ok \<lparr>syn_document = document,
         syn_update = \<lparr>up_area = area, up_version = version, up_acknowledgement = acknowledgement,
           up_change = change, up_source_url = source_url\<rparr>\<rparr>))))))"

definition decode_storage_sync :: "bytes \<Rightarrow> protocol_error + storage_sync" where
  "decode_storage_sync = decode_checked validate_storage_sync get_sync_fields"

definition storage_sync_fits :: "storage_sync \<Rightarrow> bool" where
  "storage_sync_fits m \<longleftrightarrow>
     syn_document m \<noteq> 0 \<and> up_version (syn_update m) \<le> u64_max \<and> up_acknowledgement (syn_update m) \<le> u64_max
     \<and> is_utf8 (up_source_url (syn_update m)) \<and> length (up_source_url (syn_update m)) \<le> MAX_URL_BYTES
     \<and> pred_option (change_fits (up_version (syn_update m))) (up_change (syn_update m))"

section \<open>Policies and test commands\<close>

definition policy_flag :: "8 word \<Rightarrow> string \<Rightarrow> protocol_error + bool" where
  "policy_flag v field = (if v = 0 then Inr False else if v = 1 then Inr True else Inl (InvalidPayload field))"

definition encode_gpu_canvas :: "u64 \<times> bool \<Rightarrow> protocol_error + bytes" where
  "encode_gpu_canvas p = Inr (put_u64 (fst p) @ put_bool (snd p))"

definition decode_gpu_canvas :: "bytes \<Rightarrow> protocol_error + u64 \<times> bool" where
  "decode_gpu_canvas bs =
     (if length bs \<noteq> 9 then Inl (InvalidPayload ''GPU Canvas policy length'')
      else and_then (policy_flag (bs ! 8) ''GPU Canvas policy flag'') (\<lambda>enabled.
           and_then (document_id_new (from_le_bytes (take 8 bs))) (\<lambda>document. Inr (document, enabled))))"

definition encode_accessibility :: "bool \<Rightarrow> protocol_error + bytes" where
  "encode_accessibility enabled = Inr (put_bool enabled)"

definition decode_accessibility :: "bytes \<Rightarrow> protocol_error + bool" where
  "decode_accessibility bs =
     (case bs of
        [v] \<Rightarrow> policy_flag v ''accessibility policy flag''
      | _ \<Rightarrow> Inl (InvalidPayload ''accessibility policy length''))"

datatype test_command =
    InternalError | DocumentError | Crash | AccessViolation | OutOfMemory | StackOverflow | Hang
  | DelayCommandRead u16 | Padding u16 | NativeDiagnostics | WriteMalformedFrame | ProbeRestrictions u16

fun encode_test_command :: "test_command \<Rightarrow> bytes" where
  "encode_test_command InternalError = [10]"
| "encode_test_command NativeDiagnostics = [12]"
| "encode_test_command DocumentError = [11]"
| "encode_test_command Crash = [1]"
| "encode_test_command Hang = [2]"
| "encode_test_command WriteMalformedFrame = [3]"
| "encode_test_command (ProbeRestrictions p) = 4 # put_u16 p"
| "encode_test_command AccessViolation = [5]"
| "encode_test_command OutOfMemory = [6]"
| "encode_test_command StackOverflow = [7]"
| "encode_test_command (DelayCommandRead millis) = 8 # put_u16 millis"
| "encode_test_command (Padding n) = 9 # put_u16 n @ replicate (unat n) 0"

definition decode_test_command :: "bytes \<Rightarrow> protocol_error + test_command" where
  "decode_test_command bs =
     (case bs of
        [t] \<Rightarrow>
          if t = 10 then Inr InternalError else if t = 11 then Inr DocumentError else if t = 12 then Inr NativeDiagnostics
          else if t = 1 then Inr Crash else if t = 2 then Inr Hang else if t = 3 then Inr WriteMalformedFrame
          else if t = 5 then Inr AccessViolation else if t = 6 then Inr OutOfMemory else if t = 7 then Inr StackOverflow
          else Inl (InvalidPayload ''test command'')
      | t # low # high # padding \<Rightarrow>
          let w = from_le_bytes [low, high] :: u16
          in if t = 4 \<and> padding = [] then Inr (ProbeRestrictions w)
             else if t = 8 \<and> padding = [] then Inr (DelayCommandRead w)
             else if t = 9 \<and> length padding = unat w \<and> list_all (\<lambda>b. b = 0) padding then Inr (Padding w)
             else Inl (InvalidPayload ''test command'')
      | _ \<Rightarrow> Inl (InvalidPayload ''test command''))"

section \<open>Exactness\<close>

lemma reads_storage_area_kind [wire_reads]: "reads get_storage_area_kind (\<lambda>x bs. bs = put_u8 (storage_area_kind_tag x))"
  unfolding get_storage_area_kind_def
  apply (rule reads_cong, (rule wire_reads)+)
  subgoal for x bs by (cases x rule: storage_area_kind_tag.cases) auto
  done

lemma reads_state_snapshot_kind [wire_reads]: "reads get_state_snapshot_kind (\<lambda>x bs. bs = put_u8 (state_snapshot_kind_tag x))"
  unfolding get_state_snapshot_kind_def
  apply (rule reads_cong, (rule wire_reads)+)
  subgoal for x bs by (cases x rule: state_snapshot_kind_tag.cases) auto
  done

lemma reads_cookie_snapshot [wire_reads]: "reads get_cookie_snapshot (\<lambda>m bs. cookie_snapshot_fits m \<and> put_cookie_snapshot m = Inr bs)"
  unfolding get_cookie_snapshot_def
  apply (rule reads_cong, (rule wire_reads)+)
  subgoal for m bs by (cases m; auto simp: cookie_snapshot_fits_def put_cookie_snapshot_def result_simps; blast)
  done

interpretation cookie_snapshot: payload_format put_cookie_snapshot "run_reader get_cookie_snapshot" cookie_snapshot_fits
  by (rule whole_format) (rule reads_cookie_snapshot)

lemma reads_cookie_mutation [wire_reads]: "reads get_cookie_mutation (\<lambda>m bs. cookie_mutation_fits m \<and> put_cookie_mutation m = Inr bs)"
  unfolding get_cookie_mutation_def
  apply (rule reads_cong, (rule wire_reads)+)
  subgoal for m bs by (cases m; auto simp: cookie_mutation_fits_def put_cookie_mutation_def result_simps; blast)
  done

interpretation cookie_mutation: payload_format put_cookie_mutation "run_reader get_cookie_mutation" cookie_mutation_fits
  by (rule whole_format) (rule reads_cookie_mutation)

lemma reads_policy_mutation [wire_reads]: "reads get_policy_mutation (\<lambda>m bs. policy_mutation_fits m \<and> put_policy_mutation m = Inr bs)"
  unfolding get_policy_mutation_def
  apply (rule reads_cong, (rule wire_reads)+)
  subgoal for m bs by (cases m; auto simp: policy_mutation_fits_def put_policy_mutation_def result_simps; blast)
  done

interpretation policy_mutation: payload_format put_policy_mutation "run_reader get_policy_mutation" policy_mutation_fits
  by (rule whole_format) (rule reads_policy_mutation)

lemma reads_snapshot_applied [wire_reads]: "reads get_snapshot_applied (\<lambda>m bs. snapshot_applied_fits m \<and> put_snapshot_applied m = Inr bs)"
  unfolding get_snapshot_applied_def
  apply (rule reads_cong, (rule wire_reads)+)
  subgoal for m bs by (cases m; auto simp: snapshot_applied_fits_def put_snapshot_applied_def result_simps; blast)
  done

interpretation snapshot_applied: payload_format put_snapshot_applied "run_reader get_snapshot_applied" snapshot_applied_fits
  by (rule whole_format) (rule reads_snapshot_applied)

lemma reads_snapshot_start [wire_reads]: "reads get_snapshot_start (\<lambda>m bs. snapshot_start_fits m \<and> put_snapshot_start m = Inr bs)"
  unfolding get_snapshot_start_def
  apply (rule reads_cong, (rule wire_reads)+)
  subgoal for m bs by (cases m; auto simp: snapshot_start_fits_def put_snapshot_start_def result_simps; blast)
  done

interpretation snapshot_start: payload_format put_snapshot_start "run_reader get_snapshot_start" snapshot_start_fits
  by (rule whole_format) (rule reads_snapshot_start)

lemma reads_storage_entry [wire_reads]: "reads get_storage_entry (\<lambda>m bs. storage_entry_fits m \<and> put_storage_entry m = Inr bs)"
  unfolding get_storage_entry_def
  apply (rule reads_cong, (rule wire_reads)+)
  subgoal for m bs by (cases m; auto simp: storage_entry_fits_def put_storage_entry_def result_simps; blast)
  done

lemma reads_snapshot_entry [wire_reads]: "reads get_snapshot_entry (\<lambda>m bs. snapshot_entry_fits m \<and> put_snapshot_entry m = Inr bs)"
  unfolding get_snapshot_entry_def
  apply (rule reads_cong, (rule wire_reads)+)
  subgoal for m bs by (cases m; auto simp: snapshot_entry_fits_def put_snapshot_entry_def result_simps; blast)
  done

interpretation snapshot_entry: payload_format put_snapshot_entry "run_reader get_snapshot_entry" snapshot_entry_fits
  by (rule whole_format) (rule reads_snapshot_entry)

lemma reads_snapshot_end [wire_reads]: "reads get_snapshot_end (\<lambda>m bs. snapshot_end_fits m \<and> put_snapshot_end m = Inr bs)"
  unfolding get_snapshot_end_def
  apply (rule reads_cong, (rule wire_reads)+)
  subgoal for m bs by (cases m; auto simp: snapshot_end_fits_def put_snapshot_end_def result_simps; blast)
  done

interpretation snapshot_end: payload_format put_snapshot_end "run_reader get_snapshot_end" snapshot_end_fits
  by (rule whole_format) (rule reads_snapshot_end)

lemma reads_storage_operation [wire_reads]: "reads get_storage_operation (\<lambda>x bs. storage_operation_fits x \<and> put_storage_operation x = Inr bs)"
  unfolding get_storage_operation_def
  apply (rule reads_cong, (rule wire_reads)+)
  subgoal for x bs by (cases x; auto simp: storage_operation_fits_def put_storage_operation_def result_simps; blast)
  done

lemma reads_mutation_request [wire_reads]:
  "reads get_mutation_request (\<lambda>m bs. mutation_request_fits m \<and> put_mutation_request m = Inr bs)"
  unfolding get_mutation_request_def
  apply (rule reads_cong, (rule wire_reads)+)
  subgoal for m bs
    by (cases m; cases "mrq_mutation m";
        auto simp: mutation_request_fits_def put_mutation_request_def result_simps; blast)
  done

interpretation mutation_request: payload_format put_mutation_request "run_reader get_mutation_request" mutation_request_fits
  by (rule whole_format) (rule reads_mutation_request)

lemma reads_nullable [wire_reads]: "reads get_nullable (\<lambda>v bs. nullable_fits v \<and> put_nullable v = Inr bs)"
  unfolding get_nullable_def put_nullable_def nullable_fits_def by (rule reads_optional) (rule reads_storage_string)

lemma reads_change: "reads (get_change version) (\<lambda>c bs. change_fits version c \<and> put_change c = Inr bs)"
  unfolding get_change_def
  apply (rule reads_cong, (rule wire_reads)+)
  subgoal for c bs by (cases c; auto simp: change_fits_def put_change_def result_simps; blast)
  done

lemma reads_sync_fields: "reads get_sync_fields (\<lambda>m bs. storage_sync_fits m \<and>
   and_then (put_string (up_source_url (syn_update m))) (\<lambda>b_source.
   and_then (put_optional put_change (up_change (syn_update m))) (\<lambda>b_change.
     Inr (put_u64 (syn_document m) @ put_u8 (storage_area_kind_tag (up_area (syn_update m)))
       @ put_nat (up_version (syn_update m)) @ put_nat (up_acknowledgement (syn_update m)) @ b_source @ b_change))) = Inr bs)"
  unfolding get_sync_fields_def
  apply (rule reads_cong, (rule reads_optional [OF reads_change] wire_reads)+)
  subgoal for m bs by (cases m; cases "syn_update m"; auto simp: storage_sync_fits_def result_simps; blast)
  done

interpretation storage_sync: payload_format put_storage_sync decode_storage_sync storage_sync_fits
  by unfold_locales
    (auto simp: put_storage_sync_def decode_storage_sync_def decode_checked_def Let_def result_simps
      run_reader_Inr [OF reads_sync_fields])

lemma policy_flag_Inr: "policy_flag v e = Inr b \<longleftrightarrow> [v] = put_bool b"
  by (cases b) (auto simp: policy_flag_def put_bool_def)

lemma put_u64_take:
  assumes "length bs = 9"
  shows "bs = put_u64 d @ [v] \<longleftrightarrow> from_le_bytes (take 8 bs) = d \<and> bs ! 8 = v"
proof -
  have "bs = take 8 bs @ [bs ! 8]"
    using take_Suc_conv_app_nth [of 8 bs] assms by simp
  moreover have "from_le_bytes (take 8 bs) = d \<longleftrightarrow> take 8 bs = put_u64 d"
    unfolding put_u64_def using assms by (intro word_as_bytes [where k = 8]) auto
  ultimately show ?thesis by (metis append1_eq_conv)
qed

interpretation gpu_canvas: payload_format encode_gpu_canvas decode_gpu_canvas "\<lambda>p. fst p \<noteq> 0"
proof
  fix bs :: bytes and p :: "u64 \<times> bool"
  obtain d b where p: "p = (d, b)" by fastforce
  obtain v where v: "put_bool b = [v]" by (simp add: put_bool_def)
  have len: "length (put_u64 d @ put_bool b) = 9" by (simp add: put_u64_def put_bool_def)
  show "decode_gpu_canvas bs = Inr p \<longleftrightarrow> fst p \<noteq> 0 \<and> encode_gpu_canvas p = Inr bs"
  proof (cases "length bs = 9")
    case True
    have "policy_flag (bs ! 8) e = Inr b \<longleftrightarrow> bs ! 8 = v" for e using v by (simp add: policy_flag_Inr)
    with True v show ?thesis
      using put_u64_take [OF True, of d v]
      by (auto simp: p decode_gpu_canvas_def encode_gpu_canvas_def result_simps document_id_new_def)
  next
    case False
    then show ?thesis using len by (auto simp: p decode_gpu_canvas_def encode_gpu_canvas_def)
  qed
qed

interpretation accessibility: payload_format encode_accessibility decode_accessibility "\<lambda>_. True"
  by unfold_locales
    (auto simp: encode_accessibility_def decode_accessibility_def policy_flag_Inr put_bool_def split: list.splits)

lemma put_u16_pair: "[low, high] = put_u16 w \<longleftrightarrow> from_le_bytes [low, high] = w"
  unfolding put_u16_def by (rule word_as_bytes [where k = 2, symmetric]) auto

lemma put_u16_append: "low # high # rest = put_u16 w @ tail \<longleftrightarrow> from_le_bytes [low, high] = w \<and> rest = tail"
  using append_eq_append_conv [of "[low, high]" "put_u16 w" rest tail] by (simp add: put_u16_pair)

interpretation test_command: payload_format "\<lambda>c. Inr (encode_test_command c)" decode_test_command "\<lambda>_. True"
proof
  fix bs :: bytes and c
  have u: "put_u16 w = x # y # z \<longleftrightarrow> from_le_bytes [x, y] = w \<and> z = []" for w x y z
    using put_u16_append [of x y z w "[]"] by auto
  have n: "put_u16 w \<noteq> []" "put_u16 w \<noteq> [x]" for w x
    by (metis length_0_conv put_u16_length zero_neq_numeral) (metis One_nat_def length_Cons list.size(3) numeral_eq_one_iff put_u16_length semiring_norm(85))
  have m: "put_u16 w @ tail = x # y # z \<longleftrightarrow> from_le_bytes [x, y] = w \<and> z = tail" for w x y z tail
    using put_u16_append [of x y z w tail] by auto
  have n': "put_u16 w @ tail \<noteq> []" "put_u16 w @ tail \<noteq> [x]" for w x tail
    using n by (metis append_is_Nil_conv) (metis append_eq_Cons_conv n list.discI append_is_Nil_conv)
  have z: "length p = k \<and> list_all (\<lambda>b. b = 0) p \<longleftrightarrow> p = replicate k (0 :: 8 word)" for p k
    by (auto simp: list_all_iff intro: replicate_eqI)
  show "decode_test_command bs = Inr c \<longleftrightarrow> True \<and> Inr (encode_test_command c) = (Inr bs :: protocol_error + bytes)"
    by (cases c) (auto simp: decode_test_command_def Let_def u n m n' z split: list.splits)
qed

end
