(* ===== verification/Ipc_Files.thy ===== *)
theory Ipc_Files
  imports Ipc_Values
begin

text \<open>
  File selections (\<^verbatim>\<open>renderer_protocol/file_picker.rs\<close>, \<^verbatim>\<open>codec/payload/file_picker.rs\<close>): the request, the
  stream of updates that carries the bytes of the chosen files, and the assembler that puts them together.
\<close>

definition MAX_FILE_PICKER_FILES :: nat where [limit_simps]: "MAX_FILE_PICKER_FILES = 8"

definition MAX_FILE_PICKER_BYTES :: nat where [limit_simps]: "MAX_FILE_PICKER_BYTES = 4 * 1024 * 1024"

definition MAX_FILE_PICKER_CHUNK_BYTES :: nat where [limit_simps]: "MAX_FILE_PICKER_CHUNK_BYTES = 64 * 1024"

definition MAX_FILE_PICKER_NAME_BYTES :: nat where [limit_simps]: "MAX_FILE_PICKER_NAME_BYTES = 255"

definition MAX_FILE_PICKER_MIME_BYTES :: nat where [limit_simps]: "MAX_FILE_PICKER_MIME_BYTES = 255"

definition MAX_FILE_PICKER_ACCEPT_BYTES :: nat where [limit_simps]: "MAX_FILE_PICKER_ACCEPT_BYTES = 4096"

section \<open>Requests\<close>

record file_picker_request =
  fpr_document :: u64
  fpr_request_id :: u64
  fpr_node :: u128
  fpr_client :: request_client
  fpr_multiple :: bool
  fpr_accept :: string

definition validate_file_picker_request :: "file_picker_request \<Rightarrow> protocol_error + unit" where
  "validate_file_picker_request m =
     and_then (valid_when (fpr_request_id m \<noteq> 0) ''file picker request identifier'') (\<lambda>_.
       valid_when (length (fpr_accept m) \<le> MAX_FILE_PICKER_ACCEPT_BYTES \<and> char_of (0 :: nat) \<notin> set (fpr_accept m))
         ''file picker accept hint'')"

definition put_file_picker_request :: "file_picker_request \<Rightarrow> protocol_error + bytes" where
  "put_file_picker_request m =
     and_then (put_string (fpr_accept m)) (\<lambda>b_accept.
       Inr (put_u64 (fpr_document m) @ put_u64 (fpr_request_id m) @ put_u128 (fpr_node m) @
         put_client (fpr_client m) @ put_bool (fpr_multiple m) @ b_accept))"

definition get_file_picker_request :: "file_picker_request reading" where
  "get_file_picker_request =
     read_bind get_document_id (\<lambda>document. read_bind get_u64 (\<lambda>request_id.
     read_bind get_node_id (\<lambda>node. read_bind get_client (\<lambda>client.
     read_bind get_bool (\<lambda>multiple.
     read_bind (get_string MAX_FILE_PICKER_ACCEPT_BYTES) (\<lambda>accept.
       read_ok \<lparr>fpr_document = document, fpr_request_id = request_id, fpr_node = node, fpr_client = client, fpr_multiple = multiple, fpr_accept = accept\<rparr>))))))"

definition file_picker_request_fits :: "file_picker_request \<Rightarrow> bool" where
  "file_picker_request_fits m \<longleftrightarrow> (fpr_document m) \<noteq> 0 \<and> node_id_fits (fpr_node m) \<and> client_fits (fpr_client m) \<and> (is_utf8 (fpr_accept m) \<and> length (fpr_accept m) \<le> MAX_FILE_PICKER_ACCEPT_BYTES)"

definition encode_file_picker_request :: "file_picker_request \<Rightarrow> protocol_error + bytes" where
  "encode_file_picker_request = encode_checked validate_file_picker_request put_file_picker_request"

definition decode_file_picker_request :: "bytes \<Rightarrow> protocol_error + file_picker_request" where
  "decode_file_picker_request = decode_checked validate_file_picker_request get_file_picker_request"

section \<open>Selected files\<close>

text \<open>\<open>sfm_last_modified\<close> is an \<^verbatim>\<open>i64\<close>, read by \<open>sint\<close>.\<close>

record file_metadata =
  sfm_name :: string
  sfm_mime_type :: string
  sfm_last_modified :: u64
  sfm_size :: u32

definition is_mime_token :: "char \<Rightarrow> bool" where
  "is_mime_token c \<longleftrightarrow> 0x61 \<le> byte c \<and> byte c \<le> 0x7a \<or> is_ascii_digit c
     \<or> byte c \<in> {0x21, 0x23, 0x24, 0x25, 0x26, 0x27, 0x2a, 0x2b, 0x2d, 0x2e, 0x5e, 0x5f, 0x60, 0x7c, 0x7e}"

definition names_a_path :: "string \<Rightarrow> bool" where
  "names_a_path name \<longleftrightarrow> list_ex (\<lambda>c. byte c \<in> {0x2f, 0x5c, 0x3a} \<or> byte c < 0x20 \<or> byte c = 0x7f) name"

definition validate_file_metadata :: "file_metadata \<Rightarrow> protocol_error + unit" where
  "validate_file_metadata m =
     and_then (valid_when (sfm_name m \<noteq> [] \<and> length (sfm_name m) \<le> MAX_FILE_PICKER_NAME_BYTES
         \<and> sfm_name m \<noteq> ''.'' \<and> sfm_name m \<noteq> ''..'' \<and> \<not> names_a_path (sfm_name m)) ''selected file basename'') (\<lambda>_.
       valid_when (length (sfm_mime_type m) \<le> MAX_FILE_PICKER_MIME_BYTES
         \<and> (sfm_mime_type m \<noteq> [] \<longrightarrow>
             (case split_once (CHR ''/'') (sfm_mime_type m) of
                None \<Rightarrow> False
              | Some (typ, subtype) \<Rightarrow> typ \<noteq> [] \<and> subtype \<noteq> [] \<and> list_all is_mime_token typ \<and> list_all is_mime_token subtype))
         \<and> nat \<bar>sint (sfm_last_modified m)\<bar> \<le> 9007199254740991
         \<and> unat (sfm_size m) \<le> MAX_FILE_PICKER_BYTES) ''selected file metadata'')"

definition put_file_metadata :: "file_metadata \<Rightarrow> protocol_error + bytes" where
  "put_file_metadata m =
     and_then (put_string (sfm_name m)) (\<lambda>b_name.
     and_then (put_string (sfm_mime_type m)) (\<lambda>b_mime_type.
       Inr (b_name @ b_mime_type @ put_u64 (sfm_last_modified m) @ put_u32 (sfm_size m))))"

definition get_file_metadata :: "file_metadata reading" where
  "get_file_metadata =
     read_bind (get_string MAX_FILE_PICKER_NAME_BYTES) (\<lambda>name.
     read_bind (get_string MAX_FILE_PICKER_MIME_BYTES) (\<lambda>mime_type.
     read_bind get_u64 (\<lambda>last_modified. read_bind get_u32 (\<lambda>size.
       read_ok \<lparr>sfm_name = name, sfm_mime_type = mime_type, sfm_last_modified = last_modified, sfm_size = size\<rparr>))))"

definition file_metadata_fits :: "file_metadata \<Rightarrow> bool" where
  "file_metadata_fits m \<longleftrightarrow> (is_utf8 (sfm_name m) \<and> length (sfm_name m) \<le> MAX_FILE_PICKER_NAME_BYTES) \<and> (is_utf8 (sfm_mime_type m) \<and> length (sfm_mime_type m) \<le> MAX_FILE_PICKER_MIME_BYTES)"

definition put_selected_files :: "file_metadata list \<Rightarrow> protocol_error + bytes" where
  "put_selected_files xs = and_then (put_each (\<lambda>w. put_file_metadata w) xs) (\<lambda>b. Inr (put_u8 (of_nat (length xs)) @ b))"

definition get_selected_files :: "file_metadata list reading" where
  "get_selected_files = read_bind get_u8 (\<lambda>count.
     if unat count = 0 \<or> unat count > MAX_FILE_PICKER_FILES then read_fail ''selected file count'' else read_times (unat count) get_file_metadata)"

definition selected_files_fits :: "file_metadata list \<Rightarrow> bool" where
  "selected_files_fits xs \<longleftrightarrow> \<not> (length xs = 0 \<or> length xs > MAX_FILE_PICKER_FILES) \<and> list_all (\<lambda>w. file_metadata_fits w) xs"

text \<open>What an update carries beside the document and the request it answers.\<close>

datatype picker_event =
    PickerStart "file_metadata list"
  | PickerChunk "8 word" u32 bytes
  | PickerEnd
  | PickerCanceled
  | PickerFailed

definition put_picker_event :: "picker_event \<Rightarrow> protocol_error + bytes" where
  "put_picker_event a =
     (case a of
        PickerStart files \<Rightarrow>
          and_then (put_selected_files files) (\<lambda>b_files.
            Inr (put_u8 1 @ b_files))
      | PickerChunk file_index offset content \<Rightarrow>
          and_then (put_bytes content) (\<lambda>b_content.
            Inr (put_u8 2 @ put_u8 file_index @ put_u32 offset @ b_content))
      | PickerEnd \<Rightarrow>
          Inr (put_u8 3)
      | PickerCanceled \<Rightarrow>
          Inr (put_u8 4)
      | PickerFailed \<Rightarrow>
          Inr (put_u8 5))"

definition get_picker_event :: "picker_event reading" where
  "get_picker_event = read_bind get_u8 (\<lambda>t.
     if t = 1 then
       read_bind get_selected_files (\<lambda>files.
         read_ok (PickerStart files))
     else if t = 2 then
       read_bind get_u8 (\<lambda>file_index. read_bind get_u32 (\<lambda>offset.
       read_bind (get_bytes MAX_FILE_PICKER_CHUNK_BYTES) (\<lambda>content.
         read_ok (PickerChunk file_index offset content))))
     else if t = 3 then read_ok PickerEnd
     else if t = 4 then read_ok PickerCanceled
     else if t = 5 then read_ok PickerFailed
     else read_fail ''file picker update kind'')"

definition picker_event_fits :: "picker_event \<Rightarrow> bool" where
  "picker_event_fits a = (case a of
     PickerStart files \<Rightarrow> selected_files_fits files
   | PickerChunk file_index offset content \<Rightarrow> length content \<le> MAX_FILE_PICKER_CHUNK_BYTES
   | _ \<Rightarrow> True)"

record file_picker_update =
  fpu_document :: u64
  fpu_request_id :: u64
  fpu_event :: picker_event

fun total_size :: "nat \<Rightarrow> file_metadata list \<Rightarrow> protocol_error + nat" where
  "total_size acc [] = Inr acc"
| "total_size acc (f # fs) =
     and_then (validate_file_metadata f) (\<lambda>_.
     and_then (ok_or (checked_add acc (unat (sfm_size f))) (InvalidPayload ''selected file size'')) (\<lambda>acc'.
       total_size acc' fs))"

definition validate_file_picker_update :: "file_picker_update \<Rightarrow> protocol_error + unit" where
  "validate_file_picker_update m =
     and_then (valid_when (fpu_request_id m \<noteq> 0) ''file picker update identifier'') (\<lambda>_.
       case fpu_event m of
         PickerStart files \<Rightarrow>
           and_then (valid_when (files \<noteq> [] \<and> length files \<le> MAX_FILE_PICKER_FILES) ''selected file count'') (\<lambda>_.
           and_then (total_size 0 files) (\<lambda>size'.
             valid_when (size' \<le> MAX_FILE_PICKER_BYTES) ''selected file size''))
       | PickerChunk file_index offset content \<Rightarrow>
           valid_when (unat file_index < MAX_FILE_PICKER_FILES \<and> content \<noteq> []
             \<and> length content \<le> MAX_FILE_PICKER_CHUNK_BYTES) ''selected file chunk''
       | _ \<Rightarrow> Inr ())"

definition put_file_picker_update :: "file_picker_update \<Rightarrow> protocol_error + bytes" where
  "put_file_picker_update m =
     and_then (put_picker_event (fpu_event m)) (\<lambda>b_event.
       Inr (put_u64 (fpu_document m) @ put_u64 (fpu_request_id m) @ b_event))"

definition get_file_picker_update :: "file_picker_update reading" where
  "get_file_picker_update =
     read_bind get_document_id (\<lambda>document. read_bind get_u64 (\<lambda>request_id.
     read_bind get_picker_event (\<lambda>event.
       read_ok \<lparr>fpu_document = document, fpu_request_id = request_id, fpu_event = event\<rparr>)))"

definition file_picker_update_fits :: "file_picker_update \<Rightarrow> bool" where
  "file_picker_update_fits m \<longleftrightarrow> (fpu_document m) \<noteq> 0 \<and> picker_event_fits (fpu_event m)"

definition encode_file_picker_update :: "file_picker_update \<Rightarrow> protocol_error + bytes" where
  "encode_file_picker_update = encode_checked validate_file_picker_update put_file_picker_update"

definition decode_file_picker_update :: "bytes \<Rightarrow> protocol_error + file_picker_update" where
  "decode_file_picker_update = decode_checked validate_file_picker_update get_file_picker_update"

section \<open>The assembler\<close>

record selected_file =
  sf_metadata :: file_metadata
  sf_bytes :: bytes

datatype picker_selection = Selected "selected_file list" | SelectionCanceled | SelectionFailed

record file_assembler =
  fa_document :: u64
  fa_request_id :: u64
  fa_files :: "selected_file list option"
  fa_next_file :: nat
  fa_finished :: bool

definition assembler_new :: "u64 \<Rightarrow> u64 \<Rightarrow> file_assembler" where
  "assembler_new document request_id =
     \<lparr>fa_document = document, fa_request_id = request_id, fa_files = None, fa_next_file = 0, fa_finished = False\<rparr>"

definition file_full :: "selected_file \<Rightarrow> bool" where
  "file_full f \<longleftrightarrow> length (sf_bytes f) = unat (sfm_size (sf_metadata f))"

text \<open>The loop of \<^verbatim>\<open>skip_empty_files\<close>, over the files from the current one on.\<close>

fun skip_full :: "selected_file list \<Rightarrow> nat" where
  "skip_full [] = 0"
| "skip_full (f # fs) = (if file_full f then Suc (skip_full fs) else 0)"

definition skip_empty_files :: "file_assembler \<Rightarrow> file_assembler" where
  "skip_empty_files a =
     (case fa_files a of
        None \<Rightarrow> a
      | Some files \<Rightarrow> a\<lparr>fa_next_file := fa_next_file a + skip_full (drop (fa_next_file a) files)\<rparr>)"

type_synonym pushed = "(protocol_error + picker_selection option) \<times> file_assembler"

definition push_chunk :: "8 word \<Rightarrow> u32 \<Rightarrow> bytes \<Rightarrow> file_assembler \<Rightarrow> pushed" where
  "push_chunk file_index offset content a =
     (case fa_files a of
        None \<Rightarrow> (Inl (InvalidPayload ''file chunk before start''), a)
      | Some files \<Rightarrow>
          if unat file_index \<noteq> fa_next_file a \<or> fa_next_file a \<ge> length files
          then (Inl (InvalidPayload ''file chunk order''), a)
          else let f = files ! fa_next_file a
            in if length (sf_bytes f) \<noteq> unat offset
                 \<or> saturating_add (length (sf_bytes f)) (length content) > unat (sfm_size (sf_metadata f))
               then (Inl (InvalidPayload ''file chunk offset or size''), a)
               else (Inr None, skip_empty_files
                 (a\<lparr>fa_files := Some (files[fa_next_file a := f\<lparr>sf_bytes := sf_bytes f @ content\<rparr>])\<rparr>)))"

definition push_inner :: "file_picker_update \<Rightarrow> file_assembler \<Rightarrow> pushed" where
  "push_inner u a =
     (case validate_file_picker_update u of
        Inl e \<Rightarrow> (Inl e, a)
      | Inr _ \<Rightarrow>
          if fa_finished a \<or> fpu_document u \<noteq> fa_document a \<or> fpu_request_id u \<noteq> fa_request_id a
          then (Inl (InvalidPayload ''file picker reply identity''), a)
          else case fpu_event u of
            PickerStart files \<Rightarrow>
              if fa_files a = None
              then (Inr None, skip_empty_files
                (a\<lparr>fa_files := Some (map (\<lambda>m. \<lparr>sf_metadata = m, sf_bytes = []\<rparr>) files)\<rparr>))
              else (Inl (InvalidPayload ''file picker reply order''), a)
          | PickerChunk file_index offset content \<Rightarrow> push_chunk file_index offset content a
          | PickerEnd \<Rightarrow>
              (case fa_files a of
                 None \<Rightarrow> (Inl (InvalidPayload ''file end before start''), a)
               | Some files \<Rightarrow>
                   if fa_next_file a \<noteq> length files
                   then (Inl (InvalidPayload ''truncated selected file''), a\<lparr>fa_files := None\<rparr>)
                   else (Inr (Some (Selected files)), a\<lparr>fa_files := None, fa_finished := True\<rparr>))
          | PickerCanceled \<Rightarrow>
              if fa_files a = None then (Inr (Some SelectionCanceled), a\<lparr>fa_finished := True\<rparr>)
              else (Inl (InvalidPayload ''file picker reply order''), a)
          | PickerFailed \<Rightarrow> (Inr (Some SelectionFailed), a\<lparr>fa_files := None, fa_finished := True\<rparr>))"

definition assembler_push :: "file_picker_update \<Rightarrow> file_assembler \<Rightarrow> pushed" where
  "assembler_push u a =
     (case push_inner u a of
        (Inl e, a') \<Rightarrow> (Inl e, a'\<lparr>fa_files := None, fa_finished := True\<rparr>)
      | (Inr r, a') \<Rightarrow> (Inr r, a'))"

section \<open>Exactness\<close>

lemma reads_file_picker_request [wire_reads]: "reads get_file_picker_request (\<lambda>m bs. file_picker_request_fits m \<and> put_file_picker_request m = Inr bs)"
  unfolding get_file_picker_request_def
  apply (rule reads_cong, (rule wire_reads)+)
  subgoal for m bs by (cases m; auto simp: file_picker_request_fits_def put_file_picker_request_def result_simps; blast)
  done

interpretation file_picker_request: payload_format encode_file_picker_request decode_file_picker_request file_picker_request_fits
  unfolding encode_file_picker_request_def decode_file_picker_request_def by (rule checked_format) (rule reads_file_picker_request)

lemma reads_file_metadata [wire_reads]: "reads get_file_metadata (\<lambda>m bs. file_metadata_fits m \<and> put_file_metadata m = Inr bs)"
  unfolding get_file_metadata_def
  apply (rule reads_cong, (rule wire_reads)+)
  subgoal for m bs by (cases m; auto simp: file_metadata_fits_def put_file_metadata_def result_simps; blast)
  done

lemma reads_selected_files [wire_reads]: "reads get_selected_files (\<lambda>xs bs. selected_files_fits xs \<and> put_selected_files xs = Inr bs)"
proof -
  have e: "reads get_file_metadata (\<lambda>w bs. (file_metadata_fits w) \<and> put_file_metadata w = (Inr bs :: protocol_error + bytes))"
    by (rule reads_cong, (rule wire_reads)+) auto
  show ?thesis
    unfolding get_selected_files_def
    by (rule reads_cong, rule reads_list [OF reads_u8 e, of "\<lambda>n. n = 0 \<or> n > MAX_FILE_PICKER_FILES"]) (auto simp: selected_files_fits_def put_selected_files_def limit_simps)
qed

lemma reads_picker_event [wire_reads]: "reads get_picker_event (\<lambda>x bs. picker_event_fits x \<and> put_picker_event x = Inr bs)"
  unfolding get_picker_event_def
  apply (rule reads_cong, (rule wire_reads)+)
  subgoal for x bs by (cases x; auto simp: picker_event_fits_def put_picker_event_def result_simps; blast)
  done

lemma reads_file_picker_update [wire_reads]: "reads get_file_picker_update (\<lambda>m bs. file_picker_update_fits m \<and> put_file_picker_update m = Inr bs)"
  unfolding get_file_picker_update_def
  apply (rule reads_cong, (rule wire_reads)+)
  subgoal for m bs by (cases m; auto simp: file_picker_update_fits_def put_file_picker_update_def result_simps; blast)
  done

interpretation file_picker_update: payload_format encode_file_picker_update decode_file_picker_update file_picker_update_fits
  unfolding encode_file_picker_update_def decode_file_picker_update_def by (rule checked_format) (rule reads_file_picker_update)

end
