(* ===== verification/Ipc_Selection.thy ===== *)
theory Ipc_Selection
  imports Ipc_Files
begin

text \<open>
  File selections from end to end: the updates the browser sends for the files the user chose
  (\<^verbatim>\<open>windows_app/file_picker.rs\<close>) and what the renderer's assembler makes of a stream of updates.
\<close>

section \<open>The sender\<close>

definition picker_update :: "u64 \<Rightarrow> u64 \<Rightarrow> picker_event \<Rightarrow> file_picker_update" where
  "picker_update document request_id e = \<lparr>fpu_document = document, fpu_request_id = request_id, fpu_event = e\<rparr>"

definition chunk_events :: "nat \<Rightarrow> selected_file \<Rightarrow> picker_event list" where
  "chunk_events i f =
     map (\<lambda>(c, bs). PickerChunk (of_nat i) (of_nat (c * MAX_FILE_PICKER_CHUNK_BYTES)) bs)
       (List.enumerate 0 (body_chunks MAX_FILE_PICKER_CHUNK_BYTES (sf_bytes f)))"

definition selection_events :: "selected_file list \<Rightarrow> picker_event list" where
  "selection_events files =
     PickerStart (map sf_metadata files) # concat (map (\<lambda>(i, f). chunk_events i f) (List.enumerate 0 files)) @ [PickerEnd]"

section \<open>Streams of updates\<close>

text \<open>The renderer pushes updates until one ends the selection or fails.\<close>

fun push_updates :: "file_picker_update list \<Rightarrow> file_assembler \<Rightarrow> pushed" where
  "push_updates [] a = (Inr None, a)"
| "push_updates (u # us) a =
     (case assembler_push u a of
        (Inr None, a') \<Rightarrow> push_updates us a'
      | p \<Rightarrow> p)"

type_synonym chunk = "8 word \<times> u32 \<times> bytes"

definition chunk_event :: "chunk \<Rightarrow> picker_event" where
  "chunk_event c = (case c of (i, offset, content) \<Rightarrow> PickerChunk i offset content)"

definition content_of :: "nat \<Rightarrow> chunk list \<Rightarrow> bytes" where
  "content_of i cs = concat (map (\<lambda>(j, offset, content). if unat j = i then content else []) cs)"

lemma content_of_simps [simp]:
  "content_of i [] = []"
  "content_of i (cs @ [(j, offset, content)]) = (if unat j = i then content_of i cs @ content else content_of i cs)"
  by (simp_all add: content_of_def)

definition assembling :: "u64 \<Rightarrow> u64 \<Rightarrow> file_metadata list \<Rightarrow> chunk list \<Rightarrow> file_assembler \<Rightarrow> bool" where
  "assembling d r metas cs a \<longleftrightarrow>
     fa_document a = d \<and> fa_request_id a = r \<and>
     (\<exists>fs. fa_files a = Some fs \<and> map sf_metadata fs = metas \<and> fa_next_file a \<le> length fs
        \<and> (\<forall>i<length fs. sf_bytes (fs ! i) = content_of i cs)
        \<and> (\<forall>i<fa_next_file a. file_full (fs ! i)))"

lemma skip_full_le: "skip_full fs \<le> length fs"
  by (induction fs) auto

lemma skip_full_full: "i < skip_full fs \<Longrightarrow> file_full (fs ! i)"
  by (induction fs arbitrary: i) (auto simp: nth_Cons split: if_splits nat.splits)

lemma assembling_skip:
  assumes "assembling d r metas cs a"
  shows "assembling d r metas cs (skip_empty_files a)"
proof -
  obtain fs where fs: "fa_files a = Some fs" "map sf_metadata fs = metas" "fa_next_file a \<le> length fs"
    "\<forall>i<length fs. sf_bytes (fs ! i) = content_of i cs" "\<forall>i<fa_next_file a. file_full (fs ! i)"
    "fa_document a = d" "fa_request_id a = r"
    using assms by (auto simp: assembling_def)
  let ?n = "fa_next_file a" let ?k = "skip_full (drop ?n fs)"
  have "file_full (fs ! i)" if "i < ?n + ?k" for i
  proof (cases "i < ?n")
    case False
    then have "file_full (drop ?n fs ! (i - ?n))" using that by (intro skip_full_full) simp
    with False that skip_full_le [of "drop ?n fs"] show ?thesis by simp
  qed (use fs in simp)
  then show ?thesis
    using fs skip_full_le [of "drop ?n fs"] by (auto simp: assembling_def skip_empty_files_def)
qed

lemma push_Inr:
  assumes "assembler_push u a = (Inr res, a')"
  shows "push_inner u a = (Inr res, a')" "validate_file_picker_update u = Inr ()" "\<not> fa_finished a"
    "u = picker_update (fa_document a) (fa_request_id a) (fpu_event u)"
  using assms
  by (auto simp: assembler_push_def push_inner_def picker_update_def split: prod.splits sum.splits if_splits)

lemma push_assembling:
  assumes "assembling d r metas cs a" "assembler_push u a = (Inr res, a')"
  shows "(\<exists>c. u = picker_update d r (chunk_event c) \<and> res = None \<and> assembling d r metas (cs @ [c]) a')
    \<or> u = picker_update d r PickerEnd \<and> (\<exists>fs. res = Some (Selected fs) \<and> map sf_metadata fs = metas
         \<and> (\<forall>i<length fs. sf_bytes (fs ! i) = content_of i cs \<and> file_full (fs ! i)))
    \<or> res = Some SelectionFailed"
proof -
  obtain fs where fs: "fa_files a = Some fs" "map sf_metadata fs = metas" "fa_next_file a \<le> length fs"
    "\<forall>i<length fs. sf_bytes (fs ! i) = content_of i cs" "\<forall>i<fa_next_file a. file_full (fs ! i)"
    "fa_document a = d" "fa_request_id a = r"
    using assms by (auto simp: assembling_def)
  note p = push_Inr [OF assms(2)]
  have inner: "push_inner u a = (case fpu_event u of
      PickerChunk i offset content \<Rightarrow> push_chunk i offset content a
    | PickerEnd \<Rightarrow> if fa_next_file a \<noteq> length fs then (Inl (InvalidPayload ''truncated selected file''), a\<lparr>fa_files := None\<rparr>)
        else (Inr (Some (Selected fs)), a\<lparr>fa_files := None, fa_finished := True\<rparr>)
    | PickerFailed \<Rightarrow> (Inr (Some SelectionFailed), a\<lparr>fa_files := None, fa_finished := True\<rparr>)
    | _ \<Rightarrow> (Inl (InvalidPayload ''file picker reply order''), a))"
    using p by (auto simp: push_inner_def fs(1) picker_update_def split: picker_event.splits prod.splits sum.splits if_splits)
  show ?thesis
  proof (cases "fpu_event u")
    case (PickerChunk i offset content)
    let ?n = "fa_next_file a" let ?f = "fs ! fa_next_file a"
    let ?fs = "fs[?n := ?f\<lparr>sf_bytes := sf_bytes ?f @ content\<rparr>]"
    have "unat i = ?n" "?n < length fs" "res = None" and a': "a' = skip_empty_files (a\<lparr>fa_files := Some ?fs\<rparr>)"
      using p(1) inner PickerChunk by (auto simp: push_chunk_def fs(1) Let_def split: if_splits)
    moreover have "map sf_metadata ?fs = map sf_metadata fs"
      using \<open>?n < length fs\<close> by (simp add: map_update list_update_same_conv)
    ultimately have "assembling d r metas (cs @ [(i, offset, content)]) (a\<lparr>fa_files := Some ?fs\<rparr>)"
      using fs \<open>unat i = ?n\<close> \<open>?n < length fs\<close>
      by (auto simp: assembling_def nth_list_update)
    with \<open>res = None\<close> a' show ?thesis
      using p(4) PickerChunk fs(6,7) assembling_skip by (fastforce simp: chunk_event_def)
  next
    case PickerEnd
    then show ?thesis using p inner fs by (auto split: if_splits)
  qed (use p inner in \<open>auto\<close>)
qed

lemma push_updates_assembling:
  assumes "assembling d r metas cs a" "push_updates us a = (Inr (Some (Selected fs)), a')"
  shows "\<exists>more rest. us = map (\<lambda>c. picker_update d r (chunk_event c)) more @ picker_update d r PickerEnd # rest
    \<and> map sf_metadata fs = metas \<and> (\<forall>i<length fs. sf_bytes (fs ! i) = content_of i (cs @ more) \<and> file_full (fs ! i))"
  using assms
proof (induction us arbitrary: cs a)
  case (Cons u us)
  show ?case
  proof (cases "assembler_push u a")
    case (Pair res b)
    with Cons.prems(2) obtain x where x: "assembler_push u a = (Inr x, b)" by (cases res) auto
    consider c where "u = picker_update d r (chunk_event c)" "x = None" "assembling d r metas (cs @ [c]) b"
      | gs where "u = picker_update d r PickerEnd" "x = Some (Selected gs)" "map sf_metadata gs = metas"
         "\<forall>i<length gs. sf_bytes (gs ! i) = content_of i cs \<and> file_full (gs ! i)"
      | "x = Some SelectionFailed"
      using push_assembling [OF Cons.prems(1) x] by blast
    then show ?thesis
    proof cases
      case 1
      with Cons.prems(2) x have "push_updates us b = (Inr (Some (Selected fs)), a')" by simp
      from Cons.IH [OF 1(3) this] obtain tail rest where
        "us = map (\<lambda>c. picker_update d r (chunk_event c)) tail @ picker_update d r PickerEnd # rest"
        "map sf_metadata fs = metas" "\<forall>i<length fs. sf_bytes (fs ! i) = content_of i ((cs @ [c]) @ tail) \<and> file_full (fs ! i)"
        by blast
      with 1(1) show ?thesis by (intro exI [of _ "c # tail"] exI [of _ rest]) simp
    next
      case 2
      with Cons.prems(2) x show ?thesis by (intro exI [of _ "[]"] exI [of _ us]) auto
    next
      case 3
      with Cons.prems(2) x show ?thesis by simp
    qed
  qed
qed simp

lemma total_size_Inr:
  "total_size acc ms = Inr n \<Longrightarrow> n = acc + (\<Sum>m\<leftarrow>ms. unat (sfm_size m)) \<and> (\<forall>m\<in>set ms. validate_file_metadata m = Inr ())"
  by (induction ms arbitrary: acc) (fastforce simp: result_simps)+

lemma file_sizes: "list_all file_full fs \<Longrightarrow> (\<Sum>f\<leftarrow>fs. length (sf_bytes f)) = (\<Sum>m\<leftarrow>map sf_metadata fs. unat (sfm_size m))"
  by (induction fs) (auto simp: file_full_def)

lemma start_push:
  assumes "assembler_push u (assembler_new d r) = (Inr None, a)"
  shows "\<exists>metas. u = picker_update d r (PickerStart metas) \<and> assembling d r metas [] a
    \<and> metas \<noteq> [] \<and> length metas \<le> MAX_FILE_PICKER_FILES \<and> (\<forall>m\<in>set metas. validate_file_metadata m = Inr ())
    \<and> (\<Sum>m\<leftarrow>metas. unat (sfm_size m)) \<le> MAX_FILE_PICKER_BYTES"
proof -
  note p = push_Inr [OF assms]
  obtain metas where e: "fpu_event u = PickerStart metas"
    and a: "a = skip_empty_files ((assembler_new d r)\<lparr>fa_files := Some (map (\<lambda>m. \<lparr>sf_metadata = m, sf_bytes = []\<rparr>) metas)\<rparr>)"
    using p(1,2) by (auto simp: push_inner_def push_chunk_def assembler_new_def split: picker_event.splits if_splits)
  have "assembling d r metas [] a"
    unfolding a by (rule assembling_skip) (auto simp: assembling_def assembler_new_def o_def)
  moreover from p(2) e obtain n where "metas \<noteq> []" "length metas \<le> MAX_FILE_PICKER_FILES"
    "total_size 0 metas = Inr n" "n \<le> MAX_FILE_PICKER_BYTES"
    by (auto simp: validate_file_picker_update_def result_simps)
  ultimately show ?thesis
    using p(4) e total_size_Inr [of 0 metas n] by (auto simp: assembler_new_def)
qed

text \<open>A selection that a renderer accepts is exactly the one its stream of updates declared and carried, in
  that document and for that request: one start, chunks, one end; as many files as declared, each with the
  bytes of the chunks sent for it and the declared size; at most eight files and four mebibytes, and no name
  that could be read as a path.\<close>

theorem selection_is_what_was_sent:
  assumes "push_updates us (assembler_new document request_id) = (Inr (Some (Selected files)), a)"
  shows "\<exists>cs rest. us = map (picker_update document request_id)
        (PickerStart (map sf_metadata files) # map chunk_event cs @ [PickerEnd]) @ rest
    \<and> (\<forall>i<length files. sf_bytes (files ! i) = content_of i cs \<and> file_full (files ! i))
    \<and> files \<noteq> [] \<and> length files \<le> MAX_FILE_PICKER_FILES
    \<and> (\<Sum>f\<leftarrow>files. length (sf_bytes f)) \<le> MAX_FILE_PICKER_BYTES
    \<and> (\<forall>f\<in>set files. \<not> names_a_path (sfm_name (sf_metadata f)))"
proof -
  obtain u vs where us: "us = u # vs" using assms by (cases us) auto
  obtain x b where x: "assembler_push u (assembler_new document request_id) = (Inr x, b)"
    using assms us by (auto split: prod.splits sum.splits)
  have "x \<noteq> Some (Selected fs)" for fs
    using push_Inr(1) [OF x] by (auto simp: push_inner_def push_chunk_def assembler_new_def split: picker_event.splits if_splits sum.splits)
  with assms us x have "x = None" and vs: "push_updates vs b = (Inr (Some (Selected files)), a)"
    by (auto split: option.splits)
  with start_push x obtain metas where metas: "u = picker_update document request_id (PickerStart metas)"
    "assembling document request_id metas [] b" "metas \<noteq> []" "length metas \<le> MAX_FILE_PICKER_FILES"
    "\<forall>m\<in>set metas. validate_file_metadata m = Inr ()" "(\<Sum>m\<leftarrow>metas. unat (sfm_size m)) \<le> MAX_FILE_PICKER_BYTES"
    by metis
  from push_updates_assembling [OF metas(2) vs] obtain cs rest where
    cs: "vs = map (\<lambda>c. picker_update document request_id (chunk_event c)) cs @ picker_update document request_id PickerEnd # rest"
      "map sf_metadata files = metas" "\<forall>i<length files. sf_bytes (files ! i) = content_of i cs \<and> file_full (files ! i)"
    by auto
  have "list_all file_full files" using cs(3) by (simp add: list_all_length)
  from file_sizes [OF this] metas(6) cs(2) have "(\<Sum>f\<leftarrow>files. length (sf_bytes f)) \<le> MAX_FILE_PICKER_BYTES" by simp
  moreover have "\<not> names_a_path (sfm_name (sf_metadata f))" if "f \<in> set files" for f
    using metas(5) cs(2) that by (auto simp: validate_file_metadata_def result_simps)
  ultimately show ?thesis
    using us metas(1,3,4) cs by (intro exI [of _ cs] exI [of _ rest]) (auto simp: o_def)
qed

section \<open>A selection arrives\<close>

text \<open>The assembler while file \<open>i\<close> is on its way and \<open>p\<close> of it has arrived.\<close>

definition arriving :: "selected_file list \<Rightarrow> nat \<Rightarrow> bytes \<Rightarrow> selected_file list" where
  "arriving files i p =
     take i files @ (case drop i files of
         [] \<Rightarrow> []
       | f # rest \<Rightarrow> f\<lparr>sf_bytes := p\<rparr> # map (\<lambda>g. g\<lparr>sf_bytes := []\<rparr>) rest)"

definition arriving_state :: "u64 \<Rightarrow> u64 \<Rightarrow> selected_file list \<Rightarrow> nat \<Rightarrow> bytes \<Rightarrow> file_assembler" where
  "arriving_state d r files i p = skip_empty_files
     \<lparr>fa_document = d, fa_request_id = r, fa_files = Some (arriving files i p), fa_next_file = i, fa_finished = False\<rparr>"

lemma arriving_nth:
  assumes "i < length files"
  shows "arriving files i p = take i files @ (files ! i)\<lparr>sf_bytes := p\<rparr> # map (\<lambda>g. g\<lparr>sf_bytes := []\<rparr>) (drop (Suc i) files)"
  using assms by (simp add: arriving_def Cons_nth_drop_Suc [symmetric])

lemma arriving_next:
  assumes "i < length files"
  shows "arriving files i (sf_bytes (files ! i)) = arriving files (Suc i) []"
proof -
  have "map (\<lambda>g. g\<lparr>sf_bytes := []\<rparr>) (drop (Suc i) files) =
      (case drop (Suc i) files of [] \<Rightarrow> [] | f # rest \<Rightarrow> f\<lparr>sf_bytes := []\<rparr> # map (\<lambda>g. g\<lparr>sf_bytes := []\<rparr>) rest)"
    by (cases "drop (Suc i) files") auto
  moreover have "take (Suc i) files = take i files @ [(files ! i)\<lparr>sf_bytes := sf_bytes (files ! i)\<rparr>]"
    using assms by (simp add: take_Suc_conv_app_nth)
  ultimately show ?thesis using assms by (simp add: arriving_nth) (simp add: arriving_def)
qed

lemma arriving_complete:
  assumes "i < length files" "file_full (files ! i)"
  shows "arriving_state d r files i (sf_bytes (files ! i)) = arriving_state d r files (Suc i) []"
proof -
  obtain X where "arriving files (Suc i) [] = take (Suc i) files @ X" by (simp add: arriving_def)
  then have X: "arriving files (Suc i) [] = take i files @ files ! i # X"
    using assms(1) by (simp add: take_Suc_conv_app_nth)
  have "drop i (arriving files (Suc i) []) = files ! i # drop (Suc i) (arriving files (Suc i) [])"
    using assms(1) by (simp add: X Suc_diff_le)
  then show ?thesis
    using assms by (simp add: arriving_state_def skip_empty_files_def arriving_next)
qed

lemma arriving_push:
  assumes "i < length files" "i < MAX_FILE_PICKER_FILES" "content \<noteq> []" "length content \<le> MAX_FILE_PICKER_CHUNK_BYTES"
    and "length p + length content \<le> unat (sfm_size (sf_metadata (files ! i)))" "r \<noteq> 0"
  shows "assembler_push (picker_update d r (PickerChunk (of_nat i) (of_nat (length p)) content)) (arriving_state d r files i p)
    = (Inr None, arriving_state d r files i (p @ content))"
proof -
  let ?f = "files ! i" and ?size = "unat (sfm_size (sf_metadata (files ! i)))"
  let ?a = "\<lparr>fa_document = d, fa_request_id = r, fa_files = Some (arriving files i p), fa_next_file = i, fa_finished = False\<rparr>"
  have nth: "arriving files i p ! i = ?f\<lparr>sf_bytes := p\<rparr>" "i < length (arriving files i p)"
    "(arriving files i p)[i := ?f\<lparr>sf_bytes := p @ content\<rparr>] = arriving files i (p @ content)"
    using assms(1) by (simp_all add: arriving_nth nth_append list_update_append)
  have "length p < ?size" using assms(3,5) by (cases content) auto
  then have a: "arriving_state d r files i p = ?a"
    using nth(1,2) by (simp add: arriving_state_def skip_empty_files_def file_full_def Cons_nth_drop_Suc [symmetric])
  have index: "unat (of_nat i :: 8 word) = i" using assms(2) by (simp add: unat_of_nat limit_simps take_bit_eq_mod)
  have size: "?size \<le> u32_max" using word_bound [of "sfm_size (sf_metadata ?f)"] by (simp add: limit_simps)
  then have offset: "unat (of_nat (length p) :: u32) = length p" using \<open>length p < ?size\<close> by (simp add: u32_length)
  have "saturating_add (length p) (length content) = length p + length content"
    using assms(5) size by (simp add: saturating_add_def limit_simps)
  then have "push_chunk (of_nat i) (of_nat (length p)) content ?a = (Inr None, arriving_state d r files i (p @ content))"
    using assms nth index offset by (simp add: push_chunk_def Let_def arriving_state_def)
  moreover have "validate_file_picker_update (picker_update d r (PickerChunk (of_nat i) (of_nat (length p)) content)) = Inr ()"
    using assms index by (simp add: validate_file_picker_update_def picker_update_def valid_when_def)
  ultimately show ?thesis
    by (simp add: a assembler_push_def push_inner_def) (simp add: picker_update_def)
qed

lemma push_updates_append:
  "push_updates us a = (Inr None, b) \<Longrightarrow> push_updates (us @ vs) a = push_updates vs b"
  by (induction us arbitrary: a) (auto split: prod.splits sum.splits option.splits)

lemma arriving_chunks:
  assumes "i < length files" "i < MAX_FILE_PICKER_FILES" "r \<noteq> 0" "p @ rest = sf_bytes (files ! i)"
    and "file_full (files ! i)"
    and "length p = k * MAX_FILE_PICKER_CHUNK_BYTES"
  shows "push_updates (map (\<lambda>(c, bs). picker_update d r (PickerChunk (of_nat i) (of_nat (c * MAX_FILE_PICKER_CHUNK_BYTES)) bs))
      (List.enumerate k (body_chunks MAX_FILE_PICKER_CHUNK_BYTES rest))) (arriving_state d r files i p)
    = (Inr None, arriving_state d r files i (sf_bytes (files ! i)))"
  using assms(4,6)
proof (induction "MAX_FILE_PICKER_CHUNK_BYTES" rest arbitrary: p k rule: body_chunks.induct)
  case (1 bs)
  let ?n = "MAX_FILE_PICKER_CHUNK_BYTES"
  have n: "max 1 ?n = ?n" "max (Suc 0) ?n = ?n" by (simp_all add: limit_simps)
  show ?case
  proof (cases "bs = []")
    case True
    with 1(2) show ?thesis by (simp add: body_chunks.simps)
  next
    case False
    let ?c = "take ?n bs"
    have len: "length p + length ?c \<le> unat (sfm_size (sf_metadata (files ! i)))"
      using 1(2) assms(5) by (auto simp: file_full_def dest: arg_cong [where f = length])
    have "?c \<noteq> []" "length ?c \<le> ?n" using False by (auto simp: limit_simps)
    from arriving_push [OF assms(1,2) this len assms(3)] 1(3)
    have step: "assembler_push (picker_update d r (PickerChunk (of_nat i) (of_nat (k * ?n)) ?c)) (arriving_state d r files i p)
        = (Inr None, arriving_state d r files i (p @ ?c))" by simp
    show ?thesis
    proof (cases "?n < length bs")
      case True
      then have "length (p @ ?c) = Suc k * ?n" using 1(3) by simp
      from 1(1) [OF False _ this] 1(2) step False show ?thesis
        by (subst body_chunks.simps) (simp add: n)
    next
      case None: False
      then have "drop ?n bs = []" "?c = bs" by simp_all
      with step 1(2) False show ?thesis
        by (subst body_chunks.simps) (simp add: n, simp add: body_chunks.simps)
    qed
  qed
qed

text \<open>C21: The files the browser sends for a selection arrive intact: the start, the chunks of at most 64
  kibibytes and the end it sends, pushed one by one into the assembler the renderer opened for the request,
  end with exactly the files that were sent, empty files included.\<close>

theorem selections_arrive_intact:
  assumes "validate_file_picker_update (picker_update document request_id (PickerStart (map sf_metadata files))) = Inr ()"
    and "list_all file_full files"
  shows "fst (push_updates (map (picker_update document request_id) (selection_events files))
      (assembler_new document request_id)) = Inr (Some (Selected files))"
proof -
  let ?u = "picker_update document request_id" and ?s = "arriving_state document request_id files"
  have id: "request_id \<noteq> 0" and few: "length files \<le> MAX_FILE_PICKER_FILES"
    using assms(1) by (auto simp: validate_file_picker_update_def picker_update_def result_simps)
  have empty: "arriving files 0 [] = map (\<lambda>m. \<lparr>sf_metadata = m, sf_bytes = []\<rparr>) (map sf_metadata files)"
    by (cases files) (auto simp: arriving_def)
  have begun: "assembler_push (?u (PickerStart (map sf_metadata files))) (assembler_new document request_id) = (Inr None, ?s 0 [])"
    using assms(1) by (simp add: assembler_push_def push_inner_def assembler_new_def arriving_state_def empty picker_update_def)
  have one: "push_updates (map ?u (chunk_events i (files ! i))) (?s i []) = (Inr None, ?s (Suc i) [])"
    if "i < length files" for i
  proof -
    have full: "file_full (files ! i)" using assms(2) that by (simp add: list_all_length)
    have "i < MAX_FILE_PICKER_FILES" using that few by simp
    from arriving_chunks [OF that this id _ full, of "[]" _ 0 document] that full show ?thesis
      by (simp add: chunk_events_def o_def case_prod_unfold arriving_complete)
  qed
  have "push_updates (map ?u (concat (map (\<lambda>(i, f). chunk_events i f) (List.enumerate (length files - n) (drop (length files - n) files)))))
      (?s (length files - n) []) = (Inr None, ?s (length files) [])" if "n \<le> length files" for n
    using that
  proof (induction n)
    case (Suc n)
    let ?i = "length files - Suc n"
    have i: "?i < length files" "Suc ?i = length files - n" using Suc.prems by auto
    then have "drop ?i files = files ! ?i # drop (length files - n) files" by (metis Cons_nth_drop_Suc)
    with Suc one [OF i(1)] i(2) show ?case by (simp add: push_updates_append)
  qed simp
  from this [of "length files"] have files: "push_updates (map ?u (concat (map (\<lambda>(i, f). chunk_events i f) (List.enumerate 0 files))))
      (?s 0 []) = (Inr None, ?s (length files) [])" by simp
  have last: "assembler_push (?u PickerEnd) (?s (length files) []) =
      (Inr (Some (Selected files)), (?s (length files) [])\<lparr>fa_files := None, fa_finished := True\<rparr>)"
    using id by (simp add: assembler_push_def push_inner_def validate_file_picker_update_def picker_update_def
        valid_when_def arriving_state_def arriving_def skip_empty_files_def)
  show ?thesis
    unfolding selection_events_def by (simp add: begun push_updates_append [OF files] last)
qed

section \<open>An example\<close>

definition sample_file :: selected_file where
  "sample_file =
     \<lparr>sf_metadata = \<lparr>sfm_name = ''a.txt'', sfm_mime_type = ''text/plain'', sfm_last_modified = 0, sfm_size = 2\<rparr>,
      sf_bytes = [1, 2]\<rparr>"

lemma sample_metadata: "validate_file_metadata (sf_metadata sample_file) = Inr ()"
  by (simp add: validate_file_metadata_def sample_file_def valid_when_def limit_simps names_a_path_def is_mime_token_def
      byte_def)

lemma sample_start: "validate_file_picker_update (picker_update 1 7 (PickerStart [sf_metadata sample_file])) = Inr ()"
  using sample_metadata
  by (simp add: validate_file_picker_update_def picker_update_def valid_when_def)
    (simp add: sample_file_def limit_simps checked_add_def)

theorem selections_arrive_intact_witness:
  "fst (push_updates (map (picker_update 1 7) (selection_events [sample_file])) (assembler_new 1 7))
    = Inr (Some (Selected [sample_file]))"
  by (rule selections_arrive_intact) (simp_all add: sample_start, simp add: sample_file_def file_full_def)

lemma sample_chunk:
  "validate_file_picker_update (picker_update 1 7 (PickerChunk 0 0 [1, 2])) = Inr ()"
  "validate_file_picker_update (picker_update 1 7 PickerEnd) = Inr ()"
  by (simp_all add: validate_file_picker_update_def picker_update_def valid_when_def limit_simps)

lemma sample_selection_run:
  "\<exists>a. push_updates (map (picker_update 1 7) [PickerStart [sf_metadata sample_file], PickerChunk 0 0 [1, 2], PickerEnd])
      (assembler_new 1 7) = (Inr (Some (Selected [sample_file])), a)"
proof -
  have f: "fpu_document (picker_update d r e) = d" "fpu_request_id (picker_update d r e) = r" "fpu_event (picker_update d r e) = e"
    for d r e by (simp_all add: picker_update_def)
  show ?thesis
    by (simp add: assembler_push_def push_inner_def sample_start sample_chunk f assembler_new_def skip_empty_files_def
        push_chunk_def file_full_def)
      (simp add: sample_file_def saturating_add_def limit_simps assembler_push_def push_inner_def sample_chunk f
        skip_empty_files_def file_full_def)
qed

theorem selection_is_what_was_sent_witness:
  "\<exists>cs. [PickerStart [sf_metadata sample_file], PickerChunk 0 0 [1, 2], PickerEnd] =
      PickerStart [sf_metadata sample_file] # map chunk_event cs @ [PickerEnd] \<and> sf_bytes sample_file = content_of 0 cs"
proof -
  obtain a where "push_updates (map (picker_update 1 7) [PickerStart [sf_metadata sample_file], PickerChunk 0 0 [1, 2], PickerEnd])
      (assembler_new 1 7) = (Inr (Some (Selected [sample_file])), a)"
    using sample_selection_run by blast
  from selection_is_what_was_sent [OF this] obtain cs rest where cs:
    "map (picker_update 1 7) [PickerStart [sf_metadata sample_file], PickerChunk 0 0 [1, 2], PickerEnd] =
      map (picker_update 1 7) (PickerStart [sf_metadata sample_file] # map chunk_event cs @ [PickerEnd]) @ rest"
    "sf_bytes sample_file = content_of 0 cs" by auto
  have inj: "picker_update 1 7 e = picker_update 1 7 e' \<longleftrightarrow> e = e'" for e e' by (simp add: picker_update_def)
  from cs(1) have "rest = []"
    by (cases cs; cases rest) (auto simp: inj chunk_event_def Cons_eq_append_conv append_eq_Cons_conv map_eq_Cons_conv)
  with cs(1) have "map (picker_update 1 7) [PickerStart [sf_metadata sample_file], PickerChunk 0 0 [1, 2], PickerEnd] =
      map (picker_update 1 7) (PickerStart [sf_metadata sample_file] # map chunk_event cs @ [PickerEnd])" by simp
  moreover have "inj (picker_update 1 7)" using inj by (auto intro: injI)
  ultimately show ?thesis using cs(2) by (auto simp only: inj_map_eq_map)
qed

end
