(* ===== verification/Ipc_Browser_Messages.thy ===== *)
theory Ipc_Browser_Messages
  imports Ipc_Kinds Ipc_Video Ipc_Input Ipc_State Ipc_Selection Ipc_Media Ipc_Services
begin

text \<open>
  The messages of the browser and the match on their kinds (\<^verbatim>\<open>renderer_protocol/message.rs\<close>,
  \<^verbatim>\<open>codec/payload.rs\<close> and the document, state and input parts of \<^verbatim>\<open>codec/payload/\<close>).
\<close>

datatype browser_message =
    GpuCanvasPolicy "u64 \<times> bool"
  | AccessibilityPolicy bool
  | Hello hello
  | Ping u64
  | Shutdown
  | ProtocolFailure string
  | BeginStreamingDocument document_start
  | AbortDocument abort_document
  | BeginDocument document_start
  | DocumentChunk transfer_chunk
  | EndDocument u64
  | FetchResponseStart response_head
  | FetchResponseChunk transfer_chunk
  | FetchResponseEnd response_end
  | FetchResponseAbort response_abort
  | AdvanceTime advance_time
  | ViewportChanged viewport_changed
  | CancelDocument u64
  | CookieSnapshot cookie_snapshot
  | StorageSnapshotStart snapshot_start
  | StorageSnapshotEntry snapshot_entry
  | StorageSnapshotEnd snapshot_end
  | StorageSync storage_sync
  | WebSocketEvent web_socket_event
  | DatabaseEvent database_event
  | SpeechUpdate speech_update
  | NotificationUpdate notification_update
  | PermissionUpdate permission_update
  | GeolocationUpdate geolocation_update
  | MediaDeviceUpdate media_device_update
  | MediaCaptureUpdate capture_update
  | MediaCaptureFrame capture_frame
  | SensorUpdate sensor_update
  | ClipboardUpdate clipboard_update
  | FilePickerUpdate file_picker_update
  | BroadcastDelivery broadcast_delivery
  | WakeLockUpdate wake_lock_update
  | Input document_input
  | PresentationAcknowledged presentation_ack
  | FullscreenResponse fullscreen_response
  | PointerLockResponse lock_response
  | TestMessage test_command

definition encode_browser_document :: "browser_message \<Rightarrow> protocol_error + frame" where
  "encode_browser_document m =
     (case m of
        BeginStreamingDocument x \<Rightarrow> with_kind 0x0107 (put_streaming_start x)
      | AbortDocument x \<Rightarrow> with_kind 0x0109 (put_abort_document x)
      | BeginDocument x \<Rightarrow> with_kind 0x0101 (put_document_start x)
      | DocumentChunk x \<Rightarrow> with_kind 0x0103 (put_transfer_chunk x)
      | EndDocument x \<Rightarrow> with_kind 0x0105 (put_document x)
      | FetchResponseStart x \<Rightarrow> with_kind 0x0111 (put_response_head x)
      | FetchResponseChunk x \<Rightarrow> with_kind 0x0113 (put_transfer_chunk x)
      | FetchResponseEnd x \<Rightarrow> with_kind 0x0115 (put_response_end x)
      | FetchResponseAbort x \<Rightarrow> with_kind 0x0117 (put_response_abort x)
      | AdvanceTime x \<Rightarrow> with_kind 0x0121 (put_advance_time x)
      | ViewportChanged x \<Rightarrow> with_kind 0x0123 (put_viewport_changed x)
      | CancelDocument x \<Rightarrow> with_kind 0x0125 (put_document x)
      | _ \<Rightarrow> Inl (InvalidPayload ''browser document message''))"

definition decode_browser_document :: "16 word \<Rightarrow> bytes \<Rightarrow> protocol_error + browser_message" where
  "decode_browser_document kind p =
     (if kind = 0x0107 then map_sum id BeginStreamingDocument (run_reader get_streaming_start p)
      else if kind = 0x0109 then map_sum id AbortDocument (run_reader get_abort_document p)
      else if kind = 0x0101 then map_sum id BeginDocument (run_reader get_document_start p)
      else if kind = 0x0103 then map_sum id DocumentChunk (run_reader get_transfer_chunk p)
      else if kind = 0x0105 then map_sum id EndDocument (run_reader get_document_id p)
      else if kind = 0x0111 then map_sum id FetchResponseStart (run_reader get_response_head p)
      else if kind = 0x0113 then map_sum id FetchResponseChunk (run_reader get_transfer_chunk p)
      else if kind = 0x0115 then map_sum id FetchResponseEnd (run_reader get_response_end p)
      else if kind = 0x0117 then map_sum id FetchResponseAbort (run_reader get_response_abort p)
      else if kind = 0x0121 then map_sum id AdvanceTime (run_reader get_advance_time p)
      else if kind = 0x0123 then map_sum id ViewportChanged (run_reader get_viewport_changed p)
      else if kind = 0x0125 then map_sum id CancelDocument (run_reader get_document_id p)
      else Inl (UnexpectedMessage (unat kind)))"

definition encode_browser_state :: "browser_message \<Rightarrow> protocol_error + frame" where
  "encode_browser_state m =
     (case m of
        CookieSnapshot x \<Rightarrow> with_kind 0x0131 (put_cookie_snapshot x)
      | StorageSnapshotStart x \<Rightarrow> with_kind 0x0133 (put_snapshot_start x)
      | StorageSnapshotEntry x \<Rightarrow> with_kind 0x0135 (put_snapshot_entry x)
      | StorageSnapshotEnd x \<Rightarrow> with_kind 0x0137 (put_snapshot_end x)
      | _ \<Rightarrow> Inl (InvalidPayload ''browser state message''))"

definition decode_browser_state :: "16 word \<Rightarrow> bytes \<Rightarrow> protocol_error + browser_message" where
  "decode_browser_state kind p =
     (if kind = 0x0131 then map_sum id CookieSnapshot (run_reader get_cookie_snapshot p)
      else if kind = 0x0133 then map_sum id StorageSnapshotStart (run_reader get_snapshot_start p)
      else if kind = 0x0135 then map_sum id StorageSnapshotEntry (run_reader get_snapshot_entry p)
      else if kind = 0x0137 then map_sum id StorageSnapshotEnd (run_reader get_snapshot_end p)
      else Inl (UnexpectedMessage (unat kind)))"

definition encode_browser_input :: "browser_message \<Rightarrow> protocol_error + frame" where
  "encode_browser_input m =
     (case m of
        PresentationAcknowledged x \<Rightarrow> with_kind 0x014d (put_presentation_ack x)
      | FullscreenResponse x \<Rightarrow> with_kind 0x014f (put_fullscreen_response x)
      | PointerLockResponse x \<Rightarrow> with_kind 0x0153 (put_lock_response x)
      | Input x \<Rightarrow> encode_input x
      | _ \<Rightarrow> Inl (InvalidPayload ''browser input message''))"

definition decode_browser_input :: "16 word \<Rightarrow> bytes \<Rightarrow> protocol_error + browser_message" where
  "decode_browser_input kind p =
     (if kind = 0x014d then map_sum id PresentationAcknowledged (run_reader get_presentation_ack p)
      else if kind = 0x014f then map_sum id FullscreenResponse (run_reader get_fullscreen_response p)
      else if kind = 0x0153 then map_sum id PointerLockResponse (run_reader get_lock_response p)
      else map_sum id Input (decode_input kind p))"

definition encode_browser :: "browser_message \<Rightarrow> protocol_error + frame" where
  "encode_browser m =
     (case m of
        GpuCanvasPolicy x \<Rightarrow> with_kind 0x0251 (encode_gpu_canvas x)
      | AccessibilityPolicy x \<Rightarrow> with_kind 0x0253 (encode_accessibility x)
      | Hello x \<Rightarrow> with_kind 1 (encode_hello x)
      | Ping x \<Rightarrow> with_kind 3 (encode_token x)
      | Shutdown \<Rightarrow> with_kind 5 (encode_empty ())
      | ProtocolFailure x \<Rightarrow> with_kind 7 (encode_text x)
      | StorageSync x \<Rightarrow> with_kind 0x0138 (put_storage_sync x)
      | WebSocketEvent x \<Rightarrow> with_kind 0x0171 (encode_web_socket_event x)
      | DatabaseEvent x \<Rightarrow> with_kind 0x0181 (encode_database_event x)
      | SpeechUpdate x \<Rightarrow> with_kind 0x0191 (encode_speech_update x)
      | NotificationUpdate x \<Rightarrow> with_kind 0x01a1 (encode_notification_update x)
      | PermissionUpdate x \<Rightarrow> with_kind 0x0221 (encode_permission_update x)
      | GeolocationUpdate x \<Rightarrow> with_kind 0x01b1 (encode_geolocation_update x)
      | MediaDeviceUpdate x \<Rightarrow> with_kind 0x01c1 (encode_media_device_update x)
      | MediaCaptureUpdate x \<Rightarrow> with_kind 0x0231 (encode_capture_update x)
      | MediaCaptureFrame x \<Rightarrow> with_kind 0x0233 (encode_capture_frame x)
      | SensorUpdate x \<Rightarrow> with_kind 0x01d1 (encode_sensor_update x)
      | ClipboardUpdate x \<Rightarrow> with_kind 0x01f1 (encode_clipboard_update x)
      | FilePickerUpdate x \<Rightarrow> with_kind 0x0241 (encode_file_picker_update x)
      | BroadcastDelivery x \<Rightarrow> with_kind 0x0201 (encode_broadcast_delivery x)
      | WakeLockUpdate x \<Rightarrow> with_kind 0x0211 (encode_wake_lock_update x)
      | TestMessage x \<Rightarrow> with_kind 0x8001 (Inr (encode_test_command x))
      | BeginStreamingDocument _ \<Rightarrow> encode_browser_document m
      | AbortDocument _ \<Rightarrow> encode_browser_document m
      | BeginDocument _ \<Rightarrow> encode_browser_document m
      | DocumentChunk _ \<Rightarrow> encode_browser_document m
      | EndDocument _ \<Rightarrow> encode_browser_document m
      | FetchResponseStart _ \<Rightarrow> encode_browser_document m
      | FetchResponseChunk _ \<Rightarrow> encode_browser_document m
      | FetchResponseEnd _ \<Rightarrow> encode_browser_document m
      | FetchResponseAbort _ \<Rightarrow> encode_browser_document m
      | AdvanceTime _ \<Rightarrow> encode_browser_document m
      | ViewportChanged _ \<Rightarrow> encode_browser_document m
      | CancelDocument _ \<Rightarrow> encode_browser_document m
      | CookieSnapshot _ \<Rightarrow> encode_browser_state m
      | StorageSnapshotStart _ \<Rightarrow> encode_browser_state m
      | StorageSnapshotEntry _ \<Rightarrow> encode_browser_state m
      | StorageSnapshotEnd _ \<Rightarrow> encode_browser_state m
      | Input _ \<Rightarrow> encode_browser_input m
      | PresentationAcknowledged _ \<Rightarrow> encode_browser_input m
      | FullscreenResponse _ \<Rightarrow> encode_browser_input m
      | PointerLockResponse _ \<Rightarrow> encode_browser_input m)"

definition decode_browser :: "16 word \<Rightarrow> bytes \<Rightarrow> protocol_error + browser_message" where
  "decode_browser kind p =
     (if kind = 0x0251 then map_sum id GpuCanvasPolicy (decode_gpu_canvas p)
      else if kind = 0x0253 then map_sum id AccessibilityPolicy (decode_accessibility p)
      else if kind = 1 then map_sum id Hello (decode_hello p)
      else if kind = 3 then map_sum id Ping (decode_token p)
      else if kind = 5 then map_sum id (\<lambda>_. Shutdown) (decode_empty p)
      else if kind = 7 then map_sum id ProtocolFailure (decode_text p)
      else if kind \<in> {0x0101, 0x0103, 0x0105, 0x0107, 0x0109, 0x0111, 0x0113, 0x0115, 0x0117, 0x0121, 0x0123, 0x0125}
      then decode_browser_document kind p
      else if kind \<in> {0x0131, 0x0133, 0x0135, 0x0137} then decode_browser_state kind p
      else if kind = 0x0138 then map_sum id StorageSync (decode_storage_sync p)
      else if kind = 0x0171 then map_sum id WebSocketEvent (decode_web_socket_event p)
      else if kind = 0x0181 then map_sum id DatabaseEvent (decode_database_event p)
      else if kind = 0x0191 then map_sum id SpeechUpdate (decode_speech_update p)
      else if kind = 0x01a1 then map_sum id NotificationUpdate (decode_notification_update p)
      else if kind = 0x0221 then map_sum id PermissionUpdate (decode_permission_update p)
      else if kind = 0x01b1 then map_sum id GeolocationUpdate (decode_geolocation_update p)
      else if kind = 0x01c1 then map_sum id MediaDeviceUpdate (decode_media_device_update p)
      else if kind = 0x0231 then map_sum id MediaCaptureUpdate (decode_capture_update p)
      else if kind = 0x0233 then map_sum id MediaCaptureFrame (decode_capture_frame p)
      else if kind = 0x01d1 then map_sum id SensorUpdate (decode_sensor_update p)
      else if kind = 0x01f1 then map_sum id ClipboardUpdate (decode_clipboard_update p)
      else if kind = 0x0241 then map_sum id FilePickerUpdate (decode_file_picker_update p)
      else if kind = 0x0201 then map_sum id BroadcastDelivery (decode_broadcast_delivery p)
      else if kind = 0x0211 then map_sum id WakeLockUpdate (decode_wake_lock_update p)
      else if kind \<in> {0x0141, 0x0143, 0x0145, 0x0147, 0x0149, 0x014b, 0x014d, 0x014f, 0x0151, 0x0153, 0x0155, 0x0157, 0x0159}
      then decode_browser_input kind p
      else if kind = 0x8001 then map_sum id TestMessage (decode_test_command p)
      else Inl (UnexpectedMessage (unat kind)))"

definition browser_fits :: "browser_message \<Rightarrow> bool" where
  "browser_fits m = (case m of
     GpuCanvasPolicy x \<Rightarrow> fst x \<noteq> 0
   | Hello x \<Rightarrow> hello_fits x
   | ProtocolFailure x \<Rightarrow> text_fits x
   | BeginStreamingDocument x \<Rightarrow> document_start_fits x
   | AbortDocument x \<Rightarrow> abort_document_fits x
   | BeginDocument x \<Rightarrow> document_start_fits x
   | DocumentChunk x \<Rightarrow> transfer_chunk_fits x
   | EndDocument x \<Rightarrow> x \<noteq> 0
   | FetchResponseStart x \<Rightarrow> response_head_fits x
   | FetchResponseChunk x \<Rightarrow> transfer_chunk_fits x
   | FetchResponseEnd x \<Rightarrow> response_end_fits x
   | FetchResponseAbort x \<Rightarrow> response_abort_fits x
   | AdvanceTime x \<Rightarrow> advance_time_fits x
   | ViewportChanged x \<Rightarrow> viewport_changed_fits x
   | CancelDocument x \<Rightarrow> x \<noteq> 0
   | CookieSnapshot x \<Rightarrow> cookie_snapshot_fits x
   | StorageSnapshotStart x \<Rightarrow> snapshot_start_fits x
   | StorageSnapshotEntry x \<Rightarrow> snapshot_entry_fits x
   | StorageSnapshotEnd x \<Rightarrow> snapshot_end_fits x
   | StorageSync x \<Rightarrow> storage_sync_fits x
   | WebSocketEvent x \<Rightarrow> web_socket_event_fits x
   | DatabaseEvent x \<Rightarrow> database_event_fits x
   | SpeechUpdate x \<Rightarrow> speech_update_fits x
   | NotificationUpdate x \<Rightarrow> notification_update_fits x
   | PermissionUpdate x \<Rightarrow> permission_update_fits x
   | GeolocationUpdate x \<Rightarrow> geolocation_update_fits x
   | MediaDeviceUpdate x \<Rightarrow> media_device_update_fits x
   | MediaCaptureUpdate x \<Rightarrow> capture_update_fits x
   | MediaCaptureFrame x \<Rightarrow> capture_frame_fits x
   | SensorUpdate x \<Rightarrow> sensor_update_fits x
   | ClipboardUpdate x \<Rightarrow> clipboard_update_fits x
   | FilePickerUpdate x \<Rightarrow> file_picker_update_fits x
   | BroadcastDelivery x \<Rightarrow> broadcast_delivery_fits x
   | WakeLockUpdate x \<Rightarrow> wake_lock_update_fits x
   | Input x \<Rightarrow> input_fits x
   | PresentationAcknowledged x \<Rightarrow> presentation_ack_fits x
   | FullscreenResponse x \<Rightarrow> fullscreen_response_fits x
   | PointerLockResponse x \<Rightarrow> lock_response_fits x
   | _ \<Rightarrow> True)"

section \<open>Exactness of the match on kinds\<close>

lemma decode_text_iff: "length p \<le> MAX_CONTROL_PAYLOAD \<Longrightarrow> decode_text p = Inr s \<longleftrightarrow> text_fits s \<and> encode_text s = Inr p"
  by (auto simp: decode_text_Inr encode_text_def text_fits_def)

lemma decode_browser_document_Inr:
  assumes "length p \<le> u64_max"
  shows "decode_browser_document kind p = Inr m \<longleftrightarrow>
    (case m of
       BeginStreamingDocument x \<Rightarrow> kind = 0x0107 \<and> document_start_fits x \<and> put_streaming_start x = Inr p
     | AbortDocument x \<Rightarrow> kind = 0x0109 \<and> abort_document_fits x \<and> put_abort_document x = Inr p
     | BeginDocument x \<Rightarrow> kind = 0x0101 \<and> document_start_fits x \<and> put_document_start x = Inr p
     | DocumentChunk x \<Rightarrow> kind = 0x0103 \<and> transfer_chunk_fits x \<and> put_transfer_chunk x = Inr p
     | EndDocument x \<Rightarrow> kind = 0x0105 \<and> x \<noteq> 0 \<and> put_document x = Inr p
     | FetchResponseStart x \<Rightarrow> kind = 0x0111 \<and> response_head_fits x \<and> put_response_head x = Inr p
     | FetchResponseChunk x \<Rightarrow> kind = 0x0113 \<and> transfer_chunk_fits x \<and> put_transfer_chunk x = Inr p
     | FetchResponseEnd x \<Rightarrow> kind = 0x0115 \<and> response_end_fits x \<and> put_response_end x = Inr p
     | FetchResponseAbort x \<Rightarrow> kind = 0x0117 \<and> response_abort_fits x \<and> put_response_abort x = Inr p
     | AdvanceTime x \<Rightarrow> kind = 0x0121 \<and> advance_time_fits x \<and> put_advance_time x = Inr p
     | ViewportChanged x \<Rightarrow> kind = 0x0123 \<and> viewport_changed_fits x \<and> put_viewport_changed x = Inr p
     | CancelDocument x \<Rightarrow> kind = 0x0125 \<and> x \<noteq> 0 \<and> put_document x = Inr p
     | _ \<Rightarrow> False)"
  unfolding decode_browser_document_def
  by (cases m) (simp_all add: tagged_Inr
    streaming_start.decode_iff [OF assms] abort_document.decode_iff [OF assms]
    document_start.decode_iff [OF assms] transfer_chunk.decode_iff [OF assms]
    document_only.decode_iff [OF assms] response_head.decode_iff [OF assms] response_end.decode_iff [OF assms]
    response_abort.decode_iff [OF assms] advance_time.decode_iff [OF assms]
    viewport_changed.decode_iff [OF assms])

lemma decode_browser_state_Inr:
  assumes "length p \<le> u64_max"
  shows "decode_browser_state kind p = Inr m \<longleftrightarrow>
    (case m of
       CookieSnapshot x \<Rightarrow> kind = 0x0131 \<and> cookie_snapshot_fits x \<and> put_cookie_snapshot x = Inr p
     | StorageSnapshotStart x \<Rightarrow> kind = 0x0133 \<and> snapshot_start_fits x \<and> put_snapshot_start x = Inr p
     | StorageSnapshotEntry x \<Rightarrow> kind = 0x0135 \<and> snapshot_entry_fits x \<and> put_snapshot_entry x = Inr p
     | StorageSnapshotEnd x \<Rightarrow> kind = 0x0137 \<and> snapshot_end_fits x \<and> put_snapshot_end x = Inr p
     | _ \<Rightarrow> False)"
  unfolding decode_browser_state_def
  by (cases m) (simp_all add: tagged_Inr
    cookie_snapshot.decode_iff [OF assms] snapshot_start.decode_iff [OF assms]
    snapshot_entry.decode_iff [OF assms] snapshot_end.decode_iff [OF assms])

lemma input_kinds: "encode_input x = Inr (kind, p) \<Longrightarrow>
    kind \<in> {0x0141, 0x0143, 0x0145, 0x0147, 0x0149, 0x014b, 0x0151, 0x0155, 0x0157, 0x0159}"
  by (cases x) (auto simp: encode_input_def input_fields_def result_simps tagged_Inr)

lemma decode_browser_input_Inr:
  assumes "length p \<le> u64_max"
  shows "decode_browser_input kind p = Inr m \<longleftrightarrow>
    (case m of
       PresentationAcknowledged x \<Rightarrow> kind = 0x014d \<and> presentation_ack_fits x \<and> put_presentation_ack x = Inr p
     | FullscreenResponse x \<Rightarrow> kind = 0x014f \<and> fullscreen_response_fits x \<and> put_fullscreen_response x = Inr p
     | PointerLockResponse x \<Rightarrow> kind = 0x0153 \<and> lock_response_fits x \<and> put_lock_response x = Inr p
     | Input x \<Rightarrow> input_fits x \<and> encode_input x = Inr (kind, p)
     | _ \<Rightarrow> False)"
proof -
  show ?thesis
    unfolding decode_browser_input_def
    by (cases m) (auto simp: tagged_Inr presentation_ack.decode_iff [OF assms] fullscreen_response.decode_iff [OF assms]
        lock_response.decode_iff [OF assms] decode_input_iff [OF assms] dest: input_kinds)
qed

lemma decode_browser_iff:
  assumes "length p \<le> payload_limit kind"
  shows "decode_browser kind p = Inr m \<longleftrightarrow> browser_fits m \<and> encode_browser m = Inr (kind, p)"
proof -
  have b: "length p \<le> u64_max"
    using assms payload_limit_bound [of kind] by (simp add: u32_max_def u64_max_def)
  have failure: "kind = 7 \<Longrightarrow> decode_text p = Inr s \<longleftrightarrow> text_fits s \<and> encode_text s = Inr p" for s
    using assms by (intro decode_text_iff) (simp add: payload_limit_def)
  note pieces = failure decode_browser_document_Inr [OF b] decode_browser_state_Inr [OF b] decode_browser_input_Inr [OF b]
  show ?thesis
    unfolding decode_browser_def
    apply (cases m)
    apply (simp_all add: tagged_Inr with_kind_Inr pieces browser_fits_def encode_browser_def encode_browser_document_def encode_browser_state_def encode_browser_input_def
    gpu_canvas.decode_iff [OF b] accessibility.decode_iff [OF b] hello.decode_iff [OF b]
    token.decode_iff [OF b] empty.decode_iff [OF b] storage_sync.decode_iff [OF b]
    web_socket_event.decode_iff [OF b] database_event.decode_iff [OF b] speech_update.decode_iff [OF b]
    notification_update.decode_iff [OF b] permission_update.decode_iff [OF b]
    geolocation_update.decode_iff [OF b] media_device_update.decode_iff [OF b] capture_update.decode_iff [OF b]
    capture_frame.decode_iff [OF b] sensor_update.decode_iff [OF b] clipboard_update.decode_iff [OF b]
    file_picker_update.decode_iff [OF b] broadcast_delivery.decode_iff [OF b]
    wake_lock_update.decode_iff [OF b] test_command.decode_iff [OF b])
    apply (auto dest: input_kinds)
    done
qed

end
