(* ===== verification/Ipc_Runtime.thy ===== *)
theory Ipc_Runtime
  imports Ipc_Input
begin

text \<open>
  The report on a document's run that a renderer sends after each task (\<^verbatim>\<open>renderer_protocol/presentation.rs\<close>,
  \<^verbatim>\<open>presentation/runtime_codec.rs\<close>, \<^verbatim>\<open>presentation/wheel.rs\<close>): errors and console output, a requested
  navigation, scroll offsets, wheel verdicts, history actions, rejected text, media state and load statistics.
\<close>

definition MAX_RUNTIME_REPORT_ENTRIES :: nat where [limit_simps]: "MAX_RUNTIME_REPORT_ENTRIES = 512"

definition MAX_RUNTIME_REPORT_TEXT_BYTES :: nat where [limit_simps]: "MAX_RUNTIME_REPORT_TEXT_BYTES = 64 * 1024"

definition MAX_FORM_BODY_BYTES :: nat where [limit_simps]: "MAX_FORM_BODY_BYTES = 5 * 1024 * 1024"

definition MAX_WHEEL_ACKNOWLEDGEMENTS :: nat where [limit_simps]: "MAX_WHEEL_ACKNOWLEDGEMENTS = 128"

section \<open>Fields\<close>

text \<open>A field that is refused when it does not satisfy \<open>good\<close>, by its reader and by its writer.\<close>

definition get_if :: "('a \<Rightarrow> bool) \<Rightarrow> string \<Rightarrow> 'a reading \<Rightarrow> 'a reading" where
  "get_if good e f = read_bind f (\<lambda>x. if good x then read_ok x else read_fail e)"

definition put_if :: "('a \<Rightarrow> bool) \<Rightarrow> string \<Rightarrow> ('a \<Rightarrow> protocol_error + bytes) \<Rightarrow> 'a \<Rightarrow> protocol_error + bytes" where
  "put_if good e put x = and_then (valid_when (good x) e) (\<lambda>_. put x)"

text \<open>An offset in pixels: finite and not negative. Adding nothing, \<open>0\<close> and \<open>-0\<close> are equal.\<close>

definition offset_ok :: "u32 \<Rightarrow> bool" where
  "offset_ok y \<longleftrightarrow> f32_is_finite y \<and> 0 \<le> f32_key y"

definition put_report_text :: "string \<Rightarrow> string \<Rightarrow> protocol_error + bytes" where
  "put_report_text e = put_if (\<lambda>s. length s \<le> MAX_RUNTIME_REPORT_TEXT_BYTES) e put_string"

definition put_report_texts :: "string \<Rightarrow> string list \<Rightarrow> protocol_error + bytes" where
  "put_report_texts e = put_if (\<lambda>xs. length xs \<le> MAX_RUNTIME_REPORT_ENTRIES) e
     (\<lambda>xs. and_then (put_each (put_report_text ''runtime report text'') xs) (\<lambda>b. Inr (put_u32 (of_nat (length xs)) @ b)))"

definition get_report_texts :: "string list reading" where
  "get_report_texts = read_bind get_u32 (\<lambda>n.
     if unat n > MAX_RUNTIME_REPORT_ENTRIES then read_fail ''runtime report count''
     else read_times (unat n) (get_string MAX_RUNTIME_REPORT_TEXT_BYTES))"

definition report_texts_fits :: "string list \<Rightarrow> bool" where
  "report_texts_fits xs \<longleftrightarrow> \<not> length xs > MAX_RUNTIME_REPORT_ENTRIES
     \<and> list_all (\<lambda>s. is_utf8 s \<and> length s \<le> MAX_RUNTIME_REPORT_TEXT_BYTES) xs"

section \<open>Wheel verdicts\<close>

datatype wheel_decision = WheelCancelled | WheelNestedScroll | WheelViewport | WheelNoMotion

fun wheel_decision_tag :: "wheel_decision \<Rightarrow> 8 word" where
  "wheel_decision_tag WheelCancelled = 1"
| "wheel_decision_tag WheelNestedScroll = 2"
| "wheel_decision_tag WheelViewport = 3"
| "wheel_decision_tag WheelNoMotion = 4"

definition get_wheel_decision :: "wheel_decision reading" where
  "get_wheel_decision = read_bind get_u8 (\<lambda>t.
     if t = 1 then read_ok WheelCancelled
     else if t = 2 then read_ok WheelNestedScroll
     else if t = 3 then read_ok WheelViewport
     else if t = 4 then read_ok WheelNoMotion
     else read_fail ''wheel decision'')"

record wheel_ack =
  wha_sequence :: u64
  wha_decision :: wheel_decision
  wha_viewport_delta_y :: u32
  wha_dispatch_micros :: u64

definition put_wheel_ack :: "wheel_ack \<Rightarrow> bytes" where
  "put_wheel_ack m = put_u64 (wha_sequence m) @ put_u8 (wheel_decision_tag (wha_decision m)) @ put_u32 (wha_viewport_delta_y m) @ put_u64 (wha_dispatch_micros m)"

definition get_wheel_ack :: "wheel_ack reading" where
  "get_wheel_ack =
     read_bind get_u64 (\<lambda>sequence. read_bind get_wheel_decision (\<lambda>decision.
     read_bind get_u32 (\<lambda>viewport_delta_y. read_bind get_u64 (\<lambda>dispatch_micros.
       read_ok \<lparr>wha_sequence = sequence, wha_decision = decision, wha_viewport_delta_y = viewport_delta_y, wha_dispatch_micros = dispatch_micros\<rparr>))))"

definition put_wheel_ack_list :: "wheel_ack list \<Rightarrow> protocol_error + bytes" where
  "put_wheel_ack_list xs = and_then (put_each (\<lambda>w. Inr (put_wheel_ack w)) xs) (\<lambda>b. Inr (put_u32 (of_nat (length xs)) @ b))"

definition get_wheel_ack_list :: "wheel_ack list reading" where
  "get_wheel_ack_list = read_bind get_u32 (\<lambda>count.
     if unat count > MAX_WHEEL_ACKNOWLEDGEMENTS then read_fail ''wheel acknowledgements'' else read_times (unat count) get_wheel_ack)"

definition wheel_ack_list_fits :: "wheel_ack list \<Rightarrow> bool" where
  "wheel_ack_list_fits xs \<longleftrightarrow> \<not> (length xs > MAX_WHEEL_ACKNOWLEDGEMENTS) \<and> list_all (\<lambda>w. True) xs"

definition wheel_acks_ok :: "wheel_ack list \<Rightarrow> bool" where
  "wheel_acks_ok xs \<longleftrightarrow> \<not> (length xs > MAX_WHEEL_ACKNOWLEDGEMENTS
     \<or> (xs \<noteq> [] \<and> wha_sequence (hd xs) = 0)
     \<or> list_ex (\<lambda>(a, b). wha_sequence a \<ge> wha_sequence b) (zip xs (tl xs))
     \<or> list_ex (\<lambda>a. \<not> f32_is_finite (wha_viewport_delta_y a)
          \<or> (wha_decision a \<noteq> WheelViewport \<and> f32_key (wha_viewport_delta_y a) \<noteq> 0)) xs)"

definition put_wheel_acks :: "wheel_ack list \<Rightarrow> protocol_error + bytes" where
  "put_wheel_acks = put_if wheel_acks_ok ''wheel acknowledgements'' put_wheel_ack_list"

definition get_wheel_acks :: "wheel_ack list reading" where
  "get_wheel_acks = get_if wheel_acks_ok ''wheel acknowledgements'' get_wheel_ack_list"

definition wheel_acks_fits :: "wheel_ack list \<Rightarrow> bool" where
  "wheel_acks_fits xs \<longleftrightarrow> wheel_acks_ok xs \<and> wheel_ack_list_fits xs"

section \<open>Requested navigations\<close>

record form_post =
  fmp_content_type :: string
  fmp_body :: bytes

definition put_form_post :: "form_post \<Rightarrow> protocol_error + bytes" where
  "put_form_post m =
     and_then (put_string (fmp_content_type m)) (\<lambda>b_content_type.
     and_then (put_bytes (fmp_body m)) (\<lambda>b_body.
       Inr (b_content_type @ b_body)))"

definition get_form_post :: "form_post reading" where
  "get_form_post =
     read_bind (get_string (256)) (\<lambda>content_type.
     read_bind (get_bytes MAX_FORM_BODY_BYTES) (\<lambda>body.
       read_ok \<lparr>fmp_content_type = content_type, fmp_body = body\<rparr>))"

definition form_post_fits :: "form_post \<Rightarrow> bool" where
  "form_post_fits m \<longleftrightarrow> (is_utf8 (fmp_content_type m) \<and> length (fmp_content_type m) \<le> 256) \<and> length (fmp_body m) \<le> MAX_FORM_BODY_BYTES"

record navigation_options =
  nvo_target :: string
  nvo_noreferrer :: bool
  nvo_replace_history :: bool
  nvo_user_initiated :: bool
  nvo_form_submission :: bool
  nvo_post :: "form_post option"

definition validate_navigation_options :: "navigation_options \<Rightarrow> protocol_error + unit" where
  "validate_navigation_options m =
     and_then (valid_when (length (nvo_target m) \<le> 1024 \<and> CHR 0x00 \<notin> set (nvo_target m)) ''invalid navigation target'') (\<lambda>_.
     case nvo_post m of
       None \<Rightarrow> Inr ()
     | Some post \<Rightarrow>
         and_then (valid_when (length (fmp_body post) \<le> MAX_FORM_BODY_BYTES) ''form submission exceeds the 5 MiB body limit'') (\<lambda>_.
         valid_when (length (fmp_content_type post) \<le> 256
             \<and> set (fmp_content_type post) \<inter> {CHR 0x0d, CHR 0x0a, CHR 0x00} = {}
             \<and> (fmp_content_type post = ''application/x-www-form-urlencoded'' \<or> fmp_content_type post = ''text/plain''
                \<or> starts_with (fmp_content_type post) ''multipart/form-data; boundary=''))
           ''invalid form submission content type''))"

definition default_navigation_options :: navigation_options where
  "default_navigation_options = \<lparr>nvo_target = '''', nvo_noreferrer = False, nvo_replace_history = False,
     nvo_user_initiated = False, nvo_form_submission = False, nvo_post = None\<rparr>"

definition put_navigation_options :: "navigation_options \<Rightarrow> protocol_error + bytes" where
  "put_navigation_options m =
     and_then (validate_navigation_options m) (\<lambda>_.
     and_then (put_string (nvo_target m)) (\<lambda>b_target.
     and_then (put_optional (\<lambda>w. put_form_post w) (nvo_post m)) (\<lambda>b_post.
       Inr (b_target @ put_bool (nvo_noreferrer m) @ put_bool (nvo_replace_history m) @
         put_bool (nvo_user_initiated m) @ put_bool (nvo_form_submission m) @ b_post))))"

definition get_navigation_options :: "navigation_options reading" where
  "get_navigation_options =
     read_bind (get_string (1024)) (\<lambda>target. read_bind get_bool (\<lambda>noreferrer.
     read_bind get_bool (\<lambda>replace_history. read_bind get_bool (\<lambda>user_initiated.
     read_bind get_bool (\<lambda>form_submission. read_bind (get_optional get_form_post) (\<lambda>post.
       read_result (checked validate_navigation_options \<lparr>nvo_target = target, nvo_noreferrer = noreferrer, nvo_replace_history = replace_history, nvo_user_initiated = user_initiated, nvo_form_submission = form_submission, nvo_post = post\<rparr>)))))))"

definition navigation_options_fits :: "navigation_options \<Rightarrow> bool" where
  "navigation_options_fits m \<longleftrightarrow> (is_utf8 (nvo_target m) \<and> length (nvo_target m) \<le> 1024) \<and> pred_option (\<lambda>w. form_post_fits w) (nvo_post m)"

text \<open>The options follow only when there is a URL; otherwise a reader has the default ones.\<close>

definition put_navigation :: "string option \<times> navigation_options \<Rightarrow> protocol_error + bytes" where
  "put_navigation n =
     (case fst n of
        None \<Rightarrow> Inr (put_bool False)
      | Some url \<Rightarrow> and_then (put_string url) (\<lambda>b_url. and_then (put_navigation_options (snd n)) (\<lambda>b_options.
          Inr (put_bool True @ b_url @ b_options))))"

definition get_navigation :: "(string option \<times> navigation_options) reading" where
  "get_navigation = read_bind (get_optional (get_string MAX_URL_BYTES)) (\<lambda>url.
     if url \<noteq> None then read_bind get_navigation_options (\<lambda>options. read_ok (url, options))
     else read_ok (url, default_navigation_options))"

definition navigation_fits :: "string option \<times> navigation_options \<Rightarrow> bool" where
  "navigation_fits n \<longleftrightarrow>
     (case fst n of
        None \<Rightarrow> snd n = default_navigation_options
      | Some url \<Rightarrow> (is_utf8 url \<and> length url \<le> MAX_URL_BYTES) \<and> navigation_options_fits (snd n))"

section \<open>History actions and rejected text\<close>

datatype history_action =
    HistoryUpdate string bool "string option" u32
  | HistoryTraverse u32
  | SetScrollRestoration scroll_restoration

text \<open>The fields of an action, without the checks of the encoder: the decoder accepts an update with an empty URL,
  which \<open>encode_history_action\<close> refuses. The delta of a traversal is an \<^verbatim>\<open>i32\<close>, read by \<open>sint\<close>.\<close>

definition put_history_action :: "history_action \<Rightarrow> protocol_error + bytes" where
  "put_history_action a =
     (case a of
        HistoryUpdate url replace state scroll_y \<Rightarrow>
          and_then (put_string url) (\<lambda>b_url.
          and_then (put_optional (\<lambda>w. put_string w) state) (\<lambda>b_state.
            Inr (put_u8 1 @ b_url @ put_bool replace @ b_state @ put_u32 scroll_y)))
      | HistoryTraverse delta \<Rightarrow>
          Inr (put_u8 2 @ put_u32 delta)
      | SetScrollRestoration mode \<Rightarrow>
          Inr (put_u8 3 @ put_u8 (scroll_restoration_tag mode)))"

definition get_history_action :: "history_action reading" where
  "get_history_action = read_bind get_u8 (\<lambda>t.
     if t = 1 then
       read_bind (get_string MAX_URL_BYTES) (\<lambda>url. read_bind get_bool (\<lambda>replace.
       read_bind (get_optional (get_string MAX_HISTORY_STATE_BYTES)) (\<lambda>state.
       read_bind (get_if offset_ok ''history scroll position'' get_u32) (\<lambda>scroll_y.
         read_ok (HistoryUpdate url replace state scroll_y)))))
     else if t = 2 then
       read_bind get_u32 (\<lambda>delta.
         read_ok (HistoryTraverse delta))
     else if t = 3 then
       read_bind get_scroll_restoration (\<lambda>mode.
         read_ok (SetScrollRestoration mode))
     else read_fail ''history action tag'')"

definition history_action_fits :: "history_action \<Rightarrow> bool" where
  "history_action_fits a = (case a of
     HistoryUpdate url replace state scroll_y \<Rightarrow> (is_utf8 url \<and> length url \<le> MAX_URL_BYTES) \<and> (pred_option (\<lambda>w. is_utf8 w \<and> length w \<le> MAX_HISTORY_STATE_BYTES) state) \<and> offset_ok scroll_y
   | _ \<Rightarrow> True)"

definition history_action_ok :: "history_action \<Rightarrow> bool" where
  "history_action_ok a = (case a of
     HistoryUpdate url replace state scroll_y \<Rightarrow> \<not> (url = '''' \<or> length url > MAX_URL_BYTES \<or> \<not> f32_is_finite scroll_y
       \<or> f32_key scroll_y < 0 \<or> \<not> pred_option (\<lambda>v. length v \<le> MAX_HISTORY_STATE_BYTES) state)
   | _ \<Rightarrow> True)"

definition encode_history_action :: "history_action \<Rightarrow> protocol_error + bytes" where
  "encode_history_action = put_if history_action_ok ''history update'' put_history_action"

text \<open>The list of actions, with the writer of an action as a parameter.\<close>

definition put_history_actions :: "(history_action \<Rightarrow> protocol_error + bytes) \<Rightarrow> history_action list \<Rightarrow> protocol_error + bytes" where
  "put_history_actions put = put_if (\<lambda>xs. length xs \<le> MAX_RUNTIME_REPORT_ENTRIES) ''history action count''
     (\<lambda>xs. and_then (put_each put xs) (\<lambda>b. Inr (put_u32 (of_nat (length xs)) @ b)))"

definition get_history_actions :: "history_action list reading" where
  "get_history_actions = read_bind get_u32 (\<lambda>n.
     if unat n > MAX_RUNTIME_REPORT_ENTRIES then read_fail ''history action count'' else read_times (unat n) get_history_action)"

definition history_actions_fits :: "history_action list \<Rightarrow> bool" where
  "history_actions_fits xs \<longleftrightarrow> \<not> length xs > MAX_RUNTIME_REPORT_ENTRIES \<and> list_all history_action_fits xs"

record text_rejection =
  ntr_sequence :: u64
  ntr_generation :: u32
  ntr_target :: u128
  ntr_value :: string
  ntr_selection_start :: u32
  ntr_selection_end :: u32

definition validate_text_rejection :: "text_rejection \<Rightarrow> protocol_error + unit" where
  "validate_text_rejection m = valid_when (ntr_sequence m \<noteq> 0 \<and> length (ntr_value m) \<le> MAX_RENDERER_TEXT_INPUT_BYTES
     \<and> ntr_selection_start m \<le> ntr_selection_end m \<and> unat (ntr_selection_end m) \<le> utf16_count (ntr_value m)) ''native text rejection''"

definition put_text_rejection :: "text_rejection \<Rightarrow> protocol_error + bytes" where
  "put_text_rejection m =
     and_then (validate_text_rejection m) (\<lambda>_.
     and_then (put_string (ntr_value m)) (\<lambda>b_value.
       Inr (put_u64 (ntr_sequence m) @ put_u32 (ntr_generation m) @ put_u128 (ntr_target m) @ b_value @
         put_u32 (ntr_selection_start m) @ put_u32 (ntr_selection_end m))))"

definition get_text_rejection :: "text_rejection reading" where
  "get_text_rejection =
     read_bind get_u64 (\<lambda>sequence. read_bind get_u32 (\<lambda>generation.
     read_bind get_node_id (\<lambda>target.
     read_bind (get_string MAX_RENDERER_TEXT_INPUT_BYTES) (\<lambda>value.
     read_bind get_u32 (\<lambda>selection_start. read_bind get_u32 (\<lambda>selection_end.
       read_result (checked validate_text_rejection \<lparr>ntr_sequence = sequence, ntr_generation = generation, ntr_target = target, ntr_value = value, ntr_selection_start = selection_start, ntr_selection_end = selection_end\<rparr>)))))))"

definition text_rejection_fits :: "text_rejection \<Rightarrow> bool" where
  "text_rejection_fits m \<longleftrightarrow> node_id_fits (ntr_target m) \<and> (is_utf8 (ntr_value m) \<and> length (ntr_value m) \<le> MAX_RENDERER_TEXT_INPUT_BYTES)"

section \<open>Media and load statistics\<close>

record media_report =
  mrp_active :: bool
  mrp_playing :: bool
  mrp_ended :: bool
  mrp_current_time_100ns :: u64
  mrp_duration_100ns :: u64
  mrp_backend :: string
  mrp_mime_type :: string
  mrp_video_codec :: string
  mrp_audio_codec :: string
  mrp_encoded_queue_bytes :: u64
  mrp_encoded_queue_limit_bytes :: u64
  mrp_decoded_frame_queue_depth :: "16 word"
  mrp_decoded_frame_queue_limit :: "16 word"
  mrp_frames_submitted :: u64
  mrp_dropped_frames :: u64
  mrp_width :: u32
  mrp_height :: u32
  mrp_failure :: "string option"

definition put_media_report :: "media_report \<Rightarrow> protocol_error + bytes" where
  "put_media_report m =
     and_then (put_report_text ''media runtime text'' (mrp_backend m)) (\<lambda>b_backend.
     and_then (put_report_text ''media runtime text'' (mrp_mime_type m)) (\<lambda>b_mime_type.
     and_then (put_report_text ''media runtime text'' (mrp_video_codec m)) (\<lambda>b_video_codec.
     and_then (put_report_text ''media runtime text'' (mrp_audio_codec m)) (\<lambda>b_audio_codec.
     and_then (put_optional (\<lambda>w. put_report_text ''media runtime failure'' w) (mrp_failure m)) (\<lambda>b_failure.
       Inr (put_bool (mrp_active m) @ put_bool (mrp_playing m) @ put_bool (mrp_ended m) @
         put_u64 (mrp_current_time_100ns m) @ put_u64 (mrp_duration_100ns m) @ b_backend @ b_mime_type @
         b_video_codec @ b_audio_codec @ put_u64 (mrp_encoded_queue_bytes m) @
         put_u64 (mrp_encoded_queue_limit_bytes m) @ put_u16 (mrp_decoded_frame_queue_depth m) @
         put_u16 (mrp_decoded_frame_queue_limit m) @ put_u64 (mrp_frames_submitted m) @
         put_u64 (mrp_dropped_frames m) @ put_u32 (mrp_width m) @ put_u32 (mrp_height m) @ b_failure))))))"

definition get_media_report :: "media_report reading" where
  "get_media_report =
     read_bind get_bool (\<lambda>active. read_bind get_bool (\<lambda>playing.
     read_bind get_bool (\<lambda>ended. read_bind get_u64 (\<lambda>current_time_100ns.
     read_bind get_u64 (\<lambda>duration_100ns.
     read_bind (get_string MAX_RUNTIME_REPORT_TEXT_BYTES) (\<lambda>backend.
     read_bind (get_string MAX_RUNTIME_REPORT_TEXT_BYTES) (\<lambda>mime_type.
     read_bind (get_string MAX_RUNTIME_REPORT_TEXT_BYTES) (\<lambda>video_codec.
     read_bind (get_string MAX_RUNTIME_REPORT_TEXT_BYTES) (\<lambda>audio_codec.
     read_bind get_u64 (\<lambda>encoded_queue_bytes. read_bind get_u64 (\<lambda>encoded_queue_limit_bytes.
     read_bind get_u16 (\<lambda>decoded_frame_queue_depth.
     read_bind get_u16 (\<lambda>decoded_frame_queue_limit. read_bind get_u64 (\<lambda>frames_submitted.
     read_bind get_u64 (\<lambda>dropped_frames. read_bind get_u32 (\<lambda>width.
     read_bind get_u32 (\<lambda>height.
     read_bind (get_optional (get_string MAX_RUNTIME_REPORT_TEXT_BYTES)) (\<lambda>failure.
       read_ok \<lparr>mrp_active = active, mrp_playing = playing, mrp_ended = ended, mrp_current_time_100ns = current_time_100ns, mrp_duration_100ns = duration_100ns, mrp_backend = backend, mrp_mime_type = mime_type, mrp_video_codec = video_codec, mrp_audio_codec = audio_codec, mrp_encoded_queue_bytes = encoded_queue_bytes, mrp_encoded_queue_limit_bytes = encoded_queue_limit_bytes, mrp_decoded_frame_queue_depth = decoded_frame_queue_depth, mrp_decoded_frame_queue_limit = decoded_frame_queue_limit, mrp_frames_submitted = frames_submitted, mrp_dropped_frames = dropped_frames, mrp_width = width, mrp_height = height, mrp_failure = failure\<rparr>))))))))))))))))))"

definition media_report_fits :: "media_report \<Rightarrow> bool" where
  "media_report_fits m \<longleftrightarrow> (is_utf8 (mrp_backend m) \<and> length (mrp_backend m) \<le> MAX_RUNTIME_REPORT_TEXT_BYTES) \<and> (is_utf8 (mrp_mime_type m) \<and> length (mrp_mime_type m) \<le> MAX_RUNTIME_REPORT_TEXT_BYTES) \<and> (is_utf8 (mrp_video_codec m) \<and> length (mrp_video_codec m) \<le> MAX_RUNTIME_REPORT_TEXT_BYTES) \<and> (is_utf8 (mrp_audio_codec m) \<and> length (mrp_audio_codec m) \<le> MAX_RUNTIME_REPORT_TEXT_BYTES) \<and> (pred_option (\<lambda>w. is_utf8 w \<and> length w \<le> MAX_RUNTIME_REPORT_TEXT_BYTES) (mrp_failure m))"

record layout_stats =
  lst_passes :: u64
  lst_boxes_rebuilt :: u64
  lst_blocks_laid_out :: u64
  lst_subtrees_replayed :: u64
  lst_items_emitted :: u64
  lst_items_replayed :: u64
  lst_box_tree_micros :: u64
  lst_block_layout_micros :: u64
  lst_inline_geometry_micros :: u64
  lst_overflow_micros :: u64
  lst_paint_order_micros :: u64
  lst_hit_test_micros :: u64
  lst_sticky_micros :: u64

definition put_layout_stats :: "layout_stats \<Rightarrow> bytes" where
  "put_layout_stats m = put_u64 (lst_passes m) @ put_u64 (lst_boxes_rebuilt m) @ put_u64 (lst_blocks_laid_out m) @ put_u64 (lst_subtrees_replayed m) @ put_u64 (lst_items_emitted m) @ put_u64 (lst_items_replayed m) @ put_u64 (lst_box_tree_micros m) @ put_u64 (lst_block_layout_micros m) @ put_u64 (lst_inline_geometry_micros m) @ put_u64 (lst_overflow_micros m) @ put_u64 (lst_paint_order_micros m) @ put_u64 (lst_hit_test_micros m) @ put_u64 (lst_sticky_micros m)"

definition get_layout_stats :: "layout_stats reading" where
  "get_layout_stats =
     read_bind get_u64 (\<lambda>passes. read_bind get_u64 (\<lambda>boxes_rebuilt.
     read_bind get_u64 (\<lambda>blocks_laid_out. read_bind get_u64 (\<lambda>subtrees_replayed.
     read_bind get_u64 (\<lambda>items_emitted. read_bind get_u64 (\<lambda>items_replayed.
     read_bind get_u64 (\<lambda>box_tree_micros. read_bind get_u64 (\<lambda>block_layout_micros.
     read_bind get_u64 (\<lambda>inline_geometry_micros. read_bind get_u64 (\<lambda>overflow_micros.
     read_bind get_u64 (\<lambda>paint_order_micros. read_bind get_u64 (\<lambda>hit_test_micros.
     read_bind get_u64 (\<lambda>sticky_micros.
       read_ok \<lparr>lst_passes = passes, lst_boxes_rebuilt = boxes_rebuilt, lst_blocks_laid_out = blocks_laid_out, lst_subtrees_replayed = subtrees_replayed, lst_items_emitted = items_emitted, lst_items_replayed = items_replayed, lst_box_tree_micros = box_tree_micros, lst_block_layout_micros = block_layout_micros, lst_inline_geometry_micros = inline_geometry_micros, lst_overflow_micros = overflow_micros, lst_paint_order_micros = paint_order_micros, lst_hit_test_micros = hit_test_micros, lst_sticky_micros = sticky_micros\<rparr>)))))))))))))"

record page_load =
  pld_parse_micros :: u64
  pld_html_parse_micros :: u64
  pld_resource_processing_micros :: u64
  pld_script_micros :: u64
  pld_script_fetch_micros :: u64
  pld_style_micros :: u64
  pld_layout_micros :: u64
  pld_text_measure_count :: u64
  pld_text_shape_cache_hits :: u64
  pld_text_shape_cache_misses :: u64
  pld_text_shape_cache_flushes :: u64
  pld_text_shape_cache_entries :: u64
  pld_font_catalog_micros :: u64
  pld_font_select_micros :: u64
  pld_open_type_shape_micros :: u64
  pld_glyph_raster_micros :: u64
  pld_presentation_encode_micros :: u64
  pld_presentation_decode_micros :: u64
  pld_layout :: layout_stats

definition put_page_load :: "page_load \<Rightarrow> bytes" where
  "put_page_load m = put_u64 (pld_parse_micros m) @ put_u64 (pld_html_parse_micros m) @ put_u64 (pld_resource_processing_micros m) @ put_u64 (pld_script_micros m) @ put_u64 (pld_script_fetch_micros m) @ put_u64 (pld_style_micros m) @ put_u64 (pld_layout_micros m) @ put_u64 (pld_text_measure_count m) @ put_u64 (pld_text_shape_cache_hits m) @ put_u64 (pld_text_shape_cache_misses m) @ put_u64 (pld_text_shape_cache_flushes m) @ put_u64 (pld_text_shape_cache_entries m) @ put_u64 (pld_font_catalog_micros m) @ put_u64 (pld_font_select_micros m) @ put_u64 (pld_open_type_shape_micros m) @ put_u64 (pld_glyph_raster_micros m) @ put_u64 (pld_presentation_encode_micros m) @ put_u64 (pld_presentation_decode_micros m) @ put_layout_stats (pld_layout m)"

definition get_page_load :: "page_load reading" where
  "get_page_load =
     read_bind get_u64 (\<lambda>parse_micros. read_bind get_u64 (\<lambda>html_parse_micros.
     read_bind get_u64 (\<lambda>resource_processing_micros. read_bind get_u64 (\<lambda>script_micros.
     read_bind get_u64 (\<lambda>script_fetch_micros. read_bind get_u64 (\<lambda>style_micros.
     read_bind get_u64 (\<lambda>layout_micros. read_bind get_u64 (\<lambda>text_measure_count.
     read_bind get_u64 (\<lambda>text_shape_cache_hits. read_bind get_u64 (\<lambda>text_shape_cache_misses.
     read_bind get_u64 (\<lambda>text_shape_cache_flushes.
     read_bind get_u64 (\<lambda>text_shape_cache_entries. read_bind get_u64 (\<lambda>font_catalog_micros.
     read_bind get_u64 (\<lambda>font_select_micros. read_bind get_u64 (\<lambda>open_type_shape_micros.
     read_bind get_u64 (\<lambda>glyph_raster_micros.
     read_bind get_u64 (\<lambda>presentation_encode_micros.
     read_bind get_u64 (\<lambda>presentation_decode_micros. read_bind get_layout_stats (\<lambda>layout.
       read_ok \<lparr>pld_parse_micros = parse_micros, pld_html_parse_micros = html_parse_micros, pld_resource_processing_micros = resource_processing_micros, pld_script_micros = script_micros, pld_script_fetch_micros = script_fetch_micros, pld_style_micros = style_micros, pld_layout_micros = layout_micros, pld_text_measure_count = text_measure_count, pld_text_shape_cache_hits = text_shape_cache_hits, pld_text_shape_cache_misses = text_shape_cache_misses, pld_text_shape_cache_flushes = text_shape_cache_flushes, pld_text_shape_cache_entries = text_shape_cache_entries, pld_font_catalog_micros = font_catalog_micros, pld_font_select_micros = font_select_micros, pld_open_type_shape_micros = open_type_shape_micros, pld_glyph_raster_micros = glyph_raster_micros, pld_presentation_encode_micros = presentation_encode_micros, pld_presentation_decode_micros = presentation_decode_micros, pld_layout = layout\<rparr>)))))))))))))))))))"

section \<open>The report\<close>

record runtime_report =
  rrp_scripts_executed :: "u64"
  rrp_dom_mutations :: "u64"
  rrp_errors :: "string list"
  rrp_console :: "string list"
  rrp_diagnostics :: "string list"
  rrp_navigation_url :: "string option"
  rrp_navigation_options :: "navigation_options"
  rrp_viewport_scroll_y :: "u32 option"
  rrp_viewport_wheel_delta_y :: "u32"
  rrp_wheel_acknowledgements :: "wheel_ack list"
  rrp_wheel_has_blocking_listeners :: "bool option"
  rrp_wheel_has_nested_scroll :: "bool option"
  rrp_history_actions :: "history_action list"
  rrp_history_traversal_ack :: "u64 option"
  rrp_native_text_rejection :: "text_rejection option"
  rrp_cookie_updates :: "string list"
  rrp_runtime_active :: "bool"
  rrp_runtime_stopped :: "bool"
  rrp_render_requested :: "bool"
  rrp_media :: "media_report option"

text \<open>The writer of a history action is a parameter: the code's writer is \<open>encode_runtime\<close>, what the decoder
  accepts is \<open>put_runtime_report put_history_action\<close>.\<close>

definition put_report_activity :: "(history_action \<Rightarrow> protocol_error + bytes) \<Rightarrow> runtime_report \<Rightarrow> protocol_error + bytes" where
  "put_report_activity put m =
     and_then (put_report_texts ''runtime cookie updates count'' (rrp_cookie_updates m)) (\<lambda>b_cookie_updates.
     and_then (put_optional (\<lambda>w. put_media_report w) (rrp_media m)) (\<lambda>b_media.
       Inr (b_cookie_updates @ put_bool (rrp_runtime_active m) @ put_bool (rrp_runtime_stopped m) @
         put_bool (rrp_render_requested m) @ b_media)))"

definition put_report_listeners :: "(history_action \<Rightarrow> protocol_error + bytes) \<Rightarrow> runtime_report \<Rightarrow> protocol_error + bytes" where
  "put_report_listeners put m =
     and_then (put_optional (\<lambda>w. Inr (put_bool w)) (rrp_wheel_has_nested_scroll m)) (\<lambda>b_wheel_has_nested_scroll.
     and_then (put_history_actions put (rrp_history_actions m)) (\<lambda>b_history_actions.
     and_then (put_if (\<lambda>a. a \<noteq> Some 0) ''history traversal acknowledgement'' (put_optional (\<lambda>w. Inr (put_u64 w))) (rrp_history_traversal_ack m)) (\<lambda>b_history_traversal_ack.
     and_then (put_optional (\<lambda>w. put_text_rejection w) (rrp_native_text_rejection m)) (\<lambda>b_native_text_rejection.
     and_then (put_report_activity put m) (\<lambda>b_rest.
       Inr (b_wheel_has_nested_scroll @ b_history_actions @ b_history_traversal_ack @ b_native_text_rejection @
         b_rest))))))"

definition put_report_scrolling :: "(history_action \<Rightarrow> protocol_error + bytes) \<Rightarrow> runtime_report \<Rightarrow> protocol_error + bytes" where
  "put_report_scrolling put m =
     and_then (put_if (pred_option offset_ok) ''viewport scroll offset'' (put_optional (\<lambda>w. Inr (put_u32 w))) (rrp_viewport_scroll_y m)) (\<lambda>b_viewport_scroll_y.
     and_then (put_if f32_is_finite ''viewport wheel delta'' (\<lambda>w. Inr (put_u32 w)) (rrp_viewport_wheel_delta_y m)) (\<lambda>b_viewport_wheel_delta_y.
     and_then (put_wheel_acks (rrp_wheel_acknowledgements m)) (\<lambda>b_wheel_acknowledgements.
     and_then (put_optional (\<lambda>w. Inr (put_bool w)) (rrp_wheel_has_blocking_listeners m)) (\<lambda>b_wheel_has_blocking_listeners.
     and_then (put_report_listeners put m) (\<lambda>b_rest.
       Inr (b_viewport_scroll_y @ b_viewport_wheel_delta_y @ b_wheel_acknowledgements @
         b_wheel_has_blocking_listeners @ b_rest))))))"

definition put_report_output :: "(history_action \<Rightarrow> protocol_error + bytes) \<Rightarrow> runtime_report \<Rightarrow> protocol_error + bytes" where
  "put_report_output put m =
     and_then (put_report_texts ''runtime console count'' (rrp_console m)) (\<lambda>b_console.
     and_then (put_report_texts ''runtime diagnostics count'' (rrp_diagnostics m)) (\<lambda>b_diagnostics.
     and_then (put_navigation ((rrp_navigation_url m, rrp_navigation_options m))) (\<lambda>b_navigation.
     and_then (put_report_scrolling put m) (\<lambda>b_rest.
       Inr (b_console @ b_diagnostics @ b_navigation @ b_rest)))))"

definition put_runtime_report :: "(history_action \<Rightarrow> protocol_error + bytes) \<Rightarrow> runtime_report \<Rightarrow> protocol_error + bytes" where
  "put_runtime_report put m =
     and_then (put_report_texts ''runtime errors count'' (rrp_errors m)) (\<lambda>b_errors.
     and_then (put_report_output put m) (\<lambda>b_rest.
       Inr (put_u64 (rrp_scripts_executed m) @ put_u64 (rrp_dom_mutations m) @ b_errors @ b_rest)))"

definition encode_runtime :: "runtime_report \<Rightarrow> protocol_error + bytes" where
  "encode_runtime = put_runtime_report encode_history_action"

definition get_runtime_report :: "runtime_report reading" where
  "get_runtime_report =
     read_bind get_u64 (\<lambda>scripts_executed. read_bind get_u64 (\<lambda>dom_mutations.
     read_bind get_report_texts (\<lambda>errors. read_bind get_report_texts (\<lambda>console.
     read_bind get_report_texts (\<lambda>diagnostics. read_bind get_navigation (\<lambda>navigation.
     read_bind (get_if (pred_option offset_ok) ''viewport scroll offset'' (get_optional get_u32)) (\<lambda>viewport_scroll_y.
     read_bind (get_if f32_is_finite ''viewport wheel delta'' get_u32) (\<lambda>viewport_wheel_delta_y.
     read_bind get_wheel_acks (\<lambda>wheel_acknowledgements.
     read_bind (get_optional get_bool) (\<lambda>wheel_has_blocking_listeners.
     read_bind (get_optional get_bool) (\<lambda>wheel_has_nested_scroll.
     read_bind get_history_actions (\<lambda>history_actions.
     read_bind (get_if (\<lambda>a. a \<noteq> Some 0) ''history traversal acknowledgement'' (get_optional get_u64)) (\<lambda>history_traversal_ack.
     read_bind (get_optional get_text_rejection) (\<lambda>native_text_rejection.
     read_bind get_report_texts (\<lambda>cookie_updates. read_bind get_bool (\<lambda>runtime_active.
     read_bind get_bool (\<lambda>runtime_stopped. read_bind get_bool (\<lambda>render_requested.
     read_bind (get_optional get_media_report) (\<lambda>media.
       read_ok \<lparr>rrp_scripts_executed = scripts_executed, rrp_dom_mutations = dom_mutations, rrp_errors = errors, rrp_console = console, rrp_diagnostics = diagnostics, rrp_navigation_url = fst navigation, rrp_navigation_options = snd navigation, rrp_viewport_scroll_y = viewport_scroll_y, rrp_viewport_wheel_delta_y = viewport_wheel_delta_y, rrp_wheel_acknowledgements = wheel_acknowledgements, rrp_wheel_has_blocking_listeners = wheel_has_blocking_listeners, rrp_wheel_has_nested_scroll = wheel_has_nested_scroll, rrp_history_actions = history_actions, rrp_history_traversal_ack = history_traversal_ack, rrp_native_text_rejection = native_text_rejection, rrp_cookie_updates = cookie_updates, rrp_runtime_active = runtime_active, rrp_runtime_stopped = runtime_stopped, rrp_render_requested = render_requested, rrp_media = media\<rparr>)))))))))))))))))))"

definition runtime_report_fits :: "runtime_report \<Rightarrow> bool" where
  "runtime_report_fits m \<longleftrightarrow> report_texts_fits (rrp_errors m) \<and> report_texts_fits (rrp_console m) \<and> report_texts_fits (rrp_diagnostics m) \<and> navigation_fits ((rrp_navigation_url m, rrp_navigation_options m)) \<and> pred_option offset_ok (rrp_viewport_scroll_y m) \<and> f32_is_finite (rrp_viewport_wheel_delta_y m) \<and> wheel_acks_fits (rrp_wheel_acknowledgements m) \<and> history_actions_fits (rrp_history_actions m) \<and> (rrp_history_traversal_ack m) \<noteq> Some 0 \<and> pred_option (\<lambda>w. text_rejection_fits w) (rrp_native_text_rejection m) \<and> report_texts_fits (rrp_cookie_updates m) \<and> pred_option (\<lambda>w. media_report_fits w) (rrp_media m)"

record runtime_update =
  rtu_document :: u64
  rtu_clock_advanced :: bool
  rtu_runtime :: runtime_report
  rtu_load :: page_load
  rtu_next_timer_micros :: "u64 option"

definition put_runtime_update :: "(history_action \<Rightarrow> protocol_error + bytes) \<Rightarrow> runtime_update \<Rightarrow> protocol_error + bytes" where
  "put_runtime_update put m =
     and_then (put_runtime_report put (rtu_runtime m)) (\<lambda>b_runtime.
     and_then (put_optional (\<lambda>w. Inr (put_u64 w)) (rtu_next_timer_micros m)) (\<lambda>b_next_timer_micros.
       Inr (put_u64 (rtu_document m) @ put_bool (rtu_clock_advanced m) @ b_runtime @
         put_page_load (rtu_load m) @ b_next_timer_micros)))"

definition get_runtime_update :: "runtime_update reading" where
  "get_runtime_update =
     read_bind get_document_id (\<lambda>document. read_bind get_bool (\<lambda>clock_advanced.
     read_bind get_runtime_report (\<lambda>runtime. read_bind get_page_load (\<lambda>load.
     read_bind (get_optional get_u64) (\<lambda>next_timer_micros.
       read_ok \<lparr>rtu_document = document, rtu_clock_advanced = clock_advanced, rtu_runtime = runtime, rtu_load = load, rtu_next_timer_micros = next_timer_micros\<rparr>)))))"

definition encode_runtime_update :: "runtime_update \<Rightarrow> protocol_error + bytes" where
  "encode_runtime_update = put_runtime_update encode_history_action"

definition runtime_update_fits :: "runtime_update \<Rightarrow> bool" where
  "runtime_update_fits m \<longleftrightarrow> rtu_document m \<noteq> 0 \<and> runtime_report_fits (rtu_runtime m)"

section \<open>Exactness\<close>

lemma valid_when_unit [simp]: "valid_when b e = Inr () \<longleftrightarrow> b"
  by (simp add: valid_when_def)

lemma put_if_Inr [simp]: "put_if good e put x = Inr b \<longleftrightarrow> good x \<and> put x = Inr b"
  by (auto simp: put_if_def result_simps)

lemma reads_if_flag [wire_reads]:
  assumes "reads f R"
  shows "reads (get_if good e f) (\<lambda>x bs. good x \<and> R x bs)"
  unfolding get_if_def by (rule reads_cong, (rule assms wire_reads)+) auto

lemma put_report_text_Inr [simp]:
  "put_report_text e s = Inr b \<longleftrightarrow> length s \<le> MAX_RUNTIME_REPORT_TEXT_BYTES \<and> put_string s = Inr b"
  by (simp add: put_report_text_def)

definition report_texts_written :: "string list \<Rightarrow> bytes \<Rightarrow> bool" where
  "report_texts_written xs b \<longleftrightarrow> put_report_texts [] xs = Inr b"

lemma put_report_texts_Inr [simp]: "put_report_texts e xs = Inr b \<longleftrightarrow> report_texts_written xs b"
  by (auto simp: report_texts_written_def put_report_texts_def)

lemma reads_report_texts [wire_reads]:
  "reads get_report_texts (\<lambda>xs bs. report_texts_fits xs \<and> report_texts_written xs bs)"
proof -
  have e: "reads (get_string MAX_RUNTIME_REPORT_TEXT_BYTES)
      (\<lambda>s bs. (is_utf8 s \<and> length s \<le> MAX_RUNTIME_REPORT_TEXT_BYTES) \<and> put_report_text ''runtime report text'' s = Inr bs)"
    by (rule reads_cong, (rule wire_reads)+) auto
  show ?thesis
    unfolding get_report_texts_def
    by (rule reads_cong, rule reads_list [OF reads_u32 e, of "\<lambda>n. n > MAX_RUNTIME_REPORT_ENTRIES"])
      (auto simp: report_texts_fits_def report_texts_written_def put_report_texts_def limit_simps)
qed

lemma reads_runtime_u64_option [wire_reads]:
  "reads (get_optional get_u64) (\<lambda>v bs. put_optional (\<lambda>w. Inr (put_u64 w)) v = Inr bs)"
proof -
  have "reads get_u64 (\<lambda>w bs. (True) \<and> Inr (put_u64 w) = (Inr bs :: protocol_error + bytes))"
    by (rule reads_cong, (rule wire_reads)+) auto
  then show ?thesis by (rule reads_cong [OF reads_optional]) (auto simp: pred_option_def)
qed

lemma reads_optional_bool [wire_reads]:
  "reads (get_optional get_bool) (\<lambda>v bs. put_optional (\<lambda>w. Inr (put_bool w)) v = Inr bs)"
proof -
  have "reads get_bool (\<lambda>w bs. (True) \<and> Inr (put_bool w) = (Inr bs :: protocol_error + bytes))"
    by (rule reads_cong, (rule wire_reads)+) auto
  then show ?thesis by (rule reads_cong [OF reads_optional]) (auto simp: pred_option_def)
qed

lemma reads_optional_failtxt [wire_reads]:
  "reads (get_optional (get_string MAX_RUNTIME_REPORT_TEXT_BYTES)) (\<lambda>v bs. pred_option (\<lambda>w. is_utf8 w \<and> length w \<le> MAX_RUNTIME_REPORT_TEXT_BYTES) v \<and> put_optional (\<lambda>w. put_report_text ''media runtime failure'' w) v = Inr bs)"
proof -
  have "reads (get_string MAX_RUNTIME_REPORT_TEXT_BYTES) (\<lambda>w bs. (is_utf8 w \<and> length w \<le> MAX_RUNTIME_REPORT_TEXT_BYTES) \<and> put_report_text ''media runtime failure'' w = (Inr bs :: protocol_error + bytes))"
    by (rule reads_cong, (rule wire_reads)+) auto
  then show ?thesis by (rule reads_cong [OF reads_optional]) (auto simp: pred_option_def)
qed

lemma reads_wheel_decision [wire_reads]: "reads get_wheel_decision (\<lambda>x bs. bs = put_u8 (wheel_decision_tag x))"
  unfolding get_wheel_decision_def
  apply (rule reads_cong, (rule wire_reads)+)
  subgoal for x bs by (cases x rule: wheel_decision_tag.cases) auto
  done

lemma reads_wheel_ack [wire_reads]: "reads get_wheel_ack (\<lambda>m bs. bs = put_wheel_ack m)"
  unfolding get_wheel_ack_def
  apply (rule reads_cong, (rule wire_reads)+)
  subgoal for m bs by (cases m; auto simp: put_wheel_ack_def)
  done

lemma reads_wheel_ack_list [wire_reads]: "reads get_wheel_ack_list (\<lambda>xs bs. wheel_ack_list_fits xs \<and> put_wheel_ack_list xs = Inr bs)"
proof -
  have e: "reads get_wheel_ack (\<lambda>w bs. (True) \<and> Inr (put_wheel_ack w) = (Inr bs :: protocol_error + bytes))"
    by (rule reads_cong, (rule wire_reads)+) auto
  show ?thesis
    unfolding get_wheel_ack_list_def
    by (rule reads_cong, rule reads_list [OF reads_u32 e, of "\<lambda>n. n > MAX_WHEEL_ACKNOWLEDGEMENTS"]) (auto simp: wheel_ack_list_fits_def put_wheel_ack_list_def limit_simps)
qed

lemma reads_wheel_acks [wire_reads]: "reads get_wheel_acks (\<lambda>xs bs. wheel_acks_fits xs \<and> put_wheel_acks xs = Inr bs)"
  unfolding get_wheel_acks_def by (rule reads_cong, (rule wire_reads)+) (auto simp: wheel_acks_fits_def put_wheel_acks_def)

lemma reads_form_post [wire_reads]: "reads get_form_post (\<lambda>m bs. form_post_fits m \<and> put_form_post m = Inr bs)"
  unfolding get_form_post_def
  apply (rule reads_cong, (rule wire_reads)+)
  subgoal for m bs by (cases m; auto simp: form_post_fits_def put_form_post_def result_simps; blast)
  done

lemma reads_optional_form_post [wire_reads]:
  "reads (get_optional get_form_post) (\<lambda>v bs. pred_option (\<lambda>w. form_post_fits w) v \<and> put_optional (\<lambda>w. put_form_post w) v = Inr bs)"
proof -
  have "reads get_form_post (\<lambda>w bs. (form_post_fits w) \<and> put_form_post w = (Inr bs :: protocol_error + bytes))"
    by (rule reads_cong, (rule wire_reads)+) auto
  then show ?thesis by (rule reads_cong [OF reads_optional]) (auto simp: pred_option_def)
qed

lemma reads_navigation_options [wire_reads]: "reads get_navigation_options (\<lambda>m bs. navigation_options_fits m \<and> put_navigation_options m = Inr bs)"
  unfolding get_navigation_options_def
  apply (rule reads_cong, (rule wire_reads)+)
  subgoal for m bs by (cases m; auto simp: navigation_options_fits_def put_navigation_options_def result_simps; blast)
  done

lemma reads_optional_url [wire_reads]:
  "reads (get_optional (get_string MAX_URL_BYTES)) (\<lambda>v bs. pred_option (\<lambda>w. is_utf8 w \<and> length w \<le> MAX_URL_BYTES) v \<and> put_optional (\<lambda>w. put_string w) v = Inr bs)"
proof -
  have "reads (get_string MAX_URL_BYTES) (\<lambda>w bs. (is_utf8 w \<and> length w \<le> MAX_URL_BYTES) \<and> put_string w = (Inr bs :: protocol_error + bytes))"
    by (rule reads_cong, (rule wire_reads)+) auto
  then show ?thesis by (rule reads_cong [OF reads_optional]) (auto simp: pred_option_def)
qed

lemma reads_navigation [wire_reads]: "reads get_navigation (\<lambda>n bs. navigation_fits n \<and> put_navigation n = Inr bs)"
  unfolding get_navigation_def
  apply (rule reads_cong, (rule wire_reads)+)
  subgoal for n bs
    by (cases n) (auto simp: navigation_fits_def put_navigation_def put_optional_def result_simps split: option.splits; blast)
  done

lemma reads_optional_state [wire_reads]:
  "reads (get_optional (get_string MAX_HISTORY_STATE_BYTES)) (\<lambda>v bs. pred_option (\<lambda>w. is_utf8 w \<and> length w \<le> MAX_HISTORY_STATE_BYTES) v \<and> put_optional (\<lambda>w. put_string w) v = Inr bs)"
proof -
  have "reads (get_string MAX_HISTORY_STATE_BYTES) (\<lambda>w bs. (is_utf8 w \<and> length w \<le> MAX_HISTORY_STATE_BYTES) \<and> put_string w = (Inr bs :: protocol_error + bytes))"
    by (rule reads_cong, (rule wire_reads)+) auto
  then show ?thesis by (rule reads_cong [OF reads_optional]) (auto simp: pred_option_def)
qed

lemma reads_history_action [wire_reads]: "reads get_history_action (\<lambda>x bs. history_action_fits x \<and> put_history_action x = Inr bs)"
  unfolding get_history_action_def
  apply (rule reads_cong, (rule wire_reads)+)
  subgoal for x bs by (cases x; auto simp: history_action_fits_def put_history_action_def result_simps; blast)
  done

lemma reads_history_actions [wire_reads]:
  "reads get_history_actions (\<lambda>xs bs. history_actions_fits xs \<and> put_history_actions put_history_action xs = Inr bs)"
  unfolding get_history_actions_def
  by (rule reads_cong, rule reads_list [OF reads_u32 reads_history_action, of "\<lambda>n. n > MAX_RUNTIME_REPORT_ENTRIES"])
    (auto simp: history_actions_fits_def put_history_actions_def limit_simps)

lemma encode_history_actions_Inr:
  "put_history_actions encode_history_action xs = Inr b \<longleftrightarrow>
     list_all history_action_ok xs \<and> put_history_actions put_history_action xs = Inr b"
proof -
  have "put_each encode_history_action xs = Inr c \<longleftrightarrow> list_all history_action_ok xs \<and> put_each put_history_action xs = Inr c" for c
    by (induction xs arbitrary: c) (auto simp: encode_history_action_def result_simps)
  then show ?thesis by (auto simp: put_history_actions_def result_simps)
qed

lemma reads_text_rejection [wire_reads]: "reads get_text_rejection (\<lambda>m bs. text_rejection_fits m \<and> put_text_rejection m = Inr bs)"
  unfolding get_text_rejection_def
  apply (rule reads_cong, (rule wire_reads)+)
  subgoal for m bs by (cases m; auto simp: text_rejection_fits_def put_text_rejection_def result_simps; blast)
  done

lemma reads_optional_text_rejection [wire_reads]:
  "reads (get_optional get_text_rejection) (\<lambda>v bs. pred_option (\<lambda>w. text_rejection_fits w) v \<and> put_optional (\<lambda>w. put_text_rejection w) v = Inr bs)"
proof -
  have "reads get_text_rejection (\<lambda>w bs. (text_rejection_fits w) \<and> put_text_rejection w = (Inr bs :: protocol_error + bytes))"
    by (rule reads_cong, (rule wire_reads)+) auto
  then show ?thesis by (rule reads_cong [OF reads_optional]) (auto simp: pred_option_def)
qed

lemma reads_media_report_from_14: "reads (
     read_bind get_u64 (\<lambda>dropped_frames. read_bind get_u32 (\<lambda>width.
     read_bind get_u32 (\<lambda>height.
     read_bind (get_optional (get_string MAX_RUNTIME_REPORT_TEXT_BYTES)) (\<lambda>failure.
       read_ok \<lparr>mrp_active = active, mrp_playing = playing, mrp_ended = ended, mrp_current_time_100ns = current_time_100ns, mrp_duration_100ns = duration_100ns, mrp_backend = backend, mrp_mime_type = mime_type, mrp_video_codec = video_codec, mrp_audio_codec = audio_codec, mrp_encoded_queue_bytes = encoded_queue_bytes, mrp_encoded_queue_limit_bytes = encoded_queue_limit_bytes, mrp_decoded_frame_queue_depth = decoded_frame_queue_depth, mrp_decoded_frame_queue_limit = decoded_frame_queue_limit, mrp_frames_submitted = frames_submitted, mrp_dropped_frames = dropped_frames, mrp_width = width, mrp_height = height, mrp_failure = failure\<rparr>)))))
    (\<lambda>m bs. mrp_active m = active \<and> mrp_playing m = playing \<and> mrp_ended m = ended \<and> mrp_current_time_100ns m = current_time_100ns \<and> mrp_duration_100ns m = duration_100ns \<and> mrp_backend m = backend \<and> mrp_mime_type m = mime_type \<and> mrp_video_codec m = video_codec \<and> mrp_audio_codec m = audio_codec \<and> mrp_encoded_queue_bytes m = encoded_queue_bytes \<and> mrp_encoded_queue_limit_bytes m = encoded_queue_limit_bytes \<and> mrp_decoded_frame_queue_depth m = decoded_frame_queue_depth \<and> mrp_decoded_frame_queue_limit m = decoded_frame_queue_limit \<and> mrp_frames_submitted m = frames_submitted \<and> (pred_option (\<lambda>w. is_utf8 w \<and> length w \<le> MAX_RUNTIME_REPORT_TEXT_BYTES) (mrp_failure m)) \<and>
     and_then (put_optional (\<lambda>w. put_report_text ''media runtime failure'' w) (mrp_failure m)) (\<lambda>b_failure.
       Inr (put_u64 (mrp_dropped_frames m) @ put_u32 (mrp_width m) @ put_u32 (mrp_height m) @ b_failure)) = Inr bs)"
  apply (rule reads_cong, (rule wire_reads)+)
  subgoal for m bs by (cases m; auto simp: result_simps; blast)
  done

lemma reads_media_report_from_9: "reads (
     read_bind get_u64 (\<lambda>encoded_queue_bytes. read_bind get_u64 (\<lambda>encoded_queue_limit_bytes.
     read_bind get_u16 (\<lambda>decoded_frame_queue_depth.
     read_bind get_u16 (\<lambda>decoded_frame_queue_limit. read_bind get_u64 (\<lambda>frames_submitted.
     read_bind get_u64 (\<lambda>dropped_frames. read_bind get_u32 (\<lambda>width.
     read_bind get_u32 (\<lambda>height.
     read_bind (get_optional (get_string MAX_RUNTIME_REPORT_TEXT_BYTES)) (\<lambda>failure.
       read_ok \<lparr>mrp_active = active, mrp_playing = playing, mrp_ended = ended, mrp_current_time_100ns = current_time_100ns, mrp_duration_100ns = duration_100ns, mrp_backend = backend, mrp_mime_type = mime_type, mrp_video_codec = video_codec, mrp_audio_codec = audio_codec, mrp_encoded_queue_bytes = encoded_queue_bytes, mrp_encoded_queue_limit_bytes = encoded_queue_limit_bytes, mrp_decoded_frame_queue_depth = decoded_frame_queue_depth, mrp_decoded_frame_queue_limit = decoded_frame_queue_limit, mrp_frames_submitted = frames_submitted, mrp_dropped_frames = dropped_frames, mrp_width = width, mrp_height = height, mrp_failure = failure\<rparr>))))))))))
    (\<lambda>m bs. mrp_active m = active \<and> mrp_playing m = playing \<and> mrp_ended m = ended \<and> mrp_current_time_100ns m = current_time_100ns \<and> mrp_duration_100ns m = duration_100ns \<and> mrp_backend m = backend \<and> mrp_mime_type m = mime_type \<and> mrp_video_codec m = video_codec \<and> mrp_audio_codec m = audio_codec \<and> (pred_option (\<lambda>w. is_utf8 w \<and> length w \<le> MAX_RUNTIME_REPORT_TEXT_BYTES) (mrp_failure m)) \<and>
     and_then (put_optional (\<lambda>w. put_report_text ''media runtime failure'' w) (mrp_failure m)) (\<lambda>b_failure.
       Inr (put_u64 (mrp_encoded_queue_bytes m) @ put_u64 (mrp_encoded_queue_limit_bytes m) @
         put_u16 (mrp_decoded_frame_queue_depth m) @ put_u16 (mrp_decoded_frame_queue_limit m) @
         put_u64 (mrp_frames_submitted m) @ put_u64 (mrp_dropped_frames m) @ put_u32 (mrp_width m) @
         put_u32 (mrp_height m) @ b_failure)) = Inr bs)"
  apply (rule reads_cong, (rule reads_media_report_from_14 wire_reads)+)
  subgoal for m bs by (cases m; auto simp: result_simps; blast)
  done

lemma reads_media_report_from_5: "reads (
     read_bind (get_string MAX_RUNTIME_REPORT_TEXT_BYTES) (\<lambda>backend.
     read_bind (get_string MAX_RUNTIME_REPORT_TEXT_BYTES) (\<lambda>mime_type.
     read_bind (get_string MAX_RUNTIME_REPORT_TEXT_BYTES) (\<lambda>video_codec.
     read_bind (get_string MAX_RUNTIME_REPORT_TEXT_BYTES) (\<lambda>audio_codec.
     read_bind get_u64 (\<lambda>encoded_queue_bytes. read_bind get_u64 (\<lambda>encoded_queue_limit_bytes.
     read_bind get_u16 (\<lambda>decoded_frame_queue_depth.
     read_bind get_u16 (\<lambda>decoded_frame_queue_limit. read_bind get_u64 (\<lambda>frames_submitted.
     read_bind get_u64 (\<lambda>dropped_frames. read_bind get_u32 (\<lambda>width.
     read_bind get_u32 (\<lambda>height.
     read_bind (get_optional (get_string MAX_RUNTIME_REPORT_TEXT_BYTES)) (\<lambda>failure.
       read_ok \<lparr>mrp_active = active, mrp_playing = playing, mrp_ended = ended, mrp_current_time_100ns = current_time_100ns, mrp_duration_100ns = duration_100ns, mrp_backend = backend, mrp_mime_type = mime_type, mrp_video_codec = video_codec, mrp_audio_codec = audio_codec, mrp_encoded_queue_bytes = encoded_queue_bytes, mrp_encoded_queue_limit_bytes = encoded_queue_limit_bytes, mrp_decoded_frame_queue_depth = decoded_frame_queue_depth, mrp_decoded_frame_queue_limit = decoded_frame_queue_limit, mrp_frames_submitted = frames_submitted, mrp_dropped_frames = dropped_frames, mrp_width = width, mrp_height = height, mrp_failure = failure\<rparr>))))))))))))))
    (\<lambda>m bs. mrp_active m = active \<and> mrp_playing m = playing \<and> mrp_ended m = ended \<and> mrp_current_time_100ns m = current_time_100ns \<and> mrp_duration_100ns m = duration_100ns \<and> (is_utf8 (mrp_backend m) \<and> length (mrp_backend m) \<le> MAX_RUNTIME_REPORT_TEXT_BYTES) \<and> (is_utf8 (mrp_mime_type m) \<and> length (mrp_mime_type m) \<le> MAX_RUNTIME_REPORT_TEXT_BYTES) \<and> (is_utf8 (mrp_video_codec m) \<and> length (mrp_video_codec m) \<le> MAX_RUNTIME_REPORT_TEXT_BYTES) \<and> (is_utf8 (mrp_audio_codec m) \<and> length (mrp_audio_codec m) \<le> MAX_RUNTIME_REPORT_TEXT_BYTES) \<and> (pred_option (\<lambda>w. is_utf8 w \<and> length w \<le> MAX_RUNTIME_REPORT_TEXT_BYTES) (mrp_failure m)) \<and>
     and_then (put_report_text ''media runtime text'' (mrp_backend m)) (\<lambda>b_backend.
     and_then (put_report_text ''media runtime text'' (mrp_mime_type m)) (\<lambda>b_mime_type.
     and_then (put_report_text ''media runtime text'' (mrp_video_codec m)) (\<lambda>b_video_codec.
     and_then (put_report_text ''media runtime text'' (mrp_audio_codec m)) (\<lambda>b_audio_codec.
     and_then (put_optional (\<lambda>w. put_report_text ''media runtime failure'' w) (mrp_failure m)) (\<lambda>b_failure.
       Inr (b_backend @ b_mime_type @ b_video_codec @ b_audio_codec @ put_u64 (mrp_encoded_queue_bytes m) @
         put_u64 (mrp_encoded_queue_limit_bytes m) @ put_u16 (mrp_decoded_frame_queue_depth m) @
         put_u16 (mrp_decoded_frame_queue_limit m) @ put_u64 (mrp_frames_submitted m) @
         put_u64 (mrp_dropped_frames m) @ put_u32 (mrp_width m) @ put_u32 (mrp_height m) @ b_failure)))))) = Inr bs)"
  apply (rule reads_cong, (rule reads_media_report_from_9 wire_reads)+)
  subgoal for m bs by (cases m; auto simp: result_simps; blast)
  done

lemma reads_media_report [wire_reads]: "reads get_media_report (\<lambda>m bs. media_report_fits m \<and> put_media_report m = Inr bs)"
  unfolding get_media_report_def
  apply (rule reads_cong, (rule reads_media_report_from_5 wire_reads)+)
  subgoal for m bs by (cases m; auto simp: media_report_fits_def put_media_report_def result_simps; blast)
  done

lemma reads_optional_media_report [wire_reads]:
  "reads (get_optional get_media_report) (\<lambda>v bs. pred_option (\<lambda>w. media_report_fits w) v \<and> put_optional (\<lambda>w. put_media_report w) v = Inr bs)"
proof -
  have "reads get_media_report (\<lambda>w bs. (media_report_fits w) \<and> put_media_report w = (Inr bs :: protocol_error + bytes))"
    by (rule reads_cong, (rule wire_reads)+) auto
  then show ?thesis by (rule reads_cong [OF reads_optional]) (auto simp: pred_option_def)
qed

lemma reads_layout_stats [wire_reads]: "reads get_layout_stats (\<lambda>m bs. bs = put_layout_stats m)"
  unfolding get_layout_stats_def
  apply (rule reads_cong, (rule wire_reads)+)
  subgoal for m bs by (cases m; auto simp: put_layout_stats_def)
  done

lemma reads_page_load [wire_reads]: "reads get_page_load (\<lambda>m bs. bs = put_page_load m)"
  unfolding get_page_load_def
  apply (rule reads_cong, (rule wire_reads)+)
  subgoal for m bs by (cases m; auto simp: put_page_load_def)
  done

lemma reads_runtime_report_from_14: "reads (
     read_bind get_report_texts (\<lambda>cookie_updates. read_bind get_bool (\<lambda>runtime_active.
     read_bind get_bool (\<lambda>runtime_stopped. read_bind get_bool (\<lambda>render_requested.
     read_bind (get_optional get_media_report) (\<lambda>media.
       read_ok \<lparr>rrp_scripts_executed = scripts_executed, rrp_dom_mutations = dom_mutations, rrp_errors = errors, rrp_console = console, rrp_diagnostics = diagnostics, rrp_navigation_url = fst navigation, rrp_navigation_options = snd navigation, rrp_viewport_scroll_y = viewport_scroll_y, rrp_viewport_wheel_delta_y = viewport_wheel_delta_y, rrp_wheel_acknowledgements = wheel_acknowledgements, rrp_wheel_has_blocking_listeners = wheel_has_blocking_listeners, rrp_wheel_has_nested_scroll = wheel_has_nested_scroll, rrp_history_actions = history_actions, rrp_history_traversal_ack = history_traversal_ack, rrp_native_text_rejection = native_text_rejection, rrp_cookie_updates = cookie_updates, rrp_runtime_active = runtime_active, rrp_runtime_stopped = runtime_stopped, rrp_render_requested = render_requested, rrp_media = media\<rparr>))))))
    (\<lambda>m bs. rrp_scripts_executed m = scripts_executed \<and> rrp_dom_mutations m = dom_mutations \<and> rrp_errors m = errors \<and> rrp_console m = console \<and> rrp_diagnostics m = diagnostics \<and> rrp_navigation_url m = fst navigation \<and> rrp_navigation_options m = snd navigation \<and> rrp_viewport_scroll_y m = viewport_scroll_y \<and> rrp_viewport_wheel_delta_y m = viewport_wheel_delta_y \<and> rrp_wheel_acknowledgements m = wheel_acknowledgements \<and> rrp_wheel_has_blocking_listeners m = wheel_has_blocking_listeners \<and> rrp_wheel_has_nested_scroll m = wheel_has_nested_scroll \<and> rrp_history_actions m = history_actions \<and> rrp_history_traversal_ack m = history_traversal_ack \<and> rrp_native_text_rejection m = native_text_rejection \<and> (report_texts_fits (rrp_cookie_updates m)) \<and> (pred_option (\<lambda>w. media_report_fits w) (rrp_media m)) \<and> put_report_activity put_history_action m = Inr bs)"
  apply (rule reads_cong, (rule wire_reads)+)
  subgoal for m bs by (cases m; auto simp: put_report_activity_def result_simps; blast)
  done

lemma reads_runtime_report_from_10: "reads (
     read_bind (get_optional get_bool) (\<lambda>wheel_has_nested_scroll.
     read_bind get_history_actions (\<lambda>history_actions.
     read_bind (get_if (\<lambda>a. a \<noteq> Some 0) ''history traversal acknowledgement'' (get_optional get_u64)) (\<lambda>history_traversal_ack.
     read_bind (get_optional get_text_rejection) (\<lambda>native_text_rejection.
     read_bind get_report_texts (\<lambda>cookie_updates. read_bind get_bool (\<lambda>runtime_active.
     read_bind get_bool (\<lambda>runtime_stopped. read_bind get_bool (\<lambda>render_requested.
     read_bind (get_optional get_media_report) (\<lambda>media.
       read_ok \<lparr>rrp_scripts_executed = scripts_executed, rrp_dom_mutations = dom_mutations, rrp_errors = errors, rrp_console = console, rrp_diagnostics = diagnostics, rrp_navigation_url = fst navigation, rrp_navigation_options = snd navigation, rrp_viewport_scroll_y = viewport_scroll_y, rrp_viewport_wheel_delta_y = viewport_wheel_delta_y, rrp_wheel_acknowledgements = wheel_acknowledgements, rrp_wheel_has_blocking_listeners = wheel_has_blocking_listeners, rrp_wheel_has_nested_scroll = wheel_has_nested_scroll, rrp_history_actions = history_actions, rrp_history_traversal_ack = history_traversal_ack, rrp_native_text_rejection = native_text_rejection, rrp_cookie_updates = cookie_updates, rrp_runtime_active = runtime_active, rrp_runtime_stopped = runtime_stopped, rrp_render_requested = render_requested, rrp_media = media\<rparr>))))))))))
    (\<lambda>m bs. rrp_scripts_executed m = scripts_executed \<and> rrp_dom_mutations m = dom_mutations \<and> rrp_errors m = errors \<and> rrp_console m = console \<and> rrp_diagnostics m = diagnostics \<and> rrp_navigation_url m = fst navigation \<and> rrp_navigation_options m = snd navigation \<and> rrp_viewport_scroll_y m = viewport_scroll_y \<and> rrp_viewport_wheel_delta_y m = viewport_wheel_delta_y \<and> rrp_wheel_acknowledgements m = wheel_acknowledgements \<and> rrp_wheel_has_blocking_listeners m = wheel_has_blocking_listeners \<and> (history_actions_fits (rrp_history_actions m)) \<and> ((rrp_history_traversal_ack m) \<noteq> Some 0) \<and> (pred_option (\<lambda>w. text_rejection_fits w) (rrp_native_text_rejection m)) \<and> (report_texts_fits (rrp_cookie_updates m)) \<and> (pred_option (\<lambda>w. media_report_fits w) (rrp_media m)) \<and> put_report_listeners put_history_action m = Inr bs)"
  apply (rule reads_cong, (rule reads_runtime_report_from_14 wire_reads)+)
  subgoal for m bs by (cases m; auto simp: put_report_listeners_def result_simps; blast)
  done

lemma reads_runtime_report_from_6: "reads (
     read_bind (get_if (pred_option offset_ok) ''viewport scroll offset'' (get_optional get_u32)) (\<lambda>viewport_scroll_y.
     read_bind (get_if f32_is_finite ''viewport wheel delta'' get_u32) (\<lambda>viewport_wheel_delta_y.
     read_bind get_wheel_acks (\<lambda>wheel_acknowledgements.
     read_bind (get_optional get_bool) (\<lambda>wheel_has_blocking_listeners.
     read_bind (get_optional get_bool) (\<lambda>wheel_has_nested_scroll.
     read_bind get_history_actions (\<lambda>history_actions.
     read_bind (get_if (\<lambda>a. a \<noteq> Some 0) ''history traversal acknowledgement'' (get_optional get_u64)) (\<lambda>history_traversal_ack.
     read_bind (get_optional get_text_rejection) (\<lambda>native_text_rejection.
     read_bind get_report_texts (\<lambda>cookie_updates. read_bind get_bool (\<lambda>runtime_active.
     read_bind get_bool (\<lambda>runtime_stopped. read_bind get_bool (\<lambda>render_requested.
     read_bind (get_optional get_media_report) (\<lambda>media.
       read_ok \<lparr>rrp_scripts_executed = scripts_executed, rrp_dom_mutations = dom_mutations, rrp_errors = errors, rrp_console = console, rrp_diagnostics = diagnostics, rrp_navigation_url = fst navigation, rrp_navigation_options = snd navigation, rrp_viewport_scroll_y = viewport_scroll_y, rrp_viewport_wheel_delta_y = viewport_wheel_delta_y, rrp_wheel_acknowledgements = wheel_acknowledgements, rrp_wheel_has_blocking_listeners = wheel_has_blocking_listeners, rrp_wheel_has_nested_scroll = wheel_has_nested_scroll, rrp_history_actions = history_actions, rrp_history_traversal_ack = history_traversal_ack, rrp_native_text_rejection = native_text_rejection, rrp_cookie_updates = cookie_updates, rrp_runtime_active = runtime_active, rrp_runtime_stopped = runtime_stopped, rrp_render_requested = render_requested, rrp_media = media\<rparr>))))))))))))))
    (\<lambda>m bs. rrp_scripts_executed m = scripts_executed \<and> rrp_dom_mutations m = dom_mutations \<and> rrp_errors m = errors \<and> rrp_console m = console \<and> rrp_diagnostics m = diagnostics \<and> rrp_navigation_url m = fst navigation \<and> rrp_navigation_options m = snd navigation \<and> (pred_option offset_ok (rrp_viewport_scroll_y m)) \<and> (f32_is_finite (rrp_viewport_wheel_delta_y m)) \<and> (wheel_acks_fits (rrp_wheel_acknowledgements m)) \<and> (history_actions_fits (rrp_history_actions m)) \<and> ((rrp_history_traversal_ack m) \<noteq> Some 0) \<and> (pred_option (\<lambda>w. text_rejection_fits w) (rrp_native_text_rejection m)) \<and> (report_texts_fits (rrp_cookie_updates m)) \<and> (pred_option (\<lambda>w. media_report_fits w) (rrp_media m)) \<and> put_report_scrolling put_history_action m = Inr bs)"
  apply (rule reads_cong, (rule reads_runtime_report_from_10 wire_reads)+)
  subgoal for m bs by (cases m; auto simp: put_report_scrolling_def result_simps; blast)
  done

lemma reads_runtime_report_from_3: "reads (
     read_bind get_report_texts (\<lambda>console. read_bind get_report_texts (\<lambda>diagnostics.
     read_bind get_navigation (\<lambda>navigation.
     read_bind (get_if (pred_option offset_ok) ''viewport scroll offset'' (get_optional get_u32)) (\<lambda>viewport_scroll_y.
     read_bind (get_if f32_is_finite ''viewport wheel delta'' get_u32) (\<lambda>viewport_wheel_delta_y.
     read_bind get_wheel_acks (\<lambda>wheel_acknowledgements.
     read_bind (get_optional get_bool) (\<lambda>wheel_has_blocking_listeners.
     read_bind (get_optional get_bool) (\<lambda>wheel_has_nested_scroll.
     read_bind get_history_actions (\<lambda>history_actions.
     read_bind (get_if (\<lambda>a. a \<noteq> Some 0) ''history traversal acknowledgement'' (get_optional get_u64)) (\<lambda>history_traversal_ack.
     read_bind (get_optional get_text_rejection) (\<lambda>native_text_rejection.
     read_bind get_report_texts (\<lambda>cookie_updates. read_bind get_bool (\<lambda>runtime_active.
     read_bind get_bool (\<lambda>runtime_stopped. read_bind get_bool (\<lambda>render_requested.
     read_bind (get_optional get_media_report) (\<lambda>media.
       read_ok \<lparr>rrp_scripts_executed = scripts_executed, rrp_dom_mutations = dom_mutations, rrp_errors = errors, rrp_console = console, rrp_diagnostics = diagnostics, rrp_navigation_url = fst navigation, rrp_navigation_options = snd navigation, rrp_viewport_scroll_y = viewport_scroll_y, rrp_viewport_wheel_delta_y = viewport_wheel_delta_y, rrp_wheel_acknowledgements = wheel_acknowledgements, rrp_wheel_has_blocking_listeners = wheel_has_blocking_listeners, rrp_wheel_has_nested_scroll = wheel_has_nested_scroll, rrp_history_actions = history_actions, rrp_history_traversal_ack = history_traversal_ack, rrp_native_text_rejection = native_text_rejection, rrp_cookie_updates = cookie_updates, rrp_runtime_active = runtime_active, rrp_runtime_stopped = runtime_stopped, rrp_render_requested = render_requested, rrp_media = media\<rparr>)))))))))))))))))
    (\<lambda>m bs. rrp_scripts_executed m = scripts_executed \<and> rrp_dom_mutations m = dom_mutations \<and> rrp_errors m = errors \<and> (report_texts_fits (rrp_console m)) \<and> (report_texts_fits (rrp_diagnostics m)) \<and> (navigation_fits ((rrp_navigation_url m, rrp_navigation_options m))) \<and> (pred_option offset_ok (rrp_viewport_scroll_y m)) \<and> (f32_is_finite (rrp_viewport_wheel_delta_y m)) \<and> (wheel_acks_fits (rrp_wheel_acknowledgements m)) \<and> (history_actions_fits (rrp_history_actions m)) \<and> ((rrp_history_traversal_ack m) \<noteq> Some 0) \<and> (pred_option (\<lambda>w. text_rejection_fits w) (rrp_native_text_rejection m)) \<and> (report_texts_fits (rrp_cookie_updates m)) \<and> (pred_option (\<lambda>w. media_report_fits w) (rrp_media m)) \<and> put_report_output put_history_action m = Inr bs)"
  apply (rule reads_cong, (rule reads_runtime_report_from_6 wire_reads)+)
  subgoal for m bs by (cases m; auto simp: put_report_output_def result_simps; blast)
  done

lemma reads_runtime_report [wire_reads]:
  "reads get_runtime_report (\<lambda>m bs. runtime_report_fits m \<and> put_runtime_report put_history_action m = Inr bs)"
  unfolding get_runtime_report_def
  apply (rule reads_cong, (rule reads_runtime_report_from_3 wire_reads)+)
  subgoal for m bs by (cases m; auto simp: runtime_report_fits_def put_runtime_report_def result_simps; blast)
  done

lemma encode_runtime_Inr:
  "encode_runtime m = Inr b \<longleftrightarrow> list_all history_action_ok (rrp_history_actions m) \<and> put_runtime_report put_history_action m = Inr b"
proof -
  have rest: "put_report_activity encode_history_action m = put_report_activity put_history_action m"
    by (simp add: put_report_activity_def)
  have listeners: "put_report_listeners encode_history_action m = Inr c \<longleftrightarrow>
      list_all history_action_ok (rrp_history_actions m) \<and> put_report_listeners put_history_action m = Inr c" for c
    by (auto simp: put_report_listeners_def result_simps encode_history_actions_Inr rest)
  have scrolling: "put_report_scrolling encode_history_action m = Inr c \<longleftrightarrow>
      list_all history_action_ok (rrp_history_actions m) \<and> put_report_scrolling put_history_action m = Inr c" for c
    by (auto simp: put_report_scrolling_def result_simps listeners)
  have outputs: "put_report_output encode_history_action m = Inr c \<longleftrightarrow>
      list_all history_action_ok (rrp_history_actions m) \<and> put_report_output put_history_action m = Inr c" for c
    by (auto simp: put_report_output_def result_simps scrolling)
  show ?thesis by (auto simp: encode_runtime_def put_runtime_report_def result_simps outputs)
qed

lemma reads_runtime_update [wire_reads]:
  "reads get_runtime_update (\<lambda>m bs. runtime_update_fits m \<and> put_runtime_update put_history_action m = Inr bs)"
  unfolding get_runtime_update_def
  apply (rule reads_cong, (rule wire_reads)+)
  subgoal for m bs by (cases m; auto simp: runtime_update_fits_def put_runtime_update_def result_simps; blast)
  done

interpretation runtime_update: payload_format "put_runtime_update put_history_action" "run_reader get_runtime_update" runtime_update_fits
  by (rule whole_format) (rule reads_runtime_update)

lemma encode_runtime_update_Inr:
  "encode_runtime_update m = Inr b \<longleftrightarrow>
     list_all history_action_ok (rrp_history_actions (rtu_runtime m)) \<and> put_runtime_update put_history_action m = Inr b"
proof -
  have "put_runtime_report encode_history_action r = Inr c \<longleftrightarrow>
      list_all history_action_ok (rrp_history_actions r) \<and> put_runtime_report put_history_action r = Inr c" for r c
    using encode_runtime_Inr [of r c] by (simp add: encode_runtime_def)
  then show ?thesis by (auto simp: encode_runtime_update_def put_runtime_update_def result_simps)
qed

end
