(* ===== verification/Ipc_Renderer_Messages.thy ===== *)
theory Ipc_Renderer_Messages
  imports Ipc_Kinds Ipc_Runtime Ipc_Video Ipc_State Ipc_Selection Ipc_Media Ipc_Services
begin

text \<open>
  The messages of a renderer and the match on their kinds (\<^verbatim>\<open>renderer_protocol/message.rs\<close>,
  \<^verbatim>\<open>codec/payload.rs\<close> and the document, state and input parts of \<^verbatim>\<open>codec/payload/\<close>).
\<close>

datatype renderer_message =
    VideoFrame video_chunk
  | DatabaseCommand database_command
  | SpeechRequest speech_request
  | NotificationRequest notification_request
  | ProtocolHandlerRequest protocol_handler_request
  | PermissionRequest permission_request
  | GeolocationRequest geolocation_request
  | MediaDeviceRequest media_device_request
  | MediaCaptureRequest capture_request
  | SensorRequest sensor_request
  | ClipboardRequest clipboard_request
  | FilePickerRequest file_picker_request
  | BroadcastCommand broadcast_command
  | WakeLockRequest wake_lock_request
  | WebSocketCommand web_socket_command
  | Ready ready
  | Pong u64
  | ShutdownComplete
  | Diagnostic diagnostic
  | FetchBatchStart fetch_batch_start
  | FetchRequestStart fetch_request_start
  | FetchRequestChunk transfer_chunk
  | FetchRequestEnd u64
  | FetchResponseConsumed response_consumed
  | FetchRequestAbort fetch_request_abort
  | PresentationStart presentation_start
  | PresentationChunk transfer_chunk
  | PresentationEnd presentation_end
  | RuntimeUpdate runtime_update
  | DocumentFailed document_failed
  | NavigationRequested navigation_requested
  | PointerCursor pointer_cursor_result
  | ScrollCompleted scroll_completed
  | CookieMutation cookie_mutation
  | PolicyMutation policy_mutation
  | StorageMutation mutation_request
  | StateSnapshotApplied snapshot_applied
  | FullscreenRequest fullscreen_request
  | PointerLockRequest lock_request
  | TextSelectionUpdate selection_update
  | Restrictions restrictions

definition encode_renderer_document :: "(history_action \<Rightarrow> protocol_error + bytes) \<Rightarrow> renderer_message \<Rightarrow> protocol_error + frame" where
  "encode_renderer_document put m =
     (case m of
        FetchBatchStart x \<Rightarrow> with_kind 0x0102 (put_fetch_batch_start x)
      | FetchRequestStart x \<Rightarrow> with_kind 0x0104 (put_fetch_request_start x)
      | FetchRequestChunk x \<Rightarrow> with_kind 0x0106 (put_transfer_chunk x)
      | FetchRequestEnd x \<Rightarrow> with_kind 0x0108 (put_document x)
      | FetchResponseConsumed x \<Rightarrow> with_kind 0x010c (put_response_consumed x)
      | FetchRequestAbort x \<Rightarrow> with_kind 0x010a (put_fetch_request_abort x)
      | PresentationStart x \<Rightarrow> with_kind 0x0112 (put_presentation_start x)
      | PresentationChunk x \<Rightarrow> with_kind 0x0114 (put_transfer_chunk x)
      | PresentationEnd x \<Rightarrow> with_kind 0x0116 (put_presentation_end x)
      | RuntimeUpdate x \<Rightarrow> with_kind 0x0120 (put_runtime_update put x)
      | DocumentFailed x \<Rightarrow> with_kind 0x0118 (put_document_failed x)
      | NavigationRequested x \<Rightarrow> with_kind 0x011a (put_navigation_requested x)
      | PointerCursor x \<Rightarrow> with_kind 0x011e (put_pointer_cursor_result x)
      | ScrollCompleted x \<Rightarrow> with_kind 0x0122 (put_scroll_completed x)
      | _ \<Rightarrow> Inl (InvalidPayload ''renderer document message''))"

definition decode_renderer_document :: "16 word \<Rightarrow> bytes \<Rightarrow> protocol_error + renderer_message" where
  "decode_renderer_document kind p =
     (if kind = 0x0102 then map_sum id FetchBatchStart (run_reader get_fetch_batch_start p)
      else if kind = 0x0104 then map_sum id FetchRequestStart (run_reader get_fetch_request_start p)
      else if kind = 0x0106 then map_sum id FetchRequestChunk (run_reader get_transfer_chunk p)
      else if kind = 0x0108 then map_sum id FetchRequestEnd (run_reader (get_nonzero ''Fetch request'') p)
      else if kind = 0x010c then map_sum id FetchResponseConsumed (run_reader get_response_consumed p)
      else if kind = 0x010a then map_sum id FetchRequestAbort (run_reader get_fetch_request_abort p)
      else if kind = 0x0112 then map_sum id PresentationStart (run_reader get_presentation_start p)
      else if kind = 0x0114 then map_sum id PresentationChunk (run_reader get_transfer_chunk p)
      else if kind = 0x0116 then map_sum id PresentationEnd (run_reader get_presentation_end p)
      else if kind = 0x0120 then map_sum id RuntimeUpdate (run_reader get_runtime_update p)
      else if kind = 0x0118 then map_sum id DocumentFailed (run_reader get_document_failed p)
      else if kind = 0x011a then map_sum id NavigationRequested (run_reader get_navigation_requested p)
      else if kind = 0x011e then map_sum id PointerCursor (run_reader get_pointer_cursor_result p)
      else if kind = 0x0122 then map_sum id ScrollCompleted (run_reader get_scroll_completed p)
      else Inl (UnexpectedMessage (unat kind)))"

definition encode_renderer_state :: "renderer_message \<Rightarrow> protocol_error + frame" where
  "encode_renderer_state m =
     (case m of
        CookieMutation x \<Rightarrow> with_kind 0x0132 (put_cookie_mutation x)
      | PolicyMutation x \<Rightarrow> with_kind 0x013a (put_policy_mutation x)
      | StorageMutation x \<Rightarrow> with_kind 0x0134 (put_mutation_request x)
      | StateSnapshotApplied x \<Rightarrow> with_kind 0x0136 (put_snapshot_applied x)
      | _ \<Rightarrow> Inl (InvalidPayload ''renderer state message''))"

definition decode_renderer_state :: "16 word \<Rightarrow> bytes \<Rightarrow> protocol_error + renderer_message" where
  "decode_renderer_state kind p =
     (if kind = 0x0132 then map_sum id CookieMutation (run_reader get_cookie_mutation p)
      else if kind = 0x013a then map_sum id PolicyMutation (run_reader get_policy_mutation p)
      else if kind = 0x0134 then map_sum id StorageMutation (run_reader get_mutation_request p)
      else if kind = 0x0136 then map_sum id StateSnapshotApplied (run_reader get_snapshot_applied p)
      else Inl (UnexpectedMessage (unat kind)))"

definition encode_renderer_input :: "renderer_message \<Rightarrow> protocol_error + frame" where
  "encode_renderer_input m =
     (case m of
        FullscreenRequest x \<Rightarrow> with_kind 0x0150 (put_fullscreen_request x)
      | PointerLockRequest x \<Rightarrow> with_kind 0x0152 (put_lock_request x)
      | TextSelectionUpdate x \<Rightarrow> with_kind 0x0156 (put_selection_update x)
      | _ \<Rightarrow> Inl (InvalidPayload ''renderer input message''))"

definition decode_renderer_input :: "16 word \<Rightarrow> bytes \<Rightarrow> protocol_error + renderer_message" where
  "decode_renderer_input kind p =
     (if kind = 0x0150 then map_sum id FullscreenRequest (run_reader get_fullscreen_request p)
      else if kind = 0x0152 then map_sum id PointerLockRequest (run_reader get_lock_request p)
      else if kind = 0x0156 then map_sum id TextSelectionUpdate (run_reader get_selection_update p)
      else Inl (UnexpectedMessage (unat kind)))"

text \<open>As in the report, the writer of a history action is a parameter; the code uses \<open>encode_history_action\<close>.\<close>

definition renderer_frame :: "(history_action \<Rightarrow> protocol_error + bytes) \<Rightarrow> renderer_message \<Rightarrow> protocol_error + frame" where
  "renderer_frame put m =
     (case m of
        VideoFrame x \<Rightarrow> with_kind 0x0160 (encode_video_chunk x)
      | DatabaseCommand x \<Rightarrow> with_kind 0x0180 (encode_database_command x)
      | SpeechRequest x \<Rightarrow> with_kind 0x0190 (encode_speech_request x)
      | NotificationRequest x \<Rightarrow> with_kind 0x01a0 (encode_notification_request x)
      | ProtocolHandlerRequest x \<Rightarrow> with_kind 0x01e0 (encode_protocol_handler_request x)
      | PermissionRequest x \<Rightarrow> with_kind 0x0220 (encode_permission_request x)
      | GeolocationRequest x \<Rightarrow> with_kind 0x01b0 (encode_geolocation_request x)
      | MediaDeviceRequest x \<Rightarrow> with_kind 0x01c0 (encode_media_device_request x)
      | MediaCaptureRequest x \<Rightarrow> with_kind 0x0230 (encode_capture_request x)
      | SensorRequest x \<Rightarrow> with_kind 0x01d0 (encode_sensor_request x)
      | ClipboardRequest x \<Rightarrow> with_kind 0x01f0 (encode_clipboard_request x)
      | FilePickerRequest x \<Rightarrow> with_kind 0x0240 (encode_file_picker_request x)
      | BroadcastCommand x \<Rightarrow> with_kind 0x0200 (encode_broadcast_command x)
      | WakeLockRequest x \<Rightarrow> with_kind 0x0210 (encode_wake_lock_request x)
      | WebSocketCommand x \<Rightarrow> with_kind 0x0170 (encode_web_socket_command x)
      | Ready x \<Rightarrow> with_kind 2 (encode_ready x)
      | Pong x \<Rightarrow> with_kind 4 (encode_token x)
      | ShutdownComplete \<Rightarrow> with_kind 6 (encode_empty ())
      | Diagnostic x \<Rightarrow> with_kind 8 (encode_diagnostic x)
      | Restrictions x \<Rightarrow> with_kind 0x8002 (encode_restrictions x)
      | FetchBatchStart _ \<Rightarrow> encode_renderer_document put m
      | FetchRequestStart _ \<Rightarrow> encode_renderer_document put m
      | FetchRequestChunk _ \<Rightarrow> encode_renderer_document put m
      | FetchRequestEnd _ \<Rightarrow> encode_renderer_document put m
      | FetchResponseConsumed _ \<Rightarrow> encode_renderer_document put m
      | FetchRequestAbort _ \<Rightarrow> encode_renderer_document put m
      | PresentationStart _ \<Rightarrow> encode_renderer_document put m
      | PresentationChunk _ \<Rightarrow> encode_renderer_document put m
      | PresentationEnd _ \<Rightarrow> encode_renderer_document put m
      | RuntimeUpdate _ \<Rightarrow> encode_renderer_document put m
      | DocumentFailed _ \<Rightarrow> encode_renderer_document put m
      | NavigationRequested _ \<Rightarrow> encode_renderer_document put m
      | PointerCursor _ \<Rightarrow> encode_renderer_document put m
      | ScrollCompleted _ \<Rightarrow> encode_renderer_document put m
      | CookieMutation _ \<Rightarrow> encode_renderer_state m
      | PolicyMutation _ \<Rightarrow> encode_renderer_state m
      | StorageMutation _ \<Rightarrow> encode_renderer_state m
      | StateSnapshotApplied _ \<Rightarrow> encode_renderer_state m
      | FullscreenRequest _ \<Rightarrow> encode_renderer_input m
      | PointerLockRequest _ \<Rightarrow> encode_renderer_input m
      | TextSelectionUpdate _ \<Rightarrow> encode_renderer_input m)"

definition encode_renderer :: "renderer_message \<Rightarrow> protocol_error + frame" where
  "encode_renderer = renderer_frame encode_history_action"

definition decode_renderer :: "16 word \<Rightarrow> bytes \<Rightarrow> protocol_error + renderer_message" where
  "decode_renderer kind p =
     (if kind = 0x0160 then map_sum id VideoFrame (decode_video_chunk p)
      else if kind = 0x0180 then map_sum id DatabaseCommand (decode_database_command p)
      else if kind = 0x0190 then map_sum id SpeechRequest (decode_speech_request p)
      else if kind = 0x01a0 then map_sum id NotificationRequest (decode_notification_request p)
      else if kind = 0x01e0 then map_sum id ProtocolHandlerRequest (decode_protocol_handler_request p)
      else if kind = 0x0220 then map_sum id PermissionRequest (decode_permission_request p)
      else if kind = 0x01b0 then map_sum id GeolocationRequest (decode_geolocation_request p)
      else if kind = 0x01c0 then map_sum id MediaDeviceRequest (decode_media_device_request p)
      else if kind = 0x0230 then map_sum id MediaCaptureRequest (decode_capture_request p)
      else if kind = 0x01d0 then map_sum id SensorRequest (decode_sensor_request p)
      else if kind = 0x01f0 then map_sum id ClipboardRequest (decode_clipboard_request p)
      else if kind = 0x0240 then map_sum id FilePickerRequest (decode_file_picker_request p)
      else if kind = 0x0200 then map_sum id BroadcastCommand (decode_broadcast_command p)
      else if kind = 0x0210 then map_sum id WakeLockRequest (decode_wake_lock_request p)
      else if kind = 0x0170 then map_sum id WebSocketCommand (decode_web_socket_command p)
      else if kind = 2 then map_sum id Ready (decode_ready p)
      else if kind = 4 then map_sum id Pong (decode_token p)
      else if kind = 6 then map_sum id (\<lambda>_. ShutdownComplete) (decode_empty p)
      else if kind = 8 then map_sum id Diagnostic (decode_diagnostic p)
      else if kind \<in> {0x0102, 0x0104, 0x0106, 0x0108, 0x010a, 0x010c, 0x0112, 0x0114, 0x0116, 0x0118, 0x011a, 0x011e, 0x0120, 0x0122}
      then decode_renderer_document kind p
      else if kind \<in> {0x0132, 0x013a, 0x0134, 0x0136} then decode_renderer_state kind p
      else if kind \<in> {0x0150, 0x0152, 0x0156} then decode_renderer_input kind p
      else if kind = 0x8002 then map_sum id Restrictions (decode_restrictions p)
      else Inl (UnexpectedMessage (unat kind)))"

definition renderer_fits :: "renderer_message \<Rightarrow> bool" where
  "renderer_fits m = (case m of
     VideoFrame x \<Rightarrow> video_chunk_fits x
   | DatabaseCommand x \<Rightarrow> database_command_fits x
   | SpeechRequest x \<Rightarrow> speech_request_fits x
   | NotificationRequest x \<Rightarrow> notification_request_fits x
   | ProtocolHandlerRequest x \<Rightarrow> protocol_handler_request_fits x
   | PermissionRequest x \<Rightarrow> permission_request_fits x
   | GeolocationRequest x \<Rightarrow> geolocation_request_fits x
   | MediaDeviceRequest x \<Rightarrow> media_device_request_fits x
   | MediaCaptureRequest x \<Rightarrow> capture_request_fits x
   | SensorRequest x \<Rightarrow> sensor_request_fits x
   | ClipboardRequest x \<Rightarrow> clipboard_request_fits x
   | FilePickerRequest x \<Rightarrow> file_picker_request_fits x
   | BroadcastCommand x \<Rightarrow> broadcast_command_fits x
   | WakeLockRequest x \<Rightarrow> wake_lock_request_fits x
   | WebSocketCommand x \<Rightarrow> web_socket_command_fits x
   | Ready x \<Rightarrow> ready_fits x
   | Diagnostic x \<Rightarrow> diagnostic_fits x
   | FetchBatchStart x \<Rightarrow> fetch_batch_start_fits x
   | FetchRequestStart x \<Rightarrow> fetch_request_start_fits x
   | FetchRequestChunk x \<Rightarrow> transfer_chunk_fits x
   | FetchRequestEnd x \<Rightarrow> x \<noteq> 0
   | FetchResponseConsumed x \<Rightarrow> response_consumed_fits x
   | FetchRequestAbort x \<Rightarrow> fetch_request_abort_fits x
   | PresentationStart x \<Rightarrow> presentation_start_fits x
   | PresentationChunk x \<Rightarrow> transfer_chunk_fits x
   | PresentationEnd x \<Rightarrow> presentation_end_fits x
   | RuntimeUpdate x \<Rightarrow> runtime_update_fits x
   | DocumentFailed x \<Rightarrow> document_failed_fits x
   | NavigationRequested x \<Rightarrow> navigation_requested_fits x
   | PointerCursor x \<Rightarrow> pointer_cursor_result_fits x
   | ScrollCompleted x \<Rightarrow> scroll_completed_fits x
   | CookieMutation x \<Rightarrow> cookie_mutation_fits x
   | PolicyMutation x \<Rightarrow> policy_mutation_fits x
   | StorageMutation x \<Rightarrow> mutation_request_fits x
   | StateSnapshotApplied x \<Rightarrow> snapshot_applied_fits x
   | FullscreenRequest x \<Rightarrow> fullscreen_request_fits x
   | PointerLockRequest x \<Rightarrow> lock_request_fits x
   | TextSelectionUpdate x \<Rightarrow> selection_update_fits x
   | _ \<Rightarrow> True)"

section \<open>Exactness of the match on kinds\<close>

lemma decode_renderer_document_Inr:
  assumes "length p \<le> u64_max"
  shows "decode_renderer_document kind p = Inr m \<longleftrightarrow>
    (case m of
       FetchBatchStart x \<Rightarrow> kind = 0x0102 \<and> fetch_batch_start_fits x \<and> put_fetch_batch_start x = Inr p
     | FetchRequestStart x \<Rightarrow> kind = 0x0104 \<and> fetch_request_start_fits x \<and> put_fetch_request_start x = Inr p
     | FetchRequestChunk x \<Rightarrow> kind = 0x0106 \<and> transfer_chunk_fits x \<and> put_transfer_chunk x = Inr p
     | FetchRequestEnd x \<Rightarrow> kind = 0x0108 \<and> x \<noteq> 0 \<and> put_document x = Inr p
     | FetchResponseConsumed x \<Rightarrow> kind = 0x010c \<and> response_consumed_fits x \<and> put_response_consumed x = Inr p
     | FetchRequestAbort x \<Rightarrow> kind = 0x010a \<and> fetch_request_abort_fits x \<and> put_fetch_request_abort x = Inr p
     | PresentationStart x \<Rightarrow> kind = 0x0112 \<and> presentation_start_fits x \<and> put_presentation_start x = Inr p
     | PresentationChunk x \<Rightarrow> kind = 0x0114 \<and> transfer_chunk_fits x \<and> put_transfer_chunk x = Inr p
     | PresentationEnd x \<Rightarrow> kind = 0x0116 \<and> presentation_end_fits x \<and> put_presentation_end x = Inr p
     | RuntimeUpdate x \<Rightarrow> kind = 0x0120 \<and> runtime_update_fits x \<and> put_runtime_update put_history_action x = Inr p
     | DocumentFailed x \<Rightarrow> kind = 0x0118 \<and> document_failed_fits x \<and> put_document_failed x = Inr p
     | NavigationRequested x \<Rightarrow> kind = 0x011a \<and> navigation_requested_fits x \<and> put_navigation_requested x = Inr p
     | PointerCursor x \<Rightarrow> kind = 0x011e \<and> pointer_cursor_result_fits x \<and> put_pointer_cursor_result x = Inr p
     | ScrollCompleted x \<Rightarrow> kind = 0x0122 \<and> scroll_completed_fits x \<and> put_scroll_completed x = Inr p
     | _ \<Rightarrow> False)"
  unfolding decode_renderer_document_def
  by (cases m) (simp_all add: tagged_Inr
    fetch_batch_start.decode_iff [OF assms] fetch_request_start.decode_iff [OF assms]
    transfer_chunk.decode_iff [OF assms] request_only.decode_iff [OF assms]
    response_consumed.decode_iff [OF assms] fetch_request_abort.decode_iff [OF assms]
    presentation_start.decode_iff [OF assms] presentation_end.decode_iff [OF assms]
    runtime_update.decode_iff [OF assms] document_failed.decode_iff [OF assms]
    navigation_requested.decode_iff [OF assms] pointer_cursor_result.decode_iff [OF assms]
    scroll_completed.decode_iff [OF assms])

lemma decode_renderer_state_Inr:
  assumes "length p \<le> u64_max"
  shows "decode_renderer_state kind p = Inr m \<longleftrightarrow>
    (case m of
       CookieMutation x \<Rightarrow> kind = 0x0132 \<and> cookie_mutation_fits x \<and> put_cookie_mutation x = Inr p
     | PolicyMutation x \<Rightarrow> kind = 0x013a \<and> policy_mutation_fits x \<and> put_policy_mutation x = Inr p
     | StorageMutation x \<Rightarrow> kind = 0x0134 \<and> mutation_request_fits x \<and> put_mutation_request x = Inr p
     | StateSnapshotApplied x \<Rightarrow> kind = 0x0136 \<and> snapshot_applied_fits x \<and> put_snapshot_applied x = Inr p
     | _ \<Rightarrow> False)"
  unfolding decode_renderer_state_def
  by (cases m) (simp_all add: tagged_Inr
    cookie_mutation.decode_iff [OF assms] policy_mutation.decode_iff [OF assms]
    mutation_request.decode_iff [OF assms] snapshot_applied.decode_iff [OF assms])

lemma decode_renderer_input_Inr:
  assumes "length p \<le> u64_max"
  shows "decode_renderer_input kind p = Inr m \<longleftrightarrow>
    (case m of
       FullscreenRequest x \<Rightarrow> kind = 0x0150 \<and> fullscreen_request_fits x \<and> put_fullscreen_request x = Inr p
     | PointerLockRequest x \<Rightarrow> kind = 0x0152 \<and> lock_request_fits x \<and> put_lock_request x = Inr p
     | TextSelectionUpdate x \<Rightarrow> kind = 0x0156 \<and> selection_update_fits x \<and> put_selection_update x = Inr p
     | _ \<Rightarrow> False)"
  unfolding decode_renderer_input_def
  by (cases m) (simp_all add: tagged_Inr
    fullscreen_request.decode_iff [OF assms] lock_request.decode_iff [OF assms]
    selection_update.decode_iff [OF assms])

lemma renderer_frame_iff:
  assumes "length p \<le> payload_limit kind"
  shows "decode_renderer kind p = Inr m \<longleftrightarrow> renderer_fits m \<and> renderer_frame put_history_action m = Inr (kind, p)"
proof -
  have b: "length p \<le> u64_max"
    using assms payload_limit_bound [of kind] by (simp add: u32_max_def u64_max_def)
  note pieces = decode_renderer_document_Inr [OF b] decode_renderer_state_Inr [OF b] decode_renderer_input_Inr [OF b]
  show ?thesis
    unfolding decode_renderer_def
    apply (cases m)
    apply (simp_all add: tagged_Inr with_kind_Inr pieces renderer_fits_def renderer_frame_def encode_renderer_document_def encode_renderer_state_def encode_renderer_input_def
    video_chunk.decode_iff [OF b] database_command.decode_iff [OF b] speech_request.decode_iff [OF b]
    notification_request.decode_iff [OF b] protocol_handler_request.decode_iff [OF b]
    permission_request.decode_iff [OF b] geolocation_request.decode_iff [OF b]
    media_device_request.decode_iff [OF b] capture_request.decode_iff [OF b] sensor_request.decode_iff [OF b]
    clipboard_request.decode_iff [OF b] file_picker_request.decode_iff [OF b]
    broadcast_command.decode_iff [OF b] wake_lock_request.decode_iff [OF b]
    web_socket_command.decode_iff [OF b] ready.decode_iff [OF b] token.decode_iff [OF b]
    empty.decode_iff [OF b] diagnostic.decode_iff [OF b] restrictions.decode_iff [OF b])
    done
qed

text \<open>The code's encoder refuses, in addition, a report with a history update the decoder would accept.\<close>

definition histories_ok :: "renderer_message \<Rightarrow> bool" where
  "histories_ok m = (case m of RuntimeUpdate x \<Rightarrow> list_all history_action_ok (rrp_history_actions (rtu_runtime x)) | _ \<Rightarrow> True)"

lemma encode_renderer_Inr:
  "encode_renderer m = Inr f \<longleftrightarrow> histories_ok m \<and> renderer_frame put_history_action m = Inr f"
proof (cases m)
  case (RuntimeUpdate x)
  then show ?thesis
    by (auto simp: encode_renderer_def renderer_frame_def encode_renderer_document_def with_kind_Inr histories_ok_def
        encode_runtime_update_Inr [unfolded encode_runtime_update_def])
qed (simp_all add: encode_renderer_def renderer_frame_def encode_renderer_document_def histories_ok_def)

lemma decode_renderer_iff:
  assumes "length p \<le> payload_limit kind" "histories_ok m"
  shows "decode_renderer kind p = Inr m \<longleftrightarrow> renderer_fits m \<and> encode_renderer m = Inr (kind, p)"
  using renderer_frame_iff [OF assms(1), of m] assms(2) by (simp add: encode_renderer_Inr)

end
