(* ===== verification/Ipc_Session.thy ===== *)
theory Ipc_Session
  imports Ipc_Browser_Messages Ipc_Renderer_Messages
begin

text \<open>
  Whole messages over a stream (\<^verbatim>\<open>send_browser\<close>, \<^verbatim>\<open>send_renderer\<close>, \<^verbatim>\<open>read_browser\<close> and \<^verbatim>\<open>read_renderer\<close> of
  \<^verbatim>\<open>renderer_protocol/codec.rs\<close>): what one side sends is what the other side reads, and nothing else is read.
\<close>

section \<open>Sending and receiving\<close>

definition send :: "('m \<Rightarrow> protocol_error + frame) \<Rightarrow> 'w sink \<Rightarrow> 'm \<Rightarrow> 'w frame_writer \<Rightarrow> (protocol_error + unit) \<times> 'w frame_writer" where
  "send encode io m w = (case encode m of Inl e \<Rightarrow> (Inl e, w) | Inr (kind, payload) \<Rightarrow> write_frame io kind payload w)"

definition receive :: "(16 word \<Rightarrow> bytes \<Rightarrow> protocol_error + 'm) \<Rightarrow> direction \<Rightarrow> 'r source \<Rightarrow> 'r frame_reader \<Rightarrow> (protocol_error + 'm) \<times> 'r frame_reader" where
  "receive decode d io r =
     (case read_frame io d r of
        (Inl e, r') \<Rightarrow> (Inl e, r')
      | (Inr (kind, payload), r') \<Rightarrow> (decode kind payload, r'))"

definition send_browser :: "'w sink \<Rightarrow> browser_message \<Rightarrow> 'w frame_writer \<Rightarrow> (protocol_error + unit) \<times> 'w frame_writer" where
  "send_browser = send encode_browser"

definition send_renderer :: "'w sink \<Rightarrow> renderer_message \<Rightarrow> 'w frame_writer \<Rightarrow> (protocol_error + unit) \<times> 'w frame_writer" where
  "send_renderer = send encode_renderer"

definition read_browser :: "'r source \<Rightarrow> 'r frame_reader \<Rightarrow> (protocol_error + browser_message) \<times> 'r frame_reader" where
  "read_browser = receive decode_browser FromBrowser"

definition read_renderer :: "'r source \<Rightarrow> 'r frame_reader \<Rightarrow> (protocol_error + renderer_message) \<times> 'r frame_reader" where
  "read_renderer = receive decode_renderer FromRenderer"

text \<open>Runs of calls, until one fails.\<close>

fun send_all :: "('m \<Rightarrow> 's \<Rightarrow> ('e + unit) \<times> 's) \<Rightarrow> 'm list \<Rightarrow> 's \<Rightarrow> ('e + unit) \<times> 's" where
  "send_all snd1 [] w = (Inr (), w)"
| "send_all snd1 (m # ms) w = (case snd1 m w of (Inl e, w') \<Rightarrow> (Inl e, w') | (Inr _, w') \<Rightarrow> send_all snd1 ms w')"

fun receive_all :: "('s \<Rightarrow> (protocol_error + 'm) \<times> 's) \<Rightarrow> nat \<Rightarrow> 's \<Rightarrow> (protocol_error + 'm list) \<times> 's" where
  "receive_all rcv 0 r = (Inr [], r)"
| "receive_all rcv (Suc n) r =
     (case rcv r of (Inl e, r') \<Rightarrow> (Inl e, r') | (Inr m, r') \<Rightarrow> map_prod (map_sum id ((#) m)) id (receive_all rcv n r'))"

lemma send_all_append:
  "send_all f (ms @ ns) w = (Inr (), w') \<longleftrightarrow> (\<exists>w1. send_all f ms w = (Inr (), w1) \<and> send_all f ns w1 = (Inr (), w'))"
proof (induction ms arbitrary: w)
  case (Cons m ms)
  show ?case by (cases "f m w"; cases "fst (f m w)") (auto simp: Cons.IH)
qed simp

lemma send_all_Cons:
  "send_all f (m # ms) w = (Inr (), w') \<longleftrightarrow> (\<exists>w1. f m w = (Inr (), w1) \<and> send_all f ms w1 = (Inr (), w'))"
  by (cases "f m w"; cases "fst (f m w)") auto

section \<open>The contract of a message codec\<close>

text \<open>No kind has a limit that the readers' default maximum would cut.\<close>

lemma payload_limit_within: "payload_limit kind \<le> max MAX_FRAME_PAYLOAD MAX_STORAGE_SYNC_FRAME_BYTES"
  by (simp add: payload_limit_def limit_simps)

lemma send_steps:
  "encode m = Inl e \<Longrightarrow> send encode io m w = (Inl e, w)"
  "encode m = Inr f \<Longrightarrow> send encode io m w = write_frame io (fst f) (snd f) w"
  by (simp_all add: send_def split: prod.splits)

lemma receive_steps:
  "read_frame io d r = (Inl e, r') \<Longrightarrow> receive decode d io r = (Inl e, r')"
  "read_frame io d r = (Inr f, r') \<Longrightarrow> receive decode d io r = (decode (fst f) (snd f), r')"
  by (simp_all add: receive_def split: prod.splits)

locale message_format =
  fixes encode :: "'m \<Rightarrow> protocol_error + frame" and decode :: "16 word \<Rightarrow> bytes \<Rightarrow> protocol_error + 'm"
    and fits :: "'m \<Rightarrow> bool" and d :: direction
  assumes decode_iff: "length p \<le> payload_limit kind \<Longrightarrow> decode kind p = Inr m \<longleftrightarrow> fits m \<and> encode m = Inr (kind, p)"
    and allowed: "encode m = Inr (kind, p) \<Longrightarrow> direction_allows d kind"
begin

lemma send_all_frames:
  "send_all (send encode io) ms w = (Inr (), w') \<longleftrightarrow>
     (\<exists>fs. list_all2 (\<lambda>m f. encode m = Inr f) ms fs \<and> write_frames io fs w = (Inr (), w'))"
proof (induction ms arbitrary: w)
  case (Cons m ms)
  show ?case
  proof (cases "encode m")
    case (Inr f)
    show ?thesis
      by (cases "write_frame io (fst f) (snd f) w"; cases "fst (write_frame io (fst f) (snd f) w)")
        (auto simp: Inr send_steps(2) [of encode m f io, OF Inr] Cons.IH list_all2_Cons1 simp del: split_paired_Ex)
  qed (auto simp: send_steps list_all2_Cons1)
qed auto

lemma receive_all_frames:
  "receive_all (receive decode d io) n r = (Inr ms, r') \<longleftrightarrow>
     (\<exists>fs. list_all2 (\<lambda>m f. decode (fst f) (snd f) = Inr m) ms fs \<and> read_frames io d n r = (Inr fs, r'))"
proof (induction n arbitrary: r ms)
  case (Suc n)
  obtain x r1 where one: "read_frame io d r = (x, r1)" by fastforce
  show ?case
  proof (cases x)
    case (Inl e)
    then show ?thesis using one by (simp add: receive_steps(1))
  next
    case (Inr f)
    with one have f: "read_frame io d r = (Inr f, r1)" by simp
    show ?thesis
      by (cases "decode (fst f) (snd f)") (auto simp: f receive_steps(2) [of io d r f r1 decode, OF f] Suc.IH list_all2_Cons1 list_all2_Cons2)
  qed
qed auto

lemma same_frames:
  assumes "list_all (\<lambda>f. length (snd f) \<le> payload_limit (fst f)) fs"
  shows "list_all2 (\<lambda>m f. decode (fst f) (snd f) = Inr m) ms fs \<longleftrightarrow>
    list_all fits ms \<and> list_all2 (\<lambda>m f. encode m = Inr f) ms fs"
  using assms
proof (induction fs arbitrary: ms)
  case (Cons f fs)
  then have f: "decode (fst f) (snd f) = Inr m \<longleftrightarrow> fits m \<and> encode m = Inr f" for m
    by (simp add: decode_iff)
  from Cons show ?case by (cases ms) (auto simp: f)
qed auto

text \<open>A buffer is read as the messages \<open>ms\<close> exactly when it begins with what sending \<open>ms\<close> writes.\<close>

lemma accepted_iff_sent:
  "fst (receive_all (receive decode d slice_source) n (frame_reader_new b session)) = Inr ms \<longleftrightarrow>
     length ms = n \<and> n < u64_max \<and> list_all fits ms
     \<and> (\<exists>w rest. send_all (send encode vec_sink) ms (frame_writer_new [] session) = (Inr (), w) \<and> b = fw_inner w @ rest)"
    (is "?L \<longleftrightarrow> ?R")
proof
  assume ?L
  then obtain r' where "receive_all (receive decode d slice_source) n (frame_reader_new b session) = (Inr ms, r')"
    by (metis prod.collapse)
  then obtain fs where dec: "list_all2 (\<lambda>m f. decode (fst f) (snd f) = Inr m) ms fs"
    and r: "read_frames slice_source d n (frame_reader_new b session) = (Inr fs, r')"
    by (auto simp: receive_all_frames)
  from slice.read_frames_ok [OF r] have ok: "list_all (frame_ok d (max MAX_FRAME_PAYLOAD MAX_STORAGE_SYNC_FRAME_BYTES)) fs"
    and n: "length fs = n" "n < u64_max" and b: "b = frames_bytes session 1 fs @ fr_inner r'"
    by (auto simp: frame_reader_new_def)
  have small: "list_all (\<lambda>f. length (snd f) \<le> payload_limit (fst f)) fs"
    using ok by (simp add: list_all_iff frame_ok_def)
  obtain w where w: "write_frames vec_sink fs (frame_writer_new [] session) = (Inr (), w)"
    using vec.write_frames_accepts [OF small, of "frame_writer_new [] session"] n by (auto simp: frame_writer_new_def)
  from vec.write_frames_ok [OF w] have "fw_inner w = frames_bytes session 1 fs" by (simp add: frame_writer_new_def)
  moreover have "send_all (send encode vec_sink) ms (frame_writer_new [] session) = (Inr (), w)"
    using dec w small by (auto simp: send_all_frames same_frames)
  ultimately show ?R using dec small b n list_all2_lengthD [OF dec] by (auto simp: same_frames)
next
  assume ?R
  then obtain w rest fs where fs: "list_all2 (\<lambda>m f. encode m = Inr f) ms fs" and b: "b = fw_inner w @ rest"
    and w: "write_frames vec_sink fs (frame_writer_new [] session) = (Inr (), w)" and n: "length ms = n" "n < u64_max"
    and fits: "list_all fits ms"
    by (auto simp: send_all_frames)
  from vec.write_frames_ok [OF w] have inner: "fw_inner w = frames_bytes session 1 fs"
    and small: "list_all (\<lambda>f. length (snd f) \<le> payload_limit (fst f)) fs"
    by (auto simp: frame_writer_new_def)
  have "list_all (\<lambda>f. direction_allows d (fst f)) fs"
    using fs by (auto simp: list_all2_conv_all_nth list_all_length intro: allowed) (metis allowed prod.collapse)
  with small have "list_all (frame_ok d (max MAX_FRAME_PAYLOAD MAX_STORAGE_SYNC_FRAME_BYTES)) fs"
    using payload_limit_within by (auto simp: list_all_iff frame_ok_def intro: order_trans)
  with slice.read_frames_accepts [of "frame_reader_new b session" fs rest d] b inner n list_all2_lengthD [OF fs]
  obtain r' where "read_frames slice_source d n (frame_reader_new b session) = (Inr fs, r')"
    by (auto simp: frame_reader_new_def)
  with fs fits small have "receive_all (receive decode d slice_source) n (frame_reader_new b session) = (Inr ms, r')"
    by (auto simp: receive_all_frames same_frames)
  then show ?L by simp
qed

end

section \<open>The two directions\<close>

lemma encode_browser_allowed:
  assumes "encode_browser m = Inr (kind, p)"
  shows "direction_allows FromBrowser kind"
proof (cases m)
  case (Input x)
  with assms have "encode_input x = Inr (kind, p)" by (simp add: encode_browser_def encode_browser_input_def)
  from input_kinds [OF this] show ?thesis by auto
qed (use assms in \<open>auto simp: encode_browser_def encode_browser_document_def encode_browser_state_def encode_browser_input_def
      with_kind_Inr\<close>)

lemma renderer_frame_allowed: "renderer_frame put m = Inr (kind, p) \<Longrightarrow> direction_allows FromRenderer kind"
  by (cases m) (auto simp: renderer_frame_def encode_renderer_document_def encode_renderer_state_def encode_renderer_input_def
      with_kind_Inr)

interpretation browser: message_format encode_browser decode_browser browser_fits FromBrowser
  by unfold_locales (rule decode_browser_iff encode_browser_allowed, assumption)+

interpretation renderer: message_format "renderer_frame put_history_action" decode_renderer renderer_fits FromRenderer
  by unfold_locales (rule renderer_frame_iff renderer_frame_allowed, assumption)+

text \<open>Whatever the encoder of a renderer sends is the frame of the format.\<close>

lemma send_renderer_frames:
  assumes "send_all (send_renderer io) ms w = (Inr (), w')"
  shows "send_all (send (renderer_frame put_history_action) io) ms w = (Inr (), w')"
  using assms
proof (induction ms arbitrary: w)
  case (Cons m ms)
  from Cons.prems obtain f where f: "encode_renderer m = Inr f"
    by (cases "encode_renderer m") (auto simp: send_renderer_def send_steps)
  then have "renderer_frame put_history_action m = Inr f" by (simp add: encode_renderer_Inr)
  with f have "send_renderer io m w = send (renderer_frame put_history_action) io m w"
    by (simp add: send_renderer_def send_def)
  with Cons show ?case by (auto split: prod.splits sum.splits)
qed simp

section \<open>Properties\<close>

text \<open>C18: The browser's messages on a stream: a renderer that reads a buffer of any bytes gets the n messages ms
  exactly when every message of ms passes the checks that the renderer's decoder makes on its fields (browser_fits)
  and the buffer begins with what the browser writes when it sends ms in this session. Nothing else decodes, no message
  has two encodings, and messages that pass these checks arrive complete and in order. The condition is needed: the
  encoder also accepts some messages that the decoder refuses, namely a ViewportChanged that does not validate, a
  FetchResponseAbort with a text of more than 64 KiB and a WebSocket subprotocol of more than 128 bytes.\<close>

theorem browser_messages_read_iff_sent:
  "fst (receive_all (read_browser slice_source) n (frame_reader_new b session)) = Inr ms \<longleftrightarrow>
     length ms = n \<and> n < u64_max \<and> list_all browser_fits ms
     \<and> (\<exists>w rest. send_all (send_browser vec_sink) ms (frame_writer_new [] session) = (Inr (), w) \<and> b = fw_inner w @ rest)"
  unfolding read_browser_def send_browser_def by (rule browser.accepted_iff_sent)

text \<open>C19: A renderer's messages arrive at the browser complete and in order, whatever follows them on the stream, if
  they pass the checks that the browser's decoder makes on their fields (renderer_fits) and were all accepted by the
  writer. The first condition is needed: the encoder also accepts a WebSocket subprotocol of more than 128 bytes, for
  instance, which the decoder refuses.\<close>

theorem renderer_messages_arrive:
  assumes "send_all (send_renderer vec_sink) ms (frame_writer_new [] session) = (Inr (), w)" "list_all renderer_fits ms"
    and "length ms < u64_max"
  shows "fst (receive_all (read_renderer slice_source) (length ms) (frame_reader_new (fw_inner w @ rest) session)) = Inr ms"
  unfolding read_renderer_def renderer.accepted_iff_sent
  using send_renderer_frames [OF assms(1)] assms(2,3) by blast

theorem renderer_messages_arrive_witness:
  "\<exists>w. send_all (send_renderer vec_sink) [Pong 7, ShutdownComplete] (frame_writer_new [] 9) = (Inr (), w)
    \<and> fst (receive_all (read_renderer slice_source) (length [Pong 7, ShutdownComplete]) (frame_reader_new (fw_inner w @ [255]) 9))
        = Inr [Pong 7, ShutdownComplete]"
proof -
  obtain w where w: "send_all (send_renderer vec_sink) [Pong 7, ShutdownComplete] (frame_writer_new [] 9) = (Inr (), w)"
    by (simp add: send_renderer_def send_def encode_renderer_def renderer_frame_def with_kind_def encode_token_def
        encode_empty_def write_frame_def frame_writer_new_def payload_limit_def limit_simps u64_succ_def io_then_def
        vec_sink_def Let_def put_u64_def)
  have "list_all renderer_fits [Pong 7, ShutdownComplete]" by (simp add: renderer_fits_def)
  with w show ?thesis using renderer_messages_arrive [OF w] by (simp add: u64_max_def)
qed

lemma runtime_update_long:
  assumes "encode_runtime_update u = Inr p" "rrp_navigation_url (rtu_runtime u) = Some url"
    and "nvo_post (rrp_navigation_options (rtu_runtime u)) = Some post"
  shows "length (fmp_body post) \<le> length p"
proof -
  obtain r where r: "put_runtime_report encode_history_action (rtu_runtime u) = Inr r" "length r \<le> length p"
    using assms(1) by (auto simp: encode_runtime_update_def put_runtime_update_def result_simps)
  then obtain o' where o': "put_report_output encode_history_action (rtu_runtime u) = Inr o'" "length o' \<le> length r"
    by (auto simp: put_runtime_report_def result_simps)
  then obtain n where n: "put_navigation (Some url, rrp_navigation_options (rtu_runtime u)) = Inr n" "length n \<le> length o'"
    using assms(2) by (auto simp: put_report_output_def result_simps)
  then obtain q where q: "put_navigation_options (rrp_navigation_options (rtu_runtime u)) = Inr q" "length q \<le> length n"
    by (auto simp: put_navigation_def result_simps)
  then obtain f where f: "put_form_post post = Inr f" "length f \<le> length q"
    using assms(3) by (auto simp: put_navigation_options_def put_optional_def result_simps)
  then obtain b where b: "put_bytes (fmp_body post) = Inr b" "length b \<le> length f"
    by (auto simp: put_form_post_def result_simps)
  then have "length (fmp_body post) \<le> length b"
    by (auto simp: put_bytes_def result_simps split: if_splits)
  with r o' n q f b show ?thesis by simp
qed

text \<open>C20: A form submission that the report's encoder accepts, of up to five MiB, is not sent when its body is
  longer than a control frame: the frame of the report is refused and nothing is written.\<close>

theorem large_form_is_not_sent:
  assumes "encode_runtime_update u = Inr p" "rrp_navigation_url (rtu_runtime u) = Some url"
    and "nvo_post (rrp_navigation_options (rtu_runtime u)) = Some post" "length (fmp_body post) > MAX_CONTROL_PAYLOAD"
  shows "send_renderer io (RuntimeUpdate u) w = (Inl (PayloadTooLarge (unat (of_nat (length p) :: u32))), w)"
proof -
  have "encode_renderer (RuntimeUpdate u) = Inr (0x0120, p)"
    using assms(1) by (simp add: encode_renderer_def renderer_frame_def encode_renderer_document_def with_kind_def
        encode_runtime_update_def)
  moreover have "length p > payload_limit 0x0120"
    using runtime_update_long [OF assms(1-3)] assms(4) by (simp add: payload_limit_def)
  ultimately show ?thesis by (simp add: send_renderer_def send_def write_frame_def)
qed

text \<open>A report that asks for one navigation and nothing else.\<close>

definition no_load :: page_load where
  "no_load = \<lparr>
     pld_parse_micros = 0, pld_html_parse_micros = 0, pld_resource_processing_micros = 0,
     pld_script_micros = 0, pld_script_fetch_micros = 0, pld_style_micros = 0, pld_layout_micros = 0,
     pld_text_measure_count = 0, pld_text_shape_cache_hits = 0, pld_text_shape_cache_misses = 0,
     pld_text_shape_cache_flushes = 0, pld_text_shape_cache_entries = 0, pld_font_catalog_micros = 0,
     pld_font_select_micros = 0, pld_open_type_shape_micros = 0, pld_glyph_raster_micros = 0,
     pld_presentation_encode_micros = 0, pld_presentation_decode_micros = 0,
     pld_layout = \<lparr>lst_passes = 0, lst_boxes_rebuilt = 0, lst_blocks_laid_out = 0, lst_subtrees_replayed = 0,
     lst_items_emitted = 0, lst_items_replayed = 0, lst_box_tree_micros = 0, lst_block_layout_micros = 0,
     lst_inline_geometry_micros = 0, lst_overflow_micros = 0, lst_paint_order_micros = 0,
     lst_hit_test_micros = 0, lst_sticky_micros = 0\<rparr>\<rparr>"

definition navigation_update :: "string \<Rightarrow> navigation_options \<Rightarrow> runtime_update" where
  "navigation_update url options = \<lparr>rtu_document = 1, rtu_clock_advanced = False,
     rtu_runtime = \<lparr>rrp_scripts_executed = 0, rrp_dom_mutations = 0, rrp_errors = [], rrp_console = [], rrp_diagnostics = [],
       rrp_navigation_url = Some url, rrp_navigation_options = options, rrp_viewport_scroll_y = None,
       rrp_viewport_wheel_delta_y = 0, rrp_wheel_acknowledgements = [], rrp_wheel_has_blocking_listeners = None,
       rrp_wheel_has_nested_scroll = None, rrp_history_actions = [], rrp_history_traversal_ack = None,
       rrp_native_text_rejection = None, rrp_cookie_updates = [], rrp_runtime_active = True, rrp_runtime_stopped = False,
       rrp_render_requested = False, rrp_media = None\<rparr>,
     rtu_load = no_load, rtu_next_timer_micros = None\<rparr>"

theorem large_form_is_not_sent_witness:
  "\<exists>e. send_renderer vec_sink (RuntimeUpdate (navigation_update ''https://a/''
       (default_navigation_options\<lparr>nvo_post := Some \<lparr>fmp_content_type = ''text/plain'', fmp_body = replicate (MAX_CONTROL_PAYLOAD + 1) 0\<rparr>\<rparr>)))
     (frame_writer_new [] 9) = (Inl (PayloadTooLarge e), frame_writer_new [] 9)"
proof -
  define post where "post = \<lparr>fmp_content_type = ''text/plain'', fmp_body = replicate (MAX_CONTROL_PAYLOAD + 1) (0 :: 8 word)\<rparr>"
  define u where "u = navigation_update ''https://a/'' (default_navigation_options\<lparr>nvo_post := Some post\<rparr>)"
  have "length (fmp_body post) = MAX_CONTROL_PAYLOAD + 1" by (simp add: post_def)
  then have "\<exists>b. put_bytes (fmp_body post) = Inr b" "length (fmp_body post) \<le> MAX_FORM_BODY_BYTES"
    by (auto simp: put_bytes_def limit_simps result_simps)
  then have "\<exists>q. put_navigation_options (default_navigation_options\<lparr>nvo_post := Some post\<rparr>) = Inr q"
    by (auto simp: put_navigation_options_def validate_navigation_options_def default_navigation_options_def put_form_post_def
        put_optional_def put_string_def result_simps limit_simps post_def)
  then have "\<exists>p. encode_runtime_update u = Inr p"
    by (auto simp: encode_runtime_update_def put_runtime_update_def put_runtime_report_def put_report_output_def
        put_report_scrolling_def put_report_listeners_def put_report_activity_def u_def navigation_update_def put_navigation_def
        put_report_texts_def put_wheel_acks_def put_wheel_ack_list_def put_history_actions_def put_if_def
        wheel_acks_ok_def put_optional_def put_string_def result_simps limit_simps f32_is_finite_def valid_when_def ensure_def)
  then obtain p where p: "encode_runtime_update u = Inr p" ..
  show ?thesis
    using large_form_is_not_sent [OF p, of "''https://a/''" post]
    by (auto simp: u_def navigation_update_def post_def)
qed

end
