(* ===== verification/Broker_Outbound.thy ===== *)
theory Broker_Outbound
  imports Ipc_Session
begin

text \<open>
  The mailbox between the broker of a renderer and the thread that writes to the renderer's pipe
  (\<^verbatim>\<open>renderer_process/broker/outbound.rs\<close>). The broker sends without blocking; the thread receives a message,
  writes its frame, and only then takes the lock to update the count. The steps of both interleave.
\<close>

definition MAX_QUEUED_BROWSER_COMMANDS :: nat where "MAX_QUEUED_BROWSER_COMMANDS = 8"

section \<open>State and operations\<close>

text \<open>The channel and the message the thread has in hand, whether the thread is between its update of the count and
  its test of \<open>failure\<close>, the message the broker has counted but not yet sent, and the fields of the shared
  \<^verbatim>\<open>State\<close>. The receiving end is dropped, with the messages in it, when the thread returns.\<close>

record outbound =
  ob_messages :: "browser_message list"
  ob_current :: "browser_message option"
  ob_checking :: bool
  ob_connected :: bool
  ob_reserved :: "browser_message option"
  ob_queued :: nat
  ob_open :: bool
  ob_failure :: "protocol_error option"

datatype outbound_error = OutboundFailed protocol_error | WriterExited | BacklogExhausted

definition outbound_spawn :: outbound where
  "outbound_spawn = \<lparr>ob_messages = [], ob_current = None, ob_checking = False, ob_connected = True, ob_reserved = None,
     ob_queued = 0, ob_open = True, ob_failure = None\<rparr>"

definition outbound_pending :: "outbound \<Rightarrow> nat" where
  "outbound_pending s = ob_queued s"

text \<open>\<^verbatim>\<open>send_browser\<close> counts the message under the lock, and sends it after releasing it.\<close>

definition outbound_reserve :: "browser_message \<Rightarrow> outbound \<Rightarrow> (outbound_error + unit) \<times> outbound" where
  "outbound_reserve m s =
     (case ob_failure s of
        Some e \<Rightarrow> (Inl (OutboundFailed e), s)
      | None \<Rightarrow>
          if \<not> ob_open s then (Inl WriterExited, s)
          else if ob_queued s \<ge> MAX_QUEUED_BROWSER_WRITES then (Inl BacklogExhausted, s)
          else (Inr (), s\<lparr>ob_queued := ob_queued s + 1, ob_reserved := Some m\<rparr>))"

definition outbound_post :: "outbound \<Rightarrow> (outbound_error + unit) \<times> outbound" where
  "outbound_post s =
     (case ob_reserved s of
        None \<Rightarrow> (Inr (), s)
      | Some m \<Rightarrow>
          if \<not> ob_connected s
          then (Inl WriterExited, s\<lparr>ob_queued := ob_queued s - 1, ob_open := False, ob_reserved := None\<rparr>)
          else (Inr (), s\<lparr>ob_messages := ob_messages s @ [m], ob_reserved := None\<rparr>))"

definition outbound_send :: "browser_message \<Rightarrow> outbound \<Rightarrow> (outbound_error + unit) \<times> outbound" where
  "outbound_send m s = (case outbound_reserve m s of (Inl e, s') \<Rightarrow> (Inl e, s') | (Inr _, s') \<Rightarrow> outbound_post s')"

definition has_page_command_capacity :: "outbound \<Rightarrow> bool" where
  "has_page_command_capacity s \<longleftrightarrow> ob_open s \<and> ob_failure s = None \<and> ob_queued s < MAX_QUEUED_BROWSER_COMMANDS"

definition has_background_command_capacity :: "outbound \<Rightarrow> bool" where
  "has_background_command_capacity s \<longleftrightarrow> ob_open s \<and> ob_failure s = None \<and> ob_queued s = 0"

definition take_failure :: "outbound \<Rightarrow> protocol_error option \<times> outbound" where
  "take_failure s = (ob_failure s, s\<lparr>ob_failure := None\<rparr>)"

text \<open>The thread: \<^verbatim>\<open>recv\<close>, which waits while the channel is empty; the write and the update of the state; and the
  test that ends it.\<close>

definition writer_receive :: "outbound \<Rightarrow> outbound" where
  "writer_receive s =
     (case ob_messages s of
        [] \<Rightarrow> s
      | m # rest \<Rightarrow>
          if ob_connected s \<and> \<not> ob_checking s \<and> ob_current s = None
          then s\<lparr>ob_messages := rest, ob_current := Some m\<rparr> else s)"

definition writer_finish :: "'w sink \<Rightarrow> outbound \<times> 'w frame_writer \<Rightarrow> outbound \<times> 'w frame_writer" where
  "writer_finish io sw =
     (case ob_current (fst sw) of
        None \<Rightarrow> sw
      | Some m \<Rightarrow>
          (case send_browser io m (snd sw) of
             (Inr _, w) \<Rightarrow> ((fst sw)\<lparr>ob_current := None, ob_checking := True, ob_queued := ob_queued (fst sw) - 1\<rparr>, w)
           | (Inl e, w) \<Rightarrow> ((fst sw)\<lparr>ob_current := None, ob_checking := True, ob_queued := ob_queued (fst sw) - 1,
               ob_failure := Some e, ob_open := False\<rparr>, w)))"

definition writer_check :: "outbound \<Rightarrow> outbound" where
  "writer_check s =
     (if \<not> ob_checking s then s
      else if ob_failure s \<noteq> None then s\<lparr>ob_checking := False, ob_connected := False, ob_messages := []\<rparr>
      else s\<lparr>ob_checking := False\<rparr>)"

section \<open>Interleavings\<close>

datatype outbound_event = Reserving browser_message | Posting | Receiving | Finishing | Checking | TakingFailure

definition outbound_step :: "'w sink \<Rightarrow> outbound_event \<Rightarrow> outbound \<times> 'w frame_writer \<Rightarrow> outbound \<times> 'w frame_writer" where
  "outbound_step io ev sw =
     (case ev of
        Reserving m \<Rightarrow> (if ob_reserved (fst sw) = None then (snd (outbound_reserve m (fst sw)), snd sw) else sw)
      | Posting \<Rightarrow> (snd (outbound_post (fst sw)), snd sw)
      | Receiving \<Rightarrow> (writer_receive (fst sw), snd sw)
      | Finishing \<Rightarrow> writer_finish io sw
      | Checking \<Rightarrow> (writer_check (fst sw), snd sw)
      | TakingFailure \<Rightarrow> (if ob_reserved (fst sw) = None then (snd (take_failure (fst sw)), snd sw) else sw))"

fun outbound_run :: "'w sink \<Rightarrow> outbound_event list \<Rightarrow> outbound \<times> 'w frame_writer \<Rightarrow> outbound \<times> 'w frame_writer" where
  "outbound_run io [] sw = sw"
| "outbound_run io (ev # evs) sw = outbound_run io evs (outbound_step io ev sw)"

text \<open>The messages whose send succeeded: those the broker posted to a thread that was there.\<close>

definition newly_accepted :: "outbound_event \<Rightarrow> outbound \<Rightarrow> browser_message list" where
  "newly_accepted ev s =
     (if ev = Posting \<and> ob_connected s then (case ob_reserved s of None \<Rightarrow> [] | Some m \<Rightarrow> [m]) else [])"

fun outbound_accepted :: "'w sink \<Rightarrow> outbound_event list \<Rightarrow> outbound \<times> 'w frame_writer \<Rightarrow> browser_message list" where
  "outbound_accepted io [] sw = []"
| "outbound_accepted io (ev # evs) sw = newly_accepted ev (fst sw) @ outbound_accepted io evs (outbound_step io ev sw)"

definition in_hand :: "outbound \<Rightarrow> browser_message list" where
  "in_hand s = (case ob_current s of None \<Rightarrow> [] | Some m \<Rightarrow> [m]) @ ob_messages s"

definition outbound_inv :: "outbound \<Rightarrow> bool" where
  "outbound_inv s \<longleftrightarrow>
     (ob_connected s \<longrightarrow> ob_queued s = length (in_hand s) + (if ob_reserved s = None then 0 else 1))
     \<and> ob_queued s \<le> MAX_QUEUED_BROWSER_WRITES \<and> (\<not> ob_connected s \<longrightarrow> \<not> ob_open s \<and> in_hand s = [])
     \<and> (ob_failure s \<noteq> None \<longrightarrow> \<not> ob_open s) \<and> (ob_checking s \<longrightarrow> ob_current s = None)"

lemma outbound_spawn_inv: "outbound_inv outbound_spawn"
  by (simp add: outbound_inv_def outbound_spawn_def in_hand_def)

lemma outbound_reserve_inv: "outbound_inv s \<Longrightarrow> ob_reserved s = None \<Longrightarrow> outbound_inv (snd (outbound_reserve m s))"
  by (cases "ob_failure s") (auto simp: outbound_reserve_def outbound_inv_def in_hand_def)

lemma outbound_post_inv: "outbound_inv s \<Longrightarrow> outbound_inv (snd (outbound_post s))"
  by (cases "ob_reserved s") (auto simp: outbound_post_def outbound_inv_def in_hand_def)

lemma writer_receive_inv: "outbound_inv s \<Longrightarrow> outbound_inv (writer_receive s)"
  by (cases "ob_messages s") (auto simp: writer_receive_def outbound_inv_def in_hand_def)

lemma writer_finish_inv: "outbound_inv (fst sw) \<Longrightarrow> outbound_inv (fst (writer_finish io sw))"
proof (cases "ob_current (fst sw)")
  case (Some m)
  assume "outbound_inv (fst sw)"
  then show ?thesis using Some
    by (cases "send_browser io m (snd sw)"; cases "fst (send_browser io m (snd sw))")
      (auto simp: writer_finish_def outbound_inv_def in_hand_def)
qed (simp add: writer_finish_def)

lemma writer_check_inv: "outbound_inv s \<Longrightarrow> outbound_inv (writer_check s)"
  by (auto simp: writer_check_def outbound_inv_def in_hand_def)

lemma take_failure_inv: "outbound_inv s \<Longrightarrow> outbound_inv (snd (take_failure s))"
  by (auto simp: take_failure_def outbound_inv_def in_hand_def)

lemma outbound_inv_step: "outbound_inv (fst sw) \<Longrightarrow> outbound_inv (fst (outbound_step io ev sw))"
  by (cases ev) (auto simp: outbound_step_def outbound_reserve_inv outbound_post_inv writer_receive_inv writer_finish_inv
      writer_check_inv take_failure_inv)

lemma outbound_inv_run: "outbound_inv (fst sw) \<Longrightarrow> outbound_inv (fst (outbound_run io evs sw))"
  by (induction evs arbitrary: sw) (simp_all add: outbound_inv_step)

text \<open>A send on a mailbox whose writer runs.\<close>

lemma outbound_send_open:
  assumes "ob_open s" "ob_failure s = None" "ob_connected s" "ob_queued s < MAX_QUEUED_BROWSER_WRITES" "ob_reserved s = None"
  shows "outbound_send m s = (Inr (), s\<lparr>ob_queued := ob_queued s + 1, ob_messages := ob_messages s @ [m]\<rparr>)"
  using assms by (simp add: outbound_send_def outbound_reserve_def outbound_post_def not_le)

lemma outbound_send_accepted:
  assumes "outbound_send m s = (Inr (), s')"
  shows "s' = s\<lparr>ob_queued := ob_queued s + 1, ob_messages := ob_messages s @ [m], ob_reserved := None\<rparr>"
  using assms by (auto simp: outbound_send_def outbound_reserve_def outbound_post_def split: option.splits if_splits)

text \<open>While no write has failed, what the thread has written and what it still has are what was accepted.\<close>

lemma open_before: "ob_open (fst (outbound_step io ev sw)) \<Longrightarrow> ob_open (fst sw)"
  by (cases ev) (auto simp: outbound_step_def outbound_reserve_def outbound_post_def writer_receive_def writer_finish_def
      writer_check_def take_failure_def split: option.splits list.splits prod.splits sum.splits if_splits)

lemma open_before_run: "ob_open (fst (outbound_run io evs sw)) \<Longrightarrow> ob_open (fst sw)"
proof (induction evs arbitrary: sw)
  case (Cons ev evs)
  then have "ob_open (fst (outbound_step io ev sw))" by simp
  then show ?case by (rule open_before)
qed simp

definition step_writes :: "'w sink \<Rightarrow> outbound_event \<Rightarrow> outbound \<times> 'w frame_writer \<Rightarrow> browser_message list \<Rightarrow> bool" where
  "step_writes io ev sw written \<longleftrightarrow>
     in_hand (fst sw) @ newly_accepted ev (fst sw) = written @ in_hand (fst (outbound_step io ev sw))
     \<and> send_all (send_browser io) written (snd sw) = (Inr (), snd (outbound_step io ev sw))"

lemma quiet_step_writes: "ev \<noteq> Finishing \<Longrightarrow> outbound_inv (fst sw) \<Longrightarrow> ob_open (fst (outbound_step io ev sw)) \<Longrightarrow> step_writes io ev sw []"
  by (cases ev) (auto simp: step_writes_def outbound_step_def newly_accepted_def outbound_reserve_def outbound_post_def
      writer_receive_def writer_check_def take_failure_def outbound_inv_def in_hand_def split: option.splits list.splits if_splits)

lemma finishing_writes:
  assumes "ob_open (fst (outbound_step io Finishing sw))"
  shows "\<exists>written. step_writes io Finishing sw written"
proof (cases "ob_current (fst sw)")
  case None
  then have "step_writes io Finishing sw []" by (simp add: step_writes_def outbound_step_def newly_accepted_def writer_finish_def)
  then show ?thesis by blast
next
  case (Some m)
  obtain r w where r: "send_browser io m (snd sw) = (r, w)" by fastforce
  with Some assms have "r = Inr ()" by (cases r) (auto simp: outbound_step_def writer_finish_def)
  with Some r have "step_writes io Finishing sw [m]"
    by (simp add: step_writes_def outbound_step_def newly_accepted_def writer_finish_def in_hand_def)
  then show ?thesis by blast
qed

lemma step_in_order:
  "outbound_inv (fst sw) \<Longrightarrow> ob_open (fst (outbound_step io ev sw)) \<Longrightarrow> \<exists>written. step_writes io ev sw written"
  using quiet_step_writes finishing_writes by (cases "ev = Finishing") blast+

lemma run_in_order:
  assumes "outbound_inv (fst sw)" "ob_open (fst (outbound_run io evs sw))"
  shows "\<exists>written. in_hand (fst sw) @ outbound_accepted io evs sw = written @ in_hand (fst (outbound_run io evs sw))
    \<and> send_all (send_browser io) written (snd sw) = (Inr (), snd (outbound_run io evs sw))"
  using assms
proof (induction evs arbitrary: sw)
  case (Cons ev evs)
  let ?sw = "outbound_step io ev sw"
  have "ob_open (fst ?sw)" using Cons.prems(2) open_before_run by simp
  with step_in_order [OF Cons.prems(1)] obtain one where
    one: "in_hand (fst sw) @ newly_accepted ev (fst sw) = one @ in_hand (fst ?sw)"
    "send_all (send_browser io) one (snd sw) = (Inr (), snd ?sw)" unfolding step_writes_def by blast
  from Cons.IH [of ?sw] outbound_inv_step [OF Cons.prems(1)] Cons.prems(2) obtain rest where
    rest: "in_hand (fst ?sw) @ outbound_accepted io evs ?sw = rest @ in_hand (fst (outbound_run io evs ?sw))"
    "send_all (send_browser io) rest (snd ?sw) = (Inr (), snd (outbound_run io evs ?sw))" by auto
  have "in_hand (fst sw) @ outbound_accepted io (ev # evs) sw
      = (in_hand (fst sw) @ newly_accepted ev (fst sw)) @ outbound_accepted io evs ?sw" by simp
  also have "\<dots> = one @ in_hand (fst ?sw) @ outbound_accepted io evs ?sw" by (simp add: one(1))
  finally have "in_hand (fst sw) @ outbound_accepted io (ev # evs) sw = (one @ rest) @ in_hand (fst (outbound_run io (ev # evs) sw))"
    by (simp add: rest(1))
  moreover have "send_all (send_browser io) (one @ rest) (snd sw) = (Inr (), snd (outbound_run io (ev # evs) sw))"
    using one(2) rest(2) by (auto simp: send_all_append)
  ultimately show ?case by blast
qed simp

section \<open>Properties\<close>

text \<open>C25: However the broker's sends and the steps of the writing thread interleave, the mailbox and the thread's hand
  hold together at most 4,096 messages, and so does the count of them; and as long as no write has failed the pipe
  carries exactly the accepted messages, in the order they were accepted, except for those still in the mailbox or in
  the thread's hand.\<close>

theorem commands_are_written_in_order:
  assumes "outbound_run io evs (outbound_spawn, w0) = (s, w)"
  shows "length (in_hand s) \<le> MAX_QUEUED_BROWSER_WRITES \<and> ob_queued s \<le> MAX_QUEUED_BROWSER_WRITES
    \<and> (ob_open s \<longrightarrow> (\<exists>written. outbound_accepted io evs (outbound_spawn, w0) = written @ in_hand s
        \<and> send_all (send_browser io) written w0 = (Inr (), w)))"
proof -
  have inv: "outbound_inv s" using outbound_inv_run [of "(outbound_spawn, w0)" io evs] outbound_spawn_inv assms by simp
  then have bound: "ob_queued s \<le> MAX_QUEUED_BROWSER_WRITES" "length (in_hand s) \<le> MAX_QUEUED_BROWSER_WRITES"
    by (cases "ob_connected s"; force simp: outbound_inv_def)+
  have "in_hand outbound_spawn = []" by (simp add: in_hand_def outbound_spawn_def)
  with run_in_order [of "(outbound_spawn, w0)" io evs] outbound_spawn_inv assms bound show ?thesis by simp
qed

theorem commands_are_written_in_order_witness:
  "\<exists>s w. outbound_run vec_sink [Reserving (Ping 1), Posting, Receiving, Reserving Shutdown, Finishing, Posting] (outbound_spawn, frame_writer_new [] 9) = (s, w)
    \<and> (\<exists>written. outbound_accepted vec_sink [Reserving (Ping 1), Posting, Receiving, Reserving Shutdown, Finishing, Posting] (outbound_spawn, frame_writer_new [] 9)
          = written @ in_hand s
        \<and> send_all (send_browser vec_sink) written (frame_writer_new [] 9) = (Inr (), w))"
proof -
  let ?evs = "[Reserving (Ping 1), Posting, Receiving, Reserving Shutdown, Finishing, Posting]"
  obtain s w where run: "outbound_run vec_sink ?evs (outbound_spawn, frame_writer_new [] 9) = (s, w)" by fastforce
  have "ob_open s"
    using run by (auto simp: outbound_step_def outbound_reserve_def outbound_post_def outbound_spawn_def writer_receive_def writer_finish_def
        MAX_QUEUED_BROWSER_WRITES_def Let_def send_browser_def send_def encode_browser_def with_kind_def encode_token_def
        write_frame_def frame_writer_new_def payload_limit_def limit_simps u64_succ_def io_then_def vec_sink_def)
  with run commands_are_written_in_order [OF run] show ?thesis by blast
qed

end
