(* ===== verification/Document_Transfer.thy ===== *)
theory Document_Transfer
  imports Broker_Outbound
begin

text \<open>
  A document on its way into a renderer: what the broker sends (\<^verbatim>\<open>renderer_process/broker/worker/document/transfer.rs\<close>, through the
  mailbox of \<^verbatim>\<open>outbound.rs\<close>), and the state and the body the renderer puts together
  (\<^verbatim>\<open>renderer_process/child/connection/state.rs\<close>); the connection that owns them is in \<open>Child_Connection\<close>. The
  texts of protocol errors stay protocol errors (\<open>Wire\<close>).
\<close>

datatype transfer_error = Wire protocol_error | Outbound outbound_error | Refused string

abbreviation wire :: "protocol_error + 'a \<Rightarrow> transfer_error + 'a" where "wire \<equiv> map_err Wire"

section \<open>The sender\<close>

text \<open>Actions on a state that stop at the first error; those of the broker act on its mailbox.\<close>

type_synonym 's action = "'s \<Rightarrow> (transfer_error + unit) \<times> 's"

type_synonym sending = "outbound action"

definition sending :: "browser_message \<Rightarrow> sending" where
  "sending m w = map_prod (map_err Outbound) id (outbound_send m w)"

definition then_send :: "'s action \<Rightarrow> 's action \<Rightarrow> 's action" where
  "then_send f g w = (case f w of (Inl e, w') \<Rightarrow> (Inl e, w') | (Inr _, w') \<Rightarrow> g w')"

definition guarded :: "transfer_error + 'a \<Rightarrow> ('a \<Rightarrow> 's action) \<Rightarrow> 's action" where
  "guarded r f w = (case r of Inl e \<Rightarrow> (Inl e, w) | Inr x \<Rightarrow> f x w)"

fun send_each :: "('a \<Rightarrow> 's action) \<Rightarrow> 'a list \<Rightarrow> 's action" where
  "send_each f [] w = (Inr (), w)"
| "send_each f (x # xs) w = then_send (f x) (send_each f xs) w"

definition send_cookie_snapshot :: "cookie_snapshot \<Rightarrow> sending" where
  "send_cookie_snapshot s = guarded (wire (validate_cookie_snapshot s)) (\<lambda>_. sending (CookieSnapshot s))"

definition send_storage_snapshot :: "u64 \<Rightarrow> storage_area_kind \<Rightarrow> storage_area_snapshot \<Rightarrow> sending" where
  "send_storage_snapshot document area s =
     guarded (map_err (\<lambda>e. Refused (storage_error_text e)) (snapshot_validate s)) (\<lambda>_.
     guarded (ensure (length (sn_entries s) \<le> u32_max) (Refused ''storage snapshot entry count overflow'')) (\<lambda>_.
     then_send (sending (StorageSnapshotStart \<lparr>sst_document = document, sst_area = area,
         sst_version = of_nat (sn_version s), sst_entry_count = of_nat (length (sn_entries s))\<rparr>))
     (then_send (send_each (\<lambda>entry. sending (StorageSnapshotEntry
         \<lparr>sne_document = document, sne_area = area, sne_entry = entry\<rparr>)) (sn_entries s))
     (sending (StorageSnapshotEnd \<lparr>snd_document = document, snd_area = area, snd_version = of_nat (sn_version s)\<rparr>)))))"

definition TRANSFER_CHUNK_BYTES :: nat where "TRANSFER_CHUNK_BYTES = 1024 * 1024"

definition chunk_at :: "u64 \<Rightarrow> nat \<Rightarrow> bytes \<Rightarrow> transfer_error + transfer_chunk" where
  "chunk_at transfer_id index content =
     (if index * TRANSFER_CHUNK_BYTES \<le> u32_max
      then Inr \<lparr>tc_transfer_id = transfer_id, tc_offset = of_nat (index * TRANSFER_CHUNK_BYTES), tc_content = content\<rparr>
      else Inl (Refused ''IPC transfer offset overflow''))"

definition send_browser_chunks :: "u64 \<Rightarrow> bytes \<Rightarrow> (transfer_chunk \<Rightarrow> browser_message) \<Rightarrow> sending" where
  "send_browser_chunks transfer_id bs message =
     send_each (\<lambda>(index, content). guarded (chunk_at transfer_id index content) (\<lambda>c. sending (message c)))
       (List.enumerate 0 (body_chunks TRANSFER_CHUNK_BYTES bs))"

text \<open>The rest of the function resets the broker's own Fetch flow, active document and load deadline.\<close>

definition send_document :: "document_start \<Rightarrow> document_state \<Rightarrow> bytes \<Rightarrow> sending" where
  "send_document start state body =
     guarded (wire (validate_document_start start)) (\<lambda>_.
     guarded (wire (validate_document_state state)) (\<lambda>_.
     guarded (ensure (length body = unat (dcs_body_size start))
         (Refused ''document transfer length does not match its declaration'')) (\<lambda>_.
     then_send (sending (BeginDocument start))
     (then_send (send_cookie_snapshot \<lparr>cks_document = dcs_document start, cks_version = dst_cookie_version state,
         cks_header = dst_cookie_header state\<rparr>)
     (then_send (send_storage_snapshot (dcs_document start) Local (dst_local_storage state))
     (then_send (send_storage_snapshot (dcs_document start) Session (dst_session_storage state))
     (then_send (send_browser_chunks (dcs_document start) body DocumentChunk)
       (sending (EndDocument (dcs_document start))))))))))"

section \<open>The receiver\<close>

record incoming_storage =
  ist_document :: u64
  ist_area :: storage_area_kind
  ist_version :: u64
  ist_expected :: nat
  ist_used :: nat
  ist_entries :: "storage_entry list"

definition incoming_storage_new :: "snapshot_start \<Rightarrow> transfer_error + incoming_storage" where
  "incoming_storage_new start =
     and_then (wire (validate_snapshot_start start)) (\<lambda>_.
       Inr \<lparr>ist_document = sst_document start, ist_area = sst_area start, ist_version = sst_version start,
            ist_expected = unat (sst_entry_count start), ist_used = 0, ist_entries = []\<rparr>)"

definition incoming_entry :: "snapshot_entry \<Rightarrow> incoming_storage \<Rightarrow> transfer_error + incoming_storage" where
  "incoming_entry item s =
     and_then (wire (validate_snapshot_entry item)) (\<lambda>_.
     if sne_document item \<noteq> ist_document s \<or> sne_area item \<noteq> ist_area s \<or> length (ist_entries s) \<ge> ist_expected s
     then Inl (Refused ''storage snapshot entry identity or count mismatch'')
     else and_then (ok_or (Option.bind (checked_add (ist_used s) (byte_len (se_key (sne_entry item))))
           (\<lambda>n. checked_add n (byte_len (se_value (sne_entry item))))) (Refused ''storage snapshot byte length overflow'')) (\<lambda>used.
     if used > MAX_STORAGE_BYTES_PER_ORIGIN then Inl (Refused ''storage snapshot exceeded its byte budget'')
     else Inr (s\<lparr>ist_used := used, ist_entries := ist_entries s @ [sne_entry item]\<rparr>)))"

definition incoming_storage_finish :: "snapshot_end \<Rightarrow> incoming_storage \<Rightarrow> transfer_error + storage_area_snapshot" where
  "incoming_storage_finish stop s =
     and_then (wire (validate_snapshot_end stop)) (\<lambda>_.
     if snd_document stop \<noteq> ist_document s \<or> snd_area stop \<noteq> ist_area s \<or> snd_version stop \<noteq> ist_version s
        \<or> length (ist_entries s) \<noteq> ist_expected s
     then Inl (Refused ''storage snapshot completion mismatch'')
     else let snapshot = \<lparr>sn_version = unat (ist_version s), sn_entries = ist_entries s\<rparr>
       in and_then (map_err (\<lambda>e. Refused (storage_error_text e)) (snapshot_validate snapshot)) (\<lambda>_. Inr snapshot))"

record incoming_state =
  ids_document :: u64
  ids_cookie :: "(u64 \<times> string) option"
  ids_active :: "incoming_storage option"
  ids_local :: "storage_area_snapshot option"
  ids_session :: "storage_area_snapshot option"

definition incoming_state_new :: "u64 \<Rightarrow> incoming_state" where
  "incoming_state_new document =
     \<lparr>ids_document = document, ids_cookie = None, ids_active = None, ids_local = None, ids_session = None\<rparr>"

definition state_cookie :: "cookie_snapshot \<Rightarrow> incoming_state \<Rightarrow> transfer_error + incoming_state" where
  "state_cookie s i =
     (if cks_document s \<noteq> ids_document i \<or> ids_cookie i \<noteq> None \<or> cks_version s = 0
      then Inl (Refused ''cookie snapshot identity or order mismatch'')
      else Inr (i\<lparr>ids_cookie := Some (cks_version s, cks_header s)\<rparr>))"

definition area_is_complete :: "storage_area_kind \<Rightarrow> incoming_state \<Rightarrow> bool" where
  "area_is_complete area i = (case area of Local \<Rightarrow> ids_local i \<noteq> None | Session \<Rightarrow> ids_session i \<noteq> None)"

definition state_storage_start :: "snapshot_start \<Rightarrow> incoming_state \<Rightarrow> transfer_error + incoming_state" where
  "state_storage_start start i =
     (if sst_document start \<noteq> ids_document i \<or> ids_active i \<noteq> None \<or> area_is_complete (sst_area start) i
      then Inl (Refused ''storage snapshot identity or order mismatch'')
      else and_then (incoming_storage_new start) (\<lambda>s. Inr (i\<lparr>ids_active := Some s\<rparr>)))"

definition state_storage_entry :: "snapshot_entry \<Rightarrow> incoming_state \<Rightarrow> transfer_error + incoming_state" where
  "state_storage_entry item i =
     and_then (ok_or (ids_active i) (Refused ''unsolicited storage snapshot entry'')) (\<lambda>s.
     and_then (incoming_entry item s) (\<lambda>s'. Inr (i\<lparr>ids_active := Some s'\<rparr>)))"

definition state_storage_end :: "snapshot_end \<Rightarrow> incoming_state \<Rightarrow> transfer_error + incoming_state" where
  "state_storage_end stop i =
     and_then (ok_or (ids_active i) (Refused ''unsolicited storage snapshot completion'')) (\<lambda>s.
     and_then (incoming_storage_finish stop s) (\<lambda>snapshot.
       Inr (case ist_area s of
              Local \<Rightarrow> i\<lparr>ids_active := None, ids_local := Some snapshot\<rparr>
            | Session \<Rightarrow> i\<lparr>ids_active := None, ids_session := Some snapshot\<rparr>)))"

definition state_finish :: "incoming_state \<Rightarrow> transfer_error + document_state" where
  "state_finish i =
     and_then (ok_or (ids_cookie i) (Refused ''document omitted its cookie snapshot'')) (\<lambda>cookie.
     and_then (ensure (ids_active i = None) (Refused ''document ended inside a storage snapshot'')) (\<lambda>_.
     and_then (ok_or (ids_local i) (Refused ''document omitted localStorage state'')) (\<lambda>local.
     and_then (ok_or (ids_session i) (Refused ''document omitted sessionStorage state'')) (\<lambda>session.
     let state = \<lparr>dst_cookie_version = fst cookie, dst_cookie_header = snd cookie, dst_local_storage = local, dst_session_storage = session\<rparr>
     in and_then (wire (validate_document_state state)) (\<lambda>_. Inr state)))))"

text \<open>
  The decoder of a streamed document (\<^verbatim>\<open>text_decode/stream.rs\<close>) up to the point where it is handed to the page engine.
  The text that \<^verbatim>\<open>encoding_rs\<close> makes of its inputs is a parameter.
\<close>

record document_decoder =
  dcd_content_type :: string
  dcd_bytes :: bytes
  dcd_inputs :: "bytes list"
  dcd_ended :: bool

definition document_decoder_new :: "string \<Rightarrow> document_decoder" where
  "document_decoder_new content_type = \<lparr>dcd_content_type = content_type, dcd_bytes = [], dcd_inputs = [], dcd_ended = False\<rparr>"

type_synonym decoding = "string \<Rightarrow> bytes list \<Rightarrow> bool \<Rightarrow> string"

definition prefix_of_bom :: "bytes \<Rightarrow> bool" where
  "prefix_of_bom bs \<longleftrightarrow> (\<exists>bom \<in> {[0xef, 0xbb, 0xbf], [0xff, 0xfe], [0xfe, 0xff]}. length bs < length bom \<and> bs = take (length bs) bom)"

definition decoder_push :: "decoding \<Rightarrow> bytes \<Rightarrow> bool \<Rightarrow> document_decoder \<Rightarrow>
    transfer_error + string option \<times> document_decoder" where
  "decoder_push T bs eof d =
     (if dcd_ended d then Inl (Refused ''document bytes arrived after EOF'')
      else if saturating_add (length (dcd_bytes d)) (length bs) > MAX_RESPONSE_BODY_BYTES
      then Inl (Refused ''document response exceeded its byte limit'')
      else let d' = d\<lparr>dcd_bytes := dcd_bytes d @ bs\<rparr>
        in if dcd_inputs d = [] \<and> \<not> eof \<and> prefix_of_bom (dcd_bytes d') then Inr (None, d')
           else let inputs = dcd_inputs d @ [if dcd_inputs d = [] then dcd_bytes d' else bs]
             in Inr (Some (T (dcd_content_type d) inputs eof), d'\<lparr>dcd_inputs := inputs, dcd_ended := eof\<rparr>))"

record incoming_document =
  ind_decoder :: "document_decoder option"
  ind_start :: document_start
  ind_state :: incoming_state
  ind_body :: transfer_assembler

text \<open>What messages make of a document that is not streamed; others leave it alone.\<close>

definition state_part :: "browser_message \<Rightarrow> incoming_state \<Rightarrow> transfer_error + incoming_state" where
  "state_part m i =
     (case m of
        CookieSnapshot s \<Rightarrow> state_cookie s i
      | StorageSnapshotStart s \<Rightarrow> state_storage_start s i
      | StorageSnapshotEntry s \<Rightarrow> state_storage_entry s i
      | StorageSnapshotEnd s \<Rightarrow> state_storage_end s i
      | _ \<Rightarrow> Inr i)"

definition on_state :: "(incoming_state \<Rightarrow> transfer_error + incoming_state) \<Rightarrow> incoming_document \<Rightarrow> transfer_error + incoming_document" where
  "on_state f i = and_then (f (ind_state i)) (\<lambda>s. Inr (i\<lparr>ind_state := s\<rparr>))"

definition document_part :: "browser_message \<Rightarrow> incoming_document \<Rightarrow> transfer_error + incoming_document" where
  "document_part m i =
     (case m of
        DocumentChunk c \<Rightarrow> and_then (wire (transfer_push c (ind_body i))) (\<lambda>b. Inr (i\<lparr>ind_body := b\<rparr>))
      | _ \<Rightarrow> on_state (state_part m) i)"

fun document_parts :: "browser_message list \<Rightarrow> incoming_document \<Rightarrow> transfer_error + incoming_document" where
  "document_parts [] i = Inr i"
| "document_parts (m # ms) i = and_then (document_part m i) (document_parts ms)"

section \<open>What a successful sender has written\<close>

lemma guarded_Inr: "guarded r f w = (Inr (), w') \<longleftrightarrow> (\<exists>x. r = Inr x \<and> f x w = (Inr (), w'))"
  by (cases r) (auto simp: guarded_def)

lemma sending_Inr: "sending m w = (Inr (), w') \<longleftrightarrow> outbound_send m w = (Inr (), w')"
  by (cases "outbound_send m w"; cases "fst (outbound_send m w)") (auto simp: sending_def)

lemma then_send_Inr: "then_send f g w = (Inr (), w') \<longleftrightarrow> (\<exists>w1. f w = (Inr (), w1) \<and> g w1 = (Inr (), w'))"
  by (cases "f w"; cases "fst (f w)") (auto simp: then_send_def)

lemma send_each_messages:
  assumes "\<And>x w w'. x \<in> set xs \<Longrightarrow> f x w = (Inr (), w') \<longleftrightarrow> good x \<and> outbound_send (g x) w = (Inr (), w')"
  shows "send_each f xs w = (Inr (), w') \<longleftrightarrow> list_all good xs \<and> send_all outbound_send (map g xs) w = (Inr (), w')"
  using assms
proof (induction xs arbitrary: w)
  case (Cons x xs)
  show ?case
    by (cases "outbound_send (g x) w"; cases "fst (outbound_send (g x) w)")
      (auto simp: then_send_Inr Cons.prems Cons.IH)
qed simp

definition storage_messages :: "u64 \<Rightarrow> storage_area_kind \<Rightarrow> storage_area_snapshot \<Rightarrow> browser_message list" where
  "storage_messages document area s =
     StorageSnapshotStart \<lparr>sst_document = document, sst_area = area, sst_version = of_nat (sn_version s),
       sst_entry_count = of_nat (length (sn_entries s))\<rparr>
     # map (\<lambda>e. StorageSnapshotEntry \<lparr>sne_document = document, sne_area = area, sne_entry = e\<rparr>) (sn_entries s)
     @ [StorageSnapshotEnd \<lparr>snd_document = document, snd_area = area, snd_version = of_nat (sn_version s)\<rparr>]"

lemma storage_sent:
  "send_storage_snapshot document area s w = (Inr (), w') \<longleftrightarrow>
     snapshot_validate s = Inr () \<and> length (sn_entries s) \<le> u32_max
     \<and> send_all outbound_send (storage_messages document area s) w = (Inr (), w')"
proof -
  have "send_each (\<lambda>entry. sending (StorageSnapshotEntry \<lparr>sne_document = document, sne_area = area, sne_entry = entry\<rparr>))
      (sn_entries s) v = (Inr (), v') \<longleftrightarrow> list_all (\<lambda>_. True) (sn_entries s) \<and> send_all outbound_send
      (map (\<lambda>e. StorageSnapshotEntry \<lparr>sne_document = document, sne_area = area, sne_entry = e\<rparr>) (sn_entries s)) v = (Inr (), v')"
    for v v'
    by (rule send_each_messages) (simp add: sending_Inr)
  then show ?thesis
    by (auto simp: send_storage_snapshot_def guarded_Inr then_send_Inr sending_Inr storage_messages_def send_all_Cons
        send_all_append list_all_iff simp del: send_all.simps(2))
qed

definition numbered_chunk :: "u64 \<Rightarrow> nat \<times> bytes \<Rightarrow> transfer_chunk" where
  "numbered_chunk transfer_id p =
     \<lparr>tc_transfer_id = transfer_id, tc_offset = of_nat (fst p * TRANSFER_CHUNK_BYTES), tc_content = snd p\<rparr>"

definition body_pieces :: "bytes \<Rightarrow> (nat \<times> bytes) list" where
  "body_pieces body = List.enumerate 0 (body_chunks TRANSFER_CHUNK_BYTES body)"

lemma chunks_sent:
  "send_browser_chunks transfer_id body message w = (Inr (), w') \<longleftrightarrow>
     list_all (\<lambda>p. fst p * TRANSFER_CHUNK_BYTES \<le> u32_max) (body_pieces body)
     \<and> send_all outbound_send (map (\<lambda>p. message (numbered_chunk transfer_id p)) (body_pieces body)) w = (Inr (), w')"
  unfolding send_browser_chunks_def body_pieces_def [symmetric]
  by (rule send_each_messages) (auto simp: guarded_Inr sending_Inr chunk_at_def numbered_chunk_def split: prod.splits)

definition document_messages :: "document_start \<Rightarrow> document_state \<Rightarrow> bytes \<Rightarrow> browser_message list" where
  "document_messages start state body =
     BeginDocument start
     # CookieSnapshot \<lparr>cks_document = dcs_document start, cks_version = dst_cookie_version state, cks_header = dst_cookie_header state\<rparr>
     # storage_messages (dcs_document start) Local (dst_local_storage state)
     @ storage_messages (dcs_document start) Session (dst_session_storage state)
     @ map (\<lambda>p. DocumentChunk (numbered_chunk (dcs_document start) p)) (body_pieces body)
     @ [EndDocument (dcs_document start)]"

lemma document_sent:
  "send_document start state body w = (Inr (), w') \<longleftrightarrow>
     validate_document_start start = Inr () \<and> validate_document_state state = Inr ()
     \<and> length body = unat (dcs_body_size start)
     \<and> length (sn_entries (dst_local_storage state)) \<le> u32_max \<and> length (sn_entries (dst_session_storage state)) \<le> u32_max
     \<and> list_all (\<lambda>p. fst p * TRANSFER_CHUNK_BYTES \<le> u32_max) (body_pieces body)
     \<and> send_all outbound_send (document_messages start state body) w = (Inr (), w')"
  by (auto simp: send_document_def send_cookie_snapshot_def guarded_Inr then_send_Inr sending_Inr storage_sent chunks_sent
      document_messages_def send_all_Cons send_all_append validate_document_state_def validate_cookie_snapshot_def result_simps
      simp del: send_all.simps(2))

section \<open>What the receiver makes of it\<close>

lemma document_parts_append: "document_parts (ms @ ns) i = and_then (document_parts ms i) (document_parts ns)"
  by (induction ms arbitrary: i) (auto simp: and_then_def split: sum.splits)

abbreviation entry_cost :: "storage_entry \<Rightarrow> nat" where "entry_cost e \<equiv> entry_bytes (se_key e) (se_value e)"

lemma entries_received:
  assumes "ids_active (ind_state i) = Some s" "list_all (\<lambda>e. entry_validate e = Inr ()) es"
    and "length (ist_entries s) + length es \<le> ist_expected s"
    and "ist_used s + sum_list (map entry_cost es) \<le> MAX_STORAGE_BYTES_PER_ORIGIN"
  shows "document_parts (map (\<lambda>e. StorageSnapshotEntry \<lparr>sne_document = ist_document s, sne_area = ist_area s, sne_entry = e\<rparr>) es) i
    = Inr (i\<lparr>ind_state := (ind_state i)\<lparr>ids_active := Some (s\<lparr>ist_used := ist_used s + sum_list (map entry_cost es),
        ist_entries := ist_entries s @ es\<rparr>)\<rparr>\<rparr>)"
  using assms
proof (induction es arbitrary: s i)
  case (Cons e es)
  let ?s = "s\<lparr>ist_used := ist_used s + entry_cost e, ist_entries := ist_entries s @ [e]\<rparr>"
  let ?i = "i\<lparr>ind_state := (ind_state i)\<lparr>ids_active := Some ?s\<rparr>\<rparr>"
  have small: "ist_used s + entry_cost e \<le> MAX_STORAGE_BYTES_PER_ORIGIN" using Cons.prems(4) by simp
  then have "Option.bind (checked_add (ist_used s) (byte_len (se_key e))) (\<lambda>n. checked_add n (byte_len (se_value e)))
      = Some (ist_used s + entry_cost e)"
    by (simp add: checked_add_def entry_bytes_def limit_simps)
  then have "incoming_entry \<lparr>sne_document = ist_document s, sne_area = ist_area s, sne_entry = e\<rparr> s = Inr ?s"
    using Cons.prems small by (simp add: incoming_entry_def validate_snapshot_entry_def)
  then have "document_part (StorageSnapshotEntry \<lparr>sne_document = ist_document s, sne_area = ist_area s, sne_entry = e\<rparr>) i = Inr ?i"
    using Cons.prems(1) by (simp add: document_part_def state_part_def on_state_def state_storage_entry_def)
  moreover have "document_parts (map (\<lambda>e. StorageSnapshotEntry \<lparr>sne_document = ist_document ?s, sne_area = ist_area ?s, sne_entry = e\<rparr>) es) ?i
    = Inr (?i\<lparr>ind_state := (ind_state ?i)\<lparr>ids_active := Some (?s\<lparr>ist_used := ist_used ?s + sum_list (map entry_cost es),
        ist_entries := ist_entries ?s @ es\<rparr>)\<rparr>\<rparr>)"
    using Cons.prems by (intro Cons.IH) auto
  ultimately show ?case by (simp add: add.assoc)
qed simp

definition with_area :: "storage_area_kind \<Rightarrow> storage_area_snapshot \<Rightarrow> incoming_state \<Rightarrow> incoming_state" where
  "with_area area s i = (case area of Local \<Rightarrow> i\<lparr>ids_active := None, ids_local := Some s\<rparr> | Session \<Rightarrow> i\<lparr>ids_active := None, ids_session := Some s\<rparr>)"

lemma snapshot_valid:
  assumes "snapshot_validate s = Inr ()"
  shows "sn_version s \<noteq> 0" "length (sn_entries s) \<le> MAX_STORAGE_ENTRIES_PER_ORIGIN"
    "sum_list (map entry_cost (sn_entries s)) \<le> MAX_STORAGE_BYTES_PER_ORIGIN"
    "list_all (\<lambda>e. entry_validate e = Inr ()) (sn_entries s)"
proof -
  obtain acc where acc: "snapshot_total 0 (sn_entries s) = Inr acc" "acc \<le> MAX_STORAGE_BYTES_PER_ORIGIN"
    and "sn_version s \<noteq> 0" "length (sn_entries s) \<le> MAX_STORAGE_ENTRIES_PER_ORIGIN"
    using assms by (auto simp: snapshot_validate_def result_simps split: if_splits)
  moreover have "snapshot_total n es = Inr acc \<Longrightarrow> list_all (\<lambda>e. entry_validate e = Inr ()) es" for n es
    by (induction n es rule: snapshot_total.induct) (auto simp: result_simps)
  ultimately show "sn_version s \<noteq> 0" "length (sn_entries s) \<le> MAX_STORAGE_ENTRIES_PER_ORIGIN"
    "sum_list (map entry_cost (sn_entries s)) \<le> MAX_STORAGE_BYTES_PER_ORIGIN"
    "list_all (\<lambda>e. entry_validate e = Inr ()) (sn_entries s)"
    using snapshot_total_Inr [OF acc(1)] by auto
qed

lemma storage_received:
  assumes "snapshot_validate s = Inr ()" "sn_version s \<le> u64_max" "ids_active (ind_state i) = None"
    and "ids_document (ind_state i) = document" "\<not> area_is_complete area (ind_state i)"
  shows "document_parts (storage_messages document area s) i = Inr (i\<lparr>ind_state := with_area area s (ind_state i)\<rparr>)"
proof -
  note valid = snapshot_valid [OF assms(1)]
  let ?start = "\<lparr>sst_document = document, sst_area = area, sst_version = of_nat (sn_version s),
       sst_entry_count = of_nat (length (sn_entries s))\<rparr>"
  let ?s = "\<lparr>ist_document = document, ist_area = area, ist_version = of_nat (sn_version s) :: u64,
       ist_expected = length (sn_entries s), ist_used = 0, ist_entries = []\<rparr>"
  let ?done = "?s\<lparr>ist_used := sum_list (map entry_cost (sn_entries s)), ist_entries := sn_entries s\<rparr>"
  let ?i = "i\<lparr>ind_state := (ind_state i)\<lparr>ids_active := Some ?s\<rparr>\<rparr>"
  let ?j = "i\<lparr>ind_state := (ind_state i)\<lparr>ids_active := Some ?done\<rparr>\<rparr>"
  have same: "\<lparr>sn_version = sn_version s, sn_entries = sn_entries s\<rparr> = s" by (cases s) simp
  have version: "unat (of_nat (sn_version s) :: u64) = sn_version s" using assms(2) by (simp add: u64_of_nat)
  then have nz: "(of_nat (sn_version s) :: u64) \<noteq> 0" using valid(1) by auto
  have n: "unat (of_nat (length (sn_entries s)) :: u32) = length (sn_entries s)"
    using valid(2) by (simp add: u32_length limit_simps)
  have "document_part (StorageSnapshotStart ?start) i = Inr ?i"
    using assms(3-5) valid(2) nz n
    by (simp add: document_part_def state_part_def on_state_def state_storage_start_def incoming_storage_new_def validate_snapshot_start_def valid_when_def)
  moreover have "document_parts (map (\<lambda>e. StorageSnapshotEntry \<lparr>sne_document = document, sne_area = area, sne_entry = e\<rparr>)
      (sn_entries s)) ?i = Inr ?j"
    using entries_received [of ?i ?s "sn_entries s"] valid by simp
  moreover have "document_part (StorageSnapshotEnd \<lparr>snd_document = document, snd_area = area, snd_version = of_nat (sn_version s)\<rparr>) ?j
      = Inr (i\<lparr>ind_state := with_area area s (ind_state i)\<rparr>)"
    using assms(1) nz version
    by (cases area) (simp_all add: document_part_def state_part_def on_state_def state_storage_end_def incoming_storage_finish_def
        validate_snapshot_end_def with_area_def valid_when_def Let_def same)
  ultimately show ?thesis by (simp add: storage_messages_def document_parts_append)
qed

lemma chunks_received:
  assumes "ta_transfer_id (ind_body i) = transfer_id" "length (ta_bytes (ind_body i)) = k * TRANSFER_CHUNK_BYTES"
    and "length (ta_bytes (ind_body i)) + length rest \<le> ta_expected (ind_body i)" "ta_expected (ind_body i) \<le> u32_max"
  shows "document_parts (map (\<lambda>p. DocumentChunk (numbered_chunk transfer_id p))
      (List.enumerate k (body_chunks TRANSFER_CHUNK_BYTES rest))) i
    = Inr (i\<lparr>ind_body := (ind_body i)\<lparr>ta_bytes := ta_bytes (ind_body i) @ rest\<rparr>\<rparr>)"
  using assms
proof (induction "TRANSFER_CHUNK_BYTES" rest arbitrary: i k rule: body_chunks.induct)
  case (1 bs)
  let ?n = "TRANSFER_CHUNK_BYTES"
  have n: "max 1 ?n = ?n" "max (Suc 0) ?n = ?n" by (simp_all add: TRANSFER_CHUNK_BYTES_def)
  show ?case
  proof (cases "bs = []")
    case True
    then show ?thesis by (simp add: body_chunks.simps)
  next
    case False
    let ?c = "take ?n bs"
    let ?i = "i\<lparr>ind_body := (ind_body i)\<lparr>ta_bytes := ta_bytes (ind_body i) @ ?c\<rparr>\<rparr>"
    have small: "k * ?n \<le> u32_max" using "1.prems" by simp
    then have off: "unat (of_nat (k * ?n) :: u32) = k * ?n" by (simp only: u32_length)
    have "length (ta_bytes (ind_body i)) + length ?c \<le> ta_expected (ind_body i)" using "1.prems"(3) by simp
    then have "transfer_push (numbered_chunk transfer_id (k, ?c)) (ind_body i) = Inr ((ind_body i)\<lparr>ta_bytes := ta_bytes (ind_body i) @ ?c\<rparr>)"
      using "1.prems" off by (simp add: transfer_push_def numbered_chunk_def checked_add_def u32_max_def u64_max_def)
    then have step: "document_part (DocumentChunk (numbered_chunk transfer_id (k, ?c))) i = Inr ?i"
      by (simp add: document_part_def)
    have cs: "body_chunks ?n bs = ?c # body_chunks ?n (drop ?n bs)"
      using False by (subst body_chunks.simps) (simp add: n)
    show ?thesis
    proof (cases "?n < length bs")
      case True
      have "document_parts (map (\<lambda>p. DocumentChunk (numbered_chunk transfer_id p))
          (List.enumerate (Suc k) (body_chunks ?n (drop (max 1 ?n) bs)))) ?i
        = Inr (?i\<lparr>ind_body := (ind_body ?i)\<lparr>ta_bytes := ta_bytes (ind_body ?i) @ drop (max 1 ?n) bs\<rparr>\<rparr>)"
        using "1.prems" True by (intro "1.hyps" [OF False]) (auto simp: n)
      with step cs show ?thesis by (simp add: n)
    next
      case whole: False
      then show ?thesis using step cs by (simp add: body_chunks.simps)
    qed
  qed
qed

definition document_body_messages :: "document_start \<Rightarrow> document_state \<Rightarrow> bytes \<Rightarrow> browser_message list" where
  "document_body_messages start state body =
     CookieSnapshot \<lparr>cks_document = dcs_document start, cks_version = dst_cookie_version state, cks_header = dst_cookie_header state\<rparr>
     # storage_messages (dcs_document start) Local (dst_local_storage state)
     @ storage_messages (dcs_document start) Session (dst_session_storage state)
     @ map (\<lambda>p. DocumentChunk (numbered_chunk (dcs_document start) p)) (body_pieces body)"

lemma document_messages_split:
  "document_messages start state body = BeginDocument start # document_body_messages start state body @ [EndDocument (dcs_document start)]"
  by (simp add: document_messages_def document_body_messages_def)

definition incoming_new :: "document_start \<Rightarrow> document_decoder option \<Rightarrow> incoming_document" where
  "incoming_new start decoder =
     \<lparr>ind_decoder = decoder, ind_start = start, ind_state = incoming_state_new (dcs_document start),
      ind_body = \<lparr>ta_transfer_id = dcs_document start, ta_expected = unat (dcs_body_size start), ta_bytes = []\<rparr>\<rparr>"

lemma document_received:
  assumes "validate_document_start start = Inr ()" "validate_document_state state = Inr ()"
    and "length body = unat (dcs_body_size start)"
    and "sn_version (dst_local_storage state) \<le> u64_max" "sn_version (dst_session_storage state) \<le> u64_max"
  shows "\<exists>s. state_finish s = Inr state \<and> document_parts (document_body_messages start state body) (incoming_new start None)
    = Inr ((incoming_new start None)\<lparr>ind_state := s,
        ind_body := \<lparr>ta_transfer_id = dcs_document start, ta_expected = length body, ta_bytes = body\<rparr>\<rparr>)"
proof -
  let ?d = "dcs_document start" and ?st = "incoming_state_new (dcs_document start)"
  have size: "unat (dcs_body_size start) \<le> MAX_RESPONSE_BODY_BYTES"
    using assms(1) by (auto simp: validate_document_start_def result_simps)
  have s: "snapshot_validate (dst_local_storage state) = Inr ()" "snapshot_validate (dst_session_storage state) = Inr ()"
    "dst_cookie_version state \<noteq> 0"
    using assms(2) by (auto simp: validate_document_state_def result_simps valid_when_def)
  let ?i0 = "incoming_new start None"
  let ?s1 = "?st\<lparr>ids_cookie := Some (dst_cookie_version state, dst_cookie_header state)\<rparr>"
  let ?s2 = "with_area Local (dst_local_storage state) ?s1"
  let ?s3 = "with_area Session (dst_session_storage state) ?s2"
  have i1: "document_part (CookieSnapshot \<lparr>cks_document = ?d, cks_version = dst_cookie_version state,
      cks_header = dst_cookie_header state\<rparr>) ?i0 = Inr (?i0\<lparr>ind_state := ?s1\<rparr>)"
    using s(3) by (simp add: document_part_def state_part_def on_state_def state_cookie_def incoming_state_new_def incoming_new_def)
  have i2: "document_parts (storage_messages ?d Local (dst_local_storage state)) (?i0\<lparr>ind_state := ?s1\<rparr>) = Inr (?i0\<lparr>ind_state := ?s2\<rparr>)"
    using storage_received [OF s(1) assms(4), of "?i0\<lparr>ind_state := ?s1\<rparr>" ?d Local]
    by (simp add: incoming_state_new_def area_is_complete_def)
  have i3: "document_parts (storage_messages ?d Session (dst_session_storage state)) (?i0\<lparr>ind_state := ?s2\<rparr>) = Inr (?i0\<lparr>ind_state := ?s3\<rparr>)"
    using storage_received [OF s(2) assms(5), of "?i0\<lparr>ind_state := ?s2\<rparr>" ?d Session]
    by (simp add: incoming_state_new_def area_is_complete_def with_area_def)
  have i4: "document_parts (map (\<lambda>p. DocumentChunk (numbered_chunk ?d p)) (body_pieces body)) (?i0\<lparr>ind_state := ?s3\<rparr>)
      = Inr (?i0\<lparr>ind_state := ?s3, ind_body := (ind_body ?i0)\<lparr>ta_bytes := body\<rparr>\<rparr>)"
    using chunks_received [of "?i0\<lparr>ind_state := ?s3\<rparr>" ?d 0 body] assms(3) size
    by (simp add: body_pieces_def limit_simps incoming_new_def)
  have "state_finish ?s3 = Inr state"
    using assms(2) by (cases state) (simp add: state_finish_def with_area_def incoming_state_new_def Let_def)
  moreover have "document_parts (document_body_messages start state body) ?i0
      = Inr (?i0\<lparr>ind_state := ?s3, ind_body := (ind_body ?i0)\<lparr>ta_bytes := body\<rparr>\<rparr>)"
    by (simp add: document_body_messages_def i1 document_parts_append i2 i3 i4)
  ultimately show ?thesis using assms(3) by (intro exI [of _ ?s3]) (simp add: incoming_new_def)
qed

section \<open>From end to end\<close>

lemma quota_bytes_length: "length us \<le> byte_len us"
proof -
  have "b + length us \<le> quota_bytes_loop us b h" for b h
  proof (induction us arbitrary: b h)
    case (Cons u us)
    let ?high = "0xd800 \<le> u \<and> u \<le> 0xdbff"
    show ?case
      using Cons.IH [of "b + 1" False] Cons.IH [of "b + 2" False] Cons.IH [of "b + 1" ?high] Cons.IH [of "b + 3" ?high]
      by auto
  qed simp
  from this [of 0 False] show ?thesis by (simp add: byte_len_def quota_bytes_def)
qed

lemma entry_fits: "entry_validate e = Inr () \<Longrightarrow> storage_entry_fits e"
  using quota_bytes_length [of "se_key e"] quota_bytes_length [of "se_value e"]
  by (auto simp: entry_validate_def validate_bytes_def storage_entry_fits_def saturating_add_def saturating_mul_def
      limit_simps split: if_splits)

lemma storage_messages_fit:
  assumes "snapshot_validate s = Inr ()" "sn_version s \<le> u64_max" "document \<noteq> 0"
  shows "list_all browser_fits (storage_messages document area s)"
proof -
  note valid = snapshot_valid [OF assms(1)]
  have "unat (of_nat (sn_version s) :: u64) = sn_version s" using assms(2) by (simp add: u64_of_nat)
  then have "(of_nat (sn_version s) :: u64) \<noteq> 0" using valid(1) by auto
  then show ?thesis
    using valid(4) assms(3)
    by (auto simp: storage_messages_def browser_fits_def snapshot_start_fits_def snapshot_end_fits_def snapshot_entry_fits_def
        list_all_iff entry_fits)
qed

lemma document_messages_fit:
  assumes "validate_document_state state = Inr ()" "document_start_fits start" "is_utf8 (dst_cookie_header state)"
    and "sn_version (dst_local_storage state) \<le> u64_max" "sn_version (dst_session_storage state) \<le> u64_max"
  shows "list_all browser_fits (document_messages start state body)"
proof -
  have d: "dcs_document start \<noteq> 0" using assms(2) by (simp add: document_start_fits_def)
  have s: "snapshot_validate (dst_local_storage state) = Inr ()" "snapshot_validate (dst_session_storage state) = Inr ()"
    "dst_cookie_version state \<noteq> 0" "length (dst_cookie_header state) \<le> MAX_COOKIE_HEADER_BYTES"
    using assms(1) by (auto simp: validate_document_state_def result_simps valid_when_def)
  have "transfer_chunk_fits (numbered_chunk (dcs_document start) p)" if "p \<in> set (body_pieces body)" for p
    using that d body_chunks_length [of "snd p" TRANSFER_CHUNK_BYTES body]
    by (auto simp: body_pieces_def numbered_chunk_def transfer_chunk_fits_def TRANSFER_CHUNK_BYTES_def limit_simps
        dest!: in_set_enumerate_eq [THEN iffD1] nth_mem)
  then show ?thesis
    using storage_messages_fit [OF s(1) assms(4) d] storage_messages_fit [OF s(2) assms(5) d] assms(2,3) d s
    by (auto simp: document_messages_def browser_fits_def cookie_snapshot_fits_def list_all_iff)
qed

lemma document_messages_length:
  "length (document_messages start state body) =
     7 + length (sn_entries (dst_local_storage state)) + length (sn_entries (dst_session_storage state)) + length (body_pieces body)"
  by (simp add: document_messages_def storage_messages_def)

lemma body_chunks_count: "length (body_chunks n bs) \<le> length bs"
proof (induction n bs rule: body_chunks.induct)
  case (1 n bs)
  show ?case
  proof (cases "bs = []")
    case False
    then have "length (body_chunks n bs) = Suc (length (body_chunks n (drop (max 1 n) bs)))"
      by (subst body_chunks.simps) simp
    moreover have "length (drop (max 1 n) bs) < length bs" using False by simp
    ultimately show ?thesis using 1 [OF False] by linarith
  qed (simp add: body_chunks.simps)
qed

text \<open>What the mailbox has taken.\<close>

lemma send_all_in_hand:
  assumes "send_all outbound_send ms s = (Inr (), s')"
  shows "in_hand s' = in_hand s @ ms \<and> ob_queued s' = ob_queued s + length ms"
  using assms
proof (induction ms arbitrary: s)
  case (Cons m ms)
  then obtain s1 where s1: "outbound_send m s = (Inr (), s1)" "send_all outbound_send ms s1 = (Inr (), s')"
    unfolding send_all_Cons by blast
  from outbound_send_accepted [OF s1(1)] Cons.IH [OF s1(2)] show ?case by (simp add: in_hand_def)
qed simp

lemma send_all_open:
  assumes "ob_open s" "ob_failure s = None" "ob_connected s" "ob_reserved s = None"
    and "ob_queued s + length ms \<le> MAX_QUEUED_BROWSER_WRITES"
  shows "\<exists>s'. send_all outbound_send ms s = (Inr (), s')"
  using assms
proof (induction ms arbitrary: s)
  case (Cons m ms)
  from outbound_send_open [OF Cons.prems(1-3) _ Cons.prems(4), of m] Cons.prems(5)
  have send: "outbound_send m s = (Inr (), s\<lparr>ob_queued := ob_queued s + 1, ob_messages := ob_messages s @ [m]\<rparr>)" by simp
  from Cons.IH [of "s\<lparr>ob_queued := ob_queued s + 1, ob_messages := ob_messages s @ [m]\<rparr>"] Cons.prems send
  show ?case by simp
qed simp

lemma body_chunks_few: "0 < n \<Longrightarrow> length bs \<le> n * k \<Longrightarrow> length (body_chunks n bs) \<le> k"
proof (induction k arbitrary: bs)
  case (Suc k)
  show ?case
  proof (cases "bs = []")
    case False
    then have "length (body_chunks n bs) = Suc (length (body_chunks n (drop n bs)))"
      using Suc.prems(1) by (subst body_chunks.simps) (simp add: max_def Suc_le_eq)
    moreover have "length (drop n bs) \<le> n * k" using Suc.prems(2) by simp
    ultimately show ?thesis using Suc.IH [OF Suc.prems(1)] by simp
  qed (simp add: body_chunks.simps)
qed (simp add: body_chunks.simps)

lemma document_messages_few:
  assumes "validate_document_start start = Inr ()" "validate_document_state state = Inr ()"
    and "length body = unat (dcs_body_size start)"
  shows "length (document_messages start state body) \<le> 2071"
    and "length (sn_entries (dst_local_storage state)) \<le> u32_max" "length (sn_entries (dst_session_storage state)) \<le> u32_max"
    and "list_all (\<lambda>p. fst p * TRANSFER_CHUNK_BYTES \<le> u32_max) (body_pieces body)"
proof -
  have "length body \<le> MAX_RESPONSE_BODY_BYTES"
    using assms(1,3) by (auto simp: validate_document_start_def result_simps)
  then have pieces: "length (body_pieces body) \<le> 16"
    using body_chunks_few [of TRANSFER_CHUNK_BYTES body 16] by (simp add: body_pieces_def TRANSFER_CHUNK_BYTES_def limit_simps)
  have entries: "length (sn_entries (dst_local_storage state)) \<le> 1024" "length (sn_entries (dst_session_storage state)) \<le> 1024"
    using assms(2) by (auto simp: validate_document_state_def snapshot_validate_def result_simps limit_simps split: if_splits)
  with pieces show "length (document_messages start state body) \<le> 2071"
    by (simp add: document_messages_length)
  from entries show "length (sn_entries (dst_local_storage state)) \<le> u32_max" "length (sn_entries (dst_session_storage state)) \<le> u32_max"
    by (simp_all add: limit_simps)
  have "fst p < 16" if "p \<in> set (body_pieces body)" for p
    using that pieces by (auto simp: body_pieces_def in_set_enumerate_eq)
  then show "list_all (\<lambda>p. fst p * TRANSFER_CHUNK_BYTES \<le> u32_max) (body_pieces body)"
    by (force simp: list_all_iff TRANSFER_CHUNK_BYTES_def limit_simps dest!: less_imp_le)
qed

lemma document_is_queued:
  assumes "validate_document_start start = Inr ()" "validate_document_state state = Inr ()"
    and "length body = unat (dcs_body_size start)"
    and "ob_open s" "ob_failure s = None" "ob_connected s" "ob_reserved s = None" "ob_queued s \<le> 2025"
  shows "\<exists>s'. send_document start state body s = (Inr (), s') \<and> in_hand s' = in_hand s @ document_messages start state body"
proof -
  note few = document_messages_few [OF assms(1-3)]
  have "ob_queued s + length (document_messages start state body) \<le> MAX_QUEUED_BROWSER_WRITES"
    using few(1) assms(8) by (simp add: limit_simps)
  from send_all_open [OF assms(4-7) this] obtain s' where s': "send_all outbound_send (document_messages start state body) s = (Inr (), s')"
    by blast
  with few assms(1-3) have "send_document start state body s = (Inr (), s')" by (simp add: document_sent)
  with send_all_in_hand [OF s'] show ?thesis by blast
qed

section \<open>Documents arrive\<close>

text \<open>C24: A document always fits the mailbox: if its start and its state are valid and its body has the declared length,
  a mailbox with a running writer and at most 2,025 waiting messages (the state of a page that accepts commands has
  fewer than 8) takes all its messages, in order, behind the waiting ones.\<close>

theorem documents_fit_the_mailbox:
  assumes "validate_document_start start = Inr ()" "validate_document_state state = Inr ()"
    and "length body = unat (dcs_body_size start)"
    and "outbound_run io evs (outbound_spawn, w0) = (s, w)" "ob_open s" "ob_reserved s = None" "ob_queued s \<le> 2025"
  shows "\<exists>s'. send_document start state body s = (Inr (), s') \<and> in_hand s' = in_hand s @ document_messages start state body"
proof -
  have "outbound_inv s" using outbound_inv_run [of "(outbound_spawn, w0)" io evs] outbound_spawn_inv assms(4) by simp
  then have "ob_failure s = None" "ob_connected s" using assms(5) by (auto simp: outbound_inv_def)
  with document_is_queued [OF assms(1-3,5) _ _ assms(6,7)] show ?thesis by simp
qed

definition sample_start :: document_start where
  "sample_start = \<lparr>dcs_document = 1, dcs_url = ''https://a/'', dcs_status = 200, dcs_content_type = ''text/html'',
     dcs_csp_policies = [], dcs_selectors = [], dcs_body_size = 2, dcs_history_length = 1, dcs_history_index = 0,
     dcs_history_state = None, dcs_scroll_restoration = ScrollAuto,
     dcs_viewport = \<lparr>vp_width = 0x44480000, vp_overflow_width = 0x44480000, vp_height = 0x44160000, vp_style_width = 0x44480000,
       vp_dpi = 96, vp_dark = False, vp_rate = \<lparr>rr_numerator = 60, rr_denominator = 1\<rparr>\<rparr>,
     dcs_dark = False, dcs_notification = NotifyDefault\<rparr>"

definition sample_state :: document_state where
  "sample_state = \<lparr>dst_cookie_version = 1, dst_cookie_header = ''a=b'',
     dst_local_storage = \<lparr>sn_version = 2, sn_entries = [\<lparr>se_key = [97], se_value = [98]\<rparr>]\<rparr>, dst_session_storage = snapshot_empty\<rparr>"

lemma sample_viewport: "validate_viewport (dcs_viewport sample_start) = Inr ()"
  by (simp add: sample_start_def validate_viewport_def f32_within_def f32_is_finite_def f32_key_def)

lemma sample_valid1:
  "validate_document_start sample_start = Inr ()"
  using sample_viewport by (simp add: validate_document_start_def sample_start_def limit_simps valid_when_def)

lemma sample_snapshots: "snapshot_validate snapshot_empty = Inr ()" "snapshot_validate (dst_local_storage sample_state) = Inr ()"
  by (simp_all add: snapshot_validate_def snapshot_empty_def sample_state_def entry_validate_def validate_bytes_def byte_len_def
      quota_bytes_def saturating_add_def checked_add_def limit_simps)

lemma sample_valid2:
  "validate_document_state sample_state = Inr ()"
  using sample_snapshots by (simp add: sample_state_def validate_document_state_def limit_simps valid_when_def)

lemma sample_text: "is_utf8 ''https://a/''" "is_utf8 ''text/html''" "is_utf8 ''a=b''"
  by code_simp+

lemma sample_valid3:
  "document_start_fits sample_start"
  using sample_viewport sample_text by (simp add: sample_start_def document_start_fits_def viewport_fits_def refresh_rate_fits_def csp_texts_fits_def
      diagnostic_selectors_fits_def limit_simps)

lemma sample_pieces: "body_pieces [60, 62] = [(0, [60, 62])]"
  by (simp add: body_pieces_def body_chunks.simps TRANSFER_CHUNK_BYTES_def)

lemma frames_exist:
  assumes "list_all (\<lambda>m. \<exists>f. encode m = Inr f \<and> length (snd f) \<le> payload_limit (fst f)) ms"
  shows "\<exists>fs. list_all2 (\<lambda>m f. encode m = Inr f) ms fs \<and> list_all (\<lambda>f. length (snd f) \<le> payload_limit (fst f)) fs"
  using assms
proof (induction ms)
  case (Cons m ms)
  then obtain f fs where "encode m = Inr f" "length (snd f) \<le> payload_limit (fst f)" "list_all2 (\<lambda>m f. encode m = Inr f) ms fs"
    "list_all (\<lambda>f. length (snd f) \<le> payload_limit (fst f)) fs"
    by auto
  then have "list_all2 (\<lambda>m f. encode m = Inr f) (m # ms) (f # fs)" "list_all (\<lambda>f. length (snd f) \<le> payload_limit (fst f)) (f # fs)"
    by simp_all
  then show ?case by blast
qed simp

lemmas sample_simps = encode_browser_def encode_browser_document_def encode_browser_state_def with_kind_Inr payload_limit_def
  limit_simps result_simps put_string_def put_bytes_def put_optional_def valid_when_def put_document_start_def put_csp_texts_def
  put_diagnostic_selectors_def put_viewport_def put_refresh_rate_def put_cookie_snapshot_def validate_cookie_snapshot_def
  put_snapshot_start_def validate_snapshot_start_def put_snapshot_entry_def validate_snapshot_entry_def put_storage_entry_def
  put_storage_string_def put_snapshot_end_def validate_snapshot_end_def put_transfer_chunk_def put_document_def numbered_chunk_def
  entry_validate_def validate_bytes_def byte_len_def quota_bytes_def saturating_add_def

lemma sample_frames:
  "\<exists>fs. list_all2 (\<lambda>m f. encode_browser m = Inr f) (document_messages sample_start sample_state [60, 62]) fs
     \<and> list_all (\<lambda>f. length (snd f) \<le> payload_limit (fst f)) fs"
proof (rule frames_exist)
  have starts: "\<exists>f. encode_browser (BeginDocument sample_start) = Inr f \<and> length (snd f) \<le> payload_limit (fst f)"
    using sample_valid1 by (simp add: sample_simps) (simp add: sample_start_def sample_simps)
  have d: "dcs_document sample_start = 1" by (simp add: sample_start_def)
  show "list_all (\<lambda>m. \<exists>f. encode_browser m = Inr f \<and> length (snd f) \<le> payload_limit (fst f))
      (document_messages sample_start sample_state [60, 62])"
    by (simp add: document_messages_def storage_messages_def sample_pieces starts d del: split_paired_Ex)
      (simp add: sample_state_def snapshot_empty_def sample_simps)
qed

lemma sample_written_behind:
  "\<exists>w. send_all (send_browser vec_sink) (Ping 5 # document_messages sample_start sample_state [60, 62]) (frame_writer_new [] 9) = (Inr (), w)"
proof -
  let ?ms = "Ping 5 # document_messages sample_start sample_state [60, 62]"
  from sample_frames obtain fs where fs: "list_all2 (\<lambda>m f. encode_browser m = Inr f) (document_messages sample_start sample_state [60, 62]) fs"
    "list_all (\<lambda>f. length (snd f) \<le> payload_limit (fst f)) fs" by blast
  have "\<exists>f. encode_browser (Ping 5) = Inr f \<and> length (snd f) \<le> payload_limit (fst f)"
    by (simp add: encode_browser_def encode_token_def with_kind_def payload_limit_def put_u64_def limit_simps)
  then obtain f where f: "list_all2 (\<lambda>m f. encode_browser m = Inr f) ?ms (f # fs)" "list_all (\<lambda>f. length (snd f) \<le> payload_limit (fst f)) (f # fs)"
    using fs by auto
  have "length fs = 9"
    using list_all2_lengthD [OF fs(1)]
    by (simp add: document_messages_length sample_pieces sample_state_def snapshot_empty_def)
  then obtain w where w: "write_frames vec_sink (f # fs) (frame_writer_new [] 9) = (Inr (), w)"
    using vec.write_frames_accepts [OF f(2), of "frame_writer_new [] 9"] by (auto simp: frame_writer_new_def u64_max_def)
  then show ?thesis unfolding send_browser_def browser.send_all_frames using f(1) by blast
qed

lemma sample_sizes:
  "length [60::8 word, 62] = unat (dcs_body_size sample_start)" "is_utf8 (dst_cookie_header sample_state)"
  "sn_version (dst_local_storage sample_state) \<le> u64_max" "sn_version (dst_session_storage sample_state) \<le> u64_max"
  using sample_text by (simp_all add: sample_start_def sample_state_def snapshot_empty_def u64_max_def)

theorem documents_fit_the_mailbox_witness:
  "\<exists>s'. send_document sample_start sample_state [60, 62] outbound_spawn = (Inr (), s')
    \<and> in_hand s' = in_hand outbound_spawn @ document_messages sample_start sample_state [60, 62]"
  using documents_fit_the_mailbox [OF sample_valid1 sample_valid2 sample_sizes(1),
      of vec_sink "[]" "frame_writer_new [] 9" outbound_spawn "frame_writer_new [] 9"]
  by (simp add: outbound_spawn_def)

section \<open>Only complete documents\<close>

definition chunk_contents :: "browser_message list \<Rightarrow> bytes" where
  "chunk_contents ms = concat (map (\<lambda>m. case m of DocumentChunk c \<Rightarrow> tc_content c | _ \<Rightarrow> []) ms)"

definition cookies_sent :: "browser_message list \<Rightarrow> (u64 \<times> string) list" where
  "cookies_sent ms = concat (map (\<lambda>m. case m of CookieSnapshot s \<Rightarrow> [(cks_version s, cks_header s)] | _ \<Rightarrow> []) ms)"

definition entries_sent :: "storage_area_kind \<Rightarrow> browser_message list \<Rightarrow> storage_entry list" where
  "entries_sent area ms = concat (map (\<lambda>m. case m of StorageSnapshotEntry s \<Rightarrow> if sne_area s = area then [sne_entry s] else [] | _ \<Rightarrow> []) ms)"

definition entries_seen :: "storage_area_kind \<Rightarrow> incoming_state \<Rightarrow> storage_entry list" where
  "entries_seen area i =
     (case (case area of Local \<Rightarrow> ids_local i | Session \<Rightarrow> ids_session i) of
        Some s \<Rightarrow> sn_entries s
      | None \<Rightarrow> (case ids_active i of Some s \<Rightarrow> if ist_area s = area then ist_entries s else [] | None \<Rightarrow> []))"

definition state_inv :: "browser_message list \<Rightarrow> incoming_state \<Rightarrow> bool" where
  "state_inv ms s \<longleftrightarrow>
     cookies_sent ms = (case ids_cookie s of None \<Rightarrow> [] | Some c \<Rightarrow> [c])
     \<and> (\<forall>area. entries_sent area ms = entries_seen area s)
     \<and> pred_option (\<lambda>a. \<not> area_is_complete (ist_area a) s) (ids_active s)"

lemma sent_snoc:
  "chunk_contents [] = []" "cookies_sent [] = []" "entries_sent area [] = []"
  "chunk_contents (ms @ [m]) = chunk_contents ms @ (case m of DocumentChunk c \<Rightarrow> tc_content c | _ \<Rightarrow> [])"
  "cookies_sent (ms @ [m]) = cookies_sent ms @ (case m of CookieSnapshot s \<Rightarrow> [(cks_version s, cks_header s)] | _ \<Rightarrow> [])"
  "entries_sent area (ms @ [m]) = entries_sent area ms @
     (case m of StorageSnapshotEntry s \<Rightarrow> if sne_area s = area then [sne_entry s] else [] | _ \<Rightarrow> [])"
  by (simp_all add: chunk_contents_def cookies_sent_def entries_sent_def)

lemma cookie_irrelevant [simp]:
  "entries_seen area (i\<lparr>ids_cookie := c\<rparr>) = entries_seen area i"
  "area_is_complete area (i\<lparr>ids_cookie := c\<rparr>) = area_is_complete area i"
  "area_is_complete area (i\<lparr>ids_active := a\<rparr>) = area_is_complete area i"
  by (simp_all add: entries_seen_def area_is_complete_def split: storage_area_kind.splits option.splits)

lemma state_storage_end_with_area:
  "state_storage_end stop i =
     and_then (ok_or (ids_active i) (Refused ''unsolicited storage snapshot completion'')) (\<lambda>s.
     and_then (incoming_storage_finish stop s) (\<lambda>snapshot. Inr (with_area (ist_area s) snapshot i)))"
  by (simp add: state_storage_end_def with_area_def)

lemma state_inv_step:
  assumes "state_part m i = Inr j" "state_inv ms i"
  shows "state_inv (ms @ [m]) j"
proof (cases m)
  case (CookieSnapshot s)
  with assms have "j = i\<lparr>ids_cookie := Some (cks_version s, cks_header s)\<rparr>" "ids_cookie i = None"
    by (cases "ids_cookie i"; auto simp: state_part_def state_cookie_def split: if_splits)+
  with CookieSnapshot assms(2) show ?thesis by (simp add: state_inv_def sent_snoc)
next
  case (StorageSnapshotStart s)
  then show ?thesis using assms
    by (auto simp: state_part_def state_storage_start_def incoming_storage_new_def result_simps state_inv_def
        sent_snoc entries_seen_def area_is_complete_def split: if_splits storage_area_kind.splits option.splits)
next
  case (StorageSnapshotEntry e)
  then obtain s s' where s: "ids_active i = Some s" "incoming_entry e s = Inr s'" and j: "j = i\<lparr>ids_active := Some s'\<rparr>"
    using assms by (auto simp: state_part_def state_storage_entry_def result_simps)
  from s(2) have "ist_area s' = ist_area s" "ist_entries s' = ist_entries s @ [sne_entry e]" "sne_area e = ist_area s"
    by (auto simp: incoming_entry_def result_simps split: if_splits)
  then show ?thesis using StorageSnapshotEntry assms(2) s(1) j
    by (auto simp: state_inv_def sent_snoc entries_seen_def area_is_complete_def split: storage_area_kind.splits option.splits)
next
  case (StorageSnapshotEnd e)
  then obtain s snap where s: "ids_active i = Some s" "incoming_storage_finish e s = Inr snap"
    and j: "j = with_area (ist_area s) snap i"
    using assms by (auto simp: state_part_def state_storage_end_with_area result_simps)
  from s(2) have "sn_entries snap = ist_entries s"
    by (auto simp: incoming_storage_finish_def result_simps Let_def split: if_splits)
  then show ?thesis using StorageSnapshotEnd assms(2) s(1) j
    by (auto simp: state_inv_def sent_snoc entries_seen_def area_is_complete_def with_area_def
        split: storage_area_kind.splits option.splits)
qed (use assms in \<open>auto simp: state_part_def state_inv_def sent_snoc\<close>)

lemma state_inv_new: "state_inv [] (incoming_state_new d)"
  by (auto simp: state_inv_def sent_snoc incoming_state_new_def entries_seen_def split: storage_area_kind.splits)

text \<open>What a finished state says of the messages.\<close>

lemma state_finished:
  assumes "state_finish s = Inr state" "state_inv ms s"
  shows "validate_document_state state = Inr ()" "cookies_sent ms = [(dst_cookie_version state, dst_cookie_header state)]"
    "entries_sent Local ms = sn_entries (dst_local_storage state)" "entries_sent Session ms = sn_entries (dst_session_storage state)"
proof -
  from assms(1) have s: "ids_cookie s = Some (dst_cookie_version state, dst_cookie_header state)"
    "ids_local s = Some (dst_local_storage state)" "ids_session s = Some (dst_session_storage state)"
    "validate_document_state state = Inr ()"
    by (auto simp: state_finish_def result_simps Let_def)
  with assms(2) show "validate_document_state state = Inr ()" "cookies_sent ms = [(dst_cookie_version state, dst_cookie_header state)]"
    "entries_sent Local ms = sn_entries (dst_local_storage state)" "entries_sent Session ms = sn_entries (dst_session_storage state)"
    by (auto simp: state_inv_def entries_seen_def)
qed

end
