(* ===== verification/Child_Connection.thy ===== *)
theory Child_Connection
  imports Document_Transfer
begin

text \<open>
  The renderer's end of the connection (\<^verbatim>\<open>renderer_process/child/connection.rs\<close>, with \<^verbatim>\<open>runtime.rs\<close>,
  \<^verbatim>\<open>navigation.rs\<close>, \<^verbatim>\<open>state.rs\<close>, \<^verbatim>\<open>policy.rs\<close> and the delivery files below it): which document it owns, which one
  it is receiving, and what it gives to the page engine.

  The page engine, the Fetch state, the pipe and the clock are outside: a \<open>handling\<close> says what they do while one
  message is handled, and the theorems hold for every handling. The messages are listed in the order in which the loop
  hands them to \<open>handle\<close>: those that were deferred while the engine waited for a fetch, and the event-loop turn that a
  storage synchronization queues, have their place in that list, and so have the fetch deliveries that were queued then. A \<open>Shutdown\<close> met during such a wait is part of
  the handling. Media, the retained text system, the messages that the engine and the Fetch state send themselves and the last
  diagnostic of a failing connection are left out.
\<close>

section \<open>State\<close>

text \<open>The calls that give a document to the page engine.\<close>

datatype engine_call =
    LoadDocument document_start document_state bytes
  | LoadStream document_start document_state document_decoder string
  | AppendNavigation u64 bytes bool

text \<open>What the engine answers: it goes on with the document, or goes on after an encoding restart, or fails it, or
  navigates away while loading; or the call ends the connection.\<close>

datatype engine_answer = Completed | Restarted | FailedWith string | Redirected string | BrokenOff transfer_error

text \<open>\<open>hg_invalid\<close> is the error of the message's own \<^verbatim>\<open>validate\<close> or of a test command; \<open>hg_engine n\<close> says whether the
  \<open>n\<close>-th call of the engine met a \<open>Shutdown\<close>, and what it answered; \<open>hg_changed\<close> is the Boolean that some calls return;
  \<open>hg_fetch\<close> is the Fetch state's answer, with the document a finished response is delivered to; \<open>hg_pipe\<close> is the
  error with which the pipe refuses to be written; \<open>hg_task\<close> is the task diagnostic sent before, and \<open>hg_late\<close> says
  whether the acknowledgement of processed work is due after.\<close>

record handling =
  hg_invalid :: "transfer_error option"
  hg_engine :: "nat \<Rightarrow> bool \<times> engine_answer"
  hg_changed :: bool
  hg_fetch :: "transfer_error + u64 option"
  hg_pipe :: "protocol_error option"
  hg_task :: "(transfer_error + diagnostic) option"
  hg_late :: bool

record connection =
  cn_test_mode :: bool
  cn_stopping :: bool
  cn_accessibility :: bool
  cn_incoming :: "incoming_document option"
  cn_streaming :: "(u64 \<times> nat) option"
  cn_update :: "incoming_storage option"
  cn_document :: "u64 option"
  cn_failed :: "u64 option"
  cn_sent :: "renderer_message list"
  cn_calls :: "engine_call list"

type_synonym handler = "connection action"

definition connection_new :: "bool \<Rightarrow> connection" where
  "connection_new test_mode =
     \<lparr>cn_test_mode = test_mode, cn_stopping = False, cn_accessibility = False, cn_incoming = None, cn_streaming = None,
      cn_update = None, cn_document = None, cn_failed = None, cn_sent = [], cn_calls = []\<rparr>"

definition nothing :: handler where "nothing cn = (Inr (), cn)"

definition refuse :: "string \<Rightarrow> handler" where "refuse message cn = (Inl (Refused message), cn)"

definition post :: "renderer_message \<Rightarrow> handling \<Rightarrow> handler" where
  "post m hg cn =
     (case hg_pipe hg of Some e \<Rightarrow> (Inl (Wire e), cn) | None \<Rightarrow> (Inr (), cn\<lparr>cn_sent := cn_sent cn @ [m]\<rparr>))"

section \<open>Failure and the end\<close>

fun char_boundary :: "string \<Rightarrow> nat \<Rightarrow> nat" where
  "char_boundary s 0 = 0"
| "char_boundary s (Suc n) =
     (if Suc n < length s \<and> 0x80 \<le> (of_char (s ! Suc n) :: nat) \<and> of_char (s ! Suc n) < (0xc0 :: nat) then char_boundary s n else Suc n)"

definition bounded_detail :: "string \<Rightarrow> string" where
  "bounded_detail detail =
     (if length detail \<le> 16 * 1024 then detail
      else take (char_boundary detail (16 * 1024)) detail @ [CHR 0xE2, CHR 0x80, CHR 0xA6])"

definition send_document_failure :: "u64 \<Rightarrow> string \<Rightarrow> handling \<Rightarrow> handler" where
  "send_document_failure document detail hg cn =
     post (DocumentFailed \<lparr>dcf_document = document, dcf_detail = bounded_detail detail\<rparr>) hg
       (cn\<lparr>cn_document := None, cn_failed := Some document\<rparr>)"

definition shutdown :: "handling \<Rightarrow> handler" where
  "shutdown hg cn =
     then_send (post ShutdownComplete hg) (\<lambda>cn. (Inr (), cn\<lparr>cn_stopping := True\<rparr>)) (cn\<lparr>cn_document := None, cn_incoming := None\<rparr>)"

section \<open>Calls of the page engine\<close>

text \<open>The engine has the document, which the caller has taken out of the connection.\<close>

definition run_engine :: "nat \<Rightarrow> handling \<Rightarrow> connection \<Rightarrow> engine_answer \<times> connection" where
  "run_engine n hg cn = (case hg_engine hg n of (nested, answer) \<Rightarrow> (answer, if nested then snd (shutdown hg cn) else cn))"

text \<open>What becomes of the document then; \<open>always\<close> where the code keeps it without asking whether it is stopping.\<close>

definition settle :: "bool \<Rightarrow> u64 \<Rightarrow> handling \<Rightarrow> engine_answer \<Rightarrow> handler" where
  "settle always document hg answer cn =
     (case answer of
        Completed \<Rightarrow> (Inr (), if always \<or> \<not> cn_stopping cn then cn\<lparr>cn_document := Some document\<rparr> else cn)
      | Restarted \<Rightarrow> (Inr (), cn\<lparr>cn_document := Some document\<rparr>)
      | FailedWith detail \<Rightarrow> send_document_failure document detail hg cn
      | Redirected url \<Rightarrow> post (NavigationRequested \<lparr>nvr_document = document, nvr_url = url, nvr_disposition = CurrentTab,
          nvr_cause = NavigationRedirect\<rparr>) hg cn
      | BrokenOff e \<Rightarrow> (Inl e, cn))"

definition engine_turn :: "bool \<Rightarrow> nat \<Rightarrow> u64 \<Rightarrow> handling \<Rightarrow> handler" where
  "engine_turn always n document hg cn =
     (case run_engine n hg (cn\<lparr>cn_document := None\<rparr>) of (answer, cn') \<Rightarrow> settle always document hg answer cn')"

text \<open>A delivery to the document it names; it is dropped when that document is not the one in place.\<close>

definition deliver :: "bool \<Rightarrow> u64 \<Rightarrow> handling \<Rightarrow> handler" where
  "deliver always document hg cn = (if cn_document cn \<noteq> Some document then (Inr (), cn) else engine_turn always 0 document hg cn)"

definition validated :: "handling \<Rightarrow> handler \<Rightarrow> handler" where
  "validated hg f cn = (case hg_invalid hg of Some e \<Rightarrow> (Inl e, cn) | None \<Rightarrow> f cn)"

definition advance_document :: "u64 \<Rightarrow> handling \<Rightarrow> handler" where
  "advance_document = deliver False"

definition resize_document :: "viewport_changed \<Rightarrow> handling \<Rightarrow> handler" where
  "resize_document v = deliver True (vpc_document v)"

definition deliver_script_fetch :: "u64 \<Rightarrow> handling \<Rightarrow> handler" where
  "deliver_script_fetch = deliver False"

definition complete_document_resource_preloads :: "handling \<Rightarrow> handler" where
  "complete_document_resource_preloads hg cn =
     (case cn_document cn of None \<Rightarrow> (Inr (), cn) | Some document \<Rightarrow> engine_turn False 1 document hg cn)"

definition handle_fetch :: "bool \<Rightarrow> handling \<Rightarrow> handler" where
  "handle_fetch terminal hg cn =
     (case hg_fetch hg of
        Inl e \<Rightarrow> (Inl e, cn)
      | Inr delivery \<Rightarrow>
          then_send (case delivery of None \<Rightarrow> nothing | Some document \<Rightarrow> deliver_script_fetch document hg)
            (if terminal then complete_document_resource_preloads hg else nothing) cn)"

definition accessibility_policy :: "bool \<Rightarrow> handling \<Rightarrow> handler" where
  "accessibility_policy enabled hg cn =
     (let cn' = cn\<lparr>cn_accessibility := enabled\<rparr>
      in case cn_document cn' of
           None \<Rightarrow> (Inr (), cn')
         | Some document \<Rightarrow> if hg_changed hg then advance_document document hg cn' else (Inr (), cn'))"

definition gpu_canvas_policy :: "u64 \<times> bool \<Rightarrow> handling \<Rightarrow> handler" where
  "gpu_canvas_policy p hg cn =
     (if cn_document cn \<noteq> Some (fst p) then (Inr (), cn)
      else if \<not> snd p then advance_document (fst p) hg cn else (Inr (), cn))"

text \<open>Input that finds no document is still answered, so that the browser sends more.\<close>

definition input_completions :: "document_input \<Rightarrow> renderer_message list" where
  "input_completions i =
     (case i of
        PointerEvent p \<Rightarrow> (if pti_phase p = PhaseMove
          then [PointerCursor \<lparr>pcr_document = pti_document p, pcr_sequence = pti_sequence p, pcr_cursor = DefaultCursor\<rparr>] else [])
      | ScrollEvent s \<Rightarrow> [ScrollCompleted \<lparr>scd_document = sci_document s, scd_sequence = sci_sequence s\<rparr>]
      | _ \<Rightarrow> [])"

definition interact_document :: "document_input \<Rightarrow> handling \<Rightarrow> handler" where
  "interact_document i hg cn =
     (if cn_document cn \<noteq> Some (input_document i) then send_each (\<lambda>m. post m hg) (input_completions i) cn
      else engine_turn False 0 (input_document i) hg cn)"

definition acknowledge_presentation :: "presentation_ack \<Rightarrow> handling \<Rightarrow> handler" where
  "acknowledge_presentation a hg cn =
     (if cn_document cn = Some (pak_document a)
      then (case snd (hg_engine hg 0) of BrokenOff e \<Rightarrow> (Inl e, cn) | _ \<Rightarrow> (Inr (), cn)) else (Inr (), cn))"

section \<open>A document arrives\<close>

definition begin_document :: "document_start \<Rightarrow> handler" where
  "begin_document start =
     guarded (wire (validate_document_start start)) (\<lambda>_ cn.
       if cn_incoming cn \<noteq> None \<or> cn_document cn \<noteq> None then (Inl (Refused ''renderer already owns a document''), cn)
       else guarded (wire (transfer_new (dcs_document start) (unat (dcs_body_size start)) MAX_RESPONSE_BODY_BYTES)) (\<lambda>body cn.
         (Inr (), cn\<lparr>cn_incoming := Some \<lparr>ind_decoder = None, ind_start = start,
            ind_state = incoming_state_new (dcs_document start), ind_body = body\<rparr>\<rparr>)) (cn\<lparr>cn_failed := None\<rparr>))"

definition begin_streaming_document :: "document_start \<Rightarrow> handler" where
  "begin_streaming_document start cn =
     (if dcs_body_size start \<noteq> 0 then (Inl (Refused ''streaming document declared a fixed length''), cn)
      else then_send (begin_document start) (\<lambda>cn.
        (Inr (), cn\<lparr>cn_incoming := map_option (\<lambda>i. i\<lparr>ind_decoder := Some (document_decoder_new (dcs_content_type start))\<rparr>)
             (cn_incoming cn),
           cn_streaming := Some (dcs_document start, 0)\<rparr>)) cn)"

text \<open>Installing what the engine made of a document, buffered or streamed.\<close>

definition load_document :: "document_start \<Rightarrow> document_state \<Rightarrow> bytes \<Rightarrow> handling \<Rightarrow> handler" where
  "load_document start state body hg cn =
     (case run_engine 0 hg (cn\<lparr>cn_calls := cn_calls cn @ [LoadDocument start state body]\<rparr>) of
        (answer, cn') \<Rightarrow> settle True (dcs_document start) hg answer cn')"

definition load_stream :: "document_start \<Rightarrow> document_state \<Rightarrow> document_decoder \<Rightarrow> string \<Rightarrow> handling \<Rightarrow> handler" where
  "load_stream start state decoder decoded hg cn =
     (case run_engine 0 hg (cn\<lparr>cn_calls := cn_calls cn @ [LoadStream start state decoder decoded]\<rparr>) of
        (answer, cn') \<Rightarrow> settle True (dcs_document start) hg answer cn')"

definition append_navigation :: "u64 \<Rightarrow> bytes \<Rightarrow> bool \<Rightarrow> handling \<Rightarrow> handler" where
  "append_navigation document bs eof hg cn =
     (let cn' = cn\<lparr>cn_calls := cn_calls cn @ [AppendNavigation document bs eof]\<rparr>
      in case snd (hg_engine hg 0) of
           FailedWith detail \<Rightarrow> send_document_failure document detail hg cn'
         | _ \<Rightarrow> engine_turn False 1 document hg cn')"

definition deliver_navigation_bytes :: "decoding \<Rightarrow> bytes \<Rightarrow> bool \<Rightarrow> handling \<Rightarrow> handler" where
  "deliver_navigation_bytes T bs eof hg cn =
     (case cn_streaming cn of
        None \<Rightarrow> (Inl (Refused ''active transfer''), cn) \<comment> \<open>\<^verbatim>\<open>expect\<close>: not reached\<close>
      | Some (document, _) \<Rightarrow>
          if cn_failed cn = Some document then (Inr (), cn)
          else (case cn_incoming cn of
            Some i \<Rightarrow>
              guarded (and_then (ok_or (ind_decoder i) (Refused ''missing navigation decoder'')) (decoder_push T bs eof))
                (\<lambda>(decoded, decoder) cn.
                   case decoded of
                     None \<Rightarrow> (Inr (), cn\<lparr>cn_incoming := Some (i\<lparr>ind_decoder := Some decoder\<rparr>)\<rparr>)
                   | Some text \<Rightarrow>
                       guarded (state_finish (ind_state i)) (\<lambda>state. load_stream (ind_start i) state decoder text hg)
                         (cn\<lparr>cn_incoming := None\<rparr>)) cn
          | None \<Rightarrow>
              (case cn_document cn of
                 None \<Rightarrow> (Inr (), cn)
               | Some current \<Rightarrow>
                   if current \<noteq> document then (Inl (Refused ''navigation runtime identity mismatch''), cn)
                   else append_navigation document bs eof hg cn)))"

definition navigation_chunk :: "decoding \<Rightarrow> transfer_chunk \<Rightarrow> handling \<Rightarrow> handler" where
  "navigation_chunk T c hg cn =
     (case cn_streaming cn of
        None \<Rightarrow> (Inl (Refused ''unsolicited navigation chunk''), cn)
      | Some (document, offset) \<Rightarrow>
          if document \<noteq> tc_transfer_id c \<or> offset \<noteq> unat (tc_offset c)
          then (Inl (Refused ''navigation chunk identity or offset mismatch''), cn)
          else guarded (ok_or (checked_add offset (length (tc_content c))) (Refused ''navigation offset overflow'')) (\<lambda>total cn.
            if total > MAX_RESPONSE_BODY_BYTES
            then (Inl (Refused ''navigation input exceeded its byte limit''), cn\<lparr>cn_streaming := Some (document, total)\<rparr>)
            else deliver_navigation_bytes T (tc_content c) False hg (cn\<lparr>cn_streaming := Some (document, total)\<rparr>)) cn)"

definition navigation_end :: "decoding \<Rightarrow> u64 \<Rightarrow> handling \<Rightarrow> handler" where
  "navigation_end T document hg cn =
     (if map_option fst (cn_streaming cn) \<noteq> Some document
      then (Inl (Refused ''navigation completion identity mismatch''), cn)
      else then_send (deliver_navigation_bytes T [] True hg) (\<lambda>cn. (Inr (), cn\<lparr>cn_streaming := None\<rparr>)) cn)"

definition document_chunk :: "decoding \<Rightarrow> transfer_chunk \<Rightarrow> handling \<Rightarrow> handler" where
  "document_chunk T c hg cn =
     (if cn_streaming cn \<noteq> None then navigation_chunk T c hg cn
      else case cn_incoming cn of
        None \<Rightarrow> (Inl (Refused ''unsolicited document chunk''), cn)
      | Some i \<Rightarrow> guarded (wire (transfer_push c (ind_body i))) (\<lambda>body cn.
          (Inr (), cn\<lparr>cn_incoming := Some (i\<lparr>ind_body := body\<rparr>)\<rparr>)) cn)"

definition finish_document :: "decoding \<Rightarrow> u64 \<Rightarrow> handling \<Rightarrow> handler" where
  "finish_document T document hg cn =
     (if cn_streaming cn \<noteq> None then navigation_end T document hg cn
      else case cn_incoming cn of
        None \<Rightarrow> (Inl (Refused ''unsolicited document completion''), cn)
      | Some i \<Rightarrow>
          (let cn' = cn\<lparr>cn_incoming := None\<rparr>
           in if dcs_document (ind_start i) \<noteq> document
              then (Inl (Refused ''document completion identity mismatch''), cn')
              else guarded (wire (transfer_finish document (ind_body i))) (\<lambda>body.
                   guarded (state_finish (ind_state i)) (\<lambda>state. load_document (ind_start i) state body hg)) cn'))"

section \<open>A document leaves\<close>

definition cancel_navigation :: "u64 \<Rightarrow> handler" where
  "cancel_navigation document cn =
     (Inr (), cn\<lparr>cn_streaming := (if map_option fst (cn_streaming cn) = Some document then None else cn_streaming cn),
       cn_incoming := (if map_option (\<lambda>i. dcs_document (ind_start i)) (cn_incoming cn) = Some document then None else cn_incoming cn),
       cn_update := (if map_option ist_document (cn_update cn) = Some document then None else cn_update cn),
       cn_document := (if cn_document cn = Some document then None else cn_document cn)\<rparr>)"

definition abort_navigation :: "abort_document \<Rightarrow> handling \<Rightarrow> handler" where
  "abort_navigation a hg cn =
     (if map_option fst (cn_streaming cn) = Some (abd_document a)
      then send_document_failure (abd_document a) (''navigation response failed: '' @ abd_message a) hg
             (cn\<lparr>cn_streaming := None, cn_incoming := None\<rparr>)
      else (Inr (), cn))"

section \<open>Corrections of cookies and storage\<close>

definition on_incoming :: "incoming_document \<Rightarrow> transfer_error + incoming_state \<Rightarrow> handler" where
  "on_incoming i r = guarded r (\<lambda>s cn. (Inr (), cn\<lparr>cn_incoming := Some (i\<lparr>ind_state := s\<rparr>)\<rparr>))"

definition document_state_cookie :: "cookie_snapshot \<Rightarrow> handling \<Rightarrow> handler" where
  "document_state_cookie s hg cn =
     (case cn_incoming cn of
        Some i \<Rightarrow> on_incoming i (state_cookie s (ind_state i)) cn
      | None \<Rightarrow>
          guarded (wire (validate_cookie_snapshot s)) (\<lambda>_ cn.
            if cn_failed cn = Some (cks_document s) \<or> cn_document cn = Some (cks_document s)
            then post (StateSnapshotApplied \<lparr>sap_document = cks_document s, sap_kind = CookieSnapshots, sap_version = cks_version s\<rparr>) hg cn
            else (Inl (Refused ''unsolicited cookie snapshot''), cn)) cn)"

definition document_state_start :: "snapshot_start \<Rightarrow> handler" where
  "document_state_start start cn =
     (case cn_incoming cn of
        Some i \<Rightarrow> on_incoming i (state_storage_start start (ind_state i)) cn
      | None \<Rightarrow>
          if cn_failed cn = Some (sst_document start) \<and> cn_update cn \<noteq> None then (Inl (Refused ''nested storage snapshot''), cn)
          else if cn_failed cn \<noteq> Some (sst_document start) \<and> (cn_update cn \<noteq> None \<or> cn_document cn \<noteq> Some (sst_document start))
          then (Inl (Refused ''unsolicited storage snapshot''), cn)
          else guarded (incoming_storage_new start) (\<lambda>s cn. (Inr (), cn\<lparr>cn_update := Some s\<rparr>)) cn)"

definition document_state_entry :: "snapshot_entry \<Rightarrow> handler" where
  "document_state_entry e cn =
     (case cn_incoming cn of
        Some i \<Rightarrow> on_incoming i (state_storage_entry e (ind_state i)) cn
      | None \<Rightarrow>
          guarded (and_then (ok_or (cn_update cn) (Refused ''unsolicited storage snapshot entry'')) (incoming_entry e))
            (\<lambda>s cn. (Inr (), cn\<lparr>cn_update := Some s\<rparr>)) cn)"

definition document_state_end :: "snapshot_end \<Rightarrow> handling \<Rightarrow> handler" where
  "document_state_end stop hg cn =
     (case cn_incoming cn of
        Some i \<Rightarrow> on_incoming i (state_storage_end stop (ind_state i)) cn
      | None \<Rightarrow>
          (case cn_update cn of
             None \<Rightarrow> (Inl (Refused ''unsolicited storage snapshot completion''), cn)
           | Some u \<Rightarrow>
               guarded (incoming_storage_finish stop u) (\<lambda>snapshot cn.
                 let applied = \<lparr>sap_document = ist_document u,
                   sap_kind = (case ist_area u of Local \<Rightarrow> LocalSnapshots | Session \<Rightarrow> SessionSnapshots),
                   sap_version = ist_version u\<rparr>
                 in if cn_failed cn = Some (ist_document u) then post (StateSnapshotApplied applied) hg cn
                    else if cn_document cn \<noteq> Some (ist_document u)
                    then (Inl (Refused ''storage snapshot document is no longer active''), cn)
                    else case snd (hg_engine hg 0) of
                      BrokenOff e \<Rightarrow> (Inl e, cn)
                    | _ \<Rightarrow> post (StateSnapshotApplied applied) hg cn) (cn\<lparr>cn_update := None\<rparr>)))"

definition synchronize_storage :: "storage_sync \<Rightarrow> handling \<Rightarrow> handler" where
  "synchronize_storage s hg =
     guarded (wire (validate_storage_sync s)) (\<lambda>_ cn.
       if cn_failed cn = Some (syn_document s) then post (StateSnapshotApplied (sync_receipt s)) hg cn
       else if cn_document cn \<noteq> Some (syn_document s) then (Inl (Refused ''storage synchronization document is not active''), cn)
       else case snd (hg_engine hg 0) of
         BrokenOff e \<Rightarrow> (Inl e, cn)
       | _ \<Rightarrow> if hg_changed hg then (Inr (), cn) else post (StateSnapshotApplied (sync_receipt s)) hg cn)"

section \<open>One message\<close>

definition handle_test_command :: "test_command \<Rightarrow> handling \<Rightarrow> handler" where
  "handle_test_command command hg cn =
     (if \<not> cn_test_mode cn then (Inl (Refused ''test command rejected''), cn)
      else if command = DocumentError then
        (case cn_document cn of
           None \<Rightarrow> (Inl (Refused ''document error injection requires an active document''), cn)
         | Some document \<Rightarrow> send_document_failure document ''injected document error'' hg cn)
      else validated hg nothing cn)"

definition handle :: "decoding \<Rightarrow> browser_message \<Rightarrow> handling \<Rightarrow> handler" where
  "handle T m hg =
     (case m of
        GpuCanvasPolicy p \<Rightarrow> gpu_canvas_policy p hg
      | AccessibilityPolicy enabled \<Rightarrow> accessibility_policy enabled hg
      | Ping token \<Rightarrow> post (Pong token) hg
      | Shutdown \<Rightarrow> shutdown hg
      | ProtocolFailure _ \<Rightarrow> refuse ''browser rejected renderer IPC''
      | TestMessage command \<Rightarrow> handle_test_command command hg
      | BeginDocument start \<Rightarrow> begin_document start
      | BeginStreamingDocument start \<Rightarrow> begin_streaming_document start
      | AbortDocument a \<Rightarrow> abort_navigation a hg
      | DocumentChunk c \<Rightarrow> document_chunk T c hg
      | EndDocument document \<Rightarrow> finish_document T document hg
      | CookieSnapshot s \<Rightarrow> document_state_cookie s hg
      | StorageSnapshotStart start \<Rightarrow> document_state_start start
      | StorageSnapshotEntry e \<Rightarrow> document_state_entry e
      | StorageSnapshotEnd stop \<Rightarrow> document_state_end stop hg
      | StorageSync s \<Rightarrow> synchronize_storage s hg
      | WebSocketEvent u \<Rightarrow> validated hg (deliver False (wse_document u) hg)
      | DatabaseEvent u \<Rightarrow> validated hg (deliver False (dbe_document u) hg)
      | SpeechUpdate u \<Rightarrow> validated hg (deliver False (spu_document u) hg)
      | NotificationUpdate u \<Rightarrow> validated hg (deliver False (nfu_document u) hg)
      | PermissionUpdate u \<Rightarrow> validated hg (deliver False (pmu_document u) hg)
      | GeolocationUpdate u \<Rightarrow> validated hg (deliver False (glu_document u) hg)
      | MediaDeviceUpdate u \<Rightarrow> validated hg (deliver False (mdu_document u) hg)
      | MediaCaptureUpdate u \<Rightarrow> validated hg (deliver False (cpu_document u) hg)
      | MediaCaptureFrame u \<Rightarrow> validated hg (deliver False (cf_document u) hg)
      | SensorUpdate u \<Rightarrow> validated hg (deliver False (snu_document u) hg)
      | ClipboardUpdate u \<Rightarrow> validated hg (deliver False (cbu_document u) hg)
      | FilePickerUpdate u \<Rightarrow> validated hg (deliver False (fpu_document u) hg)
      | BroadcastDelivery u \<Rightarrow> validated hg (deliver False (bcd_document u) hg)
      | WakeLockUpdate u \<Rightarrow> validated hg (deliver False (wlu_document u) hg)
      | FullscreenResponse u \<Rightarrow> validated hg (deliver False (fsr_document u) hg)
      | PointerLockResponse u \<Rightarrow> validated hg (deliver False (lkr_document u) hg)
      | AdvanceTime a \<Rightarrow> advance_document (adv_document a) hg
      | ViewportChanged v \<Rightarrow> resize_document v hg
      | Input i \<Rightarrow> interact_document i hg
      | PresentationAcknowledged a \<Rightarrow> acknowledge_presentation a hg
      | CancelDocument document \<Rightarrow> cancel_navigation document
      | FetchResponseStart _ \<Rightarrow> handle_fetch False hg
      | FetchResponseChunk _ \<Rightarrow> handle_fetch False hg
      | FetchResponseEnd _ \<Rightarrow> handle_fetch True hg
      | FetchResponseAbort _ \<Rightarrow> handle_fetch True hg
      | Hello _ \<Rightarrow> refuse ''duplicate renderer Hello'')"

fun acknowledged :: "browser_message \<Rightarrow> bool" where
  "acknowledged (Ping _) = False"
| "acknowledged Shutdown = False"
| "acknowledged (ProtocolFailure _) = False"
| "acknowledged _ = True"

text \<open>One turn of the loop takes a message, or a fetch delivery that was queued while the engine waited; an error ends the loop.\<close>

datatype turn = Received browser_message | Queued u64

definition acknowledge_processed_work :: "handling \<Rightarrow> handler" where
  "acknowledge_processed_work hg = (if hg_late hg then post (Pong 0) hg else nothing)"

definition message_turn :: "decoding \<Rightarrow> browser_message \<Rightarrow> handling \<Rightarrow> handler" where
  "message_turn T m hg =
     then_send (case hg_task hg of None \<Rightarrow> nothing | Some task \<Rightarrow> guarded task (\<lambda>t. post (Diagnostic t) hg))
     (then_send (handle T m hg) (if acknowledged m then acknowledge_processed_work hg else nothing))"

fun connection_turn :: "decoding \<Rightarrow> turn \<times> handling \<Rightarrow> handler" where
  "connection_turn T (Received m, hg) = message_turn T m hg"
| "connection_turn T (Queued document, hg) = then_send (deliver_script_fetch document hg) (acknowledge_processed_work hg)"

fun connection_run :: "decoding \<Rightarrow> (turn \<times> handling) list \<Rightarrow> handler" where
  "connection_run T [] cn = (Inr (), cn)"
| "connection_run T (e # es) cn = (if cn_stopping cn then (Inr (), cn) else then_send (connection_turn T e) (connection_run T es) cn)"

fun turn_messages :: "turn \<Rightarrow> browser_message list" where
  "turn_messages (Received m) = [m]"
| "turn_messages (Queued document) = []"

definition messages_of :: "(turn \<times> handling) list \<Rightarrow> browser_message list" where
  "messages_of es = concat (map (turn_messages \<circ> fst) es)"

lemma messages_of_simps [simp]: "messages_of [] = []" "messages_of (e # es) = turn_messages (fst e) @ messages_of es"
  by (simp_all add: messages_of_def)

lemma messages_of_received: "map fst es = map Received ms \<Longrightarrow> messages_of es = ms"
  by (induction es arbitrary: ms) auto

section \<open>What leaves the incoming document alone\<close>

text \<open>A document is incoming only while none is in place and none has failed since.\<close>

definition owns_one :: "connection \<Rightarrow> bool" where
  "owns_one cn \<longleftrightarrow> (cn_incoming cn \<noteq> None \<longrightarrow> cn_document cn = None \<and> cn_failed cn = None)"

text \<open>No call that concerns a document's arrival, and the incoming document dropped or kept with its surroundings.\<close>

definition calm :: "connection \<Rightarrow> connection \<Rightarrow> bool" where
  "calm cn cn' \<longleftrightarrow> cn_calls cn' = cn_calls cn \<and>
     (cn_incoming cn' \<noteq> None \<longrightarrow> cn_incoming cn' = cn_incoming cn \<and> cn_streaming cn' = cn_streaming cn \<and>
        cn_document cn' = cn_document cn \<and> cn_failed cn' = cn_failed cn)"

definition calmly :: "handler \<Rightarrow> bool" where
  "calmly f \<longleftrightarrow> (\<forall>cn. owns_one cn \<longrightarrow> calm cn (snd (f cn)))"

lemma calm_refl [simp]: "calm cn cn"
  by (simp add: calm_def)

lemma calm_owns: "calm cn cn' \<Longrightarrow> owns_one cn \<Longrightarrow> owns_one cn'"
  by (auto simp: calm_def owns_one_def)

lemma calm_trans: "calm a b \<Longrightarrow> calm b c \<Longrightarrow> calm a c"
  by (auto simp: calm_def)

lemma calmly_then:
  assumes "calmly f" "calmly g" shows "calmly (then_send f g)"
  unfolding calmly_def
proof (intro allI impI)
  fix cn assume own: "owns_one cn"
  obtain r c where f: "f cn = (r, c)" by fastforce
  with assms(1) own have "calm cn c" unfolding calmly_def by (metis snd_conv)
  moreover from this own have "calm c (snd (g c))" using assms(2) calm_owns unfolding calmly_def by blast
  ultimately show "calm cn (snd (then_send f g cn))"
    using f by (cases r) (auto simp: then_send_def intro: calm_trans)
qed

lemma calmly_guarded: "(\<And>x. r = Inr x \<Longrightarrow> calmly (f x)) \<Longrightarrow> calmly (guarded r f)"
  by (cases r) (auto simp: calmly_def guarded_def)

lemma calm_post [simp]: "calm cn (snd (post m hg cn))" "cn_document (snd (post m hg cn)) = cn_document cn"
  "cn_incoming (snd (post m hg cn)) = cn_incoming cn" "cn_calls (snd (post m hg cn)) = cn_calls cn"
  by (auto simp: post_def calm_def split: option.splits)

lemma calmly_post: "calmly (post m hg)" "calmly nothing" "calmly (refuse e)"
  by (simp_all add: calmly_def nothing_def refuse_def)

lemma calm_failure: "cn_incoming cn = None \<Longrightarrow> cn_incoming (snd (send_document_failure d e hg cn)) = None \<and>
    cn_calls (snd (send_document_failure d e hg cn)) = cn_calls cn"
  by (simp add: send_document_failure_def)

lemma shutdown_clears: "cn_incoming (snd (shutdown hg cn)) = None \<and> cn_calls (snd (shutdown hg cn)) = cn_calls cn"
proof -
  let ?c = "cn\<lparr>cn_document := None, cn_incoming := None\<rparr>"
  obtain r c where "post ShutdownComplete hg ?c = (r, c)" by fastforce
  then show ?thesis
    using calm_post(3,4) [of ShutdownComplete hg ?c] by (cases r) (auto simp: shutdown_def then_send_def)
qed

lemma settled: "cn_incoming c = None \<Longrightarrow>
    cn_incoming (snd (settle always d hg answer c)) = None \<and> cn_calls (snd (settle always d hg answer c)) = cn_calls c"
  by (cases answer) (auto simp: settle_def calm_failure)

lemma run_engine_clears:
  "run_engine n hg cn = (answer, c) \<Longrightarrow> cn_incoming cn = None \<Longrightarrow> cn_incoming c = None \<and> cn_calls c = cn_calls cn"
  using shutdown_clears [of hg cn] by (auto simp: run_engine_def split: prod.splits if_splits)

lemma engine_turn_clears:
  assumes "cn_incoming cn = None"
  shows "cn_incoming (snd (engine_turn always n d hg cn)) = None \<and> cn_calls (snd (engine_turn always n d hg cn)) = cn_calls cn"
proof -
  obtain answer c where run: "run_engine n hg (cn\<lparr>cn_document := None\<rparr>) = (answer, c)" by fastforce
  with run_engine_clears [OF run] settled [of c always d hg answer] assms show ?thesis by (simp add: engine_turn_def)
qed

lemma calm_engine_turn: "owns_one cn \<Longrightarrow> cn_document cn = Some d \<Longrightarrow> calm cn (snd (engine_turn always n e hg cn))"
  using engine_turn_clears [of cn always n e hg] by (auto simp: owns_one_def calm_def)

lemma calmly_deliver: "calmly (deliver always d hg)"
  by (auto simp: calmly_def deliver_def calm_engine_turn)

lemma calmly_validated: "calmly f \<Longrightarrow> calmly (validated hg f)"
  by (auto simp: calmly_def validated_def split: option.splits)

lemma calmly_preloads: "calmly (complete_document_resource_preloads hg)"
  by (auto simp: calmly_def complete_document_resource_preloads_def calm_engine_turn split: option.splits)

lemma calmly_fetch: "calmly (handle_fetch terminal hg)"
proof (cases "hg_fetch hg")
  case (Inr delivery)
  have "calmly (then_send (case delivery of None \<Rightarrow> nothing | Some document \<Rightarrow> deliver_script_fetch document hg)
      (if terminal then complete_document_resource_preloads hg else nothing))"
    by (intro calmly_then) (auto simp: calmly_post calmly_preloads calmly_deliver deliver_script_fetch_def split: option.splits)
  then show ?thesis using Inr by (simp add: handle_fetch_def [abs_def])
qed (simp add: handle_fetch_def calmly_def)

lemma calm_accessibility [simp]: "calm cn (cn\<lparr>cn_accessibility := b\<rparr>)" "owns_one (cn\<lparr>cn_accessibility := b\<rparr>) = owns_one cn"
  by (simp_all add: calm_def owns_one_def)

lemma calmly_policies: "calmly (accessibility_policy b hg)" "calmly (gpu_canvas_policy p hg)"
  using calmly_deliver [of False _ hg]
  by (auto simp: calmly_def accessibility_policy_def gpu_canvas_policy_def advance_document_def Let_def
      split: option.splits intro: calm_trans [OF calm_accessibility(1) [of _ b]])

lemma calmly_each: "(\<And>x. calmly (f x)) \<Longrightarrow> calmly (send_each f xs)"
  by (induction xs) (simp_all add: calmly_def calmly_then [unfolded calmly_def])

lemma calmly_input: "calmly (interact_document i hg)"
  using calmly_each [of "\<lambda>m. post m hg" "input_completions i"] calmly_post(1)
  by (auto simp: calmly_def interact_document_def calm_engine_turn)

lemma calmly_acknowledge: "calmly (acknowledge_presentation a hg)"
  by (auto simp: calmly_def acknowledge_presentation_def split: engine_answer.splits)

lemma calmly_shutdown: "calmly (shutdown hg)"
  using shutdown_clears by (simp add: calmly_def calm_def)

lemma calmly_abort: "calmly (abort_navigation a hg)"
  by (auto simp: calmly_def abort_navigation_def calm_def calm_failure)

lemma calmly_test: "calmly (handle_test_command c hg)"
  using calmly_validated [OF calmly_post(2), of hg]
  by (auto simp: calmly_def handle_test_command_def owns_one_def calm_def calm_failure split: option.splits)

lemma calmly_sync: "calmly (synchronize_storage s hg)"
  unfolding synchronize_storage_def
  by (rule calmly_guarded) (auto simp: calmly_def split: engine_answer.splits)

lemma calmly_start: "(\<And>cn. calm cn (snd (f cn))) \<Longrightarrow> calmly f"
  by (simp add: calmly_def)

section \<open>What has been received and what was loaded\<close>

text \<open>The cookie snapshot and the storage entries among some messages are those of a valid state.\<close>

definition state_sent :: "browser_message list \<Rightarrow> document_state \<Rightarrow> bool" where
  "state_sent ms state \<longleftrightarrow>
     validate_document_state state = Inr () \<and>
     cookies_sent ms = [(dst_cookie_version state, dst_cookie_header state)] \<and>
     entries_sent Local ms = sn_entries (dst_local_storage state) \<and>
     entries_sent Session ms = sn_entries (dst_session_storage state)"

text \<open>A message after which a document that began with \<open>start\<close> is still the one that is incoming.\<close>

definition goes_on :: "document_start \<Rightarrow> browser_message \<Rightarrow> bool" where
  "goes_on start m \<longleftrightarrow>
     (case m of
        BeginDocument _ \<Rightarrow> False | BeginStreamingDocument _ \<Rightarrow> False | CancelDocument d \<Rightarrow> d \<noteq> dcs_document start
      | _ \<Rightarrow> True)"

definition call_sent :: "decoding \<Rightarrow> browser_message list \<Rightarrow> engine_call \<Rightarrow> bool" where
  "call_sent T ms call =
     (case call of
        LoadDocument start state body \<Rightarrow>
          (\<exists>before parts after. ms = before @ BeginDocument start # parts @ EndDocument (dcs_document start) # after \<and>
             list_all (goes_on start) parts \<and> validate_document_start start = Inr () \<and> state_sent parts state \<and>
             body = chunk_contents parts \<and> length body = unat (dcs_body_size start))
      | LoadStream start state decoder decoded \<Rightarrow>
          (\<exists>before parts after. ms = before @ BeginStreamingDocument start # parts @ after \<and>
             list_all (goes_on start) parts \<and> validate_document_start start = Inr () \<and> state_sent parts state \<and> dcd_bytes decoder = chunk_contents parts \<and>
             decoded = T (dcs_content_type start) [chunk_contents parts] (dcd_ended decoder) \<and>
             (dcd_ended decoder \<longrightarrow> last parts = EndDocument (dcs_document start)))
      | AppendNavigation document bs eof \<Rightarrow>
          (if eof then bs = [] \<and> EndDocument document \<in> set ms
           else \<exists>c. DocumentChunk c \<in> set ms \<and> tc_transfer_id c = document \<and> tc_content c = bs))"

text \<open>What was received of \<open>i\<close> since it began behind \<open>before\<close>.\<close>

definition received :: "browser_message list \<Rightarrow> browser_message list \<Rightarrow> browser_message list \<Rightarrow> (u64 \<times> nat) option \<Rightarrow>
    incoming_document \<Rightarrow> bool" where
  "received ms before parts streaming i \<longleftrightarrow>
     state_inv parts (ind_state i) \<and> list_all (goes_on (ind_start i)) parts \<and>
     (case ind_decoder i of
        None \<Rightarrow> ms = before @ BeginDocument (ind_start i) # parts \<and>
          ind_body i = \<lparr>ta_transfer_id = dcs_document (ind_start i), ta_expected = unat (dcs_body_size (ind_start i)),
            ta_bytes = chunk_contents parts\<rparr>
      | Some d \<Rightarrow> ms = before @ BeginStreamingDocument (ind_start i) # parts \<and>
          d = \<lparr>dcd_content_type = dcs_content_type (ind_start i), dcd_bytes = chunk_contents parts, dcd_inputs = [], dcd_ended = False\<rparr> \<and>
          map_option fst streaming = Some (dcs_document (ind_start i)))"

definition receiving :: "browser_message list \<Rightarrow> connection \<Rightarrow> incoming_document \<Rightarrow> bool" where
  "receiving ms cn i \<longleftrightarrow>
     validate_document_start (ind_start i) = Inr () \<and> (\<exists>before parts. received ms before parts (cn_streaming cn) i)"

definition conn_inv :: "browser_message list \<Rightarrow> connection \<Rightarrow> bool" where
  "conn_inv ms cn \<longleftrightarrow> owns_one cn \<and> (\<forall>i. cn_incoming cn = Some i \<longrightarrow> receiving ms cn i)"

definition calls_sent :: "decoding \<Rightarrow> browser_message list \<Rightarrow> connection \<Rightarrow> bool" where
  "calls_sent T ms cn \<longleftrightarrow> list_all (call_sent T ms) (cn_calls cn)"

lemma call_sent_later:
  assumes "call_sent T ms call" shows "call_sent T (ms @ ns) call"
proof (cases call)
  case (LoadDocument start state body)
  with assms obtain before parts after where "ms = before @ BeginDocument start # parts @ EndDocument (dcs_document start) # after"
    "list_all (goes_on start) parts" "validate_document_start start = Inr ()" "state_sent parts state" "body = chunk_contents parts" "length body = unat (dcs_body_size start)"
    by (auto simp: call_sent_def)
  then show ?thesis unfolding call_sent_def LoadDocument engine_call.case
    by (intro exI [of _ before] exI [of _ parts] exI [of _ "after @ ns"]) simp
next
  case (LoadStream start state decoder decoded)
  with assms obtain before parts after where "ms = before @ BeginStreamingDocument start # parts @ after"
    "list_all (goes_on start) parts" "validate_document_start start = Inr ()" "state_sent parts state" "dcd_bytes decoder = chunk_contents parts"
    "decoded = T (dcs_content_type start) [chunk_contents parts] (dcd_ended decoder)"
    "dcd_ended decoder \<longrightarrow> last parts = EndDocument (dcs_document start)"
    by (auto simp: call_sent_def)
  then show ?thesis unfolding call_sent_def LoadStream engine_call.case
    by (intro exI [of _ before] exI [of _ parts] exI [of _ "after @ ns"]) simp
next
  case (AppendNavigation document bs eof)
  with assms show ?thesis by (auto simp: call_sent_def split: if_splits)
qed

lemma calls_sent_later: "calls_sent T ms cn \<Longrightarrow> calls_sent T (ms @ ns) cn"
  using call_sent_later by (auto simp: calls_sent_def list_all_iff)

text \<open>One message was handled: the calls so far stay accounted for, and unless it ended the connection, so does what is incoming.\<close>

definition accounted :: "decoding \<Rightarrow> browser_message list \<Rightarrow> (transfer_error + unit) \<times> connection \<Rightarrow> bool" where
  "accounted T ms res \<longleftrightarrow> calls_sent T ms (snd res) \<and> (fst res = Inr () \<longrightarrow> conn_inv ms (snd res))"

text \<open>A message that is no part of a document.\<close>

definition no_part :: "browser_message \<Rightarrow> bool" where
  "no_part m \<longleftrightarrow>
     (case m of
        CookieSnapshot _ \<Rightarrow> False | StorageSnapshotStart _ \<Rightarrow> False | StorageSnapshotEntry _ \<Rightarrow> False
      | StorageSnapshotEnd _ \<Rightarrow> False | DocumentChunk _ \<Rightarrow> False | _ \<Rightarrow> True)"

lemma no_part_state: "no_part m \<Longrightarrow> state_part m i = Inr i \<and> (\<nexists>c. m = DocumentChunk c)"
  by (cases m) (simp_all add: no_part_def state_part_def)

lemma received_more:
  assumes "received ms before parts streaming i" "state_part m (ind_state i) = Inr s" "\<And>c. m \<noteq> DocumentChunk c"
    and "goes_on (ind_start i) m"
  shows "received (ms @ [m]) before (parts @ [m]) streaming (i\<lparr>ind_state := s\<rparr>)"
proof -
  have "\<nexists>c. m = DocumentChunk c" using assms(3) by blast
  then have "chunk_contents (parts @ [m]) = chunk_contents parts" by (cases m) (simp_all add: sent_snoc)
  moreover have "state_inv (parts @ [m]) s" using assms(1,2) state_inv_step by (auto simp: received_def)
  ultimately show ?thesis using assms(1,4) by (auto simp: received_def split: option.splits)
qed

lemma receiving_no_part: "receiving ms cn i \<Longrightarrow> no_part m \<Longrightarrow> goes_on (ind_start i) m \<Longrightarrow> receiving (ms @ [m]) cn i"
  using received_more [of ms _ _ "cn_streaming cn" i m "ind_state i"] no_part_state [of m] by (fastforce simp: receiving_def)

lemma receiving_streaming: "receiving ms cn i \<Longrightarrow> cn_streaming cn' = cn_streaming cn \<Longrightarrow> receiving ms cn' i"
  by (simp add: receiving_def)

lemma calmly_accounted:
  assumes "calmly f" "no_part m" "conn_inv ms cn" "calls_sent T ms cn" "\<And>start. goes_on start m"
  shows "accounted T (ms @ [m]) (f cn)"
proof -
  have own: "owns_one cn" using assms(3) by (simp add: conn_inv_def)
  then have calm: "calm cn (snd (f cn))" using assms(1) by (simp add: calmly_def)
  then have "calls_sent T (ms @ [m]) (snd (f cn))" using calls_sent_later [OF assms(4)] by (simp add: calm_def calls_sent_def)
  moreover have "conn_inv (ms @ [m]) (snd (f cn))"
    unfolding conn_inv_def
  proof (intro conjI allI impI)
    show "owns_one (snd (f cn))" using calm_owns [OF calm own] .
    fix i assume i: "cn_incoming (snd (f cn)) = Some i"
    with calm have "cn_incoming cn = Some i" "cn_streaming (snd (f cn)) = cn_streaming cn" by (auto simp: calm_def)
    then show "receiving (ms @ [m]) (snd (f cn)) i"
      using assms(2,3,5) receiving_no_part receiving_streaming unfolding conn_inv_def by blast
  qed
  ultimately show ?thesis by (simp add: accounted_def)
qed

text \<open>A part of the state while a document is incoming.\<close>

lemma receiving_state:
  assumes "receiving ms cn i" "state_part m (ind_state i) = Inr s" "\<And>c. m \<noteq> DocumentChunk c"
    and "\<And>start. goes_on start m"
  shows "receiving (ms @ [m]) cn (i\<lparr>ind_state := s\<rparr>)"
  using assms(1) received_more [OF _ assms(2,3) assms(4)] by (fastforce simp: receiving_def)

lemma on_incoming_accounted:
  assumes "cn_incoming cn = Some i" "conn_inv ms cn" "calls_sent T ms cn" "\<And>c. m \<noteq> DocumentChunk c" "\<And>start. goes_on start m"
  shows "accounted T (ms @ [m]) (on_incoming i (state_part m (ind_state i)) cn)"
proof (cases "state_part m (ind_state i)")
  case (Inl e)
  then show ?thesis using calls_sent_later [OF assms(3)] by (simp add: on_incoming_def guarded_def accounted_def)
next
  case (Inr s)
  have "receiving (ms @ [m]) cn (i\<lparr>ind_state := s\<rparr>)" using assms receiving_state [OF _ Inr] by (auto simp: conn_inv_def)
  then show ?thesis
    using Inr assms(1,2) calls_sent_later [OF assms(3), of "[m]"]
    by (auto simp: on_incoming_def guarded_def accounted_def conn_inv_def owns_one_def calls_sent_def
        intro: receiving_streaming)
qed

lemma calm_update [simp]: "calm cn (cn\<lparr>cn_update := u\<rparr>)" "owns_one (cn\<lparr>cn_update := u\<rparr>) = owns_one cn"
  by (simp_all add: calm_def owns_one_def)

text \<open>A correction while none is incoming.\<close>

lemma idle_accounted:
  assumes "cn_incoming cn = None" "conn_inv ms cn" "calls_sent T ms cn"
    and "cn_incoming (snd res) = None" "cn_calls (snd res) = cn_calls cn"
  shows "accounted T (ms @ [m]) res"
  using assms calls_sent_later [OF assms(3), of "[m]"] by (auto simp: accounted_def conn_inv_def calls_sent_def owns_one_def)

lemma corrections_accounted:
  assumes "conn_inv ms cn" "calls_sent T ms cn"
  shows "accounted T (ms @ [CookieSnapshot k]) (document_state_cookie k hg cn)"
    and "accounted T (ms @ [StorageSnapshotStart a]) (document_state_start a cn)"
    and "accounted T (ms @ [StorageSnapshotEntry e]) (document_state_entry e cn)"
    and "accounted T (ms @ [StorageSnapshotEnd z]) (document_state_end z hg cn)"
proof -
  note on = on_incoming_accounted [OF _ assms]
  note idle = idle_accounted [OF _ assms]
  show "accounted T (ms @ [CookieSnapshot k]) (document_state_cookie k hg cn)"
    using on [of _ "CookieSnapshot k"]
    by (cases "cn_incoming cn") (auto simp: document_state_cookie_def state_part_def goes_on_def guarded_def split: sum.splits intro!: idle)
  show "accounted T (ms @ [StorageSnapshotStart a]) (document_state_start a cn)"
    using on [of _ "StorageSnapshotStart a"]
    by (cases "cn_incoming cn") (auto simp: document_state_start_def state_part_def goes_on_def guarded_def split: sum.splits intro!: idle)
  show "accounted T (ms @ [StorageSnapshotEntry e]) (document_state_entry e cn)"
    using on [of _ "StorageSnapshotEntry e"]
    by (cases "cn_incoming cn") (auto simp: document_state_entry_def state_part_def goes_on_def guarded_def split: sum.splits intro!: idle)
  show "accounted T (ms @ [StorageSnapshotEnd z]) (document_state_end z hg cn)"
    using on [of _ "StorageSnapshotEnd z"]
    by (cases "cn_incoming cn") (auto simp: document_state_end_def state_part_def goes_on_def guarded_def Let_def
        split: sum.splits option.splits engine_answer.splits intro!: idle)
qed

text \<open>A document begins.\<close>

lemma begin_document_Inr:
  assumes "begin_document start cn = (Inr (), cn')"
  shows "cn_incoming cn = None" "cn_document cn = None" "validate_document_start start = Inr ()"
    "cn' = cn\<lparr>cn_failed := None, cn_incoming := Some (incoming_new start None)\<rparr>"
  using assms by (auto simp: begin_document_def guarded_def incoming_new_def transfer_new_def result_simps
      split: sum.splits if_splits)

lemma begin_document_calls: "cn_calls (snd (begin_document start cn)) = cn_calls cn"
  by (auto simp: begin_document_def guarded_def split: sum.splits)

lemma received_new:
  "received (ms @ [BeginDocument start]) ms [] streaming (incoming_new start None)"
  "map_option fst streaming = Some (dcs_document start) \<Longrightarrow>
   received (ms @ [BeginStreamingDocument start]) ms [] streaming (incoming_new start (Some (document_decoder_new (dcs_content_type start))))"
  by (simp_all add: received_def incoming_new_def state_inv_new sent_snoc document_decoder_new_def)

lemma receiving_new:
  assumes "validate_document_start start = Inr ()"
  shows "receiving (ms @ [BeginDocument start]) cn (incoming_new start None)"
    and "map_option fst (cn_streaming cn) = Some (dcs_document start) \<Longrightarrow>
      receiving (ms @ [BeginStreamingDocument start]) cn (incoming_new start (Some (document_decoder_new (dcs_content_type start))))"
proof -
  have "ind_start (incoming_new start d) = start" for d by (simp add: incoming_new_def)
  then show "receiving (ms @ [BeginDocument start]) cn (incoming_new start None)"
    and "map_option fst (cn_streaming cn) = Some (dcs_document start) \<Longrightarrow>
      receiving (ms @ [BeginStreamingDocument start]) cn (incoming_new start (Some (document_decoder_new (dcs_content_type start))))"
    unfolding receiving_def using assms received_new by metis+
qed

lemma begin_accounted:
  assumes "calls_sent T ms cn"
  shows "accounted T (ms @ [BeginDocument start]) (begin_document start cn)"
proof -
  have "conn_inv (ms @ [BeginDocument start]) cn'" if "begin_document start cn = (Inr (), cn')" for cn'
    using begin_document_Inr [OF that] receiving_new(1) by (simp add: conn_inv_def owns_one_def)
  then show ?thesis
    using calls_sent_later [OF assms, of "[BeginDocument start]"] begin_document_calls [of start cn]
    by (cases "begin_document start cn") (auto simp: accounted_def calls_sent_def)
qed

lemma begin_streaming_accounted:
  assumes "calls_sent T ms cn"
  shows "accounted T (ms @ [BeginStreamingDocument start]) (begin_streaming_document start cn)"
proof -
  have calls: "cn_calls (snd (begin_streaming_document start cn)) = cn_calls cn"
    using begin_document_calls [of start cn]
    by (cases "begin_document start cn"; cases "fst (begin_document start cn)") (auto simp: begin_streaming_document_def then_send_def)
  have "conn_inv (ms @ [BeginStreamingDocument start]) cn'" if b: "begin_streaming_document start cn = (Inr (), cn')" for cn'
  proof -
    from b obtain c where c: "begin_document start cn = (Inr (), c)"
      and cn': "cn' = c\<lparr>cn_incoming := map_option (\<lambda>i. i\<lparr>ind_decoder := Some (document_decoder_new (dcs_content_type start))\<rparr>) (cn_incoming c),
        cn_streaming := Some (dcs_document start, 0)\<rparr>"
      by (auto simp: begin_streaming_document_def then_send_Inr split: if_splits)
    note B = begin_document_Inr [OF c]
    have "(incoming_new start None)\<lparr>ind_decoder := Some (document_decoder_new (dcs_content_type start))\<rparr>
        = incoming_new start (Some (document_decoder_new (dcs_content_type start)))" by (simp add: incoming_new_def)
    with B cn' receiving_new(2) [OF B(3)] show ?thesis by (simp add: conn_inv_def owns_one_def)
  qed
  with calls calls_sent_later [OF assms, of "[BeginStreamingDocument start]"] show ?thesis
    by (cases "begin_streaming_document start cn") (auto simp: accounted_def calls_sent_def)
qed

text \<open>Bytes for a streamed document.\<close>

lemma called_accounted:
  assumes "calls_sent T ms cn" "cn_incoming (snd res) = None" "cn_calls (snd res) = cn_calls cn @ [call]"
    and "call_sent T (ms @ [m]) call"
  shows "accounted T (ms @ [m]) res"
  using assms calls_sent_later [OF assms(1), of "[m]"] by (auto simp: accounted_def conn_inv_def owns_one_def calls_sent_def)

lemma load_stream_effect:
  assumes "cn_incoming cn = None"
  shows "cn_incoming (snd (load_stream start state d text hg cn)) = None"
    "cn_calls (snd (load_stream start state d text hg cn)) = cn_calls cn @ [LoadStream start state d text]"
  using assms run_engine_clears [of 0 hg "cn\<lparr>cn_calls := cn_calls cn @ [LoadStream start state d text]\<rparr>"]
  by (auto simp: load_stream_def settled split: prod.splits)

lemma load_document_effect:
  assumes "cn_incoming cn = None"
  shows "cn_incoming (snd (load_document start state body hg cn)) = None"
    "cn_calls (snd (load_document start state body hg cn)) = cn_calls cn @ [LoadDocument start state body]"
  using assms run_engine_clears [of 0 hg "cn\<lparr>cn_calls := cn_calls cn @ [LoadDocument start state body]\<rparr>"]
  by (auto simp: load_document_def settled split: prod.splits)

lemma append_navigation_effect:
  assumes "cn_incoming cn = None"
  shows "cn_incoming (snd (append_navigation document bs eof hg cn)) = None"
    "cn_calls (snd (append_navigation document bs eof hg cn)) = cn_calls cn @ [AppendNavigation document bs eof]"
  using assms engine_turn_clears [of "cn\<lparr>cn_calls := cn_calls cn @ [AppendNavigation document bs eof]\<rparr>" False 1 document hg]
    calm_failure [of "cn\<lparr>cn_calls := cn_calls cn @ [AppendNavigation document bs eof]\<rparr>"]
  by (auto simp: append_navigation_def Let_def split: engine_answer.splits)

text \<open>The message that brings \<open>bs\<close>, or the end, of the stream of \<open>d\<close>.\<close>

definition brings :: "browser_message \<Rightarrow> u64 \<Rightarrow> bytes \<Rightarrow> bool \<Rightarrow> bool" where
  "brings m d bs eof \<longleftrightarrow>
     (if eof then m = EndDocument d \<and> bs = [] else \<exists>c. m = DocumentChunk c \<and> tc_transfer_id c = d \<and> tc_content c = bs)"

lemma decoder_push_first:
  assumes "decoder_push T bs eof d = Inr (decoded, d')" "dcd_inputs d = []"
  shows "dcd_bytes d' = dcd_bytes d @ bs" "dcd_content_type d' = dcd_content_type d"
    and "decoded = None \<Longrightarrow> \<not> eof \<and> d' = d\<lparr>dcd_bytes := dcd_bytes d @ bs\<rparr>"
    and "decoded = Some text \<Longrightarrow> text = T (dcd_content_type d) [dcd_bytes d @ bs] eof \<and> dcd_ended d' = eof"
  using assms by (auto simp: decoder_push_def Let_def split: if_splits)

lemma received_bytes:
  assumes "received ms before parts streaming i" "ind_decoder i = Some d" "brings m e bs eof"
  shows "state_inv (parts @ [m]) (ind_state i)" "list_all (goes_on (ind_start i)) (parts @ [m])" "chunk_contents (parts @ [m]) = chunk_contents parts @ bs"
    "ms @ [m] = before @ BeginStreamingDocument (ind_start i) # (parts @ [m])"
    "d = \<lparr>dcd_content_type = dcs_content_type (ind_start i), dcd_bytes = chunk_contents parts, dcd_inputs = [], dcd_ended = False\<rparr>"
    "map_option fst streaming = Some (dcs_document (ind_start i))"
  using assms state_inv_step [of m "ind_state i" "ind_state i" parts]
  by (auto simp: received_def brings_def state_part_def goes_on_def sent_snoc split: if_splits)

lemma stream_accounted:
  assumes inv: "conn_inv ms cn" and sent: "calls_sent T ms cn" and part: "brings m d bs eof" and d: "cn_streaming cn = Some (d, n)"
  shows "accounted T (ms @ [m]) (deliver_navigation_bytes T bs eof hg cn)"
    and "eof \<Longrightarrow> fst (deliver_navigation_bytes T bs eof hg cn) = Inr () \<Longrightarrow>
      cn_incoming (snd (deliver_navigation_bytes T bs eof hg cn)) = None"
proof -
  let ?res = "deliver_navigation_bytes T bs eof hg cn"
  note later = calls_sent_later [OF sent, of "[m]"]
  have "accounted T (ms @ [m]) ?res \<and> (eof \<longrightarrow> fst ?res = Inr () \<longrightarrow> cn_incoming (snd ?res) = None)"
  proof (cases "cn_incoming cn")
    case None
    show ?thesis
    proof (cases "cn_failed cn \<noteq> Some d \<and> cn_document cn = Some d")
      case True
      have call: "call_sent T (ms @ [m]) (AppendNavigation d bs eof)" using part by (auto simp: call_sent_def brings_def)
      have eq: "?res = append_navigation d bs eof hg cn" using None d True by (simp add: deliver_navigation_bytes_def)
      show ?thesis
        unfolding eq using called_accounted [OF sent append_navigation_effect [OF None] call, of hg] append_navigation_effect(1) [OF None, of d bs eof hg]
        by blast
    next
      case False
      with None d show ?thesis
        by (auto simp: deliver_navigation_bytes_def split: option.splits intro!: idle_accounted [OF None inv sent])
    qed
  next
    case (Some i)
    with inv have i: "receiving ms cn i" and alive: "cn_failed cn = None" by (auto simp: conn_inv_def owns_one_def)
    show ?thesis
    proof (cases "ind_decoder i")
      case None
      with Some d alive later show ?thesis by (simp add: deliver_navigation_bytes_def guarded_def accounted_def)
    next
      case (Some dd)
      note dd = this
      from i obtain before parts where r: "received ms before parts (cn_streaming cn) i" "validate_document_start (ind_start i) = Inr ()"
        by (auto simp: receiving_def)
      note R = received_bytes [OF r(1) dd part]
      show ?thesis
      proof (cases "decoder_push T bs eof dd")
        case (Inl e)
        with \<open>cn_incoming cn = Some i\<close> dd d alive have eq: "?res = (Inl e, cn)"
          by (simp add: deliver_navigation_bytes_def guarded_def)
        show ?thesis unfolding eq using later by (simp add: accounted_def)
      next
        case (Inr p)
        obtain decoded d' where p: "decoder_push T bs eof dd = Inr (decoded, d')" using Inr by (cases p) auto
        have fresh: "dcd_inputs dd = []" using R(5) by simp
        note D = decoder_push_first [OF p fresh]
        show ?thesis
        proof (cases decoded)
          case None
          from D(3) [OF None] R have "received (ms @ [m]) before (parts @ [m]) (cn_streaming cn) (i\<lparr>ind_decoder := Some d'\<rparr>)"
            by (simp add: received_def)
          with r(2) have "receiving (ms @ [m]) (cn\<lparr>cn_incoming := Some (i\<lparr>ind_decoder := Some d'\<rparr>)\<rparr>) (i\<lparr>ind_decoder := Some d'\<rparr>)"
            by (auto simp: receiving_def)
          moreover have eq: "?res = (Inr (), cn\<lparr>cn_incoming := Some (i\<lparr>ind_decoder := Some d'\<rparr>)\<rparr>)"
            using None \<open>cn_incoming cn = Some i\<close> dd d alive p by (simp add: deliver_navigation_bytes_def guarded_def)
          ultimately have "accounted T (ms @ [m]) ?res"
            using inv later \<open>cn_incoming cn = Some i\<close> by (simp add: accounted_def conn_inv_def owns_one_def calls_sent_def)
          with D(3) [OF None] show ?thesis by blast
        next
          case (Some shown)
          show ?thesis
          proof (cases "state_finish (ind_state i)")
            case (Inl e)
            with Some \<open>cn_incoming cn = Some i\<close> dd d alive p have eq: "?res = (Inl e, cn\<lparr>cn_incoming := None\<rparr>)"
              by (simp add: deliver_navigation_bytes_def guarded_def)
            show ?thesis unfolding eq using later by (simp add: accounted_def calls_sent_def)
          next
            case (Inr state)
            have state: "state_sent (parts @ [m]) state" using state_finished [OF Inr R(1)] by (simp add: state_sent_def)
            have "eof \<longrightarrow> last (parts @ [m]) = EndDocument (dcs_document (ind_start i))"
              using part R(6) d by (auto simp: brings_def split: if_splits)
            with state R r(2) D(1) D(4) [OF Some] have "call_sent T (ms @ [m]) (LoadStream (ind_start i) state d' shown)"
              unfolding call_sent_def engine_call.case
              by (intro exI [of _ before] exI [of _ "parts @ [m]"] exI [of _ "[]"]) simp
            moreover have eq: "?res = load_stream (ind_start i) state d' shown hg (cn\<lparr>cn_incoming := None\<rparr>)"
              using Some Inr \<open>cn_incoming cn = Some i\<close> dd d alive p by (simp add: deliver_navigation_bytes_def guarded_def)
            ultimately show ?thesis
              using load_stream_effect [of "cn\<lparr>cn_incoming := None\<rparr>" "ind_start i" state d' shown hg]
                called_accounted [OF sent, of ?res "LoadStream (ind_start i) state d' shown" m] unfolding eq by simp
          qed
        qed
      qed
    qed
  qed
  then show "accounted T (ms @ [m]) ?res" "eof \<Longrightarrow> fst ?res = Inr () \<Longrightarrow> cn_incoming (snd ?res) = None" by blast+
qed

lemma accounted_error: "calls_sent T ms cn \<Longrightarrow> accounted T (ms @ [m]) (Inl e, cn)"
  using calls_sent_later [of T ms cn "[m]"] by (simp add: accounted_def)

lemma accounted_later_error: "calls_sent T ms cn \<Longrightarrow> cn_calls c = cn_calls cn \<Longrightarrow> accounted T (ms @ [m]) (Inl e, c)"
  using calls_sent_later [of T ms cn "[m]"] by (simp add: accounted_def calls_sent_def)

text \<open>A chunk.\<close>

lemma received_offset:
  "received ms before parts streaming i \<Longrightarrow> map_option fst streaming' = map_option fst streaming \<Longrightarrow> received ms before parts streaming' i"
  by (cases "ind_decoder i") (simp_all add: received_def)

lemma offset_moves:
  assumes "conn_inv ms cn" "cn_streaming cn = Some (d, n)"
  shows "conn_inv ms (cn\<lparr>cn_streaming := Some (d, k)\<rparr>)"
proof -
  have "receiving ms (cn\<lparr>cn_streaming := Some (d, k)\<rparr>) i" if "receiving ms cn i" for i
    using that assms(2) received_offset [of ms _ _ "cn_streaming cn" i "Some (d, k)"] by (auto simp: receiving_def)
  then show ?thesis using assms(1) by (auto simp: conn_inv_def owns_one_def)
qed

lemma chunk_accounted:
  assumes inv: "conn_inv ms cn" and sent: "calls_sent T ms cn"
  shows "accounted T (ms @ [DocumentChunk c]) (document_chunk T c hg cn)"
proof (cases "cn_streaming cn")
  case (Some p)
  obtain d n where p: "cn_streaming cn = Some (d, n)" using Some by (cases p) auto
  show ?thesis
  proof (cases "d = tc_transfer_id c \<and> n = unat (tc_offset c) \<and> checked_add n (length (tc_content c)) \<noteq> None \<and>
      n + length (tc_content c) \<le> MAX_RESPONSE_BODY_BYTES")
    case True
    let ?cn = "cn\<lparr>cn_streaming := Some (d, n + length (tc_content c))\<rparr>"
    have "document_chunk T c hg cn = deliver_navigation_bytes T (tc_content c) False hg ?cn"
      using p True by (auto simp: document_chunk_def navigation_chunk_def guarded_def checked_add_def split: if_splits)
    moreover have "calls_sent T ms ?cn" using sent by (simp add: calls_sent_def)
    moreover have "brings (DocumentChunk c) d (tc_content c) False" using True by (simp add: brings_def)
    ultimately show ?thesis using stream_accounted(1) [OF offset_moves [OF inv p]] by simp
  next
    case False
    with p show ?thesis
      by (auto simp: document_chunk_def navigation_chunk_def guarded_def checked_add_def not_le
          split: if_splits intro!: accounted_error [OF sent] accounted_later_error [OF sent] split: sum.splits)
  qed
next
  case None
  show ?thesis
  proof (cases "cn_incoming cn")
    case None
    with \<open>cn_streaming cn = None\<close> show ?thesis by (simp add: document_chunk_def accounted_error [OF sent])
  next
    case (Some i)
    show ?thesis
    proof (cases "transfer_push c (ind_body i)")
      case (Inl e)
      with Some None show ?thesis by (simp add: document_chunk_def guarded_def accounted_error [OF sent])
    next
      case (Inr body)
      have b: "body = (ind_body i)\<lparr>ta_bytes := ta_bytes (ind_body i) @ tc_content c\<rparr>"
        using Inr by (auto simp: transfer_push_def result_simps split: if_splits)
      from inv Some have i: "receiving ms cn i" by (simp add: conn_inv_def)
      then obtain before parts where r: "received ms before parts (cn_streaming cn) i" "validate_document_start (ind_start i) = Inr ()"
        by (auto simp: receiving_def)
      with None have dec: "ind_decoder i = None" by (auto simp: received_def split: option.splits)
      have "state_inv (parts @ [DocumentChunk c]) (ind_state i)"
        using r(1) state_inv_step [of "DocumentChunk c" "ind_state i" "ind_state i" parts] by (simp add: received_def state_part_def)
      with r(1) dec b have "received (ms @ [DocumentChunk c]) before (parts @ [DocumentChunk c]) (cn_streaming cn) (i\<lparr>ind_body := body\<rparr>)"
        by (simp add: received_def sent_snoc goes_on_def)
      with r(2) have "receiving (ms @ [DocumentChunk c]) (cn\<lparr>cn_incoming := Some (i\<lparr>ind_body := body\<rparr>)\<rparr>) (i\<lparr>ind_body := body\<rparr>)"
        by (auto simp: receiving_def)
      with Inr Some None inv calls_sent_later [OF sent, of "[DocumentChunk c]"] show ?thesis
        by (auto simp: document_chunk_def guarded_def accounted_def conn_inv_def owns_one_def calls_sent_def)
    qed
  qed
qed

text \<open>The end.\<close>

lemma finish_accounted:
  assumes inv: "conn_inv ms cn" and sent: "calls_sent T ms cn"
  shows "accounted T (ms @ [EndDocument d]) (finish_document T d hg cn)"
proof (cases "cn_streaming cn")
  case (Some p)
  obtain e n where p: "cn_streaming cn = Some (e, n)" using Some by (cases p) auto
  show ?thesis
  proof (cases "e = d")
    case True
    with p have "brings (EndDocument d) d [] True" "cn_streaming cn = Some (d, n)" by (simp_all add: brings_def)
    note S = stream_accounted [OF inv sent this, of hg]
    obtain r c where r: "deliver_navigation_bytes T [] True hg cn = (r, c)" by fastforce
    have "finish_document T d hg cn = (case r of Inl x \<Rightarrow> (Inl x, c) | Inr _ \<Rightarrow> (Inr (), c\<lparr>cn_streaming := None\<rparr>))"
      using p True r by (simp add: finish_document_def navigation_end_def then_send_def)
    with S r show ?thesis by (cases r) (auto simp: accounted_def conn_inv_def owns_one_def calls_sent_def)
  next
    case False
    with p show ?thesis by (simp add: finish_document_def navigation_end_def accounted_error [OF sent])
  qed
next
  case None
  show ?thesis
  proof (cases "cn_incoming cn")
    case None
    with \<open>cn_streaming cn = None\<close> show ?thesis by (simp add: finish_document_def accounted_error [OF sent])
  next
    case (Some i)
    let ?cn = "cn\<lparr>cn_incoming := None\<rparr>"
    show ?thesis
    proof (cases "\<exists>body state. dcs_document (ind_start i) = d \<and> transfer_finish d (ind_body i) = Inr body \<and> state_finish (ind_state i) = Inr state")
      case True
      then obtain body state where ok: "dcs_document (ind_start i) = d" "transfer_finish d (ind_body i) = Inr body"
        "state_finish (ind_state i) = Inr state" by blast
      from inv Some obtain before parts where r: "received ms before parts (cn_streaming cn) i" "validate_document_start (ind_start i) = Inr ()"
        by (auto simp: conn_inv_def receiving_def)
      with None have dec: "ind_decoder i = None" by (auto simp: received_def split: option.splits)
      have body: "body = chunk_contents parts" "length body = unat (dcs_body_size (ind_start i))"
        using ok(2) r(1) dec by (auto simp: received_def transfer_finish_def split: if_splits)
      have "state_inv parts (ind_state i)" using r(1) by (simp add: received_def)
      then have "state_sent parts state" using state_finished [OF ok(3)] unfolding state_sent_def by blast
      with body r dec ok(1) have "call_sent T (ms @ [EndDocument d]) (LoadDocument (ind_start i) state body)"
        unfolding call_sent_def engine_call.case
        by (intro exI [of _ before] exI [of _ parts] exI [of _ "[]"]) (simp add: received_def)
      moreover have "finish_document T d hg cn = load_document (ind_start i) state body hg ?cn"
        using Some None ok by (simp add: finish_document_def guarded_def Let_def)
      ultimately show ?thesis
        using load_document_effect [of ?cn "ind_start i" state body hg] sent by (auto intro!: called_accounted [of T ms cn])
    next
      case False
      have "\<exists>x. finish_document T d hg cn = (Inl x, ?cn)"
        using False Some None
        by (cases "transfer_finish d (ind_body i)"; cases "state_finish (ind_state i)")
          (auto simp: finish_document_def guarded_def Let_def)
      then show ?thesis using accounted_later_error [OF sent] by fastforce
    qed
  qed
qed

text \<open>A cancelled navigation.\<close>

lemma cancel_accounted:
  assumes inv: "conn_inv ms cn" and sent: "calls_sent T ms cn"
  shows "accounted T (ms @ [CancelDocument d]) (cancel_navigation d cn)"
proof -
  have "receiving (ms @ [CancelDocument d]) (snd (cancel_navigation d cn)) i" if i: "cn_incoming (snd (cancel_navigation d cn)) = Some i" for i
  proof -
    from i have now: "cn_incoming cn = Some i" "dcs_document (ind_start i) \<noteq> d" by (auto simp: cancel_navigation_def split: if_splits)
    with inv have "receiving ms cn i" by (simp add: conn_inv_def)
    then have "receiving (ms @ [CancelDocument d]) cn i" by (rule receiving_no_part) (use now(2) in \<open>simp_all add: no_part_def goes_on_def\<close>)
    with now(2) show ?thesis by (auto simp: receiving_def received_def cancel_navigation_def split: option.splits)
  qed
  with inv calls_sent_later [OF sent, of "[CancelDocument d]"] show ?thesis
    by (auto simp: accounted_def conn_inv_def owns_one_def calls_sent_def) (auto simp: cancel_navigation_def split: if_splits)
qed

section \<open>Every message\<close>

lemma handle_accounted:
  assumes inv: "conn_inv ms cn" and sent: "calls_sent T ms cn"
  shows "accounted T (ms @ [m]) (handle T m hg cn)"
proof (cases "\<exists>x. m = BeginDocument x \<or> m = BeginStreamingDocument x")
  case True
  then show ?thesis using begin_accounted [OF sent] begin_streaming_accounted [OF sent] by (auto simp: handle_def)
next
  case begun: False
  show ?thesis
  proof (cases "no_part m \<and> (\<forall>d. m \<noteq> EndDocument d \<and> m \<noteq> CancelDocument d)")
    case True
    have "calmly (handle T m hg)"
      using True begun
      by (cases m) (simp_all add: handle_def no_part_def calmly_post calmly_validated calmly_deliver calmly_policies calmly_input
          calmly_acknowledge calmly_shutdown calmly_abort calmly_test calmly_sync calmly_fetch advance_document_def resize_document_def)
    moreover have "goes_on start m" for start using True begun by (cases m) (simp_all add: goes_on_def)
    ultimately show ?thesis using calmly_accounted True inv sent by blast
  next
    case False
    then show ?thesis
      using begun corrections_accounted [OF inv sent] chunk_accounted [OF inv sent] finish_accounted [OF inv sent]
        cancel_accounted [OF inv sent]
      by (cases m) (auto simp: handle_def no_part_def)
  qed
qed

lemma quiet_accounted:
  assumes "calmly f" "conn_inv ms cn" "calls_sent T ms cn"
  shows "accounted T ms (f cn)"
proof -
  have calm: "calm cn (snd (f cn))" using assms(1,2) by (simp add: calmly_def conn_inv_def)
  have "receiving ms (snd (f cn)) i" if "cn_incoming (snd (f cn)) = Some i" for i
    using that calm assms(2) receiving_streaming [of ms cn i "snd (f cn)"] by (auto simp: calm_def conn_inv_def)
  with assms calm calm_owns show ?thesis by (auto simp: accounted_def conn_inv_def calm_def calls_sent_def)
qed

lemma then_accounted:
  assumes "accounted T ms (f cn)" "\<And>c. conn_inv ms c \<Longrightarrow> calls_sent T ms c \<Longrightarrow> accounted T ms' (g c)"
    and "\<And>c. calls_sent T ms c \<Longrightarrow> calls_sent T ms' c"
  shows "accounted T ms' (then_send f g cn)"
proof -
  obtain r c where f: "f cn = (r, c)" by fastforce
  with assms show ?thesis by (cases r) (auto simp: then_send_def accounted_def)
qed

lemma calmly_late: "calmly (acknowledge_processed_work hg)"
  by (simp add: acknowledge_processed_work_def calmly_post)

lemma message_accounted:
  assumes "conn_inv ms cn" "calls_sent T ms cn"
  shows "accounted T (ms @ [m]) (message_turn T m hg cn)"
proof -
  let ?task = "case hg_task hg of None \<Rightarrow> nothing | Some task \<Rightarrow> guarded task (\<lambda>t. post (Diagnostic t) hg)"
  let ?late = "if acknowledged m then acknowledge_processed_work hg else nothing"
  have task: "calmly ?task" by (auto simp: calmly_post intro: calmly_guarded split: option.splits)
  have late: "calmly ?late" by (simp add: calmly_post calmly_late)
  show ?thesis
    unfolding message_turn_def
  proof (rule then_accounted [where ms = ms])
    show "accounted T ms (?task cn)" by (rule quiet_accounted [OF task assms])
    fix c assume "conn_inv ms c" "calls_sent T ms c"
    then have "accounted T (ms @ [m]) (handle T m hg c)" by (rule handle_accounted)
    then show "accounted T (ms @ [m]) (then_send (handle T m hg) ?late c)"
      by (rule then_accounted) (rule quiet_accounted [OF late], assumption+)
  qed (rule calls_sent_later)
qed

lemma turn_accounted:
  assumes "conn_inv ms cn" "calls_sent T ms cn"
  shows "accounted T (ms @ turn_messages (fst e)) (connection_turn T e cn)"
proof (cases e)
  case (Pair t hg)
  show ?thesis
  proof (cases t)
    case (Received m)
    with Pair message_accounted [OF assms] show ?thesis by simp
  next
    case (Queued d)
    have "calmly (then_send (deliver_script_fetch d hg) (acknowledge_processed_work hg))"
      by (intro calmly_then calmly_late) (simp add: deliver_script_fetch_def calmly_deliver)
    with Pair Queued quiet_accounted [OF _ assms] show ?thesis by simp
  qed
qed

lemma run_accounted:
  assumes "conn_inv ms cn" "calls_sent T ms cn"
  shows "calls_sent T (ms @ messages_of es) (snd (connection_run T es cn))"
  using assms
proof (induction es arbitrary: ms cn)
  case (Cons e es)
  show ?case
  proof (cases "cn_stopping cn")
    case True
    then show ?thesis using calls_sent_later [OF Cons.prems(2)] by simp
  next
    case False
    obtain r c where turn: "connection_turn T e cn = (r, c)" by fastforce
    have acc: "accounted T (ms @ turn_messages (fst e)) (r, c)" using turn_accounted [OF Cons.prems, of e] turn by simp
    show ?thesis
    proof (cases r)
      case (Inl x)
      with acc calls_sent_later [of T "ms @ turn_messages (fst e)" c "messages_of es"] turn False show ?thesis
        by (simp add: accounted_def then_send_def)
    next
      case (Inr u)
      with acc Cons.IH [of "ms @ turn_messages (fst e)" c] turn False show ?thesis by (simp add: accounted_def then_send_def)
    qed
  qed
qed simp

lemma connection_new_inv: "conn_inv [] (connection_new b)" "calls_sent T [] (connection_new b)"
  by (simp_all add: conn_inv_def owns_one_def connection_new_def calls_sent_def)

section \<open>Properties\<close>

text \<open>C23: A renderer loads only what the browser sent as one document, whatever else is sent to it and in whatever order,
  whatever the page engine and the Fetch state do and wherever the connection ends. In the order in which the
  connection handles what it receives: a document is loaded only behind a valid start for it and its end, with neither
  another start nor a cancellation of it in between, and between them came exactly one cookie snapshot and, area by area and in order, exactly the storage entries of the
  state that is loaded, which is valid, and chunks that add up to the body that is loaded, of the declared length. A
  streamed document is started only behind its valid start and a complete valid state of that kind, on the text decoded
  from all the bytes received for it so far; and the bytes handed to a streamed document afterwards are those of a chunk sent for it.\<close>

theorem only_complete_documents_load:
  assumes "connection_run T es (connection_new test_mode) = (r, cn)" "call \<in> set (cn_calls cn)"
  shows "case call of
      LoadDocument start state body \<Rightarrow>
        \<exists>before parts after. messages_of es = before @ BeginDocument start # parts @ EndDocument (dcs_document start) # after \<and>
          list_all (goes_on start) parts \<and> validate_document_start start = Inr () \<and> state_sent parts state \<and>
          body = chunk_contents parts \<and> length body = unat (dcs_body_size start)
    | LoadStream start state decoder decoded \<Rightarrow>
        \<exists>before parts after. messages_of es = before @ BeginStreamingDocument start # parts @ after \<and>
          list_all (goes_on start) parts \<and> validate_document_start start = Inr () \<and> state_sent parts state \<and>
          dcd_bytes decoder = chunk_contents parts \<and>
          decoded = T (dcs_content_type start) [chunk_contents parts] (dcd_ended decoder) \<and>
          (dcd_ended decoder \<longrightarrow> last parts = EndDocument (dcs_document start))
    | AppendNavigation document bs eof \<Rightarrow>
        if eof then bs = [] \<and> EndDocument document \<in> set (messages_of es)
        else \<exists>c. DocumentChunk c \<in> set (messages_of es) \<and> tc_transfer_id c = document \<and> tc_content c = bs"
proof -
  have "call_sent T (messages_of es) call"
    using run_accounted [OF connection_new_inv, of T es test_mode] assms by (simp add: calls_sent_def list_all_iff)
  then show ?thesis by (simp only: call_sent_def)
qed

text \<open>A document reaches a connection that is free.\<close>

definition undisturbed :: "handling \<Rightarrow> bool" where
  "undisturbed hg \<longleftrightarrow> hg_pipe hg = None \<and> (\<forall>e. hg_task hg \<noteq> Some (Inl e))"

definition free :: "connection \<Rightarrow> bool" where
  "free cn \<longleftrightarrow> cn_incoming cn = None \<and> cn_document cn = None \<and> cn_streaming cn = None \<and> \<not> cn_stopping cn"

definition awaits :: "engine_call list \<Rightarrow> incoming_document \<Rightarrow> connection \<Rightarrow> bool" where
  "awaits calls i cn \<longleftrightarrow> cn_incoming cn = Some i \<and> cn_streaming cn = None \<and> \<not> cn_stopping cn \<and> cn_calls cn = calls"

lemma post_undisturbed: "undisturbed hg \<Longrightarrow> post m hg cn = (Inr (), cn\<lparr>cn_sent := cn_sent cn @ [m]\<rparr>)"
  by (simp add: undisturbed_def post_def)

lemma task_undisturbed:
  assumes "undisturbed hg"
  shows "\<exists>sent. connection_turn T (Received m, hg) cn =
    then_send (handle T m hg) (if acknowledged m then acknowledge_processed_work hg else nothing) (cn\<lparr>cn_sent := sent\<rparr>)"
proof (cases "hg_task hg")
  case None
  then have "connection_turn T (Received m, hg) cn =
    then_send (handle T m hg) (if acknowledged m then acknowledge_processed_work hg else nothing) (cn\<lparr>cn_sent := cn_sent cn\<rparr>)"
    unfolding connection_turn.simps message_turn_def by (simp add: then_send_def [of nothing] nothing_def)
  then show ?thesis by blast
next
  case (Some task)
  with assms obtain t where "task = Inr t" by (cases task) (auto simp: undisturbed_def)
  with Some assms have "connection_turn T (Received m, hg) cn =
    then_send (handle T m hg) (if acknowledged m then acknowledge_processed_work hg else nothing)
      (cn\<lparr>cn_sent := cn_sent cn @ [Diagnostic t]\<rparr>)"
    unfolding connection_turn.simps message_turn_def by (simp add: then_send_def [of "guarded _ _"] guarded_def post_undisturbed)
  then show ?thesis by blast
qed

lemma late_undisturbed:
  assumes "undisturbed hg"
  shows "\<exists>sent. (if b then acknowledge_processed_work hg else nothing) cn = (Inr (), cn\<lparr>cn_sent := sent\<rparr>)"
proof (cases "b \<and> hg_late hg")
  case False
  then have "(if b then acknowledge_processed_work hg else nothing) cn = (Inr (), cn\<lparr>cn_sent := cn_sent cn\<rparr>)"
    by (simp add: acknowledge_processed_work_def nothing_def)
  then show ?thesis by blast
qed (use assms in \<open>auto simp: post_undisturbed acknowledge_processed_work_def\<close>)

lemma turn_undisturbed:
  assumes "undisturbed hg" "\<And>sent. \<exists>c. handle T m hg (cn\<lparr>cn_sent := sent\<rparr>) = (Inr (), c) \<and> awaits calls j c"
  shows "\<exists>c. connection_turn T (Received m, hg) cn = (Inr (), c) \<and> awaits calls j c"
proof -
  from task_undisturbed [OF assms(1), of T m cn] obtain sent where turn: "connection_turn T (Received m, hg) cn =
    then_send (handle T m hg) (if acknowledged m then acknowledge_processed_work hg else nothing) (cn\<lparr>cn_sent := sent\<rparr>)" ..
  from assms(2) [of sent] obtain c where c: "handle T m hg (cn\<lparr>cn_sent := sent\<rparr>) = (Inr (), c)" "awaits calls j c" by blast
  from late_undisturbed [OF assms(1), of "acknowledged m" c] obtain late where
    "(if acknowledged m then acknowledge_processed_work hg else nothing) c = (Inr (), c\<lparr>cn_sent := late\<rparr>)" ..
  with turn c show ?thesis by (simp add: then_send_def awaits_def)
qed

lemma begin_turn:
  assumes "undisturbed hg" "free cn" "validate_document_start start = Inr ()" "dcs_document start \<noteq> 0"
  shows "\<exists>c. connection_turn T (Received (BeginDocument start), hg) cn = (Inr (), c) \<and> awaits (cn_calls cn) (incoming_new start None) c"
proof (rule turn_undisturbed [OF assms(1)])
  have "unat (dcs_body_size start) \<le> MAX_RESPONSE_BODY_BYTES"
    using assms(3) by (auto simp: validate_document_start_def result_simps)
  with assms(4) have "transfer_new (dcs_document start) (unat (dcs_body_size start)) MAX_RESPONSE_BODY_BYTES
      = Inr \<lparr>ta_transfer_id = dcs_document start, ta_expected = unat (dcs_body_size start), ta_bytes = []\<rparr>"
    by (simp add: transfer_new_def valid_when_def)
  then show "\<exists>c. handle T (BeginDocument start) hg (cn\<lparr>cn_sent := sent\<rparr>) = (Inr (), c) \<and> awaits (cn_calls cn) (incoming_new start None) c" for sent
    using assms(2,3) by (simp add: handle_def begin_document_def guarded_def free_def awaits_def incoming_new_def)
qed

lemma part_turn:
  assumes "undisturbed hg" "awaits calls i cn" "document_part m i = Inr j" "\<not> no_part m"
  shows "\<exists>c. connection_turn T (Received m, hg) cn = (Inr (), c) \<and> awaits calls j c"
proof (rule turn_undisturbed [OF assms(1)])
  show "\<exists>c. handle T m hg (cn\<lparr>cn_sent := sent\<rparr>) = (Inr (), c) \<and> awaits calls j c" for sent
    using assms(2-4)
    by (cases m) (auto simp: no_part_def handle_def document_state_cookie_def document_state_start_def document_state_entry_def
        document_state_end_def document_chunk_def document_part_def state_part_def on_state_def on_incoming_def guarded_def
        awaits_def result_simps)
qed

lemma parts_run:
  assumes "list_all undisturbed (map snd es)" "awaits calls i cn" "map fst es = map Received ms" "document_parts ms i = Inr j" "list_all (\<lambda>m. \<not> no_part m) ms"
  shows "\<exists>c. (\<forall>rest. connection_run T (es @ rest) cn = connection_run T rest c) \<and> awaits calls j c"
  using assms
proof (induction es arbitrary: ms i cn)
  case (Cons e es)
  from Cons.prems(3) obtain m ns where ms: "ms = m # ns" "fst e = Received m" "map fst es = map Received ns" by auto
  from Cons.prems(4) ms(1) obtain k where k: "document_part m i = Inr k" "document_parts ns k = Inr j"
    by (auto simp: result_simps)
  from part_turn [of "snd e" calls i cn m k T] Cons.prems k ms obtain c where c: "connection_turn T e cn = (Inr (), c)" "awaits calls k c"
    by (cases e) auto
  from Cons.IH [OF _ c(2) ms(3) k(2)] Cons.prems ms obtain c' where
    "(\<forall>rest. connection_run T (es @ rest) c = connection_run T rest c') \<and> awaits calls j c'" by auto
  moreover have "\<not> cn_stopping cn" using Cons.prems(2) by (simp add: awaits_def)
  ultimately show ?case using c(1) by (auto simp: then_send_def)
qed auto

lemma end_turn:
  assumes "undisturbed hg" "awaits calls i cn" "dcs_document (ind_start i) = d" "transfer_finish d (ind_body i) = Inr body"
    and "state_finish (ind_state i) = Inr state"
  shows "cn_calls (snd (connection_turn T (Received (EndDocument d), hg) cn)) = calls @ [LoadDocument (ind_start i) state body]"
proof -
  from task_undisturbed [OF assms(1), of T "EndDocument d" cn] obtain sent where turn: "connection_turn T (Received (EndDocument d), hg) cn =
    then_send (handle T (EndDocument d) hg) (if acknowledged (EndDocument d) then acknowledge_processed_work hg else nothing)
      (cn\<lparr>cn_sent := sent\<rparr>)" ..
  let ?c = "cn\<lparr>cn_sent := sent, cn_incoming := None\<rparr>"
  have "handle T (EndDocument d) hg (cn\<lparr>cn_sent := sent\<rparr>) = load_document (ind_start i) state body hg ?c"
    using assms(2-5) by (simp add: handle_def finish_document_def guarded_def awaits_def Let_def)
  moreover have "cn_calls (snd (load_document (ind_start i) state body hg ?c)) = calls @ [LoadDocument (ind_start i) state body]"
    using load_document_effect(2) [of ?c] assms(2) by (simp add: awaits_def)
  ultimately show ?thesis
    unfolding turn by (cases "load_document (ind_start i) state body hg ?c"; cases "fst (load_document (ind_start i) state body hg ?c)")
      (auto simp: then_send_def nothing_def acknowledge_processed_work_def)
qed

lemma body_messages_parts: "list_all (\<lambda>m. \<not> no_part m) (document_body_messages start state body)"
  by (auto simp: document_body_messages_def storage_messages_def no_part_def list_all_iff)

lemma document_loads:
  assumes "validate_document_start start = Inr ()" "validate_document_state state = Inr ()"
    and "length body = unat (dcs_body_size start)"
    and "sn_version (dst_local_storage state) \<le> u64_max" "sn_version (dst_session_storage state) \<le> u64_max"
    and "map fst es = map Received (document_messages start state body)" "list_all undisturbed (map snd es)" "free cn" "dcs_document start \<noteq> 0"
  shows "cn_calls (snd (connection_run T es cn)) = cn_calls cn @ [LoadDocument start state body]"
proof -
  from assms(6) obtain e0 parts e1 where es: "es = e0 # parts @ [e1]" "fst e0 = Received (BeginDocument start)"
    "map fst parts = map Received (document_body_messages start state body)" "fst e1 = Received (EndDocument (dcs_document start))"
    by (auto simp: document_messages_split map_eq_Cons_conv map_eq_append_conv)
  have u: "undisturbed (snd e0)" "undisturbed (snd e1)" "list_all undisturbed (map snd parts)" using assms(7) es(1) by simp_all
  from document_received [OF assms(1-5)] obtain s where s: "state_finish s = Inr state"
    "document_parts (document_body_messages start state body) (incoming_new start None)
      = Inr ((incoming_new start None)\<lparr>ind_state := s,
          ind_body := \<lparr>ta_transfer_id = dcs_document start, ta_expected = length body, ta_bytes = body\<rparr>\<rparr>)"
    (is "_ = Inr ?i") by blast
  from begin_turn [OF u(1) assms(8,1,9), of T] es(2) obtain c where
    c: "connection_turn T e0 cn = (Inr (), c)" "awaits (cn_calls cn) (incoming_new start None) c" by (cases e0) auto
  from parts_run [OF u(3) c(2) es(3) s(2) body_messages_parts, of T] obtain c' where
    c': "\<And>rest. connection_run T (parts @ rest) c = connection_run T rest c'" "awaits (cn_calls cn) ?i c'" by auto
  have "cn_calls (snd (connection_turn T e1 c')) = cn_calls cn @ [LoadDocument start state body]"
    using end_turn [OF u(2) c'(2), of "dcs_document start" body state T] es(4) s(1)
    by (cases e1) (simp add: incoming_new_def transfer_finish_def)
  moreover have "cn_calls (snd (connection_run T [e1] c')) = cn_calls (snd (connection_turn T e1 c'))"
    using c'(2) by (cases "connection_turn T e1 c'"; cases "fst (connection_turn T e1 c')") (auto simp: awaits_def then_send_def)
  ultimately show ?thesis
    using assms(8) by (simp add: es(1) c(1) c'(1) then_send_def free_def)
qed

text \<open>C22: A document that the broker's mailbox has taken is the one the renderer loads. Let the mailbox hold any messages
  when send_document puts the document behind them, and let the writing thread, which has written any messages of
  the session before (the first is Hello), then write everything the mailbox holds. If the waiting and the earlier messages pass
  the checks of the renderer's decoder, the start's fields pass them too, the cookie header is UTF-8 and the two storage
  versions fit 64 bits, then the renderer reads exactly these messages back, complete and in order, ending with those of
  the document; and a connection that owns, receives and streams no document and is not stopping, to which they are
  handed while the pipe takes what it writes and no task diagnostic is an error, gives its page engine exactly one
  document: the declared start, the cookie header, both storage areas with their versions and entries in order, and
  the bytes of the body.\<close>

theorem documents_arrive_intact:
  assumes "send_document start state body s = (Inr (), s')"
    and "send_all (send_browser vec_sink) (earlier @ in_hand s') (frame_writer_new [] session) = (Inr (), w)"
    and "list_all browser_fits (earlier @ in_hand s)" "length (earlier @ in_hand s') < u64_max"
    and "document_start_fits start" "is_utf8 (dst_cookie_header state)"
    and "sn_version (dst_local_storage state) \<le> u64_max" "sn_version (dst_session_storage state) \<le> u64_max"
    and "map fst es = map Received (document_messages start state body)" "list_all undisturbed (map snd es)" "free cn"
  shows "fst (receive_all (read_browser slice_source) (length (earlier @ in_hand s')) (frame_reader_new (fw_inner w) session))
      = Inr (earlier @ in_hand s @ document_messages start state body)
    \<and> cn_calls (snd (connection_run T es cn)) = cn_calls cn @ [LoadDocument start state body]"
proof -
  let ?ms = "document_messages start state body"
  have sent: "send_all outbound_send ?ms s = (Inr (), s')"
    "validate_document_start start = Inr ()" "validate_document_state state = Inr ()"
    "length body = unat (dcs_body_size start)"
    using assms(1) by (auto simp: document_sent)
  have queue: "in_hand s' = in_hand s @ ?ms" using send_all_in_hand [OF sent(1)] by simp
  have "list_all browser_fits ?ms" by (rule document_messages_fit [OF sent(3) assms(5-8)])
  with assms(2-4) queue have
    "fst (receive_all (read_browser slice_source) (length (earlier @ in_hand s')) (frame_reader_new (fw_inner w) session)) = Inr (earlier @ in_hand s @ ?ms)"
    unfolding read_browser_def send_browser_def browser.accepted_iff_sent by auto
  moreover have "dcs_document start \<noteq> 0" using assms(5) by (simp add: document_start_fits_def)
  ultimately show ?thesis using document_loads [OF sent(2-4) assms(7-11)] by blast
qed

definition sample_handling :: handling where
  "sample_handling = \<lparr>hg_invalid = None, hg_engine = (\<lambda>_. (False, Completed)), hg_changed = False, hg_fetch = Inr None,
     hg_pipe = None, hg_task = None, hg_late = False\<rparr>"

lemma sample_undisturbed: "undisturbed sample_handling" "free (connection_new b)"
  by (simp_all add: undisturbed_def sample_handling_def free_def connection_new_def)

definition sample_events :: "(turn \<times> handling) list" where
  "sample_events = map (\<lambda>m. (Received m, sample_handling)) (document_messages sample_start sample_state [60, 62])"

lemma sample_events_shape: "map fst sample_events = map Received (document_messages sample_start sample_state [60, 62])" "list_all undisturbed (map snd sample_events)"
  by (simp_all add: sample_events_def comp_def list_all_iff sample_undisturbed)

lemma sample_loads:
  "cn_calls (snd (connection_run T sample_events (connection_new b))) = [LoadDocument sample_start sample_state [60, 62]]"
proof -
  have "dcs_document sample_start \<noteq> 0" by (simp add: sample_start_def)
  from document_loads [OF sample_valid1 sample_valid2 sample_sizes(1,3,4) sample_events_shape sample_undisturbed(2) this, of T b]
  show ?thesis by (simp add: connection_new_def)
qed

text \<open>The sample document behind a Ping that waits in the mailbox.\<close>

theorem documents_arrive_intact_witness:
  "\<exists>s s' w. in_hand s = [Ping 5] \<and> send_document sample_start sample_state [60, 62] s = (Inr (), s')
    \<and> send_all (send_browser vec_sink) ([] @ in_hand s') (frame_writer_new [] 9) = (Inr (), w)
    \<and> fst (receive_all (read_browser slice_source) (length ([] @ in_hand s')) (frame_reader_new (fw_inner w) 9))
        = Inr ([] @ in_hand s @ document_messages sample_start sample_state [60, 62])
    \<and> cn_calls (snd (connection_run (\<lambda>_ _ _. []) sample_events (connection_new False)))
        = cn_calls (connection_new False) @ [LoadDocument sample_start sample_state [60, 62]]"
proof -
  let ?ms = "document_messages sample_start sample_state [60, 62]"
  let ?s = "outbound_spawn\<lparr>ob_queued := 1, ob_messages := [Ping 5]\<rparr>"
  have s: "in_hand ?s = [Ping 5]" by (simp add: in_hand_def outbound_spawn_def)
  obtain s' where s': "send_document sample_start sample_state [60, 62] ?s = (Inr (), s')" "in_hand s' = in_hand ?s @ ?ms"
    using document_is_queued [OF sample_valid1 sample_valid2 sample_sizes(1), of ?s] by (auto simp: outbound_spawn_def)
  obtain w where w: "send_all (send_browser vec_sink) ([] @ in_hand s') (frame_writer_new [] 9) = (Inr (), w)"
    using sample_written_behind s'(2) s by auto
  have "length ?ms = 9"
    by (simp add: document_messages_length sample_pieces sample_state_def snapshot_empty_def)
  then have "length ([] @ in_hand s') < u64_max" using s'(2) s by (simp add: u64_max_def)
  moreover have "list_all browser_fits ([] @ in_hand ?s)" using s by (simp add: browser_fits_def)
  ultimately show ?thesis
    using documents_arrive_intact [OF s'(1) w _ _ sample_valid3 sample_sizes(2-4) sample_events_shape sample_undisturbed(2),
        of "\<lambda>_ _ _. []" False] s s' w
    by blast
qed

theorem only_complete_documents_load_witness:
  "\<exists>before parts after. document_messages sample_start sample_state [60, 62]
      = before @ BeginDocument sample_start # parts @ EndDocument (dcs_document sample_start) # after \<and>
    list_all (goes_on sample_start) parts \<and> validate_document_start sample_start = Inr () \<and> state_sent parts sample_state \<and>
    [60, 62] = chunk_contents parts \<and> length [60::8 word, 62] = unat (dcs_body_size sample_start)"
proof -
  obtain r cn where run: "connection_run (\<lambda>_ _ _. []) sample_events (connection_new False) = (r, cn)" by fastforce
  have "LoadDocument sample_start sample_state [60, 62] \<in> set (cn_calls cn)"
    using sample_loads [of "\<lambda>_ _ _. []" False] run by simp
  from only_complete_documents_load [OF run this] show ?thesis by (simp add: messages_of_received [OF sample_events_shape(1)])
qed

end
