(* ===== verification/Broker_Flow.thy ===== *)
theory Broker_Flow
  imports Ipc_Fetch Ordered_Map Fetch_Stream "HOL-Library.Product_Lexorder"
begin

text \<open>
  Credit for Fetch responses on their way to a renderer (\<^verbatim>\<open>renderer_process/broker/flow.rs\<close>): network threads
  reserve the bytes of a chunk before they queue it, the renderer's receipts give them back. The table is a
  \<^verbatim>\<open>HashMap\<close> whose order is never observed. A subtraction that would underflow, which panics in Rust, is the
  error \<open>FlowPanic\<close>. Each operation is one step under the mutex; the condition variable \<^verbatim>\<open>changed\<close> is the list of
  producers asleep in its \<^verbatim>\<open>wait\<close>, which \<^verbatim>\<open>notify_all\<close> wakes and which then run their loop again, one at a time
  and in any order. A producer may also wake without a notification.
\<close>

definition MAX_FETCH_STREAM_WINDOW_BYTES :: nat where [limit_simps]: "MAX_FETCH_STREAM_WINDOW_BYTES = 256 * 1024"
definition MAX_FETCH_STREAM_IN_FLIGHT_BYTES :: nat where [limit_simps]: "MAX_FETCH_STREAM_IN_FLIGHT_BYTES = 4 * 1024 * 1024"

section \<open>State and operations\<close>

text \<open>\<^verbatim>\<open>reserved\<close> and \<^verbatim>\<open>consumed\<close> are \<^verbatim>\<open>u32\<close>; their sums are checked against its range below.\<close>

record credit =
  cr_limited :: bool
  cr_prioritized :: bool
  cr_reserved :: nat
  cr_consumed :: nat

record producer =
  pr_document :: u64
  pr_request :: u64
  pr_offset :: nat
  pr_bytes :: nat

record fetch_flow =
  fl_requests :: "(u64 \<times> u64, credit) omap"
  fl_in_flight :: nat
  fl_asleep :: "producer list"
  fl_awake :: "producer list"

datatype flow_error = FlowRefused string | FlowPanic

definition flow_default :: fetch_flow where
  "flow_default = \<lparr>fl_requests = [], fl_in_flight = 0, fl_asleep = [], fl_awake = []\<rparr>"

definition flow_notify_all :: "fetch_flow \<Rightarrow> fetch_flow" where
  "flow_notify_all s = s\<lparr>fl_asleep := [], fl_awake := fl_awake s @ fl_asleep s\<rparr>"

definition minus_or_panic :: "nat \<Rightarrow> nat \<Rightarrow> flow_error + nat" where
  "minus_or_panic a b = (if b \<le> a then Inr (a - b) else Inl FlowPanic)"

definition uses_priority_lane :: "resource_destination \<Rightarrow> bool" where
  "uses_priority_lane destination \<longleftrightarrow> destination = StyleRes \<or> destination = ScriptRes"

definition flow_register :: "u64 \<Rightarrow> u64 \<Rightarrow> bool \<Rightarrow> fetch_flow \<Rightarrow> (flow_error + unit) \<times> fetch_flow" where
  "flow_register document rid limited s =
     (if om_contains (fl_requests s) (document, rid) then (Inl (FlowRefused ''duplicate Fetch flow identity''), s)
      else (Inr (), s\<lparr>fl_requests := om_insert (document, rid)
        \<lparr>cr_limited = limited, cr_prioritized = False, cr_reserved = 0, cr_consumed = 0\<rparr> (fl_requests s)\<rparr>))"

definition flow_mark_prioritized :: "u64 \<Rightarrow> u64 \<Rightarrow> fetch_flow \<Rightarrow> fetch_flow" where
  "flow_mark_prioritized document rid s =
     (case om_get (fl_requests s) (document, rid) of
        None \<Rightarrow> s
      | Some c \<Rightarrow> s\<lparr>fl_requests := om_insert (document, rid) (c\<lparr>cr_prioritized := True\<rparr>) (fl_requests s)\<rparr>)"

definition flow_is_prioritized :: "u64 \<Rightarrow> u64 \<Rightarrow> fetch_flow \<Rightarrow> bool" where
  "flow_is_prioritized document rid s \<longleftrightarrow>
     (case om_get (fl_requests s) (document, rid) of None \<Rightarrow> False | Some c \<Rightarrow> cr_prioritized c)"

definition fits_window :: "credit \<Rightarrow> nat \<Rightarrow> fetch_flow \<Rightarrow> flow_error + bool" where
  "fits_window c n s =
     and_then (minus_or_panic (cr_reserved c) (cr_consumed c)) (\<lambda>held.
       Inr (held + n \<le> MAX_FETCH_STREAM_WINDOW_BYTES \<and> fl_in_flight s + n \<le> MAX_FETCH_STREAM_IN_FLIGHT_BYTES))"

text \<open>The assignments at the end of \<^verbatim>\<open>reserve\<close> and \<^verbatim>\<open>try_reserve\<close>; \<^verbatim>\<open>bytes as u32\<close> truncates.\<close>

definition flow_spend :: "u64 \<times> u64 \<Rightarrow> credit \<Rightarrow> nat \<Rightarrow> fetch_flow \<Rightarrow> (flow_error + bool) \<times> fetch_flow" where
  "flow_spend key c n s =
     (if cr_reserved c + n mod 2 ^ 32 > u32_max then (Inl (FlowRefused ''Fetch response credit overflow''), s)
      else (Inr True, s\<lparr>fl_requests := om_insert key (c\<lparr>cr_reserved := cr_reserved c + n mod 2 ^ 32\<rparr>) (fl_requests s),
        fl_in_flight := (if cr_limited c then fl_in_flight s + n else fl_in_flight s)\<rparr>))"

text \<open>One pass of the loop of \<^verbatim>\<open>reserve\<close>: the producer goes on, waits (\<open>Inr False\<close>) or fails.\<close>

definition flow_reserve_pass :: "u64 \<Rightarrow> u64 \<Rightarrow> nat \<Rightarrow> nat \<Rightarrow> fetch_flow \<Rightarrow> (flow_error + bool) \<times> fetch_flow" where
  "flow_reserve_pass document rid offset n s =
     (case om_get (fl_requests s) (document, rid) of
        None \<Rightarrow> (Inl (FlowRefused ''Fetch response was cancelled or retired''), s)
      | Some c \<Rightarrow>
          if cr_reserved c \<noteq> offset then (Inl (FlowRefused ''Fetch producer offset does not match reserved bytes''), s)
          else if \<not> cr_limited c then flow_spend (document, rid) c n s
          else (case fits_window c n s of
              Inl e \<Rightarrow> (Inl e, s)
            | Inr fits \<Rightarrow> if fits then flow_spend (document, rid) c n s else (Inr False, s)))"

text \<open>The call, whose first pass may put the producer to sleep, and the passes after it was woken.\<close>

definition flow_reserve :: "producer \<Rightarrow> fetch_flow \<Rightarrow> (flow_error + bool) \<times> fetch_flow" where
  "flow_reserve p s =
     (case flow_reserve_pass (pr_document p) (pr_request p) (pr_offset p) (pr_bytes p) s of
        (r, s') \<Rightarrow> (r, if r = Inr False then s'\<lparr>fl_asleep := fl_asleep s' @ [p]\<rparr> else s'))"

definition remove_nth :: "nat \<Rightarrow> 'a list \<Rightarrow> 'a list" where
  "remove_nth k xs = take k xs @ drop (Suc k) xs"

definition flow_resume :: "nat \<Rightarrow> fetch_flow \<Rightarrow> (flow_error + bool) \<times> fetch_flow" where
  "flow_resume k s =
     (if k < length (fl_awake s) then flow_reserve (fl_awake s ! k) (s\<lparr>fl_awake := remove_nth k (fl_awake s)\<rparr>)
      else (Inr True, s))"

definition flow_wake :: "nat \<Rightarrow> fetch_flow \<Rightarrow> fetch_flow" where
  "flow_wake k s =
     (if k < length (fl_asleep s)
      then s\<lparr>fl_asleep := remove_nth k (fl_asleep s), fl_awake := fl_awake s @ [fl_asleep s ! k]\<rparr> else s)"

definition flow_try_reserve :: "u64 \<Rightarrow> u64 \<Rightarrow> nat \<Rightarrow> nat \<Rightarrow> fetch_flow \<Rightarrow> (flow_error + bool) \<times> fetch_flow" where
  "flow_try_reserve document rid offset n s =
     (case om_get (fl_requests s) (document, rid) of
        None \<Rightarrow> (Inl (FlowRefused ''Fetch response was cancelled or retired''), s)
      | Some c \<Rightarrow>
          if cr_reserved c \<noteq> offset then (Inl (FlowRefused ''Fetch producer offset does not match reserved bytes''), s)
          else (case (if cr_limited c then fits_window c n s else Inr True) of
              Inl e \<Rightarrow> (Inl e, s)
            | Inr fits \<Rightarrow> if cr_limited c \<and> \<not> fits then (Inr False, s) else flow_spend (document, rid) c n s))"

definition flow_has_capacity :: "u64 \<Rightarrow> u64 \<Rightarrow> nat \<Rightarrow> fetch_flow \<Rightarrow> flow_error + bool" where
  "flow_has_capacity document rid n s =
     and_then (ok_or (om_get (fl_requests s) (document, rid)) (FlowRefused ''Fetch response was cancelled or retired'')) (\<lambda>c.
       if \<not> cr_limited c then Inr True else fits_window c n s)"

definition flow_consume :: "u64 \<Rightarrow> u64 \<Rightarrow> nat \<Rightarrow> fetch_flow \<Rightarrow> (flow_error + unit) \<times> fetch_flow" where
  "flow_consume document rid received s =
     (case om_get (fl_requests s) (document, rid) of
        None \<Rightarrow> (Inr (), s)
      | Some c \<Rightarrow>
          if received < cr_consumed c \<or> received > cr_reserved c
          then (Inl (FlowRefused ''Fetch consumption exceeds delivered bytes or moves backwards''), s)
          else let freed = received - cr_consumed c;
                   s' = s\<lparr>fl_requests := om_insert (document, rid) (c\<lparr>cr_consumed := received\<rparr>) (fl_requests s)\<rparr>
            in if \<not> cr_limited c then (Inr (), flow_notify_all s')
               else (case minus_or_panic (fl_in_flight s) freed of
                   Inl e \<Rightarrow> (Inl e, s')
                 | Inr rest \<Rightarrow> (Inr (), flow_notify_all (s'\<lparr>fl_in_flight := rest\<rparr>))))"

definition flow_retire :: "u64 \<Rightarrow> u64 \<Rightarrow> fetch_flow \<Rightarrow> (flow_error + unit) \<times> fetch_flow" where
  "flow_retire document rid s =
     (case om_get (fl_requests s) (document, rid) of
        None \<Rightarrow> (Inr (), flow_notify_all s)
      | Some c \<Rightarrow>
          let s' = s\<lparr>fl_requests := om_remove (document, rid) (fl_requests s)\<rparr>
          in if \<not> cr_limited c then (Inr (), flow_notify_all s')
             else (case and_then (minus_or_panic (cr_reserved c) (cr_consumed c)) (minus_or_panic (fl_in_flight s)) of
                 Inl e \<Rightarrow> (Inl e, s')
               | Inr rest \<Rightarrow> (Inr (), flow_notify_all (s'\<lparr>fl_in_flight := rest\<rparr>))))"

definition flow_clear :: "fetch_flow \<Rightarrow> fetch_flow" where
  "flow_clear s = flow_notify_all (s\<lparr>fl_requests := [], fl_in_flight := 0\<rparr>)"

section \<open>Histories\<close>

datatype flow_event =
    Register u64 u64 bool | Prioritize u64 u64 | Reserve producer | Resume nat | Wake nat | TryReserve u64 u64 nat nat
  | Consume u64 u64 nat | Retire u64 u64 | ClearAll

definition flow_step :: "flow_event \<Rightarrow> fetch_flow \<Rightarrow> (flow_error + bool) \<times> fetch_flow" where
  "flow_step ev s =
     (case ev of
        Register d i limited \<Rightarrow> map_prod (map_sum id (\<lambda>_. True)) id (flow_register d i limited s)
      | Prioritize d i \<Rightarrow> (Inr True, flow_mark_prioritized d i s)
      | Reserve p \<Rightarrow> flow_reserve p s
      | Resume k \<Rightarrow> flow_resume k s
      | Wake k \<Rightarrow> (Inr True, flow_wake k s)
      | TryReserve d i offset n \<Rightarrow> flow_try_reserve d i offset n s
      | Consume d i received \<Rightarrow> map_prod (map_sum id (\<lambda>_. True)) id (flow_consume d i received s)
      | Retire d i \<Rightarrow> map_prod (map_sum id (\<lambda>_. True)) id (flow_retire d i s)
      | ClearAll \<Rightarrow> (Inr True, flow_clear s))"

fun flow_run :: "flow_event list \<Rightarrow> fetch_flow \<Rightarrow> (flow_error + bool) list \<times> fetch_flow" where
  "flow_run [] s = ([], s)"
| "flow_run (ev # evs) s = (let (r, s') = flow_step ev s; (rs, s'') = flow_run evs s' in (r # rs, s''))"

definition outstanding :: "u64 \<times> u64 \<Rightarrow> credit \<Rightarrow> nat" where
  "outstanding key c = (if cr_limited c then cr_reserved c - cr_consumed c else 0)"

definition credit_ok :: "credit \<Rightarrow> bool" where
  "credit_ok c \<longleftrightarrow> cr_consumed c \<le> cr_reserved c \<and> cr_reserved c \<le> u32_max
     \<and> (cr_limited c \<longrightarrow> cr_reserved c - cr_consumed c \<le> MAX_FETCH_STREAM_WINDOW_BYTES)"

definition flow_inv :: "fetch_flow \<Rightarrow> bool" where
  "flow_inv s \<longleftrightarrow> om_wf (fl_requests s) \<and> fl_in_flight s = om_weight outstanding (fl_requests s)
     \<and> fl_in_flight s \<le> MAX_FETCH_STREAM_IN_FLIGHT_BYTES
     \<and> (\<forall>key c. om_get (fl_requests s) key = Some c \<longrightarrow> credit_ok c)"

text \<open>The invariant speaks of the table and the total only.\<close>

lemma flow_inv_producers [simp]:
  "flow_inv (s\<lparr>fl_asleep := a\<rparr>) = flow_inv s" "flow_inv (s\<lparr>fl_awake := b\<rparr>) = flow_inv s"
  "flow_inv (s\<lparr>fl_asleep := a, fl_awake := b\<rparr>) = flow_inv s" "flow_inv (flow_notify_all s) = flow_inv s"
  by (simp_all add: flow_inv_def flow_notify_all_def)

lemma flow_notify_all_simps [simp]:
  "fl_requests (flow_notify_all s) = fl_requests s" "fl_in_flight (flow_notify_all s) = fl_in_flight s"
  "fl_asleep (flow_notify_all s) = []" "fl_awake (flow_notify_all s) = fl_awake s @ fl_asleep s"
  by (simp_all add: flow_notify_all_def)

lemma minus_or_panic_Inr [simp]: "b \<le> a \<Longrightarrow> minus_or_panic a b = Inr (a - b)"
  by (simp add: minus_or_panic_def)

lemma fits_window_ok: "credit_ok c \<Longrightarrow> fits_window c n s = Inr (cr_reserved c - cr_consumed c + n \<le> MAX_FETCH_STREAM_WINDOW_BYTES
    \<and> fl_in_flight s + n \<le> MAX_FETCH_STREAM_IN_FLIGHT_BYTES)"
  by (simp add: fits_window_def credit_ok_def)

text \<open>Both ways to reserve are the same function.\<close>

lemma reserve_pass_is_try_reserve: "flow_reserve_pass = flow_try_reserve"
  by (intro ext) (auto simp: flow_reserve_pass_def flow_try_reserve_def split: option.splits sum.splits)

lemma flow_inv_default: "flow_inv flow_default"
  by (simp add: flow_inv_def flow_default_def om_weight_def)

lemma flow_inv_get:
  assumes "flow_inv s" "om_get (fl_requests s) key = Some c"
  shows "credit_ok c" "outstanding key c \<le> fl_in_flight s"
proof -
  from assms show "credit_ok c" unfolding flow_inv_def by blast
  from assms om_weight_get [of "fl_requests s" key c outstanding] show "outstanding key c \<le> fl_in_flight s"
    by (simp add: flow_inv_def)
qed

text \<open>A change of one entry that keeps the accounting keeps the invariant.\<close>

lemma flow_inv_update:
  assumes "flow_inv s" "credit_ok c'" "n \<le> MAX_FETCH_STREAM_IN_FLIGHT_BYTES"
    and "n + (case om_get (fl_requests s) key of None \<Rightarrow> 0 | Some c \<Rightarrow> outstanding key c) = fl_in_flight s + outstanding key c'"
  shows "flow_inv (s\<lparr>fl_requests := om_insert key c' (fl_requests s), fl_in_flight := n\<rparr>)"
  using assms om_weight_insert [of "fl_requests s" outstanding key c']
  by (auto simp: flow_inv_def split: option.splits)

lemma flow_inv_update_same:
  assumes "flow_inv s" "credit_ok c'"
    and "(case om_get (fl_requests s) key of None \<Rightarrow> 0 | Some c \<Rightarrow> outstanding key c) = outstanding key c'"
  shows "flow_inv (s\<lparr>fl_requests := om_insert key c' (fl_requests s)\<rparr>)"
  using flow_inv_update [of s c' "fl_in_flight s" key] assms by (simp add: flow_inv_def)

definition step_safe :: "(flow_error + 'a) \<times> fetch_flow \<Rightarrow> bool" where
  "step_safe r \<longleftrightarrow> fst r \<noteq> Inl FlowPanic \<and> flow_inv (snd r)"

lemma register_safe: "flow_inv s \<Longrightarrow> step_safe (flow_register d i limited s)"
  by (auto simp: step_safe_def flow_register_def om_contains_def credit_ok_def outstanding_def intro!: flow_inv_update_same)

lemma mark_safe: "flow_inv s \<Longrightarrow> flow_inv (flow_mark_prioritized d i s)"
  using flow_inv_get [of s "(d, i)"]
  by (auto simp: flow_mark_prioritized_def credit_ok_def outstanding_def split: option.splits intro!: flow_inv_update_same)

lemma spend_safe:
  assumes "flow_inv s" "om_get (fl_requests s) key = Some c"
    and "cr_limited c \<Longrightarrow> cr_reserved c - cr_consumed c + n \<le> MAX_FETCH_STREAM_WINDOW_BYTES \<and> fl_in_flight s + n \<le> MAX_FETCH_STREAM_IN_FLIGHT_BYTES"
  shows "step_safe (flow_spend key c n s)"
proof (cases "cr_reserved c + n mod 2 ^ 32 > u32_max")
  case False
  note c = flow_inv_get [OF assms(1,2)]
  show ?thesis
  proof (cases "cr_limited c")
    case True
    with assms(3) have n: "n mod 2 ^ 32 = n" by (simp add: limit_simps)
    have "flow_inv (s\<lparr>fl_requests := om_insert key (c\<lparr>cr_reserved := cr_reserved c + n\<rparr>) (fl_requests s), fl_in_flight := fl_in_flight s + n\<rparr>)"
      using True assms c False n by (intro flow_inv_update) (auto simp: credit_ok_def outstanding_def)
    with True False n show ?thesis by (simp add: flow_spend_def step_safe_def)
  next
    case unlimited: False
    have "flow_inv (s\<lparr>fl_requests := om_insert key (c\<lparr>cr_reserved := cr_reserved c + n mod 2 ^ 32\<rparr>) (fl_requests s)\<rparr>)"
      using unlimited assms(1,2) c False by (intro flow_inv_update_same) (auto simp: credit_ok_def outstanding_def)
    with unlimited False show ?thesis by (simp add: flow_spend_def step_safe_def)
  qed
qed (use assms(1) in \<open>simp add: flow_spend_def step_safe_def\<close>)

lemma try_reserve_safe: "flow_inv s \<Longrightarrow> step_safe (flow_try_reserve d i offset n s)"
  using spend_safe [of s "(d, i)"] flow_inv_get [of s "(d, i)"]
  by (auto simp: flow_try_reserve_def fits_window_ok step_safe_def split: option.splits)

lemma reserve_safe: "flow_inv s \<Longrightarrow> step_safe (flow_reserve p s)"
  using try_reserve_safe [of s "pr_document p" "pr_request p" "pr_offset p" "pr_bytes p"]
  by (auto simp: flow_reserve_def reserve_pass_is_try_reserve step_safe_def split: prod.splits)

lemma resume_safe: "flow_inv s \<Longrightarrow> step_safe (flow_resume k s)"
  by (auto simp: flow_resume_def reserve_safe) (simp add: step_safe_def)

lemma wake_safe: "flow_inv s \<Longrightarrow> flow_inv (flow_wake k s)"
  by (simp add: flow_wake_def)

lemma consume_safe:
  assumes "flow_inv s"
  shows "step_safe (flow_consume d i received s)"
proof (cases "om_get (fl_requests s) (d, i)")
  case (Some c)
  note c = flow_inv_get [OF assms Some]
  show ?thesis
  proof (cases "received < cr_consumed c \<or> received > cr_reserved c")
    case False
    then have ok: "credit_ok (c\<lparr>cr_consumed := received\<rparr>)" using c(1) by (auto simp: credit_ok_def)
    show ?thesis
    proof (cases "cr_limited c")
      case True
      with c False have freed: "received - cr_consumed c \<le> fl_in_flight s" by (auto simp: outstanding_def)
      have "flow_inv (s\<lparr>fl_requests := om_insert (d, i) (c\<lparr>cr_consumed := received\<rparr>) (fl_requests s),
          fl_in_flight := fl_in_flight s - (received - cr_consumed c)\<rparr>)"
        using assms ok Some True False freed c by (intro flow_inv_update) (auto simp: outstanding_def flow_inv_def)
      with Some True False freed show ?thesis by (auto simp: flow_consume_def step_safe_def Let_def)
    next
      case unlimited: False
      have "flow_inv (s\<lparr>fl_requests := om_insert (d, i) (c\<lparr>cr_consumed := received\<rparr>) (fl_requests s)\<rparr>)"
        using assms ok Some unlimited by (intro flow_inv_update_same) (auto simp: outstanding_def)
      with Some unlimited False show ?thesis by (auto simp: flow_consume_def step_safe_def Let_def)
    qed
  qed (use assms Some in \<open>auto simp: flow_consume_def step_safe_def\<close>)
qed (use assms in \<open>simp add: flow_consume_def step_safe_def\<close>)

lemma retire_safe:
  assumes "flow_inv s"
  shows "step_safe (flow_retire d i s)"
proof (cases "om_get (fl_requests s) (d, i)")
  case (Some c)
  note c = flow_inv_get [OF assms Some]
  have "om_weight outstanding (om_remove (d, i) (fl_requests s)) + outstanding (d, i) c = fl_in_flight s"
    using om_weight_remove [of "fl_requests s" outstanding "(d, i)"] Some assms by (simp add: flow_inv_def)
  then have weight: "om_weight outstanding (om_remove (d, i) (fl_requests s)) = fl_in_flight s - outstanding (d, i) c" by simp
  with assms have inv: "flow_inv (s\<lparr>fl_requests := om_remove (d, i) (fl_requests s), fl_in_flight := fl_in_flight s - outstanding (d, i) c\<rparr>)"
    by (auto simp: flow_inv_def)
  have "cr_consumed c \<le> cr_reserved c" using c(1) by (simp add: credit_ok_def)
  with inv Some c(2) show ?thesis
    by (auto simp: flow_retire_def step_safe_def Let_def outstanding_def)
qed (use assms in \<open>simp add: flow_retire_def step_safe_def\<close>)

lemma step_safe_map [simp]: "step_safe (map_prod (map_sum id f) id r) \<longleftrightarrow> step_safe r"
  by (cases r; cases "fst r") (auto simp: step_safe_def)

lemma clear_safe: "flow_inv (flow_clear s)"
  unfolding flow_clear_def flow_inv_producers by (simp add: flow_inv_def om_weight_def)

lemma step_safe_now: "step_safe (Inr x, s) \<longleftrightarrow> flow_inv s"
  by (simp add: step_safe_def)

lemma flow_step_safe: "flow_inv s \<Longrightarrow> step_safe (flow_step ev s)"
  by (cases ev) (simp_all add: flow_step_def register_safe reserve_safe resume_safe wake_safe try_reserve_safe
      consume_safe retire_safe mark_safe clear_safe step_safe_now)

lemma flow_run_state: "snd (flow_run (ev # evs) s) = snd (flow_run evs (snd (flow_step ev s)))"
  by (simp split: prod.splits)

lemma flow_run_safe:
  "flow_inv s \<Longrightarrow> Inl FlowPanic \<notin> set (fst (flow_run evs s)) \<and> flow_inv (snd (flow_run evs s))"
proof (induction evs arbitrary: s)
  case (Cons ev evs)
  have "step_safe (flow_step ev s)" using Cons.prems by (rule flow_step_safe)
  with Cons.IH [of "snd (flow_step ev s)"] show ?case
    by (auto simp: step_safe_def split: prod.splits)
qed simp

section \<open>Nobody sleeps while there is room\<close>

text \<open>A producer sleeps only while its response is limited and its chunk does not fit.\<close>

definition no_room :: "fetch_flow \<Rightarrow> producer \<Rightarrow> bool" where
  "no_room s p \<longleftrightarrow> (\<exists>c. om_get (fl_requests s) (pr_document p, pr_request p) = Some c \<and> cr_limited c \<and>
     (cr_reserved c - cr_consumed c + pr_bytes p > MAX_FETCH_STREAM_WINDOW_BYTES \<or>
      fl_in_flight s + pr_bytes p > MAX_FETCH_STREAM_IN_FLIGHT_BYTES))"

definition asleep_inv :: "fetch_flow \<Rightarrow> bool" where
  "asleep_inv s \<longleftrightarrow> list_all (no_room s) (fl_asleep s)"

lemma asleep_notified [simp]: "asleep_inv (flow_notify_all s)"
  by (simp add: asleep_inv_def)

text \<open>What has been reserved in the meantime makes no room.\<close>

lemma asleep_grows:
  assumes "asleep_inv s" "flow_inv s" "fl_asleep s' = fl_asleep s" "fl_in_flight s \<le> fl_in_flight s'"
    and "\<And>key c. om_get (fl_requests s) key = Some c \<Longrightarrow>
      \<exists>c'. om_get (fl_requests s') key = Some c' \<and> cr_limited c' = cr_limited c \<and>
        cr_consumed c' = cr_consumed c \<and> cr_reserved c \<le> cr_reserved c'"
  shows "asleep_inv s'"
  unfolding asleep_inv_def list_all_iff
proof
  fix p assume "p \<in> set (fl_asleep s')"
  with assms(1,3) obtain c where c: "om_get (fl_requests s) (pr_document p, pr_request p) = Some c" "cr_limited c"
    "cr_reserved c - cr_consumed c + pr_bytes p > MAX_FETCH_STREAM_WINDOW_BYTES \<or>
     fl_in_flight s + pr_bytes p > MAX_FETCH_STREAM_IN_FLIGHT_BYTES"
    by (auto simp: asleep_inv_def list_all_iff no_room_def)
  from assms(5) [OF c(1)] obtain c' where c': "om_get (fl_requests s') (pr_document p, pr_request p) = Some c'"
    "cr_limited c' = cr_limited c" "cr_consumed c' = cr_consumed c" "cr_reserved c \<le> cr_reserved c'" by blast
  then have "cr_reserved c - cr_consumed c \<le> cr_reserved c' - cr_consumed c'" by simp
  with c c' assms(4) show "no_room s' p" unfolding no_room_def by (intro exI [of _ c']) linarith
qed

lemma asleep_spend:
  assumes "asleep_inv s" "flow_inv s" "om_get (fl_requests s) key = Some c"
  shows "asleep_inv (snd (flow_spend key c n s))" "fl_asleep (snd (flow_spend key c n s)) = fl_asleep s"
proof -
  show "asleep_inv (snd (flow_spend key c n s))"
    using assms(3) by (intro asleep_grows [OF assms(1,2)]) (auto simp: flow_spend_def)
  show "fl_asleep (snd (flow_spend key c n s)) = fl_asleep s" by (simp add: flow_spend_def)
qed

lemma asleep_try_reserve: "asleep_inv s \<Longrightarrow> flow_inv s \<Longrightarrow> asleep_inv (snd (flow_try_reserve d i offset n s))"
  using asleep_spend(1) [of s "(d, i)"]
  by (auto simp: flow_try_reserve_def split: option.splits sum.splits)

lemma waits_without_room:
  assumes "flow_inv s" "flow_reserve_pass (pr_document p) (pr_request p) (pr_offset p) (pr_bytes p) s = (Inr False, s')"
  shows "s' = s \<and> no_room s p"
proof (cases "om_get (fl_requests s) (pr_document p, pr_request p)")
  case (Some c)
  from assms(2) flow_inv_get(1) [OF assms(1) Some] Some show ?thesis
    by (auto simp: flow_reserve_pass_def fits_window_ok flow_spend_def no_room_def split: if_splits)
qed (use assms(2) in \<open>simp add: flow_reserve_pass_def\<close>)

lemma asleep_reserve:
  assumes "asleep_inv s" "flow_inv s"
  shows "asleep_inv (snd (flow_reserve p s))"
proof -
  obtain r s' where pass: "flow_reserve_pass (pr_document p) (pr_request p) (pr_offset p) (pr_bytes p) s = (r, s')" by fastforce
  have "asleep_inv s'" using asleep_try_reserve [OF assms] pass by (metis reserve_pass_is_try_reserve snd_conv)
  moreover have "asleep_inv (s'\<lparr>fl_asleep := fl_asleep s' @ [p]\<rparr>)" if "r = Inr False"
  proof -
    from waits_without_room [OF assms(2)] pass that have "s' = s" "no_room s p" by blast+
    with assms(1) show ?thesis by (auto simp: asleep_inv_def no_room_def list_all_iff)
  qed
  ultimately show ?thesis using pass by (simp add: flow_reserve_def)
qed

lemma asleep_register: "asleep_inv s \<Longrightarrow> flow_inv s \<Longrightarrow> asleep_inv (snd (flow_register d i limited s))"
  by (erule (1) asleep_grows) (auto simp: flow_register_def om_contains_def)

lemma asleep_mark: "asleep_inv s \<Longrightarrow> flow_inv s \<Longrightarrow> asleep_inv (flow_mark_prioritized d i s)"
  by (erule (1) asleep_grows) (auto simp: flow_mark_prioritized_def split: option.splits)

lemma asleep_consume: "asleep_inv s \<Longrightarrow> flow_inv s \<Longrightarrow> asleep_inv (snd (flow_consume d i received s))"
  using consume_safe [of s d i received] flow_inv_get [of s "(d, i)"]
  by (auto simp: flow_consume_def Let_def outstanding_def credit_ok_def split: option.splits)

lemma asleep_retire: "asleep_inv s \<Longrightarrow> flow_inv s \<Longrightarrow> asleep_inv (snd (flow_retire d i s))"
  using flow_inv_get [of s "(d, i)"]
  by (auto simp: flow_retire_def Let_def outstanding_def credit_ok_def split: option.splits)

lemma asleep_fewer: "asleep_inv s \<Longrightarrow> set ps \<subseteq> set (fl_asleep s) \<Longrightarrow> asleep_inv (s\<lparr>fl_asleep := ps\<rparr>)"
  by (auto simp: asleep_inv_def no_room_def list_all_iff)

lemma asleep_awake [simp]: "asleep_inv (s\<lparr>fl_awake := qs\<rparr>) = asleep_inv s"
  by (simp add: asleep_inv_def no_room_def [abs_def])

lemma set_remove_nth: "set (remove_nth k xs) \<subseteq> set xs"
  by (auto simp: remove_nth_def dest: in_set_takeD in_set_dropD)

lemma asleep_resume: "asleep_inv s \<Longrightarrow> flow_inv s \<Longrightarrow> asleep_inv (snd (flow_resume k s))"
  by (auto simp: flow_resume_def intro: asleep_reserve)

lemma asleep_wake: "asleep_inv s \<Longrightarrow> asleep_inv (flow_wake k s)"
  by (simp add: flow_wake_def asleep_fewer set_remove_nth)

lemma asleep_step: "asleep_inv s \<Longrightarrow> flow_inv s \<Longrightarrow> asleep_inv (snd (flow_step ev s))"
  by (cases ev) (auto simp: flow_step_def asleep_register asleep_mark asleep_reserve asleep_resume asleep_wake asleep_try_reserve
      asleep_consume asleep_retire flow_clear_def)

lemma asleep_run: "asleep_inv s \<Longrightarrow> flow_inv s \<Longrightarrow> asleep_inv (snd (flow_run evs s))"
proof (induction evs arbitrary: s)
  case (Cons ev evs)
  have "flow_inv (snd (flow_step ev s))" using flow_step_safe [OF Cons.prems(2)] by (simp add: step_safe_def)
  from Cons.IH [OF asleep_step [OF Cons.prems] this] show ?case by (simp add: flow_run_state del: flow_run.simps)
qed simp

lemma asleep_default: "asleep_inv flow_default"
  by (simp add: asleep_inv_def flow_default_def)

section \<open>Receipts release waiting producers\<close>

text \<open>Receipts for everything the table has reserved.\<close>

definition all_receipts :: "(u64 \<times> u64, credit) omap \<Rightarrow> flow_event list" where
  "all_receipts m = map (\<lambda>(key, c). Consume (fst key) (snd key) (cr_reserved c)) m"

lemma consume_reserved:
  assumes "flow_inv s" "om_get (fl_requests s) (d, i) = Some c"
  shows "snd (flow_consume d i (cr_reserved c) s)
     = flow_notify_all (s\<lparr>fl_requests := om_insert (d, i) (c\<lparr>cr_consumed := cr_reserved c\<rparr>) (fl_requests s),
         fl_in_flight := fl_in_flight s - outstanding (d, i) c\<rparr>)"
  using flow_inv_get [OF assms] assms(2) by (auto simp: flow_consume_def Let_def outstanding_def credit_ok_def)

lemma receipts_effect:
  assumes "flow_inv s" "distinct (map fst m)" "\<forall>(key, c)\<in>set m. om_get (fl_requests s) key = Some c"
  shows "om_get (fl_requests (snd (flow_run (all_receipts m) s))) key
     = map_option (\<lambda>c. if key \<in> fst ` set m then c\<lparr>cr_consumed := cr_reserved c\<rparr> else c) (om_get (fl_requests s) key)"
  using assms
proof (induction m arbitrary: s)
  case (Cons e m)
  obtain d i c where e: "e = ((d, i), c)" by (metis prod.exhaust)
  with Cons.prems have get: "om_get (fl_requests s) (d, i) = Some c" by simp
  let ?s = "snd (flow_consume d i (cr_reserved c) s)"
  note s = consume_reserved [OF Cons.prems(1) get]
  have inv: "flow_inv ?s" using consume_safe [OF Cons.prems(1)] by (simp add: step_safe_def)
  have rest: "\<forall>(key, c)\<in>set m. om_get (fl_requests ?s) key = Some c"
    using Cons.prems(2,3) e s by (auto simp: rev_image_eqI)
  have "snd (flow_run (all_receipts (e # m)) s) = snd (flow_run (all_receipts m) ?s)"
    by (simp add: all_receipts_def e flow_run_state flow_step_def del: flow_run.simps)
  with Cons.IH [OF inv _ rest] Cons.prems(2) e s get show ?case
    by (auto simp: rev_image_eqI)
qed (auto simp: all_receipts_def option.map_ident)

lemma weight_all_zero:
  assumes "om_wf m" "\<And>key c. om_get m key = Some c \<Longrightarrow> w key c = 0"
  shows "om_weight w m = (0::nat)"
  using assms om_get_mem [OF assms(1)] by (force simp: om_weight_def)

lemma receipts_drain:
  assumes "flow_inv s"
  shows "fl_in_flight (snd (flow_run (all_receipts (fl_requests s)) s)) = 0"
    and "om_get (fl_requests (snd (flow_run (all_receipts (fl_requests s)) s))) key
      = map_option (\<lambda>c. c\<lparr>cr_consumed := cr_reserved c\<rparr>) (om_get (fl_requests s) key)"
proof -
  let ?s = "snd (flow_run (all_receipts (fl_requests s)) s)"
  have wf: "om_wf (fl_requests s)" using assms by (simp add: flow_inv_def)
  have mem: "om_get (fl_requests s) k = Some c \<longleftrightarrow> (k, c) \<in> set (fl_requests s)" for k c by (rule om_get_mem [OF wf])
  show get: "om_get (fl_requests ?s) key = map_option (\<lambda>c. c\<lparr>cr_consumed := cr_reserved c\<rparr>) (om_get (fl_requests s) key)" for key
  proof (cases "om_get (fl_requests s) key")
    case (Some c)
    then have "key \<in> fst ` set (fl_requests s)" using mem [of key c] by force
    with Some show ?thesis using receipts_effect [OF assms om_wf_distinct [OF wf], of key] mem by auto
  qed (use receipts_effect [OF assms om_wf_distinct [OF wf], of key] mem in auto)
  have inv: "flow_inv ?s" using flow_run_safe [OF assms] by blast
  have "om_weight outstanding (fl_requests ?s) = 0"
    using inv get by (intro weight_all_zero) (auto simp: flow_inv_def outstanding_def)
  with inv show "fl_in_flight ?s = 0" by (simp add: flow_inv_def)
qed

text \<open>A receipt leaves no producer behind: it is still asleep or it is awake.\<close>

lemma consume_wakes:
  "p \<in> set (fl_asleep s) \<or> p \<in> set (fl_awake s) \<Longrightarrow>
   p \<in> set (fl_asleep (snd (flow_consume d i n s))) \<or> p \<in> set (fl_awake (snd (flow_consume d i n s)))"
  by (auto simp: flow_consume_def Let_def split: option.splits sum.splits)

lemma receipts_wake:
  assumes "p \<in> set (fl_asleep s) \<or> p \<in> set (fl_awake s)" "list_all (\<lambda>ev. \<exists>d i n. ev = Consume d i n) evs"
  shows "p \<in> set (fl_asleep (snd (flow_run evs s))) \<or> p \<in> set (fl_awake (snd (flow_run evs s)))"
  using assms
proof (induction evs arbitrary: s)
  case (Cons ev evs)
  then obtain d i n where ev: "ev = Consume d i n" by auto
  from Cons.IH [OF consume_wakes [OF Cons.prems(1), of d i n]] Cons.prems(2) show ?case
    by (simp add: ev flow_run_state flow_step_def del: flow_run.simps)
qed simp

section \<open>Properties\<close>

text \<open>C26: Whatever the network threads reserve and whatever totals a renderer claims to have consumed, the credit table
  never underflows; the bytes in flight are the unacknowledged bytes of the limited responses and stay within 4 MiB;
  no response has more than 256 KiB of them, and none acknowledges more than was reserved.\<close>

theorem credit_stays_within_bounds:
  "Inl FlowPanic \<notin> set (fst (flow_run evs flow_default))
    \<and> fl_in_flight (snd (flow_run evs flow_default)) = om_weight outstanding (fl_requests (snd (flow_run evs flow_default)))
    \<and> fl_in_flight (snd (flow_run evs flow_default)) \<le> MAX_FETCH_STREAM_IN_FLIGHT_BYTES
    \<and> list_all (\<lambda>e. credit_ok (snd e)) (fl_requests (snd (flow_run evs flow_default)))"
  using flow_run_safe [OF flow_inv_default, of evs]
  by (auto simp: flow_inv_def list_all_iff om_get_mem)

text \<open>C27: No wake-up is lost. However the producers, the renderer's receipts, retirements and spurious wake-ups
  interleave, a producer is left asleep only while its response is registered and limited and its chunk does not fit
  into the room left; and once the renderer has acknowledged what was reserved, every producer that slept with a chunk
  of at most 256 KiB is awake, and the next pass of its loop grants the chunk, provided its offset is the one reached
  and the response's total stays within 32 bits (beyond it the code reports an error).\<close>

theorem receipts_release_producers:
  assumes "flow_run evs flow_default = (rs, s)" "snd (flow_run (all_receipts (fl_requests s)) s) = s'"
    and "p \<in> set (fl_asleep s)"
  shows "no_room s p \<and>
    (pr_bytes p \<le> MAX_FETCH_STREAM_WINDOW_BYTES \<longrightarrow>
       p \<notin> set (fl_asleep s') \<and> p \<in> set (fl_awake s') \<and>
       (\<forall>c. om_get (fl_requests s) (pr_document p, pr_request p) = Some c \<longrightarrow>
          cr_reserved c = pr_offset p \<longrightarrow> pr_offset p + pr_bytes p \<le> u32_max \<longrightarrow> fst (flow_reserve p s') = Inr True))"
proof -
  have inv: "flow_inv s" "asleep_inv s"
    using flow_run_safe [OF flow_inv_default, of evs] asleep_run [OF asleep_default flow_inv_default, of evs] assms(1) by simp_all
  note drained = receipts_drain [OF inv(1)]
  have "asleep_inv s'" using asleep_run [OF inv(2,1)] assms(2) by blast
  then have room: "\<not> pr_bytes p \<le> MAX_FETCH_STREAM_WINDOW_BYTES" if "p \<in> set (fl_asleep s')"
    using that drained assms(2) by (auto simp: asleep_inv_def list_all_iff no_room_def limit_simps)
  have woken: "p \<in> set (fl_asleep s') \<or> p \<in> set (fl_awake s')"
  proof -
    have "list_all (\<lambda>ev. \<exists>d i n. ev = Consume d i n) (all_receipts (fl_requests s))"
      by (auto simp: all_receipts_def list_all_iff)
    with receipts_wake [of p s "all_receipts (fl_requests s)"] assms(2,3) show ?thesis by simp
  qed
  have "fst (flow_reserve p s') = Inr True"
    if "pr_bytes p \<le> MAX_FETCH_STREAM_WINDOW_BYTES" "om_get (fl_requests s) (pr_document p, pr_request p) = Some c"
      "cr_reserved c = pr_offset p" "pr_offset p + pr_bytes p \<le> u32_max" for c
  proof -
    have "pr_bytes p mod 2 ^ 32 = pr_bytes p" using that(1) by (simp add: limit_simps)
    with drained that assms(2) show ?thesis
      by (auto simp: flow_reserve_def flow_reserve_pass_def fits_window_def flow_spend_def limit_simps)
  qed
  then show ?thesis using inv(2) assms(3) room woken by (auto simp: asleep_inv_def list_all_iff)
qed

theorem receipts_release_producers_witness:
  "fst (flow_reserve \<lparr>pr_document = 1, pr_request = 2, pr_offset = 262144, pr_bytes = 65536\<rparr>
     (snd (flow_run [Consume 1 2 262144] (snd (flow_run [Register 1 2 True,
        Reserve \<lparr>pr_document = 1, pr_request = 2, pr_offset = 0, pr_bytes = 262144\<rparr>,
        Reserve \<lparr>pr_document = 1, pr_request = 2, pr_offset = 262144, pr_bytes = 65536\<rparr>] flow_default))))) = Inr True"
proof -
  let ?p = "\<lparr>pr_document = 1, pr_request = 2, pr_offset = 262144, pr_bytes = 65536\<rparr>"
  let ?evs = "[Register 1 2 True, Reserve \<lparr>pr_document = 1, pr_request = 2, pr_offset = 0, pr_bytes = 262144\<rparr>, Reserve ?p]"
  note eval = flow_step_def flow_register_def flow_default_def flow_reserve_def flow_reserve_pass_def fits_window_def flow_spend_def
    om_contains_def limit_simps u32_max_def
  obtain rs s where run: "flow_run ?evs flow_default = (rs, s)" by fastforce
  then have s: "fl_requests s = [((1, 2), \<lparr>cr_limited = True, cr_prioritized = False, cr_reserved = 262144, cr_consumed = 0\<rparr>)]"
    "fl_asleep s = [?p]"
    by (auto simp: eval)
  have "all_receipts (fl_requests s) = [Consume 1 2 262144]" by (simp add: s all_receipts_def)
  with receipts_release_producers [OF run refl, of ?p] run s show ?thesis
    by (simp add: limit_simps u32_max_def)
qed

end
