(* ===== verification/Broker_Updates.thy ===== *)
theory Broker_Updates
  imports Ipc_State
begin

text \<open>
  The slots between the browser and the broker for browser-owned state
  (\<^verbatim>\<open>renderer_process/broker/state_updates.rs\<close>): corrections of a document's cookie header and storage areas, of which
  only the newest counts, and storage deltas, of which every one counts. Each operation runs under the lock.
\<close>

section \<open>State and operations\<close>

datatype state_update =
    SyncUpdate storage_sync
  | CookieUpdate cookie_snapshot
  | StorageUpdate u64 storage_area_kind storage_area_snapshot

datatype update_error = UpdateInvalid protocol_error | SnapshotInvalid storage_error | BrokerExited

fun update_document :: "state_update \<Rightarrow> u64" where
  "update_document (SyncUpdate sync) = syn_document sync"
| "update_document (CookieUpdate s) = cks_document s"
| "update_document (StorageUpdate document area s) = document"

fun update_acknowledgement :: "state_update \<Rightarrow> snapshot_applied" where
  "update_acknowledgement (SyncUpdate sync) = sync_receipt sync"
| "update_acknowledgement (CookieUpdate s) =
     \<lparr>sap_document = cks_document s, sap_kind = CookieSnapshots, sap_version = cks_version s\<rparr>"
| "update_acknowledgement (StorageUpdate document area s) =
     \<lparr>sap_document = document,
      sap_kind = (case area of Local \<Rightarrow> LocalSnapshots | Session \<Rightarrow> SessionSnapshots),
      sap_version = of_nat (sn_version s)\<rparr>"

fun same_slot :: "state_update \<Rightarrow> state_update \<Rightarrow> bool" where
  "same_slot (CookieUpdate l) (CookieUpdate r) \<longleftrightarrow> cks_document l = cks_document r"
| "same_slot (StorageUpdate d a _) (StorageUpdate d' a' _) \<longleftrightarrow> d = d' \<and> a = a'"
| "same_slot _ _ \<longleftrightarrow> False"

record update_slots =
  us_pending :: "state_update list"
  us_in_flight :: bool
  us_blocks_tasks :: bool
  us_submitted :: nat
  us_coalesced :: nat
  us_receiver_open :: bool

definition updates_bounded :: update_slots where
  "updates_bounded = \<lparr>us_pending = [], us_in_flight = False, us_blocks_tasks = False, us_submitted = 0, us_coalesced = 0,
     us_receiver_open = True\<rparr>"

definition try_send_sync :: "storage_sync \<Rightarrow> update_slots \<Rightarrow> (update_error + bool) \<times> update_slots" where
  "try_send_sync sync s =
     (case validate_storage_sync sync of
        Inl e \<Rightarrow> (Inl (UpdateInvalid e), s)
      | Inr _ \<Rightarrow>
          if \<not> us_receiver_open s then (Inl BrokerExited, s)
          else if us_in_flight s \<or> us_pending s \<noteq> [] then (Inr False, s)
          else (Inr True, s\<lparr>us_pending := us_pending s @ [SyncUpdate sync], us_submitted := saturating_add (us_submitted s) 1\<rparr>))"

text \<open>\<^verbatim>\<open>iter_mut().find\<close> and the assignment through it.\<close>

fun replace_slot :: "state_update \<Rightarrow> state_update list \<Rightarrow> state_update list option" where
  "replace_slot u [] = None"
| "replace_slot u (p # ps) = (if same_slot p u then Some (u # ps) else map_option ((#) p) (replace_slot u ps))"

definition send_update :: "state_update \<Rightarrow> update_slots \<Rightarrow> (update_error + unit) \<times> update_slots" where
  "send_update u s =
     (if \<not> us_receiver_open s then (Inl BrokerExited, s)
      else
        let kept = filter (\<lambda>p. update_document p = update_document u) (us_pending s)
        in case replace_slot u kept of
            Some pending \<Rightarrow> (Inr (), s\<lparr>us_pending := pending, us_submitted := saturating_add (us_submitted s) 1,
              us_coalesced := saturating_add (us_coalesced s) 1\<rparr>)
          | None \<Rightarrow> (Inr (), s\<lparr>us_pending := kept @ [u], us_submitted := saturating_add (us_submitted s) 1\<rparr>))"

definition send_cookie :: "cookie_snapshot \<Rightarrow> update_slots \<Rightarrow> (update_error + unit) \<times> update_slots" where
  "send_cookie snapshot s =
     (case validate_cookie_snapshot snapshot of
        Inl e \<Rightarrow> (Inl (UpdateInvalid e), s)
      | Inr _ \<Rightarrow> send_update (CookieUpdate snapshot) s)"

definition send_storage :: "u64 \<Rightarrow> storage_area_kind \<Rightarrow> storage_area_snapshot \<Rightarrow> update_slots \<Rightarrow> (update_error + unit) \<times> update_slots" where
  "send_storage document area snapshot s =
     (case snapshot_validate snapshot of
        Inl e \<Rightarrow> (Inl (SnapshotInvalid e), s)
      | Inr _ \<Rightarrow> send_update (StorageUpdate document area snapshot) s)"

definition updates_pending :: "update_slots \<Rightarrow> nat" where
  "updates_pending s = length (us_pending s) + (if us_in_flight s then 1 else 0)"

definition take_update :: "update_slots \<Rightarrow> state_update option \<times> update_slots" where
  "take_update s =
     (if us_in_flight s then (None, s)
      else case us_pending s of
          [] \<Rightarrow> (None, s\<lparr>us_in_flight := False, us_blocks_tasks := False\<rparr>)
        | u # rest \<Rightarrow> (Some u, s\<lparr>us_pending := rest, us_in_flight := True,
            us_blocks_tasks := (case u of SyncUpdate _ \<Rightarrow> False | _ \<Rightarrow> True)\<rparr>))"

definition complete_update :: "update_slots \<Rightarrow> update_slots" where
  "complete_update s = s\<lparr>us_in_flight := False\<rparr>"

definition blocks_tasks :: "update_slots \<Rightarrow> bool" where
  "blocks_tasks s \<longleftrightarrow> (if us_in_flight s then us_blocks_tasks s else us_pending s \<noteq> [])"

definition discard_document :: "u64 \<Rightarrow> update_slots \<Rightarrow> update_slots" where
  "discard_document document s = s\<lparr>us_pending := filter (\<lambda>u. update_document u \<noteq> document) (us_pending s)\<rparr>"

definition drop_receiver :: "update_slots \<Rightarrow> update_slots" where
  "drop_receiver s = s\<lparr>us_receiver_open := False, us_pending := [], us_in_flight := False\<rparr>"

section \<open>Histories\<close>

datatype update_event =
    SendSync storage_sync | SendCookie cookie_snapshot | SendStorage u64 storage_area_kind storage_area_snapshot
  | TakeUpdate | CompleteUpdate | DiscardDocument u64 | DropReceiver

definition update_step :: "update_event \<Rightarrow> update_slots \<Rightarrow> update_slots" where
  "update_step ev s =
     (case ev of
        SendSync sync \<Rightarrow> snd (try_send_sync sync s)
      | SendCookie c \<Rightarrow> snd (send_cookie c s)
      | SendStorage d area snap \<Rightarrow> snd (send_storage d area snap s)
      | TakeUpdate \<Rightarrow> snd (take_update s)
      | CompleteUpdate \<Rightarrow> complete_update s
      | DiscardDocument d \<Rightarrow> discard_document d s
      | DropReceiver \<Rightarrow> drop_receiver s)"

definition update_run :: "update_event list \<Rightarrow> update_slots \<Rightarrow> update_slots" where
  "update_run evs s = fold update_step evs s"

text \<open>What an event hands in, and what it hands out.\<close>

definition handed_in :: "update_event \<Rightarrow> update_slots \<Rightarrow> state_update list" where
  "handed_in ev s =
     (case ev of
        SendSync sync \<Rightarrow> if fst (try_send_sync sync s) = Inr True then [SyncUpdate sync] else []
      | SendCookie c \<Rightarrow> if fst (send_cookie c s) = Inr () then [CookieUpdate c] else []
      | SendStorage d area snap \<Rightarrow> if fst (send_storage d area snap s) = Inr () then [StorageUpdate d area snap] else []
      | _ \<Rightarrow> [])"

definition handed_out :: "update_event \<Rightarrow> update_slots \<Rightarrow> state_update list" where
  "handed_out ev s = (case ev of TakeUpdate \<Rightarrow> (case fst (take_update s) of None \<Rightarrow> [] | Some u \<Rightarrow> [u]) | _ \<Rightarrow> [])"

fun all_in :: "update_event list \<Rightarrow> update_slots \<Rightarrow> state_update list" where
  "all_in [] s = []"
| "all_in (ev # evs) s = handed_in ev s @ all_in evs (update_step ev s)"

fun all_out :: "update_event list \<Rightarrow> update_slots \<Rightarrow> state_update list" where
  "all_out [] s = []"
| "all_out (ev # evs) s = handed_out ev s @ all_out evs (update_step ev s)"

section \<open>Slots\<close>

datatype update_slot = SyncSlot | CookieSlot | AreaSlot storage_area_kind

fun slot_of :: "state_update \<Rightarrow> update_slot" where
  "slot_of (SyncUpdate _) = SyncSlot"
| "slot_of (CookieUpdate _) = CookieSlot"
| "slot_of (StorageUpdate _ area _) = AreaSlot area"

text \<open>The queue holds updates of one document in distinct slots, a delta only in front of everything else.\<close>

definition slots_ok :: "state_update list \<Rightarrow> bool" where
  "slots_ok us \<longleftrightarrow> distinct (map slot_of us) \<and> list_all (\<lambda>u. update_document u = update_document (hd us)) us
     \<and> SyncSlot \<notin> slot_of ` set (tl us)"

lemma same_slot_iff:
  "update_document p = update_document u \<Longrightarrow> same_slot p u \<longleftrightarrow> slot_of p = slot_of u \<and> slot_of u \<noteq> SyncSlot"
  by (cases p; cases u) auto

lemma replace_slot_None:
  "\<forall>p\<in>set ps. update_document p = update_document u \<Longrightarrow>
     replace_slot u ps = None \<longleftrightarrow> slot_of u = SyncSlot \<or> slot_of u \<notin> slot_of ` set ps"
  by (induction ps) (auto simp: same_slot_iff)

lemma replace_slot_Some:
  assumes "replace_slot u ps = Some qs" "\<forall>p\<in>set ps. update_document p = update_document u"
  shows "\<exists>pre p post. ps = pre @ p # post \<and> qs = pre @ u # post \<and> slot_of p = slot_of u \<and> slot_of u \<noteq> SyncSlot"
  using assms
proof (induction ps arbitrary: qs)
  case (Cons p ps)
  show ?case
  proof (cases "same_slot p u")
    case True
    with Cons.prems have "p # ps = [] @ p # ps \<and> qs = [] @ u # ps \<and> slot_of p = slot_of u \<and> slot_of u \<noteq> SyncSlot"
      by (simp add: same_slot_iff)
    then show ?thesis by blast
  next
    case False
    with Cons.prems obtain qs' where "replace_slot u ps = Some qs'" "qs = p # qs'" by auto
    with Cons.IH [OF this(1)] Cons.prems(2) obtain pre x post where
      "ps = pre @ x # post" "qs' = pre @ u # post" "slot_of x = slot_of u" "slot_of u \<noteq> SyncSlot" by auto
    with \<open>qs = p # qs'\<close> have "p # ps = (p # pre) @ x # post \<and> qs = (p # pre) @ u # post \<and> slot_of x = slot_of u \<and> slot_of u \<noteq> SyncSlot"
      by simp
    then show ?thesis by blast
  qed
qed simp

lemma slots_ok_filter_document:
  assumes "slots_ok us"
  shows "filter (\<lambda>p. update_document p = d) us = (if us \<noteq> [] \<and> update_document (hd us) = d then us else [])"
    and "filter (\<lambda>p. update_document p \<noteq> d) us = (if us \<noteq> [] \<and> update_document (hd us) = d then [] else us)"
proof -
  have "update_document p = update_document (hd us)" if "p \<in> set us" for p
    using assms that by (simp add: slots_ok_def list_all_iff)
  then have "filter (\<lambda>p. update_document p = d) us = filter (\<lambda>_. update_document (hd us) = d) us"
    "filter (\<lambda>p. update_document p \<noteq> d) us = filter (\<lambda>_. update_document (hd us) \<noteq> d) us"
    by (intro filter_cong; simp)+
  then show "filter (\<lambda>p. update_document p = d) us = (if us \<noteq> [] \<and> update_document (hd us) = d then us else [])"
    "filter (\<lambda>p. update_document p \<noteq> d) us = (if us \<noteq> [] \<and> update_document (hd us) = d then [] else us)"
    by simp_all
qed

lemma slots_ok_Nil [simp]: "slots_ok []"
  by (simp add: slots_ok_def)

lemma slots_ok_single [simp]: "slots_ok [u]"
  by (simp add: slots_ok_def)

lemma slots_ok_tl: "slots_ok (u # us) \<Longrightarrow> slots_ok us"
  by (cases us) (auto simp: slots_ok_def list_all_iff)

lemma slots_ok_snoc:
  "slots_ok us \<Longrightarrow> us \<noteq> [] \<Longrightarrow> update_document (hd us) = update_document u \<Longrightarrow> slot_of u \<notin> slot_of ` set us \<Longrightarrow> slot_of u \<noteq> SyncSlot
     \<Longrightarrow> slots_ok (us @ [u])"
  by (auto simp: slots_ok_def list_all_iff)

lemma slots_ok_replace:
  "slots_ok (pre @ p # post) \<Longrightarrow> slot_of p = slot_of u \<Longrightarrow> update_document p = update_document u \<Longrightarrow> slots_ok (pre @ u # post)"
  by (cases pre) (auto simp: slots_ok_def list_all_iff)

lemma slots_ok_length: "slots_ok us \<Longrightarrow> length us \<le> 4"
proof -
  assume "slots_ok us"
  then have "length us = card (slot_of ` set us)" by (metis slots_ok_def distinct_card length_map list.set_map)
  also have "\<dots> \<le> card {SyncSlot, CookieSlot, AreaSlot Local, AreaSlot Session}"
  proof (rule card_mono)
    show "slot_of ` set us \<subseteq> {SyncSlot, CookieSlot, AreaSlot Local, AreaSlot Session}"
    proof
      fix x assume "x \<in> slot_of ` set us"
      then show "x \<in> {SyncSlot, CookieSlot, AreaSlot Local, AreaSlot Session}"
        by (cases x; cases "case x of AreaSlot a \<Rightarrow> a | _ \<Rightarrow> Local") auto
    qed
  qed simp
  also have "\<dots> = 4" by simp
  finally show ?thesis .
qed

text \<open>What \<open>send_update\<close> leaves in the queue.\<close>

lemma send_update_pending:
  assumes "slots_ok (us_pending s)" "us_receiver_open s" "slot_of u \<noteq> SyncSlot"
  obtains (replaced) pre p post where "us_pending s = pre @ p # post" "us_pending (snd (send_update u s)) = pre @ u # post"
      "slot_of p = slot_of u" "update_document p = update_document u"
  | (appended) "us_pending (snd (send_update u s)) = us_pending s @ [u]" "us_pending s \<noteq> []"
      "update_document (hd (us_pending s)) = update_document u" "slot_of u \<notin> slot_of ` set (us_pending s)"
  | (fresh) "us_pending (snd (send_update u s)) = [u]"
      "us_pending s = [] \<or> update_document (hd (us_pending s)) \<noteq> update_document u"
proof (cases "us_pending s \<noteq> [] \<and> update_document (hd (us_pending s)) = update_document u")
  case True
  then have kept: "filter (\<lambda>p. update_document p = update_document u) (us_pending s) = us_pending s"
    using slots_ok_filter_document(1) [OF assms(1)] by simp
  have docs: "\<forall>p\<in>set (us_pending s). update_document p = update_document u"
    using True assms(1) by (auto simp: slots_ok_def list_all_iff)
  show thesis
  proof (cases "replace_slot u (us_pending s)")
    case None
    with kept True assms(2,3) replace_slot_None [OF docs] show thesis
      by (intro appended) (auto simp: send_update_def Let_def)
  next
    case (Some qs)
    from replace_slot_Some [OF Some docs] obtain pre p post where
      "us_pending s = pre @ p # post" "qs = pre @ u # post" "slot_of p = slot_of u" by blast
    with Some kept assms(2) docs show thesis by (intro replaced [of pre p post]) (auto simp: send_update_def Let_def)
  qed
next
  case False
  with slots_ok_filter_document(1) [OF assms(1)] assms(2) show thesis
    by (intro fresh) (auto simp: send_update_def Let_def)
qed

lemma send_update_slots_ok:
  assumes "slots_ok (us_pending s)" "slot_of u \<noteq> SyncSlot"
  shows "slots_ok (us_pending (snd (send_update u s)))"
proof (cases "us_receiver_open s")
  case True
  show ?thesis
  proof (cases rule: send_update_pending [OF assms(1) True assms(2), case_names replaced appended fresh])
    case (replaced pre p post)
    then show ?thesis using assms(1) slots_ok_replace [of pre p post u] by simp
  next
    case appended
    then show ?thesis using slots_ok_snoc [OF assms(1), of u] assms(2) by simp
  qed simp
qed (use assms in \<open>simp add: send_update_def\<close>)

lemma update_step_slots_ok: "slots_ok (us_pending s) \<Longrightarrow> slots_ok (us_pending (update_step ev s))"
proof (cases ev)
  case TakeUpdate
  assume "slots_ok (us_pending s)"
  with TakeUpdate show ?thesis
    by (auto simp: update_step_def take_update_def dest: slots_ok_tl split: list.splits)
next
  case (DiscardDocument d)
  assume "slots_ok (us_pending s)"
  with DiscardDocument show ?thesis
    by (simp add: update_step_def discard_document_def slots_ok_filter_document)
qed (auto simp: update_step_def try_send_sync_def send_cookie_def send_storage_def send_update_slots_ok complete_update_def
    drop_receiver_def split: sum.splits)

lemma update_run_slots_ok: "slots_ok (us_pending s) \<Longrightarrow> slots_ok (us_pending (update_run evs s))"
  unfolding update_run_def by (induction evs arbitrary: s) (simp_all add: update_step_slots_ok)

section \<open>Nothing is lost\<close>

definition newest :: "update_slot \<Rightarrow> state_update list \<Rightarrow> state_update option" where
  "newest slot us = (case rev (filter (\<lambda>u. slot_of u = slot) us) of [] \<Rightarrow> None | u # _ \<Rightarrow> Some u)"

definition deltas :: "state_update list \<Rightarrow> state_update list" where
  "deltas us = filter (\<lambda>u. slot_of u = SyncSlot) us"

text \<open>Events of one document, which is neither discarded nor loses its receiver.\<close>

definition concerns :: "u64 \<Rightarrow> update_event \<Rightarrow> bool" where
  "concerns d ev \<longleftrightarrow>
     (case ev of
        SendSync sync \<Rightarrow> syn_document sync = d
      | SendCookie c \<Rightarrow> cks_document c = d
      | SendStorage d' _ _ \<Rightarrow> d' = d
      | DiscardDocument d' \<Rightarrow> d' \<noteq> d
      | DropReceiver \<Rightarrow> False
      | _ \<Rightarrow> True)"

definition nothing_lost :: "state_update list \<Rightarrow> state_update list \<Rightarrow> bool" where
  "nothing_lost seen sent \<longleftrightarrow> (\<forall>slot. newest slot seen = newest slot sent) \<and> deltas seen = deltas sent"

lemma newest_snoc: "newest slot (us @ [u]) = (if slot_of u = slot then Some u else newest slot us)"
  by (simp add: newest_def)

lemma newest_replaced:
  assumes "slot_of p = slot_of u" "slot_of u \<notin> slot_of ` set post"
  shows "newest slot (pre @ u # post) = (if slot_of u = slot then Some u else newest slot (pre @ p # post))"
proof (cases "slot_of u = slot")
  case True
  then have "filter (\<lambda>x. slot_of x = slot) post = []" using assms(2) unfolding filter_empty_conv by blast
  with True show ?thesis by (simp add: newest_def)
qed (use assms(1) in \<open>simp add: newest_def\<close>)

lemma nothing_lost_snoc: "nothing_lost seen sent \<Longrightarrow> nothing_lost (seen @ [u]) (sent @ [u])"
  by (simp add: nothing_lost_def newest_snoc deltas_def)

lemma nothing_lost_replaced:
  assumes "nothing_lost (pre @ p # post) sent" "slot_of p = slot_of u" "slot_of u \<notin> slot_of ` set post" "slot_of u \<noteq> SyncSlot"
  shows "nothing_lost (pre @ u # post) (sent @ [u])"
  unfolding nothing_lost_def
proof
  show "\<forall>slot. newest slot (pre @ u # post) = newest slot (sent @ [u])"
    using assms(1) unfolding nothing_lost_def newest_snoc newest_replaced [OF assms(2,3)] by simp
  have "deltas (pre @ u # post) = deltas (pre @ p # post)" using assms(2,4) by (simp add: deltas_def)
  then show "deltas (pre @ u # post) = deltas (sent @ [u])"
    using assms(1,4) by (simp add: nothing_lost_def deltas_def)
qed

definition all_of :: "u64 \<Rightarrow> state_update list \<Rightarrow> bool" where
  "all_of d us \<longleftrightarrow> (\<forall>u\<in>set us. update_document u = d)"

lemma send_update_keeps:
  assumes "slots_ok (us_pending s)" "all_of d (us_pending s)" "update_document u = d" "slot_of u \<noteq> SyncSlot"
    and "nothing_lost (taken @ us_pending s) sent"
  shows "all_of d (us_pending (snd (send_update u s)))"
    and "nothing_lost (taken @ us_pending (snd (send_update u s))) (sent @ (if fst (send_update u s) = Inr () then [u] else []))"
proof -
  have "all_of d (us_pending (snd (send_update u s)))
    \<and> nothing_lost (taken @ us_pending (snd (send_update u s))) (sent @ (if fst (send_update u s) = Inr () then [u] else []))"
  proof (cases "us_receiver_open s")
    case True
    then have sent: "fst (send_update u s) = Inr ()" by (simp add: send_update_def Let_def split: option.splits)
    show ?thesis
    proof (cases rule: send_update_pending [OF assms(1) True assms(4), case_names replaced appended fresh])
      case (replaced pre p post)
      then have "slot_of u \<notin> slot_of ` set post" using assms(1) by (auto simp: slots_ok_def)
      with replaced sent assms(2,3,5) nothing_lost_replaced [of "taken @ pre" p post sent u] assms(4) show ?thesis
        by (auto simp: all_of_def)
    next
      case appended
      with sent assms(2,3) nothing_lost_snoc [OF assms(5), of u] show ?thesis by (auto simp: all_of_def)
    next
      case fresh
      have "us_pending s = []"
        using fresh(2) assms(2,3) unfolding all_of_def by (metis hd_in_set)
      with fresh(1) sent assms(3) nothing_lost_snoc [OF assms(5), of u] show ?thesis by (auto simp: all_of_def)
    qed
  qed (use assms in \<open>simp add: send_update_def\<close>)
  then show "all_of d (us_pending (snd (send_update u s)))"
    "nothing_lost (taken @ us_pending (snd (send_update u s))) (sent @ (if fst (send_update u s) = Inr () then [u] else []))"
    by simp_all
qed

lemma update_step_keeps:
  assumes "slots_ok (us_pending s)" "all_of d (us_pending s)" "concerns d ev" "nothing_lost (taken @ us_pending s) sent"
  shows "all_of d (us_pending (update_step ev s))
    \<and> nothing_lost ((taken @ handed_out ev s) @ us_pending (update_step ev s)) (sent @ handed_in ev s)"
proof (cases ev)
  case (SendSync sync)
  with assms nothing_lost_snoc [OF assms(4), of "SyncUpdate sync"] show ?thesis
    by (auto simp: update_step_def handed_in_def handed_out_def try_send_sync_def concerns_def all_of_def split: sum.splits)
next
  case (SendCookie c)
  with assms send_update_keeps [OF assms(1,2) _ _ assms(4), of "CookieUpdate c"] show ?thesis
    by (auto simp: update_step_def handed_in_def handed_out_def send_cookie_def concerns_def split: sum.splits)
next
  case (SendStorage d' area snap)
  with assms send_update_keeps [OF assms(1,2) _ _ assms(4), of "StorageUpdate d' area snap"] show ?thesis
    by (auto simp: update_step_def handed_in_def handed_out_def send_storage_def concerns_def split: sum.splits)
next
  case TakeUpdate
  with assms show ?thesis
    by (auto simp: update_step_def handed_in_def handed_out_def take_update_def all_of_def split: list.splits)
next
  case (DiscardDocument d')
  with assms have "filter (\<lambda>u. update_document u \<noteq> d') (us_pending s) = us_pending s"
    by (auto simp: concerns_def all_of_def filter_id_conv)
  with DiscardDocument assms show ?thesis
    by (simp add: update_step_def handed_in_def handed_out_def discard_document_def)
qed (use assms in \<open>simp_all add: update_step_def handed_in_def handed_out_def complete_update_def concerns_def\<close>)

lemma update_run_keeps:
  assumes "slots_ok (us_pending s)" "all_of d (us_pending s)" "list_all (concerns d) evs" "nothing_lost (taken @ us_pending s) sent"
  shows "nothing_lost ((taken @ all_out evs s) @ us_pending (update_run evs s)) (sent @ all_in evs s)"
  using assms
proof (induction evs arbitrary: s taken sent)
  case (Cons ev evs)
  from update_step_keeps [OF Cons.prems(1,2) _ Cons.prems(4), of ev] Cons.prems(3)
  have step: "all_of d (us_pending (update_step ev s))"
    "nothing_lost ((taken @ handed_out ev s) @ us_pending (update_step ev s)) (sent @ handed_in ev s)" by simp_all
  from Cons.IH [OF update_step_slots_ok [OF Cons.prems(1)] step(1) _ step(2)] Cons.prems(3) show ?case
    by (simp add: update_run_def)
qed (simp add: update_run_def)

section \<open>Properties\<close>

text \<open>A page that produces state changes in bursts cannot grow the queue: at most four updates wait, one delta and
  one correction per slot, all of them for one document.\<close>

theorem state_updates_stay_bounded:
  "length (us_pending (update_run evs updates_bounded)) \<le> 4
    \<and> distinct (map slot_of (us_pending (update_run evs updates_bounded)))
    \<and> length (remdups (map update_document (us_pending (update_run evs updates_bounded)))) \<le> 1"
proof -
  have ok: "slots_ok (us_pending (update_run evs updates_bounded))"
    by (rule update_run_slots_ok) (simp add: updates_bounded_def)
  then have "set (map update_document (us_pending (update_run evs updates_bounded)))
      \<subseteq> {update_document (hd (us_pending (update_run evs updates_bounded)))}"
    by (auto simp: slots_ok_def list_all_iff)
  then have "card (set (map update_document (us_pending (update_run evs updates_bounded)))) \<le> 1"
    using card_mono [of "{update_document (hd (us_pending (update_run evs updates_bounded)))}"] by fastforce
  with ok slots_ok_length [OF ok] show ?thesis by (simp add: slots_ok_def length_remdups_card_conv)
qed

text \<open>C28: While a document stays, no correction and no delta of its state is lost: what the broker has taken, followed by
  what still waits, contains every accepted delta in order, and for the cookie header and each storage area it ends
  with the newest accepted correction.\<close>

theorem state_updates_are_not_lost:
  assumes "list_all (concerns d) evs"
  shows "deltas (all_out evs updates_bounded @ us_pending (update_run evs updates_bounded)) = deltas (all_in evs updates_bounded)
    \<and> newest slot (all_out evs updates_bounded @ us_pending (update_run evs updates_bounded)) = newest slot (all_in evs updates_bounded)"
  using update_run_keeps [of updates_bounded d evs "[]" "[]"] assms
  by (simp add: updates_bounded_def all_of_def nothing_lost_def)

theorem state_updates_are_not_lost_witness:
  "newest CookieSlot (all_out [SendCookie \<lparr>cks_document = 1, cks_version = 2, cks_header = ''a''\<rparr>,
      SendCookie \<lparr>cks_document = 1, cks_version = 3, cks_header = ''b''\<rparr>, TakeUpdate] updates_bounded
    @ us_pending (update_run [SendCookie \<lparr>cks_document = 1, cks_version = 2, cks_header = ''a''\<rparr>,
      SendCookie \<lparr>cks_document = 1, cks_version = 3, cks_header = ''b''\<rparr>, TakeUpdate] updates_bounded))
    = Some (CookieUpdate \<lparr>cks_document = 1, cks_version = 3, cks_header = ''b''\<rparr>)"
proof -
  let ?evs = "[SendCookie \<lparr>cks_document = 1, cks_version = 2, cks_header = ''a''\<rparr>,
      SendCookie \<lparr>cks_document = 1, cks_version = 3, cks_header = ''b''\<rparr>, TakeUpdate]"
  have "newest CookieSlot (all_in ?evs updates_bounded) = Some (CookieUpdate \<lparr>cks_document = 1, cks_version = 3, cks_header = ''b''\<rparr>)"
    by (simp add: newest_def handed_in_def send_cookie_def validate_cookie_snapshot_def valid_when_def limit_simps send_update_def
        updates_bounded_def update_step_def Let_def take_update_def)
  then show ?thesis using state_updates_are_not_lost [of 1 ?evs CookieSlot] by (simp add: concerns_def)
qed

end
