(* ===== verification/Spec2Isabelle.thy ===== *)
theory Spec2Isabelle
  imports Storage_Convergence Idb_Worker Fetch_Chains Child_Connection Broker_Flow Broker_Updates
begin

text \<open>
  Verification of the state the Breeze browser process owns on behalf of its sandboxed renderers: Web
  Storage, IndexedDB, the Cache API, cookies, the HTTP cache, and the fetch pipeline with the policies
  that decide what a renderer may ask the network for and what it may read of the answer; and of the
  protocol between the two, from the bytes of a field to the documents a renderer loads.

  The program. Breeze is a web browser in Rust (\<^verbatim>\<open>src/src\<close> and \<^verbatim>\<open>src/crates\<close>). Pages run in renderer
  processes; the browser process holds everything that outlives a page or belongs to more than one of them,
  and treats what a renderer sends as untrusted. The parts modelled here and how they work together:

  \<^item> Foundations. \<open>Prelude\<close> (results as sums, checked and saturating arithmetic, three-way comparisons),
    \<open>Rust_Str\<close>, \<open>Ordered_Map\<close>, \<open>Binary_Search\<close>, \<open>Float64\<close>, \<open>Ip_Addr\<close> (the standard library the code
    calls), \<open>Json\<close> (the value type of \<^verbatim>\<open>serde_json\<close>), \<open>Recoverable_File\<close> (the write, backup and rename
    protocol four stores share, on a file system whose calls may fail or be cut off at any point).
  \<^item> URLs and origins. \<open>Web_Url\<close> (\<^verbatim>\<open>src/navigation.rs\<close>, \<^verbatim>\<open>src/fetch/url.rs\<close>), \<open>Url_Resolution\<close>
    (\<^verbatim>\<open>src/navigation/web_url.rs\<close>, \<^verbatim>\<open>resolved_urls.rs\<close>); \<open>Sample_Urls\<close> is an instance for the examples.
  \<^item> Web Storage. \<open>Storage_String\<close>, \<open>Storage_Area\<close> (\<^verbatim>\<open>src/storage.rs\<close>, \<^verbatim>\<open>storage/area.rs\<close>,
    \<^verbatim>\<open>synchronization.rs\<close>): UTF-16 strings, the versioned area with its quotas, mutations and updates.
    \<open>Storage_Local\<close> (\<^verbatim>\<open>changes.rs\<close>, \<^verbatim>\<open>persistence.rs\<close>): batches with rollback and the profile file.
    \<open>Storage_Projection\<close> (\<^verbatim>\<open>projection.rs\<close>): the renderer's optimistic copy. \<open>Storage_Coordinator\<close>
    (\<^verbatim>\<open>coordinator.rs\<close>): the authority, with a heap of subscriptions and their bounded queues.
    \<open>Storage_Convergence\<close> puts the authority, the documents and the messages between them into one
    transition system.
  \<^item> IndexedDB and the Cache API. \<open>Idb_Key\<close>, \<open>Idb_Index\<close>, \<open>Idb_Store\<close>, \<open>Idb_Model\<close> (\<^verbatim>\<open>src/indexed_db\<close>):
    keys and their order, index views, object stores, databases and staged sessions. \<open>Idb_History\<close>:
    sequences of calls. \<open>Cache_Storage\<close> (\<^verbatim>\<open>src/cache_storage\<close>), \<open>Storage_Manager\<close> (\<^verbatim>\<open>storage_manager.rs\<close>),
    and \<open>Idb_Worker\<close> (\<^verbatim>\<open>windows_app/renderer_fetch/database\<close>): the one thread that serves them all from a queue.
  \<^item> Fetch policy. \<open>Fetch_Headers\<close>, \<open>Fetch_Types\<close>, \<open>Csp_Sources\<close>, \<open>Csp\<close>, \<open>Fetch_Request\<close>, \<open>Fetch_Cors\<close>
    (\<^verbatim>\<open>src/fetch\<close>): header lists, bodies and signals, Content Security Policy, request validation, CORS.
  \<^item> Network state. \<open>Cookie_Parse\<close>, \<open>Cookie_Store\<close> (\<^verbatim>\<open>src/winhttp/cookies\<close>), \<open>Http_Cache\<close>
    (\<^verbatim>\<open>winhttp/pipeline/cache.rs\<close>), \<open>Fetch_Stream\<close> (\<^verbatim>\<open>client.rs\<close>, \<^verbatim>\<open>pipeline/stream.rs\<close>: bodies).
  \<^item> The pipeline. \<open>Fetch_Metadata\<close>, \<open>Fetch_Pipeline\<close> (\<^verbatim>\<open>winhttp/pipeline.rs\<close>, \<^verbatim>\<open>pipeline/metadata.rs\<close>,
    \<^verbatim>\<open>pipeline/stream.rs\<close>) compose all of this into a fetch with preflights and redirects; \<open>Fetch_Hops\<close> holds a
    weakest-precondition calculus for its steps, \<open>Fetch_Security\<close> the properties of whole fetches,
    \<open>Fetch_Chains\<close> runs of it on concrete servers.
  \<^item> The renderer protocol (\<^verbatim>\<open>src/renderer_protocol\<close>). \<open>Wire\<close> has the fields of \<^verbatim>\<open>wire.rs\<close>, \<open>Wire_Format\<close> a
    calculus of exact readers. \<open>Ipc_Fields\<close>, \<open>Ipc_Values\<close>, \<open>Ipc_Services\<close>, \<open>Ipc_Media\<close>, \<open>Ipc_Channels\<close>,
    \<open>Ipc_Files\<close>, \<open>Ipc_Video\<close>, \<open>Ipc_State\<close>, \<open>Ipc_Documents\<close>, \<open>Ipc_Fetch\<close>, \<open>Ipc_Input\<close> and \<open>Ipc_Runtime\<close> hold
    the payloads of the messages with their validation (the files of the same names and of \<^verbatim>\<open>codec/payload\<close>),
    \<open>Ipc_Kinds\<close>, \<open>Ipc_Browser_Messages\<close> and \<open>Ipc_Renderer_Messages\<close> the messages of each direction by their
    kind (\<^verbatim>\<open>message.rs\<close>, \<^verbatim>\<open>codec/payload.rs\<close>). \<open>Ipc_Frames\<close> (\<^verbatim>\<open>codec.rs\<close>) is the frame with its session and sequence
    numbers, \<open>Ipc_Session\<close> a stream of whole messages, \<open>Ipc_Selection\<close> a file selection from end to end.
  \<^item> The two ends of a renderer's pipe (\<^verbatim>\<open>src/renderer_process\<close>). In the broker, \<open>Broker_Outbound\<close>
    (\<^verbatim>\<open>outbound.rs\<close>) is the mailbox with its writing thread, \<open>Broker_Flow\<close> (\<^verbatim>\<open>flow.rs\<close>) the credit of streamed
    responses with the producers that sleep on its condition variable, \<open>Broker_Updates\<close> (\<^verbatim>\<open>state_updates.rs\<close>) the
    slots for corrections. \<open>Document_Transfer\<close> has what is sent for a document (\<^verbatim>\<open>transfer.rs\<close>) and the parts the
    renderer makes of it (\<^verbatim>\<open>child/connection/state.rs\<close>, \<^verbatim>\<open>text_decode/stream.rs\<close>), \<open>Child_Connection\<close> the connection
    of the renderer (\<^verbatim>\<open>child/connection.rs\<close>, \<^verbatim>\<open>runtime.rs\<close>, \<^verbatim>\<open>navigation.rs\<close>, \<^verbatim>\<open>state.rs\<close>): the dispatch of every
    message, and which document it owns, receives or streams.

  Correspondence. A struct is a record, an enum a datatype with the source's constructors, a function one
  definition with the source's branches; a method that mutates returns the new state, and a \<^verbatim>\<open>Result\<close> is a
  sum with \<open>Inl\<close> the error, so that every early return is a branch. Machine integers are \<open>nat\<close> with the
  checked, saturating or wrapping operation of the source written out, or words where the bits matter
  (\<^verbatim>\<open>f32\<close> and \<^verbatim>\<open>f64\<close> are their bit patterns; the fields of messages are words of their width). A \<^verbatim>\<open>str\<close> is its UTF-8 byte sequence, a \<^verbatim>\<open>BTreeMap\<close> its strictly sorted
  association list; a \<^verbatim>\<open>Mutex\<close> whose holder cannot panic is dropped.

  Interfaces. \<open>total_cmp\<close> is the law of a three-way comparison, proved of IndexedDB keys and of index
  entries; \<open>keyed_map\<close> and \<open>weighted_map\<close> the contract of the ordered maps; \<open>recoverable_file\<close> the crash
  safety of the shared file protocol, instantiated by the four stores with their own readers.
  \<open>wire_format\<close> and \<open>payload_format\<close> say that a field or a payload is read exactly as it is written, and are
  interpreted for every payload of the protocol; \<open>message_format\<close> says it of the messages of a direction, and is
  interpreted for both. \<open>byte_sink\<close> and \<open>byte_source\<close>, with \<open>steady_sink\<close> and \<open>full_source\<close>, are the streams below
  the frames, interpreted for the vectors and slices of the standard library.

  What the lemmas show.
  \<^item> Convergence and order of delivery of Web Storage: every reachable state of the system satisfies an
    invariant that ties each document's projection, pending intents and queue to the authority's area.
  \<^item> Atomicity, durability and crash safety of the stores, serialisability of staged IndexedDB sessions,
    correctness of stores, cursors and generated keys, isolation of the worker's clients.
  \<^item> Well-formedness of header lists, what validated requests satisfy, what a policy admits, which cookies
    are sent and who can read them, what the HTTP cache replays.
  \<^item> Every fetch ends; what it dispatches is authorised; page script reads only what it was granted.
  \<^item> A reader of the protocol accepts exactly what a writer sends, message by message and frame by frame, up to
    the checks that only decoders make (\<open>browser_fits\<close>, \<open>renderer_fits\<close>); a stream cannot be replayed, reordered or
    carried over into another session.
  \<^item> The mailbox, the credit and the slots stay within their bounds, lose nothing and wake whom they must; a
    document that the broker sends is the one the renderer loads, and it loads nothing but complete documents.

  Concurrency. Where threads share state behind a lock, a call that holds the lock is one step, and a run is any
  sequence of steps of any of the threads (the mailbox and its writer, the producers and the receipts of a
  stream, the submitters and the worker); a wait on a condition variable ends only after a wake-up that the code
  sends or one that the system makes up. An engine or a client that is not modelled may do anything at each step.

  Bounds and fuel. All loops are structural or have a measure, apart from three that can run for ever: the
  eviction of the HTTP cache, reading a body, and buffering one. These are \<open>partial_function (option)\<close>, where
  \<open>None\<close> is a call that does not return, and are proved to return: the first as long as the byte counter is
  exact, the others because every chunk uses up the body limit. The redirect loop is counted as in the code
  (\<open>MAX_REDIRECTS\<close> is 20). Quotas and queue bounds are the constants of \<^verbatim>\<open>crates/platform/src/limits.rs\<close>.

  Parameters. Code outside \<^verbatim>\<open>src\<close> is an argument of the definitions: the \<^verbatim>\<open>url\<close> crate (parsing, origins,
  joining), \<^verbatim>\<open>serde_json\<close> (only that reading inverts writing, where a round trip is claimed), the public
  suffix list, the calendar of the \<^verbatim>\<open>time\<close> crate, the digests of CSP hashes, \<^verbatim>\<open>data-url\<close>, the one-hop
  transport (a function of everything dispatched before), clocks, aborted controllers and the outcome of
  each file system call. Nothing is assumed of the transport, the clocks and the disk. In the protocol, the stream
  below the frames (\<^verbatim>\<open>std::io\<close>), the writer of a history action, so that the encoder of a report can be reasoned
  about for any, and the text \<^verbatim>\<open>encoding_rs\<close> makes of bytes; in the renderer's connection, a \<open>handling\<close> for each
  message: what the page engine, the Fetch state and the pipe do while it is handled.

  Not modelled. Process creation, pipes and sandboxing; the calls of WinHTTP and the WebSocket transport;
  the engine itself (HTML, CSS, DOM, layout, painting, the script bindings), media and capture, and the
  Windows user interface: they are dominated by platform calls or by algorithms that do not bear on the
  state modelled here; the presentations of a page (display list, images, semantic tree) and their codec. A poisoned
  lock is not an outcome.
\<close>

end
